(* ===== verification/Prelude.thy ===== *)
theory Prelude
  imports Main "HOL-Library.Word" "HOL-Library.Sublist"
begin

text \<open>
  The vocabulary every other theory of the development shares.

  \<^item> Go's \<^verbatim>\<open>string\<close> and \<^verbatim>\<open>[]byte\<close> are both byte sequences; they are modelled by
    \<^typ>\<open>string\<close>, whose \<^typ>\<open>char\<close> is exactly one byte, so the conversions between the two Go
    types are the identity here.
  \<^item> The functions of Go's package \<^verbatim>\<open>strings\<close> that the program calls.  The Unicode-aware ones
    (\<^verbatim>\<open>ToLower\<close>, \<^verbatim>\<open>EqualFold\<close>, \<^verbatim>\<open>TrimSpace\<close>) are given on the ASCII range, where Go's
    definitions and these agree byte for byte; bytes from 128 on are left alone.
  \<^item> A Go call that returns \<^verbatim>\<open>(value, error)\<close> is a sum: \<^term>\<open>Inl\<close> the error, \<^term>\<open>Inr\<close> the value.
  \<^item> Two collections of rewrite rules: \<open>go_strings\<close> (the string functions) and
    \<open>row_simps\<close> (updates of one row of a table).
\<close>

named_theorems go_strings
named_theorems row_simps

type_synonym bytes = string

subsection \<open>Package strings\<close>

definition has_prefix :: "string \<Rightarrow> string \<Rightarrow> bool" where
  "has_prefix s p \<longleftrightarrow> take (length p) s = p"

definition has_suffix :: "string \<Rightarrow> string \<Rightarrow> bool" where
  "has_suffix s p \<longleftrightarrow> length p \<le> length s \<and> drop (length s - length p) s = p"

definition trim_prefix :: "string \<Rightarrow> string \<Rightarrow> string" where
  "trim_prefix s p = (if has_prefix s p then drop (length p) s else s)"

definition trim_suffix :: "string \<Rightarrow> string \<Rightarrow> string" where
  "trim_suffix s p = (if has_suffix s p then take (length s - length p) s else s)"

definition is_space :: "char \<Rightarrow> bool" where
  "is_space c \<longleftrightarrow> (let n = of_char c :: nat in n = 32 \<or> (9 \<le> n \<and> n \<le> 13))"

definition trim_left :: "(char \<Rightarrow> bool) \<Rightarrow> string \<Rightarrow> string" where
  "trim_left P s = dropWhile P s"

definition trim_right :: "(char \<Rightarrow> bool) \<Rightarrow> string \<Rightarrow> string" where
  "trim_right P s = rev (dropWhile P (rev s))"

definition trim_space :: "string \<Rightarrow> string" where
  "trim_space s = trim_right is_space (trim_left is_space s)"

definition lower_char :: "char \<Rightarrow> char" where
  "lower_char c = (let n = of_char c :: nat in if 65 \<le> n \<and> n \<le> 90 then char_of (n + 32) else c)"

definition upper_char :: "char \<Rightarrow> char" where
  "upper_char c = (let n = of_char c :: nat in if 97 \<le> n \<and> n \<le> 122 then char_of (n - 32) else c)"

definition to_lower :: "string \<Rightarrow> string" where
  "to_lower s = map lower_char s"

definition to_upper :: "string \<Rightarrow> string" where
  "to_upper s = map upper_char s"

definition equal_fold :: "string \<Rightarrow> string \<Rightarrow> bool" where
  "equal_fold s t \<longleftrightarrow> to_lower s = to_lower t"

fun split :: "char \<Rightarrow> string \<Rightarrow> string list" where
  "split c [] = [[]]"
| "split c (x # xs) =
     (if x = c then [] # split c xs
      else (case split c xs of [] \<Rightarrow> [[x]] | w # ws \<Rightarrow> (x # w) # ws))"

text \<open>\<^verbatim>\<open>strings.SplitN(s, sep, n)\<close> for \<open>n > 0\<close>: at most \<open>n\<close> pieces, the last one unsplit.\<close>

fun split_n :: "char \<Rightarrow> nat \<Rightarrow> string \<Rightarrow> string list" where
  "split_n c 0 s = []"
| "split_n c (Suc 0) s = [s]"
| "split_n c (Suc (Suc n)) s =
     (if c \<in> set s
      then takeWhile (\<lambda>x. x \<noteq> c) s # split_n c (Suc n) (tl (dropWhile (\<lambda>x. x \<noteq> c) s))
      else [s])"

text \<open>\<^verbatim>\<open>strings.Cut\<close> at a one-byte separator: the text before, the text after, and whether it occurs.\<close>

definition cut :: "char \<Rightarrow> string \<Rightarrow> string \<times> string \<times> bool" where
  "cut c s =
     (if c \<in> set s
      then (takeWhile (\<lambda>x. x \<noteq> c) s, tl (dropWhile (\<lambda>x. x \<noteq> c) s), True)
      else (s, [], False))"

fun contains :: "string \<Rightarrow> string \<Rightarrow> bool" where
  "contains [] p \<longleftrightarrow> p = []"
| "contains (x # xs) p \<longleftrightarrow> has_prefix (x # xs) p \<or> contains xs p"

text \<open>The byte offset of the last occurrence of \<open>c\<close>, \<open>None\<close> for Go's \<open>-1\<close>.\<close>

fun last_index_from :: "char \<Rightarrow> nat \<Rightarrow> string \<Rightarrow> nat option" where
  "last_index_from c i [] = None"
| "last_index_from c i (x # xs) =
     (case last_index_from c (Suc i) xs of
        Some j \<Rightarrow> Some j
      | None \<Rightarrow> if x = c then Some i else None)"

definition last_index :: "char \<Rightarrow> string \<Rightarrow> nat option" where
  "last_index c s = last_index_from c 0 s"

fun join :: "string \<Rightarrow> string list \<Rightarrow> string" where
  "join sep [] = []"
| "join sep [w] = w"
| "join sep (w # v # ws) = w @ sep @ join sep (v # ws)"

text \<open>\<^verbatim>\<open>io.ReadFull\<close> of \<open>n\<close> bytes from a reader that still holds \<open>src\<close>: an error when it runs short.\<close>

definition read_full :: "bytes \<Rightarrow> nat \<Rightarrow> bytes option" where
  "read_full src n = (if n \<le> length src then Some (take n src) else None)"

subsection \<open>Facts about the string functions\<close>

lemma has_prefix_iff: "has_prefix s p \<longleftrightarrow> (\<exists>t. s = p @ t)"
  by (metis append_eq_conv_conj append_take_drop_id has_prefix_def)

lemma has_prefix_append [simp, go_strings]: "has_prefix (p @ s) p"
  by (simp add: has_prefix_def)

lemma has_prefix_trans: "has_prefix s p \<Longrightarrow> has_prefix p q \<Longrightarrow> has_prefix s q"
  by (auto simp: has_prefix_iff)

lemma trim_prefix_append [simp, go_strings]: "trim_prefix (p @ s) p = s"
  by (simp add: trim_prefix_def)

lemma has_suffix_iff: "has_suffix s p \<longleftrightarrow> (\<exists>t. s = t @ p)"
proof
  assume "has_suffix s p"
  then have "s = take (length s - length p) s @ p"
    by (metis append_take_drop_id has_suffix_def)
  then show "\<exists>t. s = t @ p" ..
qed (auto simp: has_suffix_def)

lemma has_suffix_append [simp, go_strings]: "has_suffix (s @ p) p"
  by (auto simp: has_suffix_iff)

lemma has_suffix_refl [simp, go_strings]: "has_suffix s s"
  by (simp add: has_suffix_def)

lemma trim_suffix_append [simp, go_strings]: "trim_suffix (s @ p) p = s"
  by (simp add: trim_suffix_def)

lemma contains_iff: "contains s p \<longleftrightarrow> (\<exists>a b. s = a @ p @ b)"
proof (induction s)
  case (Cons x xs)
  have "(\<exists>a b. x # xs = a @ p @ b) \<longleftrightarrow> (\<exists>b. x # xs = p @ b) \<or> (\<exists>a b. xs = a @ p @ b)"
    by (metis append_Cons append_Nil list.exhaust list.sel(3))
  with Cons show ?case by (simp add: has_prefix_iff)
qed auto

lemma contains_appendI: "contains s p \<Longrightarrow> contains (a @ s @ b) p"
  by (metis append.assoc contains_iff)

lemma contains_length: "contains s p \<Longrightarrow> length p \<le> length s"
  by (auto simp: contains_iff)

text \<open>An occurrence that was not there before the last piece was added lies in that piece and as
  much of what precedes it as the pattern is long, less one.\<close>

lemma contains_straddle:
  assumes "contains (x @ y @ z) p" "\<not> contains (x @ y) p" "x = [] \<or> length p \<le> Suc (length y)" "p \<noteq> []"
  shows "contains (y @ z) p"
proof -
  obtain a b where e: "x @ (y @ z) = a @ (p @ b)" using assms(1) by (auto simp: contains_iff)
  show ?thesis
  proof (cases "length a < length x")
    case True
    then have "length (a @ p) \<le> length (x @ y)" using assms(3) by auto
    then have "take (length (a @ p)) ((x @ y) @ z) = take (length (a @ p)) (x @ y)" by simp
    moreover have "take (length (a @ p)) ((x @ y) @ z) = a @ p" using e by simp
    ultimately have "a @ p = take (length (a @ p)) (x @ y)" by (rule trans [OF sym, rotated])
    then have "x @ y = (a @ p) @ drop (length (a @ p)) (x @ y)" by (metis append_take_drop_id)
    then have "\<exists>c. x @ y = a @ p @ c" by (metis append.assoc)
    then show ?thesis using assms(2) by (auto simp: contains_iff)
  next
    case False
    then obtain a' where "a = x @ a'" using e by (auto simp: append_eq_append_conv2)
    with e show ?thesis by (auto simp: contains_iff)
  qed
qed

lemma contains_skip: "p \<noteq> [] \<Longrightarrow> hd p \<noteq> c \<Longrightarrow> contains (replicate m c @ s) p = contains s p"
  by (induction m) (auto simp: has_prefix_def neq_Nil_conv)

lemma lower_char_idem [simp]: "lower_char (lower_char c) = lower_char c"
proof (cases "65 \<le> (of_char c :: nat) \<and> (of_char c :: nat) \<le> 90")
  case True
  then have "(of_char (char_of (of_char c + 32 :: nat)) :: nat) = of_char c + 32"
    by simp
  with True show ?thesis by (simp add: lower_char_def Let_def)
qed (auto simp: lower_char_def Let_def)

lemma to_lower_idem [simp, go_strings]: "to_lower (to_lower s) = to_lower s"
  by (simp add: to_lower_def)

lemma to_lower_append [go_strings]: "to_lower (s @ t) = to_lower s @ to_lower t"
  by (simp add: to_lower_def)

lemma equal_fold_refl [simp, go_strings]: "equal_fold s s"
  by (simp add: equal_fold_def)

lemma equal_fold_sym: "equal_fold s t \<Longrightarrow> equal_fold t s"
  by (simp add: equal_fold_def)

lemma equal_fold_trans: "equal_fold s t \<Longrightarrow> equal_fold t u \<Longrightarrow> equal_fold s u"
  by (simp add: equal_fold_def)

lemma trim_right_fixed: "s = [] \<or> \<not> P (last s) \<Longrightarrow> trim_right P s = s"
  by (cases s rule: rev_cases) (auto simp: trim_right_def)

lemma trim_right_last: "trim_right P s = [] \<or> \<not> P (last (trim_right P s))"
  by (metis hd_dropWhile last_rev rev_is_Nil_conv trim_right_def)

lemma trim_right_prefix: "\<exists>t. s = trim_right P s @ t"
  by (metis rev_append rev_rev_ident takeWhile_dropWhile_id trim_right_def)

lemma trim_right_hd: "trim_right P s \<noteq> [] \<Longrightarrow> hd (trim_right P s) = hd s"
  by (metis hd_append2 trim_right_prefix)

lemma trim_left_hd: "trim_left P s = [] \<or> \<not> P (hd (trim_left P s))"
  by (metis hd_dropWhile trim_left_def)

lemma trim_left_fixed: "s = [] \<or> \<not> P (hd s) \<Longrightarrow> trim_left P s = s"
  by (cases s) (auto simp: trim_left_def)

lemma trim_space_idem [simp, go_strings]: "trim_space (trim_space s) = trim_space s"
proof -
  let ?l = "trim_left is_space s" and ?t = "trim_space s"
  have "?t = [] \<or> \<not> is_space (hd ?t)"
    using trim_left_hd [of is_space s] trim_right_hd [of is_space ?l] trim_right_prefix [of ?l is_space]
    by (auto simp: trim_space_def)
  then have "trim_left is_space ?t = ?t" by (rule trim_left_fixed)
  moreover have "?t = [] \<or> \<not> is_space (last ?t)"
    unfolding trim_space_def by (rule trim_right_last)
  then have "trim_right is_space ?t = ?t" by (rule trim_right_fixed)
  ultimately show ?thesis by (metis trim_space_def)
qed

lemma trim_space_Nil [simp, go_strings]: "trim_space [] = []"
  by (simp add: trim_space_def trim_left_def trim_right_def)

lemma split_nonempty [simp]: "split c s \<noteq> []"
  by (induction s) (auto split: list.splits)

lemma split_no_sep: "w \<in> set (split c s) \<Longrightarrow> c \<notin> set w"
proof (induction s arbitrary: w)
  case (Cons x xs)
  obtain v vs where "split c xs = v # vs"
    by (cases "split c xs") auto
  with Cons show ?case by (auto split: if_splits)
qed simp

lemma takeWhile_sep: "c \<notin> set a \<Longrightarrow> takeWhile (\<lambda>x. x \<noteq> c) (a @ c # b) = a"
  by (induction a) auto

lemma dropWhile_sep: "c \<notin> set a \<Longrightarrow> dropWhile (\<lambda>x. x \<noteq> c) (a @ c # b) = c # b"
  by (induction a) auto

lemma split_at_sep: "c \<in> set s \<Longrightarrow> \<exists>a b. s = a @ c # b \<and> c \<notin> set a"
  by (rule split_list_first)

lemma split_n_2:
  "c \<notin> set a \<Longrightarrow> c \<notin> set b \<Longrightarrow> split_n c 3 (a @ c # b) = [a, b]"
  by (simp add: numeral_3_eq_3 takeWhile_sep dropWhile_sep)

lemma split_n_2D:
  assumes "split_n c 3 s = [a, b]"
  shows "s = a @ c # b \<and> c \<notin> set a \<and> c \<notin> set b"
proof (cases "c \<in> set s")
  case True
  then obtain u v where "s = u @ c # v" "c \<notin> set u"
    using split_at_sep by metis
  with assms show ?thesis
    by (auto simp: numeral_3_eq_3 takeWhile_sep dropWhile_sep split: if_splits)
qed (use assms in \<open>simp add: numeral_3_eq_3\<close>)

lemma split_join:
  "ws \<noteq> [] \<Longrightarrow> \<forall>w \<in> set ws. c \<notin> set w \<Longrightarrow> split c (join [c] ws) = ws"
proof (induction "[c]" ws rule: join.induct)
  case (2 w)
  then show ?case by (induction w) auto
next
  case (3 w v ws)
  have "split c (w @ c # t) = w # split c t" if "c \<notin> set w" for t
    using that by (induction w) (auto split: list.splits)
  with 3 show ?case by simp
qed simp

lemma join_split: "join [c] (split c s) = s"
proof (induction s)
  case (Cons x xs)
  obtain w ws where "split c xs = w # ws" by (cases "split c xs") auto
  with Cons show ?case by (cases ws) auto
qed simp

lemma read_full_length: "read_full src n = Some b \<Longrightarrow> length b = n"
  by (auto simp: read_full_def split: if_splits)

subsection \<open>Sequences of steps\<close>

text \<open>
  The components that serve a sequence of requests share two contracts: a state invariant that
  every step keeps, and a fact that, once true in a state with the invariant, every harmless
  step keeps.
\<close>

locale invariant_steps =
  fixes step :: "'e \<Rightarrow> 's \<Rightarrow> 's" and inv :: "'s \<Rightarrow> bool"
  assumes keeps_inv: "inv s \<Longrightarrow> inv (step e s)"
begin

lemma run_inv: "inv s \<Longrightarrow> inv (fold step es s)"
  by (induction es arbitrary: s) (simp_all add: keeps_inv)

end

locale stable_steps = invariant_steps step inv
  for step :: "'e \<Rightarrow> 's \<Rightarrow> 's" and inv :: "'s \<Rightarrow> bool" +
  fixes fact :: "'s \<Rightarrow> bool" and harmless :: "'e \<Rightarrow> bool"
  assumes keeps_fact: "inv s \<Longrightarrow> fact s \<Longrightarrow> harmless e \<Longrightarrow> fact (step e s)"
begin

lemma run_stable: "inv s \<Longrightarrow> fact s \<Longrightarrow> \<forall>e \<in> set es. harmless e \<Longrightarrow> fact (fold step es s)"
  by (induction es arbitrary: s) (simp_all add: keeps_inv keeps_fact)

end

end
