(* ===== verification/Encoding.thy ===== *)
theory Encoding
  imports Prelude
begin

text \<open>
  The encodings of Go's standard library that the program stores and sends values in:
  \<^verbatim>\<open>base64.StdEncoding\<close>, \<^verbatim>\<open>base64.RawStdEncoding\<close>, \<^verbatim>\<open>base64.RawURLEncoding\<close> and \<^verbatim>\<open>hex\<close>.
  The decoders are Go's: line breaks in the input are skipped, the unused low bits of the
  last digit are not checked, and with padding nothing may follow the padding.
  The interface the other components rely on is the locale \<open>codec\<close>: decoding inverts
  encoding, and the encoded text stays within an alphabet.
\<close>

locale codec =
  fixes enc :: "bytes \<Rightarrow> string"
    and dec :: "string \<Rightarrow> bytes option"
    and alphabet :: "char set"
  assumes dec_enc: "dec (enc b) = Some b"
    and enc_alphabet: "set (enc b) \<subseteq> alphabet"
begin

lemma enc_inject: "enc a = enc b \<Longrightarrow> a = b"
  by (metis dec_enc option.inject)

lemma enc_avoids: "c \<notin> alphabet \<Longrightarrow> c \<notin> set (enc b)"
  using enc_alphabet by blast

end

subsection \<open>Alphabets\<close>

definition alnum62 :: string where
  "alnum62 = ''ABCDEFGHIJKLMNOPQRSTUVWXYZabcdefghijklmnopqrstuvwxyz0123456789''"

definition std_alphabet :: string where
  "std_alphabet = alnum62 @ ''+/''"

definition url_alphabet :: string where
  "url_alphabet = alnum62 @ ''-_''"

definition digit_val :: "string \<Rightarrow> char \<Rightarrow> nat option" where
  "digit_val al c = map_of (zip al [0..<64]) c"

definition b64_alphabet :: "string \<Rightarrow> bool" where
  "b64_alphabet al \<longleftrightarrow> distinct al \<and> length al = 64 \<and>
     (\<forall>c \<in> {CHR ''='', CHR ''.'', CHR 0x0A, CHR 0x0D}. c \<notin> set al)"

lemma std_alphabet_ok: "b64_alphabet std_alphabet"
  unfolding b64_alphabet_def std_alphabet_def alnum62_def by simp

lemma url_alphabet_ok: "b64_alphabet url_alphabet"
  unfolding b64_alphabet_def url_alphabet_def alnum62_def by simp

lemma digit_val_nth:
  assumes "b64_alphabet al" "i < 64"
  shows "digit_val al (al ! i) = Some i"
proof -
  have "(al ! i, i) \<in> set (zip al [0..<64])"
    using assms by (auto simp: b64_alphabet_def set_zip)
  then show ?thesis
    using assms by (simp add: digit_val_def b64_alphabet_def)
qed

lemma alphabet_nth_neq:
  "b64_alphabet al \<Longrightarrow> i < 64 \<Longrightarrow>
   al ! i \<noteq> CHR ''='' \<and> al ! i \<noteq> CHR ''.'' \<and> al ! i \<noteq> CHR 0x0A \<and> al ! i \<noteq> CHR 0x0D"
  by (metis b64_alphabet_def insertCI nth_mem)

subsection \<open>Encoding and decoding\<close>

abbreviation byte_val :: "char \<Rightarrow> nat" where
  "byte_val c \<equiv> of_char c"

fun b64_enc :: "string \<Rightarrow> bool \<Rightarrow> bytes \<Rightarrow> string" where
  "b64_enc al pad [] = []"
| "b64_enc al pad [a] =
     [al ! (byte_val a div 4), al ! (byte_val a mod 4 * 16)] @ (if pad then ''=='' else [])"
| "b64_enc al pad [a, b] =
     [al ! (byte_val a div 4), al ! (byte_val a mod 4 * 16 + byte_val b div 16),
      al ! (byte_val b mod 16 * 4)] @ (if pad then ''='' else [])"
| "b64_enc al pad (a # b # c # r) =
     al ! (byte_val a div 4) # al ! (byte_val a mod 4 * 16 + byte_val b div 16) #
     al ! (byte_val b mod 16 * 4 + byte_val c div 64) # al ! (byte_val c mod 64) # b64_enc al pad r"

definition dec2 :: "string \<Rightarrow> char \<Rightarrow> char \<Rightarrow> bytes option" where
  "dec2 al w x = (case (digit_val al w, digit_val al x) of
     (Some v0, Some v1) \<Rightarrow> Some [char_of (v0 * 4 + v1 div 16)]
   | _ \<Rightarrow> None)"

definition dec3 :: "string \<Rightarrow> char \<Rightarrow> char \<Rightarrow> char \<Rightarrow> bytes option" where
  "dec3 al w x y = (case (digit_val al w, digit_val al x, digit_val al y) of
     (Some v0, Some v1, Some v2) \<Rightarrow>
        Some [char_of (v0 * 4 + v1 div 16), char_of (v1 mod 16 * 16 + v2 div 4)]
   | _ \<Rightarrow> None)"

definition dec4 :: "string \<Rightarrow> char \<Rightarrow> char \<Rightarrow> char \<Rightarrow> char \<Rightarrow> bytes option" where
  "dec4 al w x y z = (case (digit_val al w, digit_val al x, digit_val al y, digit_val al z) of
     (Some v0, Some v1, Some v2, Some v3) \<Rightarrow>
        Some [char_of (v0 * 4 + v1 div 16), char_of (v1 mod 16 * 16 + v2 div 4),
              char_of (v2 mod 4 * 64 + v3)]
   | _ \<Rightarrow> None)"

fun b64_dec_digits :: "string \<Rightarrow> bool \<Rightarrow> string \<Rightarrow> bytes option" where
  "b64_dec_digits al pad [] = Some []"
| "b64_dec_digits al pad [w] = None"
| "b64_dec_digits al pad [w, x] = (if pad then None else dec2 al w x)"
| "b64_dec_digits al pad [w, x, y] = (if pad then None else dec3 al w x y)"
| "b64_dec_digits al pad (w # x # y # z # r) =
     (if pad \<and> z = CHR ''='' then
        (if r \<noteq> [] then None
         else if y = CHR ''='' then dec2 al w x else dec3 al w x y)
      else (case dec4 al w x y z of
              None \<Rightarrow> None
            | Some q \<Rightarrow> map_option (\<lambda>b. q @ b) (b64_dec_digits al pad r)))"

definition is_newline :: "char \<Rightarrow> bool" where
  "is_newline c \<longleftrightarrow> c = CHR 0x0A \<or> c = CHR 0x0D"

definition b64_dec :: "string \<Rightarrow> bool \<Rightarrow> string \<Rightarrow> bytes option" where
  "b64_dec al pad s = b64_dec_digits al pad (filter (\<lambda>c. \<not> is_newline c) s)"

definition std64_encode :: "bytes \<Rightarrow> string" where "std64_encode = b64_enc std_alphabet True"
definition std64_decode :: "string \<Rightarrow> bytes option" where "std64_decode = b64_dec std_alphabet True"
definition rawstd64_encode :: "bytes \<Rightarrow> string" where "rawstd64_encode = b64_enc std_alphabet False"
definition rawstd64_decode :: "string \<Rightarrow> bytes option" where "rawstd64_decode = b64_dec std_alphabet False"
definition rawurl64_encode :: "bytes \<Rightarrow> string" where "rawurl64_encode = b64_enc url_alphabet False"
definition rawurl64_decode :: "string \<Rightarrow> bytes option" where "rawurl64_decode = b64_dec url_alphabet False"

lemma byte_val_less [simp]: "byte_val c < 256"
  by simp

lemma byte_val_div [simp]:
  "byte_val a div 4 < 64" "byte_val a div 16 < 16" "byte_val a div 64 < 4"
  by (simp_all add: less_mult_imp_div_less)

lemma sextet_bounds [simp]:
  "byte_val a mod 4 * 16 < 64"
  "byte_val a mod 4 * 16 + byte_val b div 16 < 64"
  "byte_val b mod 16 * 4 < 64"
  "byte_val b mod 16 * 4 + byte_val c div 64 < 64"
  "byte_val c mod 64 < 64"
proof -
  have m: "byte_val a mod 4 < 4" "byte_val b mod 16 < 16" by simp_all
  show "byte_val a mod 4 * 16 < 64" "byte_val b mod 16 * 4 < 64" "byte_val c mod 64 < 64"
    using m by simp_all
  show "byte_val a mod 4 * 16 + byte_val b div 16 < 64"
    using m byte_val_div(2) [of b] by linarith
  show "byte_val b mod 16 * 4 + byte_val c div 64 < 64"
    using m byte_val_div(3) [of c] by linarith
qed

text \<open>Splitting a byte across two digits and putting it back together.\<close>

lemma regroup [simp]:
  "byte_val a div 4 * 4 + (byte_val a mod 4 * 16 + byte_val b div 16) div 16 = byte_val a"
  "(byte_val a mod 4 * 16 + byte_val b div 16) mod 16 = byte_val b div 16"
  "(byte_val b mod 16 * 4 + byte_val c div 64) div 4 = byte_val b mod 16"
  "(byte_val b mod 16 * 4 + byte_val c div 64) mod 4 = byte_val c div 64"
  by simp_all

lemma dec_enc_digits: "b64_alphabet al \<Longrightarrow> b64_dec_digits al pad (b64_enc al pad b) = Some b"
proof (induction al pad b rule: b64_enc.induct)
  case (2 al pad a)
  then show ?case by (simp add: dec2_def digit_val_nth alphabet_nth_neq)
next
  case (3 al pad a b)
  then show ?case by (simp add: dec3_def digit_val_nth alphabet_nth_neq)
next
  case (4 al pad a b c r)
  then show ?case by (simp add: dec4_def digit_val_nth alphabet_nth_neq)
qed simp

lemma b64_enc_set:
  "b64_alphabet al \<Longrightarrow> set (b64_enc al pad b) \<subseteq> set al \<union> (if pad then {CHR ''=''} else {})"
  by (induction al pad b rule: b64_enc.induct) (auto simp: b64_alphabet_def)

lemma b64_enc_no_newline:
  assumes "b64_alphabet al"
  shows "filter (\<lambda>c. \<not> is_newline c) (b64_enc al pad b) = b64_enc al pad b"
proof -
  have "\<not> is_newline c" if "c \<in> set (b64_enc al pad b)" for c
    using that b64_enc_set [OF assms, of pad b] assms
    by (auto simp: is_newline_def b64_alphabet_def split: if_splits)
  then show ?thesis by (simp add: filter_id_conv)
qed

lemma b64_dec_enc: "b64_alphabet al \<Longrightarrow> b64_dec al pad (b64_enc al pad b) = Some b"
  by (simp add: b64_dec_def b64_enc_no_newline dec_enc_digits)

interpretation std64: codec std64_encode std64_decode "insert (CHR ''='') (set std_alphabet)"
  using b64_dec_enc [OF std_alphabet_ok] b64_enc_set [OF std_alphabet_ok, of True]
  by unfold_locales (auto simp: std64_encode_def std64_decode_def)

interpretation rawstd64: codec rawstd64_encode rawstd64_decode "set std_alphabet"
  using b64_dec_enc [OF std_alphabet_ok] b64_enc_set [OF std_alphabet_ok, of False]
  by unfold_locales (auto simp: rawstd64_encode_def rawstd64_decode_def)

interpretation rawurl64: codec rawurl64_encode rawurl64_decode "set url_alphabet"
  using b64_dec_enc [OF url_alphabet_ok] b64_enc_set [OF url_alphabet_ok, of False]
  by unfold_locales (auto simp: rawurl64_encode_def rawurl64_decode_def)

lemma rawurl64_no_dot: "CHR ''.'' \<notin> set (rawurl64_encode b)"
  by (rule rawurl64.enc_avoids) (simp add: url_alphabet_def alnum62_def)

subsection \<open>Hexadecimal\<close>

definition hex_digits :: string where
  "hex_digits = ''0123456789abcdef''"

definition hex_encode :: "bytes \<Rightarrow> string" where
  "hex_encode b = concat (map (\<lambda>c. [hex_digits ! (byte_val c div 16), hex_digits ! (byte_val c mod 16)]) b)"

lemma hex_encode_length: "length (hex_encode b) = 2 * length b"
  by (induction b) (auto simp: hex_encode_def)

lemma hex_digits_nth: "i < 16 \<Longrightarrow> hex_digits ! i \<in> set hex_digits"
  by (intro nth_mem) (simp add: hex_digits_def)

lemma hex_encode_set: "set (hex_encode b) \<subseteq> set hex_digits"
  by (auto simp: hex_encode_def intro!: hex_digits_nth)

end
