(* ===== verification/Capability.thy ===== *)
theory Capability
  imports Encoding
begin

text \<open>
  Capability tokens, \<^verbatim>\<open>internal/capability/token.go\<close>: the signed, short-lived permission to
  use one vault secret against named destinations.

  HMAC-SHA-256, HKDF and the JSON codec are arguments (\<open>mac\<close>, \<open>hkdf\<close>, \<open>marshal\<close>,
  \<open>unmarshal\<close>); nothing is assumed of the first two, and of JSON only, where a round trip
  needs it, that unmarshalling inverts marshalling.  Unix times are \<^typ>\<open>int\<close>; a
  \<^verbatim>\<open>time.Duration\<close> is an \<^typ>\<open>int\<close> of nanoseconds.
\<close>

record token =
  tok_v :: int
  tok_secret :: string
  tok_secret_id :: string
  tok_issuer :: string
  tok_agent :: string
  tok_dests :: "string list"
  tok_method :: string
  tok_iat :: int
  tok_exp :: int
  tok_nonce :: string

datatype key_error = SourceTooShort | HkdfFailed

definition DeriveSigningKey ::
  "(bytes \<Rightarrow> bytes \<Rightarrow> bytes \<Rightarrow> nat \<Rightarrow> bytes option) \<Rightarrow> string \<Rightarrow> key_error + bytes" where
  "DeriveSigningKey hkdf source =
     (if length source < 16 then Inl SourceTooShort
      else (case hkdf source ''trustissues:capability:v1:salt'' ''trustissues:capability:v1:hmac'' 32 of
              None \<Rightarrow> Inl HkdfFailed
            | Some key \<Rightarrow> Inr key))"

definition NewNonce :: "bytes \<Rightarrow> string option" where
  "NewNonce rnd = map_option hex_encode (read_full rnd 16)"

datatype sign_error = MissingField | NoDestination | NonceFailed | MarshalFailed

text \<open>The defaults \<^verbatim>\<open>Sign\<close> fills in before it serialises the token.\<close>

definition fill_times :: "int \<Rightarrow> int \<Rightarrow> token \<Rightarrow> token" where
  "fill_times ttl now t =
     (let t1 = (if tok_iat t = 0 then t\<lparr>tok_iat := now\<rparr> else t);
          ttl' = (if ttl \<le> 0 then 300 * 10 ^ 9 else ttl)
      in if tok_exp t1 = 0 then t1\<lparr>tok_exp := tok_iat t1 + ttl' div 10 ^ 9\<rparr> else t1)"

definition Sign ::
  "('k \<Rightarrow> bytes \<Rightarrow> bytes) \<Rightarrow> (token \<Rightarrow> bytes option) \<Rightarrow> token \<Rightarrow> 'k \<Rightarrow> int \<Rightarrow> int \<Rightarrow> bytes \<Rightarrow>
   sign_error + string" where
  "Sign mac marshal t key ttl now rnd =
     (let t0 = (if tok_v t = 0 then t\<lparr>tok_v := 1\<rparr> else t) in
      if tok_secret t0 = [] \<or> tok_secret_id t0 = [] \<or> tok_issuer t0 = [] \<or> tok_agent t0 = []
      then Inl MissingField
      else if tok_dests t0 = [] then Inl NoDestination
      else
        (let t1 = (if tok_method t0 = [] then t0\<lparr>tok_method := ''*''\<rparr> else t0);
             t2 = fill_times ttl now t1
         in case (if tok_nonce t2 = [] then NewNonce rnd else Some (tok_nonce t2)) of
              None \<Rightarrow> Inl NonceFailed
            | Some n \<Rightarrow>
               (case marshal (t2\<lparr>tok_nonce := n\<rparr>) of
                  None \<Rightarrow> Inl MarshalFailed
                | Some payload \<Rightarrow>
                    Inr (rawurl64_encode payload @ ''.'' @ rawurl64_encode (mac key payload)))))"

datatype verify_error =
  ErrMalformed | ErrBadSignature | ErrExpired | ErrNotYet | ErrWrongVersion | ErrEmpty

text \<open>The checks \<^verbatim>\<open>Verify\<close> makes on the token it has unmarshalled.\<close>

definition check_claims :: "token \<Rightarrow> int \<Rightarrow> verify_error + token" where
  "check_claims t now =
     (if tok_v t \<noteq> 1 then Inl ErrWrongVersion
      else if tok_issuer t = [] then Inl ErrMalformed
      else if now \<ge> tok_exp t then Inl ErrExpired
      else if tok_iat t > now + 30 then Inl ErrNotYet
      else Inr t)"

definition Verify ::
  "('k \<Rightarrow> bytes \<Rightarrow> bytes) \<Rightarrow> (bytes \<Rightarrow> token option) \<Rightarrow> string \<Rightarrow> 'k \<Rightarrow> int \<Rightarrow> verify_error + token" where
  "Verify mac unmarshal str key now =
     (if str = [] then Inl ErrEmpty
      else (case split_n (CHR ''.'') 3 str of
              [p, s] \<Rightarrow>
                (case rawurl64_decode p of
                   None \<Rightarrow> Inl ErrMalformed
                 | Some payload \<Rightarrow>
                    (case rawurl64_decode s of
                       None \<Rightarrow> Inl ErrMalformed
                     | Some sig \<Rightarrow>
                        if sig \<noteq> mac key payload then Inl ErrBadSignature
                        else (case unmarshal payload of
                                None \<Rightarrow> Inl ErrMalformed
                              | Some t \<Rightarrow> check_claims t now)))
            | _ \<Rightarrow> Inl ErrMalformed))"

definition patternMatch :: "string \<Rightarrow> string \<Rightarrow> bool" where
  "patternMatch pat dest =
     (if has_suffix pat ''/*'' then
        (let prefix = trim_suffix pat ''/*''
         in dest = prefix \<or> has_prefix dest (prefix @ ''/''))
      else dest = pat \<or> has_prefix dest (pat @ ''/''))"

definition DestMatches :: "token \<Rightarrow> string \<Rightarrow> string \<Rightarrow> bool" where
  "DestMatches t host path \<longleftrightarrow>
     (let dest = to_lower (host @ path)
      in list_ex (\<lambda>pat. patternMatch (to_lower pat) dest) (tok_dests t))"

definition MethodMatches :: "token \<Rightarrow> string \<Rightarrow> bool" where
  "MethodMatches t method \<longleftrightarrow> tok_method t = ''*'' \<or> equal_fold (tok_method t) method"

subsection \<open>Signing and verifying\<close>

text \<open>The token a successful \<^verbatim>\<open>Sign\<close> has serialised, before its nonce is filled in.\<close>

definition signed_form :: "token \<Rightarrow> int \<Rightarrow> int \<Rightarrow> token" where
  "signed_form t ttl now =
     fill_times ttl now
       (t\<lparr>tok_v := (if tok_v t = 0 then 1 else tok_v t),
          tok_method := (if tok_method t = [] then ''*'' else tok_method t)\<rparr>)"

lemma fill_times_other [simp]:
  "tok_v (fill_times ttl now t) = tok_v t"
  "tok_secret (fill_times ttl now t) = tok_secret t"
  "tok_secret_id (fill_times ttl now t) = tok_secret_id t"
  "tok_issuer (fill_times ttl now t) = tok_issuer t"
  "tok_agent (fill_times ttl now t) = tok_agent t"
  "tok_dests (fill_times ttl now t) = tok_dests t"
  "tok_method (fill_times ttl now t) = tok_method t"
  "tok_nonce (fill_times ttl now t) = tok_nonce t"
  by (auto simp: fill_times_def Let_def)

lemma fill_times_iat: "tok_iat (fill_times ttl now t) = (if tok_iat t = 0 then now else tok_iat t)"
  by (auto simp: fill_times_def Let_def)

lemma fill_times_exp:
  "tok_exp (fill_times ttl now t) =
     (if tok_exp t \<noteq> 0 then tok_exp t
      else (if tok_iat t = 0 then now else tok_iat t) + (if ttl \<le> 0 then 300 else ttl div 10 ^ 9))"
  by (auto simp: fill_times_def Let_def)

lemma Sign_InrE:
  assumes "Sign mac marshal t key ttl now rnd = Inr s"
  obtains n payload where
    "tok_secret t \<noteq> []" "tok_secret_id t \<noteq> []" "tok_issuer t \<noteq> []" "tok_agent t \<noteq> []"
    "tok_dests t \<noteq> []"
    "marshal ((signed_form t ttl now)\<lparr>tok_nonce := n\<rparr>) = Some payload"
    "if tok_nonce t = [] then NewNonce rnd = Some n else n = tok_nonce t"
    "s = rawurl64_encode payload @ ''.'' @ rawurl64_encode (mac key payload)"
proof -
  have form: "fill_times ttl now (if tok_method (if tok_v t = 0 then t\<lparr>tok_v := 1\<rparr> else t) = []
      then (if tok_v t = 0 then t\<lparr>tok_v := 1\<rparr> else t)\<lparr>tok_method := ''*''\<rparr>
      else (if tok_v t = 0 then t\<lparr>tok_v := 1\<rparr> else t)) = signed_form t ttl now"
    by (simp add: signed_form_def)
  from assms show thesis
    by (auto simp: Sign_def Let_def form signed_form_def intro!: that
        split: if_splits option.splits)
qed

lemma Verify_iff:
  "Verify mac unmarshal str key now = Inr t \<longleftrightarrow>
     (\<exists>p s payload. str = p @ ''.'' @ s \<and> CHR ''.'' \<notin> set p \<and> CHR ''.'' \<notin> set s \<and>
        rawurl64_decode p = Some payload \<and> rawurl64_decode s = Some (mac key payload) \<and>
        unmarshal payload = Some t \<and> check_claims t now = Inr t)"
  (is "?L \<longleftrightarrow> ?R")
proof
  assume L: ?L
  then obtain p s where ps: "split_n (CHR ''.'') 3 str = [p, s]"
    by (auto simp: Verify_def split: if_splits list.splits)
  from split_n_2D [OF this] have "str = p @ ''.'' @ s" "CHR ''.'' \<notin> set p" "CHR ''.'' \<notin> set s"
    by auto
  with L ps show ?R
    by (auto simp: Verify_def check_claims_def split: if_splits option.splits)
next
  assume ?R
  then show ?L by (auto simp: Verify_def split_n_2)
qed

lemma check_claims_iff:
  "check_claims t now = Inr t' \<longleftrightarrow>
     t' = t \<and> tok_v t = 1 \<and> tok_issuer t \<noteq> [] \<and> now < tok_exp t \<and> tok_iat t \<le> now + 30"
  by (auto simp: check_claims_def)

text \<open>
  A token that Sign produced verifies under the same key, from the moment it was signed
  until just before its expiry, and Verify hands back exactly the claims that were signed
  (with the defaults filled in), provided the version is the current one.
\<close>

theorem sign_verify_roundtrip:
  assumes sign: "Sign mac marshal t key ttl now rnd = Inr s"
    and json: "\<And>u b. marshal u = Some b \<Longrightarrow> unmarshal b = Some u"
    and version: "tok_v t = 0 \<or> tok_v t = 1"
    and live: "later < tok_exp (signed_form t ttl now)"
    and started: "tok_iat (signed_form t ttl now) \<le> later + 30"
  shows "\<exists>n. Verify mac unmarshal s key later = Inr ((signed_form t ttl now)\<lparr>tok_nonce := n\<rparr>)
           \<and> (tok_nonce t \<noteq> [] \<longrightarrow> n = tok_nonce t)"
proof -
  from sign obtain n payload where
    iss: "tok_issuer t \<noteq> []" and
    m: "marshal ((signed_form t ttl now)\<lparr>tok_nonce := n\<rparr>) = Some payload" and
    n: "if tok_nonce t = [] then NewNonce rnd = Some n else n = tok_nonce t" and
    s: "s = rawurl64_encode payload @ ''.'' @ rawurl64_encode (mac key payload)"
    by (rule Sign_InrE)
  let ?t = "(signed_form t ttl now)\<lparr>tok_nonce := n\<rparr>"
  have "check_claims ?t later = Inr ?t"
    using iss version live started by (auto simp: check_claims_iff signed_form_def)
  then have "Verify mac unmarshal s key later = Inr ?t"
    unfolding Verify_iff using s json [OF m] rawurl64_no_dot rawurl64.dec_enc by blast
  with n show ?thesis by (auto split: if_splits)
qed

text \<open>
  C15. Soundness of Verify: whatever it accepts is two base64url segments of which the second
  decodes to the MAC of the first under the signing key, and the token it returns is the
  decoded payload, of version 1, with an issuer, unexpired and not from the future (beyond
  the thirty seconds of skew).
\<close>

theorem verify_sound:
  assumes "Verify mac unmarshal str key now = Inr t"
  shows "\<exists>p s payload. str = p @ ''.'' @ s \<and> rawurl64_decode p = Some payload \<and>
           rawurl64_decode s = Some (mac key payload) \<and> unmarshal payload = Some t \<and>
           tok_v t = 1 \<and> tok_issuer t \<noteq> [] \<and> now < tok_exp t \<and> tok_iat t \<le> now + 30"
  using assms unfolding Verify_iff check_claims_iff by blast

text \<open>
  Expiry is final: a token that Verify has refused as expired is refused, with an error,
  at every later time.
\<close>

theorem verify_expired_forever:
  assumes "Verify mac unmarshal str key now = Inl ErrExpired" "now \<le> later"
  shows "\<exists>e. Verify mac unmarshal str key later = Inl e"
proof (rule ccontr)
  assume "\<not> ?thesis"
  then obtain t where "Verify mac unmarshal str key later = Inr t"
    by (metis sum.exhaust_sel)
  then obtain p s payload where
    *: "str = p @ ''.'' @ s" "CHR ''.'' \<notin> set p" "CHR ''.'' \<notin> set s"
       "rawurl64_decode p = Some payload" "rawurl64_decode s = Some (mac key payload)"
       "unmarshal payload = Some t" and live: "later < tok_exp t"
    unfolding Verify_iff check_claims_iff by blast
  from * have "Verify mac unmarshal str key now = check_claims t now"
    by (simp add: Verify_def split_n_2)
  with assms live show False by (auto simp: check_claims_def split: if_splits)
qed

subsection \<open>Destinations\<close>

definition pattern_base :: "string \<Rightarrow> string" where
  "pattern_base pat = (if has_suffix pat ''/*'' then trim_suffix pat ''/*'' else pat)"

lemma patternMatch_base:
  "patternMatch pat dest \<longleftrightarrow> dest = pattern_base pat \<or> has_prefix dest (pattern_base pat @ ''/'')"
  by (simp add: patternMatch_def pattern_base_def Let_def)

abbreviation host_of :: "string \<Rightarrow> string" where
  "host_of s \<equiv> takeWhile (\<lambda>c. c \<noteq> CHR ''/'') s"

lemma host_of_append_slash: "host_of (a @ CHR ''/'' # b) = host_of a"
  by (induction a) auto

lemma host_of_no_slash: "CHR ''/'' \<notin> set a \<Longrightarrow> host_of a = a"
  by (induction a) auto

lemma host_of_pattern_base: "host_of (pattern_base pat) = host_of pat"
proof (cases "has_suffix pat ''/*''")
  case True
  then obtain b where "pat = b @ ''/*''" by (auto simp: has_suffix_iff)
  then show ?thesis by (simp add: pattern_base_def host_of_append_slash)
qed (simp add: pattern_base_def)

lemma patternMatch_host: "patternMatch pat dest \<Longrightarrow> host_of dest = host_of pat"
proof -
  assume "patternMatch pat dest"
  then consider "dest = pattern_base pat" | r where "dest = pattern_base pat @ CHR ''/'' # r"
    by (auto simp: patternMatch_base has_prefix_iff)
  then have "host_of dest = host_of (pattern_base pat)"
    by cases (simp_all add: host_of_append_slash)
  then show ?thesis by (simp add: host_of_pattern_base)
qed

lemma lower_char_slash: "lower_char c = CHR ''/'' \<longleftrightarrow> c = CHR ''/''"
proof
  assume l: "lower_char c = CHR ''/''"
  show "c = CHR ''/''"
  proof (cases "65 \<le> byte_val c \<and> byte_val c \<le> 90")
    case True
    then have "byte_val (lower_char c) = byte_val c + 32" by (simp add: lower_char_def)
    moreover have "byte_val (lower_char c) = 47" by (simp add: l)
    ultimately have "byte_val c = 15" by simp
    with True show ?thesis by simp
  qed (use l in \<open>auto simp: lower_char_def Let_def split: if_splits\<close>)
qed (simp add: lower_char_def)

lemma host_of_to_lower: "host_of (to_lower s) = to_lower (host_of s)"
  by (induction s) (auto simp: to_lower_def lower_char_slash)

text \<open>
  A destination pattern never reaches another host: when DestMatches accepts a request to
  a host (which holds no slash, with a path that is empty or starts with one), some pattern of
  the token names exactly that host, up to letter case.  In particular a pattern for
  api.example.com accepts neither api.example.com.evil.net nor evil-api.example.com.
\<close>

theorem dest_matches_same_host:
  assumes match: "DestMatches t host path"
    and host: "CHR ''/'' \<notin> set host"
    and path: "path = [] \<or> hd path = CHR ''/''"
  shows "\<exists>pat \<in> set (tok_dests t). equal_fold (host_of pat) host"
proof -
  from match obtain pat where pat: "pat \<in> set (tok_dests t)"
    and m: "patternMatch (to_lower pat) (to_lower (host @ path))"
    by (auto simp: DestMatches_def list_ex_iff)
  have "host_of (host @ path) = host"
    using host path by (cases path) (auto simp: host_of_no_slash host_of_append_slash)
  with patternMatch_host [OF m] have "to_lower host = to_lower (host_of pat)"
    by (simp add: host_of_to_lower)
  with pat show ?thesis by (auto simp: equal_fold_def)
qed

subsection \<open>Witnesses\<close>

text \<open>A stand-in for the JSON codec and the MAC, for the witnesses only: it keeps the four
  fields the checks look at and rebuilds the sample token around them.\<close>

definition sample_token :: token where
  "sample_token = \<lparr>tok_v = 0, tok_secret = ''stripe'', tok_secret_id = ''e1'', tok_issuer = ''u1'',
     tok_agent = ''claude'', tok_dests = [''api.stripe.com/v1/*''], tok_method = [],
     tok_iat = 0, tok_exp = 0, tok_nonce = ''ab''\<rparr>"

definition sample_marshal :: "token \<Rightarrow> bytes option" where
  "sample_marshal u = (if u = signed_form sample_token 0 1000 then Some ''p'' else None)"

definition sample_unmarshal :: "bytes \<Rightarrow> token option" where
  "sample_unmarshal b = Some (signed_form sample_token 0 1000)"

lemma sample_json: "sample_marshal u = Some b \<Longrightarrow> sample_unmarshal b = Some u"
  by (simp add: sample_marshal_def sample_unmarshal_def split: if_splits)

lemma sample_form:
  "signed_form sample_token 0 1000 =
     \<lparr>tok_v = 1, tok_secret = ''stripe'', tok_secret_id = ''e1'', tok_issuer = ''u1'',
      tok_agent = ''claude'', tok_dests = [''api.stripe.com/v1/*''], tok_method = ''*'',
      tok_iat = 1000, tok_exp = 1300, tok_nonce = ''ab''\<rparr>"
  by (simp add: signed_form_def sample_token_def fill_times_def Let_def)

definition sample_mac :: "bytes \<Rightarrow> bytes \<Rightarrow> bytes" where
  "sample_mac k m = k @ m"

definition sample_signed :: string where
  "sample_signed = rawurl64_encode ''p'' @ ''.'' @ rawurl64_encode (sample_mac ''k'' ''p'')"

lemma sample_sign: "Sign sample_mac sample_marshal sample_token ''k'' 0 1000 [] = Inr sample_signed"
proof -
  have "fill_times 0 1000 (sample_token\<lparr>tok_v := 1, tok_method := ''*''\<rparr>) = signed_form sample_token 0 1000"
    by (simp add: signed_form_def sample_token_def)
  then show ?thesis
    unfolding Sign_def sample_marshal_def sample_signed_def sample_form
    by (simp add: sample_token_def Let_def)
qed

theorem sign_verify_roundtrip_witness:
  "\<exists>n. Verify sample_mac sample_unmarshal sample_signed ''k'' 1299 =
     Inr ((signed_form sample_token 0 1000)\<lparr>tok_nonce := n\<rparr>) \<and> (tok_nonce sample_token \<noteq> [] \<longrightarrow> n = tok_nonce sample_token)"
  by (rule sign_verify_roundtrip [OF sample_sign sample_json])
    (simp_all only: sample_form, simp_all add: sample_token_def)

lemma sample_verify: "Verify sample_mac sample_unmarshal sample_signed ''k'' now =
    check_claims (signed_form sample_token 0 1000) now"
  unfolding Verify_def sample_signed_def sample_unmarshal_def
  using split_n_2 [OF rawurl64_no_dot rawurl64_no_dot, of "''p''" "sample_mac ''k'' ''p''"]
  by (simp add: rawurl64.dec_enc)

theorem verify_sound_witness:
  "tok_v (signed_form sample_token 0 1000) = 1 \<and>
   (\<exists>p s payload. sample_signed = p @ ''.'' @ s \<and> rawurl64_decode p = Some payload \<and>
      rawurl64_decode s = Some (sample_mac ''k'' payload))"
proof -
  have "Verify sample_mac sample_unmarshal sample_signed ''k'' 1299 = Inr (signed_form sample_token 0 1000)"
    unfolding sample_verify sample_form by (simp add: check_claims_def)
  from verify_sound [OF this] show ?thesis by blast
qed

theorem verify_expired_forever_witness:
  "\<exists>e. Verify sample_mac sample_unmarshal sample_signed ''k'' 5000 = Inl e"
proof -
  have "Verify sample_mac sample_unmarshal sample_signed ''k'' 1300 = Inl ErrExpired"
    unfolding sample_verify sample_form by (simp add: check_claims_def)
  then show ?thesis by (rule verify_expired_forever) simp
qed

theorem dest_matches_same_host_witness:
  "\<exists>pat \<in> set (tok_dests sample_token). equal_fold (host_of pat) ''API.stripe.com''"
  by (rule dest_matches_same_host [of _ _ "''/v1/charges''"]) (code_simp, simp_all)

end
