(* ===== verification/Netip.thy ===== *)
theory Netip
  imports Prelude
begin

text \<open>
  The parts of Go's packages \<^verbatim>\<open>net\<close> and \<^verbatim>\<open>net/netip\<close> the program decides with: parsing of IPv4
  and IPv6 literals and CIDR prefixes, prefix membership, the 4-in-6 unmapping, the address
  classes, and \<^verbatim>\<open>net.SplitHostPort\<close>; and \<^verbatim>\<open>strconv.Atoi\<close> as a recogniser.
  An address is the word Go stores; the zero \<^verbatim>\<open>netip.Addr\<close> is \<open>NoAddr\<close>.
\<close>

unbundle bit_operations_syntax

datatype addr = NoAddr | V4 "32 word" | V6 "128 word" string

datatype prefix = Prefix addr nat

subsection \<open>Digits\<close>

definition is_digit :: "char \<Rightarrow> bool" where
  "is_digit c \<longleftrightarrow> (let n = of_char c :: nat in 48 \<le> n \<and> n \<le> 57)"

definition hex_val :: "char \<Rightarrow> int option" where
  "hex_val c = (let n = of_char c :: int in
     if 48 \<le> n \<and> n \<le> 57 then Some (n - 48)
     else if 97 \<le> n \<and> n \<le> 102 then Some (n - 87)
     else if 65 \<le> n \<and> n \<le> 70 then Some (n - 55)
     else None)"

definition dec_number :: "string \<Rightarrow> int" where
  "dec_number s = foldl (\<lambda>v c. v * 10 + (of_char c - 48)) 0 s"

definition hex_number :: "string \<Rightarrow> int" where
  "hex_number s = foldl (\<lambda>v c. v * 16 + (case hex_val c of Some d \<Rightarrow> d | None \<Rightarrow> 0)) 0 s"

text \<open>\<^verbatim>\<open>strconv.Atoi\<close>: an optional sign, at least one digit, and a value within an int64.\<close>

definition atoi :: "string \<Rightarrow> int option" where
  "atoi s =
     (let neg = (s \<noteq> [] \<and> hd s = CHR ''-'');
          ds = (if s \<noteq> [] \<and> hd s \<in> {CHR ''+'', CHR ''-''} then tl s else s);
          v = (if neg then - dec_number ds else dec_number ds)
      in if ds \<noteq> [] \<and> list_all is_digit ds \<and> - (2 ^ 63) \<le> v \<and> v < 2 ^ 63 then Some v else None)"

subsection \<open>Address literals\<close>

definition octet :: "string \<Rightarrow> int option" where
  "octet s = (if s \<noteq> [] \<and> list_all is_digit s \<and> (length s = 1 \<or> hd s \<noteq> CHR ''0'') \<and> dec_number s \<le> 255
              then Some (dec_number s) else None)"

definition parse4 :: "string \<Rightarrow> (int \<times> int \<times> int \<times> int) option" where
  "parse4 s =
     (case split (CHR ''.'') s of
        [a, b, c, d] \<Rightarrow>
          (case (octet a, octet b, octet c, octet d) of
             (Some w, Some x, Some y, Some z) \<Rightarrow> Some (w, x, y, z)
           | _ \<Rightarrow> None)
      | _ \<Rightarrow> None)"

definition v4_of :: "int \<times> int \<times> int \<times> int \<Rightarrow> addr" where
  "v4_of q = (case q of (w, x, y, z) \<Rightarrow> V4 (word_of_int (((w * 256 + x) * 256 + y) * 256 + z)))"

fun parse6_fields ::
  "nat \<Rightarrow> int list \<Rightarrow> nat option \<Rightarrow> string \<Rightarrow> (int list \<times> nat option \<times> string) option" where
  "parse6_fields 0 fs e s = Some (rev fs, e, s)"
| "parse6_fields (Suc r) fs e s =
     (let ds = takeWhile (\<lambda>c. hex_val c \<noteq> None) s; rest = drop (length ds) s in
      if ds = [] \<or> length ds > 4 then None
      else if rest \<noteq> [] \<and> hd rest = CHR ''.'' then
        (if e = None \<and> length fs \<noteq> 6 \<or> length fs + 2 > 8 then None
         else (case parse4 s of
                 None \<Rightarrow> None
               | Some (a, b, c, d) \<Rightarrow> Some (rev fs @ [a * 256 + b, c * 256 + d], e, [])))
      else
        (let fs' = hex_number ds # fs in
         case rest of
           [] \<Rightarrow> Some (rev fs', e, [])
         | c # t \<Rightarrow>
            if c \<noteq> CHR '':'' \<or> t = [] then None
            else if hd t = CHR '':'' then
              (if e \<noteq> None then None
               else if tl t = [] then Some (rev fs', Some (length fs'), [])
               else parse6_fields r fs' (Some (length fs')) (tl t))
            else parse6_fields r fs' e t))"

definition v6_of :: "int list \<Rightarrow> string \<Rightarrow> addr" where
  "v6_of fs zone = V6 (word_of_int (foldl (\<lambda>v f. v * 65536 + f) 0 fs)) zone"

definition parse6 :: "string \<Rightarrow> addr option" where
  "parse6 inp =
     (case cut (CHR ''%'') inp of (s, zone, zoned) \<Rightarrow>
       if zoned \<and> zone = [] then None
       else if s = ''::'' then Some (V6 0 zone)
       else
         (case (if has_prefix s ''::'' then parse6_fields 8 [] (Some 0) (drop 2 s)
                else parse6_fields 8 [] None s) of
            None \<Rightarrow> None
          | Some (fs, e, rest) \<Rightarrow>
             if rest \<noteq> [] then None
             else if length fs < 8 then
               (case e of
                  None \<Rightarrow> None
                | Some k \<Rightarrow> Some (v6_of (take k fs @ replicate (8 - length fs) 0 @ drop k fs) zone))
             else if e \<noteq> None then None
             else Some (v6_of fs zone)))"

text \<open>\<^verbatim>\<open>netip.ParseAddr\<close>: the first dot, colon or percent sign decides which parser runs.\<close>

definition parse_addr :: "string \<Rightarrow> addr option" where
  "parse_addr s =
     (case dropWhile (\<lambda>c. c \<notin> {CHR ''.'', CHR '':'', CHR ''%''}) s of
        [] \<Rightarrow> None
      | c # _ \<Rightarrow>
         if c = CHR ''.'' then map_option v4_of (parse4 s)
         else if c = CHR '':'' then parse6 s
         else None)"

fun zone_of :: "addr \<Rightarrow> string" where
  "zone_of (V6 _ z) = z"
| "zone_of _ = []"

fun bit_len :: "addr \<Rightarrow> nat" where
  "bit_len NoAddr = 0"
| "bit_len (V4 _) = 32"
| "bit_len (V6 _ _) = 128"

text \<open>\<^verbatim>\<open>net.ParseIP\<close> succeeds on an unzoned literal.\<close>

definition parse_ip_ok :: "string \<Rightarrow> bool" where
  "parse_ip_ok s = (case parse_addr s of Some a \<Rightarrow> zone_of a = [] | None \<Rightarrow> False)"

fun is_4in6 :: "addr \<Rightarrow> bool" where
  "is_4in6 (V6 w _) \<longleftrightarrow> drop_bit 32 w = 0xffff"
| "is_4in6 _ \<longleftrightarrow> False"

fun unmap :: "addr \<Rightarrow> addr" where
  "unmap (V6 w z) = (if is_4in6 (V6 w z) then V4 (ucast w) else V6 w z)"
| "unmap a = a"

subsection \<open>Prefixes\<close>

fun prefix_contains :: "prefix \<Rightarrow> addr \<Rightarrow> bool" where
  "prefix_contains (Prefix (V4 p) n) (V4 w) \<longleftrightarrow> n \<le> 32 \<and> drop_bit (32 - n) w = drop_bit (32 - n) p"
| "prefix_contains (Prefix (V6 p _) n) (V6 w z) \<longleftrightarrow>
     z = [] \<and> n \<le> 128 \<and> drop_bit (128 - n) w = drop_bit (128 - n) p"
| "prefix_contains _ _ \<longleftrightarrow> False"

fun masked :: "prefix \<Rightarrow> prefix" where
  "masked (Prefix (V4 p) n) = Prefix (V4 (push_bit (32 - n) (drop_bit (32 - n) p))) n"
| "masked (Prefix (V6 p z) n) = Prefix (V6 (push_bit (128 - n) (drop_bit (128 - n) p)) z) n"
| "masked p = p"

definition parse_prefix :: "string \<Rightarrow> prefix option" where
  "parse_prefix s =
     (case last_index (CHR ''/'') s of
        None \<Rightarrow> None
      | Some i \<Rightarrow>
         (case parse_addr (take i s) of
            None \<Rightarrow> None
          | Some a \<Rightarrow>
             (let bs = drop (Suc i) s in
              if zone_of a \<noteq> [] then None
              else if length bs > 1 \<and> (\<not> is_digit (hd bs) \<or> hd bs = CHR ''0'') then None
              else (case atoi bs of
                      None \<Rightarrow> None
                    | Some n \<Rightarrow> if n < 0 \<or> n > int (bit_len a) then None else Some (Prefix a (nat n))))))"

subsection \<open>Address classes\<close>

definition is_unspecified :: "addr \<Rightarrow> bool" where
  "is_unspecified a \<longleftrightarrow> a = V4 0 \<or> a = V6 0 []"

definition is_loopback :: "addr \<Rightarrow> bool" where
  "is_loopback a = (case unmap a of
     NoAddr \<Rightarrow> False | V4 w \<Rightarrow> drop_bit 24 w = 127 | V6 w _ \<Rightarrow> w = 1)"

definition is_link_local_unicast :: "addr \<Rightarrow> bool" where
  "is_link_local_unicast a = (case unmap a of
     NoAddr \<Rightarrow> False | V4 w \<Rightarrow> drop_bit 16 w = 0xa9fe | V6 w _ \<Rightarrow> drop_bit 118 w = 0x3fa)"

definition is_link_local_multicast :: "addr \<Rightarrow> bool" where
  "is_link_local_multicast a = (case unmap a of
     NoAddr \<Rightarrow> False | V4 w \<Rightarrow> drop_bit 8 w = 0xe00000 | V6 w _ \<Rightarrow> drop_bit 112 w AND 0xff0f = 0xff02)"

definition is_interface_local_multicast :: "addr \<Rightarrow> bool" where
  "is_interface_local_multicast a = (case unmap a of
     V6 w _ \<Rightarrow> drop_bit 112 w AND 0xff0f = 0xff01 | _ \<Rightarrow> False)"

subsection \<open>Host and port\<close>

definition split_host_port :: "string \<Rightarrow> (string \<times> string) option" where
  "split_host_port hp =
     (case last_index (CHR '':'') hp of
        None \<Rightarrow> None
      | Some i \<Rightarrow>
         if hd hp = CHR ''['' then
           (let end = length (takeWhile (\<lambda>c. c \<noteq> CHR '']'') hp) in
            if CHR '']'' \<notin> set hp \<or> Suc end \<noteq> i then None
            else if CHR ''['' \<in> set (drop 1 hp) \<or> CHR '']'' \<in> set (drop (Suc end) hp) then None
            else Some (take (end - 1) (drop 1 hp), drop (Suc i) hp))
         else if CHR '':'' \<in> set (take i hp) then None
         else if CHR ''['' \<in> set hp \<or> CHR '']'' \<in> set hp then None
         else Some (take i hp, drop (Suc i) hp))"

lemma drop_push_drop: "drop_bit m (push_bit m (drop_bit m w)) = drop_bit m (w :: 'a::len word)"
  by (rule bit_word_eqI) (auto simp: bit_simps dest: bit_imp_le_length)

lemma prefix_contains_masked: "prefix_contains (masked p) a = prefix_contains p a"
  by (cases "(p, a)" rule: prefix_contains.cases) (simp_all add: drop_push_drop)

end
