(* ===== verification/Destinations.thy ===== *)
theory Destinations
  imports Capability Netip
begin

text \<open>
  Where a secret may be sent.  The destination grammar and its uses in
  \<^verbatim>\<open>internal/handlers\<close>: the matcher the proxy enforces with (\<^verbatim>\<open>capability.go\<close>), the
  validator and normaliser of stored patterns (\<^verbatim>\<open>capability_patterns.go\<close>), the covering test
  that decides whether an edit widens a ceiling and the provider pin (\<^verbatim>\<open>secret_egress.go\<close>), the
  inference-route table (\<^verbatim>\<open>provider_routes.go\<close>), and the private-address guard
  (\<^verbatim>\<open>internal/alerts/channels.go\<close>).
\<close>

subsection \<open>Matching a request against stored patterns\<close>

definition splitHostPath :: "string \<Rightarrow> string \<times> string" where
  "splitHostPath dest =
     (if CHR ''/'' \<in> set dest
      then (host_of dest, dropWhile (\<lambda>c. c \<noteq> CHR ''/'') dest)
      else (dest, []))"

definition hostIsWildcarded :: "string \<Rightarrow> bool" where
  "hostIsWildcarded pat \<longleftrightarrow> CHR ''*'' \<in> set (if CHR ''/'' \<in> set pat then host_of pat else pat)"

definition dests_only :: "string list \<Rightarrow> token" where
  "dests_only ds = \<lparr>tok_v = 0, tok_secret = [], tok_secret_id = [], tok_issuer = [], tok_agent = [],
     tok_dests = ds, tok_method = [], tok_iat = 0, tok_exp = 0, tok_nonce = []\<rparr>"

definition destMatches :: "string list \<Rightarrow> string \<Rightarrow> string \<Rightarrow> bool" where
  "destMatches dests host path =
     (let safe = filter (\<lambda>pat. \<not> hostIsWildcarded pat) dests
      in if safe = [] then False else DestMatches (dests_only safe) host path)"

subsection \<open>Path normalisation\<close>

text \<open>\<^verbatim>\<open>path.Clean\<close>, on the slash-separated elements; \<open>acc\<close> is the output so far, reversed.\<close>

fun clean_elems :: "bool \<Rightarrow> string list \<Rightarrow> string list \<Rightarrow> string list" where
  "clean_elems rooted acc [] = rev acc"
| "clean_elems rooted acc (w # ws) =
     (if w = [] \<or> w = ''.'' then clean_elems rooted acc ws
      else if w = ''..'' then
        (case acc of
           [] \<Rightarrow> clean_elems rooted (if rooted then [] else [''..'']) ws
         | a # as \<Rightarrow> clean_elems rooted (if a = ''..'' then ''..'' # acc else as) ws)
      else clean_elems rooted (w # acc) ws)"

definition path_clean :: "string \<Rightarrow> string" where
  "path_clean p =
     (if p = [] then ''.''
      else
        (let rooted = (hd p = CHR ''/'');
             out = join ''/'' (clean_elems rooted [] (split (CHR ''/'') p))
         in if rooted then CHR ''/'' # out else if out = [] then ''.'' else out))"

definition normalizePath :: "string \<Rightarrow> string \<times> bool" where
  "normalizePath p =
     (if p = [] \<or> p = ''/'' then (p, True)
      else
        (let c = path_clean p;
             cleaned = (if c \<noteq> ''/'' \<and> has_suffix p ''/'' then c @ ''/'' else c)
         in (cleaned, cleaned = p)))"

definition destPathNormalized :: "string \<Rightarrow> bool" where
  "destPathNormalized dest = snd (normalizePath (snd (splitHostPath dest)))"

subsection \<open>Does one pattern cover another\<close>

definition pathGlobCovers :: "string \<Rightarrow> string \<Rightarrow> bool" where
  "pathGlobCovers c n =
     (if c = [] \<or> c = ''/'' \<or> c = ''/*'' then True
      else if has_suffix c ''/*'' then
        (let prefix = trim_suffix c ''/*''; nBase = trim_suffix n ''/*''
         in nBase = prefix \<or> has_prefix nBase (prefix @ ''/''))
      else if n = c then True
      else if has_suffix n ''/*'' then has_prefix (trim_suffix n ''/*'' @ ''/'') (c @ ''/'')
      else has_prefix n (c @ ''/''))"

definition destinationCovers :: "string \<Rightarrow> string \<Rightarrow> bool" where
  "destinationCovers c0 n0 =
     (let c = to_lower (trim_space c0); n = to_lower (trim_space n0) in
      if c = [] \<or> n = [] then False
      else if hostIsWildcarded c then False
      else
        (case (splitHostPath c, splitHostPath n) of ((cHost, cPath), (nHost, nPath)) \<Rightarrow>
           if cHost \<noteq> nHost then False else pathGlobCovers cPath nPath))"

definition widenedDestinations :: "string list \<Rightarrow> string list \<Rightarrow> string list" where
  "widenedDestinations current nxt =
     filter (\<lambda>n. trim_space n \<noteq> [] \<and> \<not> list_ex (\<lambda>c. destinationCovers c n) current) nxt"

subsection \<open>The provider pin\<close>

record egressPin =
  pin_hosts :: "string list"
  pin_settings :: "string list"

definition pinned :: "egressPin \<Rightarrow> bool" where
  "pinned p \<longleftrightarrow> pin_hosts p \<noteq> []"

definition providerAPIHost :: "string \<Rightarrow> string" where
  "providerAPIHost host =
     (let h = to_lower (trim_space host) in
      case last_index (CHR '':'') h of
        Some i \<Rightarrow> (if atoi (drop (Suc i) h) \<noteq> None then take i h else h)
      | None \<Rightarrow> h)"

definition allowsHost :: "egressPin \<Rightarrow> string \<Rightarrow> bool" where
  "allowsHost p host \<longleftrightarrow> list_ex (\<lambda>q. providerAPIHost host = q) (pin_hosts p)"

definition allowsPattern :: "egressPin \<Rightarrow> string \<Rightarrow> bool" where
  "allowsPattern p pat \<longleftrightarrow> allowsHost p (fst (splitHostPath (trim_space pat)))"

text \<open>The providers of \<^verbatim>\<open>aiProviders\<close> in name order: API host and settings key.\<close>

definition sortedAIProviders :: "(string \<times> string) list" where
  "sortedAIProviders = [(''api.anthropic.com'', ''ai_key_anthropic''), (''api.openai.com'', ''ai_key_openai'')]"

datatype setting = NoRow | ReadError | Value string

fun pin_loop :: "(string \<Rightarrow> setting) \<Rightarrow> string \<Rightarrow> (string \<times> string) list \<Rightarrow> egressPin \<Rightarrow> egressPin option" where
  "pin_loop get entryID [] pin = Some pin"
| "pin_loop get entryID ((h, k) # ps) pin =
     (case get k of
        NoRow \<Rightarrow> pin_loop get entryID ps pin
      | ReadError \<Rightarrow> None
      | Value v \<Rightarrow>
          pin_loop get entryID ps
            (if v \<noteq> [] \<and> v = entryID
             then pin\<lparr>pin_hosts := pin_hosts pin @ [h], pin_settings := pin_settings pin @ [k]\<rparr>
             else pin))"

definition providerPinFor :: "(string \<Rightarrow> setting) option \<Rightarrow> string \<Rightarrow> egressPin option" where
  "providerPinFor q entryID =
     (let empty = \<lparr>pin_hosts = [], pin_settings = []\<rparr> in
      if entryID = [] then Some empty
      else (case q of None \<Rightarrow> None | Some get \<Rightarrow> pin_loop get entryID sortedAIProviders empty))"

definition firstDestinationOutsidePin :: "egressPin \<Rightarrow> string list \<Rightarrow> string option" where
  "firstDestinationOutsidePin pin dests =
     (if \<not> pinned pin then None else List.find (\<lambda>d. \<not> allowsPattern pin d) dests)"

subsection \<open>Inference routes\<close>

record upstreamRoute =
  rt_method :: string
  rt_path :: string
  rt_prefix :: bool

definition route :: "string \<Rightarrow> string \<Rightarrow> bool \<Rightarrow> upstreamRoute" where
  "route m p b = \<lparr>rt_method = m, rt_path = p, rt_prefix = b\<rparr>"

definition anthropicRoutes :: "upstreamRoute list" where
  "anthropicRoutes =
     [route ''POST'' ''/v1/messages'' False, route ''POST'' ''/v1/messages/count_tokens'' False,
      route ''POST'' ''/v1/complete'' False, route ''GET'' ''/v1/models'' False,
      route ''GET'' ''/v1/models/'' True]"

definition openaiRoutes :: "upstreamRoute list" where
  "openaiRoutes =
     [route ''POST'' ''/v1/chat/completions'' False, route ''POST'' ''/v1/responses'' False,
      route ''POST'' ''/v1/embeddings'' False, route ''POST'' ''/v1/moderations'' False,
      route ''POST'' ''/v1/completions'' False, route ''GET'' ''/v1/models'' False,
      route ''GET'' ''/v1/models/'' True]"

definition providerInferenceRoutes :: "string \<Rightarrow> upstreamRoute list option" where
  "providerInferenceRoutes h =
     map_of [(''api.anthropic.com'', anthropicRoutes), (''api.openai.com'', openaiRoutes)] h"

definition safeUpstreamSegment :: "string \<Rightarrow> bool" where
  "safeUpstreamSegment s \<longleftrightarrow> s \<noteq> [] \<and> list_all (\<lambda>c. c \<in> set (alnum62 @ ''._~:-'')) s"

definition normalizeUpstreamPath :: "string \<Rightarrow> string" where
  "normalizeUpstreamPath raw = path_clean (if has_prefix raw ''/'' then raw else CHR ''/'' # raw)"

definition route_admits :: "string \<Rightarrow> string \<Rightarrow> upstreamRoute \<Rightarrow> bool" where
  "route_admits method clean rt \<longleftrightarrow>
     rt_method rt = method \<and>
     (if rt_prefix rt
      then has_prefix clean (rt_path rt) \<and> safeUpstreamSegment (drop (length (rt_path rt)) clean)
      else clean = rt_path rt)"

definition allowedUpstreamRoute :: "upstreamRoute list \<Rightarrow> string \<Rightarrow> string \<Rightarrow> string option" where
  "allowedUpstreamRoute routes method rawPath =
     (let clean = normalizeUpstreamPath rawPath
      in if list_ex (route_admits method clean) routes then Some clean else None)"

datatype routeDecision = NotProvider | RouteDenied | RouteAllowed string

definition allowedProviderRoute :: "string \<Rightarrow> string \<Rightarrow> string \<Rightarrow> routeDecision" where
  "allowedProviderRoute host method rawPath =
     (case providerInferenceRoutes (providerAPIHost host) of
        None \<Rightarrow> NotProvider
      | Some routes \<Rightarrow>
         (case allowedUpstreamRoute routes (to_upper method) rawPath of
            None \<Rightarrow> RouteDenied
          | Some clean \<Rightarrow> RouteAllowed clean))"

subsection \<open>The private-address guard\<close>

definition privateAlertRanges :: "prefix list" where
  "privateAlertRanges =
     [Prefix (V4 0x7f000000) 8, Prefix (V4 0x0a000000) 8, Prefix (V4 0xac100000) 12,
      Prefix (V4 0xc0a80000) 16, Prefix (V4 0xa9fe0000) 16, Prefix (V4 0) 8, Prefix (V4 0x64400000) 10,
      Prefix (V6 1 []) 128, Prefix (V6 0xfc000000000000000000000000000000 []) 7,
      Prefix (V6 0xfe800000000000000000000000000000 []) 10]"

definition isPrivateAlertAddr :: "addr \<Rightarrow> bool" where
  "isPrivateAlertAddr a \<longleftrightarrow>
     list_ex (\<lambda>p. prefix_contains p a) privateAlertRanges \<or>
     is_unspecified a \<or> is_loopback a \<or> is_link_local_unicast a \<or> is_link_local_multicast a \<or>
     is_interface_local_multicast a \<or> a = NoAddr"

datatype dial_error = MalformedAddress | UnresolvedAddress | ZonedAddress | PrivateAddress

definition guardDialAddress :: "string \<Rightarrow> dial_error option" where
  "guardDialAddress address =
     (case split_host_port address of
        None \<Rightarrow> Some MalformedAddress
      | Some (host, _) \<Rightarrow>
         (case parse_addr host of
            None \<Rightarrow> Some UnresolvedAddress
          | Some a \<Rightarrow>
             if zone_of a \<noteq> [] then Some ZonedAddress
             else if isPrivateAlertAddr (unmap a) then Some PrivateAddress
             else None))"

subsection \<open>Validating stored patterns\<close>

datatype dest_error =
  TooManyPatterns | EmptyPattern | NotHostPath | BadCharacter | NoHost | WildcardHost
| LocalHost | ZonedHost | NonPublicHost | UnqualifiedHost

definition maxDestinationPatterns :: nat where
  "maxDestinationPatterns = 20"

definition trimIPv6Brackets :: "string \<Rightarrow> string" where
  "trimIPv6Brackets host =
     (if 2 \<le> length host \<and> hd host = CHR ''['' \<and> last host = CHR '']''
      then butlast (tl host) else host)"

definition rejectNonPublicDestinationHost :: "string \<Rightarrow> dest_error option" where
  "rejectNonPublicDestinationHost hostOnly =
     (case parse_addr hostOnly of
        None \<Rightarrow> None
      | Some a \<Rightarrow>
         if zone_of a \<noteq> [] then Some ZonedHost
         else if isPrivateAlertAddr (unmap a) then Some NonPublicHost
         else None)"

definition validatePattern :: "string \<Rightarrow> dest_error option" where
  "validatePattern raw =
     (let p = trim_space raw in
      if p = [] then Some EmptyPattern
      else if contains p ''://'' \<or> contains p ''@'' then Some NotHostPath
      else if \<exists>c \<in> set p. c = CHR '' '' \<or> c = CHR 0x09 \<or> c = CHR 0x5C then Some BadCharacter
      else
        (let host = (if CHR ''/'' \<in> set p then host_of p else p) in
         if host = [] then Some NoHost
         else if CHR ''*'' \<in> set host then Some WildcardHost
         else
           (let hostOnly = trimIPv6Brackets (case split_host_port host of Some (h, _) \<Rightarrow> h | None \<Rightarrow> host) in
            if equal_fold hostOnly ''localhost'' then Some LocalHost
            else (case rejectNonPublicDestinationHost hostOnly of
                    Some e \<Rightarrow> Some e
                  | None \<Rightarrow> if CHR ''.'' \<notin> set hostOnly then Some UnqualifiedHost else None))))"

fun validate_all :: "string list \<Rightarrow> dest_error option" where
  "validate_all [] = None"
| "validate_all (p # ps) = (case validatePattern p of Some e \<Rightarrow> Some e | None \<Rightarrow> validate_all ps)"

definition ValidateDestinationPatterns :: "string list \<Rightarrow> dest_error option" where
  "ValidateDestinationPatterns ps =
     (if length ps > maxDestinationPatterns then Some TooManyPatterns else validate_all ps)"

fun normalize_loop :: "string list \<Rightarrow> string list \<Rightarrow> string list" where
  "normalize_loop seen [] = []"
| "normalize_loop seen (q # ps) =
     (let p = trim_space q in
      if p = [] \<or> p \<in> set seen then normalize_loop seen ps
      else p # normalize_loop (p # seen) ps)"

definition NormalizeDestinationPatterns :: "string list \<Rightarrow> string list" where
  "NormalizeDestinationPatterns ps = normalize_loop [] ps"

subsection \<open>Facts about hosts and paths\<close>

lemma splitHostPath_append: "fst (splitHostPath d) @ snd (splitHostPath d) = d"
  by (simp add: splitHostPath_def)

lemma splitHostPath_fst: "fst (splitHostPath d) = host_of d"
  by (simp add: splitHostPath_def host_of_no_slash)

lemma splitHostPath_snd: "snd (splitHostPath d) = [] \<or> hd (snd (splitHostPath d)) = CHR ''/''"
proof (cases "CHR ''/'' \<in> set d")
  case True
  then obtain a b where "d = a @ CHR ''/'' # b" "CHR ''/'' \<notin> set a"
    using split_at_sep by metis
  then show ?thesis by (simp add: splitHostPath_def dropWhile_sep)
qed (simp add: splitHostPath_def)

lemma hostIsWildcarded_host: "hostIsWildcarded d \<longleftrightarrow> CHR ''*'' \<in> set (host_of d)"
  by (simp add: hostIsWildcarded_def host_of_no_slash)

lemma lower_char_star: "lower_char c = CHR ''*'' \<longleftrightarrow> c = CHR ''*''"
proof
  assume l: "lower_char c = CHR ''*''"
  show "c = CHR ''*''"
  proof (cases "65 \<le> byte_val c \<and> byte_val c \<le> 90")
    case True
    then have "byte_val (lower_char c) = byte_val c + 32" by (simp add: lower_char_def)
    moreover have "byte_val (lower_char c) = 42" by (simp add: l)
    ultimately have "byte_val c = 10" by simp
    with True show ?thesis by simp
  qed (use l in \<open>auto simp: lower_char_def Let_def split: if_splits\<close>)
qed (simp add: lower_char_def)

lemma hostIsWildcarded_to_lower: "hostIsWildcarded (to_lower d) \<longleftrightarrow> hostIsWildcarded d"
proof -
  have "CHR ''*'' \<in> set (to_lower h) \<longleftrightarrow> CHR ''*'' \<in> set h" for h
    unfolding to_lower_def set_map image_iff by (metis lower_char_star)
  then show ?thesis by (simp add: hostIsWildcarded_host host_of_to_lower)
qed

lemma host_of_slash_free: "CHR ''/'' \<notin> set (host_of d)"
  by (induction d) auto

lemma pattern_base_split:
  assumes "CHR ''/'' \<notin> set h" and "p = [] \<or> hd p = CHR ''/''"
  shows "pattern_base (h @ p) = h @ pattern_base p"
proof (cases "has_suffix (h @ p) ''/*''")
  case False
  then have "\<not> has_suffix p ''/*''" by (auto simp: has_suffix_iff)
  with False show ?thesis by (simp add: pattern_base_def)
next
  case True
  then obtain t where t: "h @ p = t @ ''/*''" by (auto simp: has_suffix_iff)
  have "p \<noteq> []"
  proof
    assume "p = []"
    with t have "CHR ''/'' \<in> set h" by (metis append_Nil2 in_set_conv_decomp append_Cons)
    with assms show False by simp
  qed
  moreover have "length p \<noteq> 1"
  proof
    assume "length p = 1"
    with assms \<open>p \<noteq> []\<close> have "p = ''/''" by (cases p) auto
    with t have "last ''/'' = last ''/*''" by (metis last_appendR list.distinct(1))
    then show False by simp
  qed
  ultimately have "2 \<le> length p" by (cases p) (auto simp: Suc_le_eq)
  then have "length h \<le> length t" using arg_cong [OF t, of length] by simp
  with t obtain u where "t = h @ u" "p = u @ ''/*''"
    by (auto simp: append_eq_append_conv2)
  then have "h @ p = (h @ u) @ ''/*''" and "p = u @ ''/*''" by simp_all
  then show ?thesis by (simp only: pattern_base_def has_suffix_append trim_suffix_append if_True)
qed

lemma pattern_base_path: "p = [] \<or> hd p = CHR ''/'' \<Longrightarrow> pattern_base p = [] \<or> hd (pattern_base p) = CHR ''/''"
  by (auto simp: pattern_base_def has_suffix_iff trim_suffix_def)

text \<open>What a pattern below a path admits: the path itself and everything under it.\<close>

definition under :: "string \<Rightarrow> string \<Rightarrow> bool" where
  "under b d \<longleftrightarrow> d = b \<or> has_prefix d (b @ ''/'')"

lemma under_trans: "under a b \<Longrightarrow> under b d \<Longrightarrow> under a d"
  by (auto simp: under_def has_prefix_iff)

lemma under_append: "under a b \<Longrightarrow> under (h @ a) (h @ b)"
  by (auto simp: under_def has_prefix_iff)

lemma patternMatch_under: "patternMatch pat d \<longleftrightarrow> under (pattern_base pat) d"
  by (simp add: patternMatch_base under_def)

lemma under_of_prefix_slash: "has_prefix (b @ ''/'') (c @ ''/'') \<Longrightarrow> under c b"
proof -
  assume "has_prefix (b @ ''/'') (c @ ''/'')"
  then obtain r where r: "b @ ''/'' = c @ CHR ''/'' # r" by (auto simp: has_prefix_iff)
  then show ?thesis
  proof (cases r rule: rev_cases)
    case Nil
    with r show ?thesis by (simp add: under_def)
  next
    case (snoc ys y)
    with r have "b = c @ CHR ''/'' # ys" by simp
    then show ?thesis by (simp add: under_def has_prefix_iff)
  qed
qed

lemma trim_suffix_base: "trim_suffix n ''/*'' = pattern_base n"
  by (simp add: pattern_base_def trim_suffix_def)

lemma pathGlobCovers_under:
  assumes cov: "pathGlobCovers c n" and c: "c \<noteq> ''/''" and n: "n = [] \<or> hd n = CHR ''/''"
  shows "under (pattern_base c) (pattern_base n)"
proof -
  consider "c = []" | "c = ''/*''" | "c \<noteq> []" "c \<noteq> ''/*''" "has_suffix c ''/*''"
    | "c \<noteq> []" "\<not> has_suffix c ''/*''" by blast
  then show ?thesis
  proof cases
    case 1
    then have "pattern_base c = []" by (simp add: pattern_base_def has_suffix_def)
    with pattern_base_path [OF n] show ?thesis
      by (cases "pattern_base n") (auto simp: under_def has_prefix_def)
  next
    case 2
    then have "pattern_base c = []" by (simp add: pattern_base_def has_suffix_def trim_suffix_def)
    with pattern_base_path [OF n] show ?thesis
      by (cases "pattern_base n") (auto simp: under_def has_prefix_def)
  next
    case 3
    with cov c show ?thesis
      by (simp add: pathGlobCovers_def trim_suffix_base under_def Let_def)
  next
    case 4
    then have bc: "pattern_base c = c" by (simp add: pattern_base_def)
    show ?thesis
    proof (cases "has_suffix n ''/*''")
      case True
      then show ?thesis
        using 4 cov c bc
        by (auto simp: pathGlobCovers_def trim_suffix_base intro: under_of_prefix_slash split: if_splits)
    next
      case False
      then have "pattern_base n = n" by (simp add: pattern_base_def)
      with False 4 cov c bc show ?thesis
        by (auto simp: pathGlobCovers_def under_def split: if_splits)
    qed
  qed
qed

lemma destinationCovers_sound:
  assumes cov: "destinationCovers c n"
    and trimmed: "trim_space c = c" "trim_space n = n" and notroot: "snd (splitHostPath (to_lower c)) \<noteq> ''/''"
    and m: "patternMatch (to_lower n) d"
  shows "patternMatch (to_lower c) d \<and> \<not> hostIsWildcarded c"
proof -
  let ?c = "to_lower c" and ?n = "to_lower n"
  obtain ch cp nh np where c: "splitHostPath ?c = (ch, cp)" and n: "splitHostPath ?n = (nh, np)"
    by fastforce
  from cov trimmed c n have hosts: "ch = nh" and p: "pathGlobCovers cp np" and w: "\<not> hostIsWildcarded ?c"
    by (auto simp: destinationCovers_def Let_def split: if_splits)
  have ceq: "?c = ch @ cp" and neq: "?n = ch @ np"
    using splitHostPath_append [of ?c] splitHostPath_append [of ?n] c n hosts by auto
  have slash: "CHR ''/'' \<notin> set ch"
    using splitHostPath_fst [of ?c] c host_of_slash_free by auto
  have cp: "cp = [] \<or> hd cp = CHR ''/''" and np: "np = [] \<or> hd np = CHR ''/''"
    using splitHostPath_snd [of ?c] splitHostPath_snd [of ?n] c n by auto
  have "under (pattern_base cp) (pattern_base np)"
    using pathGlobCovers_under [OF p _ np] notroot c by simp
  then have "under (pattern_base ?c) (pattern_base ?n)"
    unfolding ceq neq pattern_base_split [OF slash cp] pattern_base_split [OF slash np]
    by (rule under_append)
  with m w show ?thesis
    by (auto simp: patternMatch_under hostIsWildcarded_to_lower intro: under_trans)
qed

lemma destMatches_iff:
  "destMatches ds host path \<longleftrightarrow>
     (\<exists>pat \<in> set ds. \<not> hostIsWildcarded pat \<and> patternMatch (to_lower pat) (to_lower (host @ path)))"
  by (auto simp: destMatches_def DestMatches_def dests_only_def list_ex_iff Let_def filter_empty_conv)

text \<open>
  C16. An edit the covering test calls a narrowing grants nothing new: if
  widenedDestinations finds nothing in the new pattern list that the current list does not
  already cover, then every destination the proxy's matcher accepts under the new list it
  already accepted under the current one.  Patterns are as NormalizeDestinationPatterns
  stores them (trimmed, not blank), and no current pattern is a host followed by a bare
  slash; that case is the subject of the next property.
\<close>

theorem narrowing_grants_nothing:
  assumes none: "widenedDestinations current nxt = []"
    and cur: "\<forall>c \<in> set current. trim_space c = c \<and> snd (splitHostPath (to_lower c)) \<noteq> ''/''"
    and new: "\<forall>n \<in> set nxt. trim_space n = n \<and> n \<noteq> []"
    and m: "destMatches nxt host path"
  shows "destMatches current host path"
proof -
  from m obtain n where n: "n \<in> set nxt" and nm: "patternMatch (to_lower n) (to_lower (host @ path))"
    by (auto simp: destMatches_iff)
  from none n new obtain c where c: "c \<in> set current" and cov: "destinationCovers c n"
    by (auto simp: widenedDestinations_def filter_empty_conv list_ex_iff)
  from cur c have "trim_space c = c" "snd (splitHostPath (to_lower c)) \<noteq> ''/''" by auto
  from destinationCovers_sound [OF cov this(1) _ this(2) nm] n new c show ?thesis
    by (auto simp: destMatches_iff)
qed

text \<open>
  The covering test is more generous than the matcher for a ceiling that ends in a bare
  slash: the ceiling api.example.com/ admits the root path only, yet it is said to cover
  api.example.com/*, so storing the glob counts as a narrowing while the matcher then honours
  every path of the host.
\<close>

theorem root_slash_ceiling_widens:
  "widenedDestinations [''api.example.com/''] [''api.example.com/*''] = [] \<and>
   ValidateDestinationPatterns [''api.example.com/''] = None \<and>
   \<not> destMatches [''api.example.com/''] ''api.example.com'' ''/v1/admin'' \<and>
   destMatches [''api.example.com/*''] ''api.example.com'' ''/v1/admin''"
  by code_simp

theorem narrowing_grants_nothing_witness:
  "destMatches [''api.stripe.com/v1/*''] ''api.stripe.com'' ''/v1/charges''"
  by (rule narrowing_grants_nothing [of _ "[''API.stripe.com/v1/charges'']"]) code_simp+

subsection \<open>Stored patterns\<close>

lemma validate_all_None: "validate_all ps = None \<longleftrightarrow> (\<forall>p \<in> set ps. validatePattern p = None)"
  by (induction ps) (auto split: option.splits)

lemma validatePattern_host:
  assumes "validatePattern p = None"
  shows "trim_space p \<noteq> []" "\<not> hostIsWildcarded (trim_space p)" "host_of (trim_space p) \<noteq> []"
  using assms
  by (auto simp: validatePattern_def Let_def hostIsWildcarded_def host_of_no_slash split: if_splits)

lemma validatePattern_public:
  assumes "validatePattern p = None" "parse_addr (host_of (trim_space p)) = Some a"
    "split_host_port (host_of (trim_space p)) = None"
    "\<not> has_prefix (host_of (trim_space p)) ''[''"
  shows "zone_of a = [] \<and> \<not> isPrivateAlertAddr (unmap a)"
proof -
  let ?h = "host_of (trim_space p)"
  have h: "(if CHR ''/'' \<in> set (trim_space p) then ?h else trim_space p) = ?h"
    by (simp add: host_of_no_slash)
  have "trimIPv6Brackets ?h = ?h"
    using assms(4) by (cases ?h) (auto simp: trimIPv6Brackets_def has_prefix_def)
  with assms h show ?thesis
    by (auto simp: validatePattern_def rejectNonPublicDestinationHost_def Let_def split: if_splits option.splits)
qed

text \<open>
  The validator and the matcher agree: on patterns the validator accepts (stored
  trimmed), the proxy's matcher drops none of them, so it decides exactly as the package
  matcher does on the same list.
\<close>

theorem validated_patterns_all_enforced:
  assumes "ValidateDestinationPatterns ps = None" "\<forall>p \<in> set ps. trim_space p = p" "ps \<noteq> []"
  shows "destMatches ps host path = DestMatches (dests_only ps) host path"
proof -
  from assms have "\<forall>p \<in> set ps. \<not> hostIsWildcarded p"
    by (auto simp: ValidateDestinationPatterns_def validate_all_None split: if_splits)
      (metis validatePattern_host(2))
  then have "filter (\<lambda>pat. \<not> hostIsWildcarded pat) ps = ps" by (simp add: filter_id_conv)
  with assms show ?thesis by (simp add: destMatches_def)
qed

theorem validated_patterns_all_enforced_witness:
  "destMatches [''api.stripe.com/v1/*''] ''evil.com'' ''/x'' =
   DestMatches (dests_only [''api.stripe.com/v1/*'']) ''evil.com'' ''/x''"
  by (rule validated_patterns_all_enforced) code_simp+

lemma normalize_loop_set:
  "set (normalize_loop seen ps) = {trim_space p |p. p \<in> set ps \<and> trim_space p \<noteq> []} - set seen"
  by (induction seen ps rule: normalize_loop.induct) (auto simp: Let_def)

lemma normalize_loop_distinct: "distinct (normalize_loop seen ps)"
  by (induction seen ps rule: normalize_loop.induct) (auto simp: Let_def normalize_loop_set)

text \<open>
  Normalising a pattern list keeps exactly the trimmed, non-blank patterns, once each,
  and normalising again changes nothing.
\<close>

theorem normalize_patterns_correct:
  "distinct (NormalizeDestinationPatterns ps) \<and>
   set (NormalizeDestinationPatterns ps) = {trim_space p |p. p \<in> set ps \<and> trim_space p \<noteq> []} \<and>
   NormalizeDestinationPatterns (NormalizeDestinationPatterns ps) = NormalizeDestinationPatterns ps"
proof -
  have fixed: "normalize_loop seen qs = qs"
    if "distinct qs" "\<forall>q \<in> set qs. trim_space q = q \<and> q \<noteq> []" "set qs \<inter> set seen = {}" for seen qs
    using that by (induction seen qs rule: normalize_loop.induct) (auto simp: Let_def)
  have "normalize_loop [] (normalize_loop [] ps) = normalize_loop [] ps"
    by (rule fixed) (auto simp: normalize_loop_distinct normalize_loop_set)
  then show ?thesis
    by (simp add: NormalizeDestinationPatterns_def normalize_loop_distinct normalize_loop_set)
qed

subsection \<open>Path traversal\<close>

definition plain_elem :: "string \<Rightarrow> bool" where
  "plain_elem w \<longleftrightarrow> w \<noteq> [] \<and> w \<noteq> ''.'' \<and> w \<noteq> ''..'' \<and> CHR ''/'' \<notin> set w"

lemma clean_elems_plain:
  "\<forall>w \<in> set acc. plain_elem w \<Longrightarrow> \<forall>w \<in> set ws. CHR ''/'' \<notin> set w \<Longrightarrow>
   \<forall>w \<in> set (clean_elems True acc ws). plain_elem w"
proof (induction ws arbitrary: acc)
  case (Cons w ws)
  have ws: "\<forall>w \<in> set ws. CHR ''/'' \<notin> set w" using Cons.prems by simp
  consider "w = [] \<or> w = ''.''" | "w = ''..''" | "plain_elem w"
    using Cons.prems by (auto simp: plain_elem_def)
  then show ?case
  proof cases
    case 1
    then show ?thesis using Cons.IH [OF Cons.prems(1) ws] by simp
  next
    case 2
    show ?thesis
    proof (cases acc)
      case Nil
      then have "clean_elems True acc (w # ws) = clean_elems True [] ws" using 2 by simp
      then show ?thesis using Cons.IH [OF _ ws, of "[]"] by simp
    next
      case acc: (Cons a as)
      then have "a \<noteq> ''..''" using Cons.prems by (simp add: plain_elem_def)
      then have "clean_elems True acc (w # ws) = clean_elems True as ws" using 2 acc by simp
      moreover have "\<forall>v \<in> set as. plain_elem v" using acc Cons.prems(1) by simp
      ultimately show ?thesis using Cons.IH [OF _ ws] by metis
    qed
  next
    case 3
    then have "clean_elems True acc (w # ws) = clean_elems True (w # acc) ws"
      by (simp add: plain_elem_def)
    moreover have "\<forall>v \<in> set (w # acc). plain_elem v" using 3 Cons.prems(1) by simp
    ultimately show ?thesis using Cons.IH [OF _ ws] by metis
  qed
qed simp

lemma path_clean_rooted:
  assumes "hd p = CHR ''/''" "p \<noteq> []"
  shows "\<exists>ws. path_clean p = CHR ''/'' # join ''/'' ws \<and> (\<forall>w \<in> set ws. plain_elem w)"
proof -
  have "\<forall>w \<in> set (clean_elems True [] (split (CHR ''/'') p)). plain_elem w"
    by (rule clean_elems_plain) (auto dest: split_no_sep)
  with assms show ?thesis by (auto simp: path_clean_def Let_def)
qed

text \<open>
  A request path the proxy lets through is free of traversal: when normalizePath reports
  an absolute path as already normalised, the path is a slash followed by non-empty elements
  none of which is a dot or a double dot, with at most one trailing slash.
\<close>

theorem normalized_path_no_traversal:
  assumes "normalizePath (CHR ''/'' # rest) = (c, True)"
  shows "c = CHR ''/'' # rest \<and>
    (\<exists>ws. (\<forall>w \<in> set ws. plain_elem w) \<and>
          (c = CHR ''/'' # join ''/'' ws \<or> c = CHR ''/'' # join ''/'' ws @ ''/''))"
proof (cases "rest = []")
  case True
  with assms show ?thesis by (auto simp: normalizePath_def intro!: exI [of _ "[]"])
next
  case False
  obtain ws where "path_clean (CHR ''/'' # rest) = CHR ''/'' # join ''/'' ws" "\<forall>w \<in> set ws. plain_elem w"
    using path_clean_rooted [of "CHR ''/'' # rest"] by auto
  with False assms show ?thesis
    by (auto simp: normalizePath_def Let_def split: if_splits)
qed

theorem normalized_path_no_traversal_witness:
  "\<exists>ws. (\<forall>w \<in> set ws. plain_elem w) \<and>
     (''/v1/models/'' = CHR ''/'' # join ''/'' ws \<or> ''/v1/models/'' = CHR ''/'' # join ''/'' ws @ ''/'')"
proof -
  have "normalizePath (CHR ''/'' # ''v1/models/'') = (''/v1/models/'', True)" by code_simp
  from normalized_path_no_traversal [OF this] show ?thesis by blast
qed

subsection \<open>Inference routes and the provider pin\<close>

lemma plain_elem_join_hd: "plain_elem w \<Longrightarrow> join ''/'' (w # ws) \<noteq> []"
  by (cases ws) (auto simp: plain_elem_def)

text \<open>
  Requests to an AI provider's API host stay on the inference surface: whatever
  allowedProviderRoute allows is admitted by one route of that provider's table, at a path
  with no dot or double-dot element, whatever spelling of the path was asked for.
\<close>

theorem provider_route_confined:
  assumes "allowedProviderRoute host method rawPath = RouteAllowed clean"
  shows "\<exists>routes rt. providerInferenceRoutes (providerAPIHost host) = Some routes \<and> rt \<in> set routes \<and>
           route_admits (to_upper method) clean rt \<and>
           (\<exists>ws. clean = CHR ''/'' # join ''/'' ws \<and> (\<forall>w \<in> set ws. plain_elem w))"
proof -
  from assms obtain routes where r: "providerInferenceRoutes (providerAPIHost host) = Some routes"
    and a: "allowedUpstreamRoute routes (to_upper method) rawPath = Some clean"
    by (auto simp: allowedProviderRoute_def split: option.splits)
  from a have c: "clean = normalizeUpstreamPath rawPath" and ex: "list_ex (route_admits (to_upper method) clean) routes"
    by (auto simp: allowedUpstreamRoute_def Let_def split: if_splits)
  have "\<exists>ws. clean = CHR ''/'' # join ''/'' ws \<and> (\<forall>w \<in> set ws. plain_elem w)"
    unfolding c normalizeUpstreamPath_def
    by (rule path_clean_rooted) (auto simp: has_prefix_iff)
  with r ex show ?thesis by (auto simp: list_ex_iff)
qed

theorem provider_route_confined_witness:
  "\<exists>routes rt. providerInferenceRoutes (providerAPIHost ''API.OpenAI.com:443'') = Some routes \<and> rt \<in> set routes \<and>
     route_admits ''POST'' ''/v1/responses'' rt"
proof -
  have "allowedProviderRoute ''API.OpenAI.com:443'' ''post'' ''/v1/x/../responses'' = RouteAllowed ''/v1/responses''"
    by code_simp
  moreover have "to_upper ''post'' = ''POST''" by code_simp
  ultimately show ?thesis using provider_route_confined by fastforce
qed

lemma pin_loop_hosts:
  "pin_loop get e ps pin = Some pin' \<Longrightarrow> e \<noteq> [] \<Longrightarrow>
   set (pin_hosts pin') = set (pin_hosts pin) \<union> {h. \<exists>k. (h, k) \<in> set ps \<and> get k = Value e}"
  by (induction get e ps pin rule: pin_loop.induct) (auto split: setting.splits if_splits)

text \<open>
  The provider pin is exact and fails closed: for a named entry, providerPinFor answers
  only when every provider setting could be read, and then pins the entry to exactly the API
  hosts of the providers whose setting holds this entry's id; a destination list with nothing
  outside the pin names those hosts only.
\<close>

theorem provider_pin_exact:
  assumes "providerPinFor (Some get) e = Some pin" "e \<noteq> []"
  shows "set (pin_hosts pin) = {h. \<exists>k. (h, k) \<in> set sortedAIProviders \<and> get k = Value e} \<and>
     (pinned pin \<and> firstDestinationOutsidePin pin dests = None \<longrightarrow>
       (\<forall>d \<in> set dests. providerAPIHost (fst (splitHostPath (trim_space d))) \<in> set (pin_hosts pin)))"
proof -
  have "pin_loop get e sortedAIProviders \<lparr>pin_hosts = [], pin_settings = []\<rparr> = Some pin"
    using assms by (simp add: providerPinFor_def Let_def)
  from pin_loop_hosts [OF this assms(2)] show ?thesis
    by (auto simp: firstDestinationOutsidePin_def find_None_iff allowsPattern_def allowsHost_def list_ex_iff)
qed

theorem provider_pin_exact_witness:
  "let get = (\<lambda>k. if k = ''ai_key_openai'' then Value ''e7'' else NoRow) in
   \<exists>pin. providerPinFor (Some get) ''e7'' = Some pin \<and>
     set (pin_hosts pin) = {h. \<exists>k. (h, k) \<in> set sortedAIProviders \<and> get k = Value ''e7''}"
proof -
  let ?get = "\<lambda>k. if k = ''ai_key_openai'' then Value ''e7'' else NoRow"
  have "providerPinFor (Some ?get) ''e7'' =
      Some \<lparr>pin_hosts = [''api.openai.com''], pin_settings = [''ai_key_openai'']\<rparr>"
    by (simp add: providerPinFor_def sortedAIProviders_def Let_def)
  from provider_pin_exact [OF this, of "[]"] this show ?thesis by (simp add: Let_def)
qed

subsection \<open>Addresses that are never dialled\<close>

text \<open>
  The addresses that may be dialled, as numbers: outside 0.0.0.0/8, 10.0.0.0/8, 100.64.0.0/10, 127.0.0.0/8, 169.254.0.0/16, 172.16.0.0/12,
  192.168.0.0/16 and 224.0.0.0/24, and for IPv6 outside the unspecified and the loopback address, fc00::/7, fe80::/10 and the
  interface-local and link-local multicast addresses.
\<close>

definition reserved_v4 :: "(int \<times> int) list" where
  "reserved_v4 =
     [(0, 2 ^ 24), (10 * 2 ^ 24, 11 * 2 ^ 24), (100 * 2 ^ 24 + 64 * 2 ^ 16, 100 * 2 ^ 24 + 128 * 2 ^ 16), (127 * 2 ^ 24, 128 * 2 ^ 24),
      (169 * 2 ^ 24 + 254 * 2 ^ 16, 169 * 2 ^ 24 + 255 * 2 ^ 16), (172 * 2 ^ 24 + 16 * 2 ^ 16, 172 * 2 ^ 24 + 32 * 2 ^ 16),
      (192 * 2 ^ 24 + 168 * 2 ^ 16, 192 * 2 ^ 24 + 169 * 2 ^ 16), (224 * 2 ^ 24, 224 * 2 ^ 24 + 2 ^ 8)]"

definition reserved_v6 :: "(int \<times> int) list" where
  "reserved_v6 = [(0, 2), (0xfc00 * 2 ^ 112, 0xfe00 * 2 ^ 112), (0xfe80 * 2 ^ 112, 0xfec0 * 2 ^ 112)]"

definition outside_block :: "int \<Rightarrow> (int \<times> int) list \<Rightarrow> bool" where
  "outside_block n ranges \<longleftrightarrow> (\<forall>(low, high) \<in> set ranges. n < low \<or> high \<le> n)"

definition dialable :: "addr \<Rightarrow> bool" where
  "dialable a \<longleftrightarrow> (case a of
     NoAddr \<Rightarrow> False
   | V4 w \<Rightarrow> outside_block (uint w) reserved_v4
   | V6 w _ \<Rightarrow> outside_block (uint w) reserved_v6 \<and> drop_bit 112 w AND 0xff0f \<noteq> 0xff01 \<and> drop_bit 112 w AND 0xff0f \<noteq> 0xff02)"

lemma div_eq_range: "0 < k \<Longrightarrow> n div k = v \<longleftrightarrow> v * k \<le> n \<and> n < v * k + k" for n k v :: int
proof
  assume "0 < k" "n div k = v"
  then have "v * k + n mod k = n" "0 \<le> n mod k" "n mod k < k" using div_mult_mod_eq [of n k] by auto
  then show "v * k \<le> n \<and> n < v * k + k" by linarith
next
  assume k: "0 < k" and "v * k \<le> n \<and> n < v * k + k"
  then have "n = v * k + (n - v * k)" "0 \<le> n - v * k" "n - v * k < k" by linarith+
  then show "n div k = v" using k by (metis add.right_neutral div_mult_self3 div_pos_pos_trivial less_irrefl add.commute)
qed

lemma drop_bit_range: "drop_bit k w = v \<longleftrightarrow> uint v * 2 ^ k \<le> uint w \<and> uint w < uint v * 2 ^ k + 2 ^ k" for w v :: "'a::len word"
proof -
  have "drop_bit k w = v \<longleftrightarrow> uint (drop_bit k w) = uint v" by (simp only: word_uint_eq_iff)
  also have "uint (drop_bit k w) = uint w div 2 ^ k" unfolding unsigned_drop_bit_eq by (simp add: drop_bit_eq_div take_bit_int_eq_self)
  finally show ?thesis by (simp add: div_eq_range)
qed

lemma private_v4: "isPrivateAlertAddr (V4 w) \<longleftrightarrow> \<not> outside_block (uint w) reserved_v4"
proof -
  define n where "n = uint w"
  have "0 \<le> n" by (simp add: n_def)
  have zero: "w = 0 \<longleftrightarrow> n = 0" by (simp add: n_def uint_0_iff)
  have range: "drop_bit k w = v \<longleftrightarrow> uint v * 2 ^ k \<le> n \<and> n < uint v * 2 ^ k + 2 ^ k" for k v unfolding n_def by (rule drop_bit_range)
  have "isPrivateAlertAddr (V4 w) \<longleftrightarrow>
      2130706432 \<le> n \<and> n < 2147483648 \<or> 167772160 \<le> n \<and> n < 184549376 \<or> 2886729728 \<le> n \<and> n < 2887778304 \<or>
      3232235520 \<le> n \<and> n < 3232301056 \<or> 2851995648 \<le> n \<and> n < 2852061184 \<or> 0 \<le> n \<and> n < 16777216 \<or>
      1681915904 \<le> n \<and> n < 1686110208 \<or> n = 0 \<or> 3758096384 \<le> n \<and> n < 3758096640"
    unfolding isPrivateAlertAddr_def privateAlertRanges_def
    by (simp add: range zero is_unspecified_def is_loopback_def is_link_local_unicast_def is_link_local_multicast_def is_interface_local_multicast_def) blast
  then show ?thesis using \<open>0 \<le> n\<close> unfolding outside_block_def reserved_v4_def n_def [symmetric] by (auto simp: not_le not_less)
qed

lemma private_v6: "unmap (V6 w []) = V6 w [] \<Longrightarrow> isPrivateAlertAddr (V6 w []) \<longleftrightarrow> \<not> dialable (V6 w [])"
proof -
  assume u: "unmap (V6 w []) = V6 w []"
  define n where "n = uint w"
  have "0 \<le> n" by (simp add: n_def)
  have small: "w = 0 \<longleftrightarrow> n = 0" "w = 1 \<longleftrightarrow> n = 1" unfolding n_def by (simp add: uint_0_iff) (metis unsigned_1 word_uint_eq_iff)
  have range: "drop_bit k w = v \<longleftrightarrow> uint v * 2 ^ k \<le> n \<and> n < uint v * 2 ^ k + 2 ^ k" for k v unfolding n_def by (rule drop_bit_range)
  have "isPrivateAlertAddr (V6 w []) \<longleftrightarrow>
      n = 0 \<or> n = 1 \<or> 0xfc00 * 2 ^ 112 \<le> n \<and> n < 0xfe00 * 2 ^ 112 \<or> 0xfe80 * 2 ^ 112 \<le> n \<and> n < 0xfec0 * 2 ^ 112 \<or>
      drop_bit 112 w AND 0xff0f = 0xff01 \<or> drop_bit 112 w AND 0xff0f = 0xff02"
    unfolding isPrivateAlertAddr_def privateAlertRanges_def is_unspecified_def is_loopback_def is_link_local_unicast_def is_link_local_multicast_def
      is_interface_local_multicast_def u
    by (simp add: range small) blast
  then show ?thesis using \<open>0 \<le> n\<close> unfolding dialable_def outside_block_def reserved_v6_def n_def [symmetric] addr.case by (auto simp: not_le not_less)
qed

text \<open>
  C30. The dial guard lets a connection through exactly if the address is a host and port whose host is an address literal
  without a zone that, a 4-in-6 address taken as the IPv4 address inside, lies outside every reserved range (\<open>dialable\<close>, written out in numbers).
\<close>

theorem guard_dial_public_only:
  "guardDialAddress address = None \<longleftrightarrow>
     (\<exists>host port a. split_host_port address = Some (host, port) \<and> parse_addr host = Some a \<and> zone_of a = [] \<and> dialable (unmap a))"
proof -
  have "isPrivateAlertAddr (unmap a) \<longleftrightarrow> \<not> dialable (unmap a)" if "zone_of a = []" for a
  proof (cases "unmap a")
    case NoAddr
    then show ?thesis by (simp add: isPrivateAlertAddr_def dialable_def)
  next
    case (V4 w)
    then show ?thesis by (simp add: private_v4) (simp add: dialable_def)
  next
    case (V6 w z)
    then have "a = V6 w z" by (cases a) (auto split: if_splits)
    then show ?thesis using V6 that private_v6 [of w] by (auto simp del: unmap.simps)
  qed
  then show ?thesis unfolding guardDialAddress_def by (auto split: option.splits prod.splits if_splits)
qed

theorem guard_dial_public_only_witness:
  "\<exists>host port a. split_host_port ''[::ffff:93.184.216.34]:443'' = Some (host, port) \<and> parse_addr host = Some a \<and> dialable (unmap a)"
proof -
  have "guardDialAddress ''[::ffff:93.184.216.34]:443'' = None" by code_simp
  then show ?thesis unfolding guard_dial_public_only by blast
qed

end
