(* ===== verification/Rate_Limit.thy ===== *)
theory Rate_Limit
  imports Prelude
begin

text \<open>
  The per-address rate limiter of \<^verbatim>\<open>internal/middleware/rate_limit.go\<close>.

  The first part models each operation as one state change, the way a single goroutine runs
  it; instants and durations are nanoseconds.  \<^verbatim>\<open>sync.Map\<close> is a list of keyed visitors whose
  order stands for the iteration order of \<^verbatim>\<open>Range\<close>, which Go leaves open: nothing below
  depends on it.  The cap \<^verbatim>\<open>maxVisitors\<close> is a parameter of the operations (it is 50,000 in the
  server).
  The second part is a step relation for one admission running beside the clean-up goroutine,
  at the granularity of the atomic operations both use.
\<close>

record visitor =
  count :: int
  windowAt :: int

record rateLimiter =
  maxRequests :: int
  window :: int
  visitors :: "(string \<times> visitor) list"
  numVisitors :: int

definition maxVisitors :: nat where
  "maxVisitors = 50000"

definition evictSampleSize :: nat where
  "evictSampleSize = 8"

definition NewRateLimiter :: "int \<Rightarrow> int \<Rightarrow> rateLimiter" where
  "NewRateLimiter m w = \<lparr>maxRequests = m, window = w, visitors = [], numVisitors = 0\<rparr>"

subsection \<open>Operations\<close>

definition delete_key :: "'k \<Rightarrow> ('k \<times> 'v) list \<Rightarrow> ('k \<times> 'v) list" where
  "delete_key k m = filter (\<lambda>e. fst e \<noteq> k) m"

definition put :: "'k \<Rightarrow> 'v \<Rightarrow> ('k \<times> 'v) list \<Rightarrow> ('k \<times> 'v) list" where
  "put k v m = map (\<lambda>e. if fst e = k then (k, v) else e) m"

fun oldest :: "(string \<times> int) option \<Rightarrow> (string \<times> visitor) list \<Rightarrow> (string \<times> int) option" where
  "oldest acc [] = acc"
| "oldest acc ((k, v) # m) =
     oldest (case acc of
               None \<Rightarrow> Some (k, windowAt v)
             | Some (k0, a0) \<Rightarrow> if windowAt v < a0 then Some (k, windowAt v) else acc) m"

definition evictOldestSample :: "rateLimiter \<Rightarrow> bool \<times> rateLimiter" where
  "evictOldestSample rl =
     (case oldest None (take evictSampleSize (visitors rl)) of
        None \<Rightarrow> (False, rl)
      | Some (k, _) \<Rightarrow>
         if map_of (visitors rl) k \<noteq> None
         then (True, rl\<lparr>visitors := delete_key k (visitors rl), numVisitors := numVisitors rl - 1\<rparr>)
         else (False, rl))"

definition resyncVisitorCount :: "rateLimiter \<Rightarrow> rateLimiter" where
  "resyncVisitorCount rl = rl\<lparr>numVisitors := int (length (visitors rl))\<rparr>"

lemma oldest_in:
  "oldest acc m = Some (k, a) \<Longrightarrow> acc = Some (k, a) \<or> (\<exists>v. (k, v) \<in> set m \<and> windowAt v = a)"
proof (induction acc m rule: oldest.induct)
  case (2 acc k' v m)
  then show ?case by (fastforce split: option.splits if_splits prod.splits)
qed auto

lemma oldest_None: "oldest acc m = None \<longleftrightarrow> acc = None \<and> m = []"
  by (induction acc m rule: oldest.induct) (auto split: option.splits)

lemma oldest_sample_in:
  assumes "oldest None (take n m) = Some (k, a)"
  shows "\<exists>v. (k, v) \<in> set m \<and> windowAt v = a"
  using oldest_in [OF assms] by (auto dest: in_set_takeD)

lemma delete_key_length_less: "(k, v) \<in> set m \<Longrightarrow> length (delete_key k m) < length m"
  unfolding delete_key_def by (rule length_filter_less) auto

lemma evict_shrinks: "evictOldestSample rl = (True, rl') \<Longrightarrow> length (visitors rl') < length (visitors rl)"
  by (auto simp: evictOldestSample_def split: option.splits prod.splits if_splits
      dest!: oldest_sample_in intro: delete_key_length_less)

text \<open>The loop of \<^verbatim>\<open>admitNewVisitor\<close>: evict until there is room; when nothing could be freed, recount and stop.\<close>

function make_room :: "nat \<Rightarrow> rateLimiter \<Rightarrow> rateLimiter" where
  "make_room cap rl =
     (if numVisitors rl \<ge> int cap then
        (case evictOldestSample rl of
           (True, rl') \<Rightarrow> make_room cap rl'
         | (False, _) \<Rightarrow> resyncVisitorCount rl)
      else rl)"
  by pat_completeness auto
termination
  by (relation "measure (\<lambda>(cap, rl). length (visitors rl))") (auto dest: evict_shrinks [OF sym])

declare make_room.simps [simp del]

definition admitNewVisitor :: "nat \<Rightarrow> string \<Rightarrow> int \<Rightarrow> rateLimiter \<Rightarrow> (visitor option) \<times> rateLimiter" where
  "admitNewVisitor cap ip now rl =
     (case map_of (visitors rl) ip of
        Some existing \<Rightarrow> (Some existing, rl)
      | None \<Rightarrow>
         (let rl' = make_room cap rl
          in (None, rl'\<lparr>visitors := (ip, \<lparr>count = 1, windowAt = now\<rparr>) # visitors rl',
                        numVisitors := numVisitors rl' + 1\<rparr>)))"

definition touch :: "rateLimiter \<Rightarrow> visitor \<Rightarrow> int \<Rightarrow> bool \<times> visitor" where
  "touch rl v now =
     (if now - windowAt v > window rl then (True, v\<lparr>count := 1, windowAt := now\<rparr>)
      else (let v' = v\<lparr>count := count v + 1\<rparr> in (count v' \<le> maxRequests rl, v')))"

definition allow :: "nat \<Rightarrow> string \<Rightarrow> int \<Rightarrow> rateLimiter \<Rightarrow> bool \<times> rateLimiter" where
  "allow cap ip now rl =
     (case map_of (visitors rl) ip of
        Some v \<Rightarrow> (case touch rl v now of (ok, v') \<Rightarrow> (ok, rl\<lparr>visitors := put ip v' (visitors rl)\<rparr>))
      | None \<Rightarrow>
         (case admitNewVisitor cap ip now rl of
            (None, rl') \<Rightarrow> (True, rl')
          | (Some v, rl') \<Rightarrow>
             (case touch rl' v now of (ok, v') \<Rightarrow> (ok, rl'\<lparr>visitors := put ip v' (visitors rl')\<rparr>))))"

text \<open>One tick of the clean-up goroutine.\<close>

definition expired :: "rateLimiter \<Rightarrow> int \<Rightarrow> visitor \<Rightarrow> bool" where
  "expired rl now v \<longleftrightarrow> now - windowAt v > window rl * 2"

definition cleanup :: "int \<Rightarrow> rateLimiter \<Rightarrow> rateLimiter" where
  "cleanup now rl =
     (let dead = filter (\<lambda>e. expired rl now (snd e)) (visitors rl)
      in rl\<lparr>visitors := filter (\<lambda>e. \<not> expired rl now (snd e)) (visitors rl),
            numVisitors := numVisitors rl - int (length dead)\<rparr>)"

text \<open>The middleware: the status of the response, and whether the handler behind it runs.\<close>

datatype outcome = Forwarded | TooManyRequests int

definition RateLimit :: "nat \<Rightarrow> string \<Rightarrow> int \<Rightarrow> rateLimiter \<Rightarrow> outcome \<times> rateLimiter" where
  "RateLimit cap ip now rl =
     (case allow cap ip now rl of
        (ok, rl') \<Rightarrow> (if ok then Forwarded else TooManyRequests (window rl div 10 ^ 9), rl'))"

subsection \<open>The invariant\<close>

definition limiter_inv :: "nat \<Rightarrow> rateLimiter \<Rightarrow> bool" where
  "limiter_inv cap rl \<longleftrightarrow>
     distinct (map fst (visitors rl)) \<and> numVisitors rl = int (length (visitors rl)) \<and>
     length (visitors rl) \<le> cap"

lemma delete_key_length:
  "distinct (map fst m) \<Longrightarrow> (k, v) \<in> set m \<Longrightarrow> length (delete_key k m) = length m - 1"
proof (induction m)
  case (Cons e m)
  show ?case
  proof (cases "fst e = k")
    case True
    have "filter (\<lambda>e. fst e \<noteq> k) m = m"
      by (rule filter_True) (use Cons.prems True in \<open>auto simp: image_iff\<close>)
    with True show ?thesis by (simp add: delete_key_def)
  next
    case False
    with Cons have "(k, v) \<in> set m" and "length (delete_key k m) = length m - 1" by auto
    with False show ?thesis by (cases m) (auto simp: delete_key_def)
  qed
qed simp

lemma delete_key_keys: "map fst (delete_key k m) = filter (\<lambda>x. x \<noteq> k) (map fst m)"
  by (induction m) (auto simp: delete_key_def)

lemma put_keys [simp]: "map fst (put k v m) = map fst m"
  by (induction m) (auto simp: put_def)

lemma put_length [simp]: "length (put k v m) = length m"
  by (simp add: put_def)

lemma map_of_put: "map_of (put k v m) j = (if j = k \<and> map_of m k \<noteq> None then Some v else map_of m j)"
  by (induction m) (auto simp: put_def)

lemma evict_nonempty:
  assumes "visitors rl \<noteq> []"
  shows "\<exists>k v. (k, v) \<in> set (visitors rl) \<and>
    evictOldestSample rl = (True, rl\<lparr>visitors := delete_key k (visitors rl), numVisitors := numVisitors rl - 1\<rparr>)"
proof -
  have "take evictSampleSize (visitors rl) \<noteq> []"
    using assms by (simp add: evictSampleSize_def)
  then obtain k a where o: "oldest None (take evictSampleSize (visitors rl)) = Some (k, a)"
    by (metis oldest_None option.exhaust surj_pair)
  from oldest_sample_in [OF o] obtain v where "(k, v) \<in> set (visitors rl)" by blast
  then have "map_of (visitors rl) k \<noteq> None" by (metis domIff dom_map_of_conv_image_fst fst_conv image_eqI)
  with o \<open>(k, v) \<in> set (visitors rl)\<close> show ?thesis
    by (auto simp: evictOldestSample_def)
qed

text \<open>What making room gives: the counter still agrees with the map, and there is a free slot.\<close>

lemma make_room_ok:
  assumes "distinct (map fst (visitors rl))" "numVisitors rl = int (length (visitors rl))" "1 \<le> cap"
  shows "distinct (map fst (visitors (make_room cap rl))) \<and>
    numVisitors (make_room cap rl) = int (length (visitors (make_room cap rl))) \<and>
    length (visitors (make_room cap rl)) < cap \<and>
    set (map fst (visitors (make_room cap rl))) \<subseteq> set (map fst (visitors rl))"
  using assms
proof (induction cap rl rule: make_room.induct)
  case (1 cap rl)
  show ?case
  proof (cases "numVisitors rl \<ge> int cap")
    case False
    with 1 show ?thesis by (simp add: make_room.simps [of cap rl])
  next
    case True
    with 1 have ne: "visitors rl \<noteq> []" by auto
    then obtain k v where kv: "(k, v) \<in> set (visitors rl)"
      and e: "evictOldestSample rl = (True, rl\<lparr>visitors := delete_key k (visitors rl), numVisitors := numVisitors rl - 1\<rparr>)"
      using evict_nonempty by blast
    let ?rl = "rl\<lparr>visitors := delete_key k (visitors rl), numVisitors := numVisitors rl - 1\<rparr>"
    have l: "length (delete_key k (visitors rl)) = length (visitors rl) - 1"
      using delete_key_length kv 1 by metis
    have "distinct (map fst (visitors ?rl))" "numVisitors ?rl = int (length (visitors ?rl))"
      using "1.prems" l ne by (auto simp: delete_key_keys Suc_leI of_nat_diff)
    note ih = "1.IH" [OF True e [symmetric] refl this "1.prems"(3)]
    moreover have "make_room cap rl = make_room cap ?rl"
      using True e by (simp add: make_room.simps [of cap rl])
    moreover have "set (map fst (visitors ?rl)) \<subseteq> set (map fst (visitors rl))"
      by (auto simp: delete_key_def)
    ultimately show ?thesis by (simp only:) (blast intro: order_trans)
  qed
qed

lemma admit_new_inv:
  assumes "limiter_inv cap rl" "1 \<le> cap" "admitNewVisitor cap ip now rl = (r, rl')"
  shows "limiter_inv cap rl'"
proof (cases "map_of (visitors rl) ip")
  case None
  then have notin: "ip \<notin> set (map fst (visitors rl))" by (simp add: map_of_eq_None_iff)
  from assms have "distinct (map fst (visitors rl))" "numVisitors rl = int (length (visitors rl))"
    by (auto simp: limiter_inv_def)
  from make_room_ok [OF this assms(2)] notin assms(3) None show ?thesis
    by (auto simp: admitNewVisitor_def limiter_inv_def Let_def)
qed (use assms in \<open>auto simp: admitNewVisitor_def\<close>)

lemma put_inv: "limiter_inv cap rl \<Longrightarrow> limiter_inv cap (rl\<lparr>visitors := put ip v (visitors rl)\<rparr>)"
  by (simp add: limiter_inv_def)

lemma allow_inv: "limiter_inv cap rl \<Longrightarrow> 1 \<le> cap \<Longrightarrow> limiter_inv cap (snd (allow cap ip now rl))"
  by (cases "admitNewVisitor cap ip now rl")
    (auto simp: allow_def put_inv dest: admit_new_inv split: option.splits prod.splits)

lemma filter_partition_length: "length m = length (filter P m) + length (filter (\<lambda>x. \<not> P x) m)"
  by (induction m) auto

lemma cleanup_inv: "limiter_inv cap rl \<Longrightarrow> limiter_inv cap (cleanup now rl)"
  using filter_partition_length [of "visitors rl" "\<lambda>e. expired rl now (snd e)"]
  by (auto simp: limiter_inv_def cleanup_def Let_def distinct_map inj_on_def)

datatype event = Request string int | Tick int

fun limiter_step :: "nat \<Rightarrow> event \<Rightarrow> rateLimiter \<Rightarrow> rateLimiter" where
  "limiter_step cap (Request ip now) rl = snd (RateLimit cap ip now rl)"
| "limiter_step cap (Tick now) rl = cleanup now rl"

lemma RateLimit_snd: "snd (RateLimit cap ip now rl) = snd (allow cap ip now rl)"
  by (simp add: RateLimit_def split: prod.splits)

interpretation limiter: invariant_steps "limiter_step cap" "\<lambda>rl. 1 \<le> cap \<and> limiter_inv cap rl" for cap
proof unfold_locales
  fix rl e
  show "1 \<le> cap \<and> limiter_inv cap rl \<Longrightarrow> 1 \<le> cap \<and> limiter_inv cap (limiter_step cap e rl)"
    by (cases e) (auto simp: RateLimit_snd allow_inv cleanup_inv)
qed

text \<open>
  C23. The limiter's memory is bounded and its counter exact: after any sequence of requests
  and clean-up ticks from a new limiter, no address has two entries, the counter equals the
  number of tracked addresses, and that number does not exceed the cap.
\<close>

theorem limiter_bounded:
  assumes "1 \<le> cap"
  shows "limiter_inv cap (fold (limiter_step cap) es (NewRateLimiter m w))"
proof -
  have "limiter_inv cap (NewRateLimiter m w)" by (simp add: limiter_inv_def NewRateLimiter_def)
  with assms show ?thesis using limiter.run_inv [of cap "NewRateLimiter m w" es] by blast
qed

theorem limiter_bounded_witness:
  "limiter_inv 2 (fold (limiter_step 2) [Request ''a'' 1, Request ''b'' 2, Request ''c'' 3, Tick 500] (NewRateLimiter 5 60))"
  by (rule limiter_bounded) simp

subsection \<open>The limit\<close>

text \<open>Serving a list of requests in order, with the answers.\<close>

fun serve :: "nat \<Rightarrow> rateLimiter \<Rightarrow> (string \<times> int) list \<Rightarrow> bool list \<times> rateLimiter" where
  "serve cap rl [] = ([], rl)"
| "serve cap rl ((ip, now) # rs) =
     (case allow cap ip now rl of (ok, rl') \<Rightarrow>
       (case serve cap rl' rs of (oks, rl'') \<Rightarrow> (ok # oks, rl'')))"

definition allowed_for :: "string \<Rightarrow> (string \<times> int) list \<Rightarrow> bool list \<Rightarrow> nat" where
  "allowed_for ip rs oks = length (filter (\<lambda>(r, ok). fst r = ip \<and> ok) (zip rs oks))"

definition requests_for :: "string \<Rightarrow> (string \<times> int) list \<Rightarrow> nat" where
  "requests_for ip rs = length (filter (\<lambda>r. fst r = ip) rs)"

lemma allow_config [simp]:
  "maxRequests (snd (allow cap ip now rl)) = maxRequests rl"
  "window (snd (allow cap ip now rl)) = window rl"
proof -
  have room: "maxRequests (make_room cap rl) = maxRequests rl \<and> window (make_room cap rl) = window rl"
    by (induction cap rl rule: make_room.induct)
      (subst (1 2) make_room.simps, auto simp: resyncVisitorCount_def evictOldestSample_def
        split: option.splits prod.splits bool.splits if_splits)
  then show "maxRequests (snd (allow cap ip now rl)) = maxRequests rl"
    "window (snd (allow cap ip now rl)) = window rl"
    by (auto simp: allow_def admitNewVisitor_def Let_def split: option.splits prod.splits)
qed

text \<open>Below the cap nothing is evicted, so another address's request leaves this one's entry alone.\<close>

lemma allow_below_cap:
  assumes "limiter_inv cap rl" "map_of (visitors rl) ip = None" "length (visitors rl) < cap"
  shows "allow cap ip now rl =
    (True, rl\<lparr>visitors := (ip, \<lparr>count = 1, windowAt = now\<rparr>) # visitors rl, numVisitors := numVisitors rl + 1\<rparr>)"
proof -
  have "make_room cap rl = rl"
    using assms by (subst make_room.simps) (auto simp: limiter_inv_def)
  with assms show ?thesis by (simp add: allow_def admitNewVisitor_def)
qed

lemma allow_tracked:
  assumes "map_of (visitors rl) ip = Some v" "touch rl v now = (ok, v')"
  shows "allow cap ip now rl = (ok, rl\<lparr>visitors := put ip v' (visitors rl)\<rparr>)"
  using assms by (simp add: allow_def)

lemma serve_Cons:
  "fst (serve cap rl ((i, t) # rs)) = fst (allow cap i t rl) # fst (serve cap (snd (allow cap i t rl)) rs)"
  by (simp split: prod.splits)

lemma allowed_for_Cons:
  "allowed_for ip (r # rs) (b # bs) = (if fst r = ip \<and> b then 1 else 0) + allowed_for ip rs bs"
  by (simp add: allowed_for_def)

lemma requests_for_Cons: "requests_for ip (r # rs) = (if fst r = ip then 1 else 0) + requests_for ip rs"
  by (simp add: requests_for_def)

text \<open>An untracked address that fits under the cap leaves room for one more entry.\<close>

lemma room_for_new:
  assumes "limiter_inv cap rl" "i \<notin> set (map fst (visitors rl))"
    "card (set (map fst (visitors rl)) \<union> insert i A) \<le> cap" "finite A"
  shows "length (visitors rl) < cap"
proof -
  have "length (visitors rl) = card (set (map fst (visitors rl)))"
    using assms(1) distinct_card [of "map fst (visitors rl)"] by (simp add: limiter_inv_def)
  also have "\<dots> < card (insert i (set (map fst (visitors rl))))" using assms(2) by simp
  also have "\<dots> \<le> card (set (map fst (visitors rl)) \<union> insert i A)"
    by (rule card_mono) (use assms(4) in auto)
  finally show ?thesis using assms(3) by simp
qed

lemma allow_other:
  assumes inv: "limiter_inv cap rl" and other: "i \<noteq> ip" and v: "map_of (visitors rl) ip = Some v"
    and fit: "card (set (map fst (visitors rl)) \<union> insert i A) \<le> cap" "finite A"
  shows "map_of (visitors (snd (allow cap i t rl))) ip = Some v \<and>
    set (map fst (visitors (snd (allow cap i t rl)))) = insert i (set (map fst (visitors rl)))"
proof (cases "map_of (visitors rl) i")
  case None
  then have "length (visitors rl) < cap"
    using room_for_new [OF inv _ fit] by (simp add: map_of_eq_None_iff)
  from allow_below_cap [OF inv None this] other v show ?thesis by auto
next
  case (Some u)
  obtain ok u' where "touch rl u t = (ok, u')" by fastforce
  from allow_tracked [OF Some this, of cap] have a: "snd (allow cap i t rl) = rl\<lparr>visitors := put i u' (visitors rl)\<rparr>"
    by simp
  have "i \<in> set (map fst (visitors rl))"
    using Some by (metis map_of_eq_None_iff option.distinct(1) set_map)
  with a other v show ?thesis by (auto simp: map_of_put simp flip: set_map)
qed

lemma serve_limit:
  assumes "limiter_inv cap rl" "1 \<le> cap" "map_of (visitors rl) ip = Some v"
    "\<forall>r \<in> set rs. fst r = ip \<longrightarrow> snd r - windowAt v \<le> window rl"
    "card (set (map fst (visitors rl)) \<union> set (map fst rs)) \<le> cap"
  shows "int (allowed_for ip rs (fst (serve cap rl rs))) =
    min (int (requests_for ip rs)) (max 0 (maxRequests rl - count v))"
  using assms
proof (induction rs arbitrary: rl v)
  case Nil
  then show ?case by (simp add: allowed_for_def requests_for_def)
next
  case (Cons r rs)
  obtain i t where r: "r = (i, t)" by fastforce
  let ?rl = "snd (allow cap i t rl)"
  have inv: "limiter_inv cap ?rl" using Cons.prems by (intro allow_inv)
  show ?case
  proof (cases "i = ip")
    case True
    let ?v = "v\<lparr>count := count v + 1\<rparr>"
    have a: "allow cap i t rl = (count v + 1 \<le> maxRequests rl, rl\<lparr>visitors := put ip ?v (visitors rl)\<rparr>)"
      using Cons.prems r True by (simp add: allow_tracked touch_def)
    have fit: "card (set (map fst (visitors rl)) \<union> set (map fst rs)) \<le> cap"
      by (rule le_trans [OF card_mono Cons.prems(5)]) auto
    have "map_of (visitors ?rl) ip = Some ?v" "set (map fst (visitors ?rl)) = set (map fst (visitors rl))"
      using a Cons.prems(3) by (simp_all add: map_of_put flip: set_map)
    then have ih: "int (allowed_for ip rs (fst (serve cap ?rl rs))) =
        min (int (requests_for ip rs)) (max 0 (maxRequests rl - (count v + 1)))"
      using Cons.IH [OF inv Cons.prems(2), of ?v] Cons.prems(4) fit r a True
      by (simp flip: set_map)
    have "int (allowed_for ip (r # rs) (fst (serve cap rl (r # rs)))) =
        (if count v + 1 \<le> maxRequests rl then 1 else 0) + int (allowed_for ip rs (fst (serve cap ?rl rs)))"
      using r True a by (simp add: serve_Cons allowed_for_Cons del: serve.simps)
    then show ?thesis using ih r True by (auto simp: requests_for_Cons min_def max_def)
  next
    case False
    have fit: "card (set (map fst (visitors rl)) \<union> insert i (set (map fst rs))) \<le> cap"
      using Cons.prems(5) r by simp
    from allow_other [OF Cons.prems(1) False Cons.prems(3) fit, of t]
    have "map_of (visitors ?rl) ip = Some v" "set (map fst (visitors ?rl)) = insert i (set (map fst (visitors rl)))"
      by simp_all
    then have "int (allowed_for ip rs (fst (serve cap ?rl rs))) =
        min (int (requests_for ip rs)) (max 0 (maxRequests rl - count v))"
      using Cons.IH [OF inv Cons.prems(2), of v] Cons.prems(4) fit by (simp flip: set_map)
    then show ?thesis
      using r False by (simp add: serve_Cons allowed_for_Cons requests_for_Cons del: serve.simps)
  qed
qed

text \<open>
  The limit is enforced: while an address's window lasts and the addresses seen fit under
  the cap, of the requests it sends, interleaved with any traffic from others, exactly as many
  are admitted as its budget has left (all of them if they are fewer).
\<close>

theorem rate_limit_enforced:
  assumes "limiter_inv cap rl" "1 \<le> cap" "map_of (visitors rl) ip = Some v"
    "\<forall>r \<in> set rs. fst r = ip \<longrightarrow> snd r - windowAt v \<le> window rl"
    "card (set (map fst (visitors rl)) \<union> set (map fst rs)) \<le> cap"
  shows "int (allowed_for ip rs (fst (serve cap rl rs))) =
    min (int (requests_for ip rs)) (max 0 (maxRequests rl - count v))"
  using assms by (rule serve_limit)

definition sample_limiter :: rateLimiter where
  "sample_limiter = \<lparr>maxRequests = 3, window = 60, visitors = [(''a'', \<lparr>count = 1, windowAt = 100\<rparr>)], numVisitors = 1\<rparr>"

theorem rate_limit_enforced_witness:
  "int (allowed_for ''a'' [(''a'', 110), (''b'', 111), (''a'', 112), (''a'', 113), (''a'', 160)]
      (fst (serve 4 sample_limiter [(''a'', 110), (''b'', 111), (''a'', 112), (''a'', 113), (''a'', 160)]))) = 2"
proof -
  let ?rs = "[(''a'', 110), (''b'', 111), (''a'', 112), (''a'', 113), (''a'', 160 :: int)]"
  have "int (allowed_for ''a'' ?rs (fst (serve 4 sample_limiter ?rs))) =
      min (int (requests_for ''a'' ?rs)) (max 0 (maxRequests sample_limiter - count \<lparr>count = 1, windowAt = 100\<rparr>))"
    by (rule rate_limit_enforced) (auto simp: sample_limiter_def limiter_inv_def insert_commute)
  then show ?thesis by (simp add: requests_for_def sample_limiter_def)
qed

subsection \<open>Eviction\<close>

lemma oldest_le:
  "oldest acc m = Some (k, a) \<Longrightarrow>
   (\<forall>k0 a0. acc = Some (k0, a0) \<longrightarrow> a \<le> a0) \<and> (\<forall>e \<in> set m. a \<le> windowAt (snd e))"
proof (induction acc m rule: oldest.induct)
  case (2 acc k' v m)
  then show ?case by (cases acc) (fastforce split: if_splits prod.splits)+
qed simp

text \<open>
  Eviction removes exactly one entry, the one with the earliest window among the first
  evictSampleSize entries it looked at, and reports that it freed a slot; it reports failure
  only on an empty map, which it leaves unchanged.
\<close>

theorem evict_oldest_of_sample:
  "case evictOldestSample rl of
     (True, rl') \<Rightarrow>
       (\<exists>k v. (k, v) \<in> set (take evictSampleSize (visitors rl)) \<and>
          (\<forall>e \<in> set (take evictSampleSize (visitors rl)). windowAt v \<le> windowAt (snd e)) \<and>
          visitors rl' = delete_key k (visitors rl) \<and> numVisitors rl' = numVisitors rl - 1)
   | (False, rl') \<Rightarrow> visitors rl = [] \<and> rl' = rl"
proof (cases "visitors rl = []")
  case True
  then show ?thesis by (simp add: evictOldestSample_def)
next
  case False
  then obtain k a where o: "oldest None (take evictSampleSize (visitors rl)) = Some (k, a)"
    by (metis oldest_None option.exhaust surj_pair take_eq_Nil evictSampleSize_def zero_neq_numeral)
  then obtain v where v: "(k, v) \<in> set (take evictSampleSize (visitors rl))" "windowAt v = a"
    using oldest_in [OF o] by auto
  then have "map_of (visitors rl) k \<noteq> None"
    by (metis domIff dom_map_of_conv_image_fst fst_conv image_eqI in_set_takeD)
  then have "evictOldestSample rl = (True, rl\<lparr>visitors := delete_key k (visitors rl), numVisitors := numVisitors rl - 1\<rparr>)"
    using o by (simp add: evictOldestSample_def)
  moreover have "\<forall>e \<in> set (take evictSampleSize (visitors rl)). windowAt v \<le> windowAt (snd e)"
    using oldest_le [OF o] v by simp
  ultimately show ?thesis using v by auto
qed

definition two_visitors :: rateLimiter where
  "two_visitors = \<lparr>maxRequests = 3, window = 60,
     visitors = [(''a'', \<lparr>count = 1, windowAt = 100\<rparr>), (''b'', \<lparr>count = 7, windowAt = 90\<rparr>)],
     numVisitors = 2\<rparr>"

theorem evict_oldest_of_sample_witness:
  "map fst (visitors (snd (evictOldestSample two_visitors))) = [''a'']"
proof -
  obtain rl' where e: "evictOldestSample two_visitors = (True, rl')"
    by (simp add: evictOldestSample_def two_visitors_def evictSampleSize_def)
  then show ?thesis
    using evict_oldest_of_sample [of two_visitors]
    by (auto simp: two_visitors_def evictSampleSize_def delete_key_def)
qed

subsection \<open>An admission running beside the clean-up goroutine\<close>

text \<open>
  Admissions exclude each other (the mutex \<^verbatim>\<open>admit\<close>), but the clean-up goroutine does not take
  it.  Both delete with \<^verbatim>\<open>LoadAndDelete\<close> and adjust the counter afterwards with an atomic add:
  two steps, between which the other side may run.  \<open>resynced\<close> records whether
  \<^verbatim>\<open>resyncVisitorCount\<close> has run.
\<close>

datatype admit_pc =
  AIdle
| ALoop string            \<comment> \<open>at the loop test, for the new address\<close>
| AEvict string string    \<comment> \<open>has sampled a victim, about to delete it\<close>
| ADec string             \<comment> \<open>has deleted it, about to decrement\<close>
| ACount string           \<comment> \<open>about to recount\<close>
| ASetCount string int    \<comment> \<open>has counted, about to store the count\<close>
| AInsert string          \<comment> \<open>about to store the new visitor\<close>
| AInc                    \<comment> \<open>has stored it, about to increment\<close>

datatype clean_pc = CIdle | CDelete string | CDec

record shared =
  live :: "string list"
  num :: int
  apc :: admit_pc
  cpc :: clean_pc
  resynced :: bool

definition shared_init :: shared where
  "shared_init = \<lparr>live = [], num = 0, apc = AIdle, cpc = CIdle, resynced = False\<rparr>"

inductive interleave :: "nat \<Rightarrow> shared \<Rightarrow> shared \<Rightarrow> bool" for cap where
  enter: "apc s = AIdle \<Longrightarrow> ip \<notin> set (live s) \<Longrightarrow> interleave cap s (s\<lparr>apc := ALoop ip\<rparr>)"
| sample: "apc s = ALoop ip \<Longrightarrow> num s \<ge> int cap \<Longrightarrow> k \<in> set (live s) \<Longrightarrow> interleave cap s (s\<lparr>apc := AEvict ip k\<rparr>)"
| empty: "apc s = ALoop ip \<Longrightarrow> num s \<ge> int cap \<Longrightarrow> live s = [] \<Longrightarrow> interleave cap s (s\<lparr>apc := ACount ip\<rparr>)"
| room: "apc s = ALoop ip \<Longrightarrow> num s < int cap \<Longrightarrow> interleave cap s (s\<lparr>apc := AInsert ip\<rparr>)"
| evicted: "apc s = AEvict ip k \<Longrightarrow> k \<in> set (live s) \<Longrightarrow>
     interleave cap s (s\<lparr>live := remove1 k (live s), apc := ADec ip\<rparr>)"
| lost: "apc s = AEvict ip k \<Longrightarrow> k \<notin> set (live s) \<Longrightarrow> interleave cap s (s\<lparr>apc := ACount ip\<rparr>)"
| decrement: "apc s = ADec ip \<Longrightarrow> interleave cap s (s\<lparr>num := num s - 1, apc := ALoop ip\<rparr>)"
| recount: "apc s = ACount ip \<Longrightarrow> interleave cap s (s\<lparr>apc := ASetCount ip (int (length (live s)))\<rparr>)"
| set_count: "apc s = ASetCount ip n \<Longrightarrow> interleave cap s (s\<lparr>num := n, apc := AInsert ip, resynced := True\<rparr>)"
| insert: "apc s = AInsert ip \<Longrightarrow> interleave cap s (s\<lparr>live := ip # live s, apc := AInc\<rparr>)"
| increment: "apc s = AInc \<Longrightarrow> interleave cap s (s\<lparr>num := num s + 1, apc := AIdle\<rparr>)"
| clean_pick: "cpc s = CIdle \<Longrightarrow> k \<in> set (live s) \<Longrightarrow> interleave cap s (s\<lparr>cpc := CDelete k\<rparr>)"
| clean_delete: "cpc s = CDelete k \<Longrightarrow> k \<in> set (live s) \<Longrightarrow>
     interleave cap s (s\<lparr>live := remove1 k (live s), cpc := CDec\<rparr>)"
| clean_lost: "cpc s = CDelete k \<Longrightarrow> k \<notin> set (live s) \<Longrightarrow> interleave cap s (s\<lparr>cpc := CIdle\<rparr>)"
| clean_decrement: "cpc s = CDec \<Longrightarrow> interleave cap s (s\<lparr>num := num s - 1, cpc := CIdle\<rparr>)"

inductive interleavings :: "nat \<Rightarrow> shared \<Rightarrow> bool" for cap where
  start: "interleavings cap shared_init"
| step: "interleavings cap s \<Longrightarrow> interleave cap s t \<Longrightarrow> interleavings cap t"

definition drift :: "shared \<Rightarrow> int" where
  "drift s = (case apc s of ADec _ \<Rightarrow> 1 | AInc \<Rightarrow> - 1 | _ \<Rightarrow> 0) + (case cpc s of CDec \<Rightarrow> 1 | _ \<Rightarrow> 0)"

definition concurrent_inv :: "nat \<Rightarrow> shared \<Rightarrow> bool" where
  "concurrent_inv cap s \<longleftrightarrow>
     num s = int (length (live s)) + drift s \<and> length (live s) \<le> cap \<and>
     (\<forall>ip. apc s = AInsert ip \<longrightarrow> length (live s) < cap)"

lemma length_remove1_int: "k \<in> set m \<Longrightarrow> int (length (remove1 k m)) = int (length m) - 1"
  by (induction m) (auto simp: length_remove1)

lemma interleave_inv:
  "interleave cap s t \<Longrightarrow> concurrent_inv cap s \<Longrightarrow> \<not> resynced t \<Longrightarrow> concurrent_inv cap t"
proof (induction rule: interleave.induct)
  case (room s ip)
  then show ?case by (auto simp: concurrent_inv_def drift_def split: clean_pc.splits)
next
  case (evicted s ip k)
  then show ?case
    using length_remove1_int [of k "live s"]
    by (auto simp: concurrent_inv_def drift_def split: clean_pc.splits)
next
  case (clean_delete s k)
  then show ?case
    using length_remove1_int [of k "live s"]
    by (auto simp: concurrent_inv_def drift_def split: admit_pc.splits)
next
  case (clean_decrement s)
  then show ?case by (auto simp: concurrent_inv_def drift_def split: admit_pc.splits)
qed (auto simp: concurrent_inv_def drift_def split: clean_pc.splits)

lemma interleave_resynced: "interleave cap s t \<Longrightarrow> resynced s \<Longrightarrow> resynced t"
  by (induction rule: interleave.induct) auto

text \<open>
  Beside the clean-up goroutine the cap still holds for as long as the recount has not
  run: in every interleaving of admissions and clean-up in which resyncVisitorCount never
  stored a count, the number of live entries does not exceed the cap.
\<close>

theorem concurrent_cap_without_resync:
  assumes "interleavings cap s" "\<not> resynced s"
  shows "length (live s) \<le> cap"
proof -
  have "concurrent_inv cap s"
    using assms
  proof (induction rule: interleavings.induct)
    case start
    show ?case by (simp add: concurrent_inv_def drift_def shared_init_def)
  next
    case (step s t)
    then show ?case using interleave_resynced interleave_inv by blast
  qed
  then show ?thesis by (simp add: concurrent_inv_def)
qed

text \<open>The interleaving in which an eviction loses its victim to the clean-up goroutine, which has
  deleted the entry but not yet decremented the counter.\<close>

abbreviation shared_state :: "string list \<Rightarrow> int \<Rightarrow> admit_pc \<Rightarrow> clean_pc \<Rightarrow> bool \<Rightarrow> shared" where
  "shared_state l n a c r \<equiv> \<lparr>live = l, num = n, apc = a, cpc = c, resynced = r\<rparr>"

lemma interleaveI:
  "interleavings cap s \<Longrightarrow> interleave cap s u \<Longrightarrow> u = t \<Longrightarrow> interleavings cap t"
  by (auto intro: interleavings.step)

lemma race_first_entry: "interleavings 1 (shared_state [''a''] 1 AIdle CIdle False)"
proof -
  have "interleavings 1 (shared_state [] 0 AIdle CIdle False)"
    using interleavings.start by (simp add: shared_init_def)
  then have "interleavings 1 (shared_state [] 0 (ALoop ''a'') CIdle False)"
    by (rule interleaveI [OF _ interleave.enter]) simp_all
  then have "interleavings 1 (shared_state [] 0 (AInsert ''a'') CIdle False)"
    by (rule interleaveI [OF _ interleave.room]) simp_all
  then have "interleavings 1 (shared_state [''a''] 0 AInc CIdle False)"
    by (rule interleaveI [OF _ interleave.insert]) simp_all
  then show ?thesis by (rule interleaveI [OF _ interleave.increment]) simp_all
qed

lemma race_lost_victim: "interleavings 1 (shared_state [] 1 (ACount ''b'') CDec False)"
proof -
  from race_first_entry have "interleavings 1 (shared_state [''a''] 1 (ALoop ''b'') CIdle False)"
    by (rule interleaveI [OF _ interleave.enter]) simp_all
  then have "interleavings 1 (shared_state [''a''] 1 (AEvict ''b'' ''a'') CIdle False)"
    by (rule interleaveI [OF _ interleave.sample]) simp_all
  then have "interleavings 1 (shared_state [''a''] 1 (AEvict ''b'' ''a'') (CDelete ''a'') False)"
    by (rule interleaveI [OF _ interleave.clean_pick]) simp_all
  then have "interleavings 1 (shared_state [] 1 (AEvict ''b'' ''a'') CDec False)"
    by (rule interleaveI [OF _ interleave.clean_delete]) simp_all
  then show ?thesis by (rule interleaveI [OF _ interleave.lost]) simp_all
qed

lemma race_undercount: "interleavings 1 (shared_state [''b''] 0 AIdle CIdle True)"
proof -
  from race_lost_victim have "interleavings 1 (shared_state [] 1 (ASetCount ''b'' 0) CDec False)"
    by (rule interleaveI [OF _ interleave.recount]) simp_all
  then have "interleavings 1 (shared_state [] 0 (AInsert ''b'') CDec True)"
    by (rule interleaveI [OF _ interleave.set_count]) simp_all
  then have "interleavings 1 (shared_state [] (- 1) (AInsert ''b'') CIdle True)"
    by (rule interleaveI [OF _ interleave.clean_decrement]) simp_all
  then have "interleavings 1 (shared_state [''b''] (- 1) AInc CIdle True)"
    by (rule interleaveI [OF _ interleave.insert]) simp_all
  then show ?thesis by (rule interleaveI [OF _ interleave.increment]) simp_all
qed

text \<open>
  The recount itself can break the cap: an eviction whose victim the clean-up goroutine
  has just deleted, but not yet counted off, leads to a recount that the pending decrement
  then undercuts, after which the next admission finds room that does not exist.  A state
  with more live entries than the cap is reachable.
\<close>

theorem resync_race_exceeds_cap: "\<exists>s. interleavings 1 s \<and> length (live s) > 1"
proof -
  from race_undercount have "interleavings 1 (shared_state [''b''] 0 (ALoop ''c'') CIdle True)"
    by (rule interleaveI [OF _ interleave.enter]) simp_all
  then have "interleavings 1 (shared_state [''b''] 0 (AInsert ''c'') CIdle True)"
    by (rule interleaveI [OF _ interleave.room]) simp_all
  then have "interleavings 1 (shared_state [''c'', ''b''] 0 AInc CIdle True)"
    by (rule interleaveI [OF _ interleave.insert]) simp_all
  then show ?thesis by fastforce
qed

theorem concurrent_cap_without_resync_witness:
  "interleavings 1 (shared_state [''a''] 1 AIdle CIdle False) \<and>
   length (live (shared_state [''a''] 1 AIdle CIdle False)) \<le> 1"
  using race_first_entry concurrent_cap_without_resync [OF race_first_entry] by simp

end
