(* ===== verification/Web.thy ===== *)
theory Web
  imports Netip
begin

text \<open>
  Requests, responses and the stateless middleware of \<^verbatim>\<open>internal/middleware\<close>: the trusted
  proxy configuration and \<^verbatim>\<open>clientIP\<close> (rate_limit.go), the flattened forwarding headers
  (forwarded.go), the ingress zone (ingress_zone.go), the security headers (security.go), and
  the error writers of \<^verbatim>\<open>internal/handlers/helpers.go\<close>.

  A request carries its header map (canonical names), the socket peer and the values of the
  request context that this code reads and writes.  A handler takes the request, the headers
  already set on the response writer and a state, and gives the response and the new state.
\<close>

section \<open>Requests and responses\<close>

type_synonym headers = "string \<Rightarrow> string list"

record request =
  req_method :: string
  url_path :: string
  header :: headers
  cookies :: "(string \<times> string) list"
  remoteAddr :: string
  tls :: bool
  request_id :: string
  ingress_zone_value :: "8 word option"
  private_configured_value :: "bool option"
  user_id_value :: "string option"
  user_role_value :: "string option"
  session_id_value :: "string option"
  principal_kind_value :: "string option"

definition header_get :: "headers \<Rightarrow> string \<Rightarrow> string" where
  "header_get h name = (case h name of [] \<Rightarrow> [] | v # _ \<Rightarrow> v)"

definition header_set :: "string \<Rightarrow> string \<Rightarrow> headers \<Rightarrow> headers" where
  "header_set name v h = h(name := [v])"

datatype body = TextBody string | APIError string string string | Payload string

record response =
  status :: int
  rheaders :: headers
  rbody :: body

type_synonym 's handler = "request \<Rightarrow> headers \<Rightarrow> 's \<Rightarrow> response \<times> 's"

type_synonym 's middleware = "'s handler \<Rightarrow> 's handler"

text \<open>\<^verbatim>\<open>http.Error\<close> of the standard library.\<close>

definition http_Error :: "headers \<Rightarrow> string \<Rightarrow> int \<Rightarrow> response" where
  "http_Error w msg code =
     \<lparr>status = code,
      rheaders = header_set ''X-Content-Type-Options'' ''nosniff''
        (header_set ''Content-Type'' ''text/plain; charset=utf-8'' (w(''Content-Length'' := []))),
      rbody = TextBody (msg @ ''\<newline>'')\<rparr>"

definition writeJSON :: "headers \<Rightarrow> int \<Rightarrow> body \<Rightarrow> response" where
  "writeJSON w code v =
     \<lparr>status = code,
      rheaders = header_set ''Cache-Control'' ''no-store'' (header_set ''Content-Type'' ''application/json'' w),
      rbody = v\<rparr>"

definition writeError :: "headers \<Rightarrow> request \<Rightarrow> int \<Rightarrow> string \<Rightarrow> string \<Rightarrow> response" where
  "writeError w r code err_code message = writeJSON w code (APIError message err_code (request_id r))"

definition writeBadRequest :: "headers \<Rightarrow> request \<Rightarrow> string \<Rightarrow> response" where
  "writeBadRequest w r message = writeError w r 400 ''BAD_REQUEST'' message"

definition writeUnauthorized :: "headers \<Rightarrow> request \<Rightarrow> string \<Rightarrow> response" where
  "writeUnauthorized w r message = writeError w r 401 ''UNAUTHORIZED'' message"

definition writeForbidden :: "headers \<Rightarrow> request \<Rightarrow> string \<Rightarrow> response" where
  "writeForbidden w r message = writeError w r 403 ''FORBIDDEN'' message"

definition writeNotFound :: "headers \<Rightarrow> request \<Rightarrow> string \<Rightarrow> response" where
  "writeNotFound w r message = writeError w r 404 ''NOT_FOUND'' message"

definition writeConflict :: "headers \<Rightarrow> request \<Rightarrow> string \<Rightarrow> response" where
  "writeConflict w r message = writeError w r 409 ''CONFLICT'' message"

definition writeInternalError :: "headers \<Rightarrow> request \<Rightarrow> string \<Rightarrow> response" where
  "writeInternalError w r message = writeError w r 500 ''INTERNAL_ERROR'' message"

definition writeValidationError :: "headers \<Rightarrow> request \<Rightarrow> string \<Rightarrow> response" where
  "writeValidationError w r message = writeError w r 400 ''VALIDATION_ERROR'' message"

definition writeRateLimited :: "headers \<Rightarrow> request \<Rightarrow> string \<Rightarrow> response" where
  "writeRateLimited w r message = writeError w r 429 ''RATE_LIMITED'' message"

section \<open>The principal in the request context\<close>

definition context_string :: "string option \<Rightarrow> string" where
  "context_string v = (case v of Some x \<Rightarrow> x | None \<Rightarrow> [])"

definition PrincipalKind :: "request \<Rightarrow> string" where
  "PrincipalKind r = context_string (principal_kind_value r)"

definition GetUserID :: "request \<Rightarrow> string" where
  "GetUserID r = context_string (user_id_value r)"

definition GetUserRole :: "request \<Rightarrow> string" where
  "GetUserRole r = context_string (user_role_value r)"

definition GetSessionID :: "request \<Rightarrow> string" where
  "GetSessionID r = context_string (session_id_value r)"

definition RoleAdmin :: string where
  "RoleAdmin = ''admin''"

definition IsAdmin :: "request \<Rightarrow> bool" where
  "IsAdmin r \<longleftrightarrow> GetUserRole r = RoleAdmin"

definition IsVaultOnly :: "request \<Rightarrow> bool" where
  "IsVaultOnly r \<longleftrightarrow> GetUserRole r = ''vault_only''"

definition VaultOnlyBlock :: "'s middleware" where
  "VaultOnlyBlock next r w s =
     (if IsVaultOnly r then (http_Error w ''{\"error\":\"access denied for vault-only users\"}'' 403, s)
      else next r w s)"

definition AdminOnly :: "'s middleware" where
  "AdminOnly next r w s =
     (if \<not> IsAdmin r then (http_Error w ''{\"error\":\"admin access required\"}'' 403, s)
      else next r w s)"

section \<open>The ingress zone\<close>

definition IngressPublic :: "8 word" where
  "IngressPublic = 0"

definition IngressPrivate :: "8 word" where
  "IngressPrivate = 1"

definition PrivateIngressRequiredCode :: string where
  "PrivateIngressRequiredCode = ''private_ingress_required''"

definition IngressZoneFromContext :: "request \<Rightarrow> 8 word" where
  "IngressZoneFromContext r =
     (case ingress_zone_value r of
        Some zone \<Rightarrow> if zone = IngressPrivate then IngressPrivate else IngressPublic
      | None \<Rightarrow> IngressPublic)"

definition IsPrivateIngress :: "request \<Rightarrow> bool" where
  "IsPrivateIngress r \<longleftrightarrow> IngressZoneFromContext r = IngressPrivate"

definition IsPrivateIngressConfigured :: "request \<Rightarrow> bool" where
  "IsPrivateIngressConfigured r = (case private_configured_value r of Some c \<Rightarrow> c | None \<Rightarrow> False)"

definition StampPrivateIngressConfigured :: "bool \<Rightarrow> 's middleware" where
  "StampPrivateIngressConfigured configured next r w s =
     (if private_configured_value r \<noteq> None then next r w s
      else next (r\<lparr>private_configured_value := Some configured\<rparr>) w s)"

definition StampIngressZone :: "8 word \<Rightarrow> 's middleware" where
  "StampIngressZone zone0 next r w s =
     (let zone = (if zone0 \<noteq> IngressPrivate then IngressPublic else zone0)
      in if ingress_zone_value r \<noteq> None then next r w s
         else next (r\<lparr>ingress_zone_value := Some zone\<rparr>) w s)"

definition RequirePrivateIngress :: "'s middleware" where
  "RequirePrivateIngress next r w s =
     (if \<not> IsPrivateIngress r then
        (\<lparr>status = 403,
          rheaders = header_set ''Cache-Control'' ''no-store'' (header_set ''Content-Type'' ''application/json'' w),
          rbody = TextBody (''{\"error\":\"private ingress required\",\"code\":\"'' @ PrivateIngressRequiredCode @ ''\"}'' @ ''\<newline>'')\<rparr>, s)
      else next r w s)"

section \<open>The forwarding chain and the client address\<close>

record proxy_config =
  trustedProxyHops :: int
  trustXRealIP :: bool
  trustedProxyPeers :: "prefix list"

definition default_proxy_peers :: "prefix list" where
  "default_proxy_peers = map (the \<circ> parse_prefix) [''127.0.0.1/32'', ''::1/128'']"

definition ConfigureProxy :: "int \<Rightarrow> bool \<Rightarrow> proxy_config \<Rightarrow> proxy_config" where
  "ConfigureProxy hops trustRealIP cfg =
     cfg\<lparr>trustedProxyHops := (if hops < 0 then 0 else hops), trustXRealIP := trustRealIP\<rparr>"

fun parse_peers :: "string list \<Rightarrow> prefix list \<Rightarrow> prefix list option" where
  "parse_peers [] out = Some out"
| "parse_peers (raw0 # rest) out =
     (let raw = trim_space raw0
      in if raw = [] then parse_peers rest out
         else case parse_prefix raw of
                Some p \<Rightarrow> parse_peers rest (out @ [masked p])
              | None \<Rightarrow>
                 (case parse_addr raw of
                    None \<Rightarrow> None
                  | Some a \<Rightarrow>
                     if zone_of a \<noteq> [] then None
                     else parse_peers rest (out @ [Prefix (unmap a) (bit_len (unmap a))])))"

definition parseTrustedProxyPeers :: "string \<Rightarrow> prefix list option" where
  "parseTrustedProxyPeers spec = parse_peers (split CHR '','' spec) []"

text \<open>The error result, and the configuration afterwards.\<close>

definition ConfigureTrustedProxyPeers :: "string \<Rightarrow> proxy_config \<Rightarrow> bool \<times> proxy_config" where
  "ConfigureTrustedProxyPeers spec cfg =
     (case parseTrustedProxyPeers spec of
        None \<Rightarrow> (False, cfg)
      | Some ps \<Rightarrow> (True, cfg\<lparr>trustedProxyPeers := ps\<rparr>))"

definition forwardedChain :: "headers \<Rightarrow> string \<Rightarrow> string list" where
  "forwardedChain h name =
     concat (map (\<lambda>line. filter (\<lambda>v. v \<noteq> []) (map trim_space (split CHR '','' line))) (h name))"

definition peerIsConfiguredProxy :: "proxy_config \<Rightarrow> request \<Rightarrow> string \<times> bool" where
  "peerIsConfiguredProxy cfg r =
     (let remoteIP = (case split_host_port (remoteAddr r) of Some (h, _) \<Rightarrow> h | None \<Rightarrow> remoteAddr r);
          bracket = (\<lambda>c. c = CHR ''['' \<or> c = CHR '']'')
      in case parse_addr (trim_right bracket (trim_left bracket remoteIP)) of
           None \<Rightarrow> (remoteIP, False)
         | Some parsed \<Rightarrow>
            if zone_of parsed \<noteq> [] then (remoteIP, False)
            else (remoteIP, \<exists>p \<in> set (trustedProxyPeers cfg). prefix_contains p (unmap parsed)))"

definition peerIsTrustedProxy :: "proxy_config \<Rightarrow> request \<Rightarrow> string \<times> bool" where
  "peerIsTrustedProxy cfg r =
     (case peerIsConfiguredProxy cfg r of
        (remoteIP, configured) \<Rightarrow> (remoteIP, trustedProxyHops cfg > 0 \<and> configured))"

definition clientIP :: "proxy_config \<Rightarrow> request \<Rightarrow> string" where
  "clientIP cfg r =
     (case peerIsTrustedProxy cfg r of
        (remoteIP, trusted) \<Rightarrow>
          if \<not> trusted then remoteIP
          else if trustXRealIP cfg \<and> forwardedChain (header r) ''X-Real-Ip'' \<noteq> []
          then hd (forwardedChain (header r) ''X-Real-Ip'')
          else (let parts = forwardedChain (header r) ''X-Forwarded-For'';
                    idx = int (length parts) - trustedProxyHops cfg
                in if parts = [] then remoteIP
                   else if idx < 0 \<or> idx \<ge> int (length parts) then remoteIP
                   else if \<not> parse_ip_ok (parts ! nat idx) then remoteIP
                   else parts ! nat idx))"

definition ForwardedProtoHTTPS :: "proxy_config \<Rightarrow> request \<Rightarrow> bool" where
  "ForwardedProtoHTTPS cfg r =
     (if tls r then True
      else if IsPrivateIngress r then True
      else if \<not> snd (peerIsConfiguredProxy cfg r) then False
      else case forwardedChain (header r) ''X-Forwarded-Proto'' of
             [] \<Rightarrow> False
           | c # _ \<Rightarrow> equal_fold c ''https'')"

definition SecurityHeaders :: "proxy_config \<Rightarrow> 's middleware" where
  "SecurityHeaders cfg next r w s =
     (let w1 = header_set ''X-Content-Type-Options'' ''nosniff'' w;
          w2 = header_set ''X-Frame-Options'' ''DENY'' w1;
          w3 = header_set ''X-Xss-Protection'' ''0'' w2;
          w4 = header_set ''Referrer-Policy'' ''strict-origin-when-cross-origin'' w3;
          w5 = header_set ''Permissions-Policy'' ''camera=(), microphone=(), geolocation=()'' w4;
          w6 = header_set ''Content-Security-Policy''
                 (''default-src '' @ [CHR 0x27] @ ''self'' @ [CHR 0x27] @
                  ''; script-src '' @ [CHR 0x27] @ ''self'' @ [CHR 0x27] @
                  ''; style-src '' @ [CHR 0x27] @ ''self'' @ [CHR 0x27] @ '' '' @ [CHR 0x27] @ ''unsafe-inline'' @ [CHR 0x27] @
                  ''; img-src '' @ [CHR 0x27] @ ''self'' @ [CHR 0x27] @ '' data:; connect-src '' @ [CHR 0x27] @ ''self'' @ [CHR 0x27] @
                  ''; font-src '' @ [CHR 0x27] @ ''self'' @ [CHR 0x27] @ ''; frame-ancestors '' @ [CHR 0x27] @ ''none'' @ [CHR 0x27] @
                  ''; base-uri '' @ [CHR 0x27] @ ''self'' @ [CHR 0x27] @ ''; form-action '' @ [CHR 0x27] @ ''self'' @ [CHR 0x27]) w5;
          w7 = (if ForwardedProtoHTTPS cfg r
                then header_set ''Strict-Transport-Security'' ''max-age=63072000; includeSubDomains'' w6 else w6)
      in next r w7 s)"


section \<open>What the forwarding chain guarantees\<close>

lemma split_append_sep: "split c (a @ c # b) = split c a @ split c b"
  by (induction a) (auto split: list.splits)

text \<open>Joining two header lines with a comma, the other spelling HTTP allows, gives the same chain.\<close>

lemma forwardedChain_spelling:
  assumes "h name = pre @ l1 # l2 # post" "h' name = pre @ (l1 @ CHR '','' # l2) # post"
  shows "forwardedChain h' name = forwardedChain h name"
  by (simp add: forwardedChain_def assms split_append_sep)

lemma forwardedChain_append:
  assumes "h name = ls @ ms"
  shows "forwardedChain h name = forwardedChain (\<lambda>_. ls) name @ forwardedChain (\<lambda>_. ms) name"
  by (simp add: forwardedChain_def assms)

lemma clientIP_untrusted: "\<not> snd (peerIsTrustedProxy cfg r) \<Longrightarrow> clientIP cfg r = fst (peerIsTrustedProxy cfg r)"
  by (cases "peerIsTrustedProxy cfg r") (simp add: clientIP_def)

lemma clientIP_chain_suffix:
  assumes "snd (peerIsTrustedProxy cfg r)" "\<not> (trustXRealIP cfg \<and> forwardedChain (header r) ''X-Real-Ip'' \<noteq> [])"
    and "forwardedChain (header r) ''X-Forwarded-For'' = a @ s" "trustedProxyHops cfg \<le> int (length s)"
  shows "clientIP cfg r =
    (let v = s ! nat (int (length s) - trustedProxyHops cfg)
     in if parse_ip_ok v then v else fst (peerIsTrustedProxy cfg r))"
proof -
  have pos: "trustedProxyHops cfg > 0"
    using assms(1) by (simp add: peerIsTrustedProxy_def split: prod.splits)
  have "nat (int (length (a @ s)) - trustedProxyHops cfg) = length a + nat (int (length s) - trustedProxyHops cfg)"
    using assms(4) by simp
  then have "(a @ s) ! nat (int (length (a @ s)) - trustedProxyHops cfg) = s ! nat (int (length s) - trustedProxyHops cfg)"
    by (metis nth_append_length_plus)
  with assms pos show ?thesis
    by (cases "peerIsTrustedProxy cfg r") (auto simp: clientIP_def Let_def)
qed

lemma peerIsTrustedProxy_header [simp]:
  "peerIsTrustedProxy cfg (r\<lparr>header := h\<rparr>) = peerIsTrustedProxy cfg r"
  by (simp add: peerIsTrustedProxy_def peerIsConfiguredProxy_def cong: option.case_cong)

lemma forwardedChain_same: "h name = h' name \<Longrightarrow> forwardedChain h name = forwardedChain h' name"
  by (simp add: forwardedChain_def)

text \<open>
  C31. A client cannot choose its own address.  From a peer that is not a trusted proxy no header changes it: the address is the socket peer's.
  Behind a trusted proxy, X-Forwarded-For lines a caller puts before the ones the trusted hops append do not change it,
  however they are spelled, as long as the hops appended at least one entry each and, where the operator has X-Real-IP trusted, that header is the
  same; in that case, and only for a trusted peer, the first X-Real-IP entry is the address, so the proxy has to set the header itself.
\<close>

theorem clientIP_unforgeable:
  assumes hops: "trustedProxyHops cfg \<le> int (length (forwardedChain (\<lambda>_. hops) ''X-Forwarded-For''))"
    and real: "trustXRealIP cfg \<longrightarrow> forwardedChain h ''X-Real-Ip'' = forwardedChain h' ''X-Real-Ip''"
  shows "clientIP cfg (r\<lparr>header := h(''X-Forwarded-For'' := forged @ hops)\<rparr>) =
         clientIP cfg (r\<lparr>header := h'(''X-Forwarded-For'' := hops)\<rparr>) \<and>
    (\<not> snd (peerIsTrustedProxy cfg r) \<longrightarrow>
         clientIP cfg (r\<lparr>header := h\<rparr>) = fst (peerIsConfiguredProxy cfg r)) \<and>
    (\<forall>v vs. snd (peerIsTrustedProxy cfg r) \<and> trustXRealIP cfg \<and> forwardedChain h ''X-Real-Ip'' = v # vs \<longrightarrow> clientIP cfg (r\<lparr>header := h\<rparr>) = v)"
proof (intro conjI)
  let ?r = "r\<lparr>header := h(''X-Forwarded-For'' := forged @ hops)\<rparr>"
  let ?r' = "r\<lparr>header := h'(''X-Forwarded-For'' := hops)\<rparr>"
  have same: "forwardedChain (header ?r) ''X-Real-Ip'' = forwardedChain h ''X-Real-Ip''" "forwardedChain (header ?r') ''X-Real-Ip'' = forwardedChain h' ''X-Real-Ip''"
    by (simp_all add: forwardedChain_def)
  show "clientIP cfg ?r = clientIP cfg ?r'"
  proof (cases "snd (peerIsTrustedProxy cfg r)")
    case False
    then show ?thesis by (simp add: clientIP_untrusted)
  next
    case trusted: True
    show ?thesis
    proof (cases "trustXRealIP cfg \<and> forwardedChain h ''X-Real-Ip'' \<noteq> []")
      case True
      then show ?thesis using real same trusted by (simp add: clientIP_def split: prod.splits)
    next
      case False
      have a: "forwardedChain (header ?r) ''X-Forwarded-For'' =
          forwardedChain (\<lambda>_. forged) ''X-Forwarded-For'' @ forwardedChain (\<lambda>_. hops) ''X-Forwarded-For''"
        by (rule forwardedChain_append) simp
      have b: "forwardedChain (header ?r') ''X-Forwarded-For'' = [] @ forwardedChain (\<lambda>_. hops) ''X-Forwarded-For''"
        by (simp add: forwardedChain_def)
      have "\<not> (trustXRealIP cfg \<and> forwardedChain (header ?r) ''X-Real-Ip'' \<noteq> [])" "\<not> (trustXRealIP cfg \<and> forwardedChain (header ?r') ''X-Real-Ip'' \<noteq> [])"
        using False real unfolding same by simp_all
      then show ?thesis
        using clientIP_chain_suffix [OF _ _ a hops] clientIP_chain_suffix [OF _ _ b hops] trusted by (simp add: Let_def)
    qed
  qed
  show "\<not> snd (peerIsTrustedProxy cfg r) \<longrightarrow> clientIP cfg (r\<lparr>header := h\<rparr>) = fst (peerIsConfiguredProxy cfg r)"
    by (simp add: clientIP_untrusted) (simp add: peerIsTrustedProxy_def split: prod.splits)
  show "\<forall>v vs. snd (peerIsTrustedProxy cfg r) \<and> trustXRealIP cfg \<and> forwardedChain h ''X-Real-Ip'' = v # vs \<longrightarrow> clientIP cfg (r\<lparr>header := h\<rparr>) = v"
    by (auto simp: clientIP_def split: prod.splits)
qed

definition sample_request :: request where
  "sample_request =
     \<lparr>req_method = ''GET'', url_path = ''/api'', header = (\<lambda>_. []), cookies = [], remoteAddr = ''127.0.0.1:4000'',
      tls = False, request_id = ''r1'', ingress_zone_value = None, private_configured_value = None,
      user_id_value = None, user_role_value = None, session_id_value = None, principal_kind_value = None\<rparr>"

definition sample_proxy :: proxy_config where
  "sample_proxy = \<lparr>trustedProxyHops = 1, trustXRealIP = False, trustedProxyPeers = default_proxy_peers\<rparr>"

lemma sample_chain: "forwardedChain (\<lambda>_. [''203.0.113.9'']) ''X-Forwarded-For'' = [''203.0.113.9'']"
  by code_simp

theorem clientIP_unforgeable_witness:
  "clientIP sample_proxy (sample_request\<lparr>header := (\<lambda>_. [])(''X-Forwarded-For'' := [''10.0.0.1, 10.0.0.2''] @ [''203.0.113.9''])\<rparr>)
     = ''203.0.113.9'' \<and>
   clientIP sample_proxy (sample_request\<lparr>remoteAddr := ''8.8.8.8:99'', header := (\<lambda>_. [''1.2.3.4''])\<rparr>) = ''8.8.8.8''"
proof -
  have h: "trustedProxyHops sample_proxy \<le> int (length (forwardedChain (\<lambda>_. [''203.0.113.9'']) ''X-Forwarded-For''))"
      "\<And>a b. trustXRealIP sample_proxy \<longrightarrow> forwardedChain a ''X-Real-Ip'' = forwardedChain b ''X-Real-Ip''"
    by (simp_all add: sample_proxy_def sample_chain)
  have "clientIP sample_proxy (sample_request\<lparr>header := (\<lambda>_. [])(''X-Forwarded-For'' := [''203.0.113.9''])\<rparr>) = ''203.0.113.9''"
    by code_simp
  moreover have "\<not> snd (peerIsTrustedProxy sample_proxy (sample_request\<lparr>remoteAddr := ''8.8.8.8:99''\<rparr>))"
      "fst (peerIsConfiguredProxy sample_proxy (sample_request\<lparr>remoteAddr := ''8.8.8.8:99''\<rparr>)) = ''8.8.8.8''"
    by code_simp+
  ultimately show ?thesis
    using clientIP_unforgeable [OF h, where r = sample_request and h = "\<lambda>_. []" and h' = "\<lambda>_. []"
        and forged = "[''10.0.0.1, 10.0.0.2'']"]
      clientIP_unforgeable [OF h, where r = "sample_request\<lparr>remoteAddr := ''8.8.8.8:99''\<rparr>" and h = "\<lambda>_. [''1.2.3.4'']"]
    by simp
qed

section \<open>What the ingress zone guarantees\<close>

text \<open>The handler behind a stack of zone stamps, the first element being the one that runs first.\<close>

definition stamps :: "8 word list \<Rightarrow> 's middleware" where
  "stamps zs h = foldr StampIngressZone zs h"

lemma stamps_stamped: "ingress_zone_value r = Some z \<Longrightarrow> stamps zs h r w s = h r w s"
  by (induction zs) (simp_all add: stamps_def StampIngressZone_def)

text \<open>
  The listener a request arrived on decides its zone: behind the stamp of the listener,
  whatever further stamps the handler stack holds, a handler that requires private ingress
  runs iff the listener is the private one; on any other listener the request is answered 403
  and the state is unchanged.
\<close>

theorem ingress_zone_of_listener:
  assumes "ingress_zone_value r = None"
  shows "StampIngressZone z (stamps zs (RequirePrivateIngress h)) r w s =
    (if z = IngressPrivate then h (r\<lparr>ingress_zone_value := Some IngressPrivate\<rparr>) w s
     else RequirePrivateIngress h (r\<lparr>ingress_zone_value := Some IngressPublic\<rparr>) w s) \<and>
    (z \<noteq> IngressPrivate \<longrightarrow>
      status (fst (StampIngressZone z (stamps zs (RequirePrivateIngress h)) r w s)) = 403 \<and>
      snd (StampIngressZone z (stamps zs (RequirePrivateIngress h)) r w s) = s)"
  using assms
  by (auto simp: StampIngressZone_def stamps_stamped RequirePrivateIngress_def IsPrivateIngress_def
      IngressZoneFromContext_def IngressPrivate_def IngressPublic_def Let_def)

theorem ingress_zone_of_listener_witness:
  "status (fst (StampIngressZone 7 (stamps [IngressPrivate]
     (RequirePrivateIngress (\<lambda>r w (s :: nat). (writeJSON w 200 (Payload ''ok''), s + 1)))) sample_request (\<lambda>_. []) 5)) = 403"
proof -
  have "ingress_zone_value sample_request = None" and "(7 :: 8 word) \<noteq> IngressPrivate"
    by (simp_all add: sample_request_def IngressPrivate_def)
  then show ?thesis by (blast dest: ingress_zone_of_listener)
qed

end
