(* ===== verification/Store.thy ===== *)
theory Store
  imports Prelude
begin

text \<open>
  The tables of the database that the request path reads and writes, and the queries of
  \<^verbatim>\<open>internal/db/queries\<close> it does so with.  A query gives a row, no row
  (\<^verbatim>\<open>sql.ErrNoRows\<close>) or a database error; which statements fail is part of the state, by
  statement name, so that every error branch of the code is a case of the model.  Tables with
  a primary key are association lists in row order.  Instants are seconds.
\<close>

datatype 'a fetched = Row 'a | ErrNoRows | DBError

record user_row =
  email :: string
  role :: string
  disabled :: int
  sessions_valid_after :: int
  totp_enabled :: int

record entry_row =
  user_id :: string
  secret_owner_user_id :: string
  collection_id :: "string option"
  entry_name :: string
  encrypted_value :: bytes
  entry_nonce :: bytes
  encryption_version :: "int option"
  url :: "string option"
  alias_url :: "string option"
  username :: "string option"
  category :: "string option"
  entry_notes :: "string option"
  auto_login :: int
  rotation_interval_days :: "int option"
  expires_at :: "int option"
  provider :: "string option"
  provider_meta :: "string option"
  auto_rotate :: "int option"
  url_bidx :: string
  alias_url_bidx :: string
  name_bidx :: string
  destination_patterns :: string
  injection_spec :: string
  rotation_targets :: "string option"
  custom_fields :: string
  updated_at :: int

record member_row =
  member_role :: string
  accepted_at :: "int option"
  invited_by :: "string option"

record invitation_row =
  invitation_role :: string
  invitation_by :: "string option"

record api_key_row =
  key_user_id :: string
  key_expires_at :: "int option"
  key_revoked_at :: "int option"
  key_last_used_at :: "int option"

record session_row =
  session_user_id :: string
  session_revoked_at :: "int option"
  last_used_at :: int
  session_expires_at :: "int option"

record store =
  users :: "(string \<times> user_row) list"
  entries :: "(string \<times> entry_row) list"
  collections :: "(string \<times> string) list"
  members :: "((string \<times> string) \<times> member_row) list"
  invitations :: "((string \<times> string) \<times> invitation_row) list"
  settings :: "(string \<times> string) list"
  api_keys :: "(string \<times> api_key_row) list"
  sessions :: "(string \<times> session_row) list"
  fails :: "string \<Rightarrow> bool"

text \<open>
  SQL statements on a keyed table: \<open>UPDATE ... WHERE key = ?\<close>, \<open>DELETE ... WHERE key = ?\<close> and
  \<open>INSERT ... ON CONFLICT DO UPDATE\<close>.
\<close>

definition sql_update :: "'k \<Rightarrow> ('v \<Rightarrow> 'v) \<Rightarrow> ('k \<times> 'v) list \<Rightarrow> ('k \<times> 'v) list" where
  "sql_update k f t = map (\<lambda>(j, v). (j, if j = k then f v else v)) t"

definition sql_delete :: "'k \<Rightarrow> ('k \<times> 'v) list \<Rightarrow> ('k \<times> 'v) list" where
  "sql_delete k t = filter (\<lambda>e. fst e \<noteq> k) t"

definition sql_upsert :: "'k \<Rightarrow> 'v \<Rightarrow> ('v \<Rightarrow> 'v) \<Rightarrow> ('k \<times> 'v) list \<Rightarrow> ('k \<times> 'v) list" where
  "sql_upsert k v f t = (if k \<in> fst ` set t then sql_update k f t else t @ [(k, v)])"

lemma sql_update_keys [simp]: "map fst (sql_update k f t) = map fst t"
  by (induction t) (auto simp: sql_update_def)

lemma map_of_sql_update [simp]: "map_of (sql_update k f t) j = (if j = k then map_option f (map_of t k) else map_of t j)"
  by (induction t) (auto simp: sql_update_def)

lemma map_of_sql_delete [simp]: "map_of (sql_delete k t) j = (if j = k then None else map_of t j)"
  by (induction t) (auto simp: sql_delete_def)

lemma sql_delete_distinct [simp]: "distinct (map fst t) \<Longrightarrow> distinct (map fst (sql_delete k t))"
  by (induction t) (auto simp: sql_delete_def)

lemma map_of_append_new: "k \<notin> fst ` set t \<Longrightarrow> map_of (t @ [(k, v)]) j = (if j = k then Some v else map_of t j)"
  by (induction t) auto

lemma map_of_sql_upsert [simp]:
  "map_of (sql_upsert k v f t) j =
     (if j = k then Some (case map_of t k of None \<Rightarrow> v | Some u \<Rightarrow> f u) else map_of t j)"
proof (cases "k \<in> fst ` set t")
  case True
  then obtain u where "map_of t k = Some u" by (metis map_of_eq_None_iff option.exhaust)
  with True show ?thesis by (simp add: sql_upsert_def)
next
  case False
  then have "map_of t k = None" by (simp add: map_of_eq_None_iff)
  with False show ?thesis by (simp add: sql_upsert_def map_of_append_new map_add_def split: option.split)
qed

lemma sql_upsert_distinct [simp]: "distinct (map fst t) \<Longrightarrow> distinct (map fst (sql_upsert k v f t))"
  by (auto simp: sql_upsert_def)

definition fetch :: "store \<Rightarrow> string \<Rightarrow> 'a option \<Rightarrow> 'a fetched" where
  "fetch s query found =
     (if fails s query then DBError else case found of None \<Rightarrow> ErrNoRows | Some x \<Rightarrow> Row x)"

lemma fetch_Row [row_simps]: "fetch s q x = Row y \<longleftrightarrow> \<not> fails s q \<and> x = Some y"
  by (simp add: fetch_def split: option.split)

lemma fetch_ErrNoRows [row_simps]: "fetch s q x = ErrNoRows \<longleftrightarrow> \<not> fails s q \<and> x = None"
  by (simp add: fetch_def split: option.split)

lemma fetch_DBError [row_simps]: "fetch s q x = DBError \<longleftrightarrow> fails s q"
  by (simp add: fetch_def split: option.split)

text \<open>The queries.  A membership that has not been accepted is no row for \<open>GetCollectionMemberRole\<close>.\<close>

definition GetUserByID :: "store \<Rightarrow> string \<Rightarrow> user_row fetched" where
  "GetUserByID s uid = fetch s ''GetUserByID'' (map_of (users s) uid)"

definition GetUserByEmail :: "store \<Rightarrow> string \<Rightarrow> (string \<times> user_row) fetched" where
  "GetUserByEmail s addr = fetch s ''GetUserByEmail'' (find (\<lambda>(uid, u). email u = addr) (users s))"

definition GetUserEmailByID :: "store \<Rightarrow> string \<Rightarrow> string fetched" where
  "GetUserEmailByID s uid = fetch s ''GetUserEmailByID'' (map_option email (map_of (users s) uid))"

definition GetVaultEntryAccess :: "store \<Rightarrow> string \<Rightarrow> entry_row fetched" where
  "GetVaultEntryAccess s eid = fetch s ''GetVaultEntryAccess'' (map_of (entries s) eid)"

definition GetCollection :: "store \<Rightarrow> string \<Rightarrow> string fetched" where
  "GetCollection s cid = fetch s ''GetCollection'' (map_of (collections s) cid)"

definition ListAllCollections :: "store \<Rightarrow> (string \<times> string) list option" where
  "ListAllCollections s = (if fails s ''ListAllCollections'' then None else Some (collections s))"

definition accepted_role :: "store \<Rightarrow> string \<Rightarrow> string \<Rightarrow> string option" where
  "accepted_role s cid uid =
     (case map_of (members s) (cid, uid) of
        Some m \<Rightarrow> if accepted_at m \<noteq> None then Some (member_role m) else None
      | None \<Rightarrow> None)"

definition GetCollectionMemberRole :: "store \<Rightarrow> string \<Rightarrow> string \<Rightarrow> string fetched" where
  "GetCollectionMemberRole s cid uid = fetch s ''GetCollectionMemberRole'' (accepted_role s cid uid)"

definition GetCollectionMembership :: "store \<Rightarrow> string \<Rightarrow> string \<Rightarrow> member_row fetched" where
  "GetCollectionMembership s cid uid = fetch s ''GetCollectionMembership'' (map_of (members s) (cid, uid))"

definition GetSetting :: "store \<Rightarrow> string \<Rightarrow> string fetched" where
  "GetSetting s key = fetch s ''GetSetting'' (map_of (settings s) key)"

lemmas query_defs = GetUserByID_def GetUserByEmail_def GetUserEmailByID_def GetVaultEntryAccess_def
  GetCollection_def GetCollectionMemberRole_def GetCollectionMembership_def GetSetting_def

definition empty_store :: store where
  "empty_store =
     \<lparr>users = [], entries = [], collections = [], members = [], invitations = [], settings = [],
      api_keys = [], sessions = [], fails = (\<lambda>_. False)\<rparr>"

definition blank_entry :: "string \<Rightarrow> string option \<Rightarrow> entry_row" where
  "blank_entry uid cid =
     \<lparr>user_id = uid, secret_owner_user_id = uid, collection_id = cid, entry_name = [], encrypted_value = [],
      entry_nonce = [], encryption_version = Some 2, url = None, alias_url = None, username = None, category = None,
      entry_notes = None, auto_login = 0, rotation_interval_days = None, expires_at = None, provider = None,
      provider_meta = None, auto_rotate = None, url_bidx = [], alias_url_bidx = [], name_bidx = [],
      destination_patterns = ''[]'', injection_spec = ''{}'', rotation_targets = None, custom_fields = [], updated_at = 0\<rparr>"

lemma blank_entry_sel [simp]:
  "user_id (blank_entry u c) = u" "secret_owner_user_id (blank_entry u c) = u" "collection_id (blank_entry u c) = c"
  "destination_patterns (blank_entry u c) = ''[]''" "injection_spec (blank_entry u c) = ''{}''"
  "provider (blank_entry u c) = None" "provider_meta (blank_entry u c) = None" "rotation_targets (blank_entry u c) = None"
  by (simp_all add: blank_entry_def)

end
