(* ===== verification/Private_Access.thy ===== *)
theory Private_Access
  imports Web Store
begin

text \<open>
  Private-access policies of collections: \<^verbatim>\<open>internal/privateaccess/policy.go\<close> and
  \<^verbatim>\<open>internal/handlers/private_access.go\<close>.  A check that writes a response and returns false is
  \<open>Some\<close> response here; \<open>None\<close> lets the request go on.
\<close>

datatype policy = PolicyStandard | PolicySensitivePrivate | PolicyFullyPrivate

definition Parse :: "string \<Rightarrow> policy option" where
  "Parse v =
     (if v = ''standard'' then Some PolicyStandard
      else if v = ''sensitive_private'' then Some PolicySensitivePrivate
      else if v = ''fully_private'' then Some PolicyFullyPrivate
      else None)"

definition ParseOrDefault :: "string \<Rightarrow> policy option" where
  "ParseOrDefault v = (if v = [] then Some PolicyStandard else Parse v)"

datatype operation = privateAccessMetadata | privateAccessSensitive

datatype lookup_error = UnknownPolicy | NoSuchRow | LookupFailed

definition storedPrivateAccessPolicy :: "string \<Rightarrow> lookup_error + policy" where
  "storedPrivateAccessPolicy raw = (case Parse raw of None \<Rightarrow> Inl UnknownPolicy | Some p \<Rightarrow> Inr p)"

fun privateIngressRequired :: "policy \<Rightarrow> operation \<Rightarrow> bool" where
  "privateIngressRequired PolicyStandard _ = False"
| "privateIngressRequired PolicySensitivePrivate op = (op = privateAccessSensitive)"
| "privateIngressRequired PolicyFullyPrivate _ = True"

definition writePrivateIngressRequired :: "headers \<Rightarrow> request \<Rightarrow> response" where
  "writePrivateIngressRequired w r =
     writeError (header_set ''Cache-Control'' ''no-store'' w) r 403 PrivateIngressRequiredCode ''private ingress required''"

definition requireConfiguredPrivateControlPlaneIngress :: "headers \<Rightarrow> request \<Rightarrow> response option" where
  "requireConfiguredPrivateControlPlaneIngress w r =
     (if \<not> IsPrivateIngressConfigured r \<or> IsPrivateIngress r then None
      else Some (writePrivateIngressRequired w r))"

definition enforcePrivateAccessPolicy ::
  "headers \<Rightarrow> request \<Rightarrow> policy \<Rightarrow> operation \<Rightarrow> bool \<Rightarrow> string \<Rightarrow> response option" where
  "enforcePrivateAccessPolicy w r p op hideFullyPrivate msg =
     (if IsPrivateIngress r \<or> \<not> privateIngressRequired p op then None
      else if hideFullyPrivate \<and> p = PolicyFullyPrivate
      then Some (writeNotFound w r (if msg = [] then ''resource not found'' else msg))
      else Some (writePrivateIngressRequired w r))"

definition collectionPrivateAccessPolicy :: "store \<Rightarrow> string \<Rightarrow> lookup_error + policy" where
  "collectionPrivateAccessPolicy s cid =
     (case GetCollection s cid of
        Row raw \<Rightarrow> storedPrivateAccessPolicy raw
      | ErrNoRows \<Rightarrow> Inl NoSuchRow
      | DBError \<Rightarrow> Inl LookupFailed)"

text \<open>The policy, and whether the entry was found.\<close>

definition entryPrivateAccessPolicy :: "store \<Rightarrow> string \<Rightarrow> lookup_error + policy \<times> bool" where
  "entryPrivateAccessPolicy s eid =
     (case GetVaultEntryAccess s eid of
        ErrNoRows \<Rightarrow> Inr (PolicyStandard, False)
      | DBError \<Rightarrow> Inl LookupFailed
      | Row access \<Rightarrow>
         (case collection_id access of
            None \<Rightarrow> Inr (PolicyStandard, True)
          | Some cid \<Rightarrow>
             if cid = [] then Inr (PolicyStandard, True)
             else case collectionPrivateAccessPolicy s cid of
                    Inl e \<Rightarrow> Inl e
                  | Inr p \<Rightarrow> Inr (p, True)))"

text \<open>The same question as one query with a left join: the policy column is NULL when there is no collection.\<close>

definition entryPrivateAccessPolicyFromDB :: "store \<Rightarrow> string \<Rightarrow> lookup_error + policy \<times> bool" where
  "entryPrivateAccessPolicyFromDB s eid =
     (case fetch s ''entryPrivateAccessPolicyFromDB''
        (map_option (\<lambda>e. case collection_id e of None \<Rightarrow> None | Some cid \<Rightarrow> map_of (collections s) cid) (map_of (entries s) eid)) of
        ErrNoRows \<Rightarrow> Inr (PolicyStandard, False)
      | DBError \<Rightarrow> Inl LookupFailed
      | Row None \<Rightarrow> Inr (PolicyStandard, True)
      | Row (Some raw) \<Rightarrow>
         if raw = [] then Inr (PolicyStandard, True)
         else case storedPrivateAccessPolicy raw of Inl e \<Rightarrow> Inl e | Inr p \<Rightarrow> Inr (p, True))"

definition privateIngressSQLFlag :: "request \<Rightarrow> int" where
  "privateIngressSQLFlag r = (if IsPrivateIngress r then 1 else 0)"

definition entryAllowsExternalNotificationMetadata :: "store \<Rightarrow> string \<Rightarrow> bool" where
  "entryAllowsExternalNotificationMetadata s eid =
     (if eid = [] then True
      else case entryPrivateAccessPolicy s eid of
             Inl _ \<Rightarrow> False
           | Inr (p, found) \<Rightarrow> found \<and> p \<noteq> PolicyFullyPrivate)"

abbreviation unverified :: "headers \<Rightarrow> request \<Rightarrow> response option" where
  "unverified w r \<equiv> Some (writeInternalError w r ''private access policy could not be verified'')"

definition requireEntryPrivateAccess :: "store \<Rightarrow> headers \<Rightarrow> request \<Rightarrow> string \<Rightarrow> operation \<Rightarrow> response option" where
  "requireEntryPrivateAccess s w r eid op =
     (case entryPrivateAccessPolicy s eid of
        Inl _ \<Rightarrow> unverified w r
      | Inr (p, found) \<Rightarrow>
         if \<not> found then None else enforcePrivateAccessPolicy w r p op True ''vault entry not found'')"

definition capabilityRequireEntryPrivateAccess :: "store \<Rightarrow> headers \<Rightarrow> request \<Rightarrow> string \<Rightarrow> operation \<Rightarrow> response option" where
  "capabilityRequireEntryPrivateAccess s w r eid op =
     (case entryPrivateAccessPolicyFromDB s eid of
        Inl _ \<Rightarrow> unverified w r
      | Inr (p, found) \<Rightarrow>
         if \<not> found then None else enforcePrivateAccessPolicy w r p op True ''secret not found'')"

definition requireCollectionPrivateAccess :: "store \<Rightarrow> headers \<Rightarrow> request \<Rightarrow> string \<Rightarrow> operation \<Rightarrow> response option" where
  "requireCollectionPrivateAccess s w r cid op =
     (case collectionPrivateAccessPolicy s cid of
        Inl NoSuchRow \<Rightarrow> Some (writeNotFound w r ''collection not found'')
      | Inl _ \<Rightarrow> unverified w r
      | Inr p \<Rightarrow> enforcePrivateAccessPolicy w r p op True ''collection not found'')"

text \<open>The destination of a move: visible first, then writable, then the sensitive check.\<close>

definition requireWritableCollectionDestination ::
  "(string \<Rightarrow> bool) \<Rightarrow> store \<Rightarrow> headers \<Rightarrow> request \<Rightarrow> string \<Rightarrow> response option" where
  "requireWritableCollectionDestination canWrite s w r cid =
     (case collectionPrivateAccessPolicy s cid of
        Inl NoSuchRow \<Rightarrow> Some (writeNotFound w r ''collection not found'')
      | Inl _ \<Rightarrow> unverified w r
      | Inr p \<Rightarrow>
         (case enforcePrivateAccessPolicy w r p privateAccessMetadata True ''collection not found'' of
            Some resp \<Rightarrow> Some resp
          | None \<Rightarrow>
             if \<not> canWrite cid then Some (writeForbidden w r ''you do not have write access to that collection'')
             else enforcePrivateAccessPolicy w r p privateAccessSensitive True ''collection not found''))"

definition requireHistoricalPrivateAuditIngress :: "store \<Rightarrow> headers \<Rightarrow> request \<Rightarrow> response option" where
  "requireHistoricalPrivateAuditIngress s w r =
     (if IsPrivateIngress r then None
      else case GetSetting s ''private_access_audit_ever_fully_private'' of
             ErrNoRows \<Rightarrow> None
           | DBError \<Rightarrow> unverified w r
           | Row v \<Rightarrow> if v \<noteq> ''1'' then unverified w r else Some (writePrivateIngressRequired w r))"

fun scan_policies :: "(string \<times> string) list \<Rightarrow> lookup_error + bool" where
  "scan_policies [] = Inr False"
| "scan_policies ((cid, raw) # rows) =
     (case storedPrivateAccessPolicy raw of
        Inl e \<Rightarrow> Inl e
      | Inr p \<Rightarrow> if privateIngressRequired p privateAccessSensitive then Inr True else scan_policies rows)"

definition globalProtectedPrivateAccessRequired :: "store \<Rightarrow> lookup_error + bool" where
  "globalProtectedPrivateAccessRequired s =
     (case ListAllCollections s of None \<Rightarrow> Inl LookupFailed | Some rows \<Rightarrow> scan_policies rows)"

definition requireGlobalProtectedPrivateAccess :: "store \<Rightarrow> headers \<Rightarrow> request \<Rightarrow> response option" where
  "requireGlobalProtectedPrivateAccess s w r =
     (if IsPrivateIngress r then None
      else case globalProtectedPrivateAccessRequired s of
             Inl _ \<Rightarrow> unverified w r
           | Inr required \<Rightarrow> if required then Some (writePrivateIngressRequired w r) else None)"

definition privateMetadataVisible :: "request \<Rightarrow> string \<Rightarrow> lookup_error + bool" where
  "privateMetadataVisible r raw =
     (case storedPrivateAccessPolicy raw of
        Inl e \<Rightarrow> Inl e
      | Inr p \<Rightarrow> Inr (IsPrivateIngress r \<or> p \<noteq> PolicyFullyPrivate))"

fun build_policy_map :: "(string \<times> string) list \<Rightarrow> (string \<Rightarrow> policy option) \<Rightarrow> (string \<Rightarrow> policy option) option" where
  "build_policy_map [] m = Some m"
| "build_policy_map ((cid, raw) # rows) m =
     (case storedPrivateAccessPolicy raw of
        Inl _ \<Rightarrow> None
      | Inr p \<Rightarrow> build_policy_map rows (m(cid := Some p)))"

definition collectionPolicyMap :: "store \<Rightarrow> (string \<Rightarrow> policy option) option" where
  "collectionPolicyMap s =
     (case ListAllCollections s of None \<Rightarrow> None | Some rows \<Rightarrow> build_policy_map rows (\<lambda>_. None))"

definition entryMetadataVisibleOnIngress :: "request \<Rightarrow> string option \<Rightarrow> (string \<Rightarrow> policy option) \<Rightarrow> bool" where
  "entryMetadataVisibleOnIngress r cid policies =
     (if IsPrivateIngress r \<or> cid = None \<or> cid = Some [] then True
      else case policies (the cid) of Some p \<Rightarrow> p \<noteq> PolicyFullyPrivate | None \<Rightarrow> False)"

section \<open>The doors agree\<close>

lemma build_policy_map_lookup:
  "build_policy_map rows m = Some m' \<Longrightarrow> distinct (map fst rows) \<Longrightarrow>
   m' cid = (case map_of rows cid of Some raw \<Rightarrow> Parse raw | None \<Rightarrow> m cid) \<and>
   (\<forall>raw. map_of rows cid = Some raw \<longrightarrow> Parse raw \<noteq> None)"
proof (induction rows m rule: build_policy_map.induct)
  case (2 c raw rows m)
  from "2.prems" obtain p where p: "Parse raw = Some p"
    and b: "build_policy_map rows (m(c := Some p)) = Some m'"
    by (auto simp: storedPrivateAccessPolicy_def split: option.splits)
  have "map_of rows c = None" using "2.prems" by (simp add: map_of_eq_None_iff)
  moreover have "storedPrivateAccessPolicy raw = Inr p" "distinct (map fst rows)"
    using p "2.prems" by (simp_all add: storedPrivateAccessPolicy_def)
  note ih = "2.IH" [OF this(1) b this(2)]
  ultimately show ?case using p ih by (auto split: option.splits)
qed simp

lemma policyMap_lookup:
  assumes "collectionPolicyMap s = Some m" "distinct (map fst (collections s))"
  shows "m cid = (case map_of (collections s) cid of Some raw \<Rightarrow> Parse raw | None \<Rightarrow> None)"
    and "map_of (collections s) cid = Some raw \<Longrightarrow> Parse raw \<noteq> None"
  using assms build_policy_map_lookup [of "collections s" "\<lambda>_. None" m cid]
  by (auto simp: collectionPolicyMap_def ListAllCollections_def split: if_splits)

lemma scan_policies_False:
  "scan_policies rows = Inr False \<Longrightarrow> (cid, raw) \<in> set rows \<Longrightarrow>
   Parse raw = Some PolicyStandard"
proof (induction rows rule: scan_policies.induct)
  case (2 c v rows)
  then show ?case
    by (cases "Parse v"; cases "the (Parse v)")
      (auto simp: storedPrivateAccessPolicy_def split: if_splits)
qed simp

lemma entry_policy:
  assumes "map_of (entries s) eid = Some e" "collection_id e = Some cid" "cid \<noteq> []"
    and "map_of (collections s) cid = Some raw" "Parse raw = Some p"
  shows "\<not> fails s ''GetVaultEntryAccess'' \<Longrightarrow> \<not> fails s ''GetCollection'' \<Longrightarrow>
      entryPrivateAccessPolicy s eid = Inr (p, True)"
    and "\<not> fails s ''entryPrivateAccessPolicyFromDB'' \<Longrightarrow> entryPrivateAccessPolicyFromDB s eid = Inr (p, True)"
proof -
  have "raw \<noteq> []" using assms(5) by (auto simp: Parse_def)
  with assms show
    "\<not> fails s ''GetVaultEntryAccess'' \<Longrightarrow> \<not> fails s ''GetCollection'' \<Longrightarrow>
      entryPrivateAccessPolicy s eid = Inr (p, True)"
    "\<not> fails s ''entryPrivateAccessPolicyFromDB'' \<Longrightarrow> entryPrivateAccessPolicyFromDB s eid = Inr (p, True)"
    by (simp_all add: entryPrivateAccessPolicy_def entryPrivateAccessPolicyFromDB_def
        collectionPrivateAccessPolicy_def query_defs fetch_def storedPrivateAccessPolicy_def)
qed

lemma scan_policies_standard: "(\<forall>(cid, raw) \<in> set rows. raw = ''standard'') \<Longrightarrow> scan_policies rows = Inr False"
  by (induction rows rule: scan_policies.induct) (auto simp: storedPrivateAccessPolicy_def Parse_def)


definition sample_store :: store where
  "sample_store = empty_store\<lparr>collections := [(''c1'', ''fully_private''), (''c2'', ''standard'')],
     entries := [(''e1'', blank_entry ''u1'' (Some ''c1''))]\<rparr>"


text \<open>
  C33. Private access fails closed: on a public request, when the policy of an entry's
  collection cannot be read or is not one of the three known ones, no operation on the entry
  gets through and the answer is 500; and an entry of a fully private collection is answered
  404 with the text a missing entry gets, for every operation.
\<close>

theorem private_access_fail_closed:
  assumes "GetVaultEntryAccess s eid = Row e" "collection_id e = Some cid" "cid \<noteq> []" "\<not> IsPrivateIngress r"
  shows "((\<forall>raw. GetCollection s cid = Row raw \<longrightarrow> Parse raw = None) \<longrightarrow>
       (\<exists>resp. requireEntryPrivateAccess s w r eid op = Some resp \<and> status resp = 500)) \<and>
    (GetCollection s cid = Row ''fully_private'' \<longrightarrow>
       requireEntryPrivateAccess s w r eid op = Some (writeNotFound w r ''vault entry not found''))"
proof (intro conjI impI)
  assume unknown: "\<forall>raw. GetCollection s cid = Row raw \<longrightarrow> Parse raw = None"
  then obtain err where "collectionPrivateAccessPolicy s cid = Inl err"
    by (cases "GetCollection s cid") (auto simp: collectionPrivateAccessPolicy_def storedPrivateAccessPolicy_def)
  with assms have "entryPrivateAccessPolicy s eid = Inl err" by (simp add: entryPrivateAccessPolicy_def)
  then show "\<exists>resp. requireEntryPrivateAccess s w r eid op = Some resp \<and> status resp = 500"
    by (simp add: requireEntryPrivateAccess_def writeInternalError_def writeError_def writeJSON_def)
next
  assume "GetCollection s cid = Row ''fully_private''"
  then have "entryPrivateAccessPolicy s eid = Inr (PolicyFullyPrivate, True)"
    using assms by (simp add: entryPrivateAccessPolicy_def collectionPrivateAccessPolicy_def
        storedPrivateAccessPolicy_def Parse_def)
  then show "requireEntryPrivateAccess s w r eid op = Some (writeNotFound w r ''vault entry not found'')"
    using assms(4) by (simp add: requireEntryPrivateAccess_def enforcePrivateAccessPolicy_def)
qed

theorem private_access_fail_closed_witness:
  "(\<exists>resp. requireEntryPrivateAccess (sample_store\<lparr>collections := [(''c1'', ''open'')]\<rparr>) (\<lambda>_. []) sample_request ''e1'' privateAccessMetadata = Some resp \<and>
      status resp = 500) \<and>
   requireEntryPrivateAccess sample_store (\<lambda>_. []) sample_request ''e1'' privateAccessMetadata =
     Some (writeNotFound (\<lambda>_. []) sample_request ''vault entry not found'')"
proof -
  have "GetVaultEntryAccess sample_store ''e1'' = Row (blank_entry ''u1'' (Some ''c1''))"
      "collection_id (blank_entry ''u1'' (Some ''c1'')) = Some ''c1''"
      "''c1'' \<noteq> []" "\<not> IsPrivateIngress sample_request" "GetCollection sample_store ''c1'' = Row ''fully_private''"
    by (simp_all add: sample_store_def empty_store_def IsPrivateIngress_def IngressZoneFromContext_def
        sample_request_def IngressPublic_def IngressPrivate_def query_defs fetch_def)
  moreover have "GetVaultEntryAccess (sample_store\<lparr>collections := [(''c1'', ''open'')]\<rparr>) ''e1'' = Row (blank_entry ''u1'' (Some ''c1''))"
      "\<forall>policy. GetCollection (sample_store\<lparr>collections := [(''c1'', ''open'')]\<rparr>) ''c1'' = Row policy \<longrightarrow> Parse policy = None"
    by (simp_all add: sample_store_def empty_store_def query_defs fetch_def Parse_def)
  ultimately show ?thesis using private_access_fail_closed by blast
qed

end
