(* ===== verification/Vault_Egress.thy ===== *)
theory Vault_Egress
  imports Store "HOL-Library.List_Lexorder" "HOL-Library.Char_ord"
begin

text \<open>
  Who may move where a secret is sent, and who owns it: the ticket of
  \<^verbatim>\<open>internal/egressgate/egressgate.go\<close>, the only writers of the host-choosing columns
  (\<^verbatim>\<open>internal/vaultegress/writes.go\<close>), ownership transfer (\<^verbatim>\<open>ownership.go\<close>), and the delivery
  targets of rotations with their purge (\<^verbatim>\<open>vault_targets.go\<close>, \<^verbatim>\<open>vault_egress_writes.go\<close>,
  \<^verbatim>\<open>collection_target_purge.go\<close>, \<^verbatim>\<open>vault_target_purge.go\<close>).

  A writer takes the state and gives an error or the new state; \<open>now\<close> is the value of
  \<^verbatim>\<open>CURRENT_TIMESTAMP\<close>.
\<close>

section \<open>The egress decision\<close>

record ticket =
  tk_entryID :: string
  tk_what :: string
  tk_added :: "string list"
  tk_granted :: bool

definition zero_ticket :: ticket where
  "zero_ticket = \<lparr>tk_entryID = [], tk_what = [], tk_added = [], tk_granted = False\<rparr>"

record egress_request =
  EntryID :: string
  What :: string
  Before :: "string list"
  After :: "string list"
  Covers :: "(string \<Rightarrow> string \<Rightarrow> bool) option"
  MayRedirect :: "bool option"

datatype egress_error =
  ErrNoSubject string string
| DeniedError string string "string list"
| NotGranted
| WrongEntry
| WrongField
| StatementFailed
| TransferDenied string
| ProofNotGranted
| ProofWrongEntry
| ProofWrongOwner
| NoNameIndex

definition exactMatch :: "string \<Rightarrow> string \<Rightarrow> bool" where
  "exactMatch have want \<longleftrightarrow> equal_fold (trim_space have) (trim_space want)"

fun added_loop :: "(string \<Rightarrow> string \<Rightarrow> bool) \<Rightarrow> string list \<Rightarrow> string list \<Rightarrow> string list \<Rightarrow> string list" where
  "added_loop covers before [] added = added"
| "added_loop covers before (w # ws) added =
     (let want = trim_space w
      in if want = [] \<or> want \<in> set added then added_loop covers before ws added
         else if \<exists>have \<in> set before. trim_space have \<noteq> [] \<and> covers have want
         then added_loop covers before ws added
         else added_loop covers before ws (added @ [want]))"

definition Added :: "string list \<Rightarrow> string list \<Rightarrow> (string \<Rightarrow> string \<Rightarrow> bool) option \<Rightarrow> string list" where
  "Added before after covers =
     sort (added_loop (case covers of None \<Rightarrow> exactMatch | Some c \<Rightarrow> c) before after [])"

definition Decide :: "egress_request \<Rightarrow> egress_error + ticket" where
  "Decide req =
     (if trim_space (EntryID req) = [] \<or> trim_space (What req) = [] then Inl (ErrNoSubject (EntryID req) (What req))
      else (let added = Added (Before req) (After req) (Covers req)
            in if added = []
               then Inr \<lparr>tk_entryID = EntryID req, tk_what = What req, tk_added = [], tk_granted = True\<rparr>
               else if MayRedirect req \<noteq> Some True then Inl (DeniedError (EntryID req) (What req) added)
               else Inr \<lparr>tk_entryID = EntryID req, tk_what = What req, tk_added = added, tk_granted = True\<rparr>))"

definition Authorizes :: "ticket \<Rightarrow> string \<Rightarrow> string \<Rightarrow> egress_error option" where
  "Authorizes t eid what =
     (if \<not> tk_granted t then Some NotGranted
      else if tk_entryID t \<noteq> eid then Some WrongEntry
      else if tk_what t \<noteq> what then Some WrongField
      else None)"

section \<open>The writers of the host-choosing columns\<close>

definition FieldDestinations :: string where "FieldDestinations = ''destination_patterns''"
definition FieldProvider :: string where "FieldProvider = ''provider+provider_meta''"
definition FieldProviderMeta :: string where "FieldProviderMeta = ''provider_meta''"
definition FieldRotationTargets :: string where "FieldRotationTargets = ''rotation_targets''"
definition FieldRekey :: string where "FieldRekey = ''rekey''"

lemmas field_defs = FieldDestinations_def FieldProvider_def FieldProviderMeta_def FieldRotationTargets_def FieldRekey_def

text \<open>One statement: it fails or is applied.\<close>

definition exec :: "store \<Rightarrow> string \<Rightarrow> store \<Rightarrow> egress_error + store" where
  "exec s stmt s' = (if fails s stmt then Inl StatementFailed else Inr s')"

definition update_entry :: "store \<Rightarrow> string \<Rightarrow> (entry_row \<Rightarrow> entry_row) \<Rightarrow> store" where
  "update_entry s eid f = s\<lparr>entries := sql_update eid f (entries s)\<rparr>"

definition SetDestinationPatterns :: "int \<Rightarrow> store \<Rightarrow> ticket \<Rightarrow> string \<Rightarrow> string \<Rightarrow> egress_error + store" where
  "SetDestinationPatterns now s tk patterns eid =
     (case Authorizes tk eid FieldDestinations of
        Some e \<Rightarrow> Inl e
      | None \<Rightarrow>
         exec s ''UpdateVaultEntryDestinationPatterns''
           (update_entry s eid (\<lambda>r. r\<lparr>destination_patterns := patterns, updated_at := now\<rparr>)))"

definition SeedCapabilityDefaults ::
  "int \<Rightarrow> store \<Rightarrow> ticket \<Rightarrow> string \<Rightarrow> string \<Rightarrow> string \<Rightarrow> egress_error + store" where
  "SeedCapabilityDefaults now s tk patterns spec eid =
     (case Authorizes tk eid FieldDestinations of
        Some e \<Rightarrow> Inl e
      | None \<Rightarrow>
         exec s ''SeedVaultEntryCapabilityDefaults''
           (update_entry s eid
              (\<lambda>r. if destination_patterns r = ''[]'' \<and> injection_spec r = ''{}''
                   then r\<lparr>destination_patterns := patterns, injection_spec := spec, updated_at := now\<rparr> else r)))"

definition SetProvider ::
  "int \<Rightarrow> store \<Rightarrow> ticket \<Rightarrow> string option \<Rightarrow> string option \<Rightarrow> int option \<Rightarrow> string \<Rightarrow> egress_error + store" where
  "SetProvider now s tk prov meta auto eid =
     (case Authorizes tk eid FieldProvider of
        Some e \<Rightarrow> Inl e
      | None \<Rightarrow>
         exec s ''UpdateVaultEntryProvider''
           (update_entry s eid (\<lambda>r. r\<lparr>provider := prov, provider_meta := meta, auto_rotate := auto, updated_at := now\<rparr>)))"

definition SetProviderMeta :: "int \<Rightarrow> store \<Rightarrow> ticket \<Rightarrow> string option \<Rightarrow> string \<Rightarrow> egress_error + store" where
  "SetProviderMeta now s tk meta eid =
     (case Authorizes tk eid FieldProviderMeta of
        Some e \<Rightarrow> Inl e
      | None \<Rightarrow>
         exec s ''UpdateVaultEntryProviderMeta''
           (update_entry s eid (\<lambda>r. r\<lparr>provider_meta := meta, updated_at := now\<rparr>)))"

text \<open>The compare-and-swap: the boolean says whether the row still held the previous value.\<close>

definition CASProviderMeta ::
  "int \<Rightarrow> store \<Rightarrow> ticket \<Rightarrow> string option \<Rightarrow> string option \<Rightarrow> string \<Rightarrow> egress_error + (bool \<times> store)" where
  "CASProviderMeta now s tk meta prev eid =
     (case Authorizes tk eid FieldProviderMeta of
        Some e \<Rightarrow> Inl e
      | None \<Rightarrow>
         (case exec s ''CASVaultEntryProviderMeta''
            (update_entry s eid (\<lambda>r. if provider_meta r = prev then r\<lparr>provider_meta := meta, updated_at := now\<rparr> else r)) of
            Inl e \<Rightarrow> Inl e
          | Inr s' \<Rightarrow>
             if fails s ''RowsAffected'' then Inl StatementFailed
             else Inr (case map_of (entries s) eid of Some r \<Rightarrow> provider_meta r = prev | None \<Rightarrow> False, s')))"

definition SetRotationTargets :: "int \<Rightarrow> store \<Rightarrow> ticket \<Rightarrow> string option \<Rightarrow> string \<Rightarrow> egress_error + store" where
  "SetRotationTargets now s tk targets eid =
     (case Authorizes tk eid FieldRotationTargets of
        Some e \<Rightarrow> Inl e
      | None \<Rightarrow>
         exec s ''UpdateVaultEntryRotationTargets''
           (update_entry s eid (\<lambda>r. r\<lparr>rotation_targets := targets, updated_at := now\<rparr>)))"

text \<open>The row inserted is the given one with the column defaults of the schema and encryption version 2.\<close>

definition CreateEntry :: "store \<Rightarrow> ticket \<Rightarrow> string \<Rightarrow> entry_row \<Rightarrow> egress_error + store" where
  "CreateEntry s tk eid row =
     (case Authorizes tk eid FieldProvider of
        Some e \<Rightarrow> Inl e
      | None \<Rightarrow>
         if eid \<in> fst ` set (entries s) then Inl StatementFailed
         else exec s ''CreateVaultEntry''
           (s\<lparr>entries := entries s @
               [(eid, row\<lparr>encryption_version := Some 2, rotation_targets := Some ''[]'', destination_patterns := ''[]'',
                          injection_spec := ''{}'', custom_fields := ''[]''\<rparr>)]\<rparr>))"

definition RekeyEntry :: "store \<Rightarrow> ticket \<Rightarrow> string \<Rightarrow> entry_row \<Rightarrow> egress_error + store" where
  "RekeyEntry s tk eid p =
     (case Authorizes tk eid FieldRekey of
        Some e \<Rightarrow> Inl e
      | None \<Rightarrow>
         exec s ''RekeyVaultEntry''
           (update_entry s eid
              (\<lambda>r. r\<lparr>encrypted_value := encrypted_value p, entry_nonce := entry_nonce p,
                     encryption_version := encryption_version p, entry_name := entry_name p, url := url p,
                     alias_url := alias_url p, username := username p, category := category p,
                     entry_notes := entry_notes p, provider_meta := provider_meta p,
                     rotation_targets := rotation_targets p, custom_fields := custom_fields p,
                     url_bidx := url_bidx p, alias_url_bidx := alias_url_bidx p, name_bidx := name_bidx p\<rparr>)))"

section \<open>Ownership\<close>

record transfer_proof =
  pf_entryID :: string
  pf_to :: string
  pf_why :: string
  pf_granted :: bool

definition zero_proof :: transfer_proof where
  "zero_proof = \<lparr>pf_entryID = [], pf_to = [], pf_why = [], pf_granted = False\<rparr>"

record transfer_request =
  tr_EntryID :: string
  tr_Actor :: string
  tr_ActorIsInstanceAdmin :: bool
  tr_To :: string
  tr_Why :: string

definition AuthorizeTransfer :: "transfer_request \<Rightarrow> egress_error + transfer_proof" where
  "AuthorizeTransfer req =
     (let entry = trim_space (tr_EntryID req); actor = trim_space (tr_Actor req);
          to = trim_space (tr_To req); why = trim_space (tr_Why req)
      in if entry = [] then Inl (TransferDenied ''no entry was named'')
         else if actor = [] then Inl (TransferDenied ''no acting principal was named'')
         else if to = [] then Inl (TransferDenied ''no new owner was named'')
         else if why = [] then Inl (TransferDenied ''no reason was recorded'')
         else if \<not> tr_ActorIsInstanceAdmin req then Inl (TransferDenied ''that takes an instance admin'')
         else if to \<noteq> actor then Inl (TransferDenied ''ownership may only be taken by the acting admin'')
         else Inr \<lparr>pf_entryID = entry, pf_to = to, pf_why = why, pf_granted = True\<rparr>)"

record restore_request =
  rr_EntryID :: string
  rr_Actor :: string
  rr_ActorIsInstanceAdmin :: bool
  rr_RecordedPreviousOwner :: string
  rr_To :: string
  rr_Why :: string

definition AuthorizeRestore :: "restore_request \<Rightarrow> egress_error + transfer_proof" where
  "AuthorizeRestore req =
     (let entry = trim_space (rr_EntryID req); actor = trim_space (rr_Actor req);
          to = trim_space (rr_To req); prev = trim_space (rr_RecordedPreviousOwner req);
          why = trim_space (rr_Why req)
      in if entry = [] then Inl (TransferDenied ''no entry was named'')
         else if actor = [] then Inl (TransferDenied ''no acting principal was named'')
         else if why = [] then Inl (TransferDenied ''no reason was recorded'')
         else if \<not> rr_ActorIsInstanceAdmin req then Inl (TransferDenied ''that takes an instance admin'')
         else if prev = [] then Inl (TransferDenied ''nothing recorded a previous holder'')
         else if to \<noteq> prev then Inl (TransferDenied ''a restore may only return the entry to the recorded holder'')
         else Inr \<lparr>pf_entryID = entry, pf_to = to, pf_why = why, pf_granted = True\<rparr>)"

definition authorizes :: "transfer_proof \<Rightarrow> string \<Rightarrow> string \<Rightarrow> egress_error option" where
  "authorizes p eid newOwner =
     (if \<not> pf_granted p then Some ProofNotGranted
      else if pf_entryID p \<noteq> eid then Some ProofWrongEntry
      else if pf_to p \<noteq> newOwner then Some ProofWrongOwner
      else None)"

definition TransferSecretOwnership ::
  "int \<Rightarrow> store \<Rightarrow> transfer_proof \<Rightarrow> string \<Rightarrow> string \<Rightarrow> string \<Rightarrow> egress_error + store" where
  "TransferSecretOwnership now s p newOwner eid nameBidx =
     (case authorizes p eid newOwner of
        Some e \<Rightarrow> Inl e
      | None \<Rightarrow>
         if nameBidx = [] then Inl NoNameIndex
         else exec s ''TransferVaultEntrySecretOwner''
           (update_entry s eid
              (\<lambda>r. r\<lparr>user_id := newOwner, secret_owner_user_id := newOwner, name_bidx := nameBidx, updated_at := now\<rparr>)))"

text \<open>Adoption of an orphaned shared entry: the statement \<^verbatim>\<open>AdoptAndRenameVaultEntry\<close>.\<close>

definition AdoptAndRenameVaultEntry :: "int \<Rightarrow> store \<Rightarrow> string \<Rightarrow> string \<Rightarrow> string \<Rightarrow> string \<Rightarrow> egress_error + store" where
  "AdoptAndRenameVaultEntry now s uid encName nameBidx eid =
     exec s ''AdoptAndRenameVaultEntry''
       (update_entry s eid (\<lambda>r. r\<lparr>user_id := uid, entry_name := encName, name_bidx := nameBidx, updated_at := now\<rparr>))"

section \<open>What a decision says\<close>

definition uncovered :: "(string \<Rightarrow> string \<Rightarrow> bool) option \<Rightarrow> string list \<Rightarrow> string list \<Rightarrow> string set" where
  "uncovered covers before after =
     {w. w \<noteq> [] \<and> w \<in> trim_space ` set after \<and>
         \<not> (\<exists>h \<in> set before. trim_space h \<noteq> [] \<and> (case covers of None \<Rightarrow> exactMatch | Some c \<Rightarrow> c) h w)}"

lemma added_loop_set:
  "set (added_loop c b ws acc) =
     set acc \<union> {w. w \<noteq> [] \<and> w \<in> trim_space ` set ws \<and> \<not> (\<exists>h \<in> set b. trim_space h \<noteq> [] \<and> c h w)}"
  by (induction c b ws acc rule: added_loop.induct) (auto simp: Let_def)

lemma added_loop_distinct: "distinct acc \<Longrightarrow> distinct (added_loop c b ws acc)"
  by (induction c b ws acc rule: added_loop.induct) (auto simp: Let_def)

lemma Added_correct:
  "set (Added b a c) = uncovered c b a \<and> sorted (Added b a c) \<and> distinct (Added b a c)"
  by (cases c) (simp_all add: Added_def uncovered_def added_loop_set added_loop_distinct)

lemma Added_Nil_iff: "Added b a c = [] \<longleftrightarrow> uncovered c b a = {}"
  using Added_correct [of b a c] by (metis empty_set set_empty)

text \<open>
  A decision is exact: a ticket is issued iff an entry and a field are named and either
  nothing is added or the oracle allows it; the ticket then lists exactly the trimmed
  destinations the old ones do not cover, each once and sorted, and authorises the entry and
  the field it was asked about and nothing else.
\<close>

theorem decide_exact:
  "((\<exists>tk. Decide req = Inr tk) \<longleftrightarrow>
      trim_space (EntryID req) \<noteq> [] \<and> trim_space (What req) \<noteq> [] \<and>
      (uncovered (Covers req) (Before req) (After req) = {} \<or> MayRedirect req = Some True)) \<and>
   (case Decide req of
      Inl _ \<Rightarrow> True
    | Inr tk \<Rightarrow>
        set (tk_added tk) = uncovered (Covers req) (Before req) (After req) \<and>
        sorted (tk_added tk) \<and> distinct (tk_added tk) \<and>
        (Authorizes tk eid what = None \<longleftrightarrow> eid = EntryID req \<and> what = What req))"
proof -
  let ?A = "Added (Before req) (After req) (Covers req)"
  have a: "set ?A = uncovered (Covers req) (Before req) (After req)" "sorted ?A" "distinct ?A"
      "?A = [] \<longleftrightarrow> uncovered (Covers req) (Before req) (After req) = {}"
    using Added_correct Added_Nil_iff by blast+
  show ?thesis
    using a by (auto simp: Decide_def Authorizes_def Let_def)
qed

text \<open>
  Matching is by case folding, also in the path of a webhook: a delivery that moves from
  one path to another path differing only in case is not seen as an addition, so it takes no
  authority, although the two identities name different places.
\<close>

theorem decide_ignores_case_of_paths:
  "\<exists>before after tk. before \<noteq> after \<and>
     Decide \<lparr>EntryID = ''e1'', What = FieldRotationTargets, Before = [''webhook|https://h.example/'' @ before],
       After = [''webhook|https://h.example/'' @ after], Covers = None, MayRedirect = None\<rparr> = Inr tk \<and>
     tk_added tk = []"
proof (intro exI conjI)
  let ?tk = "\<lparr>tk_entryID = ''e1'', tk_what = FieldRotationTargets, tk_added = [], tk_granted = True\<rparr>"
  show "''deploy'' \<noteq> ''Deploy''" by simp
  show "Decide \<lparr>EntryID = ''e1'', What = FieldRotationTargets, Before = [''webhook|https://h.example/'' @ ''deploy''],
       After = [''webhook|https://h.example/'' @ ''Deploy''], Covers = None, MayRedirect = None\<rparr> = Inr ?tk"
    by code_simp
  show "tk_added ?tk = []" by simp
qed

section \<open>Sequences of writes\<close>

datatype vault_write =
  WDestinations ticket string string
| WSeed ticket string string string
| WProvider ticket "string option" "string option" "int option" string
| WProviderMeta ticket "string option" string
| WCASMeta ticket "string option" "string option" string
| WTargets ticket "string option" string
| WCreate ticket string entry_row
| WRekey ticket string entry_row
| WTransfer transfer_proof string string string
| WAdopt string string string string

fun apply_write :: "int \<Rightarrow> store \<Rightarrow> vault_write \<Rightarrow> egress_error + store" where
  "apply_write now s (WDestinations tk p eid) = SetDestinationPatterns now s tk p eid"
| "apply_write now s (WSeed tk p spec eid) = SeedCapabilityDefaults now s tk p spec eid"
| "apply_write now s (WProvider tk prov meta auto eid) = SetProvider now s tk prov meta auto eid"
| "apply_write now s (WProviderMeta tk meta eid) = SetProviderMeta now s tk meta eid"
| "apply_write now s (WCASMeta tk meta prev eid) =
     (case CASProviderMeta now s tk meta prev eid of Inl e \<Rightarrow> Inl e | Inr (_, s') \<Rightarrow> Inr s')"
| "apply_write now s (WTargets tk t eid) = SetRotationTargets now s tk t eid"
| "apply_write now s (WCreate tk eid row) = CreateEntry s tk eid row"
| "apply_write now s (WRekey tk eid row) = RekeyEntry s tk eid row"
| "apply_write now s (WTransfer p owner eid nb) = TransferSecretOwnership now s p owner eid nb"
| "apply_write now s (WAdopt uid nm nb eid) = AdoptAndRenameVaultEntry now s uid nm nb eid"

fun write_ticket :: "vault_write \<Rightarrow> ticket option" where
  "write_ticket (WDestinations tk _ _) = Some tk"
| "write_ticket (WSeed tk _ _ _) = Some tk"
| "write_ticket (WProvider tk _ _ _ _) = Some tk"
| "write_ticket (WProviderMeta tk _ _) = Some tk"
| "write_ticket (WCASMeta tk _ _ _) = Some tk"
| "write_ticket (WTargets tk _ _) = Some tk"
| "write_ticket (WCreate tk _ _) = Some tk"
| "write_ticket (WRekey tk _ _) = Some tk"
| "write_ticket (WTransfer _ _ _ _) = None"
| "write_ticket (WAdopt _ _ _ _) = None"

fun run_writes :: "store \<Rightarrow> (int \<times> vault_write) list \<Rightarrow> store" where
  "run_writes s [] = s"
| "run_writes s ((now, w) # ws) =
     run_writes (case apply_write now s w of Inl _ \<Rightarrow> s | Inr s' \<Rightarrow> s') ws"

text \<open>The columns that choose a host (\<^verbatim>\<open>HostChoosingColumns\<close>).\<close>

definition host_columns :: "entry_row \<Rightarrow> string \<times> string option \<times> string option \<times> string option" where
  "host_columns r = (destination_patterns r, provider r, provider_meta r, rotation_targets r)"

definition ticketed :: "vault_write \<Rightarrow> string \<Rightarrow> bool" where
  "ticketed w eid \<longleftrightarrow> (\<exists>tk. write_ticket w = Some tk \<and> tk_granted tk \<and> tk_entryID tk = eid)"

definition proven :: "vault_write \<Rightarrow> string \<Rightarrow> string \<Rightarrow> bool" where
  "proven w eid owner \<longleftrightarrow>
     (\<exists>p nb. w = WTransfer p owner eid nb \<and> pf_granted p \<and> pf_entryID p = eid \<and> pf_to p = owner)"

lemma Authorizes_None: "Authorizes tk eid what = None \<longleftrightarrow> tk_granted tk \<and> tk_entryID tk = eid \<and> tk_what tk = what"
  by (simp add: Authorizes_def)

lemma authorizes_None: "authorizes p eid owner = None \<longleftrightarrow> pf_granted p \<and> pf_entryID p = eid \<and> pf_to p = owner"
  by (simp add: authorizes_def)

lemma exec_Inr: "exec s q s1 = Inr s2 \<longleftrightarrow> \<not> fails s q \<and> s2 = s1"
  by (auto simp: exec_def)

lemma entries_update_entry [simp]: "entries (update_entry s eid f) = sql_update eid f (entries s)"
  by (simp add: update_entry_def)

lemmas writer_defs = SetDestinationPatterns_def SeedCapabilityDefaults_def SetProvider_def SetProviderMeta_def
  CASProviderMeta_def SetRotationTargets_def CreateEntry_def RekeyEntry_def TransferSecretOwnership_def
  AdoptAndRenameVaultEntry_def

lemma apply_write_entry:
  assumes "apply_write now s w = Inr s'" "map_of (entries s) eid = Some r"
  shows "\<exists>r'. map_of (entries s') eid = Some r' \<and>
    (host_columns r' \<noteq> host_columns r \<longrightarrow> ticketed w eid) \<and>
    (secret_owner_user_id r' \<noteq> secret_owner_user_id r \<longrightarrow> proven w eid (secret_owner_user_id r'))"
  using assms
proof (cases w)
  case (WCreate tk e row)
  with assms show ?thesis
    by (auto simp: writer_defs exec_Inr map_add_def split: option.splits if_splits
        dest: weak_map_of_SomeI [of _ _ "entries s"])
next
  case (WSeed tk p spec e)
  with assms show ?thesis
    by (cases "destination_patterns r = ''[]'' \<and> injection_spec r = ''{}''")
      (auto simp: writer_defs exec_Inr host_columns_def ticketed_def Authorizes_None split: option.splits if_splits)
qed (auto simp: writer_defs exec_Inr host_columns_def ticketed_def proven_def Authorizes_None authorizes_None
    split: option.splits if_splits sum.splits prod.splits)

lemma run_writes_entry:
  "map_of (entries s) eid = Some r \<Longrightarrow>
   \<exists>r'. map_of (entries (run_writes s ws)) eid = Some r' \<and>
     (host_columns r' \<noteq> host_columns r \<longrightarrow> (\<exists>w \<in> snd ` set ws. ticketed w eid)) \<and>
     (secret_owner_user_id r' \<noteq> secret_owner_user_id r \<longrightarrow>
        (\<exists>w \<in> snd ` set ws. proven w eid (secret_owner_user_id r')))"
proof (induction s ws arbitrary: r rule: run_writes.induct)
  case (2 s now w ws)
  let ?s = "case apply_write now s w of Inl _ \<Rightarrow> s | Inr s' \<Rightarrow> s'"
  obtain r1 where r1: "map_of (entries ?s) eid = Some r1"
      "host_columns r1 \<noteq> host_columns r \<longrightarrow> ticketed w eid"
      "secret_owner_user_id r1 \<noteq> secret_owner_user_id r \<longrightarrow> proven w eid (secret_owner_user_id r1)"
    using apply_write_entry [of now s w _ eid r] "2.prems" by (cases "apply_write now s w") auto
  from "2.IH" [OF r1(1)] show ?case
    using r1(2,3) by (simp add: image_iff) metis
qed simp

text \<open>A ticket that code outside the gate can hold: the zero value or the result of a decision.\<close>

definition from_decide :: "ticket \<Rightarrow> bool" where
  "from_decide tk \<longleftrightarrow> tk = zero_ticket \<or> (\<exists>req. Decide req = Inr tk)"

definition from_authorize :: "transfer_proof \<Rightarrow> bool" where
  "from_authorize p \<longleftrightarrow> p = zero_proof \<or> (\<exists>req. AuthorizeTransfer req = Inr p) \<or> (\<exists>req. AuthorizeRestore req = Inr p)"

fun sealed :: "vault_write \<Rightarrow> bool" where
  "sealed (WTransfer p _ _ _) = from_authorize p"
| "sealed (WAdopt _ _ _ _) = True"
| "sealed w = from_decide (the (write_ticket w))"

lemma Decide_Inr:
  assumes "Decide req = Inr tk"
  shows "tk_entryID tk = EntryID req \<and> tk_what tk = What req \<and>
    (uncovered (Covers req) (Before req) (After req) = {} \<or> MayRedirect req = Some True)"
  using assms Added_Nil_iff [of "Before req" "After req" "Covers req"]
  by (auto simp: Decide_def Let_def split: if_splits)

lemma sealed_ticket: "sealed w \<Longrightarrow> write_ticket w = Some tk \<Longrightarrow> from_decide tk"
  by (cases w) auto

text \<open>
  C1. No host-choosing column moves without a decision: over any sequence of writes whose
  tickets are zero values or come from Decide, an entry whose destination patterns, provider,
  provider metadata or rotation targets differ at the end was written with a ticket of a
  decision about that very entry, and that decision added no destination or had the oracle's
  consent.
\<close>

theorem egress_columns_need_decision:
  assumes "\<forall>w \<in> snd ` set ws. sealed w"
    and "map_of (entries s) eid = Some r" "map_of (entries (run_writes s ws)) eid = Some r'"
    and "host_columns r' \<noteq> host_columns r"
  shows "\<exists>w \<in> snd ` set ws. \<exists>tk req. write_ticket w = Some tk \<and> Decide req = Inr tk \<and> EntryID req = eid \<and>
    (uncovered (Covers req) (Before req) (After req) = {} \<or> MayRedirect req = Some True)"
proof -
  obtain w where w: "w \<in> snd ` set ws" "ticketed w eid"
    using run_writes_entry [OF assms(2), of ws] assms(3,4) by auto
  then obtain tk where tk: "write_ticket w = Some tk" "tk_granted tk" "tk_entryID tk = eid"
    by (auto simp: ticketed_def)
  with w assms(1) have "from_decide tk" using sealed_ticket by blast
  with tk(2) obtain req where "Decide req = Inr tk"
    by (auto simp: from_decide_def zero_ticket_def)
  with w(1) tk Decide_Inr [of req tk] show ?thesis by auto
qed

text \<open>
  C25. Ownership is never handed to a third party: over any such sequence of writes, adoption
  and rekeying included, an entry whose secret owner differs at the end was transferred with a
  proof that an instance admin made it, and the new owner is that admin or the previous owner
  recorded for a restore.
\<close>

theorem ownership_only_by_admin:
  assumes "\<forall>w \<in> snd ` set ws. sealed w"
    and "map_of (entries s) eid = Some r" "map_of (entries (run_writes s ws)) eid = Some r'"
    and "secret_owner_user_id r' \<noteq> secret_owner_user_id r"
  shows "\<exists>p nb. WTransfer p (secret_owner_user_id r') eid nb \<in> snd ` set ws \<and>
    ((\<exists>req. AuthorizeTransfer req = Inr p \<and> tr_ActorIsInstanceAdmin req \<and>
        trim_space (tr_EntryID req) = eid \<and> trim_space (tr_Actor req) = secret_owner_user_id r') \<or>
     (\<exists>req. AuthorizeRestore req = Inr p \<and> rr_ActorIsInstanceAdmin req \<and>
        trim_space (rr_EntryID req) = eid \<and> trim_space (rr_RecordedPreviousOwner req) = secret_owner_user_id r'))"
proof -
  obtain w where w: "w \<in> snd ` set ws" "proven w eid (secret_owner_user_id r')"
    using run_writes_entry [OF assms(2), of ws] assms(3,4) by auto
  then obtain p nb where p: "w = WTransfer p (secret_owner_user_id r') eid nb" "pf_granted p" "pf_entryID p = eid"
      "pf_to p = secret_owner_user_id r'"
    by (auto simp: proven_def)
  have "sealed w" using w(1) assms(1) by blast
  with p(1) have "from_authorize p" by simp
  with p(2) consider req where "AuthorizeTransfer req = Inr p" | req where "AuthorizeRestore req = Inr p"
    by (auto simp: from_authorize_def zero_proof_def)
  then have "(\<exists>req. AuthorizeTransfer req = Inr p \<and> tr_ActorIsInstanceAdmin req \<and>
        trim_space (tr_EntryID req) = eid \<and> trim_space (tr_Actor req) = secret_owner_user_id r') \<or>
     (\<exists>req. AuthorizeRestore req = Inr p \<and> rr_ActorIsInstanceAdmin req \<and>
        trim_space (rr_EntryID req) = eid \<and> trim_space (rr_RecordedPreviousOwner req) = secret_owner_user_id r')"
  proof cases
    case 1
    then have "tr_ActorIsInstanceAdmin req \<and> trim_space (tr_EntryID req) = eid \<and>
        trim_space (tr_Actor req) = secret_owner_user_id r'"
      using p by (auto simp: AuthorizeTransfer_def Let_def split: if_splits)
    with 1 show ?thesis by blast
  next
    case 2
    then have "rr_ActorIsInstanceAdmin req \<and> trim_space (rr_EntryID req) = eid \<and>
        trim_space (rr_RecordedPreviousOwner req) = secret_owner_user_id r'"
      using p by (auto simp: AuthorizeRestore_def Let_def split: if_splits)
    with 2 show ?thesis by blast
  qed
  with p(1) w(1) show ?thesis by blast
qed

definition sample_vault :: store where
  "sample_vault = empty_store\<lparr>entries := [(''e1'', blank_entry ''alice'' (Some ''c1''))]\<rparr>"

definition sample_decision :: egress_request where
  "sample_decision = \<lparr>EntryID = ''e1'', What = FieldDestinations, Before = [], After = [''api.example.com/*''],
     Covers = None, MayRedirect = Some True\<rparr>"

definition sample_ticket :: ticket where
  "sample_ticket = \<lparr>tk_entryID = ''e1'', tk_what = FieldDestinations, tk_added = [''api.example.com/*''], tk_granted = True\<rparr>"

lemma sample_decision_granted: "Decide sample_decision = Inr sample_ticket"
  by code_simp

lemma sample_vault_entry: "map_of (entries sample_vault) ''e1'' = Some (blank_entry ''alice'' (Some ''c1''))"
  by (simp add: sample_vault_def)

theorem decide_exact_witness:
  "Decide sample_decision = Inr sample_ticket \<and> Authorizes sample_ticket ''e2'' FieldDestinations \<noteq> None"
  using decide_exact [of sample_decision "''e2''" FieldDestinations] sample_decision_granted
  by (simp add: sample_decision_def)

theorem egress_columns_need_decision_witness:
  "\<exists>tk req. write_ticket (WDestinations sample_ticket ''[x]'' ''e1'') = Some tk \<and> Decide req = Inr tk \<and>
     EntryID req = ''e1'' \<and> (uncovered (Covers req) (Before req) (After req) = {} \<or> MayRedirect req = Some True)"
proof -
  let ?ws = "[(7 :: int, WDestinations sample_ticket ''[x]'' ''e1'')]"
  have "\<forall>w \<in> snd ` set ?ws. sealed w"
    using sample_decision_granted by (auto simp: from_decide_def)
  moreover obtain r' where r': "map_of (entries (run_writes sample_vault ?ws)) ''e1'' = Some r'"
      "destination_patterns r' = ''[x]''"
    by (simp add: sample_vault_def writer_defs exec_def Authorizes_def sample_ticket_def empty_store_def)
  ultimately show ?thesis
    using egress_columns_need_decision [OF _ sample_vault_entry r'(1)] r'(2) by (auto simp: host_columns_def)
qed

definition sample_proof :: transfer_proof where
  "sample_proof = \<lparr>pf_entryID = ''e1'', pf_to = ''root'', pf_why = ''left'', pf_granted = True\<rparr>"

theorem ownership_only_by_admin_witness:
  "\<exists>p nb. WTransfer p ''root'' ''e1'' nb \<in> set [WTransfer sample_proof ''root'' ''e1'' ''b''] \<and>
    ((\<exists>req. AuthorizeTransfer req = Inr p \<and> tr_ActorIsInstanceAdmin req \<and>
        trim_space (tr_EntryID req) = ''e1'' \<and> trim_space (tr_Actor req) = ''root'') \<or>
     (\<exists>req. AuthorizeRestore req = Inr p \<and> rr_ActorIsInstanceAdmin req \<and>
        trim_space (rr_EntryID req) = ''e1'' \<and> trim_space (rr_RecordedPreviousOwner req) = ''root''))"
proof -
  let ?ws = "[(7 :: int, WTransfer sample_proof ''root'' ''e1'' ''b'')]"
  have "AuthorizeTransfer \<lparr>tr_EntryID = ''e1'', tr_Actor = ''root'', tr_ActorIsInstanceAdmin = True,
      tr_To = ''root'', tr_Why = ''left''\<rparr> = Inr sample_proof"
    by code_simp
  then have "\<forall>w \<in> snd ` set ?ws. sealed w" by (auto simp: from_authorize_def)
  moreover obtain r' where r': "map_of (entries (run_writes sample_vault ?ws)) ''e1'' = Some r'"
      "secret_owner_user_id r' = ''root''"
    by (simp add: sample_vault_def writer_defs exec_def authorizes_def sample_proof_def empty_store_def)
  ultimately show ?thesis
    using ownership_only_by_admin [OF _ sample_vault_entry r'(1)] r'(2) by simp
qed

end
