(* ===== verification/Access.thy ===== *)
theory Access
  imports Web Vault_Egress
begin

text \<open>
  What a user may do with a vault entry: \<^verbatim>\<open>internal/handlers/vault_grant.go\<close> and the checks of
  \<^verbatim>\<open>vault.go\<close> built on it.  Rights are read (see it), use (spend the credential), manage
  (change it) and the narrower right to direct where the secret is sent.
\<close>

definition collRoleViewer :: string where "collRoleViewer = ''viewer''"
definition collRoleEditor :: string where "collRoleEditor = ''editor''"
definition collRoleManager :: string where "collRoleManager = ''manager''"

lemmas coll_role_defs = collRoleViewer_def collRoleEditor_def collRoleManager_def

record entryGrant =
  read :: bool
  "use" :: bool
  manage :: bool

definition no_grant :: entryGrant where
  "no_grant = \<lparr>read = False, use = False, manage = False\<rparr>"

definition full_grant :: entryGrant where
  "full_grant = \<lparr>read = True, use = True, manage = True\<rparr>"

definition grantFor :: "store \<Rightarrow> string \<Rightarrow> bool \<Rightarrow> string \<Rightarrow> entryGrant" where
  "grantFor s uid isAdmin eid =
     (case GetVaultEntryAccess s eid of
        Row info \<Rightarrow>
          if uid \<noteq> [] \<and> (case GetUserByID s uid of Row u \<Rightarrow> disabled u \<noteq> 0 | _ \<Rightarrow> True) then no_grant
          else if isAdmin then full_grant
          else (let isCreator = (uid \<noteq> [] \<and> user_id info = uid)
                in case collection_id info of
                     None \<Rightarrow> if isCreator then full_grant else no_grant
                   | Some cid \<Rightarrow>
                      if cid = [] then (if isCreator then full_grant else no_grant)
                      else (case GetCollectionMemberRole s cid uid of
                              Row rl \<Rightarrow>
                                if rl = collRoleManager \<or> rl = collRoleEditor then full_grant
                                else if rl = collRoleViewer then \<lparr>read = True, use = True, manage = False\<rparr>
                                else no_grant
                            | _ \<Rightarrow> if isCreator then \<lparr>read = True, use = False, manage = False\<rparr> else no_grant))
      | _ \<Rightarrow> no_grant)"

definition entryAccessFor :: "store \<Rightarrow> string \<Rightarrow> bool \<Rightarrow> string \<Rightarrow> bool \<times> bool" where
  "entryAccessFor s uid isAdmin eid = (let g = grantFor s uid isAdmin eid in (read g, manage g))"

definition entryAccess :: "store \<Rightarrow> request \<Rightarrow> string \<Rightarrow> bool \<times> bool" where
  "entryAccess s r eid = entryAccessFor s (GetUserID r) (IsAdmin r) eid"

definition entryCurrentlyUsableBy :: "store \<Rightarrow> string \<Rightarrow> string \<Rightarrow> bool" where
  "entryCurrentlyUsableBy s uid eid = use (grantFor s uid False eid)"

definition canMoveEntryOutOfCollection :: "store \<Rightarrow> request \<Rightarrow> string \<Rightarrow> string \<Rightarrow> bool" where
  "canMoveEntryOutOfCollection s r ownerID cid =
     (if IsAdmin r then True
      else if GetUserID r \<noteq> [] \<and> GetUserID r = ownerID then True
      else case GetCollectionMemberRole s cid (GetUserID r) of
             Row rl \<Rightarrow> rl = collRoleManager
           | _ \<Rightarrow> False)"

definition canWriteCollection :: "store \<Rightarrow> request \<Rightarrow> string \<Rightarrow> bool" where
  "canWriteCollection s r cid =
     (if IsAdmin r then True
      else case GetCollectionMemberRole s cid (GetUserID r) of
             Row rl \<Rightarrow> rl = collRoleEditor \<or> rl = collRoleManager
           | _ \<Rightarrow> False)"

definition mayDirectSecretEgress :: "store \<Rightarrow> string \<Rightarrow> bool \<Rightarrow> string \<Rightarrow> bool" where
  "mayDirectSecretEgress s uid isAdmin eid =
     (if eid = [] then False
      else if \<not> manage (grantFor s uid isAdmin eid) then False
      else if isAdmin then True
      else case GetVaultEntryAccess s eid of
             Row info \<Rightarrow> uid \<noteq> [] \<and> secret_owner_user_id info \<noteq> [] \<and> secret_owner_user_id info = uid
           | _ \<Rightarrow> False)"

definition instanceAdminByRecord :: "store \<Rightarrow> string \<Rightarrow> bool" where
  "instanceAdminByRecord s uid =
     (if uid = [] then False
      else case GetUserByID s uid of
             Row u \<Rightarrow> if disabled u \<noteq> 0 then False else role u = RoleAdmin
           | _ \<Rightarrow> False)"

definition mayConfigureDelivery :: "store \<Rightarrow> string \<Rightarrow> string \<Rightarrow> bool" where
  "mayConfigureDelivery s uid eid = mayDirectSecretEgress s uid (instanceAdminByRecord s uid) eid"

definition managerMayAdoptOrphanedEntry :: "store \<Rightarrow> string \<Rightarrow> string \<Rightarrow> string option \<Rightarrow> bool" where
  "managerMayAdoptOrphanedEntry s callerID creatorID cid =
     (if callerID = [] \<or> cid = None \<or> cid = Some [] then False
      else case GetCollectionMemberRole s (the cid) callerID of
             Row rl \<Rightarrow>
               if rl \<noteq> collRoleManager then False
               else (case GetCollectionMemberRole s (the cid) creatorID of Row _ \<Rightarrow> False | _ \<Rightarrow> True)
           | _ \<Rightarrow> False)"

section \<open>The rights are nested, and end with the account\<close>

lemma grantFor_nested: "(manage (grantFor s uid a eid) \<longrightarrow> use (grantFor s uid a eid)) \<and>
    (use (grantFor s uid a eid) \<longrightarrow> read (grantFor s uid a eid))"
  by (auto simp: grantFor_def no_grant_def full_grant_def Let_def split: fetched.splits option.splits)

lemma grantFor_inactive:
  "uid \<noteq> [] \<Longrightarrow> (\<And>u. map_of (users s) uid = Some u \<Longrightarrow> disabled u \<noteq> 0) \<Longrightarrow> grantFor s uid a eid = no_grant"
  by (auto simp: grantFor_def GetUserByID_def fetch_def split: fetched.splits option.splits)

text \<open>What a user who is not an accepted member of the entry's collection is left with.\<close>

lemma grantFor_non_member:
  assumes "GetVaultEntryAccess s eid = Row info" "collection_id info = Some cid" "cid \<noteq> []"
    and "accepted_role s cid uid = None"
  shows "\<not> use (grantFor s uid False eid)" "\<not> manage (grantFor s uid False eid)"
    "read (grantFor s uid False eid) \<Longrightarrow> user_id info = uid \<and> uid \<noteq> []"
  using assms by (auto simp: grantFor_def no_grant_def GetCollectionMemberRole_def fetch_def Let_def
      split: fetched.splits option.splits if_splits)

lemma mayDirect_owner:
  "mayDirectSecretEgress s uid False eid \<Longrightarrow>
     \<exists>info. GetVaultEntryAccess s eid = Row info \<and> secret_owner_user_id info = uid \<and> uid \<noteq> []"
  by (auto simp: mayDirectSecretEgress_def split: fetched.splits if_splits)

lemma mayConfigure_active:
  assumes "mayConfigureDelivery s uid eid" "uid \<noteq> []"
  shows "\<exists>u. map_of (users s) uid = Some u \<and> disabled u = 0"
proof (rule ccontr)
  assume "\<not> ?thesis"
  then have "grantFor s uid a eid = no_grant" for a using grantFor_inactive [OF assms(2)] by blast
  with assms(1) show False by (auto simp: mayConfigureDelivery_def mayDirectSecretEgress_def no_grant_def split: if_splits)
qed

text \<open>
  The right to direct a secret is the narrowest one: whoever may configure a delivery of
  an entry has an enabled account, manages, uses and reads the entry, and is its recorded
  secret owner or an enabled instance admin.
\<close>

theorem configure_delivery_narrow:
  assumes "mayConfigureDelivery s uid eid"
  shows "let g = grantFor s uid (instanceAdminByRecord s uid) eid
    in uid \<noteq> [] \<and> manage g \<and> use g \<and> read g \<and>
       (\<exists>u. map_of (users s) uid = Some u \<and> disabled u = 0 \<and>
         (role u = RoleAdmin \<or> (\<exists>e. map_of (entries s) eid = Some e \<and> secret_owner_user_id e = uid)))"
proof -
  let ?a = "instanceAdminByRecord s uid"
  have m: "manage (grantFor s uid ?a eid)"
    using assms by (auto simp: mayConfigureDelivery_def mayDirectSecretEgress_def split: if_splits)
  have ne: "uid \<noteq> []"
    using assms mayDirect_owner by (cases ?a) (auto simp: mayConfigureDelivery_def instanceAdminByRecord_def)
  then obtain u where u: "map_of (users s) uid = Some u" "disabled u = 0"
    using mayConfigure_active [OF assms] by blast
  have "role u = RoleAdmin \<or> (\<exists>e. map_of (entries s) eid = Some e \<and> secret_owner_user_id e = uid)"
  proof (cases ?a)
    case True
    with ne u show ?thesis
      by (auto simp: instanceAdminByRecord_def query_defs row_simps split: fetched.splits if_splits)
  next
    case False
    with assms show ?thesis
      using mayDirect_owner [of s uid eid] by (auto simp: mayConfigureDelivery_def query_defs row_simps)
  qed
  with m ne u show ?thesis using grantFor_nested [of s uid ?a eid] by (auto simp: Let_def)
qed

text \<open>
  Adoption moves custody and nothing else: after a collection manager adopts an orphaned
  entry, exactly the same users who are not instance admins by the session may direct its
  secret as before; in particular the manager does not unless they already were its recorded
  secret owner.
\<close>

theorem adoption_gives_no_egress:
  assumes "AdoptAndRenameVaultEntry now s manager nm nb eid = Inr s'"
    and "collection_id e = Some cid" "cid \<noteq> []" "map_of (entries s) eid = Some e"
  shows "mayDirectSecretEgress s' uid False eid = mayDirectSecretEgress s uid False eid \<and>
    (mayDirectSecretEgress s' manager False eid \<longrightarrow> secret_owner_user_id e = manager)"
proof -
  let ?e = "e\<lparr>user_id := manager, entry_name := nm, name_bidx := nb, updated_at := now\<rparr>"
  have s': "s' = update_entry s eid (\<lambda>r. r\<lparr>user_id := manager, entry_name := nm, name_bidx := nb, updated_at := now\<rparr>)"
    using assms(1) by (simp add: AdoptAndRenameVaultEntry_def exec_Inr)
  then have e': "map_of (entries s') eid = Some ?e" using assms(4) by simp
  have same: "users s' = users s" "members s' = members s" "fails s' = fails s"
    using s' by (simp_all add: update_entry_def)
  have m: "manage (grantFor s' u False eid) = manage (grantFor s u False eid)" for u
    using e' assms(2-4) same
    by (auto simp: grantFor_def query_defs fetch_def accepted_role_def no_grant_def full_grant_def Let_def
        split: option.splits)
  have d: "mayDirectSecretEgress s' u False eid = mayDirectSecretEgress s u False eid" for u
    using m [of u] e' assms(4) same by (auto simp: mayDirectSecretEgress_def query_defs fetch_def)
  have "secret_owner_user_id e = manager" if "mayDirectSecretEgress s' manager False eid"
    using mayDirect_owner [OF that] e' by (auto simp: query_defs row_simps)
  with d show ?thesis by blast
qed

definition team_store :: store where
  "team_store = empty_store\<lparr>
     users := [(''alice'', \<lparr>email = ''a@x.io'', role = ''user'', disabled = 0, sessions_valid_after = 0, totp_enabled = 0\<rparr>),
               (''mgr'', \<lparr>email = ''m@x.io'', role = ''user'', disabled = 0, sessions_valid_after = 0, totp_enabled = 0\<rparr>)],
     collections := [(''c1'', ''standard'')],
     members := [((''c1'', ''alice''), \<lparr>member_role = ''editor'', accepted_at = Some 1, invited_by = None\<rparr>),
                 ((''c1'', ''mgr''), \<lparr>member_role = ''manager'', accepted_at = Some 1, invited_by = None\<rparr>)],
     entries := [(''e1'', blank_entry ''alice'' (Some ''c1''))]\<rparr>"

theorem configure_delivery_narrow_witness:
  "mayConfigureDelivery team_store ''alice'' ''e1'' \<and> use (grantFor team_store ''alice'' False ''e1'')"
proof -
  have m: "mayConfigureDelivery team_store ''alice'' ''e1''" by code_simp
  have "instanceAdminByRecord team_store ''alice'' = False" by code_simp
  with m configure_delivery_narrow [OF m] show ?thesis by (simp add: Let_def)
qed

theorem adoption_gives_no_egress_witness:
  "\<exists>s'. AdoptAndRenameVaultEntry 5 team_store ''mgr'' ''n'' ''b'' ''e1'' = Inr s' \<and>
     \<not> mayDirectSecretEgress s' ''mgr'' False ''e1''"
proof -
  obtain s' where s': "AdoptAndRenameVaultEntry 5 team_store ''mgr'' ''n'' ''b'' ''e1'' = Inr s'"
    by (simp add: AdoptAndRenameVaultEntry_def exec_def team_store_def empty_store_def)
  have "map_of (entries team_store) ''e1'' = Some (blank_entry ''alice'' (Some ''c1''))" by (simp add: team_store_def)
  then show ?thesis using adoption_gives_no_egress [OF s', of "blank_entry ''alice'' (Some ''c1'')" "''c1''"] s' by auto
qed

end
