(* ===== verification/Targets.thy ===== *)
theory Targets
  imports Access
begin

text \<open>
  Delivery targets of a rotation and their removal when a member leaves or an account is
  disabled: \<^verbatim>\<open>vault_targets.go\<close>, \<^verbatim>\<open>vault_egress_writes.go\<close>, \<^verbatim>\<open>collection_target_purge.go\<close> and
  \<^verbatim>\<open>vault_target_purge.go\<close> of \<^verbatim>\<open>internal/handlers\<close>.

  The stored column is sealed JSON: \<open>open_targets\<close> stands for decrypting and parsing it
  (\<^verbatim>\<open>ParseRotationTargets(decryptColumnOrLog(...))\<close>) and \<open>seal_targets\<close> for marshalling and
  encrypting, \<open>None\<close> when either fails.
\<close>

record RotationTarget =
  Type :: string
  Instance :: string
  Repo :: string
  SecretName :: string
  AuthToken :: string
  WebhookURL :: string
  WebhookSecret :: string
  Label :: string
  ConfiguredBy :: string

definition targetTransmitsSecret :: "RotationTarget \<Rightarrow> bool" where
  "targetTransmitsSecret t \<longleftrightarrow> Type t = ''webhook'' \<or> Type t = ''forgejo_secret''"

definition rotationTargetIdentity :: "RotationTarget \<Rightarrow> string" where
  "rotationTargetIdentity t =
     (if Type t = ''webhook'' then ''webhook|'' @ WebhookURL t
      else if Type t = ''forgejo_secret'' then ''forgejo|'' @ Instance t @ ''|'' @ Repo t @ ''|'' @ SecretName t
      else Type t @ ''|'' @ Label t)"

definition rotationTargetAttribution :: "RotationTarget \<Rightarrow> string" where
  "rotationTargetAttribution t = rotationTargetIdentity t @ ''|auth='' @ AuthToken t"

definition deliveryDestinations :: "RotationTarget list \<Rightarrow> string list" where
  "deliveryDestinations targets = map rotationTargetIdentity (filter targetTransmitsSecret targets)"

definition ceilingDestinations :: "string list \<Rightarrow> string list" where
  "ceilingDestinations patterns = filter (\<lambda>p. p \<noteq> []) (map trim_space patterns)"

definition providerDestinationCovers :: "string \<Rightarrow> string \<Rightarrow> bool" where
  "providerDestinationCovers have0 want0 =
     (let have = to_lower (trim_space have0); want = to_lower (trim_space want0)
      in if have = [] \<or> want = [] then False
         else if have = want then True
         else if has_prefix have ''*''
         then has_suffix want (trim_prefix have ''*'') \<and> length want > length (trim_prefix have ''*'')
         else False)"

definition decideDeliveryEgress ::
  "store \<Rightarrow> string \<Rightarrow> string \<Rightarrow> RotationTarget list \<Rightarrow> RotationTarget list \<Rightarrow> egress_error + ticket" where
  "decideDeliveryEgress s uid eid stored new =
     Decide \<lparr>EntryID = eid, What = FieldRotationTargets, Before = deliveryDestinations stored,
             After = deliveryDestinations new, Covers = None, MayRedirect = Some (mayConfigureDelivery s uid eid)\<rparr>"

datatype refusal = NoEntryContext | NoConfigurer | ConfigurerGone | ConfigurerDisabled

definition targetStillAuthorized :: "store \<Rightarrow> string \<Rightarrow> RotationTarget \<Rightarrow> refusal option" where
  "targetStillAuthorized s eid t =
     (if eid = [] then Some NoEntryContext
      else if ConfiguredBy t = [] then Some NoConfigurer
      else case GetUserByID s (ConfiguredBy t) of
             Row u \<Rightarrow> if disabled u \<noteq> 0 then Some ConfigurerDisabled else None
           | _ \<Rightarrow> Some ConfigurerGone)"

record DeliveryResult =
  Target :: RotationTarget
  Success :: bool
  Error :: string

fun failures :: "DeliveryResult list \<Rightarrow> string list" where
  "failures [] = []"
| "failures (r # rs) =
     (if Success r then failures rs
      else ((if Label (Target r) = [] then Type (Target r) else Label (Target r)) @ '': '' @ Error r) # failures rs)"

text \<open>The status and, when something failed, the numbers and the joined text of the summary.\<close>

definition summarizeDelivery :: "DeliveryResult list \<Rightarrow> string \<times> (nat \<times> nat \<times> string) option" where
  "summarizeDelivery results =
     (if failures results = [] then (''success'', None)
      else (''partial'', Some (length (failures results), length results, join ''; '' (failures results))))"

section \<open>Purging the targets of a departing user\<close>

definition toNullString :: "string \<Rightarrow> string option" where
  "toNullString v = (if v = [] then None else Some v)"

definition purge_row ::
  "(string \<Rightarrow> RotationTarget list) \<Rightarrow> (RotationTarget list \<Rightarrow> string option) \<Rightarrow> int \<Rightarrow> string \<Rightarrow>
   (string \<times> string) \<Rightarrow> store \<times> nat \<Rightarrow> store \<times> nat" where
  "purge_row open_targets seal_targets now uid row st =
     (case (row, st) of ((eid, col), (s, dropped)) \<Rightarrow>
        (let targets = open_targets col;
             kept = filter (\<lambda>t. ConfiguredBy t \<noteq> uid) targets;
             removedHere = length targets - length kept
         in if removedHere = 0 then st
            else case seal_targets kept of
                   None \<Rightarrow> st
                 | Some enc \<Rightarrow>
                    (case Decide \<lparr>EntryID = eid, What = FieldRotationTargets, Before = deliveryDestinations targets,
                                  After = deliveryDestinations kept, Covers = None, MayRedirect = None\<rparr> of
                       Inl _ \<Rightarrow> st
                     | Inr tk \<Rightarrow>
                        (case SetRotationTargets now s tk (toNullString enc) eid of
                           Inl _ \<Rightarrow> st
                         | Inr s' \<Rightarrow> (s', dropped + removedHere)))))"

text \<open>The rows with stored targets, of a collection or of the whole estate.\<close>

definition has_targets :: "entry_row \<Rightarrow> bool" where
  "has_targets r \<longleftrightarrow> rotation_targets r \<noteq> None \<and> rotation_targets r \<noteq> Some [] \<and> rotation_targets r \<noteq> Some ''[]''"

definition target_rows :: "(entry_row \<Rightarrow> bool) \<Rightarrow> store \<Rightarrow> (string \<times> string) list" where
  "target_rows P s =
     map (\<lambda>(eid, r). (eid, the (rotation_targets r))) (filter (\<lambda>(eid, r). P r \<and> has_targets r) (entries s))"

definition purgeTargetsConfiguredBy ::
  "(string \<Rightarrow> RotationTarget list) \<Rightarrow> (RotationTarget list \<Rightarrow> string option) \<Rightarrow> int \<Rightarrow> store \<Rightarrow> string \<Rightarrow> string \<Rightarrow> store \<times> nat" where
  "purgeTargetsConfiguredBy open_targets seal_targets now s cid uid =
     (if cid = [] \<or> uid = [] then (s, 0)
      else if fails s ''ListVaultEntryTargetsInCollection'' then (s, 0)
      else fold (purge_row open_targets seal_targets now uid) (target_rows (\<lambda>r. collection_id r = Some cid) s) (s, 0))"

definition PurgeTargetsConfiguredByUser ::
  "(string \<Rightarrow> RotationTarget list) \<Rightarrow> (RotationTarget list \<Rightarrow> string option) \<Rightarrow> int \<Rightarrow> store \<Rightarrow> string \<Rightarrow> store \<times> nat" where
  "PurgeTargetsConfiguredByUser open_targets seal_targets now s uid =
     (if uid = [] then (s, 0)
      else if fails s ''ListAllVaultEntryTargets'' then (s, 0)
      else fold (purge_row open_targets seal_targets now uid) (target_rows (\<lambda>_. True) s) (s, 0))"

section \<open>A purge is complete\<close>

text \<open>Dropping targets never adds a destination, so the purge needs nobody's consent.\<close>

lemma subset_uncovered_empty:
  assumes "set after \<subseteq> set before"
  shows "uncovered None before after = {}"
  using assms by (force simp: uncovered_def exactMatch_def)

lemma narrowing_decision:
  assumes "set (deliveryDestinations kept) \<subseteq> set (deliveryDestinations targets)" "trim_space eid \<noteq> []"
  shows "\<exists>tk. Decide \<lparr>EntryID = eid, What = FieldRotationTargets, Before = deliveryDestinations targets,
      After = deliveryDestinations kept, Covers = None, MayRedirect = None\<rparr> = Inr tk \<and>
      Authorizes tk eid FieldRotationTargets = None"
proof -
  have "Added (deliveryDestinations targets) (deliveryDestinations kept) None = []"
    using subset_uncovered_empty [OF assms(1)] by (simp add: Added_Nil_iff)
  moreover have "trim_space FieldRotationTargets \<noteq> []" by code_simp
  ultimately show ?thesis using assms(2) by (auto simp: Decide_def Authorizes_def Let_def)
qed

lemma deliveryDestinations_filter: "set (deliveryDestinations (filter P ts)) \<subseteq> set (deliveryDestinations ts)"
  by (auto simp: deliveryDestinations_def)

definition column_targets :: "(string \<Rightarrow> RotationTarget list) \<Rightarrow> entry_row \<Rightarrow> RotationTarget list" where
  "column_targets open_targets r = (case rotation_targets r of Some c \<Rightarrow> if has_targets r then open_targets c else [] | None \<Rightarrow> [])"

definition without :: "string \<Rightarrow> RotationTarget list \<Rightarrow> RotationTarget list" where
  "without uid ts = filter (\<lambda>t. ConfiguredBy t \<noteq> uid) ts"

definition purged :: "(string \<Rightarrow> RotationTarget list) \<Rightarrow> string \<Rightarrow> entry_row \<Rightarrow> entry_row \<Rightarrow> bool" where
  "purged open_targets uid e e' \<longleftrightarrow>
     column_targets open_targets e' = without uid (column_targets open_targets e) \<and>
     e' = e\<lparr>rotation_targets := rotation_targets e', updated_at := updated_at e'\<rparr>"

text \<open>What sealing promises: it succeeds, and the column it gives is a stored one that opens to the same targets.\<close>

definition seals :: "(string \<Rightarrow> RotationTarget list) \<Rightarrow> (RotationTarget list \<Rightarrow> string option) \<Rightarrow> RotationTarget list \<Rightarrow> bool" where
  "seals open_targets seal_targets ts \<longleftrightarrow>
     (\<exists>c. seal_targets ts = Some c \<and> c \<noteq> [] \<and> c \<noteq> ''[]'' \<and> open_targets c = ts)"

lemma filter_all_kept: "length ts - length (filter P ts) = 0 \<Longrightarrow> filter P ts = ts"
  by (metis diff_is_0_eq filter_id_conv length_filter_less not_le)

lemma purge_row_effect:
  assumes "seals op se (without uid (op col))" "trim_space eid \<noteq> []" "\<not> fails s ''UpdateVaultEntryRotationTargets''"
    and e: "map_of (entries s) eid = Some e" "rotation_targets e = Some col" "has_targets e"
    and st: "purge_row op se now uid (eid, col) (s, d) = (s', d')"
  shows "fails s' = fails s \<and> (\<forall>j. j \<noteq> eid \<longrightarrow> map_of (entries s') j = map_of (entries s) j) \<and>
    (\<exists>e'. map_of (entries s') eid = Some e' \<and> purged op uid e e')"
proof (cases "length (op col) - length (without uid (op col)) = 0")
  case True
  then have "without uid (op col) = op col" unfolding without_def by (rule filter_all_kept)
  moreover have "s' = s" using st True by (simp add: purge_row_def without_def)
  ultimately show ?thesis using e by (auto simp: purged_def column_targets_def)
next
  case False
  let ?kept = "without uid (op col)"
  obtain c where c: "se ?kept = Some c" "c \<noteq> []" "c \<noteq> ''[]''" "op c = ?kept"
    using assms(1) by (auto simp: seals_def)
  obtain tk where tk: "Decide \<lparr>EntryID = eid, What = FieldRotationTargets, Before = deliveryDestinations (op col),
      After = deliveryDestinations ?kept, Covers = None, MayRedirect = None\<rparr> = Inr tk"
      "Authorizes tk eid FieldRotationTargets = None"
    using narrowing_decision [OF _ assms(2)] deliveryDestinations_filter unfolding without_def by blast
  have "s' = update_entry s eid (\<lambda>r. r\<lparr>rotation_targets := Some c, updated_at := now\<rparr>)"
    using st False c tk assms(3)
    by (simp add: purge_row_def without_def [symmetric] SetRotationTargets_def exec_def toNullString_def Let_def)
  then show ?thesis
    using e c by (auto simp: purged_def column_targets_def has_targets_def update_entry_def)
qed

lemma purge_fold:
  shows "distinct (map fst rows) \<Longrightarrow> \<not> fails s ''UpdateVaultEntryRotationTargets'' \<Longrightarrow>
    \<forall>(eid, col) \<in> set rows. trim_space eid \<noteq> [] \<and> seals op se (without uid (op col)) \<and>
      (\<exists>e. map_of (entries s) eid = Some e \<and> rotation_targets e = Some col \<and> has_targets e) \<Longrightarrow>
    (\<forall>j. j \<notin> fst ` set rows \<longrightarrow> map_of (entries (fst (fold (purge_row op se now uid) rows (s, d)))) j = map_of (entries s) j) \<and>
    (\<forall>j \<in> fst ` set rows. \<exists>e e'. map_of (entries s) j = Some e \<and>
       map_of (entries (fst (fold (purge_row op se now uid) rows (s, d)))) j = Some e' \<and> purged op uid e e')"
proof (induction rows arbitrary: s d)
  case (Cons row rows)
  obtain eid col where row: "row = (eid, col)" by (cases row)
  obtain s1 d1 where st: "purge_row op se now uid (eid, col) (s, d) = (s1, d1)" by fastforce
  from Cons.prems(3) row obtain e where e: "seals op se (without uid (op col))" "trim_space eid \<noteq> []"
      "map_of (entries s) eid = Some e" "rotation_targets e = Some col" "has_targets e" by auto
  from purge_row_effect [OF e(1,2) Cons.prems(2) e(3-5) st]
  obtain e' where eff: "fails s1 = fails s" "\<And>j. j \<noteq> eid \<Longrightarrow> map_of (entries s1) j = map_of (entries s) j"
      "map_of (entries s1) eid = Some e'" "purged op uid e e'" by blast
  have dist: "distinct (map fst rows)" "eid \<notin> fst ` set rows" using Cons.prems(1) row by auto
  then have "\<forall>(j, c) \<in> set rows. trim_space j \<noteq> [] \<and> seals op se (without uid (op c)) \<and>
      (\<exists>e. map_of (entries s1) j = Some e \<and> rotation_targets e = Some c \<and> has_targets e)"
    using Cons.prems(3) eff(2) by (fastforce simp: image_iff)
  from Cons.IH [OF dist(1) _ this, of d1] Cons.prems(2) eff(1)
  have ih: "\<forall>j. j \<notin> fst ` set rows \<longrightarrow> map_of (entries (fst (fold (purge_row op se now uid) rows (s1, d1)))) j = map_of (entries s1) j"
      "\<forall>j \<in> fst ` set rows. \<exists>e e'. map_of (entries s1) j = Some e \<and>
       map_of (entries (fst (fold (purge_row op se now uid) rows (s1, d1)))) j = Some e' \<and> purged op uid e e'"
    by auto
  have f: "fold (purge_row op se now uid) (row # rows) (s, d) = fold (purge_row op se now uid) rows (s1, d1)"
    using st row by simp
  show ?case unfolding f
  proof (intro conjI allI impI ballI)
    fix j assume "j \<notin> fst ` set (row # rows)"
    with ih(1) eff(2) row show "map_of (entries (fst (fold (purge_row op se now uid) rows (s1, d1)))) j = map_of (entries s) j"
      by simp
  next
    fix j assume j: "j \<in> fst ` set (row # rows)"
    show "\<exists>e e'. map_of (entries s) j = Some e \<and>
        map_of (entries (fst (fold (purge_row op se now uid) rows (s1, d1)))) j = Some e' \<and> purged op uid e e'"
    proof (cases "j = eid")
      case True
      with ih(1) dist(2) eff(3,4) e(3) show ?thesis by auto
    next
      case False
      with j row have "j \<in> fst ` set rows" by simp
      with ih(2) show ?thesis unfolding eff(2) [OF False, symmetric] by (rule bspec)
    qed
  qed
qed simp

lemma purged_refl: "column_targets op e = without uid (column_targets op e) \<Longrightarrow> purged op uid e e"
  by (simp add: purged_def)

lemma target_rows_sound:
  assumes "distinct (map fst (entries s))" "\<forall>eid \<in> fst ` set (entries s). trim_space eid \<noteq> []"
    and "\<forall>(eid, e) \<in> set (entries s). has_targets e \<longrightarrow> seals op se (without uid (column_targets op e))"
  shows "distinct (map fst (target_rows P s))"
    "\<forall>(eid, col) \<in> set (target_rows P s). trim_space eid \<noteq> [] \<and> seals op se (without uid (op col)) \<and>
      (\<exists>e. map_of (entries s) eid = Some e \<and> rotation_targets e = Some col \<and> has_targets e)"
    "j \<in> fst ` set (target_rows P s) \<longleftrightarrow> (\<exists>e. map_of (entries s) j = Some e \<and> P e \<and> has_targets e)"
proof -
  have "map fst (target_rows P s) = map fst (filter (\<lambda>(eid, r). P r \<and> has_targets r) (entries s))"
    by (simp add: target_rows_def case_prod_beta)
  then show "distinct (map fst (target_rows P s))"
    using assms(1) by (simp add: distinct_map_filter)
  show "\<forall>(eid, col) \<in> set (target_rows P s). trim_space eid \<noteq> [] \<and> seals op se (without uid (op col)) \<and>
      (\<exists>e. map_of (entries s) eid = Some e \<and> rotation_targets e = Some col \<and> has_targets e)"
    using assms by (fastforce simp: target_rows_def has_targets_def column_targets_def)
  show "j \<in> fst ` set (target_rows P s) \<longleftrightarrow> (\<exists>e. map_of (entries s) j = Some e \<and> P e \<and> has_targets e)"
    using assms(1) by (force simp: target_rows_def image_iff)
qed

text \<open>
  C34. Offboarding is complete: while the database answers and sealing works, purging an
  account leaves on every entry exactly the targets others configured, in their order, and
  changes nothing else of any entry but the time stamp; no consent is needed, since dropping a
  target adds no destination.
\<close>

theorem purge_complete:
  assumes "\<forall>(eid, e) \<in> set (entries s). has_targets e \<longrightarrow>
      seals open_targets seal_targets (without uid (column_targets open_targets e))"
    and "distinct (map fst (entries s))"
    and "\<forall>eid \<in> fst ` set (entries s). trim_space eid \<noteq> []" "uid \<noteq> []"
    and "\<not> fails s ''ListAllVaultEntryTargets''" "\<not> fails s ''UpdateVaultEntryRotationTargets''"
    and "map_of (entries s) eid = Some e"
  shows "\<exists>e'. map_of (entries (fst (PurgeTargetsConfiguredByUser open_targets seal_targets now s uid))) eid = Some e' \<and>
    purged open_targets uid e e'"
proof -
  note rows = target_rows_sound [OF assms(2,3,1), where P = "\<lambda>_. True"]
  let ?s = "fst (fold (purge_row open_targets seal_targets now uid) (target_rows (\<lambda>_. True) s) (s, 0))"
  have eq: "fst (PurgeTargetsConfiguredByUser open_targets seal_targets now s uid) = ?s"
    using assms(4,5) by (simp add: PurgeTargetsConfiguredByUser_def)
  note pf = purge_fold [OF rows(1) assms(6) rows(2), of now 0]
  show ?thesis
  proof (cases "has_targets e")
    case True
    with assms(7) have "eid \<in> fst ` set (target_rows (\<lambda>_. True) s)" using rows(3) by blast
    with pf obtain e0 e' where "map_of (entries s) eid = Some e0" "map_of (entries ?s) eid = Some e'"
        "purged open_targets uid e0 e'" by blast
    with assms(7) eq show ?thesis by auto
  next
    case False
    with assms(7) have "eid \<notin> fst ` set (target_rows (\<lambda>_. True) s)" using rows(3) by auto
    then have "map_of (entries ?s) eid = Some e" using pf assms(7) by simp
    moreover have "purged open_targets uid e e"
      using False by (intro purged_refl) (simp add: column_targets_def without_def split: option.split)
    ultimately show ?thesis using eq by auto
  qed
qed

definition hook :: "string \<Rightarrow> string \<Rightarrow> RotationTarget" where
  "hook address user = \<lparr>Type = ''webhook'', Instance = [], Repo = [], SecretName = [], AuthToken = [],
     WebhookURL = address, WebhookSecret = [], Label = [], ConfiguredBy = user\<rparr>"

definition sample_open :: "string \<Rightarrow> RotationTarget list" where
  "sample_open c = (if c = ''v1'' then [hook ''https://a'' ''bob'', hook ''https://b'' ''alice''] else [hook ''https://b'' ''alice''])"

definition targets_store :: store where
  "targets_store = empty_store\<lparr>entries := [(''e1'', (blank_entry ''alice'' (Some ''c1''))\<lparr>rotation_targets := Some ''v1''\<rparr>)]\<rparr>"

theorem purge_complete_witness:
  "\<exists>e'. map_of (entries (fst (PurgeTargetsConfiguredByUser sample_open (\<lambda>_. Some ''v2'') 9 targets_store ''bob''))) ''e1'' = Some e' \<and>
     column_targets sample_open e' = [hook ''https://b'' ''alice'']"
proof -
  let ?e = "(blank_entry ''alice'' (Some ''c1''))\<lparr>rotation_targets := Some ''v1''\<rparr>"
  have ct: "column_targets sample_open ?e = [hook ''https://a'' ''bob'', hook ''https://b'' ''alice'']"
    by (simp add: column_targets_def has_targets_def sample_open_def)
  then have w: "without ''bob'' (column_targets sample_open ?e) = [hook ''https://b'' ''alice'']"
    by (simp add: without_def hook_def)
  have "\<forall>(eid, e) \<in> set (entries targets_store). has_targets e \<longrightarrow>
      seals sample_open (\<lambda>_. Some ''v2'') (without ''bob'' (column_targets sample_open e))"
      "distinct (map fst (entries targets_store))"
      "\<forall>eid \<in> fst ` set (entries targets_store). trim_space eid \<noteq> []" "''bob'' \<noteq> []"
      "\<not> fails targets_store ''ListAllVaultEntryTargets''" "\<not> fails targets_store ''UpdateVaultEntryRotationTargets''"
      "map_of (entries targets_store) ''e1'' = Some ?e"
    using w by (simp_all add: targets_store_def empty_store_def seals_def)
      (simp_all add: sample_open_def trim_space_def trim_left_def trim_right_def is_space_def)
  from purge_complete [OF this, of 9] w show ?thesis by (auto simp: purged_def)
qed

end
