(* ===== verification/Email_Identity.thy ===== *)
theory Email_Identity
  imports Prelude
begin

text \<open>
  The canonical form of an email address: \<^verbatim>\<open>internal/emailidentity/emailidentity.go\<close>.  Unicode
  normalisation and lower-casing, IDNA, and the address grammar of \<^verbatim>\<open>net/mail\<close> are the fields
  of a record the definitions take.
\<close>

record email_lib =
  nfc :: "string \<Rightarrow> string"
  unicode_lower :: "string \<Rightarrow> string"
  toASCII :: "string \<Rightarrow> string option"
  parseAddress :: "string \<Rightarrow> string option"
  renderAddress :: "string \<Rightarrow> string"

datatype email_error =
  EmailEmpty | EmailParse | EmailNoDomain | EmailLiteral | EmailIDNA | EmailAlias | EmailRoot | EmailSerialize | EmailRoundTrip

definition isASCII :: "string \<Rightarrow> bool" where
  "isASCII v \<longleftrightarrow> (\<forall>c \<in> set v. of_char c < (128 :: int))"

text \<open>The three full stops IDNA maps to a dot, as their UTF-8 bytes.\<close>

fun map_dots :: "string \<Rightarrow> string" where
  "map_dots (a # b # c # s) =
     (if [a, b, c] \<in> {[CHR 0xE3, CHR 0x80, CHR 0x82], [CHR 0xEF, CHR 0xBC, CHR 0x8E], [CHR 0xEF, CHR 0xBD, CHR 0xA1]}
      then CHR ''.'' # map_dots s else a # map_dots (b # c # s))"
| "map_dots s = s"

definition label_error :: "email_lib \<Rightarrow> string \<Rightarrow> email_error option" where
  "label_error lib label =
     (if label = [] then None
      else case toASCII lib label of
             None \<Rightarrow> Some EmailIDNA
           | Some mapped \<Rightarrow>
              (let foldedLabel = unicode_lower lib label; foldedMapped = unicode_lower lib mapped
               in if isASCII label \<and> has_prefix foldedLabel ''xn--'' \<and> foldedMapped \<noteq> foldedLabel then Some EmailAlias
                  else if \<not> isASCII label \<and> isASCII mapped \<and> \<not> has_prefix foldedMapped ''xn--'' then Some EmailAlias
                  else None))"

fun first_error :: "('a \<Rightarrow> 'e option) \<Rightarrow> 'a list \<Rightarrow> 'e option" where
  "first_error f [] = None"
| "first_error f (x # xs) = (case f x of Some e \<Rightarrow> Some e | None \<Rightarrow> first_error f xs)"

definition rejectIDNACompatibilityAliases :: "email_lib \<Rightarrow> string \<Rightarrow> email_error option" where
  "rejectIDNACompatibilityAliases lib domain = first_error (label_error lib) (split CHR ''.'' (map_dots domain))"

text \<open>\<^verbatim>\<open>strings.LastIndexByte\<close> with its result \<open>-1\<close> for an absent byte.\<close>

definition last_index_int :: "char \<Rightarrow> string \<Rightarrow> int" where
  "last_index_int c s = (case last_index c s of None \<Rightarrow> - 1 | Some i \<Rightarrow> int i)"

definition stripTerminalDomainRoot :: "string \<Rightarrow> string" where
  "stripTerminalDomainRoot raw =
     (let cut2 = take (length raw - 2) raw; cut1 = take (length raw - 1) raw
      in if has_suffix raw ''.>'' \<and> last_index_int CHR ''@'' cut2 > last_index_int CHR ''<'' cut2 then cut2 @ ''>''
         else if has_suffix raw ''.'' \<and> last_index_int CHR ''@'' cut1 \<ge> 0 then cut1
         else raw)"

definition CanonicalStrict :: "email_lib \<Rightarrow> string \<Rightarrow> email_error + string" where
  "CanonicalStrict lib raw =
     (let prepared = nfc lib (trim_space raw)
      in if prepared = [] then Inl EmailEmpty
         else case parseAddress lib (stripTerminalDomainRoot prepared) of
                None \<Rightarrow> Inl EmailParse
              | Some address \<Rightarrow>
                 (let addrSpec = nfc lib (trim_space address); at = last_index_int CHR ''@'' addrSpec
                  in if at \<le> 0 \<or> at = int (length addrSpec) - 1 then Inl EmailNoDomain
                     else (let local = unicode_lower lib (nfc lib (take (nat at) addrSpec));
                               domain = nfc lib (drop (Suc (nat at)) addrSpec)
                           in if has_prefix domain ''['' \<or> has_suffix domain '']'' then Inl EmailLiteral
                              else case rejectIDNACompatibilityAliases lib domain of
                                     Some e \<Rightarrow> Inl e
                                   | None \<Rightarrow>
                                      (case toASCII lib domain of
                                         None \<Rightarrow> Inl EmailIDNA
                                       | Some a \<Rightarrow>
                                          (let asciiDomain = trim_suffix (unicode_lower lib a) ''.''
                                           in if asciiDomain = [] \<or> has_suffix asciiDomain ''.'' then Inl EmailRoot
                                              else (let sem = local @ ''@'' @ asciiDomain;
                                                        rendered = renderAddress lib sem
                                                    in if length rendered < 2 \<or> hd rendered \<noteq> CHR ''<'' \<or> last rendered \<noteq> CHR ''>''
                                                       then Inl EmailSerialize
                                                       else (let canonical = butlast (tl rendered)
                                                             in case parseAddress lib canonical of
                                                                  None \<Rightarrow> Inl EmailRoundTrip
                                                                | Some again \<Rightarrow>
                                                                   if again \<noteq> sem then Inl EmailRoundTrip else Inr canonical)))))))"

definition Canonical :: "email_lib \<Rightarrow> string \<Rightarrow> string" where
  "Canonical lib raw =
     (case CanonicalStrict lib raw of Inr c \<Rightarrow> c | Inl _ \<Rightarrow> unicode_lower lib (nfc lib (trim_space raw)))"

text \<open>An accepted address is one of the local part and the ASCII domain it denotes, rendered so that it parses back.\<close>

lemma CanonicalStrict_parses:
  assumes "CanonicalStrict lib raw = Inr c"
  shows "\<exists>local domain. parseAddress lib c = Some (local @ ''@'' @ domain) \<and> domain \<noteq> [] \<and> \<not> has_suffix domain ''.''"
  using assms
  by (auto simp: CanonicalStrict_def Let_def split: if_splits option.splits sum.splits)

text \<open>A library for plain ASCII addresses, on which the definitions can be run.\<close>

definition ascii_lib :: email_lib where
  "ascii_lib = \<lparr>nfc = id, unicode_lower = to_lower, toASCII = Some, parseAddress = Some, renderAddress = (\<lambda>a. ''<'' @ a @ ''>'')\<rparr>"

end
