(* ===== verification/Collections.thy ===== *)
theory Collections
  imports Private_Access Targets Email_Identity
begin

text \<open>
  Membership of shared collections: the handlers of \<^verbatim>\<open>internal/handlers/collections.go\<close> that
  change it, and the claiming of invitations by a new account
  (\<^verbatim>\<open>collection_invitation_claim.go\<close>).  Each handler runs in one transaction: an error before
  the commit leaves the state as it was.  A request body is the result of decoding it, \<open>None\<close>
  when it is not valid JSON; the activity log is not part of the state.
\<close>

record deps =
  email_lib :: email_lib
  open_targets :: "string \<Rightarrow> RotationTarget list"
  seal_targets :: "RotationTarget list \<Rightarrow> string option"
  now :: int

record member_request =
  req_email :: string
  req_role :: string

section \<open>Statements on the membership tables\<close>

definition CountCollectionManagers :: "store \<Rightarrow> string \<Rightarrow> nat option" where
  "CountCollectionManagers s cid =
     (if fails s ''CountCollectionManagers'' then None
      else Some (length (filter (\<lambda>(k, m). fst k = cid \<and> member_role m = ''manager'' \<and> accepted_at m \<noteq> None) (members s))))"

definition AddCollectionMember ::
  "store \<Rightarrow> string \<Rightarrow> string \<Rightarrow> string \<Rightarrow> int option \<Rightarrow> string option \<Rightarrow> egress_error + store" where
  "AddCollectionMember s cid uid rl accepted by_user =
     exec s ''AddCollectionMember''
       (s\<lparr>members := sql_upsert (cid, uid) \<lparr>member_role = rl, accepted_at = accepted, invited_by = by_user\<rparr>
            (\<lambda>m. m\<lparr>member_role := rl, invited_by := (if accepted_at m = None then by_user else invited_by m)\<rparr>)
            (members s)\<rparr>)"

text \<open>The new state and the number of rows affected.\<close>

definition RemoveCollectionMember :: "store \<Rightarrow> string \<Rightarrow> string \<Rightarrow> egress_error + store \<times> nat" where
  "RemoveCollectionMember s cid uid =
     (if fails s ''RemoveCollectionMember'' then Inl StatementFailed
      else Inr (s\<lparr>members := sql_delete (cid, uid) (members s)\<rparr>,
                if map_of (members s) (cid, uid) = None then 0 else 1))"

definition AcceptCollectionInvite :: "int \<Rightarrow> store \<Rightarrow> string \<Rightarrow> string \<Rightarrow> egress_error + store \<times> nat" where
  "AcceptCollectionInvite t s cid uid =
     (if fails s ''AcceptCollectionInvite'' then Inl StatementFailed
      else Inr (s\<lparr>members := sql_update (cid, uid)
                    (\<lambda>m. if accepted_at m = None then m\<lparr>accepted_at := Some t\<rparr> else m) (members s)\<rparr>,
                case map_of (members s) (cid, uid) of Some m \<Rightarrow> if accepted_at m = None then 1 else 0 | None \<Rightarrow> 0))"

definition DeleteCollectionInvitation :: "store \<Rightarrow> string \<Rightarrow> string \<Rightarrow> egress_error + store" where
  "DeleteCollectionInvitation s cid addr =
     exec s ''DeleteCollectionInvitation'' (s\<lparr>invitations := sql_delete (cid, addr) (invitations s)\<rparr>)"

definition UpsertCollectionInvitation ::
  "store \<Rightarrow> string \<Rightarrow> string \<Rightarrow> string \<Rightarrow> string option \<Rightarrow> egress_error + store" where
  "UpsertCollectionInvitation s cid addr rl by_user =
     exec s ''UpsertCollectionInvitation''
       (s\<lparr>invitations := sql_upsert (cid, addr) \<lparr>invitation_role = rl, invitation_by = by_user\<rparr>
            (\<lambda>_. \<lparr>invitation_role = rl, invitation_by = by_user\<rparr>) (invitations s)\<rparr>)"

section \<open>The handlers\<close>

definition validCollectionRole :: "string \<Rightarrow> bool" where
  "validCollectionRole rl \<longleftrightarrow> rl = collRoleViewer \<or> rl = collRoleEditor \<or> rl = collRoleManager"

definition roleWithQueries :: "store \<Rightarrow> request \<Rightarrow> string \<Rightarrow> string option" where
  "roleWithQueries s r cid =
     (if IsAdmin r then Some collRoleManager
      else case GetCollectionMemberRole s cid (GetUserID r) of Row rl \<Rightarrow> Some rl | _ \<Rightarrow> None)"

definition collectionForRequest :: "store \<Rightarrow> headers \<Rightarrow> request \<Rightarrow> string \<Rightarrow> response + policy" where
  "collectionForRequest s w r cid =
     (case GetCollection s cid of
        ErrNoRows \<Rightarrow> Inl (writeNotFound w r ''collection not found'')
      | DBError \<Rightarrow> Inl (writeInternalError w r ''private access policy could not be verified'')
      | Row raw \<Rightarrow>
         (case storedPrivateAccessPolicy raw of
            Inl _ \<Rightarrow> Inl (writeInternalError w r ''private access policy could not be verified'')
          | Inr p \<Rightarrow>
             (case enforcePrivateAccessPolicy w r p privateAccessMetadata True ''collection not found'' of
                Some resp \<Rightarrow> Inl resp
              | None \<Rightarrow> Inr p)))"

abbreviation server_error :: "headers \<Rightarrow> request \<Rightarrow> response" where
  "server_error w r \<equiv> writeInternalError w r ''internal server error''"

definition no_content :: "headers \<Rightarrow> response" where
  "no_content w = \<lparr>status = 204, rheaders = w, rbody = TextBody []\<rparr>"

definition beginMutation :: "store \<Rightarrow> headers \<Rightarrow> request \<Rightarrow> response option" where
  "beginMutation s w r = (if fails s ''BeginTx'' then Some (server_error w r) else None)"

definition commitCollectionMutation :: "store \<Rightarrow> headers \<Rightarrow> request \<Rightarrow> response option" where
  "commitCollectionMutation s w r = (if fails s ''Commit'' then Some (server_error w r) else None)"

definition dropInvitationSeatWithQueries :: "deps \<Rightarrow> store \<Rightarrow> string \<Rightarrow> string \<Rightarrow> store" where
  "dropInvitationSeatWithQueries d s cid uid =
     (case GetUserEmailByID s uid of
        Row addr \<Rightarrow>
          (case DeleteCollectionInvitation s cid (Canonical (email_lib d) addr) of Inl _ \<Rightarrow> s | Inr s' \<Rightarrow> s')
      | _ \<Rightarrow> s)"

text \<open>
  The opening that every mutation shares: transaction, collection, and the caller's role where
  the handler is for managers.
\<close>

definition AcceptInvite :: "deps \<Rightarrow> string \<Rightarrow> store handler" where
  "AcceptInvite d cid r w s =
     (case beginMutation s w r of
        Some resp \<Rightarrow> (resp, s)
      | None \<Rightarrow>
     (case collectionForRequest s w r cid of
        Inl resp \<Rightarrow> (resp, s)
      | Inr p \<Rightarrow>
     (case GetCollectionMembership s cid (GetUserID r) of
        DBError \<Rightarrow> (server_error w r, s)
      | ErrNoRows \<Rightarrow> (writeNotFound w r ''no pending invitation for this collection'', s)
      | Row m \<Rightarrow>
         if accepted_at m \<noteq> None then (writeNotFound w r ''no pending invitation for this collection'', s)
         else
     (case enforcePrivateAccessPolicy w r p privateAccessSensitive True ''collection not found'' of
        Some resp \<Rightarrow> (resp, s)
      | None \<Rightarrow>
     (case AcceptCollectionInvite (now d) s cid (GetUserID r) of
        Inl _ \<Rightarrow> (server_error w r, s)
      | Inr (s1, n) \<Rightarrow>
         if n = 0 then (writeNotFound w r ''no pending invitation for this collection'', s)
         else
     (let s2 = dropInvitationSeatWithQueries d s1 cid (GetUserID r)
      in case commitCollectionMutation s w r of
           Some resp \<Rightarrow> (resp, s)
         | None \<Rightarrow> (no_content w, s2)))))))"

definition DeclineInvite :: "deps \<Rightarrow> string \<Rightarrow> store handler" where
  "DeclineInvite d cid r w s =
     (case beginMutation s w r of
        Some resp \<Rightarrow> (resp, s)
      | None \<Rightarrow>
     (case collectionForRequest s w r cid of
        Inl resp \<Rightarrow> (resp, s)
      | Inr p \<Rightarrow>
     (case GetCollectionMembership s cid (GetUserID r) of
        DBError \<Rightarrow> (writeNotFound w r ''no invitation or membership for this collection'', s)
      | ErrNoRows \<Rightarrow> (writeNotFound w r ''no invitation or membership for this collection'', s)
      | Row _ \<Rightarrow>
     (case enforcePrivateAccessPolicy w r p privateAccessSensitive True ''collection not found'' of
        Some resp \<Rightarrow> (resp, s)
      | None \<Rightarrow>
     (case GetCollectionMemberRole s cid (GetUserID r) of
        DBError \<Rightarrow> (server_error w r, s)
      | rl \<Rightarrow>
     (case (if rl = Row collRoleManager
            then (case CountCollectionManagers s cid of
                    None \<Rightarrow> Some (server_error w r)
                  | Some n \<Rightarrow> if n \<le> 1
                             then Some (writeConflict w r ''you are the last manager of this collection; promote another member before leaving'')
                             else None)
            else None) of
        Some resp \<Rightarrow> (resp, s)
      | None \<Rightarrow>
     (case RemoveCollectionMember s cid (GetUserID r) of
        Inl _ \<Rightarrow> (server_error w r, s)
      | Inr (s1, n) \<Rightarrow>
         if n = 0 then (writeNotFound w r ''no invitation or membership for this collection'', s)
         else
     (let s2 = dropInvitationSeatWithQueries d s1 cid (GetUserID r)
      in case commitCollectionMutation s w r of
           Some resp \<Rightarrow> (resp, s)
         | None \<Rightarrow>
            (no_content w,
             fst (purgeTargetsConfiguredBy (open_targets d) (seal_targets d) (now d) s2 cid (GetUserID r)))))))))))"

text \<open>The checks a handler for collection managers makes before it looks at the request body.\<close>

definition manager_gate :: "store \<Rightarrow> headers \<Rightarrow> request \<Rightarrow> string \<Rightarrow> response option" where
  "manager_gate s w r cid =
     (case beginMutation s w r of
        Some resp \<Rightarrow> Some resp
      | None \<Rightarrow>
     (case collectionForRequest s w r cid of
        Inl resp \<Rightarrow> Some resp
      | Inr p \<Rightarrow>
     (case roleWithQueries s r cid of
        None \<Rightarrow> Some (writeNotFound w r ''collection not found'')
      | Some rl \<Rightarrow>
         if rl \<noteq> collRoleManager then Some (writeForbidden w r ''only a collection manager can manage members'')
         else enforcePrivateAccessPolicy w r p privateAccessSensitive True ''collection not found'')))"

definition RescindInvitation :: "deps \<Rightarrow> string \<Rightarrow> member_request option \<Rightarrow> store handler" where
  "RescindInvitation d cid body r w s =
     (case manager_gate s w r cid of
        Some resp \<Rightarrow> (resp, s)
      | None \<Rightarrow>
     (case body of
        None \<Rightarrow> (writeBadRequest w r ''invalid JSON'', s)
      | Some req \<Rightarrow>
     (let addr = Canonical (email_lib d) (req_email req)
      in if addr = [] then (writeBadRequest w r ''email is required'', s)
         else
     (case DeleteCollectionInvitation s cid addr of
        Inl _ \<Rightarrow> (server_error w r, s)
      | Inr s1 \<Rightarrow>
     (case (case GetUserByEmail s1 addr of
              DBError \<Rightarrow> None
            | ErrNoRows \<Rightarrow> Some s1
            | Row (uid, _) \<Rightarrow>
               if uid = [] then Some s1
               else (case GetCollectionMembership s1 cid uid of
                       DBError \<Rightarrow> None
                     | ErrNoRows \<Rightarrow> Some s1
                     | Row m \<Rightarrow>
                        if accepted_at m \<noteq> None then Some s1
                        else (case RemoveCollectionMember s1 cid uid of Inl _ \<Rightarrow> None | Inr (s2, _) \<Rightarrow> Some s2))) of
        None \<Rightarrow> (server_error w r, s)
      | Some s2 \<Rightarrow>
         (case commitCollectionMutation s w r of
            Some resp \<Rightarrow> (resp, s)
          | None \<Rightarrow> (no_content w, s2)))))))"

definition ValidateEmail :: "email_lib \<Rightarrow> string \<Rightarrow> bool" where
  "ValidateEmail lib addr = (if addr = [] then True else case CanonicalStrict lib addr of Inl _ \<Rightarrow> False | Inr _ \<Rightarrow> True)"

text \<open>The account part of \<^verbatim>\<open>AddMember\<close>: the last-manager guard on a demotion, then the pending membership.\<close>

definition add_account ::
  "headers \<Rightarrow> request \<Rightarrow> string \<Rightarrow> string \<Rightarrow> string \<Rightarrow> store \<Rightarrow> response + store" where
  "add_account w r cid uid rl s =
     (case (if uid \<noteq> [] \<and> rl \<noteq> collRoleManager
            then (case GetCollectionMemberRole s cid uid of
                    DBError \<Rightarrow> Some (server_error w r)
                  | ErrNoRows \<Rightarrow> None
                  | Row current \<Rightarrow>
                     if current = collRoleManager
                     then (case CountCollectionManagers s cid of
                             None \<Rightarrow> Some (server_error w r)
                           | Some n \<Rightarrow>
                              if n \<le> 1
                              then Some (writeConflict w r (''this is the collection'' @ [CHR 0x27] @ ''s only manager; promote another member to manager first''))
                              else None)
                     else None)
            else None) of
        Some resp \<Rightarrow> Inl resp
      | None \<Rightarrow>
         (case AddCollectionMember s cid uid rl None (toNullString (GetUserID r)) of
            Inl _ \<Rightarrow> Inl (server_error w r)
          | Inr s' \<Rightarrow> Inr s'))"

text \<open>
  The rest of \<^verbatim>\<open>AddMember\<close> once the request is valid: the seat for the address unless its account
  is already a member, the membership if there is an account, and the commit.
\<close>

definition invite_member :: "headers \<Rightarrow> request \<Rightarrow> string \<Rightarrow> string \<Rightarrow> string \<Rightarrow> store \<Rightarrow> response \<times> store" where
  "invite_member w r cid addr rl s =
     (case GetUserByEmail s addr of
        DBError \<Rightarrow> (server_error w r, s)
      | user \<Rightarrow>
     (let uid = (case user of Row (u, _) \<Rightarrow> u | _ \<Rightarrow> [])
      in case (if uid = [] then ErrNoRows else GetCollectionMembership s cid uid) of
           DBError \<Rightarrow> (server_error w r, s)
         | membership \<Rightarrow>
     (let accepted = (case membership of Row m \<Rightarrow> accepted_at m \<noteq> None | _ \<Rightarrow> False)
      in case (if accepted then Inr s
               else UpsertCollectionInvitation s cid addr rl (toNullString (GetUserID r))) of
           Inl _ \<Rightarrow> (server_error w r, s)
         | Inr s1 \<Rightarrow>
     (case (case user of Row (u, _) \<Rightarrow> add_account w r cid u rl s1 | _ \<Rightarrow> Inr s1) of
        Inl resp \<Rightarrow> (resp, s)
      | Inr s2 \<Rightarrow>
         (case commitCollectionMutation s w r of
            Some resp \<Rightarrow> (resp, s)
          | None \<Rightarrow> (writeJSON w 200 (Payload ''invited''), s2))))))"

definition AddMember :: "deps \<Rightarrow> string \<Rightarrow> member_request option \<Rightarrow> store handler" where
  "AddMember d cid body r w s =
     (case manager_gate s w r cid of
        Some resp \<Rightarrow> (resp, s)
      | None \<Rightarrow>
     (case body of
        None \<Rightarrow> (writeBadRequest w r ''invalid JSON'', s)
      | Some req \<Rightarrow>
     (let addr = Canonical (email_lib d) (req_email req);
          rl = (if req_role req = [] then collRoleViewer else req_role req)
      in if addr = [] then (writeBadRequest w r ''email is required'', s)
         else if \<not> ValidateEmail (email_lib d) addr then (writeValidationError w r ''email: invalid email address format'', s)
         else if \<not> validCollectionRole rl then (writeBadRequest w r ''role must be viewer, editor, or manager'', s)
         else invite_member w r cid addr rl s)))"

definition RemoveMember :: "deps \<Rightarrow> string \<Rightarrow> string \<Rightarrow> store handler" where
  "RemoveMember d cid targetUser r w s =
     (case manager_gate s w r cid of
        Some resp \<Rightarrow> (resp, s)
      | None \<Rightarrow>
     (case GetCollectionMembership s cid targetUser of
        Row m \<Rightarrow>
     (case (if member_role m = collRoleManager \<and> accepted_at m \<noteq> None
            then (case CountCollectionManagers s cid of
                    None \<Rightarrow> Some (server_error w r)
                  | Some n \<Rightarrow> if n \<le> 1
                             then Some (writeConflict w r ''cannot remove the last manager; promote another member first'')
                             else None)
            else None) of
        Some resp \<Rightarrow> (resp, s)
      | None \<Rightarrow>
     (case RemoveCollectionMember s cid targetUser of
        Inl _ \<Rightarrow> (server_error w r, s)
      | Inr (s1, n) \<Rightarrow>
         if n = 0 then (writeNotFound w r ''member not found'', s)
         else
     (let s2 = dropInvitationSeatWithQueries d s1 cid targetUser
      in case commitCollectionMutation s w r of
           Some resp \<Rightarrow> (resp, s)
         | None \<Rightarrow>
            (no_content w,
             fst (purgeTargetsConfiguredBy (open_targets d) (seal_targets d) (now d) s2 cid targetUser)))))
      | _ \<Rightarrow> (writeNotFound w r ''member not found'', s)))"

text \<open>Claiming the seats reserved for an address when an account for it is created.\<close>

fun claim_seats :: "store \<Rightarrow> string \<Rightarrow> ((string \<times> string) \<times> invitation_row) list \<Rightarrow> nat \<Rightarrow> bool \<times> nat \<times> store" where
  "claim_seats s uid [] claimed = (True, claimed, s)"
| "claim_seats s uid (((cid, _), seat) # seats) claimed =
     (case AddCollectionMember s cid uid (invitation_role seat) None (invitation_by seat) of
        Inl _ \<Rightarrow> (False, claimed, s)
      | Inr s' \<Rightarrow> claim_seats s' uid seats (claimed + 1))"

definition claimCollectionInvitations :: "deps \<Rightarrow> store \<Rightarrow> string \<Rightarrow> string \<Rightarrow> bool \<times> nat \<times> store" where
  "claimCollectionInvitations d s uid addr =
     (if fails s ''ListCollectionInvitationsForEmail'' then (False, 0, s)
      else claim_seats s uid (filter (\<lambda>(k, _). snd k = Canonical (email_lib d) addr) (invitations s)) 0)"

section \<open>What a handler can change\<close>

definition entry_key :: "entry_row \<Rightarrow> string \<times> string \<times> string option" where
  "entry_key e = (user_id e, secret_owner_user_id e, collection_id e)"

definition same_frame :: "store \<Rightarrow> store \<Rightarrow> bool" where
  "same_frame s s' \<longleftrightarrow> users s' = users s \<and> collections s' = collections s \<and> fails s' = fails s \<and>
     (\<forall>eid. map_option entry_key (map_of (entries s') eid) = map_option entry_key (map_of (entries s) eid))"

lemma same_frame_refl [simp]: "same_frame s s"
  by (simp add: same_frame_def)

lemma same_frame_trans: "same_frame s t \<Longrightarrow> same_frame t u \<Longrightarrow> same_frame s u"
  by (simp add: same_frame_def)

lemma same_frame_members [simp]: "same_frame s (s\<lparr>members := m\<rparr>)" "same_frame s (s\<lparr>invitations := i\<rparr>)"
  by (simp_all add: same_frame_def)

lemma entry_key_targets [simp]: "entry_key (e\<lparr>rotation_targets := t, updated_at := u\<rparr>) = entry_key e"
  by (simp add: entry_key_def)

lemma purge_row_frame:
  "members (fst (purge_row op se t uid row st)) = members (fst st) \<and> same_frame (fst st) (fst (purge_row op se t uid row st))"
  by (cases row; cases st)
    (auto simp: purge_row_def Let_def SetRotationTargets_def exec_def update_entry_def same_frame_def
      option.map_comp comp_def split: option.splits sum.splits)

lemma purge_fold_frame:
  "members (fst (fold (purge_row op se t uid) rows st)) = members (fst st) \<and>
   same_frame (fst st) (fst (fold (purge_row op se t uid) rows st))"
proof (induction rows arbitrary: st)
  case (Cons row rows)
  from Cons.IH [of "purge_row op se t uid row st"] purge_row_frame [of op se t uid row st] show ?case
    by (auto intro: same_frame_trans)
qed simp

lemma purge_frame:
  "members (fst (purgeTargetsConfiguredBy op se t s cid uid)) = members s \<and>
   same_frame s (fst (purgeTargetsConfiguredBy op se t s cid uid))"
  using purge_fold_frame [of op se t uid _ "(s, 0)"] by (simp add: purgeTargetsConfiguredBy_def)

lemma drop_seat_frame:
  "members (dropInvitationSeatWithQueries d s cid uid) = members s \<and> same_frame s (dropInvitationSeatWithQueries d s cid uid)"
  by (auto simp: dropInvitationSeatWithQueries_def DeleteCollectionInvitation_def exec_def split: fetched.splits)

definition manages :: "store \<Rightarrow> string \<Rightarrow> string \<Rightarrow> bool" where
  "manages s cid uid \<longleftrightarrow> accepted_role s cid uid = Some collRoleManager"

text \<open>
  The effect of a request on accepted memberships: a seat becomes accepted only for \<open>who\<close>, and a
  manager stops being one only while another one stays.
\<close>

definition effect :: "(string \<times> string) option \<Rightarrow> store \<Rightarrow> store \<Rightarrow> bool" where
  "effect who s s' \<longleftrightarrow> same_frame s s' \<and> distinct (map fst (members s')) \<and>
     (\<forall>c u. accepted_role s' c u \<noteq> accepted_role s c u \<longrightarrow>
        (accepted_role s c u = None \<and> who = Some (c, u)) \<or>
        (accepted_role s c u \<noteq> None \<and>
         (manages s c u \<and> \<not> manages s' c u \<longrightarrow> (\<exists>u'. u' \<noteq> u \<and> manages s c u' \<and> manages s' c u'))))"

lemma effect_refl: "distinct (map fst (members s)) \<Longrightarrow> effect who s s"
  by (simp add: effect_def)

lemma accepted_role_cong: "members s = members t \<Longrightarrow> accepted_role s = accepted_role t"
  by (intro ext) (simp add: accepted_role_def)

lemma effect_frame:
  "effect who s t \<Longrightarrow> members u = members t \<Longrightarrow> same_frame t u \<Longrightarrow> effect who s u"
  using accepted_role_cong [of u t] by (auto simp: effect_def manages_def intro: same_frame_trans)

lemma accepted_role_change:
  assumes "\<And>k. k \<noteq> (cid, uid) \<Longrightarrow> map_of (members s') k = map_of (members s) k" "(c, u) \<noteq> (cid, uid)"
  shows "accepted_role s' c u = accepted_role s c u"
  using assms by (simp add: accepted_role_def)

text \<open>With two accepted managers there is one besides any given user.\<close>

lemma other_manager:
  assumes "distinct (map fst (members s))" "CountCollectionManagers s cid = Some n" "\<not> n \<le> 1"
  shows "\<exists>u'. u' \<noteq> uid \<and> manages s cid u'"
proof -
  let ?M = "filter (\<lambda>(k, m). fst k = cid \<and> member_role m = ''manager'' \<and> accepted_at m \<noteq> None) (members s)"
  have len: "length ?M > 1" using assms(2,3) by (simp add: CountCollectionManagers_def split: if_splits)
  obtain x y M where M: "?M = x # y # M"
    using len by (cases ?M rule: remdups_adj.cases) auto
  have dist: "distinct (map fst ?M)" using assms(1) by (rule distinct_map_filter)
  have mem: "manages s cid (snd (fst e)) \<and> fst (fst e) = cid" if "e \<in> set ?M" for e
  proof -
    from that have e: "e \<in> set (members s)" "fst (fst e) = cid" "member_role (snd e) = ''manager''" "accepted_at (snd e) \<noteq> None"
      by auto
    have "map_of (members s) (fst e) = Some (snd e)" using assms(1) e(1) by simp
    with e show ?thesis by (auto simp: manages_def accepted_role_def collRoleManager_def)
  qed
  have x: "manages s cid (snd (fst x)) \<and> fst (fst x) = cid" and y: "manages s cid (snd (fst y)) \<and> fst (fst y) = cid"
    using mem [of x] mem [of y] unfolding M by simp_all
  have "fst x \<noteq> fst y" using dist M by simp
  with x y have "snd (fst x) \<noteq> snd (fst y)" by (auto simp: prod_eq_iff)
  with x y show ?thesis by metis
qed

lemma effect_single:
  assumes "same_frame s s'" "distinct (map fst (members s'))"
    and "\<And>k. k \<noteq> (cid, uid) \<Longrightarrow> map_of (members s') k = map_of (members s) k"
    and "accepted_role s' cid uid \<noteq> accepted_role s cid uid \<Longrightarrow>
      (accepted_role s cid uid = None \<and> who = Some (cid, uid)) \<or>
      (accepted_role s cid uid \<noteq> None \<and>
       (manages s cid uid \<and> \<not> manages s' cid uid \<longrightarrow> (\<exists>u'. u' \<noteq> uid \<and> manages s cid u')))"
  shows "effect who s s'"
proof -
  have same: "accepted_role s' c u = accepted_role s c u" if "(c, u) \<noteq> (cid, uid)" for c u
    using accepted_role_change [OF assms(3)] that by blast
  then have keep: "u' \<noteq> uid \<Longrightarrow> manages s cid u' \<Longrightarrow> manages s' cid u'" for u' by (simp add: manages_def)
  have "(accepted_role s c u = None \<and> who = Some (c, u)) \<or>
      (accepted_role s c u \<noteq> None \<and>
       (manages s c u \<and> \<not> manages s' c u \<longrightarrow> (\<exists>u'. u' \<noteq> u \<and> manages s c u' \<and> manages s' c u')))"
    if ne: "accepted_role s' c u \<noteq> accepted_role s c u" for c u
  proof -
    have [simp]: "c = cid" "u = uid" using ne same [of c u] by auto
    from assms(4) ne keep show ?thesis by auto
  qed
  with assms(1,2) show ?thesis unfolding effect_def by blast
qed

lemma effect_delete:
  assumes "distinct (map fst (members s))"
    and "manages s cid uid \<Longrightarrow> \<exists>u'. u' \<noteq> uid \<and> manages s cid u'"
  shows "effect who s (s\<lparr>members := sql_delete (cid, uid) (members s)\<rparr>)"
  using assms by (intro effect_single [of s _ cid uid]) (auto simp: accepted_role_def split: option.splits)

lemma effect_upsert:
  assumes "distinct (map fst (members s))"
    and "manages s cid uid \<Longrightarrow> rl \<noteq> collRoleManager \<Longrightarrow> \<exists>u'. u' \<noteq> uid \<and> manages s cid u'"
  shows "effect who s (s\<lparr>members := sql_upsert (cid, uid) \<lparr>member_role = rl, accepted_at = None, invited_by = b\<rparr>
      (\<lambda>m. m\<lparr>member_role := rl, invited_by := (if accepted_at m = None then b else invited_by m)\<rparr>) (members s)\<rparr>)"
proof (intro effect_single [of s _ cid uid])
  show "accepted_role (s\<lparr>members := sql_upsert (cid, uid) \<lparr>member_role = rl, accepted_at = None, invited_by = b\<rparr>
        (\<lambda>m. m\<lparr>member_role := rl, invited_by := (if accepted_at m = None then b else invited_by m)\<rparr>) (members s)\<rparr>) cid uid
      \<noteq> accepted_role s cid uid \<Longrightarrow>
    (accepted_role s cid uid = None \<and> who = Some (cid, uid)) \<or>
    (accepted_role s cid uid \<noteq> None \<and>
     (manages s cid uid \<and> \<not> manages (s\<lparr>members := sql_upsert (cid, uid) \<lparr>member_role = rl, accepted_at = None, invited_by = b\<rparr>
        (\<lambda>m. m\<lparr>member_role := rl, invited_by := (if accepted_at m = None then b else invited_by m)\<rparr>) (members s)\<rparr>) cid uid \<longrightarrow>
      (\<exists>u'. u' \<noteq> uid \<and> manages s cid u')))"
    using assms(2) by (cases "map_of (members s) (cid, uid)") (auto simp: accepted_role_def manages_def)
qed (use assms in simp_all)

lemma effect_accept:
  assumes "distinct (map fst (members s))"
  shows "effect (Some (cid, uid)) s (s\<lparr>members := sql_update (cid, uid)
      (\<lambda>m. if accepted_at m = None then m\<lparr>accepted_at := Some t\<rparr> else m) (members s)\<rparr>)"
  using assms
  by (intro effect_single [of s _ cid uid]) (auto simp: accepted_role_def manages_def split: option.splits if_splits)

section \<open>The handlers respect it\<close>

lemma AcceptInvite_induct:
  assumes "P s"
    and "P (dropInvitationSeatWithQueries d (s\<lparr>members := sql_update (cid, GetUserID r)
      (\<lambda>m. if accepted_at m = None then m\<lparr>accepted_at := Some (now d)\<rparr> else m) (members s)\<rparr>) cid (GetUserID r))"
  shows "P (snd (AcceptInvite d cid r w s))"
  using assms unfolding AcceptInvite_def AcceptCollectionInvite_def Let_def
  by (simp split: option.split sum.split fetched.split)

lemma AcceptInvite_effect:
  assumes "distinct (map fst (members s))"
  shows "effect (Some (cid, GetUserID r)) s (snd (AcceptInvite d cid r w s))"
proof (rule AcceptInvite_induct)
  let ?s1 = "s\<lparr>members := sql_update (cid, GetUserID r)
      (\<lambda>m. if accepted_at m = None then m\<lparr>accepted_at := Some (now d)\<rparr> else m) (members s)\<rparr>"
  show "effect (Some (cid, GetUserID r)) s (dropInvitationSeatWithQueries d ?s1 cid (GetUserID r))"
    using drop_seat_frame [of d ?s1 cid "GetUserID r"] effect_frame [OF effect_accept [OF assms]] by blast
qed (rule effect_refl [OF assms])

lemma role_manages: "GetCollectionMemberRole s cid uid = Row collRoleManager \<Longrightarrow> manages s cid uid"
  by (simp add: GetCollectionMemberRole_def row_simps manages_def)

lemma manages_role: "manages s cid uid \<Longrightarrow> GetCollectionMemberRole s cid uid \<noteq> DBError \<Longrightarrow>
    GetCollectionMemberRole s cid uid = Row collRoleManager"
  by (simp add: GetCollectionMemberRole_def fetch_def manages_def split: if_splits)

lemma effect_removed:
  assumes "distinct (map fst (members s))" "manages s cid uid \<Longrightarrow> \<exists>u'. u' \<noteq> uid \<and> manages s cid u'"
  shows "effect who s (fst (purgeTargetsConfiguredBy op se t
    (dropInvitationSeatWithQueries d (s\<lparr>members := sql_delete (cid, uid) (members s)\<rparr>) cid uid) cid' uid'))"
proof -
  let ?s1 = "s\<lparr>members := sql_delete (cid, uid) (members s)\<rparr>"
  let ?s2 = "dropInvitationSeatWithQueries d ?s1 cid uid"
  have "effect who s ?s2"
    using effect_frame [OF effect_delete [OF assms]] drop_seat_frame [of d ?s1 cid uid] by blast
  then show ?thesis using effect_frame [of who s ?s2] purge_frame [of op se t ?s2 cid' uid'] by blast
qed

lemma DeclineInvite_induct:
  assumes "P s"
    and "\<lbrakk>GetCollectionMemberRole s cid (GetUserID r) \<noteq> DBError;
      GetCollectionMemberRole s cid (GetUserID r) = Row collRoleManager \<Longrightarrow>
        (\<exists>n. CountCollectionManagers s cid = Some n \<and> \<not> n \<le> 1)\<rbrakk> \<Longrightarrow>
      P (fst (purgeTargetsConfiguredBy (open_targets d) (seal_targets d) (now d)
        (dropInvitationSeatWithQueries d (s\<lparr>members := sql_delete (cid, GetUserID r) (members s)\<rparr>) cid (GetUserID r))
        cid (GetUserID r)))"
  shows "P (snd (DeclineInvite d cid r w s))"
  using assms unfolding DeclineInvite_def RemoveCollectionMember_def Let_def
  by (auto split: option.split sum.split fetched.split)

lemma DeclineInvite_effect:
  assumes "distinct (map fst (members s))"
  shows "effect who s (snd (DeclineInvite d cid r w s))"
proof (rule DeclineInvite_induct)
  assume "GetCollectionMemberRole s cid (GetUserID r) \<noteq> DBError"
    "GetCollectionMemberRole s cid (GetUserID r) = Row collRoleManager \<Longrightarrow>
        (\<exists>n. CountCollectionManagers s cid = Some n \<and> \<not> n \<le> 1)"
  then have "manages s cid (GetUserID r) \<Longrightarrow> \<exists>u'. u' \<noteq> GetUserID r \<and> manages s cid u'"
    using manages_role other_manager [OF assms] by blast
  then show "effect who s (fst (purgeTargetsConfiguredBy (open_targets d) (seal_targets d) (now d)
        (dropInvitationSeatWithQueries d (s\<lparr>members := sql_delete (cid, GetUserID r) (members s)\<rparr>) cid (GetUserID r))
        cid (GetUserID r)))"
    by (rule effect_removed [OF assms])
qed (rule effect_refl [OF assms])

lemma RemoveMember_induct:
  assumes "P s"
    and "\<And>m. \<lbrakk>GetCollectionMembership s cid uid = Row m;
      member_role m = collRoleManager \<Longrightarrow> accepted_at m \<noteq> None \<Longrightarrow>
          (\<exists>n. CountCollectionManagers s cid = Some n \<and> \<not> n \<le> 1)\<rbrakk> \<Longrightarrow>
      P (fst (purgeTargetsConfiguredBy (open_targets d) (seal_targets d) (now d)
        (dropInvitationSeatWithQueries d (s\<lparr>members := sql_delete (cid, uid) (members s)\<rparr>) cid uid) cid uid))"
  shows "P (snd (RemoveMember d cid uid r w s))"
  using assms unfolding RemoveMember_def RemoveCollectionMember_def Let_def
  by (auto split: option.split sum.split fetched.split)

lemma RemoveMember_effect:
  assumes "distinct (map fst (members s))"
  shows "effect who s (snd (RemoveMember d cid uid r w s))"
proof (rule RemoveMember_induct)
  fix m
  assume "GetCollectionMembership s cid uid = Row m"
    "member_role m = collRoleManager \<Longrightarrow> accepted_at m \<noteq> None \<Longrightarrow>
        (\<exists>n. CountCollectionManagers s cid = Some n \<and> \<not> n \<le> 1)"
  then have "manages s cid uid \<Longrightarrow> \<exists>u'. u' \<noteq> uid \<and> manages s cid u'"
    using other_manager [OF assms]
    by (auto simp: manages_def accepted_role_def GetCollectionMembership_def row_simps split: if_splits)
  then show "effect who s (fst (purgeTargetsConfiguredBy (open_targets d) (seal_targets d) (now d)
        (dropInvitationSeatWithQueries d (s\<lparr>members := sql_delete (cid, uid) (members s)\<rparr>) cid uid) cid uid))"
    by (rule effect_removed [OF assms])
qed (rule effect_refl [OF assms])

lemma RescindInvitation_induct:
  assumes "P s" "\<And>i. P (s\<lparr>invitations := i\<rparr>)"
    and "\<And>i uid m. map_of (members s) (cid, uid) = Some m \<Longrightarrow> accepted_at m = None \<Longrightarrow>
      P (s\<lparr>invitations := i, members := sql_delete (cid, uid) (members s)\<rparr>)"
  shows "P (snd (RescindInvitation d cid body r w s))"
  using assms unfolding RescindInvitation_def RemoveCollectionMember_def DeleteCollectionInvitation_def exec_def Let_def
    GetCollectionMembership_def fetch_def
  by (auto split: option.split sum.split fetched.split)

lemma effect_invitations: "distinct (map fst (members s)) \<Longrightarrow> effect who s (s\<lparr>invitations := i\<rparr>)"
  by (rule effect_frame [OF effect_refl]) simp_all

lemma RescindInvitation_effect:
  assumes "distinct (map fst (members s))"
  shows "effect who s (snd (RescindInvitation d cid body r w s))"
proof (rule RescindInvitation_induct)
  fix i uid m
  assume "map_of (members s) (cid, uid) = Some m" "accepted_at m = None"
  then have "\<not> manages s cid uid" by (simp add: manages_def accepted_role_def)
  then have "effect who s (s\<lparr>members := sql_delete (cid, uid) (members s)\<rparr>)" using effect_delete [OF assms] by blast
  then show "effect who s (s\<lparr>invitations := i, members := sql_delete (cid, uid) (members s)\<rparr>)"
    by (rule effect_frame) (simp_all add: same_frame_def)
qed (simp_all add: effect_refl effect_invitations assms)

lemma add_account_Inr:
  assumes "add_account w r cid uid rl s = Inr s'" "uid \<noteq> []" "distinct (map fst (members s))"
  shows "effect who s s'"
proof -
  have c: "s' = s\<lparr>members := sql_upsert (cid, uid) \<lparr>member_role = rl, accepted_at = None, invited_by = toNullString (GetUserID r)\<rparr>
      (\<lambda>m. m\<lparr>member_role := rl, invited_by := (if accepted_at m = None then toNullString (GetUserID r) else invited_by m)\<rparr>)
      (members s)\<rparr> \<and>
    (rl \<noteq> collRoleManager \<longrightarrow> GetCollectionMemberRole s cid uid \<noteq> DBError \<and>
      (GetCollectionMemberRole s cid uid = Row collRoleManager \<longrightarrow>
         (\<exists>n. CountCollectionManagers s cid = Some n \<and> \<not> n \<le> 1)))"
    using assms(1,2) by (auto simp: add_account_def AddCollectionMember_def exec_Inr
        split: option.splits sum.splits fetched.splits if_splits)
  then have "manages s cid uid \<Longrightarrow> rl \<noteq> collRoleManager \<Longrightarrow> \<exists>u'. u' \<noteq> uid \<and> manages s cid u'"
    using manages_role other_manager [OF assms(3)] by blast
  with c show ?thesis using effect_upsert [OF assms(3)] by simp
qed

lemma invite_member_induct:
  assumes "P s" "\<And>i. P (s\<lparr>invitations := i\<rparr>)"
    and "\<And>uid u s1 s2. (uid, u) \<in> set (users s) \<Longrightarrow> s1 = s \<or> (\<exists>i. s1 = s\<lparr>invitations := i\<rparr>) \<Longrightarrow>
      add_account w r cid uid rl s1 = Inr s2 \<Longrightarrow> P s2"
  shows "P (snd (invite_member w r cid addr rl s))"
proof (cases "GetUserByEmail s addr")
  case (Row ux)
  obtain uid u where ux: "ux = (uid, u)" by (cases ux)
  have mem: "(uid, u) \<in> set (users s)"
    using Row ux by (auto simp: GetUserByEmail_def row_simps find_Some_iff in_set_conv_nth)
  have fin: "P (snd (case add_account w r cid uid rl s1 of
        Inl resp \<Rightarrow> (resp, s)
      | Inr s2 \<Rightarrow> (case commitCollectionMutation s w r of Some resp \<Rightarrow> (resp, s)
          | None \<Rightarrow> (writeJSON w 200 (Payload ''invited''), s2))))"
    if "s1 = s \<or> (\<exists>i. s1 = s\<lparr>invitations := i\<rparr>)" for s1
    using assms(1) assms(3) [OF mem that] by (auto split: sum.split option.split)
  note fin_inv = fin [OF disjI2, OF exI, OF refl]
  show ?thesis
  proof (cases "if uid = [] then ErrNoRows else GetCollectionMembership s cid uid")
    case (Row m)
    with \<open>GetUserByEmail s addr = Row ux\<close> ux assms(1) fin fin_inv show ?thesis
      by (simp add: invite_member_def UpsertCollectionInvitation_def exec_def split: if_split)
  next
    case ErrNoRows
    with Row ux assms(1) fin fin_inv show ?thesis
      by (simp add: invite_member_def UpsertCollectionInvitation_def exec_def split: if_split)
  next
    case DBError
    with Row ux assms(1) show ?thesis by (simp add: invite_member_def)
  qed
next
  case ErrNoRows
  then show ?thesis using assms(1,2)
    by (simp add: invite_member_def UpsertCollectionInvitation_def exec_def split: option.split)
qed (simp add: invite_member_def assms(1))

lemma invite_member_effect:
  assumes "distinct (map fst (members s))" "[] \<notin> fst ` set (users s)"
  shows "effect who s (snd (invite_member w r cid addr rl s))"
proof (rule invite_member_induct)
  fix uid u s1 s2
  assume u: "(uid, u) \<in> set (users s)" and s1: "s1 = s \<or> (\<exists>i. s1 = s\<lparr>invitations := i\<rparr>)"
    and a: "add_account w r cid uid rl s1 = Inr s2"
  have "uid \<noteq> []" using u assms(2) by force
  moreover have m: "members s1 = members s" "same_frame s s1" using s1 by auto
  ultimately have "effect who s1 s2" using add_account_Inr [OF a] assms(1) by simp
  then show "effect who s s2"
    using m accepted_role_cong [OF m(1)] by (auto simp: effect_def manages_def intro: same_frame_trans)
qed (simp_all add: effect_refl effect_invitations assms)

lemma AddMember_effect:
  assumes "distinct (map fst (members s))" "[] \<notin> fst ` set (users s)"
  shows "effect who s (snd (AddMember d cid body r w s))"
  using invite_member_effect [OF assms] effect_refl [OF assms(1)]
  by (simp add: AddMember_def Let_def split: option.split)

section \<open>Sequences of requests\<close>

datatype coll_request =
  Accept deps string request
| Decline deps string request
| Rescind deps string "member_request option" request
| Add deps string "member_request option" request
| Remove deps string string request

fun serve_request :: "coll_request \<Rightarrow> store \<Rightarrow> store" where
  "serve_request (Accept d cid r) s = snd (AcceptInvite d cid r (\<lambda>_. []) s)"
| "serve_request (Decline d cid r) s = snd (DeclineInvite d cid r (\<lambda>_. []) s)"
| "serve_request (Rescind d cid b r) s = snd (RescindInvitation d cid b r (\<lambda>_. []) s)"
| "serve_request (Add d cid b r) s = snd (AddMember d cid b r (\<lambda>_. []) s)"
| "serve_request (Remove d cid uid r) s = snd (RemoveMember d cid uid r (\<lambda>_. []) s)"

fun accepter :: "coll_request \<Rightarrow> (string \<times> string) option" where
  "accepter (Accept _ cid r) = Some (cid, GetUserID r)"
| "accepter _ = None"

definition wf_store :: "store \<Rightarrow> bool" where
  "wf_store s \<longleftrightarrow> distinct (map fst (members s)) \<and> [] \<notin> fst ` set (users s)"

lemma serve_request_effect: "wf_store s \<Longrightarrow> effect (accepter q) s (serve_request q s)"
  by (cases q) (simp_all add: wf_store_def AcceptInvite_effect DeclineInvite_effect RescindInvitation_effect
      AddMember_effect RemoveMember_effect)

lemma effect_wf: "wf_store s \<Longrightarrow> effect who s s' \<Longrightarrow> wf_store s'"
  by (auto simp: wf_store_def effect_def same_frame_def)

lemma effectD:
  assumes "effect who s s'" "accepted_role s' c u \<noteq> accepted_role s c u"
  shows "(accepted_role s c u = None \<and> who = Some (c, u)) \<or>
    (accepted_role s c u \<noteq> None \<and>
     (manages s c u \<and> \<not> manages s' c u \<longrightarrow> (\<exists>u'. u' \<noteq> u \<and> manages s c u' \<and> manages s' c u')))"
  by (rule assms(1) [unfolded effect_def, THEN conjunct2, THEN conjunct2, THEN spec, THEN spec, THEN mp]) (rule assms(2))

lemma effect_keeps_manager:
  assumes "effect who s s'" "manages s c u"
  shows "\<exists>u'. manages s' c u'"
proof (cases "manages s' c u")
  case False
  have "accepted_role s' c u \<noteq> accepted_role s c u" "accepted_role s c u \<noteq> None"
    using False assms(2) by (auto simp: manages_def)
  with effectD [OF assms(1) this(1)] False assms(2) show ?thesis by auto
qed blast

lemma effect_consent:
  "effect who s s' \<Longrightarrow> accepted_role s c u = None \<Longrightarrow> who \<noteq> Some (c, u) \<Longrightarrow> accepted_role s' c u = None"
  using effectD [of who s s' c u] by fastforce

interpretation membership: invariant_steps serve_request wf_store
  by unfold_locales (rule effect_wf [OF _ serve_request_effect])

interpretation managed: stable_steps serve_request wf_store "\<lambda>s. \<exists>u. manages s cid u" "\<lambda>_. True" for cid
  by unfold_locales (blast intro: effect_keeps_manager serve_request_effect)

interpretation consent: stable_steps serve_request wf_store "\<lambda>s. accepted_role s cid uid = None"
    "\<lambda>q. accepter q \<noteq> Some (cid, uid)" for cid uid
  by unfold_locales (blast intro: effect_consent serve_request_effect)

text \<open>
  C14. A collection never loses its last manager: from a well-formed state in which a
  collection has an accepted manager, whatever sequence of accept, decline, rescind, add and
  remove requests is served, by anyone, it still has one.
\<close>

theorem collection_keeps_manager:
  assumes "wf_store s" "manages s cid uid"
  shows "\<exists>u. manages (fold serve_request qs s) cid u"
  using managed.run_stable [OF assms(1), of cid qs] assms(2) by blast

lemma write_status [simp]:
  "status (writeNotFound w r m) = 404" "status (writeForbidden w r m) = 403" "status (writeBadRequest w r m) = 400"
  "status (writeInternalError w r m) = 500" "status (writeConflict w r m) = 409" "status (writePrivateIngressRequired w r) = 403"
  "status (no_content w) = 204"
  by (simp_all add: writeNotFound_def writeForbidden_def writeBadRequest_def writeInternalError_def writeConflict_def
      writePrivateIngressRequired_def writeError_def writeJSON_def no_content_def)

lemma manager_gate_status: "manager_gate s w r cid = Some resp \<Longrightarrow> status resp \<noteq> 204"
  by (auto simp: manager_gate_def beginMutation_def collectionForRequest_def enforcePrivateAccessPolicy_def
      split: option.splits sum.splits fetched.splits if_splits)

lemma RemoveMember_pair:
  assumes "\<And>resp. status resp \<noteq> 204 \<Longrightarrow> Q (resp, s)"
    and "Q (no_content w, fst (purgeTargetsConfiguredBy (open_targets d) (seal_targets d) (now d)
        (dropInvitationSeatWithQueries d (s\<lparr>members := sql_delete (cid, uid) (members s)\<rparr>) cid uid) cid uid))"
  shows "Q (RemoveMember d cid uid r w s)"
  using assms manager_gate_status [of s w r cid]
  unfolding RemoveMember_def RemoveCollectionMember_def commitCollectionMutation_def Let_def
  by (auto split: option.split sum.split fetched.split)

lemma RemoveMember_204:
  "status (fst (RemoveMember d cid uid r w s)) = 204 \<longrightarrow> accepted_role (snd (RemoveMember d cid uid r w s)) cid uid = None"
proof (rule RemoveMember_pair [where Q = "\<lambda>x. status (fst x) = 204 \<longrightarrow> accepted_role (snd x) cid uid = None"])
  let ?s1 = "s\<lparr>members := sql_delete (cid, uid) (members s)\<rparr>"
  let ?s2 = "dropInvitationSeatWithQueries d ?s1 cid uid"
  have "members (fst (purgeTargetsConfiguredBy (open_targets d) (seal_targets d) (now d) ?s2 cid uid)) =
      sql_delete (cid, uid) (members s)"
    using purge_frame [of "open_targets d" "seal_targets d" "now d" ?s2 cid uid] drop_seat_frame [of d ?s1 cid uid] by simp
  then show "status (fst (no_content w, fst (purgeTargetsConfiguredBy (open_targets d) (seal_targets d) (now d) ?s2 cid uid))) = 204 \<longrightarrow>
      accepted_role (snd (no_content w, fst (purgeTargetsConfiguredBy (open_targets d) (seal_targets d) (now d) ?s2 cid uid))) cid uid = None"
    by (simp add: accepted_role_def)
qed simp

text \<open>
  C24. Removing a member ends their access: once a removal of a user from a collection has
  been answered 204, whatever requests are served afterwards, as long as the user does not
  themselves accept a new invitation to it, they can neither spend nor change any entry of
  the collection, and can configure no delivery for it unless they are an instance admin; at
  most they can still read an entry they created.
\<close>

theorem removed_member_locked_out:
  assumes "wf_store s" "status (fst (RemoveMember d cid uid r w s)) = 204"
    and "\<forall>q \<in> set qs. accepter q \<noteq> Some (cid, uid)"
    and "s' = fold serve_request qs (snd (RemoveMember d cid uid r w s))"
    and "map_of (entries s') eid = Some e" "collection_id e = Some cid" "cid \<noteq> []"
  shows "\<not> entryCurrentlyUsableBy s' uid eid \<and> \<not> snd (entryAccessFor s' uid False eid) \<and>
    (\<not> instanceAdminByRecord s' uid \<longrightarrow> \<not> mayConfigureDelivery s' uid eid) \<and>
    (fst (entryAccessFor s' uid False eid) \<longrightarrow> user_id e = uid)"
proof -
  have "distinct (map fst (members s))" using assms(1) by (simp add: wf_store_def)
  then have "wf_store (snd (RemoveMember d cid uid r w s))"
    using effect_wf [OF assms(1) RemoveMember_effect] by blast
  then have none: "accepted_role s' cid uid = None"
    using consent.run_stable RemoveMember_204 assms(2-4) by simp
  show ?thesis
  proof (cases "GetVaultEntryAccess s' eid")
    case (Row info)
    then have [simp]: "info = e" using assms(5) by (simp add: GetVaultEntryAccess_def row_simps)
    note g = grantFor_non_member [OF Row _ assms(7) none]
    show ?thesis
      using g assms(6)
      by (auto simp: entryCurrentlyUsableBy_def entryAccessFor_def mayConfigureDelivery_def mayDirectSecretEgress_def Let_def
          split: if_splits)
  qed (simp_all add: entryCurrentlyUsableBy_def entryAccessFor_def grantFor_def no_grant_def mayConfigureDelivery_def
      mayDirectSecretEgress_def)
qed

definition sample_deps :: deps where
  "sample_deps = \<lparr>email_lib = ascii_lib, open_targets = (\<lambda>_. []), seal_targets = (\<lambda>_. None), now = 50\<rparr>"

definition as_user :: "string \<Rightarrow> request" where
  "as_user uid = sample_request\<lparr>user_id_value := Some uid, user_role_value := Some ''user''\<rparr>"

lemma team_store_wf: "wf_store team_store" "manages team_store ''c1'' ''mgr''"
  by (simp_all add: wf_store_def team_store_def manages_def accepted_role_def collRoleManager_def)

theorem collection_keeps_manager_witness:
  "\<exists>u. manages (fold serve_request [Decline sample_deps ''c1'' (as_user ''mgr''), Remove sample_deps ''c1'' ''mgr'' (as_user ''mgr'')]
     team_store) ''c1'' u"
  by (rule collection_keeps_manager [OF team_store_wf])

lemma sample_removal:
  "status (fst (RemoveMember sample_deps ''c1'' ''alice'' (as_user ''mgr'') (\<lambda>_. []) team_store)) = 204"
  by code_simp

lemma sample_removal_entry:
  "map_of (entries (snd (RemoveMember sample_deps ''c1'' ''alice'' (as_user ''mgr'') (\<lambda>_. []) team_store))) ''e1'' =
     Some (blank_entry ''alice'' (Some ''c1''))"
  by code_simp

theorem removed_member_locked_out_witness:
  "\<not> entryCurrentlyUsableBy (snd (RemoveMember sample_deps ''c1'' ''alice'' (as_user ''mgr'') (\<lambda>_. []) team_store)) ''alice'' ''e1''"
  using removed_member_locked_out [OF team_store_wf(1) sample_removal, of "[]" _ "''e1''"] sample_removal_entry by simp

end
