(* ===== verification/Auth.thy ===== *)
theory Auth
  imports Web Store Encoding
begin

text \<open>
  Authentication: \<^verbatim>\<open>internal/middleware/auth.go\<close> and the second-factor gate of
  \<^verbatim>\<open>internal/middleware/totp_enrollment.go\<close>.

  SHA-256 and the JWT library are arguments.  The library is given the key function and the
  list of accepted algorithms that the code hands it, and answers with the parsed token, if
  any.  Instants are seconds; \<open>now\<close> is the clock of both the process and the database.
\<close>

record jwt_token =
  jwt_valid :: bool
  jwt_subject :: "string option"
  jwt_issued_at :: "int option"
  jwt_id :: "string option"

type_synonym jwt_lib = "(string \<Rightarrow> bytes option) \<Rightarrow> string list \<Rightarrow> string \<Rightarrow> jwt_token option"

definition SessionCookieName :: string where
  "SessionCookieName = ''trustissues_session''"

definition PrincipalSession :: string where "PrincipalSession = ''session''"
definition PrincipalAPIKey :: string where "PrincipalAPIKey = ''api_key''"

text \<open>The key is handed out to the HMAC family only, and only HS256 is accepted.\<close>

definition hmac_key :: "string \<Rightarrow> string \<Rightarrow> bytes option" where
  "hmac_key secret alg = (if alg \<in> set [''HS256'', ''HS384'', ''HS512''] then Some secret else None)"

definition ParseJWTWithIssuedAt :: "jwt_lib \<Rightarrow> string \<Rightarrow> string \<Rightarrow> (string \<times> int \<times> string) option" where
  "ParseJWTWithIssuedAt jwt tokenString secret =
     (case jwt (hmac_key secret) [''HS256''] tokenString of
        None \<Rightarrow> None
      | Some tok \<Rightarrow>
         if \<not> jwt_valid tok then None
         else case jwt_subject tok of
                None \<Rightarrow> None
              | Some sub \<Rightarrow>
                 if sub = [] then None
                 else Some (sub, (case jwt_issued_at tok of Some t \<Rightarrow> t | None \<Rightarrow> 0),
                            (case jwt_id tok of Some j \<Rightarrow> j | None \<Rightarrow> [])))"

definition ParseJWT :: "jwt_lib \<Rightarrow> string \<Rightarrow> string \<Rightarrow> string option" where
  "ParseJWT jwt tokenString secret = map_option fst (ParseJWTWithIssuedAt jwt tokenString secret)"

definition extractSessionToken :: "request \<Rightarrow> string" where
  "extractSessionToken r =
     (let auth = header_get (header r) ''Authorization''
      in if auth \<noteq> []
         then (case split_n CHR '' '' 2 auth of
                 [scheme, rest] \<Rightarrow> if equal_fold scheme ''Bearer'' then trim_space rest else []
               | _ \<Rightarrow> [])
         else (case map_of (cookies r) SessionCookieName of Some v \<Rightarrow> v | None \<Rightarrow> []))"

definition authRejectStatus :: "string \<Rightarrow> int" where
  "authRejectStatus reject =
     (if reject = ''account is disabled'' \<or> reject = ''user not found'' then 401
      else if reject = ''internal error'' then 500
      else 403)"

definition writeAuthReject :: "headers \<Rightarrow> int \<Rightarrow> string \<Rightarrow> response" where
  "writeAuthReject w code msg =
     \<lparr>status = code, rheaders = header_set ''Content-Type'' ''application/json'' w, rbody = APIError msg [] []\<rparr>"

text \<open>The role and the session cut-off of an enabled account, or the reason to reject.\<close>

definition enrichUserContext :: "store \<Rightarrow> string \<Rightarrow> string + string \<times> int" where
  "enrichUserContext s uid =
     (case fetch s ''enrichUserContext'' (map_of (users s) uid) of
        ErrNoRows \<Rightarrow> Inl ''user not found''
      | DBError \<Rightarrow> Inl ''internal error''
      | Row u \<Rightarrow> if disabled u \<noteq> 0 then Inl ''account is disabled'' else Inr (role u, sessions_valid_after u))"

definition sessionRevoked :: "int \<Rightarrow> int \<Rightarrow> bool" where
  "sessionRevoked iat sva \<longleftrightarrow> sva > 0 \<and> iat > 0 \<and> iat < sva"

definition DefaultSessionIdleMinutes :: int where
  "DefaultSessionIdleMinutes = 15"

definition sessionIdleMinutes :: "store \<Rightarrow> int" where
  "sessionIdleMinutes s =
     (case fetch s ''session_idle_minutes'' (map_of (settings s) ''session_idle_minutes'') of
        Row v \<Rightarrow> (case atoi v of Some n \<Rightarrow> if n > 0 then n else DefaultSessionIdleMinutes | None \<Rightarrow> DefaultSessionIdleMinutes)
      | _ \<Rightarrow> DefaultSessionIdleMinutes)"

text \<open>
  SQLite's \<open>datetime('now', '-n minutes')\<close>: NULL when the result is before the first instant it
  can represent, the start of the Julian day count.
\<close>

definition minutes_ago :: "int \<Rightarrow> int \<Rightarrow> int option" where
  "minutes_ago t n = (if t - 60 * n < - 210866760000 then None else Some (t - 60 * n))"

abbreviation session_expired :: string where
  "session_expired \<equiv> ''session expired, please log in again''"

text \<open>The rejection, if any, and the state with the activity recorded.\<close>

definition validateSession :: "int \<Rightarrow> store \<Rightarrow> string \<Rightarrow> string \<Rightarrow> (int \<times> string) option \<times> store" where
  "validateSession t s uid jti =
     (if jti = [] then (Some (401, session_expired), s)
      else case fetch s ''validateSession'' (map_of (sessions s) jti) of
             ErrNoRows \<Rightarrow> (Some (401, session_expired), s)
           | DBError \<Rightarrow> (Some (500, ''internal error''), s)
           | Row sess \<Rightarrow>
              (case minutes_ago t (sessionIdleMinutes s) of
                 None \<Rightarrow> (Some (500, ''internal error''), s)
               | Some idle_limit \<Rightarrow>
                  if session_revoked_at sess \<noteq> None \<or> session_user_id sess \<noteq> uid then (Some (401, session_expired), s)
                  else if last_used_at sess \<le> idle_limit
                  then (Some (401, ''session expired due to inactivity, please log in again''), s)
                  else if (case session_expires_at sess of Some e \<Rightarrow> e \<le> t | None \<Rightarrow> False)
                  then (Some (401, session_expired), s)
                  else (None, if fails s ''touch_session'' then s
                              else s\<lparr>sessions := sql_update jti (\<lambda>x. x\<lparr>last_used_at := t\<rparr>) (sessions s)\<rparr>)))"

text \<open>
  The decision of \<^verbatim>\<open>JWTOrAPIKeyAuth\<close>: the response that ends the request, or the request with the
  principal in its context.
\<close>

definition authenticate_key :: "(bytes \<Rightarrow> bytes) \<Rightarrow> int \<Rightarrow> string \<Rightarrow> request \<Rightarrow> headers \<Rightarrow> store \<Rightarrow> (response + request) \<times> store" where
  "authenticate_key sha256 t apiKey r w s =
     (let keyHash = hex_encode (sha256 apiKey)
      in case fetch s ''api_keys'' (map_of (api_keys s) keyHash) of
           Row k \<Rightarrow>
             if key_revoked_at k \<noteq> None then (Inl (http_Error w ''{\"error\":\"API key has been revoked\"}'' 401), s)
             else if (case key_expires_at k of Some e \<Rightarrow> e \<le> t | None \<Rightarrow> False)
             then (Inl (http_Error w ''{\"error\":\"API key has expired\"}'' 401), s)
             else (let s' = (if fails s ''touch_api_key'' then s
                             else s\<lparr>api_keys := sql_update keyHash (\<lambda>x. x\<lparr>key_last_used_at := Some t\<rparr>) (api_keys s)\<rparr>)
                   in case enrichUserContext s' (key_user_id k) of
                        Inl reject \<Rightarrow> (Inl (writeAuthReject w (authRejectStatus reject) reject), s')
                      | Inr (rl, _) \<Rightarrow>
                         (Inr (r\<lparr>user_id_value := Some (key_user_id k), principal_kind_value := Some PrincipalAPIKey,
                                user_role_value := Some rl\<rparr>), s'))
         | _ \<Rightarrow> (Inl (http_Error w ''{\"error\":\"invalid API key\"}'' 401), s))"

definition authenticate_session :: "jwt_lib \<Rightarrow> string \<Rightarrow> int \<Rightarrow> request \<Rightarrow> headers \<Rightarrow> store \<Rightarrow> (response + request) \<times> store" where
  "authenticate_session jwt secret t r w s =
     (let tokenString = extractSessionToken r
      in if tokenString = [] then (Inl (http_Error w ''{\"error\":\"authorization header or X-API-Key required\"}'' 401), s)
         else case ParseJWTWithIssuedAt jwt tokenString secret of
                None \<Rightarrow> (Inl (http_Error w ''{\"error\":\"invalid or expired token\"}'' 401), s)
              | Some (uid, iat, jti) \<Rightarrow>
                 (case enrichUserContext s uid of
                    Inl reject \<Rightarrow> (Inl (writeAuthReject w (authRejectStatus reject) reject), s)
                  | Inr (rl, sva) \<Rightarrow>
                     if sessionRevoked iat sva then (Inl (writeAuthReject w 401 session_expired), s)
                     else case validateSession t s uid jti of
                            (Some (code, msg), s') \<Rightarrow> (Inl (writeAuthReject w code msg), s')
                          | (None, s') \<Rightarrow>
                             (Inr (r\<lparr>user_id_value := Some uid, user_role_value := Some rl, session_id_value := Some jti,
                                    principal_kind_value := Some PrincipalSession\<rparr>), s')))"

definition authenticate ::
  "jwt_lib \<Rightarrow> (bytes \<Rightarrow> bytes) \<Rightarrow> string \<Rightarrow> int \<Rightarrow> request \<Rightarrow> headers \<Rightarrow> store \<Rightarrow> (response + request) \<times> store" where
  "authenticate jwt sha256 secret t r w s =
     (let apiKey = header_get (header r) ''X-Api-Key''
      in if apiKey \<noteq> [] then authenticate_key sha256 t apiKey r w s
         else authenticate_session jwt secret t r w s)"

definition JWTOrAPIKeyAuth :: "jwt_lib \<Rightarrow> (bytes \<Rightarrow> bytes) \<Rightarrow> string \<Rightarrow> int \<Rightarrow> store middleware" where
  "JWTOrAPIKeyAuth jwt sha256 secret t next r w s =
     (case authenticate jwt sha256 secret t r w s of
        (Inl resp, s') \<Rightarrow> (resp, s')
      | (Inr r', s') \<Rightarrow> next r' w s')"

definition RequireTOTPEnrollment :: "store middleware" where
  "RequireTOTPEnrollment next r w s =
     (if GetUserID r = [] then (http_Error w ''{\"error\":\"authentication required\"}'' 401, s)
      else if fails s ''totp_enrollment'' then (http_Error w ''{\"error\":\"internal server error\"}'' 500, s)
      else (let policyOn = (map_of (settings s) ''require_totp'' = Some ''true'');
                enrolled = (case map_of (users s) (GetUserID r) of Some u \<Rightarrow> totp_enabled u = 1 | None \<Rightarrow> False)
            in if policyOn \<and> \<not> enrolled
               then (http_Error w (''{\"error\":\"two-factor authentication is required by the vault policy; enrol an authenticator to continue\",\"code\":\"'' @
                       ''totp_enrollment_required'' @ ''\"}'') 403, s)
               else next r w s))"

section \<open>Who gets in\<close>

definition key_alive :: "int \<Rightarrow> api_key_row \<Rightarrow> bool" where
  "key_alive t k \<longleftrightarrow> key_revoked_at k = None \<and> (\<forall>e. key_expires_at k = Some e \<longrightarrow> t < e)"

definition session_alive :: "int \<Rightarrow> store \<Rightarrow> session_row \<Rightarrow> bool" where
  "session_alive t s sess \<longleftrightarrow> session_revoked_at sess = None \<and> (\<forall>e. session_expires_at sess = Some e \<longrightarrow> t < e) \<and>
     t - 60 * sessionIdleMinutes s < last_used_at sess"

lemma validateSession_None:
  assumes "validateSession t s uid jti = (None, s')"
  shows "\<exists>sess. map_of (sessions s) jti = Some sess \<and> session_user_id sess = uid \<and> session_alive t s sess \<and>
    (s' = s \<or> s' = s\<lparr>sessions := sql_update jti (\<lambda>x. x\<lparr>last_used_at := t\<rparr>) (sessions s)\<rparr>)"
  using assms
  by (auto simp: validateSession_def session_alive_def minutes_ago_def row_simps split: fetched.splits option.splits if_splits)

lemma validateSession_Some: "validateSession t s uid jti = (Some x, s') \<Longrightarrow> s' = s"
  by (auto simp: validateSession_def split: fetched.splits option.splits if_splits)

lemma enrich_Inr:
  "enrichUserContext s uid = Inr (rl, sva) \<Longrightarrow>
   \<exists>u. map_of (users s) uid = Some u \<and> disabled u = 0 \<and> role u = rl \<and> sessions_valid_after u = sva"
  by (auto simp: enrichUserContext_def row_simps split: fetched.splits if_splits)

lemma authenticate_key_Inr:
  assumes "authenticate_key sha256 t apiKey r w s = (Inr r', s')"
  shows "\<exists>k u. map_of (api_keys s) (hex_encode (sha256 apiKey)) = Some k \<and> key_alive t k \<and>
    map_of (users s) (key_user_id k) = Some u \<and> disabled u = 0 \<and>
    r' = r\<lparr>user_id_value := Some (key_user_id k), principal_kind_value := Some PrincipalAPIKey, user_role_value := Some (role u)\<rparr> \<and>
    sessions s' = sessions s \<and> settings s' = settings s \<and> fails s' = fails s"
  using assms
  by (auto simp: authenticate_key_def key_alive_def row_simps Let_def dest!: enrich_Inr
      split: fetched.splits option.splits sum.splits if_splits)

lemma authenticate_session_Inr:
  assumes "authenticate_session jwt secret t r w s = (Inr r', s')"
  shows "\<exists>uid iat jti u sess. ParseJWTWithIssuedAt jwt (extractSessionToken r) secret = Some (uid, iat, jti) \<and>
    map_of (users s) uid = Some u \<and> disabled u = 0 \<and> \<not> sessionRevoked iat (sessions_valid_after u) \<and>
    map_of (sessions s) jti = Some sess \<and> session_user_id sess = uid \<and> session_alive t s sess \<and>
    r' = r\<lparr>user_id_value := Some uid, user_role_value := Some (role u), session_id_value := Some jti,
           principal_kind_value := Some PrincipalSession\<rparr> \<and>
    (s' = s \<or> s' = s\<lparr>sessions := sql_update jti (\<lambda>x. x\<lparr>last_used_at := t\<rparr>) (sessions s)\<rparr>)"
proof -
  obtain uid iat jti where p: "ParseJWTWithIssuedAt jwt (extractSessionToken r) secret = Some (uid, iat, jti)"
    using assms by (auto simp: authenticate_session_def Let_def split: if_splits option.splits)
  then obtain rl sva where e: "enrichUserContext s uid = Inr (rl, sva)" "\<not> sessionRevoked iat sva"
    using assms by (auto simp: authenticate_session_def Let_def split: if_splits sum.splits)
  with p assms have v: "validateSession t s uid jti = (None, s')"
      "r' = r\<lparr>user_id_value := Some uid, user_role_value := Some rl, session_id_value := Some jti,
           principal_kind_value := Some PrincipalSession\<rparr>"
    by (auto simp: authenticate_session_def Let_def split: if_splits prod.splits option.splits)
  show ?thesis using p e v(2) enrich_Inr [OF e(1)] validateSession_None [OF v(1)] by auto
qed

lemma authenticate_Inl_frame:
  assumes "authenticate jwt sha256 secret t r w s = (Inl resp, s')"
  shows "sessions s' = sessions s \<and> settings s' = settings s \<and> fails s' = fails s"
  using assms
  by (auto simp: authenticate_def authenticate_key_def authenticate_session_def Let_def dest: validateSession_Some
      split: fetched.splits option.splits sum.splits prod.splits if_splits)

text \<open>
  C13. Only a live credential of an enabled account gets in: a request that authentication
  lets through carries the id and the current role of an existing, enabled user, and rests
  either on an API key of that user that is neither revoked nor expired, or on a token signed
  for that user whose session exists, belongs to the user, is not revoked, idle or past its
  deadline, and was not cut off by a later sign-out everywhere.
\<close>

theorem authenticate_sound:
  assumes "authenticate jwt sha256 secret t r w s = (Inr r', s')"
  shows "\<exists>u. map_of (users s) (GetUserID r') = Some u \<and> disabled u = 0 \<and> GetUserRole r' = role u \<and>
    ((PrincipalKind r' = PrincipalAPIKey \<and>
      (\<exists>k. map_of (api_keys s) (hex_encode (sha256 (header_get (header r) ''X-Api-Key''))) = Some k \<and>
           key_user_id k = GetUserID r' \<and> key_alive t k)) \<or>
     (PrincipalKind r' = PrincipalSession \<and>
      (\<exists>iat sess. ParseJWTWithIssuedAt jwt (extractSessionToken r) secret = Some (GetUserID r', iat, GetSessionID r') \<and>
           map_of (sessions s) (GetSessionID r') = Some sess \<and> session_user_id sess = GetUserID r' \<and>
           session_alive t s sess \<and> \<not> sessionRevoked iat (sessions_valid_after u))))"
proof (cases "header_get (header r) ''X-Api-Key'' = []")
  case True
  with assms have "authenticate_session jwt secret t r w s = (Inr r', s')" by (simp add: authenticate_def)
  from authenticate_session_Inr [OF this] show ?thesis
    by (auto simp: GetUserID_def GetUserRole_def GetSessionID_def PrincipalKind_def context_string_def)
next
  case False
  with assms have "authenticate_key sha256 t (header_get (header r) ''X-Api-Key'') r w s = (Inr r', s')"
    by (simp add: authenticate_def)
  from authenticate_key_Inr [OF this] show ?thesis
    by (auto simp: GetUserID_def GetUserRole_def PrincipalKind_def context_string_def)
qed

section \<open>A dead session stays dead\<close>

definition session_dead :: "string \<Rightarrow> int \<Rightarrow> store \<Rightarrow> bool" where
  "session_dead jti T s \<longleftrightarrow> (\<forall>sess. map_of (sessions s) jti = Some sess \<longrightarrow> \<not> session_alive T s sess)"

lemma session_alive_mono: "session_alive t s sess \<Longrightarrow> T \<le> t \<Longrightarrow> session_alive T s sess"
  by (fastforce simp: session_alive_def)

lemma sessionIdleMinutes_cong: "settings s = settings s' \<Longrightarrow> fails s = fails s' \<Longrightarrow> sessionIdleMinutes s = sessionIdleMinutes s'"
  by (simp add: sessionIdleMinutes_def fetch_def)

lemma session_request_alive:
  assumes "authenticate jwt sha256 secret t r w s = (Inr r', s')" "PrincipalKind r' = PrincipalSession"
  shows "\<exists>sess. map_of (sessions s) (GetSessionID r') = Some sess \<and> session_alive t s sess"
proof (cases "header_get (header r) ''X-Api-Key'' = []")
  case True
  with assms have "authenticate_session jwt secret t r w s = (Inr r', s')" by (simp add: authenticate_def)
  from authenticate_session_Inr [OF this] show ?thesis by (auto simp: GetSessionID_def context_string_def)
next
  case False
  with assms have "authenticate_key sha256 t (header_get (header r) ''X-Api-Key'') r w s = (Inr r', s')"
    by (simp add: authenticate_def)
  from authenticate_key_Inr [OF this] assms(2) show ?thesis
    by (auto simp: PrincipalKind_def context_string_def PrincipalSession_def PrincipalAPIKey_def)
qed

text \<open>Serving one request at a time: the clock, the request, and the state afterwards.\<close>

definition serve_auth :: "jwt_lib \<Rightarrow> (bytes \<Rightarrow> bytes) \<Rightarrow> string \<Rightarrow> int \<times> request \<Rightarrow> store \<Rightarrow> store" where
  "serve_auth jwt sha256 secret e s = snd (authenticate jwt sha256 secret (fst e) (snd e) (\<lambda>_. []) s)"

lemma dead_cong:
  assumes "session_dead jti T s" "map_of (sessions s') jti = map_of (sessions s) jti" "settings s' = settings s" "fails s' = fails s"
  shows "session_dead jti T s'"
  using assms sessionIdleMinutes_cong [of s' s] by (simp add: session_dead_def session_alive_def)

interpretation auth: stable_steps "serve_auth jwt sha256 secret" "\<lambda>_. True" "session_dead jti T" "\<lambda>e. T \<le> fst e"
  for jwt sha256 secret jti T
proof unfold_locales
  fix s :: store and e :: "int \<times> request"
  assume dead: "session_dead jti T s" and late: "T \<le> fst e"
  let ?A = "authenticate jwt sha256 secret (fst e) (snd e) (\<lambda>_. []) s"
  have serve: "serve_auth jwt sha256 secret e s = snd ?A" by (simp add: serve_auth_def)
  show "session_dead jti T (serve_auth jwt sha256 secret e s)"
  proof (cases ?A)
    case (Pair res s')
    show ?thesis
    proof (cases res)
      case (Inl resp)
      with Pair authenticate_Inl_frame show ?thesis using dead_cong [OF dead, of s'] serve by fastforce
    next
      case (Inr r')
      show ?thesis
      proof (cases "header_get (header (snd e)) ''X-Api-Key'' = []")
        case True
        with Pair Inr have "authenticate_session jwt secret (fst e) (snd e) (\<lambda>_. []) s = (Inr r', s')"
          by (simp add: authenticate_def)
        from authenticate_session_Inr [OF this] obtain j sess where
          j: "map_of (sessions s) j = Some sess" "session_alive (fst e) s sess"
            "s' = s \<or> s' = s\<lparr>sessions := sql_update j (\<lambda>x. x\<lparr>last_used_at := fst e\<rparr>) (sessions s)\<rparr>" by blast
        then have "j \<noteq> jti" using dead session_alive_mono [OF _ late] by (auto simp: session_dead_def)
        with j(3) show ?thesis using dead_cong [OF dead, of s'] Pair serve by auto
      next
        case False
        with Pair Inr have "authenticate_key sha256 (fst e) (header_get (header (snd e)) ''X-Api-Key'') (snd e) (\<lambda>_. []) s = (Inr r', s')"
          by (simp add: authenticate_def)
        from authenticate_key_Inr [OF this] show ?thesis using dead_cong [OF dead, of s'] Pair serve by auto
      qed
    qed
  qed
qed simp

text \<open>
  A dead session stays dead: once a session is revoked, past its deadline, idle for the
  whole window or gone at some instant, then after any sequence of authentication attempts
  from then on, with any credentials, no request gets in under that session.
\<close>

theorem dead_session_stays_dead:
  assumes "session_dead jti T s" "\<forall>e \<in> set es. T \<le> fst e" "T \<le> t"
    and "authenticate jwt sha256 secret t r w (fold (serve_auth jwt sha256 secret) es s) = (Inr r', s')"
    and "PrincipalKind r' = PrincipalSession"
  shows "GetSessionID r' \<noteq> jti"
proof
  let ?s = "fold (serve_auth jwt sha256 secret) es s"
  assume "GetSessionID r' = jti"
  then obtain sess where "map_of (sessions ?s) jti = Some sess" "session_alive t ?s sess"
    using session_request_alive [OF assms(4,5)] by auto
  moreover have "session_dead jti T ?s" using auth.run_stable [of jti T s] assms(1,2) by simp
  ultimately show False using session_alive_mono assms(3) by (auto simp: session_dead_def)
qed

definition sample_jwt :: jwt_lib where
  "sample_jwt key algs tok =
     (if tok = ''good'' then Some \<lparr>jwt_valid = True, jwt_subject = Some ''alice'', jwt_issued_at = Some 900, jwt_id = Some ''s1''\<rparr>
      else None)"

definition login_store :: store where
  "login_store = empty_store\<lparr>
     users := [(''alice'', \<lparr>email = ''a@x.io'', role = ''user'', disabled = 0, sessions_valid_after = 0, totp_enabled = 0\<rparr>)],
     sessions := [(''s1'', \<lparr>session_user_id = ''alice'', session_revoked_at = None, last_used_at = 1000, session_expires_at = Some 9000\<rparr>)]\<rparr>"

definition bearer :: request where
  "bearer = sample_request\<lparr>header := (\<lambda>_. [])(''Authorization'' := [''Bearer good''])\<rparr>"

lemma sample_login:
  "authenticate sample_jwt id ''k'' 1200 bearer (\<lambda>_. []) login_store =
     (Inr (bearer\<lparr>user_id_value := Some ''alice'', user_role_value := Some ''user'', session_id_value := Some ''s1'',
            principal_kind_value := Some PrincipalSession\<rparr>),
      login_store\<lparr>sessions := [(''s1'', \<lparr>session_user_id = ''alice'', session_revoked_at = None, last_used_at = 1200,
        session_expires_at = Some 9000\<rparr>)]\<rparr>)"
  by (simp add: authenticate_def authenticate_session_def extractSessionToken_def bearer_def header_get_def
      sample_request_def sample_jwt_def ParseJWTWithIssuedAt_def enrichUserContext_def fetch_def login_store_def
      empty_store_def sessionRevoked_def validateSession_def minutes_ago_def sessionIdleMinutes_def
      DefaultSessionIdleMinutes_def sql_update_def equal_fold_def to_lower_def lower_char_def trim_space_def
      trim_left_def trim_right_def is_space_def numeral_2_eq_2)

theorem authenticate_sound_witness:
  "\<exists>u. map_of (users login_store) ''alice'' = Some u \<and> disabled u = 0 \<and>
     (\<exists>iat sess. ParseJWTWithIssuedAt sample_jwt (extractSessionToken bearer) ''k'' = Some (''alice'', iat, ''s1'') \<and>
        map_of (sessions login_store) ''s1'' = Some sess \<and> session_alive 1200 login_store sess)"
  using authenticate_sound [OF sample_login]
  by (auto simp: GetUserID_def GetSessionID_def PrincipalKind_def context_string_def PrincipalSession_def PrincipalAPIKey_def)

definition other_sessions :: store where
  "other_sessions = login_store\<lparr>sessions := (''s0'', \<lparr>session_user_id = ''alice'', session_revoked_at = Some 10, last_used_at = 1000,
     session_expires_at = Some 9000\<rparr>) # sessions login_store\<rparr>"

lemma other_login:
  "\<exists>s'. authenticate sample_jwt id ''k'' 1200 bearer (\<lambda>_. []) other_sessions =
     (Inr (bearer\<lparr>user_id_value := Some ''alice'', user_role_value := Some ''user'', session_id_value := Some ''s1'',
            principal_kind_value := Some PrincipalSession\<rparr>), s')"
  by (simp add: authenticate_def authenticate_session_def extractSessionToken_def bearer_def header_get_def
      sample_request_def sample_jwt_def ParseJWTWithIssuedAt_def enrichUserContext_def fetch_def login_store_def
      empty_store_def sessionRevoked_def validateSession_def minutes_ago_def sessionIdleMinutes_def other_sessions_def
      DefaultSessionIdleMinutes_def sql_update_def equal_fold_def to_lower_def lower_char_def trim_space_def
      trim_left_def trim_right_def is_space_def numeral_2_eq_2)

theorem dead_session_stays_dead_witness:
  "session_dead ''s0'' 1100 other_sessions \<and> ''s1'' \<noteq> ''s0''"
proof -
  have d: "session_dead ''s0'' 1100 other_sessions"
    by (simp add: session_dead_def session_alive_def other_sessions_def)
  obtain s' where "authenticate sample_jwt id ''k'' 1200 bearer (\<lambda>_. []) (fold (serve_auth sample_jwt id ''k'') [] other_sessions) =
     (Inr (bearer\<lparr>user_id_value := Some ''alice'', user_role_value := Some ''user'', session_id_value := Some ''s1'',
            principal_kind_value := Some PrincipalSession\<rparr>), s')"
    using other_login by auto
  from dead_session_stays_dead [OF d _ _ this] d show ?thesis
    by (simp add: GetSessionID_def PrincipalKind_def context_string_def)
qed

end
