(* ===== verification/Vault_Crypto.thy ===== *)
theory Vault_Crypto
  imports Encoding "HOL-Library.Word" "HOL-Library.List_Lexorder" "HOL-Library.Char_ord"
begin

unbundle bit_operations_syntax

text \<open>
  Encryption at rest: \<^verbatim>\<open>internal/vaultfield/vaultfield.go\<close>, \<^verbatim>\<open>internal/columncrypto/columncrypto.go\<close>
  and the column and entry doors of \<^verbatim>\<open>vault_column_crypto.go\<close> and \<^verbatim>\<open>vault.go\<close>.

  AES-256 is an argument \<open>E\<close>, the block function of a key; Galois counter mode on top of it is
  defined here as \<^verbatim>\<open>crypto/cipher\<close> computes it for twelve-byte nonces.  The source of randomness
  is the byte string that is left to read.  A key is a \<^verbatim>\<open>[32]byte\<close>, so building the cipher
  cannot fail.
\<close>

section \<open>What an authenticated cipher promises\<close>

locale aead =
  fixes seal :: "bytes \<Rightarrow> bytes \<Rightarrow> bytes \<Rightarrow> bytes"
    and unseal :: "bytes \<Rightarrow> bytes \<Rightarrow> bytes \<Rightarrow> bytes option"
    and overhead :: nat
  assumes unseal_seal: "unseal k n (seal k n p) = Some p"
    and seal_length: "length (seal k n p) = length p + overhead"
begin

lemma seal_inject: "seal k n p = seal k n q \<longleftrightarrow> p = q"
  by (metis option.inject unseal_seal)

lemma seal_nonempty: "0 < overhead \<Longrightarrow> seal k n p \<noteq> []"
  using seal_length [of k n p] by auto

lemma unseal_packed: "length n = m \<Longrightarrow> unseal k (take m (n @ seal k n p)) (drop m (n @ seal k n p)) = Some p"
  by (simp add: unseal_seal)

end

section \<open>Galois counter mode\<close>

type_synonym block_cipher = "bytes \<Rightarrow> 128 word \<Rightarrow> 128 word"

definition xor_byte :: "char \<Rightarrow> char \<Rightarrow> char" where
  "xor_byte a b = char_of ((of_char a :: nat) XOR of_char b)"

definition word_of_bytes :: "bytes \<Rightarrow> 128 word" where
  "word_of_bytes bs = fold (\<lambda>b w. push_bit 8 w OR of_nat (of_char b)) bs 0"

definition bytes_of_word :: "128 word \<Rightarrow> bytes" where
  "bytes_of_word w = map (\<lambda>i. char_of (unat (drop_bit (120 - 8 * i) w) mod 256)) [0..<16]"

fun gf_mult_loop :: "nat \<Rightarrow> 128 word \<Rightarrow> 128 word \<Rightarrow> 128 word \<Rightarrow> 128 word" where
  "gf_mult_loop 0 x v z = z"
| "gf_mult_loop (Suc i) x v z =
     gf_mult_loop i x
       (if bit v 0 then drop_bit 1 v XOR push_bit 120 0xE1 else drop_bit 1 v)
       (if bit x i then z XOR v else z)"

definition gf_mult :: "128 word \<Rightarrow> 128 word \<Rightarrow> 128 word" where
  "gf_mult x y = gf_mult_loop 128 x y 0"

fun blocks :: "nat \<Rightarrow> bytes \<Rightarrow> bytes list" where
  "blocks 0 bs = []"
| "blocks (Suc n) bs = (if bs = [] then [] else take 16 (bs @ replicate 16 (CHR 0x00)) # blocks n (drop 16 bs))"

definition ghash :: "128 word \<Rightarrow> bytes \<Rightarrow> 128 word" where
  "ghash h c =
     gf_mult (fold (\<lambda>b y. gf_mult (y XOR word_of_bytes b) h) (blocks (length c) c) 0 XOR of_nat (8 * length c)) h"

definition first_counter :: "bytes \<Rightarrow> 128 word" where
  "first_counter nonce = push_bit 32 (word_of_bytes nonce) OR 1"

text \<open>The counter is the low 32 bits and wraps there.\<close>

definition counter_block :: "128 word \<Rightarrow> nat \<Rightarrow> 128 word" where
  "counter_block j0 i = (j0 AND NOT 0xFFFFFFFF) OR ((j0 + of_nat i) AND 0xFFFFFFFF)"

definition keystream :: "block_cipher \<Rightarrow> bytes \<Rightarrow> 128 word \<Rightarrow> nat \<Rightarrow> bytes" where
  "keystream E k j0 n = take n (concat (map (\<lambda>i. bytes_of_word (E k (counter_block j0 (Suc i)))) [0..<n]))"

definition ctr :: "block_cipher \<Rightarrow> bytes \<Rightarrow> 128 word \<Rightarrow> bytes \<Rightarrow> bytes" where
  "ctr E k j0 p = map2 xor_byte p (keystream E k j0 (length p))"

definition gcm_tag :: "block_cipher \<Rightarrow> bytes \<Rightarrow> 128 word \<Rightarrow> bytes \<Rightarrow> bytes" where
  "gcm_tag E k j0 c = bytes_of_word (ghash (E k 0) c XOR E k j0)"

definition gcm_seal :: "block_cipher \<Rightarrow> bytes \<Rightarrow> bytes \<Rightarrow> bytes \<Rightarrow> bytes" where
  "gcm_seal E k nonce p = (let j0 = first_counter nonce; c = ctr E k j0 p in c @ gcm_tag E k j0 c)"

definition gcm_open :: "block_cipher \<Rightarrow> bytes \<Rightarrow> bytes \<Rightarrow> bytes \<Rightarrow> bytes option" where
  "gcm_open E k nonce ct =
     (if length ct < 16 then None
      else (let j0 = first_counter nonce; c = take (length ct - 16) ct
            in if drop (length ct - 16) ct = gcm_tag E k j0 c then Some (ctr E k j0 c) else None))"

lemma of_char_less: "(of_char c :: nat) < 256"
  by (cases c) simp

lemma xor_byte_invol: "xor_byte (xor_byte a b) b = a"
proof -
  let ?x = "(of_char a :: nat) XOR of_char b"
  have "take_bit 8 (of_char c :: nat) = of_char c" for c
    using of_char_less [of c] by (simp add: take_bit_nat_eq_self_iff)
  then have "take_bit 8 ?x = ?x" by (simp only: take_bit_xor)
  then have "(of_char (char_of ?x :: char) :: nat) = ?x"
    by (simp add: take_bit_eq_mod)
  then show ?thesis by (simp add: xor_byte_def xor.assoc)
qed

lemma length_bytes_of_word [simp]: "length (bytes_of_word w) = 16"
  by (simp add: bytes_of_word_def)

lemma length_keystream [simp]: "length (keystream E k j0 n) = n"
proof -
  have "length (concat (map (\<lambda>i. bytes_of_word (E k (counter_block j0 (Suc i)))) [0..<n])) = 16 * n"
    by (simp add: length_concat comp_def sum_list_triv)
  then show ?thesis by (simp add: keystream_def)
qed

lemma length_ctr [simp]: "length (ctr E k j0 p) = length p"
  by (simp add: ctr_def)

lemma map2_xor_invol: "length p = length q \<Longrightarrow> map2 xor_byte (map2 xor_byte p q) q = p"
  by (induction p q rule: list_induct2) (simp_all add: xor_byte_invol)

lemma ctr_invol: "ctr E k j0 (ctr E k j0 p) = p"
  using map2_xor_invol [of p "keystream E k j0 (length p)"] by (simp add: ctr_def)

interpretation gcm: aead "gcm_seal E" "gcm_open E" 16 for E
  by unfold_locales (simp_all add: gcm_seal_def gcm_open_def gcm_tag_def Let_def ctr_invol)

section \<open>The field ledger\<close>

datatype field_class = Unclassified | ThroughTheExit | InProcessOnly | NotACredential | InstanceOwned

fun Class_String :: "field_class \<Rightarrow> string" where
  "Class_String ThroughTheExit = ''through-the-exit''"
| "Class_String InProcessOnly = ''in-process-only''"
| "Class_String NotACredential = ''not-a-credential''"
| "Class_String InstanceOwned = ''instance-owned''"
| "Class_String Unclassified = ''UNCLASSIFIED''"

record field_decl =
  fd_name :: string
  fd_class :: field_class
  fd_exitKey :: string
  fd_why :: string
  fd_declaredAt :: string

text \<open>The zero Field is \<open>None\<close>.\<close>

type_synonym field = "field_decl option"

definition IsZero :: "field \<Rightarrow> bool" where
  "IsZero f \<longleftrightarrow> f = None"

definition Field_Name :: "field \<Rightarrow> string" where
  "Field_Name f = (case f of None \<Rightarrow> [] | Some d \<Rightarrow> fd_name d)"

definition Field_Class :: "field \<Rightarrow> field_class" where
  "Field_Class f = (case f of None \<Rightarrow> Unclassified | Some d \<Rightarrow> fd_class d)"

definition Field_ExitKey :: "field \<Rightarrow> string" where
  "Field_ExitKey f = (case f of None \<Rightarrow> [] | Some d \<Rightarrow> fd_exitKey d)"

definition Field_Why :: "field \<Rightarrow> string" where
  "Field_Why f = (case f of None \<Rightarrow> [] | Some d \<Rightarrow> fd_why d)"

definition minReasonLength :: nat where
  "minReasonLength = 60"

text \<open>\<open>None\<close> is a panic, which ends the process.\<close>

definition Declare ::
  "string \<Rightarrow> (string \<times> field_decl) list \<Rightarrow> string \<Rightarrow> field_class \<Rightarrow> string \<Rightarrow> string \<Rightarrow> (field \<times> (string \<times> field_decl) list) option" where
  "Declare site ledger name0 cls exitKey why =
     (let name = trim_space name0
      in if name = [] then None
         else if cls = Unclassified then None
         else if length (trim_space why) < minReasonLength then None
         else if cls = ThroughTheExit \<and> trim_space exitKey = [] then None
         else if cls \<noteq> ThroughTheExit \<and> trim_space exitKey \<noteq> [] then None
         else if map_of ledger name \<noteq> None then None
         else (let d = \<lparr>fd_name = name, fd_class = cls, fd_exitKey = exitKey, fd_why = why, fd_declaredAt = site\<rparr>
               in Some (Some d, (name, d) # ledger)))"

definition Ledger :: "(string \<times> field_decl) list \<Rightarrow> field_decl list" where
  "Ledger ledger = map snd (sort_key fst ledger)"

definition Lookup :: "(string \<times> field_decl) list \<Rightarrow> string \<Rightarrow> field_decl option" where
  "Lookup ledger name = map_of ledger name"

section \<open>Sealing and opening\<close>

datatype open_error = ErrUndeclared | BadEncoding | TooShort | BadNonce | AuthFailed | Undecryptable

definition ColumnPrefix :: string where
  "ColumnPrefix = ''enc:v1:''"

definition IsSealedColumn :: "string \<Rightarrow> bool" where
  "IsSealedColumn s = has_prefix s ColumnPrefix"

definition NonceSize :: nat where
  "NonceSize = 12"

definition open_result :: "bytes option \<Rightarrow> open_error + bytes" where
  "open_result x = (case x of None \<Rightarrow> Inl AuthFailed | Some p \<Rightarrow> Inr p)"

definition openPacked :: "block_cipher \<Rightarrow> bytes \<Rightarrow> bytes \<Rightarrow> open_error + bytes" where
  "openPacked E key packed =
     (if length packed < NonceSize then Inl TooShort
      else open_result (gcm_open E key (take NonceSize packed) (drop NonceSize packed)))"

definition OpenPacked :: "block_cipher \<Rightarrow> bytes \<Rightarrow> bytes \<Rightarrow> field \<Rightarrow> open_error + bytes" where
  "OpenPacked E key packed f = (if IsZero f then Inl ErrUndeclared else openPacked E key packed)"

text \<open>The result is \<open>None\<close> when the source of randomness runs short.\<close>

definition SealPacked :: "block_cipher \<Rightarrow> bytes \<Rightarrow> bytes \<Rightarrow> bytes \<Rightarrow> bytes option" where
  "SealPacked E key plaintext rnd =
     (case read_full rnd NonceSize of
        None \<Rightarrow> None
      | Some nonce \<Rightarrow> Some (nonce @ gcm_seal E key nonce plaintext))"

definition Seal :: "block_cipher \<Rightarrow> bytes \<Rightarrow> bytes \<Rightarrow> bytes \<Rightarrow> (bytes \<times> bytes) option" where
  "Seal E key plaintext rnd =
     (case read_full rnd NonceSize of
        None \<Rightarrow> None
      | Some nonce \<Rightarrow> Some (gcm_seal E key nonce plaintext, nonce))"

definition Open :: "block_cipher \<Rightarrow> bytes \<Rightarrow> bytes \<Rightarrow> bytes \<Rightarrow> field \<Rightarrow> open_error + bytes" where
  "Open E key ciphertext nonce f =
     (if IsZero f then Inl ErrUndeclared
      else if length nonce \<noteq> NonceSize then Inl BadNonce
      else open_result (gcm_open E key nonce ciphertext))"

definition Opens :: "block_cipher \<Rightarrow> bytes \<Rightarrow> bytes \<Rightarrow> bytes \<Rightarrow> field \<Rightarrow> bool" where
  "Opens E key ciphertext nonce f = (case Open E key ciphertext nonce f of Inl _ \<Rightarrow> False | Inr _ \<Rightarrow> True)"

definition SealColumn :: "block_cipher \<Rightarrow> bytes \<Rightarrow> string \<Rightarrow> bytes \<Rightarrow> string option" where
  "SealColumn E key plaintext rnd =
     (if plaintext = [] then Some []
      else case read_full rnd NonceSize of
             None \<Rightarrow> None
           | Some nonce \<Rightarrow> Some (ColumnPrefix @ std64_encode (nonce @ gcm_seal E key nonce plaintext)))"

definition OpenColumn :: "block_cipher \<Rightarrow> bytes \<Rightarrow> string \<Rightarrow> field \<Rightarrow> open_error + string" where
  "OpenColumn E key stored f =
     (if IsZero f then Inl ErrUndeclared
      else if \<not> IsSealedColumn stored then Inr stored
      else case std64_decode (trim_prefix stored ColumnPrefix) of
             None \<Rightarrow> Inl BadEncoding
           | Some packed \<Rightarrow> openPacked E key packed)"

definition ColumnOpens :: "block_cipher \<Rightarrow> bytes \<Rightarrow> string \<Rightarrow> field \<Rightarrow> bool" where
  "ColumnOpens E key stored f =
     (if IsZero f \<or> \<not> IsSealedColumn stored then False
      else case std64_decode (trim_prefix stored ColumnPrefix) of
             None \<Rightarrow> False
           | Some packed \<Rightarrow> (case openPacked E key packed of Inl _ \<Rightarrow> False | Inr _ \<Rightarrow> True))"

section \<open>The vault's keys and its doors\<close>

record vaultKeyMaterial =
  key_source :: string
  key_value :: bytes
  key_legacy :: bytes
  key_bidx :: bytes

text \<open>The key derivations are arguments: PBKDF2 with the salt, and SHA-256.\<close>

definition deriveVaultKeyMaterial :: "(string \<Rightarrow> string \<Rightarrow> bytes) \<Rightarrow> (bytes \<Rightarrow> bytes) \<Rightarrow> string \<Rightarrow> vaultKeyMaterial" where
  "deriveVaultKeyMaterial pbkdf2 sha256 src =
     \<lparr>key_source = src, key_value = pbkdf2 src ''trustissues:vault:v2'',
      key_legacy = sha256 (src @ '':secrets-vault''), key_bidx = pbkdf2 src ''trustissues:vault:bidx:v1''\<rparr>"

record vault_keys =
  current :: vaultKeyMaterial
  previous :: "vaultKeyMaterial option"

definition encryptColumn :: "block_cipher \<Rightarrow> vault_keys \<Rightarrow> string \<Rightarrow> bytes \<Rightarrow> string option" where
  "encryptColumn E ks plaintext rnd = SealColumn E (key_value (current ks)) plaintext rnd"

text \<open>The plaintext, and whether the previous key opened it.\<close>

definition decryptColumnWithKeyAge :: "block_cipher \<Rightarrow> vault_keys \<Rightarrow> string \<Rightarrow> field \<Rightarrow> open_error + string \<times> bool" where
  "decryptColumnWithKeyAge E ks stored f =
     (case OpenColumn E (key_value (current ks)) stored f of
        Inr plain \<Rightarrow> Inr (plain, False)
      | Inl e \<Rightarrow>
         if e = ErrUndeclared then Inl e
         else case previous ks of
                None \<Rightarrow> Inl Undecryptable
              | Some prev \<Rightarrow>
                 (case OpenColumn E (key_value prev) stored f of
                    Inr out \<Rightarrow> Inr (out, True)
                  | Inl _ \<Rightarrow> Inl Undecryptable))"

definition decryptColumn :: "block_cipher \<Rightarrow> vault_keys \<Rightarrow> string \<Rightarrow> field \<Rightarrow> open_error + string" where
  "decryptColumn E ks stored f = map_sum id fst (decryptColumnWithKeyAge E ks stored f)"

definition decryptColumnOrLog :: "block_cipher \<Rightarrow> vault_keys \<Rightarrow> string \<Rightarrow> string \<Rightarrow> field \<Rightarrow> string" where
  "decryptColumnOrLog E ks stored fallback f = (case decryptColumn E ks stored f of Inl _ \<Rightarrow> fallback | Inr p \<Rightarrow> p)"

definition metaColumnNeedsEncrypt :: "string \<Rightarrow> bool" where
  "metaColumnNeedsEncrypt v = (if v \<in> set [[], ''{}'', ''[]''] then False else \<not> IsSealedColumn v)"

definition encryptColumnIfNeeded :: "block_cipher \<Rightarrow> vault_keys \<Rightarrow> string \<Rightarrow> bytes \<Rightarrow> string option" where
  "encryptColumnIfNeeded E ks stored rnd =
     (if \<not> metaColumnNeedsEncrypt stored then Some stored else encryptColumn E ks stored rnd)"

definition shortColumnName :: "field \<Rightarrow> string" where
  "shortColumnName f =
     (case last_index CHR ''.'' (Field_Name f) of Some i \<Rightarrow> drop (Suc i) (Field_Name f) | None \<Rightarrow> Field_Name f)"

definition anyMetaColumnUndecryptable :: "block_cipher \<Rightarrow> vault_keys \<Rightarrow> (field \<times> string) list \<Rightarrow> string option" where
  "anyMetaColumnUndecryptable E ks cols =
     map_option (\<lambda>(f, _). shortColumnName f)
       (find (\<lambda>(f, stored). stored \<noteq> [] \<and> (case decryptColumn E ks stored f of Inl _ \<Rightarrow> True | Inr _ \<Rightarrow> False)) cols)"

definition instanceConfigKeyring :: "vault_keys \<Rightarrow> int \<Rightarrow> bytes list" where
  "instanceConfigKeyring ks encVersion =
     (let pick = (if encVersion = 1 then key_legacy else key_value)
      in pick (current ks) # (case previous ks of None \<Rightarrow> [] | Some p \<Rightarrow> [pick p]))"

fun try_keys :: "block_cipher \<Rightarrow> bytes list \<Rightarrow> bytes \<Rightarrow> bytes \<Rightarrow> field \<Rightarrow> open_error option \<Rightarrow> open_error + bytes" where
  "try_keys E [] ct nonce f firstErr = Inl (case firstErr of Some e \<Rightarrow> e | None \<Rightarrow> AuthFailed)"
| "try_keys E (k # ks) ct nonce f firstErr =
     (case Open E k ct nonce f of
        Inr p \<Rightarrow> Inr p
      | Inl e \<Rightarrow> try_keys E ks ct nonce f (case firstErr of None \<Rightarrow> Some e | Some x \<Rightarrow> Some x))"

definition DecryptInstanceConfig :: "block_cipher \<Rightarrow> vault_keys \<Rightarrow> bytes \<Rightarrow> bytes \<Rightarrow> int \<Rightarrow> field \<Rightarrow> open_error + bytes" where
  "DecryptInstanceConfig E ks ct nonce encVersion f = try_keys E (instanceConfigKeyring ks encVersion) ct nonce f None"

section \<open>Column encryption keyed by a string\<close>

definition marker :: string where
  "marker = ''tienc:v1:''"

definition IsEncrypted :: "string \<Rightarrow> bool" where
  "IsEncrypted s = has_prefix s marker"

definition deriveCacheMax :: nat where
  "deriveCacheMax = 16"

text \<open>The derivation with its cache, keyed by the hash of the secret; the cache is bounded and never evicts.\<close>

definition deriveKey ::
  "(bytes \<Rightarrow> bytes) \<Rightarrow> (string \<Rightarrow> string \<Rightarrow> bytes) \<Rightarrow> (bytes \<times> bytes) list \<Rightarrow> string \<Rightarrow> bytes \<times> (bytes \<times> bytes) list" where
  "deriveKey sha256 pbkdf2 cache secret =
     (case map_of cache (sha256 secret) of
        Some k \<Rightarrow> (k, cache)
      | None \<Rightarrow>
         (let derived = pbkdf2 secret ''trustissues:column:v1''
          in (derived, if length cache < deriveCacheMax then (sha256 secret, derived) # cache else cache)))"

definition EncryptString :: "block_cipher \<Rightarrow> (string \<Rightarrow> bytes) \<Rightarrow> string \<Rightarrow> string \<Rightarrow> bytes \<Rightarrow> string option" where
  "EncryptString E derive plaintext key rnd =
     (case SealPacked E (derive key) plaintext rnd of
        None \<Rightarrow> None
      | Some packed \<Rightarrow> Some (marker @ std64_encode packed))"

definition DecryptString :: "block_cipher \<Rightarrow> (string \<Rightarrow> bytes) \<Rightarrow> string \<Rightarrow> string \<Rightarrow> field \<Rightarrow> open_error + string" where
  "DecryptString E derive encrypted key f =
     (case std64_decode (trim_prefix encrypted marker) of
        None \<Rightarrow> Inl BadEncoding
      | Some data \<Rightarrow> OpenPacked E (derive key) data f)"

fun DecryptStringAny ::
  "block_cipher \<Rightarrow> (string \<Rightarrow> bytes) \<Rightarrow> string \<Rightarrow> field \<Rightarrow> string list \<Rightarrow> open_error option \<Rightarrow> open_error + string" where
  "DecryptStringAny E derive encrypted f [] firstErr =
     Inl (case firstErr of Some e \<Rightarrow> e | None \<Rightarrow> Undecryptable)"
| "DecryptStringAny E derive encrypted f (k # ks) firstErr =
     (if k = [] then DecryptStringAny E derive encrypted f ks firstErr
      else case DecryptString E derive encrypted k f of
             Inr p \<Rightarrow> Inr p
           | Inl e \<Rightarrow> DecryptStringAny E derive encrypted f ks (case firstErr of None \<Rightarrow> Some e | Some x \<Rightarrow> Some x))"

section \<open>Round trips\<close>

lemma openPacked_seal: "length nonce = NonceSize \<Longrightarrow> openPacked E key (nonce @ gcm_seal E key nonce p) = Inr p"
  using gcm.unseal_packed [of nonce NonceSize E key p] by (simp add: openPacked_def open_result_def)

lemma OpenColumn_SealColumn:
  assumes "SealColumn E key p rnd = Some c" "f \<noteq> None"
  shows "OpenColumn E key c f = Inr p"
proof (cases "p = []")
  case True
  then show ?thesis using assms by (simp add: SealColumn_def OpenColumn_def IsZero_def IsSealedColumn_def ColumnPrefix_def has_prefix_def)
next
  case False
  with assms(1) obtain nonce where n: "read_full rnd NonceSize = Some nonce"
      "c = ColumnPrefix @ std64_encode (nonce @ gcm_seal E key nonce p)"
    by (auto simp: SealColumn_def split: option.splits)
  then show ?thesis
    using assms(2) read_full_length [OF n(1)]
    by (simp add: OpenColumn_def IsZero_def IsSealedColumn_def std64.dec_enc openPacked_seal)
qed

lemma SealColumn_sealed: "SealColumn E key p rnd = Some c \<Longrightarrow> p \<noteq> [] \<Longrightarrow> IsSealedColumn c"
  by (auto simp: SealColumn_def IsSealedColumn_def split: option.splits)

lemma Open_Seal: "Seal E key p rnd = Some (ct, nonce) \<Longrightarrow> f \<noteq> None \<Longrightarrow> Open E key ct nonce f = Inr p"
  by (auto simp: Seal_def Open_def IsZero_def open_result_def gcm.unseal_seal dest: read_full_length split: option.splits)

lemma DecryptString_EncryptString:
  "EncryptString E derive p key rnd = Some c \<Longrightarrow> f \<noteq> None \<Longrightarrow> DecryptString E derive c key f = Inr p"
  by (auto simp: EncryptString_def DecryptString_def SealPacked_def OpenPacked_def IsZero_def std64.dec_enc
      split: option.splits dest!: read_full_length intro!: openPacked_seal)

text \<open>
  Sealing is not a decryption oracle: whatever text is sealed into a column, also one
  that itself looks like a sealed column, a declared field opens it to exactly that text, the
  stored form of a non-empty text carries the marker, and sealing succeeds whenever twelve
  random bytes can be read; the same holds for entry values and for string-keyed columns.
\<close>

theorem seal_open_roundtrip:
  assumes "f \<noteq> None" "12 \<le> length rnd"
  shows "(\<exists>c. encryptColumn E ks p rnd = Some c \<and> decryptColumn E ks c f = Inr p \<and> (p \<noteq> [] \<longrightarrow> IsSealedColumn c)) \<and>
    (\<exists>ct nonce. Seal E key p rnd = Some (ct, nonce) \<and> Open E key ct nonce f = Inr p) \<and>
    (\<exists>c. EncryptString E derive p src rnd = Some c \<and> IsEncrypted c \<and> DecryptString E derive c src f = Inr p)"
proof -
  have rf: "read_full rnd NonceSize = Some (take 12 rnd)" using assms(2) by (simp add: read_full_def NonceSize_def)
  obtain c where c: "encryptColumn E ks p rnd = Some c" by (cases "p = []") (auto simp: encryptColumn_def SealColumn_def rf)
  then have "OpenColumn E (key_value (current ks)) c f = Inr p" "p \<noteq> [] \<longrightarrow> IsSealedColumn c"
    using OpenColumn_SealColumn assms(1) SealColumn_sealed by (auto simp: encryptColumn_def)
  then have 1: "decryptColumn E ks c f = Inr p \<and> (p \<noteq> [] \<longrightarrow> IsSealedColumn c)"
    by (simp add: decryptColumn_def decryptColumnWithKeyAge_def)
  obtain ct nonce where 2: "Seal E key p rnd = Some (ct, nonce)" by (simp add: Seal_def rf)
  obtain d where 3: "EncryptString E derive p src rnd = Some d" by (simp add: EncryptString_def SealPacked_def rf)
  moreover have "IsEncrypted d" using 3 by (auto simp: EncryptString_def IsEncrypted_def split: option.splits)
  ultimately show ?thesis
    using c 1 2 Open_Seal [OF 2 assms(1)] DecryptString_EncryptString [OF 3 assms(1)] by blast
qed

text \<open>
  C26. A key rotation loses nothing: with the old key kept as the previous one, a column
  sealed before the rotation opens to its text and is reported as being on the previous key,
  provided the new key does not happen to authenticate it; a column sealed after the rotation
  opens without it; and the backfill leaves what is already sealed alone, changes the stored
  form of other text only, and never what is read back.
\<close>

theorem rotation_keeps_columns_readable:
  assumes "f \<noteq> None" "ks' = \<lparr>current = new, previous = Some (current ks)\<rparr>"
    and "encryptColumn E ks p rnd = Some c" "p \<noteq> []"
    and "OpenColumn E (key_value new) c f = Inl e"
  shows "decryptColumnWithKeyAge E ks' c f = Inr (p, True) \<and>
    (encryptColumn E ks' q rnd' = Some c' \<longrightarrow> decryptColumnWithKeyAge E ks' c' f = Inr (q, False)) \<and>
    (encryptColumnIfNeeded E ks' v rnd' = Some c' \<longrightarrow>
       (if metaColumnNeedsEncrypt v then decryptColumn E ks' c' f = Inr v \<and> \<not> metaColumnNeedsEncrypt c' else c' = v))"
proof -
  have "OpenColumn E (key_value (current ks)) c f = Inr p"
    using OpenColumn_SealColumn assms(1,3) by (simp add: encryptColumn_def)
  moreover have "e \<noteq> ErrUndeclared"
    using assms(1,5) by (auto simp: OpenColumn_def IsZero_def openPacked_def open_result_def split: if_splits option.splits)
  ultimately have 1: "decryptColumnWithKeyAge E ks' c f = Inr (p, True)"
    using assms(2,5) by (simp add: decryptColumnWithKeyAge_def)
  have 2: "decryptColumnWithKeyAge E ks' c' f = Inr (q, False)" if "encryptColumn E ks' q rnd' = Some c'" for q
    using that OpenColumn_SealColumn assms(1) by (simp add: encryptColumn_def decryptColumnWithKeyAge_def)
  have 3: "\<not> metaColumnNeedsEncrypt c'" if "encryptColumn E ks' v rnd' = Some c'" "v \<noteq> []"
    using that SealColumn_sealed by (auto simp: encryptColumn_def metaColumnNeedsEncrypt_def)
  show ?thesis
    using 1 2 3 by (auto simp: encryptColumnIfNeeded_def decryptColumn_def metaColumnNeedsEncrypt_def)
qed

lemma undeclared_opens_nothing:
  "OpenColumn E key stored None = Inl ErrUndeclared \<and> Open E key ct nonce None = Inl ErrUndeclared \<and>
   OpenPacked E key packed None = Inl ErrUndeclared \<and> decryptColumn E ks stored None = Inl ErrUndeclared \<and>
   \<not> ColumnOpens E key stored None"
  by (simp add: OpenColumn_def Open_def OpenPacked_def decryptColumn_def decryptColumnWithKeyAge_def ColumnOpens_def IsZero_def)

lemma Declare_classified:
  "Declare site l n cls ek why = Some (f, l') \<Longrightarrow>
   \<exists>d. f = Some d \<and> fd_class d \<noteq> Unclassified \<and> (fd_class d = ThroughTheExit \<longleftrightarrow> trim_space (fd_exitKey d) \<noteq> []) \<and>
     Lookup l' (fd_name d) = Some d \<and> Lookup l (fd_name d) = None"
  by (auto simp: Declare_def Lookup_def Let_def split: if_splits)

text \<open>The cache changes the cost of a derivation and not its result, as far as the hash tells secrets apart.\<close>

lemma deriveKey_cached:
  assumes "\<forall>(h, k) \<in> set cache. \<exists>sec. h = sha256 sec \<and> k = pbkdf2 sec ''trustissues:column:v1''"
    and "\<And>a. sha256 a = sha256 secret \<Longrightarrow> a = secret"
  shows "fst (deriveKey sha256 pbkdf2 cache secret) = pbkdf2 secret ''trustissues:column:v1''"
proof (cases "map_of cache (sha256 secret)")
  case (Some k)
  then have "(sha256 secret, k) \<in> set cache" by (rule map_of_SomeD)
  with assms(1) obtain sec where sec: "sha256 secret = sha256 sec" "k = pbkdf2 sec ''trustissues:column:v1''" by blast
  have "sec = secret" by (rule assms(2)) (rule sec(1) [symmetric])
  with sec(2) Some show ?thesis by (simp add: deriveKey_def)
qed (simp add: deriveKey_def Let_def)

definition sample_field :: field where
  "sample_field = Some \<lparr>fd_name = ''vault_entries.notes'', fd_class = InProcessOnly, fd_exitKey = [], fd_why = ''notes'', fd_declaredAt = ''x.go:1''\<rparr>"

definition sample_key :: "char \<Rightarrow> vaultKeyMaterial" where
  "sample_key c = \<lparr>key_source = [c], key_value = replicate 32 c, key_legacy = [], key_bidx = []\<rparr>"

theorem seal_open_roundtrip_witness:
  "\<exists>c. encryptColumn (\<lambda>k w. w) \<lparr>current = sample_key CHR ''a'', previous = None\<rparr> ''enc:v1:AAAA'' (replicate 12 CHR ''n'') = Some c \<and>
     decryptColumn (\<lambda>k w. w) \<lparr>current = sample_key CHR ''a'', previous = None\<rparr> c sample_field = Inr ''enc:v1:AAAA'' \<and> IsSealedColumn c"
proof -
  have "sample_field \<noteq> None" "12 \<le> length (replicate 12 CHR ''n'')" "''enc:v1:AAAA'' \<noteq> []"
    by (simp_all add: sample_field_def)
  with seal_open_roundtrip [OF this(1,2), where E = "\<lambda>k w. w" and ks = "\<lparr>current = sample_key CHR ''a'', previous = None\<rparr>"
      and p = "''enc:v1:AAAA''"] show ?thesis by blast
qed

text \<open>A block function under which the two sample keys give different tags.\<close>

definition sample_cipher :: block_cipher where
  "sample_cipher k w = (if w = 0 then 0 else if hd k = CHR ''a'' then 0 else 1)"

lemma gf_mult_zero: "gf_mult x 0 = 0"
proof -
  have "gf_mult_loop n x 0 z = z" for n z by (induction n) simp_all
  then show ?thesis by (simp add: gf_mult_def)
qed

lemma sample_tag: "gcm_tag sample_cipher k j0 c = bytes_of_word (sample_cipher k j0)"
  by (simp add: gcm_tag_def ghash_def sample_cipher_def gf_mult_zero)

lemma gcm_open_other_key:
  assumes "gcm_tag E k' (first_counter n) (ctr E k (first_counter n) p) \<noteq> gcm_tag E k (first_counter n) (ctr E k (first_counter n) p)"
  shows "gcm_open E k' n (gcm_seal E k n p) = None"
  using assms by (auto simp: gcm_open_def gcm_seal_def Let_def gcm_tag_def)

lemma bit_first_counter: "first_counter n \<noteq> 0"
proof
  assume "first_counter n = 0"
  then have "bit (first_counter n) 0 = False" by simp
  then show False by (simp add: first_counter_def bit_or_iff)
qed

lemma sample_wrong_key:
  assumes "SealColumn sample_cipher (replicate 32 CHR ''a'') p rnd = Some c" "p \<noteq> []"
  shows "OpenColumn sample_cipher (replicate 32 CHR ''b'') c sample_field = Inl AuthFailed"
proof -
  obtain nonce where n: "read_full rnd NonceSize = Some nonce"
      "c = ColumnPrefix @ std64_encode (nonce @ gcm_seal sample_cipher (replicate 32 CHR ''a'') nonce p)"
    using assms by (auto simp: SealColumn_def split: option.splits)
  have "bytes_of_word 1 \<noteq> bytes_of_word 0" by (simp add: bytes_of_word_def upt_rec)
  then have "gcm_open sample_cipher (replicate 32 CHR ''b'') nonce (gcm_seal sample_cipher (replicate 32 CHR ''a'') nonce p) = None"
    by (intro gcm_open_other_key) (simp add: sample_tag sample_cipher_def bit_first_counter)
  with n read_full_length [OF n(1)] show ?thesis
    by (simp add: OpenColumn_def IsZero_def sample_field_def IsSealedColumn_def std64.dec_enc openPacked_def open_result_def)
qed

theorem rotation_keeps_columns_readable_witness:
  "\<exists>c. encryptColumn sample_cipher \<lparr>current = sample_key CHR ''a'', previous = None\<rparr> ''pw'' (replicate 12 CHR ''n'') = Some c \<and>
     decryptColumnWithKeyAge sample_cipher \<lparr>current = sample_key CHR ''b'', previous = Some (sample_key CHR ''a'')\<rparr> c sample_field = Inr (''pw'', True)"
proof -
  let ?ks = "\<lparr>current = sample_key CHR ''a'', previous = None\<rparr>"
  obtain c where c: "encryptColumn sample_cipher ?ks ''pw'' (replicate 12 CHR ''n'') = Some c"
    by (simp add: encryptColumn_def SealColumn_def read_full_def NonceSize_def)
  then have "OpenColumn sample_cipher (key_value (sample_key CHR ''b'')) c sample_field = Inl AuthFailed"
    using sample_wrong_key by (simp add: encryptColumn_def sample_key_def)
  moreover have "sample_field \<noteq> None" "''pw'' \<noteq> []" by (simp_all add: sample_field_def)
  ultimately show ?thesis
    using rotation_keeps_columns_readable [of sample_field _ "sample_key CHR ''b''" ?ks] c by fastforce
qed

end
