(* ===== verification/Reflect_Guard.thy ===== *)
theory Reflect_Guard
  imports Encoding
begin

text \<open>
  The guard on the return trip of a proxied call: \<^verbatim>\<open>internal/reflectguard/reflectguard.go\<close> and
  \<^verbatim>\<open>unescape.go\<close>.  A scanner is built from the secret that was injected into the upstream
  request, and the response is relayed only as far as no covered encoding of it is seen.

  The encoders of Go's standard library that the needles are built with (\<^verbatim>\<open>net/url\<close>, \<^verbatim>\<open>html\<close>,
  \<^verbatim>\<open>encoding/json\<close>, \<^verbatim>\<open>unicode/utf8\<close>, \<^verbatim>\<open>unicode/utf16\<close>) are given here.  A body is the sequence of
  reads that deliver it; a connection is the number of bytes it still accepts.
\<close>

section \<open>Runes\<close>

definition rune_error :: nat where
  "rune_error = 0xFFFD"

definition valid_rune :: "nat \<Rightarrow> bool" where
  "valid_rune r \<longleftrightarrow> r < 0xD800 \<or> (0xE000 \<le> r \<and> r \<le> 0x10FFFF)"

definition append_rune :: "nat \<Rightarrow> bytes" where
  "append_rune r0 =
     (let r = (if valid_rune r0 then r0 else rune_error)
      in if r < 0x80 then [char_of r]
         else if r < 0x800 then [char_of (0xC0 + r div 0x40), char_of (0x80 + r mod 0x40)]
         else if r < 0x10000
         then [char_of (0xE0 + r div 0x1000), char_of (0x80 + r div 0x40 mod 0x40), char_of (0x80 + r mod 0x40)]
         else [char_of (0xF0 + r div 0x40000), char_of (0x80 + r div 0x1000 mod 0x40),
               char_of (0x80 + r div 0x40 mod 0x40), char_of (0x80 + r mod 0x40)])"

definition in_range :: "nat \<Rightarrow> nat \<Rightarrow> bytes \<Rightarrow> nat \<Rightarrow> bool" where
  "in_range lo hi s i \<longleftrightarrow> i < length s \<and> lo \<le> byte_val (s ! i) \<and> byte_val (s ! i) \<le> hi"

text \<open>The number of bytes of the rune at the front, \<open>None\<close> where \<^verbatim>\<open>DecodeRune\<close> reports an invalid byte.\<close>

definition rune_size :: "bytes \<Rightarrow> nat option" where
  "rune_size s =
     (let b = byte_val (hd s);
          lo = (if b = 0xE0 then 0xA0 else if b = 0xF0 then 0x90 else 0x80);
          hi = (if b = 0xED then 0x9F else if b = 0xF4 then 0x8F else 0xBF)
      in if s = [] then None
         else if b < 0x80 then Some 1
         else if b < 0xC2 then None
         else if b < 0xE0 then (if in_range lo hi s 1 then Some 2 else None)
         else if b < 0xF0 then (if in_range lo hi s 1 \<and> in_range 0x80 0xBF s 2 then Some 3 else None)
         else if b < 0xF5 then (if in_range lo hi s 1 \<and> in_range 0x80 0xBF s 2 \<and> in_range 0x80 0xBF s 3 then Some 4 else None)
         else None)"

lemma rune_size_pos: "rune_size s = Some n \<Longrightarrow> 0 < n"
  by (auto simp: rune_size_def Let_def split: if_splits)

section \<open>The encoders of the standard library\<close>

definition is_alnum :: "char \<Rightarrow> bool" where
  "is_alnum c = (let n = byte_val c in (48 \<le> n \<and> n \<le> 57) \<or> (65 \<le> n \<and> n \<le> 90) \<or> (97 \<le> n \<and> n \<le> 122))"

definition upper_hex :: string where
  "upper_hex = ''0123456789ABCDEF''"

definition percent :: "char \<Rightarrow> string" where
  "percent c = [CHR ''%'', upper_hex ! (byte_val c div 16), upper_hex ! (byte_val c mod 16)]"

definition query_escape :: "string \<Rightarrow> string" where
  "query_escape s =
     concat (map (\<lambda>c. if is_alnum c \<or> c \<in> set ''-_.~'' then [c] else if c = CHR '' '' then ''+'' else percent c) s)"

definition path_escape :: "string \<Rightarrow> string" where
  "path_escape s = concat (map (\<lambda>c. if is_alnum c \<or> c \<in> set ''-_.~$&+:=@'' then [c] else percent c) s)"

definition html_escape :: "string \<Rightarrow> string" where
  "html_escape s =
     concat (map (\<lambda>c. if c = CHR ''&'' then ''&amp;'' else if c = CHR 0x27 then ''&#39;''
                      else if c = CHR ''<'' then ''&lt;'' else if c = CHR ''>'' then ''&gt;''
                      else if c = CHR 0x22 then ''&#34;'' else [c]) s)"

text \<open>One byte below 128 inside a JSON string; \<^verbatim>\<open>json.Marshal\<close> escapes HTML.\<close>

definition json_ascii :: "char \<Rightarrow> string" where
  "json_ascii c =
     (if c = CHR 0x5C \<or> c = CHR 0x22 then [CHR 0x5C, c]
      else if c = CHR 0x08 then [CHR 0x5C, CHR ''b'']
      else if c = CHR 0x0C then [CHR 0x5C, CHR ''f'']
      else if c = CHR 0x0A then [CHR 0x5C, CHR ''n'']
      else if c = CHR 0x0D then [CHR 0x5C, CHR ''r'']
      else if c = CHR 0x09 then [CHR 0x5C, CHR ''t'']
      else if byte_val c < 0x20 \<or> c \<in> set ''<>&''
      then CHR 0x5C # ''u00'' @ [hex_digits ! (byte_val c div 16), hex_digits ! (byte_val c mod 16)]
      else [c])"

text \<open>The body of \<^verbatim>\<open>json.Marshal\<close> of a string, without the quotes.\<close>

function json_escape :: "string \<Rightarrow> string" where
  "json_escape s =
     (case s of
        [] \<Rightarrow> []
      | c # r \<Rightarrow>
         if byte_val c < 0x80 then json_ascii c @ json_escape r
         else (case rune_size s of
                 None \<Rightarrow> CHR 0x5C # ''ufffd'' @ json_escape r
               | Some n \<Rightarrow>
                  (if take 3 s = [CHR 0xE2, CHR 0x80, CHR 0xA8] then CHR 0x5C # ''u2028''
                   else if take 3 s = [CHR 0xE2, CHR 0x80, CHR 0xA9] then CHR 0x5C # ''u2029''
                   else take n s) @ json_escape (drop n s)))"
  by pat_completeness auto
termination
  by (relation "measure length") (auto dest: rune_size_pos)

declare json_escape.simps [simp del]

function utf8_valid :: "bytes \<Rightarrow> bool" where
  "utf8_valid s \<longleftrightarrow> (if s = [] then True else case rune_size s of None \<Rightarrow> False | Some n \<Rightarrow> utf8_valid (drop n s))"
  by pat_completeness auto
termination
  by (relation "measure length") (auto dest: rune_size_pos)

declare utf8_valid.simps [simp del]

section \<open>Undoing an escaping\<close>

definition unhex :: "char \<Rightarrow> nat option" where
  "unhex c =
     (let n = byte_val c
      in if 48 \<le> n \<and> n \<le> 57 then Some (n - 48)
         else if 97 \<le> n \<and> n \<le> 102 then Some (n - 97 + 10)
         else if 65 \<le> n \<and> n \<le> 70 then Some (n - 65 + 10)
         else None)"

definition plain_byte :: "bool \<Rightarrow> char \<Rightarrow> char" where
  "plain_byte plusIsSpace c = (if plusIsSpace \<and> c = CHR ''+'' then CHR '' '' else c)"

fun appendPercentDecoded :: "bool \<Rightarrow> bytes \<Rightarrow> bytes" where
  "appendPercentDecoded p (c # h # l # r) =
     (case (if c = CHR ''%'' then unhex h else None, unhex l) of
        (Some a, Some b) \<Rightarrow> char_of (16 * a + b) # appendPercentDecoded p r
      | _ \<Rightarrow> plain_byte p c # appendPercentDecoded p (h # l # r))"
| "appendPercentDecoded p (c # r) = plain_byte p c # appendPercentDecoded p r"
| "appendPercentDecoded p [] = []"

text \<open>Four hexadecimal digits.\<close>

definition hex4 :: "bytes \<Rightarrow> nat option" where
  "hex4 b =
     (case map unhex (take 4 b) of
        [Some x0, Some x1, Some x2, Some x3] \<Rightarrow> Some (((x0 * 16 + x1) * 16 + x2) * 16 + x3)
      | _ \<Rightarrow> None)"

definition is_surrogate :: "nat \<Rightarrow> bool" where
  "is_surrogate r \<longleftrightarrow> 0xD800 \<le> r \<and> r < 0xE000"

definition decode_surrogates :: "nat \<Rightarrow> nat \<Rightarrow> nat" where
  "decode_surrogates r1 r2 =
     (if 0xD800 \<le> r1 \<and> r1 < 0xDC00 \<and> 0xDC00 \<le> r2 \<and> r2 < 0xE000
      then (r1 - 0xD800) * 0x400 + (r2 - 0xDC00) + 0x10000
      else rune_error)"

definition decodeUnicodeEscape :: "bytes \<Rightarrow> (nat \<times> nat) option" where
  "decodeUnicodeEscape b =
     (if length b < 6 \<or> take 2 b \<noteq> [CHR 0x5C, CHR ''u''] then None
      else case hex4 (drop 2 b) of
             None \<Rightarrow> None
           | Some r \<Rightarrow>
              if is_surrogate r
              then (if 12 \<le> length b \<and> take 2 (drop 6 b) = [CHR 0x5C, CHR ''u'']
                    then (case hex4 (drop 8 b) of
                            None \<Rightarrow> None
                          | Some lo \<Rightarrow>
                             (let joined = decode_surrogates r lo
                              in if joined \<noteq> rune_error then Some (joined, 12) else None))
                    else None)
              else Some (r, 6))"

function appendJSONUnescaped :: "bytes \<Rightarrow> bytes" where
  "appendJSONUnescaped [] = []"
| "appendJSONUnescaped [c] = [c]"
| "appendJSONUnescaped (c # d # r) =
     (if c \<noteq> CHR 0x5C then c # appendJSONUnescaped (d # r)
      else if d = CHR ''b'' then CHR 0x08 # appendJSONUnescaped r
      else if d = CHR ''f'' then CHR 0x0C # appendJSONUnescaped r
      else if d = CHR ''n'' then CHR 0x0A # appendJSONUnescaped r
      else if d = CHR ''r'' then CHR 0x0D # appendJSONUnescaped r
      else if d = CHR ''t'' then CHR 0x09 # appendJSONUnescaped r
      else if d = CHR ''u''
      then (case decodeUnicodeEscape (c # d # r) of
              None \<Rightarrow> c # appendJSONUnescaped (d # r)
            | Some (cp, n) \<Rightarrow> append_rune cp @ appendJSONUnescaped (drop (n - 1) (d # r)))
      else d # appendJSONUnescaped r)"
  by pat_completeness auto
termination
  by (relation "measure length") auto

fun entity_digits :: "nat \<Rightarrow> nat \<Rightarrow> nat \<Rightarrow> bytes \<Rightarrow> (nat \<times> nat) option" where
  "entity_digits base v digits [] = None"
| "entity_digits base v digits (c # r) =
     (if c = CHR '';'' then (if digits = 0 then None else Some (v, digits))
      else case (if base = 16 \<or> (48 \<le> byte_val c \<and> byte_val c \<le> 57) then unhex c else None) of
             None \<Rightarrow> None
           | Some d \<Rightarrow>
              (let v' = v * base + d
               in if v' > 0x10FFFF then None else entity_digits base v' (digits + 1) r))"

definition decodeNumericEntity :: "bytes \<Rightarrow> (nat \<times> nat) option" where
  "decodeNumericEntity b =
     (if length b < 4 \<or> take 2 b \<noteq> ''&#'' then None
      else let i = (if b ! 2 \<in> set ''xX'' then 3 else 2); base = (if b ! 2 \<in> set ''xX'' then 16 else 10)
           in case entity_digits base 0 0 (drop i b) of
                None \<Rightarrow> None
              | Some (v, digits) \<Rightarrow> if valid_rune v then Some (v, i + digits + 1) else None)"

definition equalFoldASCII :: "bytes \<Rightarrow> bytes \<Rightarrow> bool" where
  "equalFoldASCII a b \<longleftrightarrow> length a = length b \<and> map lower_char a = map lower_char b"

definition named_entities :: "(string \<times> char) list" where
  "named_entities =
     [(''amp;'', CHR ''&''), (''lt;'', CHR ''<''), (''gt;'', CHR ''>''), (''quot;'', CHR 0x22), (''apos;'', CHR 0x27)]"

function appendEntityUnescaped :: "bytes \<Rightarrow> bytes" where
  "appendEntityUnescaped [] = []"
| "appendEntityUnescaped (c # r) =
     (if c \<noteq> CHR ''&'' then c # appendEntityUnescaped r
      else case decodeNumericEntity (c # r) of
             Some (cp, n) \<Rightarrow> append_rune cp @ appendEntityUnescaped (drop (n - 1) r)
           | None \<Rightarrow>
              (case find (\<lambda>(name, _). length name \<le> length r \<and> equalFoldASCII (take (length name) r) name) named_entities of
                 Some (name, ch) \<Rightarrow> ch # appendEntityUnescaped (drop (length name) r)
               | None \<Rightarrow> c # appendEntityUnescaped r))"
  by pat_completeness auto
termination
  by (relation "measure length") auto

definition unescapers :: "(string \<times> char \<times> (bytes \<Rightarrow> bytes)) list" where
  "unescapers =
     [(''percent-decoded'', CHR ''%'', appendPercentDecoded False),
      (''percent-decoded (form)'', CHR ''+'', appendPercentDecoded True),
      (''json-unescaped'', CHR 0x5C, appendJSONUnescaped),
      (''entity-unescaped'', CHR ''&'', appendEntityUnescaped)]"

section \<open>The scanner\<close>

definition minNeedle :: nat where
  "minNeedle = 8"

definition DefaultHoldBack :: nat where
  "DefaultHoldBack = 2 ^ 20"

definition chunkSize :: nat where
  "chunkSize = 32 * 2 ^ 10"

record Scanner =
  raw :: bytes
  needles :: "(string \<times> bytes) list"
  maxLen :: nat

definition add_needle :: "string \<Rightarrow> bytes \<Rightarrow> Scanner \<Rightarrow> Scanner" where
  "add_needle label b s =
     (if length b < minNeedle then s
      else if b \<in> snd ` set (needles s) then s
      else s\<lparr>maxLen := max (maxLen s) (length b), needles := needles s @ [(label, b)]\<rparr>)"

definition phaseSlice :: "(bytes \<Rightarrow> string) \<Rightarrow> bytes \<Rightarrow> nat \<Rightarrow> bytes" where
  "phaseSlice enc secret phase =
     (if phase > 2 then []
      else let padded = replicate phase (CHR 0x00) @ secret;
               out = enc padded;
               head = [0, 2, 3] ! phase;
               keep = min ((phase + length secret) div 3 * 4) (length out)
           in if head \<ge> keep then [] else drop head (take keep out))"

definition url64_encode :: "bytes \<Rightarrow> string" where
  "url64_encode = b64_enc url_alphabet True"

text \<open>The needles in the order they are added.\<close>

definition needle_forms :: "bytes \<Rightarrow> (string \<times> bytes) list" where
  "needle_forms secret =
     [(''plaintext'', secret), (''percent-encoded'', query_escape secret), (''percent-encoded'', path_escape secret),
      (''json-escaped'', json_escape secret), (''html-escaped'', html_escape secret),
      (''hex'', hex_encode secret), (''hex'', to_upper (hex_encode secret)),
      (''base64'', std64_encode secret), (''base64url'', url64_encode secret),
      (''base64'', phaseSlice rawstd64_encode secret 0), (''base64url'', phaseSlice rawurl64_encode secret 0),
      (''base64'', phaseSlice rawstd64_encode secret 1), (''base64url'', phaseSlice rawurl64_encode secret 1),
      (''base64'', phaseSlice rawstd64_encode secret 2), (''base64url'', phaseSlice rawurl64_encode secret 2)]"

definition New :: "bytes \<Rightarrow> Scanner" where
  "New secret =
     (let s = \<lparr>raw = [], needles = [], maxLen = 0\<rparr>
      in if secret = [] then s
         else fold (\<lambda>(label, b). add_needle label b) (needle_forms secret) (s\<lparr>raw := secret\<rparr>))"

definition Armed :: "Scanner \<Rightarrow> bool" where
  "Armed s \<longleftrightarrow> raw s \<noteq> []"

definition maxEscapeExpansion :: nat where
  "maxEscapeExpansion = 8"

definition Overlap :: "Scanner \<Rightarrow> nat" where
  "Overlap s = (if maxLen s \<le> 1 then 0 else maxLen s * maxEscapeExpansion - 1)"

definition Equals :: "Scanner \<Rightarrow> bytes \<Rightarrow> bool" where
  "Equals s candidate = (if raw s = [] then False else raw s = candidate)"

text \<open>The bytes are overwritten in place, so the needles keep their number and length.\<close>

definition Wipe :: "Scanner \<Rightarrow> Scanner" where
  "Wipe s = s\<lparr>raw := map (\<lambda>_. CHR 0x00) (raw s), needles := map (\<lambda>(l, b). (l, map (\<lambda>_. CHR 0x00) b)) (needles s)\<rparr>"

definition find_needle :: "Scanner \<Rightarrow> bytes \<Rightarrow> string option" where
  "find_needle s b = map_option fst (find (\<lambda>(_, n). contains b n) (needles s))"

fun scan_readings :: "Scanner \<Rightarrow> bytes \<Rightarrow> (string \<times> char \<times> (bytes \<Rightarrow> bytes)) list \<Rightarrow> string option" where
  "scan_readings s b [] = None"
| "scan_readings s b ((label, trigger, fn) # us) =
     (if trigger \<notin> set b then scan_readings s b us
      else let decoded = fn b
           in if length decoded = length b then scan_readings s b us
              else case find_needle s decoded of
                     Some n \<Rightarrow> Some (n @ '' ('' @ label @ '')'')
                   | None \<Rightarrow> scan_readings s b us)"

definition Scan :: "Scanner \<Rightarrow> bytes \<Rightarrow> string option" where
  "Scan s b =
     (case find_needle s b of
        Some n \<Rightarrow> Some n
      | None \<Rightarrow> scan_readings s b (if raw s = [] then [] else unescapers))"

text \<open>Header lines in the order the map is ranged over; the name and the encoding of the first hit.\<close>

fun scan_values :: "Scanner \<Rightarrow> string \<Rightarrow> string list \<Rightarrow> (string \<times> string) option" where
  "scan_values s k [] = None"
| "scan_values s k (v # vs) =
     (if Equals s v then Some (k, ''plaintext'')
      else case Scan s v of Some enc \<Rightarrow> Some (k, enc) | None \<Rightarrow> scan_values s k vs)"

fun ScanHeader :: "Scanner \<Rightarrow> (string \<times> string list) list \<Rightarrow> (string \<times> string) option" where
  "ScanHeader s [] = None"
| "ScanHeader s ((k, vs) # h) =
     (case Scan s k of
        Some enc \<Rightarrow> Some (k, enc)
      | None \<Rightarrow> (case scan_values s k vs of Some hit \<Rightarrow> Some hit | None \<Rightarrow> ScanHeader s h))"

definition UnscannableEncoding :: "(string \<times> string list) list \<Rightarrow> string option" where
  "UnscannableEncoding h =
     (let values = (case map_of h ''Content-Encoding'' of None \<Rightarrow> [] | Some vs \<Rightarrow> vs)
      in if \<exists>v \<in> set values. \<exists>part \<in> set (map trim_space (split (CHR '','') v)). part \<noteq> [] \<and> \<not> equal_fold part ''identity''
         then Some (join '', '' values) else None)"

section \<open>The relay\<close>

text \<open>A body is delivered read by read; the last read carries its bytes and how the body ended.\<close>

datatype read_end = EOF | ReadFault

datatype upstream_body = Read bytes upstream_body | Last bytes read_end

fun body_bytes :: "upstream_body \<Rightarrow> bytes" where
  "body_bytes (Read c b) = c @ body_bytes b"
| "body_bytes (Last c _) = c"

fun body_end :: "upstream_body \<Rightarrow> read_end" where
  "body_end (Read c b) = body_end b"
| "body_end (Last c e) = e"

datatype relay_error = ReflectedError string | WriteFailed | ReadFailed

record relay =
  pending :: bytes
  tail :: bytes
  committed :: bool
  written :: bytes
  accepts :: nat

text \<open>A write to a connection that accepts \<open>accepts\<close> more bytes.\<close>

definition conn_write :: "bytes \<Rightarrow> relay \<Rightarrow> bool \<times> relay" where
  "conn_write p st =
     (if length p \<le> accepts st then (True, st\<lparr>written := written st @ p, accepts := accepts st - length p\<rparr>)
      else (False, st\<lparr>written := written st @ take (accepts st) p, accepts := 0\<rparr>))"

definition flush :: "nat \<Rightarrow> relay \<Rightarrow> bool \<times> relay" where
  "flush overlap st0 =
     (let st = st0\<lparr>committed := True\<rparr>
      in if pending st = [] then (True, st)
         else case conn_write (pending st) st of
                (False, st1) \<Rightarrow> (False, st1)
              | (True, st1) \<Rightarrow>
                 (True, st1\<lparr>tail := (if overlap > 0 then drop (length (pending st) - overlap) (pending st) else tail st1),
                            pending := []\<rparr>))"

definition scan_window :: "nat \<Rightarrow> bytes \<Rightarrow> relay \<Rightarrow> bytes" where
  "scan_window overlap chunk st =
     (let from = length (pending st) - overlap
      in (if from = 0 then tail st else []) @ drop from (pending st @ chunk))"

text \<open>What one read adds: the state, and the error that ends the relay.\<close>

definition take_chunk :: "Scanner \<Rightarrow> nat \<Rightarrow> nat \<Rightarrow> bytes \<Rightarrow> relay \<Rightarrow> relay_error option \<times> relay" where
  "take_chunk s overlap holdBack chunk st =
     (if chunk = [] then (None, st)
      else let st1 = st\<lparr>pending := pending st @ chunk\<rparr>
           in case Scan s (scan_window overlap chunk st) of
                Some enc \<Rightarrow> (Some (ReflectedError enc), st1)
              | None \<Rightarrow>
                 if length (pending st1) \<ge> holdBack
                 then (case flush overlap st1 of (ok, st2) \<Rightarrow> (if ok then None else Some WriteFailed, st2))
                 else (None, st1))"

fun relay_loop :: "Scanner \<Rightarrow> nat \<Rightarrow> nat \<Rightarrow> upstream_body \<Rightarrow> relay \<Rightarrow> relay_error option \<times> relay" where
  "relay_loop s overlap holdBack (Read c b) st =
     (case take_chunk s overlap holdBack c st of
        (Some e, st1) \<Rightarrow> (Some e, st1)
      | (None, st1) \<Rightarrow> relay_loop s overlap holdBack b st1)"
| "relay_loop s overlap holdBack (Last c e) st =
     (case take_chunk s overlap holdBack c st of
        (Some err, st1) \<Rightarrow> (Some err, st1)
      | (None, st1) \<Rightarrow>
         (case e of
            ReadFault \<Rightarrow> (Some ReadFailed, st1)
          | EOF \<Rightarrow> (case flush overlap st1 of (ok, st2) \<Rightarrow> (if ok then None else Some WriteFailed, st2))))"

text \<open>\<^verbatim>\<open>io.Copy\<close>.\<close>

fun copy :: "upstream_body \<Rightarrow> relay \<Rightarrow> relay_error option \<times> relay" where
  "copy (Read c b) st = (case conn_write c st of (ok, st1) \<Rightarrow> if ok then copy b st1 else (Some WriteFailed, st1))"
| "copy (Last c e) st =
     (case conn_write c st of
        (ok, st1) \<Rightarrow> (if \<not> ok then Some WriteFailed else case e of EOF \<Rightarrow> None | ReadFault \<Rightarrow> Some ReadFailed, st1))"

definition Relay :: "Scanner \<Rightarrow> upstream_body \<Rightarrow> nat \<Rightarrow> nat \<Rightarrow> relay_error option \<times> relay" where
  "Relay s src holdBack0 accepting =
     (let st = \<lparr>pending = [], tail = [], committed = False, written = [], accepts = accepting\<rparr>
      in if \<not> Armed s \<or> needles s = [] then copy src (st\<lparr>committed := True\<rparr>)
         else relay_loop s (Overlap s) (if holdBack0 < chunkSize then chunkSize else holdBack0) src st)"

section \<open>What a scan finds\<close>

lemma find_needle_None: "find_needle s b = None \<longleftrightarrow> (\<forall>n \<in> snd ` set (needles s). \<not> contains b n)"
  by (auto simp: find_needle_def find_None_iff)

lemma Scan_None: "Scan s b = None \<Longrightarrow> n \<in> snd ` set (needles s) \<Longrightarrow> \<not> contains b n"
  using find_needle_None [of s b] by (auto simp: Scan_def split: option.splits)

definition wf_scanner :: "Scanner \<Rightarrow> bool" where
  "wf_scanner s \<longleftrightarrow> (\<forall>n \<in> snd ` set (needles s). minNeedle \<le> length n \<and> length n \<le> maxLen s)"

lemma add_needle_wf: "wf_scanner s \<Longrightarrow> wf_scanner (add_needle label b s)"
  by (auto simp: wf_scanner_def add_needle_def)

lemma fold_add_wf: "wf_scanner s \<Longrightarrow> wf_scanner (fold (\<lambda>(label, b). add_needle label b) fs s)"
  by (induction fs arbitrary: s) (auto simp: add_needle_wf)

lemma New_wf: "wf_scanner (New secret)"
proof -
  have "wf_scanner \<lparr>raw = r, needles = [], maxLen = 0\<rparr>" for r by (simp add: wf_scanner_def)
  then show ?thesis unfolding New_def Let_def by (simp add: fold_add_wf)
qed

lemma fold_add_needles:
  "snd ` set (needles (fold (\<lambda>(label, b). add_needle label b) fs s)) =
   snd ` set (needles s) \<union> {b \<in> snd ` set fs. minNeedle \<le> length b}"
proof (induction fs arbitrary: s)
  case (Cons f fs)
  then show ?case by (cases f) (auto simp: add_needle_def)
qed simp

lemma New_needles:
  "secret \<noteq> [] \<Longrightarrow> snd ` set (needles (New secret)) = {b \<in> snd ` set (needle_forms secret). minNeedle \<le> length b}"
  by (simp add: New_def Let_def fold_add_needles)

lemma fold_add_raw: "raw (fold (\<lambda>(label, b). add_needle label b) fs s) = raw s"
  by (induction fs arbitrary: s) (auto simp: add_needle_def)

lemma New_raw [simp]: "raw (New secret) = secret"
  by (simp add: New_def Let_def fold_add_raw)

lemma fold_add_maxLen:
  "maxLen s \<le> m \<Longrightarrow> \<forall>b \<in> snd ` set fs. length b \<le> m \<Longrightarrow> maxLen (fold (\<lambda>(label, b). add_needle label b) fs s) \<le> m"
  by (induction fs arbitrary: s) (auto simp: add_needle_def)

section \<open>What a relay delivers\<close>

text \<open>
  Of the bytes \<open>d\<close> read so far none of the needles is part, they are what was written followed by
  what is pending, and the carried tail is either all that was written or long enough for a needle to
  straddle the seam.
\<close>

definition relay_inv :: "Scanner \<Rightarrow> bytes \<Rightarrow> relay \<Rightarrow> bool" where
  "relay_inv s d st \<longleftrightarrow>
     d = written st @ pending st \<and> (\<forall>n \<in> snd ` set (needles s). \<not> contains d n) \<and>
     (\<exists>w. written st = w @ tail st \<and> (w = [] \<or> maxLen s \<le> Suc (length (tail st))))"

lemma Overlap_ge: "8 \<le> maxLen s \<Longrightarrow> maxLen s \<le> Suc (Overlap s)"
  by (simp add: Overlap_def maxEscapeExpansion_def)

lemma window_covers:
  assumes "relay_inv s d st" "maxLen s \<le> Suc (Overlap s)"
  obtains x y where "d = x @ y" "scan_window (Overlap s) c st = y @ c" "x = [] \<or> maxLen s \<le> Suc (length y)"
proof (cases "length (pending st) - Overlap s = 0")
  case True
  obtain w where w: "written st = w @ tail st" "w = [] \<or> maxLen s \<le> Suc (length (tail st))"
    using assms(1) by (auto simp: relay_inv_def)
  show ?thesis
    by (rule that [of w "tail st @ pending st"]) (use w True assms(1) in \<open>auto simp: relay_inv_def scan_window_def Let_def\<close>)
next
  case False
  let ?k = "length (pending st) - Overlap s"
  show ?thesis
  proof (rule that [of "written st @ take ?k (pending st)" "drop ?k (pending st)"])
    show "d = (written st @ take ?k (pending st)) @ drop ?k (pending st)"
      using assms(1) by (simp add: relay_inv_def)
    show "scan_window (Overlap s) c st = drop ?k (pending st) @ c"
      using False by (simp add: scan_window_def Let_def)
  qed (use False assms(2) in auto)
qed

lemma clean_window:
  assumes "relay_inv s d st" "wf_scanner s" "maxLen s \<le> Suc (Overlap s)"
    and "Scan s (scan_window (Overlap s) c st) = None" "n \<in> snd ` set (needles s)"
  shows "\<not> contains (d @ c) n"
proof
  assume c: "contains (d @ c) n"
  obtain x y where d: "d = x @ y" "scan_window (Overlap s) c st = y @ c" "x = [] \<or> maxLen s \<le> Suc (length y)"
    using window_covers [OF assms(1,3)] .
  have "8 \<le> length n" "length n \<le> maxLen s" using assms(2,5) by (auto simp: wf_scanner_def minNeedle_def)
  moreover have "\<not> contains (x @ y) n" using assms(1,5) d(1) by (auto simp: relay_inv_def)
  ultimately have "contains (y @ c) n"
    using contains_straddle [of x y c n] c d by fastforce
  then show False using Scan_None [OF assms(4,5)] d(2) by simp
qed

text \<open>What holds when a relay of \<open>all\<close> bytes over a connection that takes \<open>cap\<close> bytes is over.\<close>

definition relay_ok :: "Scanner \<Rightarrow> bytes \<Rightarrow> read_end \<Rightarrow> nat \<Rightarrow> relay_error option \<Rightarrow> relay \<Rightarrow> bool" where
  "relay_ok s all en cap e st \<longleftrightarrow>
     (\<exists>r. all = written st @ r) \<and> (\<forall>n \<in> snd ` set (needles s). \<not> contains (written st) n) \<and>
     (e = None \<longrightarrow> written st = all) \<and> (e = Some WriteFailed \<longrightarrow> cap < length all) \<and>
     (e = Some ReadFailed \<longrightarrow> en = ReadFault) \<and> (\<forall>l. e = Some (ReflectedError l) \<longrightarrow> (\<exists>w. contains all w \<and> Scan s w = Some l))"

definition capacity :: "relay \<Rightarrow> nat" where
  "capacity st = length (written st) + accepts st"

lemma not_contains_prefix: "\<not> contains (a @ b) n \<Longrightarrow> \<not> contains a n"
  by (metis append.assoc contains_iff)

lemma relay_inv_clean: "relay_inv s d st \<Longrightarrow> n \<in> snd ` set (needles s) \<Longrightarrow> \<not> contains d n"
  unfolding relay_inv_def by blast

lemma flush_fails:
  assumes "relay_inv s d st" "flush overlap st = (False, st')"
  shows "relay_ok s (d @ r) en (capacity st) (Some WriteFailed) st'"
proof -
  have f: "written st' = written st @ take (accepts st) (pending st)" "accepts st < length (pending st)"
    using assms(2) by (auto simp: flush_def conn_write_def Let_def split: if_splits)
  have d: "d = written st' @ drop (accepts st) (pending st)" "length d = length (written st) + length (pending st)"
    using assms(1) f(1) by (auto simp: relay_inv_def)
  have "\<not> contains (written st') n" if "n \<in> snd ` set (needles s)" for n
    using relay_inv_clean [OF assms(1) that] not_contains_prefix d(1) by metis
  moreover have "\<exists>q. d @ r = written st' @ q" using d(1) by auto
  ultimately show ?thesis using d(2) f(2) by (simp add: relay_ok_def capacity_def)
qed

lemma flush_written: "relay_inv s d st \<Longrightarrow> flush overlap st = (True, st') \<Longrightarrow> written st' = d \<and> capacity st' = capacity st"
  by (auto simp: flush_def conn_write_def relay_inv_def capacity_def Let_def split: if_splits)

lemma flush_keeps:
  assumes "relay_inv s d st" "flush overlap st = (True, st')" "maxLen s \<le> Suc overlap"
    and "maxLen s \<le> Suc (length (pending st))" "0 < overlap"
  shows "relay_inv s d st'"
proof (cases "pending st = []")
  case True
  then show ?thesis using assms(1,2) by (auto simp: flush_def relay_inv_def)
next
  case False
  let ?k = "length (pending st) - overlap"
  have st': "written st' = d" "pending st' = []" "tail st' = drop ?k (pending st)"
    using False assms flush_written [OF assms(1,2)] by (auto simp: flush_def conn_write_def Let_def split: if_splits)
  moreover have "d = (written st @ take ?k (pending st)) @ drop ?k (pending st)"
    using assms(1) by (simp add: relay_inv_def)
  ultimately have "\<exists>w. written st' = w @ tail st' \<and> (w = [] \<or> maxLen s \<le> Suc (length (tail st')))"
    using assms(3,4) by (intro exI [of _ "written st @ take ?k (pending st)"]) auto
  then show ?thesis using st' relay_inv_clean [OF assms(1)] unfolding relay_inv_def by simp
qed

lemma take_chunk_spec:
  assumes "relay_inv s d st" "wf_scanner s" "maxLen s \<le> Suc (Overlap s)" "0 < Overlap s" "maxLen s \<le> Suc holdBack"
    and "take_chunk s (Overlap s) holdBack c st = (e, st')"
  shows "e = None \<Longrightarrow> relay_inv s (d @ c) st' \<and> capacity st' = capacity st"
    "e \<noteq> None \<Longrightarrow> relay_ok s ((d @ c) @ r) en (capacity st) e st'"
proof -
  let ?st = "st\<lparr>pending := pending st @ c\<rparr>" and ?w = "scan_window (Overlap s) c st"
  have cap: "capacity ?st = capacity st" by (simp add: capacity_def)
  have inv: "relay_inv s (d @ c) ?st" if "Scan s ?w = None"
    using assms(1) clean_window [OF assms(1-3) that] by (simp add: relay_inv_def)
  have held: "holdBack \<le> length (pending ?st) \<Longrightarrow> maxLen s \<le> Suc (length (pending ?st))"
    using assms(5) by auto
  show "relay_inv s (d @ c) st' \<and> capacity st' = capacity st" if "e = None"
    using assms(1,6) that inv cap flush_keeps [OF inv _ assms(3) held assms(4)] flush_written [OF inv]
    by (auto simp: take_chunk_def Let_def split: if_splits option.splits prod.splits)
  show "relay_ok s ((d @ c) @ r) en (capacity st) e st'" if "e \<noteq> None"
  proof (cases "Scan s ?w")
    case None
    with assms(6) that obtain "e = Some WriteFailed" "flush (Overlap s) ?st = (False, st')" "holdBack \<le> length (pending ?st)"
      by (auto simp: take_chunk_def Let_def split: if_splits prod.splits)
    then show ?thesis using flush_fails [OF inv [OF None], of "Overlap s" st' r en] cap by simp
  next
    case (Some l)
    then have e: "e = Some (ReflectedError l)" "written st' = written st"
      using assms(6) that by (auto simp: take_chunk_def Let_def split: if_splits)
    obtain x y where "d = x @ y" "?w = y @ c" using window_covers [OF assms(1,3)] by metis
    then have "(d @ c) @ r = x @ ?w @ r" by simp
    then have "contains ((d @ c) @ r) ?w" unfolding contains_iff by blast
    moreover have "d = written st @ pending st" using assms(1) by (simp add: relay_inv_def)
    then have "\<not> contains (written st) n" if "n \<in> snd ` set (needles s)" for n
      using relay_inv_clean [OF assms(1) that] not_contains_prefix by metis
    ultimately show ?thesis using e Some assms(1) by (auto simp: relay_ok_def relay_inv_def)
  qed
qed

lemma relay_loop_spec:
  assumes "wf_scanner s" "maxLen s \<le> Suc (Overlap s)" "0 < Overlap s" "maxLen s \<le> Suc holdBack"
  shows "relay_inv s d st \<Longrightarrow> relay_loop s (Overlap s) holdBack b st = (e, st') \<Longrightarrow>
    relay_ok s (d @ body_bytes b) (body_end b) (capacity st) e st'"
proof (induction b arbitrary: d st)
  case (Read c b)
  obtain e1 st1 where 1: "take_chunk s (Overlap s) holdBack c st = (e1, st1)" by fastforce
  note spec = take_chunk_spec [OF Read.prems(1) assms 1]
  show ?case
  proof (cases e1)
    case None
    then show ?thesis using Read.IH [of "d @ c" st1] spec(1) Read.prems(2) 1 by simp
  next
    case (Some x)
    then show ?thesis using spec(2) [of "body_bytes b" "body_end b"] Read.prems(2) 1 by simp
  qed
next
  case (Last c en)
  obtain e1 st1 where 1: "take_chunk s (Overlap s) holdBack c st = (e1, st1)" by fastforce
  note spec = take_chunk_spec [OF Last.prems(1) assms 1]
  show ?case
  proof (cases e1)
    case None
    then have inv: "relay_inv s (d @ c) st1" "capacity st1 = capacity st" using spec(1) by auto
    then have clean: "\<not> contains (written st1) n" "\<not> contains (d @ c) n" if "n \<in> snd ` set (needles s)" for n
      using that not_contains_prefix [of "written st1" "pending st1"] by (auto simp: relay_inv_def)
    show ?thesis
    proof (cases en)
      case EOF
      obtain ok st2 where 2: "flush (Overlap s) st1 = (ok, st2)" by fastforce
      have "written st2 = d @ c" if ok using flush_written [OF inv(1)] 2 that by simp
      moreover have "relay_ok s (d @ c) en (capacity st) (Some WriteFailed) st2" if "\<not> ok"
        using flush_fails [OF inv(1), of "Overlap s" st2 "[]"] 2 that inv(2) by simp
      ultimately show ?thesis using Last.prems(2) 1 2 None EOF clean(2) by (auto simp: relay_ok_def split: if_splits)
    next
      case ReadFault
      then show ?thesis using Last.prems(2) 1 None clean(1) inv(1) by (auto simp: relay_ok_def relay_inv_def)
    qed
  next
    case (Some x)
    then show ?thesis using spec(2) [of "[]" en] Last.prems(2) 1 by simp
  qed
qed

section \<open>How long a needle can be\<close>

lemma length_concat_map: "(\<And>c. length (f c) \<le> k) \<Longrightarrow> length (concat (map f s)) \<le> k * length s"
  by (induction s) (simp_all add: add_mono)

lemma length_query_escape: "length (query_escape s) \<le> 3 * length s"
  unfolding query_escape_def by (rule length_concat_map) (simp add: percent_def)

lemma length_path_escape: "length (path_escape s) \<le> 3 * length s"
  unfolding path_escape_def by (rule length_concat_map) (simp add: percent_def)

lemma length_html_escape: "length (html_escape s) \<le> 5 * length s"
  unfolding html_escape_def by (rule length_concat_map) simp

lemma length_json_ascii: "length (json_ascii c) \<le> 6"
  by (simp add: json_ascii_def)

lemma length_json_escape: "length (json_escape s) \<le> 6 * length s"
proof (induction s rule: json_escape.induct)
  case (1 s)
  show ?case
  proof (cases s)
    case (Cons c r)
    show ?thesis
    proof (cases "byte_val c < 0x80")
      case True
      then show ?thesis using 1(1) [OF Cons True] Cons length_json_ascii [of c] by (simp add: json_escape.simps [of "c # r"])
    next
      case False
      show ?thesis
      proof (cases "rune_size s")
        case None
        then show ?thesis using 1(2) [OF Cons False None] Cons False by (simp add: json_escape.simps [of "c # r"])
      next
        case (Some n)
        have n: "0 < n" using rune_size_pos [OF Some] .
        have ih: "length (json_escape (drop n s)) \<le> 6 * (length s - n)" using 1(3) [OF Cons False Some] by simp
        have "\<exists>u. json_escape s = u @ json_escape (drop n s) \<and> (length u = 6 \<or> length u = min (length s) n)"
          by (subst json_escape.simps) (use Cons False Some in auto)
        moreover have "1 \<le> min (length s) n" using n Cons by simp
        ultimately show ?thesis using ih by auto
      qed
    qed
  qed (simp add: json_escape.simps)
qed

lemma length_b64_enc: "length (b64_enc al pad b) \<le> 4 * ((length b + 2) div 3)"
proof (induction al pad b rule: b64_enc.induct)
  case (4 al pad a b c r)
  have "length (b64_enc al pad (a # b # c # r)) = 4 + length (b64_enc al pad r)" by simp
  moreover have "(length (a # b # c # r) + 2) div 3 = (length r + 2) div 3 + 1" by simp
  ultimately show ?case using 4 by linarith
qed auto

lemma length_phaseSlice:
  assumes "\<And>z. length (enc z) \<le> 4 * ((length z + 2) div 3)"
  shows "length (phaseSlice enc secret phase) \<le> 4 * ((length secret + 4) div 3)"
proof -
  have "phase \<le> 2 \<Longrightarrow> (phase + length secret) div 3 * 4 \<le> 4 * ((length secret + 4) div 3)" by simp
  then show ?thesis by (auto simp: phaseSlice_def Let_def)
qed

lemma needle_bound:
  assumes "8 \<le> length secret"
  shows "\<forall>b \<in> snd ` set (needle_forms secret). length b \<le> 6 * length secret"
proof -
  have "4 * ((length secret + 2) div 3) \<le> 6 * length secret" "4 * ((length secret + 4) div 3) \<le> 6 * length secret"
    using assms by simp_all
  note le = this
  have "length (std64_encode secret) \<le> 6 * length secret" "length (url64_encode secret) \<le> 6 * length secret"
    using le(1) length_b64_enc by (metis order_trans std64_encode_def, metis order_trans url64_encode_def)
  moreover have "length (phaseSlice (b64_enc al False) secret p) \<le> 6 * length secret" for al p
    using length_phaseSlice [OF length_b64_enc] le(2) by (rule order_trans)
  moreover note length_query_escape [of secret] length_path_escape [of secret] length_json_escape [of secret]
    length_html_escape [of secret]
  ultimately show ?thesis by (simp add: needle_forms_def hex_encode_length to_upper_def rawstd64_encode_def rawurl64_encode_def)
qed

lemma New_maxLen:
  assumes "8 \<le> length secret"
  shows "8 \<le> maxLen (New secret)" "maxLen (New secret) \<le> 6 * length secret" "needles (New secret) \<noteq> []"
proof -
  have ne: "secret \<noteq> []" using assms by auto
  have "secret \<in> snd ` set (needles (New secret))"
    using assms by (subst New_needles [OF ne]) (simp add: needle_forms_def minNeedle_def)
  then show "8 \<le> maxLen (New secret)" "needles (New secret) \<noteq> []"
    using New_wf [of secret] assms by (auto simp: wf_scanner_def)
  show "maxLen (New secret) \<le> 6 * length secret"
    unfolding New_def Let_def using ne needle_bound [OF assms] by (simp add: fold_add_maxLen)
qed

lemma Relay_ok:
  assumes "8 \<le> length secret" "length secret \<le> 65536"
    and "Relay (New secret) src DefaultHoldBack cap = (e, st)"
  shows "relay_ok (New secret) (body_bytes src) (body_end src) cap e st"
proof -
  let ?s = "New secret"
  let ?st = "\<lparr>pending = [], tail = [], committed = False, written = [], accepts = cap\<rparr>"
  note m = New_maxLen [OF assms(1)]
  have "relay_loop ?s (Overlap ?s) DefaultHoldBack src ?st = (e, st)"
  proof -
    have "secret \<noteq> []" using assms(1) by auto
    moreover have "\<not> DefaultHoldBack < chunkSize" by (simp add: DefaultHoldBack_def chunkSize_def)
    ultimately show ?thesis using assms(3) m(3) by (simp add: Relay_def Armed_def Let_def)
  qed
  moreover have "relay_inv ?s [] ?st"
    using New_wf [of secret] by (auto simp: relay_inv_def wf_scanner_def minNeedle_def)
  moreover have "maxLen ?s \<le> Suc (Overlap ?s)" using Overlap_ge [OF m(1)] .
  moreover have "0 < Overlap ?s" using m(1) by (simp add: Overlap_def maxEscapeExpansion_def)
  moreover have "maxLen ?s \<le> Suc DefaultHoldBack" using m(2) assms(2) by (simp add: DefaultHoldBack_def)
  ultimately show ?thesis using relay_loop_spec [OF New_wf, of secret DefaultHoldBack "[]" ?st src e st] by (simp add: capacity_def)
qed

text \<open>
  C35. No covered encoding of the injected secret gets back to the caller whole, however the
  upstream cuts its response into reads.  For a secret of eight bytes up to the size limit of an entry: what is
  delivered is a prefix of the body and contains no needle; a body that contains a needle
  is never reported as delivered, and is refused as a reflection if it could be read to its end and the connection
  would have taken it; and a body of which no part is taken for the secret is delivered complete.
\<close>

theorem relay_blocks_reflection:
  assumes "8 \<le> length secret" "length secret \<le> 65536"
    and "Relay (New secret) src DefaultHoldBack cap = (e, st)"
  shows "(\<exists>r. body_bytes src = written st @ r) \<and> (e = None \<longrightarrow> written st = body_bytes src) \<and>
    (\<forall>n \<in> snd ` set (needle_forms secret). 8 \<le> length n \<longrightarrow>
       \<not> contains (written st) n \<and>
       (contains (body_bytes src) n \<longrightarrow>
          e \<noteq> None \<and> (body_end src = EOF \<and> length (body_bytes src) \<le> cap \<longrightarrow> (\<exists>l. e = Some (ReflectedError l))))) \<and>
    ((\<forall>w. contains (body_bytes src) w \<longrightarrow> Scan (New secret) w = None) \<and> body_end src = EOF \<and>
       length (body_bytes src) \<le> cap \<longrightarrow> e = None)"
proof -
  note ok = Relay_ok [OF assms]
  have ne: "secret \<noteq> []" using assms(1) by auto
  have clean: "\<not> contains (written st) n" if "n \<in> snd ` set (needle_forms secret)" "8 \<le> length n" for n
    using ok that New_needles [OF ne] by (simp add: relay_ok_def minNeedle_def)
  have err: "\<exists>l. e = Some (ReflectedError l)"
    if "e \<noteq> None" "body_end src = EOF" "length (body_bytes src) \<le> cap"
    using ok that by (cases "the e") (auto simp: relay_ok_def)
  have hit: "\<exists>w. contains (body_bytes src) w \<and> Scan (New secret) w \<noteq> None" if "e = Some (ReflectedError l)" for l
    using ok that by (auto simp: relay_ok_def)
  have all: "\<exists>r. body_bytes src = written st @ r" "e = None \<longrightarrow> written st = body_bytes src"
    using ok by (auto simp: relay_ok_def)
  have full: "e \<noteq> None" if "n \<in> snd ` set (needle_forms secret)" "8 \<le> length n" "contains (body_bytes src) n" for n
    using clean [OF that(1,2)] that(3) all(2) by auto
  have deliver: "e = None" if "\<forall>w. contains (body_bytes src) w \<longrightarrow> Scan (New secret) w = None"
    "body_end src = EOF" "length (body_bytes src) \<le> cap"
  proof (rule ccontr)
    assume "e \<noteq> None"
    from err [OF this that(2,3)] obtain l where "e = Some (ReflectedError l)" ..
    from hit [OF this] that(1) show False by auto
  qed
  show ?thesis
  proof (intro conjI ballI impI all(1))
    fix n assume n: "n \<in> snd ` set (needle_forms secret)" "8 \<le> length n"
    show "\<not> contains (written st) n" by (rule clean [OF n])
    assume "contains (body_bytes src) n"
    from full [OF n this] show "e \<noteq> None" .
    then show "\<exists>l. e = Some (ReflectedError l)" if "body_end src = EOF \<and> length (body_bytes src) \<le> cap"
      using err that by blast
  qed (use all(2) in blast, use deliver in blast)
qed

theorem relay_blocks_reflection_witness:
  "\<exists>l st. Relay (New ''s3cr3t-k3y'') (Read ''you sent s3cr'' (Last ''3t-k3y'' EOF)) DefaultHoldBack 100 = (Some (ReflectedError l), st) \<and>
     \<not> contains (written st) ''s3cr3t-k3y''"
proof -
  let ?src = "Read ''you sent s3cr'' (Last ''3t-k3y'' EOF)"
  obtain e st where r: "Relay (New ''s3cr3t-k3y'') ?src DefaultHoldBack 100 = (e, st)" by fastforce
  have "8 \<le> length ''s3cr3t-k3y''" "length ''s3cr3t-k3y'' \<le> 65536" by simp_all
  note claim = relay_blocks_reflection [OF this r]
  have n: "''s3cr3t-k3y'' \<in> snd ` set (needle_forms ''s3cr3t-k3y'')" by (simp add: needle_forms_def)
  note found = mp [OF bspec [OF conjunct1 [OF conjunct2 [OF conjunct2 [OF claim]]] n]]
  have "\<not> contains (written st) ''s3cr3t-k3y'' \<and> (\<exists>l. e = Some (ReflectedError l))"
    using found by (simp add: has_prefix_def)
  then show ?thesis using r by auto
qed

text \<open>
  A needle that ends behind the point where held-back bytes are released has already been
  delivered up to that point: the relay stops with the error, but all but the last byte of the secret is out.
\<close>

definition leaky_body :: "nat \<Rightarrow> upstream_body" where
  "leaky_body N = Read (replicate N CHR ''.'' @ ''s3cr3t-k3'') (Last ''y'' EOF)"

lemma sample_needles:
  "needles (New ''s3cr3t-k3y'') =
     [(''plaintext'', ''s3cr3t-k3y''), (''hex'', ''7333637233742d6b3379''), (''hex'', ''7333637233742D6B3379''),
      (''base64'', ''czNjcjN0LWszeQ==''), (''base64'', ''czNjcjN0LWsz''), (''base64'', ''MzY3IzdC1r''), (''base64'', ''zM2NyM3QtazN5'')]"
  by code_simp

lemma sample_scan_prefix: "Scan (New ''s3cr3t-k3y'') (replicate N CHR ''.'' @ ''s3cr3t-k3'') = None"
proof -
  have "find_needle (New ''s3cr3t-k3y'') (replicate N CHR ''.'' @ ''s3cr3t-k3'') = None"
    by (simp add: find_needle_None sample_needles contains_skip has_prefix_def)
  then show ?thesis by (simp add: Scan_def unescapers_def)
qed

lemma sample_scan_whole: "\<exists>l. Scan (New ''s3cr3t-k3y'') (replicate N CHR ''.'' @ ''s3cr3t-k3y'') = Some l"
proof -
  have "contains (replicate N CHR ''.'' @ ''s3cr3t-k3y'') ''s3cr3t-k3y''" by (simp add: contains_skip has_prefix_def)
  then show ?thesis using Scan_None [of "New ''s3cr3t-k3y''" _ "''s3cr3t-k3y''"] by (force simp: sample_needles)
qed

lemma relay_delivers_prefix:
  assumes "2 ^ 20 \<le> N"
  shows "\<exists>l st. Relay (New ''s3cr3t-k3y'') (leaky_body N) DefaultHoldBack (N + 9) = (Some (ReflectedError l), st) \<and>
     written st = replicate N CHR ''.'' @ ''s3cr3t-k3''"
proof -
  let ?s = "New ''s3cr3t-k3y''" and ?c = "replicate N CHR ''.'' @ ''s3cr3t-k3''"
  let ?st = "\<lparr>pending = [], tail = [], committed = False, written = [], accepts = N + 9\<rparr>"
  let ?st1 = "\<lparr>pending = [], tail = replicate 150 CHR ''.'' @ ''s3cr3t-k3'', committed = True, written = ?c, accepts = 0\<rparr>"
  have ov: "Overlap ?s = 159" by code_simp
  have "drop (N + 9 - 159) ?c = replicate 150 CHR ''.'' @ ''s3cr3t-k3''" using assms by simp
  then have 1: "take_chunk ?s 159 (2 ^ 20) ?c ?st = (None, ?st1)"
    using assms sample_scan_prefix [of N]
    by (simp add: take_chunk_def scan_window_def flush_def conn_write_def Let_def)
  obtain l where "Scan ?s (replicate 150 CHR ''.'' @ ''s3cr3t-k3y'') = Some l" using sample_scan_whole by blast
  then have 2: "take_chunk ?s 159 (2 ^ 20) ''y'' ?st1 = (Some (ReflectedError l), ?st1\<lparr>pending := ''y''\<rparr>)"
    by (simp add: take_chunk_def scan_window_def Let_def)
  have "Relay ?s (leaky_body N) DefaultHoldBack (N + 9) = relay_loop ?s 159 (2 ^ 20) (leaky_body N) ?st"
    by (simp add: Relay_def Armed_def ov sample_needles DefaultHoldBack_def chunkSize_def Let_def)
  also have "\<dots> = (Some (ReflectedError l), ?st1\<lparr>pending := ''y''\<rparr>)"
    using 1 2 by (simp add: leaky_body_def)
  finally show ?thesis by simp
qed

text \<open>
  The form reading turns plus signs into spaces, which does not change the length, and a reading of unchanged
  length is skipped: a secret with a space in it, echoed with a plus for the space and otherwise as it is, is not seen.
\<close>

lemma scan_misses_plus_form:
  "appendPercentDecoded True ''token=s3cr3t+k3y/x'' = ''token=s3cr3t k3y/x'' \<and>
   Scan (New ''s3cr3t k3y/x'') ''token=s3cr3t+k3y/x'' = None"
  by code_simp

section \<open>A secret inside a larger encoded text\<close>

lemma Scan_hit:
  assumes "n \<in> snd ` set (needle_forms secret)" "8 \<le> length n" "secret \<noteq> []" "contains b n"
  shows "\<exists>l. Scan (New secret) b = Some l"
  using Scan_None [of "New secret" b n] New_needles [OF assms(3)] assms by (auto simp: minNeedle_def)

lemma three_dvd [simp]: "(3::nat) dvd Suc (Suc (Suc n)) \<longleftrightarrow> 3 dvd n" "\<not> (3::nat) dvd Suc (Suc 0)"
  by presburger+

lemma b64_enc_append: "3 dvd length p \<Longrightarrow> b64_enc al pad (p @ x) = b64_enc al pad p @ b64_enc al pad x"
  by (induction al pad p rule: b64_enc.induct) auto

lemma b64_enc_whole: "3 dvd length p \<Longrightarrow> b64_enc al pad p = b64_enc al False p \<and> length (b64_enc al pad p) = length p div 3 * 4"
  by (induction al pad p rule: b64_enc.induct) auto

text \<open>The characters behind the first two or three do not depend on the bytes in front.\<close>

lemma b64_enc_phase:
  assumes "length a = ph" "length a' = ph" "ph \<le> 2" "3 \<le> ph + length s"
  shows "drop ([0, 2, 3] ! ph) (b64_enc al pad (a @ s)) = drop ([0, 2, 3] ! ph) (b64_enc al pad (a' @ s))"
proof -
  consider "ph = 0" | "ph = 1" | "ph = 2" using assms(3) by linarith
  then show ?thesis
  proof cases
    case 2
    then obtain x x' u v r where "a = [x]" "a' = [x']" "s = u # v # r"
      using assms by (auto simp: length_Suc_conv numeral_2_eq_2 Suc_le_length_iff numeral_3_eq_3)
    with 2 show ?thesis by (simp add: numeral_2_eq_2)
  next
    case 3
    then obtain x y x' y' v r where "a = [x, y]" "a' = [x', y']" "s = v # r"
      using assms by (auto simp: length_Suc_conv numeral_2_eq_2 Suc_le_length_iff numeral_3_eq_3)
    with 3 show ?thesis by (simp add: numeral_2_eq_2 numeral_3_eq_3)
  qed (use assms in auto)
qed

lemma phaseSlice_eq:
  assumes "length a \<le> 2" "m = (length a + length s) div 3 * 3" "length a + length s = m + length q" "a @ s = p @ q" "length p = m"
  shows "phaseSlice (b64_enc al False) s (length a) = drop ([0, 2, 3] ! length a) (b64_enc al pad p)"
proof (cases "m = 0")
  case True
  then have z: "(length a + length s) div 3 * 4 = 0" "p = []" using assms(2,5) by auto
  show ?thesis unfolding phaseSlice_def Let_def z(1) z(2) using assms(1) by simp
next
  case False
  let ?z = "replicate (length a) (CHR 0x00)" and ?h = "[0, 2, 3] ! length a"
  have m3: "3 dvd m" "3 \<le> m" using assms(2) False by auto
  have s: "s = take (m - length a) s @ q" "length (take (m - length a) s) = m - length a"
  proof -
    have "q = drop m (a @ s)" using assms(4,5) by simp
    then show "s = take (m - length a) s @ q" using assms(1) m3 by simp
    show "length (take (m - length a) s) = m - length a" using assms(3) by simp
  qed
  let ?t = "take (m - length a) s"
  have "(a @ ?t) @ q = p @ q" using assms(4) s(1) by (metis append.assoc)
  then have p: "p = a @ ?t" by simp
  have zt: "3 dvd length (?z @ ?t)" using s(2) m3 assms(1) by simp
  have enc: "b64_enc al False (?z @ s) = b64_enc al False (?z @ ?t) @ b64_enc al False q"
    using b64_enc_append [OF zt, of al False q] s(1) by (metis append.assoc)
  have len: "length (b64_enc al False (?z @ ?t)) = (length a + length s) div 3 * 4"
    using b64_enc_whole [OF zt, of al False] s(2) m3 assms(1,2) by auto
  have "phaseSlice (b64_enc al False) s (length a) = drop ?h (b64_enc al False (?z @ ?t))"
    using assms(1) enc len m3 by (auto simp: phaseSlice_def Let_def)
  also have "\<dots> = drop ?h (b64_enc al False (a @ ?t))"
    by (rule b64_enc_phase) (use assms(1) s(2) m3 in auto)
  also have "\<dots> = drop ?h (b64_enc al pad p)" using p b64_enc_whole [of p al pad] assms(5) m3 by auto
  finally show ?thesis .
qed

lemma phaseSlice_prefix:
  assumes "length a \<le> 2"
  obtains p q where "a @ s = p @ q" "length p = (length a + length s) div 3 * 3"
    "phaseSlice (b64_enc al False) s (length a) = drop ([0, 2, 3] ! length a) (b64_enc al pad p)"
proof -
  let ?m = "(length a + length s) div 3 * 3"
  let ?p = "take ?m (a @ s)" and ?q = "drop ?m (a @ s)"
  have m: "?m \<le> length a + length s" by simp
  have cut: "a @ s = ?p @ ?q" by (rule append_take_drop_id [symmetric])
  have "phaseSlice (b64_enc al False) s (length a) = drop ([0, 2, 3] ! length a) (b64_enc al pad ?p)"
    by (rule phaseSlice_eq [OF assms refl _ cut]) (use m in auto)
  moreover have "length ?p = ?m" using m by simp
  ultimately show ?thesis using that [OF cut] by blast
qed

lemma phaseSlice_contained: "contains (b64_enc al pad (a @ s @ b)) (phaseSlice (b64_enc al False) s (length a mod 3))"
proof -
  let ?k = "length a div 3 * 3"
  define a0 a1 where "a0 = take ?k a" and "a1 = drop ?k a"
  have a: "a = a0 @ a1" "3 dvd length a0" "length a1 = length a mod 3"
    by (simp_all add: a0_def a1_def minus_div_mult_eq_mod)
  then have "length a1 \<le> 2" by auto
  then obtain p q where pq: "a1 @ s = p @ q" "length p = (length a1 + length s) div 3 * 3"
    "phaseSlice (b64_enc al False) s (length a1) = drop ([0, 2, 3] ! length a1) (b64_enc al pad p)"
    by (rule phaseSlice_prefix)
  let ?h = "[0, 2, 3] ! length a1"
  have "a @ s @ b = a0 @ p @ q @ b" using a(1) pq(1) by (metis append.assoc)
  moreover have "b64_enc al pad (a0 @ p @ q @ b) = b64_enc al pad a0 @ b64_enc al pad p @ b64_enc al pad (q @ b)"
    using a(2) pq(2) by (simp add: b64_enc_append)
  ultimately have "b64_enc al pad (a @ s @ b) = b64_enc al pad a0 @ b64_enc al pad p @ b64_enc al pad (q @ b)" by metis
  also have "\<dots> = (b64_enc al pad a0 @ take ?h (b64_enc al pad p)) @ drop ?h (b64_enc al pad p) @ b64_enc al pad (q @ b)" by simp
  finally show ?thesis using pq(3) a(3) by (metis contains_iff)
qed

lemma phaseSlice_long:
  assumes "8 \<le> length s" "ph \<le> 2"
  shows "8 \<le> length (phaseSlice (b64_enc al False) s ph)"
proof -
  have "length (replicate ph (CHR 0x00)) \<le> 2" using assms(2) by simp
  then obtain p q where p: "length p = (ph + length s) div 3 * 3"
    "phaseSlice (b64_enc al False) s ph = drop ([0, 2, 3] ! ph) (b64_enc al False p)"
    using phaseSlice_prefix [of "replicate ph (CHR 0x00)" s] by (metis length_replicate)
  then have "length (phaseSlice (b64_enc al False) s ph) = (ph + length s) div 3 * 4 - [0, 2, 3] ! ph"
    using b64_enc_whole [of p al False] by simp
  moreover have "ph = 0 \<or> ph = 1 \<or> ph = 2" using assms(2) by linarith
  ultimately show ?thesis using assms(1) by auto
qed

lemma hex_encode_append: "hex_encode (a @ b) = hex_encode a @ hex_encode b"
  by (simp add: hex_encode_def)

text \<open>
  A secret of eight bytes or more is recognised when an upstream returns it as part of a
  larger text that it encoded as a whole: whatever stands before and behind the secret, the
  base64 of the text (either alphabet, with or without padding), its hexadecimal form in either
  case and the text itself are refused, wherever they stand in the scanned bytes.
\<close>

theorem embedded_echo_caught:
  assumes "8 \<le> length secret" "al \<in> {std_alphabet, url_alphabet}"
  shows "(\<exists>l. Scan (New secret) (pre @ b64_enc al pad (a @ secret @ b) @ post) = Some l) \<and>
    (\<exists>l. Scan (New secret) (pre @ hex_encode (a @ secret @ b) @ post) = Some l) \<and>
    (\<exists>l. Scan (New secret) (pre @ to_upper (hex_encode (a @ secret @ b)) @ post) = Some l) \<and>
    (\<exists>l. Scan (New secret) (pre @ (a @ secret @ b) @ post) = Some l)"
proof -
  have ne: "secret \<noteq> []" using assms(1) by auto
  have hit: "\<exists>l. Scan (New secret) (pre @ t @ post) = Some l"
    if "contains t n" "n \<in> snd ` set (needle_forms secret)" "8 \<le> length n" for t n
    using Scan_hit [OF that(2,3) ne] contains_appendI [OF that(1)] by blast
  let ?ph = "length a mod 3"
  have "?ph = 0 \<or> ?ph = 1 \<or> ?ph = 2" by auto
  then have "phaseSlice (b64_enc al False) secret ?ph \<in> snd ` set (needle_forms secret)"
    using assms(2) by (auto simp: needle_forms_def rawstd64_encode_def rawurl64_encode_def)
  then have 1: "\<exists>l. Scan (New secret) (pre @ b64_enc al pad (a @ secret @ b) @ post) = Some l"
    by (rule hit [OF phaseSlice_contained]) (simp add: phaseSlice_long [OF assms(1)])
  have c: "contains (hex_encode (a @ secret @ b)) (hex_encode secret)"
    "contains (to_upper (hex_encode (a @ secret @ b))) (to_upper (hex_encode secret))" "contains (a @ secret @ b) secret"
    by (auto simp: contains_iff hex_encode_append to_upper_def)
  have n: "hex_encode secret \<in> snd ` set (needle_forms secret)" "to_upper (hex_encode secret) \<in> snd ` set (needle_forms secret)"
    "secret \<in> snd ` set (needle_forms secret)"
    by (simp_all add: needle_forms_def)
  have "8 \<le> length (hex_encode secret)" "8 \<le> length (to_upper (hex_encode secret))"
    using assms(1) by (simp_all add: hex_encode_length to_upper_def)
  with 1 hit [OF c(1) n(1)] hit [OF c(2) n(2)] hit [OF c(3) n(3) assms(1)] show ?thesis by simp
qed

theorem embedded_echo_caught_witness:
  "\<exists>l. Scan (New ''s3cr3t-k3y'') (''{basic:'' @ b64_enc std_alphabet True (''user:'' @ ''s3cr3t-k3y'' @ ''!'') @ ''}'') = Some l"
  by (rule conjunct1 [OF embedded_echo_caught]) simp_all


section \<open>A secret behind an escaping of any dialect\<close>

text \<open>
  A text rendered by some encoder: every character stands for itself, unless it is the one that
  introduces escapes, or a piece of the text is replaced by an escape for it.
\<close>

inductive renders :: "(bytes \<Rightarrow> bytes \<Rightarrow> bool) \<Rightarrow> char \<Rightarrow> bytes \<Rightarrow> bytes \<Rightarrow> bool" for piece trig where
  empty: "renders piece trig [] []"
| literal: "c \<noteq> trig \<Longrightarrow> renders piece trig e t \<Longrightarrow> renders piece trig (c # e) (c # t)"
| escape: "piece x y \<Longrightarrow> renders piece trig e t \<Longrightarrow> renders piece trig (x @ e) (y @ t)"

lemma renders_literals: "trig \<notin> set u \<Longrightarrow> renders piece trig e t \<Longrightarrow> renders piece trig (u @ e) (u @ t)"
  by (induction u) (auto intro: renders.literal)

lemma scan_readings_hit:
  assumes "(label, trig, fn) \<in> set us" "trig \<in> set b" "length (fn b) \<noteq> length b" "find_needle s (fn b) \<noteq> None"
  shows "scan_readings s b us \<noteq> None"
  using assms(1)
proof (induction us)
  case (Cons u us)
  obtain l t f where u: "u = (l, t, f)" by (cases u)
  show ?case
  proof (cases "u = (label, trig, fn)")
    case True
    then show ?thesis using assms(2-4) by (auto simp: Let_def)
  next
    case False
    then have "scan_readings s b us \<noteq> None" using Cons by simp
    then show ?thesis by (cases "find_needle s (f b)") (simp_all add: u Let_def)
  qed
qed simp

locale escaping =
  fixes decode :: "bytes \<Rightarrow> bytes"
    and trigger :: char
    and piece :: "bytes \<Rightarrow> bytes \<Rightarrow> bool"
  assumes decode_empty: "decode [] = []"
    and decode_literal: "c \<noteq> trigger \<Longrightarrow> decode (c # r) = c # decode r"
    and decode_escape: "piece x y \<Longrightarrow> decode (x @ r) = y @ decode r"
    and escape_longer: "piece x y \<Longrightarrow> length y < length x \<and> trigger \<in> set x"
begin

lemma decode_renders: "renders piece trigger e t \<Longrightarrow> decode e = t"
  by (induction rule: renders.induct) (simp_all add: decode_empty decode_literal decode_escape)

lemma renders_cases: "renders piece trigger e t \<Longrightarrow> e = t \<or> (length t < length e \<and> trigger \<in> set e)"
  by (induction rule: renders.induct) (auto dest: escape_longer)

lemma scan_renders:
  assumes "renders piece trigger e t" "(label, trigger, decode) \<in> set us" "find_needle s t \<noteq> None"
  shows "find_needle s e \<noteq> None \<or> scan_readings s e us \<noteq> None"
proof (cases "e = t")
  case False
  then have "length t < length e" "trigger \<in> set e" using renders_cases [OF assms(1)] by auto
  moreover have "decode e = t" by (rule decode_renders [OF assms(1)])
  ultimately show ?thesis using scan_readings_hit [OF assms(2), of e s] assms(3) by simp
qed (use assms(3) in simp)

end

definition percent_piece :: "bytes \<Rightarrow> bytes \<Rightarrow> bool" where
  "percent_piece x y \<longleftrightarrow> (\<exists>h l a b. x = [CHR ''%'', h, l] \<and> unhex h = Some a \<and> unhex l = Some b \<and> y = [char_of (16 * a + b)])"

definition short_escapes :: "(char \<times> char) list" where
  "short_escapes = [(CHR ''b'', CHR 0x08), (CHR ''f'', CHR 0x0C), (CHR ''n'', CHR 0x0A), (CHR ''r'', CHR 0x0D), (CHR ''t'', CHR 0x09)]"

definition json_piece :: "bytes \<Rightarrow> bytes \<Rightarrow> bool" where
  "json_piece x y \<longleftrightarrow>
     (\<exists>d c. x = [CHR 0x5C, d] \<and> y = [c] \<and> ((d, c) \<in> set short_escapes \<or> (d = c \<and> d \<notin> set ''bfnrtu''))) \<or>
     (\<exists>cp. decodeUnicodeEscape x = Some (cp, length x) \<and> y = append_rune cp)"

definition entity_piece :: "bytes \<Rightarrow> bytes \<Rightarrow> bool" where
  "entity_piece x y \<longleftrightarrow>
     (\<exists>name ch r. (name, ch) \<in> set named_entities \<and> x = CHR ''&'' # r \<and> equalFoldASCII r name \<and> y = [ch]) \<or>
     (\<exists>cp. decodeNumericEntity x = Some (cp, length x) \<and> y = append_rune cp)"

lemma length_append_rune: "length (append_rune r) \<le> 4"
  by (simp add: append_rune_def Let_def)

lemma percent_literal: "c \<noteq> CHR ''%'' \<Longrightarrow> appendPercentDecoded False (c # r) = c # appendPercentDecoded False r"
  by (cases "(False, c # r)" rule: appendPercentDecoded.cases) (auto simp: plain_byte_def)

interpretation percent: escaping "appendPercentDecoded False" "CHR ''%''" percent_piece
  by unfold_locales (auto simp: percent_literal percent_piece_def)

lemma json_literal: "c \<noteq> CHR 0x5C \<Longrightarrow> appendJSONUnescaped (c # r) = c # appendJSONUnescaped r"
  by (cases r) auto

lemma hex4_append: "4 \<le> length b \<Longrightarrow> hex4 (b @ r) = hex4 b"
  by (simp add: hex4_def)

lemma decodeUnicodeEscape_append:
  assumes "decodeUnicodeEscape x = Some (cp, length x)"
  shows "decodeUnicodeEscape (x @ r) = Some (cp, length x) \<and> (\<exists>z. x = CHR 0x5C # CHR ''u'' # z) \<and> 6 \<le> length x"
proof -
  have l: "length x = 6 \<or> length x = 12" "6 \<le> length x" "take 2 x = [CHR 0x5C, CHR ''u'']"
    using assms by (auto simp: decodeUnicodeEscape_def Let_def split: if_splits option.splits)
  then have z: "\<exists>z. x = CHR 0x5C # CHR ''u'' # z"
    by (metis append_Cons append_Nil append_take_drop_id)
  have "hex4 (drop 2 (x @ r)) = hex4 (drop 2 x)" using l(2) hex4_append [of "drop 2 x" r] by simp
  moreover have "length x = 12 \<Longrightarrow> hex4 (drop 8 (x @ r)) = hex4 (drop 8 x)" using hex4_append [of "drop 8 x" r] by simp
  ultimately show ?thesis using assms l z
    by (auto simp: decodeUnicodeEscape_def Let_def split: if_splits option.splits)
qed

interpretation json: escaping appendJSONUnescaped "CHR 0x5C" json_piece
proof unfold_locales
  fix x y r assume p: "json_piece x y"
  show "appendJSONUnescaped (x @ r) = y @ appendJSONUnescaped r"
  proof (cases "\<exists>cp. decodeUnicodeEscape x = Some (cp, length x) \<and> y = append_rune cp")
    case True
    then obtain cp z where "decodeUnicodeEscape (x @ r) = Some (cp, length x)" "y = append_rune cp" "x = CHR 0x5C # CHR ''u'' # z"
      using decodeUnicodeEscape_append [of x _ r] by auto
    then show ?thesis by simp
  qed (use p in \<open>auto simp: json_piece_def short_escapes_def\<close>)
  show "length y < length x \<and> CHR 0x5C \<in> set x"
    using p decodeUnicodeEscape_append [of x] length_append_rune
    by (fastforce simp: json_piece_def intro: le_less_trans)
qed (simp_all add: json_literal)

text \<open>What Go writes as a JSON string is one of those spellings, so undoing it gives the text back.\<close>

lemma unhex_hex_digits: "k < 16 \<Longrightarrow> unhex (hex_digits ! k) = Some k"
proof -
  have "list_all (\<lambda>k. unhex (hex_digits ! k) = Some k) [0..<16]" by code_simp
  then show "k < 16 \<Longrightarrow> unhex (hex_digits ! k) = Some k" by (simp add: list_all_iff del: upt.simps)
qed

lemma json_piece_unicode:
  assumes "map unhex ds = [Some a, Some b, Some c, Some d]" "\<not> is_surrogate (((a * 16 + b) * 16 + c) * 16 + d)"
  shows "json_piece (CHR 0x5C # CHR ''u'' # ds) (append_rune (((a * 16 + b) * 16 + c) * 16 + d))"
proof -
  have "length ds = 4" using arg_cong [OF assms(1), of length] by simp
  then have "decodeUnicodeEscape (CHR 0x5C # CHR ''u'' # ds) = Some (((a * 16 + b) * 16 + c) * 16 + d, 6)"
    using assms by (simp add: decodeUnicodeEscape_def hex4_def)
  then show ?thesis using \<open>length ds = 4\<close> unfolding json_piece_def by simp
qed

lemma json_ascii_piece:
  assumes "byte_val c < 128"
  shows "json_ascii c = [c] \<and> c \<noteq> CHR 0x5C \<or> json_piece (json_ascii c) [c]"
proof (cases "length (json_ascii c) = 6")
  case True
  let ?ds = "CHR ''0'' # CHR ''0'' # [hex_digits ! (byte_val c div 16), hex_digits ! (byte_val c mod 16)]"
  have "unhex CHR ''0'' = Some 0" by code_simp
  then have "map unhex ?ds = [Some 0, Some 0, Some (byte_val c div 16), Some (byte_val c mod 16)]"
    using unhex_hex_digits assms by simp
  from json_piece_unicode [OF this] have "json_piece (CHR 0x5C # CHR ''u'' # ?ds) (append_rune (byte_val c))"
    using assms by (simp add: is_surrogate_def)
  moreover have "append_rune (byte_val c) = [c]" using assms by (simp add: append_rune_def valid_rune_def Let_def)
  moreover have "json_ascii c = CHR 0x5C # CHR ''u'' # ?ds" using True by (simp add: json_ascii_def split: if_splits)
  ultimately show ?thesis by simp
next
  case False
  then show ?thesis by (auto simp: json_ascii_def json_piece_def short_escapes_def split: if_splits)
qed

lemma json_ascii_renders:
  assumes "byte_val c < 128" "renders json_piece CHR 0x5C e t"
  shows "renders json_piece CHR 0x5C (json_ascii c @ e) (c # t)"
  using json_ascii_piece [OF assms(1)] renders.literal [of c "CHR 0x5C" json_piece e t]
    renders.escape [of json_piece "json_ascii c" "[c]" "CHR 0x5C" e t] assms(2) by auto

lemma json_piece_separators:
  "json_piece (CHR 0x5C # ''u2028'') [CHR 0xE2, CHR 0x80, CHR 0xA8]" "json_piece (CHR 0x5C # ''u2029'') [CHR 0xE2, CHR 0x80, CHR 0xA9]"
proof -
  have u: "map unhex ''2028'' = [Some 2, Some 0, Some 2, Some 8]" "map unhex ''2029'' = [Some 2, Some 0, Some 2, Some 9]" by code_simp+
  have "char_of (226 :: nat) = CHR 0xE2" "char_of (128 :: nat) = CHR 0x80" "char_of (168 :: nat) = CHR 0xA8" "char_of (169 :: nat) = CHR 0xA9"
    by (simp_all add: char_of_def bit_0)
  then have r: "append_rune 0x2028 = [CHR 0xE2, CHR 0x80, CHR 0xA8]" "append_rune 0x2029 = [CHR 0xE2, CHR 0x80, CHR 0xA9]"
    by (simp_all add: append_rune_def valid_rune_def)
  show "json_piece (CHR 0x5C # ''u2028'') [CHR 0xE2, CHR 0x80, CHR 0xA8]" "json_piece (CHR 0x5C # ''u2029'') [CHR 0xE2, CHR 0x80, CHR 0xA9]"
    using json_piece_unicode [OF u(1)] json_piece_unicode [OF u(2)] r by (simp_all add: is_surrogate_def)
qed

lemma rune_size_bytes:
  assumes "rune_size s = Some n" "\<not> byte_val (hd s) < 0x80"
  shows "n \<le> length s" "\<And>i. i < n \<Longrightarrow> 0x80 \<le> byte_val (s ! i)" "take 3 s = [CHR 0xE2, CHR 0x80, x] \<Longrightarrow> n = 3"
proof -
  have s: "s \<noteq> []" using assms(1) by (auto simp: rune_size_def)
  have "n \<in> {2, 3, 4} \<and> (\<forall>i. 0 < i \<and> i < n \<longrightarrow> i < length s \<and> 0x80 \<le> byte_val (s ! i))"
  proof -
    have r: "in_range 160 191 s i \<Longrightarrow> i < length s \<and> 0x80 \<le> byte_val (s ! i)"
      "in_range 144 191 s i \<Longrightarrow> i < length s \<and> 0x80 \<le> byte_val (s ! i)"
      "in_range 0x80 hi s i \<Longrightarrow> i < length s \<and> 0x80 \<le> byte_val (s ! i)" for hi i
      by (auto simp: in_range_def)
    have i: "i = 1" if "0 < i" "i < 2" for i :: nat using that by simp
    have i3: "i = 1 \<or> i = 2" if "0 < i" "i < 3" for i :: nat using that by auto
    have i4: "i = 1 \<or> i = 2 \<or> i = 3" if "0 < i" "i < 4" for i :: nat using that by auto
    show ?thesis using assms s unfolding rune_size_def Let_def
      by (auto simp del: One_nat_def split: if_splits dest!: i i3 i4 r)
  qed
  then have n: "n \<in> {2, 3, 4}" "0 < i \<Longrightarrow> i < n \<Longrightarrow> i < length s \<and> 0x80 \<le> byte_val (s ! i)" for i by auto
  show "n \<le> length s" using n(1) n(2) [of "n - 1"] by auto
  show "i < n \<Longrightarrow> 0x80 \<le> byte_val (s ! i)" for i
    using n(2) [of i] assms(2) s by (cases "i = 0") (auto simp: hd_conv_nth)
  have "hd s = CHR 0xE2" if "take 3 s = [CHR 0xE2, CHR 0x80, x]" using that s by (cases s) auto
  then show "take 3 s = [CHR 0xE2, CHR 0x80, x] \<Longrightarrow> n = 3"
    using assms s by (auto simp: rune_size_def Let_def split: if_splits)
qed

lemma json_escape_renders: "utf8_valid s \<Longrightarrow> renders json_piece CHR 0x5C (json_escape s) s"
proof (induction s rule: json_escape.induct)
  case (1 s)
  show ?case
  proof (cases s)
    case (Cons c r)
    obtain n where n: "rune_size s = Some n" "utf8_valid (drop n s)"
      using 1(4) [unfolded utf8_valid.simps [of s]] Cons by (auto split: option.splits)
    show ?thesis
    proof (cases "byte_val c < 0x80")
      case True
      then have "n = 1" using n(1) Cons by (simp add: rune_size_def Let_def)
      then show ?thesis using json_ascii_renders [OF True 1(1) [OF Cons True]] True n(2) Cons by (simp add: json_escape.simps [of "c # r"])
    next
      case False
      note ih = 1(3) [OF Cons False n(1) n(2)]
      note size = rune_size_bytes [OF n(1)]
      have "s ! i \<noteq> CHR 0x5C" if "i < n" for i using size(2) [OF _ that] False Cons by auto
      then have "CHR 0x5C \<notin> set (take n s)" by (auto simp: in_set_conv_nth)
      moreover obtain x where x: "json_escape s = x @ json_escape (drop n s)" "x = take n s \<or> json_piece x (take n s)"
        using False n(1) Cons size(3) json_piece_separators by (subst (asm) json_escape.simps) (auto split: if_splits)
      ultimately have "renders json_piece CHR 0x5C (x @ json_escape (drop n s)) (take n s @ drop n s)"
        using ih by (auto intro: renders_literals renders.escape simp del: append_take_drop_id)
      then show ?thesis by (simp add: x(1))
    qed
  qed (simp add: json_escape.simps renders.empty)
qed

lemma json_escape_undone: "utf8_valid s \<Longrightarrow> appendJSONUnescaped (json_escape s) = s"
  by (rule json.decode_renders [OF json_escape_renders])

lemma unhex_bound: "unhex c = Some d \<Longrightarrow> d < 16" "unhex c = Some d \<Longrightarrow> byte_val c \<le> 57 \<Longrightarrow> d < 10"
  by (auto simp: unhex_def Let_def split: if_splits)

lemma entity_digits_append:
  "entity_digits base v n x = Some (v', n') \<Longrightarrow> entity_digits base v n (x @ r) = Some (v', n')"
  by (induction base v n x rule: entity_digits.induct) (auto simp: Let_def split: if_splits option.splits)

lemma entity_digits_bound:
  "entity_digits base v n x = Some (v', n') \<Longrightarrow> base = 10 \<or> base = 16 \<Longrightarrow> 0 < n' \<and> n \<le> n' \<and> v' < Suc v * base ^ (n' - n)"
proof (induction base v n x rule: entity_digits.induct)
  case (2 base v n c r)
  show ?case
  proof (cases "c = CHR '';''")
    case False
    then obtain d where d: "unhex c = Some d" "base = 16 \<or> (48 \<le> byte_val c \<and> byte_val c \<le> 57)"
        "entity_digits base (v * base + d) (n + 1) r = Some (v', n')"
      using "2.prems"(1) by (auto simp: Let_def split: if_splits option.splits)
    then have "d < base" using unhex_bound [OF d(1)] "2.prems"(2) by auto
    have "\<not> 0x10FFFF < v * base + d" using False d "2.prems"(1) by (auto simp: Let_def split: if_splits)
    then have ih: "0 < n'" "n + 1 \<le> n'" "v' < Suc (v * base + d) * base ^ (n' - (n + 1))"
      using "2.IH" [OF False _ refl _ d(3)] d(1,2) "2.prems"(2) by auto
    have "Suc (v * base + d) * base ^ (n' - (n + 1)) \<le> (Suc v * base) * base ^ (n' - (n + 1))"
      using \<open>d < base\<close> by (intro mult_right_mono) auto
    also have "\<dots> = Suc v * base ^ (n' - n)"
      using ih(2) by (metis Suc_diff_Suc Suc_eq_plus1 Suc_le_lessD mult.assoc power_Suc)
    finally show ?thesis using ih by auto
  qed (use "2.prems" in \<open>auto split: if_splits\<close>)
qed simp

lemma decodeNumericEntity_append:
  assumes "decodeNumericEntity x = Some (cp, length x)"
  shows "decodeNumericEntity (x @ r) = Some (cp, length x) \<and> hd x = CHR ''&'' \<and> x \<noteq> [] \<and> length (append_rune cp) < length x"
proof -
  let ?i = "if x ! 2 \<in> set ''xX'' then 3 else 2 :: nat" and ?b = "if x ! 2 \<in> set ''xX'' then 16 else 10 :: nat"
  obtain n where n: "4 \<le> length x" "take 2 x = ''&#''" "entity_digits ?b 0 0 (drop ?i x) = Some (cp, n)" "valid_rune cp"
      "length x = ?i + n + 1"
    using assms by (auto simp: decodeNumericEntity_def Let_def split: if_splits option.splits)
  then have "(x @ r) ! 2 = x ! 2" "drop ?i (x @ r) = drop ?i x @ r" by (auto simp: nth_append)
  then have 1: "decodeNumericEntity (x @ r) = Some (cp, length x)"
    using n entity_digits_append [OF n(3), of r] by (simp add: decodeNumericEntity_def Let_def)
  have "0 < n" "cp < ?b ^ n" using entity_digits_bound [OF n(3)] by auto
  then have "length (append_rune cp) < length x"
    using n(1,4,5) length_append_rune [of cp] by (cases "length x = 4") (auto simp: append_rune_def Let_def split: if_splits)
  moreover have "hd x = CHR ''&''" "x \<noteq> []" using n(1,2) by (cases x; auto)+
  ultimately show ?thesis using 1 by simp
qed

lemma find_unique: "x \<in> set xs \<Longrightarrow> P x \<Longrightarrow> (\<And>y. y \<in> set xs \<Longrightarrow> y \<noteq> x \<Longrightarrow> \<not> P y) \<Longrightarrow> find P xs = Some x"
  by (induction xs) auto

lemma named_entity_found:
  assumes "(name, ch) \<in> set named_entities" "equalFoldASCII x name"
  shows "find (\<lambda>(nm, _). length nm \<le> length (x @ r) \<and> equalFoldASCII (take (length nm) (x @ r)) nm) named_entities = Some (name, ch)"
    and "decodeNumericEntity (CHR ''&'' # x @ r) = None"
proof -
  have low: "map lower_char nm = nm" if "(nm, c) \<in> set named_entities" for nm c
    using that by (auto simp: named_entities_def lower_char_def Let_def)
  have x: "map lower_char x = name" "length x = length name"
    using assms low [OF assms(1)] by (auto simp: equalFoldASCII_def)
  have three: "3 \<le> length name" using assms(1) by (auto simp: named_entities_def)
  then obtain c d z where cd: "x = c # d # z"
    using x(2) by (cases x; cases "tl x"; force)
  have n: "name = lower_char c # lower_char d # map lower_char z" using x(1) cd by simp
  have other: "\<not> equalFoldASCII (take (length nm) (x @ r)) nm"
    if "(nm, ch') \<in> set named_entities" "take 2 nm \<noteq> take 2 name" for nm ch'
  proof
    assume "equalFoldASCII (take (length nm) (x @ r)) nm"
    then have e: "take (length nm) (map lower_char (x @ r)) = nm" using low [OF that(1)] by (simp add: equalFoldASCII_def take_map)
    have "2 \<le> length nm" using that(1) by (auto simp: named_entities_def)
    then have "take 2 nm = take 2 (map lower_char (x @ r))" by (metis e min.absorb1 take_take)
    then show False using that(2) n cd by simp
  qed
  have "take (length name) (x @ r) = x" using x(2) by simp
  then have self: "equalFoldASCII (take (length name) (x @ r)) name" using assms(2) by simp
  show "find (\<lambda>(nm, _). length nm \<le> length (x @ r) \<and> equalFoldASCII (take (length nm) (x @ r)) nm) named_entities = Some (name, ch)"
  proof -
    let ?P = "\<lambda>(nm, _). length nm \<le> length (x @ r) \<and> equalFoldASCII (take (length nm) (x @ r)) nm"
    have yes: "?P (name, ch)" using self x(2) by simp
    have no: "\<not> ?P (nm, ch')" if "(nm, ch') \<in> set named_entities" "take 2 nm \<noteq> take 2 name" for nm ch'
      using other [OF that] by simp
    have "take 2 nm \<noteq> take 2 name" if "(nm, ch') \<in> set named_entities" "(nm, ch') \<noteq> (name, ch)" for nm ch'
      using assms(1) that by (auto simp: named_entities_def)
    then show ?thesis by (intro find_unique assms(1)) (use yes no in \<open>blast+\<close>)
  qed
  have "c \<noteq> CHR ''#''" using n assms(1) by (auto simp: named_entities_def lower_char_def Let_def)
  then show "decodeNumericEntity (CHR ''&'' # x @ r) = None" using cd by (simp add: decodeNumericEntity_def)
qed

interpretation entity: escaping appendEntityUnescaped "CHR ''&''" entity_piece
proof unfold_locales
  fix x y r assume p: "entity_piece x y"
  show "appendEntityUnescaped (x @ r) = y @ appendEntityUnescaped r"
  proof (cases "\<exists>cp. decodeNumericEntity x = Some (cp, length x) \<and> y = append_rune cp")
    case True
    then obtain cp z where "decodeNumericEntity (x @ r) = Some (cp, length x)" "y = append_rune cp" "x = CHR ''&'' # z"
      using decodeNumericEntity_append [of x _ r] by (metis list.collapse)
    then show ?thesis by simp
  next
    case False
    then obtain name ch z where z: "(name, ch) \<in> set named_entities" "x = CHR ''&'' # z" "equalFoldASCII z name" "y = [ch]"
      using p by (auto simp: entity_piece_def)
    then have "length z = length name" by (simp add: equalFoldASCII_def)
    then show ?thesis using named_entity_found [OF z(1,3), of r] z(2,4) by simp
  qed
  show "length y < length x \<and> CHR ''&'' \<in> set x"
    using p
  proof (unfold entity_piece_def, elim disjE exE conjE)
    fix name ch z assume "(name, ch) \<in> set named_entities" "x = CHR ''&'' # z" "equalFoldASCII z name" "y = [ch]"
    then show ?thesis by (auto simp: equalFoldASCII_def named_entities_def)
  next
    fix cp assume "decodeNumericEntity x = Some (cp, length x)" "y = append_rune cp"
    then show ?thesis using decodeNumericEntity_append [of x cp "[]"] by (cases x) auto
  qed
qed simp_all

text \<open>
  The spelling of an escape does not hide a secret: if a text that contains a needle (the
  secret itself, or its hexadecimal or base64 form) comes back with any of its characters
  percent-encoded, or escaped as inside a JSON string, or replaced by HTML entities, in upper or
  lower case, long or short form, and also surrogate pairs and leading zeros, the scan finds it.
\<close>

theorem escaped_echo_caught:
  assumes "n \<in> snd ` set (needle_forms secret)" "8 \<le> length n" "secret \<noteq> []" "contains t n"
    and "renders percent_piece CHR ''%'' e t \<or> renders json_piece CHR 0x5C e t \<or> renders entity_piece CHR ''&'' e t"
  shows "\<exists>l. Scan (New secret) e = Some l"
proof -
  have "find_needle (New secret) t \<noteq> None"
    using assms(1-4) New_needles [OF assms(3)] by (auto simp: find_needle_None minNeedle_def)
  then have "find_needle (New secret) e \<noteq> None \<or> scan_readings (New secret) e unescapers \<noteq> None"
    using assms(5)
  proof (elim disjE)
    assume r: "renders percent_piece CHR ''%'' e t"
    show ?thesis by (rule percent.scan_renders [OF r]) (use \<open>find_needle (New secret) t \<noteq> None\<close> in \<open>simp_all add: unescapers_def\<close>)
  next
    assume r: "renders json_piece CHR 0x5C e t"
    show ?thesis by (rule json.scan_renders [OF r]) (use \<open>find_needle (New secret) t \<noteq> None\<close> in \<open>simp_all add: unescapers_def\<close>)
  next
    assume r: "renders entity_piece CHR ''&'' e t"
    show ?thesis by (rule entity.scan_renders [OF r]) (use \<open>find_needle (New secret) t \<noteq> None\<close> in \<open>simp_all add: unescapers_def\<close>)
  qed
  then show ?thesis using assms(3) by (auto simp: Scan_def split: option.splits)
qed

theorem escaped_echo_caught_witness:
  "\<exists>l. Scan (New ''s3cr3t k3y/x'') ''s3cr3t%20k3y%2fx'' = Some l"
proof (rule escaped_echo_caught [where n = "''s3cr3t k3y/x''"])
  have "char_of (32::nat) = CHR '' ''" "char_of (47::nat) = CHR ''/''" by code_simp+
  then have "percent_piece ''%20'' '' ''" "percent_piece ''%2f'' ''/''" by (simp_all add: percent_piece_def unhex_def)
  note pieces = this
  have "renders percent_piece CHR ''%'' (''s3cr3t'' @ ''%20'' @ ''k3y'' @ ''%2f'' @ ''x'' @ []) (''s3cr3t'' @ '' '' @ ''k3y'' @ ''/'' @ ''x'' @ [])"
    by (rule renders_literals, simp, rule renders.escape, rule pieces, rule renders_literals, simp, rule renders.escape,
        rule pieces, rule renders_literals, simp, rule renders.empty)
  then show "renders percent_piece CHR ''%'' ''s3cr3t%20k3y%2fx'' ''s3cr3t k3y/x'' \<or> renders json_piece CHR 0x5C ''s3cr3t%20k3y%2fx'' ''s3cr3t k3y/x'' \<or>
    renders entity_piece CHR ''&'' ''s3cr3t%20k3y%2fx'' ''s3cr3t k3y/x''" by simp
qed (simp_all add: needle_forms_def has_prefix_def)

end
