(* ===== verification/Secret_Exit.thy ===== *)
theory Secret_Exit
  imports Vault_Crypto Netip
begin

text \<open>
  The one way out for a decrypted secret: \<^verbatim>\<open>internal/secretexit/secretexit.go\<close>.  A plaintext is
  released to a stated destination after its authority has consented, and a release to the network leaves a receipt
  in the request context, against which every outbound host is checked.

  The context is the list of its receipts.  The authority of a plaintext is a function on
  origins and destinations that gives the reason of a refusal; the text of error messages is not modelled.
\<close>

section \<open>Origins, choosers, destinations\<close>

record Origin =
  o_EntryID :: string
  o_Name :: string
  o_Instance :: bool

definition InstanceOrigin :: "string \<Rightarrow> Origin" where
  "InstanceOrigin what = \<lparr>o_EntryID = [], o_Name = what, o_Instance = True\<rparr>"

datatype chooserKind = chooserNobody | chooserEntryRecord | chooserUser | chooserInstance

record Chooser =
  ch_kind :: chooserKind
  ch_userID :: string
  ch_why :: string

definition ChosenByTheEntrysOwnRecord :: Chooser where
  "ChosenByTheEntrysOwnRecord =
     \<lparr>ch_kind = chooserEntryRecord, ch_userID = [], ch_why = ''recorded on the secret's own entry''\<rparr>"

definition ChosenBy :: "string \<Rightarrow> Chooser" where
  "ChosenBy userID = \<lparr>ch_kind = chooserUser, ch_userID = userID, ch_why = ''chosen by user '' @ userID\<rparr>"

definition ChosenByTheInstance :: "string \<Rightarrow> Chooser" where
  "ChosenByTheInstance why = \<lparr>ch_kind = chooserInstance, ch_userID = [], ch_why = why\<rparr>"

record HostSet =
  Hosts :: "string list"
  Suffixes :: "string list"

definition HostSet_Empty :: "HostSet \<Rightarrow> bool" where
  "HostSet_Empty s \<longleftrightarrow> Hosts s = [] \<and> Suffixes s = []"

definition NormalizeHost :: "string \<Rightarrow> string" where
  "NormalizeHost host =
     (let h = to_lower (trim_space host)
      in case last_index CHR '':'' h of
           Some i \<Rightarrow> (if atoi (drop (Suc i) h) \<noteq> None then take i h else h)
         | None \<Rightarrow> h)"

definition Allows :: "HostSet \<Rightarrow> string \<Rightarrow> bool" where
  "Allows s host =
     (let h = NormalizeHost host
      in if h = [] then False
         else list_ex (\<lambda>want. h = NormalizeHost want) (Hosts s) \<or>
              list_ex (\<lambda>suffix. has_suffix h (to_lower suffix) \<and> length h > length (to_lower suffix)) (Suffixes s))"

definition HostSet_Describe :: "HostSet \<Rightarrow> string" where
  "HostSet_Describe s =
     (let parts = Hosts s @ map (\<lambda>x. ''*'' @ x) (Suffixes s)
      in if parts = [] then ''nowhere (this operation is not allowed to make outbound requests)''
         else join '', '' (sort parts))"

datatype destKind = destNowhere | destNetwork | destCaller | destInProcess

record Destination =
  d_kind :: destKind
  d_hosts :: HostSet
  d_principal :: string
  d_chooser :: Chooser
  d_what :: string

definition no_hosts :: HostSet where
  "no_hosts = \<lparr>Hosts = [], Suffixes = []\<rparr>"

definition ToHosts :: "string \<Rightarrow> Chooser \<Rightarrow> HostSet \<Rightarrow> Destination" where
  "ToHosts what chooser hosts =
     \<lparr>d_kind = destNetwork, d_hosts = hosts, d_principal = [], d_chooser = chooser, d_what = what\<rparr>"

definition ToHost :: "string \<Rightarrow> Chooser \<Rightarrow> string \<Rightarrow> Destination" where
  "ToHost what chooser host =
     ToHosts what chooser \<lparr>Hosts = (if NormalizeHost host \<noteq> [] then [NormalizeHost host] else []), Suffixes = []\<rparr>"

definition ToNowhere :: "string \<Rightarrow> Destination" where
  "ToNowhere what =
     \<lparr>d_kind = destInProcess, d_hosts = no_hosts, d_principal = [],
      d_chooser = \<lparr>ch_kind = chooserInstance, ch_userID = [], ch_why = ''used in-process; nothing is transmitted''\<rparr>, d_what = what\<rparr>"

definition ToCaller :: "string \<Rightarrow> string \<Rightarrow> Destination" where
  "ToCaller what userID =
     \<lparr>d_kind = destCaller, d_hosts = no_hosts, d_principal = userID,
      d_chooser = \<lparr>ch_kind = chooserUser, ch_userID = userID, ch_why = ''returned to '' @ userID\<rparr>, d_what = what\<rparr>"

definition IsInProcess :: "Destination \<Rightarrow> bool" where
  "IsInProcess d \<longleftrightarrow> d_kind d = destInProcess"

definition IsNetwork :: "Destination \<Rightarrow> bool" where
  "IsNetwork d \<longleftrightarrow> d_kind d = destNetwork"

definition IsCaller :: "Destination \<Rightarrow> bool" where
  "IsCaller d \<longleftrightarrow> d_kind d = destCaller"

definition ChosenByEntryRecord :: "Destination \<Rightarrow> bool" where
  "ChosenByEntryRecord d \<longleftrightarrow> ch_kind (d_chooser d) = chooserEntryRecord"

definition ChosenByInstance :: "Destination \<Rightarrow> bool" where
  "ChosenByInstance d \<longleftrightarrow> ch_kind (d_chooser d) = chooserInstance"

definition ChoosingUser :: "Destination \<Rightarrow> string" where
  "ChoosingUser d = (if ch_kind (d_chooser d) = chooserUser then ch_userID (d_chooser d) else [])"

section \<open>Plaintexts and their release\<close>

type_synonym authority = "Origin \<Rightarrow> Destination \<Rightarrow> string option"

record Plaintext =
  pt_bytes :: bytes
  pt_origin :: Origin
  pt_authority :: "authority option"

text \<open>The declared field of the column that holds the value of an entry.\<close>

definition entryValue :: field where
  "entryValue =
     Some \<lparr>fd_name = ''vault_entries.encrypted_value'', fd_class = ThroughTheExit, fd_exitKey = ''any'',
           fd_why = ''THE client credential this product exists to hold. secretexit.Open is the only door and what it '' @
             ''returns is opaque, so every path it leaves by is one of the registered exits. The exit key is '' @
             [CHR 0x22] @ ''any'' @ [CHR 0x22] @ '' because every entry in theExitList governs this one column; naming one would be arbitrary.'',
           fd_declaredAt = ''internal/secretexit/secretexit.go:99''\<rparr>"

definition exit_Open :: "block_cipher \<Rightarrow> bytes \<Rightarrow> bytes \<Rightarrow> bytes \<Rightarrow> Origin \<Rightarrow> authority option \<Rightarrow> open_error + Plaintext" where
  "exit_Open E key ct nonce orig a =
     (case Open E key ct nonce entryValue of
        Inl e \<Rightarrow> Inl e
      | Inr b \<Rightarrow> Inr \<lparr>pt_bytes = b, pt_origin = orig, pt_authority = a\<rparr>)"

definition exit_Seal :: "block_cipher \<Rightarrow> bytes \<Rightarrow> bytes \<Rightarrow> bytes \<Rightarrow> (bytes \<times> bytes) option" where
  "exit_Seal E key plaintext rnd = Seal E key plaintext rnd"

definition Reseal :: "block_cipher \<Rightarrow> bytes \<Rightarrow> Plaintext \<Rightarrow> bytes \<Rightarrow> (bytes \<times> bytes) option" where
  "Reseal E key p rnd = exit_Seal E key (pt_bytes p) rnd"

definition Minted :: "bytes \<Rightarrow> Origin \<Rightarrow> authority option \<Rightarrow> Plaintext" where
  "Minted value orig a = \<lparr>pt_bytes = value, pt_origin = orig, pt_authority = a\<rparr>"

definition pt_Empty :: "Plaintext \<Rightarrow> bool" where
  "pt_Empty p \<longleftrightarrow> pt_bytes p = []"

definition EqualsString :: "Plaintext \<Rightarrow> string \<Rightarrow> bool" where
  "EqualsString p candidate \<longleftrightarrow> pt_bytes p = candidate"

definition pt_Wipe :: "Plaintext \<Rightarrow> Plaintext" where
  "pt_Wipe p = p\<lparr>pt_bytes := map (\<lambda>_. CHR 0x00) (pt_bytes p)\<rparr>"

definition redaction :: string where
  "redaction = ''[redacted secret]''"

text \<open>Every formatting verb, \<^verbatim>\<open>String\<close> and the JSON form show the same text.\<close>

definition pt_String :: "Plaintext \<Rightarrow> string" where
  "pt_String p = redaction"

record receipt =
  rc_origin :: Origin
  rc_dest :: Destination

type_synonym receipts = "receipt list"

datatype exit_error = ErrNoAuthority | ErrNoDestination | ErrNoChooser | ErrNoHost | ExitRefused string

definition withReceipt :: "receipts \<Rightarrow> receipt \<Rightarrow> receipts" where
  "withReceipt ctx r = ctx @ [r]"

definition Exit :: "receipts \<Rightarrow> Plaintext \<Rightarrow> Destination \<Rightarrow> exit_error + receipts \<times> bytes" where
  "Exit ctx p d =
     (case pt_authority p of
        None \<Rightarrow> Inl ErrNoAuthority
      | Some authorize \<Rightarrow>
         if d_kind d = destNowhere then Inl ErrNoDestination
         else if ch_kind (d_chooser d) = chooserNobody then Inl ErrNoChooser
         else if d_kind d = destNetwork \<and> HostSet_Empty (d_hosts d) then Inl ErrNoHost
         else case authorize (pt_origin p) d of
                Some reason \<Rightarrow> Inl (ExitRefused reason)
              | None \<Rightarrow>
                 Inr (if d_kind d = destNetwork then withReceipt ctx \<lparr>rc_origin = pt_origin p, rc_dest = d\<rparr> else ctx,
                      pt_bytes p))"

definition ExitString :: "receipts \<Rightarrow> Plaintext \<Rightarrow> Destination \<Rightarrow> exit_error + receipts \<times> string" where
  "ExitString ctx p d = (case Exit ctx p d of Inl e \<Rightarrow> Inl e | Inr (out, b) \<Rightarrow> Inr (out, b))"

datatype host_error = NoReceipt | HostRefused string string

definition CheckHost :: "receipts \<Rightarrow> string \<Rightarrow> host_error option" where
  "CheckHost ctx host =
     (if ctx = [] then Some NoReceipt
      else case find (\<lambda>r. \<not> Allows (d_hosts (rc_dest r)) host) ctx of
             Some r \<Rightarrow> Some (HostRefused (d_what (rc_dest r)) (NormalizeHost host))
           | None \<Rightarrow> None)"

definition ReceiptCount :: "receipts \<Rightarrow> nat" where
  "ReceiptCount ctx = length ctx"

section \<open>What a receipt is worth\<close>

lemma NormalizeHost_idem_Allows: "Allows s host \<Longrightarrow> NormalizeHost host \<noteq> []"
  by (auto simp: Allows_def Let_def split: if_splits)

lemma CheckHost_None: "CheckHost ctx host = None \<longleftrightarrow> ctx \<noteq> [] \<and> (\<forall>r \<in> set ctx. Allows (d_hosts (rc_dest r)) host)"
  by (auto simp: CheckHost_def find_None_iff find_Some_iff split: option.splits)

lemma Exit_Inr:
  assumes "Exit ctx p d = Inr (ctx', b)"
  shows "b = pt_bytes p" "\<exists>authorize. pt_authority p = Some authorize \<and> authorize (pt_origin p) d = None"
    "ch_kind (d_chooser d) \<noteq> chooserNobody" "d_kind d \<noteq> destNowhere"
    "IsNetwork d \<Longrightarrow> ctx' = ctx @ [\<lparr>rc_origin = pt_origin p, rc_dest = d\<rparr>]" "\<not> IsNetwork d \<Longrightarrow> ctx' = ctx"
  using assms by (auto simp: Exit_def withReceipt_def IsNetwork_def split: option.splits if_splits)

text \<open>The releases that went into a request, in order; each one starts from the context the last one gave.\<close>

fun run_exits :: "receipts \<Rightarrow> (Plaintext \<times> Destination) list \<Rightarrow> exit_error + receipts \<times> bytes list" where
  "run_exits ctx [] = Inr (ctx, [])"
| "run_exits ctx ((p, d) # xs) =
     (case Exit ctx p d of
        Inl e \<Rightarrow> Inl e
      | Inr (ctx1, b) \<Rightarrow>
         (case run_exits ctx1 xs of Inl e \<Rightarrow> Inl e | Inr (ctx2, bs) \<Rightarrow> Inr (ctx2, b # bs)))"

lemma run_exits_Inr:
  "run_exits ctx xs = Inr (ctx', bs) \<Longrightarrow>
     bs = map (\<lambda>(p, d). pt_bytes p) xs \<and>
     set ctx' = set ctx \<union> {\<lparr>rc_origin = pt_origin p, rc_dest = d\<rparr> | p d. (p, d) \<in> set xs \<and> IsNetwork d} \<and>
     (\<forall>(p, d) \<in> set xs. \<exists>authorize. pt_authority p = Some authorize \<and> authorize (pt_origin p) d = None)"
proof (induction xs arbitrary: ctx bs)
  case (Cons x xs)
  obtain p d where x: "x = (p, d)" by fastforce
  obtain ctx1 b bs' where e: "Exit ctx p d = Inr (ctx1, b)" "run_exits ctx1 xs = Inr (ctx', bs')" "bs = b # bs'"
    using Cons.prems by (auto simp: x split: sum.splits prod.splits)
  note ih = Cons.IH [OF e(2)] and one = Exit_Inr [OF e(1)]
  have "set ctx1 = set ctx \<union> (if IsNetwork d then {\<lparr>rc_origin = pt_origin p, rc_dest = d\<rparr>} else {})"
    using one(5,6) by auto
  then show ?case using ih one(1,2) e(3) x by auto
qed simp

text \<open>
  C36. A request carries secrets only to a host that all of them may reach: after any sequence of releases
  into one request context, if the outbound check lets a host pass then some release was to the network,
  every released plaintext had an authority that consented to the very destination it was
  released to, and each of those that went to the network names a host set that admits the host.
\<close>

theorem receipts_confine_request:
  assumes "run_exits [] xs = Inr (ctx, bs)" "CheckHost ctx host = None"
  shows "bs = map (\<lambda>(p, d). pt_bytes p) xs \<and> (\<exists>(p, d) \<in> set xs. IsNetwork d) \<and>
    (\<forall>(p, d) \<in> set xs. (\<exists>authorize. pt_authority p = Some authorize \<and> authorize (pt_origin p) d = None) \<and>
       (IsNetwork d \<longrightarrow> Allows (d_hosts d) host))"
proof -
  note r = run_exits_Inr [OF assms(1)]
  have c: "ctx \<noteq> []" "\<forall>r \<in> set ctx. Allows (d_hosts (rc_dest r)) host" using assms(2) by (auto simp: CheckHost_None)
  then obtain rc where "rc \<in> set ctx" by (cases ctx) auto
  then have "\<exists>(p, d) \<in> set xs. IsNetwork d" using r by auto
  moreover have "Allows (d_hosts d) host" if "(p, d) \<in> set xs" "IsNetwork d" for p d
  proof -
    have "\<lparr>rc_origin = pt_origin p, rc_dest = d\<rparr> \<in> set ctx" using r that by auto
    from bspec [OF c(2) this] show ?thesis by simp
  qed
  ultimately show ?thesis using r by blast
qed

definition sample_plain :: Plaintext where
  "sample_plain =
     \<lparr>pt_bytes = ''pw'', pt_origin = \<lparr>o_EntryID = ''e1'', o_Name = ''db'', o_Instance = False\<rparr>, pt_authority = Some (\<lambda>_ _. None)\<rparr>"

theorem receipts_confine_request_witness:
  "Allows (d_hosts (ToHost ''test'' ChosenByTheEntrysOwnRecord ''API.example.com:443'')) ''api.example.com''"
proof -
  let ?d = "ToHost ''test'' ChosenByTheEntrysOwnRecord ''API.example.com:443''"
  have "run_exits [] [(sample_plain, ?d)] = Inr ([\<lparr>rc_origin = pt_origin sample_plain, rc_dest = ?d\<rparr>], [''pw''])"
    by code_simp
  moreover have "CheckHost [\<lparr>rc_origin = pt_origin sample_plain, rc_dest = ?d\<rparr>] ''api.example.com'' = None" by code_simp
  ultimately have "IsNetwork ?d \<longrightarrow> Allows (d_hosts ?d) ''api.example.com''"
    using receipts_confine_request [of "[(sample_plain, ?d)]"] by simp
  then show ?thesis by (simp add: ToHost_def ToHosts_def IsNetwork_def)
qed

end
