(* ===== verification/Egress_Authority.thy ===== *)
theory Egress_Authority
  imports Secret_Exit Targets Destinations Reflect_Guard
begin

text \<open>
  Which hosts a secret may be sent to, from what is recorded on its entry:
  \<^verbatim>\<open>handlers/egress_authority.go\<close> (what a provider's code can reach, and the provider metadata
  that chooses it) and \<^verbatim>\<open>handlers/secret_exit_authority.go\<close> (the authority behind every release).

  \<open>url_parse\<close> stands for \<^verbatim>\<open>url.Parse\<close>, the record \<open>json_lib\<close> for \<^verbatim>\<open>encoding/json\<close> on the metadata object:
  a raw text is no object, the literal null (a nil map in Go), or an object with the raw text of each value.
\<close>

record url_parts =
  u_host :: string
  u_hostname :: string
  u_path :: string

type_synonym url_parse = "string \<Rightarrow> url_parts option"

type_synonym raw_fields = "(string \<times> string) list"

datatype json_fields = NotObject | NilMap | Object raw_fields

record json_lib =
  unmarshal_fields :: "string \<Rightarrow> json_fields"
  marshal_fields :: "raw_fields \<Rightarrow> string option"
  unmarshal_string :: "string \<Rightarrow> string option"
  unmarshal_strings :: "string \<Rightarrow> string list option"

definition marshal_string :: "string \<Rightarrow> string" where
  "marshal_string v = [CHR 0x22] @ json_escape v @ [CHR 0x22]"

section \<open>Provider metadata\<close>

type_synonym provider_metadata = "string \<rightharpoonup> string"

text \<open>A Go map read of a missing key.\<close>

definition meta_get :: "provider_metadata \<Rightarrow> string \<Rightarrow> string" where
  "meta_get m k = (case m k of None \<Rightarrow> [] | Some v \<Rightarrow> v)"

text \<open>A value that is not a string leaves its key present and empty.\<close>

definition ParseProviderMeta :: "json_lib \<Rightarrow> string \<Rightarrow> provider_metadata" where
  "ParseProviderMeta j txt =
     (if txt = [] \<or> txt = ''{}'' then Map.empty
      else case unmarshal_fields j txt of
             Object f \<Rightarrow> (\<lambda>k. map_option (\<lambda>e. case unmarshal_string j e of Some v \<Rightarrow> v | None \<Rightarrow> []) (map_of f k))
           | _ \<Rightarrow> Map.empty)"

definition pendingRevokeMethod :: string where "pendingRevokeMethod = ''pending_revoke_method''"
definition pendingRevokeURL :: string where "pendingRevokeURL = ''pending_revoke_url''"
definition pendingRevokeAuth :: string where "pendingRevokeAuth = ''pending_revoke_auth''"
definition pendingRevokeKeyID :: string where "pendingRevokeKeyID = ''pending_revoke_key_id''"
definition pendingRevokeStranded :: string where "pendingRevokeStranded = ''pending_revoke_stranded''"
definition revokeAuthB2 :: string where "revokeAuthB2 = ''b2''"

definition reservedProviderMetaKeys :: "string list" where
  "reservedProviderMetaKeys =
     [pendingRevokeMethod, pendingRevokeURL, pendingRevokeAuth, pendingRevokeKeyID, pendingRevokeStranded, ''last_revoke_error'']"

lemmas reserved_defs = reservedProviderMetaKeys_def pendingRevokeMethod_def pendingRevokeURL_def pendingRevokeAuth_def
  pendingRevokeKeyID_def pendingRevokeStranded_def

definition credentialProviderMetaKeys :: "(string \<times> string list) list" where
  "credentialProviderMetaKeys = [(''datadog'', [''app_key''])]"

definition credentialMetaKeysFor :: "string \<Rightarrow> string list" where
  "credentialMetaKeysFor p =
     (case map_of credentialProviderMetaKeys (to_lower (trim_space p)) of None \<Rightarrow> [] | Some ks \<Rightarrow> ks)"

definition remove_keys :: "string list \<Rightarrow> raw_fields \<Rightarrow> raw_fields" where
  "remove_keys ks f = filter (\<lambda>(k, _). k \<notin> set ks) f"

definition put :: "string \<Rightarrow> string \<Rightarrow> raw_fields \<Rightarrow> raw_fields" where
  "put k v f = (k, v) # remove_keys [k] f"

definition redactCredentialProviderMetaKeys :: "json_lib \<Rightarrow> string \<Rightarrow> string \<Rightarrow> string \<times> string list" where
  "redactCredentialProviderMetaKeys j p txt0 =
     (let keys = credentialMetaKeysFor p
      in if keys = [] then (txt0, [])
         else let txt = (if txt0 = [] then ''{}'' else txt0)
              in case unmarshal_fields j txt of
                   Object f \<Rightarrow>
                     (let withheld = filter (\<lambda>k. map_of f k \<noteq> None) keys
                      in if withheld = [] then (txt, [])
                         else case marshal_fields j (remove_keys withheld f) of
                                None \<Rightarrow> (''{}'', sort withheld)
                              | Some out \<Rightarrow> (out, sort withheld))
                 | _ \<Rightarrow> (''{}'', keys))"

text \<open>The fields after the withheld credentials were put back; \<open>None\<close> when one is not a string.\<close>

fun preserve_loop ::
  "json_lib \<Rightarrow> provider_metadata \<Rightarrow> string list \<Rightarrow> raw_fields \<Rightarrow> bool \<Rightarrow> (raw_fields \<times> bool) option" where
  "preserve_loop j stored [] f changed = Some (f, changed)"
| "preserve_loop j stored (k # ks) f changed =
     (case (case map_of f k of
              None \<Rightarrow> Some []
            | Some encoded \<Rightarrow> if encoded = ''null'' then Some [] else unmarshal_string j encoded) of
        None \<Rightarrow> None
      | Some explicit \<Rightarrow>
         if explicit \<noteq> [] then preserve_loop j stored ks f changed
         else if meta_get stored k = [] then preserve_loop j stored ks f changed
         else preserve_loop j stored ks (put k (marshal_string (meta_get stored k)) f) True)"

datatype meta_error = NotAnObject | NotAString | EncodeFailed

definition preserveCredentialProviderMetaForStorage ::
  "json_lib \<Rightarrow> string \<Rightarrow> string \<Rightarrow> provider_metadata \<Rightarrow> meta_error + string \<times> bool" where
  "preserveCredentialProviderMetaForStorage j p txt0 stored =
     (let keys = credentialMetaKeysFor p
      in if keys = [] then Inr (txt0, False)
         else let txt = (if txt0 = [] then ''{}'' else txt0)
              in case unmarshal_fields j txt of
                   Object f \<Rightarrow>
                     (case preserve_loop j stored keys f False of
                        None \<Rightarrow> Inl NotAString
                      | Some (f', changed) \<Rightarrow>
                         if \<not> changed then Inr (txt, False)
                         else (case marshal_fields j f' of None \<Rightarrow> Inl EncodeFailed | Some out \<Rightarrow> Inr (out, True)))
                 | _ \<Rightarrow> Inl NotAnObject)"

definition rejectReservedProviderMetaKeys :: "provider_metadata \<Rightarrow> string option" where
  "rejectReservedProviderMetaKeys meta = find (\<lambda>k. meta k \<noteq> None) reservedProviderMetaKeys"

text \<open>
  The fields after the reserved keys were removed and, when the provider stays, put back as stored.  An assignment to
  a nil map panics: \<open>None\<close>.
\<close>

fun reconcile_loop ::
  "provider_metadata \<Rightarrow> bool \<Rightarrow> string list \<Rightarrow> raw_fields option \<Rightarrow> bool \<Rightarrow> (raw_fields option \<times> bool) option" where
  "reconcile_loop stored keep [] f changed = Some (f, changed)"
| "reconcile_loop stored keep (k # ks) f changed =
     (let had = (case f of None \<Rightarrow> False | Some m \<Rightarrow> map_of m k \<noteq> None);
          f1 = map_option (remove_keys [k]) f
      in if \<not> keep then reconcile_loop stored keep ks f1 (changed \<or> had)
         else case stored k of
                None \<Rightarrow> reconcile_loop stored keep ks f1 (changed \<or> had)
              | Some v \<Rightarrow>
                 (case f1 of
                    None \<Rightarrow> None
                  | Some m \<Rightarrow> reconcile_loop stored keep ks (Some (put k (marshal_string v) m)) True))"

definition reconcileProviderMetaForStorage ::
  "json_lib \<Rightarrow> string \<Rightarrow> provider_metadata \<Rightarrow> bool \<Rightarrow> (string \<times> bool) option" where
  "reconcileProviderMetaForStorage j txt stored keep =
     (case (if txt \<noteq> [] \<and> txt \<noteq> ''{}'' then unmarshal_fields j txt else Object []) of
        NotObject \<Rightarrow> Some (txt, False)
      | decoded \<Rightarrow>
         (case reconcile_loop stored keep reservedProviderMetaKeys (case decoded of Object f \<Rightarrow> Some f | _ \<Rightarrow> None) False of
            None \<Rightarrow> None
          | Some (f, changed) \<Rightarrow>
             if \<not> changed then Some (txt, False)
             else (case marshal_fields j (case f of Some m \<Rightarrow> m | None \<Rightarrow> []) of
                     None \<Rightarrow> Some (txt, False)
                   | Some out \<Rightarrow> Some (out, True))))"

definition redactReservedProviderMetaKeys :: "json_lib \<Rightarrow> string \<Rightarrow> string" where
  "redactReservedProviderMetaKeys j txt =
     (if txt = [] \<or> txt = ''{}'' then txt
      else case unmarshal_fields j txt of
             Object f \<Rightarrow>
               if \<forall>k \<in> set reservedProviderMetaKeys. map_of f k = None then txt
               else (case marshal_fields j (remove_keys reservedProviderMetaKeys f) of None \<Rightarrow> ''{}'' | Some out \<Rightarrow> out)
           | _ \<Rightarrow> txt)"

subsection \<open>The pending revocation a client may see\<close>

definition conservative_key_id :: "string \<Rightarrow> bool" where
  "conservative_key_id s \<longleftrightarrow>
     1 \<le> length s \<and> length s \<le> 128 \<and> list_all (\<lambda>c. is_alnum c \<or> c = CHR ''_'' \<or> c = CHR ''-'') s"

definition isNonNamePathBase :: "string \<Rightarrow> bool" where
  "isNonNamePathBase seg \<longleftrightarrow> seg = [] \<or> seg = ''.'' \<or> seg = ''..'' \<or> seg = ''/''"

text \<open>\<^verbatim>\<open>path.Base\<close>.\<close>

definition path_base :: "string \<Rightarrow> string" where
  "path_base p =
     (if p = [] then ''.''
      else let q = trim_right (\<lambda>c. c = CHR ''/'') p;
               b = rev (takeWhile (\<lambda>c. c \<noteq> CHR ''/'') (rev q))
           in if b = [] then ''/'' else b)"

text \<open>\<open>Some id\<close> is an outstanding revocation, of a predecessor key that may be unknown.\<close>

definition pendingRevokeStatusFromMeta :: "url_parse \<Rightarrow> provider_metadata \<Rightarrow> string option" where
  "pendingRevokeStatusFromMeta parse meta =
     (let v = meta_get meta pendingRevokeURL; kid = meta_get meta pendingRevokeKeyID
      in if v = [] then (if conservative_key_id kid then Some kid else None)
         else if conservative_key_id kid then Some kid
         else case parse v of
                Some u \<Rightarrow>
                  if u_host u \<noteq> []
                  then (if \<not> isNonNamePathBase (path_base (u_path u)) then Some (path_base (u_path u)) else Some [])
                  else if conservative_key_id v then Some v
                  else if meta_get meta pendingRevokeAuth = revokeAuthB2 \<and> \<not> isNonNamePathBase v then Some v
                  else Some []
              | None \<Rightarrow>
                  if conservative_key_id v then Some v
                  else if meta_get meta pendingRevokeAuth = revokeAuthB2 \<and> \<not> isNonNamePathBase v then Some v
                  else Some [])"

definition pendingRevokeStatusFrom :: "json_lib \<Rightarrow> url_parse \<Rightarrow> string \<Rightarrow> string option" where
  "pendingRevokeStatusFrom j parse txt = pendingRevokeStatusFromMeta parse (ParseProviderMeta j txt)"

section \<open>What a provider's code can reach\<close>

record providerEgressDecl =
  pe_metaKeys :: "string list"
  pe_hosts :: "provider_metadata \<Rightarrow> string list"
  pe_suffixes :: "string list"

definition fixedHost :: "string list \<Rightarrow> provider_metadata \<Rightarrow> string list" where
  "fixedHost hosts meta = hosts"

definition metaLabelHost :: "string \<Rightarrow> string \<Rightarrow> provider_metadata \<Rightarrow> string list" where
  "metaLabelHost key sfx meta =
     (let v = trim_space (meta_get meta key) in if v = [] then [] else [to_lower v @ sfx])"

definition metaURLHost :: "url_parse \<Rightarrow> string \<Rightarrow> provider_metadata \<Rightarrow> string list" where
  "metaURLHost parse key meta =
     (case parse (trim_space (meta_get meta key)) of
        Some u \<Rightarrow> if u_hostname u = [] then [] else [u_hostname u]
      | None \<Rightarrow> [])"

definition fixed_decl :: "string \<Rightarrow> providerEgressDecl" where
  "fixed_decl h = \<lparr>pe_metaKeys = [], pe_hosts = fixedHost [h], pe_suffixes = []\<rparr>"

definition no_egress :: providerEgressDecl where
  "no_egress = \<lparr>pe_metaKeys = [], pe_hosts = (\<lambda>_. []), pe_suffixes = []\<rparr>"

definition providerEgress :: "url_parse \<Rightarrow> (string \<times> providerEgressDecl) list" where
  "providerEgress parse =
     map (\<lambda>(p, h). (p, fixed_decl h))
       [(''cloudflare'', ''api.cloudflare.com''), (''vercel'', ''api.vercel.com''), (''resend'', ''api.resend.com''),
        (''sendgrid'', ''api.sendgrid.com''), (''twilio'', ''api.twilio.com''), (''linode'', ''api.linode.com''),
        (''neon'', ''console.neon.tech''), (''fastly'', ''api.fastly.com''), (''github'', ''api.github.com''),
        (''openai'', ''api.openai.com''), (''anthropic'', ''api.anthropic.com''), (''stripe'', ''api.stripe.com''),
        (''groq'', ''api.groq.com''), (''mistral'', ''api.mistral.ai''), (''together'', ''api.together.xyz''),
        (''replicate'', ''api.replicate.com''), (''digitalocean'', ''api.digitalocean.com''), (''hetzner'', ''api.hetzner.cloud''),
        (''sentry'', ''sentry.io''), (''postmark'', ''api.postmarkapp.com''), (''mollie'', ''api.mollie.com''),
        (''railway'', ''backboard.railway.app''), (''render'', ''api.render.com'')] @
     [(''datadog'',
       \<lparr>pe_metaKeys = [''site''],
        pe_hosts = (\<lambda>meta. let site = trim_space (meta_get meta ''site'')
                            in [''api.'' @ to_lower (if site = [] then ''datadoghq.com'' else site)]),
        pe_suffixes = []\<rparr>),
      (''grafana'', \<lparr>pe_metaKeys = [''instance''], pe_hosts = metaLabelHost ''instance'' ''.grafana.net'', pe_suffixes = []\<rparr>),
      (''auth0'', \<lparr>pe_metaKeys = [''tenant''], pe_hosts = metaLabelHost ''tenant'' ''.auth0.com'', pe_suffixes = []\<rparr>),
      (''supabase'', \<lparr>pe_metaKeys = [''project_ref''], pe_hosts = metaLabelHost ''project_ref'' ''.supabase.co'', pe_suffixes = []\<rparr>),
      (''zitadel'', \<lparr>pe_metaKeys = [''instance''], pe_hosts = metaURLHost parse ''instance'', pe_suffixes = []\<rparr>),
      (''forgejo'', \<lparr>pe_metaKeys = [''instance''], pe_hosts = metaURLHost parse ''instance'', pe_suffixes = []\<rparr>),
      (''backblaze'', \<lparr>pe_metaKeys = [], pe_hosts = fixedHost [''api.backblazeb2.com''], pe_suffixes = [''.backblazeb2.com'']\<rparr>),
      (''aws'', no_egress), (''manual'', no_egress), (''shared-secret'', no_egress), (''generated-key-32'', no_egress)]"

definition declaredProviderEgress :: "url_parse \<Rightarrow> string \<Rightarrow> provider_metadata \<Rightarrow> HostSet" where
  "declaredProviderEgress parse p meta =
     (case map_of (providerEgress parse) (trim_space p) of
        None \<Rightarrow> no_hosts
      | Some decl \<Rightarrow>
         \<lparr>Hosts = sort (filter (\<lambda>h. h \<noteq> []) (map providerAPIHost (pe_hosts decl meta))), Suffixes = pe_suffixes decl\<rparr>)"

definition metaIndependentProviderEgress :: "url_parse \<Rightarrow> string \<Rightarrow> provider_metadata \<Rightarrow> HostSet" where
  "metaIndependentProviderEgress parse p meta =
     (let withMeta = declaredProviderEgress parse p meta; blank = declaredProviderEgress parse p Map.empty
      in \<lparr>Hosts = sort (filter (\<lambda>h. h \<in> set (Hosts blank)) (Hosts withMeta)), Suffixes = Suffixes blank\<rparr>)"

record egressChange =
  ec_added :: "string list"
  ec_after :: "string list"

definition widensEgress :: "egressChange \<Rightarrow> bool" where
  "widensEgress c \<longleftrightarrow> ec_added c \<noteq> []"

definition change_covered :: "HostSet \<Rightarrow> string \<Rightarrow> bool" where
  "change_covered before h \<longleftrightarrow>
     h \<in> set (Hosts before) \<or> list_ex (\<lambda>x. has_suffix h (to_lower x) \<and> length h > length x) (Suffixes before)"

definition authorityForEgressChange ::
  "url_parse \<Rightarrow> string \<Rightarrow> provider_metadata \<Rightarrow> string \<Rightarrow> provider_metadata \<Rightarrow> egressChange" where
  "authorityForEgressChange parse beforeProvider beforeMeta afterProvider afterMeta =
     (let before = declaredProviderEgress parse beforeProvider beforeMeta;
          after = declaredProviderEgress parse afterProvider afterMeta
      in \<lparr>ec_added = sort (filter (\<lambda>h. \<not> change_covered before h) (Hosts after)), ec_after = Hosts after\<rparr>)"

definition egressInfluencingMetaKeys :: "url_parse \<Rightarrow> string list" where
  "egressInfluencingMetaKeys parse = sort (remdups (concat (map (\<lambda>(_, d). pe_metaKeys d) (providerEgress parse))))"

section \<open>What is recorded on an entry\<close>

text \<open>
  The libraries and the column doors the authority reads with: opening of the sealed metadata
  (the empty object when it cannot be read) and of the sealed delivery targets (none).
\<close>

record entry_lib =
  parse_url :: url_parse
  json :: json_lib
  open_meta :: "string \<Rightarrow> string"
  open_targets_col :: "string \<Rightarrow> RotationTarget list"

definition parseDestinationPatterns :: "json_lib \<Rightarrow> string \<Rightarrow> string list" where
  "parseDestinationPatterns j txt =
     (if txt = [] \<or> txt = ''[]'' then []
      else case unmarshal_strings j txt of None \<Rightarrow> [] | Some out \<Rightarrow> out)"

definition null_string :: "string option \<Rightarrow> string" where
  "null_string x = (case x of None \<Rightarrow> [] | Some v \<Rightarrow> v)"

definition setting_reader :: "store \<Rightarrow> string \<Rightarrow> setting" where
  "setting_reader s key = (case GetSetting s key of Row v \<Rightarrow> Value v | ErrNoRows \<Rightarrow> NoRow | DBError \<Rightarrow> ReadError)"

definition GetVaultEntryMeta :: "store \<Rightarrow> string \<Rightarrow> entry_row fetched" where
  "GetVaultEntryMeta s eid = fetch s ''GetVaultEntryMeta'' (map_of (entries s) eid)"

definition GetVaultEntryTargets :: "store \<Rightarrow> string \<Rightarrow> string option fetched" where
  "GetVaultEntryTargets s eid = fetch s ''GetVaultEntryTargets'' (map_option rotation_targets (map_of (entries s) eid))"

definition recordedOwnerMayDirect :: "store \<Rightarrow> string \<Rightarrow> bool option" where
  "recordedOwnerMayDirect s eid =
     (case GetVaultEntryAccess s eid of
        Row info \<Rightarrow>
          (let owner = trim_space (secret_owner_user_id info)
           in if owner = [] then Some False else Some (mayConfigureDelivery s owner eid))
      | _ \<Rightarrow> None)"

definition hostFromRawURL :: "url_parse \<Rightarrow> string \<Rightarrow> string" where
  "hostFromRawURL parse txt = (case parse (trim_space txt) of None \<Rightarrow> [] | Some u \<Rightarrow> u_hostname u)"

definition add_host :: "string \<Rightarrow> string list \<Rightarrow> string list" where
  "add_host host acc =
     (let x = NormalizeHost host in if x = [] \<or> CHR ''*'' \<in> set x \<or> x \<in> set acc then acc else acc @ [x])"

definition pattern_hosts :: "json_lib \<Rightarrow> string \<Rightarrow> string list" where
  "pattern_hosts j txt =
     map (\<lambda>pat. fst (splitHostPath (trim_space pat)))
       (filter (\<lambda>pat. \<not> hostIsWildcarded pat) (parseDestinationPatterns j txt))"

definition target_hosts :: "entry_lib \<Rightarrow> store \<Rightarrow> string \<Rightarrow> RotationTarget list \<Rightarrow> string list" where
  "target_hosts l s eid targets =
     concat (map (\<lambda>t. if Type t = ''webhook'' then [hostFromRawURL (parse_url l) (WebhookURL t)]
                      else if Type t = ''forgejo_secret'' then [hostFromRawURL (parse_url l) (Instance t)] else [])
       (filter (\<lambda>t. targetTransmitsSecret t \<and> ConfiguredBy t \<noteq> [] \<and> mayConfigureDelivery s (ConfiguredBy t) eid) targets))"

definition stored_targets :: "entry_lib \<Rightarrow> store \<Rightarrow> string \<Rightarrow> RotationTarget list" where
  "stored_targets l s eid =
     (case GetVaultEntryTargets s eid of
        Row col \<Rightarrow> if trim_space (null_string col) \<noteq> [] then open_targets_col l (null_string col) else []
      | _ \<Rightarrow> [])"

text \<open>The host set built from the row, given whether its recorded owner may direct the secret.\<close>

definition recorded_set :: "entry_lib \<Rightarrow> store \<Rightarrow> string \<Rightarrow> entry_row \<Rightarrow> bool \<Rightarrow> HostSet" where
  "recorded_set l s eid row ownerMayDirect =
     (let pats = (if ownerMayDirect then pattern_hosts (json l) (destination_patterns row) else []);
          pm = ParseProviderMeta (json l) (open_meta l (null_string (provider_meta row)));
          declared = (if ownerMayDirect then declaredProviderEgress (parse_url l) (null_string (provider row)) pm
                      else metaIndependentProviderEgress (parse_url l) (null_string (provider row)) pm);
          targets = target_hosts l s eid (stored_targets l s eid)
      in \<lparr>Hosts = sort (fold add_host (pats @ Hosts declared @ targets) []), Suffixes = Suffixes declared\<rparr>)"

definition ownerRecordedDestinations :: "entry_lib \<Rightarrow> store \<Rightarrow> string \<Rightarrow> HostSet option" where
  "ownerRecordedDestinations l s eid =
     (if eid = [] then None
      else case providerPinFor (Some (setting_reader s)) eid of
             None \<Rightarrow> None
           | Some pin \<Rightarrow>
              if pinned pin then Some \<lparr>Hosts = pin_hosts pin, Suffixes = []\<rparr>
              else case GetVaultEntryMeta s eid of
                     Row row \<Rightarrow> map_option (recorded_set l s eid row) (recordedOwnerMayDirect s eid)
                   | _ \<Rightarrow> None)"

definition authorizeSecretToCaller :: "store \<Rightarrow> authority" where
  "authorizeSecretToCaller s orig d =
     (if o_Instance orig then Some ''is not returned to callers''
      else if d_principal d = [] \<or> o_EntryID orig = [] then Some ''cannot be returned to an unidentified caller''
      else if \<not> read (grantFor s (d_principal d) (instanceAdminByRecord s (d_principal d)) (o_EntryID orig))
      then Some ''no read access''
      else None)"

definition AuthorizeSecretExit :: "entry_lib \<Rightarrow> store \<Rightarrow> authority" where
  "AuthorizeSecretExit l s orig d =
     (if IsCaller d then authorizeSecretToCaller s orig d
      else if IsInProcess d then None
      else if \<not> IsNetwork d then Some ''no destination kind''
      else if o_Instance orig then (if ChosenByInstance d then None else Some ''not configured by the instance'')
      else if o_EntryID orig = [] then Some ''no vault entry''
      else if ChosenByInstance d then None
      else if ChosenByEntryRecord d
      then (case ownerRecordedDestinations l s (o_EntryID orig) of
              None \<Rightarrow> Some ''recorded destinations could not be read''
            | Some recorded \<Rightarrow>
               if \<not> list_all (Allows recorded) (Hosts (d_hosts d)) then Some ''not a recorded destination''
               else if Suffixes (d_hosts d) \<noteq> [] \<and> Suffixes recorded = [] then Some ''no such suffix recorded''
               else None)
      else if ChoosingUser d = [] then Some ''no recorded chooser''
      else if \<not> mayConfigureDelivery s (ChoosingUser d) (o_EntryID orig) then Some ''chooser may not direct the secret''
      else None)"

text \<open>Spending an entry's secret at its provider.\<close>

definition spendProviderSecret ::
  "url_parse \<Rightarrow> store \<Rightarrow> receipts \<Rightarrow> Plaintext \<Rightarrow> string \<Rightarrow> string \<Rightarrow> provider_metadata \<Rightarrow> exit_error + receipts \<times> string" where
  "spendProviderSecret parse s ctx pt eid prov meta =
     (let allow = declaredProviderEgress parse prov meta
      in case providerPinFor (Some (setting_reader s)) eid of
           None \<Rightarrow> Inl (ExitRefused ''provider binding could not be read'')
         | Some pin \<Rightarrow>
            if pinned pin \<and> \<not> list_all (allowsHost pin) (Hosts allow) then Inl (ExitRefused ''outside the provider pin'')
            else if pinned pin \<and> Suffixes allow \<noteq> [] then Inl (ExitRefused ''host chosen by the upstream'')
            else if HostSet_Empty allow
            then ExitString ctx pt (ToNowhere (''provider '' @ prov @ '' (declares no hosts, so it may not egress)''))
            else ExitString ctx pt (ToHosts (''provider '' @ prov) ChosenByTheEntrysOwnRecord allow))"

record egressAttempt =
  ea_host :: string
  ea_refused :: bool

text \<open>The one client of the provider code: whether the request is sent, and the attempt recorded when a recorder is in the context.\<close>

definition providerDo :: "receipts \<Rightarrow> string \<Rightarrow> egressAttempt list option \<Rightarrow> bool \<times> egressAttempt list option" where
  "providerDo ctx host rec =
     (let refused = (CheckHost ctx host \<noteq> None)
      in (\<not> refused, map_option (\<lambda>r. r @ [\<lparr>ea_host = host, ea_refused = refused\<rparr>]) rec))"

section \<open>Where a recorded destination comes from\<close>

lemma set_fold_add_host:
  "set (fold add_host xs acc) = set acc \<union> {x. x \<in> NormalizeHost ` set xs \<and> x \<noteq> [] \<and> CHR ''*'' \<notin> set x}"
  by (induction xs arbitrary: acc) (auto simp: add_host_def Let_def)

definition host_named :: "string list \<Rightarrow> string \<Rightarrow> bool" where
  "host_named hosts h \<longleftrightarrow> (\<exists>x \<in> set hosts. h = NormalizeHost (NormalizeHost x))"

definition under_suffix :: "string list \<Rightarrow> string \<Rightarrow> bool" where
  "under_suffix sfx h \<longleftrightarrow> (\<exists>x \<in> set sfx. has_suffix h (to_lower x) \<and> length h > length x)"

lemma length_to_lower [simp]: "length (to_lower x) = length x"
  by (simp add: to_lower_def)

lemma Allows_iff:
  "Allows hs host \<longleftrightarrow> NormalizeHost host \<noteq> [] \<and>
     ((\<exists>w \<in> set (Hosts hs). NormalizeHost host = NormalizeHost w) \<or> under_suffix (Suffixes hs) (NormalizeHost host))"
  by (auto simp: Allows_def under_suffix_def Let_def list_ex_iff)

text \<open>
  The sources of authority for a host of an entry that is not the key of an AI provider: a
  pattern or the whole provider configuration while the recorded owner may direct the secret, what the provider's
  code reaches whatever its metadata says, and a delivery target whose configurer may direct the secret.
\<close>

definition authorised_host :: "entry_lib \<Rightarrow> store \<Rightarrow> string \<Rightarrow> string \<Rightarrow> bool" where
  "authorised_host l s eid h \<longleftrightarrow>
     (\<exists>row. map_of (entries s) eid = Some row \<and>
       (let owner = trim_space (secret_owner_user_id row);
            pm = ParseProviderMeta (json l) (open_meta l (null_string (provider_meta row)));
            full = declaredProviderEgress (parse_url l) (null_string (provider row)) pm;
            fixed = metaIndependentProviderEgress (parse_url l) (null_string (provider row)) pm
        in (owner \<noteq> [] \<and> mayConfigureDelivery s owner eid \<and>
             (host_named (pattern_hosts (json l) (destination_patterns row)) h \<or> host_named (Hosts full) h \<or>
              under_suffix (Suffixes full) h)) \<or>
           host_named (Hosts fixed) h \<or> under_suffix (Suffixes fixed) h \<or>
           (\<exists>t \<in> set (stored_targets l s eid). targetTransmitsSecret t \<and> mayConfigureDelivery s (ConfiguredBy t) eid \<and>
              (host_named [hostFromRawURL (parse_url l) (WebhookURL t)] h \<or> host_named [hostFromRawURL (parse_url l) (Instance t)] h))))"

definition recorded_host :: "entry_lib \<Rightarrow> store \<Rightarrow> string \<Rightarrow> string \<Rightarrow> bool" where
  "recorded_host l s eid h \<longleftrightarrow>
     (case providerPinFor (Some (setting_reader s)) eid of
        None \<Rightarrow> False
      | Some pin \<Rightarrow> if pinned pin then h \<in> NormalizeHost ` set (pin_hosts pin) else authorised_host l s eid h)"

lemma target_hosts_named:
  assumes "host_named (target_hosts l s eid ts) h"
  shows "\<exists>t \<in> set ts. targetTransmitsSecret t \<and> mayConfigureDelivery s (ConfiguredBy t) eid \<and>
    (host_named [hostFromRawURL (parse_url l) (WebhookURL t)] h \<or> host_named [hostFromRawURL (parse_url l) (Instance t)] h)"
  using assms by (auto simp: host_named_def target_hosts_def split: if_splits)

lemma host_named_append: "host_named (xs @ ys) h \<longleftrightarrow> host_named xs h \<or> host_named ys h"
  by (auto simp: host_named_def)

lemma fold_add_named: "w \<in> set (fold add_host xs []) \<Longrightarrow> host_named xs (NormalizeHost w)"
  by (auto simp: set_fold_add_host host_named_def)

lemma recorded_set_Allows:
  assumes "Allows (recorded_set l s eid row may) host"
  defines "h \<equiv> NormalizeHost host"
    and "pm \<equiv> ParseProviderMeta (json l) (open_meta l (null_string (provider_meta row)))"
  defines "full \<equiv> declaredProviderEgress (parse_url l) (null_string (provider row)) pm"
    and "fixed \<equiv> metaIndependentProviderEgress (parse_url l) (null_string (provider row)) pm"
  shows "(may \<and> (host_named (pattern_hosts (json l) (destination_patterns row)) h \<or> host_named (Hosts full) h \<or> under_suffix (Suffixes full) h)) \<or>
    host_named (Hosts fixed) h \<or> under_suffix (Suffixes fixed) h \<or> host_named (target_hosts l s eid (stored_targets l s eid)) h"
proof -
  let ?pats = "if may then pattern_hosts (json l) (destination_patterns row) else []" and ?d = "if may then full else fixed"
  have "recorded_set l s eid row may = \<lparr>Hosts = sort (fold add_host (?pats @ Hosts ?d @ target_hosts l s eid (stored_targets l s eid)) []), Suffixes = Suffixes ?d\<rparr>"
    by (simp add: recorded_set_def Let_def full_def fixed_def pm_def)
  then have "(\<exists>w \<in> set (fold add_host (?pats @ Hosts ?d @ target_hosts l s eid (stored_targets l s eid)) []). h = NormalizeHost w) \<or> under_suffix (Suffixes ?d) h"
    using assms(1) by (simp add: Allows_iff h_def del: fold_append)
  then have "host_named (?pats @ Hosts ?d @ target_hosts l s eid (stored_targets l s eid)) h \<or> under_suffix (Suffixes ?d) h"
    using fold_add_named by blast
  then show ?thesis by (cases may) (auto simp: host_named_append host_named_def [of "[]"])
qed

lemma recorded_sources:
  assumes "ownerRecordedDestinations l s eid = Some recorded" "Allows recorded host"
  shows "recorded_host l s eid (NormalizeHost host)"
proof -
  obtain pin where pin: "providerPinFor (Some (setting_reader s)) eid = Some pin"
    using assms(1) by (auto simp: ownerRecordedDestinations_def split: if_splits option.splits)
  show ?thesis
  proof (cases "pinned pin")
    case True
    then have "recorded = \<lparr>Hosts = pin_hosts pin, Suffixes = []\<rparr>"
      using assms(1) pin by (simp add: ownerRecordedDestinations_def split: if_splits)
    then show ?thesis using assms(2) True pin by (auto simp: recorded_host_def Allows_iff under_suffix_def)
  next
    case False
    from assms(1) pin False obtain row may where r:
      "map_of (entries s) eid = Some row" "recordedOwnerMayDirect s eid = Some may" "recorded = recorded_set l s eid row may"
      by (auto simp: ownerRecordedDestinations_def GetVaultEntryMeta_def fetch_def split: if_splits option.splits fetched.splits)
    have may: "may \<Longrightarrow> trim_space (secret_owner_user_id row) \<noteq> [] \<and> mayConfigureDelivery s (trim_space (secret_owner_user_id row)) eid"
      using r(1,2) by (auto simp: recordedOwnerMayDirect_def GetVaultEntryAccess_def fetch_def Let_def split: if_splits)
    have "authorised_host l s eid (NormalizeHost host)"
      using recorded_set_Allows [OF assms(2) [unfolded r(3)]] may target_hosts_named [of l s eid "stored_targets l s eid"] r(1)
      unfolding authorised_host_def Let_def by blast
    then show ?thesis using pin False by (simp add: recorded_host_def)
  qed
qed


text \<open>
  The provider of an entry that is no AI key reaches hosts its upstream chooses, under suffixes that the provider table declares.
\<close>

definition suffix_recorded :: "entry_lib \<Rightarrow> store \<Rightarrow> string \<Rightarrow> bool" where
  "suffix_recorded l s eid \<longleftrightarrow>
     (\<exists>pin row decl. providerPinFor (Some (setting_reader s)) eid = Some pin \<and> \<not> pinned pin \<and> map_of (entries s) eid = Some row \<and>
        map_of (providerEgress (parse_url l)) (trim_space (null_string (provider row))) = Some decl \<and> pe_suffixes decl \<noteq> [])"

lemma declared_suffixes: "Suffixes (declaredProviderEgress parse p m) \<noteq> [] \<longleftrightarrow>
    (\<exists>decl. map_of (providerEgress parse) (trim_space p) = Some decl \<and> pe_suffixes decl \<noteq> [])"
  by (auto simp: declaredProviderEgress_def no_hosts_def split: option.splits)

lemma recorded_suffixes:
  assumes "ownerRecordedDestinations l s eid = Some recorded" "Suffixes recorded \<noteq> []"
  shows "suffix_recorded l s eid"
proof -
  obtain pin where pin: "providerPinFor (Some (setting_reader s)) eid = Some pin" "\<not> pinned pin"
    using assms by (auto simp: ownerRecordedDestinations_def split: if_splits option.splits)
  with assms(1) obtain row may where r: "map_of (entries s) eid = Some row" "recorded = recorded_set l s eid row may"
    by (auto simp: ownerRecordedDestinations_def GetVaultEntryMeta_def fetch_def split: if_splits option.splits fetched.splits)
  have "\<exists>decl. map_of (providerEgress (parse_url l)) (trim_space (null_string (provider row))) = Some decl \<and> pe_suffixes decl \<noteq> []"
    using assms(2) r(2) by (auto simp: recorded_set_def Let_def metaIndependentProviderEgress_def declared_suffixes split: if_splits)
  with pin r(1) show ?thesis unfolding suffix_recorded_def by blast
qed

lemma record_exit:
  assumes "pt_authority p = Some (AuthorizeSecretExit l s)" "pt_origin p = \<lparr>o_EntryID = eid, o_Name = nm, o_Instance = False\<rparr>"
    and "Exit ctx p (ToHosts what ChosenByTheEntrysOwnRecord hs) = Inr (ctx', b)"
  shows "\<exists>recorded. ownerRecordedDestinations l s eid = Some recorded \<and> list_all (Allows recorded) (Hosts hs) \<and>
    (Suffixes hs \<noteq> [] \<longrightarrow> Suffixes recorded \<noteq> [])"
  using Exit_Inr(2) [OF assms(3)] assms(1,2)
  by (auto simp: AuthorizeSecretExit_def IsCaller_def IsInProcess_def IsNetwork_def ToHosts_def ChosenByInstance_def
      ChosenByEntryRecord_def ChosenByTheEntrysOwnRecord_def split: if_splits option.splits)

lemma record_exit_hosts:
  assumes "pt_authority p = Some (AuthorizeSecretExit l s)" "pt_origin p = \<lparr>o_EntryID = eid, o_Name = nm, o_Instance = False\<rparr>"
    and "Exit ctx p (ToHosts what ChosenByTheEntrysOwnRecord hs) = Inr (ctx', b)" "w \<in> set (Hosts hs)"
  shows "recorded_host l s eid (NormalizeHost w)"
  using record_exit [OF assms(1,2,3)] recorded_sources assms(4) by (auto simp: list_all_iff)

text \<open>
  C37. The secret of an entry leaves for a host only if the entry's record says so at that moment.
  When a plaintext of an entry, guarded by the vault's authority, is released to a set of hosts
  chosen by the entry's own record, and the outbound check then passes for a host, then one of two things holds.
  The host is a recorded one: a host of the AI provider the entry is the key of; or,
  for any other entry, a host named by its patterns or its provider configuration while its recorded
  owner is entitled to direct the secret, a host its provider reaches whatever the metadata says, or
  the host of a delivery target whose configurer is entitled to. Or the set carries a suffix the host is under, and then
  the entry is no AI provider's key and its own provider is one that declares suffixes. The authority does not compare the
  set's suffixes with the recorded ones, so for such a provider this much is all it enforces of them; a set released for an
  entry whose provider declares none passes no host by suffix.
\<close>

theorem entry_record_confines:
  assumes "pt_authority p = Some (AuthorizeSecretExit l s)" "pt_origin p = \<lparr>o_EntryID = eid, o_Name = nm, o_Instance = False\<rparr>"
    and "Exit ctx p (ToHosts what ChosenByTheEntrysOwnRecord hs) = Inr (ctx', b)" "CheckHost ctx' host = None"
  shows "b = pt_bytes p \<and>
    ((\<exists>w \<in> set (Hosts hs). NormalizeHost host = NormalizeHost w \<and> recorded_host l s eid (NormalizeHost host)) \<or>
     (under_suffix (Suffixes hs) (NormalizeHost host) \<and> suffix_recorded l s eid))"
proof -
  let ?d = "ToHosts what ChosenByTheEntrysOwnRecord hs"
  note ex = Exit_Inr [OF assms(3)]
  have net: "IsNetwork ?d" by (simp add: IsNetwork_def ToHosts_def)
  have "Allows hs host" using assms(4) ex(5) [OF net] by (simp add: CheckHost_None ToHosts_def)
  moreover have "suffix_recorded l s eid" if "under_suffix (Suffixes hs) h" for h
    using record_exit [OF assms(1,2,3)] recorded_suffixes that by (auto simp: under_suffix_def)
  ultimately show ?thesis using ex(1) record_exit_hosts [OF assms(1,2,3)] by (auto simp: Allows_iff)
qed

definition sample_lib :: entry_lib where
  "sample_lib =
     \<lparr>parse_url = (\<lambda>_. None),
      json = \<lparr>unmarshal_fields = (\<lambda>_. NotObject), marshal_fields = (\<lambda>_. None), unmarshal_string = (\<lambda>_. None),
              unmarshal_strings = (\<lambda>t. Some [t])\<rparr>,
      open_meta = id, open_targets_col = (\<lambda>_. [])\<rparr>"

definition owned_store :: store where
  "owned_store = empty_store\<lparr>
     users := [(''ann'', \<lparr>email = ''ann@x.io'', role = ''user'', disabled = 0, sessions_valid_after = 0, totp_enabled = 0\<rparr>)],
     entries := [(''e1'', (blank_entry ''ann'' None)\<lparr>destination_patterns := ''api.x.io/v1/*''\<rparr>)]\<rparr>"

definition owned_plain :: Plaintext where
  "owned_plain =
     \<lparr>pt_bytes = ''pw'', pt_origin = \<lparr>o_EntryID = ''e1'', o_Name = ''db'', o_Instance = False\<rparr>,
      pt_authority = Some (AuthorizeSecretExit sample_lib owned_store)\<rparr>"

theorem entry_record_confines_witness:
  "recorded_host sample_lib owned_store ''e1'' ''api.x.io''"
proof -
  let ?hs = "\<lparr>Hosts = [''api.x.io''], Suffixes = []\<rparr>"
  let ?ctx = "[\<lparr>rc_origin = pt_origin owned_plain, rc_dest = ToHosts ''t'' ChosenByTheEntrysOwnRecord ?hs\<rparr>]"
  have 1: "pt_authority owned_plain = Some (AuthorizeSecretExit sample_lib owned_store)"
    "pt_origin owned_plain = \<lparr>o_EntryID = ''e1'', o_Name = ''db'', o_Instance = False\<rparr>" by (simp_all add: owned_plain_def)
  have 2: "Exit [] owned_plain (ToHosts ''t'' ChosenByTheEntrysOwnRecord ?hs) = Inr (?ctx, ''pw'')" by code_simp
  have 3: "CheckHost ?ctx ''api.x.io'' = None" "NormalizeHost ''api.x.io'' = ''api.x.io''" by code_simp+
  from entry_record_confines [OF 1 2 3(1)] show ?thesis by (simp add: under_suffix_def 3(2))
qed

section \<open>Server-owned metadata\<close>

text \<open>
  What the development relies on of \<^verbatim>\<open>encoding/json\<close>. \<open>valid\<close> says which raw texts are JSON values and \<open>canon\<close> is what
  writing does to one: insignificant space is dropped and the characters special to HTML are escaped. Reading an object gives valid
  values under keys of valid UTF-8; writing such an object succeeds, and reading it back gives each value as \<open>canon\<close> leaves it;
  a string reads as valid UTF-8 and the same before and after \<open>canon\<close>, and a string the library wrote is already in that form.
\<close>

definition json_laws :: "json_lib \<Rightarrow> (string \<Rightarrow> bool) \<Rightarrow> (string \<Rightarrow> string) \<Rightarrow> bool" where
  "json_laws j valid canon \<longleftrightarrow>
     (\<forall>t f k v. unmarshal_fields j t = Object f \<and> map_of f k = Some v \<longrightarrow> utf8_valid k \<and> valid v) \<and>
     (\<forall>m. (\<forall>k v. map_of m k = Some v \<longrightarrow> utf8_valid k \<and> valid v) \<longrightarrow>
        (\<exists>t m'. marshal_fields j m = Some t \<and> unmarshal_fields j t = Object m' \<and> (\<forall>k. map_of m' k = map_option canon (map_of m k)))) \<and>
     unmarshal_fields j [] = NotObject \<and> unmarshal_fields j ''{}'' = Object [] \<and>
     (\<forall>v. valid (marshal_string v) \<and> canon (marshal_string v) = marshal_string v) \<and>
     (\<forall>v. utf8_valid v \<longrightarrow> unmarshal_string j (marshal_string v) = Some v) \<and>
     (\<forall>e v. unmarshal_string j e = Some v \<longrightarrow> utf8_valid v) \<and>
     (\<forall>e. unmarshal_string j (canon e) = unmarshal_string j e)"

definition fields_of :: "json_lib \<Rightarrow> string \<Rightarrow> json_fields" where
  "fields_of j txt = (if txt = [] then Object [] else unmarshal_fields j txt)"

text \<open>A value in the metadata, kept as it was or as writing leaves it.\<close>

definition spelled :: "(string \<Rightarrow> string) \<Rightarrow> string option \<Rightarrow> string option \<Rightarrow> bool" where
  "spelled canon v v' \<longleftrightarrow> v' = v \<or> v' = map_option canon v"

definition field_text :: "json_lib \<Rightarrow> string \<Rightarrow> string" where
  "field_text j e = (case unmarshal_string j e of Some v \<Rightarrow> v | None \<Rightarrow> [])"

lemma map_of_remove_keys [simp]: "map_of (remove_keys ks f) k = (if k \<in> set ks then None else map_of f k)"
  by (induction f) (auto simp: remove_keys_def)

lemma map_of_put_field [simp]: "map_of (put k v f) x = (if x = k then Some v else map_of f x)"
  by (simp add: put_def)

lemma marshal_back:
  assumes "json_laws j valid canon" "\<And>k v. map_of m k = Some v \<Longrightarrow> utf8_valid k \<and> valid v"
  obtains t m' where "marshal_fields j m = Some t" "fields_of j t = Object m'" "\<And>k. map_of m' k = map_option canon (map_of m k)"
proof -
  obtain t m' where t: "marshal_fields j m = Some t" "unmarshal_fields j t = Object m'" "\<forall>k. map_of m' k = map_option canon (map_of m k)"
    using assms unfolding json_laws_def by blast
  then have "t \<noteq> []" using assms(1) by (auto simp: json_laws_def)
  with t show ?thesis using that by (simp add: fields_of_def)
qed

lemma fields_valid:
  assumes "json_laws j valid canon" "fields_of j t = Object f" "map_of f k = Some v"
  shows "utf8_valid k \<and> valid v"
  using assms by (auto simp: fields_of_def json_laws_def split: if_splits)

lemma meta_fields:
  assumes "json_laws j valid canon" "fields_of j t = Object f"
  shows "ParseProviderMeta j t k = map_option (field_text j) (map_of f k)"
  using assms by (auto simp: ParseProviderMeta_def fields_of_def json_laws_def field_text_def [abs_def] split: if_splits)

lemma meta_no_fields: "\<forall>f. fields_of j t \<noteq> Object f \<Longrightarrow> ParseProviderMeta j t k = None"
  by (cases "unmarshal_fields j t") (auto simp: ParseProviderMeta_def fields_of_def split: if_splits)

lemma meta_utf8:
  assumes "json_laws j valid canon" "ParseProviderMeta j t k = Some v"
  shows "utf8_valid v"
proof -
  have "utf8_valid []" by (simp add: utf8_valid.simps)
  then have "utf8_valid (field_text j e)" for e
    using assms(1) by (auto simp: field_text_def json_laws_def split: option.splits)
  then show ?thesis using assms(2) meta_no_fields [of j t k] meta_fields [OF assms(1), of t _ k] by fastforce
qed

lemma field_text_kept:
  assumes "json_laws j valid canon" "spelled canon v v'"
  shows "map_option (field_text j) v' = map_option (field_text j) v"
  using assms by (cases v) (auto simp: spelled_def json_laws_def field_text_def)

lemma reconcile_loop_spec:
  "distinct ks \<Longrightarrow> \<exists>f' changed'. reconcile_loop stored keep ks (Some f) changed = Some (Some f', changed') \<and>
     (\<forall>k. map_of f' k = (if k \<in> set ks then (if keep then map_option marshal_string (stored k) else None) else map_of f k)) \<and>
     (\<not> changed' \<longrightarrow> \<not> changed \<and> (\<forall>k \<in> set ks. map_of f k = None \<and> (keep \<longrightarrow> stored k = None)))"
proof (induction ks arbitrary: f changed)
  case (Cons k ks)
  then have k: "k \<notin> set ks" "distinct ks" by simp_all
  show ?case
  proof (cases "keep \<and> stored k \<noteq> None")
    case True
    then obtain v where v: "stored k = Some v" by auto
    have "reconcile_loop stored keep (k # ks) (Some f) changed = reconcile_loop stored keep ks (Some (put k (marshal_string v) (remove_keys [k] f))) True"
      using True v by (simp add: Let_def)
    moreover obtain f' c where f': "reconcile_loop stored keep ks (Some (put k (marshal_string v) (remove_keys [k] f))) True = Some (Some f', c)"
        "\<forall>x. map_of f' x = (if x \<in> set ks then (if keep then map_option marshal_string (stored x) else None)
                                else map_of (put k (marshal_string v) (remove_keys [k] f)) x)" c
      using Cons.IH [OF k(2), of "put k (marshal_string v) (remove_keys [k] f)" True] by blast
    ultimately show ?thesis using True v k(1) by auto
  next
    case False
    have "reconcile_loop stored keep (k # ks) (Some f) changed = reconcile_loop stored keep ks (Some (remove_keys [k] f)) (changed \<or> map_of f k \<noteq> None)"
      using False by (auto simp: Let_def split: option.splits)
    moreover obtain f' c where f': "reconcile_loop stored keep ks (Some (remove_keys [k] f)) (changed \<or> map_of f k \<noteq> None) = Some (Some f', c)"
        "\<forall>x. map_of f' x = (if x \<in> set ks then (if keep then map_option marshal_string (stored x) else None) else map_of (remove_keys [k] f) x)"
        "\<not> c \<longrightarrow> \<not> (changed \<or> map_of f k \<noteq> None) \<and> (\<forall>x \<in> set ks. map_of (remove_keys [k] f) x = None \<and> (keep \<longrightarrow> stored x = None))"
      using Cons.IH [OF k(2), of "remove_keys [k] f" "changed \<or> map_of f k \<noteq> None"] by blast
    moreover have "map_of f x = None" if "x \<in> set ks" "map_of (remove_keys [k] f) x = None" for x
      using that k(1) by (auto split: if_splits)
    ultimately show ?thesis using False k(1) by auto
  qed
qed simp

lemma reserved_distinct: "distinct reservedProviderMetaKeys"
  by (simp add: reserved_defs)

lemma reserved_utf8: "k \<in> set reservedProviderMetaKeys \<Longrightarrow> utf8_valid k"
  by (auto simp: reserved_defs utf8_valid.simps rune_size_def)

lemma redact_fields:
  assumes "json_laws j valid canon" "fields_of j stored = Object f"
  shows "\<exists>h. fields_of j (redactReservedProviderMetaKeys j stored) = Object h \<and>
    (\<forall>k. if k \<in> set reservedProviderMetaKeys then map_of h k = None else spelled canon (map_of f k) (map_of h k))"
proof (cases "stored = [] \<or> stored = ''{}'' \<or> (\<forall>k \<in> set reservedProviderMetaKeys. map_of f k = None)")
  case True
  then have "redactReservedProviderMetaKeys j stored = stored" "\<forall>k \<in> set reservedProviderMetaKeys. map_of f k = None"
    using assms by (auto simp: redactReservedProviderMetaKeys_def fields_of_def json_laws_def split: json_fields.splits)
  then show ?thesis using assms(2) by (auto simp: spelled_def)
next
  case False
  have "utf8_valid k \<and> valid v" if "map_of (remove_keys reservedProviderMetaKeys f) k = Some v" for k v
    using that fields_valid [OF assms] by (auto split: if_splits)
  then obtain t m' where t: "marshal_fields j (remove_keys reservedProviderMetaKeys f) = Some t" "fields_of j t = Object m'"
      "\<And>k. map_of m' k = map_option canon (map_of (remove_keys reservedProviderMetaKeys f) k)"
    using marshal_back [OF assms(1)] by blast
  have "redactReservedProviderMetaKeys j stored = t"
    using False assms(2) t(1) unfolding redactReservedProviderMetaKeys_def fields_of_def by (auto split: if_splits)
  then show ?thesis using t(2,3) by (auto simp: spelled_def)
qed

lemma reconcile_fields:
  assumes "json_laws j valid canon" "fields_of j sent = Object g"
  shows "\<exists>out changed h. reconcileProviderMetaForStorage j sent st keep = Some (out, changed) \<and> fields_of j out = Object h \<and>
    (\<forall>k. if k \<in> set reservedProviderMetaKeys then map_of h k = (if keep then map_option marshal_string (st k) else None)
         else spelled canon (map_of g k) (map_of h k))"
proof -
  let ?R = reservedProviderMetaKeys
  have ms: "valid (marshal_string v)" "canon (marshal_string v) = marshal_string v" for v
    using assms(1) by (simp_all add: json_laws_def)
  have dec: "(if sent \<noteq> [] \<and> sent \<noteq> ''{}'' then unmarshal_fields j sent else Object []) = Object g"
    using assms by (auto simp: fields_of_def json_laws_def)
  obtain h c where c: "reconcile_loop st keep ?R (Some g) False = Some (Some h, c)"
      "\<forall>k. map_of h k = (if k \<in> set ?R then (if keep then map_option marshal_string (st k) else None) else map_of g k)"
      "\<not> c \<longrightarrow> (\<forall>k \<in> set ?R. map_of g k = None \<and> (keep \<longrightarrow> st k = None))"
    using reconcile_loop_spec [OF reserved_distinct, of st keep g False] by blast
  have "utf8_valid k \<and> valid v" if "map_of h k = Some v" for k v
    using that c(2) fields_valid [OF assms] ms(1) reserved_utf8 by (auto split: if_splits)
  then obtain t m' where t: "marshal_fields j h = Some t" "fields_of j t = Object m'" "\<And>k. map_of m' k = map_option canon (map_of h k)"
    using marshal_back [OF assms(1)] by blast
  show ?thesis
  proof (cases c)
    case True
    then have "reconcileProviderMetaForStorage j sent st keep = Some (t, True)"
      unfolding reconcileProviderMetaForStorage_def dec by (simp add: c(1) t(1))
    moreover have "map_option canon (map_option marshal_string x) = map_option marshal_string x" for x
      by (cases x) (simp_all add: ms(2))
    ultimately show ?thesis using t(2,3) c(2) by (auto simp: spelled_def)
  next
    case False
    then have "reconcileProviderMetaForStorage j sent st keep = Some (sent, False)"
      unfolding reconcileProviderMetaForStorage_def dec by (simp add: c(1))
    moreover have "\<forall>k. if k \<in> set ?R then map_of g k = (if keep then map_option marshal_string (st k) else None) else True"
      using c(3) False by auto
    ultimately show ?thesis using assms(2) by (auto simp: spelled_def)
  qed
qed

lemma reconcile_nil:
  "reconcile_loop st keep ks None changed = (if keep \<and> (\<exists>k \<in> set ks. st k \<noteq> None) then None else Some (None, changed))"
proof (induction ks arbitrary: changed)
  case (Cons k ks)
  then show ?case by (cases keep; cases "st k") (simp_all add: Let_def)
qed simp

lemma reconcile_no_object:
  assumes "fields_of j sent = NilMap \<or> fields_of j sent = NotObject" "unmarshal_fields j ''{}'' = Object []"
  shows "reconcileProviderMetaForStorage j sent st keep =
    (if fields_of j sent = NilMap \<and> keep \<and> (\<exists>k \<in> set reservedProviderMetaKeys. st k \<noteq> None) then None else Some (sent, False))"
  using assms by (auto simp: reconcileProviderMetaForStorage_def fields_of_def reconcile_nil split: if_splits)

text \<open>
  C38. What the rotation engine keeps in the provider metadata is not in the metadata a client is shown, cannot be forged by the
  client, and survives an object the client writes. Metadata are read here as the server reads them.
  First, whatever is stored, the text a client is shown has none of the reserved keys and reads the same on every other key.
  Second, if the client sends an object, the text stored instead reads on the reserved keys exactly as what was stored
  before if the provider stays, and has none of them otherwise, and it reads on every other key as the client's text.
  In both, a value of another key, text or not, is kept as it was or as the JSON encoder respells it.
  Third, what is sent and is no object is stored as it came, and the literal null too unless
  the provider stays and a reserved key is stored: then the write into a nil map panics.
\<close>

theorem reserved_meta_carried:
  fixes stored sent :: string and keep :: bool
  assumes "json_laws j valid canon"
  defines "R \<equiv> set reservedProviderMetaKeys" and "shown \<equiv> redactReservedProviderMetaKeys j stored"
    and "result \<equiv> reconcileProviderMetaForStorage j sent (ParseProviderMeta j stored) keep"
  shows "(\<forall>k. ParseProviderMeta j shown k = (if k \<in> R then None else ParseProviderMeta j stored k)) \<and>
    (\<forall>f. fields_of j stored = Object f \<longrightarrow> (\<exists>h. fields_of j shown = Object h \<and> (\<forall>k. k \<notin> R \<longrightarrow> spelled canon (map_of f k) (map_of h k)))) \<and>
    (case fields_of j sent of
       Object g \<Rightarrow> \<exists>out changed h. result = Some (out, changed) \<and> fields_of j out = Object h \<and>
         (\<forall>k. ParseProviderMeta j out k = (if k \<in> R then (if keep then ParseProviderMeta j stored k else None) else ParseProviderMeta j sent k)) \<and>
         (\<forall>k. k \<notin> R \<longrightarrow> spelled canon (map_of g k) (map_of h k))
     | NilMap \<Rightarrow> result = (if keep \<and> (\<exists>k \<in> R. ParseProviderMeta j stored k \<noteq> None) then None else Some (sent, False))
     | NotObject \<Rightarrow> result = Some (sent, False))"
proof -
  note law = assms(1)
  have 1: "ParseProviderMeta j shown k = (if k \<in> R then None else ParseProviderMeta j stored k)" for k
  proof (cases "fields_of j stored")
    case (Object f)
    from redact_fields [OF law this] obtain h where h: "fields_of j shown = Object h"
        "\<forall>k. if k \<in> R then map_of h k = None else spelled canon (map_of f k) (map_of h k)"
      unfolding shown_def R_def by blast
    from h(2) have "map_option (field_text j) (map_of h k) = (if k \<in> R then None else map_option (field_text j) (map_of f k))"
      using field_text_kept [OF law] by (auto split: if_splits)
    then show ?thesis by (simp add: meta_fields [OF law h(1)] meta_fields [OF law Object])
  qed (auto simp: shown_def redactReservedProviderMetaKeys_def fields_of_def ParseProviderMeta_def split: if_splits)
  have 2: "\<exists>h. fields_of j shown = Object h \<and> (\<forall>k. k \<notin> R \<longrightarrow> spelled canon (map_of f k) (map_of h k))" if "fields_of j stored = Object f" for f
    using redact_fields [OF law that] unfolding shown_def R_def by fastforce
  have 3: "\<exists>out changed h. result = Some (out, changed) \<and> fields_of j out = Object h \<and>
      (\<forall>k. ParseProviderMeta j out k = (if k \<in> R then (if keep then ParseProviderMeta j stored k else None) else ParseProviderMeta j sent k)) \<and>
      (\<forall>k. k \<notin> R \<longrightarrow> spelled canon (map_of g k) (map_of h k))" if g: "fields_of j sent = Object g" for g
  proof -
    from reconcile_fields [OF law g, of "ParseProviderMeta j stored" keep] obtain out changed h where
      r: "result = Some (out, changed)" "fields_of j out = Object h"
        "\<forall>k. if k \<in> R then map_of h k = (if keep then map_option marshal_string (ParseProviderMeta j stored k) else None)
             else spelled canon (map_of g k) (map_of h k)"
      unfolding result_def R_def by blast
    have "map_option (field_text j \<circ> marshal_string) (ParseProviderMeta j stored k) = ParseProviderMeta j stored k" for k
      using law meta_utf8 [OF law, of stored k] by (cases "ParseProviderMeta j stored k") (auto simp: field_text_def json_laws_def)
    then have "ParseProviderMeta j out k = (if k \<in> R then (if keep then ParseProviderMeta j stored k else None) else ParseProviderMeta j sent k)" for k
      using r(3) [rule_format, of k] field_text_kept [OF law]
      by (auto simp: meta_fields [OF law r(2)] meta_fields [OF law g] option.map_comp split: if_splits)
    then show ?thesis using r by (auto split: if_splits)
  qed
  have "unmarshal_fields j ''{}'' = Object []" using law by (simp add: json_laws_def)
  then have 4: "result = (if fields_of j sent = NilMap \<and> keep \<and> (\<exists>k \<in> R. ParseProviderMeta j stored k \<noteq> None) then None else Some (sent, False))"
    if "fields_of j sent = NilMap \<or> fields_of j sent = NotObject"
    using reconcile_no_object [OF that] unfolding result_def R_def by blast
  show ?thesis using 1 2 3 4 by (cases "fields_of j sent") simp_all
qed

text \<open>
  A metadata text that is the literal null decodes to a nil map, and putting a stored key back into
  it panics: the request that writes it while a revocation is pending ends in the server's recovery handler.
\<close>

lemma reconcile_null_panics:
  assumes "unmarshal_fields j ''null'' = NilMap" "stored pendingRevokeURL = Some v"
  shows "reconcileProviderMetaForStorage j ''null'' stored True = None"
proof -
  have "reconcile_loop stored True ks None ch = None" if "pendingRevokeURL \<in> set ks" for ks ch
    using that assms(2) by (induction ks arbitrary: ch) (auto simp: Let_def split: option.splits)
  moreover have "pendingRevokeURL \<in> set reservedProviderMetaKeys" by (simp add: reservedProviderMetaKeys_def)
  ultimately show ?thesis using assms(1) by (simp add: reconcileProviderMetaForStorage_def)
qed

text \<open>A reader and a writer of objects that satisfy the laws: each text is spelled byte by byte and closed by a dot.\<close>

fun spell :: "string \<Rightarrow> string" where
  "spell [] = ''.''"
| "spell (c # r) = CHR ''x'' # c # spell r"

fun unspell :: "string \<Rightarrow> (string \<times> string) option" where
  "unspell (c # d # r) =
     (if c = CHR ''x'' then map_option (\<lambda>(t, rest). (d # t, rest)) (unspell r) else if c = CHR ''.'' then Some ([], d # r) else None)"
| "unspell [c] = (if c = CHR ''.'' then Some ([], []) else None)"
| "unspell [] = None"

definition spell_pair :: "string \<times> string \<Rightarrow> string" where
  "spell_pair kv = spell (fst kv) @ spell (snd kv)"

fun unspell_pairs :: "nat \<Rightarrow> string \<Rightarrow> raw_fields option" where
  "unspell_pairs 0 t = (if t = [] then Some [] else None)"
| "unspell_pairs (Suc n) t =
     (if t = [] then Some []
      else case unspell t of
             None \<Rightarrow> None
           | Some (k, r) \<Rightarrow> (case unspell r of None \<Rightarrow> None | Some (v, r') \<Rightarrow> map_option ((#) (k, v)) (unspell_pairs n r')))"

definition drop_space :: "string \<Rightarrow> string" where
  "drop_space = dropWhile (\<lambda>c. c = CHR '' '')"

definition spell_lib :: json_lib where
  "spell_lib =
     \<lparr>unmarshal_fields = (\<lambda>t. if t = ''{}'' then Object [] else if t = ''null'' then NilMap
                            else case t of [] \<Rightarrow> NotObject
                                 | c # r \<Rightarrow> (case unspell_pairs (length r) r of
                                      None \<Rightarrow> NotObject
                                    | Some f \<Rightarrow> if list_all (\<lambda>kv. utf8_valid (fst kv)) f then Object f else NotObject)),
      marshal_fields = (\<lambda>f. Some (CHR ''{'' # concat (map (\<lambda>(k, v). spell_pair (k, drop_space v))
                                 (filter (\<lambda>kv. utf8_valid (fst kv)) f)))),
      unmarshal_string = (\<lambda>e. let t = drop_space e; v = appendJSONUnescaped (butlast (tl t))
                              in if 2 \<le> length t \<and> utf8_valid v then Some v else None),
      unmarshal_strings = (\<lambda>t. Some [t])\<rparr>"

lemma unspell_spell: "unspell (spell t @ r) = Some (t, r)"
  by (induction t) (cases r; simp)+

lemma spell_not_empty: "spell t \<noteq> []"
  by (cases t) simp_all

lemma unspell_pairs_spell: "length f \<le> n \<Longrightarrow> unspell_pairs n (concat (map spell_pair f)) = Some f"
proof (induction f arbitrary: n)
  case (Cons kv f)
  then show ?case by (cases n) (simp_all add: spell_pair_def unspell_spell spell_not_empty)
next
  case Nil
  then show ?case by (cases n) simp_all
qed

lemma length_spell_pairs: "length f \<le> length (concat (map spell_pair f))"
proof (induction f)
  case (Cons kv f)
  have "1 \<le> length (spell_pair kv)" by (cases "fst kv") (simp_all add: spell_pair_def)
  then show ?case using Cons by simp
qed simp

lemma drop_space_simps:
  "drop_space (drop_space v) = drop_space v" "drop_space (marshal_string v) = marshal_string v"
  by (simp_all add: drop_space_def marshal_string_def)

lemma map_of_filter_keys: "map_of (filter (\<lambda>kv. P (fst kv)) m) k = (if P k then map_of m k else None)"
  by (induction m) auto

lemma map_of_values: "map_of (map (\<lambda>(k, v). (k, g v)) m) k = map_option g (map_of m k)"
  by (induction m) auto

lemma spell_lib_reads:
  assumes "list_all (\<lambda>kv. utf8_valid (fst kv)) f"
  shows "unmarshal_fields spell_lib (CHR ''{'' # concat (map spell_pair f)) = Object f"
proof (cases f)
  case (Cons kv r)
  then have "concat (map spell_pair f) \<noteq> ''}''" by (cases "fst kv") (auto simp: spell_pair_def)
  then show ?thesis using assms unspell_pairs_spell [OF length_spell_pairs, of f] by (simp add: spell_lib_def)
qed (simp add: spell_lib_def)

lemma spell_lib_keys:
  assumes "unmarshal_fields spell_lib t = Object f" "map_of f k = Some v"
  shows "utf8_valid k"
proof -
  have "f = [] \<or> list_all (\<lambda>kv. utf8_valid (fst kv)) f"
    using assms(1) by (auto simp: spell_lib_def split: if_splits list.splits option.splits)
  then show ?thesis using map_of_SomeD [OF assms(2)] by (auto simp: list_all_iff)
qed

lemma spell_lib_writes:
  assumes "\<forall>k v. map_of m k = Some v \<longrightarrow> utf8_valid k"
  shows "\<exists>t m'. marshal_fields spell_lib m = Some t \<and> unmarshal_fields spell_lib t = Object m' \<and>
    (\<forall>k. map_of m' k = map_option drop_space (map_of m k))"
proof -
  let ?f = "filter (\<lambda>kv. utf8_valid (fst kv)) m"
  let ?m = "map (\<lambda>(k, v). (k, drop_space v)) ?f"
  have "list_all (\<lambda>kv. utf8_valid (fst kv)) ?m" by (auto simp: list_all_iff)
  moreover have "marshal_fields spell_lib m = Some (CHR ''{'' # concat (map spell_pair ?m))"
    by (simp add: spell_lib_def comp_def case_prod_unfold)
  moreover have "map_of ?m k = map_option drop_space (map_of m k)" for k
    using assms by (cases "map_of m k") (auto simp: map_of_values map_of_filter_keys)
  ultimately show ?thesis using spell_lib_reads by blast
qed

lemma spell_lib_laws: "json_laws spell_lib (\<lambda>_. True) drop_space"
proof -
  have str: "utf8_valid v \<Longrightarrow> unmarshal_string spell_lib (marshal_string v) = Some v" for v
    by (simp add: spell_lib_def Let_def drop_space_simps)
       (simp add: marshal_string_def json_escape_undone butlast_append)
  have "unmarshal_string spell_lib e = Some v \<Longrightarrow> utf8_valid v" "unmarshal_string spell_lib (drop_space e) = unmarshal_string spell_lib e" for e v
    by (auto simp: spell_lib_def Let_def drop_space_simps split: if_splits)
  moreover have "unmarshal_fields spell_lib [] = NotObject" "unmarshal_fields spell_lib ''{}'' = Object []"
    by (simp_all add: spell_lib_def)
  ultimately show ?thesis
    unfolding json_laws_def using str spell_lib_keys spell_lib_writes drop_space_simps(2) by blast
qed

definition stored_meta :: string where
  "stored_meta = CHR ''{'' # spell_pair (pendingRevokeURL, marshal_string ''https://x.io/k'')"

definition sent_meta :: string where
  "sent_meta = CHR ''{'' # spell_pair (''port'', '' 8080'')"

text \<open>A client that never saw the pending revocation sends a port number: both are in what is stored.\<close>

theorem reserved_meta_carried_witness:
  "\<exists>out changed h. reconcileProviderMetaForStorage spell_lib sent_meta (ParseProviderMeta spell_lib stored_meta) True = Some (out, changed) \<and>
    fields_of spell_lib out = Object h \<and> ParseProviderMeta spell_lib out pendingRevokeURL = Some ''https://x.io/k'' \<and>
    map_of h ''port'' \<in> {Some '' 8080'', Some ''8080''}"
proof -
  have 1: "fields_of spell_lib sent_meta = Object [(''port'', '' 8080'')]" "drop_space '' 8080'' = ''8080''" by code_simp+
  have 2: "ParseProviderMeta spell_lib stored_meta pendingRevokeURL = Some ''https://x.io/k''" by code_simp
  have 3: "pendingRevokeURL \<in> set reservedProviderMetaKeys" "''port'' \<notin> set reservedProviderMetaKeys" by code_simp+
  from reserved_meta_carried [OF spell_lib_laws, where stored = stored_meta and sent = sent_meta and keep = True] obtain out changed h where
    "reconcileProviderMetaForStorage spell_lib sent_meta (ParseProviderMeta spell_lib stored_meta) True = Some (out, changed)"
    "fields_of spell_lib out = Object h"
    "ParseProviderMeta spell_lib out pendingRevokeURL = ParseProviderMeta spell_lib stored_meta pendingRevokeURL"
    "spelled drop_space (Some '' 8080'') (map_of h ''port'')"
    using 3 by (auto simp: 1(1))
  then show ?thesis using 1(2) 2 by (auto simp: spelled_def)
qed

end
