(* ===== verification/Audit_Names.thy ===== *)
theory Audit_Names
  imports Secret_Exit Store
begin

text \<open>
  Names in the audit trail, \<^verbatim>\<open>handlers/audit_name_crypto.go\<close>: the append-only audit tables keep the
  name of the entry sealed under a data key of their own, which is stored wrapped under the master key
  in the settings.  Also the opening of an entry's value and name from \<^verbatim>\<open>handlers/vault.go\<close>, which try
  the previous master key while a rotation is under way.

  \<open>derive\<close> is the key derivation of \<^verbatim>\<open>columncrypto\<close>; random bytes are arguments.
\<close>

section \<open>Settings and the data key\<close>

definition UpsertSetting :: "store \<Rightarrow> string \<Rightarrow> string \<Rightarrow> store option" where
  "UpsertSetting s key v =
     (if fails s ''UpsertSetting'' then None else Some (s\<lparr>settings := sql_upsert key v (\<lambda>_. v) (settings s)\<rparr>))"

definition auditDEKSetting :: string where
  "auditDEKSetting = ''audit_name_dek''"

definition vaultFieldAuditDEK :: field where
  "vaultFieldAuditDEK =
     Some \<lparr>fd_name = ''settings.audit_name_dek'', fd_class = NotACredential, fd_exitKey = [],
           fd_why = ''the data-encryption key for the audit name columns, wrapped under the master key. It exists so '' @
             ''capability_log.secret_name and service_secret_audit.secret_names can be encrypted at rest '' @
             ''WITHOUT a master-key rotation having to rewrite append-only audit rows: rotating rewraps this '' @
             ''one settings value and leaves the rows untouched.'',
           fd_declaredAt = ''internal/handlers/audit_name_crypto.go:73''\<rparr>"

definition vaultFieldAuditName :: field where
  "vaultFieldAuditName =
     Some \<lparr>fd_name = ''capability_log.secret_name'', fd_class = NotACredential, fd_exitKey = [],
           fd_why = ''the entry name recorded beside a credential access, in capability_log and in '' @
             ''service_secret_audit.secret_names. Denormalised on purpose so the trail survives the entry '' @
             ''being deleted, which is exactly the case an attacker creates. Encrypted under the audit DEK '' @
             ''rather than the master key so the rows never have to be rewritten.'',
           fd_declaredAt = ''internal/handlers/audit_name_crypto.go:81''\<rparr>"

definition vaultKeyRing :: "vault_keys \<Rightarrow> string list" where
  "vaultKeyRing ks =
     key_source (current ks) #
     (case previous ks of None \<Rightarrow> [] | Some p \<Rightarrow> if key_source p \<noteq> [] then [key_source p] else [])"

datatype dek_error = NoMasterKey | UnwrapFailed open_error | MalformedKey | NoRandom | WrapFailed | PersistFailed

record audit_rnd =
  rnd_key :: bytes
  rnd_wrap :: bytes
  rnd_seal :: bytes

definition loadOrCreateAuditDEK ::
  "block_cipher \<Rightarrow> (string \<Rightarrow> bytes) \<Rightarrow> store \<Rightarrow> string list \<Rightarrow> audit_rnd \<Rightarrow> (dek_error + bytes) \<times> store" where
  "loadOrCreateAuditDEK E derive s masterKeys rnd =
     (case masterKeys of
        [] \<Rightarrow> (Inl NoMasterKey, s)
      | k # _ \<Rightarrow>
         (case (case GetSetting s auditDEKSetting of Row v \<Rightarrow> v | _ \<Rightarrow> []) of
            c # r \<Rightarrow>
              (case DecryptStringAny E derive (c # r) vaultFieldAuditDEK masterKeys None of
                 Inl e \<Rightarrow> (Inl (UnwrapFailed e), s)
               | Inr txt \<Rightarrow>
                  (case std64_decode txt of
                     Some decoded \<Rightarrow> if length decoded \<noteq> 32 then (Inl MalformedKey, s) else (Inr decoded, s)
                   | None \<Rightarrow> (Inl MalformedKey, s)))
          | [] \<Rightarrow>
              (case read_full (rnd_key rnd) 32 of
                 None \<Rightarrow> (Inl NoRandom, s)
               | Some fresh \<Rightarrow>
                  (case EncryptString E derive (std64_encode fresh) k (rnd_wrap rnd) of
                     None \<Rightarrow> (Inl WrapFailed, s)
                   | Some wrapped \<Rightarrow>
                      (case UpsertSetting s auditDEKSetting wrapped of
                         None \<Rightarrow> (Inl PersistFailed, s)
                       | Some s' \<Rightarrow> (Inr fresh, s'))))))"

text \<open>\<^verbatim>\<open>sync.Once\<close>: the first result is kept for the life of the process, also when it is an error.\<close>

type_synonym auditNameKey = "(dek_error + bytes) option"

definition auditNameDEK ::
  "block_cipher \<Rightarrow> (string \<Rightarrow> bytes) \<Rightarrow> vault_keys \<Rightarrow> auditNameKey \<Rightarrow> store \<Rightarrow> audit_rnd \<Rightarrow> (dek_error + bytes) \<times> auditNameKey \<times> store" where
  "auditNameDEK E derive ks kept s rnd =
     (case kept of
        Some r \<Rightarrow> (r, kept, s)
      | None \<Rightarrow> (let (r, s') = loadOrCreateAuditDEK E derive s (vaultKeyRing ks) rnd in (r, Some r, s')))"

definition auditNameUnavailable :: string where
  "auditNameUnavailable = ''[unavailable]''"

definition SealAuditName ::
  "block_cipher \<Rightarrow> (string \<Rightarrow> bytes) \<Rightarrow> vault_keys \<Rightarrow> auditNameKey \<Rightarrow> store \<Rightarrow> audit_rnd \<Rightarrow> string \<Rightarrow> string \<times> auditNameKey \<times> store" where
  "SealAuditName E derive ks kept s rnd plain =
     (if plain = [] then ([], kept, s)
      else let (r, kept', s') = auditNameDEK E derive ks kept s rnd
           in (case r of
                 Inl _ \<Rightarrow> auditNameUnavailable
               | Inr key \<Rightarrow> (case SealColumn E key plain (rnd_seal rnd) of None \<Rightarrow> auditNameUnavailable | Some sealed \<Rightarrow> sealed),
               kept', s'))"

definition OpenAuditName ::
  "block_cipher \<Rightarrow> (string \<Rightarrow> bytes) \<Rightarrow> vault_keys \<Rightarrow> auditNameKey \<Rightarrow> store \<Rightarrow> audit_rnd \<Rightarrow> string \<Rightarrow> string \<times> auditNameKey \<times> store" where
  "OpenAuditName E derive ks kept s rnd stored =
     (if stored = [] \<or> \<not> IsSealedColumn stored then (stored, kept, s)
      else let (r, kept', s') = auditNameDEK E derive ks kept s rnd
           in (case r of
                 Inl _ \<Rightarrow> auditNameUnavailable
               | Inr key \<Rightarrow> (case OpenColumn E key stored vaultFieldAuditName of Inl _ \<Rightarrow> auditNameUnavailable | Inr plain \<Rightarrow> plain),
               kept', s'))"

section \<open>An entry's value and name\<close>

definition vaultFieldName :: field where
  "vaultFieldName =
     Some \<lparr>fd_name = ''vault_entries.name'', fd_class = NotACredential, fd_exitKey = [],
           fd_why = ''the label the operator gave the entry, and the column that describes it best. It is shown in every '' @
             ''list and every picker, so it is not a credential and releasing it is not a decision. It is '' @
             ''encrypted at rest for the same reason url and username are: '' @ [CHR 0x22] @ ''Stripe live key'' @ [CHR 0x22] @
             '' beside an encrypted value hands a keyless reader the whole inventory, which is most of what the other '' @
             ''encrypted columns were meant to withhold. Per-user uniqueness moved to name_bidx when this '' @
             ''stopped being comparable in SQL.'',
           fd_declaredAt = ''internal/handlers/encrypted_field_ledger.go:90''\<rparr>"

definition EntryNamePlain :: "block_cipher \<Rightarrow> vault_keys \<Rightarrow> string \<Rightarrow> string" where
  "EntryNamePlain E ks stored = decryptColumnOrLog E ks stored [] vaultFieldName"

text \<open>The plaintext, and whether the previous master key opened it; the error is that of the current key.\<close>

definition openEntrySecretWithKeyAge ::
  "block_cipher \<Rightarrow> vault_keys \<Rightarrow> authority \<Rightarrow> bytes \<Rightarrow> bytes \<Rightarrow> int \<Rightarrow> Origin \<Rightarrow> open_error + Plaintext \<times> bool" where
  "openEntrySecretWithKeyAge E ks a ct nonce encVersion orig =
     (let pick = (\<lambda>m. if encVersion = 1 then key_legacy m else key_value m)
      in case exit_Open E (pick (current ks)) ct nonce orig (Some a) of
           Inr pt \<Rightarrow> Inr (pt, False)
         | Inl e \<Rightarrow>
            (case previous ks of
               None \<Rightarrow> Inl e
             | Some prev \<Rightarrow>
                (case exit_Open E (pick prev) ct nonce orig (Some a) of
                   Inr pt \<Rightarrow> Inr (pt, True)
                 | Inl _ \<Rightarrow> Inl e)))"

definition OpenEntrySecret ::
  "block_cipher \<Rightarrow> vault_keys \<Rightarrow> authority \<Rightarrow> bytes \<Rightarrow> bytes \<Rightarrow> int \<Rightarrow> Origin \<Rightarrow> open_error + Plaintext" where
  "OpenEntrySecret E ks a ct nonce encVersion orig =
     (case openEntrySecretWithKeyAge E ks a ct nonce encVersion orig of Inl e \<Rightarrow> Inl e | Inr (pt, _) \<Rightarrow> Inr pt)"

section \<open>What the trail keeps\<close>

lemma audit_name_never_clear:
  assumes "SealAuditName E derive ks kept s rnd plain = (stored, kept', s')"
  shows "stored = [] \<and> plain = [] \<or> stored = auditNameUnavailable \<or> IsSealedColumn stored"
  using assms by (auto simp: SealAuditName_def split: if_splits prod.splits sum.splits option.splits intro: SealColumn_sealed)

lemma DecryptStringAny_finds:
  assumes "k \<in> set ks" "k \<noteq> []" "DecryptString E derive w k f = Inr p"
    and "\<forall>j \<in> set ks. j = k \<or> j = [] \<or> (\<exists>e. DecryptString E derive w j f = Inl e)"
  shows "DecryptStringAny E derive w f ks err = Inr p"
  using assms by (induction ks arbitrary: err) (auto split: sum.splits)

lemma minted_key:
  assumes "auditNameDEK E derive ks None s rnd = (Inr key, kept, s')" "GetSetting s auditDEKSetting = ErrNoRows"
  shows "kept = Some (Inr key)" "length key = 32"
    "\<exists>w. EncryptString E derive (std64_encode key) (key_source (current ks)) (rnd_wrap rnd) = Some w \<and> w \<noteq> [] \<and> GetSetting s' auditDEKSetting = Row w"
proof -
  obtain w where w: "read_full (rnd_key rnd) 32 = Some key" "kept = Some (Inr key)"
      "EncryptString E derive (std64_encode key) (key_source (current ks)) (rnd_wrap rnd) = Some w"
      "UpsertSetting s auditDEKSetting w = Some s'"
    using assms by (auto simp: auditNameDEK_def loadOrCreateAuditDEK_def vaultKeyRing_def split: option.splits sum.splits)
  then show "kept = Some (Inr key)" "length key = 32" by (simp_all add: read_full_length)
  have "w \<noteq> []" using w(3) by (auto simp: EncryptString_def marker_def split: option.splits)
  moreover have "GetSetting s' auditDEKSetting = Row w"
    using w(4) assms(2) by (auto simp: UpsertSetting_def GetSetting_def row_simps split: if_splits)
  ultimately show "\<exists>w. EncryptString E derive (std64_encode key) (key_source (current ks)) (rnd_wrap rnd) = Some w \<and> w \<noteq> [] \<and> GetSetting s' auditDEKSetting = Row w"
    using w(3) by blast
qed

lemma loaded_key:
  assumes "GetSetting s auditDEKSetting = Row w" "w \<noteq> []" "length key = 32"
    and "DecryptStringAny E derive w vaultFieldAuditDEK (vaultKeyRing ks) None = Inr (std64_encode key)"
  shows "auditNameDEK E derive ks None s rnd = (Inr key, Some (Inr key), s)"
  using assms by (cases w) (auto simp: auditNameDEK_def loadOrCreateAuditDEK_def vaultKeyRing_def std64.dec_enc)

text \<open>
  The audit trail stays readable: a name that was sealed into it under a data key that this very write minted
  opens to itself in the process that wrote it, and in any later process that finds the wrapped key unchanged and
  has the master key of that time as its current or as its previous one (provided that no other key of
  its ring opens the wrapping); no later reading replaces the data key.
\<close>

theorem audit_names_survive_rotation:
  assumes "SealAuditName E derive ks None s rnd plain = (stored, kept, s1)" "IsSealedColumn stored"
    and "GetSetting s auditDEKSetting = ErrNoRows" "key_source (current ks) \<noteq> []"
    and "GetSetting s2 auditDEKSetting = GetSetting s1 auditDEKSetting" "key_source (current ks) \<in> set (vaultKeyRing ks2)"
    and "\<forall>w. GetSetting s1 auditDEKSetting = Row w \<longrightarrow>
      (\<forall>k \<in> set (vaultKeyRing ks2). k = key_source (current ks) \<or> k = [] \<or> (\<exists>e. DecryptString E derive w k vaultFieldAuditDEK = Inl e))"
  shows "OpenAuditName E derive ks kept s1 rnd1 stored = (plain, kept, s1) \<and>
    (\<exists>kept2. OpenAuditName E derive ks2 None s2 rnd2 stored = (plain, kept2, s2))"
proof -
  have "stored \<noteq> []" "stored \<noteq> auditNameUnavailable"
    using assms(2) by (auto simp: IsSealedColumn_def ColumnPrefix_def has_prefix_def auditNameUnavailable_def)
  then obtain key where key: "auditNameDEK E derive ks None s rnd = (Inr key, kept, s1)" "SealColumn E key plain (rnd_seal rnd) = Some stored"
    using assms(1) by (auto simp: SealAuditName_def split: if_splits prod.splits sum.splits option.splits)
  note m = minted_key [OF key(1) assms(3)]
  obtain w where w: "EncryptString E derive (std64_encode key) (key_source (current ks)) (rnd_wrap rnd) = Some w" "w \<noteq> []"
      "GetSetting s1 auditDEKSetting = Row w" using m(3) by blast
  have opens: "OpenColumn E key stored vaultFieldAuditName = Inr plain"
    using OpenColumn_SealColumn [OF key(2)] by (simp add: vaultFieldAuditName_def)
  have "DecryptStringAny E derive w vaultFieldAuditDEK (vaultKeyRing ks2) None = Inr (std64_encode key)"
    using DecryptString_EncryptString [OF w(1)] assms(4,6,7) w(3)
    by (intro DecryptStringAny_finds [where k = "key_source (current ks)"]) (auto simp: vaultFieldAuditDEK_def)
  then have "auditNameDEK E derive ks2 None s2 rnd2 = (Inr key, Some (Inr key), s2)"
    using assms(5) w(2,3) m(2) by (intro loaded_key) auto
  then show ?thesis
    using opens m(1) \<open>stored \<noteq> []\<close> assms(2) by (simp add: OpenAuditName_def auditNameDEK_def)
qed

definition rotated_keys :: vault_keys where
  "rotated_keys = \<lparr>current = sample_key CHR ''b'', previous = Some (sample_key CHR ''a'')\<rparr>"

lemma sample_derive_wrong_key:
  assumes "EncryptString sample_cipher (replicate 32 \<circ> hd) p ''a'' rnd = Some w" "f \<noteq> None"
  shows "DecryptString sample_cipher (replicate 32 \<circ> hd) w ''b'' f = Inl AuthFailed"
proof -
  obtain nonce where n: "read_full rnd NonceSize = Some nonce"
      "w = marker @ std64_encode (nonce @ gcm_seal sample_cipher (replicate 32 CHR ''a'') nonce p)"
    using assms(1) by (auto simp: EncryptString_def SealPacked_def split: option.splits)
  have "bytes_of_word 1 \<noteq> bytes_of_word 0" by (simp add: bytes_of_word_def upt_rec)
  then have "gcm_open sample_cipher (replicate 32 CHR ''b'') nonce (gcm_seal sample_cipher (replicate 32 CHR ''a'') nonce p) = None"
    by (intro gcm_open_other_key) (simp add: sample_tag sample_cipher_def bit_first_counter)
  with n read_full_length [OF n(1)] assms(2) show ?thesis
    by (simp add: DecryptString_def OpenPacked_def IsZero_def std64.dec_enc openPacked_def open_result_def)
qed

theorem audit_names_survive_rotation_witness:
  "\<exists>stored s1 kept kept2. SealAuditName sample_cipher (replicate 32 \<circ> hd) \<lparr>current = sample_key CHR ''a'', previous = None\<rparr> None empty_store
      \<lparr>rnd_key = replicate 32 CHR ''k'', rnd_wrap = replicate 12 CHR ''w'', rnd_seal = replicate 12 CHR ''n''\<rparr> ''db'' = (stored, kept, s1) \<and>
    OpenAuditName sample_cipher (replicate 32 \<circ> hd) rotated_keys None s1
      \<lparr>rnd_key = [], rnd_wrap = [], rnd_seal = []\<rparr> stored = (''db'', kept2, s1)"
proof -
  let ?d = "replicate 32 \<circ> hd" and ?ks = "\<lparr>current = sample_key CHR ''a'', previous = None\<rparr>"
  let ?rnd = "\<lparr>rnd_key = replicate 32 CHR ''k'', rnd_wrap = replicate 12 CHR ''w'', rnd_seal = replicate 12 CHR ''n''\<rparr>"
  obtain stored kept s1 where s: "SealAuditName sample_cipher ?d ?ks None empty_store ?rnd ''db'' = (stored, kept, s1)"
    by (metis prod_cases3)
  have no: "GetSetting empty_store auditDEKSetting = ErrNoRows" by (simp add: GetSetting_def fetch_def empty_store_def)
  obtain w where w: "EncryptString sample_cipher ?d (std64_encode (replicate 32 CHR ''k'')) ''a'' (replicate 12 CHR ''w'') = Some w"
    by (simp add: EncryptString_def SealPacked_def read_full_def NonceSize_def)
  let ?key = "replicate 32 CHR ''k''" and ?s1 = "empty_store\<lparr>settings := [(auditDEKSetting, w)]\<rparr>"
  have "UpsertSetting empty_store auditDEKSetting w = Some ?s1" by (simp add: UpsertSetting_def empty_store_def sql_upsert_def)
  then have "auditNameDEK sample_cipher ?d ?ks None empty_store ?rnd = (Inr ?key, Some (Inr ?key), ?s1)"
    using w by (simp add: auditNameDEK_def loadOrCreateAuditDEK_def vaultKeyRing_def no sample_key_def read_full_def)
  moreover obtain c where c: "SealColumn sample_cipher ?key ''db'' (replicate 12 CHR ''n'') = Some c" "IsSealedColumn c"
    using SealColumn_sealed [of sample_cipher ?key "''db''" "replicate 12 CHR ''n''"] by (simp add: SealColumn_def read_full_def NonceSize_def)
  ultimately have s1: "s1 = ?s1" and sealed: "IsSealedColumn stored" using s by (simp_all add: SealAuditName_def)
  have ring: "vaultKeyRing rotated_keys = [''b'', ''a'']" by (simp add: vaultKeyRing_def rotated_keys_def sample_key_def)
  have src: "key_source (current ?ks) = ''a''" by (simp add: sample_key_def)
  have other: "\<forall>v. GetSetting s1 auditDEKSetting = Row v \<longrightarrow>
      (\<forall>k \<in> set (vaultKeyRing rotated_keys). k = key_source (current ?ks) \<or> k = [] \<or> (\<exists>e. DecryptString sample_cipher ?d v k vaultFieldAuditDEK = Inl e))"
    unfolding ring src using sample_derive_wrong_key [OF w, of vaultFieldAuditDEK]
    by (auto simp: s1 GetSetting_def fetch_def empty_store_def vaultFieldAuditDEK_def)
  have "key_source (current ?ks) \<noteq> []" "key_source (current ?ks) \<in> set (vaultKeyRing rotated_keys)" unfolding src ring by simp_all
  with audit_names_survive_rotation [OF s sealed no _ refl _ other] show ?thesis using s by blast
qed

text \<open>
  The wrapped key does not survive a failed read of its settings row: the error is taken for a first use, and the
  next write replaces the row by a new key, under which the names recorded so far do not open.
\<close>

lemma read_error_replaces_audit_key:
  assumes "fails s ''GetSetting''" "\<not> fails s ''UpsertSetting''" "32 \<le> length (rnd_key rnd)" "12 \<le> length (rnd_wrap rnd)" "plain \<noteq> []"
  shows "\<exists>stored kept s' w. SealAuditName E derive ks None s rnd plain = (stored, kept, s') \<and>
    EncryptString E derive (std64_encode (take 32 (rnd_key rnd))) (key_source (current ks)) (rnd_wrap rnd) = Some w \<and>
    map_of (settings s') auditDEKSetting = Some w"
  using assms by (auto simp: SealAuditName_def auditNameDEK_def loadOrCreateAuditDEK_def vaultKeyRing_def GetSetting_def fetch_def
      UpsertSetting_def read_full_def EncryptString_def SealPacked_def NonceSize_def Let_def split: option.splits)

end
