(* ===== verification/Clock_Text.thy ===== *)
theory Clock_Text
  imports Encoding
begin

text \<open>
  The texts in which instants are stored and compared: \<^verbatim>\<open>time.RFC3339\<close> in UTC, which the Go code
  writes, and \<^verbatim>\<open>datetime('now')\<close>, which SQLite computes; SQLite compares texts byte by byte.
  Instants are seconds since 1970; the texts are those of the years up to 9999.
\<close>

section \<open>Calendar dates\<close>

type_synonym date = "nat \<times> nat \<times> nat"

definition leap :: "nat \<Rightarrow> bool" where
  "leap y \<longleftrightarrow> 4 dvd y \<and> (100 dvd y \<longrightarrow> 400 dvd y)"

definition month_days :: "nat \<Rightarrow> nat \<Rightarrow> nat" where
  "month_days y m = (if m = 2 then (if leap y then 29 else 28) else if m \<in> {4, 6, 9, 11} then 30 else 31)"

fun next_day :: "date \<Rightarrow> date" where
  "next_day (y, m, d) =
     (if d < month_days y m then (y, m, d + 1) else if m < 12 then (y, m + 1, 1) else (y + 1, 1, 1))"

definition civil :: "nat \<Rightarrow> date" where
  "civil n = (next_day ^^ n) (1970, 1, 1)"

fun before :: "date \<Rightarrow> date \<Rightarrow> bool" where
  "before (y, m, d) (y', m', d') \<longleftrightarrow> y < y' \<or> (y = y' \<and> (m < m' \<or> (m = m' \<and> d < d')))"

fun proper :: "date \<Rightarrow> bool" where
  "proper (y, m, d) \<longleftrightarrow> 1 \<le> m \<and> m \<le> 12 \<and> 1 \<le> d \<and> d \<le> 31"

lemma month_days_le: "month_days y m \<le> 31"
  by (simp add: month_days_def)

lemma next_day_proper: "proper t \<Longrightarrow> proper (next_day t) \<and> before t (next_day t)"
  using month_days_le [of "fst t" "fst (snd t)"] by (cases t) auto

lemma before_trans: "before a b \<Longrightarrow> before b c \<Longrightarrow> before a c"
  by (cases a; cases b; cases c) auto

lemma civil_Suc: "civil (Suc n) = next_day (civil n)"
  by (simp add: civil_def)

lemma civil_proper: "proper (civil n)"
  by (induction n) (use next_day_proper in \<open>auto simp: civil_Suc\<close>, simp add: civil_def)

lemma civil_before: "n < m \<Longrightarrow> before (civil n) (civil m)"
proof (induction m)
  case (Suc m)
  then show ?case
    using next_day_proper [OF civil_proper, of m] before_trans by (cases "n = m") (auto simp: civil_Suc)
qed simp

section \<open>Texts\<close>

text \<open>The decimal digits of a number below \<open>10 ^ w\<close>, with leading zeros.\<close>

fun pad :: "nat \<Rightarrow> nat \<Rightarrow> string" where
  "pad 0 n = []"
| "pad (Suc w) n = char_of (48 + n div 10 ^ w mod 10) # pad w (n mod 10 ^ w)"

fun date_text :: "date \<Rightarrow> string" where
  "date_text (y, m, d) = pad 4 y @ ''-'' @ pad 2 m @ ''-'' @ pad 2 d"

definition time_text :: "nat \<Rightarrow> string" where
  "time_text s = pad 2 (s div 3600) @ '':'' @ pad 2 (s div 60 mod 60) @ '':'' @ pad 2 (s mod 60)"

definition rfc3339 :: "int \<Rightarrow> string" where
  "rfc3339 t = date_text (civil (nat t div 86400)) @ ''T'' @ time_text (nat t mod 86400) @ ''Z''"

definition sqlite_datetime :: "int \<Rightarrow> string" where
  "sqlite_datetime t = date_text (civil (nat t div 86400)) @ '' '' @ time_text (nat t mod 86400)"

text \<open>\<^verbatim>\<open>memcmp\<close> order, the collation of the TEXT columns.\<close>

fun text_less :: "string \<Rightarrow> string \<Rightarrow> bool" where
  "text_less (a # x) (b # y) \<longleftrightarrow> byte_val a < byte_val b \<or> (a = b \<and> text_less x y)"
| "text_less [] (b # y) \<longleftrightarrow> True"
| "text_less _ [] \<longleftrightarrow> False"

lemma text_less_asym: "text_less x y \<Longrightarrow> \<not> text_less y x"
  by (induction x y rule: text_less.induct) auto

lemma text_less_same [simp]: "text_less (u @ x) (u @ y) = text_less x y"
  by (induction u) auto

lemma text_less_pad: "n < m \<Longrightarrow> m < 10 ^ w \<Longrightarrow> text_less (pad w n @ u) (pad w m @ v)"
proof (induction w arbitrary: n m)
  case (Suc w)
  let ?p = "10 ^ w :: nat"
  have d: "n div ?p \<le> m div ?p" "m div ?p < 10" "n div ?p < 10"
    using Suc.prems by (auto intro: div_le_mono simp: less_mult_imp_div_less)
  show ?case
  proof (cases "n div ?p = m div ?p")
    case True
    then have "n mod ?p < m mod ?p" using Suc.prems(1) by (metis div_mult_mod_eq nat_add_left_cancel_less)
    then show ?thesis using Suc.IH [of "n mod ?p" "m mod ?p"] True by simp
  qed (use d in simp)
qed simp

lemma text_less_date:
  assumes "before a b" "proper a" "proper b" "fst b < 10000"
  shows "text_less (date_text a @ u) (date_text b @ v)"
proof -
  obtain y m d y' m' d' where ab: "a = (y, m, d)" "b = (y', m', d')" by (cases a; cases b) auto
  consider "y < y'" | "y = y'" "m < m'" | "y = y'" "m = m'" "d < d'" using assms(1) ab by auto
  then show ?thesis
  proof cases
    case 1
    then show ?thesis using text_less_pad [of y y' 4] assms(4) ab by simp
  next
    case 2
    then show ?thesis using text_less_pad [of m m' 2] assms(3) ab by simp
  next
    case 3
    then show ?thesis using text_less_pad [of d d' 2] assms(3) ab by simp
  qed
qed

text \<open>A row whose time has not passed is not before the clock, in the two spellings: on the same day the letter T is after the space.\<close>

lemma rfc3339_not_before:
  assumes "now < t" "fst (civil (nat t div 86400)) < 10000"
  shows "\<not> text_less (rfc3339 t) (sqlite_datetime now)"
proof (cases "nat now div 86400 = nat t div 86400")
  case True
  then show ?thesis by (simp add: rfc3339_def sqlite_datetime_def)
next
  case False
  moreover have "nat now div 86400 \<le> nat t div 86400" using assms(1) by (intro div_le_mono) simp
  ultimately have "before (civil (nat now div 86400)) (civil (nat t div 86400))" by (intro civil_before) simp
  from text_less_date [OF this civil_proper civil_proper assms(2)] show ?thesis
    unfolding rfc3339_def sqlite_datetime_def by (rule text_less_asym)
qed

end
