(* ===== verification/Capability_Bridge.thy ===== *)
theory Capability_Bridge
  imports Egress_Authority Audit_Names Clock_Text Private_Access
begin

text \<open>
  The capability bridge, \<^verbatim>\<open>handlers/capability.go\<close> with \<^verbatim>\<open>capability_providers.go\<close>: minting of a token
  for an entry (\<open>Issue\<close>), the signing proxy that spends it (\<open>Proxy\<close>), the table of spent nonces and the sweep of that table.

  The state \<open>bridge\<close> has the vault's tables, the three tables of the bridge, the audit key of the process and the list
  of the requests given to the HTTP client so far.  The record \<open>cap_env\<close> has what the handler was built with (keys,
  cipher) and the code that is not in the repository: the MAC, JSON, \<^verbatim>\<open>net/url\<close>, \<^verbatim>\<open>net/http\<close> and the
  wording of errors.
\<close>

section \<open>State and environment\<close>

record capability_log_row =
  cl_id :: string
  cl_agent_id :: string
  cl_secret_id :: "string option"
  cl_secret_name :: string
  cl_destination :: string
  cl_method :: string
  cl_event :: string
  cl_status_code :: "int option"
  cl_error :: string
  cl_nonce :: string

record InjectionSpec =
  is_Type :: string
  is_Name :: string
  is_Format :: string

record upstream_request =
  ur_method :: string
  ur_host :: string
  ur_hostname :: string
  ur_path :: string
  ur_query :: string
  ur_header :: headers
  ur_body :: string

datatype go_error =
  Canceled | DeadlineExceeded | HTTPStatus string | ExitRefusal string | DeliveryRefusal string | URLError string string string | Opaque

datatype answer = Failed "go_error list" | Responded int "(string \<times> string list) list" upstream_body

record issueRequest =
  iq_Secret :: string
  iq_AgentID :: string
  iq_Destination :: string
  iq_Dests :: "string list"
  iq_Method :: string
  iq_TTLSeconds :: int

record issueResponse =
  ir_Token :: string
  ir_ProxyURL :: string
  ir_Secret :: string
  ir_ExpiresAt :: string
  ir_NonceLength :: nat

record bridge =
  br_store :: store
  br_auditKey :: auditNameKey
  br_grants :: "((string \<times> string) \<times> string option) list"
  br_spent :: "(string \<times> string) list"
  br_log :: "capability_log_row list"
  br_sent :: "(token \<times> upstream_request) list"

record cap_env =
  ce_cipher :: block_cipher
  ce_derive :: "string \<Rightarrow> bytes"
  ce_keys :: vault_keys
  ce_entry :: entry_lib
  ce_mac :: "bytes \<Rightarrow> bytes \<Rightarrow> bytes"
  ce_signingKey :: bytes
  ce_marshal :: "token \<Rightarrow> bytes option"
  ce_unmarshal :: "bytes \<Rightarrow> token option"
  ce_decodeIssue :: "string \<Rightarrow> issueRequest option"
  ce_unmarshalSpec :: "string \<Rightarrow> InjectionSpec"
  ce_newRequest :: "string \<Rightarrow> string \<Rightarrow> string \<Rightarrow> string \<Rightarrow> url_parts option"
  ce_querySet :: "string \<Rightarrow> string \<Rightarrow> string \<Rightarrow> string"
  ce_canonical :: "string \<Rightarrow> string"
  ce_do :: "upstream_request \<Rightarrow> answer"
  ce_relayError :: "relay_error \<Rightarrow> go_error list"
  ce_schemeHost :: "string \<Rightarrow> string option"
  ce_quote :: "string \<Rightarrow> string"
  ce_openText :: "open_error \<Rightarrow> string"
  ce_exitText :: "exit_error \<Rightarrow> string"
  ce_hostText :: "host_error \<Rightarrow> string"

record cap_rnd =
  cr_audit :: audit_rnd
  cr_logID :: bytes
  cr_nonce :: bytes

definition maxBodySize :: nat where
  "maxBodySize = 16 * 1024 * 1024"

definition defaultTTL :: int where
  "defaultTTL = 5 * 60 * 10 ^ 9"

section \<open>Small helpers\<close>

definition extractCapabilityToken :: "string \<Rightarrow> string" where
  "extractCapabilityToken authHeader =
     (if has_prefix authHeader ''Capability '' then trim_space (drop (length ''Capability '') authHeader) else [])"

definition proxyBaseURL :: "proxy_config \<Rightarrow> request \<Rightarrow> string \<Rightarrow> string" where
  "proxyBaseURL cfg r r_host = (if ForwardedProtoHTTPS cfg r then ''https'' else ''http'') @ ''://'' @ r_host @ ''/proxy''"

definition forwardableHeaders :: "string list" where
  "forwardableHeaders =
     [''Content-Type'', ''Accept'', ''Accept-Language'', ''User-Agent'', ''Idempotency-Key'', ''Anthropic-Version'',
      ''Anthropic-Beta'', ''Openai-Beta'', ''Openai-Organization'', ''X-Github-Api-Version'']"

text \<open>The header maps of incoming requests and responses have canonical names.\<close>

definition copyForwardHeaders :: "headers \<Rightarrow> headers \<Rightarrow> headers" where
  "copyForwardHeaders src dst = (\<lambda>k. if k \<in> set forwardableHeaders \<and> src k \<noteq> [] then src k else dst k)"

definition copyResponseHeaders :: "(string \<times> string list) list \<Rightarrow> headers \<Rightarrow> headers" where
  "copyResponseHeaders src dst =
     (\<lambda>k. if k \<in> set [''Connection'', ''Keep-Alive'', ''Transfer-Encoding'', ''Upgrade'', ''Trailer''] then dst k
          else case map_of src k of None \<Rightarrow> dst k | Some v \<Rightarrow> v)"

definition DefaultInjection :: "InjectionSpec \<Rightarrow> InjectionSpec" where
  "DefaultInjection s =
     (let s1 = (if is_Format s = [] then
                  (if is_Type s = ''bearer'' then
                     s\<lparr>is_Format := ''Bearer {value}'', is_Name := (if is_Name s = [] then ''Authorization'' else is_Name s), is_Type := ''header''\<rparr>
                   else if is_Type s = ''basic'' then
                     s\<lparr>is_Format := ''Basic {value}'', is_Name := (if is_Name s = [] then ''Authorization'' else is_Name s), is_Type := ''header''\<rparr>
                   else s\<lparr>is_Format := ''{value}''\<rparr>)
                else s)
      in if is_Type s1 = ''header'' \<and> is_Name s1 = [] then s1\<lparr>is_Name := ''Authorization''\<rparr> else s1)"

text \<open>\<^verbatim>\<open>strings.ReplaceAll\<close> for a text that is not empty.\<close>

function replace_all :: "string \<Rightarrow> string \<Rightarrow> string \<Rightarrow> string" where
  "replace_all old new s =
     (case s of
        [] \<Rightarrow> []
      | c # r \<Rightarrow> if old \<noteq> [] \<and> has_prefix s old then new @ replace_all old new (drop (length old) s) else c # replace_all old new r)"
  by pat_completeness auto
termination
  by (relation "measure (\<lambda>(old, new, s). length s)") auto

declare replace_all.simps [simp del]

definition injectSecret :: "cap_env \<Rightarrow> upstream_request \<Rightarrow> InjectionSpec \<Rightarrow> bytes \<Rightarrow> string + upstream_request" where
  "injectSecret env q spec0 value =
     (let spec = DefaultInjection spec0;
          subbed = replace_all ''{value}'' value (is_Format spec)
      in if is_Type spec = ''header''
         then Inr (q\<lparr>ur_header := header_set (ce_canonical env (is_Name spec)) subbed (ur_header q)\<rparr>)
         else if is_Type spec = ''query''
         then Inr (q\<lparr>ur_query := ce_querySet env (ur_query q) (is_Name spec) subbed\<rparr>)
         else Inl (''unsupported injection type '' @ ce_quote env (is_Type spec)))"

text \<open>An error is the chain that \<^verbatim>\<open>errors.As\<close> walks, outermost first.\<close>

fun chain_find :: "(go_error \<Rightarrow> string option) \<Rightarrow> go_error list \<Rightarrow> string option" where
  "chain_find f [] = None"
| "chain_find f (e # es) = (case f e of Some t \<Rightarrow> Some t | None \<Rightarrow> chain_find f es)"

definition redactUpstreamError :: "cap_env \<Rightarrow> go_error list \<Rightarrow> string" where
  "redactUpstreamError env chain =
     (if chain = [] then []
      else if chain = [Canceled] then ''context canceled''
      else if chain = [DeadlineExceeded] then ''context deadline exceeded''
      else case chain_find (\<lambda>e. case e of HTTPStatus t \<Rightarrow> Some t | _ \<Rightarrow> None) chain of
             Some t \<Rightarrow> t
           | None \<Rightarrow>
         (case chain_find (\<lambda>e. case e of ExitRefusal t \<Rightarrow> Some t | _ \<Rightarrow> None) chain of
             Some t \<Rightarrow> t
           | None \<Rightarrow>
         (case chain_find (\<lambda>e. case e of DeliveryRefusal t \<Rightarrow> Some t | _ \<Rightarrow> None) chain of
             Some t \<Rightarrow> t
           | None \<Rightarrow>
         (case chain_find (\<lambda>e. case e of
                 URLError op u inner \<Rightarrow>
                   Some (op @ '' '' @ ce_quote env (case ce_schemeHost env u of Some t \<Rightarrow> t | None \<Rightarrow> ''[redacted]'') @ '': '' @ inner)
               | _ \<Rightarrow> None) chain of
             Some t \<Rightarrow> t
           | None \<Rightarrow> ''delivery target failed (details in server logs)''))))"

definition parseInjectionSpec :: "cap_env \<Rightarrow> string \<Rightarrow> InjectionSpec" where
  "parseInjectionSpec env txt =
     (if txt = [] \<or> txt = ''{}'' then \<lparr>is_Type = [], is_Name = [], is_Format = []\<rparr> else ce_unmarshalSpec env txt)"

definition joinDests :: "string list \<Rightarrow> string" where
  "joinDests d = join '','' d"

text \<open>The runes of a text, each in its UTF-8 form; a byte that starts none is the replacement character.\<close>

function runes :: "bytes \<Rightarrow> bytes list" where
  "runes s =
     (case s of
        [] \<Rightarrow> []
      | c # r \<Rightarrow> (case rune_size s of None \<Rightarrow> [CHR 0xEF, CHR 0xBF, CHR 0xBD] # runes r | Some n \<Rightarrow> take n s # runes (drop n s)))"
  by pat_completeness auto
termination
  by (relation "measure length") (auto dest: rune_size_pos)

declare runes.simps [simp del]

definition displayUpstreamPath :: "string \<Rightarrow> string" where
  "displayUpstreamPath p = (if length (runes p) \<le> 200 then p else concat (take 200 (runes p)) @ ''...'')"

definition pin_describe :: "egressPin \<Rightarrow> string" where
  "pin_describe p = join '', '' (pin_hosts p) @ '' (wired as '' @ join '', '' (pin_settings p) @ '')''"

fun verify_text :: "verify_error \<Rightarrow> string" where
  "verify_text ErrMalformed = ''capability: token malformed''"
| "verify_text ErrBadSignature = ''capability: signature does not verify''"
| "verify_text ErrExpired = ''capability: token expired''"
| "verify_text ErrNotYet = ''capability: token issued in the future''"
| "verify_text ErrWrongVersion = ''capability: unsupported token version''"
| "verify_text ErrEmpty = ''capability: empty token''"

section \<open>Queries\<close>

definition capabilityEntryPolicy :: "store \<Rightarrow> string \<Rightarrow> lookup_error + policy \<times> bool" where
  "capabilityEntryPolicy s eid =
     (case fetch s ''capabilityEntryPolicy''
        (map_option (\<lambda>e. case collection_id e of None \<Rightarrow> None | Some cid \<Rightarrow> map_of (collections s) cid) (map_of (entries s) eid)) of
        ErrNoRows \<Rightarrow> Inr (PolicyStandard, False)
      | DBError \<Rightarrow> Inl LookupFailed
      | Row None \<Rightarrow> Inr (PolicyStandard, True)
      | Row (Some txt) \<Rightarrow>
         if txt = [] then Inr (PolicyStandard, True)
         else case storedPrivateAccessPolicy txt of Inl e \<Rightarrow> Inl e | Inr p \<Rightarrow> Inr (p, True))"

definition capabilityIssuerCanStillUse :: "store \<Rightarrow> string \<Rightarrow> string \<Rightarrow> bool option" where
  "capabilityIssuerCanStillUse s issuer eid =
     (if issuer = [] \<or> eid = [] then Some False
      else if fails s ''capabilityIssuerCanStillUse'' then None
      else Some (case (map_of (entries s) eid, map_of (users s) issuer) of
                   (Some e, Some u) \<Rightarrow>
                     disabled u = 0 \<and> role u \<in> set [''admin'', ''user''] \<and>
                     (collection_id e = None \<and> user_id e = issuer \<or>
                      (case collection_id e of None \<Rightarrow> False | Some cid \<Rightarrow> accepted_role s cid issuer \<noteq> None))
                 | _ \<Rightarrow> False))"

definition accessibleEntriesPredicate :: "store \<Rightarrow> string \<Rightarrow> entry_row \<Rightarrow> bool" where
  "accessibleEntriesPredicate s uid e \<longleftrightarrow>
     (case map_of (users s) uid of Some u \<Rightarrow> disabled u = 0 | None \<Rightarrow> False) \<and>
     (collection_id e = None \<and> user_id e = uid \<or>
      (case collection_id e of None \<Rightarrow> False | Some cid \<Rightarrow> accepted_role s cid uid \<noteq> None))"

definition agentCanUse :: "bridge \<Rightarrow> string \<Rightarrow> string \<Rightarrow> string \<Rightarrow> bool option" where
  "agentCanUse b agent eid uid =
     (let s = br_store b
      in if fails s ''capability_grants'' then None
         else if map_of (br_grants b) (agent, eid) = Some None then Some True
         else if fails s ''capability_grants.count'' then None
         else if agent \<in> fst ` fst ` set (br_grants b) then Some False
         else Some (\<not> fails s ''agentCanUse'' \<and>
                    (case map_of (entries s) eid of Some e \<Rightarrow> accessibleEntriesPredicate s uid e | None \<Rightarrow> False)))"

record capabilityEntryRow =
  ce_ID :: string
  ce_Name :: string
  ce_DestinationPatterns :: string
  ce_PrivateAccessPolicy :: policy

datatype bridge_lookup_error = NoSuchSecret | AmbiguousDestination | AmbiguousSecretName | LookupError

text \<open>The loop over the rows; a NULL policy cannot be scanned.\<close>

fun scan_rows ::
  "store \<Rightarrow> bool \<Rightarrow> (string \<times> entry_row \<Rightarrow> string option) \<Rightarrow> (string \<times> entry_row) list \<Rightarrow> bridge_lookup_error + capabilityEntryRow list" where
  "scan_rows s privateIngress keep [] = Inr []"
| "scan_rows s privateIngress keep ((eid, e) # es) =
     (case (case collection_id e of None \<Rightarrow> Some ''standard'' | Some cid \<Rightarrow> map_of (collections s) cid) of
        None \<Rightarrow> Inl LookupError
      | Some txt \<Rightarrow>
         (case storedPrivateAccessPolicy txt of
            Inl _ \<Rightarrow> Inl LookupError
          | Inr p \<Rightarrow>
             (case scan_rows s privateIngress keep es of
                Inl err \<Rightarrow> Inl err
              | Inr rest \<Rightarrow>
                 if \<not> privateIngress \<and> p = PolicyFullyPrivate then Inr rest
                 else case keep (eid, e) of
                        None \<Rightarrow> Inr rest
                      | Some nm \<Rightarrow>
                         Inr (\<lparr>ce_ID = eid, ce_Name = nm, ce_DestinationPatterns = destination_patterns e, ce_PrivateAccessPolicy = p\<rparr> # rest))))"

definition lookupSecretByName :: "cap_env \<Rightarrow> request \<Rightarrow> store \<Rightarrow> string \<Rightarrow> string \<Rightarrow> bridge_lookup_error + capabilityEntryRow" where
  "lookupSecretByName env r s uid name =
     (if fails s ''lookupSecretByName'' then Inl LookupError
      else case scan_rows s (IsPrivateIngress r)
             (\<lambda>(_, e). let nm = EntryNamePlain (ce_cipher env) (ce_keys env) (entry_name e) in if nm = name then Some nm else None)
             (filter (\<lambda>(_, e). accessibleEntriesPredicate s uid e) (entries s)) of
             Inl e \<Rightarrow> Inl e
           | Inr [] \<Rightarrow> Inl NoSuchSecret
           | Inr [row] \<Rightarrow> Inr row
           | Inr _ \<Rightarrow> Inl AmbiguousSecretName)"

definition lookupSecretByDestination :: "cap_env \<Rightarrow> request \<Rightarrow> store \<Rightarrow> string \<Rightarrow> string \<Rightarrow> bridge_lookup_error + capabilityEntryRow" where
  "lookupSecretByDestination env r s uid dest =
     (if fails s ''lookupSecretByDestination'' then Inl LookupError
      else case scan_rows s (IsPrivateIngress r)
             (\<lambda>(_, e). if destMatches (parseDestinationPatterns (json (ce_entry env)) (destination_patterns e)) (fst (splitHostPath dest)) (snd (splitHostPath dest))
                       then Some (EntryNamePlain (ce_cipher env) (ce_keys env) (entry_name e)) else None)
             (filter (\<lambda>(_, e). accessibleEntriesPredicate s uid e \<and> destination_patterns e \<noteq> [] \<and> destination_patterns e \<noteq> ''[]'') (entries s)) of
             Inl e \<Rightarrow> Inl e
           | Inr [] \<Rightarrow> Inl NoSuchSecret
           | Inr [row] \<Rightarrow> Inr row
           | Inr _ \<Rightarrow> Inl AmbiguousDestination)"

definition currentDestinationPatterns :: "cap_env \<Rightarrow> store \<Rightarrow> string \<Rightarrow> string list option" where
  "currentDestinationPatterns env s eid =
     (case fetch s ''currentDestinationPatterns'' (map_of (entries s) eid) of
        Row e \<Rightarrow> Some (parseDestinationPatterns (json (ce_entry env)) (destination_patterns e))
      | _ \<Rightarrow> None)"

definition resolveSecret :: "cap_env \<Rightarrow> store \<Rightarrow> string \<Rightarrow> string \<Rightarrow> string + Plaintext \<times> InjectionSpec" where
  "resolveSecret env s eid nm =
     (case fetch s ''resolveSecret'' (map_of (entries s) eid) of
        Row e \<Rightarrow>
          (case OpenEntrySecret (ce_cipher env) (ce_keys env) (AuthorizeSecretExit (ce_entry env) s) (encrypted_value e) (entry_nonce e)
                  (case encryption_version e of Some v \<Rightarrow> v | None \<Rightarrow> 0) \<lparr>o_EntryID = eid, o_Name = nm, o_Instance = False\<rparr> of
             Inl err \<Rightarrow> Inl (ce_openText env err)
           | Inr pt \<Rightarrow> Inr (pt, parseInjectionSpec env (injection_spec e)))
      | ErrNoRows \<Rightarrow> Inl ''sql: no rows in result set''
      | DBError \<Rightarrow> Inl ''database error'')"

datatype nonce_error = NonceAlreadySpent | NonceStoreFailed

definition spendNonce :: "bridge \<Rightarrow> string \<Rightarrow> int \<Rightarrow> nonce_error + bridge" where
  "spendNonce b nonce expiresAt =
     (if fails (br_store b) ''spendNonce'' then Inl NonceStoreFailed
      else if nonce \<in> fst ` set (br_spent b) then Inl NonceAlreadySpent
      else Inr (b\<lparr>br_spent := br_spent b @ [(nonce, rfc3339 expiresAt)]\<rparr>))"

definition PruneSpentNonces :: "bridge \<Rightarrow> int \<Rightarrow> nat option \<times> bridge" where
  "PruneSpentNonces b now =
     (if fails (br_store b) ''PruneSpentNonces'' then (None, b)
      else let kept = filter (\<lambda>(_, e). \<not> text_less e (sqlite_datetime now)) (br_spent b)
           in (Some (length (br_spent b) - length kept), b\<lparr>br_spent := kept\<rparr>))"

text \<open>The name is sealed first, which may load or mint the audit key; a failed insert is only logged.\<close>

definition logCapabilityEvent ::
  "cap_env \<Rightarrow> cap_rnd \<Rightarrow> string \<Rightarrow> string option \<Rightarrow> string \<Rightarrow> string \<Rightarrow> string \<Rightarrow> string \<Rightarrow> int \<Rightarrow> string \<Rightarrow> string \<Rightarrow> bridge \<Rightarrow> bridge" where
  "logCapabilityEvent env rnd agent secretID secretName dest mth event statusCode errMsg nonce b =
     (let (sealed, kept, s) = SealAuditName (ce_cipher env) (ce_derive env) (ce_keys env) (br_auditKey b) (br_store b) (cr_audit rnd) secretName;
          b1 = b\<lparr>br_store := s, br_auditKey := kept\<rparr>;
          logID = hex_encode (take 16 (cr_logID rnd))
      in if fails s ''capability_log'' \<or> logID \<in> cl_id ` set (br_log b) then b1
         else b1\<lparr>br_log := br_log b @
                   [\<lparr>cl_id = logID, cl_agent_id = agent, cl_secret_id = secretID, cl_secret_name = sealed, cl_destination = dest,
                     cl_method = mth, cl_event = event, cl_status_code = (if statusCode > 0 then Some statusCode else None),
                     cl_error = errMsg, cl_nonce = nonce\<rparr>]\<rparr>)"

section \<open>Minting\<close>

record issueSecuritySnapshot =
  sn_entry :: capabilityEntryRow
  sn_lookupErr :: "bridge_lookup_error option"
  sn_privateBlocked :: bool
  sn_agentAllowed :: bool
  sn_aclErr :: bool
  sn_pin :: egressPin
  sn_pinErr :: bool
  sn_err :: bool

definition blank_snapshot :: issueSecuritySnapshot where
  "blank_snapshot =
     \<lparr>sn_entry = \<lparr>ce_ID = [], ce_Name = [], ce_DestinationPatterns = [], ce_PrivateAccessPolicy = PolicyStandard\<rparr>, sn_lookupErr = None,
      sn_privateBlocked = False, sn_agentAllowed = False, sn_aclErr = False, sn_pin = \<lparr>pin_hosts = [], pin_settings = []\<rparr>, sn_pinErr = False,
      sn_err = False\<rparr>"

definition captureIssueSecuritySnapshot :: "cap_env \<Rightarrow> request \<Rightarrow> bridge \<Rightarrow> string \<Rightarrow> issueRequest \<Rightarrow> issueSecuritySnapshot" where
  "captureIssueSecuritySnapshot env r b uid q =
     (let s = br_store b; out = blank_snapshot; commit = (\<lambda>x. if fails s ''Commit'' then x\<lparr>sn_err := True\<rparr> else x)
      in if fails s ''BeginTx'' then out\<lparr>sn_err := True\<rparr>
         else case (if iq_Secret q \<noteq> [] then lookupSecretByName env r s uid (iq_Secret q) else lookupSecretByDestination env r s uid (iq_Destination q)) of
                Inl e \<Rightarrow> out\<lparr>sn_lookupErr := Some e\<rparr>
              | Inr row \<Rightarrow>
                 (let o1 = out\<lparr>sn_entry := row, sn_privateBlocked := \<not> IsPrivateIngress r \<and> privateIngressRequired (ce_PrivateAccessPolicy row) privateAccessSensitive\<rparr>
                  in if sn_privateBlocked o1 then commit o1
                     else case agentCanUse b (iq_AgentID q) (ce_ID row) uid of
                            None \<Rightarrow> o1\<lparr>sn_aclErr := True\<rparr>
                          | Some False \<Rightarrow> commit o1
                          | Some True \<Rightarrow>
                             (case providerPinFor (Some (setting_reader s)) (ce_ID row) of
                                None \<Rightarrow> o1\<lparr>sn_agentAllowed := True, sn_pinErr := True\<rparr>
                              | Some pin \<Rightarrow> commit (o1\<lparr>sn_agentAllowed := True, sn_pin := pin\<rparr>))))"

text \<open>\<^verbatim>\<open>time.Duration\<close> is a signed 64-bit count of nanoseconds.\<close>

definition wrap64 :: "int \<Rightarrow> int" where
  "wrap64 x = (x + 2 ^ 63) mod 2 ^ 64 - 2 ^ 63"

definition token_ttl :: "int \<Rightarrow> int" where
  "token_ttl seconds =
     (let ttl = wrap64 (seconds * 10 ^ 9); ttl1 = (if ttl \<le> 0 then defaultTTL else ttl)
      in if ttl1 > 600 * 10 ^ 9 then 600 * 10 ^ 9 else ttl1)"

text \<open>The destinations of the token: the ceiling, or the requested ones that the ceiling covers.\<close>

definition issue_dests :: "string list \<Rightarrow> string list \<Rightarrow> string list" where
  "issue_dests ceiling wanted =
     (if wanted \<noteq> [] then filter (\<lambda>d. destMatches ceiling (fst (splitHostPath d)) (snd (splitHostPath d))) wanted else ceiling)"

definition first_refused_route :: "string \<Rightarrow> string list \<Rightarrow> string option" where
  "first_refused_route mth dests =
     find (\<lambda>d. CHR ''*'' \<notin> set d \<and> allowedProviderRoute (fst (splitHostPath d)) mth (snd (splitHostPath d)) = RouteDenied) dests"

definition issue_sign ::
  "cap_env \<Rightarrow> proxy_config \<Rightarrow> string \<Rightarrow> cap_rnd \<Rightarrow> int \<Rightarrow> request \<Rightarrow> headers \<Rightarrow> string \<Rightarrow> issueRequest \<Rightarrow> capabilityEntryRow \<Rightarrow> string list \<Rightarrow> string \<Rightarrow> bridge \<Rightarrow>
   (response + issueResponse) \<times> bridge" where
  "issue_sign env cfg r_host rnd now r w uid q row dests mth b =
     (let tok = \<lparr>tok_v = 0, tok_secret = ce_Name row, tok_secret_id = ce_ID row, tok_issuer = uid, tok_agent = iq_AgentID q, tok_dests = dests,
                 tok_method = to_upper mth, tok_iat = 0, tok_exp = 0, tok_nonce = []\<rparr>
      in case Sign (ce_mac env) (ce_marshal env) tok (ce_signingKey env) (token_ttl (iq_TTLSeconds q)) now (cr_nonce rnd) of
           Inl _ \<Rightarrow> (Inl (writeInternalError w r ''sign failed''), b)
         | Inr tokenStr \<Rightarrow>
            (let verified = (case Verify (ce_mac env) (ce_unmarshal env) tokenStr (ce_signingKey env) now of
                               Inr t \<Rightarrow> t
                             | Inl _ \<Rightarrow> tok\<lparr>tok_secret := [], tok_secret_id := [], tok_issuer := [], tok_agent := [], tok_dests := [], tok_method := []\<rparr>)
             in (Inr \<lparr>ir_Token = tokenStr, ir_ProxyURL = proxyBaseURL cfg r r_host, ir_Secret = ce_Name row,
                      ir_ExpiresAt = rfc3339 (tok_exp verified), ir_NonceLength = length (tok_nonce verified)\<rparr>,
                 logCapabilityEvent env rnd (iq_AgentID q) (Some (ce_ID row)) (ce_Name row) (joinDests dests) mth ''issued'' 0 [] (tok_nonce verified) b)))"

definition no_ceiling :: string where
  "no_ceiling =
     ''this secret has no agent destination allow-list, so no capability token can be minted for it. '' @
     ''Set one on the secret (Vault, edit the entry, Agent access) and try again''"

definition issue_ticket ::
  "cap_env \<Rightarrow> proxy_config \<Rightarrow> string \<Rightarrow> cap_rnd \<Rightarrow> int \<Rightarrow> request \<Rightarrow> headers \<Rightarrow> string \<Rightarrow> issueRequest \<Rightarrow> issueSecuritySnapshot \<Rightarrow> bridge \<Rightarrow>
   (response + issueResponse) \<times> bridge" where
  "issue_ticket env cfg r_host rnd now r w uid q sn b =
     (let row = sn_entry sn; ceiling = parseDestinationPatterns (json (ce_entry env)) (ce_DestinationPatterns row);
          dests = issue_dests ceiling (iq_Dests q); mth = (if iq_Method q = [] then ''*'' else iq_Method q);
          log = (\<lambda>d m e. logCapabilityEvent env rnd (iq_AgentID q) (Some (ce_ID row)) (ce_Name row) d m ''denied'' 0 e [] b)
      in if iq_Dests q \<noteq> [] \<and> ceiling = [] then (Inl (writeError w r 403 ''no_ceiling'' no_ceiling), b)
         else if iq_Dests q \<noteq> [] \<and> dests = []
         then (Inl (writeError w r 403 ''dests_exceed_ceiling'' ''requested destinations are not covered by the secret's allow-list''), b)
         else if dests = [] then (Inl (writeError w r 400 ''no_destinations'' no_ceiling), b)
         else if sn_pinErr sn then (Inl (writeError w r 403 ''destination_pinned'' ''the secret's provider binding could not be read''), b)
         else case firstDestinationOutsidePin (sn_pin sn) dests of
                Some bad \<Rightarrow>
                  (Inl (writeError w r 403 ''destination_pinned''
                     (ce_Name row @ '' is the instance's AI provider key; it is only ever delivered to '' @ pin_describe (sn_pin sn) @ '', and '' @ ce_quote env bad @
                      '' is not that. If this key is meant to be a general-purpose secret, unwire it in Settings > AI gateway first'')),
                   log bad (iq_Method q) ''destination_outside_provider_pin'')
              | None \<Rightarrow>
                 (case (if mth \<noteq> ''*'' then first_refused_route mth dests else None) of
                    Some d \<Rightarrow>
                      (Inl (writeError w r 403 ''route_not_allowed''
                         (fst (splitHostPath d) @ '' only proxies inference calls; '' @ to_upper mth @ '' '' @ snd (splitHostPath d) @ '' is not one of them'')),
                       log d mth ''not_an_inference_route'')
                  | None \<Rightarrow> issue_sign env cfg r_host rnd now r w uid q row dests mth b))"

definition Issue ::
  "cap_env \<Rightarrow> proxy_config \<Rightarrow> string \<Rightarrow> cap_rnd \<Rightarrow> int \<Rightarrow> request \<Rightarrow> string \<Rightarrow> headers \<Rightarrow> bridge \<Rightarrow> (response + issueResponse) \<times> bridge" where
  "Issue env cfg r_host rnd now r payload w b =
     (let uid = GetUserID r; bad_path = writeError w r 400 ''invalid_destination''
            ''destination path must be normalized (no '.' or '..' segments, no duplicate slashes)''
      in if uid = [] then (Inl (writeUnauthorized w r ''authentication required''), b)
         else if IsVaultOnly r
         then (Inl (writeForbidden w r (''vault-only accounts cannot mint capability tokens; '' @
                 ''minting spends a secret this account may use but may not redirect'')), b)
         else case ce_decodeIssue env payload of
                None \<Rightarrow> (Inl (writeBadRequest w r ''invalid JSON''), b)
              | Some q \<Rightarrow>
                 if iq_AgentID q = [] then (Inl (writeBadRequest w r ''agent_id required''), b)
                 else if iq_Destination q \<noteq> [] \<and> \<not> destPathNormalized (iq_Destination q) then (Inl bad_path, b)
                 else if \<not> list_all destPathNormalized (iq_Dests q) then (Inl bad_path, b)
                 else if iq_Secret q = [] \<and> iq_Destination q = [] then (Inl (writeBadRequest w r ''either secret or destination required''), b)
                 else
                   (let sn = captureIssueSecuritySnapshot env r b uid q; row = sn_entry sn;
                        log = (\<lambda>sid nm e. logCapabilityEvent env rnd (iq_AgentID q) sid nm (iq_Destination q) (iq_Method q) ''denied'' 0 e [] b)
                    in if sn_err sn then (Inl (writeInternalError w r ''security checks failed''), b)
                       else case sn_lookupErr sn of
                              Some NoSuchSecret \<Rightarrow>
                                (Inl (writeError w r 404 ''secret_not_found'' ''no secret matches the requested name or destination''), log None (iq_Secret q) ''secret_not_found'')
                            | Some AmbiguousDestination \<Rightarrow>
                                (Inl (writeError w r 409 ''ambiguous_destination'' ''multiple secrets match this destination; pass an explicit secret name''),
                                 log None [] ''ambiguous_destination'')
                            | Some AmbiguousSecretName \<Rightarrow>
                                (Inl (writeError w r 409 ''ambiguous_secret_name''
                                   ''more than one secret you can reach is called that (for example a personal one and a shared one); rename one of them or request it by destination''),
                                 log None (iq_Secret q) ''ambiguous_secret_name'')
                            | Some LookupError \<Rightarrow> (Inl (writeInternalError w r ''lookup failed''), b)
                            | None \<Rightarrow>
                               if sn_privateBlocked sn then (Inl (writePrivateIngressRequired w r), b)
                               else if sn_aclErr sn then (Inl (writeInternalError w r ''acl check failed''), b)
                               else if \<not> sn_agentAllowed sn
                               then (Inl (writeError w r 403 ''agent_not_granted'' ''agent has no grant for this secret''),
                                     log (Some (ce_ID row)) (ce_Name row) ''agent_not_granted'')
                               else issue_ticket env cfg r_host rnd now r w uid q sn b))"

section \<open>The signing proxy\<close>

datatype proxySecurityFailure =
  proxySecurityOK | proxySecuritySnapshotFailed | proxySecurityPolicyUnreadable | proxySecurityPrivateBlocked
  | proxySecurityIssuerUnreadable | proxySecurityIssuerRevoked | proxySecurityAgentRevoked | proxySecurityDestinationMismatch
  | proxySecurityAllowlistUnreadable | proxySecurityOutsideCurrentAllowlist | proxySecurityMethodMismatch | proxySecurityPinUnreadable
  | proxySecurityOutsidePin | proxySecurityReplay | proxySecurityNonceStoreFailed | proxySecurityResolveFailed

record proxySecuritySnapshot =
  ps_failure :: proxySecurityFailure
  ps_cause :: string
  ps_policy :: policy
  ps_pin :: egressPin
  ps_plaintext :: Plaintext
  ps_spec :: InjectionSpec

definition blank_proxy_snapshot :: proxySecuritySnapshot where
  "blank_proxy_snapshot =
     \<lparr>ps_failure = proxySecurityOK, ps_cause = [], ps_policy = PolicyStandard, ps_pin = \<lparr>pin_hosts = [], pin_settings = []\<rparr>,
      ps_plaintext = \<lparr>pt_bytes = [], pt_origin = \<lparr>o_EntryID = [], o_Name = [], o_Instance = False\<rparr>, pt_authority = None\<rparr>,
      ps_spec = \<lparr>is_Type = [], is_Name = [], is_Format = []\<rparr>\<rparr>"

text \<open>The last steps of the transaction: the nonce is spent, the secret is opened, and a failure to open it still spends the nonce.\<close>

definition snapshot_spend :: "cap_env \<Rightarrow> token \<Rightarrow> proxySecuritySnapshot \<Rightarrow> bridge \<Rightarrow> proxySecuritySnapshot \<times> bridge" where
  "snapshot_spend env tok out b =
     (case spendNonce b (tok_nonce tok) (tok_exp tok) of
        Inl NonceAlreadySpent \<Rightarrow> (out\<lparr>ps_failure := proxySecurityReplay\<rparr>, b)
      | Inl NonceStoreFailed \<Rightarrow> (out\<lparr>ps_failure := proxySecurityNonceStoreFailed\<rparr>, b)
      | Inr b1 \<Rightarrow>
         (case resolveSecret env (br_store b) (tok_secret_id tok) (tok_secret tok) of
            Inl cause \<Rightarrow>
              if fails (br_store b) ''Commit'' then (out\<lparr>ps_failure := proxySecuritySnapshotFailed\<rparr>, b)
              else (out\<lparr>ps_failure := proxySecurityResolveFailed, ps_cause := cause\<rparr>, b1)
          | Inr (pt, spec) \<Rightarrow>
              if fails (br_store b) ''Commit''
              then (out\<lparr>ps_failure := proxySecuritySnapshotFailed, ps_plaintext := pt_Wipe pt, ps_spec := spec\<rparr>, b)
              else (out\<lparr>ps_failure := proxySecurityOK, ps_plaintext := pt, ps_spec := spec\<rparr>, b1)))"

definition captureProxySecuritySnapshot ::
  "cap_env \<Rightarrow> request \<Rightarrow> token \<Rightarrow> string \<Rightarrow> string \<Rightarrow> bridge \<Rightarrow> proxySecuritySnapshot \<times> bridge" where
  "captureProxySecuritySnapshot env r tok host path b =
     (let s = br_store b; out = blank_proxy_snapshot; stop = (\<lambda>x f. (x\<lparr>ps_failure := f\<rparr>, b))
      in if fails s ''BeginTx'' then stop out proxySecuritySnapshotFailed
         else case capabilityEntryPolicy s (tok_secret_id tok) of
                Inl _ \<Rightarrow> stop out proxySecurityPolicyUnreadable
              | Inr (p, found) \<Rightarrow>
                 (let o1 = out\<lparr>ps_policy := p\<rparr>
                  in if found \<and> \<not> IsPrivateIngress r \<and> privateIngressRequired p privateAccessSensitive then stop o1 proxySecurityPrivateBlocked
                     else case capabilityIssuerCanStillUse s (tok_issuer tok) (tok_secret_id tok) of
                            None \<Rightarrow> stop o1 proxySecurityIssuerUnreadable
                          | Some False \<Rightarrow> stop o1 proxySecurityIssuerRevoked
                          | Some True \<Rightarrow>
                     (case agentCanUse b (tok_agent tok) (tok_secret_id tok) (tok_issuer tok) of
                            None \<Rightarrow> stop o1 proxySecurityIssuerUnreadable
                          | Some False \<Rightarrow> stop o1 proxySecurityAgentRevoked
                          | Some True \<Rightarrow>
                     if \<not> destMatches (tok_dests tok) host path then stop o1 proxySecurityDestinationMismatch
                     else (case currentDestinationPatterns env s (tok_secret_id tok) of
                            None \<Rightarrow> stop o1 proxySecurityAllowlistUnreadable
                          | Some patterns \<Rightarrow>
                     if patterns = [] \<or> \<not> destMatches patterns host path then stop o1 proxySecurityOutsideCurrentAllowlist
                     else if \<not> MethodMatches tok (req_method r) then stop o1 proxySecurityMethodMismatch
                     else (case providerPinFor (Some (setting_reader s)) (tok_secret_id tok) of
                            None \<Rightarrow> stop o1 proxySecurityPinUnreadable
                          | Some pin \<Rightarrow>
                     if pinned pin \<and> \<not> allowsHost pin host then stop (o1\<lparr>ps_pin := pin\<rparr>) proxySecurityOutsidePin
                     else snapshot_spend env tok (o1\<lparr>ps_pin := pin\<rparr>) b)))))"

text \<open>What the caller gets: a response, a streamed one, or a connection that is cut after some bytes.\<close>

datatype delivered = Reply response | Streamed int headers bytes | Aborted int headers bytes

text \<open>The answer of the upstream is checked for the secret before and while it is passed on; \<open>cap\<close> is how much of it the caller's connection takes.\<close>

definition relay_answer ::
  "cap_env \<Rightarrow> request \<Rightarrow> headers \<Rightarrow> nat \<Rightarrow> bytes \<Rightarrow> answer \<Rightarrow> delivered \<times> int \<times> string" where
  "relay_answer env r w cap value ans =
     (case ans of
        Failed err \<Rightarrow> (Reply (writeError w r 502 ''upstream_error'' ''upstream request failed''), 0, ''upstream_error: '' @ redactUpstreamError env err)
      | Responded code hdrs src \<Rightarrow>
         (let guard = New value
          in case UnscannableEncoding hdrs of
               Some enc \<Rightarrow>
                 (Reply (writeError w r 502 ''upstream_unscannable''
                    ''the upstream response is content-encoded and could not be checked for the injected credential, so it was not delivered''),
                  code, ''reflection_unscannable: content-encoding '' @ enc)
             | None \<Rightarrow>
            (case ScanHeader guard hdrs of
               Some (name, enc) \<Rightarrow>
                 (Reply (writeError w r 502 ''upstream_reflected_secret''
                    ''the upstream returned the injected credential in a response header; the response was not delivered''),
                  code, ''reflected_secret_blocked: header '' @ name @ '' ('' @ enc @ '')'')
             | None \<Rightarrow>
            (case Relay guard src DefaultHoldBack cap of
               (Some (ReflectedError enc), st) \<Rightarrow>
                 (if committed st then Aborted code (copyResponseHeaders hdrs w) (written st)
                  else Reply (writeError w r 502 ''upstream_reflected_secret''
                         ''the upstream returned the injected credential in the response body; the response was not delivered''),
                  code, ''reflected_secret_blocked: body ('' @ enc @ '')'')
             | (Some e, st) \<Rightarrow>
                 (if committed st then Streamed code (copyResponseHeaders hdrs w) (written st)
                  else Reply (writeError w r 502 ''upstream_error'' ''upstream response could not be read''),
                  code, ''upstream_error: '' @ redactUpstreamError env (ce_relayError env e))
             | (None, st) \<Rightarrow> (Streamed code (copyResponseHeaders hdrs w) (written st), code, [])))))"

text \<open>A logged refusal or use of a verified token.\<close>

definition log_token :: "cap_env \<Rightarrow> cap_rnd \<Rightarrow> token \<Rightarrow> request \<Rightarrow> string \<Rightarrow> string \<Rightarrow> int \<Rightarrow> string \<Rightarrow> bridge \<Rightarrow> bridge" where
  "log_token env rnd tok r dest event code err b =
     logCapabilityEvent env rnd (tok_agent tok) (Some (tok_secret_id tok)) (tok_secret tok) dest (req_method r) event code err (tok_nonce tok) b"

text \<open>The answer to a failed snapshot; the cases that are logged say so.\<close>

fun snapshot_refusal ::
  "proxySecurityFailure \<Rightarrow> proxySecuritySnapshot \<Rightarrow> request \<Rightarrow> headers \<Rightarrow> string \<Rightarrow> string \<Rightarrow> response \<times> (string \<times> string \<times> string) option" where
  "snapshot_refusal proxySecurityPolicyUnreadable ps r w host path = (writeInternalError w r ''private access policy could not be verified'', None)"
| "snapshot_refusal proxySecurityPrivateBlocked ps r w host path =
     (case enforcePrivateAccessPolicy w r (ps_policy ps) privateAccessSensitive True ''secret not found'' of
        Some resp \<Rightarrow> resp | None \<Rightarrow> \<lparr>status = 200, rheaders = w, rbody = TextBody []\<rparr>, None)"
| "snapshot_refusal proxySecurityIssuerUnreadable ps r w host path = (writeInternalError w r ''capability issuer authority could not be verified'', None)"
| "snapshot_refusal proxySecurityIssuerRevoked ps r w host path =
     (writeError w r 403 ''capability_issuer_revoked'' ''the account that issued this capability no longer has permission to use this secret'',
      Some (host @ path, ''denied'', ''issuer_access_revoked''))"
| "snapshot_refusal proxySecurityAgentRevoked ps r w host path =
     (writeError w r 403 ''capability_agent_revoked'' ''this agent no longer has permission to use this secret'',
      Some (host @ path, ''denied'', ''agent_grant_revoked''))"
| "snapshot_refusal proxySecurityDestinationMismatch ps r w host path =
     (writeError w r 403 ''destination_mismatch'' ''token does not authorise this destination'', Some (host @ path, ''denied'', ''destination_mismatch''))"
| "snapshot_refusal proxySecurityAllowlistUnreadable ps r w host path =
     (writeError w r 403 ''destination_mismatch'' ''the secret's current allow-list could not be read'', Some (host @ path, ''denied'', ''allowlist_unreadable''))"
| "snapshot_refusal proxySecurityOutsideCurrentAllowlist ps r w host path =
     (writeError w r 403 ''destination_mismatch'' ''destination is not in the secret's current allow-list'',
      Some (host @ path, ''denied'', ''destination_not_in_current_allowlist''))"
| "snapshot_refusal proxySecurityMethodMismatch ps r w host path =
     (writeError w r 403 ''method_mismatch'' ''token does not authorise this method'', Some (host @ path, ''denied'', ''method_mismatch''))"
| "snapshot_refusal proxySecurityPinUnreadable ps r w host path =
     (writeError w r 403 ''destination_pinned'' ''the secret's provider binding could not be read'', Some (host @ path, ''denied'', ''egress_pin_unreadable''))"
| "snapshot_refusal proxySecurityOutsidePin ps r w host path =
     (writeError w r 403 ''destination_pinned''
        (''this secret is the instance's AI provider key; it is only ever delivered to '' @ pin_describe (ps_pin ps) @ '', never to '' @ providerAPIHost host),
      Some (host @ displayUpstreamPath path, ''denied'', ''destination_outside_provider_pin''))"
| "snapshot_refusal proxySecurityReplay ps r w host path =
     (writeError w r 403 ''replay'' ''capability token already used'', Some (host @ path, ''replay'', ''nonce_already_spent''))"
| "snapshot_refusal proxySecurityNonceStoreFailed ps r w host path = (writeInternalError w r ''nonce store failed'', None)"
| "snapshot_refusal proxySecurityResolveFailed ps r w host path =
     (writeInternalError w r ''secret resolve failed'', Some (host @ path, ''denied'', ''resolve_failed: '' @ ps_cause ps))"
| "snapshot_refusal proxySecuritySnapshotFailed ps r w host path = (writeInternalError w r ''security checks failed'', None)"
| "snapshot_refusal proxySecurityOK ps r w host path = (writeInternalError w r ''security checks failed'', None)"

record proxy_call =
  pc_host :: string
  pc_rest :: string
  pc_query :: string
  pc_body :: "string + string"
  pc_accepts :: nat

text \<open>From the release of the secret to the end of the response; a body that cannot be read is the text of the error.\<close>

definition proxy_forward ::
  "cap_env \<Rightarrow> cap_rnd \<Rightarrow> request \<Rightarrow> headers \<Rightarrow> proxy_call \<Rightarrow> token \<Rightarrow> string \<Rightarrow> proxySecuritySnapshot \<Rightarrow> bridge \<Rightarrow> delivered \<times> bridge" where
  "proxy_forward env rnd r w c tok path ps b =
     (let host = pc_host c; dest = host @ path
      in case Exit [] (ps_plaintext ps) (ToHost ''this capability token'' ChosenByTheEntrysOwnRecord host) of
           Inl e \<Rightarrow>
             (Reply (writeError w r 403 ''destination_not_authorized'' (ce_exitText env e)),
              log_token env rnd tok r (host @ displayUpstreamPath path) ''denied'' 0 ''egress_refused'' b)
         | Inr (ctx, value) \<Rightarrow>
            (case pc_body c of
               Inl err \<Rightarrow> (Reply (writeBadRequest w r (''read body: '' @ err)), b)
             | Inr content \<Rightarrow>
                if length content > maxBodySize then (Reply (writeError w r 413 ''body_too_large'' ''request body exceeds 16 MiB''), b)
                else (case ce_newRequest env (req_method r) host path (pc_query c) of
                        None \<Rightarrow> (Reply (writeInternalError w r ''build upstream request''), b)
                      | Some u \<Rightarrow>
                         (let q = \<lparr>ur_method = req_method r, ur_host = u_host u, ur_hostname = u_hostname u, ur_path = u_path u, ur_query = pc_query c,
                                   ur_header = copyForwardHeaders (header r) (\<lambda>_. []), ur_body = content\<rparr>
                          in case injectSecret env q (ps_spec ps) value of
                               Inl err \<Rightarrow> (Reply (writeInternalError w r ''inject secret failed''), log_token env rnd tok r dest ''denied'' 0 (''inject_failed: '' @ err) b)
                             | Inr q1 \<Rightarrow>
                                (case CheckHost ctx (ur_hostname q1) of
                                   Some e \<Rightarrow>
                                     (Reply (writeError w r 403 ''destination_not_authorized'' (ce_hostText env e)),
                                      log_token env rnd tok r dest ''denied'' 0 ''egress_refused_at_send'' b)
                                 | None \<Rightarrow>
                                    (case relay_answer env r w (pc_accepts c) value (ce_do env q1) of
                                       (out, code, err) \<Rightarrow>
                                         (out, log_token env rnd tok r dest ''used'' code err (b\<lparr>br_sent := br_sent b @ [(tok, q1)]\<rparr>))))))))"

definition Proxy ::
  "cap_env \<Rightarrow> cap_rnd \<Rightarrow> int \<Rightarrow> request \<Rightarrow> headers \<Rightarrow> proxy_call \<Rightarrow> bridge \<Rightarrow> delivered \<times> bridge" where
  "Proxy env rnd now r w c b =
     (let host = pc_host c; (path0, normalized) = normalizePath (''/'' @ pc_rest c)
      in if \<not> normalized
         then (Reply (writeError w r 400 ''invalid_path'' ''request path must be normalized (no '.' or '..' segments, no duplicate slashes)''), b)
         else let tokenStr = extractCapabilityToken (header_get (header r) ''Authorization'')
         in if tokenStr = [] then (Reply (writeError w r 401 ''missing_capability'' ''Authorization: Capability <token> required''), b)
         else case Verify (ce_mac env) (ce_unmarshal env) tokenStr (ce_signingKey env) now of
                Inl e \<Rightarrow>
                  (Reply (writeError w r 401 ''invalid_capability'' (verify_text e)),
                   if e = ErrExpired then logCapabilityEvent env rnd [] None [] (host @ path0) (req_method r) ''expired'' 0 (verify_text e) [] b else b)
              | Inr tok \<Rightarrow>
                 (case allowedProviderRoute host (req_method r) path0 of
                    RouteDenied \<Rightarrow>
                      (Reply (writeError w r 403 ''route_not_allowed''
                         (host @ '' only proxies inference calls; '' @ req_method r @ '' '' @ displayUpstreamPath path0 @ '' is not one of them'')),
                       log_token env rnd tok r (host @ displayUpstreamPath path0) ''denied'' 0 ''not_an_inference_route'' b)
                  | decision \<Rightarrow>
                     (let path = (case decision of RouteAllowed clean \<Rightarrow> clean | _ \<Rightarrow> path0);
                          (ps, b1) = captureProxySecuritySnapshot env r tok host path b
                      in if ps_failure ps = proxySecurityOK then proxy_forward env rnd r w c tok path ps b1
                         else case snapshot_refusal (ps_failure ps) ps r w host path of
                                (resp, None) \<Rightarrow> (Reply resp, b1)
                              | (resp, Some (dest, event, err)) \<Rightarrow> (Reply resp, log_token env rnd tok r dest event 0 err b1))))"

end
