(* ===== verification/Bridge_Safety.thy ===== *)
theory Bridge_Safety
  imports Capability_Bridge
begin

text \<open>
  What the capability bridge guarantees: a token is spent at most once over any sequence of requests and sweeps,
  a request leaves for an upstream only under the guards of the code, and a minted token stays inside what its entry allows.
\<close>

section \<open>What a call leaves alone\<close>

lemma log_frame [simp]:
  "br_spent (logCapabilityEvent env rnd ag sid nm d m ev st er nc b) = br_spent b"
  "br_sent (logCapabilityEvent env rnd ag sid nm d m ev st er nc b) = br_sent b"
  "br_grants (logCapabilityEvent env rnd ag sid nm d m ev st er nc b) = br_grants b"
  by (simp_all add: logCapabilityEvent_def Let_def split: prod.splits)

lemma log_token_frame [simp]:
  "br_spent (log_token env rnd tok r d ev st er b) = br_spent b"
  "br_sent (log_token env rnd tok r d ev st er b) = br_sent b"
  "br_grants (log_token env rnd tok r d ev st er b) = br_grants b"
  by (simp_all add: log_token_def)

lemma issue_sign_frame [simp]:
  "br_spent (snd (issue_sign env cfg h rnd now r w uid q row ds m b)) = br_spent b"
  "br_sent (snd (issue_sign env cfg h rnd now r w uid q row ds m b)) = br_sent b"
  by (simp_all add: issue_sign_def Let_def split: sum.split)

lemma issue_ticket_frame [simp]:
  "br_spent (snd (issue_ticket env cfg h rnd now r w uid q sn b)) = br_spent b"
  "br_sent (snd (issue_ticket env cfg h rnd now r w uid q sn b)) = br_sent b"
  unfolding issue_ticket_def Let_def by (simp_all split: option.split)

lemma issue_frame [simp]:
  "br_spent (snd (Issue env cfg h rnd now r p w b)) = br_spent b" "br_sent (snd (Issue env cfg h rnd now r p w b)) = br_sent b"
  unfolding Issue_def Let_def by (simp_all split: option.split bridge_lookup_error.split)

lemma snapshot_spend_cases:
  assumes "snapshot_spend env tok out b = (ps, b1)" "ps_failure out = proxySecurityOK"
  shows "br_sent b1 = br_sent b \<and> br_store b1 = br_store b \<and> (b1 = b \<or> br_spent b1 = br_spent b @ [(tok_nonce tok, rfc3339 (tok_exp tok))])"
    "ps_failure ps = proxySecurityOK \<Longrightarrow>
       tok_nonce tok \<notin> fst ` set (br_spent b) \<and> br_spent b1 = br_spent b @ [(tok_nonce tok, rfc3339 (tok_exp tok))] \<and>
       resolveSecret env (br_store b) (tok_secret_id tok) (tok_secret tok) = Inr (ps_plaintext ps, ps_spec ps)"
  using assms by (auto simp: snapshot_spend_def spendNonce_def split: if_splits sum.splits prod.splits nonce_error.splits)

text \<open>The guards of the proxy's transaction.\<close>

definition release_guards :: "cap_env \<Rightarrow> request \<Rightarrow> token \<Rightarrow> string \<Rightarrow> string \<Rightarrow> bridge \<Rightarrow> bool" where
  "release_guards env r tok host path b \<longleftrightarrow>
     (let s = br_store b; eid = tok_secret_id tok
      in (\<exists>p found. capabilityEntryPolicy s eid = Inr (p, found) \<and>
            (found \<and> \<not> IsPrivateIngress r \<longrightarrow> \<not> privateIngressRequired p privateAccessSensitive)) \<and>
         capabilityIssuerCanStillUse s (tok_issuer tok) eid = Some True \<and>
         agentCanUse b (tok_agent tok) eid (tok_issuer tok) = Some True \<and>
         destMatches (tok_dests tok) host path \<and>
         (\<exists>patterns. currentDestinationPatterns env s eid = Some patterns \<and> destMatches patterns host path) \<and>
         MethodMatches tok (req_method r) \<and>
         (\<exists>pin. providerPinFor (Some (setting_reader s)) eid = Some pin \<and> (pinned pin \<longrightarrow> allowsHost pin host)))"

lemma capture_cases:
  assumes "captureProxySecuritySnapshot env r tok host path b = (ps, b1)"
  shows "br_sent b1 = br_sent b \<and> br_store b1 = br_store b \<and> (b1 = b \<or> br_spent b1 = br_spent b @ [(tok_nonce tok, rfc3339 (tok_exp tok))])"
    "ps_failure ps = proxySecurityOK \<Longrightarrow>
       tok_nonce tok \<notin> fst ` set (br_spent b) \<and> br_spent b1 = br_spent b @ [(tok_nonce tok, rfc3339 (tok_exp tok))] \<and>
       resolveSecret env (br_store b) (tok_secret_id tok) (tok_secret tok) = Inr (ps_plaintext ps, ps_spec ps)"
    "ps_failure ps = proxySecurityOK \<Longrightarrow> release_guards env r tok host path b"
proof -
  let ?guards = "release_guards env r tok host path b"
  have "ps_failure ps \<noteq> proxySecurityOK \<and> b1 = b \<or>
        (\<exists>out. ps_failure out = proxySecurityOK \<and> snapshot_spend env tok out b = (ps, b1) \<and> ?guards)"
    using assms unfolding captureProxySecuritySnapshot_def release_guards_def Let_def
    by (auto simp: blank_proxy_snapshot_def split: if_splits sum.splits prod.splits option.splits bool.splits)
  then show "br_sent b1 = br_sent b \<and> br_store b1 = br_store b \<and> (b1 = b \<or> br_spent b1 = br_spent b @ [(tok_nonce tok, rfc3339 (tok_exp tok))])"
    "ps_failure ps = proxySecurityOK \<Longrightarrow>
       tok_nonce tok \<notin> fst ` set (br_spent b) \<and> br_spent b1 = br_spent b @ [(tok_nonce tok, rfc3339 (tok_exp tok))] \<and>
       resolveSecret env (br_store b) (tok_secret_id tok) (tok_secret tok) = Inr (ps_plaintext ps, ps_spec ps)"
    "ps_failure ps = proxySecurityOK \<Longrightarrow> ?guards"
    using snapshot_spend_cases [of env tok _ b ps b1] by blast+
qed

text \<open>The request that was sent, and what it was built from.\<close>

definition released ::
  "cap_env \<Rightarrow> request \<Rightarrow> proxy_call \<Rightarrow> token \<Rightarrow> string \<Rightarrow> Plaintext \<Rightarrow> InjectionSpec \<Rightarrow> upstream_request \<Rightarrow> bool" where
  "released env r c tok path pt spec q \<longleftrightarrow>
     (\<exists>ctx value content u.
        Exit [] pt (ToHost ''this capability token'' ChosenByTheEntrysOwnRecord (pc_host c)) = Inr (ctx, value) \<and>
        pc_body c = Inr content \<and> length content \<le> maxBodySize \<and>
        ce_newRequest env (req_method r) (pc_host c) path (pc_query c) = Some u \<and>
        injectSecret env \<lparr>ur_method = req_method r, ur_host = u_host u, ur_hostname = u_hostname u, ur_path = u_path u, ur_query = pc_query c,
                          ur_header = copyForwardHeaders (header r) (\<lambda>_. []), ur_body = content\<rparr> spec value = Inr q \<and>
        CheckHost ctx (ur_hostname q) = None)"

lemma forward_cases:
  assumes "proxy_forward env rnd r w c tok path ps b = (out, b')"
  shows "br_spent b' = br_spent b \<and>
    (br_sent b' = br_sent b \<or> (\<exists>q. br_sent b' = br_sent b @ [(tok, q)] \<and> released env r c tok path (ps_plaintext ps) (ps_spec ps) q))"
  using assms unfolding proxy_forward_def Let_def released_def
  by (auto split: sum.splits prod.splits if_splits option.splits)

definition proxied_path :: "string \<Rightarrow> request \<Rightarrow> proxy_call \<Rightarrow> string" where
  "proxied_path path0 r c = (case allowedProviderRoute (pc_host c) (req_method r) path0 of RouteAllowed clean \<Rightarrow> clean | _ \<Rightarrow> path0)"

lemma proxy_cases:
  assumes "Proxy env rnd now r w c b = (out, b')"
  obtains (quiet) "br_sent b' = br_sent b" "br_spent b' = br_spent b"
  | (spent) tok :: token where "br_sent b' = br_sent b" "br_spent b' = br_spent b @ [(tok_nonce tok, rfc3339 (tok_exp tok))]"
  | (sent) tok ps b1 path0 q where "br_sent b' = br_sent b @ [(tok, q)]" "br_spent b' = br_spent b @ [(tok_nonce tok, rfc3339 (tok_exp tok))]"
      "normalizePath (''/'' @ pc_rest c) = (path0, True)"
      "Verify (ce_mac env) (ce_unmarshal env) (extractCapabilityToken (header_get (header r) ''Authorization'')) (ce_signingKey env) now = Inr tok"
      "allowedProviderRoute (pc_host c) (req_method r) path0 \<noteq> RouteDenied"
      "captureProxySecuritySnapshot env r tok (pc_host c) (proxied_path path0 r c) b = (ps, b1)" "ps_failure ps = proxySecurityOK"
      "released env r c tok (proxied_path path0 r c) (ps_plaintext ps) (ps_spec ps) q"
proof -
  obtain path0 n where np: "normalizePath (''/'' @ pc_rest c) = (path0, n)" by fastforce
  let ?v = "Verify (ce_mac env) (ce_unmarshal env) (extractCapabilityToken (header_get (header r) ''Authorization'')) (ce_signingKey env) now"
  let ?cap = "\<lambda>tok. captureProxySecuritySnapshot env r tok (pc_host c) (proxied_path path0 r c) b"
  have "br_sent b' = br_sent b \<and> br_spent b' = br_spent b \<or>
    (\<exists>tok ps b1. ?cap tok = (ps, b1) \<and> br_sent b' = br_sent b1 \<and> br_spent b' = br_spent b1) \<or>
    (\<exists>tok ps b1. n \<and> ?v = Inr tok \<and> allowedProviderRoute (pc_host c) (req_method r) path0 \<noteq> RouteDenied \<and> ?cap tok = (ps, b1) \<and>
       ps_failure ps = proxySecurityOK \<and> proxy_forward env rnd r w c tok (proxied_path path0 r c) ps b1 = (out, b'))"
    using assms np unfolding Proxy_def Let_def
    by (fastforce simp: proxied_path_def split: if_splits sum.splits routeDecision.splits prod.splits option.splits)
  then consider (none) "br_sent b' = br_sent b" "br_spent b' = br_spent b"
    | (refused) tok ps b1 where "?cap tok = (ps, b1)" "br_sent b' = br_sent b1" "br_spent b' = br_spent b1"
    | (forwarded) tok ps b1 where "n" "?v = Inr tok" "allowedProviderRoute (pc_host c) (req_method r) path0 \<noteq> RouteDenied"
        "?cap tok = (ps, b1)" "ps_failure ps = proxySecurityOK" "proxy_forward env rnd r w c tok (proxied_path path0 r c) ps b1 = (out, b')"
    by blast
  then show thesis
  proof cases
    case none
    then show thesis by (rule quiet)
  next
    case (refused tok ps b1)
    then show thesis using capture_cases(1) [OF refused(1)] quiet spent [of tok] by auto
  next
    case (forwarded tok ps b1)
    note cs = capture_cases(1,2) [OF forwarded(4)] and f = forward_cases [OF forwarded(6)]
    show thesis
    proof (cases "br_sent b' = br_sent b1")
      case True
      then show thesis using cs forwarded(5) f spent [of tok] by auto
    next
      case False
      then obtain q where q: "br_sent b' = br_sent b1 @ [(tok, q)]" "released env r c tok (proxied_path path0 r c) (ps_plaintext ps) (ps_spec ps) q"
        using f by blast
      show thesis
        by (rule sent [OF _ _ _ forwarded(2,3,4,5) q(2)]) (use q(1) cs f forwarded(1,5) np in auto)
    qed
  qed
qed

section \<open>Single use\<close>

text \<open>
  What happens to the bridge, each at a moment of the one system clock: a call of the proxy, a minting, a sweep, and
  whatever the rest of the program does to the vault's tables and to the grants.
\<close>

datatype bridge_event =
    ProxyCall cap_rnd request headers proxy_call
  | IssueCall proxy_config string cap_rnd request string headers
  | Sweep
  | Elsewhere store "((string \<times> string) \<times> string option) list"

fun bridge_step :: "cap_env \<Rightarrow> int \<times> bridge_event \<Rightarrow> bridge \<Rightarrow> bridge" where
  "bridge_step env (now, ProxyCall rnd r w c) b = snd (Proxy env rnd now r w c b)"
| "bridge_step env (now, IssueCall cfg h rnd r p w) b = snd (Issue env cfg h rnd now r p w b)"
| "bridge_step env (now, Sweep) b = snd (PruneSpentNonces b now)"
| "bridge_step env (now, Elsewhere s g) b = b\<lparr>br_store := s, br_grants := g\<rparr>"

definition in_calendar :: "token \<Rightarrow> bool" where
  "in_calendar t \<longleftrightarrow> fst (civil (nat (tok_exp t) div 86400)) < 10000"

text \<open>Every token that was sent is blocked: its nonce is in the table, or its time has passed.\<close>

definition spent_inv :: "int \<Rightarrow> bridge \<Rightarrow> bool" where
  "spent_inv clock b \<longleftrightarrow>
     distinct (map fst (br_sent b)) \<and>
     (\<forall>t \<in> fst ` set (br_sent b). in_calendar t \<longrightarrow> tok_exp t \<le> clock \<or> (tok_nonce t, rfc3339 (tok_exp t)) \<in> set (br_spent b))"

lemma spent_inv_later: "spent_inv clock b \<Longrightarrow> clock \<le> now \<Longrightarrow> spent_inv now b"
  unfolding spent_inv_def by force

lemma spent_inv_sweep: "spent_inv now b \<Longrightarrow> spent_inv now (snd (PruneSpentNonces b now))"
  using rfc3339_not_before [of now] unfolding spent_inv_def PruneSpentNonces_def Let_def in_calendar_def
  by (auto simp: not_le)

lemma Verify_live: "Verify mac unmarshal str key now = Inr tok \<Longrightarrow> now < tok_exp tok"
  by (auto simp: Verify_iff check_claims_iff)

lemma spent_inv_proxy:
  assumes "spent_inv now b" "Proxy env rnd now r w c b = (out, b')" "\<forall>t \<in> fst ` set (br_sent b'). in_calendar t"
  shows "spent_inv now b'"
  using assms(2)
proof (cases rule: proxy_cases)
  case (sent tok ps b1 path0 q)
  have "tok \<notin> fst ` set (br_sent b)"
  proof
    assume "tok \<in> fst ` set (br_sent b)"
    then have "(tok_nonce tok, rfc3339 (tok_exp tok)) \<in> set (br_spent b)"
      using assms(1,3) Verify_live [OF sent(4)] sent(1) unfolding spent_inv_def by fastforce
    then show False using capture_cases(2) [OF sent(6,7)] by force
  qed
  then show ?thesis using assms(1) sent(1,2) unfolding spent_inv_def by auto
qed (use assms(1) in \<open>auto simp: spent_inv_def\<close>)

lemma step_sent: "set (br_sent b) \<subseteq> set (br_sent (bridge_step env e b))"
proof (cases "(env, e, b)" rule: bridge_step.cases)
  case (1 env' now rnd r w c b')
  obtain out b2 where p: "Proxy env' rnd now r w c b' = (out, b2)" by fastforce
  then show ?thesis using 1 by (cases rule: proxy_cases [OF p]) auto
qed (auto simp: PruneSpentNonces_def Let_def)

lemma run_sent: "set (br_sent b) \<subseteq> set (br_sent (fold (bridge_step env) es b))"
  by (induction es arbitrary: b) (use step_sent in \<open>auto, blast\<close>)

lemma step_spent_inv:
  assumes "spent_inv now b" "\<forall>t \<in> fst ` set (br_sent (bridge_step env (now, ev) b)). in_calendar t"
  shows "spent_inv now (bridge_step env (now, ev) b)"
proof (cases ev)
  case (ProxyCall rnd r w c)
  obtain out b' where "Proxy env rnd now r w c b = (out, b')" by fastforce
  then show ?thesis using spent_inv_proxy [OF assms(1)] assms(2) ProxyCall by simp
qed (use assms(1) spent_inv_sweep in \<open>auto simp: spent_inv_def\<close>)

lemma run_spent_inv:
  "spent_inv clock b \<Longrightarrow> sorted (clock # map fst es) \<Longrightarrow> \<forall>t \<in> fst ` set (br_sent (fold (bridge_step env) es b)). in_calendar t \<Longrightarrow>
   distinct (map fst (br_sent (fold (bridge_step env) es b)))"
proof (induction es arbitrary: clock b)
  case (Cons e es)
  obtain now ev where e: "e = (now, ev)" by fastforce
  have "spent_inv now b" using spent_inv_later Cons.prems(1,2) e by simp
  moreover have "\<forall>t \<in> fst ` set (br_sent (bridge_step env e b)). in_calendar t"
    using run_sent [of "bridge_step env e b" env es] Cons.prems(3) by auto
  ultimately have "spent_inv now (bridge_step env e b)" using step_spent_inv e by blast
  then show ?case using Cons.IH Cons.prems(2,3) e by auto
qed (simp add: spent_inv_def)

text \<open>
  C2. A capability token is spent at most once. Starting with nothing sent, over any sequence of proxy calls, mintings,
  sweeps of the nonce table and changes of the vault under a clock that does not go back, no token is ever used for two upstream
  requests, although the sweep forgets spent nonces (for tokens that expire before the year 10000, the range of SQLite's dates).
\<close>

theorem token_single_use:
  assumes "br_sent b = []" "sorted (map fst es)"
    and "\<forall>x \<in> set (br_sent (fold (bridge_step env) es b)). in_calendar (fst x)"
  shows "distinct (map fst (br_sent (fold (bridge_step env) es b)))"
proof (cases es)
  case (Cons e es')
  have "spent_inv (fst e) b" using assms(1) by (simp add: spent_inv_def)
  then show ?thesis using run_spent_inv [of "fst e" b es env] assms(2,3) Cons by auto
qed (use assms(1) in simp)

section \<open>Release\<close>

lemma resolve_cases:
  assumes "resolveSecret env s eid nm = Inr (pt, spec)"
  shows "pt_authority pt = Some (AuthorizeSecretExit (ce_entry env) s)" "pt_origin pt = \<lparr>o_EntryID = eid, o_Name = nm, o_Instance = False\<rparr>"
    "\<exists>e. map_of (entries s) eid = Some e \<and> spec = parseInjectionSpec env (injection_spec e)"
  using assms
  by (auto simp: resolveSecret_def OpenEntrySecret_def openEntrySecretWithKeyAge_def exit_Open_def Let_def row_simps
      split: fetched.splits sum.splits prod.splits option.splits if_splits)

lemma inject_headers:
  assumes "injectSecret env q spec v = Inr q'" "ur_header q' k \<noteq> []"
  shows "ur_header q k \<noteq> [] \<or> k = ce_canonical env (is_Name (DefaultInjection spec))"
  using assms by (auto simp: injectSecret_def header_set_def Let_def split: if_splits)

lemma inject_keeps: "injectSecret env q spec v = Inr q' \<Longrightarrow> ur_hostname q' = ur_hostname q \<and> ur_body q' = ur_body q \<and> ur_path q' = ur_path q \<and> ur_method q' = ur_method q"
  by (auto simp: injectSecret_def Let_def split: if_splits)

text \<open>
  C3. The proxy hands a request to the network only under every guard at once. If a call sends a request, then the
  caller presented a token that verifies and is live; at that moment its issuer is an enabled admin or user with access
  to the entry, its agent is granted, the destination is covered by the token and by the entry's present allow-list, the method
  fits, an AI provider's key goes to its provider only, and a public caller does not reach a protected entry; the path is normalised; the nonce was
  new and is now spent; the host is recorded on the entry and is the one the request goes to; and of the caller's headers only the listed
  ones are forwarded, next to the one that carries the secret.
\<close>

theorem proxy_release_sound:
  assumes "Proxy env rnd now r w c b = (out, b')" "br_sent b' = br_sent b @ [(tok, q)]"
  shows "\<exists>path0 path spec.
    Verify (ce_mac env) (ce_unmarshal env) (extractCapabilityToken (header_get (header r) ''Authorization'')) (ce_signingKey env) now = Inr tok \<and>
    now < tok_exp tok \<and> normalizePath (''/'' @ pc_rest c) = (path0, True) \<and> path = proxied_path path0 r c \<and>
    release_guards env r tok (pc_host c) path b \<and>
    tok_nonce tok \<notin> fst ` set (br_spent b) \<and> tok_nonce tok \<in> fst ` set (br_spent b') \<and>
    NormalizeHost (ur_hostname q) = NormalizeHost (NormalizeHost (pc_host c)) \<and>
    recorded_host (ce_entry env) (br_store b) (tok_secret_id tok) (NormalizeHost (ur_hostname q)) \<and>
    (\<exists>e. map_of (entries (br_store b)) (tok_secret_id tok) = Some e \<and> spec = parseInjectionSpec env (injection_spec e)) \<and>
    (\<forall>k. ur_header q k \<noteq> [] \<longrightarrow> k \<in> set forwardableHeaders \<or> k = ce_canonical env (is_Name (DefaultInjection spec))) \<and>
    length (ur_body q) \<le> maxBodySize"
  using assms(1)
proof (cases rule: proxy_cases)
  case (sent tok' ps b1 path0 q')
  have same: "tok' = tok" "q' = q" using sent(1) assms(2) by simp_all
  note cs = capture_cases(2,3) [OF sent(6,7)]
  have res: "resolveSecret env (br_store b) (tok_secret_id tok) (tok_secret tok) = Inr (ps_plaintext ps, ps_spec ps)" using cs(1) same by simp
  note pt = resolve_cases [OF res]
  let ?hs = "\<lparr>Hosts = (if NormalizeHost (pc_host c) \<noteq> [] then [NormalizeHost (pc_host c)] else []), Suffixes = []\<rparr>"
  obtain ctx v content and u :: url_parts where rel: "Exit [] (ps_plaintext ps) (ToHosts ''this capability token'' ChosenByTheEntrysOwnRecord ?hs) = Inr (ctx, v)"
      "length content \<le> maxBodySize" "CheckHost ctx (ur_hostname q) = None"
      "injectSecret env \<lparr>ur_method = req_method r, ur_host = u_host u, ur_hostname = u_hostname u, ur_path = u_path u, ur_query = pc_query c,
                         ur_header = copyForwardHeaders (header r) (\<lambda>_. []), ur_body = content\<rparr> (ps_spec ps) v = Inr q"
    using sent(8) unfolding released_def same ToHost_def by blast
  have "Allows ?hs (ur_hostname q)"
    using rel(3) Exit_Inr(5) [OF rel(1)] by (simp add: CheckHost_None IsNetwork_def ToHosts_def)
  then have host: "NormalizeHost (pc_host c) \<in> set (Hosts ?hs)" "NormalizeHost (ur_hostname q) = NormalizeHost (NormalizeHost (pc_host c))"
    by (auto simp: Allows_iff under_suffix_def split: if_splits)
  have "recorded_host (ce_entry env) (br_store b) (tok_secret_id tok) (NormalizeHost (ur_hostname q))"
    using record_exit_hosts [OF pt(1,2) rel(1) host(1)] host(2) by simp
  moreover have "k \<in> set forwardableHeaders \<or> k = ce_canonical env (is_Name (DefaultInjection (ps_spec ps)))" if "ur_header q k \<noteq> []" for k
    using inject_headers [OF rel(4) that] by (auto simp: copyForwardHeaders_def split: if_splits)
  moreover have "length (ur_body q) \<le> maxBodySize" using inject_keeps [OF rel(4)] rel(2) by simp
  ultimately show ?thesis
    using sent(2-4) cs same pt(3) host(2) Verify_live [OF sent(4)] by (intro exI [of _ path0] exI [of _ "ps_spec ps"] exI) auto
qed (use assms(2) in simp_all)

section \<open>Minting\<close>

lemma scan_rows_sound:
  "scan_rows s pri keep es = Inr rows \<Longrightarrow> row \<in> set rows \<Longrightarrow>
     \<exists>e. (ce_ID row, e) \<in> set es \<and> ce_DestinationPatterns row = destination_patterns e \<and> (pri \<or> ce_PrivateAccessPolicy row \<noteq> PolicyFullyPrivate)"
proof (induction es arbitrary: rows)
  case (Cons x es)
  obtain eid e where x: "x = (eid, e)" by fastforce
  obtain rest where rest: "scan_rows s pri keep es = Inr rest" and rows:
    "rows = rest \<or> (\<exists>nm p. (pri \<or> p \<noteq> PolicyFullyPrivate) \<and>
       rows = \<lparr>ce_ID = eid, ce_Name = nm, ce_DestinationPatterns = destination_patterns e, ce_PrivateAccessPolicy = p\<rparr> # rest)"
    using Cons.prems(1) by (auto simp: x split: option.splits sum.splits if_splits)
  show ?case
  proof (cases "row \<in> set rest")
    case True
    then show ?thesis using Cons.IH [OF rest] by auto
  next
    case False
    then show ?thesis using rows Cons.prems(2) x by auto
  qed
qed simp

lemma lookup_sound:
  assumes "(if sec \<noteq> [] then lookupSecretByName env r s uid sec else lookupSecretByDestination env r s uid d) = Inr row"
  shows "\<exists>e. (ce_ID row, e) \<in> set (entries s) \<and> accessibleEntriesPredicate s uid e \<and> ce_DestinationPatterns row = destination_patterns e"
proof -
  obtain keep es rows where "scan_rows s (IsPrivateIngress r) keep es = Inr rows" "row \<in> set rows"
      "\<forall>(eid, e) \<in> set es. (eid, e) \<in> set (entries s) \<and> accessibleEntriesPredicate s uid e"
  proof (cases "sec \<noteq> []")
    case True
    show thesis by (rule that [of _ "filter (\<lambda>(_, e). accessibleEntriesPredicate s uid e) (entries s)" "[row]"])
        (use assms True in \<open>auto simp: lookupSecretByName_def split: if_splits sum.splits list.splits\<close>)
  next
    case False
    show thesis by (rule that [of _ "filter (\<lambda>(_, e). accessibleEntriesPredicate s uid e \<and> destination_patterns e \<noteq> [] \<and> destination_patterns e \<noteq> ''[]'') (entries s)" "[row]"])
        (use assms False in \<open>auto simp: lookupSecretByDestination_def split: if_splits sum.splits list.splits\<close>)
  qed
  then show ?thesis using scan_rows_sound by fastforce
qed

lemma issue_snapshot_sound:
  assumes "captureIssueSecuritySnapshot env r b uid q = sn" "\<not> sn_err sn" "sn_lookupErr sn = None" "\<not> sn_privateBlocked sn" "\<not> sn_aclErr sn" "sn_agentAllowed sn"
  shows "\<exists>e. (ce_ID (sn_entry sn), e) \<in> set (entries (br_store b)) \<and> accessibleEntriesPredicate (br_store b) uid e \<and>
      ce_DestinationPatterns (sn_entry sn) = destination_patterns e"
    "agentCanUse b (iq_AgentID q) (ce_ID (sn_entry sn)) uid = Some True"
    "IsPrivateIngress r \<or> \<not> privateIngressRequired (ce_PrivateAccessPolicy (sn_entry sn)) privateAccessSensitive"
    "\<not> sn_pinErr sn \<Longrightarrow> providerPinFor (Some (setting_reader (br_store b))) (ce_ID (sn_entry sn)) = Some (sn_pin sn)"
proof -
  obtain row where row: "(if iq_Secret q \<noteq> [] then lookupSecretByName env r (br_store b) uid (iq_Secret q)
      else lookupSecretByDestination env r (br_store b) uid (iq_Destination q)) = Inr row"
    using assms(1-3) unfolding captureIssueSecuritySnapshot_def Let_def by (auto split: if_splits sum.splits)
  have rest: "sn_entry sn = row \<and> agentCanUse b (iq_AgentID q) (ce_ID row) uid = Some True \<and>
      (IsPrivateIngress r \<or> \<not> privateIngressRequired (ce_PrivateAccessPolicy row) privateAccessSensitive) \<and>
      (\<not> sn_pinErr sn \<longrightarrow> providerPinFor (Some (setting_reader (br_store b))) (ce_ID row) = Some (sn_pin sn))"
    using assms unfolding captureIssueSecuritySnapshot_def Let_def row sum.case
    by (auto simp: blank_snapshot_def split: if_splits option.splits bool.splits)
  with lookup_sound [OF row] show "\<exists>e. (ce_ID (sn_entry sn), e) \<in> set (entries (br_store b)) \<and> accessibleEntriesPredicate (br_store b) uid e \<and>
      ce_DestinationPatterns (sn_entry sn) = destination_patterns e"
    "agentCanUse b (iq_AgentID q) (ce_ID (sn_entry sn)) uid = Some True"
    "IsPrivateIngress r \<or> \<not> privateIngressRequired (ce_PrivateAccessPolicy (sn_entry sn)) privateAccessSensitive"
    "\<not> sn_pinErr sn \<Longrightarrow> providerPinFor (Some (setting_reader (br_store b))) (ce_ID (sn_entry sn)) = Some (sn_pin sn)"
    by auto
qed

lemma token_ttl_bounds: "0 < token_ttl n \<and> token_ttl n \<le> 600 * 10 ^ 9"
  by (simp add: token_ttl_def defaultTTL_def Let_def)

lemma Verify_Sign:
  assumes "Sign mac marshal t key ttl now rnd = Inr s" "\<forall>u x. marshal u = Some x \<longrightarrow> unmarshal x = Some u"
  obtains n where "\<forall>later. Verify mac unmarshal s key later = check_claims ((signed_form t ttl now)\<lparr>tok_nonce := n\<rparr>) later" "tok_dests t \<noteq> []"
proof -
  obtain n payload where s: "tok_dests t \<noteq> []" "marshal ((signed_form t ttl now)\<lparr>tok_nonce := n\<rparr>) = Some payload"
      "s = rawurl64_encode payload @ ''.'' @ rawurl64_encode (mac key payload)"
    using Sign_InrE [OF assms(1)] by metis
  have "Verify mac unmarshal s key later = check_claims ((signed_form t ttl now)\<lparr>tok_nonce := n\<rparr>) later" for later
    unfolding Verify_def s(3) using split_n_2 [OF rawurl64_no_dot rawurl64_no_dot, of payload "mac key payload"] assms(2) s(2)
    by (simp add: rawurl64.dec_enc)
  with s(1) show thesis using that by blast
qed

lemma issue_success:
  assumes "Issue env cfg h rnd now r p w b = (Inr resp, b')"
  shows "\<exists>q. ce_decodeIssue env p = Some q \<and> GetUserID r \<noteq> [] \<and> \<not> IsVaultOnly r \<and>
    (let sn = captureIssueSecuritySnapshot env r b (GetUserID r) q
     in \<not> sn_err sn \<and> sn_lookupErr sn = None \<and> \<not> sn_privateBlocked sn \<and> \<not> sn_aclErr sn \<and> sn_agentAllowed sn \<and>
        issue_ticket env cfg h rnd now r w (GetUserID r) q sn b = (Inr resp, b'))"
  using assms unfolding Issue_def Let_def by (auto split: if_splits option.splits bridge_lookup_error.splits)

lemma ticket_success:
  assumes "issue_ticket env cfg h rnd now r w uid q sn b = (Inr resp, b')"
  shows "\<exists>mth. \<not> sn_pinErr sn \<and>
    (let dests = issue_dests (parseDestinationPatterns (json (ce_entry env)) (ce_DestinationPatterns (sn_entry sn))) (iq_Dests q)
     in firstDestinationOutsidePin (sn_pin sn) dests = None \<and> issue_sign env cfg h rnd now r w uid q (sn_entry sn) dests mth b = (Inr resp, b'))"
  using assms unfolding issue_ticket_def Let_def by (auto split: if_splits option.splits)

text \<open>
  C20. A token is minted only inside what its entry allows. If minting succeeds, then the user is authenticated and
  not restricted to the vault, has access to the entry and the agent is granted it, a protected entry was asked for over the private
  ingress; and whatever later verifies of the token is exactly one set of claims: that entry, that user, that agent, issued now and
  expired within ten minutes whatever lifetime was asked for, with destinations that are patterns of the
  entry's allow-list or covered by it, and with none outside the provider an AI key belongs to.
\<close>

theorem mint_sound:
  assumes "Issue env cfg h rnd now r p w b = (Inr resp, b')" "\<forall>u x. ce_marshal env u = Some x \<longrightarrow> ce_unmarshal env x = Some u"
  shows "\<exists>q eid e tok. ce_decodeIssue env p = Some q \<and> GetUserID r \<noteq> [] \<and> \<not> IsVaultOnly r \<and>
    (eid, e) \<in> set (entries (br_store b)) \<and> accessibleEntriesPredicate (br_store b) (GetUserID r) e \<and>
    agentCanUse b (iq_AgentID q) eid (GetUserID r) = Some True \<and>
    (\<forall>later. Verify (ce_mac env) (ce_unmarshal env) (ir_Token resp) (ce_signingKey env) later = check_claims tok later) \<and>
    tok_secret_id tok = eid \<and> tok_issuer tok = GetUserID r \<and> tok_agent tok = iq_AgentID q \<and>
    tok_iat tok = now \<and> now \<le> tok_exp tok \<and> tok_exp tok \<le> now + 600 \<and> tok_dests tok \<noteq> [] \<and>
    (\<forall>d \<in> set (tok_dests tok).
       (let ceiling = parseDestinationPatterns (json (ce_entry env)) (destination_patterns e)
        in d \<in> set ceiling \<or> destMatches ceiling (fst (splitHostPath d)) (snd (splitHostPath d))) \<and>
       (\<exists>pin. providerPinFor (Some (setting_reader (br_store b))) eid = Some pin \<and> (pinned pin \<longrightarrow> allowsPattern pin d)))"
proof -
  obtain q where q: "ce_decodeIssue env p = Some q" "GetUserID r \<noteq> []" "\<not> IsVaultOnly r"
    and sn: "\<not> sn_err (captureIssueSecuritySnapshot env r b (GetUserID r) q)" "sn_lookupErr (captureIssueSecuritySnapshot env r b (GetUserID r) q) = None"
      "\<not> sn_privateBlocked (captureIssueSecuritySnapshot env r b (GetUserID r) q)" "\<not> sn_aclErr (captureIssueSecuritySnapshot env r b (GetUserID r) q)"
      "sn_agentAllowed (captureIssueSecuritySnapshot env r b (GetUserID r) q)"
    and tk: "issue_ticket env cfg h rnd now r w (GetUserID r) q (captureIssueSecuritySnapshot env r b (GetUserID r) q) b = (Inr resp, b')"
    using issue_success [OF assms(1)] unfolding Let_def by blast
  define sn where "sn = captureIssueSecuritySnapshot env r b (GetUserID r) q"
  define dests where "dests = issue_dests (parseDestinationPatterns (json (ce_entry env)) (ce_DestinationPatterns (sn_entry sn))) (iq_Dests q)"
  obtain mth where m: "\<not> sn_pinErr sn" "firstDestinationOutsidePin (sn_pin sn) dests = None"
      "issue_sign env cfg h rnd now r w (GetUserID r) q (sn_entry sn) dests mth b = (Inr resp, b')"
    using ticket_success [OF tk] unfolding Let_def sn_def [symmetric] dests_def [symmetric] by blast
  note snap = issue_snapshot_sound [OF sn_def [symmetric], unfolded sn_def, OF sn, folded sn_def]
  obtain e where e: "(ce_ID (sn_entry sn), e) \<in> set (entries (br_store b))" "accessibleEntriesPredicate (br_store b) (GetUserID r) e"
      "ce_DestinationPatterns (sn_entry sn) = destination_patterns e" using snap(1) by blast
  define t where "t = \<lparr>tok_v = 0, tok_secret = ce_Name (sn_entry sn), tok_secret_id = ce_ID (sn_entry sn), tok_issuer = GetUserID r, tok_agent = iq_AgentID q,
      tok_dests = dests, tok_method = to_upper mth, tok_iat = 0, tok_exp = 0, tok_nonce = []\<rparr>"
  have sg: "Sign (ce_mac env) (ce_marshal env) t (ce_signingKey env) (token_ttl (iq_TTLSeconds q)) now (cr_nonce rnd) = Inr (ir_Token resp)"
    using m(3) unfolding issue_sign_def Let_def t_def [symmetric] by (auto split: sum.splits)
  obtain n where n: "\<forall>later. Verify (ce_mac env) (ce_unmarshal env) (ir_Token resp) (ce_signingKey env) later =
      check_claims ((signed_form t (token_ttl (iq_TTLSeconds q)) now)\<lparr>tok_nonce := n\<rparr>) later" "tok_dests t \<noteq> []"
    using Verify_Sign [OF sg assms(2)] by blast
  have claims: "tok_dests (signed_form t (token_ttl (iq_TTLSeconds q)) now) = dests" "tok_issuer (signed_form t (token_ttl (iq_TTLSeconds q)) now) = GetUserID r"
    "tok_secret_id (signed_form t (token_ttl (iq_TTLSeconds q)) now) = ce_ID (sn_entry sn)"
    "tok_agent (signed_form t (token_ttl (iq_TTLSeconds q)) now) = iq_AgentID q" "tok_iat (signed_form t (token_ttl (iq_TTLSeconds q)) now) = now"
    by (simp_all add: signed_form_def t_def fill_times_iat)
  have times: "tok_exp (signed_form t (token_ttl (iq_TTLSeconds q)) now) = now + token_ttl (iq_TTLSeconds q) div 10 ^ 9"
    using token_ttl_bounds [of "iq_TTLSeconds q"] by (simp add: signed_form_def t_def fill_times_exp)
  have d: "d \<in> set (parseDestinationPatterns (json (ce_entry env)) (destination_patterns e)) \<or>
      destMatches (parseDestinationPatterns (json (ce_entry env)) (destination_patterns e)) (fst (splitHostPath d)) (snd (splitHostPath d))"
    "pinned (sn_pin sn) \<longrightarrow> allowsPattern (sn_pin sn) d" if "d \<in> set dests" for d
    using that m(2) e(3) by (auto simp: dests_def issue_dests_def firstDestinationOutsidePin_def find_None_iff split: if_splits)
  show ?thesis
    by (rule exI [of _ q], rule exI [of _ "ce_ID (sn_entry sn)"], rule exI [of _ e],
        rule exI [of _ "(signed_form t (token_ttl (iq_TTLSeconds q)) now)\<lparr>tok_nonce := n\<rparr>"])
      (use q e n claims times d snap(2,4) m(1) token_ttl_bounds [of "iq_TTLSeconds q"] in \<open>auto simp: t_def Let_def\<close>)
qed

section \<open>An instance\<close>

definition cap_token :: token where
  "cap_token =
     \<lparr>tok_v = 1, tok_secret = ''db'', tok_secret_id = ''e1'', tok_issuer = ''ann'', tok_agent = ''bot'', tok_dests = [''api.x.io/v1/*''],
      tok_method = ''*'', tok_iat = 10, tok_exp = 300, tok_nonce = hex_encode (replicate 16 CHR ''a'')\<rparr>"

definition bot_request :: issueRequest where
  "bot_request =
     \<lparr>iq_Secret = ''db'', iq_AgentID = ''bot'', iq_Destination = [], iq_Dests = [''api.x.io/v1/*''], iq_Method = [], iq_TTLSeconds = 290\<rparr>"

definition bridge_env :: cap_env where
  "bridge_env =
     \<lparr>ce_cipher = (\<lambda>_ _. 0), ce_derive = (\<lambda>_. replicate 32 CHR ''d''), ce_keys = \<lparr>current = sample_key CHR ''a'', previous = None\<rparr>,
      ce_entry = sample_lib, ce_mac = (\<lambda>_ _. []), ce_signingKey = ''k'', ce_marshal = (\<lambda>u. if u = cap_token then Some ''A'' else None),
      ce_unmarshal = (\<lambda>_. Some cap_token), ce_decodeIssue = (\<lambda>_. Some bot_request),
      ce_unmarshalSpec = (\<lambda>_. \<lparr>is_Type = ''bearer'', is_Name = [], is_Format = []\<rparr>),
      ce_newRequest = (\<lambda>_ host path _. Some \<lparr>u_host = host, u_hostname = host, u_path = path\<rparr>), ce_querySet = (\<lambda>q _ _. q), ce_canonical = id,
      ce_do = (\<lambda>_. Failed []), ce_relayError = (\<lambda>_. []), ce_schemeHost = (\<lambda>_. None), ce_quote = id, ce_openText = (\<lambda>_. []),
      ce_exitText = (\<lambda>_. []), ce_hostText = (\<lambda>_. [])\<rparr>"

definition bridge_store :: "bytes \<Rightarrow> store" where
  "bridge_store ct = empty_store\<lparr>
     users := [(''ann'', \<lparr>email = ''ann@x.io'', role = ''user'', disabled = 0, sessions_valid_after = 0, totp_enabled = 0\<rparr>)],
     entries := [(''e1'', (blank_entry ''ann'' None)\<lparr>entry_name := ''db'', encrypted_value := ct, entry_nonce := replicate 12 CHR ''n'',
        destination_patterns := ''api.x.io/v1/*'', injection_spec := ''s''\<rparr>)]\<rparr>"

definition bridge_state :: "bytes \<Rightarrow> bridge" where
  "bridge_state ct =
     \<lparr>br_store = bridge_store ct, br_auditKey = None, br_grants = [], br_spent = [], br_log = [], br_sent = []\<rparr>"

definition bridge_rnd :: cap_rnd where
  "bridge_rnd = \<lparr>cr_audit = \<lparr>rnd_key = [], rnd_wrap = [], rnd_seal = []\<rparr>, cr_logID = [], cr_nonce = replicate 16 CHR ''a''\<rparr>"

definition bot_call :: request where
  "bot_call = sample_request\<lparr>req_method := ''GET'', header := (\<lambda>k. if k = ''Authorization'' then [''Capability QQ.''] else []),
     user_id_value := Some ''ann'', user_role_value := Some ''user''\<rparr>"

definition bot_proxy :: proxy_call where
  "bot_proxy = \<lparr>pc_host = ''api.x.io'', pc_rest = ''v1/a'', pc_query = [], pc_body = Inr [], pc_accepts = 0\<rparr>"

definition bot_snapshot :: issueSecuritySnapshot where
  "bot_snapshot = blank_snapshot\<lparr>sn_entry := \<lparr>ce_ID = ''e1'', ce_Name = ''db'', ce_DestinationPatterns = ''api.x.io/v1/*'', ce_PrivateAccessPolicy = PolicyStandard\<rparr>,
     sn_agentAllowed := True\<rparr>"

definition bridge_ct :: bytes where
  "bridge_ct = gcm_seal (\<lambda>_ _. 0) (replicate 32 CHR ''a'') (replicate 12 CHR ''n'') ''password''"

definition bridge_pt :: "bytes \<Rightarrow> Plaintext" where
  "bridge_pt ct = \<lparr>pt_bytes = ''password'', pt_origin = \<lparr>o_EntryID = ''e1'', o_Name = ''db'', o_Instance = False\<rparr>,
     pt_authority = Some (AuthorizeSecretExit sample_lib (bridge_store ct))\<rparr>"

lemma bot_policy: "capabilityEntryPolicy (bridge_store ct) ''e1'' = Inr (PolicyStandard, True)" by code_simp

lemma bot_issuer: "capabilityIssuerCanStillUse (bridge_store ct) ''ann'' ''e1'' = Some True" by code_simp

lemma bot_agent: "agentCanUse (bridge_state ct) ''bot'' ''e1'' ''ann'' = Some True" by code_simp

lemma bot_patterns: "currentDestinationPatterns bridge_env (bridge_store ct) ''e1'' = Some [''api.x.io/v1/*'']" by code_simp

lemma bot_pin: "providerPinFor (Some (setting_reader (bridge_store ct))) ''e1'' = Some \<lparr>pin_hosts = [], pin_settings = []\<rparr>" by code_simp

lemma bot_verify: "Verify (ce_mac bridge_env) (ce_unmarshal bridge_env) ''QQ.'' (ce_signingKey bridge_env) 10 = Inr cap_token" by code_simp

lemma bot_path: "normalizePath ''/v1/a'' = (''/v1/a'', True)" "destMatches [''api.x.io/v1/*''] ''api.x.io'' ''/v1/a''" 
 "allowedProviderRoute ''api.x.io'' ''GET'' ''/v1/a'' = NotProvider" "extractCapabilityToken (header_get (header bot_call) ''Authorization'') = ''QQ.''" by code_simp+

lemma bot_capture: "captureIssueSecuritySnapshot bridge_env bot_call (bridge_state ct) ''ann'' bot_request = bot_snapshot" by code_simp

lemma bot_dests: "issue_dests (parseDestinationPatterns (json (ce_entry bridge_env)) (ce_DestinationPatterns (sn_entry bot_snapshot))) (iq_Dests bot_request) = [''api.x.io/v1/*'']" 
  "list_all destPathNormalized (iq_Dests bot_request)"
  "parseDestinationPatterns (json (ce_entry bridge_env)) (ce_DestinationPatterns (sn_entry bot_snapshot)) = [''api.x.io/v1/*'']"
  "firstDestinationOutsidePin (sn_pin bot_snapshot) [''api.x.io/v1/*''] = None"
  by code_simp+

lemma bot_sign: "Sign (ce_mac bridge_env) (ce_marshal bridge_env)
    \<lparr>tok_v = 0, tok_secret = ''db'', tok_secret_id = ''e1'', tok_issuer = ''ann'', tok_agent = ''bot'', tok_dests = [''api.x.io/v1/*''], tok_method = ''*'',
       tok_iat = 0, tok_exp = 0, tok_nonce = []\<rparr> (ce_signingKey bridge_env) (token_ttl 290) 10 (cr_nonce bridge_rnd) = Inr ''QQ.''"
proof -
  have "rawurl64_encode ''A'' = ''QQ''" "rawurl64_encode [] = []" by code_simp+
  moreover have "token_ttl 290 = 290 * 10 ^ 9" by (simp add: token_ttl_def wrap64_def defaultTTL_def)
  ultimately show ?thesis
    by (simp add: Sign_def fill_times_def bridge_env_def bridge_rnd_def NewNonce_def read_full_def cap_token_def)
qed

lemma bot_issue: "\<exists>x b'. Issue bridge_env sample_proxy ''h'' bridge_rnd 10 bot_call [] (\<lambda>_. []) (bridge_state ct) = (Inr x, b') \<and> ir_Token x = ''QQ.''"
proof -
  have c: "GetUserID bot_call = ''ann''" "\<not> IsVaultOnly bot_call" "ce_decodeIssue bridge_env [] = Some bot_request" "iq_AgentID bot_request = ''bot''" "iq_Destination bot_request = []"
     "iq_Secret bot_request = ''db''" "iq_Method bot_request = []" "iq_TTLSeconds bot_request = 290" "iq_Dests bot_request \<noteq> []" "to_upper ''*'' = ''*''"
    by (simp_all add: GetUserID_def IsVaultOnly_def GetUserRole_def context_string_def bot_call_def bridge_env_def bot_request_def to_upper_def upper_char_def)
  have s: "sn_err bot_snapshot = False" "sn_lookupErr bot_snapshot = None" "sn_privateBlocked bot_snapshot = False" "sn_aclErr bot_snapshot = False" "sn_agentAllowed bot_snapshot = True"
     "sn_pinErr bot_snapshot = False" "ce_ID (sn_entry bot_snapshot) = ''e1''" "ce_Name (sn_entry bot_snapshot) = ''db''" by (simp_all add: bot_snapshot_def blank_snapshot_def)
  have "Issue bridge_env sample_proxy ''h'' bridge_rnd 10 bot_call [] (\<lambda>_. []) (bridge_state ct) = issue_ticket bridge_env sample_proxy ''h'' bridge_rnd 10 bot_call (\<lambda>_. []) ''ann'' bot_request bot_snapshot (bridge_state ct)"
    unfolding Issue_def Let_def using c bot_dests(2) by (simp add: bot_capture s)
  also have "\<dots> = issue_sign bridge_env sample_proxy ''h'' bridge_rnd 10 bot_call (\<lambda>_. []) ''ann'' bot_request (sn_entry bot_snapshot) [''api.x.io/v1/*''] ''*'' (bridge_state ct)"
    unfolding issue_ticket_def Let_def using c bot_dests s by simp
  finally show ?thesis unfolding issue_sign_def Let_def s c bot_sign by simp
qed

lemma bot_resolve: "resolveSecret bridge_env (bridge_store bridge_ct) ''e1'' ''db'' = Inr (bridge_pt bridge_ct, \<lparr>is_Type = ''bearer'', is_Name = [], is_Format = []\<rparr>)"
proof -
  have "Open (\<lambda>_ _. 0) (replicate 32 CHR ''a'') bridge_ct (replicate 12 CHR ''n'') entryValue = Inr ''password''"
    by (rule Open_Seal [of _ _ _ "replicate 12 CHR ''n''"]) (simp_all add: Seal_def read_full_def NonceSize_def bridge_ct_def entryValue_def)
  then show ?thesis
    by (simp add: resolveSecret_def bridge_store_def fetch_def empty_store_def OpenEntrySecret_def openEntrySecretWithKeyAge_def exit_Open_def bridge_env_def
        sample_key_def parseInjectionSpec_def bridge_pt_def blank_entry_def)
qed

lemma bot_exit: "Exit [] (bridge_pt ct) (ToHost ''this capability token'' ChosenByTheEntrysOwnRecord ''api.x.io'') =
   Inr ([\<lparr>rc_origin = \<lparr>o_EntryID = ''e1'', o_Name = ''db'', o_Instance = False\<rparr>, rc_dest = ToHost ''this capability token'' ChosenByTheEntrysOwnRecord ''api.x.io''\<rparr>], ''password'')"
  by code_simp

lemma bot_check: "CheckHost [\<lparr>rc_origin = \<lparr>o_EntryID = ''e1'', o_Name = ''db'', o_Instance = False\<rparr>, rc_dest = ToHost ''this capability token'' ChosenByTheEntrysOwnRecord ''api.x.io''\<rparr>] ''api.x.io'' = None"
  by code_simp

lemma bot_snapshot_ok: "captureProxySecuritySnapshot bridge_env bot_call cap_token ''api.x.io'' ''/v1/a'' (bridge_state bridge_ct) =
   (blank_proxy_snapshot\<lparr>ps_plaintext := bridge_pt bridge_ct, ps_spec := \<lparr>is_Type = ''bearer'', is_Name = [], is_Format = []\<rparr>\<rparr>,
    (bridge_state bridge_ct)\<lparr>br_spent := [(tok_nonce cap_token, rfc3339 300)]\<rparr>)"
proof -
  have f: "br_store (bridge_state ct) = bridge_store ct" "fails (bridge_store ct) x = False" "br_spent (bridge_state ct) = []" for ct x
    by (simp_all add: bridge_state_def bridge_store_def empty_store_def)
  have c: "tok_secret_id cap_token = ''e1''" "tok_secret cap_token = ''db''" "tok_issuer cap_token = ''ann''" "tok_agent cap_token = ''bot''" "tok_dests cap_token = [''api.x.io/v1/*'']"
     "tok_exp cap_token = 300" "MethodMatches cap_token m" for m
    by (simp_all add: cap_token_def MethodMatches_def)
  show ?thesis
    unfolding captureProxySecuritySnapshot_def snapshot_spend_def spendNonce_def Let_def f c bot_policy bot_issuer bot_agent bot_patterns bot_pin bot_resolve
    using bot_path(2) c(7) by (simp add: pinned_def blank_proxy_snapshot_def)
qed

lemma bot_sends: "\<exists>q. br_sent (snd (Proxy bridge_env bridge_rnd 10 bot_call (\<lambda>_. []) bot_proxy (bridge_state bridge_ct))) = br_sent (bridge_state bridge_ct) @ [(cap_token, q)]  \<and> ur_method q = ''GET''"
proof -
  have c: "pc_host bot_proxy = ''api.x.io''" "pc_rest bot_proxy = ''v1/a''" "req_method bot_call = ''GET''" "pc_body bot_proxy = Inr []" by (simp_all add: bot_proxy_def bot_call_def)
  have n: "normalizePath (''/'' @ ''v1/a'') = (''/v1/a'', True)" using bot_path(1) c by simp
  show ?thesis
    unfolding Proxy_def Let_def n prod.case bot_path(4) bot_verify sum.case c bot_path(3) routeDecision.case bot_snapshot_ok
    by (simp add: proxy_forward_def blank_proxy_snapshot_def c bot_exit bot_check bridge_env_def injectSecret_def DefaultInjection_def maxBodySize_def relay_answer_def Let_def
      split: prod.splits)
qed

theorem proxy_release_sound_witness:
  "\<exists>(q :: upstream_request) path. ur_method q = ''GET'' \<and> release_guards bridge_env bot_call cap_token ''api.x.io'' path (bridge_state bridge_ct) \<and>
     recorded_host sample_lib (bridge_store bridge_ct) ''e1'' (NormalizeHost (ur_hostname q))"
proof -
  obtain out b' where p: "Proxy bridge_env bridge_rnd 10 bot_call (\<lambda>_. []) bot_proxy (bridge_state bridge_ct) = (out, b')" by fastforce
  obtain q where q: "br_sent b' = br_sent (bridge_state bridge_ct) @ [(cap_token, q)]" "ur_method q = ''GET''" using bot_sends p by auto
  have "ce_entry bridge_env = sample_lib" "br_store (bridge_state bridge_ct) = bridge_store bridge_ct" "tok_secret_id cap_token = ''e1''"
    "pc_host bot_proxy = ''api.x.io''" by (simp_all add: bridge_env_def bridge_state_def cap_token_def bot_proxy_def)
  moreover obtain path where "release_guards bridge_env bot_call cap_token (pc_host bot_proxy) path (bridge_state bridge_ct)"
      "recorded_host (ce_entry bridge_env) (br_store (bridge_state bridge_ct)) (tok_secret_id cap_token) (NormalizeHost (ur_hostname q))"
    using proxy_release_sound [OF p q(1)] by (elim exE conjE) simp
  ultimately show ?thesis using q(2) by auto
qed

theorem mint_sound_witness:
  "\<exists>resp b' (tok :: token). Issue bridge_env sample_proxy ''h'' bridge_rnd 10 bot_call [] (\<lambda>_. []) (bridge_state []) = (Inr resp, b') \<and>
     tok_secret_id tok = ''e1'' \<and> tok_exp tok \<le> 610 \<and> tok_dests tok \<noteq> []"
proof -
  obtain resp b' where i: "Issue bridge_env sample_proxy ''h'' bridge_rnd 10 bot_call [] (\<lambda>_. []) (bridge_state []) = (Inr resp, b')"
    using bot_issue by blast
  have j: "\<forall>u x. ce_marshal bridge_env u = Some x \<longrightarrow> ce_unmarshal bridge_env x = Some u" by (simp add: bridge_env_def)
  have "eid = ''e1''" if "(eid, e) \<in> set (entries (br_store (bridge_state [])))" for eid e
    using that by (simp add: bridge_state_def bridge_store_def)
  moreover obtain eid e and tok :: token where "(eid, e) \<in> set (entries (br_store (bridge_state [])))" "tok_secret_id tok = eid" "tok_exp tok \<le> 10 + 600" "tok_dests tok \<noteq> []"
    using mint_sound [OF i j] by (elim exE conjE) simp
  ultimately show ?thesis using i by auto
qed

lemma bridge_env_tokens: "Verify mac (ce_unmarshal bridge_env) str key now = Inr t \<Longrightarrow> t = cap_token"
  by (auto simp: Verify_iff check_claims_iff bridge_env_def)

lemma bridge_env_sent:
  "\<forall>x \<in> set (br_sent b). fst x = cap_token \<Longrightarrow> \<forall>x \<in> set (br_sent (fold (bridge_step bridge_env) es b)). fst x = cap_token"
proof (induction es arbitrary: b)
  case (Cons e es)
  have "\<forall>x \<in> set (br_sent (bridge_step bridge_env e b)). fst x = cap_token"
  proof (cases "(bridge_env, e, b)" rule: bridge_step.cases)
    case (1 env' now rnd r w c b')
    obtain out b2 where p: "Proxy bridge_env rnd now r w c b = (out, b2)" by fastforce
    then show ?thesis using 1 Cons.prems bridge_env_tokens by (cases rule: proxy_cases [OF p]) auto
  qed (use Cons.prems in \<open>auto simp: PruneSpentNonces_def Let_def\<close>)
  then show ?case using Cons.IH by simp
qed simp

theorem token_single_use_witness:
  "length (br_sent (fold (bridge_step bridge_env)
     [(10 :: int, ProxyCall bridge_rnd bot_call (\<lambda>_. []) bot_proxy), (20, Sweep), (30, ProxyCall bridge_rnd bot_call (\<lambda>_. []) bot_proxy)] (bridge_state bridge_ct))) = 1"
  (is "length ?sent = 1")
proof -
  let ?es = "[(10 :: int, ProxyCall bridge_rnd bot_call (\<lambda>_. []) bot_proxy), (20, Sweep), (30, ProxyCall bridge_rnd bot_call (\<lambda>_. []) bot_proxy)]"
  have e: "br_sent (bridge_state bridge_ct) = []" by (simp add: bridge_state_def)
  then have all: "\<forall>x \<in> set ?sent. fst x = cap_token" using bridge_env_sent [of "bridge_state bridge_ct" ?es] by simp
  moreover have "in_calendar cap_token" by (simp add: in_calendar_def cap_token_def civil_def)
  moreover have "sorted (map fst ?es)" by simp
  ultimately have "distinct (map fst ?sent)" using token_single_use [OF e, of ?es bridge_env] by auto
  with all have "length ?sent \<le> 1" by (cases ?sent rule: list.exhaust; cases "tl ?sent" rule: list.exhaust) auto
  moreover have "set (br_sent (bridge_step bridge_env (10, ProxyCall bridge_rnd bot_call (\<lambda>_. []) bot_proxy) (bridge_state bridge_ct))) \<subseteq> set ?sent"
    using run_sent [of _ bridge_env "tl ?es"] by simp
  then have "?sent \<noteq> []" using bot_sends by auto
  ultimately show ?thesis by (cases ?sent) auto
qed

section \<open>What is not covered\<close>

text \<open>
  The comment on the proxy says that every branch attributable to a token of this server is logged. A body that is too large
  is refused after the token was spent, and the refusal leaves no row.
\<close>

lemma oversized_body_spends_silently:
  assumes "Exit [] (ps_plaintext ps) (ToHost ''this capability token'' ChosenByTheEntrysOwnRecord (pc_host c)) = Inr (ctx, v)"
    and "pc_body c = Inr content" "maxBodySize < length content"
  shows "proxy_forward env rnd r w c tok path ps b = (Reply (writeError w r 413 ''body_too_large'' ''request body exceeds 16 MiB''), b)"
  using assms by (simp add: proxy_forward_def)

text \<open>
  Verification and the transaction that spends the nonce are two moments. A request that verified its token before the expiry and reaches its transaction
  only after a sweep that dropped the row finds the nonce unspent again.
\<close>

lemma sweep_reopens_nonce:
  assumes "text_less (rfc3339 e) (sqlite_datetime now)" "\<forall>x. (n, x) \<in> set (br_spent b) \<longrightarrow> x = rfc3339 e"
    and "\<not> fails (br_store b) ''PruneSpentNonces''" "\<not> fails (br_store b) ''spendNonce''"
  shows "\<exists>b'. spendNonce (snd (PruneSpentNonces b now)) n e = Inr b'"
  using assms by (auto simp: spendNonce_def PruneSpentNonces_def Let_def)

end
