(* ===== verification/Capability_Presets.thy ===== *)
theory Capability_Presets
  imports Capability_Bridge
begin

text \<open>
  The allow-lists and injection forms an entry starts with, \<^verbatim>\<open>handlers/capability_providers.go\<close>.  A preset for a provider that
  hosts its customers on one domain names a metadata key, which is replaced by the tenant's DNS label.
\<close>

definition bearer :: InjectionSpec where
  "bearer = \<lparr>is_Type = ''bearer'', is_Name = [], is_Format = []\<rparr>"

definition basic :: InjectionSpec where
  "basic = \<lparr>is_Type = ''basic'', is_Name = [], is_Format = []\<rparr>"

definition in_header :: "string \<Rightarrow> InjectionSpec" where
  "in_header name = \<lparr>is_Type = ''header'', is_Name = name, is_Format = []\<rparr>"

definition CapabilityDefaults :: "(string \<times> string list \<times> InjectionSpec) list" where
  "CapabilityDefaults =
     [(''cloudflare'', [''api.cloudflare.com/*''], bearer), (''vercel'', [''api.vercel.com/*''], bearer), (''resend'', [''api.resend.com/*''], bearer),
      (''sendgrid'', [''api.sendgrid.com/*''], bearer), (''twilio'', [''api.twilio.com/*''], basic), (''linode'', [''api.linode.com/*''], bearer),
      (''neon'', [''console.neon.tech/api/*''], bearer), (''datadog'', [''api.datadoghq.com/*'', ''api.datadoghq.eu/*''], in_header ''DD-API-KEY''),
      (''grafana'', [''{instance}.grafana.net/*''], bearer), (''fastly'', [''api.fastly.com/*''], in_header ''Fastly-Key''),
      (''auth0'', [''{tenant}.auth0.com/*''], bearer), (''backblaze'', [''api.backblazeb2.com/*''], in_header ''Authorization''),
      (''forgejo'', [''code.forgejo.org/*''], (in_header ''Authorization'')\<lparr>is_Format := ''token {value}''\<rparr>),
      (''github'', [''api.github.com/*'', ''uploads.github.com/*''], bearer), (''openai'', [''api.openai.com/*''], bearer),
      (''anthropic'', [''api.anthropic.com/*''], in_header ''x-api-key''), (''stripe'', [''api.stripe.com/*''], basic), (''groq'', [''api.groq.com/*''], bearer),
      (''mistral'', [''api.mistral.ai/*''], bearer), (''together'', [''api.together.xyz/*''], bearer), (''replicate'', [''api.replicate.com/*''], bearer),
      (''digitalocean'', [''api.digitalocean.com/*''], bearer), (''hetzner'', [''api.hetzner.cloud/*''], bearer), (''sentry'', [''sentry.io/api/*''], bearer),
      (''postmark'', [''api.postmarkapp.com/*''], in_header ''X-Postmark-Server-Token''), (''mollie'', [''api.mollie.com/*''], bearer),
      (''supabase'', [''{project_ref}.supabase.co/*''], in_header ''apikey''), (''railway'', [''backboard.railway.app/*''], bearer),
      (''render'', [''api.render.com/*''], bearer)]"

definition key_char :: "char \<Rightarrow> bool" where
  "key_char c \<longleftrightarrow> (97 \<le> byte_val c \<and> byte_val c \<le> 122) \<or> c = CHR ''_''"

text \<open>The matches of \<^verbatim>\<open>\{([a-z_]+)\}\<close>, left to right: the key of each.\<close>

fun placeholders :: "string \<Rightarrow> string list" where
  "placeholders [] = []"
| "placeholders (c # r) =
     (let key = takeWhile key_char r
      in if c = CHR ''{'' \<and> key \<noteq> [] \<and> take 1 (dropWhile key_char r) = ''}'' then key # placeholders r else placeholders r)"

text \<open>
  A rune of \<^verbatim>\<open>(?i)[a-z0-9]\<close>: beside the ASCII letters and digits, the two runes that fold to an ASCII letter,
  the long s and the Kelvin sign.
\<close>

definition label_rune :: "bytes \<Rightarrow> bool" where
  "label_rune ch \<longleftrightarrow> (case ch of [c] \<Rightarrow> is_alnum c | _ \<Rightarrow> ch = [CHR 0xC5, CHR 0xBF] \<or> ch = [CHR 0xE2, CHR 0x84, CHR 0xAA])"

definition tenantDNSLabelRe :: "string \<Rightarrow> bool" where
  "tenantDNSLabelRe v \<longleftrightarrow>
     (let rs = runes v
      in rs \<noteq> [] \<and> length rs \<le> 63 \<and> label_rune (hd rs) \<and> label_rune (last rs) \<and> list_all (\<lambda>ch. label_rune ch \<or> ch = ''-'') rs)"

fun expand_keys :: "provider_metadata \<Rightarrow> string list \<Rightarrow> string \<Rightarrow> string option" where
  "expand_keys meta [] resolved = Some resolved"
| "expand_keys meta (k # ks) resolved =
     (let v = trim_space (meta_get meta k)
      in if \<not> tenantDNSLabelRe v then None else expand_keys meta ks (replace_all (''{'' @ k @ ''}'') v resolved))"

fun ExpandCapabilityDestinations :: "string list \<Rightarrow> provider_metadata \<Rightarrow> string list option" where
  "ExpandCapabilityDestinations [] meta = Some []"
| "ExpandCapabilityDestinations (p # ps) meta =
     (case (if CHR ''{'' \<notin> set p then Some p else expand_keys meta (placeholders p) p) of
        None \<Rightarrow> None
      | Some d \<Rightarrow> map_option ((#) d) (ExpandCapabilityDestinations ps meta))"

definition MarshalCapabilityDefaults ::
  "(string list \<Rightarrow> string) \<Rightarrow> (InjectionSpec \<Rightarrow> string) \<Rightarrow> string \<Rightarrow> provider_metadata \<Rightarrow> string \<times> string" where
  "MarshalCapabilityDefaults marshal_strings marshal_spec p meta =
     (case map_of CapabilityDefaults p of
        None \<Rightarrow> ([], [])
      | Some (ds, form) \<Rightarrow>
         (let expanded = (case ExpandCapabilityDestinations ds meta of None \<Rightarrow> [] | Some es \<Rightarrow> es)
          in if expanded = [] then ([], marshal_spec form)
             else let norm = NormalizeDestinationPatterns expanded
                  in if ValidateDestinationPatterns norm \<noteq> None then ([], marshal_spec form) else (marshal_strings norm, marshal_spec form)))"

section \<open>Presets stay with their provider\<close>

lemma replace_all_absent: "c \<notin> set s \<Longrightarrow> replace_all (c # k) v s = s"
  by (induction s) (auto simp: replace_all.simps [of _ _ "[]"] replace_all.simps [of _ _ "_ # _"] has_prefix_def)

lemma placeholders_none: "CHR ''{'' \<notin> set s \<Longrightarrow> placeholders s = []"
  by (induction s) (auto simp: Let_def)

lemma placeholders_one:
  assumes "k \<noteq> []" "list_all key_char k" "CHR ''{'' \<notin> set sfx"
  shows "placeholders (''{'' @ k @ ''}'' @ sfx) = [k]"
proof -
  have nk: "\<not> key_char CHR ''}''" "\<not> key_char CHR ''{''" by (simp_all add: key_char_def)
  then have "takeWhile key_char (k @ ''}'' @ sfx) = k" "dropWhile key_char (k @ ''}'' @ sfx) = ''}'' @ sfx"
    using assms(2) by (auto simp: list_all_iff takeWhile_append2 dropWhile_append2)
  moreover have "CHR ''{'' \<notin> set (k @ ''}'' @ sfx)" using assms(2,3) nk by (auto simp: list_all_iff)
  then have "placeholders (k @ ''}'' @ sfx) = []" by (rule placeholders_none)
  ultimately show ?thesis using assms(1) by simp
qed

lemma expand_one:
  assumes "k \<noteq> []" "list_all key_char k" "CHR ''{'' \<notin> set sfx" "expand_keys meta (placeholders (''{'' @ k @ ''}'' @ sfx)) (''{'' @ k @ ''}'' @ sfx) = Some d"
  shows "\<exists>v. v = trim_space (meta_get meta k) \<and> tenantDNSLabelRe v \<and> d = v @ sfx"
proof -
  let ?key = "''{'' @ k @ ''}''"
  have "replace_all ?key v (?key @ sfx) = v @ replace_all ?key v sfx" for v
    by (subst replace_all.simps) (simp add: has_prefix_def)
  then have "replace_all ?key v (?key @ sfx) = v @ sfx" for v using replace_all_absent [OF assms(3), of "k @ ''}''" v] by simp
  then show ?thesis using assms(4) unfolding placeholders_one [OF assms(1-3)] by (auto simp: Let_def split: if_splits)
qed

lemma expand_members:
  "ExpandCapabilityDestinations ps meta = Some ds \<Longrightarrow> d \<in> set ds \<Longrightarrow>
     \<exists>p \<in> set ps. (if CHR ''{'' \<notin> set p then Some p else expand_keys meta (placeholders p) p) = Some d"
  by (induction ps arbitrary: ds) (auto split: option.splits if_splits)

text \<open>
  Whatever the metadata of an entry says, a preset destination is one of its provider's list, with the
  tenant's placeholder replaced by one DNS label in front of the provider's domain.
\<close>

lemma preset_confined:
  assumes "(p, ps, form) \<in> set CapabilityDefaults" "ExpandCapabilityDestinations ps meta = Some ds" "d \<in> set ds"
  shows "d \<in> set ps \<or> (\<exists>k sfx v. ''{'' @ k @ ''}'' @ sfx \<in> set ps \<and> tenantDNSLabelRe v \<and> d = v @ sfx \<and> hd sfx = CHR ''.'')"
proof -
  obtain x where x: "x \<in> set ps" "(if CHR ''{'' \<notin> set x then Some x else expand_keys meta (placeholders x) x) = Some d"
    using expand_members [OF assms(2,3)] by blast
  show ?thesis
  proof (cases "CHR ''{'' \<in> set x")
    case True
    have "list_all (\<lambda>(_, ps, _). list_all (\<lambda>x. CHR ''{'' \<notin> set x \<or>
        x \<in> set [''{instance}.grafana.net/*'', ''{tenant}.auth0.com/*'', ''{project_ref}.supabase.co/*'']) ps) CapabilityDefaults" by code_simp
    then have "x \<in> set [''{instance}.grafana.net/*'', ''{tenant}.auth0.com/*'', ''{project_ref}.supabase.co/*'']"
      using assms(1) x(1) True by (force simp only: list_all_iff split: prod.splits)
    then have "x = ''{'' @ ''instance'' @ ''}'' @ ''.grafana.net/*'' \<or> x = ''{'' @ ''tenant'' @ ''}'' @ ''.auth0.com/*'' \<or> x = ''{'' @ ''project_ref'' @ ''}'' @ ''.supabase.co/*''"
      by simp
    moreover have "list_all key_char ''instance''" "list_all key_char ''tenant''" "list_all key_char ''project_ref''" by (simp_all add: key_char_def)
    ultimately obtain k sfx where "x = ''{'' @ k @ ''}'' @ sfx" "k \<noteq> []" "list_all key_char k" "CHR ''{'' \<notin> set sfx" "hd sfx = CHR ''.''"
      by (elim disjE) (erule that; simp; fail)+
    then show ?thesis using x True expand_one by (metis option.inject)
  qed (use x in auto)
qed

text \<open>
  The comment on the label expression says ASCII letters and digits and at most 63 bytes.  Under case folding the class
  also has the long s and the Kelvin sign, and the bound counts runes.
\<close>

lemma kelvin_label_accepted:
  "tenantDNSLabelRe (concat (replicate 63 [CHR 0xE2, CHR 0x84, CHR 0xAA])) \<and> length (concat (replicate 63 [CHR 0xE2, CHR 0x84, CHR 0xAA])) = 189"
proof -
  have "runes ([CHR 0xE2, CHR 0x84, CHR 0xAA] @ s) = [CHR 0xE2, CHR 0x84, CHR 0xAA] # runes s" for s
    by (subst runes.simps) (simp add: rune_size_def in_range_def)
  then have "runes (concat (replicate n [CHR 0xE2, CHR 0x84, CHR 0xAA])) = replicate n [CHR 0xE2, CHR 0x84, CHR 0xAA]" for n
    by (induction n) (simp_all add: runes.simps [of "[]"])
  moreover have "length (concat (replicate n [CHR 0xE2, CHR 0x84, CHR 0xAA])) = 3 * n" for n by (induction n) simp_all
  ultimately show ?thesis by (simp add: tenantDNSLabelRe_def label_rune_def list_all_iff)
qed

end
