(* ===== verification/Totp.thy ===== *)
theory Totp
  imports Clock_Text Netip Reflect_Guard Vault_Crypto
begin

text \<open>
  One-time passwords: \<^verbatim>\<open>internal/totp/totp.go\<close>.  Unpadded base32, SHA-1 and HMAC of the standard
  library are modelled; the bcrypt package is a pair of arguments, one that hashes (given its
  random salt) and one that compares.  Instants are Unix seconds, negative before 1970; the
  random source is given by what it returns to each read.
\<close>

section \<open>Base32 without padding\<close>

definition b32_alphabet :: string where
  "b32_alphabet = ''ABCDEFGHIJKLMNOPQRSTUVWXYZ234567''"

definition b32_digits :: "nat \<Rightarrow> nat \<Rightarrow> nat \<Rightarrow> nat \<Rightarrow> nat \<Rightarrow> nat list" where
  "b32_digits a b c d e =
     [a div 8, a mod 8 * 4 + b div 64, b div 2 mod 32, b mod 2 * 16 + c div 16,
      c mod 16 * 2 + d div 128, d div 4 mod 32, d mod 4 * 8 + e div 32, e mod 32]"

definition b32_group :: "nat \<Rightarrow> nat \<Rightarrow> nat \<Rightarrow> nat \<Rightarrow> nat \<Rightarrow> string" where
  "b32_group a b c d e = map (\<lambda>i. b32_alphabet ! i) (b32_digits a b c d e)"

fun b32_encode :: "bytes \<Rightarrow> string" where
  "b32_encode [] = []"
| "b32_encode [a] = take 2 (b32_group (byte_val a) 0 0 0 0)"
| "b32_encode [a, b] = take 4 (b32_group (byte_val a) (byte_val b) 0 0 0)"
| "b32_encode [a, b, c] = take 5 (b32_group (byte_val a) (byte_val b) (byte_val c) 0 0)"
| "b32_encode [a, b, c, d] = take 7 (b32_group (byte_val a) (byte_val b) (byte_val c) (byte_val d) 0)"
| "b32_encode (a # b # c # d # e # r) =
     b32_group (byte_val a) (byte_val b) (byte_val c) (byte_val d) (byte_val e) @ b32_encode r"

text \<open>
  The decoder fills a buffer of eight digits.  At the end of the input the buffer may be short; a
  length of 1, 3 or 6 then gives no byte and no error.  The padding character of an encoding
  without padding is \<open>-1\<close>, whose low byte is \<open>0xFF\<close>: that byte ends the input as padding would.
\<close>

fun b32_read :: "nat list \<Rightarrow> string \<Rightarrow> (nat list \<times> string \<times> bool) option" where
  "b32_read ds [] = Some (ds, [], length ds \<noteq> 8)"
| "b32_read ds (c # r) =
     (if length ds = 8 then Some (ds, c # r, False)
      else if c = CHR 0xFF \<and> 2 \<le> length ds \<and> length r < 8
      then (if length r + length ds < 7 \<or> (\<exists>x \<in> set (take (7 - length ds) r). x \<noteq> CHR 0xFF) \<or> length ds \<in> {1, 3, 6}
            then None else Some (ds, r, True))
      else case digit_val b32_alphabet c of
             None \<Rightarrow> None
           | Some v \<Rightarrow> b32_read (ds @ [v]) r)"

definition b32_bytes :: "nat list \<Rightarrow> bytes" where
  "b32_bytes ds =
     (let g = (\<lambda>i. if i < length ds then ds ! i else 0);
          n = (if length ds = 8 then 5 else if length ds = 7 then 4 else if length ds = 5 then 3
               else if length ds = 4 then 2 else if length ds = 2 then 1 else 0)
      in take n (map char_of
           [g 0 * 8 + g 1 div 4, g 1 * 64 + g 2 * 2 + g 3 div 16, g 3 * 16 + g 4 div 2,
            g 4 * 128 + g 5 * 4 + g 6 div 8, g 6 * 32 + g 7]))"

lemma b32_read_shorter: "b32_read ds s = Some (ds', r, e) \<Longrightarrow> length r \<le> length s \<and> (length ds \<noteq> 8 \<and> s \<noteq> [] \<longrightarrow> length r < length s)"
proof (induction ds s rule: b32_read.induct)
  case (2 ds c r0)
  show ?case
  proof (cases "length ds = 8 \<or> (c = CHR 0xFF \<and> 2 \<le> length ds \<and> length r0 < 8)")
    case True
    then show ?thesis using "2.prems" by (auto split: if_splits)
  next
    case False
    then obtain v where "digit_val b32_alphabet c = Some v" "b32_read (ds @ [v]) r0 = Some (ds', r, e)"
      using "2.prems" by (auto split: if_splits option.splits)
    then show ?thesis using "2.IH" False by force
  qed
qed simp

function b32_decode_digits :: "string \<Rightarrow> bytes option" where
  "b32_decode_digits s =
     (if s = [] then Some []
      else case b32_read [] s of
             None \<Rightarrow> None
           | Some (ds, r, ended) \<Rightarrow>
               if ended then Some (b32_bytes ds) else map_option (\<lambda>b. b32_bytes ds @ b) (b32_decode_digits r))"
  by pat_completeness auto

termination b32_decode_digits
  by (relation "measure length") (use b32_read_shorter in fastforce)+

declare b32_decode_digits.simps [simp del]

definition b32_decode :: "string \<Rightarrow> bytes option" where
  "b32_decode s = b32_decode_digits (filter (\<lambda>c. \<not> is_newline c) s)"

section \<open>SHA-1 and HMAC\<close>

definition be_bytes :: "nat \<Rightarrow> int \<Rightarrow> bytes" where
  "be_bytes n v = map (\<lambda>i. char_of (v div 256 ^ (n - 1 - i))) [0..<n]"

definition be_int :: "bytes \<Rightarrow> int" where
  "be_int b = foldl (\<lambda>v c. v * 256 + of_char c) 0 b"

type_synonym sha1_state = "32 word \<times> 32 word \<times> 32 word \<times> 32 word \<times> 32 word"

definition sha1_init :: sha1_state where
  "sha1_init = (0x67452301, 0xEFCDAB89, 0x98BADCFE, 0x10325476, 0xC3D2E1F0)"

definition sha1_pad :: "bytes \<Rightarrow> bytes" where
  "sha1_pad m = m @ [CHR 0x80] @ replicate ((119 - length m mod 64) mod 64) (CHR 0x00) @ be_bytes 8 (8 * int (length m))"

fun sha1_words :: "nat \<Rightarrow> 32 word list \<Rightarrow> 32 word list" where
  "sha1_words 0 ws = ws"
| "sha1_words (Suc k) ws =
     (let n = length ws
      in sha1_words k (ws @ [word_rotl 1 (xor (xor (ws ! (n - 3)) (ws ! (n - 8))) (xor (ws ! (n - 14)) (ws ! (n - 16))))]))"

definition sha1_f :: "nat \<Rightarrow> 32 word \<Rightarrow> 32 word \<Rightarrow> 32 word \<Rightarrow> 32 word" where
  "sha1_f t b c d =
     (if t < 20 then or (and b c) (and (not b) d)
      else if 40 \<le> t \<and> t < 60 then or (or (and b c) (and b d)) (and c d)
      else xor (xor b c) d)"

definition sha1_k :: "nat \<Rightarrow> 32 word" where
  "sha1_k t = (if t < 20 then 0x5A827999 else if t < 40 then 0x6ED9EBA1 else if t < 60 then 0x8F1BBCDC else 0xCA62C1D6)"

fun sha1_round :: "nat \<times> 32 word \<Rightarrow> sha1_state \<Rightarrow> sha1_state" where
  "sha1_round (t, w) (a, b, c, d, e) =
     (word_rotl 5 a + sha1_f t b c d + e + sha1_k t + w, a, word_rotl 30 b, c, d)"

fun sha1_add :: "sha1_state \<Rightarrow> sha1_state \<Rightarrow> sha1_state" where
  "sha1_add (a, b, c, d, e) (a', b', c', d', e') = (a + a', b + b', c + c', d + d', e + e')"

definition sha1_block :: "bytes \<Rightarrow> sha1_state \<Rightarrow> sha1_state" where
  "sha1_block blk h =
     (let ws = sha1_words 64 (map (\<lambda>i. word_of_int (be_int (take 4 (drop (4 * i) blk)))) [0..<16])
      in sha1_add h (fold sha1_round (enumerate 0 ws) h))"

fun sha1_digest :: "sha1_state \<Rightarrow> bytes" where
  "sha1_digest (a, b, c, d, e) = concat (map (\<lambda>w. be_bytes 4 (uint w)) [a, b, c, d, e])"

definition sha1 :: "bytes \<Rightarrow> bytes" where
  "sha1 m = (let p = sha1_pad m
             in sha1_digest (fold sha1_block (map (\<lambda>i. take 64 (drop (64 * i) p)) [0..<length p div 64]) sha1_init))"

definition hmac_sha1 :: "bytes \<Rightarrow> bytes \<Rightarrow> bytes" where
  "hmac_sha1 key msg =
     (let k = (if length key > 64 then sha1 key else key);
          k64 = k @ replicate (64 - length k) (CHR 0x00)
      in sha1 (map (xor_byte (CHR 0x5C)) k64 @ sha1 (map (xor_byte (CHR 0x36)) k64 @ msg)))"

section \<open>Codes\<close>

definition timeStep :: int where "timeStep = 30"
definition codeDigits :: nat where "codeDigits = 6"
definition recoveryCodeCount :: nat where "recoveryCodeCount = 8"
definition recoveryCodeBytes :: nat where "recoveryCodeBytes = 8"
definition modulus :: int where "modulus = 10 ^ codeDigits"

text \<open>Division of signed integers truncates toward zero.\<close>

definition time_counter :: "int \<Rightarrow> int" where
  "time_counter t = (if t < 0 then - (- t div timeStep) else t div timeStep)"

definition GenerateSecret :: "bytes \<Rightarrow> string option" where
  "GenerateSecret rnd = map_option b32_encode (read_full rnd 20)"

text \<open>The four bytes that the low half of the last byte of the digest selects, less the top bit.\<close>

definition truncated_word :: "bytes \<Rightarrow> 32 word" where
  "truncated_word h =
     (let offset = byte_val (last h) mod 16
      in and (word_of_int (be_int (take 4 (drop offset h)))) 0x7FFFFFFF)"

definition GenerateCode :: "string \<Rightarrow> int \<Rightarrow> string option" where
  "GenerateCode secret t =
     (case b32_decode secret of
        None \<Rightarrow> None
      | Some key \<Rightarrow>
         (let counter = (word_of_int (time_counter t) :: 64 word);
              h = hmac_sha1 key (be_bytes 8 (uint counter));
              code = truncated_word h mod word_of_int modulus
          in Some (pad codeDigits (unat code))))"

fun match_steps :: "string \<Rightarrow> string \<Rightarrow> int \<Rightarrow> int list \<Rightarrow> int option" where
  "match_steps secret code now [] = None"
| "match_steps secret code now (offset # offsets) =
     (let t = now + offset * timeStep
      in if GenerateCode secret t = Some code then Some (time_counter t)
         else match_steps secret code now offsets)"

definition ValidateCodeStep :: "int \<Rightarrow> string \<Rightarrow> string \<Rightarrow> int option" where
  "ValidateCodeStep now secret code = match_steps secret code now [0, -1]"

definition ValidateCode :: "int \<Rightarrow> string \<Rightarrow> string \<Rightarrow> bool" where
  "ValidateCode now secret code \<longleftrightarrow> ValidateCodeStep now secret code \<noteq> None"

definition GenerateOTPAuthURI :: "string \<Rightarrow> string \<Rightarrow> string \<Rightarrow> string" where
  "GenerateOTPAuthURI addr issuer secret =
     ''otpauth://totp/'' @ path_escape issuer @ '':'' @ path_escape addr @ ''?secret='' @ secret @
     ''&issuer='' @ query_escape issuer @ ''&algorithm=SHA1&digits=6&period=30''"

section \<open>Recovery codes\<close>

record bcrypt_lib =
  bcrypt_hash :: "bytes \<Rightarrow> string \<Rightarrow> string option"
  bcrypt_matches :: "string \<Rightarrow> string \<Rightarrow> bool"

text \<open>The random source: the bytes of the i-th code and the salt of its hash.\<close>

fun recovery_loop :: "bcrypt_lib \<Rightarrow> (nat \<Rightarrow> bytes \<times> bytes) \<Rightarrow> nat \<Rightarrow> nat \<Rightarrow> (string list \<times> string list) option" where
  "recovery_loop bc rnd i 0 = Some ([], [])"
| "recovery_loop bc rnd i (Suc n) =
     (case read_full (fst (rnd i)) recoveryCodeBytes of
        None \<Rightarrow> None
      | Some buf \<Rightarrow>
         (case bcrypt_hash bc (snd (rnd i)) (hex_encode buf) of
            None \<Rightarrow> None
          | Some hashed \<Rightarrow>
             (case recovery_loop bc rnd (Suc i) n of
                None \<Rightarrow> None
              | Some (ps, hs) \<Rightarrow> Some (hex_encode buf # ps, hashed # hs))))"

definition GenerateRecoveryCodes :: "bcrypt_lib \<Rightarrow> (nat \<Rightarrow> bytes \<times> bytes) \<Rightarrow> (string list \<times> string list) option" where
  "GenerateRecoveryCodes bc rnd = recovery_loop bc rnd 0 recoveryCodeCount"

fun ValidateRecoveryCode :: "bcrypt_lib \<Rightarrow> string list \<Rightarrow> string \<Rightarrow> string list \<times> bool" where
  "ValidateRecoveryCode bc [] inputCode = ([], False)"
| "ValidateRecoveryCode bc (h # hs) inputCode =
     (if bcrypt_matches bc h inputCode then (hs, True)
      else (let (remaining, valid) = ValidateRecoveryCode bc hs inputCode in (h # remaining, valid)))"

section \<open>What the codes are\<close>

lemma b32_alphabet_props: "distinct b32_alphabet" "length b32_alphabet = 32" "CHR 0xFF \<notin> set b32_alphabet"
  "CHR 0x0A \<notin> set b32_alphabet" "CHR 0x0D \<notin> set b32_alphabet"
  by (simp_all add: b32_alphabet_def)

lemma b32_digit: "i < 32 \<Longrightarrow> digit_val b32_alphabet (b32_alphabet ! i) = Some i"
  unfolding digit_val_def using b32_alphabet_props(1,2)
  by (intro map_of_is_SomeI) (auto simp: map_fst_zip_take set_zip intro!: exI [of _ i])

lemma b32_not_pad: "i < 32 \<Longrightarrow> b32_alphabet ! i \<noteq> CHR 0xFF"
  using b32_alphabet_props(2,3) by (metis nth_mem)

lemma b32_read_digits:
  "\<forall>i \<in> set is. i < 32 \<Longrightarrow> length ds + length is \<le> 8 \<Longrightarrow> length ds + length is = 8 \<or> r = [] \<Longrightarrow>
   b32_read ds (map (\<lambda>i. b32_alphabet ! i) is @ r) = Some (ds @ is, r, length ds + length is \<noteq> 8)"
proof (induction "is" arbitrary: ds)
  case Nil
  then show ?case by (cases r) auto
next
  case (Cons i "is")
  then show ?case by (simp add: b32_digit b32_not_pad)
qed

lemma two_part_less:
  fixes p :: nat
  assumes "p < m" "q < n"
  shows "p * n + q < m * n"
proof -
  have "p * n + q < Suc p * n" using assms(2) by simp
  also have "\<dots> \<le> m * n" using assms(1) by (intro mult_right_mono) simp_all
  finally show ?thesis .
qed

lemma b32_digits_bound:
  assumes "a < 256" "b < 256" "c < 256" "d < 256" "e < 256"
  shows "\<forall>i \<in> set (b32_digits a b c d e). i < 32"
proof -
  have "a div 8 < 32" "b div 64 < 4" "c div 16 < 16" "d div 128 < 2" "e div 32 < 8"
    using assms by (simp_all add: less_mult_imp_div_less)
  then show ?thesis
    using two_part_less [of "a mod 8" 8 "b div 64" 4] two_part_less [of "b mod 2" 2 "c div 16" 16]
      two_part_less [of "c mod 16" 16 "d div 128" 2] two_part_less [of "d mod 4" 4 "e div 32" 8]
    by (simp add: b32_digits_def)
qed

lemma three_parts:
  fixes b :: nat
  shows "b div (m * n) * (m * n) + b div m mod n * m + b mod m = b"
proof -
  have "b div (m * n) * n + b div m mod n = b div m" by (simp add: div_mult2_eq)
  then have "(b div (m * n) * n + b div m mod n) * m + b mod m = b" by simp
  then show ?thesis by (simp add: algebra_simps)
qed

lemma b32_digits_join:
  fixes a b c d e :: nat
  assumes "b < 256" "c < 256" "d < 256" "e < 256"
  shows "a div 8 * 8 + (a mod 8 * 4 + b div 64) div 4 = a"
    "((a mod 8 * 4 + b div 64) * 64 + b div 2 mod 32 * 2 + (b mod 2 * 16 + c div 16) div 16) mod 256 = b"
    "((b mod 2 * 16 + c div 16) * 16 + (c mod 16 * 2 + d div 128) div 2) mod 256 = c"
    "((c mod 16 * 2 + d div 128) * 128 + d div 4 mod 32 * 4 + (d mod 4 * 8 + e div 32) div 8) mod 256 = d"
    "((d mod 4 * 8 + e div 32) * 32 + e mod 32) mod 256 = e"
proof -
  have hi: "b div 64 < 4" "c div 16 < 16" "d div 128 < 2" "e div 32 < 8"
    using assms by (simp_all add: less_mult_imp_div_less)
  have drop_hi: "(a mod 8 * 4 + b div 64) div 4 = a mod 8" "(b mod 2 * 16 + c div 16) div 16 = b mod 2"
      "(c mod 16 * 2 + d div 128) div 2 = c mod 16" "(d mod 4 * 8 + e div 32) div 8 = d mod 4"
    using hi by simp_all
  show "a div 8 * 8 + (a mod 8 * 4 + b div 64) div 4 = a" by (simp add: drop_hi)
  have eqs: "(a mod 8 * 4 + b div 64) * 64 + b div 2 mod 32 * 2 + b mod 2 = a mod 8 * 256 + b"
      "(b mod 2 * 16 + c div 16) * 16 + c mod 16 = b mod 2 * 256 + c"
      "(c mod 16 * 2 + d div 128) * 128 + d div 4 mod 32 * 4 + d mod 4 = c mod 16 * 256 + d"
      "(d mod 4 * 8 + e div 32) * 32 + e mod 32 = d mod 4 * 256 + e"
    using three_parts [of b 2 32] three_parts [of d 4 32] by (simp_all add: algebra_simps)
  show "((a mod 8 * 4 + b div 64) * 64 + b div 2 mod 32 * 2 + (b mod 2 * 16 + c div 16) div 16) mod 256 = b"
    unfolding drop_hi eqs using assms by simp
  show "((b mod 2 * 16 + c div 16) * 16 + (c mod 16 * 2 + d div 128) div 2) mod 256 = c"
    unfolding drop_hi eqs using assms by simp
  show "((c mod 16 * 2 + d div 128) * 128 + d div 4 mod 32 * 4 + (d mod 4 * 8 + e div 32) div 8) mod 256 = d"
    unfolding drop_hi eqs using assms by simp
  show "((d mod 4 * 8 + e div 32) * 32 + e mod 32) mod 256 = e"
    unfolding drop_hi eqs using assms by simp
qed

lemma char_of_wrap: "n mod 256 = byte_val c \<Longrightarrow> char_of n = c"
  by (metis char_of_mod_256 char_of_char)

lemma b32_bytes_group:
  "b32_bytes (b32_digits (byte_val a) (byte_val b) (byte_val c) (byte_val d) (byte_val e)) = [a, b, c, d, e]"
proof -
  have "b32_bytes (b32_digits (byte_val a) (byte_val b) (byte_val c) (byte_val d) (byte_val e)) =
    map char_of
     [byte_val a div 8 * 8 + (byte_val a mod 8 * 4 + byte_val b div 64) div 4,
      (byte_val a mod 8 * 4 + byte_val b div 64) * 64 + byte_val b div 2 mod 32 * 2 + (byte_val b mod 2 * 16 + byte_val c div 16) div 16,
      (byte_val b mod 2 * 16 + byte_val c div 16) * 16 + (byte_val c mod 16 * 2 + byte_val d div 128) div 2,
      (byte_val c mod 16 * 2 + byte_val d div 128) * 128 + byte_val d div 4 mod 32 * 4 + (byte_val d mod 4 * 8 + byte_val e div 32) div 8,
      (byte_val d mod 4 * 8 + byte_val e div 32) * 32 + byte_val e mod 32]"
    by (simp only: b32_bytes_def b32_digits_def Let_def) simp
  also have "\<dots> = [a, b, c, d, e]"
    by (simp only: list.map b32_digits_join(1) [OF byte_val_less byte_val_less byte_val_less byte_val_less] char_of_char
          char_of_wrap [OF b32_digits_join(2) [OF byte_val_less byte_val_less byte_val_less byte_val_less]]
          char_of_wrap [OF b32_digits_join(3) [OF byte_val_less byte_val_less byte_val_less byte_val_less]]
          char_of_wrap [OF b32_digits_join(4) [OF byte_val_less byte_val_less byte_val_less byte_val_less]]
          char_of_wrap [OF b32_digits_join(5) [OF byte_val_less byte_val_less byte_val_less byte_val_less]])
  finally show ?thesis .
qed

text \<open>A short group is a full one whose missing digits are zero.\<close>

lemma b32_bytes_short:
  assumes "ds = [x0, x1, x2, x3, x4, x5, x6, x7]" "(k, n) \<in> {(7, 4), (5, 3), (4, 2), (2, 1)}"
    "\<forall>i \<in> set (drop k ds). i = 0"
  shows "b32_bytes (take k ds) = take n (b32_bytes ds)"
  using assms by (auto simp: b32_bytes_def nth_Cons')

lemma b32_last_group:
  assumes "\<forall>i \<in> set is. i < 32" "0 < length is" "length is < 8"
  shows "b32_decode_digits (map (\<lambda>i. b32_alphabet ! i) is) = Some (b32_bytes is)"
  using b32_read_digits [of "is" "[]" "[]"] assms by (auto simp: b32_decode_digits.simps)

lemma b32_full_group:
  assumes "\<forall>i \<in> set is. i < 32" "length is = 8"
  shows "b32_decode_digits (map (\<lambda>i. b32_alphabet ! i) is @ r) = map_option (\<lambda>b. b32_bytes is @ b) (b32_decode_digits r)"
proof -
  have "is \<noteq> []" using assms by auto
  then show ?thesis
    using b32_read_digits [of "is" "[]" r] assms
    by (simp add: b32_decode_digits.simps [of "map (\<lambda>i. b32_alphabet ! i) is @ r"])
qed

lemma b32_short_group:
  assumes "(k, n) \<in> {(7, 4), (5, 3), (4, 2), (2, 1)}" "\<forall>x \<in> set (drop k (b32_digits a b c d e)). x = 0"
    "a = byte_val a'" "b = byte_val b'" "c = byte_val c'" "d = byte_val d'" "e = byte_val e'"
  shows "b32_decode_digits (take k (b32_group a b c d e)) = Some (take n [a', b', c', d', e'])"
proof -
  let ?ds = "b32_digits a b c d e"
  have "\<forall>i \<in> set (take k ?ds). i < 32"
    using b32_digits_bound [of a b c d e] assms(3-7) by (auto dest!: in_set_takeD)
  moreover have "length ?ds = 8" by (simp add: b32_digits_def)
  ultimately have "b32_decode_digits (take k (b32_group a b c d e)) = Some (b32_bytes (take k ?ds))"
    using b32_last_group [of "take k ?ds"] assms(1) by (auto simp: b32_group_def take_map)
  also have "b32_bytes (take k ?ds) = take n (b32_bytes ?ds)"
    by (rule b32_bytes_short [OF b32_digits_def assms(1,2)])
  finally show ?thesis using assms(3-7) by (simp only: b32_bytes_group)
qed

lemma b32_dec_enc_digits: "b32_decode_digits (b32_encode b) = Some b"
proof (induction b rule: b32_encode.induct)
  case 1
  show ?case by (simp add: b32_decode_digits.simps)
next
  case (2 a)
  show ?case
    using b32_short_group [of 2 1 "byte_val a" 0 0 0 0 a "CHR 0x00" "CHR 0x00" "CHR 0x00" "CHR 0x00"] by (simp add: b32_digits_def)
next
  case (3 a b)
  show ?case
    using b32_short_group [of 4 2 "byte_val a" "byte_val b" 0 0 0 a b "CHR 0x00" "CHR 0x00" "CHR 0x00"] by (simp add: b32_digits_def)
next
  case (4 a b c)
  show ?case
    using b32_short_group [of 5 3 "byte_val a" "byte_val b" "byte_val c" 0 0 a b c "CHR 0x00" "CHR 0x00"] by (simp add: b32_digits_def)
next
  case (5 a b c d)
  show ?case
    using b32_short_group [of 7 4 "byte_val a" "byte_val b" "byte_val c" "byte_val d" 0 a b c d "CHR 0x00"] by (simp add: b32_digits_def)
next
  case (6 a b c d e r)
  let ?ds = "b32_digits (byte_val a) (byte_val b) (byte_val c) (byte_val d) (byte_val e)"
  have "b32_decode_digits (map (\<lambda>i. b32_alphabet ! i) ?ds @ b32_encode r) =
      map_option (\<lambda>b. b32_bytes ?ds @ b) (b32_decode_digits (b32_encode r))"
    using b32_digits_bound [of "byte_val a" "byte_val b" "byte_val c" "byte_val d" "byte_val e"]
    by (intro b32_full_group) (simp_all, simp add: b32_digits_def)
  then show ?case using 6 by (simp add: b32_group_def b32_bytes_group)
qed

lemma b32_nth_set: "i < 32 \<Longrightarrow> b32_alphabet ! i \<in> set b32_alphabet"
  using b32_alphabet_props(2) by simp

lemma b32_group_set:
  "set (b32_group (byte_val a) (byte_val b) (byte_val c) (byte_val d) (byte_val e)) \<subseteq> set b32_alphabet"
  using b32_digits_bound [of "byte_val a" "byte_val b" "byte_val c" "byte_val d" "byte_val e"]
  by (auto simp: b32_group_def intro: b32_nth_set)

lemma b32_encode_set: "set (b32_encode b) \<subseteq> set b32_alphabet"
proof (induction b rule: b32_encode.induct)
  case (2 a)
  then show ?case using b32_group_set [of a "CHR 0x00" "CHR 0x00" "CHR 0x00" "CHR 0x00"] set_take_subset by fastforce
next
  case (3 a b)
  then show ?case using b32_group_set [of a b "CHR 0x00" "CHR 0x00" "CHR 0x00"] set_take_subset by fastforce
next
  case (4 a b c)
  then show ?case using b32_group_set [of a b c "CHR 0x00" "CHR 0x00"] set_take_subset by fastforce
next
  case (5 a b c d)
  then show ?case using b32_group_set [of a b c d "CHR 0x00"] set_take_subset by fastforce
next
  case (6 a b c d e r)
  then show ?case using b32_group_set [of a b c d e] by simp
qed simp

lemma b32_decode_encode: "b32_decode (b32_encode b) = Some b"
proof -
  have "filter (\<lambda>c. \<not> is_newline c) (b32_encode b) = b32_encode b"
    using b32_encode_set [of b] b32_alphabet_props(4,5) by (auto simp: filter_id_conv is_newline_def)
  then show ?thesis by (simp add: b32_decode_def b32_dec_enc_digits)
qed

interpretation b32: codec b32_encode b32_decode "set b32_alphabet"
  using b32_decode_encode b32_encode_set by unfold_locales

lemma sha1_length [simp]: "length (sha1 m) = 20"
proof -
  have "length (sha1_digest h) = 20" for h by (cases h) (simp add: be_bytes_def)
  then show ?thesis by (simp add: sha1_def Let_def)
qed

lemma hmac_sha1_length [simp]: "length (hmac_sha1 key msg) = 20"
  by (simp add: hmac_sha1_def Let_def)

text \<open>The slice of the digest that is truncated never runs past its end, whatever its last byte.\<close>

lemma truncation_in_range: "byte_val (last (hmac_sha1 key msg)) mod 16 + 4 \<le> length (hmac_sha1 key msg)"
  using mod_less_divisor [of 16 "byte_val (last (hmac_sha1 key msg))"] by (simp del: mod_less_divisor)

lemma pad_length [simp]: "length (pad w n) = w"
  by (induction w arbitrary: n) auto

lemma pad_digits: "list_all is_digit (pad w n)"
proof (induction w arbitrary: n)
  case (Suc w)
  have "n div 10 ^ w mod 10 < 10" by simp
  then have "48 + n div 10 ^ w mod 10 < 256" "48 + n div 10 ^ w mod 10 \<le> 57" by linarith+
  then show ?case using Suc by (simp add: is_digit_def)
qed simp

lemma pad_inject: "n < 10 ^ w \<Longrightarrow> m < 10 ^ w \<Longrightarrow> pad w n = pad w m \<Longrightarrow> n = m"
  by (metis nat_neq_iff text_less_pad text_less_asym)

lemma truncated_below: "unat (truncated_word h mod word_of_int modulus) < 10 ^ codeDigits"
  by (simp add: modulus_def codeDigits_def unat_mod)

lemma GenerateCode_digits:
  assumes "GenerateCode secret t = Some code"
  shows "length code = codeDigits" "list_all is_digit code"
  using assms by (auto simp: GenerateCode_def Let_def pad_digits split: option.splits)

lemma match_steps_Some:
  "match_steps secret code now offsets = Some k \<Longrightarrow>
   \<exists>off \<in> set offsets. GenerateCode secret (now + off * timeStep) = Some code \<and> k = time_counter (now + off * timeStep)"
  by (induction offsets) (auto simp: Let_def split: if_splits)

lemma match_steps_None:
  "match_steps secret code now offsets = None \<longleftrightarrow>
   (\<forall>off \<in> set offsets. GenerateCode secret (now + off * timeStep) \<noteq> Some code)"
  by (induction offsets) (auto simp: Let_def)

lemma time_counter_mono: "s \<le> t \<Longrightarrow> time_counter s \<le> time_counter t"
  by (auto simp: time_counter_def timeStep_def zdiv_mono1 intro: order.trans [of _ 0] pos_imp_zdiv_nonneg_iff [THEN iffD2])

lemma time_counter_steps:
  assumes "30 \<le> now"
  shows "time_counter now = now div 30" "time_counter (now - 30) = now div 30 - 1"
  using assms by (auto simp: time_counter_def timeStep_def)

lemma GenerateCode_step: "time_counter t = time_counter t' \<Longrightarrow> GenerateCode secret t = GenerateCode secret t'"
  unfolding GenerateCode_def by (rule arg_cong)

lemma ValidateCodeStep_code: "GenerateCode secret now = Some c \<Longrightarrow> ValidateCodeStep now secret c = Some (time_counter now)"
  by (simp add: ValidateCodeStep_def)

text \<open>
  A submitted code is accepted only as the code of the current or of the previous 30-second step, the step
  reported is the one whose code it is, and an accepted code is six decimal digits; the secret
  that enrolment generates decodes to the random bytes it was made from, so that for it some code is always
  accepted: the one the authenticator shows.
\<close>

theorem totp_window:
  assumes "30 \<le> now"
  shows "(ValidateCodeStep now secret code = Some k \<longrightarrow>
            (k = now div 30 \<or> k = now div 30 - 1) \<and> length code = 6 \<and> list_all is_digit code \<and>
            GenerateCode secret (30 * k) = Some code) \<and>
         (GenerateSecret rnd = Some secret \<longrightarrow>
            b32_decode secret = Some (take 20 rnd) \<and>
            (\<exists>c. GenerateCode secret now = Some c \<and> ValidateCodeStep now secret c = Some (now div 30)))"
proof (intro conjI impI)
  assume "ValidateCodeStep now secret code = Some k"
  then obtain off where off: "off \<in> set [0, -1]" "GenerateCode secret (now + off * 30) = Some code"
      "k = time_counter (now + off * 30)"
    using match_steps_Some unfolding ValidateCodeStep_def timeStep_def by blast
  then show k: "k = now div 30 \<or> k = now div 30 - 1" using time_counter_steps [OF assms] by auto
  show "length code = 6" "list_all is_digit code"
    using GenerateCode_digits [OF off(2)] by (simp_all add: codeDigits_def)
  have "0 \<le> k" using k assms by linarith
  then have "time_counter (30 * k) = k" by (simp add: time_counter_def timeStep_def)
  then show "GenerateCode secret (30 * k) = Some code"
    using off(2,3) GenerateCode_step [of "30 * k" "now + off * 30" secret] by simp
next
  assume "GenerateSecret rnd = Some secret"
  then have dec: "b32_decode secret = Some (take 20 rnd)"
    by (auto simp: GenerateSecret_def read_full_def b32.dec_enc split: if_splits)
  then show "b32_decode secret = Some (take 20 rnd)" .
  obtain c where "GenerateCode secret now = Some c" using dec by (simp add: GenerateCode_def Let_def)
  then show "\<exists>c. GenerateCode secret now = Some c \<and> ValidateCodeStep now secret c = Some (now div 30)"
    using ValidateCodeStep_code time_counter_steps(1) [OF assms] by auto
qed

theorem totp_window_witness:
  "\<exists>secret c. GenerateSecret ''12345678901234567890'' = Some secret \<and> GenerateCode secret 59 = Some c \<and>
     ValidateCodeStep 59 secret c = Some 1 \<and> length c = 6 \<and> list_all is_digit c"
proof -
  obtain secret where s: "GenerateSecret ''12345678901234567890'' = Some secret"
    by (simp add: GenerateSecret_def read_full_def)
  obtain c where c: "GenerateCode secret 59 = Some c" "ValidateCodeStep 59 secret c = Some 1"
    using totp_window [of 59 secret "[]" 0 "''12345678901234567890''"] s by auto
  then show ?thesis using totp_window [of 59 secret c 1 "[]"] s by auto
qed

section \<open>What a recovery code removes\<close>

lemma ValidateRecoveryCode_valid: "snd (ValidateRecoveryCode bc hs code) \<longleftrightarrow> (\<exists>h \<in> set hs. bcrypt_matches bc h code)"
  by (induction hs) (auto simp: case_prod_unfold)

lemma ValidateRecoveryCode_none: "\<forall>h \<in> set hs. \<not> bcrypt_matches bc h code \<Longrightarrow> ValidateRecoveryCode bc hs code = (hs, False)"
  by (induction hs) auto

lemma ValidateRecoveryCode_True:
  "ValidateRecoveryCode bc hs code = (r, True) \<Longrightarrow>
   \<exists>a h b. hs = a @ h # b \<and> r = a @ b \<and> bcrypt_matches bc h code \<and> (\<forall>x \<in> set a. \<not> bcrypt_matches bc x code)"
proof (induction hs arbitrary: r)
  case (Cons h hs)
  show ?case
  proof (cases "bcrypt_matches bc h code")
    case True
    then show ?thesis using Cons.prems by (intro exI [of _ "[]"] exI [of _ h] exI [of _ hs]) simp
  next
    case False
    then obtain r' where r': "ValidateRecoveryCode bc hs code = (r', True)" "r = h # r'"
      using Cons.prems by (auto split: prod.splits)
    then obtain a x b where "hs = a @ x # b" "r' = a @ b" "bcrypt_matches bc x code" "\<forall>y \<in> set a. \<not> bcrypt_matches bc y code"
      using Cons.IH by blast
    then show ?thesis using False r'(2) by (intro exI [of _ "h # a"] exI [of _ x] exI [of _ b]) simp
  qed
qed simp

lemma recovery_loop_Some:
  "recovery_loop bc rnd i n = Some (ps, hs) \<Longrightarrow>
   length ps = n \<and> length hs = n \<and>
   (\<forall>j < n. length (ps ! j) = 2 * recoveryCodeBytes \<and> bcrypt_hash bc (snd (rnd (i + j))) (ps ! j) = Some (hs ! j))"
proof (induction n arbitrary: i ps hs)
  case (Suc n)
  then obtain buf hashed ps' hs' where *:
      "read_full (fst (rnd i)) recoveryCodeBytes = Some buf" "bcrypt_hash bc (snd (rnd i)) (hex_encode buf) = Some hashed"
      "recovery_loop bc rnd (Suc i) n = Some (ps', hs')" "ps = hex_encode buf # ps'" "hs = hashed # hs'"
    by (auto split: option.splits)
  then show ?case
    using Suc.IH [OF *(3)] read_full_length [OF *(1)] by (auto simp: nth_Cons hex_encode_length split: nat.splits)
qed simp

end
