(* ===== verification/Scan_Text.thy ===== *)
theory Scan_Text
  imports Netip
begin

text \<open>
  The parts of package \<^verbatim>\<open>fmt\<close> the account handlers use: \<^verbatim>\<open>%d\<close> of \<^verbatim>\<open>Sprintf\<close> on natural numbers, and
  \<^verbatim>\<open>Sscanf\<close> with formats of literals and \<^verbatim>\<open>%d\<close>.  A verb skips white space first, in which a line
  feed is an error; what follows the last verb is not looked at.
\<close>

fun dec_text :: "nat \<Rightarrow> string" where
  "dec_text n = (if n < 10 then [] else dec_text (n div 10)) @ [char_of (48 + n mod 10)]"

declare dec_text.simps [simp del]

text \<open>The white space of Unicode beyond ASCII, in UTF-8.\<close>

definition wide_spaces :: "string list" where
  "wide_spaces =
     [[CHR 0xC2, CHR 0x85], [CHR 0xC2, CHR 0xA0], [CHR 0xE1, CHR 0x9A, CHR 0x80]] @
     map (\<lambda>n. [CHR 0xE2, CHR 0x80, char_of n]) ([0x80..<0x8B] @ [0xA8, 0xA9, 0xAF :: nat]) @
     [[CHR 0xE2, CHR 0x81, CHR 0x9F], [CHR 0xE3, CHR 0x80, CHR 0x80]]"

fun skip_space :: "string \<Rightarrow> string option" where
  "skip_space [] = Some []"
| "skip_space (c # s) =
     (if c = CHR 0x0A then None
      else if is_space c then skip_space s
      else case find (has_prefix (c # s)) wide_spaces of
             None \<Rightarrow> Some (c # s)
           | Some w \<Rightarrow> skip_space (drop (length w - 1) s))"

definition scan_digits :: "string \<Rightarrow> (int \<times> string) option" where
  "scan_digits s =
     (let ds = takeWhile is_digit s in if ds = [] then None else Some (dec_number ds, drop (length ds) s))"

definition scan_int :: "string \<Rightarrow> (int \<times> string) option" where
  "scan_int s =
     (case skip_space s of
        None \<Rightarrow> None
      | Some [] \<Rightarrow> None
      | Some (c # r) \<Rightarrow>
          (case scan_digits (if c \<in> {CHR ''+'', CHR ''-''} then r else c # r) of
             None \<Rightarrow> None
           | Some (n, rest) \<Rightarrow>
               (let v = (if c = CHR ''-'' then - n else n)
                in if - (2 ^ 63) \<le> v \<and> v < 2 ^ 63 then Some (v, rest) else None)))"

definition scan_uint :: "nat \<Rightarrow> string \<Rightarrow> (int \<times> string) option" where
  "scan_uint bits s =
     (case skip_space s of
        None \<Rightarrow> None
      | Some r \<Rightarrow>
          (case scan_digits r of
             None \<Rightarrow> None
           | Some (n, rest) \<Rightarrow> if n < 2 ^ bits then Some (n, rest) else None))"

definition scan_lit :: "string \<Rightarrow> string \<Rightarrow> string option" where
  "scan_lit lit s = (if has_prefix s lit then Some (drop (length lit) s) else None)"

lemma skip_space_id: "s \<noteq> [] \<Longrightarrow> is_digit (hd s) \<Longrightarrow> skip_space s = Some s"
proof (cases s)
  case (Cons c r)
  assume "is_digit (hd s)"
  then have d: "48 \<le> (of_char c :: nat)" "(of_char c :: nat) \<le> 57" using Cons by (auto simp: is_digit_def Let_def)
  then have "c \<noteq> CHR 0x0A" "c \<noteq> CHR 0xC2" "c \<noteq> CHR 0xE1" "c \<noteq> CHR 0xE2" "c \<noteq> CHR 0xE3" by auto
  moreover from this have "find (has_prefix (c # r)) wide_spaces = None"
    by (auto simp: find_None_iff wide_spaces_def has_prefix_def)
  ultimately show ?thesis using Cons d by (simp add: is_space_def)
qed simp

lemma scan_digits_app:
  "ds \<noteq> [] \<Longrightarrow> list_all is_digit ds \<Longrightarrow> r = [] \<or> \<not> is_digit (hd r) \<Longrightarrow> scan_digits (ds @ r) = Some (dec_number ds, r)"
  by (cases r) (auto simp: scan_digits_def Let_def list_all_iff takeWhile_append takeWhile_eq_all_conv [THEN iffD2])

lemma dec_text_digits: "dec_text n \<noteq> [] \<and> list_all is_digit (dec_text n)"
proof (induction n rule: dec_text.induct)
  case (1 n)
  have "n mod 10 < 10" by simp
  then have "48 + n mod 10 \<le> 57" by linarith
  then have "is_digit (char_of (48 + n mod 10))" by (simp add: is_digit_def)
  then show ?case using 1 by (subst (1 2) dec_text.simps) auto
qed


lemma dec_number_text: "dec_number (dec_text n) = int n"
proof (induction n rule: dec_text.induct)
  case (1 n)
  have "n mod 10 < 10" by simp
  then have "48 + n mod 10 < 256" by linarith
  then have "int (of_char (char_of (48 + n mod 10) :: char)) = int (48 + n mod 10)" by simp
  then have "(of_char (char_of (48 + n mod 10) :: char) :: int) - 48 = int (n mod 10)"
    unfolding of_nat_of_char by (simp del: of_char_of)
  moreover have "int (n div 10) * 10 + int (n mod 10) = int n" by presburger
  ultimately show ?case using 1 by (subst dec_text.simps) (auto simp: dec_number_def)
qed

text \<open>A printed number is scanned back, whatever follows it, as long as it fits.\<close>

lemma skip_space_text: "skip_space (dec_text n @ r) = Some (dec_text n @ r)"
  using dec_text_digits [of n] by (intro skip_space_id) (cases "dec_text n"; auto)+

lemma scan_digits_text: "r = [] \<or> \<not> is_digit (hd r) \<Longrightarrow> scan_digits (dec_text n @ r) = Some (int n, r)"
  using dec_text_digits [of n] by (simp add: scan_digits_app dec_number_text)

lemma scan_uint_text:
  "int n < 2 ^ bits \<Longrightarrow> r = [] \<or> \<not> is_digit (hd r) \<Longrightarrow> scan_uint bits (dec_text n @ r) = Some (int n, r)"
  by (simp add: scan_uint_def skip_space_text scan_digits_text)

lemma scan_int_text:
  assumes "int n < 2 ^ 63" "r = [] \<or> \<not> is_digit (hd r)"
  shows "scan_int (dec_text n @ r) = Some (int n, r)"
proof -
  obtain c w where c: "dec_text n = c # w" "is_digit c" using dec_text_digits [of n] by (cases "dec_text n") auto
  then have "c \<noteq> CHR ''+''" "c \<noteq> CHR ''-''" by (auto simp: is_digit_def)
  then show ?thesis
    using c skip_space_text [of n r] scan_digits_text [OF assms(2), of n] assms(1) by (simp add: scan_int_def)
qed

end
