(* ===== verification/Password_Hash.thy ===== *)
theory Password_Hash
  imports Scan_Text Encoding
begin

text \<open>
  Password hashes: \<^verbatim>\<open>internal/passwordhash/passwordhash.go\<close>.  Argon2id and bcrypt are packages outside
  the repository and are arguments: the key derived from a password, a salt and the costs, and
  bcrypt's comparison, which gives match, mismatch or an error.  The slots that bound how many
  computations run at once are a counter; whether one came free within the wait is an argument
  of the operations.
\<close>

datatype compare_result = Match | Mismatch | CompareError

record hash_lib =
  argon2_idkey :: "string \<Rightarrow> bytes \<Rightarrow> int \<Rightarrow> int \<Rightarrow> int \<Rightarrow> nat \<Rightarrow> bytes"
  bcrypt_compare :: "string \<Rightarrow> string \<Rightarrow> compare_result"

datatype hash_error = ErrInvalidHash | ErrIncompatibleVersion | ErrBusy | EmptyPassword | SaltUnread | BcryptError

definition argonTime :: nat where "argonTime = 3"
definition argonMemory :: nat where "argonMemory = 65536"
definition argonThreads :: nat where "argonThreads = 4"
definition argonKeyLen :: nat where "argonKeyLen = 32"
definition argonSaltLen :: nat where "argonSaltLen = 16"
definition argon2_Version :: nat where "argon2_Version = 19"

definition Hash :: "hash_lib \<Rightarrow> bool \<Rightarrow> bytes \<Rightarrow> string \<Rightarrow> hash_error + string" where
  "Hash lib slot rnd password =
     (if \<not> slot then Inl ErrBusy
      else if password = [] then Inl EmptyPassword
      else case read_full rnd argonSaltLen of
             None \<Rightarrow> Inl SaltUnread
           | Some salt \<Rightarrow>
              (let key = argon2_idkey lib password salt (int argonTime) (int argonMemory) (int argonThreads) argonKeyLen
               in Inr (''$argon2id$v='' @ dec_text argon2_Version @
                       ''$m='' @ dec_text argonMemory @ '',t='' @ dec_text argonTime @ '',p='' @ dec_text argonThreads @
                       ''$'' @ rawstd64_encode salt @ ''$'' @ rawstd64_encode key)))"

definition isBcrypt :: "string \<Rightarrow> bool" where
  "isBcrypt encoded \<longleftrightarrow> has_prefix encoded ''$2a$'' \<or> has_prefix encoded ''$2b$'' \<or> has_prefix encoded ''$2y$''"

definition NeedsRehash :: "string \<Rightarrow> bool" where
  "NeedsRehash encoded \<longleftrightarrow> isBcrypt encoded"

text \<open>The formats \<^verbatim>\<open>v=%d\<close> and \<^verbatim>\<open>m=%d,t=%d,p=%d\<close>; the last value is a single byte.\<close>

definition scan_version :: "string \<Rightarrow> int option" where
  "scan_version s = (case scan_lit ''v='' s of None \<Rightarrow> None | Some r \<Rightarrow> map_option fst (scan_int r))"

definition scan_field :: "string \<Rightarrow> nat \<Rightarrow> string \<Rightarrow> (int \<times> string) option" where
  "scan_field lit bits s = (case scan_lit lit s of None \<Rightarrow> None | Some r \<Rightarrow> scan_uint bits r)"

definition scan_costs :: "string \<Rightarrow> (int \<times> int \<times> int) option" where
  "scan_costs s =
     (case scan_field ''m='' 32 s of
        None \<Rightarrow> None
      | Some (memory, s1) \<Rightarrow>
         (case scan_field '',t='' 32 s1 of
            None \<Rightarrow> None
          | Some (tm, s2) \<Rightarrow>
             (case scan_field '',p='' 8 s2 of
                None \<Rightarrow> None
              | Some (threads, _) \<Rightarrow> Some (memory, tm, threads))))"

definition verifyArgon2id :: "hash_lib \<Rightarrow> string \<Rightarrow> string \<Rightarrow> hash_error + bool" where
  "verifyArgon2id lib password encoded =
     (case split CHR ''$'' encoded of
        [_, _, part2, part3, part4, part5] \<Rightarrow>
          (case scan_version part2 of
             None \<Rightarrow> Inl ErrInvalidHash
           | Some version \<Rightarrow>
              if version \<noteq> int argon2_Version then Inl ErrIncompatibleVersion
              else case scan_costs part3 of
                     None \<Rightarrow> Inl ErrInvalidHash
                   | Some (memory, tm, threads) \<Rightarrow>
                      (case (rawstd64_decode part4, rawstd64_decode part5) of
                         (Some salt, Some want) \<Rightarrow>
                           Inr (argon2_idkey lib password salt tm memory threads (length want) = want)
                       | _ \<Rightarrow> Inl ErrInvalidHash))
      | _ \<Rightarrow> Inl ErrInvalidHash)"

definition Verify_Password :: "hash_lib \<Rightarrow> bool \<Rightarrow> string \<Rightarrow> string \<Rightarrow> hash_error + bool" where
  "Verify_Password lib slot password encoded =
     (if \<not> slot then Inl ErrBusy
      else if encoded = [] then Inl ErrInvalidHash
      else if isBcrypt encoded
      then (case bcrypt_compare lib encoded password of
              Match \<Rightarrow> Inr True
            | Mismatch \<Rightarrow> Inr False
            | CompareError \<Rightarrow> Inl BcryptError)
      else if \<not> has_prefix encoded ''$argon2id$'' then Inl ErrInvalidHash
      else verifyArgon2id lib password encoded)"

section \<open>The slots\<close>

definition hashSlots :: nat where "hashSlots = 4"

text \<open>With the computations in flight: a slot, or none within the wait.\<close>

definition acquireHashSlot :: "nat \<Rightarrow> nat option" where
  "acquireHashSlot inflight = (if inflight < hashSlots then Some (Suc inflight) else None)"

inductive slots_run :: "nat \<Rightarrow> bool" where
  idle: "slots_run 0"
| acquire: "slots_run n \<Longrightarrow> acquireHashSlot n = Some m \<Longrightarrow> slots_run m"
| release: "slots_run (Suc n) \<Longrightarrow> slots_run n"

lemma slots_bounded: "slots_run n \<Longrightarrow> n \<le> 4 \<and> n * argonMemory \<le> 262144"
  by (induction rule: slots_run.induct) (auto simp: acquireHashSlot_def hashSlots_def argonMemory_def split: if_splits)

section \<open>What a hash verifies\<close>

lemma split_single: "c \<notin> set s \<Longrightarrow> split c s = [s]"
  by (induction s) auto

lemma split_piece: "c \<notin> set u \<Longrightarrow> split c (u @ c # v) = u # split c v"
  by (induction u) auto

lemma rawstd64_no_dollar: "CHR ''$'' \<notin> set (rawstd64_encode b)"
  by (rule rawstd64.enc_avoids) (simp add: std_alphabet_def alnum62_def)

definition params_text :: string where
  "params_text = ''m='' @ dec_text argonMemory @ '',t='' @ dec_text argonTime @ '',p='' @ dec_text argonThreads"

lemmas argon_defs = argonTime_def argonMemory_def argonThreads_def argonKeyLen_def argon2_Version_def

lemma params_text_code: "params_text = ''m=65536,t=3,p=4''" "dec_text argon2_Version = ''19''"
  by (simp_all add: params_text_def argon_defs dec_text.simps [of "numeral _"] dec_text.simps [of "Suc 0"] char_of_def bit_0)

lemma scan_field_text:
  "int n < 2 ^ bits \<Longrightarrow> r = [] \<or> \<not> is_digit (hd r) \<Longrightarrow> scan_field lit bits (lit @ dec_text n @ r) = Some (int n, r)"
  by (simp add: scan_field_def scan_lit_def has_prefix_def scan_uint_text)

lemma scan_params: "scan_costs params_text = Some (int argonMemory, int argonTime, int argonThreads)"
proof -
  have "scan_field ''m='' 32 params_text = Some (int argonMemory, '',t='' @ dec_text argonTime @ '',p='' @ dec_text argonThreads)"
    unfolding params_text_def by (rule scan_field_text) (simp_all add: argon_defs is_digit_def)
  moreover have "scan_field '',t='' 32 ('',t='' @ dec_text argonTime @ '',p='' @ dec_text argonThreads) =
      Some (int argonTime, '',p='' @ dec_text argonThreads)"
    by (rule scan_field_text) (simp_all add: argon_defs is_digit_def)
  moreover have "scan_field '',p='' 8 ('',p='' @ dec_text argonThreads @ []) = Some (int argonThreads, [])"
    by (rule scan_field_text) (simp_all add: argon_defs)
  ultimately show ?thesis by (simp add: scan_costs_def)
qed

lemma scan_version_text: "scan_version (''v='' @ dec_text argon2_Version) = Some (int argon2_Version)"
  using scan_int_text [of argon2_Version "[]"] by (simp add: scan_version_def scan_lit_def has_prefix_def argon_defs)

lemma Hash_text:
  assumes "Hash lib slot rnd p = Inr enc"
  obtains salt where "read_full rnd argonSaltLen = Some salt" "slot" "p \<noteq> []"
    "enc = ''$argon2id$v=19$m=65536,t=3,p=4$'' @ rawstd64_encode salt @ ''$'' @
       rawstd64_encode (argon2_idkey lib p salt (int argonTime) (int argonMemory) (int argonThreads) argonKeyLen)"
  using assms params_text_code unfolding params_text_def by (auto simp: Hash_def Let_def split: if_splits option.splits)

lemma split_encoded:
  "split CHR ''$'' (''$argon2id$v=19$m=65536,t=3,p=4$'' @ rawstd64_encode a @ ''$'' @ rawstd64_encode b) =
   [[], ''argon2id'', ''v=19'', ''m=65536,t=3,p=4'', rawstd64_encode a, rawstd64_encode b]"
  by (simp add: split_piece split_single rawstd64_no_dollar)

lemma Hash_verdict:
  assumes len: "\<And>q salt. length (argon2_idkey lib q salt (int argonTime) (int argonMemory) (int argonThreads) argonKeyLen) = argonKeyLen"
    and hash: "Hash lib slot rnd p = Inr enc"
  shows "Verify_Password lib True q enc =
      Inr (argon2_idkey lib q (take 16 rnd) 3 65536 4 32 = argon2_idkey lib p (take 16 rnd) 3 65536 4 32)" "\<not> isBcrypt enc"
proof -
  obtain salt where salt: "read_full rnd argonSaltLen = Some salt" and
    enc: "enc = ''$argon2id$v=19$m=65536,t=3,p=4$'' @ rawstd64_encode salt @ ''$'' @
       rawstd64_encode (argon2_idkey lib p salt (int argonTime) (int argonMemory) (int argonThreads) argonKeyLen)"
    using Hash_text [OF hash] by metis
  have bc: "\<not> isBcrypt enc" "has_prefix enc ''$argon2id$''" "enc \<noteq> []"
    unfolding enc by (simp_all add: isBcrypt_def has_prefix_def)
  have split_enc: "split CHR ''$'' enc = [[], ''argon2id'', ''v=19'', ''m=65536,t=3,p=4'', rawstd64_encode salt,
      rawstd64_encode (argon2_idkey lib p salt (int argonTime) (int argonMemory) (int argonThreads) argonKeyLen)]"
    unfolding enc by (rule split_encoded)
  have "salt = take 16 rnd" using salt by (auto simp: read_full_def argonSaltLen_def split: if_splits)
  then show "Verify_Password lib True q enc =
      Inr (argon2_idkey lib q (take 16 rnd) 3 65536 4 32 = argon2_idkey lib p (take 16 rnd) 3 65536 4 32)"
    using bc scan_params [unfolded params_text_code] scan_version_text [unfolded params_text_code] len [of p salt]
    by (simp add: Verify_Password_def verifyArgon2id_def split_enc rawstd64.dec_enc argon_defs)
  show "\<not> isBcrypt enc" by (rule bc(1))
qed

lemma Hash_verifies:
  assumes "\<And>q salt. length (argon2_idkey lib q salt (int argonTime) (int argonMemory) (int argonThreads) argonKeyLen) = argonKeyLen"
    and "Hash lib slot rnd p = Inr enc"
  shows "Verify_Password lib True p enc = Inr True"
  by (simp add: Hash_verdict(1) [OF assms])

text \<open>
  A password hash that was stored verifies exactly the passwords whose Argon2id key under the stored salt and
  costs is the stored key, the password itself among them; such a hash is not taken for a legacy
  one, and when no slot is free the answer is the busy error and not a verdict on the password.
\<close>

theorem password_roundtrip:
  assumes len: "\<And>q salt. length (argon2_idkey lib q salt (int argonTime) (int argonMemory) (int argonThreads) argonKeyLen) = argonKeyLen"
    and hash: "Hash lib slot rnd p = Inr enc"
  shows "(let key = (\<lambda>q. argon2_idkey lib q (take 16 rnd) 3 65536 4 32)
          in Verify_Password lib True q enc = Inr (key q = key p)) \<and>
         Verify_Password lib True p enc = Inr True \<and> \<not> NeedsRehash enc \<and>
         Verify_Password lib False q enc = Inl ErrBusy"
  using Hash_verdict [OF len hash] by (simp add: Let_def NeedsRehash_def Verify_Password_def)

definition sample_hash_lib :: hash_lib where
  "sample_hash_lib = \<lparr>argon2_idkey = (\<lambda>p salt _ _ _ n. take n (p @ salt @ replicate n CHR 0x00)), bcrypt_compare = (\<lambda>_ _. Mismatch)\<rparr>"

theorem password_roundtrip_witness:
  "\<exists>enc. Hash sample_hash_lib True ''0123456789abcdef'' ''open sesame'' = Inr enc \<and>
     Verify_Password sample_hash_lib True ''open sesame'' enc = Inr True \<and>
     Verify_Password sample_hash_lib True ''open sesamE'' enc = Inr False \<and> \<not> NeedsRehash enc"
proof -
  obtain enc where enc: "Hash sample_hash_lib True ''0123456789abcdef'' ''open sesame'' = Inr enc"
    by (simp add: Hash_def read_full_def argonSaltLen_def Let_def)
  then show ?thesis
    using password_roundtrip [of sample_hash_lib True "''0123456789abcdef''" "''open sesame''" enc "''open sesamE''"]
    by (auto simp: sample_hash_lib_def Let_def)
qed

end
