(* ===== verification/Accounts.thy ===== *)
theory Accounts
  imports Auth Collections Private_Access Totp Password_Hash Audit_Names
begin

text \<open>
  The tables behind the account handlers and the statements on them
  (\<^verbatim>\<open>internal/db/users.sql.go\<close>, \<^verbatim>\<open>sessions.sql.go\<close>, \<^verbatim>\<open>api_keys.sql.go\<close>, \<^verbatim>\<open>service_identities.sql.go\<close>), the
  settings they read (\<^verbatim>\<open>internal/handlers/settings.go\<close>), the validators of \<^verbatim>\<open>helpers.go\<close>, and the rows
  of the activity log without their free text (\<^verbatim>\<open>activity.go\<close>).

  The columns of \<^verbatim>\<open>users\<close> that only these handlers touch are a table of their own with the same
  keys, next to the store the rest of the program works on.  A statement that fails gives \<open>None\<close>.
\<close>

record account =
  password_hash :: string
  password_set :: int
  display_name :: "string option"
  totp_secret :: "string option"
  totp_recovery_codes :: "string option"
  totp_last_step :: "int option"
  created_at :: "int option"

record attempt_row =
  attempt_email :: string
  attempt_ip :: string
  attempt_success :: int
  attempt_scope :: string
  attempt_at :: int

record activity_row =
  act_user :: "string option"
  act_action :: string
  act_ip :: "string option"
  act_agent :: "string option"

record identity_row =
  identity_name :: string
  identity_owner :: "string option"
  identity_revoked_at :: "int option"

record account_db =
  base :: store
  accounts :: "(string \<times> account) list"
  attempts :: "attempt_row list"
  identities :: "(string \<times> identity_row) list"
  activity :: "activity_row list"

abbreviation broken :: "account_db \<Rightarrow> string \<Rightarrow> bool" where
  "broken db stmt \<equiv> fails (base db) stmt"

section \<open>Statements on users\<close>

text \<open>An update of one row: the new state, and the number of rows it affected.\<close>

definition update_account :: "string \<Rightarrow> string \<Rightarrow> (account \<Rightarrow> bool) \<Rightarrow> (account \<Rightarrow> account) \<Rightarrow> account_db \<Rightarrow> (account_db \<times> nat) option" where
  "update_account stmt uid P f db =
     (if broken db stmt then None
      else case map_of (accounts db) uid of
             Some a \<Rightarrow> if P a then Some (db\<lparr>accounts := sql_update uid f (accounts db)\<rparr>, 1) else Some (db, 0)
           | None \<Rightarrow> Some (db, 0))"

definition update_user :: "string \<Rightarrow> string \<Rightarrow> (user_row \<Rightarrow> user_row) \<Rightarrow> account_db \<Rightarrow> account_db option" where
  "update_user stmt uid f db =
     (if broken db stmt then None else Some (db\<lparr>base := (base db)\<lparr>users := sql_update uid f (users (base db))\<rparr>\<rparr>))"

definition fetch_account :: "account_db \<Rightarrow> string \<Rightarrow> string \<Rightarrow> account fetched" where
  "fetch_account db stmt uid = fetch (base db) stmt (map_of (accounts db) uid)"

definition null_text :: "string option \<Rightarrow> string" where
  "null_text v = (case v of Some x \<Rightarrow> x | None \<Rightarrow> [])"

definition CASRecoveryCodes :: "string \<Rightarrow> string \<Rightarrow> string \<Rightarrow> account_db \<Rightarrow> (account_db \<times> nat) option" where
  "CASRecoveryCodes uid codes expected =
     update_account ''CASRecoveryCodes'' uid (\<lambda>a. null_text (totp_recovery_codes a) = expected)
       (\<lambda>a. a\<lparr>totp_recovery_codes := Some codes\<rparr>)"

definition ClaimTOTPStep :: "string \<Rightarrow> int \<Rightarrow> account_db \<Rightarrow> (account_db \<times> nat) option" where
  "ClaimTOTPStep uid step =
     update_account ''ClaimTOTPStep'' uid (\<lambda>a. case totp_last_step a of None \<Rightarrow> True | Some l \<Rightarrow> l < step)
       (\<lambda>a. a\<lparr>totp_last_step := Some step\<rparr>)"

definition CountUsers :: "account_db \<Rightarrow> nat option" where
  "CountUsers db = (if broken db ''CountUsers'' then None else Some (length (users (base db))))"

text \<open>The first administrator: only into an empty table.  The identifier is drawn by the database.\<close>

definition CreateFirstAdmin :: "int \<Rightarrow> string \<Rightarrow> string \<Rightarrow> string \<Rightarrow> string option \<Rightarrow> account_db \<Rightarrow> account_db fetched" where
  "CreateFirstAdmin t uid addr hash nm db =
     (if broken db ''CreateFirstAdmin'' then DBError
      else if users (base db) \<noteq> [] then ErrNoRows
      else Row (db\<lparr>base := (base db)\<lparr>users := [(uid, \<lparr>email = addr, role = RoleAdmin, disabled = 0, sessions_valid_after = 0, totp_enabled = 0\<rparr>)]\<rparr>,
                   accounts := [(uid, \<lparr>password_hash = hash, password_set = 1, display_name = nm, totp_secret = Some [],
                                       totp_recovery_codes = Some [], totp_last_step = None, created_at = Some t\<rparr>)]\<rparr>))"

definition DisableTOTP :: "string \<Rightarrow> account_db \<Rightarrow> account_db option" where
  "DisableTOTP uid db =
     (case update_user ''DisableTOTP'' uid (\<lambda>u. u\<lparr>totp_enabled := 0\<rparr>) db of
        None \<Rightarrow> None
      | Some db' \<Rightarrow> map_option fst (update_account ''DisableTOTP'' uid (\<lambda>_. True)
                     (\<lambda>a. a\<lparr>totp_secret := Some [], totp_recovery_codes := Some []\<rparr>) db'))"

definition EnableTOTP :: "string \<Rightarrow> string \<Rightarrow> account_db \<Rightarrow> account_db option" where
  "EnableTOTP codes uid db =
     (case update_user ''EnableTOTP'' uid (\<lambda>u. u\<lparr>totp_enabled := 1\<rparr>) db of
        None \<Rightarrow> None
      | Some db' \<Rightarrow> map_option fst (update_account ''EnableTOTP'' uid (\<lambda>_. True)
                     (\<lambda>a. a\<lparr>totp_recovery_codes := Some codes\<rparr>) db'))"

definition GetAccountByEmail :: "account_db \<Rightarrow> string \<Rightarrow> (string \<times> user_row \<times> account) fetched" where
  "GetAccountByEmail db addr =
     (case GetUserByEmail (base db) addr of
        DBError \<Rightarrow> DBError
      | ErrNoRows \<Rightarrow> ErrNoRows
      | Row (uid, u) \<Rightarrow> (case map_of (accounts db) uid of Some a \<Rightarrow> Row (uid, u, a) | None \<Rightarrow> ErrNoRows))"

definition GetPasswordHashByUserID :: "account_db \<Rightarrow> string \<Rightarrow> string fetched" where
  "GetPasswordHashByUserID db uid = fetch (base db) ''GetPasswordHashByUserID'' (map_option password_hash (map_of (accounts db) uid))"

definition GetTOTPSecret :: "account_db \<Rightarrow> string \<Rightarrow> string option fetched" where
  "GetTOTPSecret db uid = fetch (base db) ''GetTOTPSecret'' (map_option totp_secret (map_of (accounts db) uid))"

definition GetUserPasswordSet :: "account_db \<Rightarrow> string \<Rightarrow> int fetched" where
  "GetUserPasswordSet db uid = fetch (base db) ''GetUserPasswordSet'' (map_option password_set (map_of (accounts db) uid))"

text \<open>Whether the second factor is on, its stored secret and the stored recovery codes.\<close>

definition GetUserTOTPState :: "account_db \<Rightarrow> string \<Rightarrow> (int \<times> string option \<times> string option) fetched" where
  "GetUserTOTPState db uid =
     fetch (base db) ''GetUserTOTPState''
       (case (map_of (users (base db)) uid, map_of (accounts db) uid) of
          (Some u, Some a) \<Rightarrow> Some (totp_enabled u, totp_secret a, totp_recovery_codes a)
        | _ \<Rightarrow> None)"

definition InvalidateUserSessions :: "int \<Rightarrow> string \<Rightarrow> account_db \<Rightarrow> account_db option" where
  "InvalidateUserSessions t uid = update_user ''InvalidateUserSessions'' uid (\<lambda>u. u\<lparr>sessions_valid_after := t\<rparr>)"

definition ListUsersWithTOTPSecret :: "account_db \<Rightarrow> (string \<times> string) list option" where
  "ListUsersWithTOTPSecret db =
     (if broken db ''ListUsersWithTOTPSecret'' then None
      else Some (map (\<lambda>(uid, a). (uid, null_text (totp_secret a))) (filter (\<lambda>(uid, a). null_text (totp_secret a) \<noteq> []) (accounts db))))"

definition SetInitialPasswordHash :: "string \<Rightarrow> string \<Rightarrow> account_db \<Rightarrow> (account_db \<times> nat) option" where
  "SetInitialPasswordHash hash uid =
     update_account ''SetInitialPasswordHash'' uid (\<lambda>a. password_set a = 0) (\<lambda>a. a\<lparr>password_hash := hash, password_set := 1\<rparr>)"

definition SetPasswordHash :: "string \<Rightarrow> string \<Rightarrow> account_db \<Rightarrow> account_db option" where
  "SetPasswordHash hash uid db =
     map_option fst (update_account ''SetPasswordHash'' uid (\<lambda>_. True) (\<lambda>a. a\<lparr>password_hash := hash, password_set := 1\<rparr>) db)"

definition StoreTOTPSecret :: "string \<Rightarrow> string \<Rightarrow> account_db \<Rightarrow> account_db option" where
  "StoreTOTPSecret stored uid db =
     map_option fst (update_account ''StoreTOTPSecret'' uid (\<lambda>_. True) (\<lambda>a. a\<lparr>totp_secret := Some stored\<rparr>) db)"

definition UpdatePasswordHash :: "string \<Rightarrow> string \<Rightarrow> account_db \<Rightarrow> account_db option" where
  "UpdatePasswordHash uid hash db =
     map_option fst (update_account ''UpdatePasswordHash'' uid (\<lambda>_. True) (\<lambda>a. a\<lparr>password_hash := hash\<rparr>) db)"

definition UpdateUserName :: "string \<Rightarrow> string \<Rightarrow> account_db \<Rightarrow> account_db option" where
  "UpdateUserName nm uid db =
     map_option fst (update_account ''UpdateUserName'' uid (\<lambda>_. True) (\<lambda>a. a\<lparr>display_name := Some nm\<rparr>) db)"

section \<open>Sessions, keys, identities, attempts\<close>

definition LoginAttemptScopePasswordLogin :: string where "LoginAttemptScopePasswordLogin = ''password_login''"
definition LoginAttemptScopeSessionReauth :: string where "LoginAttemptScopeSessionReauth = ''session_reauth''"

text \<open>The window of the two counters, 15 minutes, to the second.\<close>

definition recent_failure :: "int \<Rightarrow> attempt_row \<Rightarrow> bool" where
  "recent_failure t a \<longleftrightarrow> attempt_success a = 0 \<and> attempt_at a > t - 900"

definition CountRecentFailedLoginAttemptsByEmailAndScope :: "int \<Rightarrow> string \<Rightarrow> string \<Rightarrow> account_db \<Rightarrow> nat option" where
  "CountRecentFailedLoginAttemptsByEmailAndScope t addr scope db =
     (if broken db ''CountRecentFailedLoginAttemptsByEmailAndScope'' then None
      else Some (length (filter (\<lambda>a. attempt_email a = addr \<and> attempt_scope a = scope \<and> recent_failure t a) (attempts db))))"

definition CountRecentFailedLoginAttemptsByIP :: "int \<Rightarrow> string \<Rightarrow> account_db \<Rightarrow> nat option" where
  "CountRecentFailedLoginAttemptsByIP t ip db =
     (if broken db ''CountRecentFailedLoginAttemptsByIP'' then None
      else Some (length (filter (\<lambda>a. attempt_ip a = ip \<and> recent_failure t a) (attempts db))))"

text \<open>The handlers only log a failure to record an attempt.\<close>

definition CreateLoginAttempt :: "int \<Rightarrow> string \<Rightarrow> string \<Rightarrow> int \<Rightarrow> string \<Rightarrow> account_db \<Rightarrow> account_db" where
  "CreateLoginAttempt t addr ip ok scope db =
     (if broken db ''CreateLoginAttempt'' then db
      else db\<lparr>attempts := attempts db @
        [\<lparr>attempt_email = addr, attempt_ip = ip, attempt_success = ok, attempt_scope = scope, attempt_at = t\<rparr>]\<rparr>)"

definition CreateSession :: "int \<Rightarrow> string \<Rightarrow> string \<Rightarrow> int \<Rightarrow> account_db \<Rightarrow> account_db option" where
  "CreateSession t jti uid expires db =
     (if broken db ''CreateSession'' \<or> jti \<in> fst ` set (sessions (base db)) then None
      else Some (db\<lparr>base := (base db)\<lparr>sessions := sessions (base db) @
        [(jti, \<lparr>session_user_id = uid, session_revoked_at = None, last_used_at = t, session_expires_at = Some expires\<rparr>)]\<rparr>\<rparr>))"

definition revoke_session :: "int \<Rightarrow> session_row \<Rightarrow> session_row" where
  "revoke_session t x = (if session_revoked_at x = None then x\<lparr>session_revoked_at := Some t\<rparr> else x)"

definition RevokeSession :: "int \<Rightarrow> string \<Rightarrow> account_db \<Rightarrow> account_db option" where
  "RevokeSession t jti db =
     (if broken db ''RevokeSession'' then None
      else Some (db\<lparr>base := (base db)\<lparr>sessions := sql_update jti (revoke_session t) (sessions (base db))\<rparr>\<rparr>))"

definition RevokeUserSessions :: "int \<Rightarrow> string \<Rightarrow> account_db \<Rightarrow> account_db option" where
  "RevokeUserSessions t uid db =
     (if broken db ''RevokeUserSessions'' then None
      else Some (db\<lparr>base := (base db)\<lparr>sessions :=
        map (\<lambda>(j, x). (j, if session_user_id x = uid then revoke_session t x else x)) (sessions (base db))\<rparr>\<rparr>))"

definition RevokeAPIKeysByUser :: "int \<Rightarrow> string \<Rightarrow> account_db \<Rightarrow> account_db option" where
  "RevokeAPIKeysByUser t uid db =
     (if broken db ''RevokeAPIKeysByUser'' then None
      else Some (db\<lparr>base := (base db)\<lparr>api_keys :=
        map (\<lambda>(h, k). (h, if key_user_id k = uid \<and> key_revoked_at k = None then k\<lparr>key_revoked_at := Some t\<rparr> else k))
          (api_keys (base db))\<rparr>\<rparr>))"

definition live_identity :: "string \<Rightarrow> identity_row \<Rightarrow> bool" where
  "live_identity uid i \<longleftrightarrow> identity_owner i = Some uid \<and> identity_revoked_at i = None"

definition ListServiceIdentitiesByUser :: "string \<Rightarrow> account_db \<Rightarrow> (string \<times> identity_row) list option" where
  "ListServiceIdentitiesByUser uid db =
     (if broken db ''ListServiceIdentitiesByUser'' then None else Some (filter (\<lambda>(_, i). live_identity uid i) (identities db)))"

definition RevokeServiceIdentitiesByUser :: "int \<Rightarrow> string \<Rightarrow> account_db \<Rightarrow> account_db option" where
  "RevokeServiceIdentitiesByUser t uid db =
     (if broken db ''RevokeServiceIdentitiesByUser'' then None
      else Some (db\<lparr>identities := map (\<lambda>(k, i). (k, if live_identity uid i then i\<lparr>identity_revoked_at := Some t\<rparr> else i)) (identities db)\<rparr>))"

section \<open>Settings and validators\<close>

definition settingInt :: "account_db \<Rightarrow> string \<Rightarrow> int \<Rightarrow> int" where
  "settingInt db key def =
     (case GetSetting (base db) key of
        Row v \<Rightarrow> if v = [] then def else (case atoi v of Some n \<Rightarrow> n | None \<Rightarrow> def)
      | _ \<Rightarrow> def)"

definition settingBool :: "account_db \<Rightarrow> string \<Rightarrow> bool \<Rightarrow> bool" where
  "settingBool db key def = (case GetSetting (base db) key of Row v \<Rightarrow> if v = [] then def else v = ''true'' | _ \<Rightarrow> def)"

definition GetSessionDurationSetting :: "account_db \<Rightarrow> string fetched" where
  "GetSessionDurationSetting db = fetch (base db) ''GetSessionDurationSetting'' (map_of (settings (base db)) ''session_duration_hours'')"

definition defaultMinPasswordLength :: int where "defaultMinPasswordLength = 12"
definition minPasswordLengthFloor :: int where "minPasswordLengthFloor = 12"

text \<open>A validation error is its field and its message; its text joins them.\<close>

type_synonym validation = "(string \<times> string) option"

definition Error_text :: "string \<times> string \<Rightarrow> string" where
  "Error_text e = fst e @ '': '' @ snd e"

definition ValidateRequired :: "string \<Rightarrow> string \<Rightarrow> validation" where
  "ValidateRequired field v = (if trim_space v = [] then Some (field, ''is required'') else None)"

definition email_error :: "email_lib \<Rightarrow> string \<Rightarrow> validation" where
  "email_error lib addr = (if ValidateEmail lib addr then None else Some (''email'', ''invalid email address format''))"

function rune_count :: "string \<Rightarrow> nat" where
  "rune_count s = (if s = [] then 0 else Suc (rune_count (drop (case rune_size s of None \<Rightarrow> 1 | Some n \<Rightarrow> n) s)))"
  by pat_completeness auto

termination rune_count
  by (relation "measure length") (auto dest: rune_size_pos split: option.splits)

declare rune_count.simps [simp del]

definition ValidateStringLength :: "string \<Rightarrow> string \<Rightarrow> nat \<Rightarrow> nat \<Rightarrow> validation" where
  "ValidateStringLength field v lo hi =
     (if rune_count v < lo then Some (field, ''must be at least '' @ dec_text lo @ '' characters'')
      else if hi > 0 \<and> rune_count v > hi then Some (field, ''must be at most '' @ dec_text hi @ '' characters'')
      else None)"

definition validatePassword :: "string \<Rightarrow> validation" where
  "validatePassword password =
     (if length password < 12 then Some (''password'', ''must be at least 12 characters'')
      else if length password > 72 then Some (''password'', ''must be at most 72 characters'')
      else None)"

definition validatePasswordWithPolicy :: "account_db \<Rightarrow> string \<Rightarrow> validation" where
  "validatePasswordWithPolicy db password =
     (case validatePassword password of
        Some e \<Rightarrow> Some e
      | None \<Rightarrow>
         (let stored = settingInt db ''min_password_length'' defaultMinPasswordLength;
              minLen = (if stored < minPasswordLengthFloor then minPasswordLengthFloor else stored)
          in if int (length password) < minLen
             then Some (''password'', ''must be at least '' @ dec_text (nat minLen) @ '' characters'') else None))"

section \<open>Identifiers\<close>

fun hex_pad :: "nat \<Rightarrow> nat \<Rightarrow> string" where
  "hex_pad 0 n = []"
| "hex_pad (Suc w) n = hex_digits ! (n div 16 ^ w mod 16) # hex_pad w (n mod 16 ^ w)"

text \<open>Sixteen random bytes; without randomness, the clock in nanoseconds.\<close>

definition generateID :: "bytes \<Rightarrow> nat \<Rightarrow> string" where
  "generateID rnd nanos = (case read_full rnd 16 of Some b \<Rightarrow> hex_encode b | None \<Rightarrow> hex_pad 32 nanos)"

section \<open>Activity rows\<close>

definition truncateAudit :: "string \<Rightarrow> nat \<Rightarrow> string" where
  "truncateAudit s n = (if length s \<le> n then s else take n s @ ''...[truncated]'')"

definition logActivityInternal :: "string option \<Rightarrow> string \<Rightarrow> string \<Rightarrow> string \<Rightarrow> account_db \<Rightarrow> account_db" where
  "logActivityInternal uid action ip agent db =
     (if broken db ''InsertActivity'' then db
      else db\<lparr>activity := activity db @
        [\<lparr>act_user = uid, act_action = action, act_ip = toNullString (truncateAudit ip 64), act_agent = toNullString (truncateAudit agent 512)\<rparr>]\<rparr>)"

definition LogActivityFromRequest :: "proxy_config \<Rightarrow> request \<Rightarrow> string \<Rightarrow> account_db \<Rightarrow> account_db" where
  "LogActivityFromRequest px r action =
     logActivityInternal (toNullString (GetUserID r)) action (clientIP px r) (header_get (header r) ''User-Agent'')"

definition logAuthEvent :: "proxy_config \<Rightarrow> request \<Rightarrow> string \<Rightarrow> string \<Rightarrow> account_db \<Rightarrow> account_db" where
  "logAuthEvent px r uid action =
     logActivityInternal (Some uid) action (clientIP px r) (header_get (header r) ''User-Agent'')"

section \<open>What a statement leaves alone\<close>

lemma update_account_Some:
  "update_account stmt uid P f db = Some (db', n) \<longleftrightarrow>
     \<not> broken db stmt \<and>
     (if \<exists>a. map_of (accounts db) uid = Some a \<and> P a
      then db' = db\<lparr>accounts := sql_update uid f (accounts db)\<rparr> \<and> n = 1
      else db' = db \<and> n = 0)"
  by (auto simp: update_account_def split: option.splits)

lemma logActivity_frame [simp]:
  "base (logActivityInternal u a i g db) = base db" "accounts (logActivityInternal u a i g db) = accounts db"
  "attempts (logActivityInternal u a i g db) = attempts db" "identities (logActivityInternal u a i g db) = identities db"
  by (simp_all add: logActivityInternal_def)

lemma LogActivity_frame [simp]:
  "base (LogActivityFromRequest px r a db) = base db" "accounts (LogActivityFromRequest px r a db) = accounts db"
  "attempts (LogActivityFromRequest px r a db) = attempts db" "identities (LogActivityFromRequest px r a db) = identities db"
  "base (logAuthEvent px r u a db) = base db" "accounts (logAuthEvent px r u a db) = accounts db"
  "attempts (logAuthEvent px r u a db) = attempts db" "identities (logAuthEvent px r u a db) = identities db"
  by (simp_all add: LogActivityFromRequest_def logAuthEvent_def)

lemma CreateLoginAttempt_frame [simp]:
  "base (CreateLoginAttempt t e i k c db) = base db" "accounts (CreateLoginAttempt t e i k c db) = accounts db"
  "identities (CreateLoginAttempt t e i k c db) = identities db" "activity (CreateLoginAttempt t e i k c db) = activity db"
  by (simp_all add: CreateLoginAttempt_def)

end
