(* ===== verification/Second_Factor.thy ===== *)
theory Second_Factor
  imports Accounts "HOL-Library.Multiset"
begin

text \<open>
  Spending the second factor: \<^verbatim>\<open>internal/handlers/auth_totp_recovery.go\<close>, and the protocol its
  statements form when requests interleave.  The specification is an authority that holds the
  last time step spent and the multiset of unused recovery-code hashes and spends each of them
  in one step; the program reads the codes, computes and compares and swaps, and a simulation
  (locale \<open>simulation\<close>) shows that every run of the program is a run of that authority.

  JSON of a list of strings is an argument, as are bcrypt and the random source.
\<close>

record signin_env =
  deps_of :: deps
  hash_of :: hash_lib
  bcrypt_of :: bcrypt_lib
  marshal_codes :: "string list \<Rightarrow> string"
  unmarshal_codes :: "string \<Rightarrow> string list option"
  cipher_of :: block_cipher
  derive_of :: "string \<Rightarrow> bytes"
  VaultKey :: string
  VaultKeyPrevious :: string
  sign_jwt :: "string \<Rightarrow> string \<Rightarrow> int \<Rightarrow> int \<Rightarrow> string \<Rightarrow> string option"
  JWTSecret :: string
  proxy_of :: proxy_config
  vault_wired :: bool
  nanos_of :: nat
  slot_free :: "nat \<Rightarrow> bool"
  rnd_salt :: bytes
  rnd_id :: bytes
  rnd_secret :: bytes
  rnd_nonce :: bytes
  rnd_codes :: "nat \<Rightarrow> bytes \<times> bytes"
  new_user_id :: string

abbreviation clock :: "signin_env \<Rightarrow> int" where
  "clock e \<equiv> now (deps_of e)"

definition recoveryCASAttempts :: nat where
  "recoveryCASAttempts = 4"

text \<open>The codes a column text stands for: none if it is empty.\<close>

definition codes_of :: "signin_env \<Rightarrow> string \<Rightarrow> string list option" where
  "codes_of e cur = (if cur = [] then Some [] else unmarshal_codes e cur)"

text \<open>
  The loop.  What other requests do to the database before the two statements of the k-th attempt is
  \<open>others (2 * k)\<close> and \<open>others (2 * k + 1)\<close>.
\<close>

fun recovery_attempts ::
  "signin_env \<Rightarrow> (nat \<Rightarrow> account_db \<Rightarrow> account_db) \<Rightarrow> string \<Rightarrow> string \<Rightarrow> nat \<Rightarrow> nat \<Rightarrow> account_db \<Rightarrow> bool \<times> account_db" where
  "recovery_attempts e others uid submitted k 0 db = (False, db)"
| "recovery_attempts e others uid submitted k (Suc n) db =
     (let db1 = others (2 * k) db
      in case GetUserTOTPState db1 uid of
           Row (_, _, stored) \<Rightarrow>
             (let cur = null_text stored
              in case codes_of e cur of
                   None \<Rightarrow> (False, db1)
                 | Some hashed \<Rightarrow>
                    (case ValidateRecoveryCode (bcrypt_of e) hashed submitted of
                       (remaining, valid) \<Rightarrow>
                         if \<not> valid then (False, db1)
                         else let db2 = others (2 * k + 1) db1
                              in case CASRecoveryCodes uid (marshal_codes e remaining) cur db2 of
                                   None \<Rightarrow> (False, db2)
                                 | Some (db3, rows) \<Rightarrow>
                                    if rows > 0 then (True, db3)
                                    else recovery_attempts e others uid submitted (Suc k) n db3))
         | _ \<Rightarrow> (False, db1))"

definition consumeRecoveryCode ::
  "signin_env \<Rightarrow> (nat \<Rightarrow> account_db \<Rightarrow> account_db) \<Rightarrow> string \<Rightarrow> string \<Rightarrow> account_db \<Rightarrow> bool \<times> account_db" where
  "consumeRecoveryCode e others uid submitted = recovery_attempts e others uid submitted 0 recoveryCASAttempts"

definition spendTOTPStep :: "signin_env \<Rightarrow> string \<Rightarrow> string \<Rightarrow> string \<Rightarrow> account_db \<Rightarrow> bool \<times> account_db" where
  "spendTOTPStep e uid secret code db =
     (case ValidateCodeStep (clock e) secret code of
        None \<Rightarrow> (False, db)
      | Some step \<Rightarrow>
         (case ClaimTOTPStep uid step db of
            None \<Rightarrow> (False, db)
          | Some (db', rows) \<Rightarrow> (rows \<noteq> 0, db')))"

section \<open>Simulations\<close>

text \<open>Runs of a system whose steps may be hidden, with the visible events; runs of a specification.\<close>

inductive visible_run :: "('c \<Rightarrow> 'e option \<Rightarrow> 'c \<Rightarrow> bool) \<Rightarrow> 'c \<Rightarrow> 'e list \<Rightarrow> 'c \<Rightarrow> bool" for cstep where
  stop: "visible_run cstep c [] c"
| hidden: "cstep c None c' \<Longrightarrow> visible_run cstep c' es c'' \<Longrightarrow> visible_run cstep c es c''"
| visible: "cstep c (Some ev) c' \<Longrightarrow> visible_run cstep c' es c'' \<Longrightarrow> visible_run cstep c (ev # es) c''"

inductive spec_run :: "('a \<Rightarrow> 'e \<Rightarrow> 'a \<Rightarrow> bool) \<Rightarrow> 'a \<Rightarrow> 'e list \<Rightarrow> 'a \<Rightarrow> bool" for astep where
  finish: "spec_run astep a [] a"
| event: "astep a ev a' \<Longrightarrow> spec_run astep a' es a'' \<Longrightarrow> spec_run astep a (ev # es) a''"

lemma visible_run_trans:
  "visible_run cstep c es c' \<Longrightarrow> visible_run cstep c' es' c'' \<Longrightarrow> visible_run cstep c (es @ es') c''"
  by (induction rule: visible_run.induct) (auto intro: visible_run.intros)

locale simulation =
  fixes cstep :: "'c \<Rightarrow> 'e option \<Rightarrow> 'c \<Rightarrow> bool"
    and astep :: "'a \<Rightarrow> 'e \<Rightarrow> 'a \<Rightarrow> bool"
    and abstraction :: "'c \<Rightarrow> 'a"
    and inv :: "'c \<Rightarrow> bool"
  assumes inv_step: "inv c \<Longrightarrow> cstep c l c' \<Longrightarrow> inv c'"
    and hidden_step: "inv c \<Longrightarrow> cstep c None c' \<Longrightarrow> abstraction c' = abstraction c"
    and visible_step: "inv c \<Longrightarrow> cstep c (Some ev) c' \<Longrightarrow> astep (abstraction c) ev (abstraction c')"
begin

lemma run_inv: "visible_run cstep c es c' \<Longrightarrow> inv c \<Longrightarrow> inv c'"
  by (induction rule: visible_run.induct) (auto intro: inv_step)

lemma run_refines: "visible_run cstep c es c' \<Longrightarrow> inv c \<Longrightarrow> spec_run astep (abstraction c) es (abstraction c')"
proof (induction rule: visible_run.induct)
  case (stop c)
  show ?case by (rule spec_run.finish)
next
  case (hidden c c' es c'')
  then show ?case using inv_step hidden_step by metis
next
  case (visible c ev c' es c'')
  then show ?case using inv_step visible_step by (blast intro: spec_run.event)
qed

end

section \<open>The authority and the program\<close>

datatype factor_event = Claimed int | Spent string | Enrolled "string list" | Cleared

record authority =
  last_claimed :: "int option"
  unused :: "string multiset"

inductive spec_step :: "bcrypt_lib \<Rightarrow> authority \<Rightarrow> factor_event \<Rightarrow> authority \<Rightarrow> bool" for bc where
  claim: "\<forall>l. last_claimed a = Some l \<longrightarrow> l < step \<Longrightarrow> spec_step bc a (Claimed step) (a\<lparr>last_claimed := Some step\<rparr>)"
| spend: "h \<in># unused a \<Longrightarrow> bcrypt_matches bc h code \<Longrightarrow> spec_step bc a (Spent code) (a\<lparr>unused := unused a - {#h#}\<rparr>)"
| enrol: "spec_step bc a (Enrolled hs) (a\<lparr>unused := mset hs\<rparr>)"
| clear: "spec_step bc a Cleared (a\<lparr>unused := {#}\<rparr>)"

inductive_cases claimE: "spec_step bc a (Claimed step) a'"
inductive_cases spendE: "spec_step bc a (Spent code) a'"
inductive_cases enrolE: "spec_step bc a (Enrolled hs) a'"
inductive_cases clearE: "spec_step bc a Cleared a'"

text \<open>The characters of a bcrypt hash.\<close>

definition plain_hash :: "string \<Rightarrow> bool" where
  "plain_hash h \<longleftrightarrow> (\<forall>c \<in> set h. is_alnum c \<or> c \<in> set ''./$'')"

definition factor_columns :: "account_db \<Rightarrow> string \<Rightarrow> (int option \<times> string) option" where
  "factor_columns db uid = map_option (\<lambda>a. (totp_last_step a, null_text (totp_recovery_codes a))) (map_of (accounts db) uid)"

text \<open>
  A step of some request on the columns of one account.  The text a compare-and-swap expects is
  whatever that request read earlier.
\<close>

inductive factor_step :: "signin_env \<Rightarrow> string \<Rightarrow> account_db \<Rightarrow> factor_event option \<Rightarrow> account_db \<Rightarrow> bool" for e uid where
  claim: "ClaimTOTPStep uid step db = Some (db', Suc 0) \<Longrightarrow> factor_step e uid db (Some (Claimed step)) db'"
| spend: "codes_of e cur = Some hashed \<Longrightarrow> ValidateRecoveryCode (bcrypt_of e) hashed code = (remaining, True) \<Longrightarrow>
     CASRecoveryCodes uid (marshal_codes e remaining) cur db = Some (db', Suc 0) \<Longrightarrow>
     factor_step e uid db (Some (Spent code)) db'"
| enrol: "EnableTOTP (marshal_codes e hs) uid db = Some db' \<Longrightarrow> uid \<in> fst ` set (accounts db) \<Longrightarrow> \<forall>h \<in> set hs. plain_hash h \<Longrightarrow>
     factor_step e uid db (Some (Enrolled hs)) db'"
| clear: "DisableTOTP uid db = Some db' \<Longrightarrow> uid \<in> fst ` set (accounts db) \<Longrightarrow> factor_step e uid db (Some Cleared) db'"
| other: "factor_columns db' uid = factor_columns db uid \<Longrightarrow> factor_step e uid db None db'"

definition authority_of :: "signin_env \<Rightarrow> string \<Rightarrow> account_db \<Rightarrow> authority" where
  "authority_of e uid db =
     (case factor_columns db uid of
        None \<Rightarrow> \<lparr>last_claimed = None, unused = {#}\<rparr>
      | Some (l, tx) \<Rightarrow> \<lparr>last_claimed = l, unused = mset (case codes_of e tx of Some hs \<Rightarrow> hs | None \<Rightarrow> [])\<rparr>)"

definition codes_stored :: "signin_env \<Rightarrow> string \<Rightarrow> account_db \<Rightarrow> bool" where
  "codes_stored e uid db \<longleftrightarrow>
     (\<forall>l tx. factor_columns db uid = Some (l, tx) \<longrightarrow> (\<exists>hs. codes_of e tx = Some hs \<and> (\<forall>h \<in> set hs. plain_hash h)))"

text \<open>What is relied on of the JSON package: a list of such texts survives.\<close>

definition json_codes :: "signin_env \<Rightarrow> bool" where
  "json_codes e \<longleftrightarrow> (\<forall>hs. (\<forall>h \<in> set hs. plain_hash h) \<longrightarrow> codes_of e (marshal_codes e hs) = Some hs)"

lemma factor_columns_update:
  assumes "update_account stmt uid P f db = Some (db', Suc 0)"
  obtains a where "map_of (accounts db) uid = Some a" "P a"
    "factor_columns db' uid = Some (totp_last_step (f a), null_text (totp_recovery_codes (f a)))"
  using assms by (auto simp: update_account_Some factor_columns_def split: if_splits)

lemma update_user_accounts: "update_user stmt uid f db = Some db' \<Longrightarrow> accounts db' = accounts db"
  by (auto simp: update_user_def split: if_splits)

lemma codes_of_empty [simp]: "codes_of e [] = Some []"
  by (simp add: codes_of_def)

lemma columns_claim:
  assumes "ClaimTOTPStep uid step db = Some (db', Suc 0)"
  obtains l tx where "factor_columns db uid = Some (l, tx)" "\<forall>x. l = Some x \<longrightarrow> x < step"
    "factor_columns db' uid = Some (Some step, tx)"
  using assms unfolding ClaimTOTPStep_def
  by (elim factor_columns_update) (auto simp: factor_columns_def split: option.splits)

lemma columns_cas:
  assumes "CASRecoveryCodes uid tx' cur db = Some (db', Suc 0)"
  obtains l where "factor_columns db uid = Some (l, cur)" "factor_columns db' uid = Some (l, tx')"
  using assms unfolding CASRecoveryCodes_def
  by (elim factor_columns_update) (auto simp: factor_columns_def null_text_def)

lemma columns_enrol:
  assumes "EnableTOTP tx' uid db = Some db'" "uid \<in> fst ` set (accounts db)"
  obtains l tx where "factor_columns db uid = Some (l, tx)" "factor_columns db' uid = Some (l, tx')"
proof -
  obtain a where a: "map_of (accounts db) uid = Some a" using assms(2) by (metis map_of_eq_None_iff option.exhaust)
  obtain db1 n where "update_user ''EnableTOTP'' uid (\<lambda>u. u\<lparr>totp_enabled := 1\<rparr>) db = Some db1"
      "update_account ''EnableTOTP'' uid (\<lambda>_. True) (\<lambda>a. a\<lparr>totp_recovery_codes := Some tx'\<rparr>) db1 = Some (db', n)"
    using assms(1) by (auto simp: EnableTOTP_def split: option.splits)
  then show thesis using that a update_user_accounts
    by (auto simp: update_account_Some factor_columns_def null_text_def split: if_splits)
qed

lemma columns_clear:
  assumes "DisableTOTP uid db = Some db'" "uid \<in> fst ` set (accounts db)"
  obtains l tx where "factor_columns db uid = Some (l, tx)" "factor_columns db' uid = Some (l, [])"
proof -
  obtain a where a: "map_of (accounts db) uid = Some a" using assms(2) by (metis map_of_eq_None_iff option.exhaust)
  obtain db1 n where "update_user ''DisableTOTP'' uid (\<lambda>u. u\<lparr>totp_enabled := 0\<rparr>) db = Some db1"
      "update_account ''DisableTOTP'' uid (\<lambda>_. True) (\<lambda>a. a\<lparr>totp_secret := Some [], totp_recovery_codes := Some []\<rparr>) db1 = Some (db', n)"
    using assms(1) by (auto simp: DisableTOTP_def split: option.splits)
  then show thesis using that a update_user_accounts
    by (auto simp: update_account_Some factor_columns_def null_text_def split: if_splits)
qed

lemma remaining_plain:
  assumes "\<forall>h \<in> set hashed. plain_hash h" "ValidateRecoveryCode bc hashed code = (remaining, True)"
  shows "\<forall>h \<in> set remaining. plain_hash h"
  using ValidateRecoveryCode_True [OF assms(2)] assms(1) by auto

lemma factor_step_inv:
  assumes "json_codes e" "codes_stored e uid db" "factor_step e uid db l db'"
  shows "codes_stored e uid db'"
  using assms(3)
proof cases
  case (claim step)
  then show ?thesis using assms(2) by (elim columns_claim) (auto simp: codes_stored_def)
next
  case (spend cur hashed code remaining)
  obtain lst where c: "factor_columns db uid = Some (lst, cur)" "factor_columns db' uid = Some (lst, marshal_codes e remaining)"
    using columns_cas [OF spend(4)] .
  then have "\<forall>h \<in> set remaining. plain_hash h" using remaining_plain spend(2,3) assms(2) by (auto simp: codes_stored_def)
  then show ?thesis using c assms(1) by (auto simp: codes_stored_def json_codes_def)
next
  case (enrol hs)
  obtain lst tx where "factor_columns db uid = Some (lst, tx)" "factor_columns db' uid = Some (lst, marshal_codes e hs)"
    using columns_enrol [OF enrol(2,3)] .
  then show ?thesis using enrol(4) assms(1) by (auto simp: codes_stored_def json_codes_def)
next
  case clear
  obtain lst tx where "factor_columns db uid = Some (lst, tx)" "factor_columns db' uid = Some (lst, [])"
    using columns_clear [OF clear(2,3)] .
  then show ?thesis by (simp add: codes_stored_def)
next
  case other
  then show ?thesis using assms(2) by (simp add: codes_stored_def)
qed

lemma factor_step_visible:
  assumes "json_codes e" "codes_stored e uid db" "factor_step e uid db (Some ev) db'"
  shows "spec_step (bcrypt_of e) (authority_of e uid db) ev (authority_of e uid db')"
  using assms(3)
proof cases
  case (claim step)
  then show ?thesis
    by (elim columns_claim) (auto simp: authority_of_def intro!: spec_step.claim [where a = "\<lparr>last_claimed = l, unused = u\<rparr>" for l u, simplified])
next
  case (spend cur hashed code remaining)
  obtain lst where c: "factor_columns db uid = Some (lst, cur)" "factor_columns db' uid = Some (lst, marshal_codes e remaining)"
    using columns_cas [OF spend(4)] .
  have "\<forall>h \<in> set remaining. plain_hash h" using remaining_plain spend(2,3) assms(2) c by (auto simp: codes_stored_def)
  then have r: "codes_of e (marshal_codes e remaining) = Some remaining" using assms(1) by (simp add: json_codes_def)
  obtain a h b where "hashed = a @ h # b" "remaining = a @ b" "bcrypt_matches (bcrypt_of e) h code"
    using ValidateRecoveryCode_True [OF spend(3)] by auto
  then show ?thesis
    using c r spend(1,2) spec_step.spend [of h "authority_of e uid db" "bcrypt_of e" code] by (simp add: authority_of_def)
next
  case (enrol hs)
  obtain lst tx where c: "factor_columns db uid = Some (lst, tx)" "factor_columns db' uid = Some (lst, marshal_codes e hs)"
    using columns_enrol [OF enrol(2,3)] .
  then show ?thesis
    using enrol(1,4) assms(1) spec_step.enrol [of "bcrypt_of e" "authority_of e uid db" hs]
    by (simp add: authority_of_def json_codes_def)
next
  case clear
  obtain lst tx where "factor_columns db uid = Some (lst, tx)" "factor_columns db' uid = Some (lst, [])"
    using columns_clear [OF clear(2,3)] .
  then show ?thesis
    using clear(1) spec_step.clear [of "bcrypt_of e" "authority_of e uid db"] by (simp add: authority_of_def)
qed

lemma factor_step_hidden: "factor_step e uid db None db' \<Longrightarrow> authority_of e uid db' = authority_of e uid db"
  by (auto simp: authority_of_def elim: factor_step.cases)

interpretation factor: simulation "factor_step e uid" "spec_step (bcrypt_of e)" "authority_of e uid" "\<lambda>db. json_codes e \<and> codes_stored e uid db"
  for e uid
  by unfold_locales (use factor_step_inv factor_step_visible factor_step_hidden in blast)+

section \<open>What the authority guarantees\<close>

fun claims :: "factor_event list \<Rightarrow> int list" where
  "claims [] = []"
| "claims (Claimed step # es) = step # claims es"
| "claims (_ # es) = claims es"

fun spends :: "factor_event list \<Rightarrow> string list" where
  "spends [] = []"
| "spends (Spent code # es) = code # spends es"
| "spends (_ # es) = spends es"

definition enrols :: "factor_event list \<Rightarrow> bool" where
  "enrols es \<longleftrightarrow> (\<exists>hs. Enrolled hs \<in> set es)"

lemma spec_claims:
  "spec_run (spec_step bc) a es a' \<Longrightarrow> sorted_wrt (<) (claims es) \<and> (\<forall>l \<in> set_option (last_claimed a). \<forall>s \<in> set (claims es). l < s)"
proof (induction rule: spec_run.induct)
  case (event a ev a' es a'')
  then show ?case by (cases ev) (auto elim!: claimE spendE enrolE clearE intro: less_trans)
qed simp

lemma spec_spends:
  "spec_run (spec_step bc) a es a' \<Longrightarrow> \<not> enrols es \<Longrightarrow>
   \<exists>used. mset used + unused a' \<subseteq># unused a \<and> list_all2 (bcrypt_matches bc) used (spends es)"
proof (induction rule: spec_run.induct)
  case (event a ev a' es a'')
  then obtain used where used: "mset used + unused a'' \<subseteq># unused a'" "list_all2 (bcrypt_matches bc) used (spends es)"
    by (auto simp: enrols_def)
  show ?case
  proof (cases ev)
    case (Spent code)
    then obtain h where h: "h \<in># unused a" "bcrypt_matches bc h code" "unused a' = unused a - {#h#}"
      using event(1) by (auto elim!: spendE)
    then have "mset (h # used) + unused a'' \<subseteq># unused a"
      using used(1) by (metis add_mset_add_single insert_DiffM mset.simps(2) mset_subset_eq_add_mset_cancel union_mset_add_mset_left)
    then show ?thesis using Spent h used(2) by (intro exI [of _ "h # used"]) simp
  qed (use event(1,4) used in \<open>auto simp: enrols_def elim!: claimE clearE\<close>)
qed (simp add: exI [of _ "[]"])

text \<open>
  C5. Whatever the interleaving of the statements of concurrent requests, what they do to an account's second
  factor is what an authority does that spends in single steps: it claims a time step only above
  the last one claimed, and gives up one stored hash for each recovery code it accepts.
\<close>

theorem second_factor_refines:
  assumes "json_codes e" "codes_stored e uid db" "visible_run (factor_step e uid) db es db'"
  shows "spec_run (spec_step (bcrypt_of e)) (authority_of e uid db) es (authority_of e uid db') \<and> codes_stored e uid db'"
  using factor.run_refines [OF assms(3)] factor.run_inv [OF assms(3)] assms(1,2) by blast

text \<open>
  Second factors are single use across all requests: the time steps accepted form a strictly increasing
  sequence above the last one already spent, and until codes are enrolled anew the accepted
  recovery codes match distinct ones of the stored hashes, so that at most as many are accepted
  as were stored, and what is left in the column is part of the rest.
\<close>

theorem second_factor_single_use:
  assumes "json_codes e" "codes_stored e uid db" "visible_run (factor_step e uid) db es db'"
    "factor_columns db uid = Some (l, tx)" "codes_of e tx = Some stored"
  shows "sorted_wrt (<) (claims es) \<and> (\<forall>s \<in> set (claims es). \<forall>x. l = Some x \<longrightarrow> x < s) \<and>
     (\<not> enrols es \<longrightarrow>
       (\<exists>used. list_all2 (bcrypt_matches (bcrypt_of e)) used (spends es) \<and>
               mset used + unused (authority_of e uid db') \<subseteq># mset stored) \<and>
       length (spends es) \<le> length stored)"
proof -
  have run: "spec_run (spec_step (bcrypt_of e)) (authority_of e uid db) es (authority_of e uid db')"
    using factor.run_refines [OF assms(3)] assms(1,2) by blast
  have a: "last_claimed (authority_of e uid db) = l" "unused (authority_of e uid db) = mset stored"
    using assms(4,5) by (simp_all add: authority_of_def)
  show ?thesis
  proof (intro conjI impI)
    show "sorted_wrt (<) (claims es)" "\<forall>s \<in> set (claims es). \<forall>x. l = Some x \<longrightarrow> x < s"
      using spec_claims [OF run] a(1) by auto
    assume "\<not> enrols es"
    then obtain used where u: "mset used + unused (authority_of e uid db') \<subseteq># mset stored"
        "list_all2 (bcrypt_matches (bcrypt_of e)) used (spends es)"
      using spec_spends [OF run] a(2) by auto
    then show "\<exists>used. list_all2 (bcrypt_matches (bcrypt_of e)) used (spends es) \<and>
        mset used + unused (authority_of e uid db') \<subseteq># mset stored" by blast
    show "length (spends es) \<le> length stored"
      using u(2) size_mset_mono [OF u(1)] by (simp add: list_all2_lengthD)
  qed
qed

section \<open>The loop is such a run, and it makes progress\<close>

lemma other_requests:
  "visible_run (factor_step e uid) db es db' \<Longrightarrow> factor_columns db'' uid = factor_columns db' uid \<Longrightarrow>
   visible_run (factor_step e uid) db es db''"
  using visible_run_trans [of "factor_step e uid" db es db' "[]" db'']
  by (auto intro: visible_run.intros factor_step.other)

lemma one_event: "factor_step e uid db (Some ev) db' \<Longrightarrow> visible_run (factor_step e uid) db [ev] db'"
  by (rule visible_run.visible [OF _ visible_run.stop])

lemma CAS_defined: "\<not> broken db ''CASRecoveryCodes'' \<Longrightarrow> \<exists>db' rows. CASRecoveryCodes uid new cur db = Some (db', rows)"
  by (auto simp: CASRecoveryCodes_def update_account_def split: option.split)

lemma CAS_rows: "CASRecoveryCodes uid new cur db = Some (db', rows) \<Longrightarrow> (rows = 0 \<and> db' = db) \<or> rows = Suc 0"
  by (auto simp: CASRecoveryCodes_def update_account_Some split: if_splits)

lemma attempt_cases:
  assumes "recovery_attempts e others uid submitted k (Suc n) db = (ok, db')"
    and d1: "d1 = others (2 * k) db" and d2: "d2 = others (2 * k + 1) d1"
  obtains (unread) "\<not> ok" "db' = d1" | (failed) "\<not> ok" "db' = d2"
  | (won) cur hashed remaining where "codes_of e cur = Some hashed" "ok"
      "ValidateRecoveryCode (bcrypt_of e) hashed submitted = (remaining, True)"
      "CASRecoveryCodes uid (marshal_codes e remaining) cur d2 = Some (db', Suc 0)"
  | (lost) "recovery_attempts e others uid submitted (Suc k) n d2 = (ok, db')"
proof -
  note eq = assms(1) [unfolded recovery_attempts.simps Let_def d1 [symmetric] d2 [symmetric]]
  show thesis
  proof (cases "GetUserTOTPState d1 uid")
    case (Row x)
    obtain en sec stored where x: "x = (en, sec, stored)" by (cases x)
    show thesis
    proof (cases "codes_of e (null_text stored)")
      case None
      then show thesis using eq Row x unread by simp
    next
      case (Some hashed)
      obtain remaining valid where v: "ValidateRecoveryCode (bcrypt_of e) hashed submitted = (remaining, valid)" by fastforce
      show thesis
      proof (cases "valid \<and> CASRecoveryCodes uid (marshal_codes e remaining) (null_text stored) d2 \<noteq> None")
        case True
        then obtain d3 rows where cas: "CASRecoveryCodes uid (marshal_codes e remaining) (null_text stored) d2 = Some (d3, rows)" by auto
        show thesis
          using CAS_rows [OF cas]
        proof
          assume "rows = 0 \<and> d3 = d2"
          then show thesis using eq Row x Some v True cas lost by simp
        next
          assume "rows = Suc 0"
          then show thesis using eq Row x Some v True cas won [of "null_text stored" hashed remaining] by simp
        qed
      next
        case False
        then show thesis using eq Row x Some v unread failed by (cases valid) (auto split: option.splits)
      qed
    qed
  qed (use eq unread in auto)
qed

lemma recovery_attempts_run:
  assumes others: "\<And>k d. \<exists>es. visible_run (factor_step e uid) d es (others k d)"
  shows "recovery_attempts e others uid submitted k n db = (ok, db') \<Longrightarrow>
    \<exists>es. visible_run (factor_step e uid) db (es @ (if ok then [Spent submitted] else [])) db'"
proof (induction n arbitrary: k db)
  case 0
  then show ?case by (auto intro!: exI [of _ "[]"] visible_run.stop)
next
  case (Suc n)
  define d1 where "d1 = others (2 * k) db"
  define d2 where "d2 = others (2 * k + 1) d1"
  obtain es1 es2 where r: "visible_run (factor_step e uid) db es1 d1" "visible_run (factor_step e uid) d1 es2 d2"
    using others unfolding d1_def d2_def by blast
  note r12 = visible_run_trans [OF r]
  show ?case
    using Suc.prems d1_def d2_def
  proof (cases rule: attempt_cases)
    case unread
    then show ?thesis using r(1) by (intro exI [of _ es1]) simp
  next
    case failed
    then show ?thesis using r12 by (intro exI [of _ "es1 @ es2"]) simp
  next
    case (won cur hashed remaining)
    then have "visible_run (factor_step e uid) d2 [Spent submitted] db'" by (intro one_event factor_step.spend)
    from visible_run_trans [OF r12 this] show ?thesis using won(2) by (intro exI [of _ "es1 @ es2"]) simp
  next
    case lost
    then obtain es where "visible_run (factor_step e uid) d2 (es @ (if ok then [Spent submitted] else [])) db'"
      using Suc.IH by blast
    from visible_run_trans [OF r12 this] show ?thesis by (intro exI [of _ "es1 @ es2 @ es"]) simp
  qed
qed

lemma spendTOTPStep_run:
  assumes "spendTOTPStep e uid secret code db = (ok, db')"
  shows "\<exists>es. visible_run (factor_step e uid) db es db' \<and>
    (ok \<longrightarrow> (\<exists>step. ValidateCodeStep (clock e) secret code = Some step \<and> es = [Claimed step]))"
proof (cases ok)
  case True
  then obtain step where "ValidateCodeStep (clock e) secret code = Some step" "ClaimTOTPStep uid step db = Some (db', Suc 0)"
    using assms by (auto simp: spendTOTPStep_def ClaimTOTPStep_def update_account_Some split: option.splits if_splits)
  then show ?thesis using True
    by (intro exI [of _ "[Claimed step]"]) (auto intro: one_event factor_step.claim)
next
  case False
  then have "db' = db"
    using assms by (auto simp: spendTOTPStep_def ClaimTOTPStep_def update_account_Some split: option.splits if_splits)
  then show ?thesis using False by (auto intro: visible_run.stop)
qed

text \<open>The states in which a submitted code is one of those stored and the two statements work.\<close>

definition code_held :: "signin_env \<Rightarrow> string \<Rightarrow> string \<Rightarrow> account_db \<Rightarrow> bool" where
  "code_held e uid code db \<longleftrightarrow>
     \<not> broken db ''GetUserTOTPState'' \<and> \<not> broken db ''CASRecoveryCodes'' \<and> map_of (users (base db)) uid \<noteq> None \<and>
     (\<exists>l tx hs h. factor_columns db uid = Some (l, tx) \<and> codes_of e tx = Some hs \<and> h \<in> set hs \<and> bcrypt_matches (bcrypt_of e) h code)"

lemma code_held_read:
  assumes "code_held e uid code db"
  obtains en sec stored hs remaining where "GetUserTOTPState db uid = Row (en, sec, stored)"
    "codes_of e (null_text stored) = Some hs" "ValidateRecoveryCode (bcrypt_of e) hs code = (remaining, True)"
    "\<exists>l. factor_columns db uid = Some (l, null_text stored)"
proof -
  obtain u a where ua: "map_of (users (base db)) uid = Some u" "map_of (accounts db) uid = Some a"
    using assms by (auto simp: code_held_def factor_columns_def)
  then obtain hs h where hs: "codes_of e (null_text (totp_recovery_codes a)) = Some hs" "h \<in> set hs" "bcrypt_matches (bcrypt_of e) h code"
    using assms by (auto simp: code_held_def factor_columns_def)
  then have "snd (ValidateRecoveryCode (bcrypt_of e) hs code)" by (auto simp: ValidateRecoveryCode_valid)
  then obtain remaining where "ValidateRecoveryCode (bcrypt_of e) hs code = (remaining, True)" by (metis prod.collapse)
  moreover have "GetUserTOTPState db uid = Row (totp_enabled u, totp_secret a, totp_recovery_codes a)"
    using assms ua by (simp add: GetUserTOTPState_def fetch_def code_held_def)
  ultimately show thesis using that hs(1) ua by (simp add: factor_columns_def)
qed

lemma CAS_works:
  assumes "factor_columns db uid = Some (l, cur)" "\<not> broken db ''CASRecoveryCodes''"
  shows "\<exists>db'. CASRecoveryCodes uid new cur db = Some (db', Suc 0)"
  using assms by (auto simp: CASRecoveryCodes_def update_account_def factor_columns_def)

lemma recovery_attempts_progress:
  assumes held: "\<And>i d. code_held e uid code d \<Longrightarrow> code_held e uid code (others i d)"
    and quiet: "\<And>d. factor_columns (others (2 * j + 1) d) uid = factor_columns d uid"
  shows "code_held e uid code db \<Longrightarrow> k \<le> j \<Longrightarrow> j < k + n \<Longrightarrow> fst (recovery_attempts e others uid code k n db)"
proof (induction n arbitrary: k db)
  case (Suc n)
  define d1 where "d1 = others (2 * k) db"
  define d2 where "d2 = others (2 * k + 1) d1"
  have h1: "code_held e uid code d1" and h2: "code_held e uid code d2" using Suc.prems held unfolding d1_def d2_def by blast+
  obtain en sec stored hs remaining where c: "GetUserTOTPState d1 uid = Row (en, sec, stored)"
      "codes_of e (null_text stored) = Some hs" "ValidateRecoveryCode (bcrypt_of e) hs code = (remaining, True)"
      "\<exists>l. factor_columns d1 uid = Some (l, null_text stored)"
    using code_held_read [OF h1] .
  note unfold = recovery_attempts.simps Let_def d1_def [symmetric] d2_def [symmetric]
  obtain d3 rows where cas: "CASRecoveryCodes uid (marshal_codes e remaining) (null_text stored) d2 = Some (d3, rows)"
    using h2 CAS_defined unfolding code_held_def by blast
  consider "rows = Suc 0" | "rows = 0" "d3 = d2" using CAS_rows [OF cas] by blast
  then show ?case
  proof cases
    case 1
    then show ?thesis unfolding unfold using c cas by simp
  next
    case 2
    have "k \<noteq> j"
    proof
      assume "k = j"
      then obtain l where "factor_columns d2 uid = Some (l, null_text stored)" using quiet c(4) unfolding d2_def by auto
      moreover have "\<not> broken d2 ''CASRecoveryCodes''" using h2 by (simp add: code_held_def)
      ultimately obtain d' where "CASRecoveryCodes uid (marshal_codes e remaining) (null_text stored) d2 = Some (d', Suc 0)"
        using CAS_works by blast
      then show False using cas 2(1) by simp
    qed
    then have "fst (recovery_attempts e others uid code (Suc k) n d2)" using Suc.prems(2,3) by (intro Suc.IH [OF h2]) simp_all
    then show ?thesis unfolding unfold using c(1-3) cas 2 by simp
  qed
qed simp

text \<open>
  C28. A valid recovery code is accepted under interference: as long as concurrent requests leave a matching
  hash stored, the loop accepts the code if in one of its four attempts no one else writes the
  codes between its read and its write; and it always returns.
\<close>

theorem recovery_code_progress:
  assumes "code_held e uid code db"
    and "\<And>i d. code_held e uid code d \<Longrightarrow> code_held e uid code (others i d)"
    and "j < 4" "\<And>d. factor_columns (others (2 * j + 1) d) uid = factor_columns d uid"
  shows "\<exists>db'. consumeRecoveryCode e others uid code db = (True, db')"
proof -
  have "fst (recovery_attempts e others uid code 0 4 db)"
    by (rule recovery_attempts_progress [where j = j], rule assms(2), assumption, rule assms(4), rule assms(1)) (use assms(3) in simp_all)
  then show ?thesis unfolding consumeRecoveryCode_def recoveryCASAttempts_def by (metis prod.collapse)
qed

section \<open>A concrete account\<close>

text \<open>Codes are kept one after another, each followed by a semicolon; a hash is the code after a dollar sign.\<close>

definition sample_unmarshal :: "string \<Rightarrow> string list option" where
  "sample_unmarshal s = Some (butlast (split CHR '';'' (tl s)))"

definition sample_env :: signin_env where
  "sample_env =
     \<lparr>deps_of = sample_deps, hash_of = sample_hash_lib,
      bcrypt_of = \<lparr>bcrypt_hash = (\<lambda>_ p. Some (CHR ''$'' # p)), bcrypt_matches = (\<lambda>h p. h = CHR ''$'' # p)\<rparr>,
      marshal_codes = (\<lambda>hs. CHR ''['' # concat (map (\<lambda>h. h @ '';'') hs)), unmarshal_codes = sample_unmarshal,
      cipher_of = sample_cipher, derive_of = (\<lambda>k. k), VaultKey = ''k1'', VaultKeyPrevious = [],
      sign_jwt = (\<lambda>sub jti ex iat key. Some (sub @ ''.'' @ jti)), JWTSecret = ''js'', proxy_of = sample_proxy,
      vault_wired = True, nanos_of = 1, slot_free = (\<lambda>_. True), rnd_salt = ''0123456789abcdef'', rnd_id = ''fedcba9876543210'',
      rnd_secret = ''12345678901234567890'', rnd_nonce = ''nonce-nonce-'', rnd_codes = (\<lambda>i. (''8bytes..'', ''salt'')), new_user_id = ''u1''\<rparr>"

lemma sample_codes_json: "json_codes sample_env"
proof -
  have "split CHR '';'' (concat (map (\<lambda>h. h @ '';'') hs)) = hs @ [[]]" if "\<forall>h \<in> set hs. plain_hash h" for hs
    using that
  proof (induction hs)
    case (Cons h hs)
    then have "CHR '';'' \<notin> set h" by (auto simp: plain_hash_def is_alnum_def)
    then show ?case using Cons by (simp add: split_piece)
  qed simp
  then show ?thesis by (simp add: json_codes_def codes_of_def sample_env_def sample_unmarshal_def)
qed

definition sample_account :: account where
  "sample_account =
     \<lparr>password_hash = ''$2a$hash'', password_set = 1, display_name = None, totp_secret = Some [],
      totp_recovery_codes = Some ''[$aa;$bb;'', totp_last_step = None, created_at = None\<rparr>"

definition sample_db :: account_db where
  "sample_db =
     \<lparr>base = empty_store\<lparr>users := [(''u1'', \<lparr>email = ''ann@x.io'', role = ''user'', disabled = 0, sessions_valid_after = 0, totp_enabled = 1\<rparr>)]\<rparr>,
      accounts = [(''u1'', sample_account)], attempts = [], identities = [], activity = []\<rparr>"

lemma sample_columns:
  "factor_columns sample_db ''u1'' = Some (None, ''[$aa;$bb;'')" "codes_of sample_env ''[$aa;$bb;'' = Some [''$aa'', ''$bb'']"
  by (simp_all add: factor_columns_def sample_db_def sample_account_def null_text_def codes_of_def sample_env_def sample_unmarshal_def)

lemma sample_stored: "codes_stored sample_env ''u1'' sample_db"
  by (simp add: codes_stored_def sample_columns plain_hash_def is_alnum_def)

definition sample_db' :: account_db where
  "sample_db' = sample_db\<lparr>accounts := [(''u1'', sample_account\<lparr>totp_recovery_codes := Some ''[$bb;''\<rparr>)]\<rparr>"

definition sample_db'' :: account_db where
  "sample_db'' = sample_db\<lparr>accounts := [(''u1'', sample_account\<lparr>totp_recovery_codes := Some ''[$bb;'', totp_last_step := Some 7\<rparr>)]\<rparr>"

lemma sample_run: "visible_run (factor_step sample_env ''u1'') sample_db [Spent ''aa'', Claimed 7] sample_db''"
proof -
  have "factor_step sample_env ''u1'' sample_db (Some (Spent ''aa'')) sample_db'"
  proof (rule factor_step.spend [OF sample_columns(2)])
    show "ValidateRecoveryCode (bcrypt_of sample_env) [''$aa'', ''$bb''] ''aa'' = ([''$bb''], True)"
      by (simp add: sample_env_def)
    show "CASRecoveryCodes ''u1'' (marshal_codes sample_env [''$bb'']) ''[$aa;$bb;'' sample_db = Some (sample_db', Suc 0)"
      by (simp add: CASRecoveryCodes_def update_account_def sample_db_def sample_db'_def sample_env_def sample_account_def
            null_text_def sql_update_def empty_store_def)
  qed
  moreover have "factor_step sample_env ''u1'' sample_db' (Some (Claimed 7)) sample_db''"
    by (rule factor_step.claim) (simp add: ClaimTOTPStep_def update_account_def sample_db_def sample_db'_def sample_db''_def
          sample_account_def sql_update_def empty_store_def)
  ultimately show ?thesis by (blast intro: visible_run.visible visible_run.stop)
qed

theorem second_factor_refines_witness:
  "spec_run (spec_step (bcrypt_of sample_env)) (authority_of sample_env ''u1'' sample_db) [Spent ''aa'', Claimed 7]
     (authority_of sample_env ''u1'' sample_db'') \<and> codes_stored sample_env ''u1'' sample_db''"
  by (rule second_factor_refines [OF sample_codes_json sample_stored sample_run])

theorem second_factor_single_use_witness:
  "sorted_wrt (<) (claims [Spent ''aa'', Claimed 7]) \<and> length (spends [Spent ''aa'', Claimed 7]) \<le> 2 \<and>
   (\<exists>used. list_all2 (bcrypt_matches (bcrypt_of sample_env)) used [''aa''] \<and>
      mset used + unused (authority_of sample_env ''u1'' sample_db'') \<subseteq># {#''$aa'', ''$bb''#})"
  using second_factor_single_use [OF sample_codes_json sample_stored sample_run sample_columns] by (simp add: enrols_def)

theorem recovery_code_progress_witness:
  "\<exists>db'. consumeRecoveryCode sample_env (\<lambda>_ d. d) ''u1'' ''aa'' sample_db = (True, db')"
proof (rule recovery_code_progress [where j = 0])
  show "code_held sample_env ''u1'' ''aa'' sample_db"
    unfolding code_held_def using sample_columns by (auto simp: sample_db_def empty_store_def sample_env_def)
qed simp_all

end
