(* ===== verification/Sign_In.thy ===== *)
theory Sign_In
  imports Second_Factor
begin

text \<open>
  The handlers of \<^verbatim>\<open>internal/handlers/auth.go\<close>, and \<^verbatim>\<open>invalidateCredentials\<close> of
  \<^verbatim>\<open>internal/handlers/user_offboard.go\<close>.

  A handler takes the decoded request body (\<open>None\<close> when it is not valid JSON) and gives its answer
  and the new state.  An answer that carries a token carries it in the body and in the session
  cookie.  The packages outside the repository, the random source, the clock and whether a slot of the password
  hasher is free are fields of the environment.  The delay after three failures is not modelled.
  \<open>others\<close> is what concurrent requests do between the statements of the recovery-code loop.
\<close>

record user_info =
  ui_id :: string
  ui_email :: string
  ui_name :: string
  ui_role :: string
  ui_totp_enabled :: bool
  ui_created_at :: string
  ui_enrollment_required :: bool

datatype answer =
    Reply response
  | SetupRequired bool
  | TOTPRequired
  | SignedIn int string user_info
  | Profile user_info
  | Message string "string option"
  | Enrolment string string
  | RecoveryCodes "string list"

record login_request =
  login_email :: string
  login_password :: string
  login_totp_code :: string

record register_request =
  register_email :: string
  register_password :: string
  register_name :: string

record password_request =
  current_password :: string
  new_password :: string

record code_request =
  code_code :: string
  code_password :: string

abbreviation mail_of :: "signin_env \<Rightarrow> email_lib" where
  "mail_of e \<equiv> email_lib (deps_of e)"

definition setNoStore :: "headers \<Rightarrow> headers" where
  "setNoStore w = header_set ''Cache-Control'' ''no-store'' w"

definition vaultFieldTOTPSecret :: field where
  "vaultFieldTOTPSecret =
     Some \<lparr>fd_name = ''users.totp_secret'', fd_class = InProcessOnly, fd_exitKey = [],
           fd_why = ''the TOTP seed. It is a credential, and it never leaves: the only consumer is totp.ValidateCode, '' @
             ''which takes the seed and a six-digit code and returns a bool. The seed is shown to a user exactly '' @
             ''once, at ENROLMENT, from the value the server just generated rather than from a decrypt of the '' @
             ''column. The boot backfill that seals legacy plaintext seeds decrypts only to tell an '' @
             ''already-sealed row from a cleartext one, and emits nothing.'',
           fd_declaredAt = ''internal/handlers/encrypted_field_ledger.go:148''\<rparr>"

definition decryptTOTPSecret :: "signin_env \<Rightarrow> string \<Rightarrow> string" where
  "decryptTOTPSecret e stored =
     (if stored = [] then []
      else case DecryptStringAny (cipher_of e) (derive_of e) stored vaultFieldTOTPSecret [VaultKey e, VaultKeyPrevious e] None of
             Inr dec \<Rightarrow> dec
           | Inl _ \<Rightarrow> stored)"

text \<open>One row of the backfill: a sealed value is left alone; a bare one is sealed, whether it is the seed or an old ciphertext of it.\<close>

definition migrate_row :: "signin_env \<Rightarrow> bytes \<Rightarrow> string \<times> string \<Rightarrow> account_db \<Rightarrow> account_db" where
  "migrate_row e nonce row db =
     (case row of (uid, stored) \<Rightarrow>
        if stored = [] \<or> IsEncrypted stored then db
        else (let seed = (case DecryptStringAny (cipher_of e) (derive_of e) stored vaultFieldTOTPSecret [VaultKey e, VaultKeyPrevious e] None of
                            Inr dec \<Rightarrow> dec
                          | Inl _ \<Rightarrow> stored)
              in case EncryptString (cipher_of e) (derive_of e) seed (VaultKey e) nonce of
                   None \<Rightarrow> db
                 | Some enc \<Rightarrow> (case StoreTOTPSecret enc uid db of None \<Rightarrow> db | Some db' \<Rightarrow> db')))"

definition MigrateTOTPSecrets :: "signin_env \<Rightarrow> (nat \<Rightarrow> bytes) \<Rightarrow> account_db \<Rightarrow> bool \<times> account_db" where
  "MigrateTOTPSecrets e nonces db =
     (case ListUsersWithTOTPSecret db of
        None \<Rightarrow> (False, db)
      | Some rows \<Rightarrow> (True, fold (\<lambda>(i, row). migrate_row e (nonces i) row) (enumerate 0 rows) db))"

definition Status :: "signin_env \<Rightarrow> request \<Rightarrow> headers \<Rightarrow> account_db \<Rightarrow> answer \<times> account_db" where
  "Status e r w db =
     (case CountUsers db of
        None \<Rightarrow> (Reply (writeInternalError w r ''internal server error''), db)
      | Some n \<Rightarrow> (SetupRequired (n = 0), db))"

section \<open>Sessions\<close>

text \<open>Hours as a duration in nanoseconds, a signed 64-bit integer.\<close>

definition hours_ns :: "int \<Rightarrow> int" where
  "hours_ns h = sint (word_of_int (h * 3600000000000) :: 64 word)"

definition session_ns :: "account_db \<Rightarrow> int" where
  "session_ns db =
     (case GetSessionDurationSetting db of
        Row v \<Rightarrow> if v = [] then hours_ns (7 * 24)
                 else (case scan_int v of
                         Some (hours, _) \<Rightarrow> if hours > 0 then hours_ns hours else hours_ns (7 * 24)
                       | None \<Rightarrow> hours_ns (7 * 24))
      | _ \<Rightarrow> hours_ns (7 * 24))"

definition generateToken :: "signin_env \<Rightarrow> string \<Rightarrow> account_db \<Rightarrow> string option \<times> account_db" where
  "generateToken e uid db =
     (let expires = clock e + session_ns db div 1000000000;
          jti = generateID (rnd_id e) (nanos_of e)
      in case CreateSession (clock e) jti uid expires db of
           None \<Rightarrow> (None, db)
         | Some db' \<Rightarrow> (sign_jwt e uid jti expires (clock e) (JWTSecret e), db'))"

section \<open>First-run setup\<close>

definition claimCollectionInvitationsBestEffort :: "signin_env \<Rightarrow> string \<Rightarrow> string \<Rightarrow> account_db \<Rightarrow> account_db" where
  "claimCollectionInvitationsBestEffort e uid addr db =
     db\<lparr>base := snd (snd (claimCollectionInvitations (deps_of e) (base db) uid addr))\<rparr>"

definition register_error :: "signin_env \<Rightarrow> register_request \<Rightarrow> string \<Rightarrow> account_db \<Rightarrow> validation" where
  "register_error e req addr db =
     first_error (\<lambda>v. v)
       [ValidateRequired ''email'' addr, email_error (mail_of e) addr, validatePasswordWithPolicy db (register_password req),
        if register_name req = [] then None else ValidateStringLength ''name'' (register_name req) 1 255]"

text \<open>\<open>meanwhile\<close> is what other requests do between the count and the insertion, while the body arrives and the password is hashed.\<close>

definition Register ::
  "signin_env \<Rightarrow> (account_db \<Rightarrow> account_db) \<Rightarrow> register_request option \<Rightarrow> request \<Rightarrow> headers \<Rightarrow> account_db \<Rightarrow> answer \<times> account_db" where
  "Register e meanwhile body r w0 db =
     (let w = setNoStore w0
      in case requireConfiguredPrivateControlPlaneIngress w r of
           Some resp \<Rightarrow> (Reply resp, db)
         | None \<Rightarrow>
     (case CountUsers db of
        None \<Rightarrow> (Reply (writeInternalError w r ''internal server error''), db)
      | Some n \<Rightarrow>
     if n > 0 then (Reply (writeConflict w r ''setup already completed''), db)
     else case body of
            None \<Rightarrow> (Reply (writeBadRequest w r ''invalid request body''), meanwhile db)
          | Some req \<Rightarrow>
     (let addr = Canonical (mail_of e) (register_email req); db1 = meanwhile db
      in case register_error e req addr db1 of
           Some err \<Rightarrow> (Reply (writeValidationError w r (Error_text err)), db1)
         | None \<Rightarrow>
     (case Hash (hash_of e) (slot_free e 0) (rnd_salt e) (register_password req) of
        Inl _ \<Rightarrow> (Reply (writeInternalError w r ''internal server error''), db1)
      | Inr hash \<Rightarrow>
     (case CreateFirstAdmin (clock e) (new_user_id e) addr hash (toNullString (register_name req)) db1 of
        ErrNoRows \<Rightarrow> (Reply (writeConflict w r ''setup already completed''), db1)
      | DBError \<Rightarrow> (Reply (writeInternalError w r ''failed to create user''), db1)
      | Row db2 \<Rightarrow>
     (let uid = new_user_id e;
          db3 = claimCollectionInvitationsBestEffort e uid addr db2
      in case generateToken e uid db3 of
           (None, db4) \<Rightarrow> (Reply (writeInternalError w r ''internal server error''), db4)
         | (Some token, db4) \<Rightarrow>
            (SignedIn 201 token \<lparr>ui_id = uid, ui_email = addr, ui_name = register_name req, ui_role = RoleAdmin,
                                ui_totp_enabled = False, ui_created_at = sqlite_datetime (clock e), ui_enrollment_required = False\<rparr>,
             logAuthEvent (proxy_of e) r uid ''auth.setup_completed'' db4)))))))"

section \<open>Signing in\<close>

definition capacityExhausted :: "headers \<Rightarrow> request \<Rightarrow> hash_error + bool \<Rightarrow> response option" where
  "capacityExhausted w r verdict =
     (if verdict = Inl ErrBusy
      then Some (writeError (header_set ''Retry-After'' ''2'' w) r 503 ''server_busy''
                   ''the server is at capacity verifying passwords; retry shortly'')
      else None)"

definition login_failure :: "signin_env \<Rightarrow> request \<Rightarrow> string \<Rightarrow> string \<Rightarrow> account_db \<Rightarrow> account_db" where
  "login_failure e r addr uid db =
     logAuthEvent (proxy_of e) r uid ''auth.login_failed''
       (CreateLoginAttempt (clock e) addr (clientIP (proxy_of e) r) 0 LoginAttemptScopePasswordLogin db)"

definition user_info_of :: "string \<Rightarrow> user_row \<Rightarrow> account \<Rightarrow> bool \<Rightarrow> bool \<Rightarrow> user_info" where
  "user_info_of uid u a enabled required =
     \<lparr>ui_id = uid, ui_email = email u, ui_name = null_text (display_name a), ui_role = role u, ui_totp_enabled = enabled,
      ui_created_at = (case created_at a of Some t \<Rightarrow> sqlite_datetime t | None \<Rightarrow> []), ui_enrollment_required = required\<rparr>"

definition login_finish :: "signin_env \<Rightarrow> request \<Rightarrow> headers \<Rightarrow> string \<Rightarrow> string \<Rightarrow> user_row \<Rightarrow> account \<Rightarrow> bool \<Rightarrow> account_db \<Rightarrow> answer \<times> account_db" where
  "login_finish e r w addr uid u a enabled db =
     (let db1 = CreateLoginAttempt (clock e) addr (clientIP (proxy_of e) r) 1 LoginAttemptScopePasswordLogin db
      in case generateToken e uid db1 of
           (None, db2) \<Rightarrow> (Reply (writeInternalError w r ''internal server error''), db2)
         | (Some token, db2) \<Rightarrow>
            (let db3 = logAuthEvent (proxy_of e) r uid ''auth.login'' db2
             in (SignedIn 200 token (user_info_of uid u a enabled (\<not> enabled \<and> settingBool db3 ''require_totp'' False)), db3)))"

definition spend_factor ::
  "signin_env \<Rightarrow> (nat \<Rightarrow> account_db \<Rightarrow> account_db) \<Rightarrow> string \<Rightarrow> string \<Rightarrow> string \<Rightarrow> account_db \<Rightarrow> bool \<times> account_db" where
  "spend_factor e others uid secret code db =
     (case spendTOTPStep e uid secret code db of
        (True, db') \<Rightarrow> (True, db')
      | (False, db') \<Rightarrow> consumeRecoveryCode e others uid code db')"

definition login_factor ::
  "signin_env \<Rightarrow> (nat \<Rightarrow> account_db \<Rightarrow> account_db) \<Rightarrow> request \<Rightarrow> headers \<Rightarrow> login_request \<Rightarrow> string \<Rightarrow> string \<Rightarrow> user_row \<Rightarrow> account \<Rightarrow> account_db \<Rightarrow> answer \<times> account_db" where
  "login_factor e others r w req addr uid u a db =
     (case GetUserTOTPState db uid of
        Row (enabled, stored, _) \<Rightarrow>
          if enabled \<noteq> 1 then login_finish e r w addr uid u a False db
          else if login_totp_code req = [] then (TOTPRequired, db)
          else (case spend_factor e others uid (decryptTOTPSecret e (null_text stored)) (login_totp_code req) db of
                  (True, db') \<Rightarrow> login_finish e r w addr uid u a True db'
                | (False, db') \<Rightarrow> (Reply (writeUnauthorized w r ''invalid 2FA code''), login_failure e r addr uid db'))
      | _ \<Rightarrow> (Reply (writeInternalError w r ''internal server error''), db))"

text \<open>A legacy hash is replaced after the password was verified; failing to do so does not fail the login.\<close>

definition login_rehash :: "signin_env \<Rightarrow> string \<Rightarrow> string \<Rightarrow> account \<Rightarrow> account_db \<Rightarrow> account_db" where
  "login_rehash e password uid a db =
     (if NeedsRehash (password_hash a)
      then (case Hash (hash_of e) (slot_free e 1) (rnd_salt e) password of
              Inl _ \<Rightarrow> db
            | Inr upgraded \<Rightarrow> (case UpdatePasswordHash uid upgraded db of None \<Rightarrow> db | Some db' \<Rightarrow> db'))
      else db)"

definition login_verify ::
  "signin_env \<Rightarrow> (nat \<Rightarrow> account_db \<Rightarrow> account_db) \<Rightarrow> request \<Rightarrow> headers \<Rightarrow> login_request \<Rightarrow> string \<Rightarrow> account_db \<Rightarrow> answer \<times> account_db" where
  "login_verify e others r w req addr db =
     (case GetAccountByEmail db addr of
        ErrNoRows \<Rightarrow>
          (Reply (writeUnauthorized w r ''invalid credentials''),
           CreateLoginAttempt (clock e) addr (clientIP (proxy_of e) r) 0 LoginAttemptScopePasswordLogin db)
      | DBError \<Rightarrow> (Reply (writeInternalError w r ''internal server error''), db)
      | Row (uid, u, a) \<Rightarrow>
         (let verdict = Verify_Password (hash_of e) (slot_free e 0) (login_password req) (password_hash a)
          in case capacityExhausted w r verdict of
               Some resp \<Rightarrow> (Reply resp, db)
             | None \<Rightarrow>
                if verdict \<noteq> Inr True
                then (Reply (writeUnauthorized w r ''invalid credentials''), login_failure e r addr uid db)
                else if disabled u \<noteq> 0
                then (Reply (writeForbidden w r ''account is disabled''), login_failure e r addr uid db)
                else login_factor e others r w req addr uid u a (login_rehash e (login_password req) uid a db)))"

definition login_error :: "signin_env \<Rightarrow> login_request \<Rightarrow> string \<Rightarrow> validation" where
  "login_error e req addr =
     first_error (\<lambda>v. v) [ValidateRequired ''email'' addr, ValidateRequired ''password'' (login_password req), email_error (mail_of e) addr]"

definition Login ::
  "signin_env \<Rightarrow> (nat \<Rightarrow> account_db \<Rightarrow> account_db) \<Rightarrow> login_request option \<Rightarrow> request \<Rightarrow> headers \<Rightarrow> account_db \<Rightarrow> answer \<times> account_db" where
  "Login e others body r w0 db =
     (let w = setNoStore w0
      in case body of
           None \<Rightarrow> (Reply (writeBadRequest w r ''invalid request body''), db)
         | Some req \<Rightarrow>
     (let addr = Canonical (mail_of e) (login_email req)
      in case login_error e req addr of
           Some err \<Rightarrow> (Reply (writeValidationError w r (Error_text err)), db)
         | None \<Rightarrow>
     (let ipFailCount = (case CountRecentFailedLoginAttemptsByIP (clock e) (clientIP (proxy_of e) r) db of Some n \<Rightarrow> n | None \<Rightarrow> 0)
      in if ipFailCount \<ge> 20
         then (Reply (writeRateLimited w r ''too many failed attempts from this address, try again later''), db)
         else case CountRecentFailedLoginAttemptsByEmailAndScope (clock e) addr LoginAttemptScopePasswordLogin db of
                None \<Rightarrow> (Reply (writeInternalError w r ''internal server error''), db)
              | Some failCount \<Rightarrow>
                 if failCount \<ge> 5
                 then (Reply (writeRateLimited w r ''too many failed attempts, try again in 15 minutes''), db)
                 else login_verify e others r w req addr db)))"

section \<open>Sessions and profile\<close>

definition best_effort :: "(account_db \<Rightarrow> account_db option) \<Rightarrow> account_db \<Rightarrow> account_db" where
  "best_effort f db = (case f db of None \<Rightarrow> db | Some db' \<Rightarrow> db')"

definition Logout :: "signin_env \<Rightarrow> request \<Rightarrow> headers \<Rightarrow> account_db \<Rightarrow> answer \<times> account_db" where
  "Logout e r w db =
     (let db1 = (if GetSessionID r = [] then db else best_effort (RevokeSession (clock e) (GetSessionID r)) db);
          db2 = (if GetUserID r = [] then db1 else logAuthEvent (proxy_of e) r (GetUserID r) ''auth.logout'' db1)
      in (Message ''logged out'' None, db2))"

definition fetch_profile :: "account_db \<Rightarrow> string \<Rightarrow> (user_row \<times> account) fetched" where
  "fetch_profile db uid =
     (case GetUserByID (base db) uid of
        DBError \<Rightarrow> DBError
      | ErrNoRows \<Rightarrow> ErrNoRows
      | Row u \<Rightarrow> (case map_of (accounts db) uid of Some a \<Rightarrow> Row (u, a) | None \<Rightarrow> ErrNoRows))"

definition Me :: "signin_env \<Rightarrow> request \<Rightarrow> headers \<Rightarrow> account_db \<Rightarrow> answer \<times> account_db" where
  "Me e r w0 db =
     (let w = setNoStore w0; uid = GetUserID r
      in if uid = [] then (Reply (writeUnauthorized w r ''not authenticated''), db)
         else case fetch_profile db uid of
                ErrNoRows \<Rightarrow> (Reply (writeNotFound w r ''user not found''), db)
              | DBError \<Rightarrow> (Reply (writeInternalError w r ''internal server error''), db)
              | Row (u, a) \<Rightarrow>
                 (let enabled = (totp_enabled u = 1)
                  in (Profile (user_info_of uid u a enabled (\<not> enabled \<and> settingBool db ''require_totp'' False)), db)))"

definition reload_profile :: "request \<Rightarrow> headers \<Rightarrow> account_db \<Rightarrow> answer \<times> account_db" where
  "reload_profile r w db =
     (case fetch_profile db (GetUserID r) of
        Row (u, a) \<Rightarrow> (Profile (user_info_of (GetUserID r) u a (totp_enabled u = 1) False), db)
      | _ \<Rightarrow> (Reply (writeInternalError w r ''internal server error''), db))"

definition UpdateMe :: "signin_env \<Rightarrow> string option option \<Rightarrow> request \<Rightarrow> headers \<Rightarrow> account_db \<Rightarrow> answer \<times> account_db" where
  "UpdateMe e body r w db =
     (if GetUserID r = [] then (Reply (writeUnauthorized w r ''not authenticated''), db)
      else case body of
             None \<Rightarrow> (Reply (writeBadRequest w r ''invalid request body''), db)
           | Some None \<Rightarrow> reload_profile r w db
           | Some (Some nm) \<Rightarrow>
              (case ValidateStringLength ''name'' nm 1 255 of
                 Some err \<Rightarrow> (Reply (writeValidationError w r (Error_text err)), db)
               | None \<Rightarrow>
                  (case UpdateUserName nm (GetUserID r) db of
                     None \<Rightarrow> (Reply (writeInternalError w r ''internal server error''), db)
                   | Some db' \<Rightarrow> reload_profile r w db')))"

section \<open>Passwords\<close>

text \<open>Everything that authenticates as the user stops working; every statement is tried whatever became of the others.\<close>

definition revoke_identities :: "signin_env \<Rightarrow> request \<Rightarrow> string \<Rightarrow> account_db \<Rightarrow> account_db" where
  "revoke_identities e r uid db =
     (case ListServiceIdentitiesByUser uid db of
        None \<Rightarrow> db
      | Some names \<Rightarrow>
         if names = [] then db
         else (case RevokeServiceIdentitiesByUser (clock e) uid db of
                 None \<Rightarrow> db
               | Some db' \<Rightarrow> LogActivityFromRequest (proxy_of e) r ''admin.service_identities_revoked'' db'))"

definition purge_targets :: "signin_env \<Rightarrow> request \<Rightarrow> string \<Rightarrow> account_db \<Rightarrow> account_db" where
  "purge_targets e r uid db =
     (if vault_wired e
      then (case PurgeTargetsConfiguredByUser (open_targets (deps_of e)) (seal_targets (deps_of e)) (clock e) (base db) uid of
              (s, dropped) \<Rightarrow>
                if dropped = 0 then db\<lparr>base := s\<rparr>
                else LogActivityFromRequest (proxy_of e) r ''admin.user_targets_purged'' (db\<lparr>base := s\<rparr>))
      else db)"

definition invalidateCredentials :: "signin_env \<Rightarrow> request \<Rightarrow> string \<Rightarrow> account_db \<Rightarrow> account_db" where
  "invalidateCredentials e r uid db =
     (if uid = [] then db
      else (let db1 = best_effort (InvalidateUserSessions (clock e) uid) db;
                db2 = best_effort (RevokeUserSessions (clock e) uid) db1;
                db3 = best_effort (RevokeAPIKeysByUser (clock e) uid) db2
            in purge_targets e r uid (revoke_identities e r uid db3)))"

definition ChangePassword ::
  "signin_env \<Rightarrow> password_request option \<Rightarrow> request \<Rightarrow> headers \<Rightarrow> account_db \<Rightarrow> answer \<times> account_db" where
  "ChangePassword e body r w0 db =
     (let w = setNoStore w0; uid = GetUserID r
      in if uid = [] then (Reply (writeUnauthorized w r ''not authenticated''), db)
         else case body of
                None \<Rightarrow> (Reply (writeBadRequest w r ''invalid request body''), db)
              | Some req \<Rightarrow>
     if current_password req = [] \<or> new_password req = []
     then (Reply (writeBadRequest w r ''current_password and new_password are required''), db)
     else case validatePasswordWithPolicy db (new_password req) of
            Some err \<Rightarrow> (Reply (writeBadRequest w r (''new password '' @ snd err)), db)
          | None \<Rightarrow>
     (case GetPasswordHashByUserID db uid of
        ErrNoRows \<Rightarrow> (Reply (writeNotFound w r ''user not found''), db)
      | DBError \<Rightarrow> (Reply (writeInternalError w r ''internal server error''), db)
      | Row passwordHash \<Rightarrow>
     (let verdict = Verify_Password (hash_of e) (slot_free e 0) (current_password req) passwordHash
      in case capacityExhausted w r verdict of
           Some resp \<Rightarrow> (Reply resp, db)
         | None \<Rightarrow>
     if verdict \<noteq> Inr True then (Reply (writeUnauthorized w r ''current password is incorrect''), db)
     else case Hash (hash_of e) (slot_free e 1) (rnd_salt e) (new_password req) of
            Inl _ \<Rightarrow> (Reply (writeInternalError w r ''internal server error''), db)
          | Inr newHash \<Rightarrow>
     (case SetPasswordHash newHash uid db of
        None \<Rightarrow> (Reply (writeInternalError w r ''internal server error''), db)
      | Some db1 \<Rightarrow>
     (let db2 = LogActivityFromRequest (proxy_of e) r ''auth.password_changed'' (invalidateCredentials e r uid db1)
      in case generateToken e uid db2 of (token, db3) \<Rightarrow> (Message ''password changed successfully'' token, db3))))))"

text \<open>\<open>meanwhile\<close> is what other requests do while the password is hashed, between the check and the compare-and-set.\<close>

definition SetInitialPassword ::
  "signin_env \<Rightarrow> (account_db \<Rightarrow> account_db) \<Rightarrow> string option \<Rightarrow> request \<Rightarrow> headers \<Rightarrow> account_db \<Rightarrow> answer \<times> account_db" where
  "SetInitialPassword e meanwhile body r w0 db =
     (let w = setNoStore w0; uid = GetUserID r;
          already = Reply (writeError w r 409 ''password_already_set'' ''this account already has a password; use change-password instead'')
      in if uid = [] then (Reply (writeUnauthorized w r ''not authenticated''), db)
         else case body of
                None \<Rightarrow> (Reply (writeBadRequest w r ''invalid request body''), db)
              | Some password \<Rightarrow>
     if password = [] then (Reply (writeBadRequest w r ''password is required''), db)
     else case validatePasswordWithPolicy db password of
            Some err \<Rightarrow> (Reply (writeBadRequest w r (''password '' @ snd err)), db)
          | None \<Rightarrow>
     (case GetUserPasswordSet db uid of
        Row passwordSet \<Rightarrow>
     if passwordSet \<noteq> 0 then (already, db)
     else (let db1 = meanwhile db
           in case Hash (hash_of e) (slot_free e 0) (rnd_salt e) password of
                Inl _ \<Rightarrow> (Reply (writeInternalError w r ''internal server error''), db1)
              | Inr newHash \<Rightarrow>
     (case SetInitialPasswordHash newHash uid db1 of
        None \<Rightarrow> (Reply (writeInternalError w r ''internal server error''), db1)
      | Some (db2, rows) \<Rightarrow>
         if rows = 0 then (already, db2)
         else if rows \<noteq> 1 then (Reply (writeInternalError w r ''internal server error''), db2)
         else (Message ''password set successfully'' None,
               LogActivityFromRequest (proxy_of e) r ''auth.initial_password_set'' db2)))
      | _ \<Rightarrow> (Reply (writeInternalError w r ''internal server error''), db)))"

section \<open>The second factor\<close>

definition TOTPSetup :: "signin_env \<Rightarrow> request \<Rightarrow> headers \<Rightarrow> account_db \<Rightarrow> answer \<times> account_db" where
  "TOTPSetup e r w db =
     (let uid = GetUserID r
      in if uid = [] then (Reply (writeUnauthorized w r ''not authenticated''), db)
         else case GetUserByID (base db) uid of
                Row u \<Rightarrow>
     if totp_enabled u = 1 then (Reply (writeConflict w r ''2FA is already enabled''), db)
     else case GenerateSecret (rnd_secret e) of
            None \<Rightarrow> (Reply (writeInternalError w r ''internal server error''), db)
          | Some secret \<Rightarrow>
     (case EncryptString (cipher_of e) (derive_of e) secret (VaultKey e) (rnd_nonce e) of
        None \<Rightarrow> (Reply (writeInternalError w r ''internal server error''), db)
      | Some encSecret \<Rightarrow>
     (case StoreTOTPSecret encSecret uid db of
        None \<Rightarrow> (Reply (writeInternalError w r ''internal server error''), db)
      | Some db1 \<Rightarrow>
         (Enrolment secret (GenerateOTPAuthURI (email u) ''Trustissues'' secret),
          LogActivityFromRequest (proxy_of e) r ''totp.setup_started'' db1)))
              | _ \<Rightarrow> (Reply (writeInternalError w r ''internal server error''), db))"

definition reauth_failure :: "signin_env \<Rightarrow> request \<Rightarrow> string \<Rightarrow> account_db \<Rightarrow> account_db" where
  "reauth_failure e r addr = CreateLoginAttempt (clock e) addr (clientIP (proxy_of e) r) 0 LoginAttemptScopeSessionReauth"

definition reauth_failures :: "signin_env \<Rightarrow> string \<Rightarrow> account_db \<Rightarrow> nat" where
  "reauth_failures e addr db =
     (case CountRecentFailedLoginAttemptsByEmailAndScope (clock e) addr LoginAttemptScopeSessionReauth db of Some n \<Rightarrow> n | None \<Rightarrow> 0)"

text \<open>The owner's password, if one was ever set.\<close>

definition verify_owner :: "signin_env \<Rightarrow> headers \<Rightarrow> request \<Rightarrow> string \<Rightarrow> string \<Rightarrow> account_db \<Rightarrow> (answer \<times> account_db) option" where
  "verify_owner e w r addr password db =
     (case GetUserPasswordSet db (GetUserID r) of
        Row passwordSet \<Rightarrow>
          if passwordSet = 0 then None
          else (case GetPasswordHashByUserID db (GetUserID r) of
                  Row passwordHash \<Rightarrow>
                    (let verdict = Verify_Password (hash_of e) (slot_free e 0) password passwordHash
                     in case capacityExhausted w r verdict of
                          Some resp \<Rightarrow> Some (Reply resp, db)
                        | None \<Rightarrow>
                           if verdict \<noteq> Inr True
                           then Some (Reply (writeUnauthorized w r ''your password is required to enable two-factor authentication''),
                                      reauth_failure e r addr db)
                           else None)
                | _ \<Rightarrow> Some (Reply (writeInternalError w r ''internal server error''), db))
      | _ \<Rightarrow> Some (Reply (writeInternalError w r ''internal server error''), db))"

definition TOTPVerify :: "signin_env \<Rightarrow> code_request option \<Rightarrow> request \<Rightarrow> headers \<Rightarrow> account_db \<Rightarrow> answer \<times> account_db" where
  "TOTPVerify e body r w db =
     (let uid = GetUserID r
      in if uid = [] then (Reply (writeUnauthorized w r ''not authenticated''), db)
         else case body of
                None \<Rightarrow> (Reply (writeBadRequest w r ''code is required''), db)
              | Some req \<Rightarrow>
     if code_code req = [] then (Reply (writeBadRequest w r ''code is required''), db)
     else case GetUserEmailByID (base db) uid of
            Row addr \<Rightarrow>
     if reauth_failures e addr db \<ge> 5 then (Reply (writeRateLimited w r ''too many attempts, try again in 15 minutes''), db)
     else case verify_owner e w r addr (code_password req) db of
            Some refused \<Rightarrow> refused
          | None \<Rightarrow>
     (case GetTOTPSecret db uid of
        Row stored \<Rightarrow>
     (let secret = decryptTOTPSecret e (null_text stored)
      in if secret = [] then (Reply (writeBadRequest w r ''run setup first''), db)
         else if \<not> ValidateCode (clock e) secret (code_code req)
         then (Reply (writeUnauthorized w r ''invalid code''), reauth_failure e r addr db)
         else case GenerateRecoveryCodes (bcrypt_of e) (rnd_codes e) of
                None \<Rightarrow> (Reply (writeInternalError w r ''internal server error''), db)
              | Some (plaintext, hashed) \<Rightarrow>
     (case EnableTOTP (marshal_codes e hashed) uid db of
        None \<Rightarrow> (Reply (writeInternalError w r ''internal server error''), db)
      | Some db1 \<Rightarrow> (RecoveryCodes plaintext, LogActivityFromRequest (proxy_of e) r ''totp.enabled'' db1)))
      | _ \<Rightarrow> (Reply (writeInternalError w r ''internal server error''), db))
          | _ \<Rightarrow> (Reply (writeInternalError w r ''internal server error''), db))"

definition disable_with_factor ::
  "signin_env \<Rightarrow> (nat \<Rightarrow> account_db \<Rightarrow> account_db) \<Rightarrow> headers \<Rightarrow> request \<Rightarrow> string \<Rightarrow> string \<Rightarrow> account_db \<Rightarrow> answer \<times> account_db" where
  "disable_with_factor e others w r addr code db =
     (case GetUserTOTPState db (GetUserID r) of
        Row (_, stored, _) \<Rightarrow>
          (case spend_factor e others (GetUserID r) (decryptTOTPSecret e (null_text stored)) code db of
             (False, db') \<Rightarrow> (Reply (writeUnauthorized w r ''invalid 2FA or recovery code''), reauth_failure e r addr db')
           | (True, db') \<Rightarrow>
              (case DisableTOTP (GetUserID r) db' of
                 None \<Rightarrow> (Reply (writeInternalError w r ''internal server error''), db')
               | Some db'' \<Rightarrow> (Message ''2FA disabled'' None, LogActivityFromRequest (proxy_of e) r ''totp.disabled'' db'')))
      | _ \<Rightarrow> (Reply (writeInternalError w r ''internal server error''), db))"

definition TOTPDisable ::
  "signin_env \<Rightarrow> (nat \<Rightarrow> account_db \<Rightarrow> account_db) \<Rightarrow> code_request option \<Rightarrow> request \<Rightarrow> headers \<Rightarrow> account_db \<Rightarrow> answer \<times> account_db" where
  "TOTPDisable e others body r w db =
     (let uid = GetUserID r
      in if uid = [] then (Reply (writeUnauthorized w r ''not authenticated''), db)
         else case body of
                None \<Rightarrow> (Reply (writeBadRequest w r ''invalid request body''), db)
              | Some req \<Rightarrow>
     if code_password req = [] \<or> code_code req = [] then (Reply (writeBadRequest w r ''password and code are required''), db)
     else case GetUserEmailByID (base db) uid of
            Row addr \<Rightarrow>
     if reauth_failures e addr db \<ge> 5 then (Reply (writeRateLimited w r ''too many failed attempts, try again in 15 minutes''), db)
     else (case GetPasswordHashByUserID db uid of
             Row passwordHash \<Rightarrow>
     (let verdict = Verify_Password (hash_of e) (slot_free e 0) (code_password req) passwordHash
      in case capacityExhausted w r verdict of
           Some resp \<Rightarrow> (Reply resp, db)
         | None \<Rightarrow>
     if verdict \<noteq> Inr True then (Reply (writeUnauthorized w r ''invalid password''), reauth_failure e r addr db)
     else if settingBool db ''require_totp'' False
     then (Reply (writeError w r 409 ''totp_required''
             (''two-factor authentication is required by the vault policy and cannot be disabled; '' @
              ''ask an administrator to change the policy first'')), db)
     else disable_with_factor e others w r addr (code_code req) db)
           | _ \<Rightarrow> (Reply (writeInternalError w r ''internal server error''), db))
          | _ \<Rightarrow> (Reply (writeInternalError w r ''internal server error''), db))"

end
