(* ===== verification/Blind_Index.thy ===== *)
theory Blind_Index
  imports Audit_Names Egress_Authority Scan_Text
begin

text \<open>
  The keyed lookup tokens of entries in \<^verbatim>\<open>internal/handlers/vault.go\<close>: the index of a URL's host and of a name
  inside one vault scope, the values a lookup asks for while a master key is being rotated, the
  check that a name is free in its scope, and the two unique indexes of the table (migration
  \<^verbatim>\<open>00045\<close>).  HMAC-SHA256 is the argument \<open>mac\<close>, \<^verbatim>\<open>url.Parse\<close> the argument \<open>parse\<close>.
\<close>

type_synonym mac = "bytes \<Rightarrow> bytes \<Rightarrow> bytes"

definition normalizeVaultHost :: "url_parse \<Rightarrow> string \<Rightarrow> string" where
  "normalizeVaultHost parse raw0 =
     (let raw1 = trim_space raw0
      in if raw1 = [] then []
         else (let raw2 = (if contains raw1 ''://'' then raw1 else ''https://'' @ raw1)
               in case parse raw2 of
                    None \<Rightarrow> []
                  | Some u \<Rightarrow> if u_hostname u = [] then [] else to_lower (u_hostname u)))"

definition bidxScope :: "string \<Rightarrow> string option \<Rightarrow> string" where
  "bidxScope uid cid = (case cid of Some c \<Rightarrow> if c = [] then ''u:'' @ uid else ''c:'' @ c | None \<Rightarrow> ''u:'' @ uid)"

definition url_message :: "string \<Rightarrow> string \<Rightarrow> string" where
  "url_message scope host = dec_text (length scope) @ '':'' @ scope @ ''|'' @ host"

definition blindIndexWith :: "mac \<Rightarrow> url_parse \<Rightarrow> bytes \<Rightarrow> string \<Rightarrow> string \<Rightarrow> string" where
  "blindIndexWith mac parse key scope raw0 =
     (let host = normalizeVaultHost parse raw0
      in if host = [] \<or> scope = [] then [] else hex_encode (mac key (url_message scope host)))"

definition urlBlindIndex :: "mac \<Rightarrow> url_parse \<Rightarrow> vault_keys \<Rightarrow> string \<Rightarrow> string \<Rightarrow> string" where
  "urlBlindIndex mac parse ks scope raw0 = blindIndexWith mac parse (key_bidx (current ks)) scope raw0"

definition name_message :: "string \<Rightarrow> string \<Rightarrow> string" where
  "name_message scope nm = ''name:v2|'' @ dec_text (length scope) @ '':'' @ scope @ ''|'' @ nm"

definition nameBlindIndexWith :: "mac \<Rightarrow> bytes \<Rightarrow> string \<Rightarrow> string \<Rightarrow> string" where
  "nameBlindIndexWith mac key scope nm =
     (if scope = [] \<or> nm = [] then [] else hex_encode (mac key (name_message scope nm)))"

definition scopedNameBlindIndex :: "mac \<Rightarrow> vault_keys \<Rightarrow> string \<Rightarrow> string \<Rightarrow> string" where
  "scopedNameBlindIndex mac ks scope nm = nameBlindIndexWith mac (key_bidx (current ks)) scope nm"

definition nameBlindIndex :: "mac \<Rightarrow> vault_keys \<Rightarrow> string \<Rightarrow> string \<Rightarrow> string" where
  "nameBlindIndex mac ks uid nm =
     (if uid = [] \<or> nm = [] then [] else scopedNameBlindIndex mac ks (bidxScope uid None) nm)"

text \<open>The current key's value first, then the previous key's if it is another one; empty values are left out.\<close>

definition candidates :: "(bytes \<Rightarrow> string) \<Rightarrow> vault_keys \<Rightarrow> string list" where
  "candidates index ks =
     (let cur = index (key_bidx (current ks))
      in (if cur = [] then [] else [cur]) @
         (case previous ks of
            None \<Rightarrow> []
          | Some p \<Rightarrow> (let prev = index (key_bidx p) in if prev \<noteq> [] \<and> prev \<noteq> cur then [prev] else [])))"

definition nameBlindIndexCandidates :: "mac \<Rightarrow> vault_keys \<Rightarrow> string \<Rightarrow> string \<Rightarrow> string list" where
  "nameBlindIndexCandidates mac ks scope nm = candidates (\<lambda>k. nameBlindIndexWith mac k scope nm) ks"

definition urlBlindIndexCandidates :: "mac \<Rightarrow> url_parse \<Rightarrow> vault_keys \<Rightarrow> string \<Rightarrow> string \<Rightarrow> string list" where
  "urlBlindIndexCandidates mac parse ks scope raw0 = candidates (\<lambda>k. blindIndexWith mac parse k scope raw0) ks"

section \<open>Names inside a scope\<close>

definition in_collection :: "entry_row \<Rightarrow> bool" where
  "in_collection r \<longleftrightarrow> collection_id r \<noteq> None \<and> collection_id r \<noteq> Some []"

definition entry_names :: "(entry_row \<Rightarrow> bool) \<Rightarrow> store \<Rightarrow> (string \<times> string) list" where
  "entry_names P s = map (\<lambda>(i, r). (i, entry_name r)) (filter (\<lambda>(i, r). P r) (entries s))"

definition ListCollectionVaultEntryNames :: "store \<Rightarrow> string \<Rightarrow> (string \<times> string) list option" where
  "ListCollectionVaultEntryNames s cid =
     (if fails s ''ListCollectionVaultEntryNames'' then None else Some (entry_names (\<lambda>r. collection_id r = Some cid) s))"

definition ListPersonalVaultEntryNames :: "store \<Rightarrow> string \<Rightarrow> (string \<times> string) list option" where
  "ListPersonalVaultEntryNames s uid =
     (if fails s ''ListPersonalVaultEntryNames'' then None
      else Some (entry_names (\<lambda>r. user_id r = uid \<and> \<not> in_collection r) s))"

fun name_taken :: "block_cipher \<Rightarrow> vault_keys \<Rightarrow> string \<Rightarrow> string \<Rightarrow> (string \<times> string) list \<Rightarrow> bool option" where
  "name_taken E ks nm except [] = Some False"
| "name_taken E ks nm except ((i, stored) # rows) =
     (if i = except then name_taken E ks nm except rows
      else case decryptColumn E ks stored vaultFieldName of
             Inl _ \<Rightarrow> None
           | Inr plain \<Rightarrow> if plain = nm then Some True else name_taken E ks nm except rows)"

text \<open>The names are opened and compared; \<open>None\<close> when the rows cannot be listed or one of the names cannot be opened.\<close>

definition vaultEntryNameExistsInScope ::
  "block_cipher \<Rightarrow> vault_keys \<Rightarrow> store \<Rightarrow> string \<Rightarrow> string option \<Rightarrow> string \<Rightarrow> string \<Rightarrow> bool option" where
  "vaultEntryNameExistsInScope E ks s uid cid nm except =
     (case (case cid of
              Some c \<Rightarrow> if c \<noteq> [] then ListCollectionVaultEntryNames s c else ListPersonalVaultEntryNames s uid
            | None \<Rightarrow> ListPersonalVaultEntryNames s uid) of
        None \<Rightarrow> None
      | Some rows \<Rightarrow> name_taken E ks nm except rows)"

text \<open>The unique indexes: a non-empty token appears once per owner among personal entries and once per collection.\<close>

definition name_key :: "entry_row \<Rightarrow> (string + string) \<times> string" where
  "name_key r = (if in_collection r then Inr (the (collection_id r)) else Inl (user_id r), name_bidx r)"

definition unique_names :: "store \<Rightarrow> bool" where
  "unique_names s \<longleftrightarrow> distinct (map (\<lambda>(i, r). name_key r) (filter (\<lambda>(i, r). name_bidx r \<noteq> []) (entries s)))"

section \<open>What a token tells apart\<close>

lemma framed_inject:
  assumes "dec_text (length s) @ CHR '':'' # s @ CHR ''|'' # x = dec_text (length s') @ CHR '':'' # s' @ CHR ''|'' # y"
  shows "s = s' \<and> x = y"
proof -
  have sc: "scan_digits (dec_text (length t) @ CHR '':'' # z) = Some (int (length t), CHR '':'' # z)" for t z :: string
    by (rule scan_digits_text) (simp add: is_digit_def)
  have "length s = length s'" "s @ CHR ''|'' # x = s' @ CHR ''|'' # y"
    using arg_cong [OF assms, of scan_digits] unfolding sc by auto
  then show ?thesis by (metis append_eq_append_conv list.inject)
qed

lemma url_message_inject: "url_message s h = url_message s' h' \<Longrightarrow> s = s' \<and> h = h'"
  unfolding url_message_def by (rule framed_inject) simp

lemma name_message_inject: "name_message s n = name_message s' n' \<Longrightarrow> s = s' \<and> n = n'"
  unfolding name_message_def by (rule framed_inject) simp

lemma messages_apart: "name_message s n \<noteq> url_message s' h"
proof -
  have "is_digit (hd (url_message s' h))"
    using dec_text_digits [of "length s'"] by (cases "dec_text (length s')") (auto simp: url_message_def)
  moreover have "\<not> is_digit (hd (name_message s n))" by (simp add: name_message_def is_digit_def)
  ultimately show ?thesis by metis
qed

lemma bidxScope_inject:
  "bidxScope u c = bidxScope u' c' \<Longrightarrow>
   (case c of None \<Rightarrow> [] | Some x \<Rightarrow> x) = (case c' of None \<Rightarrow> [] | Some x \<Rightarrow> x) \<and> ((c = None \<or> c = Some []) \<longrightarrow> u = u')"
  by (auto simp: bidxScope_def split: option.splits if_splits)

lemma hex_encode_inject:
  assumes "hex_encode a = hex_encode b"
  shows "a = b"
  using assms
proof (induction a arbitrary: b)
  case Nil
  then show ?case by (cases b) (auto simp: hex_encode_def)
next
  case (Cons c a)
  then obtain d b' where b: "b = d # b'" by (cases b) (auto simp: hex_encode_def)
  have nth: "hex_digits ! i = hex_digits ! j \<longleftrightarrow> i = j" if "i < 16" "j < 16" for i j
    by (rule nth_eq_iff_index_eq) (use that in \<open>simp_all add: hex_digits_def\<close>)
  have small: "byte_val x div 16 < 16" "byte_val x mod 16 < 16" for x
    using byte_val_less [of x] by (simp_all add: less_mult_imp_div_less)
  have "byte_val c div 16 = byte_val d div 16" "byte_val c mod 16 = byte_val d mod 16" "hex_encode a = hex_encode b'"
    using Cons.prems b by (simp_all add: hex_encode_def nth small)
  then have "byte_val c = byte_val d" by (metis div_mult_mod_eq)
  then show ?case using b Cons.IH [OF \<open>hex_encode a = hex_encode b'\<close>] by simp
qed


text \<open>Two different messages with the same code.\<close>

definition collides :: "mac \<Rightarrow> bytes \<Rightarrow> bool" where
  "collides mac key \<longleftrightarrow> (\<exists>m m'. m \<noteq> m' \<and> mac key m = mac key m')"

lemma mac_message: "hex_encode (mac key m) = hex_encode (mac key m') \<Longrightarrow> m = m' \<or> collides mac key"
  by (auto simp: collides_def dest: hex_encode_inject)

lemma name_token_separates:
  assumes "nameBlindIndexWith mac key s n = nameBlindIndexWith mac key s' n'" "nameBlindIndexWith mac key s n \<noteq> []" "\<not> collides mac key"
  shows "s = s' \<and> n = n'"
  using assms mac_message [of mac key "name_message s n" "name_message s' n'"] name_message_inject [of s n s' n']
  by (auto simp: nameBlindIndexWith_def split: if_splits)

lemma url_token_separates:
  assumes "blindIndexWith mac parse key s u = blindIndexWith mac parse key s' u'" "blindIndexWith mac parse key s u \<noteq> []" "\<not> collides mac key"
  shows "s = s' \<and> normalizeVaultHost parse u = normalizeVaultHost parse u'"
  using assms mac_message [of mac key "url_message s (normalizeVaultHost parse u)" "url_message s' (normalizeVaultHost parse u')"]
    url_message_inject [of s "normalizeVaultHost parse u" s' "normalizeVaultHost parse u'"]
  by (auto simp: blindIndexWith_def Let_def split: if_splits)

lemma tokens_apart:
  assumes "nameBlindIndexWith mac key s n = blindIndexWith mac parse key s' u" "nameBlindIndexWith mac key s n \<noteq> []"
  shows "collides mac key"
  using assms mac_message [of mac key "name_message s n" "url_message s' (normalizeVaultHost parse u)"]
    messages_apart [of s n s' "normalizeVaultHost parse u"]
  by (auto simp: nameBlindIndexWith_def blindIndexWith_def Let_def split: if_splits)

text \<open>A lookup asks for every value that can be stored: the token under the current or, during a rotation, the previous key.\<close>

lemma candidates_complete:
  assumes "k = current ks \<or> previous ks = Some k" "index (key_bidx k) \<noteq> []"
  shows "index (key_bidx k) \<in> set (candidates index ks)"
  using assms by (auto simp: candidates_def Let_def)

lemma candidates_sound: "v \<in> set (candidates index ks) \<Longrightarrow> v \<noteq> [] \<and> (\<exists>k. (k = current ks \<or> previous ks = Some k) \<and> v = index (key_bidx k))"
  by (cases "previous ks") (auto simp: candidates_def Let_def split: if_splits)

lemma candidates_distinct: "distinct (candidates index ks)" "length (candidates index ks) \<le> 2"
  by (auto simp: candidates_def Let_def split: option.splits)

definition opens_to :: "block_cipher \<Rightarrow> vault_keys \<Rightarrow> string \<Rightarrow> string \<Rightarrow> string \<times> string \<Rightarrow> bool" where
  "opens_to E ks nm except row \<longleftrightarrow> fst row \<noteq> except \<and> decryptColumn E ks (snd row) vaultFieldName = Inr nm"

lemma name_taken_Some: "name_taken E ks nm except rows = Some b \<Longrightarrow> b \<longleftrightarrow> list_ex (opens_to E ks nm except) rows"
  by (induction rows) (auto simp: opens_to_def split: if_splits sum.splits)

end
