(* ===== verification/Admin_Tables.thy ===== *)
theory Admin_Tables
  imports Sign_In Blind_Index
begin

text \<open>
  The tables and statements that the administration of users, invitations and API keys adds:
  \<^verbatim>\<open>internal/db/users.sql.go\<close>, \<^verbatim>\<open>invitations.sql.go\<close>, \<^verbatim>\<open>api_keys.sql.go\<close>, \<^verbatim>\<open>integration.sql.go\<close>, the statements on
  entries of \<^verbatim>\<open>vault.sql.go\<close> that a deletion runs, and the retention of login attempts.

  The guards that keep the last administrator are part of the statements, as they are in the
  code.  Deleting a user has the effects of the foreign keys: sessions, API keys and memberships go, references from
  the activity log and from invitations become null.
\<close>

record account_invitation =
  inv_code :: string
  inv_code_hash :: string
  inv_email :: string
  inv_name :: string
  inv_status :: string
  inv_role :: string
  inv_created_by :: "string option"
  inv_redeemed_by :: "string option"
  inv_expires_at :: int
  inv_created_at :: "int option"

text \<open>The columns of an API key that authentication does not read; the key's hash links it to its other columns.\<close>

record key_info =
  ki_hash :: string
  ki_name :: string
  ki_prefix :: string
  ki_created_at :: "int option"

record admin_db =
  acc :: account_db
  invites :: "(string \<times> account_invitation) list"
  key_infos :: "(string \<times> key_info) list"

abbreviation store_of :: "admin_db \<Rightarrow> store" where
  "store_of db \<equiv> base (acc db)"

definition with_store :: "admin_db \<Rightarrow> store \<Rightarrow> admin_db" where
  "with_store db s = db\<lparr>acc := (acc db)\<lparr>base := s\<rparr>\<rparr>"

section \<open>Users\<close>

definition active_admin :: "string \<times> user_row \<Rightarrow> bool" where
  "active_admin row \<longleftrightarrow> role (snd row) = ''admin'' \<and> disabled (snd row) = 0"

definition admin_count :: "store \<Rightarrow> nat" where
  "admin_count s = length (filter active_admin (users s))"

definition CountAdmins :: "store \<Rightarrow> nat option" where
  "CountAdmins s = (if fails s ''CountAdmins'' then None else Some (admin_count s))"

text \<open>An update of the user \<open>uid\<close>, if the row satisfies the condition: the new rows and the number of rows affected.\<close>

definition update_user_where :: "string \<Rightarrow> string \<Rightarrow> (user_row \<Rightarrow> bool) \<Rightarrow> (user_row \<Rightarrow> user_row) \<Rightarrow> store \<Rightarrow> (store \<times> nat) option" where
  "update_user_where stmt uid P f s =
     (if fails s stmt then None
      else case map_of (users s) uid of
             Some u \<Rightarrow> if P u then Some (s\<lparr>users := sql_update uid f (users s)\<rparr>, 1) else Some (s, 0)
           | None \<Rightarrow> Some (s, 0))"

definition UpdateUserRoleIfNotLastAdmin :: "string \<Rightarrow> string \<Rightarrow> store \<Rightarrow> (store \<times> nat) option" where
  "UpdateUserRoleIfNotLastAdmin rl uid s =
     update_user_where ''UpdateUserRoleIfNotLastAdmin'' uid
       (\<lambda>u. rl = ''admin'' \<or> role u \<noteq> ''admin'' \<or> disabled u = 1 \<or> admin_count s > 1) (\<lambda>u. u\<lparr>role := rl\<rparr>) s"

definition SetUserDisabledIfNotLastAdmin :: "int \<Rightarrow> string \<Rightarrow> store \<Rightarrow> (store \<times> nat) option" where
  "SetUserDisabledIfNotLastAdmin d uid s =
     update_user_where ''SetUserDisabledIfNotLastAdmin'' uid
       (\<lambda>u. d = 0 \<or> role u \<noteq> ''admin'' \<or> disabled u = 1 \<or> admin_count s > 1) (\<lambda>u. u\<lparr>disabled := d\<rparr>) s"

definition protected_impact :: "store \<Rightarrow> string \<Rightarrow> bool" where
  "protected_impact s uid \<longleftrightarrow>
     list_ex (\<lambda>((c, u), _). u = uid \<and> (case map_of (collections s) c of Some p \<Rightarrow> p \<noteq> ''standard'' | None \<Rightarrow> False)) (members s) \<or>
     list_ex (\<lambda>(_, r). user_id r = uid \<and>
       (case collection_id r of
          Some c \<Rightarrow> (case map_of (collections s) c of Some p \<Rightarrow> p \<noteq> ''standard'' | None \<Rightarrow> False)
        | None \<Rightarrow> False)) (entries s)"

definition UserHasProtectedCollectionImpact :: "store \<Rightarrow> string \<Rightarrow> bool option" where
  "UserHasProtectedCollectionImpact s uid =
     (if fails s ''UserHasProtectedCollectionImpact'' then None else Some (protected_impact s uid))"

text \<open>What the foreign keys do when the user goes.\<close>

definition unlink :: "string \<Rightarrow> string option \<Rightarrow> string option" where
  "unlink uid v = (if v = Some uid then None else v)"

definition cascade :: "string \<Rightarrow> admin_db \<Rightarrow> admin_db" where
  "cascade uid db =
     (let s = store_of db;
          gone = map fst (filter (\<lambda>(_, k). key_user_id k = uid) (api_keys s));
          s' = s\<lparr>users := sql_delete uid (users s),
                 sessions := filter (\<lambda>(_, x). session_user_id x \<noteq> uid) (sessions s),
                 api_keys := filter (\<lambda>(_, k). key_user_id k \<noteq> uid) (api_keys s),
                 members := map (\<lambda>(k, m). (k, m\<lparr>invited_by := unlink uid (invited_by m)\<rparr>))
                              (filter (\<lambda>((c, u), _). u \<noteq> uid) (members s)),
                 invitations := map (\<lambda>(k, i). (k, i\<lparr>invitation_by := unlink uid (invitation_by i)\<rparr>)) (invitations s)\<rparr>
      in db\<lparr>acc := (acc db)\<lparr>base := s', accounts := sql_delete uid (accounts (acc db)),
                            activity := map (\<lambda>a. a\<lparr>act_user := unlink uid (act_user a)\<rparr>) (activity (acc db))\<rparr>,
            invites := map (\<lambda>(k, i). (k, i\<lparr>inv_created_by := unlink uid (inv_created_by i), inv_redeemed_by := unlink uid (inv_redeemed_by i)\<rparr>))
                         (invites db),
            key_infos := filter (\<lambda>(_, i). ki_hash i \<notin> set gone) (key_infos db)\<rparr>)"

definition DeleteUserIfNotLastAdmin :: "string \<Rightarrow> int \<Rightarrow> admin_db \<Rightarrow> (admin_db \<times> nat) option" where
  "DeleteUserIfNotLastAdmin uid privateIngress db =
     (let s = store_of db
      in if fails s ''DeleteUserIfNotLastAdmin'' then None
         else case map_of (users s) uid of
                None \<Rightarrow> Some (db, 0)
              | Some u \<Rightarrow>
                 if (role u \<noteq> ''admin'' \<or> disabled u = 1 \<or> admin_count s > 1) \<and> (privateIngress = 1 \<or> \<not> protected_impact s uid)
                 then Some (cascade uid db, 1) else Some (db, 0))"

datatype insert_error = UniqueConstraint | InsertFailed

text \<open>A new user; the identifier is drawn by the database, the address is unique.\<close>

definition insert_user :: "string \<Rightarrow> int \<Rightarrow> string \<Rightarrow> string \<Rightarrow> string \<Rightarrow> string option \<Rightarrow> string \<Rightarrow> account_db \<Rightarrow> insert_error + account_db" where
  "insert_user stmt t uid addr hash nm rl db =
     (if broken db stmt then Inl InsertFailed
      else if uid \<in> fst ` set (users (base db)) \<or> addr \<in> (\<lambda>(_, u). email u) ` set (users (base db)) then Inl UniqueConstraint
      else Inr (db\<lparr>base := (base db)\<lparr>users := users (base db) @
                     [(uid, \<lparr>email = addr, role = rl, disabled = 0, sessions_valid_after = 0, totp_enabled = 0\<rparr>)]\<rparr>,
                   accounts := accounts db @
                     [(uid, \<lparr>password_hash = hash, password_set = 1, display_name = nm, totp_secret = Some [],
                             totp_recovery_codes = Some [], totp_last_step = None, created_at = Some t\<rparr>)]\<rparr>))"

definition CreateUser :: "int \<Rightarrow> string \<Rightarrow> string \<Rightarrow> string \<Rightarrow> string option \<Rightarrow> string \<Rightarrow> account_db \<Rightarrow> insert_error + account_db" where
  "CreateUser = insert_user ''CreateUser''"

definition CreateInvitedUser :: "int \<Rightarrow> string \<Rightarrow> string \<Rightarrow> string \<Rightarrow> string option \<Rightarrow> string \<Rightarrow> account_db \<Rightarrow> insert_error + account_db" where
  "CreateInvitedUser = insert_user ''CreateInvitedUser''"

definition GetUserIDByEmailForInvite :: "store \<Rightarrow> string \<Rightarrow> string fetched" where
  "GetUserIDByEmailForInvite s addr =
     fetch s ''GetUserIDByEmailForInvite'' (map_option fst (find (\<lambda>(_, u). email u = addr) (users s)))"

definition entry_count :: "int \<Rightarrow> store \<Rightarrow> string \<Rightarrow> nat" where
  "entry_count privateIngress s uid =
     length (filter (\<lambda>(_, r). user_id r = uid \<and>
       (privateIngress = 1 \<or>
        (case collection_id r of
           None \<Rightarrow> True
         | Some c \<Rightarrow> (case map_of (collections s) c of Some p \<Rightarrow> p \<noteq> ''fully_private'' | None \<Rightarrow> False)))) (entries s))"

text \<open>The users, oldest first; rows without a creation time come before the others.\<close>

definition creation_rank :: "account_db \<Rightarrow> string \<Rightarrow> nat" where
  "creation_rank db uid = (case map_of (accounts db) uid of Some a \<Rightarrow> (case created_at a of Some t \<Rightarrow> Suc (nat t) | None \<Rightarrow> 0) | None \<Rightarrow> 0)"

definition ListUsersWithEntryCount :: "int \<Rightarrow> account_db \<Rightarrow> (string \<times> user_row \<times> account option \<times> nat) list option" where
  "ListUsersWithEntryCount privateIngress db =
     (if broken db ''ListUsersWithEntryCount'' then None
      else Some (map (\<lambda>(uid, u). (uid, u, map_of (accounts db) uid, entry_count privateIngress (base db) uid))
                   (sort_key (\<lambda>(uid, _). creation_rank db uid) (users (base db)))))"

section \<open>Invitations\<close>

text \<open>
  A stored instant has a fraction and a zone after its seconds, so that it is greater, as a text, than
  the database's clock in the same second.
\<close>

definition invite_open :: "int \<Rightarrow> account_invitation \<Rightarrow> bool" where
  "invite_open t i \<longleftrightarrow> inv_status i = ''pending'' \<and> t \<le> inv_expires_at i"

definition CreateInvitation :: "string \<Rightarrow> account_invitation \<Rightarrow> admin_db \<Rightarrow> admin_db option" where
  "CreateInvitation iid row db =
     (if fails (store_of db) ''CreateInvitation'' \<or>
         list_ex (\<lambda>(k, i). k = iid \<or> inv_code i = inv_code row \<or> inv_code_hash i = inv_code_hash row) (invites db)
      then None else Some (db\<lparr>invites := invites db @ [(iid, row)]\<rparr>))"

definition DeletePendingInvitation :: "string \<Rightarrow> admin_db \<Rightarrow> (admin_db \<times> nat) option" where
  "DeletePendingInvitation iid db =
     (if fails (store_of db) ''DeletePendingInvitation'' then None
      else case map_of (invites db) iid of
             Some i \<Rightarrow> if inv_status i = ''pending'' then Some (db\<lparr>invites := sql_delete iid (invites db)\<rparr>, 1) else Some (db, 0)
           | None \<Rightarrow> Some (db, 0))"

definition ExpireStaleInvitations :: "int \<Rightarrow> admin_db \<Rightarrow> admin_db option" where
  "ExpireStaleInvitations t db =
     (if fails (store_of db) ''ExpireStaleInvitations'' then None
      else Some (db\<lparr>invites := map (\<lambda>(k, i). (k, if inv_status i = ''pending'' \<and> inv_expires_at i < t then i\<lparr>inv_status := ''expired''\<rparr> else i))
                                 (invites db)\<rparr>))"

definition GetInvitationForResend :: "admin_db \<Rightarrow> string \<Rightarrow> account_invitation fetched" where
  "GetInvitationForResend db iid = fetch (store_of db) ''GetInvitationForResend'' (map_of (invites db) iid)"

definition GetPendingInvitationByCode :: "int \<Rightarrow> admin_db \<Rightarrow> string \<Rightarrow> (string \<times> account_invitation) fetched" where
  "GetPendingInvitationByCode t db h =
     fetch (store_of db) ''GetPendingInvitationByCode'' (find (\<lambda>(_, i). inv_code_hash i = h \<and> invite_open t i) (invites db))"

definition ListInvitations_rows :: "admin_db \<Rightarrow> (string \<times> account_invitation) list option" where
  "ListInvitations_rows db =
     (if fails (store_of db) ''ListInvitations'' then None
      else Some (rev (sort_key (\<lambda>(_, i). case inv_created_at i of Some t \<Rightarrow> Suc (nat t) | None \<Rightarrow> 0) (invites db))))"

definition MarkInvitationRedeemedIfPending :: "int \<Rightarrow> string option \<Rightarrow> string \<Rightarrow> string \<Rightarrow> admin_db \<Rightarrow> (admin_db \<times> nat) option" where
  "MarkInvitationRedeemedIfPending t redeemedBy iid h db =
     (if fails (store_of db) ''MarkInvitationRedeemedIfPending'' then None
      else case map_of (invites db) iid of
             Some i \<Rightarrow> if inv_code_hash i = h \<and> invite_open t i
                       then Some (db\<lparr>invites := sql_update iid (\<lambda>i. i\<lparr>inv_status := ''redeemed'', inv_redeemed_by := redeemedBy\<rparr>) (invites db)\<rparr>, 1)
                       else Some (db, 0)
           | None \<Rightarrow> Some (db, 0))"

section \<open>API keys\<close>

definition CreateAPIKeyForUser :: "string \<Rightarrow> string \<Rightarrow> key_info \<Rightarrow> int option \<Rightarrow> admin_db \<Rightarrow> admin_db option" where
  "CreateAPIKeyForUser kid uid info expires db =
     (if fails (store_of db) ''CreateAPIKeyForUser'' \<or> kid \<in> fst ` set (key_infos db) then None
      else Some ((with_store db ((store_of db)\<lparr>api_keys := api_keys (store_of db) @
                    [(ki_hash info, \<lparr>key_user_id = uid, key_expires_at = expires, key_revoked_at = None, key_last_used_at = None\<rparr>)]\<rparr>))
                 \<lparr>key_infos := key_infos db @ [(kid, info)]\<rparr>))"

text \<open>The columns of the key \<open>kid\<close> of the user \<open>uid\<close>.\<close>

definition key_of :: "admin_db \<Rightarrow> string \<Rightarrow> string \<Rightarrow> (key_info \<times> api_key_row) option" where
  "key_of db kid uid =
     (case map_of (key_infos db) kid of
        None \<Rightarrow> None
      | Some i \<Rightarrow> (case map_of (api_keys (store_of db)) (ki_hash i) of
                     None \<Rightarrow> None
                   | Some k \<Rightarrow> if key_user_id k = uid then Some (i, k) else None))"

definition DeleteAPIKey :: "string \<Rightarrow> string \<Rightarrow> admin_db \<Rightarrow> (admin_db \<times> nat) option" where
  "DeleteAPIKey kid uid db =
     (if fails (store_of db) ''DeleteAPIKey'' then None
      else case key_of db kid uid of
             None \<Rightarrow> Some (db, 0)
           | Some (i, _) \<Rightarrow>
              Some ((with_store db ((store_of db)\<lparr>api_keys := sql_delete (ki_hash i) (api_keys (store_of db))\<rparr>))
                      \<lparr>key_infos := sql_delete kid (key_infos db)\<rparr>, 1))"

definition ListAPIKeysByUser :: "admin_db \<Rightarrow> string \<Rightarrow> (string \<times> key_info \<times> api_key_row) list option" where
  "ListAPIKeysByUser db uid =
     (if fails (store_of db) ''ListAPIKeysByUser'' then None
      else Some (map (\<lambda>(kid, i). (kid, the (key_of db kid uid)))
             (rev (sort_key (\<lambda>(_, i). case ki_created_at i of Some t \<Rightarrow> Suc (nat t) | None \<Rightarrow> 0)
                     (filter (\<lambda>(kid, _). key_of db kid uid \<noteq> None) (key_infos db))))))"

definition RevokeAPIKey :: "int \<Rightarrow> string \<Rightarrow> string \<Rightarrow> admin_db \<Rightarrow> (admin_db \<times> nat) option" where
  "RevokeAPIKey t kid uid db =
     (if fails (store_of db) ''RevokeAPIKey'' then None
      else case key_of db kid uid of
             None \<Rightarrow> Some (db, 0)
           | Some (i, _) \<Rightarrow>
              Some (with_store db ((store_of db)\<lparr>api_keys :=
                      sql_update (ki_hash i) (\<lambda>k. k\<lparr>key_revoked_at := Some (case key_revoked_at k of Some r \<Rightarrow> r | None \<Rightarrow> t)\<rparr>)
                        (api_keys (store_of db))\<rparr>), 1))"

section \<open>Entries of a departing user\<close>

text \<open>A statement on entries that leaves a name token twice in a scope fails with the violated index.\<close>

datatype write_error = Refused egress_error | UniqueViolation

definition constrained :: "egress_error + store \<Rightarrow> write_error + store" where
  "constrained res = (case res of Inl e \<Rightarrow> Inl (Refused e) | Inr s \<Rightarrow> if unique_names s then Inr s else Inl UniqueViolation)"

definition UpdateVaultEntryName :: "int \<Rightarrow> string \<Rightarrow> string \<Rightarrow> string \<Rightarrow> store \<Rightarrow> write_error + store" where
  "UpdateVaultEntryName t nm nameBidx eid s =
     constrained (exec s ''UpdateVaultEntryName'' (update_entry s eid (\<lambda>r. r\<lparr>entry_name := nm, name_bidx := nameBidx, updated_at := t\<rparr>)))"

definition ListCollectionVaultEntriesForUser :: "store \<Rightarrow> string \<Rightarrow> (string \<times> string \<times> string option) list option" where
  "ListCollectionVaultEntriesForUser s uid =
     (if fails s ''ListCollectionVaultEntriesForUser'' then None
      else Some (map (\<lambda>(i, r). (i, entry_name r, collection_id r)) (filter (\<lambda>(i, r). user_id r = uid \<and> in_collection r) (entries s))))"

definition DeletePersonalVaultEntriesForUser :: "string \<Rightarrow> store \<Rightarrow> (store \<times> nat) option" where
  "DeletePersonalVaultEntriesForUser uid s =
     (if fails s ''DeletePersonalVaultEntriesForUser'' then None
      else (let gone = (\<lambda>(_ :: string, r). user_id r = uid \<and> \<not> in_collection r)
            in Some (s\<lparr>entries := filter (\<lambda>e. \<not> gone e) (entries s)\<rparr>, length (filter gone (entries s)))))"

definition ListAllVaultEntryTargets :: "store \<Rightarrow> (string \<times> string \<times> string) list option" where
  "ListAllVaultEntryTargets s =
     (if fails s ''ListAllVaultEntryTargets'' then None
      else Some (map (\<lambda>(i, r). (i, entry_name r, the (rotation_targets r))) (filter (\<lambda>(i, r). has_targets r) (entries s))))"

section \<open>Retention of login attempts\<close>

definition LoginAttemptRetention :: int where
  "LoginAttemptRetention = 24 * 3600"

definition PruneLoginAttempts :: "int \<Rightarrow> account_db \<Rightarrow> (account_db \<times> nat) option" where
  "PruneLoginAttempts t db =
     (if broken db ''PruneLoginAttempts'' then None
      else (let old = (\<lambda>a. attempt_at a < t - LoginAttemptRetention div 60 * 60)
            in Some (db\<lparr>attempts := filter (\<lambda>a. \<not> old a) (attempts db)\<rparr>, length (filter old (attempts db)))))"

end
