(* ===== verification/User_Admin.thy ===== *)
theory User_Admin
  imports Admin_Tables
begin

text \<open>
  The administration of users: \<^verbatim>\<open>users.go\<close>, \<^verbatim>\<open>user_offboard.go\<close>, \<^verbatim>\<open>invitation_code.go\<close> and \<^verbatim>\<open>apikeys.go\<close> of
  \<^verbatim>\<open>internal/handlers\<close>.  The router puts the handlers of users and invitations behind the
  administrator role, except for the redemption of an invitation.  Sending of mail and the texts
  of activity rows, and with them the sealing of names in those texts, are not modelled.
\<close>

record admin_env =
  signin :: signin_env
  keys_of :: vault_keys
  mac_of :: mac
  sha256_of :: "bytes \<Rightarrow> bytes"
  parse_targets :: "string \<Rightarrow> RotationTarget list option"
  marshal_targets :: "RotationTarget list \<Rightarrow> string option"
  rnd_targets :: "string \<Rightarrow> bytes"
  rnd_name :: "string \<Rightarrow> bytes"
  rnd_invite :: bytes
  rnd_invite_seal :: bytes
  new_invite_id :: string
  rnd_key_id :: bytes
  rnd_key :: bytes
  upper_of :: "string \<Rightarrow> string"

abbreviation tick :: "admin_env \<Rightarrow> int" where
  "tick e \<equiv> clock (signin e)"

definition log_admin :: "admin_env \<Rightarrow> request \<Rightarrow> string \<Rightarrow> admin_db \<Rightarrow> admin_db" where
  "log_admin e r action db = db\<lparr>acc := LogActivityFromRequest (proxy_of (signin e)) r action (acc db)\<rparr>"

record admin_user =
  au_id :: string
  au_email :: string
  au_name :: string
  au_role :: string
  au_disabled :: bool
  au_totp_enabled :: bool
  au_entry_count :: nat
  au_created_at :: string

record invitation_view =
  iv_id :: string
  iv_code :: string
  iv_email :: string
  iv_name :: string
  iv_status :: string
  iv_role :: string
  iv_expires_at :: int

datatype admin_answer =
    Refusal response
  | NoContent response
  | Users "admin_user list"
  | User int admin_user
  | Invitations "invitation_view list"
  | Invited invitation_view
  | Queued
  | Redeemed string string string string
  | Keys "(string \<times> string \<times> string \<times> int option \<times> int option \<times> int option) list"
  | NewKey string string string "int option"

definition validRoles :: "string list" where
  "validRoles = [''admin'', ''user'', ''vault_only'']"

definition created_text :: "account option \<Rightarrow> string" where
  "created_text a = (case a of None \<Rightarrow> [] | Some x \<Rightarrow> (case created_at x of Some t \<Rightarrow> sqlite_datetime t | None \<Rightarrow> []))"

definition name_text :: "account option \<Rightarrow> string" where
  "name_text a = (case a of None \<Rightarrow> [] | Some x \<Rightarrow> null_text (display_name x))"

section \<open>Users\<close>

definition List_users :: "request \<Rightarrow> headers \<Rightarrow> admin_db \<Rightarrow> admin_answer \<times> admin_db" where
  "List_users r w db =
     (case ListUsersWithEntryCount (privateIngressSQLFlag r) (acc db) of
        None \<Rightarrow> (Refusal (writeInternalError w r ''internal server error''), db)
      | Some rows \<Rightarrow>
         (Users (map (\<lambda>(uid, u, a, n).
             \<lparr>au_id = uid, au_email = email u, au_name = name_text a, au_role = role u, au_disabled = (disabled u \<noteq> 0),
              au_totp_enabled = (totp_enabled u = 1), au_entry_count = n, au_created_at = created_text a\<rparr>) rows), db))"

record create_request =
  create_email :: string
  create_password :: string
  create_name :: string
  create_role :: string

definition create_error :: "admin_env \<Rightarrow> create_request \<Rightarrow> string \<Rightarrow> account_db \<Rightarrow> validation" where
  "create_error e req addr db =
     first_error (\<lambda>v. v)
       [ValidateRequired ''email'' addr, email_error (mail_of (signin e)) addr, validatePasswordWithPolicy db (create_password req)]"

definition role_or :: "string \<Rightarrow> string \<Rightarrow> string" where
  "role_or def rl = (if rl = [] then def else rl)"

text \<open>What expands access to the control plane comes over the private listener, if one is configured.\<close>

definition admin_gate :: "bool \<Rightarrow> headers \<Rightarrow> request \<Rightarrow> response option" where
  "admin_gate expands w r = (if expands then requireConfiguredPrivateControlPlaneIngress w r else None)"

definition name_error :: "string \<Rightarrow> validation" where
  "name_error nm = (if nm = [] then None else ValidateStringLength ''name'' nm 1 255)"

definition role_error :: string where
  "role_error = ''role must be one of: admin, user, vault_only''"

definition Create_user :: "admin_env \<Rightarrow> create_request option \<Rightarrow> request \<Rightarrow> headers \<Rightarrow> admin_db \<Rightarrow> admin_answer \<times> admin_db" where
  "Create_user e body r w db =
     (case body of
        None \<Rightarrow> (Refusal (writeBadRequest w r ''invalid request body''), db)
      | Some req \<Rightarrow>
     (let addr = Canonical (mail_of (signin e)) (create_email req);
          rl = role_or ''user'' (create_role req)
      in case create_error e req addr (acc db) of
           Some err \<Rightarrow> (Refusal (writeValidationError w r (Error_text err)), db)
         | None \<Rightarrow>
     if rl \<notin> set validRoles then (Refusal (writeValidationError w r role_error), db)
     else case admin_gate (rl = RoleAdmin) w r of
            Some resp \<Rightarrow> (Refusal resp, db)
          | None \<Rightarrow>
     (case name_error (create_name req) of
        Some err \<Rightarrow> (Refusal (writeValidationError w r (Error_text err)), db)
      | None \<Rightarrow>
     (case Hash (hash_of (signin e)) (slot_free (signin e) 0) (rnd_salt (signin e)) (create_password req) of
        Inl _ \<Rightarrow> (Refusal (writeInternalError w r ''internal server error''), db)
      | Inr hash \<Rightarrow>
     (let uid = new_user_id (signin e)
      in case CreateUser (tick e) uid addr hash (toNullString (create_name req)) rl (acc db) of
           Inl UniqueConstraint \<Rightarrow> (Refusal (writeConflict w r ''a user with this email already exists''), db)
         | Inl InsertFailed \<Rightarrow> (Refusal (writeInternalError w r ''failed to create user''), db)
         | Inr d \<Rightarrow>
            (User 201 \<lparr>au_id = uid, au_email = addr, au_name = create_name req, au_role = rl, au_disabled = False,
                       au_totp_enabled = False, au_entry_count = 0, au_created_at = sqlite_datetime (tick e)\<rparr>,
             log_admin e r ''admin.user_created'' (db\<lparr>acc := claimCollectionInvitationsBestEffort (signin e) uid addr d\<rparr>)))))))"

record update_request =
  update_name :: "string option"
  update_role :: "string option"
  update_disabled :: "bool option"

text \<open>The steps of an update in their order; each gives a refusal, with what was changed before it, or the new state.\<close>

definition update_role_step :: "admin_env \<Rightarrow> request \<Rightarrow> headers \<Rightarrow> string \<Rightarrow> update_request \<Rightarrow> admin_db \<Rightarrow> response option \<times> admin_db" where
  "update_role_step e r w targetID req db =
     (case update_role req of
        None \<Rightarrow> (None, db)
      | Some rl \<Rightarrow>
         if rl \<notin> set validRoles then (Some (writeValidationError w r role_error), db)
         else if targetID = GetUserID r \<and> rl \<noteq> ''admin'' then (Some (writeBadRequest w r ''you cannot demote your own account''), db)
         else case UpdateUserRoleIfNotLastAdmin rl targetID (store_of db) of
                None \<Rightarrow> (Some (writeInternalError w r ''internal server error''), db)
              | Some (s, n) \<Rightarrow>
                 if n = 0 then (Some (writeBadRequest w r ''cannot remove the last active admin''), db)
                 else (None, log_admin e r ''admin.user_role_changed'' (with_store db s)))"

definition update_disabled_step :: "admin_env \<Rightarrow> request \<Rightarrow> headers \<Rightarrow> string \<Rightarrow> update_request \<Rightarrow> admin_db \<Rightarrow> response option \<times> admin_db" where
  "update_disabled_step e r w targetID req db =
     (case update_disabled req of
        None \<Rightarrow> (None, db)
      | Some off \<Rightarrow>
         if targetID = GetUserID r \<and> off then (Some (writeBadRequest w r ''you cannot disable your own account''), db)
         else case SetUserDisabledIfNotLastAdmin (if off then 1 else 0) targetID (store_of db) of
                None \<Rightarrow> (Some (writeInternalError w r ''internal server error''), db)
              | Some (s, n) \<Rightarrow>
                 if n = 0 then (Some (writeBadRequest w r ''cannot remove the last active admin''), db)
                 else (let db1 = log_admin e r (if off then ''admin.user_disabled'' else ''admin.user_enabled'') (with_store db s)
                       in (None, if off then db1\<lparr>acc := invalidateCredentials (signin e) r targetID (acc db1)\<rparr> else db1)))"

definition update_name_step :: "request \<Rightarrow> headers \<Rightarrow> string \<Rightarrow> update_request \<Rightarrow> admin_db \<Rightarrow> response option \<times> admin_db" where
  "update_name_step r w targetID req db =
     (case update_name req of
        None \<Rightarrow> (None, db)
      | Some nm \<Rightarrow>
         (case UpdateUserName nm targetID (acc db) of
            None \<Rightarrow> (Some (writeInternalError w r ''internal server error''), db)
          | Some d \<Rightarrow> (None, db\<lparr>acc := d\<rparr>)))"

definition expandsAccess :: "update_request \<Rightarrow> bool" where
  "expandsAccess req \<longleftrightarrow> update_role req = Some RoleAdmin \<or> update_disabled req = Some False"

definition updated_user :: "request \<Rightarrow> headers \<Rightarrow> string \<Rightarrow> admin_db \<Rightarrow> admin_answer" where
  "updated_user r w targetID db =
     (case GetUserByID (store_of db) targetID of
        Row u \<Rightarrow> (let a = map_of (accounts (acc db)) targetID
                  in User 200 \<lparr>au_id = targetID, au_email = email u, au_name = name_text a, au_role = role u, au_disabled = (disabled u \<noteq> 0),
                               au_totp_enabled = (totp_enabled u = 1), au_entry_count = 0, au_created_at = created_text a\<rparr>)
      | _ \<Rightarrow> Refusal (writeInternalError w r ''internal server error''))"

definition Update_user :: "admin_env \<Rightarrow> string \<Rightarrow> update_request option \<Rightarrow> request \<Rightarrow> headers \<Rightarrow> admin_db \<Rightarrow> admin_answer \<times> admin_db" where
  "Update_user e targetID body r w db =
     (case body of
        None \<Rightarrow> (Refusal (writeBadRequest w r ''invalid request body''), db)
      | Some req \<Rightarrow>
     (case admin_gate (expandsAccess req) w r of
        Some resp \<Rightarrow> (Refusal resp, db)
      | None \<Rightarrow>
     (case GetUserByID (store_of db) targetID of
        ErrNoRows \<Rightarrow> (Refusal (writeNotFound w r ''user not found''), db)
      | DBError \<Rightarrow> (Refusal (writeInternalError w r ''internal server error''), db)
      | Row _ \<Rightarrow>
     (case update_role_step e r w targetID req db of
        (Some resp, db1) \<Rightarrow> (Refusal resp, db1)
      | (None, db1) \<Rightarrow>
     (case update_disabled_step e r w targetID req db1 of
        (Some resp, db2) \<Rightarrow> (Refusal resp, db2)
      | (None, db2) \<Rightarrow>
     (case update_name_step r w targetID req db2 of
        (Some resp, db3) \<Rightarrow> (Refusal resp, db3)
      | (None, db3) \<Rightarrow> (updated_user r w targetID db3, db3)))))))"

definition ResetPassword :: "admin_env \<Rightarrow> string \<Rightarrow> string option \<Rightarrow> request \<Rightarrow> headers \<Rightarrow> admin_db \<Rightarrow> admin_answer \<times> admin_db" where
  "ResetPassword e targetID body r w db =
     (case requireConfiguredPrivateControlPlaneIngress w r of
        Some resp \<Rightarrow> (Refusal resp, db)
      | None \<Rightarrow>
     if targetID = GetUserID r
     then (Refusal (writeBadRequest w r ''you cannot reset your own password here; use change password instead''), db)
     else case body of
            None \<Rightarrow> (Refusal (writeBadRequest w r ''invalid request body''), db)
          | Some password \<Rightarrow>
     (case validatePasswordWithPolicy (acc db) password of
        Some err \<Rightarrow> (Refusal (writeValidationError w r (Error_text err)), db)
      | None \<Rightarrow>
     (case GetUserByID (store_of db) targetID of
        ErrNoRows \<Rightarrow> (Refusal (writeNotFound w r ''user not found''), db)
      | DBError \<Rightarrow> (Refusal (writeInternalError w r ''internal server error''), db)
      | Row _ \<Rightarrow>
     (case Hash (hash_of (signin e)) (slot_free (signin e) 0) (rnd_salt (signin e)) password of
        Inl _ \<Rightarrow> (Refusal (writeInternalError w r ''internal server error''), db)
      | Inr hash \<Rightarrow>
     (case SetPasswordHash hash targetID (acc db) of
        None \<Rightarrow> (Refusal (writeInternalError w r ''internal server error''), db)
      | Some d \<Rightarrow>
         (NoContent (no_content w),
          log_admin e r ''admin.user_password_reset'' (db\<lparr>acc := invalidateCredentials (signin e) r targetID d\<rparr>)))))))"

section \<open>Deleting a user\<close>

definition vaultFieldRotationTargets :: field where
  "vaultFieldRotationTargets =
     Some \<lparr>fd_name = ''vault_entries.rotation_targets'', fd_class = NotACredential, fd_exitKey = [],
           fd_why = ''delivery configuration, including each webhook's HMAC SIGNING secret. That signing secret is the '' @
             ''one value here worth arguing about, and the argument was settled the other way: it is not a '' @
             ''client credential, it belongs to the delivery configuration rather than to the vault, and GET '' @
             ''/api/vault/{id}/targets is deliberately gated on MANAGE rather than read for exactly this reason '' @
             ''(see GetTargets). What the exit governs is the ROTATED VALUE this configuration delivers, and '' @
             ''that goes through deliverToWebhook.'',
           fd_declaredAt = ''internal/handlers/encrypted_field_ledger.go:137''\<rparr>"

abbreviation open_column :: "admin_env \<Rightarrow> string \<Rightarrow> field \<Rightarrow> open_error + string" where
  "open_column e \<equiv> decryptColumn (cipher_of (signin e)) (keys_of e)"

abbreviation seal_column :: "admin_env \<Rightarrow> string \<Rightarrow> bytes \<Rightarrow> string option" where
  "seal_column e \<equiv> encryptColumn (cipher_of (signin e)) (keys_of e)"

text \<open>The targets a stored column holds; \<open>None\<close> when it cannot be opened or parsed.\<close>

definition strict_targets :: "admin_env \<Rightarrow> string \<Rightarrow> RotationTarget list option" where
  "strict_targets e col =
     (case open_column e col vaultFieldRotationTargets of
        Inl _ \<Rightarrow> None
      | Inr txt \<Rightarrow> if txt = [] then Some [] else parse_targets e txt)"

definition hard_purge_row :: "admin_env \<Rightarrow> string \<Rightarrow> string \<times> string \<times> string \<Rightarrow> store \<times> nat \<Rightarrow> (store \<times> nat) option" where
  "hard_purge_row e uid row st =
     (case (row, st) of ((eid, nm, col), (s, dropped)) \<Rightarrow>
        (case strict_targets e col of
           None \<Rightarrow> None
         | Some targets \<Rightarrow>
        (let kept = filter (\<lambda>t. ConfiguredBy t \<noteq> uid) targets;
             removed = length targets - length kept
         in if removed = 0 then Some (s, dropped)
            else case marshal_targets e kept of
                   None \<Rightarrow> None
                 | Some encoded \<Rightarrow>
            (case seal_column e encoded (rnd_targets e eid) of
               None \<Rightarrow> None
             | Some sealed_col \<Rightarrow>
            (case Decide \<lparr>EntryID = eid, What = FieldRotationTargets, Before = deliveryDestinations targets,
                          After = deliveryDestinations kept, Covers = None, MayRedirect = None\<rparr> of
               Inl _ \<Rightarrow> None
             | Inr tk \<Rightarrow>
            (case SetRotationTargets (tick e) s tk (toNullString sealed_col) eid of
               Inl _ \<Rightarrow> None
             | Inr s' \<Rightarrow>
            (case open_column e nm vaultFieldName of
               Inl _ \<Rightarrow> None
             | Inr _ \<Rightarrow> Some (s', dropped + removed))))))))"

text \<open>A loop over rows that stops at the first error.\<close>

fun each_row :: "('r \<Rightarrow> 's \<Rightarrow> 's option) \<Rightarrow> 'r list \<Rightarrow> 's \<Rightarrow> 's option" where
  "each_row f [] st = Some st"
| "each_row f (row # rows) st = (case f row st of None \<Rightarrow> None | Some st' \<Rightarrow> each_row f rows st')"

definition purgeTargetsForHardDelete :: "admin_env \<Rightarrow> string \<Rightarrow> store \<Rightarrow> (store \<times> nat) option" where
  "purgeTargetsForHardDelete e uid s =
     (case ListAllVaultEntryTargets s of
        None \<Rightarrow> None
      | Some rows \<Rightarrow> each_row (hard_purge_row e uid) rows (s, 0))"

definition transfer_proof_for :: "string \<Rightarrow> string \<Rightarrow> string \<Rightarrow> egress_error + transfer_proof" where
  "transfer_proof_for newOwner eid why =
     AuthorizeTransfer \<lparr>tr_EntryID = eid, tr_Actor = newOwner, tr_ActorIsInstanceAdmin = True, tr_To = newOwner, tr_Why = why\<rparr>"

definition transfer_entry :: "admin_env \<Rightarrow> string \<Rightarrow> string \<Rightarrow> string \<Rightarrow> string \<Rightarrow> store \<Rightarrow> write_error + store" where
  "transfer_entry e newOwner eid nameBidx why s =
     (case transfer_proof_for newOwner eid why of
        Inl err \<Rightarrow> Inl (Refused err)
      | Inr p \<Rightarrow> constrained (TransferSecretOwnership (tick e) s p newOwner eid nameBidx))"

definition reassign_row :: "admin_env \<Rightarrow> string \<Rightarrow> string \<Rightarrow> string \<times> string \<times> string option \<Rightarrow> store \<times> nat \<Rightarrow> (store \<times> nat) option" where
  "reassign_row e addr newOwner row st =
     (case (row, st) of ((eid, nm, cid), (s, moved)) \<Rightarrow>
        (case open_column e nm vaultFieldName of
           Inl _ \<Rightarrow> None
         | Inr plainName \<Rightarrow>
        (let index = scopedNameBlindIndex (mac_of e) (keys_of e) (bidxScope newOwner cid);
             dedup = plainName @ '' (from '' @ addr @ '')''
         in case transfer_entry e newOwner eid (index plainName) (''hard delete of '' @ addr @ '': the team keeps the shared entries they created'') s of
              Inr s' \<Rightarrow> Some (s', Suc moved)
            | Inl (Refused _) \<Rightarrow> None
            | Inl UniqueViolation \<Rightarrow>
        (case seal_column e dedup (rnd_name e eid) of
           None \<Rightarrow> None
         | Some sealedName \<Rightarrow>
        (case UpdateVaultEntryName (tick e) sealedName (index dedup) eid s of
           Inl _ \<Rightarrow> None
         | Inr s1 \<Rightarrow>
        (case transfer_entry e newOwner eid (index dedup) (''hard delete of '' @ addr @ '': re-own after a name de-duplication'') s1 of
           Inl _ \<Rightarrow> None
         | Inr s2 \<Rightarrow> Some (s2, Suc moved)))))))"

definition reassignCollectionEntriesForHardDelete :: "admin_env \<Rightarrow> string \<Rightarrow> string \<Rightarrow> string \<Rightarrow> store \<Rightarrow> (store \<times> nat) option" where
  "reassignCollectionEntriesForHardDelete e uid addr newOwner s =
     (case ListCollectionVaultEntriesForUser s uid of
        None \<Rightarrow> None
      | Some rows \<Rightarrow>
         (case GetUserByID s newOwner of
            Row actor \<Rightarrow> if disabled actor \<noteq> 0 \<or> role actor \<noteq> RoleAdmin then None else each_row (reassign_row e addr newOwner) rows (s, 0)
          | _ \<Rightarrow> None))"

record hardDeleteSummary =
  serviceNames :: nat
  targetCount :: nat
  sharedMoved :: nat
  personalGone :: nat

definition revoke_for_delete :: "admin_env \<Rightarrow> string \<Rightarrow> account_db \<Rightarrow> (account_db \<times> nat) option" where
  "revoke_for_delete e uid db =
     (case InvalidateUserSessions (tick e) uid db of
        None \<Rightarrow> None
      | Some db1 \<Rightarrow>
     (case RevokeUserSessions (tick e) uid db1 of
        None \<Rightarrow> None
      | Some db2 \<Rightarrow>
     (case RevokeAPIKeysByUser (tick e) uid db2 of
        None \<Rightarrow> None
      | Some db3 \<Rightarrow>
     (case ListServiceIdentitiesByUser uid db3 of
        None \<Rightarrow> None
      | Some rows \<Rightarrow>
         if rows = [] then Some (db3, 0)
         else (case RevokeServiceIdentitiesByUser (tick e) uid db3 of
                 None \<Rightarrow> None
               | Some db4 \<Rightarrow> Some (db4, length rows))))))"

definition hardDeleteCleanup :: "admin_env \<Rightarrow> string \<Rightarrow> string \<Rightarrow> string \<Rightarrow> account_db \<Rightarrow> (account_db \<times> hardDeleteSummary) option" where
  "hardDeleteCleanup e uid addr newOwner db =
     (if \<not> vault_wired (signin e) then None
      else case revoke_for_delete e uid db of
             None \<Rightarrow> None
           | Some (db1, services) \<Rightarrow>
     (case purgeTargetsForHardDelete e uid (base db1) of
        None \<Rightarrow> None
      | Some (s2, dropped) \<Rightarrow>
     (case reassignCollectionEntriesForHardDelete e uid addr newOwner s2 of
        None \<Rightarrow> None
      | Some (s3, moved) \<Rightarrow>
     (case DeletePersonalVaultEntriesForUser uid s3 of
        None \<Rightarrow> None
      | Some (s4, gone) \<Rightarrow>
         Some (db1\<lparr>base := s4\<rparr>, \<lparr>serviceNames = services, targetCount = dropped, sharedMoved = moved, personalGone = gone\<rparr>)))))"

definition verifyHardDeleteCleanup :: "admin_env \<Rightarrow> string \<Rightarrow> account_db \<Rightarrow> bool" where
  "verifyHardDeleteCleanup e uid db \<longleftrightarrow>
     vault_wired (signin e) \<and> \<not> broken db ''CountHeldEntries'' \<and> \<not> list_ex (\<lambda>(_, r). user_id r = uid) (entries (base db)) \<and>
     ListServiceIdentitiesByUser uid db = Some [] \<and>
     (case ListAllVaultEntryTargets (base db) of
        None \<Rightarrow> False
      | Some rows \<Rightarrow> list_all (\<lambda>(_, _, col). case strict_targets e col of None \<Rightarrow> False | Some ts \<Rightarrow> list_all (\<lambda>t. ConfiguredBy t \<noteq> uid) ts) rows)"

definition logHardDeleteSummary :: "admin_env \<Rightarrow> request \<Rightarrow> hardDeleteSummary \<Rightarrow> admin_db \<Rightarrow> admin_db" where
  "logHardDeleteSummary e r summary db =
     (let when = (\<lambda>n action d. if n > (0 :: nat) then log_admin e r action d else d)
      in when (personalGone summary) ''admin.entries_deleted_with_user''
           (when (sharedMoved summary) ''admin.entries_reassigned''
             (when (targetCount summary) ''admin.user_targets_purged''
               (when (serviceNames summary) ''admin.service_identities_revoked'' db))))"

text \<open>The transaction: a refusal, or the state to commit with what it did.\<close>

definition delete_user_tx :: "admin_env \<Rightarrow> string \<Rightarrow> request \<Rightarrow> headers \<Rightarrow> admin_db \<Rightarrow> response + admin_db \<times> hardDeleteSummary" where
  "delete_user_tx e targetID r w db =
     (case GetUserByID (store_of db) targetID of
        ErrNoRows \<Rightarrow> Inl (writeNotFound w r ''user not found'')
      | DBError \<Rightarrow> Inl (writeInternalError w r ''internal server error'')
      | Row target \<Rightarrow>
     (case (if role target = ''admin'' \<and> disabled target = 0
            then (case CountAdmins (store_of db) of
                    None \<Rightarrow> Some (writeInternalError w r ''internal server error'')
                  | Some n \<Rightarrow> if n \<le> 1 then Some (writeBadRequest w r ''cannot remove the last active admin'') else None)
            else None) of
        Some resp \<Rightarrow> Inl resp
      | None \<Rightarrow>
     (case (if IsPrivateIngress r then None
            else case UserHasProtectedCollectionImpact (store_of db) targetID of
                   None \<Rightarrow> Some (writeInternalError w r ''private access policy could not be verified'')
                 | Some protected \<Rightarrow> if protected then Some (writePrivateIngressRequired w r) else None) of
        Some resp \<Rightarrow> Inl resp
      | None \<Rightarrow>
     (let unsafe = writeInternalError w r ''user was not deleted because offboarding could not be completed safely''
      in case hardDeleteCleanup e targetID (email target) (GetUserID r) (acc db) of
           None \<Rightarrow> Inl unsafe
         | Some (d, summary) \<Rightarrow>
     if \<not> verifyHardDeleteCleanup e targetID d then Inl unsafe
     else case DeleteUserIfNotLastAdmin targetID (privateIngressSQLFlag r) (db\<lparr>acc := d\<rparr>) of
            None \<Rightarrow> Inl (writeInternalError w r ''internal server error'')
          | Some (db', n) \<Rightarrow>
             if n = 0 then Inl (writeBadRequest w r ''cannot remove the last active admin'') else Inr (db', summary)))))"

definition Delete_user :: "admin_env \<Rightarrow> string \<Rightarrow> request \<Rightarrow> headers \<Rightarrow> admin_db \<Rightarrow> admin_answer \<times> admin_db" where
  "Delete_user e targetID r w db =
     (case requireConfiguredPrivateControlPlaneIngress w r of
        Some resp \<Rightarrow> (Refusal resp, db)
      | None \<Rightarrow>
     if targetID = GetUserID r then (Refusal (writeBadRequest w r ''you cannot delete your own account''), db)
     else if fails (store_of db) ''BeginTx'' then (Refusal (writeInternalError w r ''internal server error''), db)
     else case delete_user_tx e targetID r w db of
            Inl resp \<Rightarrow> (Refusal resp, db)
          | Inr (db', summary) \<Rightarrow>
             if fails (store_of db) ''Commit'' then (Refusal (writeInternalError w r ''internal server error''), db)
             else (NoContent (no_content w), log_admin e r ''admin.user_deleted'' (logHardDeleteSummary e r summary db')))"

section \<open>Invitations\<close>

definition vaultFieldInvitationCode :: field where
  "vaultFieldInvitationCode =
     Some \<lparr>fd_name = ''invitations.code'', fd_class = InstanceOwned, fd_exitKey = [],
           fd_why = ''a pending invitation's setup code: a bearer credential that redeems into an ACCOUNT, and for a '' @
             ''target_role of admin into an account that can reset a colleague's password and then unlock their '' @
             ''vault. That is why it is sealed at rest at all (see invitation_code.go: a keyless backup taken '' @
             ''while an invite was pending used to be readable and redeemable against the live server). It is '' @
             ''instance-owned rather than through-the-exit because it belongs to no vault entry, so the exit's '' @
             ''question ('did the OWNER of this secret authorise this destination') has no owner to ask; the '' @
             ''principal who chose both destinations is an instance admin, who holds the widening right on '' @
             ''every entry anyway. Both destinations are admin-only by construction: it is returned by GET '' @
             ''/api/admin/invitations and mailed by POST /api/admin/invitations/{id}/resend to the address the '' @
             ''admin typed at creation, and nothing else in the module opens the column.'',
           fd_declaredAt = ''internal/handlers/encrypted_field_ledger.go:195''\<rparr>"

definition inviteCharset :: string where
  "inviteCharset = ''ABCDEFGHJKLMNPQRSTUVWXYZ23456789''"

definition generateInviteCode :: "bytes \<Rightarrow> string option" where
  "generateInviteCode rnd =
     map_option (\<lambda>b. ''INV-'' @ map (\<lambda>c. inviteCharset ! (byte_val c mod length inviteCharset)) b) (read_full rnd 16)"

definition hashInviteCode :: "admin_env \<Rightarrow> string \<Rightarrow> string" where
  "hashInviteCode e code = hex_encode (sha256_of e code)"

definition sealInviteCode :: "admin_env \<Rightarrow> string \<Rightarrow> string option" where
  "sealInviteCode e code = (if \<not> vault_wired (signin e) then None else seal_column e code (rnd_invite_seal e))"

definition openInviteCode :: "admin_env \<Rightarrow> string \<Rightarrow> string" where
  "openInviteCode e stored =
     (if stored = [] \<or> \<not> vault_wired (signin e) then []
      else case open_column e stored vaultFieldInvitationCode of Inl _ \<Rightarrow> [] | Inr plain \<Rightarrow> plain)"

definition invitation_of :: "string \<Rightarrow> string \<Rightarrow> account_invitation \<Rightarrow> invitation_view" where
  "invitation_of iid code i =
     \<lparr>iv_id = iid, iv_code = code, iv_email = inv_email i, iv_name = inv_name i, iv_status = inv_status i, iv_role = inv_role i,
      iv_expires_at = inv_expires_at i\<rparr>"

definition ListInvitations :: "admin_env \<Rightarrow> request \<Rightarrow> headers \<Rightarrow> admin_db \<Rightarrow> admin_answer \<times> admin_db" where
  "ListInvitations e r w db0 =
     (let db = (case ExpireStaleInvitations (tick e) db0 of None \<Rightarrow> db0 | Some d \<Rightarrow> d)
      in case ListInvitations_rows db of
           None \<Rightarrow> (Refusal (writeInternalError w r ''internal server error''), db)
         | Some rows \<Rightarrow> (Invitations (map (\<lambda>(iid, i). invitation_of iid (openInviteCode e (inv_code i)) i) rows), db))"

record invite_request =
  invite_email :: string
  invite_name :: string
  invite_role :: string

definition Create_invitation :: "admin_env \<Rightarrow> invite_request option \<Rightarrow> request \<Rightarrow> headers \<Rightarrow> admin_db \<Rightarrow> admin_answer \<times> admin_db" where
  "Create_invitation e body r w db =
     (case body of
        None \<Rightarrow> (Refusal (writeBadRequest w r ''invalid request body''), db)
      | Some req \<Rightarrow>
     (let addr = Canonical (mail_of (signin e)) (invite_email req);
          rl = role_or ''vault_only'' (invite_role req);
          failed = Refusal (writeInternalError w r ''failed to create invitation'')
      in if addr = [] then (Refusal (writeBadRequest w r ''email is required''), db)
         else case email_error (mail_of (signin e)) addr of
                Some err \<Rightarrow> (Refusal (writeValidationError w r (Error_text err)), db)
              | None \<Rightarrow>
     if rl \<notin> set validRoles then (Refusal (writeValidationError w r role_error), db)
     else case admin_gate (rl = RoleAdmin) w r of
            Some resp \<Rightarrow> (Refusal resp, db)
          | None \<Rightarrow>
     (case generateInviteCode (rnd_invite e) of
        None \<Rightarrow> (failed, db)
      | Some code \<Rightarrow>
     (case sealInviteCode e code of
        None \<Rightarrow> (failed, db)
      | Some sealed_code \<Rightarrow>
     (let row = \<lparr>inv_code = sealed_code, inv_code_hash = hashInviteCode e code, inv_email = addr, inv_name = trim_space (invite_name req),
                 inv_status = ''pending'', inv_role = rl, inv_created_by = toNullString (GetUserID r), inv_redeemed_by = None,
                 inv_expires_at = tick e + 48 * 3600, inv_created_at = Some (tick e)\<rparr>
      in case CreateInvitation (new_invite_id e) row db of
           None \<Rightarrow> (failed, db)
         | Some db' \<Rightarrow> (Invited (invitation_of (new_invite_id e) code row), log_admin e r ''admin.invitation_created'' db'))))))"

definition DeleteInvitation :: "string \<Rightarrow> request \<Rightarrow> headers \<Rightarrow> admin_db \<Rightarrow> admin_answer \<times> admin_db" where
  "DeleteInvitation iid r w db =
     (case DeletePendingInvitation iid db of
        None \<Rightarrow> (Refusal (writeInternalError w r ''internal server error''), db)
      | Some (db', n) \<Rightarrow>
         if n = 0 then (Refusal (writeNotFound w r ''invitation not found or already redeemed''), db') else (NoContent (no_content w), db'))"

definition ResendInvitation :: "admin_env \<Rightarrow> string \<Rightarrow> request \<Rightarrow> headers \<Rightarrow> admin_db \<Rightarrow> admin_answer \<times> admin_db" where
  "ResendInvitation e iid r w db =
     (case GetInvitationForResend db iid of
        ErrNoRows \<Rightarrow> (Refusal (writeNotFound w r ''invitation not found''), db)
      | DBError \<Rightarrow> (Refusal (writeInternalError w r ''internal server error''), db)
      | Row i \<Rightarrow>
         if inv_status i \<noteq> ''pending'' then (Refusal (writeBadRequest w r ''can only resend pending invitations''), db)
         else if openInviteCode e (inv_code i) = []
         then (Refusal (writeError w r 409 ''code_unreadable''
                 (''this invitation's code could not be read, so no email was sent. Revoke it and invite '' @
                  ''the person again to mint a fresh code.'')),
               log_admin e r ''invitation.resend_failed'' db)
         else (Queued, db))"

text \<open>The transaction of a redemption, for the invitation \<open>seen\<close> that was read before it.\<close>

definition redeem_tx ::
  "admin_env \<Rightarrow> string \<Rightarrow> string \<Rightarrow> string \<Rightarrow> string \<times> account_invitation \<Rightarrow> request \<Rightarrow> headers \<Rightarrow> admin_db \<Rightarrow> response + admin_db" where
  "redeem_tx e codeHash password passwordHash seen r w db =
     (let ise = writeInternalError w r ''internal server error'';
          bad = writeBadRequest w r ''invalid or expired invitation code'';
          taken = writeConflict w r ''a user with this email already exists'';
          failed = writeInternalError w r ''failed to create user''
      in case ExpireStaleInvitations (tick e) db of
           None \<Rightarrow> Inl ise
         | Some db1 \<Rightarrow>
     (case GetPendingInvitationByCode (tick e) db1 codeHash of
        ErrNoRows \<Rightarrow> Inl bad
      | DBError \<Rightarrow> Inl ise
      | Row (iid, i) \<Rightarrow>
     if iid \<noteq> fst seen \<or> inv_email i \<noteq> inv_email (snd seen) \<or> inv_name i \<noteq> inv_name (snd seen) \<or> inv_role i \<noteq> inv_role (snd seen) then Inl bad
     else case admin_gate (inv_role i = RoleAdmin) w r of
            Some resp \<Rightarrow> Inl resp
          | None \<Rightarrow>
     (case validatePasswordWithPolicy (acc db1) password of
        Some err \<Rightarrow> Inl (writeBadRequest w r (''password '' @ snd err))
      | None \<Rightarrow>
     (let addr = Canonical (mail_of (signin e)) (inv_email i); uid = new_user_id (signin e)
      in case GetUserIDByEmailForInvite (store_of db1) addr of
           Row _ \<Rightarrow> Inl taken
         | DBError \<Rightarrow> Inl ise
         | ErrNoRows \<Rightarrow>
     (case CreateInvitedUser (tick e) uid addr passwordHash (toNullString (inv_name i)) (inv_role i) (acc db1) of
        Inl UniqueConstraint \<Rightarrow> Inl taken
      | Inl InsertFailed \<Rightarrow> Inl failed
      | Inr d \<Rightarrow>
     (case claimCollectionInvitations (deps_of (signin e)) (base d) uid addr of
        (False, _, _) \<Rightarrow> Inl failed
      | (True, _, s) \<Rightarrow>
     (case MarkInvitationRedeemedIfPending (tick e) (toNullString uid) iid codeHash (db1\<lparr>acc := d\<lparr>base := s\<rparr>\<rparr>) of
        None \<Rightarrow> Inl ise
      | Some (db2, n) \<Rightarrow> if n \<noteq> 1 then Inl bad else Inr db2)))))))"

text \<open>\<open>meanwhile\<close> is what other requests do between the first reads and the transaction, while the password is hashed.\<close>

definition RedeemInvitation ::
  "admin_env \<Rightarrow> (admin_db \<Rightarrow> admin_db) \<Rightarrow> (string \<times> string) option \<Rightarrow> request \<Rightarrow> headers \<Rightarrow> admin_db \<Rightarrow> admin_answer \<times> admin_db" where
  "RedeemInvitation e meanwhile body r w db0 =
     (case body of
        None \<Rightarrow> (Refusal (writeBadRequest w r ''invalid request body''), db0)
      | Some (typed, password) \<Rightarrow>
     (let code = trim_space (upper_of e typed); codeHash = hashInviteCode e code; ise = Refusal (writeInternalError w r ''internal server error'')
      in if code = [] then (Refusal (writeBadRequest w r ''code is required''), db0)
         else case ExpireStaleInvitations (tick e) db0 of
                None \<Rightarrow> (ise, db0)
              | Some db \<Rightarrow>
     (case GetPendingInvitationByCode (tick e) db codeHash of
        ErrNoRows \<Rightarrow> (Refusal (writeBadRequest w r ''invalid or expired invitation code''), db)
      | DBError \<Rightarrow> (ise, db)
      | Row seen \<Rightarrow>
     (case admin_gate (inv_role (snd seen) = RoleAdmin) w r of
        Some resp \<Rightarrow> (Refusal resp, db)
      | None \<Rightarrow>
     if password = [] then (Refusal (writeBadRequest w r ''password is required for this invitation''), db)
     else case validatePasswordWithPolicy (acc db) password of
            Some err \<Rightarrow> (Refusal (writeBadRequest w r (''password '' @ snd err)), db)
          | None \<Rightarrow>
     (case Hash (hash_of (signin e)) (slot_free (signin e) 0) (rnd_salt (signin e)) password of
        Inl _ \<Rightarrow> (ise, db)
      | Inr passwordHash \<Rightarrow>
     (let db1 = meanwhile db
      in if fails (store_of db1) ''BeginTx'' then (ise, db1)
         else case redeem_tx e codeHash password passwordHash seen r w db1 of
                Inl resp \<Rightarrow> (Refusal resp, db1)
              | Inr db2 \<Rightarrow>
                 if fails (store_of db1) ''Commit'' then (ise, db1)
                 else (Redeemed (new_user_id (signin e)) (inv_email (snd seen)) (inv_name (snd seen)) (inv_role (snd seen)),
                       log_admin e r ''invitation.redeemed'' db2)))))))"

section \<open>API keys\<close>

definition apiKeyResponses :: "(string \<times> key_info \<times> api_key_row) list \<Rightarrow> (string \<times> string \<times> string \<times> int option \<times> int option \<times> int option) list" where
  "apiKeyResponses rows =
     map (\<lambda>(kid, i, k). (kid, ki_name i, ki_prefix i, key_last_used_at k, key_expires_at k, key_revoked_at k)) rows"

definition keys_reply :: "string \<Rightarrow> request \<Rightarrow> headers \<Rightarrow> admin_db \<Rightarrow> admin_answer \<times> admin_db" where
  "keys_reply uid r w db =
     (case ListAPIKeysByUser db uid of
        None \<Rightarrow> (Refusal (writeInternalError w r ''internal server error''), db)
      | Some rows \<Rightarrow> (Keys (apiKeyResponses rows), db))"

definition List_keys :: "request \<Rightarrow> headers \<Rightarrow> admin_db \<Rightarrow> admin_answer \<times> admin_db" where
  "List_keys r w db =
     (if GetUserID r = [] then (Refusal (writeUnauthorized w r ''not authenticated''), db) else keys_reply (GetUserID r) r w db)"

definition Create_key :: "admin_env \<Rightarrow> (string \<times> int) option \<Rightarrow> request \<Rightarrow> headers \<Rightarrow> admin_db \<Rightarrow> admin_answer \<times> admin_db" where
  "Create_key e body r w db =
     (let uid = GetUserID r; ise = Refusal (writeInternalError w r ''internal server error'')
      in if uid = [] then (Refusal (writeUnauthorized w r ''not authenticated''), db)
         else if PrincipalKind r \<noteq> PrincipalSession
         then (Refusal (writeError w r 403 ''interactive_session_required'' ''an interactive session is required to create API keys''), db)
         else case body of
                None \<Rightarrow> (Refusal (writeBadRequest w r ''invalid request body''), db)
              | Some (nm, days) \<Rightarrow>
     if nm = [] then (Refusal (writeBadRequest w r ''name is required''), db)
     else case read_full (rnd_key_id e) 16 of
            None \<Rightarrow> (ise, db)
          | Some idBytes \<Rightarrow>
     (case read_full (rnd_key e) 32 of
        None \<Rightarrow> (ise, db)
      | Some keyBytes \<Rightarrow>
     (let rawKey = hex_encode keyBytes; fullKey = ''ti_'' @ rawKey; kid = hex_encode idBytes;
          expires = (if days > 0 then Some (tick e + days * 86400) else None);
          info = \<lparr>ki_hash = hex_encode (sha256_of e fullKey), ki_name = nm, ki_prefix = take 8 rawKey, ki_created_at = Some (tick e)\<rparr>
      in case CreateAPIKeyForUser kid uid info expires db of
           None \<Rightarrow> (Refusal (writeInternalError w r ''failed to create API key''), db)
         | Some db' \<Rightarrow> (NewKey kid nm fullKey expires, log_admin e r ''api_key.create'' db'))))"

definition Delete_key :: "admin_env \<Rightarrow> string \<Rightarrow> request \<Rightarrow> headers \<Rightarrow> admin_db \<Rightarrow> admin_answer \<times> admin_db" where
  "Delete_key e kid r w db =
     (if GetUserID r = [] then (Refusal (writeUnauthorized w r ''not authenticated''), db)
      else case DeleteAPIKey kid (GetUserID r) db of
             None \<Rightarrow> (Refusal (writeInternalError w r ''internal server error''), db)
           | Some (db', n) \<Rightarrow>
              if n = 0 then (Refusal (writeNotFound w r ''API key not found''), db')
              else (NoContent (no_content w), log_admin e r ''api_key.delete'' db'))"

definition AdminList :: "string \<Rightarrow> request \<Rightarrow> headers \<Rightarrow> admin_db \<Rightarrow> admin_answer \<times> admin_db" where
  "AdminList targetID r w db =
     (if \<not> IsAdmin r then (Refusal (writeForbidden w r ''admin access required''), db) else keys_reply targetID r w db)"

definition AdminRevoke :: "admin_env \<Rightarrow> string \<Rightarrow> string \<Rightarrow> request \<Rightarrow> headers \<Rightarrow> admin_db \<Rightarrow> admin_answer \<times> admin_db" where
  "AdminRevoke e targetID kid r w db =
     (if \<not> IsAdmin r then (Refusal (writeForbidden w r ''admin access required''), db)
      else case RevokeAPIKey (tick e) kid targetID db of
             None \<Rightarrow> (Refusal (writeInternalError w r ''internal server error''), db)
           | Some (db', n) \<Rightarrow>
              if n = 0 then (Refusal (writeNotFound w r ''API key not found''), db')
              else (NoContent (no_content w), log_admin e r ''admin.api_key_revoked'' db'))"

definition AdminRevokeAll :: "admin_env \<Rightarrow> string \<Rightarrow> request \<Rightarrow> headers \<Rightarrow> admin_db \<Rightarrow> admin_answer \<times> admin_db" where
  "AdminRevokeAll e targetID r w db =
     (if \<not> IsAdmin r then (Refusal (writeForbidden w r ''admin access required''), db)
      else case GetUserByID (store_of db) targetID of
             ErrNoRows \<Rightarrow> (Refusal (writeError w r 404 ''user_not_found'' ''no such user, so no API keys were revoked''), db)
           | DBError \<Rightarrow> (Refusal (writeInternalError w r ''internal server error''), db)
           | Row _ \<Rightarrow>
              (case RevokeAPIKeysByUser (tick e) targetID (acc db) of
                 None \<Rightarrow> (Refusal (writeInternalError w r ''internal server error''), db)
               | Some d \<Rightarrow> (NoContent (no_content w), log_admin e r ''admin.api_keys_revoked'' (db\<lparr>acc := d\<rparr>))))"

end
