(* ===== verification/Sign_In_Safety.thy ===== *)
theory Sign_In_Safety
  imports Sign_In
begin

text \<open>
  What the sign-in handlers guarantee: a token is issued only to a verified password of an enabled
  account and a spent second factor; a changed password ends every earlier session and key; the
  first administrator is created once, an initial password is set once; and a sign-in that meets
  the conditions succeeds.
\<close>

section \<open>Tokens\<close>

lemma first_error_None: "first_error (\<lambda>v. v) es = None \<longleftrightarrow> (\<forall>v \<in> set es. v = None)"
  by (induction es) (auto split: option.split)

lemma capacityExhausted_None: "capacityExhausted w r v = None \<longleftrightarrow> v \<noteq> Inl ErrBusy"
  by (simp add: capacityExhausted_def)

lemma generateToken_Some:
  assumes "generateToken e uid db = (Some token, db')"
  obtains jti expires where "jti = generateID (rnd_id e) (nanos_of e)" "expires = clock e + session_ns db div 1000000000"
    "sign_jwt e uid jti expires (clock e) (JWTSecret e) = Some token" "jti \<notin> fst ` set (sessions (base db))"
    "db' = db\<lparr>base := (base db)\<lparr>sessions := sessions (base db) @
        [(jti, \<lparr>session_user_id = uid, session_revoked_at = None, last_used_at = clock e, session_expires_at = Some expires\<rparr>)]\<rparr>\<rparr>"
  using assms by (auto simp: generateToken_def Let_def CreateSession_def split: option.splits if_splits)

lemma generateToken_frame:
  "generateToken e uid db = (tok, db') \<Longrightarrow> accounts db' = accounts db \<and> users (base db') = users (base db) \<and>
     api_keys (base db') = api_keys (base db) \<and> identities db' = identities db"
  by (auto simp: generateToken_def Let_def CreateSession_def split: option.splits if_splits)

lemma generateToken_sessions:
  assumes "generateToken e uid db = (tok, db')" "(j, x) \<in> set (sessions (base db'))"
  shows "(j, x) \<in> set (sessions (base db)) \<or>
     j = generateID (rnd_id e) (nanos_of e) \<and> j \<notin> fst ` set (sessions (base db)) \<and> last_used_at x = clock e"
  using assms by (auto simp: generateToken_def Let_def CreateSession_def image_iff split: option.splits if_splits)

lemma login_finish_SignedIn:
  assumes "login_finish e r w addr uid u a en db = (SignedIn c tok ui, db')"
  obtains jti expires where "c = 200" "ui_id ui = uid" "ui_role ui = role u" "ui_totp_enabled ui = en"
    "sign_jwt e uid jti expires (clock e) (JWTSecret e) = Some tok"
    "map_of (sessions (base db')) jti =
       Some \<lparr>session_user_id = uid, session_revoked_at = None, last_used_at = clock e, session_expires_at = Some expires\<rparr>"
    "accounts db' = accounts db"
proof -
  let ?db1 = "CreateLoginAttempt (clock e) addr (clientIP (proxy_of e) r) 1 LoginAttemptScopePasswordLogin db"
  obtain db2 where t: "generateToken e uid ?db1 = (Some tok, db2)" and
      rest: "c = 200" "db' = logAuthEvent (proxy_of e) r uid ''auth.login'' db2"
      "ui_id ui = uid" "ui_role ui = role u" "ui_totp_enabled ui = en"
    using assms by (auto simp: login_finish_def Let_def user_info_of_def split: prod.splits option.splits)
  obtain jti expires where "sign_jwt e uid jti expires (clock e) (JWTSecret e) = Some tok" "jti \<notin> fst ` set (sessions (base ?db1))"
    "db2 = ?db1\<lparr>base := (base ?db1)\<lparr>sessions := sessions (base ?db1) @
        [(jti, \<lparr>session_user_id = uid, session_revoked_at = None, last_used_at = clock e, session_expires_at = Some expires\<rparr>)]\<rparr>\<rparr>"
    using generateToken_Some [OF t] .
  then show thesis using that [of jti expires] rest by (simp add: map_of_append_new del: map_of_append)
qed

section \<open>Signing in\<close>

lemma login_rehash_frame:
  "base (login_rehash e p uid a db) = base db" "factor_columns (login_rehash e p uid a db) v = factor_columns db v"
  "attempts (login_rehash e p uid a db) = attempts db"
  by (auto simp: login_rehash_def UpdatePasswordHash_def update_account_def factor_columns_def map_option.compositionality comp_def
        split: sum.splits option.splits)

lemma find_SomeD: "find P xs = Some x \<Longrightarrow> x \<in> set xs \<and> P x"
  by (induction xs) (auto split: if_splits)

lemma GetAccountByEmail_Row:
  assumes "GetAccountByEmail db addr = Row (uid, u, a)" "distinct (map fst (users (base db)))"
  shows "map_of (users (base db)) uid = Some u" "email u = addr" "map_of (accounts db) uid = Some a"
  using assms by (auto simp: GetAccountByEmail_def GetUserByEmail_def row_simps split: fetched.splits option.splits dest!: find_SomeD)

lemma Login_SignedIn:
  assumes "Login e others body r w db = (SignedIn c tok ui, db')"
  obtains req addr uid u a where "body = Some req" "addr = Canonical (mail_of e) (login_email req)"
    "GetAccountByEmail db addr = Row (uid, u, a)" "disabled u = 0"
    "Verify_Password (hash_of e) (slot_free e 0) (login_password req) (password_hash a) = Inr True"
    "\<exists>n < 5. CountRecentFailedLoginAttemptsByEmailAndScope (clock e) addr LoginAttemptScopePasswordLogin db = Some n"
    "login_factor e others r (setNoStore w) req addr uid u a (login_rehash e (login_password req) uid a db) = (SignedIn c tok ui, db')"
proof -
  obtain req where body: "body = Some req" using assms by (cases body) (auto simp: Login_def Let_def)
  let ?addr = "Canonical (mail_of e) (login_email req)"
  have v: "login_verify e others r (setNoStore w) req ?addr db = (SignedIn c tok ui, db')"
    "\<exists>n < 5. CountRecentFailedLoginAttemptsByEmailAndScope (clock e) ?addr LoginAttemptScopePasswordLogin db = Some n"
    using assms body by (auto simp: Login_def Let_def not_le split: option.splits if_splits)
  then obtain uid u a where "GetAccountByEmail db ?addr = Row (uid, u, a)" "disabled u = 0"
      "Verify_Password (hash_of e) (slot_free e 0) (login_password req) (password_hash a) = Inr True"
      "login_factor e others r (setNoStore w) req ?addr uid u a (login_rehash e (login_password req) uid a db) = (SignedIn c tok ui, db')"
    by (auto simp: login_verify_def Let_def split: fetched.splits option.splits if_splits)
  then show thesis using that [OF body] v(2) by blast
qed

text \<open>
  What a spent factor leaves behind.  Either the submitted code is that of a time step above the last one spent, and that step
  is now the last one spent; or the text of recovery codes stored at the moment of the winning
  compare-and-swap held a hash of the submitted code, and that hash is gone from it.  The moment is
  that of one of the four attempts of the loop, after what other requests did up to then.
\<close>

definition factor_spent ::
  "signin_env \<Rightarrow> (nat \<Rightarrow> account_db \<Rightarrow> account_db) \<Rightarrow> string \<Rightarrow> string \<Rightarrow> string \<Rightarrow> account_db \<Rightarrow> account_db \<Rightarrow> bool" where
  "factor_spent e others uid secret code db db' \<longleftrightarrow>
     (\<exists>step l tx. ValidateCodeStep (clock e) secret code = Some step \<and> factor_columns db uid = Some (l, tx) \<and>
        (\<forall>x. l = Some x \<longrightarrow> x < step) \<and> factor_columns db' uid = Some (Some step, tx)) \<or>
     (\<exists>k < 4. \<exists>l tx before h after. factor_columns (fold others [0..<2 * k + 2] db) uid = Some (l, tx) \<and>
        codes_of e tx = Some (before @ h # after) \<and> bcrypt_matches (bcrypt_of e) h code \<and>
        factor_columns db' uid = Some (l, marshal_codes e (before @ after)))"

lemma recovery_attempts_spent:
  "recovery_attempts e others uid code k n db = (True, db') \<Longrightarrow>
   \<exists>j < n. \<exists>l tx before h after. factor_columns (fold others [2 * k..<2 * (k + j) + 2] db) uid = Some (l, tx) \<and>
     codes_of e tx = Some (before @ h # after) \<and> bcrypt_matches (bcrypt_of e) h code \<and>
     factor_columns db' uid = Some (l, marshal_codes e (before @ after))"
proof (induction n arbitrary: k db)
  case 0
  then show ?case by simp
next
  case (Suc n)
  define d1 where "d1 = others (2 * k) db"
  define d2 where "d2 = others (2 * k + 1) d1"
  have two: "fold others [2 * k..<2 * (k + j) + 2] db = fold others [2 * Suc k..<2 * (k + j) + 2] d2" for j
  proof -
    have "[2 * k..<2 * (k + j) + 2] = 2 * k # (2 * k + 1) # [2 * Suc k..<2 * (k + j) + 2]" by (simp add: upt_rec)
    then show ?thesis by (simp add: d1_def d2_def)
  qed
  show ?case
    using Suc.prems d1_def d2_def
  proof (cases rule: attempt_cases)
    case (won cur hashed remaining)
    obtain l where l: "factor_columns d2 uid = Some (l, cur)" "factor_columns db' uid = Some (l, marshal_codes e remaining)"
      using columns_cas [OF won(4)] .
    obtain before h after where "hashed = before @ h # after" "remaining = before @ after" "bcrypt_matches (bcrypt_of e) h code"
      using ValidateRecoveryCode_True [OF won(3)] by blast
    then show ?thesis using l won(1) two [of 0] by (intro exI [of _ 0]) auto
  next
    case lost
    then obtain j where j: "j < n" and rest: "\<exists>l tx before h after. factor_columns (fold others [2 * Suc k..<2 * (Suc k + j) + 2] d2) uid = Some (l, tx) \<and>
       codes_of e tx = Some (before @ h # after) \<and> bcrypt_matches (bcrypt_of e) h code \<and>
       factor_columns db' uid = Some (l, marshal_codes e (before @ after))" using Suc.IH by blast
    have "fold others [2 * Suc k..<2 * (Suc k + j) + 2] d2 = fold others [2 * k..<2 * (k + Suc j) + 2] db"
      unfolding two [of "Suc j"] by simp
    with rest have "\<exists>l tx before h after. factor_columns (fold others [2 * k..<2 * (k + Suc j) + 2] db) uid = Some (l, tx) \<and>
       codes_of e tx = Some (before @ h # after) \<and> bcrypt_matches (bcrypt_of e) h code \<and>
       factor_columns db' uid = Some (l, marshal_codes e (before @ after))" by simp
    with j show ?thesis by (intro exI [of _ "Suc j"] conjI) auto
  qed auto
qed

lemma spend_factor_spent:
  assumes "spend_factor e others uid secret code db = (True, db')"
  shows "factor_spent e others uid secret code db db'"
proof (cases "spendTOTPStep e uid secret code db")
  case (Pair ok db1)
  show ?thesis
  proof (cases ok)
    case True
    then obtain step where step: "ValidateCodeStep (clock e) secret code = Some step" "ClaimTOTPStep uid step db = Some (db', Suc 0)"
      using assms Pair by (auto simp: spend_factor_def spendTOTPStep_def ClaimTOTPStep_def update_account_Some split: option.splits if_splits)
    obtain l tx where "factor_columns db uid = Some (l, tx)" "\<forall>x. l = Some x \<longrightarrow> x < step" "factor_columns db' uid = Some (Some step, tx)"
      using columns_claim [OF step(2)] .
    then show ?thesis using step(1) unfolding factor_spent_def by blast
  next
    case False
    then have "db1 = db"
      using Pair by (auto simp: spendTOTPStep_def ClaimTOTPStep_def update_account_Some split: option.splits if_splits)
    then have "recovery_attempts e others uid code 0 4 db = (True, db')"
      using assms Pair False by (simp add: spend_factor_def consumeRecoveryCode_def recoveryCASAttempts_def)
    from recovery_attempts_spent [OF this] show ?thesis unfolding factor_spent_def by simp
  qed
qed

lemma login_rehash_secret:
  "map_option totp_secret (map_of (accounts (login_rehash e p uid a db)) v) = map_option totp_secret (map_of (accounts db) v)"
  by (auto simp: login_rehash_def UpdatePasswordHash_def update_account_def map_option.compositionality comp_def
        split: sum.splits option.splits)

lemma login_factor_SignedIn:
  assumes "login_factor e others r w req addr uid u a db = (SignedIn c tok ui, db')" "map_of (users (base db)) uid = Some u0"
  obtains en db1 where "login_finish e r w addr uid u a en db1 = (SignedIn c tok ui, db')"
    "totp_enabled u0 = 1 \<longrightarrow> (\<exists>b. map_of (accounts db) uid = Some b \<and>
       factor_spent e others uid (decryptTOTPSecret e (null_text (totp_secret b))) (login_totp_code req) db db1)"
proof -
  obtain b where b: "map_of (accounts db) uid = Some b" "GetUserTOTPState db uid = Row (totp_enabled u0, totp_secret b, totp_recovery_codes b)"
    using assms by (auto simp: login_factor_def GetUserTOTPState_def row_simps fetch_def split: option.splits if_splits)
  let ?secret = "decryptTOTPSecret e (null_text (totp_secret b))"
  show thesis
  proof (cases "totp_enabled u0 = 1")
    case True
    then obtain db1 where sf: "spend_factor e others uid ?secret (login_totp_code req) db = (True, db1)" and
        fin: "login_finish e r w addr uid u a True db1 = (SignedIn c tok ui, db')"
      using assms(1) b(2) by (auto simp: login_factor_def split: if_splits prod.splits bool.splits)
    then show thesis using b(1) spend_factor_spent by (intro that [OF fin]) blast
  next
    case False
    then show thesis using that assms(1) b(2) by (simp add: login_factor_def)
  qed
qed

lemma factor_spent_frame:
  "accounts db'' = accounts db' \<Longrightarrow> factor_spent e others uid secret code db db' \<Longrightarrow> factor_spent e others uid secret code db db''"
  by (simp add: factor_spent_def factor_columns_def)

text \<open>
  C4. A sign-in answers with a token only for an existing, enabled account whose stored hash the submitted
  password verifies, with fewer than five recent failures for its address; the token is the
  signature over that user and a fresh session that is stored live under its identifier; and if
  the account has the second factor on, the submitted code was spent by the request, whatever other requests do
  in between: it is the code of a time step above the last one spent, which is now that step, or a hash of it stood
  among the stored recovery codes and is gone from them (\<open>factor_spent\<close>; the state it starts from is
  that of the request with a legacy password hash replaced).
\<close>

theorem login_sound:
  assumes ids: "distinct (map fst (users (base db)))"
    and login: "Login e others body r w db = (SignedIn c tok ui, db')"
  shows "\<exists>req uid u a jti expires.
     body = Some req \<and> map_of (users (base db)) uid = Some u \<and> email u = Canonical (mail_of e) (login_email req) \<and>
     map_of (accounts db) uid = Some a \<and> disabled u = 0 \<and>
     Verify_Password (hash_of e) (slot_free e 0) (login_password req) (password_hash a) = Inr True \<and>
     length (filter (\<lambda>x. attempt_email x = email u \<and> attempt_scope x = ''password_login'' \<and> attempt_success x = 0 \<and>
                         clock e - 900 < attempt_at x) (attempts db)) < 5 \<and>
     sign_jwt e uid jti expires (clock e) (JWTSecret e) = Some tok \<and> ui_id ui = uid \<and> ui_role ui = role u \<and>
     map_of (sessions (base db')) jti =
       Some \<lparr>session_user_id = uid, session_revoked_at = None, last_used_at = clock e, session_expires_at = Some expires\<rparr> \<and>
     (totp_enabled u = 1 \<longrightarrow>
        factor_spent e others uid (decryptTOTPSecret e (null_text (totp_secret a))) (login_totp_code req)
          (login_rehash e (login_password req) uid a db) db')"
proof -
  obtain req addr uid u a where req: "body = Some req" "addr = Canonical (mail_of e) (login_email req)"
      "GetAccountByEmail db addr = Row (uid, u, a)" "disabled u = 0"
      "Verify_Password (hash_of e) (slot_free e 0) (login_password req) (password_hash a) = Inr True"
      "\<exists>n < 5. CountRecentFailedLoginAttemptsByEmailAndScope (clock e) addr LoginAttemptScopePasswordLogin db = Some n"
      "login_factor e others r (setNoStore w) req addr uid u a (login_rehash e (login_password req) uid a db) = (SignedIn c tok ui, db')"
    using Login_SignedIn [OF login] .
  let ?db0 = "login_rehash e (login_password req) uid a db"
  have u: "map_of (users (base db)) uid = Some u" "email u = addr" and a: "map_of (accounts db) uid = Some a"
    using GetAccountByEmail_Row [OF req(3) ids] by blast+
  have few: "length (filter (\<lambda>x. attempt_email x = email u \<and> attempt_scope x = ''password_login'' \<and> attempt_success x = 0 \<and>
                         clock e - 900 < attempt_at x) (attempts db)) < 5"
    using req(6) u(2) by (auto simp: CountRecentFailedLoginAttemptsByEmailAndScope_def LoginAttemptScopePasswordLogin_def
        recent_failure_def split: if_splits)
  have "map_of (users (base ?db0)) uid = Some u" using u(1) by (simp add: login_rehash_frame)
  then obtain en db1 where fin: "login_finish e r (setNoStore w) addr uid u a en db1 = (SignedIn c tok ui, db')"
    and factor: "totp_enabled u = 1 \<longrightarrow> (\<exists>b. map_of (accounts ?db0) uid = Some b \<and>
       factor_spent e others uid (decryptTOTPSecret e (null_text (totp_secret b))) (login_totp_code req) ?db0 db1)"
    using login_factor_SignedIn [OF req(7)] by blast
  obtain jti expires where tok: "ui_id ui = uid" "ui_role ui = role u" "sign_jwt e uid jti expires (clock e) (JWTSecret e) = Some tok"
    "map_of (sessions (base db')) jti =
       Some \<lparr>session_user_id = uid, session_revoked_at = None, last_used_at = clock e, session_expires_at = Some expires\<rparr>"
    "accounts db' = accounts db1"
    using login_finish_SignedIn [OF fin] .
  have "factor_spent e others uid (decryptTOTPSecret e (null_text (totp_secret a))) (login_totp_code req) ?db0 db'"
    if on: "totp_enabled u = 1"
  proof -
    obtain b where b: "map_of (accounts ?db0) uid = Some b"
      "factor_spent e others uid (decryptTOTPSecret e (null_text (totp_secret b))) (login_totp_code req) ?db0 db1"
      using factor on by blast
    have "totp_secret b = totp_secret a" using login_rehash_secret [of e "login_password req" uid a db uid] b(1) a by simp
    then show ?thesis using factor_spent_frame [OF tok(5) b(2)] by simp
  qed
  then show ?thesis using req(1,2,4,5) u a few tok by blast
qed

section \<open>A changed password ends what came before\<close>

text \<open>The part of the state that authentication reads.\<close>

definition credentials :: "account_db \<Rightarrow> (string \<times> user_row) list \<times> (string \<times> session_row) list \<times> (string \<times> api_key_row) list \<times>
    (string \<times> string) list \<times> (string \<Rightarrow> bool)" where
  "credentials db = (users (base db), sessions (base db), api_keys (base db), settings (base db), fails (base db))"

lemma exec_frame:
  "exec s stmt s' = Inr s'' \<Longrightarrow> s'' = s'"
  by (auto simp: exec_def split: if_splits)

lemma purge_row_entries:
  "purge_row op se t uid row (s, d) = (s', d') \<Longrightarrow> \<exists>es. s' = s\<lparr>entries := es\<rparr>"
  by (auto simp: purge_row_def Let_def SetRotationTargets_def update_entry_def dest!: exec_frame
      split: prod.splits if_splits option.splits sum.splits intro: exI [of _ "entries s"])

lemma purge_fold_entries: "\<exists>es. fst (fold (purge_row op se t uid) rows (s, d)) = s\<lparr>entries := es\<rparr>"
proof (induction rows arbitrary: s d)
  case Nil
  show ?case by (auto intro: exI [of _ "entries s"])
next
  case (Cons row rows)
  obtain s1 d1 where s1: "purge_row op se t uid row (s, d) = (s1, d1)" by fastforce
  then obtain es where "s1 = s\<lparr>entries := es\<rparr>" using purge_row_entries by blast
  then show ?case using Cons [of s1 d1] s1 by auto
qed

lemma purge_targets_frame:
  "credentials (purge_targets e r uid db) = credentials db" "accounts (purge_targets e r uid db) = accounts db"
  "identities (purge_targets e r uid db) = identities db"
proof -
  have "\<exists>es. fst (PurgeTargetsConfiguredByUser op se t s uid) = s\<lparr>entries := es\<rparr>" for op se t s
    using purge_fold_entries by (auto simp: PurgeTargetsConfiguredByUser_def intro: exI [of _ "entries s"])
  then obtain es d where "PurgeTargetsConfiguredByUser (open_targets (deps_of e)) (seal_targets (deps_of e)) (clock e) (base db) uid =
      ((base db)\<lparr>entries := es\<rparr>, d)" by (metis prod.collapse)
  then show "credentials (purge_targets e r uid db) = credentials db" "accounts (purge_targets e r uid db) = accounts db"
    "identities (purge_targets e r uid db) = identities db"
    by (simp_all add: purge_targets_def credentials_def)
qed

text \<open>The statements of \<^verbatim>\<open>invalidateCredentials\<close> are tried one by one; this is what each of them does when it works.\<close>

lemma invalidateCredentials_each:
  assumes "uid \<noteq> []"
  shows "\<not> broken db ''RevokeUserSessions'' \<Longrightarrow> \<forall>(j, x) \<in> set (sessions (base (invalidateCredentials e r uid db))). session_user_id x = uid \<longrightarrow> session_revoked_at x \<noteq> None"
    "\<not> broken db ''RevokeAPIKeysByUser'' \<Longrightarrow> \<forall>(h, k) \<in> set (api_keys (base (invalidateCredentials e r uid db))). key_user_id k = uid \<longrightarrow> key_revoked_at k \<noteq> None"
    "\<not> broken db ''ListServiceIdentitiesByUser'' \<Longrightarrow> \<not> broken db ''RevokeServiceIdentitiesByUser'' \<Longrightarrow>
       \<forall>(k, i) \<in> set (identities (invalidateCredentials e r uid db)). \<not> live_identity uid i"
    "\<not> broken db ''InvalidateUserSessions'' \<Longrightarrow>
       map_of (users (base (invalidateCredentials e r uid db))) uid = map_option (\<lambda>u. u\<lparr>sessions_valid_after := clock e\<rparr>) (map_of (users (base db)) uid)"
    "accounts (invalidateCredentials e r uid db) = accounts db"
    "map fst (sessions (base (invalidateCredentials e r uid db))) = map fst (sessions (base db))"
proof -
  let ?t = "clock e"
  define db1 where "db1 = best_effort (InvalidateUserSessions ?t uid) db"
  define db2 where "db2 = best_effort (RevokeUserSessions ?t uid) db1"
  define db3 where "db3 = best_effort (RevokeAPIKeysByUser ?t uid) db2"
  define db4 where "db4 = revoke_identities e r uid db3"
  have all: "invalidateCredentials e r uid db = purge_targets e r uid db4"
    using assms by (simp add: invalidateCredentials_def Let_def db1_def db2_def db3_def db4_def)
  note step_defs = best_effort_def InvalidateUserSessions_def update_user_def RevokeUserSessions_def RevokeAPIKeysByUser_def
  have fails: "fails (base db1) = fails (base db)" "fails (base db2) = fails (base db)" "fails (base db3) = fails (base db)"
    by (simp_all add: db1_def db2_def db3_def step_defs split: option.split)
  have four: "base db4 = base db3" "accounts db4 = accounts db3"
    by (simp_all add: db4_def revoke_identities_def RevokeServiceIdentitiesByUser_def split: option.split)
  have cred: "users (base (invalidateCredentials e r uid db)) = users (base db3)" "sessions (base (invalidateCredentials e r uid db)) = sessions (base db3)"
      "api_keys (base (invalidateCredentials e r uid db)) = api_keys (base db3)"
    using purge_targets_frame(1) [of e r uid db4] four(1) unfolding all by (simp_all add: credentials_def)
  have i: "identities (invalidateCredentials e r uid db) = identities db4" unfolding all by (rule purge_targets_frame(3))
  have same: "users (base db3) = users (base db1)" "sessions (base db3) = sessions (base db2)" "accounts db3 = accounts db"
      "map fst (sessions (base db2)) = map fst (sessions (base db))"
    by (simp_all add: db1_def db2_def db3_def step_defs case_prod_unfold comp_def split: option.split)
  show "\<forall>(j, x) \<in> set (sessions (base (invalidateCredentials e r uid db))). session_user_id x = uid \<longrightarrow> session_revoked_at x \<noteq> None"
    if "\<not> broken db ''RevokeUserSessions''"
    using that fails(1) unfolding cred same by (auto simp: db2_def step_defs revoke_session_def split: if_splits)
  show "\<forall>(h, k) \<in> set (api_keys (base (invalidateCredentials e r uid db))). key_user_id k = uid \<longrightarrow> key_revoked_at k \<noteq> None"
    if "\<not> broken db ''RevokeAPIKeysByUser''"
    using that fails(2) unfolding cred by (auto simp: db3_def step_defs split: if_splits)
  show "\<forall>(k, i) \<in> set (identities (invalidateCredentials e r uid db)). \<not> live_identity uid i"
    if "\<not> broken db ''ListServiceIdentitiesByUser''" "\<not> broken db ''RevokeServiceIdentitiesByUser''"
  proof (cases "filter (\<lambda>(_, i). live_identity uid i) (identities db3) = []")
    case True
    then have "db4 = db3" using that fails(3) by (simp add: db4_def revoke_identities_def ListServiceIdentitiesByUser_def)
    then show ?thesis using True unfolding i by (auto simp: filter_empty_conv)
  next
    case False
    then have "identities db4 = map (\<lambda>(k, i). (k, if live_identity uid i then i\<lparr>identity_revoked_at := Some ?t\<rparr> else i)) (identities db3)"
      using that fails(3) by (simp add: db4_def revoke_identities_def ListServiceIdentitiesByUser_def RevokeServiceIdentitiesByUser_def)
    then show ?thesis unfolding i by (auto simp: live_identity_def)
  qed
  show "map_of (users (base (invalidateCredentials e r uid db))) uid = map_option (\<lambda>u. u\<lparr>sessions_valid_after := clock e\<rparr>) (map_of (users (base db)) uid)"
    if "\<not> broken db ''InvalidateUserSessions''"
    using that unfolding cred same by (simp add: db1_def step_defs)
  show "accounts (invalidateCredentials e r uid db) = accounts db" unfolding all purge_targets_frame(2) four(2) same(3) ..
  show "map fst (sessions (base (invalidateCredentials e r uid db))) = map fst (sessions (base db))" unfolding cred same ..
qed

text \<open>
  C21. Changing the password takes the current one and stores a hash the new password verifies.  Revoking what authenticated
  as the user before is best effort: an answer of success does not depend on it.  Each revocation whose
  statement works is complete: every API key of the user is revoked; no service identity of theirs is live;
  the account accepts no session issued before this instant; and the only session of the
  user that is not revoked is the one of the token in the answer.
\<close>

theorem change_password_revokes:
  assumes change: "ChangePassword e body r w db = (Message m tok, db')"
    and argon: "\<And>q salt. length (argon2_idkey (hash_of e) q salt (int argonTime) (int argonMemory) (int argonThreads) argonKeyLen) = argonKeyLen"
  shows "\<exists>req a a'. body = Some req \<and> map_of (accounts db) (GetUserID r) = Some a \<and>
     Verify_Password (hash_of e) (slot_free e 0) (current_password req) (password_hash a) = Inr True \<and>
     map_of (accounts db') (GetUserID r) = Some a' \<and> password_set a' = 1 \<and>
     Verify_Password (hash_of e) True (new_password req) (password_hash a') = Inr True \<and>
     (\<not> broken db ''RevokeAPIKeysByUser'' \<longrightarrow>
        (\<forall>(h, k) \<in> set (api_keys (base db')). key_user_id k = GetUserID r \<longrightarrow> key_revoked_at k \<noteq> None)) \<and>
     (\<not> broken db ''ListServiceIdentitiesByUser'' \<and> \<not> broken db ''RevokeServiceIdentitiesByUser'' \<longrightarrow>
        (\<forall>(k, i) \<in> set (identities db'). \<not> live_identity (GetUserID r) i)) \<and>
     (\<not> broken db ''InvalidateUserSessions'' \<longrightarrow>
        (\<forall>u. map_of (users (base db')) (GetUserID r) = Some u \<longrightarrow> sessions_valid_after u = clock e)) \<and>
     (\<not> broken db ''RevokeUserSessions'' \<longrightarrow>
        (\<forall>(j, x) \<in> set (sessions (base db')). session_user_id x = GetUserID r \<and> session_revoked_at x = None \<longrightarrow>
           j = generateID (rnd_id e) (nanos_of e) \<and> j \<notin> fst ` set (sessions (base db)) \<and> last_used_at x = clock e))"
proof -
  let ?uid = "GetUserID r"
  obtain req where req: "body = Some req" "?uid \<noteq> []"
    using change by (cases body) (auto simp: ChangePassword_def Let_def split: if_splits)
  obtain hash newHash db1 where c: "GetPasswordHashByUserID db ?uid = Row hash"
      "Verify_Password (hash_of e) (slot_free e 0) (current_password req) hash = Inr True"
      "Hash (hash_of e) (slot_free e 1) (rnd_salt e) (new_password req) = Inr newHash" "SetPasswordHash newHash ?uid db = Some db1"
      "generateToken e ?uid (LogActivityFromRequest (proxy_of e) r ''auth.password_changed'' (invalidateCredentials e r ?uid db1)) = (tok, db')"
    using change req by (auto simp: ChangePassword_def Let_def split: if_splits option.splits fetched.splits sum.splits prod.splits)
  obtain a where a: "map_of (accounts db) ?uid = Some a" "hash = password_hash a"
    using c(1) by (auto simp: GetPasswordHashByUserID_def row_simps)
  have db1: "db1 = db\<lparr>accounts := sql_update ?uid (\<lambda>a. a\<lparr>password_hash := newHash, password_set := 1\<rparr>) (accounts db)\<rparr>"
    using c(4) a(1) by (auto simp: SetPasswordHash_def update_account_def split: if_splits)
  then have broken: "broken db1 q = broken db q" and sessions: "sessions (base db1) = sessions (base db)" for q by simp_all
  let ?db2 = "invalidateCredentials e r ?uid db1"
  note each = invalidateCredentials_each [where uid = ?uid and db = db1 and e = e and r = r, OF req(2), unfolded broken]
  have frame: "accounts db' = accounts ?db2" "api_keys (base db') = api_keys (base ?db2)" "identities db' = identities ?db2" "users (base db') = users (base ?db2)"
    using generateToken_frame [OF c(5)] by simp_all
  have sess: "j = generateID (rnd_id e) (nanos_of e) \<and> j \<notin> fst ` set (sessions (base db)) \<and> last_used_at x = clock e"
    if "\<not> broken db ''RevokeUserSessions''" "(j, x) \<in> set (sessions (base db'))" "session_user_id x = ?uid" "session_revoked_at x = None" for j x
  proof -
    have "(j, x) \<notin> set (sessions (base ?db2))" using each(1) [OF that(1)] that(3,4) by auto
    then show ?thesis using generateToken_sessions [OF c(5) that(2)] each(6) sessions by (auto simp flip: set_map)
  qed
  have new: "map_of (accounts db') ?uid = Some (a\<lparr>password_hash := newHash, password_set := 1\<rparr>)"
    unfolding frame(1) each(5) using a(1) db1 by simp
  have verified: "Verify_Password (hash_of e) True (new_password req) newHash = Inr True"
    using Hash_verifies [OF argon c(3)] .
  show ?thesis
  proof (intro exI conjI)
    show "body = Some req" "map_of (accounts db) ?uid = Some a" "map_of (accounts db') ?uid = Some (a\<lparr>password_hash := newHash, password_set := 1\<rparr>)"
      by (fact req(1) a(1) new)+
    show "Verify_Password (hash_of e) (slot_free e 0) (current_password req) (password_hash a) = Inr True" using c(2) a(2) by simp
    show "Verify_Password (hash_of e) True (new_password req) (password_hash (a\<lparr>password_hash := newHash, password_set := 1\<rparr>)) = Inr True"
      using verified by simp
    show "\<not> broken db ''InvalidateUserSessions'' \<longrightarrow> (\<forall>u. map_of (users (base db')) ?uid = Some u \<longrightarrow> sessions_valid_after u = clock e)"
      using each(4) unfolding frame(4) by auto
    show "\<not> broken db ''RevokeUserSessions'' \<longrightarrow>
        (\<forall>(j, x) \<in> set (sessions (base db')). session_user_id x = ?uid \<and> session_revoked_at x = None \<longrightarrow>
           j = generateID (rnd_id e) (nanos_of e) \<and> j \<notin> fst ` set (sessions (base db)) \<and> last_used_at x = clock e)"
      using sess by blast
  qed (use each(2,3) in \<open>auto simp: frame\<close>)
qed

section \<open>Written once\<close>

lemma AddCollectionMember_users: "AddCollectionMember s cid uid rl t by = Inr s' \<Longrightarrow> users s' = users s"
  by (auto simp: AddCollectionMember_def dest!: exec_frame)

lemma claim_seats_users: "users (snd (snd (claim_seats s uid seats n))) = users s"
proof (induction s uid seats n rule: claim_seats.induct)
  case (2 s uid cid x seat seats claimed)
  then show ?case by (auto dest: AddCollectionMember_users split: sum.splits)
qed simp

lemma claim_frame:
  "users (base (claimCollectionInvitationsBestEffort e uid addr db)) = users (base db)"
  "accounts (claimCollectionInvitationsBestEffort e uid addr db) = accounts db"
  by (simp_all add: claimCollectionInvitationsBestEffort_def claimCollectionInvitations_def claim_seats_users)

text \<open>How a registration ends: without a write of its own, or after the insertion into an empty table.\<close>

lemma Register_cases:
  assumes "Register e meanwhile body r w db = (ans, db')"
  obtains (refused) "db' = db \<or> db' = meanwhile db" "\<exists>resp. ans = Reply resp"
  | (inserted) u a where "users (base db) = []" "users (base (meanwhile db)) = []"
      "users (base db') = [(new_user_id e, u)]" "role u = RoleAdmin" "disabled u = 0"
      "accounts db' = [(new_user_id e, a)]" "password_set a = 1" "IsPrivateIngressConfigured r \<longrightarrow> IsPrivateIngress r"
proof (cases "\<exists>req hash db2. CountUsers db = Some 0 \<and> body = Some req \<and> \<not> (IsPrivateIngressConfigured r \<and> \<not> IsPrivateIngress r) \<and>
    register_error e req (Canonical (mail_of e) (register_email req)) (meanwhile db) = None \<and>
    Hash (hash_of e) (slot_free e 0) (rnd_salt e) (register_password req) = Inr hash \<and>
    CreateFirstAdmin (clock e) (new_user_id e) (Canonical (mail_of e) (register_email req)) hash (toNullString (register_name req)) (meanwhile db) = Row db2")
  case True
  then obtain req hash db2 where c: "CountUsers db = Some 0" "body = Some req" "\<not> (IsPrivateIngressConfigured r \<and> \<not> IsPrivateIngress r)"
    "register_error e req (Canonical (mail_of e) (register_email req)) (meanwhile db) = None"
    "Hash (hash_of e) (slot_free e 0) (rnd_salt e) (register_password req) = Inr hash"
    "CreateFirstAdmin (clock e) (new_user_id e) (Canonical (mail_of e) (register_email req)) hash (toNullString (register_name req)) (meanwhile db) = Row db2"
    by blast
  let ?db3 = "claimCollectionInvitationsBestEffort e (new_user_id e) (Canonical (mail_of e) (register_email req)) db2"
  obtain tok db4 where t: "generateToken e (new_user_id e) ?db3 = (tok, db4)" by fastforce
  have "users (base db') = users (base db2)" "accounts db' = accounts db2"
    using assms c t generateToken_frame [OF t] claim_frame [of e "new_user_id e" _ db2]
    by (auto simp: Register_def Let_def requireConfiguredPrivateControlPlaneIngress_def split: option.splits if_splits)
  then show thesis
    using c by (intro inserted) (auto simp: CreateFirstAdmin_def CountUsers_def split: if_splits)
next
  case False
  then show thesis
    using assms by (intro refused)
      (auto simp: Register_def Let_def requireConfiguredPrivateControlPlaneIngress_def split: option.splits if_splits sum.splits fetched.splits prod.splits)
qed

text \<open>
  C22. Setup happens once: a registration that is answered with a token found the table of users empty at
  the moment of its insertion, came over the private listener if one is configured, and leaves
  one enabled administrator; if another request completed the setup in the meantime, however
  late, the registration changes nothing and is refused.
\<close>

theorem setup_once:
  assumes "Register e meanwhile body r w db = (ans, db')"
  shows "(\<forall>c tok ui. ans = SignedIn c tok ui \<longrightarrow>
            users (base db) = [] \<and> users (base (meanwhile db)) = [] \<and>
            (\<exists>u a. users (base db') = [(new_user_id e, u)] \<and> role u = RoleAdmin \<and> disabled u = 0 \<and>
                   accounts db' = [(new_user_id e, a)] \<and> password_set a = 1) \<and>
            (IsPrivateIngressConfigured r \<longrightarrow> IsPrivateIngress r)) \<and>
         (users (base (meanwhile db)) \<noteq> [] \<longrightarrow> (db' = db \<or> db' = meanwhile db) \<and> (\<exists>resp. ans = Reply resp))"
  using assms by (cases rule: Register_cases) auto

lemma SetInitialPassword_cases:
  assumes "SetInitialPassword e meanwhile body r w db = (ans, db')"
  obtains (refused) "db' = db \<or> db' = meanwhile db" "\<exists>resp. ans = Reply resp"
  | (stored) a h where "map_of (accounts (meanwhile db)) (GetUserID r) = Some a" "password_set a = 0"
      "accounts db' = sql_update (GetUserID r) (\<lambda>a. a\<lparr>password_hash := h, password_set := 1\<rparr>) (accounts (meanwhile db))"
      "ans = Message ''password set successfully'' None"
      "\<exists>password. body = Some password \<and> Hash (hash_of e) (slot_free e 0) (rnd_salt e) password = Inr h"
proof (cases "GetUserID r \<noteq> [] \<and> (\<exists>password h db2. body = Some password \<and> password \<noteq> [] \<and> validatePasswordWithPolicy db password = None \<and>
    GetUserPasswordSet db (GetUserID r) = Row 0 \<and> Hash (hash_of e) (slot_free e 0) (rnd_salt e) password = Inr h \<and>
    SetInitialPasswordHash h (GetUserID r) (meanwhile db) = Some (db2, Suc 0))")
  case True
  then obtain password h db2 where c: "GetUserID r \<noteq> []" "body = Some password" "password \<noteq> []" "validatePasswordWithPolicy db password = None"
    "GetUserPasswordSet db (GetUserID r) = Row 0" "Hash (hash_of e) (slot_free e 0) (rnd_salt e) password = Inr h"
    "SetInitialPasswordHash h (GetUserID r) (meanwhile db) = Some (db2, Suc 0)" by blast
  obtain a where "map_of (accounts (meanwhile db)) (GetUserID r) = Some a" "password_set a = 0"
      "db2 = (meanwhile db)\<lparr>accounts := sql_update (GetUserID r) (\<lambda>a. a\<lparr>password_hash := h, password_set := 1\<rparr>) (accounts (meanwhile db))\<rparr>"
    using c(7) by (auto simp: SetInitialPasswordHash_def update_account_Some split: if_splits)
  moreover have "ans = Message ''password set successfully'' None" "db' = LogActivityFromRequest (proxy_of e) r ''auth.initial_password_set'' db2"
    using assms c by (simp_all add: SetInitialPassword_def Let_def)
  ultimately show thesis using c(2,6) by (intro stored [of a h]) auto
next
  case False
  have rows: "n = 0 \<and> d = meanwhile db \<or> n = Suc 0" if "SetInitialPasswordHash h (GetUserID r) (meanwhile db) = Some (d, n)" for h d n
    using that by (auto simp: SetInitialPasswordHash_def update_account_Some split: if_splits)
  show thesis
    by (rule refused) (use assms False in \<open>auto simp: SetInitialPassword_def Let_def dest: rows
      split: option.splits if_splits fetched.splits sum.splits prod.splits\<close>)
qed

text \<open>
  An initial password is set once: of any number of requests that all saw the account without one, a
  request that reports success found the mark unset at its compare-and-set, stores a hash of its
  own password and sets the mark; if another request was faster, the account stays as that
  request left it.
\<close>

theorem initial_password_once:
  assumes "SetInitialPassword e meanwhile body r w db = (ans, db')"
  shows "((\<exists>m t. ans = Message m t) \<longrightarrow>
            (\<exists>a h password. map_of (accounts (meanwhile db)) (GetUserID r) = Some a \<and> password_set a = 0 \<and> body = Some password \<and>
               Hash (hash_of e) (slot_free e 0) (rnd_salt e) password = Inr h \<and>
               map_of (accounts db') (GetUserID r) = Some (a\<lparr>password_hash := h, password_set := 1\<rparr>))) \<and>
         ((\<exists>a. map_of (accounts (meanwhile db)) (GetUserID r) = Some a \<and> password_set a \<noteq> 0) \<longrightarrow>
            (db' = db \<or> db' = meanwhile db) \<and> (\<exists>resp. ans = Reply resp))"
  using assms by (cases rule: SetInitialPassword_cases) auto

section \<open>A sign-in that meets the conditions succeeds\<close>

text \<open>The statements a sign-in runs.\<close>

definition login_statements :: "string list" where
  "login_statements = [''CountRecentFailedLoginAttemptsByEmailAndScope'', ''GetUserByEmail'', ''GetUserTOTPState'', ''ClaimTOTPStep'',
     ''CASRecoveryCodes'', ''CreateSession'']"

lemma generateToken_works:
  assumes "\<not> broken db ''CreateSession''" "generateID (rnd_id e) (nanos_of e) \<notin> fst ` set (sessions (base db))"
    "\<And>jti ex iat. sign_jwt e uid jti ex iat (JWTSecret e) \<noteq> None"
  shows "\<exists>tok db'. generateToken e uid db = (Some tok, db')"
  using assms by (auto simp: generateToken_def Let_def CreateSession_def)

lemma login_finish_works:
  assumes "\<not> broken db ''CreateSession''" "generateID (rnd_id e) (nanos_of e) \<notin> fst ` set (sessions (base db))"
    "\<And>jti ex iat. sign_jwt e uid jti ex iat (JWTSecret e) \<noteq> None"
  shows "\<exists>tok ui db'. login_finish e r w addr uid u a en db = (SignedIn 200 tok ui, db')"
proof -
  obtain tok db' where "generateToken e uid (CreateLoginAttempt (clock e) addr (clientIP (proxy_of e) r) 1 LoginAttemptScopePasswordLogin db) = (Some tok, db')"
    using generateToken_works [of "CreateLoginAttempt (clock e) addr (clientIP (proxy_of e) r) 1 LoginAttemptScopePasswordLogin db" e uid] assms by auto
  then show ?thesis by (simp add: login_finish_def Let_def)
qed

lemma spendTOTPStep_works:
  assumes "ValidateCodeStep (clock e) secret code = Some step" "map_of (accounts db) uid = Some a" "\<not> broken db ''ClaimTOTPStep''"
    "\<forall>l. totp_last_step a = Some l \<longrightarrow> l < step"
  shows "\<exists>db'. spendTOTPStep e uid secret code db = (True, db') \<and> base db' = base db"
  using assms by (auto simp: spendTOTPStep_def ClaimTOTPStep_def update_account_def split: option.splits)

lemma Login_works:
  assumes works: "\<forall>q \<in> set login_statements. \<not> broken db q"
    and token: "generateID (rnd_id e) (nanos_of e) \<notin> fst ` set (sessions (base db))"
      "\<And>jti ex iat. sign_jwt e uid jti ex iat (JWTSecret e) \<noteq> None"
    and valid: "addr = Canonical (mail_of e) (login_email req)" "login_error e req addr = None"
    and account: "find (\<lambda>(i, u). email u = addr) (users (base db)) = Some (uid, u)" "distinct (map fst (users (base db)))"
      "map_of (accounts db) uid = Some a" "disabled u = 0"
      "Verify_Password (hash_of e) (slot_free e 0) (login_password req) (password_hash a) = Inr True"
    and few: "length (filter (\<lambda>x. attempt_email x = addr \<and> attempt_scope x = ''password_login'' \<and> attempt_success x = 0 \<and>
        attempt_at x > clock e - 900) (attempts db)) < 5"
      "length (filter (\<lambda>x. attempt_ip x = clientIP (proxy_of e) r \<and> attempt_success x = 0 \<and> attempt_at x > clock e - 900) (attempts db)) < 20"
    and factor: "totp_enabled u = 1 \<longrightarrow> login_totp_code req \<noteq> [] \<and> (\<exists>step.
        ValidateCodeStep (clock e) (decryptTOTPSecret e (null_text (totp_secret a))) (login_totp_code req) = Some step \<and>
        (\<forall>l. totp_last_step a = Some l \<longrightarrow> l < step))"
  shows "\<exists>tok ui db'. Login e others (Some req) r w db = (SignedIn 200 tok ui, db')"
proof -
  let ?db0 = "login_rehash e (login_password req) uid a db"
  have nb: "\<not> broken db q" if "q \<in> set login_statements" for q using works that by blast
  have row: "GetAccountByEmail db addr = Row (uid, u, a)"
    using account nb [of "''GetUserByEmail''"] by (simp add: GetAccountByEmail_def GetUserByEmail_def fetch_def login_statements_def)
  have u: "map_of (users (base ?db0)) uid = Some u"
    using GetAccountByEmail_Row(1) [OF row account(2)] by (simp add: login_rehash_frame)
  obtain b where b: "map_of (accounts ?db0) uid = Some b" "totp_secret b = totp_secret a" "totp_last_step b = totp_last_step a"
    using login_rehash_secret [of e "login_password req" uid a db uid] login_rehash_frame(2) [of e "login_password req" uid a db uid] account(3)
    by (auto simp: factor_columns_def)
  have state: "GetUserTOTPState ?db0 uid = Row (totp_enabled u, totp_secret b, totp_recovery_codes b)"
    using u b(1) nb [of "''GetUserTOTPState''"] by (simp add: GetUserTOTPState_def fetch_def login_rehash_frame login_statements_def)
  have fin: "\<exists>tok ui db'. login_finish e r (setNoStore w) addr uid u a en d = (SignedIn 200 tok ui, db')" if "base d = base db" for en d
    using login_finish_works [of d e uid] that token nb [of "''CreateSession''"] by (simp add: login_statements_def)
  have "\<exists>tok ui db'. login_factor e others r (setNoStore w) req addr uid u a ?db0 = (SignedIn 200 tok ui, db')"
  proof (cases "totp_enabled u = 1")
    case True
    then obtain step where "ValidateCodeStep (clock e) (decryptTOTPSecret e (null_text (totp_secret b))) (login_totp_code req) = Some step"
        "\<forall>l. totp_last_step b = Some l \<longrightarrow> l < step" using factor b by auto
    then obtain d where "spendTOTPStep e uid (decryptTOTPSecret e (null_text (totp_secret b))) (login_totp_code req) ?db0 = (True, d)"
        "base d = base ?db0"
      using spendTOTPStep_works [OF _ b(1)] nb [of "''ClaimTOTPStep''"] by (fastforce simp: login_rehash_frame login_statements_def)
    then show ?thesis using True state factor fin [of d True] by (auto simp: login_factor_def spend_factor_def login_rehash_frame)
  next
    case False
    then show ?thesis using state fin [of ?db0 False] by (simp add: login_factor_def login_rehash_frame)
  qed
  then have verify: "\<exists>tok ui db'. login_verify e others r (setNoStore w) req addr db = (SignedIn 200 tok ui, db')"
    using row account(4,5) by (simp add: login_verify_def capacityExhausted_def)
  have "\<exists>n < 5. CountRecentFailedLoginAttemptsByEmailAndScope (clock e) addr LoginAttemptScopePasswordLogin db = Some n"
    using nb [of "''CountRecentFailedLoginAttemptsByEmailAndScope''"] few(1)
    by (simp add: CountRecentFailedLoginAttemptsByEmailAndScope_def login_statements_def recent_failure_def LoginAttemptScopePasswordLogin_def)
  moreover have "(case CountRecentFailedLoginAttemptsByIP (clock e) (clientIP (proxy_of e) r) db of Some n \<Rightarrow> n | None \<Rightarrow> 0) < 20"
    using few(2) by (simp add: CountRecentFailedLoginAttemptsByIP_def recent_failure_def)
  ultimately show ?thesis using verify valid by (auto simp: Login_def Let_def)
qed

text \<open>
  C27. Signing in is live: in a state where the statements it runs work, a token can be signed and its session identifier
  is new, an enabled account with fewer than five failed password sign-ins for its address and fewer than twenty
  failed attempts from the client's address in the last 15 minutes (successes, older failures and
  failures of other scopes for the address do not count) is signed in with its password, if its second factor is off, or with its password and the current
  code of its authenticator, if the time step of the code is above the last one spent.  Failures
  older than 15 minutes do not stand in the way: whatever their number, the lock ends by itself.
\<close>

theorem login_succeeds:
  assumes works: "\<forall>q \<in> set login_statements. \<not> broken db q"
    and token: "generateID (rnd_id e) (nanos_of e) \<notin> fst ` set (sessions (base db))"
      "\<And>jti ex iat. sign_jwt e uid jti ex iat (JWTSecret e) \<noteq> None"
    and valid: "addr = Canonical (mail_of e) (login_email req)" "login_error e req addr = None"
    and account: "find (\<lambda>(i, u). email u = addr) (users (base db)) = Some (uid, u)" "distinct (map fst (users (base db)))"
      "map_of (accounts db) uid = Some a" "disabled u = 0"
      "Verify_Password (hash_of e) (slot_free e 0) (login_password req) (password_hash a) = Inr True"
    and few: "length (filter (\<lambda>x. attempt_email x = addr \<and> attempt_scope x = ''password_login'' \<and> attempt_success x = 0 \<and>
        attempt_at x > clock e - 900) (attempts db)) < 5"
      "length (filter (\<lambda>x. attempt_ip x = clientIP (proxy_of e) r \<and> attempt_success x = 0 \<and> attempt_at x > clock e - 900) (attempts db)) < 20"
    and factor: "totp_enabled u = 1 \<longrightarrow> login_totp_code req \<noteq> [] \<and> (\<exists>step.
        ValidateCodeStep (clock e) (decryptTOTPSecret e (null_text (totp_secret a))) (login_totp_code req) = Some step \<and>
        (\<forall>l. totp_last_step a = Some l \<longrightarrow> l < step))"
  shows "\<exists>tok ui db'. Login e others (Some req) r w db = (SignedIn 200 tok ui, db')"
  by (rule Login_works [OF works token valid account few factor])

section \<open>Enrolment\<close>

lemma consume_alone: "code_held e uid code db \<Longrightarrow> \<exists>db'. consumeRecoveryCode e (\<lambda>_ d. d) uid code db = (True, db')"
  using recovery_attempts_progress [of e uid code "\<lambda>_ d. d" 0 db 0 recoveryCASAttempts]
  by (simp add: consumeRecoveryCode_def recoveryCASAttempts_def) (metis prod.collapse)

lemma verify_owner_None:
  assumes "verify_owner e w r addr password db = None"
  obtains a where "map_of (accounts db) (GetUserID r) = Some a"
    "password_set a \<noteq> 0 \<longrightarrow> Verify_Password (hash_of e) (slot_free e 0) password (password_hash a) = Inr True"
  using assms
  by (auto simp: verify_owner_def GetUserPasswordSet_def GetPasswordHashByUserID_def row_simps Let_def split: fetched.splits if_splits option.splits)

lemma verify_owner_Some: "verify_owner e w r addr password db = Some (ans, d) \<Longrightarrow> \<exists>resp. ans = Reply resp"
  by (auto simp: verify_owner_def Let_def split: fetched.splits if_splits option.splits)

lemma TOTPVerify_RecoveryCodes:
  assumes "TOTPVerify e body r w db = (RecoveryCodes ps, db')"
  obtains req a hs db1 where "body = Some req" "map_of (accounts db) (GetUserID r) = Some a"
    "password_set a \<noteq> 0 \<longrightarrow> Verify_Password (hash_of e) (slot_free e 0) (code_password req) (password_hash a) = Inr True"
    "ValidateCode (clock e) (decryptTOTPSecret e (null_text (totp_secret a))) (code_code req)"
    "decryptTOTPSecret e (null_text (totp_secret a)) \<noteq> []"
    "GenerateRecoveryCodes (bcrypt_of e) (rnd_codes e) = Some (ps, hs)" "EnableTOTP (marshal_codes e hs) (GetUserID r) db = Some db1"
    "db' = LogActivityFromRequest (proxy_of e) r ''totp.enabled'' db1"
proof -
  obtain req addr where b: "body = Some req" "GetUserID r \<noteq> []" "code_code req \<noteq> []" "GetUserEmailByID (base db) (GetUserID r) = Row addr"
      "reauth_failures e addr db < 5"
    using assms by (cases body) (auto simp: TOTPVerify_def Let_def not_le split: if_splits fetched.splits)
  have owner: "verify_owner e w r addr (code_password req) db = None"
    using assms b verify_owner_Some [of e w r addr "code_password req" db] by (cases "verify_owner e w r addr (code_password req) db") (auto simp: TOTPVerify_def)
  obtain stored where s: "GetTOTPSecret db (GetUserID r) = Row stored"
    using assms b owner by (auto simp: TOTPVerify_def Let_def split: fetched.splits)
  let ?secret = "decryptTOTPSecret e (null_text stored)"
  have v: "?secret \<noteq> []" "ValidateCode (clock e) ?secret (code_code req)"
    using assms b owner s by (auto simp: TOTPVerify_def Let_def split: if_splits)
  obtain hs db1 where "GenerateRecoveryCodes (bcrypt_of e) (rnd_codes e) = Some (ps, hs)" "EnableTOTP (marshal_codes e hs) (GetUserID r) db = Some db1"
      "db' = LogActivityFromRequest (proxy_of e) r ''totp.enabled'' db1"
    using assms b owner s v by (auto simp: TOTPVerify_def Let_def split: option.splits)
  moreover obtain a where "map_of (accounts db) (GetUserID r) = Some a"
    "password_set a \<noteq> 0 \<longrightarrow> Verify_Password (hash_of e) (slot_free e 0) (code_password req) (password_hash a) = Inr True"
    using verify_owner_None [OF owner] .
  moreover from this have "stored = totp_secret a" using s by (auto simp: GetTOTPSecret_def row_simps)
  ultimately show thesis using that b(1) v by blast
qed

lemma EnableTOTP_effect:
  assumes "EnableTOTP codes uid db = Some db'" "map_of (users (base db)) uid = Some u"
  shows "map_of (users (base db')) uid = Some (u\<lparr>totp_enabled := 1\<rparr>)" "fails (base db') = fails (base db)"
  using assms by (auto simp: EnableTOTP_def update_user_def update_account_def split: option.splits if_splits)

text \<open>
  Enrolment needs the account's password, if one was set, and a current code of the stored secret, and
  hands out codes that work: it turns the second factor on and returns eight codes of sixteen
  characters, each of which the recovery-code loop accepts in the resulting state.
\<close>

theorem recovery_codes_work:
  assumes verify: "TOTPVerify e body r w db = (RecoveryCodes ps, db')"
    and libs: "json_codes e" "\<And>salt p h. bcrypt_hash (bcrypt_of e) salt p = Some h \<Longrightarrow> plain_hash h \<and> bcrypt_matches (bcrypt_of e) h p"
    and state: "map_of (users (base db)) (GetUserID r) = Some u" "\<not> broken db ''GetUserTOTPState''" "\<not> broken db ''CASRecoveryCodes''"
  shows "(\<exists>req a. body = Some req \<and> map_of (accounts db) (GetUserID r) = Some a \<and>
            (password_set a \<noteq> 0 \<longrightarrow> Verify_Password (hash_of e) (slot_free e 0) (code_password req) (password_hash a) = Inr True) \<and>
            ValidateCode (clock e) (decryptTOTPSecret e (null_text (totp_secret a))) (code_code req)) \<and>
         map_of (users (base db')) (GetUserID r) = Some (u\<lparr>totp_enabled := 1\<rparr>) \<and> length ps = 8 \<and>
         (\<forall>p \<in> set ps. length p = 16 \<and> (\<exists>db''. consumeRecoveryCode e (\<lambda>_ d. d) (GetUserID r) p db' = (True, db'')))"
proof -
  obtain req a hs db1 where v: "body = Some req" "map_of (accounts db) (GetUserID r) = Some a"
    "password_set a \<noteq> 0 \<longrightarrow> Verify_Password (hash_of e) (slot_free e 0) (code_password req) (password_hash a) = Inr True"
    "ValidateCode (clock e) (decryptTOTPSecret e (null_text (totp_secret a))) (code_code req)"
    "GenerateRecoveryCodes (bcrypt_of e) (rnd_codes e) = Some (ps, hs)" "EnableTOTP (marshal_codes e hs) (GetUserID r) db = Some db1"
    "db' = LogActivityFromRequest (proxy_of e) r ''totp.enabled'' db1"
    using TOTPVerify_RecoveryCodes [OF verify] .
  note enabled = EnableTOTP_effect [OF v(6) state(1)]
  have codes: "length ps = 8" "length hs = 8"
      "\<forall>j < 8. length (ps ! j) = 16 \<and> bcrypt_hash (bcrypt_of e) (snd (rnd_codes e j)) (ps ! j) = Some (hs ! j)"
    using recovery_loop_Some [of "bcrypt_of e" "rnd_codes e" 0 recoveryCodeCount ps hs] v(5)
    by (simp_all add: GenerateRecoveryCodes_def recoveryCodeCount_def recoveryCodeBytes_def)
  have plain: "\<forall>h \<in> set hs. plain_hash h" using codes libs(2) by (metis in_set_conv_nth)
  have "GetUserID r \<in> fst ` set (accounts db)" using v(2) by (force dest: map_of_SomeD)
  then obtain l tx where "factor_columns db1 (GetUserID r) = Some (l, marshal_codes e hs)"
    using columns_enrol [OF v(6)] by metis
  then have col: "factor_columns db' (GetUserID r) = Some (l, marshal_codes e hs)" using v(7) by (simp add: factor_columns_def)
  have works: "\<exists>db''. consumeRecoveryCode e (\<lambda>_ d. d) (GetUserID r) p db' = (True, db'')" if mem: "p \<in> set ps" for p
  proof (rule consume_alone)
    obtain j where j: "j < 8" "p = ps ! j" using mem codes(1) by (auto simp: in_set_conv_nth)
    then have "bcrypt_hash (bcrypt_of e) (snd (rnd_codes e j)) p = Some (hs ! j)" using codes(3) by blast
    then have "bcrypt_matches (bcrypt_of e) (hs ! j) p" using libs(2) by blast
    moreover have "hs ! j \<in> set hs" using j(1) codes(2) by simp
    moreover have "codes_of e (marshal_codes e hs) = Some hs" using libs(1) plain by (simp add: json_codes_def)
    ultimately have "\<exists>l tx hs h. factor_columns db' (GetUserID r) = Some (l, tx) \<and> codes_of e tx = Some hs \<and> h \<in> set hs \<and> bcrypt_matches (bcrypt_of e) h p"
      using col by blast
    then show "code_held e (GetUserID r) p db'" using enabled state(2,3) v(7) by (simp add: code_held_def)
  qed
  have "\<forall>p \<in> set ps. length p = 16" using codes by (metis in_set_conv_nth)
  then show ?thesis using v(1-4) enabled(1) v(7) codes(1) works by simp
qed

section \<open>Sealing the stored secrets\<close>

definition seed_of :: "signin_env \<Rightarrow> account \<Rightarrow> string" where
  "seed_of e a = decryptTOTPSecret e (null_text (totp_secret a))"

definition seeds :: "signin_env \<Rightarrow> account_db \<Rightarrow> string \<Rightarrow> string option" where
  "seeds e db uid = map_option (seed_of e) (map_of (accounts db) uid)"

lemma decrypt_sealed:
  assumes "EncryptString (cipher_of e) (derive_of e) seed (VaultKey e) nonce = Some enc" "VaultKey e \<noteq> []"
  shows "decryptTOTPSecret e enc = seed" "IsEncrypted enc"
proof -
  have "DecryptString (cipher_of e) (derive_of e) enc (VaultKey e) vaultFieldTOTPSecret = Inr seed"
    using DecryptString_EncryptString [OF assms(1)] by (simp add: vaultFieldTOTPSecret_def)
  moreover have "enc \<noteq> []" "IsEncrypted enc"
    using assms(1) by (auto simp: EncryptString_def IsEncrypted_def has_prefix_def marker_def split: option.splits)
  ultimately show "decryptTOTPSecret e enc = seed" "IsEncrypted enc" using assms(2) by (simp_all add: decryptTOTPSecret_def)
qed

lemma migrate_row_seeds:
  assumes "VaultKey e \<noteq> []" "seeds e db uid = Some (decryptTOTPSecret e stored)"
  shows "seeds e (migrate_row e nonce (uid, stored) db) = seeds e db"
proof (cases "stored = [] \<or> IsEncrypted stored")
  case True
  then show ?thesis by (auto simp: migrate_row_def)
next
  case False
  show ?thesis
  proof (cases "EncryptString (cipher_of e) (derive_of e) (decryptTOTPSecret e stored) (VaultKey e) nonce")
    case None
    then show ?thesis using False by (simp add: migrate_row_def decryptTOTPSecret_def)
  next
    case (Some enc)
    then have m: "migrate_row e nonce (uid, stored) db = (case StoreTOTPSecret enc uid db of None \<Rightarrow> db | Some db' \<Rightarrow> db')"
      using False by (simp add: migrate_row_def decryptTOTPSecret_def)
    have "seeds e db' = seeds e db" if "StoreTOTPSecret enc uid db = Some db'" for db'
    proof
      fix v
      show "seeds e db' v = seeds e db v"
        using that assms(2) decrypt_sealed(1) [OF Some assms(1)]
        by (auto simp: StoreTOTPSecret_def update_account_def seeds_def seed_of_def null_text_def split: option.splits if_splits)
    qed
    then show ?thesis using m by (simp split: option.split)
  qed
qed

lemma migrate_fold_seeds:
  assumes "VaultKey e \<noteq> []" "\<forall>(i, uid, stored) \<in> set rows. seeds e db uid = Some (decryptTOTPSecret e stored)"
  shows "seeds e (fold (\<lambda>(i, row). migrate_row e (nonces i) row) rows db) = seeds e db"
  using assms(2)
proof (induction rows arbitrary: db)
  case (Cons row rows)
  obtain i uid stored where row: "row = (i, uid, stored)" by (cases row)
  have "seeds e (migrate_row e (nonces i) (uid, stored) db) = seeds e db"
    using migrate_row_seeds [OF assms(1)] Cons.prems row by auto
  then show ?case using Cons row by simp
qed simp

text \<open>
  The boot backfill that seals stored second-factor secrets changes none of them: whatever form a
  secret was stored in (sealed under the current or the previous key, sealed without the marker,
  or in the clear), and whichever statements fail on the way, every account's secret reads after
  the backfill as it read before.
\<close>

theorem migration_keeps_seeds:
  assumes "VaultKey e \<noteq> []" "distinct (map fst (accounts db))" "MigrateTOTPSecrets e nonces db = (ok, db')"
  shows "map_option (\<lambda>a. decryptTOTPSecret e (null_text (totp_secret a))) (map_of (accounts db') uid) =
         map_option (\<lambda>a. decryptTOTPSecret e (null_text (totp_secret a))) (map_of (accounts db) uid)"
proof -
  have "seeds e db' = seeds e db"
  proof (cases "ListUsersWithTOTPSecret db")
    case (Some rows)
    have "seeds e db v = Some (decryptTOTPSecret e stored)" if "(i, v, stored) \<in> set (enumerate 0 rows)" for i v stored
    proof -
      have "(v, stored) \<in> set rows" using that by (auto simp: enumerate_eq_zip dest: set_zip_rightD)
      then obtain a where "(v, a) \<in> set (accounts db)" "stored = null_text (totp_secret a)"
        using Some by (auto simp: ListUsersWithTOTPSecret_def split: if_splits)
      then show ?thesis using assms(2) by (simp add: seeds_def seed_of_def)
    qed
    then show ?thesis using migrate_fold_seeds [OF assms(1), of "enumerate 0 rows" db nonces] assms(3) Some
      by (auto simp: MigrateTOTPSecrets_def)
  qed (use assms(3) in \<open>simp add: MigrateTOTPSecrets_def\<close>)
  then have "seeds e db' uid = seeds e db uid" by simp
  then show ?thesis by (auto simp: seeds_def seed_of_def map_option_case split: option.splits)
qed

section \<open>What enrolment does not spend\<close>

text \<open>The code that turned the second factor on stays unspent: it signs in again within its window.\<close>

lemma enrolment_code_unspent:
  assumes "TOTPVerify e (Some req) r w db = (RecoveryCodes ps, db')"
    and "map_of (accounts db) (GetUserID r) = Some a" "totp_last_step a = None" "\<not> broken db' ''ClaimTOTPStep''"
  shows "\<exists>db''. spendTOTPStep e (GetUserID r) (decryptTOTPSecret e (null_text (totp_secret a))) (code_code req) db' = (True, db'')"
proof -
  obtain hs db1 where v: "ValidateCode (clock e) (decryptTOTPSecret e (null_text (totp_secret a))) (code_code req)"
    "EnableTOTP (marshal_codes e hs) (GetUserID r) db = Some db1" "db' = LogActivityFromRequest (proxy_of e) r ''totp.enabled'' db1"
    using TOTPVerify_RecoveryCodes [OF assms(1)] assms(2) by (metis option.inject)
  obtain step where "ValidateCodeStep (clock e) (decryptTOTPSecret e (null_text (totp_secret a))) (code_code req) = Some step"
    using v(1) by (auto simp: ValidateCode_def)
  moreover have "map_of (accounts db') (GetUserID r) = Some (a\<lparr>totp_recovery_codes := Some (marshal_codes e hs)\<rparr>)"
    using v(2,3) assms(2) by (auto simp: EnableTOTP_def update_user_def update_account_def split: option.splits if_splits)
  ultimately show ?thesis using spendTOTPStep_works assms(3,4) by fastforce
qed

text \<open>
  An account whose second factor is on but whose secret is empty accepts a code that anyone can
  compute: the code of the empty key.  The two statements below reach that state when a removal
  of the second factor runs between the reads of an enrolment and its last statement.
\<close>

lemma empty_secret_code: "\<exists>c. GenerateCode [] t = Some c \<and> ValidateCodeStep t [] c = Some (time_counter t)"
  by (auto simp: GenerateCode_def b32_decode_def b32_decode_digits.simps Let_def intro!: ValidateCodeStep_code)

lemma enrolment_race_empties_secret:
  assumes "DisableTOTP uid db = Some db1" "EnableTOTP codes uid db1 = Some db2"
    "map_of (users (base db)) uid = Some u" "map_of (accounts db) uid = Some a"
  shows "\<exists>u' a'. map_of (users (base db2)) uid = Some u' \<and> totp_enabled u' = 1 \<and> map_of (accounts db2) uid = Some a' \<and> totp_secret a' = Some []"
  using assms by (auto simp: DisableTOTP_def EnableTOTP_def update_user_def update_account_def split: option.splits if_splits)


section \<open>Concrete runs\<close>

definition login_env :: signin_env where
  "login_env = sample_env
     \<lparr>hash_of := sample_hash_lib\<lparr>bcrypt_compare := (\<lambda>h p. if h = ''$2a$'' @ p then Match else Mismatch)\<rparr>,
      bcrypt_of := \<lparr>bcrypt_hash = (\<lambda>_ p. if plain_hash (CHR ''$'' # p) then Some (CHR ''$'' # p) else None),
                    bcrypt_matches = (\<lambda>h p. h = CHR ''$'' # p)\<rparr>\<rparr>"

text \<open>An account with an old hash and the second factor on; its secret is the empty key, its address as it was stored.\<close>

definition ann_address :: string where
  "ann_address = ''ann@x.io''"

definition login_db :: account_db where
  "login_db = sample_db
     \<lparr>base := (base sample_db)\<lparr>users := [(''u1'', \<lparr>email = ann_address, role = ''user'', disabled = 0, sessions_valid_after = 0, totp_enabled = 1\<rparr>)]\<rparr>,
      accounts := [(''u1'', sample_account\<lparr>password_hash := ''$2a$correct horse''\<rparr>)]\<rparr>"

definition ann_login :: "string \<Rightarrow> login_request" where
  "ann_login code = \<lparr>login_email = ''Ann@x.io'', login_password = ''correct horse'', login_totp_code = code\<rparr>"

lemma login_env_fields [simp]:
  "clock login_env = 50" "slot_free login_env n" "mail_of login_env = ascii_lib" "rnd_salt login_env = ''0123456789abcdef''"
  "rnd_id login_env = ''fedcba9876543210''" "new_user_id login_env = ''u1''" "proxy_of login_env = sample_proxy"
  "sign_jwt login_env uid jti ex iat k = Some (uid @ ''.'' @ jti)" "deps_of login_env = sample_deps" "now sample_deps = 50"
  "email_lib sample_deps = ascii_lib"
  by (simp_all add: login_env_def sample_env_def sample_deps_def)

lemma ann_canonical: "Canonical ascii_lib ''Ann@x.io'' = ann_address" "ValidateEmail ascii_lib ann_address"
  "ValidateRequired ''email'' ann_address = None" "ValidateRequired ''password'' ''correct horse'' = None"
  unfolding ann_address_def by code_simp+

lemma ann_password: "Verify_Password (hash_of login_env) True ''correct horse'' ''$2a$correct horse'' = Inr True"
  by (simp add: login_env_def Verify_Password_def isBcrypt_def has_prefix_def)

lemma login_db_fields [simp]: "users (base login_db) = [(''u1'', \<lparr>email = ann_address, role = ''user'', disabled = 0, sessions_valid_after = 0, totp_enabled = 1\<rparr>)]"
  "accounts login_db = [(''u1'', sample_account\<lparr>password_hash := ''$2a$correct horse''\<rparr>)]" "sessions (base login_db) = []"
  "attempts login_db = []" "\<not> broken login_db q" "api_keys (base login_db) = []" "identities login_db = []"
  by (simp_all add: login_db_def sample_db_def empty_store_def)

lemma ann_signs_in:
  "\<exists>code tok ui db'. GenerateCode [] 50 = Some code \<and>
     Login login_env (\<lambda>_ d. d) (Some (ann_login code)) sample_request (\<lambda>_. []) login_db = (SignedIn 200 tok ui, db')"
proof -
  obtain code where code: "GenerateCode [] 50 = Some code" "ValidateCodeStep 50 [] code = Some (time_counter 50)"
    using empty_secret_code [of 50] by blast
  then have "code \<noteq> []" using GenerateCode_digits(1) [OF code(1)] by (auto simp: codeDigits_def)
  then have "\<exists>tok ui db'. Login login_env (\<lambda>_ d. d) (Some (ann_login code)) sample_request (\<lambda>_. []) login_db = (SignedIn 200 tok ui, db')"
    using code ann_password ann_canonical
    by (intro Login_works [where uid = "''u1''" and addr = ann_address and
          u = "\<lparr>email = ann_address, role = ''user'', disabled = 0, sessions_valid_after = 0, totp_enabled = 1\<rparr>" and
          a = "sample_account\<lparr>password_hash := ''$2a$correct horse''\<rparr>"])
       (simp_all add: ann_login_def login_error_def email_error_def first_error_None sample_account_def null_text_def decryptTOTPSecret_def)
  then show ?thesis using code(1) by blast
qed


theorem login_sound_witness:
  "\<exists>code tok ui db' jti expires.
     Login login_env (\<lambda>_ d. d) (Some (ann_login code)) sample_request (\<lambda>_. []) login_db = (SignedIn 200 tok ui, db') \<and>
     sign_jwt login_env ''u1'' jti expires 50 (JWTSecret login_env) = Some tok \<and>
     map_of (sessions (base db')) jti =
       Some \<lparr>session_user_id = ''u1'', session_revoked_at = None, last_used_at = 50, session_expires_at = Some expires\<rparr> \<and>
     factor_spent login_env (\<lambda>_ d. d) ''u1'' [] code
       (login_rehash login_env ''correct horse'' ''u1'' (sample_account\<lparr>password_hash := ''$2a$correct horse''\<rparr>) login_db) db'"
proof -
  obtain code tok ui db' where run: "Login login_env (\<lambda>_ d. d) (Some (ann_login code)) sample_request (\<lambda>_. []) login_db = (SignedIn 200 tok ui, db')"
    using ann_signs_in by blast
  have ids: "distinct (map fst (users (base login_db)))" by simp
  obtain req uid u a jti expires where r: "Some (ann_login code) = Some req" "map_of (users (base login_db)) uid = Some u"
      "map_of (accounts login_db) uid = Some a"
      "sign_jwt login_env uid jti expires (clock login_env) (JWTSecret login_env) = Some tok"
      "map_of (sessions (base db')) jti =
         Some \<lparr>session_user_id = uid, session_revoked_at = None, last_used_at = clock login_env, session_expires_at = Some expires\<rparr>"
      "totp_enabled u = 1 \<longrightarrow> factor_spent login_env (\<lambda>_ d. d) uid (decryptTOTPSecret login_env (null_text (totp_secret a))) (login_totp_code req)
          (login_rehash login_env (login_password req) uid a login_db) db'"
    using login_sound [OF ids run] by (elim exE conjE) (rule that)
  have uid: "uid = ''u1''" "totp_enabled u = 1" using r(2) by (auto split: if_splits)
  have a: "a = sample_account\<lparr>password_hash := ''$2a$correct horse''\<rparr>" using r(3) uid(1) by simp
  have "req = ann_login code" using r(1) by simp
  then have "factor_spent login_env (\<lambda>_ d. d) ''u1'' [] code
      (login_rehash login_env ''correct horse'' ''u1'' (sample_account\<lparr>password_hash := ''$2a$correct horse''\<rparr>) login_db) db'"
    using r(6) uid unfolding a by (simp add: ann_login_def sample_account_def null_text_def decryptTOTPSecret_def)
  then show ?thesis using run r(4,5) [unfolded login_env_fields(1)] uid(1) by blast
qed

theorem login_succeeds_witness:
  "\<exists>code tok ui db'. Login login_env (\<lambda>_ d. d) (Some (ann_login code)) sample_request (\<lambda>_. []) login_db = (SignedIn 200 tok ui, db')"
proof -
  obtain code where code: "GenerateCode [] 50 = Some code" "ValidateCodeStep 50 [] code = Some (time_counter 50)"
    using empty_secret_code [of 50] by blast
  then have "code \<noteq> []" using GenerateCode_digits(1) [OF code(1)] by (auto simp: codeDigits_def)
  then have "\<exists>tok ui db'. Login login_env (\<lambda>_ d. d) (Some (ann_login code)) sample_request (\<lambda>_. []) login_db = (SignedIn 200 tok ui, db')"
    using code ann_password ann_canonical
    by (intro login_succeeds [where uid = "''u1''" and addr = ann_address and
          u = "\<lparr>email = ann_address, role = ''user'', disabled = 0, sessions_valid_after = 0, totp_enabled = 1\<rparr>" and
          a = "sample_account\<lparr>password_hash := ''$2a$correct horse''\<rparr>"])
       (simp_all add: ann_login_def login_error_def email_error_def first_error_None sample_account_def null_text_def decryptTOTPSecret_def)
  then show ?thesis by blast
qed

lemma ann_hash: "\<exists>h. Hash (hash_of login_env) True ''0123456789abcdef'' ''battery staple'' = Inr h"
  by (simp add: Hash_def read_full_def argonSaltLen_def Let_def)

theorem change_password_revokes_witness:
  "\<exists>m tok db' a'. ChangePassword login_env (Some \<lparr>current_password = ''correct horse'', new_password = ''battery staple''\<rparr>)
       (as_user ''u1'') (\<lambda>_. []) login_db = (Message m tok, db') \<and>
     map_of (accounts db') ''u1'' = Some a' \<and> Verify_Password (hash_of login_env) True ''battery staple'' (password_hash a') = Inr True"
proof -
  let ?req = "\<lparr>current_password = ''correct horse'', new_password = ''battery staple''\<rparr>"
  have uid: "GetUserID (as_user ''u1'') = ''u1''" by (simp add: as_user_def GetUserID_def context_string_def)
  obtain h where h: "Hash (hash_of login_env) True ''0123456789abcdef'' ''battery staple'' = Inr h" using ann_hash by blast
  have policy: "validatePasswordWithPolicy login_db ''battery staple'' = None"
    by (simp add: validatePasswordWithPolicy_def validatePassword_def settingInt_def GetSetting_def fetch_def login_db_def sample_db_def empty_store_def
          defaultMinPasswordLength_def minPasswordLengthFloor_def)
  have "GetPasswordHashByUserID login_db ''u1'' = Row ''$2a$correct horse''"
    by (simp add: GetPasswordHashByUserID_def fetch_account_def fetch_def)
  moreover obtain db1 where "SetPasswordHash h ''u1'' login_db = Some db1"
    by (simp add: SetPasswordHash_def update_account_def)
  ultimately have "\<exists>m tok db'. ChangePassword login_env (Some ?req) (as_user ''u1'') (\<lambda>_. []) login_db = (Message m tok, db')"
    using h policy ann_password uid by (simp add: ChangePassword_def Let_def capacityExhausted_def split: prod.split)
  then obtain m tok db' where run: "ChangePassword login_env (Some ?req) (as_user ''u1'') (\<lambda>_. []) login_db = (Message m tok, db')" by blast
  have "\<exists>req a a'. Some ?req = Some req \<and> map_of (accounts login_db) (GetUserID (as_user ''u1'')) = Some a \<and>
     map_of (accounts db') (GetUserID (as_user ''u1'')) = Some a' \<and>
     Verify_Password (hash_of login_env) True (new_password req) (password_hash a') = Inr True"
    using change_password_revokes [OF run] by (fastforce simp: login_env_def sample_env_def sample_hash_lib_def)
  then show ?thesis using run uid by auto
qed

theorem setup_once_witness:
  "\<exists>ans db'. Register login_env (\<lambda>_. login_db) (Some \<lparr>register_email = ''Ann@x.io'', register_password = ''correct horse'', register_name = []\<rparr>)
       sample_request (\<lambda>_. []) (login_db\<lparr>base := empty_store\<rparr>) = (ans, db') \<and>
     (db' = login_db\<lparr>base := empty_store\<rparr> \<or> db' = login_db) \<and> (\<exists>resp. ans = Reply resp)"
proof -
  obtain ans db' where run: "Register login_env (\<lambda>_. login_db) (Some \<lparr>register_email = ''Ann@x.io'', register_password = ''correct horse'', register_name = []\<rparr>)
       sample_request (\<lambda>_. []) (login_db\<lparr>base := empty_store\<rparr>) = (ans, db')" by fastforce
  show ?thesis using setup_once [OF run] run by auto
qed

text \<open>An account that started enrolment: its secret is stored in the clear, as old rows have it.\<close>

definition enrol_db :: account_db where
  "enrol_db = login_db\<lparr>accounts := [(''u1'', sample_account\<lparr>password_hash := ''$2a$correct horse'', totp_secret := Some ''GEZDG''\<rparr>)]\<rparr>"

lemma enrol_secret: "decryptTOTPSecret login_env ''GEZDG'' = ''GEZDG''"
proof -
  have "std64_decode (trim_prefix ''GEZDG'' marker) = None" by code_simp
  then show ?thesis by (simp add: decryptTOTPSecret_def login_env_def sample_env_def DecryptString_def)
qed

lemma enrol_code: "\<exists>c. GenerateCode ''GEZDG'' 50 = Some c"
proof -
  have "b32_decode ''GEZDG'' \<noteq> None" by code_simp
  then show ?thesis by (auto simp: GenerateCode_def Let_def)
qed

lemma enrol_recovery_codes: "\<exists>ps hs. GenerateRecoveryCodes (bcrypt_of login_env) (rnd_codes login_env) = Some (ps, hs)"
proof -
  have "\<forall>c \<in> set (hex_encode ''8bytes..''). is_alnum c" by code_simp
  then have plain: "plain_hash (CHR ''$'' # hex_encode ''8bytes..'')" by (simp add: plain_hash_def)
  then have "bcrypt_hash (bcrypt_of login_env) salt (hex_encode ''8bytes..'') = Some (CHR ''$'' # hex_encode ''8bytes..'')"
      "read_full (fst (rnd_codes login_env i)) recoveryCodeBytes = Some ''8bytes..''" for salt i
    by (simp_all add: login_env_def sample_env_def read_full_def recoveryCodeBytes_def)
  then have "\<exists>ps hs. recovery_loop (bcrypt_of login_env) (rnd_codes login_env) i n = Some (ps, hs)" for i n
  proof (induction n arbitrary: i)
    case (Suc n)
    obtain ps hs where "recovery_loop (bcrypt_of login_env) (rnd_codes login_env) (Suc i) n = Some (ps, hs)" using Suc by blast
    then show ?case using Suc.prems by simp
  qed simp
  then show ?thesis by (simp add: GenerateRecoveryCodes_def)
qed

theorem recovery_codes_work_witness:
  "\<exists>code ps db'. TOTPVerify login_env (Some \<lparr>code_code = code, code_password = ''correct horse''\<rparr>) (as_user ''u1'') (\<lambda>_. []) enrol_db =
       (RecoveryCodes ps, db') \<and> length ps = 8 \<and>
     (\<forall>p \<in> set ps. \<exists>db''. consumeRecoveryCode login_env (\<lambda>_ d. d) ''u1'' p db' = (True, db''))"
proof -
  have db: "users (base enrol_db) = users (base login_db)" "attempts enrol_db = []" "\<not> broken enrol_db q"
      "accounts enrol_db = [(''u1'', sample_account\<lparr>password_hash := ''$2a$correct horse'', totp_secret := Some ''GEZDG''\<rparr>)]" for q
    by (simp_all add: enrol_db_def login_db_def sample_db_def empty_store_def)
  have uid: "GetUserID (as_user ''u1'') = ''u1''" by (simp add: as_user_def GetUserID_def context_string_def)
  obtain code where code: "GenerateCode ''GEZDG'' 50 = Some code" using enrol_code by blast
  then have c: "code \<noteq> []" "ValidateCode 50 ''GEZDG'' code"
    using GenerateCode_digits(1) [OF code] ValidateCodeStep_code [OF code] by (auto simp: codeDigits_def ValidateCode_def)
  obtain ps hs where codes: "GenerateRecoveryCodes (bcrypt_of login_env) (rnd_codes login_env) = Some (ps, hs)"
    using enrol_recovery_codes by blast
  obtain db1 where "EnableTOTP (marshal_codes login_env hs) ''u1'' enrol_db = Some db1"
    using db by (auto simp: EnableTOTP_def update_user_def update_account_def)
  moreover have rows: "GetUserEmailByID (base enrol_db) ''u1'' = Row ann_address" "reauth_failures login_env ann_address enrol_db = 0"
      "GetUserPasswordSet enrol_db ''u1'' = Row 1" "GetPasswordHashByUserID enrol_db ''u1'' = Row ''$2a$correct horse''"
      "GetTOTPSecret enrol_db ''u1'' = Row (Some ''GEZDG'')"
    using db by (simp_all add: GetUserEmailByID_def reauth_failures_def CountRecentFailedLoginAttemptsByEmailAndScope_def GetUserPasswordSet_def
        GetPasswordHashByUserID_def GetTOTPSecret_def fetch_account_def fetch_def sample_account_def)
  ultimately obtain db' where run: "TOTPVerify login_env (Some \<lparr>code_code = code, code_password = ''correct horse''\<rparr>) (as_user ''u1'') (\<lambda>_. []) enrol_db =
       (RecoveryCodes ps, db')"
    using db uid c codes enrol_secret ann_password rows
    by (simp add: TOTPVerify_def Let_def verify_owner_def capacityExhausted_def null_text_def)
  have libs: "json_codes login_env" "\<And>salt p h. bcrypt_hash (bcrypt_of login_env) salt p = Some h \<Longrightarrow> plain_hash h \<and> bcrypt_matches (bcrypt_of login_env) h p"
    using sample_codes_json by (auto simp: json_codes_def codes_of_def login_env_def split: if_splits)
  show ?thesis using recovery_codes_work [OF run libs] run uid db by fastforce
qed

end
