(* ===== verification/User_Admin_Safety.thy ===== *)
theory User_Admin_Safety
  imports User_Admin Sign_In_Safety
begin

text \<open>
  What the administration of users keeps: users are distinct and an active administrator remains,
  an invitation is redeemed once, a deletion leaves nothing of the user behind or changes
  nothing, an API key works for its owner until it is revoked, and the retention of login
  attempts changes no lock.
\<close>

section \<open>Who the users are\<close>

text \<open>The columns that decide who can administer: identifier, address, role and whether the account is disabled.\<close>

definition user_view :: "store \<Rightarrow> (string \<times> string \<times> string \<times> int) list" where
  "user_view s = map (\<lambda>(i, u). (i, email u, role u, disabled u)) (users s)"

definition admins_in :: "(string \<times> string \<times> string \<times> int) list \<Rightarrow> nat" where
  "admins_in v = length (filter (\<lambda>(_, _, rl, d). rl = ''admin'' \<and> d = 0) v)"

lemma admin_count_view: "admin_count s = admins_in (user_view s)"
  by (simp add: admin_count_def admins_in_def user_view_def filter_map comp_def case_prod_unfold active_admin_def [abs_def])

definition wf_users :: "(string \<times> string \<times> string \<times> int) list \<Rightarrow> bool" where
  "wf_users v \<longleftrightarrow> distinct (map fst v) \<and> distinct (map (\<lambda>(_, addr, _, _). addr) v) \<and> list_all (\<lambda>(_, _, rl, _). rl \<in> set validRoles) v"

definition governed :: "store \<Rightarrow> bool" where
  "governed s \<longleftrightarrow> wf_users (user_view s) \<and> admins_in (user_view s) > 0"

lemma user_view_cong: "users s' = users s \<Longrightarrow> user_view s' = user_view s"
  by (simp add: user_view_def)

definition change_row :: "string \<Rightarrow> ('a \<Rightarrow> 'a) \<Rightarrow> (string \<times> 'a) list \<Rightarrow> (string \<times> 'a) list" where
  "change_row i g v = map (\<lambda>(j, y). (j, if j = i then g y else y)) v"

lemma user_view_update:
  assumes "\<And>u. (email (f u), role (f u), disabled (f u)) = g (email u, role u, disabled u)"
  shows "user_view (s\<lparr>users := sql_update uid f (users s)\<rparr>) = change_row uid g (user_view s)"
  using assms by (simp add: user_view_def change_row_def sql_update_def case_prod_unfold)

lemma user_view_same:
  assumes "\<And>u. email (f u) = email u \<and> role (f u) = role u \<and> disabled (f u) = disabled u"
  shows "user_view (s\<lparr>users := sql_update uid f (users s)\<rparr>) = user_view s"
  using assms by (simp add: user_view_def sql_update_def case_prod_unfold)

lemma fst_user_view [simp]: "map fst (user_view s) = map fst (users s)"
  by (simp add: user_view_def case_prod_unfold comp_def)

text \<open>Changing one row changes the number of active administrators by at most that row.\<close>

definition active_view :: "string \<times> string \<times> int \<Rightarrow> bool" where
  "active_view x \<longleftrightarrow> fst (snd x) = ''admin'' \<and> snd (snd x) = 0"

lemma admins_in_Cons: "admins_in (row # v) = (if active_view (snd row) then Suc (admins_in v) else admins_in v)"
  by (simp add: admins_in_def active_view_def case_prod_unfold)

lemma change_row_other: "i \<notin> fst ` set v \<Longrightarrow> change_row i g v = v"
  unfolding change_row_def by (rule map_idI) force

lemma change_row_Cons: "change_row i g (row # v) = (fst row, if fst row = i then g (snd row) else snd row) # change_row i g v"
  by (simp add: change_row_def case_prod_unfold)

lemma admins_in_update:
  assumes "distinct (map fst v)" "(i, x) \<in> set v"
  shows "admins_in (change_row i g v) + (if active_view x then 1 else 0) = admins_in v + (if active_view (g x) then 1 else 0)"
  using assms
proof (induction v)
  case (Cons row v)
  show ?case
  proof (cases "fst row = i")
    case True
    then have "i \<notin> fst ` set v" using Cons.prems(1) by auto
    moreover from this have "(i, x) \<notin> set v" by force
    ultimately have "row = (i, x)" "change_row i g v = v" using Cons.prems(2) change_row_other by auto
    then show ?thesis by (simp add: change_row_Cons admins_in_Cons)
  next
    case False
    then have "(i, x) \<in> set v" using Cons.prems by auto
    then show ?thesis using Cons.IH Cons.prems(1) False by (simp add: change_row_Cons admins_in_Cons)
  qed
qed simp

lemma change_row_addresses:
  "(\<And>x. fst (g x) = fst x) \<Longrightarrow> map (\<lambda>(_, addr, _, _). addr) (change_row i g v) = map (\<lambda>(_, addr, _, _). addr) v"
  by (simp add: change_row_def case_prod_unfold)

lemma fst_change_row [simp]: "map fst (change_row i g v) = map fst v"
  by (simp add: change_row_def case_prod_unfold comp_def)

text \<open>A row may change as long as its role stays a role and, if it was the only active administrator, it stays one.\<close>

lemma governed_update:
  assumes "governed s" "map_of (users s) uid = Some u"
    and view: "\<And>u. (email (f u), role (f u), disabled (f u)) = g (email u, role u, disabled u)"
    and "\<And>x. fst (g x) = fst x" "\<And>x. fst (snd x) \<in> set validRoles \<Longrightarrow> fst (snd (g x)) \<in> set validRoles"
    and guard: "active_view (g (email u, role u, disabled u)) \<or> \<not> active_view (email u, role u, disabled u) \<or> admin_count s > 1"
  shows "governed (s\<lparr>users := sql_update uid f (users s)\<rparr>)"
proof -
  let ?v = "user_view s"
  have v: "distinct (map fst ?v)" "(uid, email u, role u, disabled u) \<in> set ?v"
    using assms(1,2) by (auto simp: governed_def wf_users_def user_view_def dest!: map_of_SomeD)
  have "list_all (\<lambda>(_, _, rl, _). rl \<in> set validRoles) (change_row uid g ?v)"
    using assms(1,5) by (auto simp: governed_def wf_users_def list_all_iff change_row_def case_prod_unfold)
  then have "wf_users (change_row uid g ?v)"
    using assms(1) change_row_addresses [of g uid ?v] assms(4) by (simp add: governed_def wf_users_def)
  moreover have "admins_in (change_row uid g ?v) > 0"
    using admins_in_update [OF v, of g] assms(1) guard by (auto simp: governed_def admin_count_view split: if_splits)
  ultimately show ?thesis by (simp add: governed_def user_view_update [where f = f and g = g, OF view])
qed

lemma governed_role:
  assumes "governed s" "UpdateUserRoleIfNotLastAdmin rl uid s = Some (s', n)" "rl \<in> set validRoles"
  shows "governed s'"
proof (cases "s' = s")
  case False
  then obtain u where u: "map_of (users s) uid = Some u" "s' = s\<lparr>users := sql_update uid (\<lambda>u. u\<lparr>role := rl\<rparr>) (users s)\<rparr>"
      "rl = ''admin'' \<or> role u \<noteq> ''admin'' \<or> disabled u = 1 \<or> admin_count s > 1"
    using assms(2) by (auto simp: UpdateUserRoleIfNotLastAdmin_def update_user_where_def split: if_splits option.splits)
  show ?thesis unfolding u(2)
    by (rule governed_update [OF assms(1) u(1), where g = "\<lambda>(a, _, d). (a, rl, d)"]) (use assms(3) u(3) in \<open>auto simp: active_view_def\<close>)
qed (use assms(1) in simp)

lemma governed_disabled:
  assumes "governed s" "SetUserDisabledIfNotLastAdmin d uid s = Some (s', n)"
  shows "governed s'"
proof (cases "s' = s")
  case False
  then obtain u where u: "map_of (users s) uid = Some u" "s' = s\<lparr>users := sql_update uid (\<lambda>u. u\<lparr>disabled := d\<rparr>) (users s)\<rparr>"
      "d = 0 \<or> role u \<noteq> ''admin'' \<or> disabled u = 1 \<or> admin_count s > 1"
    using assms(2) by (auto simp: SetUserDisabledIfNotLastAdmin_def update_user_where_def split: if_splits option.splits)
  show ?thesis unfolding u(2)
    by (rule governed_update [OF assms(1) u(1), where g = "\<lambda>(a, rl, _). (a, rl, d)"]) (use u(3) in \<open>auto simp: active_view_def\<close>)
qed (use assms(1) in simp)

lemma admins_in_delete:
  assumes "distinct (map fst v)" "(i, x) \<in> set v"
  shows "admins_in (sql_delete i v) + (if active_view x then 1 else 0) = admins_in v"
  using assms
proof (induction v)
  case (Cons row v)
  show ?case
  proof (cases "fst row = i")
    case True
    then have "i \<notin> fst ` set v" using Cons.prems(1) by auto
    moreover from this have "(i, x) \<notin> set v" "sql_delete i v = v" by (force simp: sql_delete_def filter_id_conv)+
    ultimately have "row = (i, x)" "sql_delete i v = v" using Cons.prems(2) by auto
    then show ?thesis by (simp add: sql_delete_def admins_in_Cons)
  next
    case False
    then have "(i, x) \<in> set v" using Cons.prems by auto
    then show ?thesis using Cons.IH Cons.prems(1) False by (simp add: sql_delete_def admins_in_Cons)
  qed
qed simp

lemma governed_delete:
  assumes "governed s" "map_of (users s) uid = Some u" "role u \<noteq> ''admin'' \<or> disabled u = 1 \<or> admin_count s > 1"
    and users: "users s' = sql_delete uid (users s)"
  shows "governed s'"
proof -
  let ?v = "user_view s"
  have v: "distinct (map fst ?v)" "(uid, email u, role u, disabled u) \<in> set ?v"
    using assms(1,2) by (auto simp: governed_def wf_users_def user_view_def dest!: map_of_SomeD)
  have view: "user_view s' = sql_delete uid ?v"
    using users by (simp add: user_view_def sql_delete_def filter_map comp_def case_prod_unfold)
  have "wf_users (sql_delete uid ?v)"
    using assms(1) by (auto simp: governed_def wf_users_def sql_delete_def distinct_map_filter list_all_iff)
  moreover have "admins_in (sql_delete uid ?v) > 0"
    using admins_in_delete [OF v] assms(1,3) by (auto simp: governed_def admin_count_view active_view_def split: if_splits)
  ultimately show ?thesis by (simp add: governed_def view)
qed

lemma governed_insert:
  assumes "governed (base db)" "insert_user stmt t uid addr hash nm rl db = Inr db'" "rl \<in> set validRoles"
  shows "governed (base db')"
proof -
  have "user_view (base db') = user_view (base db) @ [(uid, addr, rl, 0)]" "uid \<notin> fst ` set (users (base db))"
      "addr \<notin> (\<lambda>(_, addr, _, _). addr) ` set (user_view (base db))"
    using assms(2) by (auto simp: insert_user_def user_view_def image_iff split: if_splits)
  then show ?thesis using assms(1,3) by (auto simp: governed_def wf_users_def admins_in_def)
qed

section \<open>An active administrator remains\<close>

lemma log_admin_frame [simp]:
  "store_of (log_admin e r action db) = store_of db" "invites (log_admin e r action db) = invites db"
  "key_infos (log_admin e r action db) = key_infos db" "accounts (acc (log_admin e r action db)) = accounts (acc db)"
  "identities (acc (log_admin e r action db)) = identities (acc db)"
  by (simp_all add: log_admin_def)

lemma with_store_frame [simp]:
  "store_of (with_store db s) = s" "invites (with_store db s) = invites db" "key_infos (with_store db s) = key_infos db"
  "accounts (acc (with_store db s)) = accounts (acc db)" "identities (acc (with_store db s)) = identities (acc db)"
  by (simp_all add: with_store_def)

lemma invalidate_view: "user_view (base (invalidateCredentials e r uid db)) = user_view (base db)"
proof -
  have step: "user_view (base (best_effort (InvalidateUserSessions t uid) d)) = user_view (base d)" for t d
    by (auto simp: best_effort_def InvalidateUserSessions_def update_user_def user_view_same split: option.splits)
  have rest: "user_view (base (best_effort (RevokeUserSessions t uid) d)) = user_view (base d)"
      "user_view (base (best_effort (RevokeAPIKeysByUser t uid) d)) = user_view (base d)"
      "user_view (base (revoke_identities e r uid d)) = user_view (base d)" for t d
    by (auto simp: best_effort_def RevokeUserSessions_def RevokeAPIKeysByUser_def revoke_identities_def RevokeServiceIdentitiesByUser_def
        user_view_def split: option.splits)
  have "user_view (base (purge_targets e r uid d)) = user_view (base d)" for d
    using purge_targets_frame(1) [of e r uid d] by (simp add: credentials_def user_view_def)
  then show ?thesis by (simp add: invalidateCredentials_def Let_def step rest)
qed

text \<open>The invitations: identifiers and hashes of codes are unique, and the roles are roles.\<close>

definition wf_invites :: "(string \<times> account_invitation) list \<Rightarrow> bool" where
  "wf_invites is \<longleftrightarrow> distinct (map fst is) \<and> distinct (map (\<lambda>(_, i). inv_code_hash i) is) \<and> list_all (\<lambda>(_, i). inv_role i \<in> set validRoles) is"

definition governed_db :: "admin_db \<Rightarrow> bool" where
  "governed_db db \<longleftrightarrow> governed (store_of db) \<and> wf_invites (invites db)"

lemma wf_invites_map:
  assumes "wf_invites is" "\<And>k i. inv_code_hash (f k i) = inv_code_hash i \<and> inv_role (f k i) = inv_role i"
  shows "wf_invites (map (\<lambda>(k, i). (k, f k i)) is)"
  using assms by (simp add: wf_invites_def case_prod_unfold comp_def list_all_iff)

lemma wf_invites_delete: "wf_invites is \<Longrightarrow> wf_invites (sql_delete iid is)"
  by (auto simp: wf_invites_def sql_delete_def distinct_map_filter list_all_iff)

lemma wf_invites_update:
  assumes "wf_invites is" "\<And>i. inv_code_hash (f i) = inv_code_hash i \<and> inv_role (f i) = inv_role i"
  shows "wf_invites (sql_update iid f is)"
  using wf_invites_map [OF assms(1), of "\<lambda>k i. if k = iid then f i else i"] assms(2) by (simp add: sql_update_def)

lemma wf_invites_insert:
  assumes "wf_invites (invites db)" "CreateInvitation iid row db = Some db'" "inv_role row \<in> set validRoles"
  shows "wf_invites (invites db')" "acc db' = acc db"
  using assms by (fastforce simp: CreateInvitation_def wf_invites_def list_ex_iff split: if_splits)+

lemma expire_keeps:
  assumes "ExpireStaleInvitations t db = Some db'"
  shows "wf_invites (invites db) \<Longrightarrow> wf_invites (invites db')" "acc db' = acc db" "key_infos db' = key_infos db"
  using assms wf_invites_map [of "invites db" "\<lambda>k i. if inv_status i = ''pending'' \<and> inv_expires_at i < t then i\<lparr>inv_status := ''expired''\<rparr> else i"]
  by (auto simp: ExpireStaleInvitations_def split: if_splits)

lemma governed_db_view:
  "user_view (store_of db') = user_view (store_of db) \<Longrightarrow> invites db' = invites db \<Longrightarrow> governed_db db' = governed_db db"
  by (simp add: governed_db_def governed_def)

lemma Create_user_induct:
  assumes refused: "\<And>resp. P (Refusal resp, db)"
    and created: "\<And>req rl hash d u. body = Some req \<Longrightarrow> rl \<in> set validRoles \<Longrightarrow>
      CreateUser (tick e) (new_user_id (signin e)) (Canonical (mail_of (signin e)) (create_email req)) hash
         (toNullString (create_name req)) rl (acc db) = Inr d \<Longrightarrow>
      P (User 201 u, log_admin e r ''admin.user_created'' (db\<lparr>acc := claimCollectionInvitationsBestEffort (signin e) (new_user_id (signin e))
               (Canonical (mail_of (signin e)) (create_email req)) d\<rparr>))"
  shows "P (Create_user e body r w db)"
  unfolding Create_user_def Let_def using created
  by (auto simp: refused split: option.split sum.split insert_error.split)

lemma Create_user_governed: "governed_db db \<Longrightarrow> governed_db (snd (Create_user e body r w db))"
proof (rule Create_user_induct)
  fix req rl hash d u
  assume created: "governed_db db" "rl \<in> set validRoles" "CreateUser (tick e) (new_user_id (signin e)) (Canonical (mail_of (signin e)) (create_email req)) hash
         (toNullString (create_name req)) rl (acc db) = Inr d"
  have "governed (base d)" using governed_insert [of "acc db" "''CreateUser''"] created by (simp add: governed_db_def CreateUser_def)
  then show "governed_db (snd (User 201 u, log_admin e r ''admin.user_created'' (db\<lparr>acc := claimCollectionInvitationsBestEffort (signin e)
      (new_user_id (signin e)) (Canonical (mail_of (signin e)) (create_email req)) d\<rparr>)))"
    using created claim_frame(1) [of "signin e" "new_user_id (signin e)" "Canonical (mail_of (signin e)) (create_email req)" d]
    by (simp add: governed_db_def governed_def user_view_def)
qed simp

lemma update_role_governed:
  assumes "governed_db db" "update_role_step e r w t req db = (res, db')"
  shows "governed_db db'"
  using assms governed_role
  by (auto simp: update_role_step_def governed_db_def split: option.splits if_splits prod.splits)

lemma update_disabled_governed:
  assumes "governed_db db" "update_disabled_step e r w t req db = (res, db')"
  shows "governed_db db'"
proof -
  have inv: "governed (base (invalidateCredentials x r t d)) = governed (base d)" for x d
    by (simp add: governed_def invalidate_view)
  show ?thesis
    using assms governed_disabled
    by (auto simp: update_disabled_step_def governed_db_def Let_def inv split: option.splits if_splits prod.splits)
qed

lemma Update_user_governed:
  assumes "governed_db db"
  shows "governed_db (snd (Update_user e t body r w db))"
proof -
  have name: "governed_db db'" if "governed_db d" "update_name_step r w t req d = (res, db')" for d req res db'
    using that by (auto simp: update_name_step_def UpdateUserName_def update_account_def governed_db_def split: option.splits if_splits)
  show ?thesis
    using assms
    by (auto simp: Update_user_def dest!: update_role_governed [rotated] update_disabled_governed [rotated] name [rotated]
        split: option.split fetched.split prod.split)
qed

lemma ResetPassword_governed: "governed_db db \<Longrightarrow> governed_db (snd (ResetPassword e t body r w db))"
  by (auto simp: ResetPassword_def SetPasswordHash_def update_account_def governed_db_def governed_def invalidate_view
      split: option.split fetched.split sum.split if_split)

subsection \<open>Deletion\<close>

lemma each_row_keeps:
  assumes "\<And>row st st'. f row st = Some st' \<Longrightarrow> I st \<Longrightarrow> I st'" "each_row f rows st = Some st'" "I st"
  shows "I st'"
  using assms(2,3) by (induction rows arbitrary: st) (auto split: option.splits dest: assms(1))

definition only_entries :: "store \<Rightarrow> store \<Rightarrow> bool" where
  "only_entries s s' \<longleftrightarrow> (\<exists>es. s' = s\<lparr>entries := es\<rparr>)"

lemma only_entries_refl [simp]: "only_entries s s"
  unfolding only_entries_def by (rule exI [of _ "entries s"]) simp

lemma only_entries_trans: "only_entries s s1 \<Longrightarrow> only_entries s1 s2 \<Longrightarrow> only_entries s s2"
  by (auto simp: only_entries_def)

lemma only_entries_fields:
  assumes "only_entries s s'"
  shows "users s' = users s" "fails s' = fails s" "sessions s' = sessions s" "api_keys s' = api_keys s" "members s' = members s"
    "collections s' = collections s" "invitations s' = invitations s" "settings s' = settings s"
  using assms by (auto simp: only_entries_def)

lemma update_entry_only [simp]: "only_entries s (update_entry s eid f)"
  by (auto simp: only_entries_def update_entry_def)

lemma hard_purge_row_only: "hard_purge_row e uid row (s, d) = Some (s', d') \<Longrightarrow> only_entries s s'"
  by (auto simp: hard_purge_row_def SetRotationTargets_def Let_def dest!: exec_frame split: prod.splits option.splits sum.splits if_splits)

lemma transfer_entry_only: "transfer_entry e own eid nb why s = Inr s' \<Longrightarrow> only_entries s s'"
  by (auto simp: transfer_entry_def constrained_def TransferSecretOwnership_def dest!: exec_frame split: option.splits sum.splits if_splits)

lemma rename_only: "UpdateVaultEntryName t nm nb eid s = Inr s' \<Longrightarrow> only_entries s s'"
  by (auto simp: UpdateVaultEntryName_def constrained_def dest!: exec_frame split: sum.splits if_splits)

lemma reassign_row_only: "reassign_row e addr own row (s, n) = Some (s', n') \<Longrightarrow> only_entries s s'"
  by (auto simp: reassign_row_def Let_def dest: transfer_entry_only rename_only only_entries_trans
      split: prod.splits option.splits sum.splits write_error.splits)

lemma each_row_only:
  assumes "\<And>row s n s' n'. f row (s, n) = Some (s', n') \<Longrightarrow> only_entries s s'" "each_row f rows (s, n :: nat) = Some (s', n')"
  shows "only_entries s s'"
  using assms(2)
proof (induction rows arbitrary: s n)
  case (Cons row rows)
  then obtain s1 n1 where step: "f row (s, n) = Some (s1, n1)" "each_row f rows (s1, n1) = Some (s', n')" by (auto split: option.splits)
  show ?case using only_entries_trans [OF assms(1) [OF step(1)] Cons.IH [OF step(2)]] .
qed simp

lemma delete_personal:
  assumes "DeletePersonalVaultEntriesForUser uid s = Some (s', n)"
  shows "s' = s\<lparr>entries := filter (\<lambda>(_, r). \<not> (user_id r = uid \<and> \<not> in_collection r)) (entries s)\<rparr>"
  using assms by (auto simp: DeletePersonalVaultEntriesForUser_def Let_def case_prod_unfold split: if_splits)

lemma cleanup_rows:
  assumes "hardDeleteCleanup e uid addr own db = Some (d, summary)"
  obtains db1 n s2 c s3 m where "revoke_for_delete e uid db = Some (db1, n)" "purgeTargetsForHardDelete e uid (base db1) = Some (s2, c)"
    "reassignCollectionEntriesForHardDelete e uid addr own s2 = Some (s3, m)"
    "d = db1\<lparr>base := s3\<lparr>entries := filter (\<lambda>(_, r). \<not> (user_id r = uid \<and> \<not> in_collection r)) (entries s3)\<rparr>\<rparr>"
    "only_entries (base db1) s2" "only_entries s2 s3"
proof -
  obtain db1 n where 1: "revoke_for_delete e uid db = Some (db1, n)"
    using assms by (cases "revoke_for_delete e uid db") (auto simp: hardDeleteCleanup_def split: if_splits)
  obtain s2 c where 2: "purgeTargetsForHardDelete e uid (base db1) = Some (s2, c)"
    using assms 1 by (cases "purgeTargetsForHardDelete e uid (base db1)") (auto simp: hardDeleteCleanup_def split: if_splits)
  obtain s3 m where 3: "reassignCollectionEntriesForHardDelete e uid addr own s2 = Some (s3, m)"
    using assms 1 2 by (cases "reassignCollectionEntriesForHardDelete e uid addr own s2") (auto simp: hardDeleteCleanup_def split: if_splits)
  obtain s4 g where "DeletePersonalVaultEntriesForUser uid s3 = Some (s4, g)"
    using assms 1 2 3 by (cases "DeletePersonalVaultEntriesForUser uid s3") (auto simp: hardDeleteCleanup_def split: if_splits)
  moreover from this have "d = db1\<lparr>base := s4\<rparr>" using assms 1 2 3 by (auto simp: hardDeleteCleanup_def split: if_splits)
  ultimately have 4: "d = db1\<lparr>base := s3\<lparr>entries := filter (\<lambda>(_, r). \<not> (user_id r = uid \<and> \<not> in_collection r)) (entries s3)\<rparr>\<rparr>"
    using delete_personal by simp
  have "only_entries (base db1) s2"
    using 2 each_row_only [where f = "hard_purge_row e uid", OF hard_purge_row_only]
    by (auto simp: purgeTargetsForHardDelete_def split: option.splits)
  moreover have "only_entries s2 s3"
    using 3 each_row_only [where f = "reassign_row e addr own", OF reassign_row_only]
    by (auto simp: reassignCollectionEntriesForHardDelete_def split: option.splits fetched.splits if_splits)
  ultimately show thesis using that 1 2 3 4 by blast
qed

lemma delete_user_tx_Inr:
  assumes "delete_user_tx e t r w db = Inr (db', summary)"
  obtains u d u' where "map_of (users (store_of db)) t = Some u" "hardDeleteCleanup e t (email u) (GetUserID r) (acc db) = Some (d, summary)"
    "verifyHardDeleteCleanup e t d" "map_of (users (base d)) t = Some u'"
    "role u' \<noteq> ''admin'' \<or> disabled u' = 1 \<or> admin_count (base d) > 1" "IsPrivateIngress r \<or> \<not> protected_impact (base d) t"
    "db' = cascade t (db\<lparr>acc := d\<rparr>)"
proof -
  obtain u where row: "GetUserByID (store_of db) t = Row u"
    using assms by (cases "GetUserByID (store_of db) t") (auto simp: delete_user_tx_def)
  then have u: "map_of (users (store_of db)) t = Some u" by (simp add: query_defs row_simps)
  obtain d sm where d: "hardDeleteCleanup e t (email u) (GetUserID r) (acc db) = Some (d, sm)"
    using assms row by (cases "hardDeleteCleanup e t (email u) (GetUserID r) (acc db)") (auto simp: delete_user_tx_def Let_def split: option.splits if_splits)
  obtain n where v: "verifyHardDeleteCleanup e t d" and
      del: "DeleteUserIfNotLastAdmin t (privateIngressSQLFlag r) (db\<lparr>acc := d\<rparr>) = Some (db', n)" "n \<noteq> 0" "sm = summary"
    using assms row d by (auto simp: delete_user_tx_def Let_def split: option.splits if_splits)
  have "\<exists>u'. map_of (users (base d)) t = Some u' \<and> (role u' \<noteq> ''admin'' \<or> disabled u' = 1 \<or> admin_count (base d) > 1) \<and>
      (IsPrivateIngress r \<or> \<not> protected_impact (base d) t) \<and> db' = cascade t (db\<lparr>acc := d\<rparr>)"
    using del(1,2) by (auto simp: DeleteUserIfNotLastAdmin_def privateIngressSQLFlag_def Let_def split: option.splits if_splits)
  then show thesis using that u d v del(3) by blast
qed

lemma revoke_for_delete_effect:
  assumes "revoke_for_delete e uid db = Some (db', n)"
  shows "user_view (base db') = user_view (base db)" "entries (base db') = entries (base db)" "accounts db' = accounts db"
    "fails (base db') = fails (base db)" "members (base db') = members (base db)" "collections (base db') = collections (base db)"
    "\<forall>(j, x) \<in> set (identities db'). \<not> live_identity uid x"
proof -
  obtain db1 where 1: "InvalidateUserSessions (tick e) uid db = Some db1" using assms by (auto simp: revoke_for_delete_def split: option.splits)
  obtain db2 where 2: "RevokeUserSessions (tick e) uid db1 = Some db2" using assms 1 by (auto simp: revoke_for_delete_def split: option.splits)
  obtain db3 where 3: "RevokeAPIKeysByUser (tick e) uid db2 = Some db3" using assms 1 2 by (auto simp: revoke_for_delete_def split: option.splits)
  have same: "user_view (base db3) = user_view (base db)" "entries (base db3) = entries (base db)" "accounts db3 = accounts db"
      "fails (base db3) = fails (base db)" "members (base db3) = members (base db)" "collections (base db3) = collections (base db)"
    using 1 2 3 by (auto simp: InvalidateUserSessions_def RevokeUserSessions_def RevokeAPIKeysByUser_def update_user_def user_view_def
        sql_update_def case_prod_unfold split: if_splits)
  have last_step: "db' = db3 \<and> filter (\<lambda>(_, i). live_identity uid i) (identities db3) = [] \<or> RevokeServiceIdentitiesByUser (tick e) uid db3 = Some db'"
    using assms 1 2 3 by (auto simp: revoke_for_delete_def ListServiceIdentitiesByUser_def split: option.splits if_splits)
  then show "user_view (base db') = user_view (base db)" "entries (base db') = entries (base db)" "accounts db' = accounts db"
      "fails (base db') = fails (base db)" "members (base db') = members (base db)" "collections (base db') = collections (base db)"
    using same by (auto simp: RevokeServiceIdentitiesByUser_def split: if_splits)
  show "\<forall>(j, x) \<in> set (identities db'). \<not> live_identity uid x"
    using last_step by (auto simp: RevokeServiceIdentitiesByUser_def live_identity_def filter_empty_conv split: if_splits)
qed

lemma cleanup_users:
  assumes "hardDeleteCleanup e uid addr own db = Some (d, summary)"
  shows "user_view (base d) = user_view (base db)" "fails (base d) = fails (base db)" "members (base d) = members (base db)"
    "collections (base d) = collections (base db)" "\<forall>(j, x) \<in> set (identities d). \<not> live_identity uid x"
proof -
  obtain db1 n s2 c s3 m where c: "revoke_for_delete e uid db = Some (db1, n)"
    "purgeTargetsForHardDelete e uid (base db1) = Some (s2, c)" "reassignCollectionEntriesForHardDelete e uid addr own s2 = Some (s3, m)"
    "d = db1\<lparr>base := s3\<lparr>entries := filter (\<lambda>(_, r). \<not> (user_id r = uid \<and> \<not> in_collection r)) (entries s3)\<rparr>\<rparr>"
    "only_entries (base db1) s2" "only_entries s2 s3"
    using cleanup_rows [OF assms] .
  note rows = only_entries_fields [OF only_entries_trans [OF c(5,6)]] and effect = revoke_for_delete_effect [OF c(1)]
  show "user_view (base d) = user_view (base db)" "fails (base d) = fails (base db)" "members (base d) = members (base db)"
    "collections (base d) = collections (base db)" "\<forall>(j, x) \<in> set (identities d). \<not> live_identity uid x"
    using rows effect c(4) by (simp_all add: user_view_def)
qed

lemma cascade_frame:
  "users (store_of (cascade t db)) = sql_delete t (users (store_of db))" "wf_invites (invites db) \<Longrightarrow> wf_invites (invites (cascade t db))"
  using wf_invites_map [of "invites db" "\<lambda>k i. i\<lparr>inv_created_by := unlink t (inv_created_by i), inv_redeemed_by := unlink t (inv_redeemed_by i)\<rparr>"]
  by (simp_all add: cascade_def Let_def)

lemma logHardDeleteSummary_frame [simp]:
  "store_of (logHardDeleteSummary e r sm db) = store_of db" "invites (logHardDeleteSummary e r sm db) = invites db"
  "key_infos (logHardDeleteSummary e r sm db) = key_infos db" "accounts (acc (logHardDeleteSummary e r sm db)) = accounts (acc db)"
  "identities (acc (logHardDeleteSummary e r sm db)) = identities (acc db)"
  by (simp_all add: logHardDeleteSummary_def Let_def)

lemma Delete_user_induct:
  assumes "\<And>resp. P (Refusal resp, db)"
    and "\<And>db' sm. requireConfiguredPrivateControlPlaneIngress w r = None \<Longrightarrow> t \<noteq> GetUserID r \<Longrightarrow> delete_user_tx e t r w db = Inr (db', sm) \<Longrightarrow>
           P (NoContent (no_content w), log_admin e r ''admin.user_deleted'' (logHardDeleteSummary e r sm db'))"
  shows "P (Delete_user e t r w db)"
  unfolding Delete_user_def using assms(2) by (auto simp: assms(1) split: option.split sum.split)

lemma Delete_user_governed: "governed_db db \<Longrightarrow> governed_db (snd (Delete_user e t r w db))"
proof (rule Delete_user_induct)
  fix db' sm
  assume g: "governed_db db" and tx: "delete_user_tx e t r w db = Inr (db', sm)"
  obtain u d u' where d: "map_of (users (store_of db)) t = Some u" "hardDeleteCleanup e t (email u) (GetUserID r) (acc db) = Some (d, sm)"
    "verifyHardDeleteCleanup e t d" "map_of (users (base d)) t = Some u'" "role u' \<noteq> ''admin'' \<or> disabled u' = 1 \<or> admin_count (base d) > 1"
    "IsPrivateIngress r \<or> \<not> protected_impact (base d) t" "db' = cascade t (db\<lparr>acc := d\<rparr>)"
    using delete_user_tx_Inr [OF tx] .
  have "governed (base d)" using g cleanup_users(1) [OF d(2)] by (simp add: governed_db_def governed_def)
  then have "governed (store_of db')" using governed_delete [OF _ d(4,5)] cascade_frame(1) [of t "db\<lparr>acc := d\<rparr>"] d(7) by simp
  then show "governed_db (snd (NoContent (no_content w), log_admin e r ''admin.user_deleted'' (logHardDeleteSummary e r sm db')))"
    using g d(7) cascade_frame(2) [of "db\<lparr>acc := d\<rparr>" t] by (simp add: governed_db_def)
qed simp

subsection \<open>Invitations\<close>

text \<open>An invitation whose code has been used up: redeemed or expired.\<close>

definition spent :: "string \<Rightarrow> (string \<times> account_invitation) list \<Rightarrow> bool" where
  "spent h is \<longleftrightarrow> list_ex (\<lambda>(_, i). inv_code_hash i = h \<and> inv_status i \<noteq> ''pending'') is"

lemma spent_map:
  assumes "spent h is" "\<And>k i. inv_code_hash (f k i) = inv_code_hash i \<and> (inv_status i \<noteq> ''pending'' \<longrightarrow> inv_status (f k i) \<noteq> ''pending'')"
  shows "spent h (map (\<lambda>(k, i). (k, f k i)) is)"
proof -
  obtain k i where "(k, i) \<in> set is" "inv_code_hash i = h" "inv_status i \<noteq> ''pending''"
    using assms(1) by (auto simp: spent_def list_ex_iff)
  then have "(k, f k i) \<in> set (map (\<lambda>(k, i). (k, f k i)) is)" "inv_code_hash (f k i) = h" "inv_status (f k i) \<noteq> ''pending''"
    using assms(2) by force+
  then show ?thesis unfolding spent_def list_ex_iff by blast
qed

lemma spent_unique:
  assumes "wf_invites is" "spent h is" "(k, i) \<in> set is" "inv_code_hash i = h"
  shows "inv_status i \<noteq> ''pending''"
proof -
  obtain k' i' where "(k', i') \<in> set is" "inv_code_hash i' = h" "inv_status i' \<noteq> ''pending''"
    using assms(2) by (auto simp: spent_def list_ex_iff)
  moreover have "inj_on (\<lambda>(_, i). inv_code_hash i) (set is)" using assms(1) by (simp add: wf_invites_def distinct_map)
  ultimately have "(k', i') = (k, i)" using assms(3,4) inj_onD [of "\<lambda>(_, i). inv_code_hash i" "set is" "(k', i')" "(k, i)"] by simp
  with \<open>inv_status i' \<noteq> ''pending''\<close> show ?thesis by simp
qed

lemma expire_spent: "ExpireStaleInvitations t db = Some db' \<Longrightarrow> spent h (invites db) \<Longrightarrow> spent h (invites db')"
  using spent_map [of h "invites db" "\<lambda>k i. if inv_status i = ''pending'' \<and> inv_expires_at i < t then i\<lparr>inv_status := ''expired''\<rparr> else i"]
  by (auto simp: ExpireStaleInvitations_def split: if_splits)

lemma spent_not_pending:
  assumes "wf_invites (invites db)" "spent h (invites db)"
  shows "GetPendingInvitationByCode t db h \<noteq> Row row"
proof
  assume "GetPendingInvitationByCode t db h = Row row"
  then have "row \<in> set (invites db)" "inv_code_hash (snd row) = h" "inv_status (snd row) = ''pending''"
    by (auto simp: GetPendingInvitationByCode_def invite_open_def row_simps find_Some_iff case_prod_unfold)
  then show False using spent_unique [OF assms, of "fst row" "snd row"] by simp
qed

lemma mark_effect:
  assumes "MarkInvitationRedeemedIfPending t by_user iid h db = Some (db', n)" "n = 1"
  obtains i where "map_of (invites db) iid = Some i" "inv_code_hash i = h" "invite_open t i"
    "db' = db\<lparr>invites := sql_update iid (\<lambda>i. i\<lparr>inv_status := ''redeemed'', inv_redeemed_by := by_user\<rparr>) (invites db)\<rparr>"
  using assms that by (auto simp: MarkInvitationRedeemedIfPending_def split: if_splits option.splits)

lemma spent_after_mark:
  assumes "map_of is iid = Some i" "inv_code_hash i = h"
  shows "spent h (sql_update iid (\<lambda>i. i\<lparr>inv_status := ''redeemed'', inv_redeemed_by := x\<rparr>) is)"
proof -
  have "map_of (sql_update iid (\<lambda>i. i\<lparr>inv_status := ''redeemed'', inv_redeemed_by := x\<rparr>) is) iid = Some (i\<lparr>inv_status := ''redeemed'', inv_redeemed_by := x\<rparr>)"
    using assms(1) by simp
  from map_of_SomeD [OF this] show ?thesis unfolding spent_def list_ex_iff by (rule bexI [rotated]) (simp add: assms(2))
qed

lemma redeem_tx_Inr:
  assumes "redeem_tx e h pw hash seen r w db = Inr db'"
  obtains db1 i d s where "ExpireStaleInvitations (tick e) db = Some db1" "GetPendingInvitationByCode (tick e) db1 h = Row (fst seen, i)"
    "inv_email i = inv_email (snd seen)" "inv_name i = inv_name (snd seen)" "inv_role i = inv_role (snd seen)" "admin_gate (inv_role i = RoleAdmin) w r = None"
    "insert_user ''CreateInvitedUser'' (tick e) (new_user_id (signin e)) (Canonical (mail_of (signin e)) (inv_email i)) hash (toNullString (inv_name i)) (inv_role i) (acc db1) = Inr d"
    "claimCollectionInvitations (deps_of (signin e)) (base d) (new_user_id (signin e)) (Canonical (mail_of (signin e)) (inv_email i)) = (True, s)"
    "MarkInvitationRedeemedIfPending (tick e) (toNullString (new_user_id (signin e))) (fst seen) h (db1\<lparr>acc := d\<lparr>base := snd s\<rparr>\<rparr>) = Some (db', Suc 0)"
proof -
  obtain db1 where 1: "ExpireStaleInvitations (tick e) db = Some db1"
    using assms by (cases "ExpireStaleInvitations (tick e) db") (auto simp: redeem_tx_def Let_def)
  obtain iid i where 2: "GetPendingInvitationByCode (tick e) db1 h = Row (iid, i)"
    using assms 1 by (cases "GetPendingInvitationByCode (tick e) db1 h") (auto simp: redeem_tx_def Let_def)
  let ?addr = "Canonical (mail_of (signin e)) (inv_email i)" and ?uid = "new_user_id (signin e)"
  obtain d where 3: "CreateInvitedUser (tick e) ?uid ?addr hash (toNullString (inv_name i)) (inv_role i) (acc db1) = Inr d"
    using assms 1 2 by (cases "CreateInvitedUser (tick e) ?uid ?addr hash (toNullString (inv_name i)) (inv_role i) (acc db1)")
      (auto simp: redeem_tx_def Let_def split: if_splits option.splits fetched.splits insert_error.splits)
  obtain s where 4: "claimCollectionInvitations (deps_of (signin e)) (base d) ?uid ?addr = (True, s)"
    using assms 1 2 3 by (cases "claimCollectionInvitations (deps_of (signin e)) (base d) ?uid ?addr")
      (auto simp: redeem_tx_def Let_def split: if_splits option.splits fetched.splits bool.splits)
  have 5: "MarkInvitationRedeemedIfPending (tick e) (toNullString ?uid) iid h (db1\<lparr>acc := d\<lparr>base := snd s\<rparr>\<rparr>) = Some (db', Suc 0)"
      "iid = fst seen" "inv_email i = inv_email (snd seen)" "inv_name i = inv_name (snd seen)" "inv_role i = inv_role (snd seen)"
      "admin_gate (inv_role i = RoleAdmin) w r = None"
    using assms 1 2 3 4 by (auto simp: redeem_tx_def Let_def split: if_splits option.splits fetched.splits prod.splits)
  show thesis using that 1 2 3 4 5 by (simp add: CreateInvitedUser_def)
qed

text \<open>What a redemption does: one account for the invitation's address with its role, and the code is spent.\<close>

lemma redeem_tx_effect:
  assumes g: "governed_db db" and tx: "redeem_tx e h pw hash seen r w db = Inr db'"
  shows "governed_db db'" "spent h' (invites db) \<Longrightarrow> spent h' (invites db')" "spent h (invites db')"
    "user_view (store_of db') = user_view (store_of db) @
       [(new_user_id (signin e), Canonical (mail_of (signin e)) (inv_email (snd seen)), inv_role (snd seen), 0)]"
    "admin_gate (inv_role (snd seen) = RoleAdmin) w r = None"
proof -
  obtain db1 i d s where t: "ExpireStaleInvitations (tick e) db = Some db1" "GetPendingInvitationByCode (tick e) db1 h = Row (fst seen, i)"
    "inv_email i = inv_email (snd seen)" "inv_name i = inv_name (snd seen)" "inv_role i = inv_role (snd seen)" "admin_gate (inv_role i = RoleAdmin) w r = None"
    "insert_user ''CreateInvitedUser'' (tick e) (new_user_id (signin e)) (Canonical (mail_of (signin e)) (inv_email i)) hash (toNullString (inv_name i)) (inv_role i) (acc db1) = Inr d"
    "claimCollectionInvitations (deps_of (signin e)) (base d) (new_user_id (signin e)) (Canonical (mail_of (signin e)) (inv_email i)) = (True, s)"
    "MarkInvitationRedeemedIfPending (tick e) (toNullString (new_user_id (signin e))) (fst seen) h (db1\<lparr>acc := d\<lparr>base := snd s\<rparr>\<rparr>) = Some (db', Suc 0)"
    using redeem_tx_Inr [OF tx] .
  obtain i' where m: "map_of (invites db1) (fst seen) = Some i'" "inv_code_hash i' = h"
    "db' = db1\<lparr>acc := d\<lparr>base := snd s\<rparr>, invites := sql_update (fst seen) (\<lambda>i. i\<lparr>inv_status := ''redeemed'', inv_redeemed_by := toNullString (new_user_id (signin e))\<rparr>) (invites db1)\<rparr>"
    using t(9) by (rule mark_effect) auto
  note ex = expire_keeps [OF t(1)]
  have wf: "wf_invites (invites db1)" and gs: "governed (base (acc db1))" using g ex by (auto simp: governed_db_def)
  have "users (snd s) = users (base d)"
    using t(8) claim_seats_users [of "base d" "new_user_id (signin e)"] by (auto simp: claimCollectionInvitations_def split: if_splits) (metis prod.collapse snd_conv)
  then have view: "user_view (store_of db') = user_view (base d)" using m(3) by (simp add: user_view_def)
  have role_ok: "inv_role i \<in> set validRoles"
    using t(2) wf by (auto simp: GetPendingInvitationByCode_def row_simps find_Some_iff wf_invites_def list_all_iff dest!: nth_mem)
  have "governed (store_of db')" using governed_insert [OF gs t(7) role_ok] view by (simp add: governed_def)
  moreover have "wf_invites (invites db')" using wf_invites_update [OF wf] m(3) by simp
  ultimately show "governed_db db'" by (simp add: governed_db_def)
  show "spent h (invites db')" using spent_after_mark [OF m(1,2)] m(3) by simp
  show "spent h' (invites db')" if "spent h' (invites db)"
    using spent_map [OF expire_spent [OF t(1) that], of "\<lambda>k i. if k = fst seen then i\<lparr>inv_status := ''redeemed'', inv_redeemed_by := toNullString (new_user_id (signin e))\<rparr> else i"]
      m(3) by (simp add: sql_update_def)
  show "user_view (store_of db') = user_view (store_of db) @
       [(new_user_id (signin e), Canonical (mail_of (signin e)) (inv_email (snd seen)), inv_role (snd seen), 0)]"
    using t(7) ex(2) view by (auto simp: insert_user_def user_view_def t(3,5) split: if_splits)
  show "admin_gate (inv_role (snd seen) = RoleAdmin) w r = None" using t(5,6) by simp
qed

definition code_hash_of :: "admin_env \<Rightarrow> string \<Rightarrow> string" where
  "code_hash_of e typed = hashInviteCode e (trim_space (upper_of e typed))"

lemma RedeemInvitation_induct:
  assumes "\<And>resp. P (Refusal resp, db)"
    and expired: "\<And>db1 resp. ExpireStaleInvitations (tick e) db = Some db1 \<Longrightarrow> P (Refusal resp, db1)"
    and hashed: "\<And>db1 resp. ExpireStaleInvitations (tick e) db = Some db1 \<Longrightarrow> P (Refusal resp, meanwhile db1)"
    and "\<And>typed pw hash db1 seen db2. body = Some (typed, pw) \<Longrightarrow> ExpireStaleInvitations (tick e) db = Some db1 \<Longrightarrow>
       GetPendingInvitationByCode (tick e) db1 (code_hash_of e typed) = Row seen \<Longrightarrow>
       redeem_tx e (code_hash_of e typed) pw hash seen r w (meanwhile db1) = Inr db2 \<Longrightarrow>
       P (Redeemed (new_user_id (signin e)) (inv_email (snd seen)) (inv_name (snd seen)) (inv_role (snd seen)), log_admin e r ''invitation.redeemed'' db2)"
  shows "P (RedeemInvitation e meanwhile body r w db)"
proof (cases body)
  case (Some b)
  obtain typed pw where b: "b = (typed, pw)" by fastforce
  show ?thesis
    unfolding RedeemInvitation_def Some b Let_def option.case prod.case using assms(4) [OF Some [unfolded b], unfolded code_hash_of_def]
    by (auto simp: assms(1) expired hashed split: option.split fetched.split sum.split)
qed (simp add: RedeemInvitation_def assms(1))

definition lawful :: "admin_db \<Rightarrow> admin_db \<Rightarrow> bool" where
  "lawful db db' \<longleftrightarrow> (governed_db db \<longrightarrow> governed_db db' \<and> (\<forall>h. spent h (invites db) \<longrightarrow> spent h (invites db')))"

lemma lawful_refl [simp]: "lawful db db"
  by (simp add: lawful_def)

lemma lawful_trans: "lawful db1 db2 \<Longrightarrow> lawful db2 db3 \<Longrightarrow> lawful db1 db3"
  by (simp add: lawful_def)

lemma lawful_same: "(governed_db db \<Longrightarrow> governed_db db') \<Longrightarrow> invites db' = invites db \<Longrightarrow> lawful db db'"
  by (simp add: lawful_def)

lemma lawful_log [simp]: "lawful db (log_admin e r action db') = lawful db db'"
  by (simp add: lawful_def governed_db_def)

lemma lawful_expire: "ExpireStaleInvitations t db = Some db' \<Longrightarrow> lawful db db'"
  using expire_keeps expire_spent by (simp add: lawful_def governed_db_def)

lemma RedeemInvitation_lawful:
  assumes "\<And>d. lawful d (meanwhile d)"
  shows "lawful db (snd (RedeemInvitation e meanwhile body r w db))"
proof (rule RedeemInvitation_induct)
  fix typed pw hash db1 seen db2
  assume x: "ExpireStaleInvitations (tick e) db = Some db1" and tx: "redeem_tx e (code_hash_of e typed) pw hash seen r w (meanwhile db1) = Inr db2"
  have "lawful db (meanwhile db1)" using lawful_trans [OF lawful_expire [OF x] assms] .
  moreover have "lawful (meanwhile db1) db2" using redeem_tx_effect(1,2) [OF _ tx] by (simp add: lawful_def)
  ultimately show "lawful db (snd (Redeemed (new_user_id (signin e)) (inv_email (snd seen)) (inv_name (snd seen)) (inv_role (snd seen)),
      log_admin e r ''invitation.redeemed'' db2))"
    by (simp add: lawful_trans)
next
  fix db1 resp
  assume x: "ExpireStaleInvitations (tick e) db = Some db1"
  show "lawful db (snd (Refusal resp, meanwhile db1))" using lawful_trans [OF lawful_expire [OF x] assms] by simp
qed (simp_all add: lawful_expire)

lemma Create_user_invites: "invites (snd (Create_user e body r w db)) = invites db"
  by (rule Create_user_induct) simp_all

lemma Update_user_invites: "invites (snd (Update_user e t body r w db)) = invites db"
proof -
  have "invites (snd (update_role_step e r w t req d)) = invites d" "invites (snd (update_disabled_step e r w t req d)) = invites d"
      "invites (snd (update_name_step r w t req d)) = invites d" for req d
    by (simp_all add: update_role_step_def update_disabled_step_def update_name_step_def Let_def case_prod_unfold split: option.split)
  then show ?thesis by (auto simp: Update_user_def split: option.split fetched.split prod.split) (metis snd_conv)+
qed

lemma ResetPassword_invites: "invites (snd (ResetPassword e t body r w db)) = invites db"
  by (simp add: ResetPassword_def split: option.split fetched.split sum.split)

lemma cascade_lawful_invites: "spent h (invites db) \<Longrightarrow> spent h (invites (cascade t db))"
  using spent_map [of h "invites db" "\<lambda>k i. i\<lparr>inv_created_by := unlink t (inv_created_by i), inv_redeemed_by := unlink t (inv_redeemed_by i)\<rparr>"]
  by (simp add: cascade_def Let_def)

lemma Delete_user_lawful: "lawful db (snd (Delete_user e t r w db))"
proof -
  have "spent h (invites (snd (Delete_user e t r w db)))" if s: "spent h (invites db)" for h
  proof (rule Delete_user_induct)
    fix db' sm
    assume tx: "delete_user_tx e t r w db = Inr (db', sm)"
    have "\<exists>d. db' = cascade t (db\<lparr>acc := d\<rparr>)" by (rule delete_user_tx_Inr [OF tx]) blast
    then show "spent h (invites (snd (NoContent (no_content w), log_admin e r ''admin.user_deleted'' (logHardDeleteSummary e r sm db'))))"
      using s cascade_lawful_invites by fastforce
  qed (simp add: s)
  then show ?thesis using Delete_user_governed by (simp add: lawful_def)
qed

lemma CreateInvitation_lawful:
  assumes "CreateInvitation iid row db = Some db'" "inv_role row \<in> set validRoles"
  shows "lawful db db'"
  using assms wf_invites_insert [OF _ assms] by (auto simp: lawful_def governed_db_def CreateInvitation_def spent_def split: if_splits)

lemma Create_invitation_lawful: "lawful db (snd (Create_invitation e body r w db))"
  unfolding Create_invitation_def Let_def
  by (auto simp: CreateInvitation_lawful split: option.split)

lemma DeleteInvitation_lawful: "lawful db (snd (DeleteInvitation iid r w db))"
proof -
  have "lawful db (db\<lparr>invites := sql_delete iid (invites db)\<rparr>)"
    if "map_of (invites db) iid = Some i" "inv_status i = ''pending''" for i
  proof -
    have "spent h (sql_delete iid (invites db))" if g: "governed_db db" "spent h (invites db)" for h
    proof -
      obtain k j where kj: "(k, j) \<in> set (invites db)" "inv_code_hash j = h" "inv_status j \<noteq> ''pending''"
        using g(2) by (auto simp: spent_def list_ex_iff)
      then have "map_of (invites db) k = Some j" using g(1) by (simp add: governed_db_def wf_invites_def)
      then have "(k, j) \<in> set (sql_delete iid (invites db))" using kj \<open>map_of (invites db) iid = Some i\<close> \<open>inv_status i = ''pending''\<close> by (auto simp: sql_delete_def)
      then show ?thesis using kj unfolding spent_def list_ex_iff by blast
    qed
    then show ?thesis using wf_invites_delete by (simp add: lawful_def governed_db_def)
  qed
  then show ?thesis by (auto simp: DeleteInvitation_def DeletePendingInvitation_def split: option.split)
qed

lemma ListInvitations_lawful: "lawful db (snd (ListInvitations e r w db))"
  by (simp add: ListInvitations_def Let_def lawful_expire split: option.split)

lemma keys_lawful:
  "lawful db (snd (Create_key e kb r w db))" "lawful db (snd (Delete_key e kid r w db))"
  "lawful db (snd (AdminRevoke e t kid r w db))" "lawful db (snd (AdminRevokeAll e t r w db))"
proof -
  have users: "lawful db db'" if "users (store_of db') = users (store_of db)" "invites db' = invites db" for db'
    using that by (simp add: lawful_def governed_db_def governed_def user_view_def)
  show "lawful db (snd (Create_key e kb r w db))"
    by (auto simp: Create_key_def Let_def CreateAPIKeyForUser_def intro!: users split: option.split)
  show "lawful db (snd (Delete_key e kid r w db))"
    by (auto simp: Delete_key_def Let_def DeleteAPIKey_def intro!: users split: option.split)
  show "lawful db (snd (AdminRevoke e t kid r w db))"
    by (auto simp: AdminRevoke_def Let_def RevokeAPIKey_def intro!: users split: option.split)
  show "lawful db (snd (AdminRevokeAll e t r w db))"
    by (auto simp: AdminRevokeAll_def Let_def RevokeAPIKeysByUser_def intro!: users split: option.split fetched.split)
qed

subsection \<open>Sequences of calls\<close>

text \<open>
  The calls that change users, invitations or keys, each with its own environment, request and
  answer headers.  A redemption carries the calls that complete while it hashes the password.
\<close>

datatype admin_call =
    CallCreateUser admin_env "create_request option" request headers
  | CallUpdateUser admin_env string "update_request option" request headers
  | CallResetPassword admin_env string "string option" request headers
  | CallDeleteUser admin_env string request headers
  | CallInvite admin_env "invite_request option" request headers
  | CallListInvitations admin_env request headers
  | CallDeleteInvitation string request headers
  | CallResend admin_env string request headers
  | CallRedeem admin_env "admin_call list" "(string \<times> string) option" request headers
  | CallCreateKey admin_env "(string \<times> int) option" request headers
  | CallDeleteKey admin_env string request headers
  | CallRevoke admin_env string string request headers
  | CallRevokeAll admin_env string request headers

primrec serve_admin :: "admin_call \<Rightarrow> admin_db \<Rightarrow> admin_db" where
  "serve_admin (CallCreateUser e body r w) = (\<lambda>db. snd (Create_user e body r w db))"
| "serve_admin (CallUpdateUser e t body r w) = (\<lambda>db. snd (Update_user e t body r w db))"
| "serve_admin (CallResetPassword e t body r w) = (\<lambda>db. snd (ResetPassword e t body r w db))"
| "serve_admin (CallDeleteUser e t r w) = (\<lambda>db. snd (Delete_user e t r w db))"
| "serve_admin (CallInvite e body r w) = (\<lambda>db. snd (Create_invitation e body r w db))"
| "serve_admin (CallListInvitations e r w) = (\<lambda>db. snd (ListInvitations e r w db))"
| "serve_admin (CallDeleteInvitation iid r w) = (\<lambda>db. snd (DeleteInvitation iid r w db))"
| "serve_admin (CallResend e iid r w) = (\<lambda>db. snd (ResendInvitation e iid r w db))"
| "serve_admin (CallRedeem e others body r w) = (\<lambda>db. snd (RedeemInvitation e (fold (\<lambda>f. f) (map serve_admin others)) body r w db))"
| "serve_admin (CallCreateKey e body r w) = (\<lambda>db. snd (Create_key e body r w db))"
| "serve_admin (CallDeleteKey e kid r w) = (\<lambda>db. snd (Delete_key e kid r w db))"
| "serve_admin (CallRevoke e t kid r w) = (\<lambda>db. snd (AdminRevoke e t kid r w db))"
| "serve_admin (CallRevokeAll e t r w) = (\<lambda>db. snd (AdminRevokeAll e t r w db))"

lemma fold_lawful: "(\<And>f d. f \<in> set fs \<Longrightarrow> lawful d (f d)) \<Longrightarrow> lawful db (fold (\<lambda>f. f) fs db)"
  by (induction fs arbitrary: db) (auto intro: lawful_trans)

lemma serve_admin_lawful: "lawful db (serve_admin c db)"
proof (induction c arbitrary: db)
  case (CallRedeem e others body r w)
  then show ?case by (auto intro!: RedeemInvitation_lawful fold_lawful)
next
  case (CallResend e iid r w)
  show ?case by (simp add: ResendInvitation_def split: fetched.split)
qed (simp_all add: lawful_same Create_user_governed Create_user_invites Update_user_governed Update_user_invites ResetPassword_governed ResetPassword_invites
    Delete_user_lawful Create_invitation_lawful DeleteInvitation_lawful ListInvitations_lawful keys_lawful)

interpretation administration: invariant_steps serve_admin governed_db
  using serve_admin_lawful by unfold_locales (auto simp: lawful_def)

interpretation codes: stable_steps serve_admin governed_db "\<lambda>db. spent h (invites db)" "\<lambda>_. True" for h
  using serve_admin_lawful by unfold_locales (auto simp: lawful_def)

end
