(* ===== verification/User_Admin_Properties.thy ===== *)
theory User_Admin_Properties
  imports User_Admin_Safety
begin

text \<open>
  The guarantees of the administration of users, with examples: an administrator remains, a
  deletion is complete or does nothing, a code is redeemed once, an API key identifies its owner
  until it is revoked, pruning does not unlock anybody.
\<close>

section \<open>What a deletion does to entries\<close>

text \<open>An entry's identifier, ciphertext, nonce and collection, and whether it is a personal entry of \<open>t\<close>.\<close>

definition kept_view :: "string \<Rightarrow> store \<Rightarrow> (string \<times> bytes \<times> bytes \<times> string option \<times> bool) list" where
  "kept_view t s = map (\<lambda>(i, r). (i, encrypted_value r, entry_nonce r, collection_id r, user_id r = t \<and> \<not> in_collection r)) (entries s)"

lemma kept_view_update:
  assumes "\<And>r. (i, r) \<in> set (entries s) \<Longrightarrow>
    (encrypted_value (f r), entry_nonce (f r), collection_id (f r), user_id (f r) = t \<and> \<not> in_collection (f r)) =
    (encrypted_value r, entry_nonce r, collection_id r, user_id r = t \<and> \<not> in_collection r)"
  shows "kept_view t (update_entry s i f) = kept_view t s"
proof -
  let ?g = "\<lambda>(i, r). (i, encrypted_value r, entry_nonce r, collection_id r, user_id r = t \<and> \<not> in_collection r)"
  have "?g (j, if j = i then f r else r) = ?g (j, r)" if "(j, r) \<in> set (entries s)" for j r
    using assms [of r] that by (cases "j = i") simp_all
  then show ?thesis by (auto simp: kept_view_def update_entry_def sql_update_def comp_def intro!: map_cong)
qed

lemma hard_purge_row_view: "hard_purge_row e uid row (s, n) = Some (s', n') \<Longrightarrow> kept_view t s' = kept_view t s"
proof -
  have "kept_view t (update_entry s i (\<lambda>r. r\<lparr>rotation_targets := x, updated_at := y\<rparr>)) = kept_view t s" for i x y
    by (rule kept_view_update) (simp add: in_collection_def)
  then show "hard_purge_row e uid row (s, n) = Some (s', n') \<Longrightarrow> kept_view t s' = kept_view t s"
    by (auto simp: hard_purge_row_def SetRotationTargets_def Let_def dest!: exec_frame split: prod.splits option.splits sum.splits if_splits)
qed

definition all_shared :: "store \<Rightarrow> string \<Rightarrow> bool" where
  "all_shared s i \<longleftrightarrow> (\<forall>r. (i, r) \<in> set (entries s) \<longrightarrow> in_collection r)"

lemma all_shared_view:
  assumes "kept_view t s' = kept_view t s"
  shows "all_shared s' i = all_shared s i"
proof -
  have "all_shared x i \<longleftrightarrow> (\<forall>y \<in> set (kept_view t x). fst y = i \<longrightarrow> fst (snd (snd (snd y))) \<noteq> None \<and> fst (snd (snd (snd y))) \<noteq> Some [])" for x
    by (auto simp: all_shared_def kept_view_def in_collection_def)
  then show ?thesis using assms by simp
qed

lemma transfer_entry_view:
  assumes "transfer_entry e own i nb why s = Inr s'" "all_shared s i"
  shows "kept_view t s' = kept_view t s"
proof -
  have "kept_view t (update_entry s i (\<lambda>r. r\<lparr>user_id := own, secret_owner_user_id := own, name_bidx := nb, updated_at := y\<rparr>)) = kept_view t s" for y
    using assms(2) by (intro kept_view_update) (auto simp: all_shared_def in_collection_def)
  then show ?thesis
    using assms(1) by (auto simp: transfer_entry_def constrained_def TransferSecretOwnership_def dest!: exec_frame split: option.splits sum.splits if_splits)
qed

lemma rename_view: "UpdateVaultEntryName tm nm nb i s = Inr s' \<Longrightarrow> kept_view t s' = kept_view t s"
proof -
  have "kept_view t (update_entry s i (\<lambda>r. r\<lparr>entry_name := nm, name_bidx := nb, updated_at := tm\<rparr>)) = kept_view t s"
    by (rule kept_view_update) (simp add: in_collection_def)
  then show "UpdateVaultEntryName tm nm nb i s = Inr s' \<Longrightarrow> kept_view t s' = kept_view t s"
    by (auto simp: UpdateVaultEntryName_def constrained_def dest!: exec_frame split: sum.splits if_splits)
qed

lemma reassign_row_view:
  assumes "reassign_row e addr own (i, nm, c) (s, n) = Some (s', n')" "all_shared s i"
  shows "kept_view t s' = kept_view t s"
proof -
  obtain plain where p: "open_column e nm vaultFieldName = Inr plain"
    using assms(1) by (cases "open_column e nm vaultFieldName") (auto simp: reassign_row_def)
  let ?ix = "scopedNameBlindIndex (mac_of e) (keys_of e) (bidxScope own c)"
  let ?move = "\<lambda>nm why. transfer_entry e own i (?ix nm) why"
  consider why where "?move plain why s = Inr s'"
    | nm' nb s1 nm2 why where "UpdateVaultEntryName (tick e) nm' nb i s = Inr s1" "?move nm2 why s1 = Inr s'"
    using assms(1) p by (fastforce simp: reassign_row_def Let_def split: option.splits sum.splits write_error.splits)
  then show ?thesis
  proof cases
    case 1
    then show ?thesis using transfer_entry_view assms(2) by blast
  next
    case 2
    have "kept_view t s1 = kept_view t s" by (rule rename_view [OF 2(1)])
    then show ?thesis using transfer_entry_view [OF 2(2)] all_shared_view assms(2) by metis
  qed
qed

lemma reassign_rows_view:
  assumes "each_row (reassign_row e addr own) rows (s, n) = Some (s', n')" "\<forall>row \<in> set rows. all_shared s (fst row)"
  shows "kept_view t s' = kept_view t s"
  using assms
proof (induction rows arbitrary: s n)
  case (Cons row rows)
  then obtain s1 n1 where step: "reassign_row e addr own row (s, n) = Some (s1, n1)" "each_row (reassign_row e addr own) rows (s1, n1) = Some (s', n')"
    by (auto split: option.splits)
  have first: "kept_view t s1 = kept_view t s" for t
    using reassign_row_view [of e addr own "fst row" "fst (snd row)" "snd (snd row)"] step(1) Cons.prems(2) by simp
  have "kept_view t s' = kept_view t s1" using Cons.IH [OF step(2)] Cons.prems(2) all_shared_view [OF first] by simp
  then show ?case using first by simp
qed simp

lemma purge_rows_view: "each_row (hard_purge_row e uid) rows (s, n) = Some (s', n') \<Longrightarrow> kept_view t s' = kept_view t s"
proof (induction rows arbitrary: s n)
  case (Cons row rows)
  then obtain s1 n1 where "hard_purge_row e uid row (s, n) = Some (s1, n1)" "each_row (hard_purge_row e uid) rows (s1, n1) = Some (s', n')"
    by (auto split: option.splits)
  then show ?case using hard_purge_row_view [of e uid row s n s1 n1] Cons.IH by simp
qed simp

lemma kept_view_keys: "map fst (kept_view t s) = map fst (entries s)"
  by (simp add: kept_view_def case_prod_unfold)

lemma kept_view_eq: "kept_view t s' = kept_view t s \<Longrightarrow>
  map (\<lambda>(i, r). (i, encrypted_value r, entry_nonce r, collection_id r)) (filter (\<lambda>(_, r). \<not> (user_id r = t \<and> \<not> in_collection r)) (entries s')) =
  map (\<lambda>(i, r). (i, encrypted_value r, entry_nonce r, collection_id r)) (filter (\<lambda>(_, r). \<not> (user_id r = t \<and> \<not> in_collection r)) (entries s))"
proof -
  let ?g = "map (\<lambda>(i, v, n, c, _). (i, v, n, c)) \<circ> filter (\<lambda>(_, _, _, _, p). \<not> p)"
  have "map (\<lambda>(i, r). (i, encrypted_value r, entry_nonce r, collection_id r)) (filter (\<lambda>(_, r). \<not> (user_id r = t \<and> \<not> in_collection r)) (entries x)) = ?g (kept_view t x)" for x
    by (simp add: kept_view_def filter_map comp_def case_prod_unfold)
  then show "kept_view t s' = kept_view t s \<Longrightarrow> ?thesis" by simp
qed

text \<open>The entries after the cleanup are those before it without the personal ones of the user, with their ciphertexts.\<close>

lemma cleanup_keeps_entries:
  assumes "hardDeleteCleanup e t addr own db = Some (d, sm)" "distinct (map fst (entries (base db)))"
  shows "map (\<lambda>(i, r). (i, encrypted_value r, entry_nonce r, collection_id r)) (entries (base d)) =
    map (\<lambda>(i, r). (i, encrypted_value r, entry_nonce r, collection_id r)) (filter (\<lambda>(_, r). \<not> (user_id r = t \<and> \<not> in_collection r)) (entries (base db)))"
proof -
  obtain db1 n s2 c s3 m where c: "revoke_for_delete e t db = Some (db1, n)" "purgeTargetsForHardDelete e t (base db1) = Some (s2, c)"
    "reassignCollectionEntriesForHardDelete e t addr own s2 = Some (s3, m)"
    "d = db1\<lparr>base := s3\<lparr>entries := filter (\<lambda>(_, r). \<not> (user_id r = t \<and> \<not> in_collection r)) (entries s3)\<rparr>\<rparr>"
    "only_entries (base db1) s2" "only_entries s2 s3"
    using cleanup_rows [OF assms(1)] .
  have v2: "kept_view t s2 = kept_view t (base db)"
    using c(2) purge_rows_view revoke_for_delete_effect(2) [OF c(1)] by (auto simp: purgeTargetsForHardDelete_def kept_view_def split: option.splits)
  have keys: "distinct (map fst (entries s2))" using assms(2) v2 kept_view_keys by metis
  have shared: "all_shared s2 i" if "(i, r) \<in> set (entries s2)" "in_collection r" for i r
    using that keys by (auto simp: all_shared_def dest: eq_key_imp_eq_value)
  have "kept_view t s3 = kept_view t s2"
    using c(3) by (auto simp: reassignCollectionEntriesForHardDelete_def ListCollectionVaultEntriesForUser_def
        intro!: reassign_rows_view intro: shared split: option.splits fetched.splits if_splits)
  then show ?thesis using kept_view_eq [of t s3 "base db"] v2 c(4) by simp
qed

section \<open>Properties\<close>

lemma user_view_lookup: "map_of (user_view s) i = map_option (\<lambda>u. (email u, role u, disabled u)) (map_of (users s) i)"
proof -
  have "map_of (map (\<lambda>(i, u). (i, email u, role u, disabled u)) us) i = map_option (\<lambda>u. (email u, role u, disabled u)) (map_of us i)" for us
    by (induction us) auto
  then show ?thesis by (simp add: user_view_def)
qed

lemma reassign_needs_admin:
  assumes "reassignCollectionEntriesForHardDelete e t addr own s = Some x"
  shows "\<exists>a. map_of (users s) own = Some a \<and> role a = RoleAdmin \<and> disabled a = 0"
  using assms by (auto simp: reassignCollectionEntriesForHardDelete_def query_defs fetch_Row split: option.splits fetched.splits if_splits)

lemma cleanup_needs_admin:
  assumes "hardDeleteCleanup e t addr own db = Some (d, sm)"
  shows "\<exists>a. map_of (users (base db)) own = Some a \<and> role a = RoleAdmin \<and> disabled a = 0"
proof -
  obtain db1 n s2 c s3 m where c: "revoke_for_delete e t db = Some (db1, n)" "purgeTargetsForHardDelete e t (base db1) = Some (s2, c)"
    "reassignCollectionEntriesForHardDelete e t addr own s2 = Some (s3, m)"
    "d = db1\<lparr>base := s3\<lparr>entries := filter (\<lambda>(_, r). \<not> (user_id r = t \<and> \<not> in_collection r)) (entries s3)\<rparr>\<rparr>"
    "only_entries (base db1) s2" "only_entries s2 s3"
    using cleanup_rows [OF assms] .
  obtain a where a: "map_of (users s2) own = Some a" "role a = RoleAdmin" "disabled a = 0" using reassign_needs_admin [OF c(3)] by blast
  have "map_of (user_view (base db)) own = Some (email a, role a, disabled a)"
    using a only_entries_fields(1) [OF c(5)] user_view_lookup [of "base db1" own] revoke_for_delete_effect(1) [OF c(1)] by simp
  then show ?thesis using a by (auto simp: user_view_lookup)
qed

lemma cascade_removes:
  "map_of (users (store_of (cascade t db))) t = None" "map_of (accounts (acc (cascade t db))) t = None"
  "\<forall>(_, x) \<in> set (sessions (store_of (cascade t db))). session_user_id x \<noteq> t"
  "\<forall>(_, k) \<in> set (api_keys (store_of (cascade t db))). key_user_id k \<noteq> t"
  "\<forall>((_, u), _) \<in> set (members (store_of (cascade t db))). u \<noteq> t"
  "entries (store_of (cascade t db)) = entries (store_of db)" "identities (acc (cascade t db)) = identities (acc db)"
  by (auto simp: cascade_def Let_def)

lemma verified_entries:
  assumes "verifyHardDeleteCleanup e t d"
  shows "\<forall>(_, x) \<in> set (entries (base d)). user_id x \<noteq> t \<and>
       (has_targets x \<longrightarrow> (\<exists>ts. strict_targets e (the (rotation_targets x)) = Some ts \<and> (\<forall>tg \<in> set ts. ConfiguredBy tg \<noteq> t)))"
  using assms by (fastforce simp: verifyHardDeleteCleanup_def ListAllVaultEntryTargets_def list_ex_iff list_all_iff split: if_splits option.splits)

text \<open>
  C10. The instance stays governed: after any sequence of calls of the administration, redemptions
  interleaved with other calls included, there is an enabled administrator, no two users share
  an identifier or an address, every role is one of the three, and no two invitations share the
  hash of a code.
\<close>

theorem admin_remains:
  assumes "governed_db db"
  shows "admin_count (store_of (fold serve_admin calls db)) > 0 \<and>
    distinct (map fst (users (store_of (fold serve_admin calls db)))) \<and>
    distinct (map (\<lambda>(_, u). email u) (users (store_of (fold serve_admin calls db)))) \<and>
    (\<forall>(_, u) \<in> set (users (store_of (fold serve_admin calls db))). role u \<in> set validRoles) \<and>
    distinct (map (\<lambda>(_, i). inv_code_hash i) (invites (fold serve_admin calls db)))"
  using administration.run_inv [OF assms, of calls]
  by (auto simp: governed_db_def governed_def admin_count_view wf_users_def wf_invites_def user_view_def case_prod_unfold comp_def list_all_iff)

text \<open>
  C11. A deletion is complete or does nothing.  It is refused and nothing has changed, or the caller is
  another user, an enabled administrator, on the private listener if one is configured, and
  nothing of the user is left: no account, session, API key or membership, no live service
  identity, no entry, and no rotation target that the user configured on anyone's entry.
  Every entry but the user's personal ones is still there with its ciphertext.
\<close>

theorem delete_leaves_nothing:
  assumes run: "Delete_user e t r w db = (ans, db')" and keys: "distinct (map fst (entries (store_of db)))"
  shows "(\<exists>resp. ans = Refusal resp) \<and> db' = db \<or>
    ans = NoContent (no_content w) \<and> t \<noteq> GetUserID r \<and> (IsPrivateIngressConfigured r \<longrightarrow> IsPrivateIngress r) \<and>
    (\<exists>a. map_of (users (store_of db)) (GetUserID r) = Some a \<and> role a = RoleAdmin \<and> disabled a = 0) \<and>
    map_of (users (store_of db')) t = None \<and> map_of (accounts (acc db')) t = None \<and>
    (\<forall>(_, x) \<in> set (sessions (store_of db')). session_user_id x \<noteq> t) \<and>
    (\<forall>(_, k) \<in> set (api_keys (store_of db')). key_user_id k \<noteq> t) \<and>
    (\<forall>((_, u), _) \<in> set (members (store_of db')). u \<noteq> t) \<and>
    (\<forall>(_, x) \<in> set (identities (acc db')). \<not> live_identity t x) \<and>
    (\<forall>(_, x) \<in> set (entries (store_of db')). user_id x \<noteq> t \<and>
       (has_targets x \<longrightarrow> (\<exists>ts. strict_targets e (the (rotation_targets x)) = Some ts \<and> (\<forall>tg \<in> set ts. ConfiguredBy tg \<noteq> t)))) \<and>
    map (\<lambda>(i, x). (i, encrypted_value x, entry_nonce x, collection_id x)) (entries (store_of db')) =
    map (\<lambda>(i, x). (i, encrypted_value x, entry_nonce x, collection_id x))
      (filter (\<lambda>(_, x). \<not> (user_id x = t \<and> \<not> in_collection x)) (entries (store_of db)))"
proof -
  consider (refused) resp where "ans = Refusal resp" "db' = db"
    | (gone) x sm where "requireConfiguredPrivateControlPlaneIngress w r = None" "t \<noteq> GetUserID r" "delete_user_tx e t r w db = Inr (x, sm)"
        "ans = NoContent (no_content w)" "db' = log_admin e r ''admin.user_deleted'' (logHardDeleteSummary e r sm x)"
    using run by (auto simp: Delete_user_def split: option.splits sum.splits if_splits)
  then show ?thesis
  proof cases
    case gone
    obtain u d u' where d: "map_of (users (store_of db)) t = Some u" "hardDeleteCleanup e t (email u) (GetUserID r) (acc db) = Some (d, sm)"
      "verifyHardDeleteCleanup e t d" "map_of (users (base d)) t = Some u'" "role u' \<noteq> ''admin'' \<or> disabled u' = 1 \<or> admin_count (base d) > 1"
      "IsPrivateIngress r \<or> \<not> protected_impact (base d) t" "x = cascade t (db\<lparr>acc := d\<rparr>)"
      using delete_user_tx_Inr [OF gone(3)] .
    have "IsPrivateIngressConfigured r \<longrightarrow> IsPrivateIngress r"
      using gone(1) by (simp add: requireConfiguredPrivateControlPlaneIngress_def split: if_splits)
    then show ?thesis
      using gone(2,4,5) d(7) cleanup_needs_admin [OF d(2)] cascade_removes(1-5) [of t "db\<lparr>acc := d\<rparr>"] cascade_removes(6,7) [of t "db\<lparr>acc := d\<rparr>"]
        cleanup_users(5) [OF d(2)] verified_entries [OF d(3)] cleanup_keeps_entries [OF d(2) keys] by simp
  qed simp
qed

lemma Redeemed_cases:
  assumes "RedeemInvitation e meanwhile (Some (typed, password)) r w db = (Redeemed uid addr nm rl, db')"
  obtains hash db1 seen db2 where "ExpireStaleInvitations (tick e) db = Some db1"
    "GetPendingInvitationByCode (tick e) db1 (code_hash_of e typed) = Row seen" "nm = inv_name (snd seen)"
    "redeem_tx e (code_hash_of e typed) password hash seen r w (meanwhile db1) = Inr db2"
    "uid = new_user_id (signin e)" "addr = inv_email (snd seen)" "rl = inv_role (snd seen)" "db' = log_admin e r ''invitation.redeemed'' db2"
  using assms that unfolding RedeemInvitation_def Let_def code_hash_of_def option.case prod.case
  by (auto split: option.splits fetched.splits sum.splits if_splits)

lemma spent_not_redeemed:
  assumes "governed_db db" "spent (code_hash_of e typed) (invites db)"
  shows "fst (RedeemInvitation e meanwhile (Some (typed, password)) r w db) \<noteq> Redeemed uid addr nm rl"
proof (rule RedeemInvitation_induct)
  fix typed' pw hash db1 seen db2
  assume x: "Some (typed, password) = Some (typed', pw)" "ExpireStaleInvitations (tick e) db = Some db1"
    "GetPendingInvitationByCode (tick e) db1 (code_hash_of e typed') = Row seen"
  then show "fst (Redeemed (new_user_id (signin e)) (inv_email (snd seen)) (inv_name (snd seen)) (inv_role (snd seen)),
      log_admin e r ''invitation.redeemed'' db2) \<noteq> Redeemed uid addr nm rl"
    using spent_not_pending [of db1] expire_spent [OF x(2)] expire_keeps(1) [OF x(2)] assms by (auto simp: governed_db_def)
qed simp_all

lemma redeem_tx_marks:
  assumes "redeem_tx e h pw hash seen r w db = Inr db'"
  shows "\<exists>i. map_of (invites db') (fst seen) = Some i \<and> inv_status i = ''redeemed'' \<and> inv_redeemed_by i = toNullString (new_user_id (signin e))"
proof -
  obtain db1 d and s :: "nat \<times> store" where mark: "MarkInvitationRedeemedIfPending (tick e) (toNullString (new_user_id (signin e))) (fst seen) h (db1\<lparr>acc := d\<lparr>base := snd s\<rparr>\<rparr>) = Some (db', Suc 0)"
    by (rule redeem_tx_Inr [OF assms], rule that)
  obtain i' where "map_of (invites db1) (fst seen) = Some i'"
    "db' = db1\<lparr>acc := d\<lparr>base := snd s\<rparr>, invites := sql_update (fst seen) (\<lambda>i. i\<lparr>inv_status := ''redeemed'', inv_redeemed_by := toNullString (new_user_id (signin e))\<rparr>) (invites db1)\<rparr>"
    using mark by (rule mark_effect) auto
  then show ?thesis by simp
qed

lemma pending_invitation_row:
  assumes "ExpireStaleInvitations t db = Some db1" "GetPendingInvitationByCode t db1 h = Row seen"
  shows "seen \<in> set (invites db) \<and> inv_code_hash (snd seen) = h \<and> inv_status (snd seen) = ''pending'' \<and> t \<le> inv_expires_at (snd seen)"
  using assms
  by (auto simp: GetPendingInvitationByCode_def row_simps ExpireStaleInvitations_def invite_open_def dest!: find_SomeD split: if_splits)

text \<open>
  C12. An invitation is redeemed at most once.  A redemption that succeeds, whatever calls completed while it hashed
  the password, rests on an invitation of the database with the hash of the submitted code that is pending and not
  expired: the answer names its address, name and role, it is marked as redeemed by the new user, and the users
  are those of the moment of the transaction with one enabled account added, of the invitation's address
  and role, an administrator only over the private listener if one is configured; and no later
  call redeems a code with the same hash, after any sequence of calls.
\<close>

theorem invitation_once:
  assumes run: "RedeemInvitation e (fold serve_admin others) (Some (typed, password)) r w db = (Redeemed uid addr nm rl, db')"
    and governed: "governed_db db"
    and again: "code_hash_of e' typed' = code_hash_of e typed"
  shows "(\<exists>iid i i'. (iid, i) \<in> set (invites db) \<and> inv_code_hash i = code_hash_of e typed \<and> inv_status i = ''pending'' \<and>
       tick e \<le> inv_expires_at i \<and> addr = inv_email i \<and> nm = inv_name i \<and> rl = inv_role i \<and>
       map_of (invites db') iid = Some i' \<and> inv_status i' = ''redeemed'' \<and> inv_redeemed_by i' = toNullString uid) \<and>
    (\<exists>db1. ExpireStaleInvitations (tick e) db = Some db1 \<and>
       user_view (store_of db') = user_view (store_of (fold serve_admin others db1)) @ [(uid, Canonical (mail_of (signin e)) addr, rl, 0)]) \<and>
    (rl = RoleAdmin \<longrightarrow> IsPrivateIngressConfigured r \<longrightarrow> IsPrivateIngress r) \<and>
    fst (RedeemInvitation e' (fold serve_admin others') (Some (typed', password')) r' w' (fold serve_admin calls db')) \<noteq> Redeemed uid' addr' nm' rl'"
proof -
  obtain hash db1 seen db2 where s: "ExpireStaleInvitations (tick e) db = Some db1"
      "GetPendingInvitationByCode (tick e) db1 (code_hash_of e typed) = Row seen" "nm = inv_name (snd seen)"
      "redeem_tx e (code_hash_of e typed) password hash seen r w (fold serve_admin others db1) = Inr db2"
      "uid = new_user_id (signin e)" "addr = inv_email (snd seen)" "rl = inv_role (snd seen)" "db' = log_admin e r ''invitation.redeemed'' db2"
    using Redeemed_cases [OF run] .
  have g1: "governed_db (fold serve_admin others db1)"
    using administration.run_inv [of db1 others] lawful_expire [OF s(1)] governed by (simp add: lawful_def)
  note effect = redeem_tx_effect [OF g1 s(4)]
  have invites': "invites db' = invites db2" using s(8) by simp
  have "governed_db db'" "spent (code_hash_of e typed) (invites db')" using effect(1,3) s(8) by (simp_all add: governed_db_def)
  then have after: "governed_db (fold serve_admin calls db')" "spent (code_hash_of e' typed') (invites (fold serve_admin calls db'))"
    using administration.run_inv codes.run_stable again by simp_all
  have once: "fst (RedeemInvitation e' (fold serve_admin others') (Some (typed', password')) r' w' (fold serve_admin calls db')) \<noteq> Redeemed uid' addr' nm' rl'"
    by (rule spent_not_redeemed [OF after])
  obtain i' where i': "map_of (invites db') (fst seen) = Some i'" "inv_status i' = ''redeemed''" "inv_redeemed_by i' = toNullString uid"
    using redeem_tx_marks [OF s(4)] invites' s(5) by auto
  have row: "(fst seen, snd seen) \<in> set (invites db)" "inv_code_hash (snd seen) = code_hash_of e typed" "inv_status (snd seen) = ''pending''"
      "tick e \<le> inv_expires_at (snd seen)" using pending_invitation_row [OF s(1,2)] by simp_all
  have view: "user_view (store_of db') = user_view (store_of (fold serve_admin others db1)) @ [(uid, Canonical (mail_of (signin e)) addr, rl, 0)]"
    using effect(4) s(5-8) by simp
  have gate: "rl = RoleAdmin \<longrightarrow> IsPrivateIngressConfigured r \<longrightarrow> IsPrivateIngress r"
    using effect(5) s(7) by (auto simp: admin_gate_def requireConfiguredPrivateControlPlaneIngress_def split: if_splits)
  show ?thesis using row i' s(1,3,6,7) view gate once by blast
qed

lemma new_key_stored:
  assumes "Create_key e (Some (label, days)) r w db = (NewKey kid label' key expires, db')"
    and "hex_encode (sha256_of e key) \<notin> fst ` set (api_keys (store_of db))"
  shows "map_of (api_keys (store_of db')) (hex_encode (sha256_of e key)) =
      Some \<lparr>key_user_id = GetUserID r, key_expires_at = expires, key_revoked_at = None, key_last_used_at = None\<rparr>"
    "\<exists>info. map_of (key_infos db') kid = Some info \<and> ki_hash info = hex_encode (sha256_of e key)"
    "users (store_of db') = users (store_of db)" "fails (store_of db') = fails (store_of db)"
    "expires = (if days > 0 then Some (tick e + days * 86400) else None)"
  using assms by (auto simp: Create_key_def CreateAPIKeyForUser_def Let_def map_of_append_new simp del: map_of_append split: if_splits option.splits)

lemma revoked_key:
  assumes "RevokeAPIKey t0 kid uid db = Some (db', n)" "n \<noteq> 0" "map_of (key_infos db) kid = Some info" "ki_hash info = hex_encode (digest key)"
  shows "\<exists>resp. fst (authenticate_key digest t key q w (store_of db')) = Inl resp"
proof -
  obtain k where "map_of (api_keys (store_of db')) (hex_encode (digest key)) = Some k" "key_revoked_at k \<noteq> None"
    using assms by (auto simp: RevokeAPIKey_def key_of_def split: if_splits option.splits)
  then show ?thesis by (auto simp: authenticate_key_def Let_def fetch_def)
qed

lemma deleted_key:
  assumes "DeleteAPIKey kid uid db = Some (db', n)" "n \<noteq> 0" "map_of (key_infos db) kid = Some info" "ki_hash info = hex_encode (digest key)"
  shows "\<exists>resp. fst (authenticate_key digest t key q w (store_of db')) = Inl resp"
proof -
  have "map_of (api_keys (store_of db')) (hex_encode (digest key)) = None"
    using assms by (auto simp: DeleteAPIKey_def key_of_def split: if_splits option.splits)
  then show ?thesis by (auto simp: authenticate_key_def Let_def fetch_def)
qed

text \<open>
  C29. A new API key works for its owner and for nobody else: presented to the middleware it gives the creator's
  identifier, the kind of an API key and the creator's current role, until it expires; once
  it is revoked or deleted it is refused.
\<close>

theorem api_key_roundtrip:
  assumes create: "Create_key e (Some (label, days)) r w db = (NewKey kid label' key expires, db')"
    and fresh: "hex_encode (sha256_of e key) \<notin> fst ` set (api_keys (store_of db))"
    and owner: "map_of (users (store_of db)) (GetUserID r) = Some u" "disabled u = 0"
    and lookup: "\<not> fails (store_of db) ''api_keys''" "\<not> fails (store_of db) ''enrichUserContext''"
  shows "((days > 0 \<longrightarrow> t < tick e + days * 86400) \<longrightarrow>
       fst (authenticate_key (sha256_of e) t key q w' (store_of db')) =
         Inr (q\<lparr>user_id_value := Some (GetUserID r), principal_kind_value := Some PrincipalAPIKey, user_role_value := Some (role u)\<rparr>)) \<and>
    (days > 0 \<and> t \<ge> tick e + days * 86400 \<longrightarrow> (\<exists>resp. fst (authenticate_key (sha256_of e) t key q w' (store_of db')) = Inl resp)) \<and>
    (AdminRevoke e2 (GetUserID r) kid r2 w2 db' = (NoContent resp2, db2) \<longrightarrow> (\<exists>resp. fst (authenticate_key (sha256_of e) t key q w' (store_of db2)) = Inl resp)) \<and>
    (Delete_key e3 kid r w3 db' = (NoContent resp3, db3) \<longrightarrow> (\<exists>resp. fst (authenticate_key (sha256_of e) t key q w' (store_of db3)) = Inl resp))"
proof -
  note key = new_key_stored [OF create fresh]
  obtain info where info: "map_of (key_infos db') kid = Some info" "ki_hash info = hex_encode (sha256_of e key)" using key(2) by blast
  have "enrichUserContext (store_of db'\<lparr>api_keys := ks\<rparr>) (GetUserID r) = Inr (role u, sessions_valid_after u)"
    "enrichUserContext (store_of db') (GetUserID r) = Inr (role u, sessions_valid_after u)" for ks
    using owner lookup(2) key(3,4) by (simp_all add: enrichUserContext_def fetch_def)
  then have works: "(days > 0 \<longrightarrow> t < tick e + days * 86400) \<longrightarrow>
       fst (authenticate_key (sha256_of e) t key q w' (store_of db')) =
         Inr (q\<lparr>user_id_value := Some (GetUserID r), principal_kind_value := Some PrincipalAPIKey, user_role_value := Some (role u)\<rparr>)"
    using key(1,4,5) lookup(1) by (auto simp: authenticate_key_def Let_def fetch_def)
  have expired: "days > 0 \<and> t \<ge> tick e + days * 86400 \<longrightarrow> (\<exists>resp. fst (authenticate_key (sha256_of e) t key q w' (store_of db')) = Inl resp)"
    using key(1,5) by (auto simp: authenticate_key_def Let_def fetch_def)
  have revoked: "AdminRevoke e2 (GetUserID r) kid r2 w2 db' = (NoContent resp2, db2) \<longrightarrow>
      (\<exists>resp. fst (authenticate_key (sha256_of e) t key q w' (store_of db2)) = Inl resp)"
    using revoked_key [where digest = "sha256_of e" and key = key, OF _ _ info] by (auto simp: AdminRevoke_def split: if_splits option.splits)
  have "Delete_key e3 kid r w3 db' = (NoContent resp3, db3) \<longrightarrow> (\<exists>resp. fst (authenticate_key (sha256_of e) t key q w' (store_of db3)) = Inl resp)"
    using deleted_key [where digest = "sha256_of e" and key = key, OF _ _ info] by (auto simp: Delete_key_def split: if_splits option.splits)
  then show ?thesis using works expired revoked by blast
qed

text \<open>
  Pruning of login attempts changes no decision: the counters that lock an address or a client see the same
  number of failures before and after, at the time of the pruning and later.
\<close>

theorem prune_keeps_locks:
  assumes "PruneLoginAttempts t db = Some (db', n)" "t \<le> t'"
  shows "CountRecentFailedLoginAttemptsByEmailAndScope t' addr scope db' = CountRecentFailedLoginAttemptsByEmailAndScope t' addr scope db \<and>
    CountRecentFailedLoginAttemptsByIP t' ip db' = CountRecentFailedLoginAttemptsByIP t' ip db \<and>
    n + length (attempts db') = length (attempts db)"
proof -
  have old: "filter (\<lambda>a. P a \<and> recent_failure t' a) (filter (\<lambda>a. \<not> attempt_at a < t - LoginAttemptRetention div 60 * 60) as) =
      filter (\<lambda>a. P a \<and> recent_failure t' a) as" for P as
    using assms(2) by (auto simp: recent_failure_def LoginAttemptRetention_def intro!: filter_cong)
  show ?thesis
    using assms(1) old [of "\<lambda>a. attempt_email a = addr \<and> attempt_scope a = scope"] old [of "\<lambda>a. attempt_ip a = ip"]
      sum_length_filter_compl [of "\<lambda>a. attempt_at a < t - LoginAttemptRetention div 60 * 60" "attempts db"]
    by (auto simp: PruneLoginAttempts_def Let_def CountRecentFailedLoginAttemptsByEmailAndScope_def CountRecentFailedLoginAttemptsByIP_def
        conj_assoc split: if_splits)
qed

section \<open>Examples\<close>

definition office_env :: admin_env where
  "office_env =
     \<lparr>signin = sample_env\<lparr>new_user_id := ''u3''\<rparr>, keys_of = \<lparr>current = \<lparr>key_source = ''k'', key_value = ''k'', key_legacy = ''l'', key_bidx = ''b''\<rparr>, previous = None\<rparr>,
      mac_of = (\<lambda>k m. k @ m), sha256_of = (\<lambda>b. b), parse_targets = (\<lambda>_. None), marshal_targets = (\<lambda>_. None),
      rnd_targets = (\<lambda>_. []), rnd_name = (\<lambda>_. []), rnd_invite = [], rnd_invite_seal = [], new_invite_id = ''i2'',
      rnd_key_id = ''0123456789abcdef'', rnd_key = ''0123456789abcdef0123456789abcdef'', upper_of = (\<lambda>s. s)\<rparr>"

definition office_db :: admin_db where
  "office_db =
     \<lparr>acc = \<lparr>base = empty_store
              \<lparr>users := [(''u1'', \<lparr>email = ''ann@x.io'', role = ''admin'', disabled = 0, sessions_valid_after = 0, totp_enabled = 0\<rparr>),
                         (''u2'', \<lparr>email = ''bob@x.io'', role = ''user'', disabled = 0, sessions_valid_after = 0, totp_enabled = 0\<rparr>)],
               entries := [(''e1'', blank_entry ''u1'' None), (''e2'', blank_entry ''u2'' None)]\<rparr>,
            accounts = [(''u1'', sample_account), (''u2'', sample_account)], attempts = [], identities = [], activity = []\<rparr>,
      invites = [(''i1'', \<lparr>inv_code = ''sealed'', inv_code_hash = ''434f4445'', inv_email = ''cyd@x.io'', inv_name = ''Cyd'', inv_status = ''pending'',
                          inv_role = ''user'', inv_created_by = Some ''u1'', inv_redeemed_by = None, inv_expires_at = 1000, inv_created_at = None\<rparr>)],
      key_infos = []\<rparr>"

definition ann :: request where
  "ann = sample_request\<lparr>user_id_value := Some ''u1'', user_role_value := Some ''admin'', principal_kind_value := Some PrincipalSession\<rparr>"

lemma ann_id [simp]: "GetUserID ann = ''u1''" "IsPrivateIngressConfigured ann = False" "IsPrivateIngress ann = False"
    "privateIngressSQLFlag ann = 0" "PrincipalKind ann = PrincipalSession"
  by code_simp+

lemma office_governed: "governed_db office_db"
  by (simp add: governed_db_def governed_def wf_users_def wf_invites_def user_view_def office_db_def empty_store_def admins_in_def validRoles_def)

theorem admin_remains_witness:
  "admin_count (store_of (fold serve_admin [CallUpdateUser office_env ''u1'' (Some \<lparr>update_name = None, update_role = Some ''user'', update_disabled = None\<rparr>)
      (ann\<lparr>user_id_value := Some ''u2''\<rparr>) (\<lambda>_. [])] office_db)) > 0"
  using admin_remains [OF office_governed] by blast

lemma office_db_sel [simp]:
  "fails (store_of office_db) = (\<lambda>_. False)" "settings (store_of office_db) = []" "vault_wired (signin office_env)"
  "tick office_env = 50" "new_user_id (signin office_env) = ''u3''" "mail_of (signin office_env) = ascii_lib"
  by (simp_all add: office_db_def empty_store_def office_env_def sample_env_def sample_deps_def)

theorem delete_leaves_nothing_witness:
  "\<exists>db'. Delete_user office_env ''u2'' ann (\<lambda>_. []) office_db = (NoContent (no_content (\<lambda>_. [])), db') \<and>
     map_of (users (store_of db')) ''u2'' = None \<and> map fst (entries (store_of db')) = [''e1'']"
proof -
  obtain ans db' where run: "Delete_user office_env ''u2'' ann (\<lambda>_. []) office_db = (ans, db')" by fastforce
  have "ans = NoContent (no_content (\<lambda>_. []))"
    using run by (simp add: Delete_user_def requireConfiguredPrivateControlPlaneIngress_def delete_user_tx_def query_defs fetch_def
        UserHasProtectedCollectionImpact_def protected_impact_def hardDeleteCleanup_def revoke_for_delete_def InvalidateUserSessions_def update_user_def
        RevokeUserSessions_def RevokeAPIKeysByUser_def ListServiceIdentitiesByUser_def purgeTargetsForHardDelete_def ListAllVaultEntryTargets_def
        has_targets_def reassignCollectionEntriesForHardDelete_def ListCollectionVaultEntriesForUser_def in_collection_def RoleAdmin_def
        DeletePersonalVaultEntriesForUser_def verifyHardDeleteCleanup_def DeleteUserIfNotLastAdmin_def office_db_def empty_store_def sql_update_def Let_def)
  then show ?thesis
    using run delete_leaves_nothing [OF run]
    by (auto simp: office_db_def empty_store_def in_collection_def comp_def case_prod_unfold dest!: arg_cong [where f = "map fst"])
qed

text \<open>The code of the example is \<open>CODE\<close>; the hash of the example's environment is the identity.\<close>

lemma office_hash: "code_hash_of office_env ''CODE'' = ''434f4445''"
  by code_simp


lemma office_redeem:
  "\<exists>db'. RedeemInvitation office_env (fold serve_admin []) (Some (''CODE'', ''battery staple'')) sample_request (\<lambda>_. []) office_db =
     (Redeemed ''u3'' ''cyd@x.io'' ''Cyd'' ''user'', db')"
proof -
  let ?i = "snd (hd (invites office_db))"
  have expire: "ExpireStaleInvitations 50 office_db = Some office_db" by (simp add: ExpireStaleInvitations_def office_db_def empty_store_def)
  have pending_row: "GetPendingInvitationByCode 50 office_db ''434f4445'' = Row (''i1'', ?i)" "inv_role ?i = ''user''" "inv_email ?i = ''cyd@x.io''" "inv_name ?i = ''Cyd''"
    by (simp_all add: GetPendingInvitationByCode_def fetch_def office_db_def empty_store_def invite_open_def)
  have policy: "validatePasswordWithPolicy (acc office_db) ''battery staple'' = None"
    by (simp add: validatePasswordWithPolicy_def validatePassword_def settingInt_def GetSetting_def fetch_def defaultMinPasswordLength_def minPasswordLengthFloor_def)
  have canon: "Canonical ascii_lib ''cyd@x.io'' = ''cyd@x.io''" by code_simp
  obtain h where h: "Hash (hash_of (signin office_env)) (slot_free (signin office_env) 0) (rnd_salt (signin office_env)) ''battery staple'' = Inr h"
    by (simp add: Hash_def read_full_def argonSaltLen_def Let_def office_env_def sample_env_def)
  have code: "trim_space (upper_of office_env ''CODE'') = ''CODE''" "hashInviteCode office_env ''CODE'' = ''434f4445''" by code_simp+
  have deps: "deps_of (signin office_env) = sample_deps" "email_lib sample_deps = ascii_lib" by (simp_all add: office_env_def sample_env_def sample_deps_def)
  have gate: "admin_gate False (\<lambda>_. []) sample_request = None" by (simp add: admin_gate_def)
  have free: "GetUserIDByEmailForInvite (store_of office_db) ''cyd@x.io'' = ErrNoRows"
    by (simp add: GetUserIDByEmailForInvite_def fetch_def office_db_def empty_store_def)
  obtain d where d: "CreateInvitedUser 50 ''u3'' ''cyd@x.io'' h (toNullString ''Cyd'') ''user'' (acc office_db) = Inr d"
      "fails (base d) = (\<lambda>_. False)" "invitations (base d) = []"
    by (simp add: CreateInvitedUser_def insert_user_def office_db_def empty_store_def)
  have claim: "claimCollectionInvitations sample_deps (base d) ''u3'' ''cyd@x.io'' = (True, 0, base d)"
    using d(2,3) by (simp add: claimCollectionInvitations_def)
  obtain db2 where mark: "MarkInvitationRedeemedIfPending 50 (toNullString ''u3'') ''i1'' ''434f4445'' (office_db\<lparr>acc := d\<lparr>base := base d\<rparr>\<rparr>) = Some (db2, Suc 0)"
    using d(2) by (simp add: MarkInvitationRedeemedIfPending_def invite_open_def office_db_def)
  have "\<exists>db2. redeem_tx office_env ''434f4445'' ''battery staple'' h (''i1'', ?i) sample_request (\<lambda>_. []) office_db = Inr db2"
    using expire pending_row policy canon gate free d(1) claim mark deps(1) by (simp add: redeem_tx_def Let_def RoleAdmin_def)
  then obtain db2 where "redeem_tx office_env ''434f4445'' ''battery staple'' h (''i1'', ?i) sample_request (\<lambda>_. []) office_db = Inr db2" by blast
  then show ?thesis
    using expire pending_row policy h code gate by (simp add: RedeemInvitation_def Let_def RoleAdmin_def)
qed

theorem invitation_once_witness:
  "\<exists>db'. RedeemInvitation office_env (fold serve_admin []) (Some (''CODE'', ''battery staple'')) sample_request (\<lambda>_. []) office_db =
       (Redeemed ''u3'' ''cyd@x.io'' ''Cyd'' ''user'', db') \<and>
     user_view (store_of db') = user_view (store_of office_db) @ [(''u3'', ''cyd@x.io'', ''user'', 0)] \<and>
     (\<forall>uid addr nm rl. fst (RedeemInvitation office_env (fold serve_admin []) (Some (''CODE'', ''battery staple'')) sample_request (\<lambda>_. [])
        (fold serve_admin [CallListInvitations office_env ann (\<lambda>_. [])] db')) \<noteq> Redeemed uid addr nm rl)"
proof -
  obtain db' where run: "RedeemInvitation office_env (fold serve_admin []) (Some (''CODE'', ''battery staple'')) sample_request (\<lambda>_. []) office_db =
       (Redeemed ''u3'' ''cyd@x.io'' ''Cyd'' ''user'', db')" using office_redeem by blast
  obtain db1 where "ExpireStaleInvitations (tick office_env) office_db = Some db1"
      "user_view (store_of db') = user_view (store_of (fold serve_admin [] db1)) @ [(''u3'', Canonical (mail_of (signin office_env)) ''cyd@x.io'', ''user'', 0)]"
    using invitation_once [OF run office_governed refl] by blast
  moreover have "Canonical (mail_of (signin office_env)) ''cyd@x.io'' = ''cyd@x.io''"
    by (simp add: office_env_def sample_env_def) code_simp
  ultimately have "user_view (store_of db') = user_view (store_of office_db) @ [(''u3'', ''cyd@x.io'', ''user'', 0)]"
    by (auto simp: ExpireStaleInvitations_def split: if_splits)
  then show ?thesis using invitation_once [OF run office_governed refl] run by blast
qed

theorem api_key_roundtrip_witness:
  "\<exists>kid key db'. Create_key office_env (Some (''ci'', 1)) ann (\<lambda>_. []) office_db = (NewKey kid ''ci'' key (Some 86450), db') \<and>
     fst (authenticate_key (\<lambda>b. b) 86449 key sample_request (\<lambda>_. []) (store_of db')) =
       Inr (sample_request\<lparr>user_id_value := Some ''u1'', principal_kind_value := Some PrincipalAPIKey, user_role_value := Some ''admin''\<rparr>) \<and>
     (\<exists>resp. fst (authenticate_key (\<lambda>b. b) 86450 key sample_request (\<lambda>_. []) (store_of db')) = Inl resp)"
proof -
  obtain kid key db' where run: "Create_key office_env (Some (''ci'', 1)) ann (\<lambda>_. []) office_db = (NewKey kid ''ci'' key (Some 86450), db')"
    by (simp add: Create_key_def Let_def read_full_def CreateAPIKeyForUser_def office_env_def sample_env_def sample_deps_def)
      (simp add: office_db_def empty_store_def)
  have fresh: "hex_encode (sha256_of office_env key) \<notin> fst ` set (api_keys (store_of office_db))" by (simp add: office_db_def empty_store_def)
  have owner: "map_of (users (store_of office_db)) (GetUserID ann) =
      Some \<lparr>email = ''ann@x.io'', role = ''admin'', disabled = 0, sessions_valid_after = 0, totp_enabled = 0\<rparr>"
    by (simp add: office_db_def)
  have sha: "sha256_of office_env = (\<lambda>b. b)" by (simp add: office_env_def)
  show ?thesis
    using run api_key_roundtrip [OF run fresh owner, of 86449 sample_request "\<lambda>_. []"] api_key_roundtrip [OF run fresh owner, of 86450 sample_request "\<lambda>_. []"]
    by (simp add: sha)
qed

definition attempts_db :: account_db where
  "attempts_db = sample_db\<lparr>attempts :=
     [\<lparr>attempt_email = ''ann@x.io'', attempt_ip = ''192.0.2.1'', attempt_success = 0, attempt_scope = LoginAttemptScopePasswordLogin, attempt_at = 10\<rparr>,
      \<lparr>attempt_email = ''ann@x.io'', attempt_ip = ''192.0.2.1'', attempt_success = 0, attempt_scope = LoginAttemptScopePasswordLogin, attempt_at = 100000\<rparr>]\<rparr>"

theorem prune_keeps_locks_witness:
  "\<exists>db'. PruneLoginAttempts 100100 attempts_db = Some (db', 1) \<and>
     CountRecentFailedLoginAttemptsByIP 100200 ''192.0.2.1'' db' = CountRecentFailedLoginAttemptsByIP 100200 ''192.0.2.1'' attempts_db"
proof -
  obtain db' where run: "PruneLoginAttempts 100100 attempts_db = Some (db', Suc 0)"
    by (simp add: PruneLoginAttempts_def attempts_db_def sample_db_def empty_store_def LoginAttemptRetention_def Let_def)
  show ?thesis using run prune_keeps_locks [OF run, of 100200 _ _ "''192.0.2.1''"] by simp
qed

end
