(* ===== verification/Attempt.thy ===== *)
theory Attempt
  imports Store
begin

text \<open>
  Handlers of the vault return at the first failure.  Their bodies are written with \<open>attempt\<close>, which runs
  the rest with the result of a step or ends with its error, and with the steps below; the lemmas
  say what a body that ran to its end has passed.
\<close>

definition attempt :: "'e + 'a \<Rightarrow> ('a \<Rightarrow> 'e + 'b) \<Rightarrow> 'e + 'b" where
  "attempt m f = (case m of Inl e \<Rightarrow> Inl e | Inr x \<Rightarrow> f x)"

lemma attempt_simps [simp]: "attempt (Inl e) f = Inl e" "attempt (Inr x) f = f x"
  by (simp_all add: attempt_def)

lemma attempt_Inr: "attempt m f = Inr y \<longleftrightarrow> (\<exists>x. m = Inr x \<and> f x = Inr y)"
  by (cases m) simp_all

lemma attempt_Inl: "attempt m f = Inl e \<longleftrightarrow> m = Inl e \<or> (\<exists>x. m = Inr x \<and> f x = Inl e)"
  by (cases m) simp_all

text \<open>A condition, a value that may be missing, a guard that answers, a query, a step with errors of its own.\<close>

definition ensure :: "bool \<Rightarrow> 'e \<Rightarrow> 'e + unit" where
  "ensure c e = (if c then Inr () else Inl e)"

definition present :: "'a option \<Rightarrow> 'e \<Rightarrow> 'e + 'a" where
  "present m e = (case m of None \<Rightarrow> Inl e | Some x \<Rightarrow> Inr x)"

definition passed :: "'e option \<Rightarrow> 'e + unit" where
  "passed m = (case m of None \<Rightarrow> Inr () | Some e \<Rightarrow> Inl e)"

definition row_or :: "'e \<Rightarrow> 'e \<Rightarrow> 'a fetched \<Rightarrow> 'e + 'a" where
  "row_or missing failed f = (case f of Row x \<Rightarrow> Inr x | ErrNoRows \<Rightarrow> Inl missing | DBError \<Rightarrow> Inl failed)"

definition relabel :: "('x \<Rightarrow> 'e) \<Rightarrow> 'x + 'a \<Rightarrow> 'e + 'a" where
  "relabel g m = (case m of Inl x \<Rightarrow> Inl (g x) | Inr y \<Rightarrow> Inr y)"

lemma ensure_Inr: "ensure c e = Inr u \<longleftrightarrow> c"
  by (simp add: ensure_def)

lemma present_Inr: "present m e = Inr x \<longleftrightarrow> m = Some x"
  by (simp add: present_def split: option.split)

lemma passed_Inr: "passed m = Inr u \<longleftrightarrow> m = None"
  by (simp add: passed_def split: option.split)

lemma row_or_Inr: "row_or missing failed f = Inr x \<longleftrightarrow> f = Row x"
  by (simp add: row_or_def split: fetched.split)

lemma relabel_Inr: "relabel g m = Inr x \<longleftrightarrow> m = Inr x"
  by (simp add: relabel_def split: sum.split)

lemmas attempt_rules = attempt_Inr ensure_Inr present_Inr passed_Inr row_or_Inr relabel_Inr

text \<open>A loop that collects results until the first error, and one that threads a state.\<close>

fun attempt_all :: "('a \<Rightarrow> 'e + 'b) \<Rightarrow> 'a list \<Rightarrow> 'e + 'b list" where
  "attempt_all f [] = Inr []"
| "attempt_all f (x # xs) = attempt (f x) (\<lambda>y. attempt (attempt_all f xs) (\<lambda>ys. Inr (y # ys)))"

fun attempt_fold :: "('a \<Rightarrow> 's \<Rightarrow> 'e + 's) \<Rightarrow> 'a list \<Rightarrow> 's \<Rightarrow> 'e + 's" where
  "attempt_fold f [] s = Inr s"
| "attempt_fold f (x # xs) s = attempt (f x s) (attempt_fold f xs)"

lemma attempt_all_Inr: "attempt_all f xs = Inr ys \<longleftrightarrow> list_all2 (\<lambda>x y. f x = Inr y) xs ys"
  by (induction xs arbitrary: ys) (auto simp: attempt_Inr list_all2_Cons1)

lemma attempt_fold_inv:
  assumes "attempt_fold f xs s = Inr s'" "P s" "\<And>x s s'. x \<in> set xs \<Longrightarrow> P s \<Longrightarrow> f x s = Inr s' \<Longrightarrow> P s'"
  shows "P s'"
  using assms by (induction xs arbitrary: s) (auto simp: attempt_Inr)

text \<open>A transaction that ends with an error leaves the state it started from.\<close>

definition settle :: "('e \<Rightarrow> 'r) \<Rightarrow> 's \<Rightarrow> 'e + 'r \<times> 's \<Rightarrow> 'r \<times> 's" where
  "settle refuse s m = (case m of Inl e \<Rightarrow> (refuse e, s) | Inr res \<Rightarrow> res)"

lemma settle_cases:
  assumes "settle refuse s m = (ans, s')"
  obtains (refused) e where "m = Inl e" "ans = refuse e" "s' = s" | (ran) "m = Inr (ans, s')"
  using assms by (cases m) (auto simp: settle_def)

end
