(* ===== verification/Entry_Fields.thy ===== *)
theory Entry_Fields
  imports Blind_Index
begin

text \<open>
  The fields of a vault entry: the limits of \<^verbatim>\<open>handlers/vault_field_limits.go\<close>, the custom fields, provider metadata
  and sealed metadata columns of \<^verbatim>\<open>handlers/vault.go\<close>, and the columns declared in \<^verbatim>\<open>encrypted_field_ledger.go\<close>.

  \<^verbatim>\<open>encoding/json\<close> on custom fields and \<^verbatim>\<open>strconv.Quote\<close> are parameters.
\<close>

section \<open>Declared columns\<close>

definition vaultFieldCustomFields :: field where
  "vaultFieldCustomFields =
     Some \<lparr>fd_name = ''vault_entries.custom_fields'', fd_class = ThroughTheExit, fd_exitKey = ''vault.go:VaultHandler.customFieldsForCaller'',
           fd_why = ''a field with secret:true is a SECOND credential on the same entry: an API key an operator pasted '' @
             ''into a labelled field, a recovery PIN, a database password. The whole blob is encrypted at rest '' @
             ''for that reason and the UI masks those values. It used to be decrypted straight into the '' @
             ''response body next to the entry's own value, which is a second exit with no destination, no '' @
             ''chooser and no receipt.'',
           fd_declaredAt = ''internal/handlers/encrypted_field_ledger.go:74''\<rparr>"

definition vaultFieldURL :: field where
  "vaultFieldURL =
     Some \<lparr>fd_name = ''vault_entries.url'', fd_class = NotACredential, fd_exitKey = [],
           fd_why = ''the site this login belongs to, for browser-extension autofill matching. Not a secret: the blind '' @
             ''index over it is what autofill actually queries.'',
           fd_declaredAt = ''internal/handlers/encrypted_field_ledger.go:99''\<rparr>"

definition vaultFieldAliasURL :: field where
  "vaultFieldAliasURL =
     Some \<lparr>fd_name = ''vault_entries.alias_url'', fd_class = NotACredential, fd_exitKey = [],
           fd_why = ''a second autofill match for the same entry. Same shape as url, and it is decrypted on the same '' @
             ''paths, so it carries the same ruling.'',
           fd_declaredAt = ''internal/handlers/encrypted_field_ledger.go:104''\<rparr>"

definition vaultFieldUsername :: field where
  "vaultFieldUsername =
     Some \<lparr>fd_name = ''vault_entries.username'', fd_class = NotACredential, fd_exitKey = [],
           fd_why = ''the account name the credential belongs to. Half of a login pair and deliberately the half that is '' @
             ''not the secret; the value is the other half and it goes through the exit.'',
           fd_declaredAt = ''internal/handlers/encrypted_field_ledger.go:109''\<rparr>"

definition vaultFieldCategory :: field where
  "vaultFieldCategory =
     Some \<lparr>fd_name = ''vault_entries.category'', fd_class = NotACredential, fd_exitKey = [],
           fd_why = ''a display label from a fixed vocabulary (login, api_key, ssh_key, ...). It cannot hold a value a '' @
             ''user typed.'',
           fd_declaredAt = ''internal/handlers/encrypted_field_ledger.go:114''\<rparr>"

definition vaultFieldNotes :: field where
  "vaultFieldNotes =
     Some \<lparr>fd_name = ''vault_entries.notes'', fd_class = NotACredential, fd_exitKey = [],
           fd_why = ''free text the operator wrote ABOUT the credential. It is not designated secret material the way a '' @
             ''secret:true custom field is, and the product renders it unmasked, so treating it as a credential '' @
             ''would be a claim the UI already contradicts. An operator who pastes a key into notes should use '' @
             ''a custom field, and the field limits and the UI both say so.'',
           fd_declaredAt = ''internal/handlers/encrypted_field_ledger.go:119''\<rparr>"

definition vaultFieldProviderMeta :: field where
  "vaultFieldProviderMeta =
     Some \<lparr>fd_name = ''vault_entries.provider_meta'', fd_class = ThroughTheExit, fd_exitKey = ''vault.go:VaultHandler.providerMetaForCaller'',
           fd_why = ''most of the provider binding is metadata (site, tenant, project_ref and key ids), but Datadog's '' @
             ''app_key is a separate live credential used to manage the API key stored as the entry value. '' @
             ''Ordinary responses redact provider-scoped credential keys; password-gated unlock/export releases '' @
             ''each one through providerMetaForCaller and the entry-owner secret exit. Internal provider adapter '' @
             ''use remains in-process, while vaultegress still governs the column's host-choosing writes.'',
           fd_declaredAt = ''internal/handlers/encrypted_field_ledger.go:128''\<rparr>"

section \<open>Limits on text\<close>

definition maxEntryNameLen :: nat where "maxEntryNameLen = 255"
definition maxEntryValueLen :: nat where "maxEntryValueLen = 65536"
definition maxEntryURLLen :: nat where "maxEntryURLLen = 2048"
definition maxEntryUsernameLen :: nat where "maxEntryUsernameLen = 255"
definition maxEntryNotesLen :: nat where "maxEntryNotesLen = 10000"
definition minRotationDays :: int where "minRotationDays = 1"
definition maxRotationDays :: int where "maxRotationDays = 3650"

record vaultEntryFields =
  f_Name :: string
  f_Value :: string
  f_URL :: string
  f_AliasURL :: string
  f_Username :: string
  f_Notes :: string

record vaultEntryTextInput =
  in_Name :: "string option"
  in_Value :: "string option"
  in_URL :: "string option"
  in_AliasURL :: "string option"
  in_Username :: "string option"
  in_Notes :: "string option"

definition too_long :: "string \<Rightarrow> nat \<Rightarrow> string" where
  "too_long what n = what @ '' must be '' @ dec_text n @ '' characters or less''"

text \<open>The Go code trims the fields in place: the result is the message, or the trimmed fields.\<close>

definition live_name :: "bool \<Rightarrow> string option \<Rightarrow> string + string option" where
  "live_name required nm =
     (case nm of
        None \<Rightarrow> if required then Inl ''name is required'' else Inr None
      | Some x \<Rightarrow>
         (let t = trim_space x
          in if t = [] then Inl ''name is required''
             else if length t > maxEntryNameLen then Inl (too_long ''name'' maxEntryNameLen)
             else Inr (Some t)))"

definition live_value :: "bool \<Rightarrow> string option \<Rightarrow> string option" where
  "live_value required v =
     (case v of
        None \<Rightarrow> if required then Some ''value is required'' else None
      | Some x \<Rightarrow>
         if x = [] then (if required then Some ''value is required'' else None)
         else if length x > maxEntryValueLen then Some ''value must be 64KB or less'' else None)"

definition live_bounded :: "string \<Rightarrow> nat \<Rightarrow> string option \<Rightarrow> string + string option" where
  "live_bounded what n v =
     (case v of
        None \<Rightarrow> Inr None
      | Some x \<Rightarrow> (let t = trim_space x in if length t > n then Inl (too_long what n) else Inr (Some t)))"

definition validateLiveEntryText :: "vaultEntryTextInput \<Rightarrow> bool \<Rightarrow> bool \<Rightarrow> string + vaultEntryTextInput" where
  "validateLiveEntryText f requireName requireValue =
     (case live_name requireName (in_Name f) of
        Inl msg \<Rightarrow> Inl msg
      | Inr nm \<Rightarrow>
     (case live_value requireValue (in_Value f) of
        Some msg \<Rightarrow> Inl msg
      | None \<Rightarrow>
     (case live_bounded ''url'' maxEntryURLLen (in_URL f) of
        Inl msg \<Rightarrow> Inl msg
      | Inr u \<Rightarrow>
     (case live_bounded ''alias url'' maxEntryURLLen (in_AliasURL f) of
        Inl msg \<Rightarrow> Inl msg
      | Inr a \<Rightarrow>
     (case live_bounded ''username'' maxEntryUsernameLen (in_Username f) of
        Inl msg \<Rightarrow> Inl msg
      | Inr un \<Rightarrow>
     (case in_Notes f of
        Some n \<Rightarrow> if length n > maxEntryNotesLen then Inl (too_long ''notes'' maxEntryNotesLen)
                  else Inr (f\<lparr>in_Name := nm, in_URL := u, in_AliasURL := a, in_Username := un\<rparr>)
      | None \<Rightarrow> Inr (f\<lparr>in_Name := nm, in_URL := u, in_AliasURL := a, in_Username := un\<rparr>)))))))"

definition normalizeAndValidateEntryFields :: "vaultEntryFields \<Rightarrow> string + vaultEntryFields" where
  "normalizeAndValidateEntryFields f0 =
     (let f = f0\<lparr>f_Name := trim_space (f_Name f0), f_URL := trim_space (f_URL f0), f_AliasURL := trim_space (f_AliasURL f0),
                 f_Username := trim_space (f_Username f0)\<rparr>
      in if f_Name f = [] then Inl ''name is required''
         else if length (f_Name f) > maxEntryNameLen then Inl (too_long ''name'' maxEntryNameLen)
         else if f_Value f = [] then Inl ''value is required''
         else if length (f_Value f) > maxEntryValueLen then Inl ''value must be 64KB or less''
         else if length (f_URL f) > maxEntryURLLen then Inl (too_long ''url'' maxEntryURLLen)
         else if length (f_AliasURL f) > maxEntryURLLen then Inl (too_long ''alias url'' maxEntryURLLen)
         else if length (f_Username f) > maxEntryUsernameLen then Inl (too_long ''username'' maxEntryUsernameLen)
         else if length (f_Notes f) > maxEntryNotesLen then Inl (too_long ''notes'' maxEntryNotesLen)
         else Inr f)"

definition vaultEntryCategoryValid :: "string \<Rightarrow> bool" where
  "vaultEntryCategoryValid c \<longleftrightarrow>
     c \<in> set [[], ''login'', ''password'', ''api_key'', ''database'', ''certificate'', ''credit_card'', ''ssh_key'', ''server'',
               ''identity'', ''bank_account'', ''email'', ''other'']"

definition validateRotationIntervalDays :: "int option \<Rightarrow> string option" where
  "validateRotationIntervalDays interval =
     (case interval of
        None \<Rightarrow> None
      | Some n \<Rightarrow>
         if n < minRotationDays \<or> n > maxRotationDays
         then Some (''rotation_interval_days must be between '' @ dec_text (nat minRotationDays) @ '' and '' @ dec_text (nat maxRotationDays))
         else None)"

section \<open>Custom fields\<close>

record CustomField =
  cf_Label :: string
  cf_Value :: string
  cf_Secret :: bool
  cf_Withheld :: bool

definition maxCustomFields :: nat where "maxCustomFields = 50"

datatype field_error = TooManyFields | LabelTooLong | FieldValueTooLong | NotReleased string | LabelRequired | BadMarker string
  | FieldsChanged | NoLongerMatches string

record field_lib =
  parse_fields :: "string \<Rightarrow> CustomField list option"
  print_fields :: "CustomField list \<Rightarrow> string option"
  quote_of :: "string \<Rightarrow> string"

definition field_error_text :: "field_lib \<Rightarrow> field_error \<Rightarrow> string" where
  "field_error_text l e =
     (case e of
        TooManyFields \<Rightarrow> ''too many custom fields (max '' @ dec_text maxCustomFields @ '')''
      | LabelTooLong \<Rightarrow> ''custom field label too long (max 255)''
      | FieldValueTooLong \<Rightarrow> ''custom field value too long (max 10000)''
      | NotReleased label \<Rightarrow> ''custom field '' @ quote_of l label @
          '' was not released to you, so this save would blank it; reload the entry and try again''
      | LabelRequired \<Rightarrow> ''custom field label is required''
      | BadMarker label \<Rightarrow> ''custom field '' @ quote_of l label @ '' has an invalid withheld marker''
      | FieldsChanged \<Rightarrow> ''custom fields changed since the withheld response; unlock and try again''
      | NoLongerMatches label \<Rightarrow> ''custom field '' @ quote_of l label @ '' no longer matches the withheld value; unlock and try again'')"

fun limit_errors :: "CustomField list \<Rightarrow> bool \<Rightarrow> field_error option" where
  "limit_errors [] allowWithheld = None"
| "limit_errors (f # fs) allowWithheld =
     (if length (cf_Label f) > 255 then Some LabelTooLong
      else if length (cf_Value f) > 10000 then Some FieldValueTooLong
      else if cf_Withheld f \<and> \<not> allowWithheld then Some (NotReleased (cf_Label f))
      else limit_errors fs allowWithheld)"

definition validateCustomFieldLimits :: "CustomField list \<Rightarrow> bool \<Rightarrow> field_error option" where
  "validateCustomFieldLimits fs allowWithheld =
     (if length fs > maxCustomFields then Some TooManyFields else limit_errors fs allowWithheld)"

definition validatePortableCustomFields :: "CustomField list \<Rightarrow> field_error option" where
  "validatePortableCustomFields fs = validateCustomFieldLimits fs False"

definition trim_label :: "CustomField \<Rightarrow> CustomField" where
  "trim_label f = f\<lparr>cf_Label := trim_space (cf_Label f)\<rparr>"

fun trim_labels :: "CustomField list \<Rightarrow> field_error + CustomField list" where
  "trim_labels [] = Inr []"
| "trim_labels (f # fs) =
     (if cf_Label (trim_label f) = [] then Inl LabelRequired else map_sum id (\<lambda>rest. trim_label f # rest) (trim_labels fs))"

definition validateCustomFields :: "CustomField list \<Rightarrow> field_error + CustomField list" where
  "validateCustomFields fs =
     (case trim_labels fs of
        Inl e \<Rightarrow> Inl e
      | Inr fs' \<Rightarrow> (case validatePortableCustomFields fs' of Some e \<Rightarrow> Inl e | None \<Rightarrow> Inr fs'))"

fun trim_update_labels :: "CustomField list \<Rightarrow> field_error + CustomField list" where
  "trim_update_labels [] = Inr []"
| "trim_update_labels (f # fs) =
     (if cf_Withheld f
      then (if \<not> cf_Secret f \<or> cf_Value f \<noteq> [] then Inl (BadMarker (cf_Label f)) else map_sum id (\<lambda>rest. f # rest) (trim_update_labels fs))
      else if cf_Label (trim_label f) = [] then Inl LabelRequired
      else map_sum id (\<lambda>rest. trim_label f # rest) (trim_update_labels fs))"

definition validateUpdateCustomFields :: "CustomField list \<Rightarrow> field_error + CustomField list" where
  "validateUpdateCustomFields fs =
     (case trim_update_labels fs of
        Inl e \<Rightarrow> Inl e
      | Inr fs' \<Rightarrow> (case validateCustomFieldLimits fs' True of Some e \<Rightarrow> Inl e | None \<Rightarrow> Inr fs'))"

definition encryptCustomFields :: "block_cipher \<Rightarrow> vault_keys \<Rightarrow> field_lib \<Rightarrow> bytes \<Rightarrow> CustomField list \<Rightarrow> string option" where
  "encryptCustomFields E ks l rnd fs =
     (if fs = [] then Some ''[]''
      else case print_fields l fs of None \<Rightarrow> None | Some content \<Rightarrow> encryptColumn E ks content rnd)"

definition decryptCustomFields :: "block_cipher \<Rightarrow> vault_keys \<Rightarrow> field_lib \<Rightarrow> string \<Rightarrow> CustomField list" where
  "decryptCustomFields E ks l stored =
     (let dec = decryptColumnOrLog E ks stored ''[]'' vaultFieldCustomFields
      in if dec = [] then [] else case parse_fields l dec of None \<Rightarrow> [] | Some fs \<Rightarrow> fs)"

definition entryOrigin :: "string \<Rightarrow> string \<Rightarrow> Origin" where
  "entryOrigin eid nm = \<lparr>o_EntryID = eid, o_Name = nm, o_Instance = False\<rparr>"

definition MintedEntrySecret :: "authority \<Rightarrow> bytes \<Rightarrow> string \<Rightarrow> string \<Rightarrow> Plaintext" where
  "MintedEntrySecret a value eid nm = Minted value (entryOrigin eid nm) (Some a)"

definition withhold :: "CustomField \<Rightarrow> CustomField" where
  "withhold f = f\<lparr>cf_Value := [], cf_Withheld := True\<rparr>"

definition field_for_caller :: "field_lib \<Rightarrow> authority \<Rightarrow> string \<Rightarrow> string \<Rightarrow> string \<Rightarrow> bool \<Rightarrow> CustomField \<Rightarrow> CustomField" where
  "field_for_caller l a eid nm callerID revealSecrets f =
     (if \<not> cf_Secret f \<or> cf_Value f = [] then f
      else if \<not> revealSecrets then withhold f
      else case ExitString [] (MintedEntrySecret a (cf_Value f) eid nm)
                  (ToCaller (''the custom field '' @ quote_of l (cf_Label f) @ '' of this entry'') callerID) of
             Inl _ \<Rightarrow> withhold f
           | Inr (_, released) \<Rightarrow> f\<lparr>cf_Value := released\<rparr>)"

definition customFieldsForCaller ::
  "block_cipher \<Rightarrow> vault_keys \<Rightarrow> field_lib \<Rightarrow> authority \<Rightarrow> string \<Rightarrow> string \<Rightarrow> string \<Rightarrow> string \<Rightarrow> bool \<Rightarrow> CustomField list" where
  "customFieldsForCaller E ks l a eid nm stored callerID revealSecrets =
     map (field_for_caller l a eid nm callerID revealSecrets) (decryptCustomFields E ks l stored)"

fun merge_fields :: "CustomField list \<Rightarrow> CustomField list \<Rightarrow> field_error + CustomField list" where
  "merge_fields (c # cs) (m # ms) =
     (if \<not> cf_Withheld m then map_sum id (\<lambda>rest. m # rest) (merge_fields cs ms)
      else if \<not> cf_Secret c \<or> cf_Withheld c \<or> cf_Label c \<noteq> cf_Label m then Inl (NoLongerMatches (cf_Label m))
      else map_sum id (\<lambda>rest. m\<lparr>cf_Value := cf_Value c, cf_Withheld := False\<rparr> # rest) (merge_fields cs ms))"
| "merge_fields _ ms = Inr ms"

definition mergeWithheldCustomFields ::
  "block_cipher \<Rightarrow> vault_keys \<Rightarrow> field_lib \<Rightarrow> string \<Rightarrow> CustomField list \<Rightarrow> field_error + CustomField list" where
  "mergeWithheldCustomFields E ks l stored incoming =
     (if \<not> list_ex cf_Withheld incoming then Inr incoming
      else let cur = decryptCustomFields E ks l stored
           in if length cur \<noteq> length incoming then Inl FieldsChanged else merge_fields cur incoming)"

section \<open>Provider metadata for a caller\<close>

fun release_keys :: "json_lib \<Rightarrow> field_lib \<Rightarrow> authority \<Rightarrow> string \<Rightarrow> string \<Rightarrow> string \<Rightarrow> string list \<Rightarrow> raw_fields \<times> string list \<Rightarrow> raw_fields \<times> string list" where
  "release_keys j l a eid nm callerID [] st = st"
| "release_keys j l a eid nm callerID (k # ks) (fs, withheld) =
     release_keys j l a eid nm callerID ks
       (case map_of fs k of
          None \<Rightarrow> (fs, withheld)
        | Some encoded \<Rightarrow>
           (case unmarshal_string j encoded of
              None \<Rightarrow> (remove_keys [k] fs, withheld @ [k])
            | Some value \<Rightarrow>
               if value = [] then (fs, withheld)
               else case ExitString [] (MintedEntrySecret a value eid nm)
                           (ToCaller (''the provider metadata credential '' @ quote_of l k @ '' of this entry'') callerID) of
                      Inl _ \<Rightarrow> (remove_keys [k] fs, withheld @ [k])
                    | Inr (_, released) \<Rightarrow> (put k (marshal_string released) fs, withheld)))"

definition providerMetaForCaller ::
  "json_lib \<Rightarrow> field_lib \<Rightarrow> authority \<Rightarrow> string \<Rightarrow> string \<Rightarrow> string \<Rightarrow> string \<Rightarrow> string \<Rightarrow> string \<times> string list" where
  "providerMetaForCaller j l a eid nm prov content callerID =
     (let keys = credentialMetaKeysFor prov
      in if keys = [] then (content, [])
         else case unmarshal_fields j content of
                Object fs0 \<Rightarrow>
                  (case release_keys j l a eid nm callerID keys (fs0, []) of
                     (fs, withheld) \<Rightarrow>
                       (case marshal_fields j fs of
                          None \<Rightarrow> redactCredentialProviderMetaKeys j prov content
                        | Some out \<Rightarrow> (out, sort withheld)))
              | _ \<Rightarrow> redactCredentialProviderMetaKeys j prov content)"

section \<open>Metadata columns\<close>

text \<open>Url, alias, user name, category and notes are sealed in this order; the first failure ends it.\<close>

fun seal_all :: "(string \<Rightarrow> bytes \<Rightarrow> string option) \<Rightarrow> (string \<times> bytes) list \<Rightarrow> string list option" where
  "seal_all f [] = Some []"
| "seal_all f ((x, rnd) # rest) =
     (case f x rnd of None \<Rightarrow> None | Some y \<Rightarrow> map_option (\<lambda>ys. y # ys) (seal_all f rest))"

definition encryptMetaColumns :: "block_cipher \<Rightarrow> vault_keys \<Rightarrow> (string \<times> bytes) list \<Rightarrow> string list option" where
  "encryptMetaColumns E ks cols = seal_all (encryptColumn E ks) cols"

definition encryptMetaColumnsIfNeeded :: "block_cipher \<Rightarrow> vault_keys \<Rightarrow> (string \<times> bytes) list \<Rightarrow> string list option" where
  "encryptMetaColumnsIfNeeded E ks cols = seal_all (encryptColumnIfNeeded E ks) cols"

section \<open>The validators and withheld fields\<close>

text \<open>The fields of an entry as the live handlers take them.\<close>

definition live_input :: "vaultEntryFields \<Rightarrow> vaultEntryTextInput" where
  "live_input f = \<lparr>in_Name = Some (f_Name f), in_Value = Some (f_Value f), in_URL = Some (f_URL f), in_AliasURL = Some (f_AliasURL f),
                   in_Username = Some (f_Username f), in_Notes = Some (f_Notes f)\<rparr>"

text \<open>
  C40. The two validators of an entry's text are one: the live handlers' on complete input and the bulk
  importer's give the same message, or both accept and trim to the same fields, on every input.
\<close>

theorem entry_validators_agree:
  "validateLiveEntryText (live_input f) True True = map_sum id live_input (normalizeAndValidateEntryFields f)"
  by (simp add: validateLiveEntryText_def live_input_def live_name_def live_value_def live_bounded_def normalizeAndValidateEntryFields_def Let_def)

lemma merge_fields_back:
  assumes "\<forall>f \<in> set cs. \<not> cf_Withheld f"
  shows "merge_fields cs (map (field_for_caller l a eid nm callerID False) cs) = Inr cs"
  using assms by (induction cs) (simp_all add: field_for_caller_def withhold_def)

lemma merge_fields_length: "merge_fields cs ms = Inr fs \<Longrightarrow> length cs = length ms \<Longrightarrow> length fs = length ms"
proof (induction cs ms arbitrary: fs rule: merge_fields.induct)
  case (1 c cs m ms)
  then show ?case by (cases "merge_fields cs ms") (auto split: if_splits)
qed auto

lemma merge_fields_nth:
  assumes "merge_fields cs ms = Inr fs" "length cs = length ms" "i < length ms"
  shows "fs ! i = (if cf_Withheld (ms ! i) then (ms ! i)\<lparr>cf_Value := cf_Value (cs ! i), cf_Withheld := False\<rparr> else ms ! i) \<and>
    (cf_Withheld (ms ! i) \<longrightarrow> cf_Secret (cs ! i) \<and> cf_Label (cs ! i) = cf_Label (ms ! i))"
  using assms
proof (induction cs ms arbitrary: fs i rule: merge_fields.induct)
  case (1 c cs m ms)
  then show ?case by (cases i; cases "merge_fields cs ms") (auto split: if_splits)
qed auto

text \<open>
  C39. Withheld values survive an edit.  A caller who sees an entry without its secret custom fields sees no value of
  them, and sending back what they saw stores exactly the fields that were stored; in general a
  merge puts a stored value only where a field was sent as withheld, only into a secret field
  with the same label, and leaves every other field as sent.
\<close>

theorem withheld_fields_survive:
  assumes "decryptCustomFields E ks l stored = cs" "\<forall>f \<in> set cs. \<not> cf_Withheld f"
  shows "(\<forall>f \<in> set (customFieldsForCaller E ks l a eid nm stored callerID False). cf_Secret f \<longrightarrow> cf_Value f = []) \<and>
    mergeWithheldCustomFields E ks l stored (customFieldsForCaller E ks l a eid nm stored callerID False) = Inr cs \<and>
    (\<forall>ms fs i. mergeWithheldCustomFields E ks l stored ms = Inr fs \<and> i < length ms \<longrightarrow>
       (if cf_Withheld (ms ! i)
        then fs ! i = (ms ! i)\<lparr>cf_Value := cf_Value (cs ! i), cf_Withheld := False\<rparr> \<and> cf_Secret (cs ! i) \<and> cf_Label (cs ! i) = cf_Label (ms ! i)
        else fs ! i = ms ! i))"
proof (intro conjI)
  show "\<forall>f \<in> set (customFieldsForCaller E ks l a eid nm stored callerID False). cf_Secret f \<longrightarrow> cf_Value f = []"
    by (auto simp: customFieldsForCaller_def field_for_caller_def withhold_def)
  let ?seen = "customFieldsForCaller E ks l a eid nm stored callerID False"
  have seen: "?seen = map (field_for_caller l a eid nm callerID False) cs" using assms(1) by (simp add: customFieldsForCaller_def)
  show "mergeWithheldCustomFields E ks l stored ?seen = Inr cs"
  proof (cases "list_ex cf_Withheld ?seen")
    case True
    then show ?thesis using assms merge_fields_back by (simp add: mergeWithheldCustomFields_def seen)
  next
    case False
    have "field_for_caller l a eid nm callerID False f = f" if "f \<in> set cs" for f
    proof -
      have "\<not> cf_Withheld (field_for_caller l a eid nm callerID False f)" using False that unfolding seen list_ex_iff by simp
      then show ?thesis by (auto simp: field_for_caller_def withhold_def split: if_splits)
    qed
    then show ?thesis using False by (simp add: mergeWithheldCustomFields_def seen map_idI)
  qed
  show "\<forall>ms fs i. mergeWithheldCustomFields E ks l stored ms = Inr fs \<and> i < length ms \<longrightarrow>
       (if cf_Withheld (ms ! i)
        then fs ! i = (ms ! i)\<lparr>cf_Value := cf_Value (cs ! i), cf_Withheld := False\<rparr> \<and> cf_Secret (cs ! i) \<and> cf_Label (cs ! i) = cf_Label (ms ! i)
        else fs ! i = ms ! i)"
  proof (intro allI impI, elim conjE)
    fix ms fs i
    assume m: "mergeWithheldCustomFields E ks l stored ms = Inr fs" "i < length ms"
    show "if cf_Withheld (ms ! i)
        then fs ! i = (ms ! i)\<lparr>cf_Value := cf_Value (cs ! i), cf_Withheld := False\<rparr> \<and> cf_Secret (cs ! i) \<and> cf_Label (cs ! i) = cf_Label (ms ! i)
        else fs ! i = ms ! i"
    proof (cases "list_ex cf_Withheld ms")
      case True
      then show ?thesis using m assms(1) merge_fields_nth [of cs ms fs i]
        by (auto simp: mergeWithheldCustomFields_def Let_def split: if_splits)
    next
      case False
      then show ?thesis using m by (auto simp: mergeWithheldCustomFields_def list_ex_iff)
    qed
  qed
qed

definition plain_fields :: field_lib where
  "plain_fields = \<lparr>parse_fields = (\<lambda>s. Some [\<lparr>cf_Label = ''pin'', cf_Value = s, cf_Secret = True, cf_Withheld = False\<rparr>]),
                   print_fields = (\<lambda>_. None), quote_of = (\<lambda>s. s)\<rparr>"

theorem withheld_fields_survive_witness:
  "mergeWithheldCustomFields (\<lambda>_ w. w) \<lparr>current = \<lparr>key_source = [], key_value = [], key_legacy = [], key_bidx = []\<rparr>, previous = None\<rparr>
     plain_fields ''1234'' [\<lparr>cf_Label = ''pin'', cf_Value = [], cf_Secret = True, cf_Withheld = True\<rparr>] =
   Inr [\<lparr>cf_Label = ''pin'', cf_Value = ''1234'', cf_Secret = True, cf_Withheld = False\<rparr>]"
proof -
  let ?ks = "\<lparr>current = \<lparr>key_source = [], key_value = [], key_legacy = [], key_bidx = []\<rparr>, previous = None\<rparr>"
  have d: "decryptCustomFields (\<lambda>_ w. w) ?ks plain_fields ''1234'' = [\<lparr>cf_Label = ''pin'', cf_Value = ''1234'', cf_Secret = True, cf_Withheld = False\<rparr>]"
    by code_simp
  show ?thesis
    using withheld_fields_survive [OF d, of undefined "[]" "[]" "[]"] d
    by (simp add: customFieldsForCaller_def field_for_caller_def withhold_def)
qed

end
