(* ===== verification/Entry_View.thy ===== *)
theory Entry_View
  imports Attempt Entry_Fields Capability_Presets Sign_In "HOL-Library.Product_Lexorder"
begin

text \<open>
  What callers see of entries: the row conversions, rotation status and sorting of \<^verbatim>\<open>handlers/vault.go\<close>, the
  queries behind them (\<^verbatim>\<open>db/vault.sql.go\<close>, \<^verbatim>\<open>db/collections.sql.go\<close>), and the reveal of \<^verbatim>\<open>handlers/vault_export.go\<close>.

  The environment holds the packages outside the repository, the clock and the random source;
  \<open>ve_rnd\<close> gives the bytes drawn for a purpose, \<open>ve_time\<close> is \<^verbatim>\<open>time.Parse\<close>.  Columns of \<^verbatim>\<open>vault_entries\<close> that only
  these handlers read are a table of their own with the same keys.  Instants are seconds, and
  the age of a secret is compared exactly where the code uses floating point.
\<close>

record vault_env =
  ve_signin :: signin_env
  ve_keys :: vault_keys
  ve_mac :: mac
  ve_url :: url_parse
  ve_json :: json_lib
  ve_fields :: field_lib
  ve_parse_targets :: "string \<Rightarrow> RotationTarget list option"
  ve_print_targets :: "RotationTarget list \<Rightarrow> string"
  ve_print_strings :: "string list \<Rightarrow> string"
  ve_print_spec :: "InjectionSpec \<Rightarrow> string"
  ve_sha256 :: "bytes \<Rightarrow> bytes"
  ve_time :: "string \<Rightarrow> string \<Rightarrow> int option"
  ve_lower :: "string \<Rightarrow> string"
  ve_rnd :: "string \<Rightarrow> bytes"
  ve_audit :: audit_rnd

record entry_info =
  ei_created_at :: "int option"
  ei_last_rotated_at :: "int option"
  ei_last_rotation_error :: "string option"
  ei_rotation_log :: "string option"

record vault_db =
  vd_acc :: account_db
  vd_info :: "(string \<times> entry_info) list"
  vd_coll_name :: "(string \<times> string) list"
  vd_audit :: auditNameKey

abbreviation vstore :: "vault_db \<Rightarrow> store" where
  "vstore db \<equiv> base (vd_acc db)"

abbreviation vclock :: "vault_env \<Rightarrow> int" where
  "vclock e \<equiv> clock (ve_signin e)"

abbreviation vcipher :: "vault_env \<Rightarrow> block_cipher" where
  "vcipher e \<equiv> cipher_of (ve_signin e)"

definition put_store :: "vault_db \<Rightarrow> store \<Rightarrow> vault_db" where
  "put_store db s = db\<lparr>vd_acc := (vd_acc db)\<lparr>base := s\<rparr>\<rparr>"

definition vlog :: "vault_env \<Rightarrow> request \<Rightarrow> string \<Rightarrow> vault_db \<Rightarrow> vault_db" where
  "vlog e r action db = db\<lparr>vd_acc := LogActivityFromRequest (proxy_of (ve_signin e)) r action (vd_acc db)\<rparr>"

text \<open>The name in an activity line is sealed under the audit key, which is created when there is none; the line itself is not kept.\<close>

definition sealSecretName :: "vault_env \<Rightarrow> string \<Rightarrow> vault_db \<Rightarrow> vault_db" where
  "sealSecretName e nm db =
     (if nm = [] then db
      else case auditNameDEK (vcipher e) (derive_of (ve_signin e)) (ve_keys e) (vd_audit db) (vstore db) (ve_audit e) of
             (_, kept, s) \<Rightarrow> (put_store db s)\<lparr>vd_audit := kept\<rparr>)"

definition no_info :: entry_info where
  "no_info = \<lparr>ei_created_at = None, ei_last_rotated_at = None, ei_last_rotation_error = None, ei_rotation_log = None\<rparr>"

definition info_of :: "vault_db \<Rightarrow> string \<Rightarrow> entry_info" where
  "info_of db eid = (case map_of (vd_info db) eid of None \<Rightarrow> no_info | Some i \<Rightarrow> i)"

abbreviation column :: "vault_env \<Rightarrow> string \<Rightarrow> string \<Rightarrow> field \<Rightarrow> string" where
  "column e \<equiv> decryptColumnOrLog (vcipher e) (ve_keys e)"

abbreviation vopen :: "vault_env \<Rightarrow> string \<Rightarrow> field \<Rightarrow> open_error + string" where
  "vopen e \<equiv> decryptColumn (vcipher e) (ve_keys e)"

abbreviation vseal :: "vault_env \<Rightarrow> string \<Rightarrow> string \<Rightarrow> string option" where
  "vseal e what plain \<equiv> encryptColumn (vcipher e) (ve_keys e) plain (ve_rnd e what)"

definition ParseRotationTargets :: "vault_env \<Rightarrow> string \<Rightarrow> RotationTarget list" where
  "ParseRotationTargets e content =
     (if content \<noteq> [] \<and> content \<noteq> ''[]'' then (case ve_parse_targets e content of None \<Rightarrow> [] | Some ts \<Rightarrow> ts) else [])"

definition vlib :: "vault_env \<Rightarrow> field \<Rightarrow> entry_lib" where
  "vlib e targets_field =
     \<lparr>parse_url = ve_url e, json = ve_json e, open_meta = (\<lambda>s. column e s ''{}'' vaultFieldProviderMeta),
      open_targets_col = (\<lambda>s. ParseRotationTargets e (column e s ''[]'' targets_field))\<rparr>"

section \<open>Instants\<close>

definition layout_rfc3339 :: string where "layout_rfc3339 = ''2006-01-02T15:04:05Z07:00''"
definition layout_datetime :: string where "layout_datetime = ''2006-01-02 15:04:05''"
definition layout_date :: string where "layout_date = ''2006-01-02''"

definition nullTimePtr :: "int option \<Rightarrow> string option" where
  "nullTimePtr t = map_option rfc3339 t"

definition stringPtrToNullTime :: "vault_env \<Rightarrow> string option \<Rightarrow> string + int option" where
  "stringPtrToNullTime e s =
     (case s of
        None \<Rightarrow> Inr None
      | Some x \<Rightarrow>
         if x = [] then Inr None
         else case find (\<lambda>layout. ve_time e layout x \<noteq> None) [layout_rfc3339, layout_datetime, layout_date] of
                Some layout \<Rightarrow> Inr (ve_time e layout x)
              | None \<Rightarrow> Inl (''could not parse '' @ quote_of (ve_fields e) x @ '' as a date; use YYYY-MM-DD or RFC3339''))"

definition past :: "vault_env \<Rightarrow> string \<Rightarrow> string \<Rightarrow> bool" where
  "past e layout x \<longleftrightarrow> (case ve_time e layout x of Some t \<Rightarrow> vclock e > t | None \<Rightarrow> False)"

definition rotation_anchor :: "string option \<Rightarrow> string option \<Rightarrow> string option" where
  "rotation_anchor lastRotatedAt createdAt =
     (let a = (if lastRotatedAt = None \<or> lastRotatedAt = Some [] then createdAt else lastRotatedAt)
      in if a = Some [] then None else a)"

definition computeRotationStatus ::
  "vault_env \<Rightarrow> int option \<Rightarrow> string option \<Rightarrow> string option \<Rightarrow> string option \<Rightarrow> string \<Rightarrow> string" where
  "computeRotationStatus e rotationDays expiresAt lastRotatedAt createdAt lastRotationError =
     (if (case expiresAt of None \<Rightarrow> False | Some x \<Rightarrow> x \<noteq> [] \<and> (past e layout_datetime x \<or> past e layout_rfc3339 x)) then ''expired''
      else if trim_space lastRotationError \<noteq> [] then ''error''
      else case rotationDays of
             None \<Rightarrow> ''fresh''
           | Some days \<Rightarrow>
              if days \<le> 0 then ''fresh''
              else case rotation_anchor lastRotatedAt createdAt of
                     None \<Rightarrow> ''fresh''
                   | Some a \<Rightarrow>
                      (case (case ve_time e layout_datetime a of Some t \<Rightarrow> Some t | None \<Rightarrow> ve_time e layout_rfc3339 a) of
                         None \<Rightarrow> ''fresh''
                       | Some t \<Rightarrow>
                          (let age = vclock e - t
                           in if age > days * 86400 then ''overdue''
                              else if age * 10 \<ge> days * 86400 * 8 then ''due_soon''
                              else ''fresh'')))"

section \<open>What a response shows\<close>

record vaultEntryMeta =
  vm_ID :: string
  vm_UserID :: string
  vm_CollectionID :: "string option"
  vm_Name :: string
  vm_URL :: string
  vm_AliasURL :: string
  vm_Username :: string
  vm_Category :: string
  vm_Notes :: string
  vm_AutoLogin :: bool
  vm_RotationIntervalDays :: "int option"
  vm_ExpiresAt :: "string option"
  vm_LastRotatedAt :: "string option"
  vm_RotationStatus :: string
  vm_Provider :: string
  vm_ProviderMeta :: string
  vm_ProviderMetaWithheld :: "string list"
  vm_AutoRotate :: bool
  vm_LastRotationError :: string
  vm_CustomFields :: "CustomField list"
  vm_PendingRevoke :: "string option"
  vm_DestinationPatterns :: "string list"
  vm_CreatedAt :: "string option"
  vm_UpdatedAt :: "string option"

text \<open>The fields every conversion sets the same way.\<close>

definition shown :: "vault_env \<Rightarrow> string \<Rightarrow> entry_row \<Rightarrow> entry_info \<Rightarrow> vaultEntryMeta" where
  "shown e eid r i =
     (let meta = column e (null_text (provider_meta r)) ''{}'' vaultFieldProviderMeta;
          safe = redactCredentialProviderMetaKeys (ve_json e) (null_text (provider r)) meta
      in \<lparr>vm_ID = eid, vm_UserID = [], vm_CollectionID = None,
          vm_Name = column e (entry_name r) [] vaultFieldName,
          vm_URL = column e (null_text (url r)) [] vaultFieldURL,
          vm_AliasURL = column e (null_text (alias_url r)) [] vaultFieldAliasURL,
          vm_Username = column e (null_text (username r)) [] vaultFieldUsername,
          vm_Category = column e (null_text (category r)) [] vaultFieldCategory,
          vm_Notes = column e (null_text (entry_notes r)) [] vaultFieldNotes,
          vm_AutoLogin = (auto_login r \<noteq> 0), vm_RotationIntervalDays = rotation_interval_days r,
          vm_ExpiresAt = nullTimePtr (expires_at r), vm_LastRotatedAt = nullTimePtr (ei_last_rotated_at i), vm_RotationStatus = [],
          vm_Provider = null_text (provider r), vm_ProviderMeta = redactReservedProviderMetaKeys (ve_json e) (fst safe),
          vm_ProviderMetaWithheld = snd safe, vm_AutoRotate = (auto_rotate r \<noteq> None \<and> auto_rotate r \<noteq> Some 0),
          vm_LastRotationError = null_text (ei_last_rotation_error i), vm_CustomFields = [],
          vm_PendingRevoke = pendingRevokeStatusFrom (ve_json e) (ve_url e) meta, vm_DestinationPatterns = [],
          vm_CreatedAt = nullTimePtr (ei_created_at i), vm_UpdatedAt = nullTimePtr (Some (updated_at r))\<rparr>)"

definition with_status :: "vault_env \<Rightarrow> vaultEntryMeta \<Rightarrow> vaultEntryMeta" where
  "with_status e m = m\<lparr>vm_RotationStatus :=
     computeRotationStatus e (vm_RotationIntervalDays m) (vm_ExpiresAt m) (vm_LastRotatedAt m) (vm_CreatedAt m) (vm_LastRotationError m)\<rparr>"

definition vaultMetaFromGetRow :: "vault_env \<Rightarrow> Secret_Exit.authority \<Rightarrow> string \<Rightarrow> string \<Rightarrow> entry_row \<Rightarrow> entry_info \<Rightarrow> vaultEntryMeta" where
  "vaultMetaFromGetRow e a callerID eid r i =
     with_status e ((shown e eid r i)\<lparr>vm_CollectionID := collection_id r,
       vm_CustomFields := customFieldsForCaller (vcipher e) (ve_keys e) (ve_fields e) a eid (entry_name r) (custom_fields r) callerID False,
       vm_DestinationPatterns := parseDestinationPatterns (ve_json e) (destination_patterns r)\<rparr>)"

definition vaultMetaFromListAllRow :: "vault_env \<Rightarrow> string \<Rightarrow> entry_row \<Rightarrow> entry_info \<Rightarrow> vaultEntryMeta" where
  "vaultMetaFromListAllRow e eid r i = (shown e eid r i)\<lparr>vm_UserID := user_id r\<rparr>"

text \<open>The query behind this conversion does not select the collection.\<close>

definition vaultMetaFromListByUserRow :: "vault_env \<Rightarrow> string \<Rightarrow> entry_row \<Rightarrow> entry_info \<Rightarrow> vaultEntryMeta" where
  "vaultMetaFromListByUserRow e eid r i = (shown e eid r i)\<lparr>vm_UserID := user_id r\<rparr>"

definition vaultMetaFromAccessibleRow :: "vault_env \<Rightarrow> string \<Rightarrow> entry_row \<Rightarrow> entry_info \<Rightarrow> vaultEntryMeta" where
  "vaultMetaFromAccessibleRow e eid r i = (shown e eid r i)\<lparr>vm_UserID := user_id r, vm_CollectionID := collection_id r\<rparr>"

definition vaultMetaFromMatchAccessibleRow :: "vault_env \<Rightarrow> string \<Rightarrow> entry_row \<Rightarrow> entry_info \<Rightarrow> vaultEntryMeta" where
  "vaultMetaFromMatchAccessibleRow e eid r i = (shown e eid r i)\<lparr>vm_CollectionID := collection_id r\<rparr>"

definition sortEntriesByName :: "vault_env \<Rightarrow> vaultEntryMeta list \<Rightarrow> vaultEntryMeta list" where
  "sortEntriesByName e ms = sort_key (\<lambda>m. (ve_lower e (vm_Name m), vm_Name m, vm_ID m)) ms"

section \<open>Queries\<close>

definition rows_of :: "vault_db \<Rightarrow> string \<Rightarrow> (string \<times> entry_row \<Rightarrow> bool) \<Rightarrow> (string \<times> entry_row) list option" where
  "rows_of db stmt P = (if fails (vstore db) stmt then None else Some (filter P (entries (vstore db))))"

text \<open>Personal entries of an enabled user and the entries of collections the user has joined.\<close>

definition accessible :: "store \<Rightarrow> string \<Rightarrow> entry_row \<Rightarrow> bool" where
  "accessible s uid r \<longleftrightarrow>
     (case map_of (users s) uid of Some u \<Rightarrow> disabled u = 0 | None \<Rightarrow> False) \<and>
     (case collection_id r of None \<Rightarrow> user_id r = uid | Some c \<Rightarrow> accepted_role s c uid \<noteq> None)"

definition ListAllVaultEntries :: "vault_db \<Rightarrow> (string \<times> entry_row) list option" where
  "ListAllVaultEntries db = map_option (sort_key fst) (rows_of db ''ListAllVaultEntries'' (\<lambda>_. True))"

definition ListVaultEntriesByUser :: "string \<Rightarrow> vault_db \<Rightarrow> (string \<times> entry_row) list option" where
  "ListVaultEntriesByUser uid db = map_option (sort_key fst) (rows_of db ''ListVaultEntriesByUser'' (\<lambda>(_, r). user_id r = uid))"

definition ListAccessibleVaultEntries :: "string \<Rightarrow> vault_db \<Rightarrow> (string \<times> entry_row) list option" where
  "ListAccessibleVaultEntries uid db =
     map_option (sort_key (\<lambda>(_, r). entry_name r)) (rows_of db ''ListAccessibleVaultEntries'' (\<lambda>(_, r). accessible (vstore db) uid r))"

definition standard_policy :: "store \<Rightarrow> string option \<Rightarrow> bool" where
  "standard_policy s cid \<longleftrightarrow> (case cid of None \<Rightarrow> True | Some c \<Rightarrow> map_of (collections s) c = Some ''standard'')"

definition ListAccessibleVaultEntriesWithSecrets :: "string \<Rightarrow> int \<Rightarrow> vault_db \<Rightarrow> (string \<times> entry_row) list option" where
  "ListAccessibleVaultEntriesWithSecrets uid privateIngress db =
     map_option (sort_key (\<lambda>(_, r). entry_name r))
       (rows_of db ''ListAccessibleVaultEntriesWithSecrets''
          (\<lambda>(_, r). accessible (vstore db) uid r \<and> (privateIngress = 1 \<or> standard_policy (vstore db) (collection_id r))))"

definition indexed :: "string \<Rightarrow> entry_row \<Rightarrow> bool" where
  "indexed bidx r \<longleftrightarrow> url_bidx r \<noteq> [] \<and> url_bidx r = bidx \<or> alias_url_bidx r \<noteq> [] \<and> alias_url_bidx r = bidx"

definition MatchPersonalVaultEntriesByURL :: "string \<Rightarrow> string \<Rightarrow> vault_db \<Rightarrow> (string \<times> entry_row) list option" where
  "MatchPersonalVaultEntriesByURL uid bidx db =
     map_option (sort_key (\<lambda>(_, r). entry_name r))
       (rows_of db ''MatchPersonalVaultEntriesByURL'' (\<lambda>(_, r). collection_id r = None \<and> user_id r = uid \<and> indexed bidx r))"

definition MatchCollectionVaultEntriesByURL :: "string \<Rightarrow> string \<Rightarrow> vault_db \<Rightarrow> (string \<times> entry_row) list option" where
  "MatchCollectionVaultEntriesByURL cid bidx db =
     map_option (sort_key (\<lambda>(_, r). entry_name r))
       (rows_of db ''MatchCollectionVaultEntriesByURL'' (\<lambda>(_, r). collection_id r = Some cid \<and> indexed bidx r))"

definition ListCollectionsForUser :: "string \<Rightarrow> vault_db \<Rightarrow> (string \<times> string) list option" where
  "ListCollectionsForUser uid db =
     (if fails (vstore db) ''ListCollectionsForUser'' then None
      else Some (sort_key (\<lambda>(c, _). null_text (map_of (vd_coll_name db) c))
                   (filter (\<lambda>(c, _). accepted_role (vstore db) c uid \<noteq> None) (collections (vstore db)))))"

definition GetVaultEntryName :: "store \<Rightarrow> string \<Rightarrow> string fetched" where
  "GetVaultEntryName s eid = fetch s ''GetVaultEntryName'' (map_option entry_name (map_of (entries s) eid))"

definition GetUserPasswordHash :: "account_db \<Rightarrow> string \<Rightarrow> string fetched" where
  "GetUserPasswordHash db uid = fetch (base db) ''GetUserPasswordHash'' (map_option password_hash (map_of (accounts db) uid))"

section \<open>Revealing values\<close>

record vaultEntryFull = vaultEntryMeta +
  vm_Value :: string

definition revealMetadataColumn :: "vault_env \<Rightarrow> string \<Rightarrow> string \<Rightarrow> field \<Rightarrow> bool \<Rightarrow> string option" where
  "revealMetadataColumn e stored fallback f requireComplete =
     (if \<not> requireComplete then Some (column e stored fallback f)
      else case vopen e stored f of Inl _ \<Rightarrow> None | Inr plain \<Rightarrow> Some plain)"

text \<open>\<open>ve_fields\<close> parses what the strict decoder of the export accepts as well; trailing text and unknown members are left to it.\<close>

definition validateExportCustomFields :: "vault_env \<Rightarrow> string \<Rightarrow> bool" where
  "validateExportCustomFields e stored =
     (case vopen e stored vaultFieldCustomFields of
        Inl _ \<Rightarrow> False
      | Inr content \<Rightarrow>
         (case parse_fields (ve_fields e) (if content = [] then ''[]'' else content) of
            None \<Rightarrow> False
          | Some fs \<Rightarrow> \<not> list_ex cf_Withheld fs \<and> validatePortableCustomFields fs = None))"

definition validateExportProviderMeta :: "vault_env \<Rightarrow> string \<Rightarrow> bool" where
  "validateExportProviderMeta e content =
     (case unmarshal_fields (ve_json e) (if content = [] then ''{}'' else content) of Object _ \<Rightarrow> True | _ \<Rightarrow> False)"

definition parseExportDestinationPatterns :: "vault_env \<Rightarrow> string \<Rightarrow> string list option" where
  "parseExportDestinationPatterns e content =
     (if content = [] then Some []
      else case unmarshal_strings (ve_json e) content of
             None \<Rightarrow> None
           | Some ps \<Rightarrow>
              if ValidateDestinationPatterns ps \<noteq> None \<or> ps \<noteq> NormalizeDestinationPatterns ps then None else Some ps)"

definition reveal_value :: "vault_env \<Rightarrow> Secret_Exit.authority \<Rightarrow> string \<Rightarrow> string \<Rightarrow> string \<Rightarrow> entry_row \<Rightarrow> string option" where
  "reveal_value e a uid operation eid r =
     (case OpenEntrySecret (vcipher e) (ve_keys e) a (encrypted_value r) (entry_nonce r) 2 (entryOrigin eid (entry_name r)) of
        Inl _ \<Rightarrow> None
      | Inr opened \<Rightarrow> (case ExitString [] opened (ToCaller operation uid) of Inl _ \<Rightarrow> None | Inr (_, v) \<Rightarrow> Some v))"

definition reveal_patterns :: "vault_env \<Rightarrow> bool \<Rightarrow> string \<Rightarrow> string list option" where
  "reveal_patterns e requireComplete content =
     (if requireComplete then parseExportDestinationPatterns e content else Some (parseDestinationPatterns (ve_json e) content))"

definition reveal_entry :: "vault_env \<Rightarrow> Secret_Exit.authority \<Rightarrow> string \<Rightarrow> string \<Rightarrow> bool \<Rightarrow> vault_db \<Rightarrow> string \<times> entry_row \<Rightarrow> unit + vaultEntryFull" where
  "reveal_entry e a uid operation requireComplete db row =
     (let eid = fst row; r = snd row; i = info_of db eid;
          col = (\<lambda>stored fallback f. present (revealMetadataColumn e stored fallback f requireComplete) ())
      in attempt (col (null_text (provider_meta r)) ''{}'' vaultFieldProviderMeta) (\<lambda>meta.
         attempt (ensure (requireComplete \<longrightarrow> validateExportProviderMeta e meta) ()) (\<lambda>_.
         let visible = providerMetaForCaller (ve_json e) (ve_fields e) a eid (entry_name r) (null_text (provider r)) meta uid
         in
         attempt (ensure (requireComplete \<longrightarrow> snd visible = []) ()) (\<lambda>_.
         attempt (col (entry_name r) [] vaultFieldName) (\<lambda>nm.
         attempt (col (null_text (url r)) [] vaultFieldURL) (\<lambda>u.
         attempt (col (null_text (alias_url r)) [] vaultFieldAliasURL) (\<lambda>al.
         attempt (col (null_text (username r)) [] vaultFieldUsername) (\<lambda>un.
         attempt (col (null_text (category r)) [] vaultFieldCategory) (\<lambda>cat.
         attempt (col (null_text (entry_notes r)) [] vaultFieldNotes) (\<lambda>nt.
         attempt (ensure (requireComplete \<longrightarrow> validateExportCustomFields e (custom_fields r)) ()) (\<lambda>_.
         let fs = customFieldsForCaller (vcipher e) (ve_keys e) (ve_fields e) a eid (entry_name r) (custom_fields r) uid True
         in
         attempt (ensure (requireComplete \<longrightarrow> \<not> list_ex cf_Withheld fs) ()) (\<lambda>_.
         attempt (present (reveal_patterns e requireComplete (destination_patterns r)) ()) (\<lambda>ps.
         let value = reveal_value e a uid operation eid r
         in
         attempt (ensure (requireComplete \<longrightarrow> value \<noteq> None) ()) (\<lambda>_.
         let m = with_status e ((shown e eid r i)\<lparr>vm_CollectionID := collection_id r, vm_Name := nm, vm_URL := u, vm_AliasURL := al,
                    vm_Username := un, vm_Category := cat, vm_Notes := nt,
                    vm_ProviderMeta := redactReservedProviderMetaKeys (ve_json e) (fst visible), vm_ProviderMetaWithheld := snd visible,
                    vm_PendingRevoke := pendingRevokeStatusFrom (ve_json e) (ve_url e) meta,
                    vm_CustomFields := fs, vm_DestinationPatterns := ps\<rparr>)
         in Inr (vaultEntryMeta.extend m \<lparr>vm_Value = (case value of Some v \<Rightarrow> v | None \<Rightarrow> ''[decryption error]'')\<rparr>)))))))))))))))"

definition revealAccessibleVaultEntries ::
  "vault_env \<Rightarrow> Secret_Exit.authority \<Rightarrow> request \<Rightarrow> string \<Rightarrow> string \<Rightarrow> bool \<Rightarrow> vault_db \<Rightarrow> unit + vaultEntryFull list" where
  "revealAccessibleVaultEntries e a r uid operation requireComplete db =
     attempt (present (ListAccessibleVaultEntriesWithSecrets uid (privateIngressSQLFlag r) db) ()) (\<lambda>rows.
     attempt (attempt_all (reveal_entry e a uid operation requireComplete db) rows) (\<lambda>fulls.
     Inr (sort_key (\<lambda>m. (vm_Name m, vm_ID m)) fulls)))"

end
