(* ===== verification/Vault_Entries.thy ===== *)
theory Vault_Entries
  imports Entry_View User_Admin
begin

text \<open>
  The handlers on vault entries in \<^verbatim>\<open>handlers/vault.go\<close>: listing, matching by URL, creation with the capability preset of a
  provider, the move between vaults, deletion, the rotation schedule, and the unlock that a password
  guards, with the statements they run.

  A handler takes the decoded body (\<open>None\<close> for a body that is no JSON) and the query arguments it
  reads, and gives its answer and the new state.  A transaction that does not commit leaves the state.  What an
  activity line says is not kept.
\<close>

datatype vault_answer =
    VReply response
  | VEntry int vaultEntryMeta
  | VEntries "vaultEntryMeta list"
  | VUnlocked headers "vaultEntryFull list"
  | VStatus string
  | VNoContent

definition lib_of :: "vault_env \<Rightarrow> entry_lib" where
  "lib_of e = vlib e vaultFieldRotationTargets"

abbreviation exit_of :: "vault_env \<Rightarrow> vault_db \<Rightarrow> Secret_Exit.authority" where
  "exit_of e db \<equiv> AuthorizeSecretExit (lib_of e) (vstore db)"

abbreviation ise :: "headers \<Rightarrow> request \<Rightarrow> response" where
  "ise w r \<equiv> writeInternalError w r ''internal server error''"

abbreviation store_failed :: "headers \<Rightarrow> request \<Rightarrow> response" where
  "store_failed w r \<equiv> writeInternalError w r ''failed to store secret''"

abbreviation no_entry :: "headers \<Rightarrow> request \<Rightarrow> response" where
  "no_entry w r \<equiv> writeNotFound w r ''vault entry not found''"

definition begun :: "vault_db \<Rightarrow> response \<Rightarrow> response + unit" where
  "begun db resp = ensure (\<not> fails (vstore db) ''BeginTx'') resp"

definition commits :: "vault_db \<Rightarrow> response \<Rightarrow> response + unit" where
  "commits db resp = ensure (\<not> fails (vstore db) ''Commit'') resp"

section \<open>Statements\<close>

definition vexec :: "vault_db \<Rightarrow> string \<Rightarrow> store \<Rightarrow> vault_db option" where
  "vexec db stmt s = (if fails (vstore db) stmt then None else Some (put_store db s))"

definition DeleteVaultEntry :: "string \<Rightarrow> vault_db \<Rightarrow> (vault_db \<times> nat) option" where
  "DeleteVaultEntry eid db =
     (if fails (vstore db) ''DeleteVaultEntry'' then None
      else Some ((put_store db ((vstore db)\<lparr>entries := sql_delete eid (entries (vstore db))\<rparr>))\<lparr>vd_info := sql_delete eid (vd_info db)\<rparr>,
                 if eid \<in> fst ` set (entries (vstore db)) then 1 else 0))"

definition UpdateVaultEntryCustomFields :: "int \<Rightarrow> string \<Rightarrow> string \<Rightarrow> vault_db \<Rightarrow> vault_db option" where
  "UpdateVaultEntryCustomFields t cf eid db =
     vexec db ''UpdateVaultEntryCustomFields'' (update_entry (vstore db) eid (\<lambda>r. r\<lparr>custom_fields := cf, updated_at := t\<rparr>))"

definition UpdateVaultEntryRotationInterval :: "int \<Rightarrow> int option \<Rightarrow> string \<Rightarrow> vault_db \<Rightarrow> vault_db option" where
  "UpdateVaultEntryRotationInterval t days eid db =
     vexec db ''UpdateVaultEntryRotationInterval'' (update_entry (vstore db) eid (\<lambda>r. r\<lparr>rotation_interval_days := days, updated_at := t\<rparr>))"

definition SetVaultEntryCollection :: "int \<Rightarrow> string option \<Rightarrow> string \<Rightarrow> string \<Rightarrow> store \<Rightarrow> write_error + store" where
  "SetVaultEntryCollection t cid nameBidx eid s =
     constrained (exec s ''SetVaultEntryCollection''
       (update_entry s eid (\<lambda>r. r\<lparr>collection_id := cid, name_bidx := nameBidx, updated_at := t\<rparr>)))"

definition UpdateVaultEntryMetaAtRest :: "entry_row \<Rightarrow> string \<Rightarrow> store \<Rightarrow> write_error + store" where
  "UpdateVaultEntryMetaAtRest p eid s =
     constrained (exec s ''UpdateVaultEntryMetaAtRest''
       (update_entry s eid (\<lambda>r. r\<lparr>entry_name := entry_name p, url := url p, alias_url := alias_url p, username := username p,
          category := category p, entry_notes := entry_notes p, url_bidx := url_bidx p, alias_url_bidx := alias_url_bidx p,
          name_bidx := name_bidx p\<rparr>)))"

text \<open>The insert of an entry: an identifier or a name token that is already there violates a unique index.\<close>

definition insert_entry :: "int \<Rightarrow> ticket \<Rightarrow> string \<Rightarrow> entry_row \<Rightarrow> vault_db \<Rightarrow> write_error + vault_db" where
  "insert_entry t tk eid row db =
     (if Authorizes tk eid FieldProvider = None \<and> \<not> fails (vstore db) ''CreateVaultEntry'' \<and> eid \<in> fst ` set (entries (vstore db))
      then Inl UniqueViolation
      else case constrained (CreateEntry (vstore db) tk eid row) of
             Inl err \<Rightarrow> Inl err
           | Inr s \<Rightarrow> Inr ((put_store db s)\<lparr>vd_info := vd_info db @ [(eid, no_info\<lparr>ei_created_at := Some t\<rparr>)]\<rparr>))"

section \<open>Listing and matching\<close>

definition List_rows :: "vault_env \<Rightarrow> string \<Rightarrow> string \<Rightarrow> request \<Rightarrow> vault_db \<Rightarrow> vaultEntryMeta list option" where
  "List_rows e all userIDArg r db =
     (if IsAdmin r \<and> all = ''true''
      then map_option (map (\<lambda>(i, row). (vaultMetaFromListAllRow e i row (info_of db i))\<lparr>vm_CollectionID := collection_id row\<rparr>)) (ListAllVaultEntries db)
      else if IsAdmin r \<and> userIDArg \<noteq> []
      then map_option (map (\<lambda>(i, row). vaultMetaFromListByUserRow e i row (info_of db i))) (ListVaultEntriesByUser userIDArg db)
      else map_option (map (\<lambda>(i, row). (vaultMetaFromAccessibleRow e i row (info_of db i))\<lparr>vm_UserID := []\<rparr>))
             (ListAccessibleVaultEntries (GetUserID r) db))"

definition List :: "vault_env \<Rightarrow> string \<Rightarrow> string \<Rightarrow> request \<Rightarrow> headers \<Rightarrow> vault_db \<Rightarrow> vault_answer \<times> vault_db" where
  "List e all userIDArg r w db =
     settle VReply db
       (attempt (begun db (ise w r)) (\<lambda>_.
        attempt (present (collectionPolicyMap (vstore db)) (writeInternalError w r ''private access policy could not be verified'')) (\<lambda>policies.
        attempt (present (List_rows e all userIDArg r db) (ise w r)) (\<lambda>ms.
        attempt (commits db (ise w r)) (\<lambda>_.
        Inr (VEntries (sortEntriesByName e (map (with_status e)
               (filter (\<lambda>m. entryMetadataVisibleOnIngress r (vm_CollectionID m) policies) ms))), db))))))"

text \<open>Rows already seen are left out.\<close>

fun append_rows :: "vault_env \<Rightarrow> vault_db \<Rightarrow> (string \<times> entry_row) list \<Rightarrow> vaultEntryMeta list \<Rightarrow> vaultEntryMeta list" where
  "append_rows e db [] sofar = sofar"
| "append_rows e db ((i, row) # rows) sofar =
     append_rows e db rows
       (if i \<in> vm_ID ` set sofar then sofar else sofar @ [with_status e (vaultMetaFromMatchAccessibleRow e i row (info_of db i))])"

fun match_personal :: "vault_env \<Rightarrow> vault_db \<Rightarrow> string \<Rightarrow> string list \<Rightarrow> vaultEntryMeta list \<Rightarrow> vaultEntryMeta list option" where
  "match_personal e db uid [] sofar = Some sofar"
| "match_personal e db uid (b # bs) sofar =
     (case MatchPersonalVaultEntriesByURL uid b db of
        None \<Rightarrow> None
      | Some rows \<Rightarrow> match_personal e db uid bs (append_rows e db rows sofar))"

fun match_collection :: "vault_env \<Rightarrow> vault_db \<Rightarrow> string \<Rightarrow> string list \<Rightarrow> vaultEntryMeta list \<Rightarrow> vaultEntryMeta list" where
  "match_collection e db cid [] sofar = sofar"
| "match_collection e db cid (b # bs) sofar =
     match_collection e db cid bs
       (case MatchCollectionVaultEntriesByURL cid b db of None \<Rightarrow> sofar | Some rows \<Rightarrow> append_rows e db rows sofar)"

fun match_collections :: "vault_env \<Rightarrow> request \<Rightarrow> vault_db \<Rightarrow> string \<Rightarrow> (string \<times> string) list \<Rightarrow> vaultEntryMeta list \<Rightarrow> vaultEntryMeta list option" where
  "match_collections e r db rawURL [] sofar = Some sofar"
| "match_collections e r db rawURL ((cid, policy) # cs) sofar =
     (case privateMetadataVisible r policy of
        Inl _ \<Rightarrow> None
      | Inr visible \<Rightarrow>
         match_collections e r db rawURL cs
           (if visible
            then match_collection e db cid (urlBlindIndexCandidates (ve_mac e) (ve_url e) (ve_keys e) (bidxScope [] (Some cid)) rawURL) sofar
            else sofar))"

definition Match :: "vault_env \<Rightarrow> string \<Rightarrow> request \<Rightarrow> headers \<Rightarrow> vault_db \<Rightarrow> vault_answer \<times> vault_db" where
  "Match e rawURL r w db =
     settle VReply db
       (attempt (ensure (rawURL \<noteq> []) (writeBadRequest w r ''url parameter is required'')) (\<lambda>_.
        attempt (ensure (normalizeVaultHost (ve_url e) rawURL \<noteq> []) (writeBadRequest w r ''invalid URL'')) (\<lambda>_.
        attempt (begun db (ise w r)) (\<lambda>_.
        attempt (present (match_personal e db (GetUserID r)
                   (urlBlindIndexCandidates (ve_mac e) (ve_url e) (ve_keys e) (bidxScope (GetUserID r) None) rawURL) []) (ise w r)) (\<lambda>personal.
        attempt (present (ListCollectionsForUser (GetUserID r) db) (ise w r)) (\<lambda>cs.
        attempt (present (match_collections e r db rawURL cs personal)
                   (writeInternalError w r ''private access policy could not be verified'')) (\<lambda>ms.
        attempt (commits db (ise w r)) (\<lambda>_.
        Inr (VEntries ms, db)))))))))"

section \<open>Creation\<close>

record create_request =
  cr_Name :: string
  cr_Value :: string
  cr_URL :: string
  cr_AliasURL :: string
  cr_Username :: string
  cr_Category :: string
  cr_Notes :: string
  cr_AutoLogin :: bool
  cr_RotationIntervalDays :: "int option"
  cr_ExpiresAt :: "string option"
  cr_Provider :: string
  cr_ProviderMeta :: string
  cr_AutoRotate :: bool
  cr_CollectionID :: "string option"
  cr_CustomFields :: "CustomField list"

definition providerDestinations :: "vault_env \<Rightarrow> string \<Rightarrow> provider_metadata \<Rightarrow> string list" where
  "providerDestinations e prov meta =
     (let allow = declaredProviderEgress (ve_url e) prov meta
      in Hosts allow @ map (\<lambda>s. ''*'' @ to_lower s) (Suffixes allow))"

definition boolToInt64 :: "bool \<Rightarrow> int" where
  "boolToInt64 b = (if b then 1 else 0)"

definition create_validate :: "vault_env \<Rightarrow> headers \<Rightarrow> request \<Rightarrow> create_request \<Rightarrow> response + create_request" where
  "create_validate e w r req =
     attempt (relabel (writeBadRequest w r)
       (validateLiveEntryText \<lparr>in_Name = Some (cr_Name req), in_Value = Some (cr_Value req), in_URL = Some (cr_URL req),
          in_AliasURL = Some (cr_AliasURL req), in_Username = Some (cr_Username req), in_Notes = Some (cr_Notes req)\<rparr> True True)) (\<lambda>t.
     attempt (ensure (vaultEntryCategoryValid (cr_Category req)) (writeBadRequest w r ''invalid category'')) (\<lambda>_.
     attempt (passed (map_option (writeBadRequest w r) (validateRotationIntervalDays (cr_RotationIntervalDays req)))) (\<lambda>_.
     attempt (relabel (\<lambda>x. writeBadRequest w r (field_error_text (ve_fields e) x)) (validateCustomFields (cr_CustomFields req))) (\<lambda>fs.
     Inr (req\<lparr>cr_Name := null_text (in_Name t), cr_URL := null_text (in_URL t), cr_AliasURL := null_text (in_AliasURL t),
              cr_Username := null_text (in_Username t), cr_CustomFields := fs\<rparr>)))))"

definition chosen_collection :: "string option \<Rightarrow> string option" where
  "chosen_collection c = (if c = Some [] then None else c)"

record prepared_entry =
  pe_id :: string
  pe_row :: entry_row
  pe_fields :: string
  pe_ticket :: ticket

definition created_row ::
  "vault_env \<Rightarrow> string \<Rightarrow> create_request \<Rightarrow> string \<Rightarrow> bytes \<Rightarrow> bytes \<Rightarrow> string list \<Rightarrow> int option \<Rightarrow> string \<Rightarrow> entry_row" where
  "created_row e uid req nm ct nonce cols expires meta =
     (let cid = chosen_collection (cr_CollectionID req); scope = bidxScope uid cid
      in (blank_entry uid cid)\<lparr>entry_name := nm, encrypted_value := ct, entry_nonce := nonce,
           url := toNullString (cols ! 0), alias_url := toNullString (cols ! 1), username := toNullString (cols ! 2),
           category := toNullString (cols ! 3), entry_notes := toNullString (cols ! 4),
           auto_login := boolToInt64 (cr_AutoLogin req), rotation_interval_days := cr_RotationIntervalDays req, expires_at := expires,
           provider := toNullString (cr_Provider req), provider_meta := toNullString meta,
           auto_rotate := Some (boolToInt64 (cr_AutoRotate req)),
           url_bidx := urlBlindIndex (ve_mac e) (ve_url e) (ve_keys e) scope (cr_URL req),
           alias_url_bidx := urlBlindIndex (ve_mac e) (ve_url e) (ve_keys e) scope (cr_AliasURL req),
           name_bidx := scopedNameBlindIndex (ve_mac e) (ve_keys e) scope (cr_Name req), updated_at := vclock e\<rparr>)"

text \<open>Everything before the transaction: the sealed columns, the tokens and the egress ticket of the creator.\<close>

definition create_prepare :: "vault_env \<Rightarrow> headers \<Rightarrow> request \<Rightarrow> create_request \<Rightarrow> response + prepared_entry" where
  "create_prepare e w r req =
     (let uid = GetUserID r;
          meta0 = (if cr_ProviderMeta req = [] then ''{}'' else cr_ProviderMeta req)
      in attempt (present (Seal (vcipher e) (key_value (current (ve_keys e))) (cr_Value req) (ve_rnd e ''value''))
                    (writeInternalError w r ''failed to encrypt secret'')) (\<lambda>(ct, nonce).
         attempt (present (read_full (ve_rnd e ''id'') 16) (ise w r)) (\<lambda>idBytes.
         let eid = hex_encode idBytes in
         attempt (passed (map_option (\<lambda>bad. writeValidationError w r
                    (''provider_meta may not contain '' @ bad @ '': that key is written by the rotation engine itself''))
                    (rejectReservedProviderMetaKeys (ParseProviderMeta (ve_json e) meta0)))) (\<lambda>_.
         attempt (present (vseal e ''provider_meta'' meta0) (ise w r)) (\<lambda>meta.
         attempt (present (encryptMetaColumns (vcipher e) (ve_keys e)
                    [(cr_URL req, ve_rnd e ''url''), (cr_AliasURL req, ve_rnd e ''alias_url''), (cr_Username req, ve_rnd e ''username''),
                     (cr_Category req, ve_rnd e ''category''), (cr_Notes req, ve_rnd e ''notes'')]) (ise w r)) (\<lambda>cols.
         attempt (present (vseal e ''name'' (cr_Name req)) (ise w r)) (\<lambda>nm.
         attempt (relabel (writeValidationError w r) (stringPtrToNullTime e (cr_ExpiresAt req))) (\<lambda>expires.
         attempt (if cr_CustomFields req = [] then Inr []
                  else present (encryptCustomFields (vcipher e) (ve_keys e) (ve_fields e) (ve_rnd e ''custom_fields'') (cr_CustomFields req))
                         (store_failed w r)) (\<lambda>cf.
         attempt (relabel (\<lambda>_. ise w r)
                    (Decide \<lparr>EntryID = eid, What = FieldProvider, Before = [],
                             After = providerDestinations e (cr_Provider req) (ParseProviderMeta (ve_json e) (cr_ProviderMeta req)),
                             Covers = Some providerDestinationCovers, MayRedirect = Some True\<rparr>)) (\<lambda>tk.
         Inr \<lparr>pe_id = eid, pe_row = created_row e uid req nm ct nonce cols expires meta, pe_fields = cf, pe_ticket = tk\<rparr>))))))))))"

definition preset_patterns :: "vault_env \<Rightarrow> string \<Rightarrow> string option" where
  "preset_patterns e dests =
     (if dests = [] then Some ''[]''
      else case unmarshal_strings (ve_json e) dests of
             None \<Rightarrow> None
           | Some ps \<Rightarrow>
              (let norm = NormalizeDestinationPatterns ps
               in if ValidateDestinationPatterns norm \<noteq> None then None else Some (ve_print_strings e norm)))"

text \<open>Best effort: a preset that cannot be derived, is not authorised or cannot be written leaves the state.\<close>

definition seedCapabilityDefaults :: "vault_env \<Rightarrow> string \<Rightarrow> string \<Rightarrow> bool \<Rightarrow> vault_db \<Rightarrow> vault_db" where
  "seedCapabilityDefaults e eid prov mayWiden db =
     (if prov = [] then db
      else let meta = (case GetVaultEntryMeta (vstore db) eid of
                         Row row \<Rightarrow> ParseProviderMeta (ve_json e) (column e (null_text (provider_meta row)) ''{}'' vaultFieldProviderMeta)
                       | _ \<Rightarrow> Map.empty);
               preset = MarshalCapabilityDefaults (ve_print_strings e) (ve_print_spec e) prov meta
           in if fst preset = [] \<and> snd preset = [] then db
              else case preset_patterns e (fst preset) of
                     None \<Rightarrow> db
                   | Some dests \<Rightarrow>
                      (case Decide \<lparr>EntryID = eid, What = FieldDestinations, Before = [],
                                    After = ceilingDestinations (parseDestinationPatterns (ve_json e) dests),
                                    Covers = Some destinationCovers, MayRedirect = Some mayWiden\<rparr> of
                         Inl _ \<Rightarrow> db
                       | Inr tk \<Rightarrow>
                          (case SeedCapabilityDefaults (vclock e) (vstore db) tk dests (if snd preset = [] then ''{}'' else snd preset) eid of
                             Inl _ \<Rightarrow> db
                           | Inr s \<Rightarrow> put_store db s)))"

text \<open>The transaction of a creation.\<close>

definition create_commit :: "vault_env \<Rightarrow> headers \<Rightarrow> request \<Rightarrow> create_request \<Rightarrow> prepared_entry \<Rightarrow> vault_db \<Rightarrow> response + vault_answer \<times> vault_db" where
  "create_commit e w r req p db =
     (let uid = GetUserID r; cid = chosen_collection (cr_CollectionID req); eid = pe_id p;
          taken = writeConflict w r ''a vault entry with that name already exists''
      in attempt (begun db (store_failed w r)) (\<lambda>_.
         attempt (passed (case cid of None \<Rightarrow> None
                          | Some c \<Rightarrow> requireWritableCollectionDestination (canWriteCollection (vstore db) r) (vstore db) w r c)) (\<lambda>_.
         attempt (present (vaultEntryNameExistsInScope (vcipher e) (ve_keys e) (vstore db) uid cid (cr_Name req) []) (store_failed w r)) (\<lambda>dup.
         attempt (ensure (\<not> dup) taken) (\<lambda>_.
         attempt (relabel (\<lambda>err. if err = UniqueViolation then taken else store_failed w r)
                    (insert_entry (vclock e) (pe_ticket p) eid (pe_row p) db)) (\<lambda>db1.
         attempt (if pe_fields p = [] then Inr db1
                  else present (UpdateVaultEntryCustomFields (vclock e) (pe_fields p) eid db1) (store_failed w r)) (\<lambda>db2.
         let db3 = seedCapabilityDefaults e eid (cr_Provider req) True db2 in
         attempt (row_or (store_failed w r) (store_failed w r) (GetVaultEntryMeta (vstore db3) eid)) (\<lambda>row.
         attempt (commits db3 (store_failed w r)) (\<lambda>_.
         Inr (VEntry 201 ((vaultMetaFromGetRow e (exit_of e db) uid eid row (info_of db3 eid))\<lparr>vm_CollectionID := cid\<rparr>),
              vlog e r ''vault.entry_created'' (sealSecretName e (cr_Name req) db3)))))))))))"

definition Create :: "vault_env \<Rightarrow> create_request option \<Rightarrow> request \<Rightarrow> headers \<Rightarrow> vault_db \<Rightarrow> vault_answer \<times> vault_db" where
  "Create e body r w db =
     settle VReply db
       (attempt (present body (writeBadRequest w r ''invalid JSON'')) (\<lambda>req0.
        attempt (create_validate e w r req0) (\<lambda>req.
        attempt (create_prepare e w r req) (\<lambda>p.
        create_commit e w r req p db))))"

section \<open>Moving and deleting\<close>

definition collectionLabel :: "string \<Rightarrow> string" where
  "collectionLabel cid = (if cid = [] then ''personal'' else cid)"

definition move_allowed :: "headers \<Rightarrow> request \<Rightarrow> string \<Rightarrow> string \<Rightarrow> string \<Rightarrow> string \<Rightarrow> store \<Rightarrow> response option" where
  "move_allowed w r eid owner source destination s =
     (if source \<noteq> [] \<and> requireCollectionPrivateAccess s w r source privateAccessSensitive \<noteq> None
      then requireCollectionPrivateAccess s w r source privateAccessSensitive
      else if source \<noteq> [] \<and> \<not> canMoveEntryOutOfCollection s r owner source
      then Some (writeForbidden w r ''only the entry owner, a manager of the current collection, or an admin can move this entry out of it'')
      else if destination = [] then None
      else if destination \<noteq> source then requireWritableCollectionDestination (canWriteCollection s r) s w r destination
      else if \<not> canWriteCollection s r destination then Some (writeForbidden w r ''you do not have write access to that collection'')
      else None)"

definition MoveToCollection ::
  "vault_env \<Rightarrow> string option option \<Rightarrow> string \<Rightarrow> request \<Rightarrow> headers \<Rightarrow> vault_db \<Rightarrow> vault_answer \<times> vault_db" where
  "MoveToCollection e body eid r w db =
     (let s = vstore db;
          taken = writeConflict w r ''a vault entry with that name already exists in the destination vault''
      in settle VReply db
       (attempt (present body (writeBadRequest w r ''invalid JSON'')) (\<lambda>cid0.
        let target = chosen_collection cid0 in
        attempt (begun db (ise w r)) (\<lambda>_.
        attempt (ensure (snd (entryAccess s r eid)) (no_entry w r)) (\<lambda>_.
        attempt (row_or (no_entry w r) (no_entry w r) (GetVaultEntryAccess s eid)) (\<lambda>owned.
        attempt (passed (move_allowed w r eid (user_id owned) (null_text (collection_id owned)) (null_text target) s)) (\<lambda>_.
        attempt (row_or (ise w r) (ise w r) (GetVaultEntryMeta s eid)) (\<lambda>meta.
        attempt (relabel (\<lambda>_. ise w r) (vopen e (entry_name meta) vaultFieldName)) (\<lambda>nm.
        attempt (present (vaultEntryNameExistsInScope (vcipher e) (ve_keys e) s (user_id owned) target nm eid) (ise w r)) (\<lambda>dup.
        attempt (ensure (\<not> dup) taken) (\<lambda>_.
        let scope = bidxScope (user_id owned) target; token = scopedNameBlindIndex (ve_mac e) (ve_keys e) scope nm in
        attempt (relabel (\<lambda>err. if err = UniqueViolation then taken else ise w r)
                   (SetVaultEntryCollection (vclock e) target token eid s)) (\<lambda>s1.
        attempt (relabel (\<lambda>_. ise w r) (vopen e (null_text (url meta)) vaultFieldURL)) (\<lambda>u.
        attempt (relabel (\<lambda>_. ise w r) (vopen e (null_text (alias_url meta)) vaultFieldAliasURL)) (\<lambda>al.
        attempt (relabel (\<lambda>_. ise w r) (UpdateVaultEntryMetaAtRest
                   (meta\<lparr>name_bidx := token, url_bidx := urlBlindIndex (ve_mac e) (ve_url e) (ve_keys e) scope u,
                         alias_url_bidx := urlBlindIndex (ve_mac e) (ve_url e) (ve_keys e) scope al\<rparr>) eid s1)) (\<lambda>s2.
        attempt (commits db (ise w r)) (\<lambda>_.
        Inr (VNoContent,
             (let db1 = put_store db s2;
                  shownName = (case GetVaultEntryName s2 eid of Row stored \<Rightarrow> EntryNamePlain (vcipher e) (ve_keys e) stored | _ \<Rightarrow> ''(unknown)'')
              in vlog e r ''vault.entry_moved'' (sealSecretName e shownName db1)))))))))))))))))))"

definition Delete :: "vault_env \<Rightarrow> string \<Rightarrow> request \<Rightarrow> headers \<Rightarrow> vault_db \<Rightarrow> vault_answer \<times> vault_db" where
  "Delete e eid r w db =
     settle VReply db
       (attempt (begun db (ise w r)) (\<lambda>_.
        attempt (ensure (snd (entryAccess (vstore db) r eid)) (no_entry w r)) (\<lambda>_.
        attempt (passed (requireEntryPrivateAccess (vstore db) w r eid privateAccessSensitive)) (\<lambda>_.
        attempt (case GetVaultEntryName (vstore db) eid of ErrNoRows \<Rightarrow> Inl (no_entry w r) | DBError \<Rightarrow> Inr [] | Row stored \<Rightarrow> Inr stored) (\<lambda>stored.
        attempt (present (DeleteVaultEntry eid db) (ise w r)) (\<lambda>(db1, rows).
        attempt (ensure (rows \<noteq> 0) (no_entry w r)) (\<lambda>_.
        attempt (commits db1 (ise w r)) (\<lambda>_.
        Inr (VStatus ''deleted'', vlog e r ''vault.entry_deleted''
               (sealSecretName e (EntryNamePlain (vcipher e) (ve_keys e) stored) db1))))))))))"

section \<open>The rotation schedule\<close>

definition UpdateSchedule ::
  "vault_env \<Rightarrow> (int \<times> bool) option \<Rightarrow> string \<Rightarrow> request \<Rightarrow> headers \<Rightarrow> vault_db \<Rightarrow> vault_answer \<times> vault_db" where
  "UpdateSchedule e body eid r w db =
     settle VReply db
       (attempt (present body (writeBadRequest w r ''invalid JSON'')) (\<lambda>(days, auto).
        attempt (ensure (days \<in> set [0, 30, 45, 60, 90, 180, 365])
                   (writeBadRequest w r ''rotation_interval_days must be 0, 30, 45, 60, 90, 180, or 365'')) (\<lambda>_.
        attempt (begun db (ise w r)) (\<lambda>_.
        attempt (ensure (snd (entryAccess (vstore db) r eid)) (no_entry w r)) (\<lambda>_.
        attempt (passed (requireEntryPrivateAccess (vstore db) w r eid privateAccessSensitive)) (\<lambda>_.
        attempt (present (UpdateVaultEntryRotationInterval (vclock e) (if days > 0 then Some days else None) eid db)
                   (writeInternalError w r ''failed to update rotation interval'')) (\<lambda>db1.
        attempt (row_or (writeInternalError w r ''failed to fetch entry'') (writeInternalError w r ''failed to fetch entry'')
                   (GetVaultEntryMeta (vstore db1) eid)) (\<lambda>cur.
        let meta = ParseProviderMeta (ve_json e) (column e (null_text (provider_meta cur)) ''{}'' vaultFieldProviderMeta);
            dests = providerDestinations e (null_text (provider cur)) meta
        in
        attempt (relabel (\<lambda>_. ise w r)
                   (Decide \<lparr>EntryID = eid, What = FieldProvider, Before = dests, After = dests, Covers = Some providerDestinationCovers,
                            MayRedirect = Some (mayDirectSecretEgress (vstore db1) (GetUserID r) (IsAdmin r) eid)\<rparr>)) (\<lambda>tk.
        attempt (relabel (\<lambda>_. writeInternalError w r ''failed to update auto_rotate'')
                   (SetProvider (vclock e) (vstore db1) tk (provider cur) (provider_meta cur) (Some (boolToInt64 auto)) eid)) (\<lambda>s2.
        let db2 = put_store db1 s2 in
        attempt (row_or (ise w r) (ise w r) (GetVaultEntryMeta s2 eid)) (\<lambda>row.
        attempt (commits db2 (ise w r)) (\<lambda>_.
        Inr (VEntry 200 (vaultMetaFromGetRow e (exit_of e db) (GetUserID r) eid row (info_of db2 eid)), db2)))))))))))))"

section \<open>Unlocking\<close>

text \<open>The address the failures are counted under, and whether there are too many.  A failed query does not lock.\<close>

definition reauthLocked :: "vault_env \<Rightarrow> string \<Rightarrow> vault_db \<Rightarrow> string \<times> bool" where
  "reauthLocked e uid db =
     (case GetUserEmailByID (vstore db) uid of
        Row addr \<Rightarrow>
          (addr, case CountRecentFailedLoginAttemptsByEmailAndScope (vclock e) addr LoginAttemptScopeSessionReauth (vd_acc db) of
                   None \<Rightarrow> False
                 | Some n \<Rightarrow> n \<ge> 5)
      | _ \<Rightarrow> ([], False))"

definition recordReauthFailure :: "vault_env \<Rightarrow> request \<Rightarrow> string \<Rightarrow> vault_db \<Rightarrow> vault_db" where
  "recordReauthFailure e r addr db =
     (if addr = [] then db
      else db\<lparr>vd_acc := CreateLoginAttempt (vclock e) addr (clientIP (proxy_of (ve_signin e)) r) 0 LoginAttemptScopeSessionReauth (vd_acc db)\<rparr>)"

text \<open>The refusal, if any, and the state with the attempt recorded.\<close>

definition reauthOrRefuse :: "vault_env \<Rightarrow> headers \<Rightarrow> request \<Rightarrow> string \<Rightarrow> string \<Rightarrow> vault_db \<Rightarrow> response option \<times> vault_db" where
  "reauthOrRefuse e w r uid password db =
     (case reauthLocked e uid db of (addr, locked) \<Rightarrow>
        if locked then (Some (writeRateLimited w r ''too many attempts, try again in 15 minutes''), db)
        else case GetUserPasswordHash (vd_acc db) uid of
               Row hash \<Rightarrow>
                 (let verdict = Verify_Password (hash_of (ve_signin e)) (slot_free (ve_signin e) 0) password hash
                  in if verdict = Inr True then (None, db)
                     else case capacityExhausted w r verdict of
                            Some resp \<Rightarrow> (Some resp, db)
                          | None \<Rightarrow> (Some (writeForbidden w r ''incorrect password''), recordReauthFailure e r addr db))
             | _ \<Rightarrow> (Some (writeUnauthorized w r ''user not found''), db))"

definition Unlock :: "vault_env \<Rightarrow> string option \<Rightarrow> request \<Rightarrow> headers \<Rightarrow> vault_db \<Rightarrow> vault_answer \<times> vault_db" where
  "Unlock e body r w db =
     (let password = null_text body; uid = GetUserID r
      in if password = [] then (VReply (writeBadRequest w r ''password is required to unlock the vault''), db)
         else case reauthOrRefuse e w r uid password db of
                (Some resp, db1) \<Rightarrow> (VReply resp, db1)
              | (None, db1) \<Rightarrow>
                 (case revealAccessibleVaultEntries e (exit_of e db1) r uid ''POST /api/vault/unlock'' False db1 of
                    Inl _ \<Rightarrow> (VReply (ise w r), db1)
                  | Inr fulls \<Rightarrow>
                     (VUnlocked (header_set ''Pragma'' ''no-cache'' (header_set ''Cache-Control'' ''no-store, no-cache, must-revalidate'' w)) fulls,
                      vlog e r ''vault.unlocked'' db1)))"

end
