(* ===== verification/Entry_Targets.thy ===== *)
theory Entry_Targets
  imports Vault_Entries
begin

text \<open>
  References to other entries by name (\<^verbatim>\<open>handlers/vault_reference.go\<close>, \<^verbatim>\<open>ResolveReferences\<close> of \<^verbatim>\<open>vault.go\<close>), the authority a
  delivery token needs (\<^verbatim>\<open>vault_auth_token_authority.go\<close>) and the two handlers of an entry's delivery targets.
\<close>

section \<open>References by name\<close>

record reference_row =
  rf_ID :: string
  rf_UserID :: string
  rf_CollectionID :: "string option"
  rf_Name :: string
  rf_EncryptedValue :: bytes
  rf_Nonce :: bytes
  rf_Policy :: "string option"

definition reference_of :: "store \<Rightarrow> string \<times> entry_row \<Rightarrow> reference_row" where
  "reference_of s row =
     \<lparr>rf_ID = fst row, rf_UserID = user_id (snd row), rf_CollectionID = collection_id (snd row), rf_Name = entry_name (snd row),
      rf_EncryptedValue = encrypted_value (snd row), rf_Nonce = entry_nonce (snd row),
      rf_Policy = (case collection_id (snd row) of None \<Rightarrow> None | Some c \<Rightarrow> map_of (collections s) c)\<rparr>"

definition ResolveVaultReference :: "store \<Rightarrow> reference_row list option" where
  "ResolveVaultReference s = (if fails s ''ResolveVaultReference'' then None else Some (map (reference_of s) (entries s)))"

datatype reference_error = RefNoRows | RefQueryFailed | RefPolicyMissing | RefPolicyUnknown | errAmbiguousVaultReference | RefUndecryptable

fun named_rows :: "vault_env \<Rightarrow> string \<Rightarrow> bool \<Rightarrow> reference_row list \<Rightarrow> reference_error + reference_row list" where
  "named_rows e nm hide [] = Inr []"
| "named_rows e nm hide (row # rows) =
     (let keep = attempt (named_rows e nm hide rows)
                   (\<lambda>rest. Inr (if column e (rf_Name row) [] vaultFieldName = nm then row # rest else rest))
      in if hide \<and> rf_CollectionID row \<noteq> None \<and> rf_CollectionID row \<noteq> Some []
         then case rf_Policy row of
                None \<Rightarrow> Inl RefPolicyMissing
              | Some p \<Rightarrow>
                 (case storedPrivateAccessPolicy p of
                    Inl _ \<Rightarrow> Inl RefPolicyUnknown
                  | Inr policy \<Rightarrow> if policy = PolicyFullyPrivate then named_rows e nm hide rows else keep)
         else keep)"

definition resolveVaultReferenceRowForVisibility :: "vault_env \<Rightarrow> store \<Rightarrow> string \<Rightarrow> string \<Rightarrow> bool \<Rightarrow> reference_error + reference_row" where
  "resolveVaultReferenceRowForVisibility e s nm uid hide =
     (if nm = [] \<or> uid = [] then Inl RefNoRows
      else attempt (present (ResolveVaultReference s) RefQueryFailed) (\<lambda>rows.
           attempt (named_rows e nm hide rows) (\<lambda>named.
           case filter (\<lambda>row. entryCurrentlyUsableBy s uid (rf_ID row)) named of
             [] \<Rightarrow> Inl RefNoRows
           | [row] \<Rightarrow> Inr row
           | _ \<Rightarrow> Inl errAmbiguousVaultReference)))"

definition resolveVaultReferenceRowFor :: "vault_env \<Rightarrow> store \<Rightarrow> string \<Rightarrow> string \<Rightarrow> reference_error + reference_row" where
  "resolveVaultReferenceRowFor e s nm uid = resolveVaultReferenceRowForVisibility e s nm uid False"

definition resolvePublicVaultReferenceRowFor :: "vault_env \<Rightarrow> store \<Rightarrow> string \<Rightarrow> string \<Rightarrow> reference_error + reference_row" where
  "resolvePublicVaultReferenceRowFor e s nm uid = resolveVaultReferenceRowForVisibility e s nm uid True"

definition resolveVaultReferenceFor :: "vault_env \<Rightarrow> store \<Rightarrow> string \<Rightarrow> string \<Rightarrow> reference_error + Plaintext" where
  "resolveVaultReferenceFor e s nm uid =
     attempt (resolveVaultReferenceRowFor e s nm uid) (\<lambda>row.
     relabel (\<lambda>_. RefUndecryptable)
       (OpenEntrySecret (vcipher e) (ve_keys e) (AuthorizeSecretExit (lib_of e) s) (rf_EncryptedValue row) (rf_Nonce row) 2
          (entryOrigin (rf_ID row) nm)))"

text \<open>A match of \<^verbatim>\<open>vaultRefPattern\<close> at the start of a text: the name between the braces and what follows.\<close>

definition vault_ref :: "string \<Rightarrow> (string \<times> string) option" where
  "vault_ref s =
     (if has_prefix s ''{{vault:''
      then let body = drop (length ''{{vault:'') s; nm = takeWhile (\<lambda>c. c \<noteq> CHR ''}'') body; rest = dropWhile (\<lambda>c. c \<noteq> CHR ''}'') body
           in if nm \<noteq> [] \<and> has_prefix rest ''}}'' then Some (nm, drop (length ''}}'') rest) else None
      else None)"

lemma has_prefix_split: "has_prefix s p \<Longrightarrow> p @ drop (length p) s = s"
  by (metis append_take_drop_id has_prefix_def)

lemma vault_ref_Some: "vault_ref s = Some (nm, rest) \<longleftrightarrow> s = ''{{vault:'' @ nm @ ''}}'' @ rest \<and> nm \<noteq> [] \<and> CHR ''}'' \<notin> set nm"
proof
  assume v: "vault_ref s = Some (nm, rest)"
  define b where "b = drop (length ''{{vault:'') s"
  define d where "d = dropWhile (\<lambda>c. c \<noteq> CHR ''}'') b"
  have p: "has_prefix s ''{{vault:''" "nm = takeWhile (\<lambda>c. c \<noteq> CHR ''}'') b" "nm \<noteq> []" "has_prefix d ''}}''" "rest = drop (length ''}}'') d"
    using v by (auto simp: vault_ref_def Let_def b_def d_def split: if_splits)
  have "''{{vault:'' @ b = s" unfolding b_def by (rule has_prefix_split [OF p(1)])
  moreover have "b = nm @ d" using p(2) by (simp add: d_def)
  moreover have "''}}'' @ rest = d" unfolding p(5) by (rule has_prefix_split [OF p(4)])
  moreover have "CHR ''}'' \<notin> set nm" using p(2) set_takeWhileD by metis
  ultimately show "s = ''{{vault:'' @ nm @ ''}}'' @ rest \<and> nm \<noteq> [] \<and> CHR ''}'' \<notin> set nm"
    using p(3) by auto
next
  assume a: "s = ''{{vault:'' @ nm @ ''}}'' @ rest \<and> nm \<noteq> [] \<and> CHR ''}'' \<notin> set nm"
  then have "\<forall>c\<in>set nm. c \<noteq> CHR ''}''" by auto
  with a show "vault_ref s = Some (nm, rest)"
    by (simp add: vault_ref_def has_prefix_def Let_def takeWhile_append dropWhile_append)
qed

definition resolved_text :: "vault_env \<Rightarrow> store \<Rightarrow> string \<Rightarrow> Destination \<Rightarrow> string \<Rightarrow> string option" where
  "resolved_text e s uid dest nm =
     (case resolveVaultReferenceFor e s (trim_space nm) uid of
        Inl _ \<Rightarrow> None
      | Inr pt \<Rightarrow> (case ExitString [] pt dest of Inl _ \<Rightarrow> None | Inr (_, v) \<Rightarrow> Some v))"

function replace_refs :: "(string \<Rightarrow> string option) \<Rightarrow> string \<Rightarrow> string" where
  "replace_refs f [] = []"
| "replace_refs f (c # cs) =
     (case vault_ref (c # cs) of
        None \<Rightarrow> c # replace_refs f cs
      | Some (nm, rest) \<Rightarrow> (case f nm of None \<Rightarrow> ''{{vault:'' @ nm @ ''}}'' | Some v \<Rightarrow> v) @ replace_refs f rest)"
  by pat_completeness auto

termination
proof (relation "measure (\<lambda>(f, s). length s)")
  fix c :: char and cs f a nm rest
  assume "vault_ref (c # cs) = Some a" "(nm, rest) = a"
  then have "vault_ref (c # cs) = Some (nm, rest)" by simp
  then have "length (c # cs) = length (''{{vault:'' @ nm @ ''}}'' @ rest)" unfolding vault_ref_Some by metis
  then show "((f, rest), (f, c # cs)) \<in> measure (\<lambda>(f, s). length s)" by simp
qed simp_all

definition ResolveReferences :: "vault_env \<Rightarrow> store \<Rightarrow> string \<Rightarrow> string \<Rightarrow> Destination \<Rightarrow> string" where
  "ResolveReferences e s content uid dest = (if uid = [] then content else replace_refs (resolved_text e s uid dest) content)"

section \<open>Tokens of a delivery\<close>

definition uses_token :: "RotationTarget \<Rightarrow> bool" where
  "uses_token t \<longleftrightarrow> Type t = ''forgejo_secret'' \<and> trim_space (AuthToken t) \<noteq> []"

definition rotationTargetReferencesNeedPrivate :: "vault_env \<Rightarrow> store \<Rightarrow> RotationTarget list \<Rightarrow> bool" where
  "rotationTargetReferencesNeedPrivate e s targets =
     list_ex (\<lambda>t. uses_token t \<and>
       (case resolvePublicVaultReferenceRowFor e s (AuthToken t) (ConfiguredBy t) of
          Inl _ \<Rightarrow> True
        | Inr row \<Rightarrow>
           (case entryPrivateAccessPolicy s (rf_ID row) of Inl _ \<Rightarrow> True | Inr (p, found) \<Rightarrow> \<not> found \<or> p \<noteq> PolicyStandard))) targets"

definition token_refusal :: "field_lib \<Rightarrow> string \<Rightarrow> string" where
  "token_refusal l token =
     ''the vault entry '' @ quote_of l token @ '' belongs to somebody else. Being able to USE a shared secret is not the right to choose where it is sent, '' @
     ''and a forgejo_secret target sends it: its value becomes the Authorization header of this delivery. That takes the '' @
     ''secret's owner or an instance admin. Use a token you own, or ask its owner to configure this target''"

definition checkAuthTokenAuthority :: "vault_env \<Rightarrow> store \<Rightarrow> RotationTarget \<Rightarrow> string option" where
  "checkAuthTokenAuthority e s t =
     (if \<not> uses_token t \<or> trim_space (ConfiguredBy t) = [] then None
      else case resolveVaultReferenceFor e s (AuthToken t) (ConfiguredBy t) of
             Inl _ \<Rightarrow> None
           | Inr pt \<Rightarrow>
              (let referenced = o_EntryID (pt_origin pt)
               in if referenced = [] \<or> mayConfigureDelivery s (ConfiguredBy t) referenced then None
                  else Some (token_refusal (ve_fields e) (AuthToken t))))"

section \<open>The handlers of delivery targets\<close>

definition rotationTargetsVersion :: "vault_env \<Rightarrow> string \<Rightarrow> string" where
  "rotationTargetsVersion e stored = hex_encode (take 8 (ve_sha256 e stored))"

abbreviation open_column_targets :: "vault_env \<Rightarrow> string \<Rightarrow> RotationTarget list" where
  "open_column_targets e stored \<equiv> ParseRotationTargets e (column e stored ''[]'' vaultFieldRotationTargets)"

datatype targets_answer = TReply response | TTargets "RotationTarget list" "string option"

definition GetTargets :: "vault_env \<Rightarrow> string \<Rightarrow> request \<Rightarrow> headers \<Rightarrow> vault_db \<Rightarrow> targets_answer \<times> vault_db" where
  "GetTargets e eid r w db =
     (let s = vstore db
      in settle TReply db
       (attempt (begun db (ise w r)) (\<lambda>_.
        attempt (ensure (snd (entryAccess s r eid)) (no_entry w r)) (\<lambda>_.
        attempt (passed (requireEntryPrivateAccess s w r eid privateAccessSensitive)) (\<lambda>_.
        attempt (row_or (no_entry w r) (no_entry w r) (GetVaultEntryTargets s eid)) (\<lambda>stored.
        let targets = open_column_targets e (null_text stored) in
        attempt (ensure (IsPrivateIngress r \<or> \<not> rotationTargetReferencesNeedPrivate e s targets) (writePrivateIngressRequired w r)) (\<lambda>_.
        attempt (commits db (ise w r)) (\<lambda>_.
        Inr (TTargets targets (Some (rotationTargetsVersion e (null_text stored))), db)))))))))"

text \<open>A target that was there keeps its configurer, another one is the caller's; of two stored targets alike the later counts.\<close>

definition attribute :: "RotationTarget list \<Rightarrow> string \<Rightarrow> RotationTarget \<Rightarrow> RotationTarget" where
  "attribute stored uid t =
     (case map_of (rev (map (\<lambda>t. (rotationTargetAttribution t, ConfiguredBy t)) (filter (\<lambda>t. ConfiguredBy t \<noteq> []) stored)))
             (rotationTargetAttribution t) of
        Some who \<Rightarrow> t\<lparr>ConfiguredBy := who\<rparr>
      | None \<Rightarrow> t\<lparr>ConfiguredBy := uid\<rparr>)"

definition target_problem :: "RotationTarget \<Rightarrow> string option" where
  "target_problem t =
     (if Type t = ''forgejo_secret''
      then (if Instance t = [] \<or> Repo t = [] \<or> SecretName t = [] then Some ''forgejo_secret target requires instance, repo, and secret_name'' else None)
      else if Type t = ''webhook'' then (if WebhookURL t = [] then Some ''webhook target requires webhook_url'' else None)
      else if Type t = ''notify'' then None
      else Some (''unknown target type: '' @ Type t))"

fun first_some :: "('a \<Rightarrow> 'b option) \<Rightarrow> 'a list \<Rightarrow> 'b option" where
  "first_some f [] = None"
| "first_some f (x # xs) = (case f x of Some y \<Rightarrow> Some y | None \<Rightarrow> first_some f xs)"

lemma first_some_None: "first_some f xs = None \<longleftrightarrow> (\<forall>x \<in> set xs. f x = None)"
  by (induction xs) (auto split: option.split)

definition describe :: "egressPin \<Rightarrow> string" where
  "describe p = join '', '' (pin_hosts p) @ '' (wired as '' @ join '', '' (pin_settings p) @ '')''"

definition deliveryDestinationHosts :: "url_parse \<Rightarrow> string list \<Rightarrow> string list" where
  "deliveryDestinationHosts parse ids =
     map (\<lambda>i. case split_n CHR ''|'' 3 i of
                _ # given # _ \<Rightarrow>
                  (case parse (trim_space given) of Some u \<Rightarrow> if u_host u \<noteq> [] then u_host u else given | None \<Rightarrow> given)
              | _ \<Rightarrow> i) ids"

definition widening_refused :: "url_parse \<Rightarrow> headers \<Rightarrow> request \<Rightarrow> egress_error \<Rightarrow> response" where
  "widening_refused parse w r err =
     (case err of
        DeniedError _ _ added \<Rightarrow>
          writeError w r 403 ''egress_widening_denied''
            (''you can remove or narrow this secret's delivery targets, but adding one that sends it to ['' @
             join '' '' (deliveryDestinationHosts parse added) @
             ''] takes the secret's owner or an instance admin. Editing an entry does not carry the right to choose where its value is delivered'')
      | _ \<Rightarrow> ise w r)"

definition pin_refusal :: "headers \<Rightarrow> request \<Rightarrow> egressPin \<Rightarrow> RotationTarget list \<Rightarrow> response option" where
  "pin_refusal w r pin targets =
     (if \<not> pinned pin then None
      else map_option (\<lambda>t. writeError w r 403 ''destination_pinned''
             (''this secret is the instance's AI provider key ('' @ describe pin @ ''); it is only ever sent to the provider, so it cannot have a '' @
              Type t @ '' delivery target. Unwire it in Settings > AI gateway first'')) (find targetTransmitsSecret targets))"

text \<open>The checks on the stored column: readable, not cleared by accident, and the version the caller saw.\<close>

definition overwrite_allowed :: "vault_env \<Rightarrow> headers \<Rightarrow> request \<Rightarrow> string \<Rightarrow> string \<Rightarrow> string \<Rightarrow> RotationTarget list \<Rightarrow> response option" where
  "overwrite_allowed e w r clear version existing targets =
     (let prior = open_column_targets e existing
      in if trim_space existing \<noteq> [] \<and> (\<exists>err. vopen e existing vaultFieldRotationTargets = Inl err)
         then Some (writeError w r 409 ''decrypt_failed''
                ''the existing delivery targets could not be decrypted, so nothing was changed; saving would have overwritten data that is still recoverable with the correct key'')
         else if targets = [] \<and> trim_space existing \<noteq> [] \<and> prior \<noteq> [] \<and> clear \<noteq> ''1''
         then Some (writeError w r 409 ''targets_not_cleared''
                (''this would delete all '' @ dec_text (length prior) @ '' delivery target(s); if that is intended, resend with ?clear=1''))
         else if version = []
         then Some (writeBadRequest w r ''version is required; GET this entry's targets first and send the version it returns'')
         else if rotationTargetsVersion e existing \<noteq> version
         then Some (writeError w r 409 ''targets_changed'' ''the delivery targets changed since this panel was loaded; reload and reapply your edit'')
         else None)"

definition UpdateTargets ::
  "vault_env \<Rightarrow> string \<Rightarrow> string \<Rightarrow> RotationTarget list option \<Rightarrow> string \<Rightarrow> request \<Rightarrow> headers \<Rightarrow> vault_db \<Rightarrow> targets_answer \<times> vault_db" where
  "UpdateTargets e clear version body eid r w db =
     (let s = vstore db; uid = GetUserID r;
          existing = (case GetVaultEntryTargets s eid of Row c \<Rightarrow> null_text c | _ \<Rightarrow> []);
          stored = open_column_targets e existing; failed = writeInternalError w r ''failed to update targets''
      in settle TReply db
       (attempt (begun db (ise w r)) (\<lambda>_.
        attempt (ensure (snd (entryAccess s r eid)) (no_entry w r)) (\<lambda>_.
        attempt (passed (requireEntryPrivateAccess s w r eid privateAccessSensitive)) (\<lambda>_.
        attempt (present body (writeBadRequest w r ''invalid JSON array of targets'')) (\<lambda>given.
        attempt (passed (overwrite_allowed e w r clear version existing given)) (\<lambda>_.
        let targets = map (attribute stored uid) given in
        attempt (passed (map_option (writeBadRequest w r) (first_some target_problem targets))) (\<lambda>_.
        attempt (ensure (IsPrivateIngress r \<or> \<not> rotationTargetReferencesNeedPrivate e s targets) (writePrivateIngressRequired w r)) (\<lambda>_.
        attempt (passed (map_option (writeError w r 403 ''auth_token_not_yours'') (first_some (checkAuthTokenAuthority e s) targets))) (\<lambda>_.
        attempt (present (providerPinFor (Some (setting_reader s)) eid) (ise w r)) (\<lambda>pin.
        attempt (passed (pin_refusal w r pin targets)) (\<lambda>_.
        attempt (relabel (widening_refused (ve_url e) w r) (decideDeliveryEgress s uid eid stored targets)) (\<lambda>tk.
        attempt (present (vseal e ''rotation_targets'' (ve_print_targets e targets)) failed) (\<lambda>sealedTargets.
        attempt (relabel (\<lambda>_. failed) (SetRotationTargets (vclock e) s tk (toNullString sealedTargets) eid)) (\<lambda>s1.
        attempt (commits db failed) (\<lambda>_.
        Inr (TTargets targets None, vlog e r ''vault.targets_updated'' (put_store db s1))))))))))))))))))"

end
