(* ===== verification/Entry_Names.thy ===== *)
theory Entry_Names
  imports Entry_Targets
begin

text \<open>
  Names of entries stay unique inside a vault.  The locale \<open>name_register\<close> states the contract of the check that a name is
  free and shows which changes of a keyed table keep the labels of a scope apart; the
  interpretation discharges it for \<^verbatim>\<open>vaultEntryNameExistsInScope\<close>, and the handlers are such changes.
\<close>

locale name_register =
  fixes scope :: "'r \<Rightarrow> 's" and label :: "'r \<Rightarrow> 'n option"
    and in_use :: "('k \<times> 'r) list \<Rightarrow> 'k \<Rightarrow> 's \<Rightarrow> 'n \<Rightarrow> bool option"
  assumes free: "in_use t k sc n = Some False \<Longrightarrow> (i, r) \<in> set t \<Longrightarrow> i \<noteq> k \<Longrightarrow> scope r = sc \<Longrightarrow> label r \<noteq> Some n"
begin

definition apart :: "('k \<times> 'r) list \<Rightarrow> bool" where
  "apart t \<longleftrightarrow> distinct (map fst t) \<and>
     (\<forall>i r j q. (i, r) \<in> set t \<longrightarrow> (j, q) \<in> set t \<longrightarrow> scope r = scope q \<longrightarrow> label r \<noteq> None \<longrightarrow> label r = label q \<longrightarrow> i = j)"

lemma apart_add:
  assumes "apart t" "k \<notin> fst ` set t" "in_use t k' (scope new) n = Some False" "k' \<notin> fst ` set t" "label new = Some n \<or> label new = None"
  shows "apart (t @ [(k, new)])"
proof -
  have new: "label r \<noteq> Some n" if "(i, r) \<in> set t" "scope r = scope new" for i r
    using free [OF assms(3) that(1) _ that(2)] that(1) assms(4) by force
  then show ?thesis using assms(1,2,5) unfolding apart_def by auto
qed

lemma apart_remove: "apart t \<Longrightarrow> apart (sql_delete k t)"
  unfolding apart_def sql_delete_def by (auto simp: distinct_map inj_on_def)

lemma apart_keep:
  assumes "apart t" "\<And>r. scope (f r) = scope r" "\<And>r. label (f r) = label r"
  shows "apart (sql_update k f t)"
  using assms unfolding apart_def sql_update_keys by (auto simp: sql_update_def split: if_splits)

lemma apart_change:
  assumes "apart t" "in_use t k sc n = Some False" "\<And>r. (k, r) \<in> set t \<Longrightarrow> scope (f r) = sc \<and> (label (f r) = Some n \<or> label (f r) = None)"
  shows "apart (sql_update k f t)"
proof -
  have moved: "\<And>i r j q. (i, r) \<in> set (sql_update k f t) \<Longrightarrow> (j, q) \<in> set (sql_update k f t) \<Longrightarrow> i = k \<Longrightarrow> j \<noteq> k \<Longrightarrow>
      scope r = scope q \<Longrightarrow> label r \<noteq> None \<Longrightarrow> label r \<noteq> label q"
    using assms(3) free [OF assms(2)] by (fastforce simp: sql_update_def)
  have other: "\<And>i r. (i, r) \<in> set (sql_update k f t) \<Longrightarrow> i \<noteq> k \<Longrightarrow> (i, r) \<in> set t"
    by (auto simp: sql_update_def)
  show ?thesis unfolding apart_def
  proof (intro conjI allI impI)
    show "distinct (map fst (sql_update k f t))" using assms(1) by (simp add: apart_def)
    fix i r j q
    assume a: "(i, r) \<in> set (sql_update k f t)" "(j, q) \<in> set (sql_update k f t)" "scope r = scope q" "label r \<noteq> None" "label r = label q"
    show "i = j"
    proof (cases "i = k \<or> j = k")
      case True
      then show ?thesis using moved [of i r j q] moved [of j q i r] a by auto
    next
      case False
      then show ?thesis using other [of i r] other [of j q] a assms(1) unfolding apart_def by blast
    qed
  qed
qed

end

section \<open>The check of the handlers\<close>

definition scope_of :: "entry_row \<Rightarrow> string + string" where
  "scope_of r = fst (name_key r)"

definition plain_name :: "block_cipher \<Rightarrow> vault_keys \<Rightarrow> entry_row \<Rightarrow> string option" where
  "plain_name E ks r = (case decryptColumn E ks (entry_name r) vaultFieldName of Inl _ \<Rightarrow> None | Inr n \<Rightarrow> Some n)"

definition name_in_use :: "block_cipher \<Rightarrow> vault_keys \<Rightarrow> (string \<times> entry_row) list \<Rightarrow> string \<Rightarrow> string + string \<Rightarrow> string \<Rightarrow> bool option" where
  "name_in_use E ks t k sc n = name_taken E ks n k (map (\<lambda>(i, r). (i, entry_name r)) (filter (\<lambda>(i, r). scope_of r = sc) t))"

definition vault_scope :: "string \<Rightarrow> string option \<Rightarrow> string + string" where
  "vault_scope uid cid = (case cid of None \<Rightarrow> Inl uid | Some c \<Rightarrow> if c = [] then Inl uid else Inr c)"

interpretation names: name_register scope_of "plain_name E ks" "name_in_use E ks" for E ks
proof
  fix t k sc n i r
  assume a: "name_in_use E ks t k sc n = Some False" "(i, r) \<in> set t" "i \<noteq> k" "scope_of r = sc"
  then have "\<not> opens_to E ks n k (i, entry_name r)"
    using name_taken_Some [OF a(1) [unfolded name_in_use_def]] by (force simp: list_ex_iff)
  then show "plain_name E ks r \<noteq> Some n" using a(3) by (auto simp: opens_to_def plain_name_def split: sum.splits)
qed

lemma scope_of_vault: "vault_scope (user_id r) (collection_id r) = scope_of r"
  by (auto simp: scope_of_def name_key_def vault_scope_def in_collection_def split: option.split)

lemma exists_check:
  assumes "vaultEntryNameExistsInScope E ks s uid cid n except = Some b"
  shows "name_in_use E ks (entries s) except (vault_scope uid cid) n = Some b"
proof -
  have personal: "(user_id r = uid \<and> \<not> in_collection r) = (scope_of r = Inl uid)" for r
    by (auto simp: scope_of_def name_key_def)
  have shared: "c \<noteq> [] \<Longrightarrow> (collection_id r = Some c) = (scope_of r = Inr c)" for r c
    by (auto simp: scope_of_def name_key_def in_collection_def)
  show ?thesis
    using assms by (auto simp: vaultEntryNameExistsInScope_def name_in_use_def vault_scope_def ListCollectionVaultEntryNames_def
        ListPersonalVaultEntryNames_def entry_names_def personal shared split: option.splits if_splits)
qed

definition names_ok :: "block_cipher \<Rightarrow> vault_keys \<Rightarrow> (string \<times> entry_row) list \<Rightarrow> bool" where
  "names_ok E ks t \<longleftrightarrow> names.apart E ks t \<and> [] \<notin> fst ` set t"

abbreviation names_apart :: "vault_env \<Rightarrow> vault_db \<Rightarrow> bool" where
  "names_apart e db \<equiv> names_ok (vcipher e) (ve_keys e) (entries (vstore db))"

section \<open>Entries after a handler\<close>

lemma vstore_put [simp]: "vstore (put_store db s) = s"
  by (simp add: put_store_def)

lemma vd_info_put [simp]: "vd_info (put_store db s) = vd_info db" "vd_audit (put_store db s) = vd_audit db"
  by (simp_all add: put_store_def)

lemma entries_vlog [simp]: "entries (vstore (vlog e r action db)) = entries (vstore db)"
  by (simp add: vlog_def LogActivityFromRequest_def logActivityInternal_def)

lemma entries_loadOrCreateAuditDEK: "loadOrCreateAuditDEK E derive s ks rnd = (res, s') \<Longrightarrow> entries s' = entries s"
  by (auto simp: loadOrCreateAuditDEK_def UpsertSetting_def split: list.splits sum.splits option.splits if_splits)

lemma entries_sealSecretName [simp]: "entries (vstore (sealSecretName e nm db)) = entries (vstore db)"
  by (auto simp: sealSecretName_def auditNameDEK_def dest: entries_loadOrCreateAuditDEK split: option.split prod.split)

lemma sealed_name_opens:
  assumes "vseal e what n = Some c"
  shows "decryptColumn (vcipher e) (ve_keys e) c vaultFieldName = Inr n"
  using OpenColumn_SealColumn [OF assms [unfolded encryptColumn_def], of vaultFieldName]
  by (simp add: decryptColumn_def decryptColumnWithKeyAge_def vaultFieldName_def)

lemma scope_cong: "collection_id r = collection_id q \<Longrightarrow> user_id r = user_id q \<Longrightarrow> scope_of r = scope_of q"
  by (simp add: scope_of_def name_key_def in_collection_def)

lemma image_keys: "fst ` set (sql_update k f t) = fst ` set t"
  by (metis list.set_map sql_update_keys)

lemma names_kept:
  assumes "names_ok E ks t" "\<And>r. collection_id (f r) = collection_id r" "\<And>r. user_id (f r) = user_id r" "\<And>r. entry_name (f r) = entry_name r"
  shows "names_ok E ks (sql_update eid f t)"
proof -
  have "names.apart E ks (sql_update eid f t)"
    by (rule names.apart_keep) (use assms in \<open>auto simp: plain_name_def names_ok_def intro: scope_cong\<close>)
  then show ?thesis using assms(1) by (simp add: names_ok_def image_keys)
qed

subsection \<open>Creation\<close>

lemma create_prepare_run:
  assumes "create_prepare e w r req = Inr p"
  obtains ct nonce idb meta cols nm expires cf tk where
    "Seal (vcipher e) (key_value (current (ve_keys e))) (cr_Value req) (ve_rnd e ''value'') = Some (ct, nonce)" "read_full (ve_rnd e ''id'') 16 = Some idb"
    "vseal e ''provider_meta'' (if cr_ProviderMeta req = [] then ''{}'' else cr_ProviderMeta req) = Some meta"
    "encryptMetaColumns (vcipher e) (ve_keys e)
       [(cr_URL req, ve_rnd e ''url''), (cr_AliasURL req, ve_rnd e ''alias_url''), (cr_Username req, ve_rnd e ''username''),
        (cr_Category req, ve_rnd e ''category''), (cr_Notes req, ve_rnd e ''notes'')] = Some cols"
    "vseal e ''name'' (cr_Name req) = Some nm" "stringPtrToNullTime e (cr_ExpiresAt req) = Inr expires"
    "p = \<lparr>pe_id = hex_encode idb, pe_row = created_row e (GetUserID r) req nm ct nonce cols expires meta, pe_fields = cf, pe_ticket = tk\<rparr>"
    "Decide \<lparr>EntryID = hex_encode idb, What = FieldProvider, Before = [],
       After = providerDestinations e (cr_Provider req) (ParseProviderMeta (ve_json e) (cr_ProviderMeta req)),
       Covers = Some providerDestinationCovers, MayRedirect = Some True\<rparr> = Inr tk"
    "cr_CustomFields req = [] \<and> cf = [] \<or>
     encryptCustomFields (vcipher e) (ve_keys e) (ve_fields e) (ve_rnd e ''custom_fields'') (cr_CustomFields req) = Some cf"
  using assms unfolding create_prepare_def Let_def
  by (auto simp: attempt_rules split: if_splits)

lemma created_row_name:
  assumes "create_prepare e w r req = Inr p"
  shows "scope_of (pe_row p) = vault_scope (GetUserID r) (chosen_collection (cr_CollectionID req))"
    "plain_name (vcipher e) (ve_keys e) (pe_row p) = Some (cr_Name req)"
    "collection_id (pe_row p) = chosen_collection (cr_CollectionID req)" "user_id (pe_row p) = GetUserID r"
proof -
  obtain nm ct nonce cols expires meta where n: "vseal e ''name'' (cr_Name req) = Some nm"
    and row: "pe_row p = created_row e (GetUserID r) req nm ct nonce cols expires meta"
    using assms by (auto elim!: create_prepare_run)
  show c: "collection_id (pe_row p) = chosen_collection (cr_CollectionID req)" and u: "user_id (pe_row p) = GetUserID r"
    by (simp_all add: row created_row_def Let_def)
  show "scope_of (pe_row p) = vault_scope (GetUserID r) (chosen_collection (cr_CollectionID req))"
    using scope_of_vault [of "pe_row p"] c u by simp
  show "plain_name (vcipher e) (ve_keys e) (pe_row p) = Some (cr_Name req)"
    using sealed_name_opens [OF n] by (simp add: plain_name_def row created_row_def Let_def)
qed

lemma created_id: "create_prepare e w r req = Inr p \<Longrightarrow> pe_id p \<noteq> []"
  by (auto elim!: create_prepare_run simp: hex_encode_def dest!: read_full_length)

lemma insert_entry_run:
  assumes "insert_entry t tk eid row db = Inr db1"
  shows "eid \<notin> fst ` set (entries (vstore db))" "tk_granted tk" "tk_entryID tk = eid" "unique_names (vstore db1)"
    "entries (vstore db1) = entries (vstore db) @ [(eid, row\<lparr>encryption_version := Some 2, rotation_targets := Some ''[]'',
       destination_patterns := ''[]'', injection_spec := ''{}'', custom_fields := ''[]''\<rparr>)]"
    "vd_info db1 = vd_info db @ [(eid, no_info\<lparr>ei_created_at := Some t\<rparr>)]"
  using assms by (auto simp: insert_entry_def constrained_def CreateEntry_def exec_def Authorizes_None split: if_splits sum.splits option.splits)

lemma create_commit_run:
  assumes "create_commit e w r req p db = Inr (ans, db')"
  obtains db1 db2 where
    "vaultEntryNameExistsInScope (vcipher e) (ve_keys e) (vstore db) (GetUserID r) (chosen_collection (cr_CollectionID req)) (cr_Name req) [] = Some False"
    "\<And>c. chosen_collection (cr_CollectionID req) = Some c \<Longrightarrow>
       requireWritableCollectionDestination (canWriteCollection (vstore db) r) (vstore db) w r c = None"
    "insert_entry (vclock e) (pe_ticket p) (pe_id p) (pe_row p) db = Inr db1"
    "pe_fields p = [] \<and> db2 = db1 \<or> pe_fields p \<noteq> [] \<and> UpdateVaultEntryCustomFields (vclock e) (pe_fields p) (pe_id p) db1 = Some db2"
    "db' = vlog e r ''vault.entry_created'' (sealSecretName e (cr_Name req) (seedCapabilityDefaults e (pe_id p) (cr_Provider req) True db2))"
proof -
  let ?ins = "insert_entry (vclock e) (pe_ticket p) (pe_id p) (pe_row p) db"
  from assms obtain db1 db2 where
      f: "vaultEntryNameExistsInScope (vcipher e) (ve_keys e) (vstore db) (GetUserID r) (chosen_collection (cr_CollectionID req)) (cr_Name req) [] = Some False"
      "(case chosen_collection (cr_CollectionID req) of None \<Rightarrow> None
        | Some c \<Rightarrow> requireWritableCollectionDestination (canWriteCollection (vstore db) r) (vstore db) w r c) = None"
      "?ins = Inr db1"
      "(if pe_fields p = [] then Inr db1
        else present (UpdateVaultEntryCustomFields (vclock e) (pe_fields p) (pe_id p) db1) (store_failed w r)) = Inr db2"
      "db' = vlog e r ''vault.entry_created'' (sealSecretName e (cr_Name req) (seedCapabilityDefaults e (pe_id p) (cr_Provider req) True db2))"
    unfolding create_commit_def Let_def by (clarsimp simp only: attempt_rules prod.inject sum.inject simp_thms)
  show thesis by (rule that [OF f(1) _ f(3) _ f(5)]) (use f(2,4) in \<open>auto simp: present_Inr split: if_splits\<close>)
qed

lemma seed_entries:
  obtains (same) "seedCapabilityDefaults e eid prov may db = db"
  | (seeded) patterns spec where
      "seedCapabilityDefaults e eid prov may db = put_store db (update_entry (vstore db) eid
         (\<lambda>r. if destination_patterns r = ''[]'' \<and> injection_spec r = ''{}''
              then r\<lparr>destination_patterns := patterns, injection_spec := spec, updated_at := vclock e\<rparr> else r))"
proof (cases "seedCapabilityDefaults e eid prov may db = db")
  case False
  then show thesis
    by (auto simp: seedCapabilityDefaults_def SeedCapabilityDefaults_def exec_def Let_def
        split: if_splits option.splits sum.splits fetched.splits intro!: seeded)
qed (rule same)

lemma names_create:
  assumes "names_apart e db" "Create e body r w db = (ans, db')"
  shows "names_apart e db'"
proof (cases rule: settle_cases [OF assms(2) [unfolded Create_def]])
  case (1 err)
  then show ?thesis using assms(1) by simp
next
  case 2
  then obtain req0 req p where p: "create_prepare e w r req = Inr p" "create_commit e w r req p db = Inr (ans, db')"
    by (auto simp: attempt_rules)
  obtain db1 db2 where c: "vaultEntryNameExistsInScope (vcipher e) (ve_keys e) (vstore db) (GetUserID r) (chosen_collection (cr_CollectionID req)) (cr_Name req) [] = Some False"
      "insert_entry (vclock e) (pe_ticket p) (pe_id p) (pe_row p) db = Inr db1"
      "pe_fields p = [] \<and> db2 = db1 \<or> pe_fields p \<noteq> [] \<and> UpdateVaultEntryCustomFields (vclock e) (pe_fields p) (pe_id p) db1 = Some db2"
      "db' = vlog e r ''vault.entry_created'' (sealSecretName e (cr_Name req) (seedCapabilityDefaults e (pe_id p) (cr_Provider req) True db2))"
    using create_commit_run [OF p(2)] by metis
  note row = insert_entry_run [OF c(2)] created_row_name [OF p(1)]
  let ?new = "(pe_row p)\<lparr>encryption_version := Some 2, rotation_targets := Some ''[]'', destination_patterns := ''[]'', injection_spec := ''{}'', custom_fields := ''[]''\<rparr>"
  have new: "scope_of ?new = scope_of (pe_row p)" "plain_name (vcipher e) (ve_keys e) ?new = Some (cr_Name req)"
    using row(8) by (auto simp: plain_name_def intro: scope_cong)
  have "names.apart (vcipher e) (ve_keys e) (entries (vstore db1))" unfolding row(5)
    using assms(1) exists_check [OF c(1)] new row(1,7)
    by (intro names.apart_add [where k' = "[]" and n = "cr_Name req"]) (simp_all add: names_ok_def)
  then have "names_apart e db1" using assms(1) created_id [OF p(1)] by (simp add: names_ok_def row(5))
  then have "names_apart e db2"
    using c(3) by (auto simp: UpdateVaultEntryCustomFields_def vexec_def split: if_splits intro!: names_kept)
  then have "names_apart e (seedCapabilityDefaults e (pe_id p) (cr_Provider req) True db2)"
    by (cases rule: seed_entries [of e "pe_id p" "cr_Provider req" True db2]) (auto intro!: names_kept)
  then show ?thesis by (simp add: c(4))
qed

subsection \<open>Moving\<close>

lemma sql_update_twice: "sql_update k g (sql_update k f t) = sql_update k (\<lambda>r. g (f r)) t"
  by (auto simp: sql_update_def)

definition moved_row :: "vault_env \<Rightarrow> string option \<Rightarrow> string \<Rightarrow> string \<Rightarrow> string \<Rightarrow> entry_row \<Rightarrow> entry_row" where
  "moved_row e target nm u al r =
     (let scope = bidxScope (user_id r) target
      in r\<lparr>collection_id := target, name_bidx := scopedNameBlindIndex (ve_mac e) (ve_keys e) scope nm,
           url_bidx := urlBlindIndex (ve_mac e) (ve_url e) (ve_keys e) scope u,
           alias_url_bidx := urlBlindIndex (ve_mac e) (ve_url e) (ve_keys e) scope al, updated_at := vclock e\<rparr>)"

lemma sql_update_const:
  assumes "distinct (map fst t)" "map_of t k = Some row" "f row = row'"
  shows "sql_update k f t = sql_update k (\<lambda>_. row') t"
proof -
  have "v = row" if "(k, v) \<in> set t" for v using map_of_is_SomeI [OF assms(1) that] assms(2) by simp
  then show ?thesis using assms(3) by (auto simp: sql_update_def)
qed

lemma settle_Inl: "settle refuse s (Inl e) = (refuse e, s)"
  by (simp add: settle_def)

lemma move_run:
  assumes "MoveToCollection e body eid r w db = (ans, db')" "distinct (map fst (entries (vstore db)))"
  obtains (refused) resp where "db' = db" "ans = VReply resp"
  | (moved) cid row nm u al where "ans = VNoContent" "body = Some cid" "map_of (entries (vstore db)) eid = Some row"
      "snd (entryAccess (vstore db) r eid)"
      "move_allowed w r eid (user_id row) (null_text (collection_id row)) (null_text (chosen_collection cid)) (vstore db) = None"
      "vopen e (entry_name row) vaultFieldName = Inr nm" "vopen e (null_text (url row)) vaultFieldURL = Inr u"
      "vopen e (null_text (alias_url row)) vaultFieldAliasURL = Inr al"
      "vaultEntryNameExistsInScope (vcipher e) (ve_keys e) (vstore db) (user_id row) (chosen_collection cid) nm eid = Some False"
      "entries (vstore db') = sql_update eid (\<lambda>_. moved_row e (chosen_collection cid) nm u al row) (entries (vstore db))"
proof (cases rule: settle_cases [OF assms(1) [unfolded MoveToCollection_def Let_def]])
  case (1 err)
  then show thesis by (intro refused) simp_all
next
  case 2
  let ?s = "vstore db"
  from 2 obtain cid row row' nm u al s1 s2 where f: "ans = VNoContent" "body = Some cid"
      "snd (entryAccess ?s r eid)" "GetVaultEntryAccess ?s eid = Row row" "GetVaultEntryMeta ?s eid = Row row'"
      "move_allowed w r eid (user_id row) (null_text (collection_id row)) (null_text (chosen_collection cid)) ?s = None"
      "vopen e (entry_name row') vaultFieldName = Inr nm" "vopen e (null_text (url row')) vaultFieldURL = Inr u"
      "vopen e (null_text (alias_url row')) vaultFieldAliasURL = Inr al"
      "vaultEntryNameExistsInScope (vcipher e) (ve_keys e) ?s (user_id row) (chosen_collection cid) nm eid = Some False"
      "SetVaultEntryCollection (vclock e) (chosen_collection cid)
         (scopedNameBlindIndex (ve_mac e) (ve_keys e) (bidxScope (user_id row) (chosen_collection cid)) nm) eid ?s = Inr s1"
      "UpdateVaultEntryMetaAtRest
         (row'\<lparr>name_bidx := scopedNameBlindIndex (ve_mac e) (ve_keys e) (bidxScope (user_id row) (chosen_collection cid)) nm,
               url_bidx := urlBlindIndex (ve_mac e) (ve_url e) (ve_keys e) (bidxScope (user_id row) (chosen_collection cid)) u,
               alias_url_bidx := urlBlindIndex (ve_mac e) (ve_url e) (ve_keys e) (bidxScope (user_id row) (chosen_collection cid)) al\<rparr>) eid s1 = Inr s2"
      "entries (vstore db') = entries s2"
    by (clarsimp simp: attempt_rules)
  have row: "map_of (entries ?s) eid = Some row" "row' = row"
    using f(4,5) by (auto simp: GetVaultEntryAccess_def GetVaultEntryMeta_def row_simps)
  have "entries s2 = sql_update eid (\<lambda>_. moved_row e (chosen_collection cid) nm u al row) (entries ?s)"
    using f(11,12) unfolding row(2)
    by (auto simp: SetVaultEntryCollection_def UpdateVaultEntryMetaAtRest_def constrained_def exec_def sql_update_twice moved_row_def Let_def
        intro!: sql_update_const [OF assms(2) row(1)] split: if_splits sum.splits)
  then show thesis using f row by (intro moved [of cid row nm u al]) simp_all
qed

lemma names_move:
  assumes "names_apart e db" "MoveToCollection e body eid r w db = (ans, db')"
  shows "names_apart e db'"
proof -
  have d: "distinct (map fst (entries (vstore db)))" using assms(1) by (simp add: names_ok_def names.apart_def)
  show ?thesis
  proof (cases rule: move_run [OF assms(2) d])
    case (1 resp)
    then show ?thesis using assms(1) by simp
  next
    case (2 cid row nm u al)
    let ?q = "moved_row e (chosen_collection cid) nm u al row"
    have "scope_of ?q = vault_scope (user_id row) (chosen_collection cid)"
      using scope_of_vault [of ?q] by (simp add: moved_row_def Let_def)
    moreover have "plain_name (vcipher e) (ve_keys e) ?q = Some nm" using 2(6) by (simp add: plain_name_def moved_row_def Let_def)
    ultimately have "names.apart (vcipher e) (ve_keys e) (entries (vstore db'))" unfolding 2(10)
      using assms(1) exists_check [OF 2(9)] by (intro names.apart_change) (auto simp: names_ok_def)
    then show ?thesis using assms(1) by (simp add: names_ok_def 2(10) image_keys)
  qed
qed

subsection \<open>The other handlers\<close>

lemma names_delete:
  assumes "names_apart e db" "Delete e eid r w db = (ans, db')"
  shows "names_apart e db'"
proof (cases rule: settle_cases [OF assms(2) [unfolded Delete_def]])
  case (1 err)
  then show ?thesis using assms(1) by simp
next
  case 2
  then have "entries (vstore db') = sql_delete eid (entries (vstore db))"
    by (auto simp: attempt_rules DeleteVaultEntry_def split: fetched.splits if_splits)
  then show ?thesis using assms(1) names.apart_remove by (auto simp: names_ok_def sql_delete_def)
qed

lemma names_schedule:
  assumes "names_apart e db" "UpdateSchedule e body eid r w db = (ans, db')"
  shows "names_apart e db'"
proof (cases rule: settle_cases [OF assms(2) [unfolded UpdateSchedule_def]])
  case (1 err)
  then show ?thesis using assms(1) by simp
next
  case 2
  then have "\<exists>days (cur :: entry_row) tk auto db1 s2. UpdateVaultEntryRotationInterval (vclock e) days eid db = Some db1 \<and>
      SetProvider (vclock e) (vstore db1) tk (provider cur) (provider_meta cur) auto eid = Inr s2 \<and> vstore db' = s2"
    by (clarsimp simp: attempt_rules Let_def) (intro exI conjI, assumption+)
  then obtain days tk auto db1 s2 and cur :: entry_row where s: "UpdateVaultEntryRotationInterval (vclock e) days eid db = Some db1"
      "SetProvider (vclock e) (vstore db1) tk (provider cur) (provider_meta cur) auto eid = Inr s2" "vstore db' = s2" by blast
  have "entries (vstore db1) = sql_update eid (\<lambda>r. r\<lparr>rotation_interval_days := days, updated_at := vclock e\<rparr>) (entries (vstore db))"
    using s(1) by (auto simp: UpdateVaultEntryRotationInterval_def vexec_def split: if_splits)
  moreover have "entries s2 = sql_update eid (\<lambda>r. r\<lparr>provider := provider cur, provider_meta := provider_meta cur, auto_rotate := auto, updated_at := vclock e\<rparr>)
      (entries (vstore db1))"
    using s(2) by (auto simp: SetProvider_def exec_def split: if_splits option.splits)
  ultimately show ?thesis using assms(1) by (simp add: s(3)) (intro names_kept; simp)
qed

lemma targets_run:
  assumes "UpdateTargets e clear version body eid r w db = (ans, db')"
  obtains (refused) resp where "db' = db" "ans = TReply resp"
  | (written) ts c where "ans = TTargets ts None"
      "entries (vstore db') = sql_update eid (\<lambda>r. r\<lparr>rotation_targets := c, updated_at := vclock e\<rparr>) (entries (vstore db))"
proof (cases rule: settle_cases [OF assms(1) [unfolded UpdateTargets_def Let_def]])
  case (1 err)
  then show thesis by (intro refused) simp_all
next
  case 2
  then show thesis by (clarsimp simp: attempt_rules SetRotationTargets_def exec_def split: if_splits option.splits) (rule written, auto)
qed

lemma names_targets:
  assumes "names_apart e db" "UpdateTargets e clear version body eid r w db = (ans, db')"
  shows "names_apart e db'"
  by (cases rule: targets_run [OF assms(2)]) (use assms(1) in \<open>auto intro!: names_kept\<close>)

lemma entries_reauth: "reauthOrRefuse e w r uid password db = (resp, db') \<Longrightarrow> entries (vstore db') = entries (vstore db)"
  by (auto simp: reauthOrRefuse_def recordReauthFailure_def CreateLoginAttempt_def Let_def
      split: prod.splits if_splits fetched.splits option.splits)

lemma entries_unlock: "Unlock e body r w db = (ans, db') \<Longrightarrow> entries (vstore db') = entries (vstore db)"
  by (auto simp: Unlock_def Let_def dest!: entries_reauth split: if_splits prod.splits option.splits sum.splits)

end
