(* ===== verification/Entry_Update.thy ===== *)
theory Entry_Update
  imports Entry_Names
begin

text \<open>
  The handler that edits an entry, \<^verbatim>\<open>Update\<close> of \<^verbatim>\<open>handlers/vault.go\<close>, with the statements it runs, for requests that carry none of
  \<^verbatim>\<open>provider\<close>, \<^verbatim>\<open>provider_meta\<close> and \<^verbatim>\<open>auto_rotate\<close>: the block that writes those three, with the alarms it settles after the commit,
  runs only for a request that carries one of them and is not modelled.  \<^verbatim>\<open>anyMetaColumnUndecryptable\<close> of \<^verbatim>\<open>vault_column_crypto.go\<close> ranges
  over a Go map; the model looks at the columns in the order they are written there.
\<close>

section \<open>Statements\<close>

definition set_column :: "string \<Rightarrow> int \<Rightarrow> (entry_row \<Rightarrow> entry_row) \<Rightarrow> string \<Rightarrow> vault_db \<Rightarrow> vault_db option" where
  "set_column stmt t f eid db = vexec db stmt (update_entry (vstore db) eid (\<lambda>r. (f r)\<lparr>updated_at := t\<rparr>))"

definition UpdateVaultEntryCategory :: "int \<Rightarrow> string option \<Rightarrow> string \<Rightarrow> vault_db \<Rightarrow> vault_db option" where
  "UpdateVaultEntryCategory t v = set_column ''UpdateVaultEntryCategory'' t (\<lambda>r. r\<lparr>category := v\<rparr>)"

definition UpdateVaultEntryNotes :: "int \<Rightarrow> string option \<Rightarrow> string \<Rightarrow> vault_db \<Rightarrow> vault_db option" where
  "UpdateVaultEntryNotes t v = set_column ''UpdateVaultEntryNotes'' t (\<lambda>r. r\<lparr>entry_notes := v\<rparr>)"

definition UpdateVaultEntryExpiresAt :: "int \<Rightarrow> int option \<Rightarrow> string \<Rightarrow> vault_db \<Rightarrow> vault_db option" where
  "UpdateVaultEntryExpiresAt t v = set_column ''UpdateVaultEntryExpiresAt'' t (\<lambda>r. r\<lparr>expires_at := v\<rparr>)"

definition UpdateVaultEntryURL :: "int \<Rightarrow> string option \<Rightarrow> string \<Rightarrow> string \<Rightarrow> vault_db \<Rightarrow> vault_db option" where
  "UpdateVaultEntryURL t v bidx = set_column ''UpdateVaultEntryURL'' t (\<lambda>r. r\<lparr>url := v, url_bidx := bidx\<rparr>)"

definition UpdateVaultEntryAliasURL :: "int \<Rightarrow> string option \<Rightarrow> string \<Rightarrow> string \<Rightarrow> vault_db \<Rightarrow> vault_db option" where
  "UpdateVaultEntryAliasURL t v bidx = set_column ''UpdateVaultEntryAliasURL'' t (\<lambda>r. r\<lparr>alias_url := v, alias_url_bidx := bidx\<rparr>)"

definition UpdateVaultEntryUsername :: "int \<Rightarrow> string option \<Rightarrow> string \<Rightarrow> vault_db \<Rightarrow> vault_db option" where
  "UpdateVaultEntryUsername t v = set_column ''UpdateVaultEntryUsername'' t (\<lambda>r. r\<lparr>username := v\<rparr>)"

definition UpdateVaultEntryAutoLogin :: "int \<Rightarrow> int \<Rightarrow> string \<Rightarrow> vault_db \<Rightarrow> vault_db option" where
  "UpdateVaultEntryAutoLogin t v = set_column ''UpdateVaultEntryAutoLogin'' t (\<lambda>r. r\<lparr>auto_login := v\<rparr>)"

definition UpdateVaultEntryValue :: "int \<Rightarrow> bytes \<Rightarrow> bytes \<Rightarrow> string \<Rightarrow> vault_db \<Rightarrow> vault_db option" where
  "UpdateVaultEntryValue t ct nonce eid db =
     map_option (\<lambda>db1. db1\<lparr>vd_info := sql_update eid (\<lambda>i. i\<lparr>ei_last_rotated_at := Some t, ei_last_rotation_error := None\<rparr>) (vd_info db1)\<rparr>)
       (set_column ''UpdateVaultEntryValue'' t (\<lambda>r. r\<lparr>encrypted_value := ct, entry_nonce := nonce, encryption_version := Some 2\<rparr>) eid db)"

definition GetVaultEntryForRotation :: "store \<Rightarrow> string \<Rightarrow> entry_row fetched" where
  "GetVaultEntryForRotation s eid = fetch s ''GetVaultEntryForRotation'' (map_of (entries s) eid)"

section \<open>The request\<close>

text \<open>A field that is \<open>None\<close> is unchanged; of the two fields a client may clear, \<open>Some None\<close> is an explicit null.\<close>

record update_request =
  up_Name :: "string option"
  up_Value :: "string option"
  up_URL :: "string option"
  up_AliasURL :: "string option"
  up_Username :: "string option"
  up_Category :: "string option"
  up_Notes :: "string option"
  up_AutoLogin :: "bool option"
  up_RotationIntervalDays :: "int option option"
  up_ExpiresAt :: "string option option"
  up_CustomFields :: "CustomField list option"
  up_DestinationPatterns :: "string list option"

definition update_validate :: "vault_env \<Rightarrow> headers \<Rightarrow> request \<Rightarrow> update_request \<Rightarrow> response + update_request" where
  "update_validate e w r req =
     attempt (relabel (writeBadRequest w r)
       (validateLiveEntryText \<lparr>in_Name = up_Name req, in_Value = up_Value req, in_URL = up_URL req, in_AliasURL = up_AliasURL req,
          in_Username = up_Username req, in_Notes = up_Notes req\<rparr> False False)) (\<lambda>t.
     attempt (ensure (case up_Category req of None \<Rightarrow> True | Some c \<Rightarrow> vaultEntryCategoryValid c) (writeBadRequest w r ''invalid category'')) (\<lambda>_.
     attempt (passed (case up_RotationIntervalDays req of None \<Rightarrow> None
                      | Some days \<Rightarrow> map_option (writeBadRequest w r) (validateRotationIntervalDays days))) (\<lambda>_.
     attempt (case up_CustomFields req of None \<Rightarrow> Inr None
              | Some fs \<Rightarrow> relabel (\<lambda>x. writeBadRequest w r (field_error_text (ve_fields e) x)) (map_sum id Some (validateUpdateCustomFields fs))) (\<lambda>fs.
     Inr (req\<lparr>up_Name := in_Name t, up_URL := in_URL t, up_AliasURL := in_AliasURL t, up_Username := in_Username t, up_CustomFields := fs\<rparr>)))))"

definition meta_columns :: "entry_row \<Rightarrow> (field \<times> string) list" where
  "meta_columns row =
     [(vaultFieldURL, null_text (url row)), (vaultFieldAliasURL, null_text (alias_url row)), (vaultFieldUsername, null_text (username row)),
      (vaultFieldCategory, null_text (category row)), (vaultFieldNotes, null_text (entry_notes row)), (vaultFieldCustomFields, custom_fields row)]"

definition rewrites_columns :: "update_request \<Rightarrow> bool" where
  "rewrites_columns req \<longleftrightarrow> up_Name req \<noteq> None \<or> up_URL req \<noteq> None \<or> up_AliasURL req \<noteq> None \<or> up_Username req \<noteq> None \<or>
     up_Category req \<noteq> None \<or> up_Notes req \<noteq> None \<or> up_CustomFields req \<noteq> None \<or> up_DestinationPatterns req \<noteq> None \<or> up_Value req \<noteq> None"

definition damage_refusal :: "vault_env \<Rightarrow> headers \<Rightarrow> request \<Rightarrow> update_request \<Rightarrow> string \<Rightarrow> store \<Rightarrow> response option" where
  "damage_refusal e w r req eid s =
     (if \<not> rewrites_columns req then None
      else case GetVaultEntryMeta s eid of
             Row damaged \<Rightarrow>
               map_option (\<lambda>f. writeError w r 409 ''decrypt_failed''
                 (''part of this entry ('' @ f @ '') could not be decrypted, so nothing was changed; saving would have overwritten data that is still recoverable with the correct key''))
                 (anyMetaColumnUndecryptable (vcipher e) (ve_keys e) (meta_columns damaged))
           | _ \<Rightarrow> Some (ise w r))"

section \<open>The blocks of the transaction\<close>

definition update_custom_fields :: "vault_env \<Rightarrow> headers \<Rightarrow> request \<Rightarrow> string \<Rightarrow> CustomField list \<Rightarrow> vault_db \<Rightarrow> response + vault_db" where
  "update_custom_fields e w r eid sent db =
     attempt (row_or (ise w r) (ise w r) (GetVaultEntryMeta (vstore db) eid)) (\<lambda>cur.
     attempt (relabel (\<lambda>x. writeError w r 409 ''withheld_field_changed'' (field_error_text (ve_fields e) x))
                (mergeWithheldCustomFields (vcipher e) (ve_keys e) (ve_fields e) (custom_fields cur) sent)) (\<lambda>merged.
     attempt (present (encryptCustomFields (vcipher e) (ve_keys e) (ve_fields e) (ve_rnd e ''custom_fields'') merged) (ise w r)) (\<lambda>enc.
     present (UpdateVaultEntryCustomFields (vclock e) enc eid db) (ise w r))))"

definition dest_error_text :: "field_lib \<Rightarrow> string \<Rightarrow> dest_error \<Rightarrow> string" where
  "dest_error_text l p err =
     (case err of
        TooManyPatterns \<Rightarrow> ''at most '' @ dec_text maxDestinationPatterns @ '' destination patterns''
      | EmptyPattern \<Rightarrow> ''destination pattern must not be empty''
      | NotHostPath \<Rightarrow> ''destination '' @ quote_of l p @ '' must be host/path, not a URL (drop the scheme and any credentials)''
      | BadCharacter \<Rightarrow> ''destination '' @ quote_of l p @ '' must not contain spaces or backslashes''
      | NoHost \<Rightarrow> ''destination '' @ quote_of l p @ '' has no host''
      | WildcardHost \<Rightarrow> ''destination '' @ quote_of l p @ '' wildcards the host; that allows every sibling domain on that suffix. '' @
          ''Name the exact host and narrow with a path glob instead, e.g. api.example.com/v1/*''
      | LocalHost \<Rightarrow> ''destination '' @ quote_of l p @ '' points at this machine; the capability proxy must not be aimed inside your own network''
      | ZonedHost \<Rightarrow> ''destination '' @ quote_of l p @
          '' carries an IPv6 zone id, which names a local interface; the capability proxy must not be aimed inside your own network''
      | NonPublicHost \<Rightarrow> ''destination '' @ quote_of l p @
          '' is a private or loopback address; the capability proxy must not be aimed inside your own network''
      | UnqualifiedHost \<Rightarrow> ''destination '' @ quote_of l p @ '' is not a fully qualified host'')"

definition ceiling_problem :: "vault_env \<Rightarrow> string list \<Rightarrow> string option" where
  "ceiling_problem e patterns =
     map_option (dest_error_text (ve_fields e) (null_text (find (\<lambda>p. validatePattern p \<noteq> None) patterns))) (ValidateDestinationPatterns patterns)"

definition ceiling_refused :: "headers \<Rightarrow> request \<Rightarrow> egress_error \<Rightarrow> response" where
  "ceiling_refused w r err =
     (case err of
        DeniedError _ _ added \<Rightarrow>
          writeError w r 403 ''egress_widening_denied''
            (''you can narrow where this secret may be sent, but adding ['' @ join '' '' added @ ''] takes the secret's owner or an instance admin. '' @
             ''Editing an entry does not carry the right to choose where its value is delivered'')
      | _ \<Rightarrow> ise w r)"

definition pinned_away :: "vault_env \<Rightarrow> headers \<Rightarrow> request \<Rightarrow> egressPin \<Rightarrow> string list \<Rightarrow> response option" where
  "pinned_away e w r pin patterns =
     map_option (\<lambda>bad. writeError w r 403 ''destination_pinned''
       (''this secret is the instance's AI provider key; it is only ever delivered to '' @ describe pin @ '', so '' @ quote_of (ve_fields e) bad @
        '' cannot be added. Unwire it in Settings > AI gateway first if it is meant to be a general-purpose secret''))
       (firstDestinationOutsidePin pin patterns)"

definition update_ceiling :: "vault_env \<Rightarrow> headers \<Rightarrow> request \<Rightarrow> bool \<Rightarrow> string \<Rightarrow> string list \<Rightarrow> vault_db \<Rightarrow> response + vault_db" where
  "update_ceiling e w r mayWidenEgress eid sent db =
     (let patterns = NormalizeDestinationPatterns sent
      in attempt (passed (map_option (writeValidationError w r) (ceiling_problem e patterns))) (\<lambda>_.
         attempt (row_or (ise w r) (ise w r) (GetVaultEntryMeta (vstore db) eid)) (\<lambda>stored.
         attempt (present (providerPinFor (Some (setting_reader (vstore db))) eid) (ise w r)) (\<lambda>pin.
         attempt (passed (pinned_away e w r pin patterns)) (\<lambda>_.
         attempt (relabel (ceiling_refused w r)
                    (Decide \<lparr>EntryID = eid, What = FieldDestinations,
                             Before = ceilingDestinations (parseDestinationPatterns (ve_json e) (destination_patterns stored)),
                             After = ceilingDestinations patterns, Covers = Some destinationCovers, MayRedirect = Some mayWidenEgress\<rparr>)) (\<lambda>tk.
         attempt (relabel (\<lambda>_. ise w r) (SetDestinationPatterns (vclock e) (vstore db) tk (ve_print_strings e patterns) eid)) (\<lambda>s1.
         Inr (put_store db s1))))))))"

definition update_value :: "vault_env \<Rightarrow> headers \<Rightarrow> request \<Rightarrow> string \<Rightarrow> string \<Rightarrow> vault_db \<Rightarrow> response + vault_db" where
  "update_value e w r eid value db =
     (if value = [] then Inr db
      else attempt (row_or (ise w r) (ise w r) (GetVaultEntryForRotation (vstore db) eid)) (\<lambda>cur.
           attempt (relabel (\<lambda>_. writeError w r 409 ''decrypt_failed''
                       ''this secret could not be decrypted, so it was not changed; saving would have overwritten a value that is still recoverable'')
                      (OpenEntrySecret (vcipher e) (ve_keys e) (exit_of e db) (encrypted_value cur) (entry_nonce cur)
                         (case encryption_version cur of None \<Rightarrow> 0 | Some v \<Rightarrow> v) (entryOrigin eid (entry_name cur)))) (\<lambda>currentPlain.
           if EqualsString currentPlain value then Inr db
           else attempt (present (Seal (vcipher e) (key_value (current (ve_keys e))) value (ve_rnd e ''value''))
                           (writeInternalError w r ''failed to encrypt secret'')) (\<lambda>(ct, nonce).
                present (UpdateVaultEntryValue (vclock e) ct nonce eid db) (writeInternalError w r ''failed to update secret value'')))))"

text \<open>A rename: by the owner or an instance admin, or by a manager who adopts an entry whose creator has left the collection.\<close>

definition rename_entry :: "vault_env \<Rightarrow> headers \<Rightarrow> request \<Rightarrow> string \<Rightarrow> string \<Rightarrow> vault_db \<Rightarrow> response + vault_db \<times> string list" where
  "rename_entry e w r eid newName db =
     (let s = vstore db; uid = GetUserID r
      in attempt (row_or (ise w r) (ise w r) (GetVaultEntryAccess s eid)) (\<lambda>owned.
         attempt (row_or (ise w r) (ise w r) (GetVaultEntryName s eid)) (\<lambda>storedName.
         if newName = column e storedName [] vaultFieldName then Inr (db, [])
         else
         attempt (present (vaultEntryNameExistsInScope (vcipher e) (ve_keys e) s (user_id owned) (collection_id owned) newName eid) (ise w r)) (\<lambda>dup.
         attempt (ensure (\<not> dup) (writeConflict w r ''a vault entry with that name already exists in this vault'')) (\<lambda>_.
         if IsAdmin r \<or> uid = user_id owned
         then attempt (present (vseal e ''name'' newName) (ise w r)) (\<lambda>encName.
              attempt (relabel (\<lambda>err. if err = UniqueViolation then writeConflict w r ''a vault entry with that name already exists'' else ise w r)
                         (UpdateVaultEntryName (vclock e) encName
                            (scopedNameBlindIndex (ve_mac e) (ve_keys e) (bidxScope (user_id owned) (collection_id owned)) newName) eid s)) (\<lambda>s1.
              Inr (put_store db s1, [])))
         else if managerMayAdoptOrphanedEntry s uid (user_id owned) (collection_id owned)
         then attempt (present (vseal e ''name'' newName) (ise w r)) (\<lambda>encName.
              attempt (relabel (\<lambda>err. if err = UniqueViolation then writeConflict w r ''you already have a vault entry with that name'' else ise w r)
                         (constrained (AdoptAndRenameVaultEntry (vclock e) s uid encName
                            (scopedNameBlindIndex (ve_mac e) (ve_keys e) (bidxScope uid (collection_id owned)) newName) eid))) (\<lambda>s1.
              Inr (put_store db s1, [''vault.entry_adopted''])))
         else Inl (writeForbidden w r ''only the entry's owner or an instance admin can rename it''))))))"

definition update_sealed ::
  "vault_env \<Rightarrow> headers \<Rightarrow> request \<Rightarrow> string \<Rightarrow> (string option \<Rightarrow> vault_db \<Rightarrow> vault_db option) \<Rightarrow> string \<Rightarrow> vault_db \<Rightarrow> response + vault_db" where
  "update_sealed e w r what store_column value db =
     attempt (present (vseal e what value) (ise w r)) (\<lambda>enc. present (store_column (toNullString enc) db) (ise w r))"

definition update_urls :: "vault_env \<Rightarrow> headers \<Rightarrow> request \<Rightarrow> string \<Rightarrow> update_request \<Rightarrow> vault_db \<Rightarrow> response + vault_db" where
  "update_urls e w r eid req db =
     (let t = vclock e; index = (\<lambda>owned u. urlBlindIndex (ve_mac e) (ve_url e) (ve_keys e) (bidxScope (user_id owned) (collection_id owned)) u)
      in if up_URL req = None \<and> up_AliasURL req = None then Inr db
         else attempt (row_or (ise w r) (ise w r) (GetVaultEntryAccess (vstore db) eid)) (\<lambda>owned.
              attempt (case up_URL req of None \<Rightarrow> Inr db
                       | Some u \<Rightarrow> update_sealed e w r ''url'' (\<lambda>v. UpdateVaultEntryURL t v (index owned u) eid) u db) (\<lambda>db1.
              case up_AliasURL req of None \<Rightarrow> Inr db1
              | Some u \<Rightarrow> update_sealed e w r ''alias_url'' (\<lambda>v. UpdateVaultEntryAliasURL t v (index owned u) eid) u db1)))"

definition given :: "'a option \<Rightarrow> ('a \<Rightarrow> 's \<Rightarrow> 'e + 's) \<Rightarrow> 's \<Rightarrow> 'e + 's" where
  "given v f s = (case v of None \<Rightarrow> Inr s | Some x \<Rightarrow> f x s)"

text \<open>What follows the name, in the order of the code.\<close>

definition update_columns :: "vault_env \<Rightarrow> headers \<Rightarrow> request \<Rightarrow> string \<Rightarrow> update_request \<Rightarrow> vault_db \<Rightarrow> response + vault_db" where
  "update_columns e w r eid req db =
     (let t = vclock e
      in attempt (given (up_Category req) (update_sealed e w r ''category'' (\<lambda>v. UpdateVaultEntryCategory t v eid)) db) (\<lambda>db1.
         attempt (given (up_Notes req) (update_sealed e w r ''notes'' (\<lambda>v. UpdateVaultEntryNotes t v eid)) db1) (\<lambda>db2.
         attempt (given (up_RotationIntervalDays req) (\<lambda>days d. present (UpdateVaultEntryRotationInterval t days eid d) (ise w r)) db2) (\<lambda>db3.
         attempt (given (up_ExpiresAt req) (\<lambda>x d. attempt (relabel (writeValidationError w r) (stringPtrToNullTime e x)) (\<lambda>expires.
                    present (UpdateVaultEntryExpiresAt t expires eid d) (ise w r))) db3) (\<lambda>db4.
         attempt (update_urls e w r eid req db4) (\<lambda>db5.
         attempt (given (up_Username req) (update_sealed e w r ''username'' (\<lambda>v. UpdateVaultEntryUsername t v eid)) db5) (\<lambda>db6.
         given (up_AutoLogin req) (\<lambda>b d. present (UpdateVaultEntryAutoLogin t (boolToInt64 b) eid d) (ise w r)) db6)))))))"

definition update_fields :: "vault_env \<Rightarrow> headers \<Rightarrow> request \<Rightarrow> string \<Rightarrow> update_request \<Rightarrow> vault_db \<Rightarrow> response + vault_db \<times> string list" where
  "update_fields e w r eid req db =
     (let mayWidenEgress = up_DestinationPatterns req \<noteq> None \<and> mayDirectSecretEgress (vstore db) (GetUserID r) (IsAdmin r) eid
      in attempt (given (up_CustomFields req) (update_custom_fields e w r eid) db) (\<lambda>db1.
         attempt (given (up_DestinationPatterns req) (update_ceiling e w r mayWidenEgress eid) db1) (\<lambda>db2.
         attempt (given (up_Value req) (update_value e w r eid) db2) (\<lambda>db3.
         attempt (case up_Name req of None \<Rightarrow> Inr (db3, []) | Some nm \<Rightarrow> rename_entry e w r eid nm db3) (\<lambda>(db4, adopted).
         attempt (update_columns e w r eid req db4) (\<lambda>db5.
         Inr (db5, (if up_DestinationPatterns req = None then [] else [''vault.destinations_updated'']) @ adopted)))))))"

text \<open>The activity rows of the transaction are written after its commit, and the answer is read back.\<close>

definition Update :: "vault_env \<Rightarrow> update_request option \<Rightarrow> string \<Rightarrow> request \<Rightarrow> headers \<Rightarrow> vault_db \<Rightarrow> vault_answer \<times> vault_db" where
  "Update e body eid r w db =
     settle VReply db
       (attempt (present body (writeBadRequest w r ''invalid JSON'')) (\<lambda>req0.
        attempt (update_validate e w r req0) (\<lambda>req.
        attempt (begun db (ise w r)) (\<lambda>_.
        attempt (ensure (snd (entryAccess (vstore db) r eid)) (no_entry w r)) (\<lambda>_.
        attempt (passed (requireEntryPrivateAccess (vstore db) w r eid privateAccessSensitive)) (\<lambda>_.
        attempt (passed (damage_refusal e w r req eid (vstore db))) (\<lambda>_.
        attempt (update_fields e w r eid req db) (\<lambda>(db1, actions).
        attempt (commits db1 (ise w r)) (\<lambda>_.
        let db2 = fold (vlog e r) actions db1
        in case GetVaultEntryMeta (vstore db2) eid of
             ErrNoRows \<Rightarrow> Inr (VReply (no_entry w r), db2)
           | DBError \<Rightarrow> Inr (VReply (ise w r), db2)
           | Row row \<Rightarrow>
              (let entry = vaultMetaFromGetRow e (exit_of e db2) (GetUserID r) eid row (info_of db2 eid)
               in Inr (VEntry 200 entry, vlog e r ''vault.entry_updated'' (sealSecretName e (vm_Name entry) db2))))))))))))"


section \<open>What an edit leaves of the names\<close>

definition name_view :: "(string \<times> entry_row) list \<Rightarrow> (string \<times> string \<times> string option \<times> string) list" where
  "name_view t = map (\<lambda>(i, r). (i, user_id r, collection_id r, entry_name r)) t"

lemma name_view_update [simp]:
  assumes "\<And>r. user_id (f r) = user_id r" "\<And>r. collection_id (f r) = collection_id r" "\<And>r. entry_name (f r) = entry_name r"
  shows "name_view (sql_update k f t) = name_view t"
  using assms by (auto simp: name_view_def sql_update_def)

lemma names_ok_view:
  assumes "names_ok E ks t" "name_view t' = name_view t"
  shows "names_ok E ks t'"
proof -
  have old: "\<exists>q. (i, q) \<in> set t \<and> scope_of q = scope_of r \<and> plain_name E ks q = plain_name E ks r" if "(i, r) \<in> set t'" for i r
  proof -
    have "(i, user_id r, collection_id r, entry_name r) \<in> set (name_view t')" using that by (force simp: name_view_def)
    then have "(i, user_id r, collection_id r, entry_name r) \<in> set (name_view t)" by (simp only: assms(2))
    then obtain q where "(i, q) \<in> set t" "user_id q = user_id r" "collection_id q = collection_id r" "entry_name q = entry_name r"
      by (auto simp: name_view_def)
    then show ?thesis by (auto simp: plain_name_def intro: scope_cong)
  qed
  have "map fst t' = map fst (name_view t')" "map fst t = map fst (name_view t)" by (simp_all add: name_view_def case_prod_unfold comp_def)
  then have keys: "map fst t' = map fst t" using assms(2) by simp
  then have "fst ` set t' = fst ` set t" by (metis list.set_map)
  then show ?thesis using assms(1) keys old unfolding names_ok_def names.apart_def by metis
qed

lemma view_set_column:
  assumes "set_column stmt t f eid db = Some db'"
    and "\<And>r. user_id (f r) = user_id r" "\<And>r. collection_id (f r) = collection_id r" "\<And>r. entry_name (f r) = entry_name r"
  shows "name_view (entries (vstore db')) = name_view (entries (vstore db))"
  using assms by (auto simp: set_column_def vexec_def update_entry_def split: if_splits)

lemmas column_statements = UpdateVaultEntryCategory_def UpdateVaultEntryNotes_def UpdateVaultEntryExpiresAt_def UpdateVaultEntryURL_def
  UpdateVaultEntryAliasURL_def UpdateVaultEntryUsername_def UpdateVaultEntryAutoLogin_def

lemma view_custom_fields: "update_custom_fields e w r eid fs db = Inr db' \<Longrightarrow> name_view (entries (vstore db')) = name_view (entries (vstore db))"
  by (auto simp: update_custom_fields_def attempt_rules UpdateVaultEntryCustomFields_def vexec_def update_entry_def split: if_splits)

lemma view_ceiling: "update_ceiling e w r may eid ps db = Inr db' \<Longrightarrow> name_view (entries (vstore db')) = name_view (entries (vstore db))"
  by (auto simp: update_ceiling_def Let_def attempt_rules SetDestinationPatterns_def exec_def update_entry_def split: if_splits option.splits)

lemma view_value: "update_value e w r eid v db = Inr db' \<Longrightarrow> name_view (entries (vstore db')) = name_view (entries (vstore db))"
  by (auto simp: update_value_def attempt_rules UpdateVaultEntryValue_def dest!: view_set_column split: if_splits prod.splits)

lemma view_sealed:
  assumes "update_sealed e w r what st v db = Inr db'" "\<And>x d d'. st x d = Some d' \<Longrightarrow> name_view (entries (vstore d')) = name_view (entries (vstore d))"
  shows "name_view (entries (vstore db')) = name_view (entries (vstore db))"
  using assms by (auto simp: update_sealed_def attempt_rules)

lemma view_given:
  assumes "given v f db = Inr db'" "\<And>x d d'. f x d = Inr d' \<Longrightarrow> name_view (entries (vstore d')) = name_view (entries (vstore d))"
  shows "name_view (entries (vstore db')) = name_view (entries (vstore db))"
  using assms by (auto simp: given_def split: option.splits)

lemma view_urls:
  assumes "update_urls e w r eid req db = Inr db'"
  shows "name_view (entries (vstore db')) = name_view (entries (vstore db))"
  using assms by (auto simp: update_urls_def Let_def attempt_rules column_statements dest!: view_sealed view_set_column split: if_splits option.splits)

lemma view_columns:
  assumes "update_columns e w r eid req db = Inr db'"
  shows "name_view (entries (vstore db')) = name_view (entries (vstore db))"
proof -
  from assms obtain db1 db2 db3 db4 db5 db6 where
      s: "given (up_Category req) (update_sealed e w r ''category'' (\<lambda>v. UpdateVaultEntryCategory (vclock e) v eid)) db = Inr db1"
      "given (up_Notes req) (update_sealed e w r ''notes'' (\<lambda>v. UpdateVaultEntryNotes (vclock e) v eid)) db1 = Inr db2"
      "given (up_RotationIntervalDays req) (\<lambda>days d. present (UpdateVaultEntryRotationInterval (vclock e) days eid d) (ise w r)) db2 = Inr db3"
      "given (up_ExpiresAt req) (\<lambda>x d. attempt (relabel (writeValidationError w r) (stringPtrToNullTime e x)) (\<lambda>expires.
                    present (UpdateVaultEntryExpiresAt (vclock e) expires eid d) (ise w r))) db3 = Inr db4"
      "update_urls e w r eid req db4 = Inr db5"
      "given (up_Username req) (update_sealed e w r ''username'' (\<lambda>v. UpdateVaultEntryUsername (vclock e) v eid)) db5 = Inr db6"
      "given (up_AutoLogin req) (\<lambda>b d. present (UpdateVaultEntryAutoLogin (vclock e) (boolToInt64 b) eid d) (ise w r)) db6 = Inr db'"
    unfolding update_columns_def Let_def attempt_Inr by blast
  have "name_view (entries (vstore db)) = name_view (entries (vstore db1))"
    by (rule sym, rule view_given [OF s(1)], erule view_sealed) (auto simp: column_statements dest!: view_set_column)
  also have "\<dots> = name_view (entries (vstore db2))"
    by (rule sym, rule view_given [OF s(2)], erule view_sealed) (auto simp: column_statements dest!: view_set_column)
  also have "\<dots> = name_view (entries (vstore db3))"
    by (rule sym, rule view_given [OF s(3)])
       (auto simp: present_Inr UpdateVaultEntryRotationInterval_def vexec_def update_entry_def split: if_splits)
  also have "\<dots> = name_view (entries (vstore db4))"
    by (rule sym, rule view_given [OF s(4)]) (auto simp: attempt_rules column_statements dest!: view_set_column)
  also have "\<dots> = name_view (entries (vstore db5))" by (rule view_urls [OF s(5), symmetric])
  also have "\<dots> = name_view (entries (vstore db6))"
    by (rule sym, rule view_given [OF s(6)], erule view_sealed) (auto simp: column_statements dest!: view_set_column)
  also have "\<dots> = name_view (entries (vstore db'))"
    by (rule sym, rule view_given [OF s(7)]) (auto simp: present_Inr column_statements dest!: view_set_column)
  finally show ?thesis by simp
qed


text \<open>A rename stores a seal of the new name on a row no other entry of its vault shares the name with, and moves no entry to another vault.\<close>

lemma rename_run:
  assumes "rename_entry e w r eid nm db = Inr (db', acts)"
  obtains (unchanged) row where "db' = db" "acts = []" "map_of (entries (vstore db)) eid = Some row" "column e (entry_name row) [] vaultFieldName = nm"
  | (renamed) row enc f where "map_of (entries (vstore db)) eid = Some row" "vseal e ''name'' nm = Some enc"
      "vaultEntryNameExistsInScope (vcipher e) (ve_keys e) (vstore db) (user_id row) (collection_id row) nm eid = Some False"
      "\<And>x. entry_name (f x) = enc" "\<And>x. collection_id (f x) = collection_id x" "\<And>x. secret_owner_user_id (f x) = secret_owner_user_id x"
      "\<And>x. encrypted_value (f x) = encrypted_value x" "\<And>x. entry_nonce (f x) = entry_nonce x"
      "db' = put_store db (update_entry (vstore db) eid f)"
      "(IsAdmin r \<or> GetUserID r = user_id row) \<and> (\<forall>x. user_id (f x) = user_id x) \<and> acts = [] \<or>
       managerMayAdoptOrphanedEntry (vstore db) (GetUserID r) (user_id row) (collection_id row) \<and> (\<forall>x. user_id (f x) = GetUserID r) \<and>
       acts = [''vault.entry_adopted'']"
proof -
  let ?s = "vstore db" and ?uid = "GetUserID r"
  obtain row where row: "map_of (entries ?s) eid = Some row" "GetVaultEntryAccess ?s eid = Row row" "GetVaultEntryName ?s eid = Row (entry_name row)"
    using assms by (auto simp: rename_entry_def Let_def attempt_rules GetVaultEntryAccess_def GetVaultEntryName_def row_simps)
  show thesis
  proof (cases "nm = column e (entry_name row) [] vaultFieldName")
    case True
    then show thesis using assms row by (intro unchanged [of row]) (simp_all add: rename_entry_def Let_def row_or_def)
  next
    case False
    let ?x = "\<lambda>u. scopedNameBlindIndex (ve_mac e) (ve_keys e) (bidxScope u (collection_id row)) nm"
    obtain enc where free: "vaultEntryNameExistsInScope (vcipher e) (ve_keys e) ?s (user_id row) (collection_id row) nm eid = Some False"
        "vseal e ''name'' nm = Some enc"
      and how: "(IsAdmin r \<or> ?uid = user_id row) \<and> acts = [] \<and>
          (\<exists>s1. UpdateVaultEntryName (vclock e) enc (?x (user_id row)) eid ?s = Inr s1 \<and> db' = put_store db s1) \<or>
        managerMayAdoptOrphanedEntry ?s ?uid (user_id row) (collection_id row) \<and> acts = [''vault.entry_adopted''] \<and>
          (\<exists>s1. constrained (AdoptAndRenameVaultEntry (vclock e) ?s ?uid enc (?x ?uid) eid) = Inr s1 \<and> db' = put_store db s1)"
      using assms row False by (auto simp: rename_entry_def Let_def attempt_rules row_or_def split: if_splits)
    consider (owner) s1 where "IsAdmin r \<or> ?uid = user_id row" "acts = []"
        "UpdateVaultEntryName (vclock e) enc (?x (user_id row)) eid ?s = Inr s1" "db' = put_store db s1"
      | (adopts) s1 where "managerMayAdoptOrphanedEntry ?s ?uid (user_id row) (collection_id row)" "acts = [''vault.entry_adopted'']"
        "constrained (AdoptAndRenameVaultEntry (vclock e) ?s ?uid enc (?x ?uid) eid) = Inr s1" "db' = put_store db s1"
      using how by blast
    then show thesis
    proof cases
      case owner
      then show thesis using row free
        by (intro renamed [of row enc "\<lambda>x. x\<lparr>entry_name := enc, name_bidx := ?x (user_id row), updated_at := vclock e\<rparr>"])
           (auto simp: UpdateVaultEntryName_def constrained_def exec_def split: if_splits sum.splits)
    next
      case adopts
      then show thesis using row free
        by (intro renamed [of row enc "\<lambda>x. x\<lparr>user_id := ?uid, entry_name := enc, name_bidx := ?x ?uid, updated_at := vclock e\<rparr>"])
           (auto simp: AdoptAndRenameVaultEntry_def constrained_def exec_def split: if_splits sum.splits)
    qed
  qed
qed

lemma names_rename:
  assumes "names_apart e db" "rename_entry e w r eid nm db = Inr (db', acts)"
  shows "names_apart e db'"
  using assms(2)
proof (cases rule: rename_run)
  case unchanged
  then show ?thesis using assms(1) by simp
next
  case (renamed row enc f)
  have d: "distinct (map fst (entries (vstore db)))" using assms(1) by (simp add: names_ok_def names.apart_def)
  have scope: "scope_of (f x) = vault_scope (user_id row) (collection_id row)" if "(eid, x) \<in> set (entries (vstore db))" for x
  proof -
    have "x = row" using map_of_is_SomeI [OF d that] renamed(1) by simp
    then show ?thesis
      using renamed(5,10) unfolding scope_of_vault [symmetric]
      by (auto simp: vault_scope_def managerMayAdoptOrphanedEntry_def split: option.splits if_splits)
  qed
  have "plain_name (vcipher e) (ve_keys e) (f x) = Some nm" for x
    using sealed_name_opens [OF renamed(2)] renamed(4) by (simp add: plain_name_def)
  then have "names.apart (vcipher e) (ve_keys e) (sql_update eid f (entries (vstore db)))"
    using assms(1) exists_check [OF renamed(3)] scope by (intro names.apart_change [where n = nm]) (auto simp: names_ok_def)
  then show ?thesis using assms(1) renamed(9) by (simp add: names_ok_def update_entry_def image_keys)
qed

lemma entries_vlogs [simp]: "entries (vstore (fold (vlog e r) actions db)) = entries (vstore db)"
  by (induction actions arbitrary: db) simp_all

lemma update_fields_run:
  assumes "update_fields e w r eid req db = Inr (db', actions)"
  obtains db1 db2 adopted where "name_view (entries (vstore db1)) = name_view (entries (vstore db))"
    "case up_Name req of None \<Rightarrow> db2 = db1 \<and> adopted = [] | Some nm \<Rightarrow> rename_entry e w r eid nm db1 = Inr (db2, adopted)"
    "update_columns e w r eid req db2 = Inr db'"
proof -
  obtain d1 d2 d3 d4 adopted may where s: "given (up_CustomFields req) (update_custom_fields e w r eid) db = Inr d1"
      "given (up_DestinationPatterns req) (update_ceiling e w r may eid) d1 = Inr d2"
      "given (up_Value req) (update_value e w r eid) d2 = Inr d3"
      "(case up_Name req of None \<Rightarrow> Inr (d3, []) | Some nm \<Rightarrow> rename_entry e w r eid nm d3) = Inr (d4, adopted)"
      "update_columns e w r eid req d4 = Inr db'"
    using assms unfolding update_fields_def Let_def attempt_Inr split_paired_Ex prod.case by (elim exE conjE) (rule that; assumption?; blast)
  have "name_view (entries (vstore d3)) = name_view (entries (vstore db))"
    using view_given [OF s(1) view_custom_fields] view_given [OF s(2) view_ceiling] view_given [OF s(3) view_value] by simp
  then show thesis using s(4,5) by (intro that [of d3 d4 adopted]) (auto split: option.splits)
qed

lemma names_update:
  assumes "names_apart e db" "Update e body eid r w db = (ans, db')"
  shows "names_apart e db'"
proof (cases rule: settle_cases [OF assms(2) [unfolded Update_def]])
  case (1 err)
  then show ?thesis using assms(1) by simp
next
  case 2
  then obtain req d1 actions where u: "update_fields e w r eid req db = Inr (d1, actions)" and
      ends: "(case GetVaultEntryMeta (vstore (fold (vlog e r) actions d1)) eid of
         ErrNoRows \<Rightarrow> Inr (VReply (no_entry w r), fold (vlog e r) actions d1)
       | DBError \<Rightarrow> Inr (VReply (ise w r), fold (vlog e r) actions d1)
       | Row row \<Rightarrow> Inr (VEntry 200 (vaultMetaFromGetRow e (exit_of e (fold (vlog e r) actions d1)) (GetUserID r) eid row (info_of (fold (vlog e r) actions d1) eid)),
           vlog e r ''vault.entry_updated'' (sealSecretName e (vm_Name (vaultMetaFromGetRow e (exit_of e (fold (vlog e r) actions d1)) (GetUserID r) eid row
             (info_of (fold (vlog e r) actions d1) eid))) (fold (vlog e r) actions d1)))) = (Inr (ans, db') :: response + vault_answer \<times> vault_db)"
    unfolding Let_def attempt_Inr split_paired_Ex prod.case by (elim exE conjE) (rule that; assumption)
  have same: "entries (vstore db') = entries (vstore d1)"
    using ends by (cases "GetVaultEntryMeta (vstore (fold (vlog e r) actions d1)) eid") auto
  obtain db1 db2 adopted where s: "name_view (entries (vstore db1)) = name_view (entries (vstore db))"
    "case up_Name req of None \<Rightarrow> db2 = db1 \<and> adopted = [] | Some nm \<Rightarrow> rename_entry e w r eid nm db1 = Inr (db2, adopted)"
    "update_columns e w r eid req db2 = Inr d1"
    using update_fields_run [OF u] .
  have "names_apart e db1" by (rule names_ok_view [OF assms(1) s(1)])
  then have "names_apart e db2" using s(2) names_rename by (auto split: option.splits)
  then show ?thesis unfolding same by (rule names_ok_view [OF _ view_columns [OF s(3)]])
qed

end
