(* ===== verification/Vault_Entry_Properties.thy ===== *)
theory Vault_Entry_Properties
  imports Entry_Update Sign_In_Safety
begin

text \<open>
  What the handlers on vault entries guarantee: names that stay apart in a vault, what an unlock reveals and when it is locked,
  that a created entry opens to what was sent, what a match finds, and who may write delivery targets.
\<close>

section \<open>Names\<close>

inductive vault_step :: "block_cipher \<Rightarrow> vault_keys \<Rightarrow> vault_db \<Rightarrow> vault_db \<Rightarrow> bool" for E ks where
  create: "vcipher e = E \<Longrightarrow> ve_keys e = ks \<Longrightarrow> Create e body r w db = (ans, db') \<Longrightarrow> vault_step E ks db db'"
| move: "vcipher e = E \<Longrightarrow> ve_keys e = ks \<Longrightarrow> MoveToCollection e cid eid r w db = (ans, db') \<Longrightarrow> vault_step E ks db db'"
| delete: "vcipher e = E \<Longrightarrow> ve_keys e = ks \<Longrightarrow> Delete e eid r w db = (ans, db') \<Longrightarrow> vault_step E ks db db'"
| schedule: "vcipher e = E \<Longrightarrow> ve_keys e = ks \<Longrightarrow> UpdateSchedule e plan eid r w db = (ans, db') \<Longrightarrow> vault_step E ks db db'"
| targets: "vcipher e = E \<Longrightarrow> ve_keys e = ks \<Longrightarrow> UpdateTargets e clear version ts eid r w db = (answer, db') \<Longrightarrow> vault_step E ks db db'"
| update: "vcipher e = E \<Longrightarrow> ve_keys e = ks \<Longrightarrow> Update e edit eid r w db = (ans, db') \<Longrightarrow> vault_step E ks db db'"
| unlock: "vcipher e = E \<Longrightarrow> ve_keys e = ks \<Longrightarrow> Unlock e password r w db = (ans, db') \<Longrightarrow> vault_step E ks db db'"

lemma vault_step_names: "vault_step E ks db db' \<Longrightarrow> names_ok E ks (entries (vstore db)) \<Longrightarrow> names_ok E ks (entries (vstore db'))"
  by (induction rule: vault_step.induct)
     (auto dest: names_create names_move names_delete names_schedule names_targets names_update entries_unlock)

text \<open>
  C8. Names are unique inside a vault, although the database holds only ciphertexts: after any sequence of
  creations, edits with a new name or without (of requests that carry no provider configuration), moves, deletions, schedule and
  target updates and unlocks, two entries of one vault (the same collection, or the personal vault of one user) whose names
  open to the same text are the same entry, and no identifier appears twice.  The other writers of names, the
  import and the renaming of entries of a deleted user, are not among these steps.
\<close>

theorem names_stay_unique:
  assumes "(vault_step E ks)\<^sup>*\<^sup>* db db'" "names_ok E ks (entries (vstore db))"
  shows "distinct (map fst (entries (vstore db'))) \<and>
    (\<forall>i r j q n. (i, r) \<in> set (entries (vstore db')) \<and> (j, q) \<in> set (entries (vstore db')) \<and>
       vault_scope (user_id r) (collection_id r) = vault_scope (user_id q) (collection_id q) \<and>
       decryptColumn E ks (entry_name r) vaultFieldName = Inr n \<and> decryptColumn E ks (entry_name q) vaultFieldName = Inr n \<longrightarrow> i = j)"
proof -
  have "names_ok E ks (entries (vstore db'))"
    using assms by (induction rule: rtranclp_induct) (auto dest: vault_step_names)
  then have ap: "names.apart E ks (entries (vstore db'))" by (simp add: names_ok_def)
  have "i = j" if "(i, r) \<in> set (entries (vstore db'))" "(j, q) \<in> set (entries (vstore db'))"
      "vault_scope (user_id r) (collection_id r) = vault_scope (user_id q) (collection_id q)"
      "decryptColumn E ks (entry_name r) vaultFieldName = Inr n" "decryptColumn E ks (entry_name q) vaultFieldName = Inr n" for i r j q n
  proof -
    have "plain_name E ks r = Some n" "plain_name E ks q = Some n" using that(4,5) by (simp_all add: plain_name_def)
    moreover have "scope_of r = scope_of q" using that(3) by (simp add: scope_of_vault)
    ultimately show ?thesis using ap that(1,2) unfolding names.apart_def by (metis option.distinct(1))
  qed
  then show ?thesis using ap unfolding names.apart_def by blast
qed

section \<open>Unlocking\<close>

lemma attemptE: "attempt m f = Inr y \<Longrightarrow> (\<And>x. m = Inr x \<Longrightarrow> f x = Inr y \<Longrightarrow> P) \<Longrightarrow> P"
  by (cases m) simp_all

lemma OpenEntrySecret_run:
  assumes "OpenEntrySecret E ks a ct nonce v orig = Inr pt"
  shows "pt_origin pt = orig" "pt_authority pt = Some a"
  using assms by (auto simp: OpenEntrySecret_def openEntrySecretWithKeyAge_def exit_Open_def Let_def split: sum.splits option.splits)

lemma reveal_value_run:
  assumes "reveal_value e (exit_of e db) uid operation eid r = Some v"
  shows "read (grantFor (vstore db) uid (instanceAdminByRecord (vstore db) uid) eid)"
    "\<exists>pt. OpenEntrySecret (vcipher e) (ve_keys e) (exit_of e db) (encrypted_value r) (entry_nonce r) 2 (entryOrigin eid (entry_name r)) = Inr pt \<and>
       v = pt_bytes pt"
proof -
  obtain pt out where p: "OpenEntrySecret (vcipher e) (ve_keys e) (exit_of e db) (encrypted_value r) (entry_nonce r) 2 (entryOrigin eid (entry_name r)) = Inr pt"
      "ExitString [] pt (ToCaller operation uid) = Inr (out, v)"
    using assms by (auto simp: reveal_value_def split: sum.splits)
  have x: "Exit [] pt (ToCaller operation uid) = Inr (out, v)" using p(2) by (auto simp: ExitString_def split: sum.splits)
  show "\<exists>pt. OpenEntrySecret (vcipher e) (ve_keys e) (exit_of e db) (encrypted_value r) (entry_nonce r) 2 (entryOrigin eid (entry_name r)) = Inr pt \<and>
       v = pt_bytes pt" using p(1) Exit_Inr(1) [OF x] by blast
  show "read (grantFor (vstore db) uid (instanceAdminByRecord (vstore db) uid) eid)"
    using Exit_Inr(2) [OF x] OpenEntrySecret_run [OF p(1)]
    by (auto simp: AuthorizeSecretExit_def ToCaller_def IsCaller_def authorizeSecretToCaller_def entryOrigin_def split: if_splits)
qed

lemma extend_sel [simp]:
  "vm_ID (vaultEntryMeta.extend m x) = vm_ID m" "vm_CustomFields (vaultEntryMeta.extend m x) = vm_CustomFields m"
  "vm_Value (vaultEntryMeta.extend m \<lparr>vm_Value = v\<rparr>) = v"
  by (simp_all add: vaultEntryMeta.defs)

lemma with_status_sel [simp]:
  "vm_ID (with_status e m) = vm_ID m" "vm_CustomFields (with_status e m) = vm_CustomFields m" "vm_CollectionID (with_status e m) = vm_CollectionID m"
  by (simp_all add: with_status_def)

lemma shown_sel [simp]: "vm_ID (shown e eid r i) = eid" "vm_CollectionID (shown e eid r i) = None"
  by (simp_all add: shown_def Let_def)

lemma reveal_entry_run:
  assumes "reveal_entry e a uid operation complete db row = Inr m"
  shows "vm_ID m = fst row"
    "vm_Value m = (case reveal_value e a uid operation (fst row) (snd row) of Some v \<Rightarrow> v | None \<Rightarrow> ''[decryption error]'')"
    "vm_CustomFields m = customFieldsForCaller (vcipher e) (ve_keys e) (ve_fields e) a (fst row) (entry_name (snd row)) (custom_fields (snd row)) uid True"
proof -
  have "\<exists>meta. m = vaultEntryMeta.extend meta
      \<lparr>vm_Value = (case reveal_value e a uid operation (fst row) (snd row) of Some v \<Rightarrow> v | None \<Rightarrow> ''[decryption error]'')\<rparr> \<and>
      vm_ID meta = fst row \<and> vm_CustomFields meta =
        customFieldsForCaller (vcipher e) (ve_keys e) (ve_fields e) a (fst row) (entry_name (snd row)) (custom_fields (snd row)) uid True"
    using assms unfolding reveal_entry_def Let_def
    apply (elim attemptE)
    apply (simp only: sum.inject)
    apply hypsubst
    apply (rule exI, rule conjI, rule refl)
    apply (simp_all (no_asm))
    done
  then show "vm_ID m = fst row"
    "vm_Value m = (case reveal_value e a uid operation (fst row) (snd row) of Some v \<Rightarrow> v | None \<Rightarrow> ''[decryption error]'')"
    "vm_CustomFields m = customFieldsForCaller (vcipher e) (ve_keys e) (ve_fields e) a (fst row) (entry_name (snd row)) (custom_fields (snd row)) uid True"
    by auto
qed

lemma revealed:
  assumes "revealAccessibleVaultEntries e a r uid operation complete db = Inr ms" "m \<in> set ms"
  obtains row where "row \<in> set (entries (vstore db))" "accessible (vstore db) uid (snd row)"
    "IsPrivateIngress r \<or> standard_policy (vstore db) (collection_id (snd row))" "reveal_entry e a uid operation complete db row = Inr m"
proof -
  obtain rows fulls where g: "present (ListAccessibleVaultEntriesWithSecrets uid (privateIngressSQLFlag r) db) () = Inr rows"
      "attempt_all (reveal_entry e a uid operation complete db) rows = Inr fulls" "Inr (sort_key (\<lambda>m. (vm_Name m, vm_ID m)) fulls) = (Inr ms :: unit + vaultEntryFull list)"
    using assms(1) unfolding revealAccessibleVaultEntries_def
    apply -
    apply (erule attemptE)
    apply (erule attemptE)
    apply (rule that; assumption)
    done
  have f: "ListAccessibleVaultEntriesWithSecrets uid (privateIngressSQLFlag r) db = Some rows" using g(1) by (simp only: present_Inr)
  have "list_all2 (\<lambda>x y. reveal_entry e a uid operation complete db x = Inr y) rows fulls" using g(2) by (simp only: attempt_all_Inr)
  moreover have "ms = sort_key (\<lambda>m. (vm_Name m, vm_ID m)) fulls" using g(3) by (simp only: sum.inject)
  ultimately obtain row where "row \<in> set rows" "reveal_entry e a uid operation complete db row = Inr m"
    using assms(2) unfolding list_all2_conv_all_nth in_set_conv_nth by (metis in_set_conv_nth set_sort)
  moreover have "set rows = {row \<in> set (entries (vstore db)). accessible (vstore db) uid (snd row) \<and>
      (privateIngressSQLFlag r = 1 \<or> standard_policy (vstore db) (collection_id (snd row)))}"
    using f by (auto simp: ListAccessibleVaultEntriesWithSecrets_def rows_of_def split: if_splits prod.splits)
  moreover have "privateIngressSQLFlag r = 1 \<longleftrightarrow> IsPrivateIngress r" by (simp add: privateIngressSQLFlag_def)
  ultimately show thesis using that by blast
qed

lemma reauth_passed:
  assumes "reauthOrRefuse e w r uid password db = (None, db')"
  shows "db' = db" "\<exists>hash. GetUserPasswordHash (vd_acc db) uid = Row hash \<and>
      Verify_Password (hash_of (ve_signin e)) (slot_free (ve_signin e) 0) password hash = Inr True" "\<not> snd (reauthLocked e uid db)"
  using assms by (auto simp: reauthOrRefuse_def Let_def split: prod.splits if_splits fetched.splits option.splits)

text \<open>
  C6. An unlock shows values to nobody else: it answers with entries only if the password sent matches the
  caller's stored hash and the caller is not locked out; every entry it shows exists and is the enabled caller's own or in a
  collection the caller has joined, in a standard vault unless the request came in privately; a value that is shown is what the stored
  ciphertext opens to and the caller's grant lets it be read, otherwise a fixed marker stands in its place; and no entry changes.
\<close>

theorem unlock_reveals_readable:
  assumes "Unlock e body r w db = (VUnlocked h ms, db')"
  shows "(\<exists>password hash. body = Some password \<and> GetUserPasswordHash (vd_acc db) (GetUserID r) = Row hash \<and>
       Verify_Password (hash_of (ve_signin e)) (slot_free (ve_signin e) 0) password hash = Inr True) \<and>
    \<not> snd (reauthLocked e (GetUserID r) db) \<and> entries (vstore db') = entries (vstore db) \<and>
    (\<forall>m \<in> set ms. \<exists>row. (vm_ID m, row) \<in> set (entries (vstore db)) \<and> accessible (vstore db) (GetUserID r) row \<and>
       (IsPrivateIngress r \<or> standard_policy (vstore db) (collection_id row)) \<and>
       (vm_Value m = ''[decryption error]'' \<or>
        read (grantFor (vstore db) (GetUserID r) (instanceAdminByRecord (vstore db) (GetUserID r)) (vm_ID m)) \<and>
        (\<exists>pt. OpenEntrySecret (vcipher e) (ve_keys e) (AuthorizeSecretExit (lib_of e) (vstore db)) (encrypted_value row) (entry_nonce row) 2
                (entryOrigin (vm_ID m) (entry_name row)) = Inr pt \<and> vm_Value m = pt_bytes pt)))"
proof -
  obtain password where b: "body = Some password" "reauthOrRefuse e w r (GetUserID r) password db = (None, db)"
      "revealAccessibleVaultEntries e (exit_of e db) r (GetUserID r) ''POST /api/vault/unlock'' False db = Inr ms"
    using assms reauth_passed(1) [of e w r "GetUserID r" "null_text body" db]
    by (cases body) (fastforce simp: Unlock_def Let_def null_text_def split: if_splits prod.splits option.splits sum.splits)+
  have "\<exists>row. (vm_ID m, row) \<in> set (entries (vstore db)) \<and> accessible (vstore db) (GetUserID r) row \<and>
       (IsPrivateIngress r \<or> standard_policy (vstore db) (collection_id row)) \<and>
       (vm_Value m = ''[decryption error]'' \<or>
        read (grantFor (vstore db) (GetUserID r) (instanceAdminByRecord (vstore db) (GetUserID r)) (vm_ID m)) \<and>
        (\<exists>pt. OpenEntrySecret (vcipher e) (ve_keys e) (exit_of e db) (encrypted_value row) (entry_nonce row) 2
                (entryOrigin (vm_ID m) (entry_name row)) = Inr pt \<and> vm_Value m = pt_bytes pt))" if "m \<in> set ms" for m
  proof -
    obtain row where row: "row \<in> set (entries (vstore db))" "accessible (vstore db) (GetUserID r) (snd row)"
        "IsPrivateIngress r \<or> standard_policy (vstore db) (collection_id (snd row))"
        "reveal_entry e (exit_of e db) (GetUserID r) ''POST /api/vault/unlock'' False db row = Inr m"
      using revealed [OF b(3) \<open>m \<in> set ms\<close>] .
    note m = reveal_entry_run [OF row(4)]
    show ?thesis
    proof (cases "reveal_value e (exit_of e db) (GetUserID r) ''POST /api/vault/unlock'' (fst row) (snd row)")
      case None
      then show ?thesis using row m by (intro exI [of _ "snd row"]) simp
    next
      case (Some v)
      then show ?thesis using row m reveal_value_run [OF Some] by (intro exI [of _ "snd row"]) simp
    qed
  qed
  then show ?thesis using b(1) reauth_passed [OF b(2)] entries_unlock [OF assms] by blast
qed


subsection \<open>The lock\<close>

text \<open>Unlocks one after the other, each with the clock of its own request: the answers and the state they leave.\<close>

fun unlocks :: "(vault_env \<times> string option \<times> request \<times> headers) list \<Rightarrow> vault_db \<Rightarrow> vault_answer list \<times> vault_db" where
  "unlocks [] db = ([], db)"
| "unlocks ((e, body, r, w) # xs) db =
     (case Unlock e body r w db of (ans, db1) \<Rightarrow> case unlocks xs db1 of (answers, db2) \<Rightarrow> (ans # answers, db2))"

definition wrong_password :: "vault_answer \<Rightarrow> bool" where
  "wrong_password ans \<longleftrightarrow> (\<exists>resp. ans = VReply resp \<and> status resp = 403)"

text \<open>The failures of an address in the fifteen minutes before an instant.\<close>

definition failures :: "string \<Rightarrow> int \<Rightarrow> vault_db \<Rightarrow> nat" where
  "failures addr T db = length (filter (\<lambda>x. attempt_email x = addr \<and> attempt_scope x = ''session_reauth'' \<and> attempt_success x = 0 \<and> T - 900 < attempt_at x)
     (attempts (vd_acc db)))"

definition counting_works :: "string \<Rightarrow> string \<Rightarrow> vault_db \<Rightarrow> bool" where
  "counting_works uid addr db \<longleftrightarrow> (\<exists>u. map_of (users (vstore db)) uid = Some u \<and> email u = addr) \<and> addr \<noteq> [] \<and>
     \<not> fails (vstore db) ''GetUserEmailByID'' \<and> \<not> fails (vstore db) ''CountRecentFailedLoginAttemptsByEmailAndScope'' \<and>
     \<not> fails (vstore db) ''CreateLoginAttempt''"

lemma failures_mono: "t \<le> T \<Longrightarrow> failures addr T db \<le> failures addr t db"
proof -
  assume "t \<le> T"
  then have "length (filter (\<lambda>x. attempt_email x = addr \<and> attempt_scope x = ''session_reauth'' \<and> attempt_success x = 0 \<and> T - 900 < attempt_at x) xs) \<le>
      length (filter (\<lambda>x. attempt_email x = addr \<and> attempt_scope x = ''session_reauth'' \<and> attempt_success x = 0 \<and> t - 900 < attempt_at x) xs)" for xs
    by (induction xs) auto
  then show ?thesis by (simp add: failures_def)
qed

lemma locked_count:
  assumes "counting_works uid addr db"
  shows "reauthLocked e uid db = (addr, failures addr (vclock e) db \<ge> 5)"
  using assms
  by (auto simp: counting_works_def reauthLocked_def GetUserEmailByID_def fetch_def CountRecentFailedLoginAttemptsByEmailAndScope_def
      failures_def recent_failure_def LoginAttemptScopeSessionReauth_def)

lemma refused_statuses [simp]:
  "status (writeBadRequest w r msg) = 400" "status (writeRateLimited w r msg) = 429" "status (writeForbidden w r msg) = 403"
  "status (writeUnauthorized w r msg) = 401" "status (writeInternalError w r msg) = 500"
  by (simp_all add: writeBadRequest_def writeRateLimited_def writeForbidden_def writeUnauthorized_def writeInternalError_def writeError_def writeJSON_def)

lemma unlock_counts:
  assumes "counting_works uid addr db" "GetUserID r = uid" "T - 900 < vclock e" "vclock e \<le> T" "Unlock e body r w db = (ans, db')"
  shows "counting_works uid addr db'" "failures addr T db' = failures addr T db + (if wrong_password ans then 1 else 0)"
    "wrong_password ans \<Longrightarrow> failures addr T db < 5"
proof -
  have logged: "failures addr T (vlog e r act d) = failures addr T d" "counting_works uid addr (vlog e r act d) = counting_works uid addr d" for act d
    by (simp_all add: failures_def counting_works_def vlog_def LogActivityFromRequest_def logActivityInternal_def)
  have recorded: "failures addr T (recordReauthFailure e r addr db) = Suc (failures addr T db)" "counting_works uid addr (recordReauthFailure e r addr db)"
    using assms(1,3) by (auto simp: counting_works_def recordReauthFailure_def CreateLoginAttempt_def failures_def LoginAttemptScopeSessionReauth_def)
  have busy: "capacityExhausted w r v = Some resp \<Longrightarrow> status resp = 503" for v resp
    by (auto simp: capacityExhausted_def writeError_def writeJSON_def split: if_splits)
  have low: "failures addr T db \<le> failures addr (vclock e) db" by (rule failures_mono [OF assms(4)])
  have "counting_works uid addr db' \<and> failures addr T db' = failures addr T db + (if wrong_password ans then 1 else 0) \<and>
      (wrong_password ans \<longrightarrow> failures addr T db < 5)"
    using assms(1,2,5) logged recorded low busy unfolding Unlock_def reauthOrRefuse_def locked_count [OF assms(1)] Let_def
    by (auto simp: wrong_password_def locked_count [OF assms(1)] split: if_splits prod.splits option.splits sum.splits fetched.splits)
  then show "counting_works uid addr db'" "failures addr T db' = failures addr T db + (if wrong_password ans then 1 else 0)"
    "wrong_password ans \<Longrightarrow> failures addr T db < 5" by blast+
qed

lemma unlocks_count:
  assumes "counting_works uid addr db" "\<forall>(e, body, r, w) \<in> set xs. GetUserID r = uid \<and> T - 900 < vclock e \<and> vclock e \<le> T"
    "unlocks xs db = (answers, db')"
  shows "counting_works uid addr db' \<and> failures addr T db' = failures addr T db + length (filter wrong_password answers) \<and>
    (filter wrong_password answers = [] \<or> failures addr T db' \<le> 5)"
  using assms
proof (induction xs arbitrary: db answers)
  case (Cons x xs)
  obtain e body r w where x: "x = (e, body, r, w)" by (cases x) auto
  obtain ans db1 where u: "Unlock e body r w db = (ans, db1)" by fastforce
  obtain as' where rest: "unlocks xs db1 = (as', db')" "answers = ans # as'"
    using Cons.prems(3) unfolding x by (auto simp: u split: prod.splits)
  have one: "counting_works uid addr db1" "failures addr T db1 = failures addr T db + (if wrong_password ans then 1 else 0)"
      "wrong_password ans \<Longrightarrow> failures addr T db < 5"
    using unlock_counts [OF Cons.prems(1) _ _ _ u, where T = T] Cons.prems(2) unfolding x by auto
  have "counting_works uid addr db' \<and> failures addr T db' = failures addr T db1 + length (filter wrong_password as') \<and>
      (filter wrong_password as' = [] \<or> failures addr T db' \<le> 5)"
    by (rule Cons.IH [OF one(1) _ rest(1)]) (use Cons.prems(2) in simp)
  then show ?case using one rest(2) by auto
qed simp

text \<open>
  C17. Unlocking cannot be used to guess a password.  Take any sequence of unlock requests of one user within fifteen minutes, with
  whatever bodies and after whatever happened before.  At most five of them are answered as a wrong password,
  fewer if failures from before lie in the same fifteen minutes, and each of these is recorded; and once five failures
  lie in the fifteen minutes, every further unlock in them is refused with status 429 before
  the password is looked at, the right one too, and changes nothing.  This assumes that the three statements behind the count work
  (the user's address, the count, the record): the lock is open when they fail.
\<close>

theorem unlock_lockout:
  assumes "counting_works uid addr db" "\<forall>(e, body, r, w) \<in> set xs. GetUserID r = uid \<and> T - 900 < vclock e \<and> vclock e \<le> T"
    "unlocks xs db = (answers, db')"
  shows "length (filter wrong_password answers) \<le> 5 - failures addr T db \<and>
    failures addr T db' = failures addr T db + length (filter wrong_password answers) \<and>
    (\<forall>e password r w. 5 \<le> failures addr T db' \<and> vclock e \<le> T \<and> GetUserID r = uid \<and> password \<noteq> [] \<longrightarrow>
       Unlock e (Some password) r w db' = (VReply (writeRateLimited w r ''too many attempts, try again in 15 minutes''), db'))"
proof -
  note n = unlocks_count [OF assms]
  have "Unlock e (Some password) r w db' = (VReply (writeRateLimited w r ''too many attempts, try again in 15 minutes''), db')"
    if "5 \<le> failures addr T db'" "vclock e \<le> T" "GetUserID r = uid" "password \<noteq> []" for e password r w
  proof -
    have "reauthLocked e uid db' = (addr, True)" using n locked_count [of uid addr db' e] failures_mono [OF that(2), of addr db'] that(1) by simp
    then show ?thesis using that(3,4) by (simp add: Unlock_def reauthOrRefuse_def null_text_def)
  qed
  then show ?thesis using n by auto
qed


section \<open>Creation\<close>

definition finished_row :: "entry_row \<Rightarrow> string \<Rightarrow> string \<Rightarrow> string \<Rightarrow> int \<Rightarrow> entry_row" where
  "finished_row row cf dp spec t = row\<lparr>encryption_version := Some 2, rotation_targets := Some ''[]'',
     destination_patterns := dp, injection_spec := spec, custom_fields := cf, updated_at := t\<rparr>"

lemma finished_start: "row\<lparr>encryption_version := Some 2, rotation_targets := Some ''[]'', destination_patterns := ''[]'', injection_spec := ''{}'', custom_fields := ''[]''\<rparr> =
    finished_row row ''[]'' ''[]'' ''{}'' (updated_at row)"
  by (simp add: finished_row_def)

lemma finished_more:
  "(finished_row row cf dp spec t)\<lparr>custom_fields := cf', updated_at := t'\<rparr> = finished_row row cf' dp spec t'"
  "(finished_row row cf dp spec t)\<lparr>destination_patterns := dp', injection_spec := spec', updated_at := t'\<rparr> = finished_row row cf dp' spec' t'"
  by (simp_all add: finished_row_def)

text \<open>The table holds the row, with these custom fields, under a new identifier, and is otherwise as before.\<close>

definition holds_new :: "vault_db \<Rightarrow> string \<Rightarrow> entry_row \<Rightarrow> string \<Rightarrow> vault_db \<Rightarrow> bool" where
  "holds_new db eid row cf db' \<longleftrightarrow> (\<exists>dp spec t. \<forall>i. map_of (entries (vstore db')) i =
     (if i = eid then Some (finished_row row cf dp spec t) else map_of (entries (vstore db)) i))"

lemma holds_inserted: "insert_entry t tk eid row db = Inr db1 \<Longrightarrow> holds_new db eid row ''[]'' db1"
  unfolding holds_new_def
  by (intro exI [of _ "''[]''"] exI [of _ "''{}''"] exI [of _ "updated_at row"])
     (simp add: insert_entry_run finished_start map_of_append_new del: map_of_append)

lemma holds_updated:
  assumes "holds_new db eid row cf db1" "entries (vstore db2) = sql_update eid f (entries (vstore db1))"
    "\<And>dp spec t. \<exists>dp' spec' t'. f (finished_row row cf dp spec t) = finished_row row cf' dp' spec' t'"
  shows "holds_new db eid row cf' db2"
proof -
  obtain dp spec t where "\<forall>i. map_of (entries (vstore db1)) i = (if i = eid then Some (finished_row row cf dp spec t) else map_of (entries (vstore db)) i)"
    using assms(1) unfolding holds_new_def by blast
  moreover obtain dp' spec' t' where "f (finished_row row cf dp spec t) = finished_row row cf' dp' spec' t'" using assms(3) by blast
  ultimately have "\<forall>i. map_of (entries (vstore db2)) i = (if i = eid then Some (finished_row row cf' dp' spec' t') else map_of (entries (vstore db)) i)"
    using assms(2) by simp
  then show ?thesis unfolding holds_new_def by blast
qed

lemma holds_fields:
  assumes "holds_new db eid row cf0 db1" "UpdateVaultEntryCustomFields t cf eid db1 = Some db2"
  shows "holds_new db eid row cf db2"
proof -
  have "entries (vstore db2) = sql_update eid (\<lambda>r. r\<lparr>custom_fields := cf, updated_at := t\<rparr>) (entries (vstore db1))"
    using assms(2) by (auto simp: UpdateVaultEntryCustomFields_def vexec_def split: if_splits)
  then show ?thesis by (rule holds_updated [OF assms(1)]) (auto simp: finished_more)
qed

lemma holds_seeded:
  assumes "holds_new db eid row cf db2"
  shows "holds_new db eid row cf (seedCapabilityDefaults e eid prov may db2)"
proof (cases rule: seed_entries [of e eid prov may db2])
  case same
  then show ?thesis using assms by simp
next
  case (seeded dp spec)
  then have "entries (vstore (seedCapabilityDefaults e eid prov may db2)) = sql_update eid
      (\<lambda>r. if destination_patterns r = ''[]'' \<and> injection_spec r = ''{}'' then r\<lparr>destination_patterns := dp, injection_spec := spec, updated_at := vclock e\<rparr> else r)
      (entries (vstore db2))" by simp
  then show ?thesis by (rule holds_updated [OF assms]) (auto simp: finished_more)
qed

lemma create_run:
  assumes "Create e (Some req) r w db = (VEntry 201 m, db')"
  obtains req' p where "create_validate e w r req = Inr req'" "create_prepare e w r req' = Inr p"
    "vm_ID m = pe_id p" "pe_id p \<notin> fst ` set (entries (vstore db))"
    "holds_new db (pe_id p) (pe_row p) (if pe_fields p = [] then ''[]'' else pe_fields p) db'"
proof (cases rule: settle_cases [OF assms [unfolded Create_def]])
  case (1 err)
  then show thesis by simp
next
  case 2
  then obtain req' p where p: "create_validate e w r req = Inr req'" "create_prepare e w r req' = Inr p" "create_commit e w r req' p db = Inr (VEntry 201 m, db')"
    by (auto simp: attempt_rules)
  obtain db1 db2 where c: "insert_entry (vclock e) (pe_ticket p) (pe_id p) (pe_row p) db = Inr db1"
      "pe_fields p = [] \<and> db2 = db1 \<or> pe_fields p \<noteq> [] \<and> UpdateVaultEntryCustomFields (vclock e) (pe_fields p) (pe_id p) db1 = Some db2"
      "db' = vlog e r ''vault.entry_created'' (sealSecretName e (cr_Name req') (seedCapabilityDefaults e (pe_id p) (cr_Provider req') True db2))"
    using create_commit_run [OF p(3)] by metis
  have "holds_new db (pe_id p) (pe_row p) (if pe_fields p = [] then ''[]'' else pe_fields p) db2"
    using c(2) holds_inserted [OF c(1)] holds_fields by auto
  from holds_seeded [OF this] have "holds_new db (pe_id p) (pe_row p) (if pe_fields p = [] then ''[]'' else pe_fields p) db'"
    unfolding c(3) holds_new_def by simp
  moreover have "vm_ID m = pe_id p"
    using p(3) unfolding create_commit_def Let_def by (auto simp: attempt_rules vaultMetaFromGetRow_def)
  ultimately show thesis using that p(1,2) insert_entry_run(1) [OF c(1)] by blast
qed

lemma validated_text:
  assumes "validateLiveEntryText \<lparr>in_Name = Some n, in_Value = Some v, in_URL = Some u, in_AliasURL = Some al, in_Username = Some un, in_Notes = Some nt\<rparr> True True = Inr t"
  shows "t = \<lparr>in_Name = Some (trim_space n), in_Value = Some v, in_URL = Some (trim_space u), in_AliasURL = Some (trim_space al),
           in_Username = Some (trim_space un), in_Notes = Some nt\<rparr>" "v \<noteq> []" "trim_space n \<noteq> []"
  using assms by (auto simp: validateLiveEntryText_def live_name_def live_value_def live_bounded_def Let_def split: if_splits)

text \<open>What a request to create asks for: its texts without surrounding white space, labels of custom fields included.\<close>

definition sent_entry :: "create_request \<Rightarrow> create_request" where
  "sent_entry req = req\<lparr>cr_Name := trim_space (cr_Name req), cr_URL := trim_space (cr_URL req), cr_AliasURL := trim_space (cr_AliasURL req),
     cr_Username := trim_space (cr_Username req), cr_CustomFields := map (\<lambda>f. f\<lparr>cf_Label := trim_space (cf_Label f)\<rparr>) (cr_CustomFields req)\<rparr>"

lemma trim_labels_map: "trim_labels fs = Inr fs' \<Longrightarrow> fs' = map (\<lambda>f. f\<lparr>cf_Label := trim_space (cf_Label f)\<rparr>) fs"
proof (induction fs arbitrary: fs')
  case (Cons f fs)
  then show ?case by (cases "trim_labels fs") (auto simp: trim_label_def split: if_splits)
qed simp

lemma trimmed_fields: "validateCustomFields fs = Inr fs' \<Longrightarrow> fs' = map (\<lambda>f. f\<lparr>cf_Label := trim_space (cf_Label f)\<rparr>) fs"
  by (auto simp: validateCustomFields_def dest: trim_labels_map split: sum.splits option.splits)

lemma validated_create:
  assumes "create_validate e w r req = Inr req'"
  shows "req' = sent_entry req" "cr_Value req \<noteq> []" "trim_space (cr_Name req) \<noteq> []"
proof -
  obtain t fs where t: "validateLiveEntryText \<lparr>in_Name = Some (cr_Name req), in_Value = Some (cr_Value req), in_URL = Some (cr_URL req),
          in_AliasURL = Some (cr_AliasURL req), in_Username = Some (cr_Username req), in_Notes = Some (cr_Notes req)\<rparr> True True = Inr t"
      "req' = req\<lparr>cr_Name := null_text (in_Name t), cr_URL := null_text (in_URL t), cr_AliasURL := null_text (in_AliasURL t),
              cr_Username := null_text (in_Username t), cr_CustomFields := fs\<rparr>" "validateCustomFields (cr_CustomFields req) = Inr fs"
    using assms unfolding create_validate_def attempt_rules by blast
  then show "req' = sent_entry req" "cr_Value req \<noteq> []" "trim_space (cr_Name req) \<noteq> []"
    using validated_text [OF t(1)] trimmed_fields [OF t(3)] by (simp_all add: null_text_def sent_entry_def)
qed

lemma sealed_opens:
  assumes "encryptColumn E ks n rnd = Some c" "f \<noteq> None"
  shows "decryptColumn E ks c f = Inr n"
  using OpenColumn_SealColumn [OF assms(1) [unfolded encryptColumn_def] assms(2)] by (simp add: decryptColumn_def decryptColumnWithKeyAge_def)

lemma null_text_toNull [simp]: "null_text (toNullString v) = v"
  by (simp add: null_text_def toNullString_def)

lemma seal_all_Cons: "seal_all f ((x, rnd) # rest) = Some ys \<longleftrightarrow> (\<exists>y zs. f x rnd = Some y \<and> seal_all f rest = Some zs \<and> ys = y # zs)"
  by (auto split: option.splits)

text \<open>
  Every sealed column of a row opens to the given text; the custom fields open to the text \<^verbatim>\<open>encoding/json\<close> prints of them,
  so they are read back as sent if that text parses to them.
\<close>

definition row_opens :: "vault_env \<Rightarrow> entry_row \<Rightarrow> create_request \<Rightarrow> bool" where
  "row_opens e row req \<longleftrightarrow>
     vopen e (entry_name row) vaultFieldName = Inr (cr_Name req) \<and> vopen e (null_text (url row)) vaultFieldURL = Inr (cr_URL req) \<and>
     vopen e (null_text (alias_url row)) vaultFieldAliasURL = Inr (cr_AliasURL req) \<and> vopen e (null_text (username row)) vaultFieldUsername = Inr (cr_Username req) \<and>
     vopen e (null_text (category row)) vaultFieldCategory = Inr (cr_Category req) \<and> vopen e (null_text (entry_notes row)) vaultFieldNotes = Inr (cr_Notes req) \<and>
     vopen e (null_text (provider_meta row)) vaultFieldProviderMeta = Inr (if cr_ProviderMeta req = [] then ''{}'' else cr_ProviderMeta req) \<and>
     (\<forall>a orig. OpenEntrySecret (vcipher e) (ve_keys e) a (encrypted_value row) (entry_nonce row) 2 orig =
        Inr \<lparr>pt_bytes = cr_Value req, pt_origin = orig, pt_authority = Some a\<rparr>) \<and>
     (\<exists>content. vopen e (custom_fields row) vaultFieldCustomFields = Inr content \<and>
        (if cr_CustomFields req = [] then content = ''[]'' else print_fields (ve_fields e) (cr_CustomFields req) = Some content) \<and>
        (parse_fields (ve_fields e) content = Some (cr_CustomFields req) \<longrightarrow>
           decryptCustomFields (vcipher e) (ve_keys e) (ve_fields e) (custom_fields row) = cr_CustomFields req))"

lemma field_declared [simp]: "vaultFieldURL \<noteq> None" "vaultFieldAliasURL \<noteq> None" "vaultFieldUsername \<noteq> None" "vaultFieldCategory \<noteq> None"
  "vaultFieldNotes \<noteq> None" "vaultFieldProviderMeta \<noteq> None" "vaultFieldName \<noteq> None" "vaultFieldRotationTargets \<noteq> None" "entryValue \<noteq> None"
  "vaultFieldCustomFields \<noteq> None"
  by (simp_all add: vaultFieldCustomFields_def vaultFieldURL_def vaultFieldAliasURL_def vaultFieldUsername_def vaultFieldCategory_def vaultFieldNotes_def
      vaultFieldProviderMeta_def vaultFieldName_def vaultFieldRotationTargets_def entryValue_def)

lemma prepared_fields:
  assumes "create_prepare e w r req = Inr p" "\<forall>fs c. print_fields (ve_fields e) fs = Some c \<longrightarrow> c \<noteq> []"
  obtains content where "vopen e (if pe_fields p = [] then ''[]'' else pe_fields p) vaultFieldCustomFields = Inr content"
    "if cr_CustomFields req = [] then content = ''[]'' else print_fields (ve_fields e) (cr_CustomFields req) = Some content" "content \<noteq> []"
proof (cases "cr_CustomFields req = []")
  case True
  then have "pe_fields p = [] \<or> pe_fields p = ''[]''"
    using create_prepare_run [OF assms(1)] by (fastforce simp: encryptCustomFields_def)
  then have "(if pe_fields p = [] then ''[]'' else pe_fields p) = ''[]''" by auto
  moreover have "vopen e ''[]'' vaultFieldCustomFields = Inr ''[]''"
    by (simp add: decryptColumn_def decryptColumnWithKeyAge_def OpenColumn_def IsZero_def IsSealedColumn_def has_prefix_def ColumnPrefix_def)
  ultimately show thesis using True that [of "''[]''"] by simp
next
  case False
  then have "encryptCustomFields (vcipher e) (ve_keys e) (ve_fields e) (ve_rnd e ''custom_fields'') (cr_CustomFields req) = Some (pe_fields p)"
    using create_prepare_run [OF assms(1)] by (metis prepared_entry.select_convs(3))
  then obtain content where c: "print_fields (ve_fields e) (cr_CustomFields req) = Some content"
      "encryptColumn (vcipher e) (ve_keys e) content (ve_rnd e ''custom_fields'') = Some (pe_fields p)"
    using False by (auto simp: encryptCustomFields_def split: option.splits)
  have "pe_fields p \<noteq> []"
    using c(2) assms(2) [rule_format, OF c(1)] by (auto simp: encryptColumn_def SealColumn_def ColumnPrefix_def split: option.splits)
  then show thesis using that [of content] sealed_opens [OF c(2), of vaultFieldCustomFields] c(1) assms(2) [rule_format, OF c(1)] False by simp
qed

lemma prepared_opens:
  assumes "create_prepare e w r req = Inr p" "\<forall>fs c. print_fields (ve_fields e) fs = Some c \<longrightarrow> c \<noteq> []"
    "cf = (if pe_fields p = [] then ''[]'' else pe_fields p)"
  shows "row_opens e (finished_row (pe_row p) cf dp spec t) req"
proof -
  obtain ct nonce meta cols nm expires where c:
      "Seal (vcipher e) (key_value (current (ve_keys e))) (cr_Value req) (ve_rnd e ''value'') = Some (ct, nonce)"
      "vseal e ''provider_meta'' (if cr_ProviderMeta req = [] then ''{}'' else cr_ProviderMeta req) = Some meta"
      "encryptMetaColumns (vcipher e) (ve_keys e)
         [(cr_URL req, ve_rnd e ''url''), (cr_AliasURL req, ve_rnd e ''alias_url''), (cr_Username req, ve_rnd e ''username''),
          (cr_Category req, ve_rnd e ''category''), (cr_Notes req, ve_rnd e ''notes'')] = Some cols"
      "vseal e ''name'' (cr_Name req) = Some nm" "pe_row p = created_row e (GetUserID r) req nm ct nonce cols expires meta"
    using create_prepare_run [OF assms(1)] by (metis prepared_entry.select_convs(2))
  obtain u al un cat nt where cols: "cols = [u, al, un, cat, nt]"
      "encryptColumn (vcipher e) (ve_keys e) (cr_URL req) (ve_rnd e ''url'') = Some u"
      "encryptColumn (vcipher e) (ve_keys e) (cr_AliasURL req) (ve_rnd e ''alias_url'') = Some al"
      "encryptColumn (vcipher e) (ve_keys e) (cr_Username req) (ve_rnd e ''username'') = Some un"
      "encryptColumn (vcipher e) (ve_keys e) (cr_Category req) (ve_rnd e ''category'') = Some cat"
      "encryptColumn (vcipher e) (ve_keys e) (cr_Notes req) (ve_rnd e ''notes'') = Some nt"
    using c(3) unfolding encryptMetaColumns_def seal_all_Cons by auto
  have v: "OpenEntrySecret (vcipher e) (ve_keys e) a ct nonce 2 orig = Inr \<lparr>pt_bytes = cr_Value req, pt_origin = orig, pt_authority = Some a\<rparr>" for a orig
    using Open_Seal [OF c(1), of entryValue] by (simp add: OpenEntrySecret_def openEntrySecretWithKeyAge_def exit_Open_def)
  obtain content where cf: "vopen e cf vaultFieldCustomFields = Inr content"
    "if cr_CustomFields req = [] then content = ''[]'' else print_fields (ve_fields e) (cr_CustomFields req) = Some content" "content \<noteq> []"
    using prepared_fields [OF assms(1,2)] unfolding assms(3) [symmetric] .
  then have "\<exists>content. vopen e cf vaultFieldCustomFields = Inr content \<and>
        (if cr_CustomFields req = [] then content = ''[]'' else print_fields (ve_fields e) (cr_CustomFields req) = Some content) \<and>
        (parse_fields (ve_fields e) content = Some (cr_CustomFields req) \<longrightarrow>
           decryptCustomFields (vcipher e) (ve_keys e) (ve_fields e) cf = cr_CustomFields req)"
    by (intro exI [of _ content]) (simp add: decryptCustomFields_def decryptColumnOrLog_def)
  then show ?thesis
    using sealed_opens [OF c(2), of vaultFieldProviderMeta] sealed_opens [OF c(4), of vaultFieldName] sealed_opens [OF cols(2), of vaultFieldURL]
      sealed_opens [OF cols(3), of vaultFieldAliasURL] sealed_opens [OF cols(4), of vaultFieldUsername]
      sealed_opens [OF cols(5), of vaultFieldCategory] sealed_opens [OF cols(6), of vaultFieldNotes] v
    unfolding row_opens_def c(5) cols(1) finished_row_def created_row_def Let_def by simp
qed

text \<open>
  C9. What is created can be read back: an accepted creation adds one entry under an identifier no entry had and leaves every other
  entry as it was; the new row belongs to its creator and to the chosen vault, and under the same keys its value and every
  sealed column open to exactly what was sent, names, URLs, the user name and field labels without surrounding white space; the
  custom fields open to the JSON text of the fields sent, and are read back as these fields whenever the JSON
  decoder reads them from that text.  The one hypothesis on \<^verbatim>\<open>encoding/json\<close> is that it prints no value as the empty text.
\<close>

theorem created_entry_opens:
  assumes "Create e (Some req) r w db = (VEntry 201 m, db')"
    and printed: "\<forall>fs c. print_fields (ve_fields e) fs = Some c \<longrightarrow> c \<noteq> []"
  shows "vm_ID m \<notin> fst ` set (entries (vstore db)) \<and>
    (\<forall>i. i \<noteq> vm_ID m \<longrightarrow> map_of (entries (vstore db')) i = map_of (entries (vstore db)) i) \<and>
    (\<exists>row. map_of (entries (vstore db')) (vm_ID m) = Some row \<and> user_id row = GetUserID r \<and> secret_owner_user_id row = GetUserID r \<and>
       collection_id row = chosen_collection (cr_CollectionID req) \<and> provider row = toNullString (cr_Provider req) \<and>
       row_opens e row (sent_entry req))"
proof -
  obtain req' p where p: "create_validate e w r req = Inr req'" "create_prepare e w r req' = Inr p"
      "vm_ID m = pe_id p" "pe_id p \<notin> fst ` set (entries (vstore db))"
      "holds_new db (pe_id p) (pe_row p) (if pe_fields p = [] then ''[]'' else pe_fields p) db'"
    using create_run [OF assms(1)] .
  note q = validated_create(1) [OF p(1)]
  let ?cf = "if pe_fields p = [] then ''[]'' else pe_fields p"
  obtain dp spec t where h: "\<forall>i. map_of (entries (vstore db')) i =
      (if i = pe_id p then Some (finished_row (pe_row p) ?cf dp spec t) else map_of (entries (vstore db)) i)"
    using p(5) unfolding holds_new_def by blast
  let ?row = "finished_row (pe_row p) ?cf dp spec t"
  have "row_opens e ?row (sent_entry req)" using prepared_opens [OF p(2) printed refl] unfolding q .
  moreover have "user_id ?row = GetUserID r" "secret_owner_user_id ?row = GetUserID r" "collection_id ?row = chosen_collection (cr_CollectionID req)"
      "provider ?row = toNullString (cr_Provider req)"
    using p(2) q by (auto elim!: create_prepare_run simp: finished_row_def created_row_def sent_entry_def Let_def)
  ultimately show ?thesis using h p(3,4) by simp
qed


section \<open>Matching and listing\<close>

lemma match_row_id [simp]: "vm_ID (vaultMetaFromMatchAccessibleRow e i row x) = i"
  by (simp add: vaultMetaFromMatchAccessibleRow_def)

lemma append_rows_ids:
  "vm_ID ` set (append_rows e db rows sofar) = vm_ID ` set sofar \<union> fst ` set rows"
  by (induction e db rows sofar rule: append_rows.induct) auto

lemma append_rows_distinct: "distinct (map vm_ID sofar) \<Longrightarrow> distinct (map vm_ID (append_rows e db rows sofar))"
proof (induction rows arbitrary: sofar)
  case (Cons x rows)
  then show ?case by (cases x) simp
qed simp

text \<open>One of the row's two URLs has a token a lookup for this URL asks for.\<close>

definition found_by :: "vault_env \<Rightarrow> string \<Rightarrow> string \<Rightarrow> entry_row \<Rightarrow> bool" where
  "found_by e scope rawURL row \<longleftrightarrow> (\<exists>b \<in> set (urlBlindIndexCandidates (ve_mac e) (ve_url e) (ve_keys e) scope rawURL). indexed b row)"

lemma personal_ids: "MatchPersonalVaultEntriesByURL uid b db = Some rows \<Longrightarrow>
    fst ` set rows = {i. \<exists>row. (i, row) \<in> set (entries (vstore db)) \<and> collection_id row = None \<and> user_id row = uid \<and> indexed b row}"
  by (force simp: MatchPersonalVaultEntriesByURL_def rows_of_def split: if_splits)

lemma collection_ids: "\<not> fails (vstore db) ''MatchCollectionVaultEntriesByURL'' \<Longrightarrow> \<exists>rows. MatchCollectionVaultEntriesByURL cid b db = Some rows \<and>
    fst ` set rows = {i. \<exists>row. (i, row) \<in> set (entries (vstore db)) \<and> collection_id row = Some cid \<and> indexed b row}"
  by (force simp: MatchCollectionVaultEntriesByURL_def rows_of_def)

lemma match_personal_ids:
  "match_personal e db uid bs sofar = Some out \<Longrightarrow>
   vm_ID ` set out = vm_ID ` set sofar \<union> {i. \<exists>row. (i, row) \<in> set (entries (vstore db)) \<and> collection_id row = None \<and> user_id row = uid \<and>
      (\<exists>b \<in> set bs. indexed b row)}"
proof (induction bs arbitrary: sofar)
  case (Cons b bs)
  then obtain rows where "MatchPersonalVaultEntriesByURL uid b db = Some rows" "match_personal e db uid bs (append_rows e db rows sofar) = Some out"
    by (auto split: option.splits)
  then show ?case by (auto simp: append_rows_ids Cons.IH personal_ids)
qed simp

lemma match_personal_distinct: "match_personal e db uid bs sofar = Some out \<Longrightarrow> distinct (map vm_ID sofar) \<Longrightarrow> distinct (map vm_ID out)"
  by (induction bs arbitrary: sofar) (auto simp: append_rows_distinct split: option.splits)

lemma match_collection_ids:
  assumes "\<not> fails (vstore db) ''MatchCollectionVaultEntriesByURL''"
  shows "vm_ID ` set (match_collection e db cid bs sofar) = vm_ID ` set sofar \<union>
    {i. \<exists>row. (i, row) \<in> set (entries (vstore db)) \<and> collection_id row = Some cid \<and> (\<exists>b \<in> set bs. indexed b row)}"
proof (induction bs arbitrary: sofar)
  case (Cons b bs)
  obtain rows where "MatchCollectionVaultEntriesByURL cid b db = Some rows"
      "fst ` set rows = {i. \<exists>row. (i, row) \<in> set (entries (vstore db)) \<and> collection_id row = Some cid \<and> indexed b row}"
    using collection_ids [OF assms] by metis
  then show ?case using Cons.IH by (auto simp: append_rows_ids)
qed simp

lemma match_collection_distinct: "distinct (map vm_ID sofar) \<Longrightarrow> distinct (map vm_ID (match_collection e db cid bs sofar))"
  by (induction bs arbitrary: sofar) (auto simp: append_rows_distinct split: option.splits)

lemma match_collections_distinct: "match_collections e r db rawURL cs sofar = Some out \<Longrightarrow> distinct (map vm_ID sofar) \<Longrightarrow> distinct (map vm_ID out)"
  by (induction cs arbitrary: sofar) (auto simp: match_collection_distinct split: sum.splits if_splits)

lemma match_collections_ids:
  assumes "\<not> fails (vstore db) ''MatchCollectionVaultEntriesByURL''"
  shows "match_collections e r db rawURL cs sofar = Some out \<Longrightarrow>
    vm_ID ` set out = vm_ID ` set sofar \<union> {i. \<exists>row cid policy. (i, row) \<in> set (entries (vstore db)) \<and> collection_id row = Some cid \<and>
      (cid, policy) \<in> set cs \<and> privateMetadataVisible r policy = Inr True \<and> found_by e (bidxScope [] (Some cid)) rawURL row}"
proof (induction cs arbitrary: sofar)
  case (Cons c cs)
  obtain cid policy where c: "c = (cid, policy)" by (cases c)
  obtain visible where v: "privateMetadataVisible r policy = Inr visible"
      "match_collections e r db rawURL cs (if visible then match_collection e db cid
         (urlBlindIndexCandidates (ve_mac e) (ve_url e) (ve_keys e) (bidxScope [] (Some cid)) rawURL) sofar else sofar) = Some out"
    using Cons.prems by (auto simp: c split: sum.splits)
  show ?case
    unfolding Cons.IH [OF v(2)] using v(1)
    by (cases visible) (auto simp: c match_collection_ids [OF assms] found_by_def)
qed simp

text \<open>
  C19. A match is exact: for a URL with a host, the entries shown are, each once, those personal entries of the
  caller and those entries of joined collections whose metadata this ingress may see that carry, for one of their two URLs,
  a token of the asked host under the current or the previous key in their own vault; nothing changes.
\<close>

theorem match_exact:
  assumes "Match e rawURL r w db = (VEntries ms, db')" "\<not> fails (vstore db) ''MatchCollectionVaultEntriesByURL''"
  shows "db' = db \<and> distinct (map vm_ID ms) \<and>
    vm_ID ` set ms =
      {i. \<exists>row. (i, row) \<in> set (entries (vstore db)) \<and> collection_id row = None \<and> user_id row = GetUserID r \<and>
            found_by e (bidxScope (GetUserID r) None) rawURL row} \<union>
      {i. \<exists>row cid policy. (i, row) \<in> set (entries (vstore db)) \<and> collection_id row = Some cid \<and> (cid, policy) \<in> set (collections (vstore db)) \<and>
            accepted_role (vstore db) cid (GetUserID r) \<noteq> None \<and> privateMetadataVisible r policy = Inr True \<and>
            found_by e (bidxScope [] (Some cid)) rawURL row}"
proof (cases rule: settle_cases [OF assms(1) [unfolded Match_def]])
  case (1 err)
  then show ?thesis by simp
next
  case 2
  then obtain personal cs where m: "match_personal e db (GetUserID r)
        (urlBlindIndexCandidates (ve_mac e) (ve_url e) (ve_keys e) (bidxScope (GetUserID r) None) rawURL) [] = Some personal"
      "ListCollectionsForUser (GetUserID r) db = Some cs" "match_collections e r db rawURL cs personal = Some ms" "db' = db"
    by (auto simp: attempt_rules)
  have cs: "set cs = {(cid, policy) \<in> set (collections (vstore db)). accepted_role (vstore db) cid (GetUserID r) \<noteq> None}"
    using m(2) by (auto simp: ListCollectionsForUser_def split: if_splits)
  have "distinct (map vm_ID ms)" using match_personal_distinct [OF m(1)] match_collections_distinct [OF m(3)] by simp
  then show ?thesis
    using m(4) unfolding match_collections_ids [OF assms(2) m(3)] match_personal_ids [OF m(1)] cs found_by_def by auto
qed


text \<open>
  An administrator on public ingress: the listing of everything leaves out the entries of fully private
  collections, the listing of one user's entries does not, because its query does not select the collection.
\<close>

lemma list_by_user_ignores_policy:
  assumes "IsAdmin r" "all \<noteq> ''true''" "uid \<noteq> []" "List e all uid r w db = (VEntries ms, db')"
  shows "vm_ID ` set ms = {i. \<exists>row. (i, row) \<in> set (entries (vstore db)) \<and> user_id row = uid}"
proof (cases rule: settle_cases [OF assms(4) [unfolded List_def]])
  case (1 err)
  then show ?thesis by simp
next
  case 2
  then obtain rows policies where l: "ListVaultEntriesByUser uid db = Some rows"
      "ms = sortEntriesByName e (map (with_status e) (filter (\<lambda>m. entryMetadataVisibleOnIngress r (vm_CollectionID m) policies)
         (map (\<lambda>(i, row). vaultMetaFromListByUserRow e i row (info_of db i)) rows)))"
    using assms(1-3) by (auto simp: attempt_rules List_rows_def)
  have v: "vm_CollectionID (vaultMetaFromListByUserRow e i row x) = None" "vm_ID (vaultMetaFromListByUserRow e i row x) = i" for i row x
    by (simp_all add: vaultMetaFromListByUserRow_def)
  have "filter (\<lambda>m. entryMetadataVisibleOnIngress r (vm_CollectionID m) policies) (map (\<lambda>(i, row). vaultMetaFromListByUserRow e i row (info_of db i)) rows) =
      map (\<lambda>(i, row). vaultMetaFromListByUserRow e i row (info_of db i)) rows"
    by (auto simp: filter_id_conv entryMetadataVisibleOnIngress_def v)
  then have "vm_ID ` set ms = fst ` set rows" unfolding l(2) by (simp add: sortEntriesByName_def v image_image case_prod_beta)
  moreover have "set rows = {x \<in> set (entries (vstore db)). user_id (snd x) = uid}"
    using l(1) by (auto simp: ListVaultEntriesByUser_def rows_of_def split: if_splits prod.splits)
  ultimately show ?thesis by (simp add: image_def)
qed

lemma list_all_respects_policy:
  assumes "IsAdmin r" "\<not> IsPrivateIngress r" "List e ''true'' uid r w db = (VEntries ms, db')" "m \<in> set ms" "vm_CollectionID m = Some c" "c \<noteq> []"
  shows "\<exists>policies p. collectionPolicyMap (vstore db) = Some policies \<and> policies c = Some p \<and> p \<noteq> PolicyFullyPrivate"
proof (cases rule: settle_cases [OF assms(3) [unfolded List_def]])
  case (1 err)
  then show ?thesis by simp
next
  case 2
  then obtain policies ms0 where "collectionPolicyMap (vstore db) = Some policies"
      "ms = sortEntriesByName e (map (with_status e) (filter (\<lambda>m. entryMetadataVisibleOnIngress r (vm_CollectionID m) policies) ms0))"
    by (auto simp: attempt_rules)
  then show ?thesis using assms(2,4,5,6)
    by (auto simp: sortEntriesByName_def entryMetadataVisibleOnIngress_def split: option.splits)
qed

section \<open>Delivery targets\<close>

lemma attribute_run:
  "attribute stored uid t = t\<lparr>ConfiguredBy := uid\<rparr> \<or>
   (\<exists>p \<in> set stored. rotationTargetAttribution p = rotationTargetAttribution t \<and> ConfiguredBy p \<noteq> [] \<and> attribute stored uid t = t\<lparr>ConfiguredBy := ConfiguredBy p\<rparr>)"
proof (cases "map_of (rev (map (\<lambda>t. (rotationTargetAttribution t, ConfiguredBy t)) (filter (\<lambda>t. ConfiguredBy t \<noteq> []) stored))) (rotationTargetAttribution t)")
  case None
  then show ?thesis by (simp add: attribute_def)
next
  case (Some who)
  then obtain p where "p \<in> set stored" "ConfiguredBy p \<noteq> []" "rotationTargetAttribution p = rotationTargetAttribution t" "who = ConfiguredBy p"
    by (auto dest!: map_of_SomeD)
  then show ?thesis using Some by (auto simp: attribute_def)
qed

lemma attribution_unchanged [simp]: "rotationTargetAttribution (t\<lparr>ConfiguredBy := x\<rparr>) = rotationTargetAttribution t"
  by (simp add: rotationTargetAttribution_def rotationTargetIdentity_def)

lemma Decide_None:
  assumes "Decide req = Inr tk" "uncovered (Covers req) (Before req) (After req) \<noteq> {}"
  shows "MayRedirect req = Some True"
  using assms Added_Nil_iff [of "Before req" "After req" "Covers req"] by (auto simp: Decide_def Let_def split: if_splits)

lemma update_targets_run:
  assumes "UpdateTargets e clear version body eid r w db = (TTargets ts v, db')"
  obtains given tk pin c where "body = Some given" "snd (entryAccess (vstore db) r eid)"
    "requireEntryPrivateAccess (vstore db) w r eid privateAccessSensitive = None"
    "overwrite_allowed e w r clear version (case GetVaultEntryTargets (vstore db) eid of Row c \<Rightarrow> null_text c | _ \<Rightarrow> []) given = None"
    "ts = map (attribute (open_column_targets e (case GetVaultEntryTargets (vstore db) eid of Row c \<Rightarrow> null_text c | _ \<Rightarrow> [])) (GetUserID r)) given"
    "first_some target_problem ts = None" "first_some (checkAuthTokenAuthority e (vstore db)) ts = None"
    "providerPinFor (Some (setting_reader (vstore db))) eid = Some pin" "pin_refusal w r pin ts = None"
    "decideDeliveryEgress (vstore db) (GetUserID r) eid (open_column_targets e (case GetVaultEntryTargets (vstore db) eid of Row c \<Rightarrow> null_text c | _ \<Rightarrow> [])) ts = Inr tk"
    "vseal e ''rotation_targets'' (ve_print_targets e ts) = Some c"
    "entries (vstore db') = sql_update eid (\<lambda>r. r\<lparr>rotation_targets := toNullString c, updated_at := vclock e\<rparr>) (entries (vstore db))"
proof (cases rule: settle_cases [OF assms [unfolded UpdateTargets_def Let_def]])
  case (1 err)
  then show thesis by simp
next
  case 2
  from 2 show thesis
    apply -
    apply (erule attemptE)+
    apply (simp only: relabel_Inr present_Inr passed_Inr ensure_Inr sum.inject prod.inject targets_answer.inject map_option_is_None)
    apply (elim conjE)
    apply (rule that)
    apply (assumption | simp)+
    apply (auto simp: SetRotationTargets_def exec_def split: option.splits if_splits)
    done
qed


abbreviation stored_column :: "vault_db \<Rightarrow> string \<Rightarrow> string" where
  "stored_column db eid \<equiv> (case GetVaultEntryTargets (vstore db) eid of Row c \<Rightarrow> null_text c | _ \<Rightarrow> [])"

text \<open>
  C7. Delivery targets are written only with the authority for them: an accepted update was sent by somebody
  with write access who named the version of the column that is stored, so no edit in between is lost; each target is attributed to the caller
  or to who configured the same target before; a destination that was not there already takes a caller who
  may direct the secret; a token a target spends, where it resolves, is one its configurer may direct; a pinned key gets no
  transmitting target; and the new column opens to the targets answered, while no other entry changes.
\<close>

theorem targets_need_authority:
  assumes "UpdateTargets e clear version body eid r w db = (TTargets ts v, db')"
  shows "snd (entryAccess (vstore db) r eid) \<and> version = rotationTargetsVersion e (stored_column db eid) \<and>
    (\<forall>t \<in> set ts. ConfiguredBy t = GetUserID r \<or>
       (\<exists>p \<in> set (open_column_targets e (stored_column db eid)). rotationTargetAttribution p = rotationTargetAttribution t \<and> ConfiguredBy p = ConfiguredBy t)) \<and>
    (uncovered None (deliveryDestinations (open_column_targets e (stored_column db eid))) (deliveryDestinations ts) \<noteq> {} \<longrightarrow>
       mayConfigureDelivery (vstore db) (GetUserID r) eid) \<and>
    (\<forall>t \<in> set ts. uses_token t \<and> trim_space (ConfiguredBy t) \<noteq> [] \<longrightarrow>
       (\<forall>pt. resolveVaultReferenceFor e (vstore db) (AuthToken t) (ConfiguredBy t) = Inr pt \<and> o_EntryID (pt_origin pt) \<noteq> [] \<longrightarrow>
          mayConfigureDelivery (vstore db) (ConfiguredBy t) (o_EntryID (pt_origin pt)))) \<and>
    (\<exists>pin. providerPinFor (Some (setting_reader (vstore db))) eid = Some pin \<and> (pinned pin \<longrightarrow> \<not> list_ex targetTransmitsSecret ts)) \<and>
    (\<forall>i. i \<noteq> eid \<longrightarrow> map_of (entries (vstore db')) i = map_of (entries (vstore db)) i) \<and>
    (\<forall>row'. map_of (entries (vstore db')) eid = Some row' \<longrightarrow>
       vopen e (null_text (rotation_targets row')) vaultFieldRotationTargets = Inr (ve_print_targets e ts))"
proof -
  let ?stored = "open_column_targets e (stored_column db eid)"
  obtain given tk pin c where u: "body = Some given" "snd (entryAccess (vstore db) r eid)"
      "overwrite_allowed e w r clear version (stored_column db eid) given = None"
      "ts = map (attribute ?stored (GetUserID r)) given"
      "first_some (checkAuthTokenAuthority e (vstore db)) ts = None"
      "providerPinFor (Some (setting_reader (vstore db))) eid = Some pin" "pin_refusal w r pin ts = None"
      "decideDeliveryEgress (vstore db) (GetUserID r) eid ?stored ts = Inr tk"
      "vseal e ''rotation_targets'' (ve_print_targets e ts) = Some c"
      "entries (vstore db') = sql_update eid (\<lambda>r. r\<lparr>rotation_targets := toNullString c, updated_at := vclock e\<rparr>) (entries (vstore db))"
    using update_targets_run [OF assms] by metis
  have version: "version = rotationTargetsVersion e (stored_column db eid)"
    using u(3) by (auto simp: overwrite_allowed_def Let_def split: if_splits)
  have attribution: "\<forall>t \<in> set ts. ConfiguredBy t = GetUserID r \<or>
       (\<exists>p \<in> set ?stored. rotationTargetAttribution p = rotationTargetAttribution t \<and> ConfiguredBy p = ConfiguredBy t)"
  proof
    fix t assume "t \<in> set ts"
    then obtain g where "t = attribute ?stored (GetUserID r) g" using u(4) by auto
    then show "ConfiguredBy t = GetUserID r \<or> (\<exists>p \<in> set ?stored. rotationTargetAttribution p = rotationTargetAttribution t \<and> ConfiguredBy p = ConfiguredBy t)"
      using attribute_run [of ?stored "GetUserID r" g] by auto
  qed
  have widening: "mayConfigureDelivery (vstore db) (GetUserID r) eid"
    if "uncovered None (deliveryDestinations ?stored) (deliveryDestinations ts) \<noteq> {}"
    using Decide_None [OF u(8) [unfolded decideDeliveryEgress_def]] that by simp
  have tokens: "mayConfigureDelivery (vstore db) (ConfiguredBy t) (o_EntryID (pt_origin pt))"
    if "t \<in> set ts" "uses_token t" "trim_space (ConfiguredBy t) \<noteq> []"
      "resolveVaultReferenceFor e (vstore db) (AuthToken t) (ConfiguredBy t) = Inr pt" "o_EntryID (pt_origin pt) \<noteq> []" for t pt
    using u(5) that by (auto simp: first_some_None checkAuthTokenAuthority_def Let_def split: if_splits)
  have pin: "pinned pin \<longrightarrow> \<not> list_ex targetTransmitsSecret ts"
    using u(7) by (auto simp: pin_refusal_def find_None_iff list_ex_iff split: if_splits)
  have column: "vopen e (null_text (rotation_targets row')) vaultFieldRotationTargets = Inr (ve_print_targets e ts)"
    if "map_of (entries (vstore db')) eid = Some row'" for row'
    using sealed_opens [OF u(9), of vaultFieldRotationTargets] that by (auto simp: u(10))
  show ?thesis using u(2,6) version attribution widening tokens pin column by (simp add: u(10))
qed

section \<open>References\<close>

lemma named_rows_set:
  "named_rows e nm False rows = Inr (filter (\<lambda>row. column e (rf_Name row) [] vaultFieldName = nm) rows)"
  by (induction rows) (simp_all add: Let_def)

text \<open>
  A text in pieces: what stands before a reference, its name and what takes its place, and what stands after the last one.
\<close>

abbreviation reference_to :: "string \<Rightarrow> string" where
  "reference_to nm \<equiv> ''{{vault:'' @ nm @ ''}}''"

fun source_text :: "(string \<times> string \<times> string) list \<Rightarrow> string \<Rightarrow> string" where
  "source_text [] rest = rest"
| "source_text ((kept, nm, out) # ps) rest = kept @ reference_to nm @ source_text ps rest"

fun resolved_pieces :: "(string \<times> string \<times> string) list \<Rightarrow> string \<Rightarrow> string" where
  "resolved_pieces [] rest = rest"
| "resolved_pieces ((kept, nm, out) # ps) rest = kept @ out @ resolved_pieces ps rest"

definition has_reference :: "string \<Rightarrow> bool" where
  "has_reference t \<longleftrightarrow> (\<exists>a nm b. t = a @ reference_to nm @ b \<and> nm \<noteq> [] \<and> CHR ''}'' \<notin> set nm)"

lemma no_reference_Cons:
  assumes "\<not> has_reference t" "vault_ref (c # t @ rest) = None"
  shows "\<not> has_reference (c # t)"
proof
  assume "has_reference (c # t)"
  then obtain a nm b where r: "c # t = a @ reference_to nm @ b" "nm \<noteq> []" "CHR ''}'' \<notin> set nm" unfolding has_reference_def by blast
  show False
  proof (cases a)
    case Nil
    then have "c # t @ rest = reference_to nm @ b @ rest" using r(1) by (metis append.assoc append_Cons append_Nil)
    then have "vault_ref (c # t @ rest) = Some (nm, b @ rest)" unfolding vault_ref_Some using r(2,3) by simp
    then show False using assms(2) by simp
  next
    case (Cons x a')
    then have "t = a' @ reference_to nm @ b" using r(1) by simp
    then show False using assms(1) r(2,3) unfolding has_reference_def by blast
  qed
qed

lemma replace_refs_pieces:
  "\<exists>ps rest. t = source_text ps rest \<and> replace_refs f t = resolved_pieces ps rest \<and> \<not> has_reference rest \<and>
     (\<forall>(kept, nm, out) \<in> set ps. nm \<noteq> [] \<and> CHR ''}'' \<notin> set nm \<and> \<not> has_reference kept \<and>
        out = (case f nm of None \<Rightarrow> reference_to nm | Some v \<Rightarrow> v))"
  (is "\<exists>ps rest. ?pieces t ps rest")
proof (induction f t rule: replace_refs.induct)
  case (1 f)
  then show ?case by (intro exI [of _ "[]"]) (simp add: has_reference_def)
next
  case (2 f c cs)
  show ?case
  proof (cases "vault_ref (c # cs)")
    case None
    then obtain ps rest where i: "cs = source_text ps rest" "replace_refs f cs = resolved_pieces ps rest" "\<not> has_reference rest"
        "\<forall>(kept, nm, out) \<in> set ps. nm \<noteq> [] \<and> CHR ''}'' \<notin> set nm \<and> \<not> has_reference kept \<and> out = (case f nm of None \<Rightarrow> reference_to nm | Some v \<Rightarrow> v)"
      using 2(1) by blast
    show ?thesis
    proof (cases ps)
      case Nil
      then show ?thesis using i None no_reference_Cons [of rest c "[]"] by (intro exI [of _ "[]"] exI [of _ "c # rest"]) simp
    next
      case (Cons p ps')
      obtain kept nm out where p: "p = (kept, nm, out)" by (cases p) auto
      have "\<not> has_reference (c # kept)"
        by (rule no_reference_Cons [where rest = "reference_to nm @ source_text ps' rest"]) (use i None Cons p in auto)
      then show ?thesis using i None Cons p by (intro exI [of _ "(c # kept, nm, out) # ps'"] exI [of _ rest]) simp
    qed
  next
    case (Some x)
    obtain nm more where x: "x = (nm, more)" by (cases x) auto
    have t: "c # cs = reference_to nm @ more" "nm \<noteq> []" "CHR ''}'' \<notin> set nm" using Some unfolding x vault_ref_Some by auto
    obtain ps rest where i: "more = source_text ps rest" "replace_refs f more = resolved_pieces ps rest" "\<not> has_reference rest"
        "\<forall>(kept, nm, out) \<in> set ps. nm \<noteq> [] \<and> CHR ''}'' \<notin> set nm \<and> \<not> has_reference kept \<and> out = (case f nm of None \<Rightarrow> reference_to nm | Some v \<Rightarrow> v)"
      using 2(2) [OF Some x [symmetric]] by blast
    have "\<not> has_reference []" by (simp add: has_reference_def)
    moreover have "replace_refs f (c # cs) = (case f nm of None \<Rightarrow> reference_to nm | Some v \<Rightarrow> v) @ replace_refs f more"
      using Some x by simp
    ultimately show ?thesis using i t
      by (intro exI [of _ "([], nm, case f nm of None \<Rightarrow> reference_to nm | Some v \<Rightarrow> v) # ps"] exI [of _ rest]) (simp del: replace_refs.simps)
  qed
qed

text \<open>
  The value a reference may be replaced with: that of the only entry of this name the user may use now, provided the authority of that entry
  accepts the destination.
\<close>

definition releases :: "vault_env \<Rightarrow> store \<Rightarrow> string \<Rightarrow> Destination \<Rightarrow> string \<Rightarrow> string \<Rightarrow> bool" where
  "releases e s uid dest nm v \<longleftrightarrow>
     uid \<noteq> [] \<and> trim_space nm \<noteq> [] \<and> \<not> fails s ''ResolveVaultReference'' \<and>
     d_kind dest \<noteq> destNowhere \<and> ch_kind (d_chooser dest) \<noteq> chooserNobody \<and> (d_kind dest = destNetwork \<longrightarrow> \<not> HostSet_Empty (d_hosts dest)) \<and>
     (\<exists>row pt. filter (\<lambda>r. entryCurrentlyUsableBy s uid (rf_ID r))
           (filter (\<lambda>r. column e (rf_Name r) [] vaultFieldName = trim_space nm) (map (reference_of s) (entries s))) = [row] \<and>
        OpenEntrySecret (vcipher e) (ve_keys e) (AuthorizeSecretExit (lib_of e) s) (rf_EncryptedValue row) (rf_Nonce row) 2
          (entryOrigin (rf_ID row) (trim_space nm)) = Inr pt \<and>
        AuthorizeSecretExit (lib_of e) s (entryOrigin (rf_ID row) (trim_space nm)) dest = None \<and> v = pt_bytes pt)"

lemma resolved_row:
  assumes "uid \<noteq> []" "nm \<noteq> []"
  shows "resolveVaultReferenceRowFor e s nm uid = Inr row \<longleftrightarrow> \<not> fails s ''ResolveVaultReference'' \<and>
     filter (\<lambda>r. entryCurrentlyUsableBy s uid (rf_ID r)) (filter (\<lambda>r. column e (rf_Name r) [] vaultFieldName = nm) (map (reference_of s) (entries s))) = [row]"
  using assms by (auto simp: resolveVaultReferenceRowFor_def resolveVaultReferenceRowForVisibility_def attempt_rules named_rows_set
      ResolveVaultReference_def split: if_splits list.splits)

lemma exit_releases:
  assumes "OpenEntrySecret E ks a ct nonce 2 orig = Inr pt"
  shows "(\<exists>ctx. ExitString [] pt dest = Inr (ctx, v)) \<longleftrightarrow> d_kind dest \<noteq> destNowhere \<and> ch_kind (d_chooser dest) \<noteq> chooserNobody \<and>
     (d_kind dest = destNetwork \<longrightarrow> \<not> HostSet_Empty (d_hosts dest)) \<and> a orig dest = None \<and> v = pt_bytes pt"
  using OpenEntrySecret_run [OF assms] by (auto simp: ExitString_def Exit_def split: option.splits sum.splits)

lemma resolved_text_releases: "uid \<noteq> [] \<Longrightarrow> resolved_text e s uid dest nm = Some v \<longleftrightarrow> releases e s uid dest nm v"
proof (cases "trim_space nm = []")
  case True
  then show ?thesis
    by (simp add: releases_def resolved_text_def resolveVaultReferenceFor_def resolveVaultReferenceRowFor_def resolveVaultReferenceRowForVisibility_def)
next
  case False
  assume u: "uid \<noteq> []"
  let ?row = "\<lambda>row. filter (\<lambda>r. entryCurrentlyUsableBy s uid (rf_ID r))
      (filter (\<lambda>r. column e (rf_Name r) [] vaultFieldName = trim_space nm) (map (reference_of s) (entries s))) = [row]"
    and ?opens = "\<lambda>row pt. OpenEntrySecret (vcipher e) (ve_keys e) (AuthorizeSecretExit (lib_of e) s) (rf_EncryptedValue row) (rf_Nonce row) 2
      (entryOrigin (rf_ID row) (trim_space nm)) = Inr pt"
  show ?thesis
  proof
    assume "resolved_text e s uid dest nm = Some v"
    then obtain pt ctx row where "resolveVaultReferenceRowFor e s (trim_space nm) uid = Inr row" "?opens row pt" "ExitString [] pt dest = Inr (ctx, v)"
      by (auto simp: resolved_text_def resolveVaultReferenceFor_def attempt_rules split: sum.splits)
    then have "\<not> fails s ''ResolveVaultReference''" "?row row" "?opens row pt" "\<exists>ctx. ExitString [] pt dest = Inr (ctx, v)"
      unfolding resolved_row [OF u False] by blast+
    note this(1-3) this(4) [unfolded exit_releases [OF this(3)]]
    then show "releases e s uid dest nm v" unfolding releases_def using u False by (intro conjI exI [of _ row] exI [of _ pt]) simp_all
  next
    assume "releases e s uid dest nm v"
    then obtain row pt where r: "\<not> fails s ''ResolveVaultReference''" "?row row" "?opens row pt" and
        ok: "d_kind dest \<noteq> destNowhere \<and> ch_kind (d_chooser dest) \<noteq> chooserNobody \<and> (d_kind dest = destNetwork \<longrightarrow> \<not> HostSet_Empty (d_hosts dest)) \<and>
          AuthorizeSecretExit (lib_of e) s (entryOrigin (rf_ID row) (trim_space nm)) dest = None \<and> v = pt_bytes pt"
      unfolding releases_def by (elim conjE exE) (rule that; simp)
    have "resolveVaultReferenceFor e s (trim_space nm) uid = Inr pt"
      using r resolved_row [OF u False, of e s row] by (simp add: resolveVaultReferenceFor_def attempt_rules)
    then show "resolved_text e s uid dest nm = Some v"
      using ok [folded exit_releases [OF r(3)]] by (auto simp: resolved_text_def)
  qed
qed

text \<open>
  C18. References release secrets only to a destination their owner allows, and nothing else of a text changes: every text, JSON or not, falls into
  the references it holds (\<open>{{vault:NAME}}\<close>, read from the left) and what stands between them, which is kept and holds no
  reference.  A reference is replaced by the value of the single entry of that name the user may use now, if the authority of that
  entry accepts the destination and its ciphertext opens; every other reference stays as it is.
\<close>

theorem references_release_authorised:
  "\<exists>ps rest. content = source_text ps rest \<and> ResolveReferences e s content uid dest = resolved_pieces ps rest \<and> \<not> has_reference rest \<and>
     (\<forall>(kept, nm, out) \<in> set ps. nm \<noteq> [] \<and> CHR ''}'' \<notin> set nm \<and> \<not> has_reference kept \<and>
        (\<forall>v. releases e s uid dest nm v \<longrightarrow> out = v) \<and> ((\<forall>v. \<not> releases e s uid dest nm v) \<longrightarrow> out = reference_to nm))"
proof -
  define f where "f = (if uid = [] then (\<lambda>_. None) else resolved_text e s uid dest)"
  have f: "f nm = Some v \<longleftrightarrow> releases e s uid dest nm v" for nm v
    by (cases "uid = []") (simp_all add: f_def resolved_text_releases, simp add: releases_def)
  obtain ps rest where p: "content = source_text ps rest" "replace_refs f content = resolved_pieces ps rest" "\<not> has_reference rest"
      "\<forall>(kept, nm, out) \<in> set ps. nm \<noteq> [] \<and> CHR ''}'' \<notin> set nm \<and> \<not> has_reference kept \<and> out = (case f nm of None \<Rightarrow> reference_to nm | Some v \<Rightarrow> v)"
    using replace_refs_pieces [of content f] by blast
  have "resolved_pieces ps rest = source_text ps rest" if "uid = []"
    using p(4) that unfolding f_def by (induction ps) auto
  then have "ResolveReferences e s content uid dest = resolved_pieces ps rest"
    using p(1,2) by (cases "uid = []") (simp_all add: ResolveReferences_def f_def)
  moreover have "(\<forall>v. releases e s uid dest nm v \<longrightarrow> out = v) \<and> ((\<forall>v. \<not> releases e s uid dest nm v) \<longrightarrow> out = reference_to nm)"
    if "(kept, nm, out) \<in> set ps" for kept nm out
  proof -
    have "out = (case f nm of None \<Rightarrow> reference_to nm | Some v \<Rightarrow> v)" using p(4) that by auto
    then show ?thesis by (cases "f nm") (auto simp flip: f)
  qed
  ultimately show ?thesis using p(1,3,4) by (intro exI [of _ ps] exI [of _ rest]) blast
qed


section \<open>Examples\<close>

text \<open>A library that writes a list of fields as the value of its first one.\<close>

definition desk_fields :: field_lib where
  "desk_fields = \<lparr>parse_fields = (\<lambda>s. Some [\<lparr>cf_Label = ''pin'', cf_Value = tl s, cf_Secret = True, cf_Withheld = False\<rparr>]),
                  print_fields = (\<lambda>fs. Some (CHR ''['' # (if fs = [] then [] else cf_Value (hd fs)))), quote_of = (\<lambda>s. s)\<rparr>"

definition desk_env :: vault_env where
  "desk_env =
     \<lparr>ve_signin = login_env, ve_keys = \<lparr>current = sample_key CHR ''a'', previous = None\<rparr>, ve_mac = (\<lambda>k m. k @ m),
      ve_url = (\<lambda>t. Some \<lparr>u_host = ''h'', u_hostname = ''h'', u_path = []\<rparr>), ve_json = spell_lib, ve_fields = desk_fields,
      ve_parse_targets = (\<lambda>_. Some []), ve_print_targets = (\<lambda>_. ''[]''), ve_print_strings = (\<lambda>_. []), ve_print_spec = (\<lambda>_. []),
      ve_sha256 = (\<lambda>_. ''12345678''), ve_time = (\<lambda>_ _. None), ve_lower = (\<lambda>s. s), ve_rnd = (\<lambda>_. ''0123456789abcdef''),
      ve_audit = \<lparr>audit_rnd.rnd_key = [], rnd_wrap = [], rnd_seal = []\<rparr>\<rparr>"

definition desk_row :: entry_row where
  "desk_row = (blank_entry ''u1'' None)\<lparr>entry_name := ''bank'', url_bidx := ''t''\<rparr>"

definition desk_db :: "(string \<times> entry_row) list \<Rightarrow> vault_db" where
  "desk_db es = \<lparr>vd_acc = login_db\<lparr>base := (base login_db)\<lparr>entries := es\<rparr>\<rparr>, vd_info = [], vd_coll_name = [], vd_audit = Some (Inl NoMasterKey)\<rparr>"

definition desk_call :: request where
  "desk_call = sample_request\<lparr>user_id_value := Some ''u1'', user_role_value := Some ''user''\<rparr>"

lemma desk_call_id [simp]: "GetUserID desk_call = ''u1''" "IsAdmin desk_call = False" "IsPrivateIngress desk_call = False" "privateIngressSQLFlag desk_call = 0"
  by code_simp+

lemma desk_db_sel [simp]:
  "entries (vstore (desk_db es)) = es" "users (vstore (desk_db es)) = users (base login_db)" "accounts (vd_acc (desk_db es)) = accounts login_db"
  "attempts (vd_acc (desk_db es)) = []" "fails (vstore (desk_db es)) = (\<lambda>_. False)" "collections (vstore (desk_db es)) = []"
  "settings (vstore (desk_db es)) = []" "members (vstore (desk_db es)) = []"
  by (simp_all add: desk_db_def login_db_def sample_db_def empty_store_def)

lemma desk_env_sel [simp]:
  "ve_signin desk_env = login_env" "cipher_of login_env = sample_cipher" "ve_keys desk_env = \<lparr>current = sample_key CHR ''a'', previous = None\<rparr>"
  "ve_rnd desk_env x = ''0123456789abcdef''" "ve_json desk_env = spell_lib" "ve_fields desk_env = desk_fields" "vclock desk_env = 50"
  "ve_url desk_env u = Some \<lparr>u_host = ''h'', u_hostname = ''h'', u_path = []\<rparr>" "ve_sha256 desk_env b = ''12345678''" "ve_print_targets desk_env ts = ''[]''"
  by (simp_all add: desk_env_def login_env_def sample_env_def sample_deps_def)

lemma reveal_answers: "\<exists>m. reveal_entry e a uid operation False db row = Inr m"
  by (simp add: reveal_entry_def revealMetadataColumn_def reveal_patterns_def present_def ensure_def Let_def)

lemma reveal_all_answers: "\<exists>ms. attempt_all (reveal_entry e a uid operation False db) rows = Inr ms \<and> length ms = length rows"
proof (induction rows)
  case (Cons row rows)
  then show ?case using reveal_answers [of e a uid operation db row] by auto
qed simp

lemma ann_unlocks: "\<exists>h m db'. Unlock desk_env (Some ''correct horse'') desk_call (\<lambda>_. []) (desk_db [(''e1'', desk_row)]) = (VUnlocked h [m], db')"
proof -
  let ?db = "desk_db [(''e1'', desk_row)]"
  have "reauthOrRefuse desk_env (\<lambda>_. []) desk_call ''u1'' ''correct horse'' ?db = (None, ?db)"
    using ann_password
    by (simp add: reauthOrRefuse_def reauthLocked_def GetUserEmailByID_def fetch_def CountRecentFailedLoginAttemptsByEmailAndScope_def
        GetUserPasswordHash_def sample_account_def Let_def)
  moreover have "ListAccessibleVaultEntriesWithSecrets ''u1'' 0 ?db = Some [(''e1'', desk_row)]"
    by (simp add: ListAccessibleVaultEntriesWithSecrets_def rows_of_def accessible_def standard_policy_def desk_row_def)
  moreover obtain m where "attempt_all (reveal_entry desk_env (exit_of desk_env ?db) ''u1'' ''POST /api/vault/unlock'' False ?db) [(''e1'', desk_row)] = Inr [m]"
    using reveal_answers [of desk_env "exit_of desk_env ?db" "''u1''" "''POST /api/vault/unlock''" ?db "(''e1'', desk_row)"] by auto
  ultimately show ?thesis
    by (auto simp: Unlock_def null_text_def revealAccessibleVaultEntries_def present_def Let_def)
qed

theorem unlock_reveals_readable_witness:
  "\<exists>h m db' row. Unlock desk_env (Some ''correct horse'') desk_call (\<lambda>_. []) (desk_db [(''e1'', desk_row)]) = (VUnlocked h [m], db') \<and>
     (vm_ID m, row) \<in> set [(''e1'', desk_row)] \<and> accessible (vstore (desk_db [(''e1'', desk_row)])) ''u1'' row"
proof -
  obtain h m db' where u: "Unlock desk_env (Some ''correct horse'') desk_call (\<lambda>_. []) (desk_db [(''e1'', desk_row)]) = (VUnlocked h [m], db')"
    using ann_unlocks by blast
  have "m \<in> set [m]" by simp
  from unlock_reveals_readable [OF u, THEN conjunct2, THEN conjunct2, THEN conjunct2, THEN bspec, OF this]
  obtain row where "(vm_ID m, row) \<in> set (entries (vstore (desk_db [(''e1'', desk_row)])))"
      "accessible (vstore (desk_db [(''e1'', desk_row)])) (GetUserID desk_call) row" by (elim exE conjE) (rule that; assumption)
  then show ?thesis using u unfolding desk_db_sel desk_call_id by (intro exI conjI)
qed

theorem unlock_lockout_witness:
  "\<exists>answers db'. unlocks (replicate 7 (desk_env, Some ''guess'', desk_call, \<lambda>_. [])) (desk_db []) = (answers, db') \<and>
     length (filter wrong_password answers) = 5 \<and>
     Unlock desk_env (Some ''correct horse'') desk_call (\<lambda>_. []) db' =
       (VReply (writeRateLimited (\<lambda>_. []) desk_call ''too many attempts, try again in 15 minutes''), db')"
proof -
  let ?xs = "replicate 7 (desk_env, Some ''guess'', desk_call, \<lambda>_. [])"
  obtain answers db' where run: "unlocks ?xs (desk_db []) = (answers, db')" by fastforce
  have works: "counting_works ''u1'' ann_address (desk_db [])" by (simp add: counting_works_def ann_address_def)
  have "failures ann_address 50 (snd (unlocks ?xs (desk_db []))) = 5" by code_simp
  then have five: "failures ann_address 50 db' = 5" by (simp add: run)
  have "\<forall>(e, body, r, w) \<in> set ?xs. GetUserID r = ''u1'' \<and> 50 - 900 < vclock e \<and> vclock e \<le> 50" by simp
  from unlock_lockout [OF works this run] five show ?thesis using run by (auto simp: failures_def)
qed

definition desk_entry :: create_request where
  "desk_entry =
     \<lparr>cr_Name = '' bank '', cr_Value = ''pw'', cr_URL = [], cr_AliasURL = [], cr_Username = ''ann'', cr_Category = ''login'', cr_Notes = [],
      cr_AutoLogin = False, cr_RotationIntervalDays = None, cr_ExpiresAt = None, cr_Provider = [], cr_ProviderMeta = [],
      cr_AutoRotate = False, cr_CollectionID = None,
      cr_CustomFields = [\<lparr>cf_Label = '' pin '', cf_Value = ''1234'', cf_Secret = True, cf_Withheld = False\<rparr>]\<rparr>"

lemma desk_seals: "\<exists>c. encryptColumn E ks p ''0123456789abcdef'' = Some c"
  by (simp add: encryptColumn_def SealColumn_def read_full_def NonceSize_def)

lemma desk_validated: "create_validate desk_env w r desk_entry = Inr (sent_entry desk_entry)"
proof -
  have "trim_space '' bank '' = ''bank''" "trim_space ''ann'' = ''ann''" "trim_space [] = []" "trim_space '' pin '' = ''pin''" by code_simp+
  then show ?thesis
    by (simp add: create_validate_def desk_entry_def sent_entry_def validateLiveEntryText_def live_name_def live_value_def live_bounded_def Let_def
        maxEntryNameLen_def maxEntryValueLen_def maxEntryURLLen_def maxEntryUsernameLen_def maxEntryNotesLen_def vaultEntryCategoryValid_def
        validateRotationIntervalDays_def validateCustomFields_def validatePortableCustomFields_def validateCustomFieldLimits_def maxCustomFields_def
        trim_label_def attempt_def relabel_def ensure_def passed_def null_text_def)
qed

lemma desk_sent [simp]:
  "cr_Name (sent_entry desk_entry) = ''bank''" "cr_Value (sent_entry desk_entry) = ''pw''" "cr_Provider (sent_entry desk_entry) = []"
  "cr_ProviderMeta (sent_entry desk_entry) = []" "cr_CollectionID (sent_entry desk_entry) = None" "cr_ExpiresAt (sent_entry desk_entry) = None"
  "cr_CustomFields (sent_entry desk_entry) = [\<lparr>cf_Label = ''pin'', cf_Value = ''1234'', cf_Secret = True, cf_Withheld = False\<rparr>]"
  by code_simp+

lemma desk_prepared:
  "\<exists>p. create_prepare desk_env w desk_call (sent_entry desk_entry) = Inr p \<and> pe_id p = hex_encode ''0123456789abcdef'' \<and>
     Authorizes (pe_ticket p) (pe_id p) FieldProvider = None"
proof -
  have seal: "\<exists>ct nonce. Seal E k p ''0123456789abcdef'' = Some (ct, nonce)" for E k p by (simp add: Seal_def read_full_def NonceSize_def)
  have decided: "\<exists>tk. Decide \<lparr>EntryID = hex_encode ''0123456789abcdef'', What = FieldProvider, Before = [], After = [],
      Covers = Some providerDestinationCovers, MayRedirect = Some True\<rparr> = Inr tk \<and> Authorizes tk (hex_encode ''0123456789abcdef'') FieldProvider = None"
    by (simp add: Decide_def Authorizes_def Added_def Let_def) code_simp
  have none: "providerDestinations desk_env [] (ParseProviderMeta spell_lib []) = []"
    by (simp add: providerDestinations_def declaredProviderEgress_def ParseProviderMeta_def no_hosts_def) code_simp
  obtain ct nonce where s: "Seal sample_cipher (key_value (sample_key CHR ''a'')) ''pw'' ''0123456789abcdef'' = Some (ct, nonce)" using seal by blast
  obtain enc where c: "\<And>p. encryptColumn sample_cipher (ve_keys desk_env) p ''0123456789abcdef'' = Some (enc p)" using desk_seals by metis
  obtain tk where tk: "Decide \<lparr>EntryID = hex_encode ''0123456789abcdef'', What = FieldProvider, Before = [], After = [],
      Covers = Some providerDestinationCovers, MayRedirect = Some True\<rparr> = Inr tk" "Authorizes tk (hex_encode ''0123456789abcdef'') FieldProvider = None"
    using decided by blast
  have idb: "read_full ''0123456789abcdef'' 16 = Some ''0123456789abcdef''" by (simp add: read_full_def)
  have meta: "rejectReservedProviderMetaKeys (ParseProviderMeta spell_lib ''{}'') = None"
    by (simp add: rejectReservedProviderMetaKeys_def ParseProviderMeta_def find_None_iff)
  have cf: "encryptCustomFields sample_cipher (ve_keys desk_env) desk_fields ''0123456789abcdef'' (cr_CustomFields (sent_entry desk_entry)) = Some (enc ''[1234'')"
    using c by (simp add: encryptCustomFields_def desk_fields_def)
  show ?thesis
    using tk(2) cf
    by (simp add: create_prepare_def Let_def present_def passed_def relabel_def idb encryptMetaColumns_def stringPtrToNullTime_def s c [simplified] tk(1) meta none)
qed

text \<open>An entry named \<open>card\<close> is in the vault, or nothing.\<close>

abbreviation card_row :: entry_row where
  "card_row \<equiv> desk_row\<lparr>entry_name := ''card''\<rparr>"

lemma desk_created:
  assumes "es = [] \<or> es = [(''e1'', card_row)]"
  shows "\<exists>m db'. Create desk_env (Some desk_entry) desk_call (\<lambda>_. []) (desk_db es) = (VEntry 201 m, db') \<and> vm_ID m = hex_encode ''0123456789abcdef''"
proof -
  let ?req = "sent_entry desk_entry" and ?db = "desk_db es"
  obtain p where p: "create_prepare desk_env (\<lambda>_. []) desk_call ?req = Inr p" "pe_id p = hex_encode ''0123456789abcdef''" "Authorizes (pe_ticket p) (pe_id p) FieldProvider = None"
    using desk_prepared by blast
  have new: "hex_encode ''0123456789abcdef'' \<noteq> ''e1''" by code_simp
  have "\<exists>db1. insert_entry 50 (pe_ticket p) (pe_id p) (pe_row p) ?db = Inr db1"
    using p(2,3) assms new by (auto simp: insert_entry_def constrained_def CreateEntry_def exec_def unique_names_def desk_row_def blank_entry_def)
  then obtain db1 where i: "insert_entry 50 (pe_ticket p) (pe_id p) (pe_row p) ?db = Inr db1" by blast
  have f: "fails (vstore db1) = (\<lambda>_. False)"
    using i by (auto simp: insert_entry_def constrained_def CreateEntry_def exec_def split: if_splits option.splits)
  define db2 where "db2 = (if pe_fields p = [] then db1
      else put_store db1 (update_entry (vstore db1) (pe_id p) (\<lambda>r. r\<lparr>custom_fields := pe_fields p, updated_at := 50\<rparr>)))"
  have f2: "pe_fields p = [] \<Longrightarrow> db2 = db1" "pe_fields p \<noteq> [] \<Longrightarrow> UpdateVaultEntryCustomFields 50 (pe_fields p) (pe_id p) db1 = Some db2"
      "fails (vstore db2) = (\<lambda>_. False)"
    using f by (simp_all add: db2_def UpdateVaultEntryCustomFields_def vexec_def update_entry_def)
  have "map_of (entries (vstore db1)) (pe_id p) \<noteq> None" using insert_entry_run(5) [OF i] by (simp add: map_of_eq_None_iff)
  then have "map_of (entries (vstore db2)) (pe_id p) \<noteq> None" by (auto simp: db2_def update_entry_def)
  then obtain row where row: "GetVaultEntryMeta (vstore db2) (pe_id p) = Row row"
    using f2(3) by (auto simp: GetVaultEntryMeta_def fetch_def)
  have name: "vaultEntryNameExistsInScope sample_cipher (ve_keys desk_env) (vstore ?db) ''u1'' None ''bank'' [] = Some False"
  proof -
    have "vopen desk_env ''card'' vaultFieldName = Inr ''card''"
      by (simp add: decryptColumn_def decryptColumnWithKeyAge_def OpenColumn_def IsZero_def vaultFieldName_def IsSealedColumn_def has_prefix_def ColumnPrefix_def)
    then show ?thesis using assms
      by (auto simp: vaultEntryNameExistsInScope_def ListPersonalVaultEntryNames_def entry_names_def desk_row_def)
  qed
  have "\<exists>m db'. create_commit desk_env (\<lambda>_. []) desk_call ?req p ?db = Inr (VEntry 201 m, db') \<and> vm_ID m = pe_id p"
    using i f2 row name
    by (cases "pe_fields p = []") (simp_all add: create_commit_def Let_def chosen_collection_def begun_def commits_def ensure_def passed_def present_def relabel_def row_or_def
        seedCapabilityDefaults_def vaultMetaFromGetRow_def)
  then show ?thesis using p(1,2) by (auto simp: Create_def settle_def present_def desk_validated)
qed

theorem created_entry_opens_witness:
  "\<exists>m db' row. Create desk_env (Some desk_entry) desk_call (\<lambda>_. []) (desk_db []) = (VEntry 201 m, db') \<and>
     map_of (entries (vstore db')) (vm_ID m) = Some row \<and> vopen desk_env (entry_name row) vaultFieldName = Inr ''bank'' \<and>
     decryptCustomFields sample_cipher (ve_keys desk_env) desk_fields (custom_fields row) =
       [\<lparr>cf_Label = ''pin'', cf_Value = ''1234'', cf_Secret = True, cf_Withheld = False\<rparr>]"
proof -
  obtain m db' where c: "Create desk_env (Some desk_entry) desk_call (\<lambda>_. []) (desk_db []) = (VEntry 201 m, db')" using desk_created by blast
  have printed: "\<forall>fs c. print_fields (ve_fields desk_env) fs = Some c \<longrightarrow> c \<noteq> []" by (auto simp: desk_fields_def)
  note created = created_entry_opens [OF c printed, THEN conjunct2, THEN conjunct2]
  from created obtain row where row: "map_of (entries (vstore db')) (vm_ID m) = Some row" "row_opens desk_env row (sent_entry desk_entry)"
    by (elim exE conjE) (rule that; assumption)
  from row(2) have "vopen desk_env (entry_name row) vaultFieldName = Inr ''bank''"
    "decryptCustomFields sample_cipher (ve_keys desk_env) desk_fields (custom_fields row) =
       [\<lparr>cf_Label = ''pin'', cf_Value = ''1234'', cf_Secret = True, cf_Withheld = False\<rparr>]"
    by (auto simp: row_opens_def desk_fields_def)
  then show ?thesis using c row(1) by blast
qed

theorem names_stay_unique_witness:
  "\<exists>m db'. Create desk_env (Some desk_entry) desk_call (\<lambda>_. []) (desk_db [(''e1'', card_row)]) = (VEntry 201 m, db') \<and>
     map_of (entries (vstore db')) ''e1'' = Some card_row \<and> vm_ID m \<noteq> ''e1'' \<and> vm_ID m \<in> fst ` set (entries (vstore db')) \<and>
     distinct (map fst (entries (vstore db'))) \<and>
     (\<forall>i r j q n. (i, r) \<in> set (entries (vstore db')) \<and> (j, q) \<in> set (entries (vstore db')) \<and>
       vault_scope (user_id r) (collection_id r) = vault_scope (user_id q) (collection_id q) \<and>
       vopen desk_env (entry_name r) vaultFieldName = Inr n \<and> vopen desk_env (entry_name q) vaultFieldName = Inr n \<longrightarrow> i = j)"
proof -
  let ?db = "desk_db [(''e1'', card_row)]"
  obtain m db' where c: "Create desk_env (Some desk_entry) desk_call (\<lambda>_. []) ?db = (VEntry 201 m, db')" using desk_created by blast
  obtain req' p where p0: "create_validate desk_env (\<lambda>_. []) desk_call desk_entry = Inr req'" "create_prepare desk_env (\<lambda>_. []) desk_call req' = Inr p" and
      p: "vm_ID m = pe_id p" "pe_id p \<notin> fst ` set (entries (vstore ?db))"
      "holds_new ?db (pe_id p) (pe_row p) (if pe_fields p = [] then ''[]'' else pe_fields p) db'"
    using create_run [OF c] .
  have new: "map_of (entries (vstore db')) ''e1'' = Some card_row" "map_of (entries (vstore db')) (vm_ID m) \<noteq> None" "vm_ID m \<noteq> ''e1''"
    using p by (auto simp: holds_new_def)
  have "vault_step sample_cipher (ve_keys desk_env) ?db db'" by (rule vault_step.create [OF _ _ c]) simp_all
  then have s: "(vault_step sample_cipher (ve_keys desk_env))\<^sup>*\<^sup>* ?db db'" by (rule r_into_rtranclp)
  have "names_ok sample_cipher (ve_keys desk_env) (entries (vstore ?db))" by (auto simp: names_ok_def names.apart_def)
  from names_stay_unique [OF s this] c new show ?thesis by (auto simp: map_of_eq_None_iff)
qed

lemma desk_scope: "urlBlindIndexCandidates (ve_mac desk_env) (ve_url desk_env) (ve_keys desk_env) scope u = urlBlindIndexCandidates (\<lambda>k m. k @ m)
    (\<lambda>t. Some \<lparr>u_host = ''h'', u_hostname = ''h'', u_path = []\<rparr>) \<lparr>current = sample_key CHR ''a'', previous = None\<rparr> scope u"
  by (simp add: desk_env_def)

theorem match_exact_witness:
  "\<exists>ms. Match desk_env ''https://h'' desk_call (\<lambda>_. []) (desk_db [(''e1'', desk_row)]) = (VEntries ms, desk_db [(''e1'', desk_row)]) \<and> distinct (map vm_ID ms)"
proof -
  let ?db = "desk_db [(''e1'', desk_row)]"
  let ?bs = "urlBlindIndexCandidates (ve_mac desk_env) (ve_url desk_env) (ve_keys desk_env) (bidxScope ''u1'' None) ''https://h''"
  have host: "normalizeVaultHost (ve_url desk_env) ''https://h'' \<noteq> []"
    by (simp add: desk_env_def normalizeVaultHost_def) code_simp
  have "\<exists>ms. match_personal desk_env ?db ''u1'' bs sofar = Some ms" for bs sofar
    by (induction bs arbitrary: sofar) (simp_all add: MatchPersonalVaultEntriesByURL_def rows_of_def)
  then obtain ms where ms: "match_personal desk_env ?db ''u1'' ?bs [] = Some ms" by blast
  have m: "Match desk_env ''https://h'' desk_call (\<lambda>_. []) ?db = (VEntries ms, ?db)"
    using host ms by (simp add: Match_def settle_def begun_def commits_def ensure_def present_def ListCollectionsForUser_def)
  have "\<not> fails (vstore ?db) ''MatchCollectionVaultEntriesByURL''" by simp
  from match_exact [OF m this] show ?thesis using m by blast
qed

definition desk_target :: RotationTarget where
  "desk_target = \<lparr>Type = ''notify'', Instance = [], Repo = [], SecretName = [], AuthToken = [], WebhookURL = [], WebhookSecret = [], Label = ''ops'', ConfiguredBy = []\<rparr>"

theorem targets_need_authority_witness:
  "\<exists>ts v db'. UpdateTargets desk_env [] (hex_encode ''12345678'') (Some [desk_target]) ''e1'' desk_call (\<lambda>_. []) (desk_db [(''e1'', desk_row)]) = (TTargets ts v, db') \<and>
     hex_encode ''12345678'' = rotationTargetsVersion desk_env (stored_column (desk_db [(''e1'', desk_row)]) ''e1'')"
proof -
  let ?db = "desk_db [(''e1'', desk_row)]"
  have "\<exists>ts v db'. UpdateTargets desk_env [] (hex_encode ''12345678'') (Some [desk_target]) ''e1'' desk_call (\<lambda>_. []) ?db = (TTargets ts v, db')"
  proof -
    have access: "snd (entryAccess (vstore ?db) desk_call ''e1'')" "requireEntryPrivateAccess (vstore ?db) (\<lambda>_. []) desk_call ''e1'' privateAccessSensitive = None"
      "map_option pinned (providerPinFor (Some (setting_reader (vstore ?db))) ''e1'') = Some False"
      by code_simp+
    then obtain pin where pin: "providerPinFor (Some (setting_reader (vstore ?db))) ''e1'' = Some pin" "\<not> pinned pin" by auto
    have col: "stored_column ?db ''e1'' = []"
      by (simp add: GetVaultEntryTargets_def fetch_def desk_row_def null_text_def)
    have stored: "open_column_targets desk_env [] = []" by code_simp
    let ?t = "desk_target\<lparr>ConfiguredBy := ''u1''\<rparr>"
    have new: "attribute [] ''u1'' desk_target = ?t" "first_some target_problem [?t] = None" "uses_token ?t = False" "targetTransmitsSecret ?t = False"
      by code_simp+
    obtain tk where tk: "decideDeliveryEgress (vstore ?db) ''u1'' ''e1'' [] [?t] = Inr tk" "Authorizes tk ''e1'' FieldRotationTargets = None"
    proof -
      have "trim_space ''e1'' \<noteq> []" "trim_space FieldRotationTargets \<noteq> []" by code_simp+
      then show thesis using that new(4)
        by (simp add: decideDeliveryEgress_def Decide_def deliveryDestinations_def Added_def Authorizes_def Let_def)
    qed
    obtain c where c: "encryptColumn sample_cipher \<lparr>current = sample_key CHR ''a'', previous = None\<rparr> ''[]'' ''0123456789abcdef'' = Some c" using desk_seals by blast
    have v: "overwrite_allowed desk_env (\<lambda>_. []) desk_call [] (hex_encode ''12345678'') [] [desk_target] = None"
      by (simp add: overwrite_allowed_def rotationTargetsVersion_def stored) code_simp
    show ?thesis
      using access(1,2) pin tk c v new
      by (simp add: UpdateTargets_def Let_def col stored [simplified] settle_def begun_def commits_def ensure_def passed_def present_def relabel_def
          rotationTargetReferencesNeedPrivate_def checkAuthTokenAuthority_def pin_refusal_def SetRotationTargets_def exec_def)
  qed
  then obtain ts v db' where u: "UpdateTargets desk_env [] (hex_encode ''12345678'') (Some [desk_target]) ''e1'' desk_call (\<lambda>_. []) ?db = (TTargets ts v, db')" by blast
  from u targets_need_authority [OF u, THEN conjunct2, THEN conjunct1] show ?thesis by (intro exI conjI)
qed

text \<open>A JSON text with a reference to an entry of the caller, and one to no entry.\<close>

definition bank_row :: entry_row where
  "bank_row = (case Seal sample_cipher (key_value (sample_key CHR ''a'')) ''pw'' ''0123456789abcdef'' of
     Some (ct, nonce) \<Rightarrow> desk_row\<lparr>encrypted_value := ct, entry_nonce := nonce\<rparr> | None \<Rightarrow> desk_row)"

definition bank_text :: string where
  "bank_text = ''{key: {{vault:bank}}, other: {{vault:x}}}''"

lemma bank_released: "releases desk_env (vstore (desk_db [(''e1'', bank_row)])) ''u1'' (ToCaller ''x'' ''u1'') ''bank'' ''pw''"
proof -
  let ?s = "vstore (desk_db [(''e1'', bank_row)])"
  obtain ct nonce where s: "Seal sample_cipher (key_value (sample_key CHR ''a'')) ''pw'' ''0123456789abcdef'' = Some (ct, nonce)"
    by (simp add: Seal_def read_full_def NonceSize_def)
  then have row: "bank_row = desk_row\<lparr>encrypted_value := ct, entry_nonce := nonce\<rparr>" by (simp add: bank_row_def)
  have nm: "column desk_env ''bank'' [] vaultFieldName = ''bank''" "trim_space ''bank'' = ''bank''" by code_simp+
  have "GetVaultEntryAccess ?s ''e1'' = Row bank_row" "disabled \<lparr>email = ann_address, role = ''user'', disabled = 0, sessions_valid_after = 0, totp_enabled = 1\<rparr> = 0"
    by (simp_all add: GetVaultEntryAccess_def fetch_def)
  then have usable: "entryCurrentlyUsableBy ?s ''u1'' ''e1''"
    "authorizeSecretToCaller ?s (entryOrigin ''e1'' ''bank'') (ToCaller ''x'' ''u1'') = None"
    by (simp_all add: entryCurrentlyUsableBy_def authorizeSecretToCaller_def grantFor_def entryOrigin_def ToCaller_def row desk_row_def
        GetUserByID_def fetch_def instanceAdminByRecord_def full_grant_def)
  have "OpenEntrySecret sample_cipher (ve_keys desk_env) a ct nonce 2 orig = Inr \<lparr>pt_bytes = ''pw'', pt_origin = orig, pt_authority = Some a\<rparr>" for a orig
    using Open_Seal [OF s, of entryValue] by (simp add: OpenEntrySecret_def openEntrySecretWithKeyAge_def exit_Open_def)
  moreover have "AuthorizeSecretExit (lib_of desk_env) ?s (entryOrigin ''e1'' ''bank'') (ToCaller ''x'' ''u1'') = None"
    using usable(2) by (simp add: AuthorizeSecretExit_def ToCaller_def IsCaller_def entryOrigin_def)
  ultimately show ?thesis using nm usable(1)
    by (simp add: releases_def reference_of_def row desk_row_def ToCaller_def)
qed

lemma bank_resolved:
  "ResolveReferences desk_env (vstore (desk_db [(''e1'', bank_row)])) bank_text ''u1'' (ToCaller ''x'' ''u1'') = ''{key: pw, other: {{vault:x}}}''"
proof -
  let ?f = "resolved_text desk_env (vstore (desk_db [(''e1'', bank_row)])) ''u1'' (ToCaller ''x'' ''u1'')"
  have "\<not> releases desk_env (vstore (desk_db [(''e1'', bank_row)])) ''u1'' (ToCaller ''x'' ''u1'') ''x'' v" for v
  proof -
    have "column desk_env ''bank'' [] vaultFieldName \<noteq> ''x''" "trim_space ''x'' = ''x''" by code_simp+
    moreover have "entry_name bank_row = ''bank''" by (simp add: bank_row_def desk_row_def split: option.split prod.split)
    ultimately show ?thesis by (simp add: releases_def reference_of_def)
  qed
  then have f: "?f ''bank'' = Some ''pw''" "?f ''x'' = None"
    using bank_released resolved_text_releases [of "''u1''" desk_env "vstore (desk_db [(''e1'', bank_row)])" "ToCaller ''x'' ''u1''"]
    by (simp, metis list.distinct(1) option.exhaust)
  show ?thesis using f by (simp add: ResolveReferences_def bank_text_def vault_ref_def has_prefix_def)
qed

theorem references_release_authorised_witness:
  "\<exists>ps rest. bank_text = source_text ps rest \<and> resolved_pieces ps rest = ''{key: pw, other: {{vault:x}}}'' \<and>
     (\<exists>(kept, nm, out) \<in> set ps. out \<noteq> reference_to nm \<and> releases desk_env (vstore (desk_db [(''e1'', bank_row)])) ''u1'' (ToCaller ''x'' ''u1'') nm out)"
proof -
  let ?s = "vstore (desk_db [(''e1'', bank_row)])" and ?d = "ToCaller ''x'' ''u1''"
  obtain ps rest where p: "bank_text = source_text ps rest" "ResolveReferences desk_env ?s bank_text ''u1'' ?d = resolved_pieces ps rest"
      "\<forall>(kept, nm, out) \<in> set ps. nm \<noteq> [] \<and> CHR ''}'' \<notin> set nm \<and> \<not> has_reference kept \<and>
        (\<forall>v. releases desk_env ?s ''u1'' ?d nm v \<longrightarrow> out = v) \<and> ((\<forall>v. \<not> releases desk_env ?s ''u1'' ?d nm v) \<longrightarrow> out = reference_to nm)"
    using references_release_authorised [of bank_text desk_env ?s "''u1''" ?d] by (elim exE conjE) (rule that; assumption)
  have new: "resolved_pieces ps rest = ''{key: pw, other: {{vault:x}}}''" using p(2) bank_resolved by simp
  have "\<forall>(kept, nm, out) \<in> set ps. out = reference_to nm \<Longrightarrow> resolved_pieces ps rest = source_text ps rest" by (induction ps) auto
  moreover have "resolved_pieces ps rest \<noteq> source_text ps rest" unfolding new p(1) [symmetric] by (simp add: bank_text_def)
  ultimately obtain kept nm out where i: "(kept, nm, out) \<in> set ps" "out \<noteq> reference_to nm" by blast
  have "releases desk_env ?s ''u1'' ?d nm out"
    using p(3) [THEN bspec, OF i(1)] i(2) unfolding prod.case by metis
  then have "\<exists>(kept, nm, out) \<in> set ps. out \<noteq> reference_to nm \<and> releases desk_env ?s ''u1'' ?d nm out"
    using i by (intro bexI [OF _ i(1)]) simp
  then show ?thesis using p(1) new by (intro exI conjI)
qed

end
