(* ===== verification/Key_Check.thy ===== *)
theory Key_Check
  imports Entry_Names
begin

text \<open>
  The gate at start-up, \<^verbatim>\<open>handlers/vault_keycheck.go\<close>: a known constant is kept sealed in the settings, and a
  server whose keys do not open it does not start.  Where there is no such sentinel yet, the stored ciphertext is
  probed first.

  PBKDF2 is the argument \<open>pbkdf2\<close> (source and salt); the derivation of \<^verbatim>\<open>columncrypto\<close>, SHA-256 and the
  random bytes come with the environment of the vault handlers.  \<^verbatim>\<open>LIMIT 1\<close> without an order gives
  the first row of the table.
\<close>

record channel_row =
  ch_name :: string
  ch_config :: string
  ch_nonce :: "bytes option"
  ch_version :: "int option"

record instance_db =
  id_admin :: admin_db
  id_channels :: "(string \<times> channel_row) list"

abbreviation iacc :: "instance_db \<Rightarrow> account_db" where
  "iacc db \<equiv> acc (id_admin db)"

abbreviation istore :: "instance_db \<Rightarrow> store" where
  "istore db \<equiv> base (iacc db)"

definition put_istore :: "instance_db \<Rightarrow> store \<Rightarrow> instance_db" where
  "put_istore db s = db\<lparr>id_admin := with_store (id_admin db) s\<rparr>"

section \<open>Fields and statements\<close>

definition vaultFieldKeySentinel :: field where
  "vaultFieldKeySentinel =
     Some \<lparr>fd_name = ''settings.vault_key_check'', fd_class = InProcessOnly, fd_exitKey = [],
           fd_why = ''the boot key sentinel. It decrypts a known constant and compares it to that constant, so the only '' @
             ''thing that leaves is the boolean '' @ [CHR 0x27] @ ''this key opens this database'' @ [CHR 0x27] @ ''. Nothing here is a credential: '' @
             ''the plaintext is a literal in the source.'',
           fd_declaredAt = ''internal/handlers/encrypted_field_ledger.go:156''\<rparr>"

definition vaultFieldBootProbe :: field where
  "vaultFieldBootProbe =
     Some \<lparr>fd_name = ''boot key probe (any sealed column)'', fd_class = InProcessOnly, fd_exitKey = [],
           fd_why = ''the sample blob vaultKeyOpensExistingData pulls from whichever encrypted family a database happens '' @
             ''to have, to answer '' @ [CHR 0x27] @ ''does the configured key open this data'' @ [CHR 0x27] @ '' before the server starts. It is the '' @
             ''ONE field that does not name a column, because the probe deliberately does not know which column '' @
             ''it got: AnyEncryptedColumnSample returns the first ciphertext of each family. It is safe as an '' @
             ''in-process ruling regardless of which column it lands on, because the probe entry points return '' @
             ''a bool and wipe the plaintext rather than returning it. If AAD binding ever lands (see residual '' @
             ''1 above), this is the field that has to be reworked first.'',
           fd_declaredAt = ''internal/handlers/encrypted_field_ledger.go:162''\<rparr>"

definition vaultFieldEntryValueProbe :: field where
  "vaultFieldEntryValueProbe =
     Some \<lparr>fd_name = ''vault_entries.encrypted_value (boot key probe)'', fd_class = InProcessOnly, fd_exitKey = [],
           fd_why = ''the same column secretexit owns, opened by the BOOT KEY CHECK before any handler exists and '' @
             ''therefore before there is an exit to route it through. It is a separate declaration rather than '' @
             ''a reuse of secretexit'' @ [CHR 0x27] @ ''s because exporting that field would hand every package a way to open an '' @
             ''entry'' @ [CHR 0x27] @ ''s value as a bare []byte, which is exactly what the opaque Plaintext type exists to '' @
             ''prevent. The probe entry point (vaultfield.Opens) returns a bool and wipes the plaintext, so '' @
             ''this door cannot release a value however its caller is edited.'',
           fd_declaredAt = ''internal/handlers/encrypted_field_ledger.go:172''\<rparr>"

definition vaultKeyCheckSetting :: string where
  "vaultKeyCheckSetting = ''vault_keycheck''"

definition vaultKeyCheckPlaintext :: string where
  "vaultKeyCheckPlaintext = ''trustissues-vault-keycheck-v1''"

definition AnyEncryptedVaultEntry :: "store \<Rightarrow> (bytes \<times> bytes \<times> int option) list option" where
  "AnyEncryptedVaultEntry s =
     (if fails s ''AnyEncryptedVaultEntry'' then None
      else Some (map (\<lambda>(i, r). (encrypted_value r, entry_nonce r, encryption_version r))
                   (filter (\<lambda>(i, r). encrypted_value r \<noteq> []) (entries s))))"

datatype probe_family = FamilyColumnCrypto | FamilyVaultColumn | FamilyRawGCM

definition AnyEncryptedColumnSample :: "instance_db \<Rightarrow> (probe_family \<times> string) list option" where
  "AnyEncryptedColumnSample db =
     (if fails (istore db) ''AnyEncryptedColumnSample'' then None
      else Some
        (map (\<lambda>(k, v). (FamilyColumnCrypto, v)) (take 1 (filter (\<lambda>(k, v). k = ''smtp_password'' \<and> v \<noteq> []) (settings (istore db)))) @
         map (\<lambda>(i, inv). (FamilyVaultColumn, inv_code inv)) (take 1 (filter (\<lambda>(i, inv). inv_code inv \<noteq> []) (invites (id_admin db)))) @
         map (\<lambda>(i, c). (FamilyRawGCM, ch_config c))
           (take 1 (filter (\<lambda>(i, c). ch_config c \<noteq> [] \<and> (case ch_version c of None \<Rightarrow> False | Some v \<Rightarrow> 0 < v)) (id_channels db)))))"

section \<open>Probing the stored ciphertext\<close>

definition vaultV2Key :: "(string \<Rightarrow> string \<Rightarrow> bytes) \<Rightarrow> string \<Rightarrow> bytes" where
  "vaultV2Key pbkdf2 k = pbkdf2 k ''trustissues:vault:v2''"

definition vaultSecretOpensOne :: "block_cipher \<Rightarrow> (string \<Rightarrow> string \<Rightarrow> bytes) \<Rightarrow> bytes \<Rightarrow> bytes \<Rightarrow> string \<Rightarrow> bool" where
  "vaultSecretOpensOne E pbkdf2 ct nonce k = Opens E (vaultV2Key pbkdf2 k) ct nonce vaultFieldEntryValueProbe"

definition vaultSecretOpens :: "block_cipher \<Rightarrow> (string \<Rightarrow> string \<Rightarrow> bytes) \<Rightarrow> bytes \<Rightarrow> bytes \<Rightarrow> string list \<Rightarrow> bool" where
  "vaultSecretOpens E pbkdf2 ct nonce keys =
     (if ct = [] \<or> nonce = [] then False else list_ex (\<lambda>k. k \<noteq> [] \<and> vaultSecretOpensOne E pbkdf2 ct nonce k) keys)"

definition vaultSecretOpensLegacy :: "block_cipher \<Rightarrow> (bytes \<Rightarrow> bytes) \<Rightarrow> bytes \<Rightarrow> bytes \<Rightarrow> string list \<Rightarrow> bool" where
  "vaultSecretOpensLegacy E sha ct nonce keys =
     (if ct = [] \<or> nonce = [] then False
      else list_ex (\<lambda>k. k \<noteq> [] \<and> Opens E (sha (k @ '':secrets-vault'')) ct nonce vaultFieldEntryValueProbe) keys)"

definition vaultColumnOpensOne :: "block_cipher \<Rightarrow> (string \<Rightarrow> string \<Rightarrow> bytes) \<Rightarrow> string \<Rightarrow> string \<Rightarrow> bool" where
  "vaultColumnOpensOne E pbkdf2 stored k = ColumnOpens E (vaultV2Key pbkdf2 k) stored vaultFieldBootProbe"

definition vaultColumnOpens :: "block_cipher \<Rightarrow> (string \<Rightarrow> string \<Rightarrow> bytes) \<Rightarrow> string \<Rightarrow> string list \<Rightarrow> bool" where
  "vaultColumnOpens E pbkdf2 stored keys = list_ex (\<lambda>k. k \<noteq> [] \<and> vaultColumnOpensOne E pbkdf2 stored k) keys"

definition string_opens :: "vault_env \<Rightarrow> string \<Rightarrow> field \<Rightarrow> string list \<Rightarrow> bool" where
  "string_opens e stored f keys =
     (case DecryptStringAny (vcipher e) (derive_of (ve_signin e)) stored f keys None of Inl _ \<Rightarrow> False | Inr _ \<Rightarrow> True)"

definition entry_probe :: "vault_env \<Rightarrow> (string \<Rightarrow> string \<Rightarrow> bytes) \<Rightarrow> string list \<Rightarrow> bytes \<times> bytes \<times> int option \<Rightarrow> bool" where
  "entry_probe e pbkdf2 keys row =
     (let (ct, nonce, version) = row
      in if version = Some 1 then vaultSecretOpensLegacy (vcipher e) (ve_sha256 e) ct nonce keys
         else vaultSecretOpens (vcipher e) pbkdf2 ct nonce keys)"

text \<open>The samples of the third probe: whether there is ciphertext, and whether a key opens some of it.\<close>

fun probe_blobs :: "vault_env \<Rightarrow> (string \<Rightarrow> string \<Rightarrow> bytes) \<Rightarrow> string list \<Rightarrow> bool \<Rightarrow> (probe_family \<times> string) list \<Rightarrow> bool \<times> bool" where
  "probe_blobs e pbkdf2 keys has [] = (has, False)"
| "probe_blobs e pbkdf2 keys has ((FamilyColumnCrypto, b) # bs) =
     (if string_opens e b vaultFieldBootProbe keys then (True, True) else probe_blobs e pbkdf2 keys True bs)"
| "probe_blobs e pbkdf2 keys has ((FamilyVaultColumn, b) # bs) =
     (if \<not> IsSealedColumn b then probe_blobs e pbkdf2 keys has bs
      else if vaultColumnOpens (vcipher e) pbkdf2 b keys then (True, True) else probe_blobs e pbkdf2 keys True bs)"
| "probe_blobs e pbkdf2 keys has ((FamilyRawGCM, b) # bs) = probe_blobs e pbkdf2 keys True bs"

definition vaultKeyOpensExistingData ::
  "vault_env \<Rightarrow> (string \<Rightarrow> string \<Rightarrow> bytes) \<Rightarrow> instance_db \<Rightarrow> string list \<Rightarrow> (bool \<times> bool) option" where
  "vaultKeyOpensExistingData e pbkdf2 db keys =
     (case AnyEncryptedVaultEntry (istore db) of
        None \<Rightarrow> None
      | Some rows \<Rightarrow>
         if list_ex (entry_probe e pbkdf2 keys) rows then Some (True, True)
         else case ListUsersWithTOTPSecret (iacc db) of
                None \<Rightarrow> None
              | Some seeds \<Rightarrow>
                 if list_ex (\<lambda>(u, v). v \<noteq> [] \<and> string_opens e v vaultFieldTOTPSecret keys) seeds then Some (True, True)
                 else case AnyEncryptedColumnSample db of
                        None \<Rightarrow> None
                      | Some blobs \<Rightarrow> Some (probe_blobs e pbkdf2 keys (rows \<noteq> [] \<or> list_ex (\<lambda>(u, v). v \<noteq> []) seeds) blobs))"

section \<open>The gate\<close>

datatype keycheck_error = ErrVaultKeyMismatch | CheckFailed string

definition seal_sentinel :: "vault_env \<Rightarrow> string \<Rightarrow> string option" where
  "seal_sentinel e k = EncryptString (vcipher e) (derive_of (ve_signin e)) vaultKeyCheckPlaintext k (ve_rnd e ''keycheck'')"

definition first_key :: "string list \<Rightarrow> string" where
  "first_key keys = (case keys of [] \<Rightarrow> [] | k # _ \<Rightarrow> k)"

definition VerifyVaultKey ::
  "vault_env \<Rightarrow> (string \<Rightarrow> string \<Rightarrow> bytes) \<Rightarrow> string list \<Rightarrow> instance_db \<Rightarrow> keycheck_error option \<times> instance_db" where
  "VerifyVaultKey e pbkdf2 keys db =
     (case GetSetting (istore db) vaultKeyCheckSetting of
        DBError \<Rightarrow> (Some (CheckFailed ''read vault keycheck''), db)
      | found \<Rightarrow>
         (let stored = (case found of Row v \<Rightarrow> v | _ \<Rightarrow> [])
          in if stored = []
             then (case vaultKeyOpensExistingData e pbkdf2 db keys of
                     None \<Rightarrow> (Some (CheckFailed ''probe existing ciphertext''), db)
                   | Some (hasCiphertext, opens) \<Rightarrow>
                      if hasCiphertext \<and> \<not> opens then (Some ErrVaultKeyMismatch, db)
                      else case seal_sentinel e (first_key keys) of
                             None \<Rightarrow> (Some (CheckFailed ''seal vault keycheck''), db)
                           | Some c \<Rightarrow>
                              (case UpsertSetting (istore db) vaultKeyCheckSetting c of
                                 None \<Rightarrow> (Some (CheckFailed ''persist vault keycheck''), db)
                               | Some s \<Rightarrow> (None, put_istore db s)))
             else (case DecryptStringAny (vcipher e) (derive_of (ve_signin e)) stored vaultFieldKeySentinel keys None of
                     Inl _ \<Rightarrow> (Some ErrVaultKeyMismatch, db)
                   | Inr plain \<Rightarrow> (if plain \<noteq> vaultKeyCheckPlaintext then Some ErrVaultKeyMismatch else None, db))))"

definition sentinel_opens :: "vault_env \<Rightarrow> string \<Rightarrow> string \<Rightarrow> bool" where
  "sentinel_opens e stored k =
     (DecryptString (vcipher e) (derive_of (ve_signin e)) stored k vaultFieldKeySentinel = Inr vaultKeyCheckPlaintext)"

definition SentinelOnPreviousKey :: "vault_env \<Rightarrow> instance_db \<Rightarrow> string \<Rightarrow> string \<Rightarrow> bool option" where
  "SentinelOnPreviousKey e db cur prev =
     (if prev = [] \<or> prev = cur then Some False
      else case GetSetting (istore db) vaultKeyCheckSetting of
             ErrNoRows \<Rightarrow> Some False
           | DBError \<Rightarrow> None
           | Row stored \<Rightarrow>
              if stored = [] then Some False
              else if sentinel_opens e stored cur then Some False
              else Some (sentinel_opens e stored prev))"

definition ResealVaultKeycheck :: "vault_env \<Rightarrow> store \<Rightarrow> string \<Rightarrow> store option" where
  "ResealVaultKeycheck e s k =
     (case seal_sentinel e k of None \<Rightarrow> None | Some c \<Rightarrow> UpsertSetting s vaultKeyCheckSetting c)"

text \<open>What the start-up prints: nothing, that the sweep is still to run, that the previous key can be removed, that the
  key in use could not be determined, or that the gate was overridden.  The other outcome is the end of the process.\<close>

datatype boot_note = Quiet | StillOnPrevious | PreviousStillSet | KeyUnknown | MismatchOverridden

datatype boot = Started boot_note | ProcessExit

definition EnforceVaultKey ::
  "vault_env \<Rightarrow> (string \<Rightarrow> string \<Rightarrow> bytes) \<Rightarrow> string \<Rightarrow> string list \<Rightarrow> instance_db \<Rightarrow> boot \<times> instance_db" where
  "EnforceVaultKey e pbkdf2 allowMismatch keys db =
     (let cur = first_key keys; prev = first_key (drop 1 keys)
      in case VerifyVaultKey e pbkdf2 keys db of
           (None, db') \<Rightarrow>
             (case SentinelOnPreviousKey e db' cur prev of
                None \<Rightarrow> Started KeyUnknown
              | Some onPrev \<Rightarrow> Started (if onPrev then StillOnPrevious else if prev \<noteq> [] then PreviousStillSet else Quiet), db')
         | (Some err, db') \<Rightarrow>
             if err \<noteq> ErrVaultKeyMismatch then (ProcessExit, db')
             else if allowMismatch = ''1''
             then (Started MismatchOverridden,
                   case seal_sentinel e cur of
                     None \<Rightarrow> db'
                   | Some c \<Rightarrow> (case UpsertSetting (istore db') vaultKeyCheckSetting c of None \<Rightarrow> db' | Some s \<Rightarrow> put_istore db' s))
             else (ProcessExit, db'))"


section \<open>What the gate lets through\<close>

lemma DecryptStringAny_opened:
  "DecryptStringAny E derive c f keys err = Inr p \<Longrightarrow> \<exists>k \<in> set keys. k \<noteq> [] \<and> DecryptString E derive c k f = Inr p"
  by (induction keys arbitrary: err) (auto split: if_splits sum.splits)

text \<open>The stored values the probes look at: those that count as ciphertext, and those that one key opens.\<close>

definition holds_ciphertext :: "instance_db \<Rightarrow> bool" where
  "holds_ciphertext db \<longleftrightarrow>
     (\<exists>(i, r) \<in> set (entries (istore db)). encrypted_value r \<noteq> []) \<or>
     (\<exists>(u, a) \<in> set (accounts (iacc db)). null_text (totp_secret a) \<noteq> []) \<or>
     (\<exists>v. (''smtp_password'', v) \<in> set (settings (istore db)) \<and> v \<noteq> []) \<or>
     (\<exists>(i, c) \<in> set (id_channels db). ch_config c \<noteq> [] \<and> (\<exists>v > 0. ch_version c = Some v))"

definition opens_stored :: "vault_env \<Rightarrow> (string \<Rightarrow> string \<Rightarrow> bytes) \<Rightarrow> instance_db \<Rightarrow> string \<Rightarrow> bool" where
  "opens_stored e pbkdf2 db k \<longleftrightarrow>
     (\<exists>(i, r) \<in> set (entries (istore db)).
        Opens (vcipher e) (if encryption_version r = Some 1 then ve_sha256 e (k @ '':secrets-vault'') else vaultV2Key pbkdf2 k)
          (encrypted_value r) (entry_nonce r) vaultFieldEntryValueProbe) \<or>
     (\<exists>(u, a) \<in> set (accounts (iacc db)). \<exists>p.
        DecryptString (vcipher e) (derive_of (ve_signin e)) (null_text (totp_secret a)) k vaultFieldTOTPSecret = Inr p) \<or>
     (\<exists>v p. (''smtp_password'', v) \<in> set (settings (istore db)) \<and>
        DecryptString (vcipher e) (derive_of (ve_signin e)) v k vaultFieldBootProbe = Inr p) \<or>
     (\<exists>(i, inv) \<in> set (invites (id_admin db)). ColumnOpens (vcipher e) (vaultV2Key pbkdf2 k) (inv_code inv) vaultFieldBootProbe)"

lemma opens_stored_entry:
  "(i, r) \<in> set (entries (istore db)) \<Longrightarrow>
   Opens (vcipher e) (if encryption_version r = Some 1 then ve_sha256 e (k @ '':secrets-vault'') else vaultV2Key pbkdf2 k)
     (encrypted_value r) (entry_nonce r) vaultFieldEntryValueProbe \<Longrightarrow> opens_stored e pbkdf2 db k"
  unfolding opens_stored_def by blast

lemma opens_stored_seed:
  "(u, a) \<in> set (accounts (iacc db)) \<Longrightarrow>
   DecryptString (vcipher e) (derive_of (ve_signin e)) (null_text (totp_secret a)) k vaultFieldTOTPSecret = Inr p \<Longrightarrow> opens_stored e pbkdf2 db k"
  unfolding opens_stored_def by blast

lemma entry_probe_key:
  "entry_probe e pbkdf2 keys (ct, nonce, v) \<Longrightarrow>
   \<exists>k \<in> set keys. k \<noteq> [] \<and> Opens (vcipher e) (if v = Some 1 then ve_sha256 e (k @ '':secrets-vault'') else vaultV2Key pbkdf2 k) ct nonce vaultFieldEntryValueProbe"
  by (auto simp: entry_probe_def vaultSecretOpens_def vaultSecretOpensLegacy_def vaultSecretOpensOne_def list_ex_iff split: if_splits)

lemma string_opens_key:
  "string_opens e c f keys \<Longrightarrow> \<exists>k \<in> set keys. k \<noteq> [] \<and> (\<exists>p. DecryptString (vcipher e) (derive_of (ve_signin e)) c k f = Inr p)"
  by (auto simp: string_opens_def split: sum.splits dest!: DecryptStringAny_opened)

lemma probe_blobs_has: "probe_blobs e pbkdf2 keys has bs = (False, opens) \<Longrightarrow> \<not> has \<and> (\<forall>(fam, b) \<in> set bs. fam = FamilyVaultColumn)"
  by (induction e pbkdf2 keys has bs rule: probe_blobs.induct) (auto split: if_splits)

lemma probe_blobs_opens:
  "probe_blobs e pbkdf2 keys has bs = (h, True) \<Longrightarrow>
   \<exists>k \<in> set keys. k \<noteq> [] \<and>
     ((\<exists>b p. (FamilyColumnCrypto, b) \<in> set bs \<and> DecryptString (vcipher e) (derive_of (ve_signin e)) b k vaultFieldBootProbe = Inr p) \<or>
      (\<exists>b. (FamilyVaultColumn, b) \<in> set bs \<and> ColumnOpens (vcipher e) (vaultV2Key pbkdf2 k) b vaultFieldBootProbe))"
proof (induction e pbkdf2 keys has bs rule: probe_blobs.induct)
  case (2 e pbkdf2 keys has b bs)
  then show ?case by (cases "string_opens e b vaultFieldBootProbe keys") (fastforce dest: string_opens_key)+
next
  case (3 e pbkdf2 keys has b bs)
  show ?case
  proof (cases "IsSealedColumn b \<and> vaultColumnOpens (vcipher e) pbkdf2 b keys")
    case True
    then show ?thesis by (auto simp: vaultColumnOpens_def vaultColumnOpensOne_def list_ex_iff)
  next
    case False
    then obtain has' where "probe_blobs e pbkdf2 keys has' bs = (h, True)" "IsSealedColumn b \<longleftrightarrow> has' \<and> IsSealedColumn b" and
        ih: "\<exists>k \<in> set keys. k \<noteq> [] \<and>
     ((\<exists>b p. (FamilyColumnCrypto, b) \<in> set bs \<and> DecryptString (vcipher e) (derive_of (ve_signin e)) b k vaultFieldBootProbe = Inr p) \<or>
      (\<exists>b. (FamilyVaultColumn, b) \<in> set bs \<and> ColumnOpens (vcipher e) (vaultV2Key pbkdf2 k) b vaultFieldBootProbe))"
      using 3 by (cases "IsSealedColumn b") auto
    from ih show ?thesis by auto
  qed
qed auto

lemma take1_subset: "x \<in> set (take (Suc 0) xs) \<Longrightarrow> x \<in> set xs"
  by (meson in_set_takeD)

lemma take1_empty: "take 1 xs = [] \<Longrightarrow> xs = []"
  by (cases xs) auto

lemma sample_members:
  assumes "AnyEncryptedColumnSample db = Some bs"
  shows "(FamilyColumnCrypto, b) \<in> set bs \<Longrightarrow> (''smtp_password'', b) \<in> set (settings (istore db))"
    and "(FamilyVaultColumn, b) \<in> set bs \<Longrightarrow> \<exists>(i, inv) \<in> set (invites (id_admin db)). inv_code inv = b"
    and "\<forall>(fam, b) \<in> set bs. fam = FamilyVaultColumn \<Longrightarrow>
      (\<forall>v. (''smtp_password'', v) \<in> set (settings (istore db)) \<longrightarrow> v = []) \<and>
      (\<forall>(i, c) \<in> set (id_channels db). ch_config c = [] \<or> \<not> (\<exists>v > 0. ch_version c = Some v))"
proof -
  let ?S = "filter (\<lambda>(k, v). k = ''smtp_password'' \<and> v \<noteq> []) (settings (istore db))"
  let ?C = "filter (\<lambda>(i, c). ch_config c \<noteq> [] \<and> (case ch_version c of None \<Rightarrow> False | Some v \<Rightarrow> 0 < v)) (id_channels db)"
  let ?I = "filter (\<lambda>(i, inv). inv_code inv \<noteq> []) (invites (id_admin db))"
  have bs: "bs = map (\<lambda>(k, v). (FamilyColumnCrypto, v)) (take 1 ?S) @ map (\<lambda>(i, inv). (FamilyVaultColumn, inv_code inv)) (take 1 ?I) @
      map (\<lambda>(i, c). (FamilyRawGCM, ch_config c)) (take 1 ?C)"
    using assms by (auto simp: AnyEncryptedColumnSample_def split: if_splits)
  show "(FamilyColumnCrypto, b) \<in> set bs \<Longrightarrow> (''smtp_password'', b) \<in> set (settings (istore db))"
    unfolding bs by (auto dest!: take1_subset)
  show "(FamilyVaultColumn, b) \<in> set bs \<Longrightarrow> \<exists>(i, inv) \<in> set (invites (id_admin db)). inv_code inv = b"
    unfolding bs by (auto dest!: take1_subset)
  assume all: "\<forall>(fam, b) \<in> set bs. fam = FamilyVaultColumn"
  have S: "take 1 ?S = []"
  proof (rule ccontr)
    assume "take 1 ?S \<noteq> []"
    then obtain p where "p \<in> set (take 1 ?S)" by (meson last_in_set)
    then have "(FamilyColumnCrypto, snd p) \<in> set bs" unfolding bs by (force simp: case_prod_unfold)
    with all show False by auto
  qed
  have C: "take 1 ?C = []"
  proof (rule ccontr)
    assume "take 1 ?C \<noteq> []"
    then obtain p where "p \<in> set (take 1 ?C)" by (meson last_in_set)
    then have "(FamilyRawGCM, ch_config (snd p)) \<in> set bs" unfolding bs by (force simp: case_prod_unfold)
    with all show False by auto
  qed
  show "(\<forall>v. (''smtp_password'', v) \<in> set (settings (istore db)) \<longrightarrow> v = []) \<and>
      (\<forall>(i, c) \<in> set (id_channels db). ch_config c = [] \<or> \<not> (\<exists>v > 0. ch_version c = Some v))"
    using take1_empty [OF S] take1_empty [OF C] by (fastforce simp: filter_empty_conv split: option.splits)
qed

lemma probe_cases:
  assumes "vaultKeyOpensExistingData e pbkdf2 db keys = Some (has, opens)" "AnyEncryptedVaultEntry (istore db) = Some rows"
  obtains (entry) "list_ex (entry_probe e pbkdf2 keys) rows" "has" "opens"
    | (seed) seeds where "ListUsersWithTOTPSecret (iacc db) = Some seeds" "has" "opens"
        "list_ex (\<lambda>(u, v). v \<noteq> [] \<and> string_opens e v vaultFieldTOTPSecret keys) seeds"
    | (blob) seeds blobs where "ListUsersWithTOTPSecret (iacc db) = Some seeds" "AnyEncryptedColumnSample db = Some blobs"
        "probe_blobs e pbkdf2 keys (rows \<noteq> [] \<or> list_ex (\<lambda>(u, v). v \<noteq> []) seeds) blobs = (has, opens)"
  using assms by (auto simp: vaultKeyOpensExistingData_def split: option.splits if_splits)

lemma probed_rows:
  assumes "vaultKeyOpensExistingData e pbkdf2 db keys = Some (has, opens)"
  obtains rows where "AnyEncryptedVaultEntry (istore db) = Some rows"
    "rows = map (\<lambda>(i, r). (encrypted_value r, entry_nonce r, encryption_version r)) (filter (\<lambda>(i, r). encrypted_value r \<noteq> []) (entries (istore db)))"
  using assms by (auto simp: vaultKeyOpensExistingData_def AnyEncryptedVaultEntry_def split: option.splits if_splits)

lemma probe_empty:
  assumes "vaultKeyOpensExistingData e pbkdf2 db keys = Some (False, opens)"
  shows "\<not> holds_ciphertext db"
proof -
  obtain rows where rows: "AnyEncryptedVaultEntry (istore db) = Some rows"
    "rows = map (\<lambda>(i, r). (encrypted_value r, entry_nonce r, encryption_version r)) (filter (\<lambda>(i, r). encrypted_value r \<noteq> []) (entries (istore db)))"
    using probed_rows [OF assms] .
  from assms rows(1) show ?thesis
  proof (cases rule: probe_cases)
    case (blob seeds blobs)
    note h = probe_blobs_has [OF blob(3)]
    have "rows = []" "\<not> list_ex (\<lambda>(u, v). v \<noteq> []) seeds" using h by auto
    then have "\<forall>(i, r) \<in> set (entries (istore db)). encrypted_value r = []"
        "\<forall>(u, a) \<in> set (accounts (iacc db)). null_text (totp_secret a) = []"
      using rows(2) blob(1) by (auto simp: filter_empty_conv ListUsersWithTOTPSecret_def list_ex_iff split: if_splits)
    then show ?thesis using sample_members(3) [OF blob(2)] h by (auto simp: holds_ciphertext_def)
  qed auto
qed

lemma probe_opens:
  assumes "vaultKeyOpensExistingData e pbkdf2 db keys = Some (has, True)"
  shows "\<exists>k \<in> set keys. k \<noteq> [] \<and> opens_stored e pbkdf2 db k"
proof -
  obtain rows where rows: "AnyEncryptedVaultEntry (istore db) = Some rows"
    "rows = map (\<lambda>(i, r). (encrypted_value r, entry_nonce r, encryption_version r)) (filter (\<lambda>(i, r). encrypted_value r \<noteq> []) (entries (istore db)))"
    using probed_rows [OF assms] .
  from assms rows(1) show ?thesis
  proof (cases rule: probe_cases)
    case entry
    then obtain i r where "(i, r) \<in> set (entries (istore db))" "entry_probe e pbkdf2 keys (encrypted_value r, entry_nonce r, encryption_version r)"
      using rows(2) by (auto simp: list_ex_iff)
    then show ?thesis using opens_stored_entry by (blast dest!: entry_probe_key)
  next
    case (seed seeds)
    then obtain u a where "(u, a) \<in> set (accounts (iacc db))" "string_opens e (null_text (totp_secret a)) vaultFieldTOTPSecret keys"
      by (auto simp: list_ex_iff ListUsersWithTOTPSecret_def split: if_splits)
    then show ?thesis using opens_stored_seed by (blast dest!: string_opens_key)
  next
    case (blob seeds blobs)
    from probe_blobs_opens [OF blob(3)] obtain k where k: "k \<in> set keys" "k \<noteq> []"
      "(\<exists>b p. (FamilyColumnCrypto, b) \<in> set blobs \<and> DecryptString (vcipher e) (derive_of (ve_signin e)) b k vaultFieldBootProbe = Inr p) \<or>
       (\<exists>b. (FamilyVaultColumn, b) \<in> set blobs \<and> ColumnOpens (vcipher e) (vaultV2Key pbkdf2 k) b vaultFieldBootProbe)" by blast
    from k(3) have "opens_stored e pbkdf2 db k"
    proof
      assume "\<exists>b p. (FamilyColumnCrypto, b) \<in> set blobs \<and> DecryptString (vcipher e) (derive_of (ve_signin e)) b k vaultFieldBootProbe = Inr p"
      then show ?thesis using sample_members(1) [OF blob(2)] unfolding opens_stored_def by blast
    next
      assume "\<exists>b. (FamilyVaultColumn, b) \<in> set blobs \<and> ColumnOpens (vcipher e) (vaultV2Key pbkdf2 k) b vaultFieldBootProbe"
      then obtain i inv where "(i, inv) \<in> set (invites (id_admin db))" "ColumnOpens (vcipher e) (vaultV2Key pbkdf2 k) (inv_code inv) vaultFieldBootProbe"
        using sample_members(2) [OF blob(2)] by blast
      then show ?thesis unfolding opens_stored_def by blast
    qed
    with k show ?thesis by blast
  qed
qed


lemma sentinel_sealed:
  assumes "seal_sentinel e k = Some c"
  shows "sentinel_opens e c k" "c \<noteq> []"
  using assms DecryptString_EncryptString [OF assms [unfolded seal_sentinel_def], of vaultFieldKeySentinel]
  by (auto simp: sentinel_opens_def vaultFieldKeySentinel_def seal_sentinel_def EncryptString_def marker_def split: option.splits)

definition sentinel_of :: "instance_db \<Rightarrow> string" where
  "sentinel_of db = null_text (map_of (settings (istore db)) vaultKeyCheckSetting)"

lemma UpsertSetting_value:
  "UpsertSetting s k v = Some s' \<Longrightarrow> map_of (settings s') j = (if j = k then Some v else map_of (settings s) j)"
  by (auto simp: UpsertSetting_def row_simps split: if_splits option.splits)

lemma sentinel_stored:
  "UpsertSetting (istore db) vaultKeyCheckSetting c = Some s \<Longrightarrow> sentinel_of (put_istore db s) = c"
  by (simp add: sentinel_of_def put_istore_def with_store_def UpsertSetting_value null_text_def)

text \<open>A check that passes: the sentinel opens under a key of the ring, or there was none and the data was probed.\<close>

lemma VerifyVaultKey_passed:
  assumes "VerifyVaultKey e pbkdf2 keys db = (None, db')"
  obtains (sentinel) k where "db' = db" "sentinel_of db \<noteq> []" "k \<in> set keys" "k \<noteq> []" "sentinel_opens e (sentinel_of db) k"
    | (probed) s c where "sentinel_of db = []" "UpsertSetting (istore db) vaultKeyCheckSetting c = Some s" "db' = put_istore db s"
        "sentinel_opens e c (first_key keys)" "c \<noteq> []" "\<not> holds_ciphertext db \<or> (\<exists>k \<in> set keys. k \<noteq> [] \<and> opens_stored e pbkdf2 db k)"
proof (cases "sentinel_of db = []")
  case True
  then have "(case GetSetting (istore db) vaultKeyCheckSetting of Row v \<Rightarrow> v | _ \<Rightarrow> []) = []"
    by (auto simp: sentinel_of_def GetSetting_def fetch_def null_text_def split: option.splits)
  then obtain has opens c s where p: "vaultKeyOpensExistingData e pbkdf2 db keys = Some (has, opens)" "\<not> (has \<and> \<not> opens)"
      "seal_sentinel e (first_key keys) = Some c" "UpsertSetting (istore db) vaultKeyCheckSetting c = Some s" "db' = put_istore db s"
    using assms by (auto simp: VerifyVaultKey_def Let_def split: fetched.splits option.splits if_splits)
  then have "\<not> holds_ciphertext db \<or> (\<exists>k \<in> set keys. k \<noteq> [] \<and> opens_stored e pbkdf2 db k)"
    using probe_empty [of e pbkdf2 db keys opens] probe_opens [of e pbkdf2 db keys has] by (cases has; cases opens) simp_all
  then show ?thesis using True p sentinel_sealed [OF p(3)] probed by blast
next
  case False
  have "GetSetting (istore db) vaultKeyCheckSetting = Row (sentinel_of db)"
    using assms False by (auto simp: VerifyVaultKey_def GetSetting_def fetch_def sentinel_of_def null_text_def split: option.splits if_splits)
  then have "DecryptStringAny (vcipher e) (derive_of (ve_signin e)) (sentinel_of db) vaultFieldKeySentinel keys None = Inr vaultKeyCheckPlaintext" "db' = db"
    using assms False by (auto simp: VerifyVaultKey_def Let_def split: sum.splits if_splits)
  then show ?thesis using False sentinel DecryptStringAny_opened by (fastforce simp: sentinel_opens_def)
qed

lemma VerifyVaultKey_refused: "VerifyVaultKey e pbkdf2 keys db = (Some err, db') \<Longrightarrow> db' = db"
  by (auto simp: VerifyVaultKey_def Let_def split: fetched.splits option.splits if_splits sum.splits)

text \<open>
  Where there is no sentinel and a stored secret opens under the previous key only, the check seals the sentinel under the
  current key; the start-up then reports that every value is sealed under the current key and that the
  previous one can be removed, with every entry as it was.
\<close>

lemma fresh_sentinel_hides_rotation:
  assumes "GetSetting (istore db) vaultKeyCheckSetting = ErrNoRows" "prev \<noteq> []" "prev \<noteq> cur"
    and "(i, r) \<in> set (entries (istore db))" "encryption_version r \<noteq> Some 1" "encrypted_value r \<noteq> []" "entry_nonce r \<noteq> []"
    and "Opens (vcipher e) (vaultV2Key pbkdf2 prev) (encrypted_value r) (entry_nonce r) vaultFieldEntryValueProbe"
    and "\<not> fails (istore db) ''AnyEncryptedVaultEntry''" "\<not> fails (istore db) ''UpsertSetting''" "12 \<le> length (ve_rnd e ''keycheck'')"
  shows "\<exists>db'. EnforceVaultKey e pbkdf2 allowMismatch [cur, prev] db = (Started PreviousStillSet, db') \<and> entries (istore db') = entries (istore db)"
proof -
  have "entry_probe e pbkdf2 [cur, prev] (encrypted_value r, entry_nonce r, encryption_version r)"
    using assms by (simp add: entry_probe_def vaultSecretOpens_def vaultSecretOpensOne_def)
  then have probe: "vaultKeyOpensExistingData e pbkdf2 db [cur, prev] = Some (True, True)"
    using assms by (force simp: vaultKeyOpensExistingData_def AnyEncryptedVaultEntry_def list_ex_iff)
  obtain c where c: "seal_sentinel e cur = Some c"
    using assms(11) by (auto simp: seal_sentinel_def EncryptString_def SealPacked_def read_full_def NonceSize_def)
  obtain s where s: "UpsertSetting (istore db) vaultKeyCheckSetting c = Some s"
    using assms(10) by (simp add: UpsertSetting_def)
  have verify: "VerifyVaultKey e pbkdf2 [cur, prev] db = (None, put_istore db s)"
    using assms(1) probe c s by (simp add: VerifyVaultKey_def first_key_def)
  have fails: "fails s = fails (istore db)" "entries s = entries (istore db)"
    using s by (auto simp: UpsertSetting_def split: if_splits)
  have "GetSetting s vaultKeyCheckSetting = Row c"
    using assms(1) UpsertSetting_value [OF s, of vaultKeyCheckSetting] fails by (simp add: GetSetting_def fetch_def split: if_splits)
  then have "SentinelOnPreviousKey e (put_istore db s) cur prev = Some False"
    using assms(2,3) sentinel_sealed [OF c] by (simp add: SentinelOnPreviousKey_def put_istore_def with_store_def)
  with verify fails assms(2) show ?thesis
    by (simp add: EnforceVaultKey_def first_key_def put_istore_def with_store_def)
qed


end
