(* ===== verification/Rekey.thy ===== *)
theory Rekey
  imports Key_Check Vault_Entries
begin

text \<open>
  The rotation of the master key, \<^verbatim>\<open>handlers/vault_rekey.go\<close> and \<^verbatim>\<open>vault_rekey_api.go\<close>: every stored value that
  depends on the key is classified by the key that opens it, a plan of writes re-encrypts what is on the previous
  key, and one transaction applies the plan, seals the sentinel anew, scans again and commits only if
  nothing is left behind.

  The times of a report are left out.  \<open>rnd\<close> gives the random bytes of one sealing, named by what is sealed; the
  scan and its repetition draw different ones.
\<close>

section \<open>Surfaces and reports\<close>

datatype rekeyFamily = familyVaultValue | familyVaultColumn | familyColumnCrypto | familyRawGCM | familyBlindIndex

record keyedSurface =
  ks_Table :: string
  ks_Column :: string
  ks_Family :: rekeyFamily
  ks_SettingKey :: string
  ks_NonceColumn :: string
  ks_Why :: string
  ks_Field :: field

definition vaultFieldSMTPPassword :: field where
  "vaultFieldSMTPPassword =
     Some \<lparr>fd_name = ''settings.smtp_password'', fd_class = InstanceOwned, fd_exitKey = [],
           fd_why = ''the SMTP relay password, an admin-only settings row. It belongs to the instance, not to any vault '' @
             ''entry, so there is no entry owner to ask, and what it authenticates is the instance'' @ [CHR 0x27] @ ''s own '' @
             ''outbound mail.'',
           fd_declaredAt = ''internal/handlers/encrypted_field_ledger.go:188''\<rparr>"

definition vaultFieldAlertChannelConfig :: field where
  "vaultFieldAlertChannelConfig =
     Some \<lparr>fd_name = ''notification_channels.config'', fd_class = InstanceOwned, fd_exitKey = [],
           fd_why = ''notification-channel configuration (a Slack webhook URL, relay credentials), written only through '' @
             ''the admin-only notification-channel routes. It carries no entry'' @ [CHR 0x27] @ ''s value: Dispatch sends the '' @
             ''entry NAME and a redacted detail string. TestOnlyTheAlertsPathDecryptsInstanceConfig pins its '' @
             ''caller set so this door cannot quietly become a second way to open an entry secret.'',
           fd_declaredAt = ''internal/handlers/vault.go:1425''\<rparr>"

definition vaultFieldRekeyInvitationCode :: field where
  "vaultFieldRekeyInvitationCode =
     Some \<lparr>fd_name = ''invitations.code (re-key sweep)'', fd_class = InProcessOnly, fd_exitKey = [],
           fd_why = ''a pending invitation'' @ [CHR 0x27] @ ''s setup code, opened by the master-key re-encrypt sweep so it can be sealed '' @
             ''under the current key instead of being orphaned when the operator retires the old one. It is '' @
             ''in-process-only and not instance-owned like the door that SERVES the code: this one emits '' @
             ''nothing at all. The plaintext exists for the length of one re-encrypt inside a transaction, '' @
             ''goes back into the same column, and never reaches a response, a log line or an email. A code '' @
             ''the sweep skipped would be worse than one it converted: it stays redeemable and stops being '' @
             ''readable, so the invite silently cannot be re-sent.'',
           fd_declaredAt = ''internal/handlers/vault_rekey.go:1278''\<rparr>"

lemmas rekey_fields = vaultFieldSMTPPassword_def vaultFieldAlertChannelConfig_def vaultFieldRekeyInvitationCode_def vaultFieldKeySentinel_def
  vaultFieldName_def vaultFieldURL_def vaultFieldAliasURL_def vaultFieldUsername_def vaultFieldCategory_def vaultFieldNotes_def
  vaultFieldProviderMeta_def vaultFieldRotationTargets_def vaultFieldCustomFields_def vaultFieldTOTPSecret_def vaultFieldAuditDEK_def

definition rekeySurfaces :: "keyedSurface list" where
  "rekeySurfaces =
     [\<lparr>ks_Table = ''vault_entries'', ks_Column = ''encrypted_value'', ks_Family = familyVaultValue, ks_SettingKey = [], ks_NonceColumn = ''nonce'',
       ks_Why = ''the secret itself'',
       ks_Field = None\<rparr>,
      \<lparr>ks_Table = ''vault_entries'', ks_Column = ''name'', ks_Family = familyVaultColumn, ks_SettingKey = [], ks_NonceColumn = [],
       ks_Why = ''the operator'' @ [CHR 0x27] @ ''s label for the entry, the column that describes it best'',
       ks_Field = vaultFieldName\<rparr>,
      \<lparr>ks_Table = ''vault_entries'', ks_Column = ''url'', ks_Family = familyVaultColumn, ks_SettingKey = [], ks_NonceColumn = [],
       ks_Why = ''which site a credential belongs to'',
       ks_Field = vaultFieldURL\<rparr>,
      \<lparr>ks_Table = ''vault_entries'', ks_Column = ''alias_url'', ks_Family = familyVaultColumn, ks_SettingKey = [], ks_NonceColumn = [],
       ks_Why = ''a second host the same credential logs into'',
       ks_Field = vaultFieldAliasURL\<rparr>,
      \<lparr>ks_Table = ''vault_entries'', ks_Column = ''username'', ks_Family = familyVaultColumn, ks_SettingKey = [], ks_NonceColumn = [],
       ks_Why = ''the account name the secret pairs with'',
       ks_Field = vaultFieldUsername\<rparr>,
      \<lparr>ks_Table = ''vault_entries'', ks_Column = ''category'', ks_Family = familyVaultColumn, ks_SettingKey = [], ks_NonceColumn = [],
       ks_Why = ''user-chosen grouping label'',
       ks_Field = vaultFieldCategory\<rparr>,
      \<lparr>ks_Table = ''vault_entries'', ks_Column = ''notes'', ks_Family = familyVaultColumn, ks_SettingKey = [], ks_NonceColumn = [],
       ks_Why = ''free text, routinely holds recovery codes and second factors'',
       ks_Field = vaultFieldNotes\<rparr>,
      \<lparr>ks_Table = ''vault_entries'', ks_Column = ''provider_meta'', ks_Family = familyVaultColumn, ks_SettingKey = [], ks_NonceColumn = [],
       ks_Why = ''provider account ids and key ids used by auto-rotation'',
       ks_Field = vaultFieldProviderMeta\<rparr>,
      \<lparr>ks_Table = ''vault_entries'', ks_Column = ''rotation_targets'', ks_Family = familyVaultColumn, ks_SettingKey = [], ks_NonceColumn = [],
       ks_Why = ''delivery endpoints, embeds webhook HMAC secrets'',
       ks_Field = vaultFieldRotationTargets\<rparr>,
      \<lparr>ks_Table = ''vault_entries'', ks_Column = ''custom_fields'', ks_Family = familyVaultColumn, ks_SettingKey = [], ks_NonceColumn = [],
       ks_Why = ''arbitrary per-entry fields, explicitly allowed to be secret'',
       ks_Field = vaultFieldCustomFields\<rparr>,
      \<lparr>ks_Table = ''vault_entries'', ks_Column = ''url_bidx'', ks_Family = familyBlindIndex, ks_SettingKey = [], ks_NonceColumn = [],
       ks_Why = ''autofill lookup token; a stale one matches nothing and reports no error'',
       ks_Field = None\<rparr>,
      \<lparr>ks_Table = ''vault_entries'', ks_Column = ''alias_url_bidx'', ks_Family = familyBlindIndex, ks_SettingKey = [], ks_NonceColumn = [],
       ks_Why = ''same, for the alias host'',
       ks_Field = None\<rparr>,
      \<lparr>ks_Table = ''vault_entries'', ks_Column = ''name_bidx'', ks_Family = familyBlindIndex, ks_SettingKey = [], ks_NonceColumn = [],
       ks_Why = ''per-vault-scope name uniqueness token; a stale one stops colliding, so a rotation that skipped '' @
         ''it would let two entries share a name and neither would be reported'',
       ks_Field = None\<rparr>,
      \<lparr>ks_Table = ''invitations'', ks_Column = ''code'', ks_Family = familyVaultColumn, ks_SettingKey = [], ks_NonceColumn = [],
       ks_Why = ''the pending invite code, kept recoverable so it can be re-sent'',
       ks_Field = vaultFieldRekeyInvitationCode\<rparr>,
      \<lparr>ks_Table = ''users'', ks_Column = ''totp_secret'', ks_Family = familyColumnCrypto, ks_SettingKey = [], ks_NonceColumn = [],
       ks_Why = ''2FA seed; orphaning it locks every enrolled user out'',
       ks_Field = vaultFieldTOTPSecret\<rparr>,
      \<lparr>ks_Table = ''settings'', ks_Column = ''value'', ks_Family = familyColumnCrypto, ks_SettingKey = ''smtp_password'', ks_NonceColumn = [],
       ks_Why = ''SMTP relay credential, the only way invitations get delivered'',
       ks_Field = vaultFieldSMTPPassword\<rparr>,
      \<lparr>ks_Table = ''settings'', ks_Column = ''value'', ks_Family = familyColumnCrypto, ks_SettingKey = vaultKeyCheckSetting, ks_NonceColumn = [],
       ks_Why = ''the boot key sentinel; if it stays on the old key the next boot is refused'',
       ks_Field = vaultFieldKeySentinel\<rparr>,
      \<lparr>ks_Table = ''settings'', ks_Column = ''value'', ks_Family = familyColumnCrypto, ks_SettingKey = auditDEKSetting, ks_NonceColumn = [],
       ks_Why = ''the WRAPPED audit-name DEK, and the reason this rotation never has to touch an append-only '' @
         ''audit row. capability_log.secret_name and service_secret_audit.secret_names are encrypted '' @
         ''under this key, not under the master key, so rewrapping this one value is the whole rotation '' @
         ''for both of those columns. Orphan it and every recorded secret name in the audit trail becomes '' @
         ''unreadable, permanently, because the rows themselves can never be rewritten to fix it'',
       ks_Field = vaultFieldAuditDEK\<rparr>,
      \<lparr>ks_Table = ''notification_channels'', ks_Column = ''config'', ks_Family = familyRawGCM, ks_SettingKey = [], ks_NonceColumn = ''config_nonce'',
       ks_Why = ''channel config, holds webhook URLs and bot tokens'',
       ks_Field = None\<rparr>]"

record surface_report =
  sr_Table :: string
  sr_Column :: string
  sr_SettingKey :: string
  sr_Family :: rekeyFamily
  sr_Why :: string
  sr_Scanned :: nat
  sr_OnCurrent :: nat
  sr_OnPrevious :: nat
  sr_Plaintext :: nat
  sr_Stale :: nat
  sr_Collided :: nat
  sr_Unreadable :: nat
  sr_Converted :: nat

record RekeyBlocker =
  rb_Table :: string
  rb_Column :: string
  rb_SettingKey :: string
  rb_RowID :: string
  rb_Reason :: string

record RekeyReport =
  rp_Status :: string
  rp_PreviousKeyConfigured :: bool
  rp_CurrentKeyFingerprint :: string
  rp_PreviousKeyFingerprint :: string
  rp_Surfaces :: "surface_report list"
  rp_Blockers :: "RekeyBlocker list"
  rp_BlockersTotal :: nat
  rp_ValuesOnCurrent :: nat
  rp_ValuesOnPrevious :: nat
  rp_ValuesStale :: nat
  rp_NameIndexCollisions :: nat
  rp_ValuesUnreadable :: nat
  rp_RowsConverted :: nat
  rp_Error :: string

definition maxReportedBlockers :: nat where
  "maxReportedBlockers = 25"

definition surfaceKey :: "string \<Rightarrow> string \<Rightarrow> string \<Rightarrow> string" where
  "surfaceKey table col settingKey =
     (if settingKey \<noteq> [] then table @ ''.'' @ col @ ''['' @ settingKey @ '']'' else table @ ''.'' @ col)"

definition surfaceReports :: "surface_report list" where
  "surfaceReports =
     map (\<lambda>s. \<lparr>sr_Table = ks_Table s, sr_Column = ks_Column s, sr_SettingKey = ks_SettingKey s, sr_Family = ks_Family s,
               sr_Why = ks_Why s, sr_Scanned = 0, sr_OnCurrent = 0, sr_OnPrevious = 0, sr_Plaintext = 0, sr_Stale = 0,
               sr_Collided = 0, sr_Unreadable = 0, sr_Converted = 0\<rparr>) rekeySurfaces"

definition new_report :: RekeyReport where
  "new_report =
     \<lparr>rp_Status = [], rp_PreviousKeyConfigured = False, rp_CurrentKeyFingerprint = [], rp_PreviousKeyFingerprint = [],
      rp_Surfaces = surfaceReports, rp_Blockers = [], rp_BlockersTotal = 0, rp_ValuesOnCurrent = 0, rp_ValuesOnPrevious = 0,
      rp_ValuesStale = 0, rp_NameIndexCollisions = 0, rp_ValuesUnreadable = 0, rp_RowsConverted = 0, rp_Error = []\<rparr>"

definition vaultKeyFingerprint :: "vault_env \<Rightarrow> string \<Rightarrow> string" where
  "vaultKeyFingerprint e key =
     (if key = [] then [] else hex_encode (take 4 (ve_sha256 e (''trustissues:vault:keyfp:v1|'' @ key))))"

definition finishReport :: "vault_env \<Rightarrow> RekeyReport \<Rightarrow> RekeyReport" where
  "finishReport e rep =
     rep\<lparr>rp_CurrentKeyFingerprint := vaultKeyFingerprint e (key_source (current (ve_keys e))),
         rp_PreviousKeyConfigured := previous (ve_keys e) \<noteq> None,
         rp_PreviousKeyFingerprint :=
           (case previous (ve_keys e) of None \<Rightarrow> rp_PreviousKeyFingerprint rep | Some p \<Rightarrow> vaultKeyFingerprint e (key_source p))\<rparr>"

datatype keyAge = keyAgeEmpty | keyAgePlaintext | keyAgeCurrent | keyAgePrevious | keyAgeStale | keyAgeCollided | keyAgeUnknown

text \<open>The counters of one surface; a surface that is not declared is counted in a report that is thrown away.\<close>

definition on_surface :: "string \<Rightarrow> string \<Rightarrow> string \<Rightarrow> (surface_report \<Rightarrow> surface_report) \<Rightarrow> RekeyReport \<Rightarrow> RekeyReport" where
  "on_surface table col settingKey f rep =
     rep\<lparr>rp_Surfaces := map (\<lambda>s. if surfaceKey (sr_Table s) (sr_Column s) (sr_SettingKey s) = surfaceKey table col settingKey then f s else s) (rp_Surfaces rep)\<rparr>"

definition blocked :: "string \<Rightarrow> string \<Rightarrow> string \<Rightarrow> string \<Rightarrow> string \<Rightarrow> RekeyReport \<Rightarrow> RekeyReport" where
  "blocked table col settingKey rowID reason rep =
     (on_surface table col settingKey (\<lambda>s. s\<lparr>sr_Unreadable := Suc (sr_Unreadable s)\<rparr>) rep)
       \<lparr>rp_ValuesUnreadable := Suc (rp_ValuesUnreadable rep), rp_BlockersTotal := Suc (rp_BlockersTotal rep),
        rp_Blockers :=
          (if length (rp_Blockers rep) < maxReportedBlockers
           then rp_Blockers rep @ [\<lparr>rb_Table = table, rb_Column = col, rb_SettingKey = settingKey, rb_RowID = rowID, rb_Reason = reason\<rparr>]
           else rp_Blockers rep)\<rparr>"

definition scanned :: "string \<Rightarrow> string \<Rightarrow> string \<Rightarrow> RekeyReport \<Rightarrow> RekeyReport" where
  "scanned table col settingKey = on_surface table col settingKey (\<lambda>s. s\<lparr>sr_Scanned := Suc (sr_Scanned s)\<rparr>)"

definition record_age :: "keyAge \<Rightarrow> string \<Rightarrow> string \<Rightarrow> string \<Rightarrow> string \<Rightarrow> RekeyReport \<Rightarrow> RekeyReport" where
  "record_age age table col settingKey rowID rep0 =
     (let rep = scanned table col settingKey rep0; on = on_surface table col settingKey
      in case age of
           keyAgeCurrent \<Rightarrow> (on (\<lambda>s. s\<lparr>sr_OnCurrent := Suc (sr_OnCurrent s)\<rparr>) rep)\<lparr>rp_ValuesOnCurrent := Suc (rp_ValuesOnCurrent rep)\<rparr>
         | keyAgePrevious \<Rightarrow> (on (\<lambda>s. s\<lparr>sr_OnPrevious := Suc (sr_OnPrevious s)\<rparr>) rep)\<lparr>rp_ValuesOnPrevious := Suc (rp_ValuesOnPrevious rep)\<rparr>
         | keyAgePlaintext \<Rightarrow> on (\<lambda>s. s\<lparr>sr_Plaintext := Suc (sr_Plaintext s)\<rparr>) rep
         | keyAgeStale \<Rightarrow> (on (\<lambda>s. s\<lparr>sr_Stale := Suc (sr_Stale s)\<rparr>) rep)\<lparr>rp_ValuesStale := Suc (rp_ValuesStale rep)\<rparr>
         | keyAgeCollided \<Rightarrow> (on (\<lambda>s. s\<lparr>sr_Collided := Suc (sr_Collided s)\<rparr>) rep)\<lparr>rp_NameIndexCollisions := Suc (rp_NameIndexCollisions rep)\<rparr>
         | keyAgeUnknown \<Rightarrow> blocked table col settingKey rowID ''marked ciphertext that opens under neither the current nor the previous vault key'' rep
         | keyAgeEmpty \<Rightarrow> rep)"

definition recordUnreadable :: "string \<Rightarrow> string \<Rightarrow> string \<Rightarrow> string \<Rightarrow> string \<Rightarrow> RekeyReport \<Rightarrow> RekeyReport" where
  "recordUnreadable table col settingKey rowID reason rep =
     blocked table col settingKey rowID reason (scanned table col settingKey rep)"

section \<open>Which key a value is on\<close>

definition classifyVaultColumn :: "vault_env \<Rightarrow> string \<Rightarrow> field \<Rightarrow> string \<times> keyAge" where
  "classifyVaultColumn e stored f =
     (if stored = [] then ([], keyAgeEmpty)
      else if \<not> IsSealedColumn stored then (stored, keyAgePlaintext)
      else case decryptColumnWithKeyAge (vcipher e) (ve_keys e) stored f of
             Inl _ \<Rightarrow> ([], keyAgeUnknown)
           | Inr (plain, onPrevious) \<Rightarrow> (plain, if onPrevious then keyAgePrevious else keyAgeCurrent))"

definition classifyColumnCrypto :: "vault_env \<Rightarrow> string \<Rightarrow> field \<Rightarrow> string \<times> keyAge" where
  "classifyColumnCrypto e stored f =
     (if stored = [] then ([], keyAgeEmpty)
      else case DecryptString (vcipher e) (derive_of (ve_signin e)) stored (key_source (current (ve_keys e))) f of
             Inr dec \<Rightarrow> (dec, keyAgeCurrent)
           | Inl _ \<Rightarrow>
              (case (case previous (ve_keys e) of
                       None \<Rightarrow> None
                     | Some p \<Rightarrow> (case DecryptString (vcipher e) (derive_of (ve_signin e)) stored (key_source p) f of Inr dec \<Rightarrow> Some dec | Inl _ \<Rightarrow> None)) of
                 Some dec \<Rightarrow> (dec, keyAgePrevious)
               | None \<Rightarrow> if IsEncrypted stored then ([], keyAgeUnknown) else (stored, keyAgePlaintext)))"

definition classifyEntryValue ::
  "vault_env \<Rightarrow> Secret_Exit.authority \<Rightarrow> bytes \<Rightarrow> bytes \<Rightarrow> int \<Rightarrow> Origin \<Rightarrow> Plaintext option \<times> keyAge" where
  "classifyEntryValue e a ct nonce encVersion orig =
     (if ct = [] \<or> nonce = [] then (None, keyAgeEmpty)
      else case openEntrySecretWithKeyAge (vcipher e) (ve_keys e) a ct nonce encVersion orig of
             Inl _ \<Rightarrow> (None, keyAgeUnknown)
           | Inr (pt, onPrevious) \<Rightarrow> (Some pt, if onPrevious then keyAgePrevious else keyAgeCurrent))"

definition legacyKeyFor :: "vault_env \<Rightarrow> string \<Rightarrow> bytes" where
  "legacyKeyFor e src = ve_sha256 e (src @ '':secrets-vault'')"

definition classifyInstanceConfig :: "vault_env \<Rightarrow> bytes \<Rightarrow> bytes \<Rightarrow> int \<Rightarrow> bytes \<times> keyAge" where
  "classifyInstanceConfig e ct nonce encVersion =
     (if ct = [] \<or> nonce = [] then ([], keyAgeEmpty)
      else let pick = (\<lambda>m. if encVersion = 1 then legacyKeyFor e (key_source m) else key_value m)
           in case Open (vcipher e) (pick (current (ve_keys e))) ct nonce vaultFieldAlertChannelConfig of
                Inr pt \<Rightarrow> (pt, keyAgeCurrent)
              | Inl _ \<Rightarrow>
                 (case previous (ve_keys e) of
                    None \<Rightarrow> ([], keyAgeUnknown)
                  | Some p \<Rightarrow>
                     (case Open (vcipher e) (pick p) ct nonce vaultFieldAlertChannelConfig of
                        Inr pt \<Rightarrow> (pt, keyAgePrevious)
                      | Inl _ \<Rightarrow> ([], keyAgeUnknown))))"

definition decodeRawGCMColumn :: "string \<Rightarrow> bytes option" where
  "decodeRawGCMColumn stored = std64_decode stored"

definition encodeRawGCMColumn :: "bytes \<Rightarrow> string" where
  "encodeRawGCMColumn ct = std64_encode ct"

definition index_age :: "vault_keys \<Rightarrow> string \<Rightarrow> string \<Rightarrow> (bytes \<Rightarrow> string) \<Rightarrow> keyAge" where
  "index_age ks stored want index =
     (if stored = [] \<and> want = [] then keyAgeEmpty
      else if stored = want then keyAgeCurrent
      else if stored \<noteq> [] \<and> (case previous ks of None \<Rightarrow> False | Some p \<Rightarrow> stored = index (key_bidx p)) then keyAgePrevious
      else keyAgeStale)"

definition classifyBlindIndex :: "vault_env \<Rightarrow> string \<Rightarrow> string \<Rightarrow> string \<Rightarrow> string \<Rightarrow> keyAge" where
  "classifyBlindIndex e stored want scope plain =
     index_age (ve_keys e) stored want (\<lambda>k. blindIndexWith (ve_mac e) (ve_url e) k scope plain)"

definition classifyNameBlindIndex :: "vault_env \<Rightarrow> string \<Rightarrow> string \<Rightarrow> string \<Rightarrow> string \<Rightarrow> keyAge" where
  "classifyNameBlindIndex e stored want scope plain =
     index_age (ve_keys e) stored want (\<lambda>k. nameBlindIndexWith (ve_mac e) k scope plain)"

definition encryptEntrySecret :: "vault_env \<Rightarrow> Plaintext \<Rightarrow> bytes \<Rightarrow> (bytes \<times> bytes) option" where
  "encryptEntrySecret e pt rnd = Reseal (vcipher e) (key_value (current (ve_keys e))) pt rnd"

section \<open>Statements\<close>

definition ListVaultEntriesForRekey :: "store \<Rightarrow> (string \<times> entry_row) list option" where
  "ListVaultEntriesForRekey s = (if fails s ''ListVaultEntriesForRekey'' then None else Some (sort_key fst (entries s)))"

definition ListInvitationCodesForRekey :: "instance_db \<Rightarrow> (string \<times> string) list option" where
  "ListInvitationCodesForRekey db =
     (if fails (istore db) ''ListInvitationCodesForRekey'' then None
      else Some (sort_key fst (filter (\<lambda>(i, c). c \<noteq> []) (map (\<lambda>(i, inv). (i, inv_code inv)) (invites (id_admin db))))))"

definition ListNotificationChannelConfigsForRekey :: "instance_db \<Rightarrow> (string \<times> channel_row) list option" where
  "ListNotificationChannelConfigsForRekey db =
     (if fails (istore db) ''ListNotificationChannelConfigsForRekey'' then None else Some (sort_key fst (id_channels db)))"

definition RekeyInvitationCode :: "string \<Rightarrow> string \<Rightarrow> instance_db \<Rightarrow> instance_db option" where
  "RekeyInvitationCode code i db =
     (if fails (istore db) ''RekeyInvitationCode'' then None
      else Some (db\<lparr>id_admin := (id_admin db)\<lparr>invites := sql_update i (\<lambda>inv. inv\<lparr>inv_code := code\<rparr>) (invites (id_admin db))\<rparr>\<rparr>))"

definition RekeyNotificationChannelConfig :: "string \<Rightarrow> bytes \<Rightarrow> int option \<Rightarrow> string \<Rightarrow> instance_db \<Rightarrow> instance_db option" where
  "RekeyNotificationChannelConfig config nonce version i db =
     (if fails (istore db) ''RekeyNotificationChannelConfig'' then None
      else Some (db\<lparr>id_channels := sql_update i (\<lambda>c. c\<lparr>ch_config := config, ch_nonce := Some nonce, ch_version := version\<rparr>) (id_channels db)\<rparr>))"

section \<open>The plan\<close>

record rekeyEntryWrite =
  rw_id :: string
  rw_params :: entry_row
  rw_ticket :: ticket
  rw_nameScope :: string
  rw_storedNameBidx :: string

record rekeyPlan =
  pl_entries :: "rekeyEntryWrite list"
  pl_invites :: "(string \<times> string) list"
  pl_totp :: "(string \<times> string) list"
  pl_settings :: "(string \<times> string) list"
  pl_channels :: "(string \<times> string \<times> bytes \<times> int option) list"

definition plan_rows :: "rekeyPlan \<Rightarrow> nat" where
  "plan_rows p = length (pl_entries p) + length (pl_invites p) + length (pl_totp p) + length (pl_settings p) + length (pl_channels p)"

datatype rekey_error =
    RekeyBlocked RekeyReport
  | RekeyNoPreviousKey
  | RekeyInProgress
  | RekeyPrivateIngressRequired
  | RekeyFailed string

type_synonym rnd_source = "string \<Rightarrow> bytes"

definition metaCols :: "entry_row \<Rightarrow> (string \<times> string \<times> field) list" where
  "metaCols r =
     [(''name'', entry_name r, vaultFieldName), (''url'', null_text (url r), vaultFieldURL),
      (''alias_url'', null_text (alias_url r), vaultFieldAliasURL), (''username'', null_text (username r), vaultFieldUsername),
      (''category'', null_text (category r), vaultFieldCategory), (''notes'', null_text (entry_notes r), vaultFieldNotes),
      (''provider_meta'', null_text (provider_meta r), vaultFieldProviderMeta),
      (''rotation_targets'', null_text (rotation_targets r), vaultFieldRotationTargets),
      (''custom_fields'', custom_fields r, vaultFieldCustomFields)]"

text \<open>One column of an entry: the new stored text and the plaintext are added to the maps of the row.\<close>

definition scan_column ::
  "vault_env \<Rightarrow> rnd_source \<Rightarrow> string \<Rightarrow> string \<times> string \<times> field \<Rightarrow>
   (string \<times> string) list \<times> (string \<times> string) list \<times> bool \<times> RekeyReport \<Rightarrow>
   rekey_error + (string \<times> string) list \<times> (string \<times> string) list \<times> bool \<times> RekeyReport" where
  "scan_column e rnd i col st =
     (let (c, stored, f) = col; (newCols, plains, needsWrite, rep) = st;
          (p, a) = classifyVaultColumn e stored f;
          rep' = record_age a ''vault_entries'' c [] i rep
      in if a = keyAgePrevious
         then attempt (present (encryptColumn (vcipher e) (ve_keys e) p (rnd (c @ ''/'' @ i))) (RekeyFailed (''re-encrypt vault_entries.'' @ c))) (\<lambda>reenc.
              Inr ((c, reenc) # newCols, (c, p) # plains, True, rep'))
         else Inr ((c, stored) # newCols, (c, p) # plains, needsWrite, rep'))"

definition lookup_text :: "(string \<times> string) list \<Rightarrow> string \<Rightarrow> string" where
  "lookup_text m k = null_text (map_of m k)"

definition claim_key :: "string \<Rightarrow> string \<Rightarrow> string" where
  "claim_key scope bidx = scope @ ''|'' @ bidx"

definition row_scope :: "entry_row \<Rightarrow> string" where
  "row_scope r = bidxScope (user_id r) (collection_id r)"

definition claimedNameBidx :: "(string \<times> entry_row) list \<Rightarrow> string \<Rightarrow> string option" where
  "claimedNameBidx rows =
     fold (\<lambda>(i, r) m. if name_bidx r \<noteq> [] then m(claim_key (row_scope r) (name_bidx r) \<mapsto> i) else m) rows Map.empty"

text \<open>The name index of a row: its age, the value to store, the claims, and whether it must be stored.\<close>

definition plan_name_index ::
  "vault_env \<Rightarrow> string \<Rightarrow> entry_row \<Rightarrow> string \<Rightarrow> (string \<Rightarrow> string option) \<Rightarrow> keyAge \<times> string \<times> (string \<Rightarrow> string option) \<times> bool" where
  "plan_name_index e i r plainName claimed =
     (let scope = row_scope r;
          want = scopedNameBlindIndex (ve_mac e) (ve_keys e) scope plainName;
          age = classifyNameBlindIndex e (name_bidx r) want scope plainName
      in if age = keyAgePrevious \<or> age = keyAgeStale
         then (let holder = (if want \<noteq> [] then claimed (claim_key scope want) else None)
               in if holder \<noteq> None \<and> holder \<noteq> Some i then (keyAgeCollided, name_bidx r, claimed, False)
                  else (age, want, if want \<noteq> [] then claimed(claim_key scope want \<mapsto> i) else claimed, True))
         else (age, want, claimed, False))"

definition plan_value ::
  "vault_env \<Rightarrow> Secret_Exit.authority \<Rightarrow> rnd_source \<Rightarrow> string \<Rightarrow> entry_row \<Rightarrow> RekeyReport \<Rightarrow>
   rekey_error + (bytes \<times> bytes \<times> int option) \<times> bool \<times> RekeyReport" where
  "plan_value e a rnd i r rep =
     (let encVersion = (case encryption_version r of None \<Rightarrow> 2 | Some v \<Rightarrow> v);
          (plain, age) = classifyEntryValue e a (encrypted_value r) (entry_nonce r) encVersion (entryOrigin i []);
          rep' = record_age age ''vault_entries'' ''encrypted_value'' [] i rep
      in case plain of
           Some pt \<Rightarrow>
             if age = keyAgePrevious \<or> age = keyAgeCurrent \<and> encVersion = 1
             then attempt (present (encryptEntrySecret e pt (rnd (''encrypted_value/'' @ i))) (RekeyFailed (''re-encrypt vault entry '' @ i))) (\<lambda>(ct, nonce).
                  Inr ((ct, nonce, Some 2), True, rep'))
             else Inr ((encrypted_value r, entry_nonce r, encryption_version r), False, rep')
         | None \<Rightarrow> Inr ((encrypted_value r, entry_nonce r, encryption_version r), False, rep'))"

type_synonym scan_state = "RekeyReport \<times> (string \<Rightarrow> string option) \<times> rekeyEntryWrite list"

definition rekeyed_row ::
  "entry_row \<Rightarrow> bytes \<times> bytes \<times> int option \<Rightarrow> (string \<times> string) list \<Rightarrow> string \<Rightarrow> string \<Rightarrow> string \<Rightarrow> entry_row" where
  "rekeyed_row r val newCols urlBidx aliasBidx nameBidx =
     r\<lparr>encrypted_value := fst val, entry_nonce := fst (snd val), encryption_version := snd (snd val),
       entry_name := lookup_text newCols ''name'', url := toNullString (lookup_text newCols ''url''),
       alias_url := toNullString (lookup_text newCols ''alias_url''), username := toNullString (lookup_text newCols ''username''),
       category := toNullString (lookup_text newCols ''category''), entry_notes := toNullString (lookup_text newCols ''notes''),
       provider_meta := toNullString (lookup_text newCols ''provider_meta''),
       rotation_targets := toNullString (lookup_text newCols ''rotation_targets''), custom_fields := lookup_text newCols ''custom_fields'',
       url_bidx := urlBidx, alias_url_bidx := aliasBidx, name_bidx := nameBidx\<rparr>"

text \<open>The second half of a row: its lookup tokens, and the write if one is needed.\<close>

definition plan_write ::
  "vault_env \<Rightarrow> string \<Rightarrow> entry_row \<Rightarrow> bytes \<times> bytes \<times> int option \<Rightarrow> (string \<times> string) list \<Rightarrow> (string \<times> string) list \<Rightarrow> bool \<Rightarrow>
   RekeyReport \<Rightarrow> (string \<Rightarrow> string option) \<Rightarrow> rekeyEntryWrite list \<Rightarrow> rekey_error + scan_state" where
  "plan_write e i r val newCols plains needsCols rep2 claimed ws =
     (let scope = row_scope r;
         wantURLBidx = urlBlindIndex (ve_mac e) (ve_url e) (ve_keys e) scope (lookup_text plains ''url'');
         wantAliasBidx = urlBlindIndex (ve_mac e) (ve_url e) (ve_keys e) scope (lookup_text plains ''alias_url'');
         urlBidxAge = classifyBlindIndex e (url_bidx r) wantURLBidx scope (lookup_text plains ''url'');
         aliasBidxAge = classifyBlindIndex e (alias_url_bidx r) wantAliasBidx scope (lookup_text plains ''alias_url'');
         (nameBidxAge, wantNameBidx, claimed', needsName) = plan_name_index e i r (lookup_text plains ''name'') claimed;
         needsWrite = (needsCols \<or> urlBidxAge = keyAgePrevious \<or> urlBidxAge = keyAgeStale \<or>
                       aliasBidxAge = keyAgePrevious \<or> aliasBidxAge = keyAgeStale \<or> needsName);
         rep3 = record_age nameBidxAge ''vault_entries'' ''name_bidx'' [] i
                  (record_age aliasBidxAge ''vault_entries'' ''alias_url_bidx'' [] i
                    (record_age urlBidxAge ''vault_entries'' ''url_bidx'' [] i rep2))
     in if \<not> needsWrite then Inr (rep3, claimed', ws)
        else let reachable = providerDestinations e (null_text (provider r)) (ParseProviderMeta (ve_json e) (lookup_text plains ''provider_meta'')) @
                   deliveryDestinations (ParseRotationTargets e (lookup_text plains ''rotation_targets''))
             in attempt (relabel (\<lambda>_. RekeyFailed (''egress decision for the re-encryption of '' @ i))
                  (Decide \<lparr>EntryID = i, What = FieldRekey, Before = reachable, After = reachable,
                           Covers = Some providerDestinationCovers, MayRedirect = None\<rparr>)) (\<lambda>tk.
                Inr (rep3, claimed', ws @
                  [\<lparr>rw_id = i, rw_params = rekeyed_row r val newCols wantURLBidx wantAliasBidx wantNameBidx,
                    rw_ticket = tk, rw_nameScope = scope, rw_storedNameBidx = name_bidx r\<rparr>])))"

definition scan_entry ::
  "vault_env \<Rightarrow> Secret_Exit.authority \<Rightarrow> rnd_source \<Rightarrow> string \<times> entry_row \<Rightarrow> scan_state \<Rightarrow> rekey_error + scan_state" where
  "scan_entry e a rnd row st =
     (let (i, r) = row; (rep0, claimed, ws) = st
      in attempt (plan_value e a rnd i r rep0) (\<lambda>(val, needsValue, rep1).
         attempt (attempt_fold (scan_column e rnd i) (metaCols r) ([], [], needsValue, rep1)) (\<lambda>(newCols, plains, needsCols, rep2).
         plan_write e i r val newCols plains needsCols rep2 claimed ws)))"

text \<open>Rows that hold an index come first; the sort is stable.\<close>

definition scanVaultEntries ::
  "vault_env \<Rightarrow> rnd_source \<Rightarrow> instance_db \<Rightarrow> RekeyReport \<Rightarrow> rekey_error + RekeyReport \<times> rekeyEntryWrite list" where
  "scanVaultEntries e rnd db rep =
     attempt (present (ListVaultEntriesForRekey (istore db)) (RekeyFailed ''list vault entries for rekey'')) (\<lambda>rows.
     attempt (attempt_fold (scan_entry e (AuthorizeSecretExit (lib_of e) (istore db)) rnd) (sort_key (\<lambda>(i, r). name_bidx r = []) rows)
                (rep, claimedNameBidx rows, [])) (\<lambda>(rep', claimed, ws).
     Inr (rep', ws)))"

definition scan_invitation ::
  "vault_env \<Rightarrow> rnd_source \<Rightarrow> string \<times> string \<Rightarrow> RekeyReport \<times> (string \<times> string) list \<Rightarrow> rekey_error + RekeyReport \<times> (string \<times> string) list" where
  "scan_invitation e rnd row st =
     (let (i, code) = row; (rep, ws) = st; (plain, age) = classifyVaultColumn e code vaultFieldRekeyInvitationCode;
          rep' = record_age age ''invitations'' ''code'' [] i rep
      in if age \<noteq> keyAgePrevious then Inr (rep', ws)
         else attempt (present (encryptColumn (vcipher e) (ve_keys e) plain (rnd (''code/'' @ i))) (RekeyFailed (''re-encrypt invitation code '' @ i))) (\<lambda>reenc.
              Inr (rep', ws @ [(i, reenc)])))"

definition scanInvitations ::
  "vault_env \<Rightarrow> rnd_source \<Rightarrow> instance_db \<Rightarrow> RekeyReport \<Rightarrow> rekey_error + RekeyReport \<times> (string \<times> string) list" where
  "scanInvitations e rnd db rep =
     attempt (present (ListInvitationCodesForRekey db) (RekeyFailed ''list invitation codes for rekey'')) (\<lambda>rows.
     attempt_fold (scan_invitation e rnd) rows (rep, []))"

definition reseal_string :: "vault_env \<Rightarrow> string \<Rightarrow> bytes \<Rightarrow> string option" where
  "reseal_string e plain bs = EncryptString (vcipher e) (derive_of (ve_signin e)) plain (key_source (current (ve_keys e))) bs"

definition scan_totp ::
  "vault_env \<Rightarrow> rnd_source \<Rightarrow> string \<times> string \<Rightarrow> RekeyReport \<times> (string \<times> string) list \<Rightarrow> rekey_error + RekeyReport \<times> (string \<times> string) list" where
  "scan_totp e rnd row st =
     (let (u, stored) = row; (rep, ws) = st; (seed, age) = classifyColumnCrypto e stored vaultFieldTOTPSecret;
          rep' = record_age age ''users'' ''totp_secret'' [] u rep
      in if age \<noteq> keyAgePrevious then Inr (rep', ws)
         else attempt (present (reseal_string e seed (rnd (''totp/'' @ u))) (RekeyFailed (''re-encrypt totp secret for user '' @ u))) (\<lambda>reenc.
              Inr (rep', ws @ [(u, reenc)])))"

definition scanTOTPSecrets ::
  "vault_env \<Rightarrow> rnd_source \<Rightarrow> instance_db \<Rightarrow> RekeyReport \<Rightarrow> rekey_error + RekeyReport \<times> (string \<times> string) list" where
  "scanTOTPSecrets e rnd db rep =
     attempt (present (ListUsersWithTOTPSecret (iacc db)) (RekeyFailed ''list totp secrets for rekey'')) (\<lambda>rows.
     attempt_fold (scan_totp e rnd) rows (rep, []))"

definition scan_setting ::
  "vault_env \<Rightarrow> rnd_source \<Rightarrow> store \<Rightarrow> keyedSurface \<Rightarrow> RekeyReport \<times> (string \<times> string) list \<Rightarrow> rekey_error + RekeyReport \<times> (string \<times> string) list" where
  "scan_setting e rnd s surf st =
     (let (rep, ws) = st; key = ks_SettingKey surf
      in if ks_Table surf \<noteq> ''settings'' \<or> key = [] then Inr st
         else case GetSetting s key of
                ErrNoRows \<Rightarrow> Inr st
              | DBError \<Rightarrow> Inl (RekeyFailed (''read setting '' @ key))
              | Row stored \<Rightarrow>
                 (let (plain, age) = classifyColumnCrypto e stored (ks_Field surf);
                      rep' = record_age age ''settings'' ''value'' key key rep
                  in if age \<noteq> keyAgePrevious \<or> key = vaultKeyCheckSetting then Inr (rep', ws)
                     else attempt (present (reseal_string e plain (rnd (''setting/'' @ key))) (RekeyFailed (''re-encrypt setting '' @ key))) (\<lambda>reenc.
                          Inr (rep', ws @ [(key, reenc)]))))"

definition scanSettings ::
  "vault_env \<Rightarrow> rnd_source \<Rightarrow> instance_db \<Rightarrow> RekeyReport \<Rightarrow> rekey_error + RekeyReport \<times> (string \<times> string) list" where
  "scanSettings e rnd db rep = attempt_fold (scan_setting e rnd (istore db)) rekeySurfaces (rep, [])"

definition scan_channel ::
  "vault_env \<Rightarrow> rnd_source \<Rightarrow> string \<times> channel_row \<Rightarrow> RekeyReport \<times> (string \<times> string \<times> bytes \<times> int option) list \<Rightarrow>
   rekey_error + RekeyReport \<times> (string \<times> string \<times> bytes \<times> int option) list" where
  "scan_channel e rnd row st =
     (let (i, c) = row; (rep, ws) = st; encVersion = (case ch_version c of None \<Rightarrow> 0 | Some v \<Rightarrow> v);
          tab = ''notification_channels''
      in if encVersion = 0
         then Inr (record_age (if ch_config c \<noteq> [] then keyAgePlaintext else keyAgeEmpty) tab ''config'' [] i rep, ws)
         else case decodeRawGCMColumn (ch_config c) of
                None \<Rightarrow> Inr (recordUnreadable tab ''config'' [] i
                   (''encryption_version says this config is encrypted, but the stored value is not valid base64, '' @
                    ''so it is corrupt rather than sealed under a missing key'') rep, ws)
              | Some ct \<Rightarrow>
                 (let (plain, age) = classifyInstanceConfig e ct (null_text (ch_nonce c)) encVersion;
                      rep' = record_age age tab ''config'' [] i rep
                  in if age \<noteq> keyAgePrevious \<and> \<not> (age = keyAgeCurrent \<and> encVersion = 1) then Inr (rep', ws)
                     else attempt (present (Seal (vcipher e) (key_value (current (ve_keys e))) plain (rnd (''config/'' @ i)))
                            (RekeyFailed (''re-encrypt notification channel '' @ i))) (\<lambda>(ct', nonce).
                          Inr (rep', ws @ [(i, encodeRawGCMColumn ct', nonce, Some 2)]))))"

text \<open>How the dispatcher of notifications reads a channel's configuration.\<close>

definition decryptConfig :: "vault_env \<Rightarrow> vault_keys \<Rightarrow> channel_row \<Rightarrow> open_error + string" where
  "decryptConfig e ks c =
     (let encVersion = (case ch_version c of None \<Rightarrow> 0 | Some v \<Rightarrow> v)
      in case ch_nonce c of
           None \<Rightarrow> Inr (ch_config c)
         | Some nonce \<Rightarrow>
            if encVersion = 0 then Inr (ch_config c)
            else case std64_decode (ch_config c) of
                   None \<Rightarrow> Inl BadEncoding
                 | Some ct \<Rightarrow> DecryptInstanceConfig (vcipher e) ks ct nonce encVersion vaultFieldAlertChannelConfig)"

definition scanNotificationChannels ::
  "vault_env \<Rightarrow> rnd_source \<Rightarrow> instance_db \<Rightarrow> RekeyReport \<Rightarrow> rekey_error + RekeyReport \<times> (string \<times> string \<times> bytes \<times> int option) list" where
  "scanNotificationChannels e rnd db rep =
     attempt (present (ListNotificationChannelConfigsForRekey db) (RekeyFailed ''list notification channel configs for rekey'')) (\<lambda>rows.
     attempt_fold (scan_channel e rnd) rows (rep, []))"

definition scanAndPlan :: "vault_env \<Rightarrow> rnd_source \<Rightarrow> instance_db \<Rightarrow> rekey_error + RekeyReport \<times> rekeyPlan" where
  "scanAndPlan e rnd db =
     attempt (scanVaultEntries e rnd db new_report) (\<lambda>(rep1, es).
     attempt (scanInvitations e rnd db rep1) (\<lambda>(rep2, is).
     attempt (scanTOTPSecrets e rnd db rep2) (\<lambda>(rep3, ts).
     attempt (scanSettings e rnd db rep3) (\<lambda>(rep4, ss).
     attempt (scanNotificationChannels e rnd db rep4) (\<lambda>(rep5, cs).
     Inr (rep5, \<lparr>pl_entries = es, pl_invites = is, pl_totp = ts, pl_settings = ss, pl_channels = cs\<rparr>))))))"

section \<open>Applying the plan\<close>

text \<open>A refused name index costs the row its index and not its re-encryption.\<close>

definition apply_entry :: "rekeyEntryWrite \<Rightarrow> store \<Rightarrow> rekey_error + store" where
  "apply_entry w s =
     (let res = constrained (RekeyEntry s (rw_ticket w) (rw_id w) (rw_params w));
          res' = (if res = Inl UniqueViolation \<and> name_bidx (rw_params w) \<noteq> rw_storedNameBidx w
                  then constrained (RekeyEntry s (rw_ticket w) (rw_id w) ((rw_params w)\<lparr>name_bidx := rw_storedNameBidx w\<rparr>))
                  else res)
      in relabel (\<lambda>_. RekeyFailed (''rekey vault entry '' @ rw_id w)) res')"

definition apply_totp :: "string \<times> string \<Rightarrow> account_db \<Rightarrow> rekey_error + account_db" where
  "apply_totp p db = present (StoreTOTPSecret (snd p) (fst p) db) (RekeyFailed (''rekey totp secret for user '' @ fst p))"

definition applyPlan :: "rekeyPlan \<Rightarrow> instance_db \<Rightarrow> rekey_error + instance_db" where
  "applyPlan plan db =
     attempt (attempt_fold apply_entry (pl_entries plan) (istore db)) (\<lambda>s.
     attempt (attempt_fold (\<lambda>(i, code) d. present (RekeyInvitationCode code i d) (RekeyFailed (''rekey invitation '' @ i)))
                (pl_invites plan) (put_istore db s)) (\<lambda>db1.
     attempt (attempt_fold apply_totp (pl_totp plan) (iacc db1)) (\<lambda>ac.
     attempt (attempt_fold (\<lambda>(k, v) s. present (UpsertSetting s k v) (RekeyFailed (''rekey setting '' @ k))) (pl_settings plan) (base ac)) (\<lambda>s2.
     attempt_fold (\<lambda>(i, config, nonce, version) d. present (RekeyNotificationChannelConfig config nonce version i d) (RekeyFailed (''rekey notification channel '' @ i)))
       (pl_channels plan) (db1\<lparr>id_admin := (id_admin db1)\<lparr>acc := ac\<lparr>base := s2\<rparr>\<rparr>\<rparr>)))))"

section \<open>The sweep\<close>

definition RekeyStatus :: "vault_env \<Rightarrow> instance_db \<Rightarrow> rekey_error + RekeyReport" where
  "RekeyStatus e db =
     attempt (scanAndPlan e (\<lambda>l. ve_rnd e (''status:'' @ l)) db) (\<lambda>(rep, _).
     Inr ((finishReport e rep)\<lparr>rp_Status :=
       (if 0 < rp_ValuesUnreadable rep then ''blocked''
        else if 0 < rp_ValuesOnPrevious rep \<or> 0 < rp_ValuesStale rep then ''needs_rekey'' else ''already_current'')\<rparr>))"

definition blocked_text :: "nat \<Rightarrow> string" where
  "blocked_text n =
     dec_text n @ '' stored value(s) open under neither the current nor the previous vault key. '' @
     ''Nothing was written. Restore the key those values were sealed under, or remove those rows, then retry.''"

definition rekey_ingress :: "bool \<Rightarrow> bool \<Rightarrow> store \<Rightarrow> rekey_error + unit" where
  "rekey_ingress enforceIngress onPrivate s =
     (if enforceIngress \<and> \<not> onPrivate
      then attempt (relabel (\<lambda>_. RekeyFailed ''verify global private-access policy'') (globalProtectedPrivateAccessRequired s)) (\<lambda>required.
           ensure (\<not> required) RekeyPrivateIngressRequired)
      else Inr ())"

text \<open>\<open>running\<close> is the flag of the process: a sweep that finds another one under way does nothing.\<close>

definition rekeyVault ::
  "vault_env \<Rightarrow> bool \<Rightarrow> bool \<Rightarrow> bool \<Rightarrow> instance_db \<Rightarrow> (rekey_error + RekeyReport) \<times> instance_db" where
  "rekeyVault e running enforceIngress onPrivate db =
     settle Inl db
       (attempt (ensure (\<not> running) RekeyInProgress) (\<lambda>_.
        attempt (ensure (\<not> fails (istore db) ''BeginTx'') (RekeyFailed ''begin rekey transaction'')) (\<lambda>_.
        attempt (rekey_ingress enforceIngress onPrivate (istore db)) (\<lambda>_.
        attempt (scanAndPlan e (\<lambda>l. ve_rnd e (''scan:'' @ l)) db) (\<lambda>(rep, plan).
        attempt (ensure (rp_ValuesUnreadable rep = 0)
                   (RekeyBlocked ((finishReport e rep)\<lparr>rp_Status := ''blocked'', rp_Error := blocked_text (rp_ValuesUnreadable rep)\<rparr>))) (\<lambda>_.
        attempt (ensure (\<not> (0 < rp_ValuesOnPrevious rep \<and> previous (ve_keys e) = None)) RekeyNoPreviousKey) (\<lambda>_.
        attempt (applyPlan plan db) (\<lambda>db1.
        attempt (present (ResealVaultKeycheck e (istore db1) (key_source (current (ve_keys e)))) (RekeyFailed ''reseal key sentinel'')) (\<lambda>s.
        attempt (scanAndPlan e (\<lambda>l. ve_rnd e (''verify:'' @ l)) (put_istore db1 s)) (\<lambda>(verifyRep, _).
        attempt (ensure (rp_ValuesOnPrevious verifyRep = 0 \<and> rp_ValuesUnreadable verifyRep = 0 \<and> rp_ValuesStale verifyRep = 0)
                   (RekeyFailed ''rekey verification failed'')) (\<lambda>_.
        attempt (ensure (\<not> fails (istore db) ''Commit'') (RekeyFailed ''commit rekey'')) (\<lambda>_.
        Inr (Inr ((finishReport e (rep\<lparr>rp_RowsConverted := plan_rows plan\<rparr>))
                    \<lparr>rp_Status := (if plan_rows plan = 0 then ''already_current'' else ''converted'')\<rparr>),
             put_istore db1 s)))))))))))))"

definition RekeyVault :: "vault_env \<Rightarrow> bool \<Rightarrow> instance_db \<Rightarrow> (rekey_error + RekeyReport) \<times> instance_db" where
  "RekeyVault e running db = rekeyVault e running False False db"

definition rekeyVaultForIngress :: "vault_env \<Rightarrow> bool \<Rightarrow> request \<Rightarrow> instance_db \<Rightarrow> (rekey_error + RekeyReport) \<times> instance_db" where
  "rekeyVaultForIngress e running r db = rekeyVault e running True (IsPrivateIngress r) db"

section \<open>The admin endpoints\<close>

datatype rekey_answer = KeyReply response | KeyReport int RekeyReport

definition VaultKeyStatus :: "vault_env \<Rightarrow> request \<Rightarrow> headers \<Rightarrow> instance_db \<Rightarrow> rekey_answer" where
  "VaultKeyStatus e r w0 db =
     (let w = setNoStore w0; failed = writeInternalError w r ''could not read encryption status''
      in case attempt (passed (requireConfiguredPrivateControlPlaneIngress w r)) (\<lambda>_.
              attempt (ensure (\<not> fails (istore db) ''BeginTx'') failed) (\<lambda>_.
              attempt (passed (requireGlobalProtectedPrivateAccess (istore db) w r)) (\<lambda>_.
              attempt (relabel (\<lambda>_. failed) (RekeyStatus e db)) (\<lambda>rep.
              attempt (ensure (\<not> fails (istore db) ''Commit'') failed) (\<lambda>_.
              Inr rep))))) of
           Inl resp \<Rightarrow> KeyReply resp
         | Inr rep \<Rightarrow> KeyReport 200 rep)"

definition key_log :: "vault_env \<Rightarrow> request \<Rightarrow> string \<Rightarrow> instance_db \<Rightarrow> instance_db" where
  "key_log e r action db =
     db\<lparr>id_admin := (id_admin db)\<lparr>acc := LogActivityFromRequest (proxy_of (ve_signin e)) r action (iacc db)\<rparr>\<rparr>"

definition VaultKeyRekey :: "vault_env \<Rightarrow> bool \<Rightarrow> request \<Rightarrow> headers \<Rightarrow> instance_db \<Rightarrow> rekey_answer \<times> instance_db" where
  "VaultKeyRekey e running r w0 db =
     (let w = setNoStore w0
      in case requireConfiguredPrivateControlPlaneIngress w r of
           Some resp \<Rightarrow> (KeyReply resp, db)
         | None \<Rightarrow>
            (case rekeyVaultForIngress e running r db of
               (Inl RekeyPrivateIngressRequired, db1) \<Rightarrow> (KeyReply (writePrivateIngressRequired w r), db1)
             | (Inl RekeyInProgress, db1) \<Rightarrow> (KeyReply (writeConflict w r ''a re-encrypt sweep is already running''), db1)
             | (Inl (RekeyBlocked rep), db1) \<Rightarrow> (KeyReport 409 rep, key_log e r ''vault.rekey_blocked'' db1)
             | (Inl RekeyNoPreviousKey, db1) \<Rightarrow>
                 (KeyReply (writeBadRequest w r ''TRUSTISSUES_VAULT_KEY_PREVIOUS is not set, so there is no previous key to convert from''), db1)
             | (Inl (RekeyFailed _), db1) \<Rightarrow>
                 (KeyReply (writeInternalError w r ''re-encrypt sweep failed and was rolled back; nothing changed''), key_log e r ''vault.rekey_failed'' db1)
             | (Inr rep, db1) \<Rightarrow> (KeyReport 200 rep, key_log e r ''vault.rekey'' db1)))"


end
