(* ===== verification/Rekey_Safety.thy ===== *)
theory Rekey_Safety
  imports Rekey
begin

text \<open>
  What the sweep keeps.  The locale \<open>sweep\<close> states what every scan of a table promises, one row at a time: a row is left
  alone or gets one write, and either way it reads as before.  It is interpreted for the scans of entries,
  invitations, authenticator seeds and notification channels; the statements that apply the writes
  then give the whole table, and \<open>rekey_keeps_vault\<close> the whole run.
\<close>

section \<open>Scans and writes\<close>

definition swept_row :: "('w \<Rightarrow> 'v \<Rightarrow> 'v) \<Rightarrow> ('k \<times> 'w) list \<Rightarrow> 'k \<Rightarrow> 'v \<Rightarrow> 'v" where
  "swept_row upd ws k v = (case map_of ws k of None \<Rightarrow> v | Some w \<Rightarrow> upd w v)"

lemma fold_updates:
  assumes "distinct (map fst ws)"
  shows "fold (\<lambda>(k, w). sql_update k (upd w)) ws t = map (\<lambda>(k, v). (k, swept_row upd ws k v)) t"
  using assms
proof (induction ws arbitrary: t)
  case Nil
  then show ?case by (simp add: swept_row_def)
next
  case (Cons x ws)
  obtain k w where x: "x = (k, w)" by force
  then have "map_of ws k = None" using Cons.prems by (simp add: map_of_eq_None_iff)
  then show ?case
    using Cons x by (auto simp: sql_update_def swept_row_def comp_def split: option.splits)
qed

locale sweep =
  fixes step :: "'k \<times> 'v \<Rightarrow> 's \<Rightarrow> 'e + 's" and bad :: "'s \<Rightarrow> bool" and plan :: "'s \<Rightarrow> ('k \<times> 'w) list"
    and upd :: "'w \<Rightarrow> 'v \<Rightarrow> 'v" and kept :: "'v \<Rightarrow> 'v \<Rightarrow> bool"
  assumes step: "step (k, v) st = Inr st' \<Longrightarrow> \<not> bad st' \<Longrightarrow>
      \<not> bad st \<and> (plan st' = plan st \<and> kept v v \<or> (\<exists>w. plan st' = plan st @ [(k, w)] \<and> kept v (upd w v)))"
begin

lemma swept:
  assumes "attempt_fold step rows st = Inr st'" "\<not> bad st'" "distinct (map fst rows)"
  shows "\<not> bad st \<and> (\<exists>ws. plan st' = plan st @ ws \<and> distinct (map fst ws) \<and> fst ` set ws \<subseteq> fst ` set rows \<and>
    (\<forall>(k, v) \<in> set rows. kept v (swept_row upd ws k v)))"
  using assms
proof (induction rows arbitrary: st)
  case Nil
  then show ?case by simp
next
  case (Cons x rows)
  obtain k v where x: "x = (k, v)" by force
  obtain st1 where s: "step (k, v) st = Inr st1" "attempt_fold step rows st1 = Inr st'"
    using Cons.prems x by (auto simp: attempt_Inr)
  obtain ws where ws: "\<not> bad st1" "plan st' = plan st1 @ ws" "distinct (map fst ws)" "fst ` set ws \<subseteq> fst ` set rows"
      "\<forall>(k, v) \<in> set rows. kept v (swept_row upd ws k v)"
    using Cons.IH [OF s(2) Cons.prems(2)] Cons.prems(3) by auto
  have k: "k \<notin> fst ` set rows" "k \<notin> fst ` set ws" using Cons.prems(3) ws(4) x by auto
  then have none: "map_of ws k = None" by (metis map_of_eq_None_iff)
  from step [OF s(1) ws(1)] consider (left) "\<not> bad st" "plan st1 = plan st" "kept v v"
    | (wrote) w where "\<not> bad st" "plan st1 = plan st @ [(k, w)]" "kept v (upd w v)" by blast
  then show ?case
  proof cases
    case left
    then have "\<forall>(k', v') \<in> set (x # rows). kept v' (swept_row upd ws k' v')"
      using ws(5) none x by (simp add: swept_row_def)
    with left ws show ?thesis by auto
  next
    case (wrote w)
    have "kept v' (swept_row upd ((k, w) # ws) k' v')" if "(k', v') \<in> set (x # rows)" for k' v'
    proof (cases "k' = k")
      case True
      then have "v' = v" using that k(1) x by force
      with True wrote show ?thesis by (simp add: swept_row_def)
    next
      case False
      then show ?thesis using that ws(5) x by (auto simp: swept_row_def)
    qed
    moreover have "plan st' = plan st @ ((k, w) # ws)" "distinct (map fst ((k, w) # ws))" "fst ` set ((k, w) # ws) \<subseteq> fst ` set (x # rows)"
      using wrote ws k x by auto
    ultimately show ?thesis using wrote(1) by blast
  qed
qed

end

section \<open>Reports\<close>

lemma record_age_counts [simp]:
  "rp_ValuesUnreadable (record_age age t c k i rep) = rp_ValuesUnreadable rep + (if age = keyAgeUnknown then 1 else 0)"
  "rp_ValuesOnPrevious (record_age age t c k i rep) = rp_ValuesOnPrevious rep + (if age = keyAgePrevious then 1 else 0)"
  "rp_ValuesStale (record_age age t c k i rep) = rp_ValuesStale rep + (if age = keyAgeStale then 1 else 0)"
  by (cases age; simp add: record_age_def scanned_def on_surface_def blocked_def Let_def)+

lemma recordUnreadable_count [simp]: "rp_ValuesUnreadable (recordUnreadable t c k i msg rep) = Suc (rp_ValuesUnreadable rep)"
  by (simp add: recordUnreadable_def blocked_def scanned_def on_surface_def)

section \<open>Values after the previous key is gone\<close>

definition retired :: "vault_env \<Rightarrow> vault_keys" where
  "retired e = (ve_keys e)\<lparr>previous := None\<rparr>"

lemma retired_sel [simp]: "current (retired e) = current (ve_keys e)" "previous (retired e) = None"
  by (simp_all add: retired_def)

definition column_kept :: "vault_env \<Rightarrow> field \<Rightarrow> string \<Rightarrow> string \<Rightarrow> string \<Rightarrow> bool" where
  "column_kept e f p old new \<longleftrightarrow>
     decryptColumn (vcipher e) (ve_keys e) old f = Inr p \<and> decryptColumn (vcipher e) (retired e) new f = Inr p"

lemma unsealed_reads: "\<not> IsSealedColumn stored \<Longrightarrow> f \<noteq> None \<Longrightarrow> decryptColumn E ks stored f = Inr stored"
  by (simp add: decryptColumn_def decryptColumnWithKeyAge_def OpenColumn_def IsZero_def)

lemma empty_unsealed [simp]: "\<not> IsSealedColumn []"
  by (simp add: IsSealedColumn_def ColumnPrefix_def has_prefix_def)

lemma sealed_reads: "encryptColumn E ks p bs = Some c \<Longrightarrow> current ks' = current ks \<Longrightarrow> f \<noteq> None \<Longrightarrow> decryptColumn E ks' c f = Inr p"
  using OpenColumn_SealColumn [of E "key_value (current ks)" p bs c f]
  by (simp add: encryptColumn_def decryptColumn_def decryptColumnWithKeyAge_def)

lemma classified_column:
  assumes "classifyVaultColumn e stored f = (p, age)" "f \<noteq> None" "age \<noteq> keyAgeUnknown"
  shows "decryptColumn (vcipher e) (ve_keys e) stored f = Inr p"
    and "age \<noteq> keyAgePrevious \<Longrightarrow> column_kept e f p stored stored"
    and "age = keyAgePrevious \<Longrightarrow> encryptColumn (vcipher e) (ve_keys e) p bs = Some new \<Longrightarrow> column_kept e f p stored new"
proof -
  show reads: "decryptColumn (vcipher e) (ve_keys e) stored f = Inr p"
  proof (cases "IsSealedColumn stored")
    case True
    then show ?thesis using assms by (auto simp: classifyVaultColumn_def decryptColumn_def split: if_splits sum.splits)
  next
    case False
    then have "p = stored" using assms(1) by (auto simp: classifyVaultColumn_def split: if_splits)
    then show ?thesis using False assms(2) by (simp add: unsealed_reads)
  qed
  show "age \<noteq> keyAgePrevious \<Longrightarrow> column_kept e f p stored stored"
  proof (cases "IsSealedColumn stored")
    case True
    assume "age \<noteq> keyAgePrevious"
    with True assms have "OpenColumn (vcipher e) (key_value (current (ve_keys e))) stored f = Inr p"
      by (auto simp: classifyVaultColumn_def decryptColumnWithKeyAge_def split: if_splits sum.splits option.splits)
    then show ?thesis by (simp add: column_kept_def decryptColumn_def decryptColumnWithKeyAge_def)
  next
    case False
    then show ?thesis using reads assms(2) by (simp add: column_kept_def unsealed_reads)
  qed
  show "age = keyAgePrevious \<Longrightarrow> encryptColumn (vcipher e) (ve_keys e) p bs = Some new \<Longrightarrow> column_kept e f p stored new"
    using reads sealed_reads [of "vcipher e" "ve_keys e" p bs new "retired e" f] assms(2) by (simp add: column_kept_def)
qed

lemma scan_column_run:
  assumes "scan_column e rnd i (c, stored, f) (newCols, plains, needs, rep) = Inr st" "classifyVaultColumn e stored f = (p, age)"
  obtains new needs1 where "st = ((c, new) # newCols, (c, p) # plains, needs1, record_age age ''vault_entries'' c [] i rep)"
    "if age = keyAgePrevious then encryptColumn (vcipher e) (ve_keys e) p (rnd (c @ ''/'' @ i)) = Some new \<and> needs1 else new = stored \<and> needs1 = needs"
  using assms by (auto simp: scan_column_def Let_def attempt_rules split: if_splits)

lemma scan_columns:
  assumes "attempt_fold (scan_column e rnd i) cols (newCols, plains, needs, rep) = Inr (newCols', plains', needs', rep')"
    and "distinct (map fst cols)" "\<forall>(c, stored, f) \<in> set cols. f \<noteq> None" "rp_ValuesUnreadable rep' = 0"
  shows "rp_ValuesUnreadable rep = 0 \<and> (needs \<longrightarrow> needs') \<and>
    (\<forall>c. c \<notin> fst ` set cols \<longrightarrow> map_of newCols' c = map_of newCols c \<and> map_of plains' c = map_of plains c) \<and>
    (\<forall>(c, stored, f) \<in> set cols. \<exists>p new. map_of plains' c = Some p \<and> map_of newCols' c = Some new \<and>
       column_kept e f p stored new \<and> (\<not> needs' \<longrightarrow> new = stored))"
  using assms
proof (induction cols arbitrary: newCols plains needs rep)
  case Nil
  then show ?case by simp
next
  case (Cons x cols)
  obtain c stored f where x: "x = (c, stored, f)" by (cases x)
  obtain p age where cl: "classifyVaultColumn e stored f = (p, age)" by force
  obtain st where st: "scan_column e rnd i (c, stored, f) (newCols, plains, needs, rep) = Inr st"
      and rest0: "attempt_fold (scan_column e rnd i) cols st = Inr (newCols', plains', needs', rep')"
    using Cons.prems(1) x by (auto simp: attempt_Inr)
  from st cl obtain new needs1 where st_eq: "st = ((c, new) # newCols, (c, p) # plains, needs1, record_age age ''vault_entries'' c [] i rep)"
      and new: "if age = keyAgePrevious then encryptColumn (vcipher e) (ve_keys e) p (rnd (c @ ''/'' @ i)) = Some new \<and> needs1 else new = stored \<and> needs1 = needs"
    by (rule scan_column_run)
  note rest = rest0 [unfolded st_eq]
  have ih: "rp_ValuesUnreadable (record_age age ''vault_entries'' c [] i rep) = 0" "needs1 \<longrightarrow> needs'"
      "\<forall>d. d \<notin> fst ` set cols \<longrightarrow> map_of newCols' d = map_of ((c, new) # newCols) d \<and> map_of plains' d = map_of ((c, p) # plains) d"
      "\<forall>(c, stored, f) \<in> set cols. \<exists>p new. map_of plains' c = Some p \<and> map_of newCols' c = Some new \<and> column_kept e f p stored new \<and> (\<not> needs' \<longrightarrow> new = stored)"
    using Cons.IH [OF rest] Cons.prems(2-4) by auto
  have age: "age \<noteq> keyAgeUnknown" "rp_ValuesUnreadable rep = 0" using ih(1) by (auto split: if_splits)
  have "f \<noteq> None" using Cons.prems(3) x by auto
  then have "column_kept e f p stored new \<and> (\<not> needs' \<longrightarrow> new = stored)"
    using classified_column [OF cl] age new ih(2) by (auto split: if_splits)
  moreover have "c \<notin> fst ` set cols" using Cons.prems(2) x by auto
  ultimately have here: "\<exists>p new. map_of plains' c = Some p \<and> map_of newCols' c = Some new \<and> column_kept e f p stored new \<and> (\<not> needs' \<longrightarrow> new = stored)"
    using ih(3) by auto
  have "needs \<longrightarrow> needs'" using ih(2) new by (auto split: if_splits)
  then show ?case using age(2) ih(3,4) here x by auto
qed

section \<open>Entries\<close>

definition version_of :: "int option \<Rightarrow> int" where
  "version_of v = (case v of None \<Rightarrow> 2 | Some x \<Rightarrow> x)"

definition value_of :: "vault_env \<Rightarrow> vault_keys \<Rightarrow> Secret_Exit.authority \<Rightarrow> Origin \<Rightarrow> entry_row \<Rightarrow> open_error + Plaintext" where
  "value_of e ks a orig r = OpenEntrySecret (vcipher e) ks a (encrypted_value r) (entry_nonce r) (version_of (encryption_version r)) orig"

abbreviation value_key :: "int \<Rightarrow> vaultKeyMaterial \<Rightarrow> bytes" where
  "value_key v m \<equiv> (if v = 1 then key_legacy m else key_value m)"

lemma opened_current:
  "Open E (value_key v (current ks)) ct nonce entryValue = Inr b \<Longrightarrow>
   OpenEntrySecret E ks a ct nonce v orig = Inr \<lparr>pt_bytes = b, pt_origin = orig, pt_authority = Some a\<rparr>"
  by (simp add: OpenEntrySecret_def openEntrySecretWithKeyAge_def exit_Open_def Let_def)

lemma opened_previous:
  "Open E (value_key v (current ks)) ct nonce entryValue = Inl err \<Longrightarrow> previous ks = Some m \<Longrightarrow> Open E (value_key v m) ct nonce entryValue = Inr b \<Longrightarrow>
   OpenEntrySecret E ks a ct nonce v orig = Inr \<lparr>pt_bytes = b, pt_origin = orig, pt_authority = Some a\<rparr>"
  by (simp add: OpenEntrySecret_def openEntrySecretWithKeyAge_def exit_Open_def Let_def)

lemma Open_empty: "ct = [] \<or> nonce = [] \<Longrightarrow> \<exists>err. \<forall>key. Open E key ct nonce f = Inl err"
  by (cases "IsZero f"; cases "length nonce = 12") (auto simp: Open_def open_result_def gcm_open_def NonceSize_def)

lemma opened_empty:
  assumes "ct = [] \<or> nonce = []"
  shows "OpenEntrySecret E ks a ct nonce v orig = OpenEntrySecret E (ks\<lparr>previous := None\<rparr>) a ct nonce v orig"
proof -
  obtain err where "\<forall>key. Open E key ct nonce entryValue = Inl err" using Open_empty [OF assms] by blast
  then show ?thesis by (auto simp: OpenEntrySecret_def openEntrySecretWithKeyAge_def exit_Open_def Let_def split: option.split)
qed

lemma classified_value:
  assumes "classifyEntryValue e a ct nonce v orig = (pt, age)" "age \<noteq> keyAgeUnknown"
  obtains (empty) "ct = [] \<or> nonce = []" "pt = None" "age = keyAgeEmpty"
    | (now) b where "age = keyAgeCurrent" "pt = Some \<lparr>pt_bytes = b, pt_origin = orig, pt_authority = Some a\<rparr>"
        "Open (vcipher e) (value_key v (current (ve_keys e))) ct nonce entryValue = Inr b"
    | (before) b err m where "age = keyAgePrevious" "pt = Some \<lparr>pt_bytes = b, pt_origin = orig, pt_authority = Some a\<rparr>"
        "Open (vcipher e) (value_key v (current (ve_keys e))) ct nonce entryValue = Inl err" "previous (ve_keys e) = Some m"
        "Open (vcipher e) (value_key v m) ct nonce entryValue = Inr b"
  using assms
  by (auto simp: classifyEntryValue_def openEntrySecretWithKeyAge_def exit_Open_def Let_def split: if_splits sum.splits option.splits)

lemma resealed_value:
  assumes "encryptEntrySecret e \<lparr>pt_bytes = b, pt_origin = orig, pt_authority = au\<rparr> bs = Some (ct, nonce)"
  shows "OpenEntrySecret (vcipher e) (retired e) a ct nonce 2 orig' = Inr \<lparr>pt_bytes = b, pt_origin = orig', pt_authority = Some a\<rparr>"
proof (rule opened_current)
  show "Open (vcipher e) (value_key 2 (current (retired e))) ct nonce entryValue = Inr b"
    using assms Open_Seal [of "vcipher e" "key_value (current (ve_keys e))" b bs ct nonce entryValue]
    by (simp add: encryptEntrySecret_def Reseal_def exit_Seal_def entryValue_def)
qed

lemma plan_value_kept:
  assumes "plan_value e a rnd i r rep = Inr ((ct, nonce, v), needs, rep')" "rp_ValuesUnreadable rep' = 0"
  shows "rp_ValuesUnreadable rep = 0 \<and> (\<not> needs \<longrightarrow> (ct, nonce, v) = (encrypted_value r, entry_nonce r, encryption_version r)) \<and>
    (\<forall>a orig. OpenEntrySecret (vcipher e) (retired e) a ct nonce (version_of v) orig = value_of e (ve_keys e) a orig r)"
proof -
  let ?v = "version_of (encryption_version r)"
  obtain pt age where cl: "classifyEntryValue e a (encrypted_value r) (entry_nonce r) ?v (entryOrigin i []) = (pt, age)" by force
  have rep': "rep' = record_age age ''vault_entries'' ''encrypted_value'' [] i rep"
    using assms(1) cl by (auto simp: plan_value_def version_of_def [symmetric] Let_def attempt_rules split: option.splits if_splits)
  then have age: "age \<noteq> keyAgeUnknown" "rp_ValuesUnreadable rep = 0" using assms(2) by (auto split: if_splits)
  note run = assms(1) [unfolded plan_value_def version_of_def [symmetric] Let_def cl, simplified]
  from cl age(1) show ?thesis
  proof (cases rule: classified_value)
    case empty
    then show ?thesis using run age(2) opened_empty [OF empty(1), where ks = "ve_keys e"] by (simp add: value_of_def retired_def)
  next
    case (now b)
    note old = opened_current [OF now(3), of _ _]
    show ?thesis
    proof (cases "?v = 1")
      case True
      then obtain bs where "encryptEntrySecret e \<lparr>pt_bytes = b, pt_origin = entryOrigin i [], pt_authority = Some a\<rparr> bs = Some (ct, nonce)" "v = Some 2" needs
        using run now by (auto simp: attempt_rules)
      then show ?thesis using age(2) resealed_value old by (simp add: value_of_def version_of_def)
    next
      case False
      then have "(ct, nonce, v) = (encrypted_value r, entry_nonce r, encryption_version r)" using run now by simp
      moreover have "Open (vcipher e) (value_key ?v (current (retired e))) (encrypted_value r) (entry_nonce r) entryValue = Inr b" using now(3) by (simp only: retired_sel)
      ultimately show ?thesis using age(2) old opened_current [of "vcipher e" ?v "retired e"] by (simp add: value_of_def)
    qed
  next
    case (before b err m)
    then obtain bs where "encryptEntrySecret e \<lparr>pt_bytes = b, pt_origin = entryOrigin i [], pt_authority = Some a\<rparr> bs = Some (ct, nonce)" "v = Some 2" needs
      using run by (auto simp: attempt_rules)
    then show ?thesis using age(2) resealed_value opened_previous [OF before(3-5)] by (simp add: value_of_def version_of_def)
  qed
qed


text \<open>The columns that the re-encryption statement assigns, taken from another row.\<close>

definition take_keyed :: "entry_row \<Rightarrow> entry_row \<Rightarrow> entry_row" where
  "take_keyed p r =
     r\<lparr>encrypted_value := encrypted_value p, entry_nonce := entry_nonce p, encryption_version := encryption_version p,
       entry_name := entry_name p, url := url p, alias_url := alias_url p, username := username p, category := category p,
       entry_notes := entry_notes p, provider_meta := provider_meta p, rotation_targets := rotation_targets p,
       custom_fields := custom_fields p, url_bidx := url_bidx p, alias_url_bidx := alias_url_bidx p, name_bidx := name_bidx p\<rparr>"

text \<open>
  A row reads as before: with the previous key gone, its value and every sealed column open to what they opened to, the
  lookup tokens of its URLs are those of the current key, and no other column changed.
\<close>

definition row_kept :: "vault_env \<Rightarrow> entry_row \<Rightarrow> entry_row \<Rightarrow> bool" where
  "row_kept e r r' \<longleftrightarrow>
     r' = take_keyed r' r \<and>
     (\<forall>a orig. value_of e (retired e) a orig r' = value_of e (ve_keys e) a orig r) \<and>
     (\<exists>p. column_kept e vaultFieldName p (entry_name r) (entry_name r')) \<and>
     (\<exists>p. column_kept e vaultFieldURL p (null_text (url r)) (null_text (url r')) \<and>
        url_bidx r' = urlBlindIndex (ve_mac e) (ve_url e) (ve_keys e) (row_scope r) p) \<and>
     (\<exists>p. column_kept e vaultFieldAliasURL p (null_text (alias_url r)) (null_text (alias_url r')) \<and>
        alias_url_bidx r' = urlBlindIndex (ve_mac e) (ve_url e) (ve_keys e) (row_scope r) p) \<and>
     (\<exists>p. column_kept e vaultFieldUsername p (null_text (username r)) (null_text (username r'))) \<and>
     (\<exists>p. column_kept e vaultFieldCategory p (null_text (category r)) (null_text (category r'))) \<and>
     (\<exists>p. column_kept e vaultFieldNotes p (null_text (entry_notes r)) (null_text (entry_notes r'))) \<and>
     (\<exists>p. column_kept e vaultFieldProviderMeta p (null_text (provider_meta r)) (null_text (provider_meta r'))) \<and>
     (\<exists>p. column_kept e vaultFieldRotationTargets p (null_text (rotation_targets r)) (null_text (rotation_targets r'))) \<and>
     (\<exists>p. column_kept e vaultFieldCustomFields p (custom_fields r) (custom_fields r'))"

lemma row_kept_name: "row_kept e r p \<Longrightarrow> row_kept e r (take_keyed (p\<lparr>name_bidx := nb\<rparr>) r)"
  by (simp add: row_kept_def take_keyed_def value_of_def)

lemma null_text_toNullString [simp]: "null_text (toNullString t) = t"
  by (simp add: null_text_def toNullString_def)

lemma metaCols_declared: "distinct (map fst (metaCols r))" "\<forall>(c, stored, f) \<in> set (metaCols r). f \<noteq> None"
  by (simp_all add: metaCols_def rekey_fields)

definition cols_kept :: "vault_env \<Rightarrow> entry_row \<Rightarrow> (string \<times> string) list \<Rightarrow> (string \<times> string) list \<Rightarrow> bool \<Rightarrow> bool" where
  "cols_kept e r newCols plains needs \<longleftrightarrow>
     (\<forall>(c, stored, f) \<in> set (metaCols r). column_kept e f (lookup_text plains c) stored (lookup_text newCols c) \<and>
        (\<not> needs \<longrightarrow> lookup_text newCols c = stored))"

lemma scan_row_columns:
  assumes "attempt_fold (scan_column e rnd i) (metaCols r) ([], [], needs, rep) = Inr (newCols, plains, needs', rep')" "rp_ValuesUnreadable rep' = 0"
  shows "rp_ValuesUnreadable rep = 0" "needs \<longrightarrow> needs'" "cols_kept e r newCols plains needs'"
proof -
  note s = scan_columns [OF assms(1) metaCols_declared assms(2)]
  show "rp_ValuesUnreadable rep = 0" "needs \<longrightarrow> needs'" using s by auto
  have all: "\<forall>(c, stored, f) \<in> set (metaCols r). \<exists>p new. map_of plains c = Some p \<and> map_of newCols c = Some new \<and>
       column_kept e f p stored new \<and> (\<not> needs' \<longrightarrow> new = stored)" using s by auto
  show "cols_kept e r newCols plains needs'"
    unfolding cols_kept_def
  proof (clarify)
    fix c stored and f :: field
    assume "(c, stored, f) \<in> set (metaCols r)"
    with all obtain p new where "map_of plains c = Some p" "map_of newCols c = Some new" "column_kept e f p stored new" "\<not> needs' \<longrightarrow> new = stored"
      by blast
    then show "column_kept e f (lookup_text plains c) stored (lookup_text newCols c) \<and> (\<not> needs' \<longrightarrow> lookup_text newCols c = stored)"
      by (simp add: lookup_text_def null_text_def)
  qed
qed

lemma cols_kept_elims:
  assumes "cols_kept e r newCols plains needs"
  shows "column_kept e vaultFieldName (lookup_text plains ''name'') (entry_name r) (lookup_text newCols ''name'')"
    "column_kept e vaultFieldURL (lookup_text plains ''url'') (null_text (url r)) (lookup_text newCols ''url'')"
    "column_kept e vaultFieldAliasURL (lookup_text plains ''alias_url'') (null_text (alias_url r)) (lookup_text newCols ''alias_url'')"
    "column_kept e vaultFieldUsername (lookup_text plains ''username'') (null_text (username r)) (lookup_text newCols ''username'')"
    "column_kept e vaultFieldCategory (lookup_text plains ''category'') (null_text (category r)) (lookup_text newCols ''category'')"
    "column_kept e vaultFieldNotes (lookup_text plains ''notes'') (null_text (entry_notes r)) (lookup_text newCols ''notes'')"
    "column_kept e vaultFieldProviderMeta (lookup_text plains ''provider_meta'') (null_text (provider_meta r)) (lookup_text newCols ''provider_meta'')"
    "column_kept e vaultFieldRotationTargets (lookup_text plains ''rotation_targets'') (null_text (rotation_targets r)) (lookup_text newCols ''rotation_targets'')"
    "column_kept e vaultFieldCustomFields (lookup_text plains ''custom_fields'') (custom_fields r) (lookup_text newCols ''custom_fields'')"
  using assms unfolding cols_kept_def metaCols_def by simp_all

lemma rekeyed_row_kept:
  assumes "cols_kept e r newCols plains needs" "\<forall>a orig. OpenEntrySecret (vcipher e) (retired e) a ct nonce (version_of v) orig = value_of e (ve_keys e) a orig r"
  shows "row_kept e r (rekeyed_row r (ct, nonce, v) newCols (urlBlindIndex (ve_mac e) (ve_url e) (ve_keys e) (row_scope r) (lookup_text plains ''url''))
    (urlBlindIndex (ve_mac e) (ve_url e) (ve_keys e) (row_scope r) (lookup_text plains ''alias_url'')) nb)"
proof -
  note k = cols_kept_elims [OF assms(1)]
  show ?thesis unfolding row_kept_def
    by (intro conjI) (insert k assms(2), auto simp: rekeyed_row_def take_keyed_def value_of_def)
qed

lemma untouched_row_kept:
  assumes "cols_kept e r newCols plains False" "\<forall>a orig. OpenEntrySecret (vcipher e) (retired e) a (encrypted_value r) (entry_nonce r) (version_of (encryption_version r)) orig = value_of e (ve_keys e) a orig r"
    and "url_bidx r = urlBlindIndex (ve_mac e) (ve_url e) (ve_keys e) (row_scope r) (lookup_text plains ''url'')"
    and "alias_url_bidx r = urlBlindIndex (ve_mac e) (ve_url e) (ve_keys e) (row_scope r) (lookup_text plains ''alias_url'')"
  shows "row_kept e r r"
proof -
  have "\<forall>(c, stored, f) \<in> set (metaCols r). lookup_text newCols c = stored" using assms(1) by (auto simp: cols_kept_def)
  then have same: "lookup_text newCols ''name'' = entry_name r" "lookup_text newCols ''url'' = null_text (url r)"
    "lookup_text newCols ''alias_url'' = null_text (alias_url r)" "lookup_text newCols ''username'' = null_text (username r)"
    "lookup_text newCols ''category'' = null_text (category r)" "lookup_text newCols ''notes'' = null_text (entry_notes r)"
    "lookup_text newCols ''provider_meta'' = null_text (provider_meta r)" "lookup_text newCols ''rotation_targets'' = null_text (rotation_targets r)"
    "lookup_text newCols ''custom_fields'' = custom_fields r"
    by (simp_all add: metaCols_def)
  note k = cols_kept_elims [OF assms(1), unfolded same]
  show ?thesis unfolding row_kept_def
    by (intro conjI) (insert k assms(2-4), auto simp: take_keyed_def value_of_def)
qed

lemma index_age_settled: "index_age ks stored want index \<noteq> keyAgePrevious \<Longrightarrow> index_age ks stored want index \<noteq> keyAgeStale \<Longrightarrow> stored = want"
  by (auto simp: index_age_def split: if_splits)


lemma planned_cases:
  assumes "(if \<not> b then Inr (x, y, ws) else attempt (relabel g m) (\<lambda>t. Inr (x, y, ws @ [f t]))) = Inr (x', y', ws')"
  shows "x' = x" "y' = y" "if b then \<exists>t. ws' = ws @ [f t] else ws' = ws"
  using assms by (cases b; cases m; simp add: relabel_def; blast)+

lemma plan_write_run:
  assumes "plan_write e i r val newCols plains needsCols rep2 claimed ws = Inr (rep', claimed', ws')"
  obtains nage want needsName uage aage where
    "plan_name_index e i r (lookup_text plains ''name'') claimed = (nage, want, claimed', needsName)"
    "uage = classifyBlindIndex e (url_bidx r) (urlBlindIndex (ve_mac e) (ve_url e) (ve_keys e) (row_scope r) (lookup_text plains ''url'')) (row_scope r) (lookup_text plains ''url'')"
    "aage = classifyBlindIndex e (alias_url_bidx r) (urlBlindIndex (ve_mac e) (ve_url e) (ve_keys e) (row_scope r) (lookup_text plains ''alias_url'')) (row_scope r) (lookup_text plains ''alias_url'')"
    "rep' = record_age nage ''vault_entries'' ''name_bidx'' [] i (record_age aage ''vault_entries'' ''alias_url_bidx'' [] i (record_age uage ''vault_entries'' ''url_bidx'' [] i rep2))"
    "if needsCols \<or> uage = keyAgePrevious \<or> uage = keyAgeStale \<or> aage = keyAgePrevious \<or> aage = keyAgeStale \<or> needsName
     then \<exists>tk. ws' = ws @ [\<lparr>rw_id = i, rw_params = rekeyed_row r val newCols
         (urlBlindIndex (ve_mac e) (ve_url e) (ve_keys e) (row_scope r) (lookup_text plains ''url''))
         (urlBlindIndex (ve_mac e) (ve_url e) (ve_keys e) (row_scope r) (lookup_text plains ''alias_url'')) want,
         rw_ticket = tk, rw_nameScope = row_scope r, rw_storedNameBidx = name_bidx r\<rparr>]
     else ws' = ws"
proof -
  obtain nage want cl needsName where n: "plan_name_index e i r (lookup_text plains ''name'') claimed = (nage, want, cl, needsName)"
    by (cases "plan_name_index e i r (lookup_text plains ''name'') claimed")
  define ui where "ui = urlBlindIndex (ve_mac e) (ve_url e) (ve_keys e) (row_scope r) (lookup_text plains ''url'')"
  define ai where "ai = urlBlindIndex (ve_mac e) (ve_url e) (ve_keys e) (row_scope r) (lookup_text plains ''alias_url'')"
  define ua where "ua = classifyBlindIndex e (url_bidx r) ui (row_scope r) (lookup_text plains ''url'')"
  define aa where "aa = classifyBlindIndex e (alias_url_bidx r) ai (row_scope r) (lookup_text plains ''alias_url'')"
  define reach where "reach = providerDestinations e (null_text (provider r)) (ParseProviderMeta (ve_json e) (lookup_text plains ''provider_meta'')) @
    deliveryDestinations (ParseRotationTargets e (lookup_text plains ''rotation_targets''))"
  define tk where "tk = Decide \<lparr>EntryID = i, What = FieldRekey, Before = reach, After = reach, Covers = Some providerDestinationCovers, MayRedirect = None\<rparr>"
  note defs = ui_def [symmetric] ai_def [symmetric] ua_def [symmetric] aa_def [symmetric] reach_def [symmetric] tk_def [symmetric]
  define needs where "needs = (needsCols \<or> ua = keyAgePrevious \<or> ua = keyAgeStale \<or> aa = keyAgePrevious \<or> aa = keyAgeStale \<or> needsName)"
  have run: "(if \<not> needs then Inr (record_age nage ''vault_entries'' ''name_bidx'' [] i (record_age aa ''vault_entries'' ''alias_url_bidx'' [] i (record_age ua ''vault_entries'' ''url_bidx'' [] i rep2)), cl, ws)
      else attempt (relabel (\<lambda>_. RekeyFailed (''egress decision for the re-encryption of '' @ i)) tk) (\<lambda>tk.
        Inr (record_age nage ''vault_entries'' ''name_bidx'' [] i (record_age aa ''vault_entries'' ''alias_url_bidx'' [] i (record_age ua ''vault_entries'' ''url_bidx'' [] i rep2)), cl,
          ws @ [\<lparr>rw_id = i, rw_params = rekeyed_row r val newCols ui ai want, rw_ticket = tk, rw_nameScope = row_scope r, rw_storedNameBidx = name_bidx r\<rparr>])))
     = Inr (rep', claimed', ws')"
    using assms unfolding plan_write_def Let_def defs n prod.case needs_def .
  have "rep' = record_age nage ''vault_entries'' ''name_bidx'' [] i (record_age aa ''vault_entries'' ''alias_url_bidx'' [] i (record_age ua ''vault_entries'' ''url_bidx'' [] i rep2))"
      "claimed' = cl"
      "if needs then \<exists>tk. ws' = ws @ [\<lparr>rw_id = i, rw_params = rekeyed_row r val newCols ui ai want, rw_ticket = tk, rw_nameScope = row_scope r, rw_storedNameBidx = name_bidx r\<rparr>] else ws' = ws"
    by (rule planned_cases [OF run])+
  then show thesis
    using that [OF n [folded \<open>claimed' = cl\<close>] ua_def [unfolded ui_def] aa_def [unfolded ai_def]] unfolding ui_def ai_def needs_def by blast
qed

lemma scan_entry_run:
  assumes "scan_entry e a rnd (i, r) (rep, claimed, ws) = Inr (rep', claimed', ws')"
  obtains ct nonce v needsValue rep1 newCols plains needsCols rep2 nage want needsName uage aage where
    "plan_value e a rnd i r rep = Inr ((ct, nonce, v), needsValue, rep1)"
    "attempt_fold (scan_column e rnd i) (metaCols r) ([], [], needsValue, rep1) = Inr (newCols, plains, needsCols, rep2)"
    "plan_name_index e i r (lookup_text plains ''name'') claimed = (nage, want, claimed', needsName)"
    "uage = classifyBlindIndex e (url_bidx r) (urlBlindIndex (ve_mac e) (ve_url e) (ve_keys e) (row_scope r) (lookup_text plains ''url'')) (row_scope r) (lookup_text plains ''url'')"
    "aage = classifyBlindIndex e (alias_url_bidx r) (urlBlindIndex (ve_mac e) (ve_url e) (ve_keys e) (row_scope r) (lookup_text plains ''alias_url'')) (row_scope r) (lookup_text plains ''alias_url'')"
    "rep' = record_age nage ''vault_entries'' ''name_bidx'' [] i (record_age aage ''vault_entries'' ''alias_url_bidx'' [] i (record_age uage ''vault_entries'' ''url_bidx'' [] i rep2))"
    "if needsCols \<or> uage = keyAgePrevious \<or> uage = keyAgeStale \<or> aage = keyAgePrevious \<or> aage = keyAgeStale \<or> needsName
     then \<exists>tk. ws' = ws @ [\<lparr>rw_id = i, rw_params = rekeyed_row r (ct, nonce, v) newCols
         (urlBlindIndex (ve_mac e) (ve_url e) (ve_keys e) (row_scope r) (lookup_text plains ''url''))
         (urlBlindIndex (ve_mac e) (ve_url e) (ve_keys e) (row_scope r) (lookup_text plains ''alias_url'')) want,
         rw_ticket = tk, rw_nameScope = row_scope r, rw_storedNameBidx = name_bidx r\<rparr>]
     else ws' = ws"
proof -
  have "plan_value e a rnd i r rep \<noteq> Inl err" for err using assms by (auto simp: scan_entry_def)
  then obtain val needsValue rep1 where v: "plan_value e a rnd i r rep = Inr (val, needsValue, rep1)" by (metis surj_pair sum.exhaust)
  obtain ct nonce v where val: "val = (ct, nonce, v)" by (cases val)
  have "attempt_fold (scan_column e rnd i) (metaCols r) ([], [], needsValue, rep1) \<noteq> Inl err" for err using assms v by (auto simp: scan_entry_def)
  then obtain newCols plains needsCols rep2 where c: "attempt_fold (scan_column e rnd i) (metaCols r) ([], [], needsValue, rep1) = Inr (newCols, plains, needsCols, rep2)"
    by (metis surj_pair sum.exhaust)
  have "plan_write e i r (ct, nonce, v) newCols plains needsCols rep2 claimed ws = Inr (rep', claimed', ws')"
    using assms by (simp add: scan_entry_def v c val)
  then show thesis by (rule plan_write_run) (rule that [OF v [unfolded val] c])
qed

lemma scan_entry_kept:
  assumes "scan_entry e a rnd (i, r) (rep, claimed, ws) = Inr (rep', claimed', ws')" "rp_ValuesUnreadable rep' = 0"
  shows "rp_ValuesUnreadable rep = 0 \<and> (ws' = ws \<and> row_kept e r r \<or> (\<exists>w. ws' = ws @ [w] \<and> rw_id w = i \<and> row_kept e r (rw_params w)))"
  using assms(1)
proof (rule scan_entry_run)
  fix ct nonce v needsValue rep1 newCols plains needsCols rep2 nage want needsName uage aage
  let ?ui = "urlBlindIndex (ve_mac e) (ve_url e) (ve_keys e) (row_scope r) (lookup_text plains ''url'')"
  let ?ai = "urlBlindIndex (ve_mac e) (ve_url e) (ve_keys e) (row_scope r) (lookup_text plains ''alias_url'')"
  assume v: "plan_value e a rnd i r rep = Inr ((ct, nonce, v), needsValue, rep1)"
    and c: "attempt_fold (scan_column e rnd i) (metaCols r) ([], [], needsValue, rep1) = Inr (newCols, plains, needsCols, rep2)"
    and ua: "uage = classifyBlindIndex e (url_bidx r) ?ui (row_scope r) (lookup_text plains ''url'')"
    and aa: "aage = classifyBlindIndex e (alias_url_bidx r) ?ai (row_scope r) (lookup_text plains ''alias_url'')"
    and rep': "rep' = record_age nage ''vault_entries'' ''name_bidx'' [] i (record_age aage ''vault_entries'' ''alias_url_bidx'' [] i (record_age uage ''vault_entries'' ''url_bidx'' [] i rep2))"
    and w: "if needsCols \<or> uage = keyAgePrevious \<or> uage = keyAgeStale \<or> aage = keyAgePrevious \<or> aage = keyAgeStale \<or> needsName
     then \<exists>tk. ws' = ws @ [\<lparr>rw_id = i, rw_params = rekeyed_row r (ct, nonce, v) newCols ?ui ?ai want,
         rw_ticket = tk, rw_nameScope = row_scope r, rw_storedNameBidx = name_bidx r\<rparr>] else ws' = ws"
  have "rp_ValuesUnreadable rep2 = 0" using assms(2) rep' by simp
  note cols = scan_row_columns [OF c this]
  note val = plan_value_kept [OF v cols(1)]
  show ?thesis
  proof (cases "needsCols \<or> uage = keyAgePrevious \<or> uage = keyAgeStale \<or> aage = keyAgePrevious \<or> aage = keyAgeStale \<or> needsName")
    case True
    then obtain tk where "ws' = ws @ [\<lparr>rw_id = i, rw_params = rekeyed_row r (ct, nonce, v) newCols ?ui ?ai want,
         rw_ticket = tk, rw_nameScope = row_scope r, rw_storedNameBidx = name_bidx r\<rparr>]" using w by auto
    moreover have "row_kept e r (rekeyed_row r (ct, nonce, v) newCols ?ui ?ai want)"
      using rekeyed_row_kept [OF cols(3)] val by blast
    ultimately show ?thesis using val by auto
  next
    case False
    then have "\<not> needsCols" "\<not> needsValue" "ws' = ws" using cols(2) w by auto
    moreover have "url_bidx r = ?ui" "alias_url_bidx r = ?ai"
      using False ua aa index_age_settled by (auto simp: classifyBlindIndex_def)
    moreover have "cols_kept e r newCols plains False" using cols(3) \<open>\<not> needsCols\<close> by simp
    ultimately have "row_kept e r r" using val by (intro untouched_row_kept) auto
    with \<open>ws' = ws\<close> val show ?thesis by blast
  qed
qed

interpretation entry_sweep: sweep "scan_entry e a rnd" "\<lambda>(rep, claimed, ws). rp_ValuesUnreadable rep \<noteq> 0"
    "\<lambda>(rep, claimed, ws). map (\<lambda>w. (rw_id w, w)) ws" "\<lambda>w. take_keyed (rw_params w)" "row_kept e" for e a rnd
proof
  fix i r and st st' :: scan_state
  assume run: "scan_entry e a rnd (i, r) st = Inr st'" and ok: "\<not> (case st' of (rep, claimed, ws) \<Rightarrow> rp_ValuesUnreadable rep \<noteq> 0)"
  obtain rep cl ws rep' cl' ws' where st: "st = (rep, cl, ws)" "st' = (rep', cl', ws')" by (metis prod_cases3)
  have "row_kept e r (take_keyed p r)" if "row_kept e r p" for p
    using row_kept_name [OF that, of "name_bidx p"] by simp
  then show "\<not> (case st of (rep, claimed, ws) \<Rightarrow> rp_ValuesUnreadable rep \<noteq> 0) \<and>
      ((case st' of (rep, claimed, ws) \<Rightarrow> map (\<lambda>w. (rw_id w, w)) ws) = (case st of (rep, claimed, ws) \<Rightarrow> map (\<lambda>w. (rw_id w, w)) ws) \<and> row_kept e r r \<or>
       (\<exists>w. (case st' of (rep, claimed, ws) \<Rightarrow> map (\<lambda>w. (rw_id w, w)) ws) = (case st of (rep, claimed, ws) \<Rightarrow> map (\<lambda>w. (rw_id w, w)) ws) @ [(i, w)] \<and> row_kept e r (take_keyed (rw_params w) r)))"
    using scan_entry_kept [OF run [unfolded st]] ok st by fastforce
qed


subsection \<open>Writing the entries\<close>

lemma RekeyEntry_writes: "constrained (RekeyEntry s tk i p) = Inr s' \<Longrightarrow> s' = s\<lparr>entries := sql_update i (take_keyed p) (entries s)\<rparr>"
  by (auto simp: RekeyEntry_def exec_def update_entry_def constrained_def take_keyed_def [abs_def] split: option.splits if_splits)

lemma apply_entry_writes:
  assumes "apply_entry w s = Inr s'"
  obtains nb where "s' = s\<lparr>entries := sql_update (rw_id w) (take_keyed ((rw_params w)\<lparr>name_bidx := nb\<rparr>)) (entries s)\<rparr>"
proof (cases "constrained (RekeyEntry s (rw_ticket w) (rw_id w) (rw_params w)) = Inl UniqueViolation \<and> name_bidx (rw_params w) \<noteq> rw_storedNameBidx w")
  case True
  then show thesis using assms that [of "rw_storedNameBidx w"] RekeyEntry_writes by (simp add: apply_entry_def relabel_Inr)
next
  case False
  then have "constrained (RekeyEntry s (rw_ticket w) (rw_id w) (rw_params w)) = Inr s'"
    using assms by (auto simp: apply_entry_def Let_def relabel_Inr split: if_splits)
  then show thesis using that [of "name_bidx (rw_params w)"] RekeyEntry_writes by simp
qed

lemma apply_entries:
  assumes "attempt_fold apply_entry ws s = Inr s'"
  obtains ps where "list_all2 (\<lambda>w (i, p). i = rw_id w \<and> (\<exists>nb. p = (rw_params w)\<lparr>name_bidx := nb\<rparr>)) ws ps"
    "s' = s\<lparr>entries := fold (\<lambda>(k, p). sql_update k (take_keyed p)) ps (entries s)\<rparr>"
proof -
  have "\<exists>ps. list_all2 (\<lambda>w (i, p). i = rw_id w \<and> (\<exists>nb. p = (rw_params w)\<lparr>name_bidx := nb\<rparr>)) ws ps \<and>
      s' = s\<lparr>entries := fold (\<lambda>(k, p). sql_update k (take_keyed p)) ps (entries s)\<rparr>"
    using assms
  proof (induction ws arbitrary: s)
    case Nil
    then show ?case by simp
  next
    case (Cons w ws)
    obtain s1 where s1: "apply_entry w s = Inr s1" "attempt_fold apply_entry ws s1 = Inr s'" using Cons.prems by (auto simp: attempt_Inr)
    obtain nb where nb: "s1 = s\<lparr>entries := sql_update (rw_id w) (take_keyed ((rw_params w)\<lparr>name_bidx := nb\<rparr>)) (entries s)\<rparr>"
      using s1(1) by (rule apply_entry_writes)
    obtain ps where ps: "list_all2 (\<lambda>w (i, p). i = rw_id w \<and> (\<exists>nb. p = (rw_params w)\<lparr>name_bidx := nb\<rparr>)) ws ps"
        "s' = s1\<lparr>entries := fold (\<lambda>(k, p). sql_update k (take_keyed p)) ps (entries s1)\<rparr>"
      using Cons.IH [OF s1(2)] by blast
    show ?case
      by (rule exI [of _ "(rw_id w, (rw_params w)\<lparr>name_bidx := nb\<rparr>) # ps"]) (use ps nb in auto)
  qed
  then show thesis using that by blast
qed

lemma named_writes:
  assumes "list_all2 (\<lambda>w (i, p). i = rw_id w \<and> (\<exists>nb. p = (rw_params w)\<lparr>name_bidx := nb\<rparr>)) ws ps"
  shows "map fst ps = map rw_id ws"
    and "case map_of ps i of
        None \<Rightarrow> map_of (map (\<lambda>w. (rw_id w, w)) ws) i = None
      | Some p \<Rightarrow> \<exists>w nb. map_of (map (\<lambda>w. (rw_id w, w)) ws) i = Some w \<and> p = (rw_params w)\<lparr>name_bidx := nb\<rparr>"
proof -
  show "map fst ps = map rw_id ws" using assms by (induction rule: list_all2_induct) auto
  show "case map_of ps i of
        None \<Rightarrow> map_of (map (\<lambda>w. (rw_id w, w)) ws) i = None
      | Some p \<Rightarrow> \<exists>w nb. map_of (map (\<lambda>w. (rw_id w, w)) ws) i = Some w \<and> p = (rw_params w)\<lparr>name_bidx := nb\<rparr>"
    using assms
  proof (induction rule: list_all2_induct)
    case (Cons w ws x ps)
    obtain nb where "x = (rw_id w, (rw_params w)\<lparr>name_bidx := nb\<rparr>)" using Cons.hyps(1) by auto
    then show ?case using Cons.IH by (cases "i = rw_id w") (auto split: option.splits)
  qed simp
qed

lemma take_keyed_again [simp]: "take_keyed ((take_keyed p r)\<lparr>name_bidx := nb\<rparr>) r = take_keyed (p\<lparr>name_bidx := nb\<rparr>) r"
  by (simp add: take_keyed_def)

lemma distinct_keys_sort: "distinct (map fst (sort_key f xs)) \<longleftrightarrow> distinct (map fst xs)"
  by (simp add: distinct_map)

definition table_kept :: "('v \<Rightarrow> 'v \<Rightarrow> bool) \<Rightarrow> ('k \<times> 'v) list \<Rightarrow> ('k \<times> 'v) list \<Rightarrow> bool" where
  "table_kept kept t t' \<longleftrightarrow> list_all2 (\<lambda>(k, v) (k', v'). k' = k \<and> kept v v') t t'"

lemma table_kept_map:
  "(\<And>k v. (k, v) \<in> set t \<Longrightarrow> kept v (f k v)) \<Longrightarrow> table_kept kept t (map (\<lambda>(k, v). (k, f k v)) t)"
  unfolding table_kept_def by (induction t) auto

lemma entries_swept:
  assumes "scanVaultEntries e rnd db rep = Inr (rep', ws)" "rp_ValuesUnreadable rep' = 0" "distinct (map fst (entries (istore db)))"
    and "attempt_fold apply_entry ws (istore db) = Inr s'"
  shows "rp_ValuesUnreadable rep = 0" "\<exists>es. s' = (istore db)\<lparr>entries := es\<rparr> \<and> table_kept (row_kept e) (entries (istore db)) es"
proof -
  let ?rows = "sort_key (\<lambda>(i, r). name_bidx r = []) (sort_key fst (entries (istore db)))"
  obtain claimed where fold: "attempt_fold (scan_entry e (AuthorizeSecretExit (lib_of e) (istore db)) rnd) ?rows
      (rep, claimedNameBidx (sort_key fst (entries (istore db))), []) = Inr (rep', claimed, ws)"
    using assms(1) by (auto simp: scanVaultEntries_def ListVaultEntriesForRekey_def attempt_rules split: if_splits)
  have "distinct (map fst ?rows)" using assms(3) by (simp add: distinct_keys_sort)
  note sw = entry_sweep.swept [OF fold _ this]
  show "rp_ValuesUnreadable rep = 0" using sw assms(2) by auto
  let ?ws = "map (\<lambda>w. (rw_id w, w)) ws"
  have d: "distinct (map fst ?ws)" and kept: "\<forall>(i, r) \<in> set (entries (istore db)). row_kept e r (swept_row (\<lambda>w. take_keyed (rw_params w)) ?ws i r)"
    using sw assms(2) by auto
  obtain ps where ps: "list_all2 (\<lambda>w (i, p). i = rw_id w \<and> (\<exists>nb. p = (rw_params w)\<lparr>name_bidx := nb\<rparr>)) ws ps"
      "s' = (istore db)\<lparr>entries := fold (\<lambda>(k, p). sql_update k (take_keyed p)) ps (entries (istore db))\<rparr>"
    using assms(4) by (rule apply_entries)
  have row: "row_kept e r (swept_row take_keyed ps i r)" if "(i, r) \<in> set (entries (istore db))" for i r
  proof (cases "map_of ps i")
    case None
    then show ?thesis using kept that named_writes(2) [OF ps(1), of i] by (auto simp: swept_row_def)
  next
    case (Some p)
    then obtain w nb where "map_of ?ws i = Some w" "p = (rw_params w)\<lparr>name_bidx := nb\<rparr>" using named_writes(2) [OF ps(1), of i] by auto
    then show ?thesis using kept that Some row_kept_name [of e r "take_keyed (rw_params w) r" nb] by (auto simp: swept_row_def)
  qed
  have "distinct (map fst ps)" using d named_writes(1) [OF ps(1)] by (simp add: comp_def)
  note eq = fold_updates [OF this, of take_keyed "entries (istore db)"]
  show "\<exists>es. s' = (istore db)\<lparr>entries := es\<rparr> \<and> table_kept (row_kept e) (entries (istore db)) es"
    using ps(2) table_kept_map [of "entries (istore db)" "row_kept e" "swept_row take_keyed ps"] row unfolding eq by blast
qed


section \<open>The other tables\<close>

text \<open>What the configuration ensures of the keys: each has a source, and the legacy key is derived from it.\<close>

definition keys_derived :: "vault_env \<Rightarrow> bool" where
  "keys_derived e \<longleftrightarrow>
     (let good = (\<lambda>m. key_source m \<noteq> [] \<and> key_legacy m = legacyKeyFor e (key_source m))
      in good (current (ve_keys e)) \<and> (case previous (ve_keys e) of None \<Rightarrow> True | Some m \<Rightarrow> good m))"

definition string_reads :: "vault_env \<Rightarrow> vault_keys \<Rightarrow> field \<Rightarrow> string \<Rightarrow> open_error + string" where
  "string_reads e ks f stored = DecryptStringAny (vcipher e) (derive_of (ve_signin e)) stored f (vaultKeyRing ks) None"

definition string_kept :: "vault_env \<Rightarrow> field \<Rightarrow> string \<Rightarrow> string \<Rightarrow> bool" where
  "string_kept e f old new \<longleftrightarrow> string_reads e (retired e) f new = string_reads e (ve_keys e) f old"

abbreviation open_string :: "vault_env \<Rightarrow> vaultKeyMaterial \<Rightarrow> field \<Rightarrow> string \<Rightarrow> open_error + string" where
  "open_string e m f stored \<equiv> DecryptString (vcipher e) (derive_of (ve_signin e)) stored (key_source m) f"

lemma string_reads_current:
  "key_source (current ks) \<noteq> [] \<Longrightarrow> open_string e (current ks) f stored = Inr p \<Longrightarrow> string_reads e ks f stored = Inr p"
  by (simp add: string_reads_def vaultKeyRing_def)

lemma string_reads_previous:
  "key_source (current ks) \<noteq> [] \<Longrightarrow> open_string e (current ks) f stored = Inl err \<Longrightarrow> previous ks = Some m \<Longrightarrow> key_source m \<noteq> [] \<Longrightarrow>
   open_string e m f stored = Inr p \<Longrightarrow> string_reads e ks f stored = Inr p"
  by (simp add: string_reads_def vaultKeyRing_def)

lemma string_reads_neither:
  "key_source (current ks) \<noteq> [] \<Longrightarrow> open_string e (current ks) f stored = Inl err \<Longrightarrow>
   (\<And>m. previous ks = Some m \<Longrightarrow> \<exists>x. open_string e m f stored = Inl x) \<Longrightarrow> string_reads e ks f stored = Inl err"
  by (force simp: string_reads_def vaultKeyRing_def split: option.split)

lemma decode_empty: "std64_decode (trim_prefix [] marker) = Some []"
  by code_simp

lemma open_string_empty: "\<exists>err. open_string e m f [] = Inl err"
  by (simp add: DecryptString_def decode_empty OpenPacked_def openPacked_def NonceSize_def)

lemma classified_string:
  assumes "classifyColumnCrypto e stored f = (p, age)" "age \<noteq> keyAgeUnknown" "f \<noteq> None" "keys_derived e"
  shows "age \<noteq> keyAgePrevious \<Longrightarrow> string_kept e f stored stored"
    and "age = keyAgePrevious \<Longrightarrow> reseal_string e p bs = Some new \<Longrightarrow> string_kept e f stored new"
proof -
  let ?ks = "ve_keys e"
  have src: "key_source (current ?ks) \<noteq> []" "\<And>m. previous ?ks = Some m \<Longrightarrow> key_source m \<noteq> []"
    using assms(4) by (auto simp: keys_derived_def Let_def)
  show "string_kept e f stored stored" if age: "age \<noteq> keyAgePrevious"
  proof (cases "open_string e (current ?ks) f stored")
    case (Inr q)
    then show ?thesis using src(1) by (simp add: string_kept_def string_reads_current)
  next
    case (Inl err)
    have prev: "\<exists>x. open_string e m f stored = Inl x" if "previous ?ks = Some m" for m
      using assms(1) age Inl that open_string_empty [of e m f] by (auto simp: classifyColumnCrypto_def split: if_splits sum.splits)
    show ?thesis using string_reads_neither [OF src(1) Inl prev] string_reads_neither [where ks = "retired e" and e = e and f = f and stored = stored and err = err] src(1) Inl
      by (simp add: string_kept_def)
  qed
  show "string_kept e f stored new" if before: "age = keyAgePrevious" and resealed: "reseal_string e p bs = Some new"
  proof -
    obtain m err where "previous ?ks = Some m" "open_string e (current ?ks) f stored = Inl err" "open_string e m f stored = Inr p"
      using assms(1) before by (auto simp: classifyColumnCrypto_def split: if_splits sum.splits option.splits)
    then have "string_reads e ?ks f stored = Inr p" using src by (simp add: string_reads_previous)
    moreover have "open_string e (current (retired e)) f new = Inr p"
      using DecryptString_EncryptString [OF resealed [unfolded reseal_string_def] assms(3)] by simp
    ultimately show ?thesis using src(1) by (simp add: string_kept_def string_reads_current)
  qed
qed

interpretation code_sweep: sweep "scan_invitation e rnd" "\<lambda>(rep, ws). rp_ValuesUnreadable rep \<noteq> 0" snd "\<lambda>w _. w"
    "\<lambda>old new. \<exists>p. column_kept e vaultFieldRekeyInvitationCode p old new" for e rnd
proof
  fix i code and st st' :: "RekeyReport \<times> (string \<times> string) list"
  assume run: "scan_invitation e rnd (i, code) st = Inr st'" and ok: "\<not> (case st' of (rep, ws) \<Rightarrow> rp_ValuesUnreadable rep \<noteq> 0)"
  obtain rep ws where st: "st = (rep, ws)" by force
  obtain p age where cl: "classifyVaultColumn e code vaultFieldRekeyInvitationCode = (p, age)" by force
  have f: "vaultFieldRekeyInvitationCode \<noteq> None" by (simp add: rekey_fields)
  have "fst st' = record_age age ''invitations'' ''code'' [] i rep"
    using run by (auto simp: scan_invitation_def st cl Let_def attempt_rules split: if_splits)
  then have age: "age \<noteq> keyAgeUnknown" "rp_ValuesUnreadable rep = 0" using ok by (auto split: prod.splits if_splits)
  show "\<not> (case st of (rep, ws) \<Rightarrow> rp_ValuesUnreadable rep \<noteq> 0) \<and>
      (snd st' = snd st \<and> (\<exists>p. column_kept e vaultFieldRekeyInvitationCode p code code) \<or>
       (\<exists>w. snd st' = snd st @ [(i, w)] \<and> (\<exists>p. column_kept e vaultFieldRekeyInvitationCode p code w)))"
  proof (cases "age = keyAgePrevious")
    case True
    then obtain w where "st' = (record_age age ''invitations'' ''code'' [] i rep, ws @ [(i, w)])"
        "encryptColumn (vcipher e) (ve_keys e) p (rnd (''code/'' @ i)) = Some w"
      using run by (auto simp: scan_invitation_def st cl Let_def attempt_rules)
    then show ?thesis using classified_column(3) [OF cl f age(1) True] age(2) st by auto
  next
    case False
    then show ?thesis using run classified_column(2) [OF cl f age(1) False] age(2) by (auto simp: scan_invitation_def st cl Let_def)
  qed
qed

interpretation seed_sweep: sweep "scan_totp e rnd" "\<lambda>(rep, ws). rp_ValuesUnreadable rep \<noteq> 0" snd "\<lambda>w _. w"
    "\<lambda>old new. keys_derived e \<longrightarrow> string_kept e vaultFieldTOTPSecret old new" for e rnd
proof
  fix u stored and st st' :: "RekeyReport \<times> (string \<times> string) list"
  assume run: "scan_totp e rnd (u, stored) st = Inr st'" and ok: "\<not> (case st' of (rep, ws) \<Rightarrow> rp_ValuesUnreadable rep \<noteq> 0)"
  obtain rep ws where st: "st = (rep, ws)" by force
  obtain p age where cl: "classifyColumnCrypto e stored vaultFieldTOTPSecret = (p, age)" by force
  have f: "vaultFieldTOTPSecret \<noteq> None" by (simp add: rekey_fields)
  have "fst st' = record_age age ''users'' ''totp_secret'' [] u rep"
    using run by (auto simp: scan_totp_def st cl Let_def attempt_rules split: if_splits)
  then have age: "age \<noteq> keyAgeUnknown" "rp_ValuesUnreadable rep = 0" using ok by (auto split: prod.splits if_splits)
  show "\<not> (case st of (rep, ws) \<Rightarrow> rp_ValuesUnreadable rep \<noteq> 0) \<and>
      (snd st' = snd st \<and> (keys_derived e \<longrightarrow> string_kept e vaultFieldTOTPSecret stored stored) \<or>
       (\<exists>w. snd st' = snd st @ [(u, w)] \<and> (keys_derived e \<longrightarrow> string_kept e vaultFieldTOTPSecret stored w)))"
  proof (cases "age = keyAgePrevious")
    case True
    then obtain w where "st' = (record_age age ''users'' ''totp_secret'' [] u rep, ws @ [(u, w)])" "reseal_string e p (rnd (''totp/'' @ u)) = Some w"
      using run by (auto simp: scan_totp_def st cl Let_def attempt_rules)
    then show ?thesis using classified_string(2) [OF cl age(1) f _ True] age(2) st by auto
  next
    case False
    then show ?thesis using run classified_string(1) [OF cl age(1) f _ False] age(2) by (auto simp: scan_totp_def st cl Let_def)
  qed
qed


subsection \<open>Notification channels\<close>

abbreviation config_key :: "int \<Rightarrow> vaultKeyMaterial \<Rightarrow> bytes" where
  "config_key v m \<equiv> (if v = 1 then key_legacy m else key_value m)"

lemma instance_config_current:
  "Open E (config_key v (current ks)) ct nonce f = Inr p \<Longrightarrow> DecryptInstanceConfig E ks ct nonce v f = Inr p"
  by (simp add: DecryptInstanceConfig_def instanceConfigKeyring_def Let_def split: if_splits)

lemma instance_config_previous:
  "Open E (config_key v (current ks)) ct nonce f = Inl err \<Longrightarrow> previous ks = Some m \<Longrightarrow> Open E (config_key v m) ct nonce f = Inr p \<Longrightarrow>
   DecryptInstanceConfig E ks ct nonce v f = Inr p"
  by (simp add: DecryptInstanceConfig_def instanceConfigKeyring_def Let_def split: if_splits)

lemma instance_config_empty:
  assumes "ct = [] \<or> nonce = []"
  shows "DecryptInstanceConfig E (ks\<lparr>previous := None\<rparr>) ct nonce v f = DecryptInstanceConfig E ks ct nonce v f"
proof -
  obtain err where "\<forall>key. Open E key ct nonce f = Inl err" using Open_empty [OF assms] by blast
  then show ?thesis by (auto simp: DecryptInstanceConfig_def instanceConfigKeyring_def Let_def split: option.split)
qed

lemma classified_config:
  assumes "classifyInstanceConfig e ct nonce v = (p, age)" "age \<noteq> keyAgeUnknown" "keys_derived e"
  obtains (empty) "age = keyAgeEmpty" "ct = [] \<or> nonce = []"
    | (now) "age = keyAgeCurrent" "nonce \<noteq> []" "Open (vcipher e) (config_key v (current (ve_keys e))) ct nonce vaultFieldAlertChannelConfig = Inr p"
    | (before) "age = keyAgePrevious" "nonce \<noteq> []" "DecryptInstanceConfig (vcipher e) (ve_keys e) ct nonce v vaultFieldAlertChannelConfig = Inr p"
proof -
  have keys: "(if v = 1 then legacyKeyFor e (key_source (current (ve_keys e))) else key_value (current (ve_keys e))) = config_key v (current (ve_keys e))"
      "\<And>m. previous (ve_keys e) = Some m \<Longrightarrow> (if v = 1 then legacyKeyFor e (key_source m) else key_value m) = config_key v m"
    using assms(3) by (auto simp: keys_derived_def Let_def)
  show thesis
  proof (cases "ct = [] \<or> nonce = []")
    case True
    then show ?thesis using assms(1) empty by (auto simp: classifyInstanceConfig_def)
  next
    case False
    note cl = assms(1) [unfolded classifyInstanceConfig_def Let_def keys(1)]
    show ?thesis
    proof (cases "Open (vcipher e) (config_key v (current (ve_keys e))) ct nonce vaultFieldAlertChannelConfig")
      case (Inr q)
      then show ?thesis using cl False now by simp
    next
      case (Inl err)
      then obtain m where m: "previous (ve_keys e) = Some m" "age = keyAgePrevious"
          "Open (vcipher e) (if v = 1 then legacyKeyFor e (key_source m) else key_value m) ct nonce vaultFieldAlertChannelConfig = Inr p"
        using cl False assms(2) by (auto split: option.splits sum.splits)
      have "DecryptInstanceConfig (vcipher e) (ve_keys e) ct nonce v vaultFieldAlertChannelConfig = Inr p"
        using instance_config_previous [OF Inl m(1)] m(3) [unfolded keys(2) [OF m(1)]] .
      then show ?thesis using before m(2) False by simp
    qed
  qed
qed

definition put_config :: "string \<times> bytes \<times> int option \<Rightarrow> channel_row \<Rightarrow> channel_row" where
  "put_config w c = (case w of (config, nonce, version) \<Rightarrow> c\<lparr>ch_config := config, ch_nonce := Some nonce, ch_version := version\<rparr>)"

definition config_kept :: "vault_env \<Rightarrow> channel_row \<Rightarrow> channel_row \<Rightarrow> bool" where
  "config_kept e c c' \<longleftrightarrow> ch_name c' = ch_name c \<and> (keys_derived e \<longrightarrow> decryptConfig e (retired e) c' = decryptConfig e (ve_keys e) c)"

lemma resealed_config:
  assumes "Seal (vcipher e) (key_value (current (ve_keys e))) p bs = Some (ct, nonce)"
    and "keys_derived e \<longrightarrow> decryptConfig e (ve_keys e) c = Inr p"
  shows "config_kept e c (put_config (encodeRawGCMColumn ct, nonce, Some 2) c)"
proof -
  have "Open (vcipher e) (config_key 2 (current (retired e))) ct nonce vaultFieldAlertChannelConfig = Inr p"
    using Open_Seal [OF assms(1), of vaultFieldAlertChannelConfig] by (simp add: rekey_fields)
  then have "DecryptInstanceConfig (vcipher e) (retired e) ct nonce 2 vaultFieldAlertChannelConfig = Inr p" by (rule instance_config_current)
  then show ?thesis using assms(2)
    by (simp add: config_kept_def put_config_def decryptConfig_def encodeRawGCMColumn_def std64.dec_enc)
qed

lemma scan_channel_kept:
  assumes "scan_channel e rnd (i, c) (rep, ws) = Inr (rep', ws')" "rp_ValuesUnreadable rep' = 0"
  shows "rp_ValuesUnreadable rep = 0 \<and> (ws' = ws \<and> config_kept e c c \<or> (\<exists>w. ws' = ws @ [(i, w)] \<and> config_kept e c (put_config w c)))"
proof (cases "(case ch_version c of None \<Rightarrow> 0 | Some v \<Rightarrow> v) = 0")
  case True
  then have "config_kept e c c" by (auto simp: config_kept_def decryptConfig_def Let_def split: option.split)
  then show ?thesis using assms True by (auto simp: scan_channel_def Let_def split: if_splits)
next
  case False
  define v where "v = (case ch_version c of None \<Rightarrow> 0 | Some v \<Rightarrow> v)"
  note run = assms(1) [unfolded scan_channel_def Let_def prod.case v_def [symmetric]]
  have v: "v \<noteq> 0" using False by (simp add: v_def)
  show ?thesis
  proof (cases "std64_decode (ch_config c)")
    case None
    then show ?thesis using run assms(2) v by (auto simp: decodeRawGCMColumn_def)
  next
    case (Some ct)
    obtain p age where cl: "classifyInstanceConfig e ct (null_text (ch_nonce c)) v = (p, age)" by force
    have rep': "rep' = record_age age ''notification_channels'' ''config'' [] i rep"
      using run v Some cl by (auto simp: decodeRawGCMColumn_def attempt_rules split: if_splits)
    then have age: "age \<noteq> keyAgeUnknown" "rp_ValuesUnreadable rep = 0" using assms(2) by (auto split: if_splits)
    have reads: "decryptConfig e ks c = (case ch_nonce c of None \<Rightarrow> Inr (ch_config c) | Some nonce \<Rightarrow> DecryptInstanceConfig (vcipher e) ks ct nonce v vaultFieldAlertChannelConfig)" for ks
      using v Some by (simp add: decryptConfig_def v_def [symmetric] split: option.split)
    have opened: "decryptConfig e (ve_keys e) c = Inr p" if "keys_derived e" "age = keyAgePrevious \<or> age = keyAgeCurrent"
      using cl age(1) that(1)
    proof (cases rule: classified_config)
      case empty
      then show ?thesis using that(2) by simp
    next
      case now
      then show ?thesis using instance_config_current [OF now(3)] by (cases "ch_nonce c") (simp_all add: reads null_text_def)
    next
      case before
      then show ?thesis by (cases "ch_nonce c") (simp_all add: reads null_text_def)
    qed
    show ?thesis
    proof (cases "age \<noteq> keyAgePrevious \<and> \<not> (age = keyAgeCurrent \<and> v = 1)")
      case True
      have "config_kept e c c" unfolding config_kept_def
      proof (intro conjI refl impI)
        assume kd: "keys_derived e"
        from cl age(1) kd show "decryptConfig e (retired e) c = decryptConfig e (ve_keys e) c"
        proof (cases rule: classified_config)
          case empty
          then show ?thesis using instance_config_empty [of ct _ "vcipher e" "ve_keys e"]
            by (cases "ch_nonce c") (auto simp: reads retired_def null_text_def)
        next
          case now
          then have "Open (vcipher e) (config_key v (current (retired e))) ct (null_text (ch_nonce c)) vaultFieldAlertChannelConfig = Inr p"
            by (simp only: retired_sel)
          then show ?thesis using opened [OF kd] now instance_config_current [of "vcipher e" v "retired e" ct "null_text (ch_nonce c)"]
            by (cases "ch_nonce c") (simp_all add: reads null_text_def)
        next
          case before
          then show ?thesis using True by simp
        qed
      qed
      moreover have "ws' = ws" using run v Some cl True by (simp add: decodeRawGCMColumn_def)
      ultimately show ?thesis using age(2) by blast
    next
      case False
      then obtain ct' nonce where w: "Seal (vcipher e) (key_value (current (ve_keys e))) p (rnd (''config/'' @ i)) = Some (ct', nonce)"
          "ws' = ws @ [(i, encodeRawGCMColumn ct', nonce, Some 2)]"
        using run v Some cl by (auto simp: decodeRawGCMColumn_def attempt_rules split: if_splits)
      then show ?thesis using resealed_config [OF w(1)] opened False age(2) by auto
    qed
  qed
qed

interpretation config_sweep: sweep "scan_channel e rnd" "\<lambda>(rep, ws). rp_ValuesUnreadable rep \<noteq> 0" snd put_config "config_kept e" for e rnd
proof
  fix i c and st st' :: "RekeyReport \<times> (string \<times> string \<times> bytes \<times> int option) list"
  assume run: "scan_channel e rnd (i, c) st = Inr st'" and ok: "\<not> (case st' of (rep, ws) \<Rightarrow> rp_ValuesUnreadable rep \<noteq> 0)"
  obtain rep ws rep' ws' where st: "st = (rep, ws)" "st' = (rep', ws')" by (metis surj_pair)
  show "\<not> (case st of (rep, ws) \<Rightarrow> rp_ValuesUnreadable rep \<noteq> 0) \<and>
      (snd st' = snd st \<and> config_kept e c c \<or> (\<exists>w. snd st' = snd st @ [(i, w)] \<and> config_kept e c (put_config w c)))"
    using scan_channel_kept [OF run [unfolded st]] ok st by simp
qed


subsection \<open>Settings\<close>

definition setting_kept :: "vault_env \<Rightarrow> field \<Rightarrow> string option \<Rightarrow> string option \<Rightarrow> bool" where
  "setting_kept e f old new \<longleftrightarrow> (case old of None \<Rightarrow> new = None | Some v \<Rightarrow> \<exists>w. new = Some w \<and> (keys_derived e \<longrightarrow> string_kept e f v w))"

definition is_setting :: "keyedSurface \<Rightarrow> bool" where
  "is_setting x \<longleftrightarrow> ks_Table x = ''settings'' \<and> ks_SettingKey x \<noteq> []"

definition put_all :: "(string \<times> string) list \<Rightarrow> string \<Rightarrow> string option \<Rightarrow> string option" where
  "put_all ds k old = (case map_of ds k of None \<Rightarrow> old | Some w \<Rightarrow> Some w)"

lemma scan_setting_kept:
  assumes "scan_setting e rnd s x (rep, ws) = Inr (rep', ws')" "rp_ValuesUnreadable rep' = 0" "is_setting x" "ks_Field x \<noteq> None"
  shows "rp_ValuesUnreadable rep = 0 \<and> (\<exists>ds. ws' = ws @ ds \<and> distinct (map fst ds) \<and> fst ` set ds \<subseteq> {ks_SettingKey x} - {vaultKeyCheckSetting} \<and>
    (ks_SettingKey x \<noteq> vaultKeyCheckSetting \<longrightarrow>
       setting_kept e (ks_Field x) (map_of (settings s) (ks_SettingKey x)) (put_all ds (ks_SettingKey x) (map_of (settings s) (ks_SettingKey x)))))"
proof (cases "GetSetting s (ks_SettingKey x)")
  case (Row stored)
  then have row: "map_of (settings s) (ks_SettingKey x) = Some stored" by (simp add: GetSetting_def row_simps)
  obtain p age where cl: "classifyColumnCrypto e stored (ks_Field x) = (p, age)" by force
  note run = assms(1) [unfolded scan_setting_def Let_def prod.case Row fetched.case cl]
  have "rep' = record_age age ''settings'' ''value'' (ks_SettingKey x) (ks_SettingKey x) rep"
    using run assms(3) by (auto simp: is_setting_def attempt_rules split: if_splits)
  then have age: "age \<noteq> keyAgeUnknown" "rp_ValuesUnreadable rep = 0" using assms(2) by (auto split: if_splits)
  note cs = classified_string [OF cl age(1) assms(4)]
  show ?thesis
  proof (cases "age \<noteq> keyAgePrevious \<or> ks_SettingKey x = vaultKeyCheckSetting")
    case True
    then have "ws' = ws" using run assms(3) by (auto simp: is_setting_def split: if_splits)
    then show ?thesis using True age(2) cs(1) row by (auto simp: setting_kept_def put_all_def)
  next
    case False
    then obtain w where "reseal_string e p (rnd (''setting/'' @ ks_SettingKey x)) = Some w" "ws' = ws @ [(ks_SettingKey x, w)]"
      using run assms(3) by (auto simp: is_setting_def attempt_rules split: if_splits)
    then show ?thesis using False age(2) cs(2) row by (auto simp: setting_kept_def put_all_def)
  qed
next
  case ErrNoRows
  then have "map_of (settings s) (ks_SettingKey x) = None" by (simp add: GetSetting_def row_simps)
  then show ?thesis using ErrNoRows assms(1-3) by (auto simp: scan_setting_def is_setting_def setting_kept_def put_all_def)
next
  case DBError
  then show ?thesis using assms(1,3) by (simp add: scan_setting_def is_setting_def)
qed

lemma attempt_fold_skip:
  assumes "\<And>x st. \<not> P x \<Longrightarrow> f x st = Inr st"
  shows "attempt_fold f xs st = attempt_fold f (filter P xs) st"
  by (induction xs arbitrary: st) (simp_all add: assms attempt_def split: sum.split)

lemma settings_surfaces:
  obtains smtp sentinel dek where "filter is_setting rekeySurfaces = [smtp, sentinel, dek]"
    "ks_SettingKey smtp = ''smtp_password''" "ks_Field smtp = vaultFieldSMTPPassword"
    "ks_SettingKey sentinel = vaultKeyCheckSetting" "ks_Field sentinel = vaultFieldKeySentinel"
    "ks_SettingKey dek = auditDEKSetting" "ks_Field dek = vaultFieldAuditDEK"
  by (rule that, simp add: rekeySurfaces_def is_setting_def vaultKeyCheckSetting_def auditDEKSetting_def)
    (simp_all add: vaultKeyCheckSetting_def auditDEKSetting_def)

lemma setting_keys_differ [simp]:
  "''smtp_password'' \<noteq> vaultKeyCheckSetting" "''smtp_password'' \<noteq> auditDEKSetting" "auditDEKSetting \<noteq> vaultKeyCheckSetting"
  "vaultKeyCheckSetting \<noteq> ''smtp_password''" "auditDEKSetting \<noteq> ''smtp_password''" "vaultKeyCheckSetting \<noteq> auditDEKSetting"
  by (simp_all add: vaultKeyCheckSetting_def auditDEKSetting_def)

lemma put_all_append: "put_all (ds @ ds') k old = (if k \<in> fst ` set ds then put_all ds k old else put_all ds' k old)"
proof (cases "map_of ds k")
  case None
  moreover from None have "k \<notin> fst ` set ds" by (simp add: map_of_eq_None_iff)
  ultimately show ?thesis by (simp add: put_all_def map_add_def)
next
  case (Some w)
  then have "k \<in> fst ` set ds" by (force dest: map_of_SomeD)
  with Some show ?thesis by (simp add: put_all_def map_add_def)
qed

lemma put_all_absent: "k \<notin> fst ` set ds \<Longrightarrow> put_all ds k old = old"
  by (metis map_of_eq_None_iff option.simps(4) put_all_def)

lemma settings_swept:
  assumes "scanSettings e rnd db rep = Inr (rep', ds)" "rp_ValuesUnreadable rep' = 0"
  shows "rp_ValuesUnreadable rep = 0"
    and "setting_kept e vaultFieldSMTPPassword (map_of (settings (istore db)) ''smtp_password'') (put_all ds ''smtp_password'' (map_of (settings (istore db)) ''smtp_password''))"
    and "setting_kept e vaultFieldAuditDEK (map_of (settings (istore db)) auditDEKSetting) (put_all ds auditDEKSetting (map_of (settings (istore db)) auditDEKSetting))"
    and "fst ` set ds \<subseteq> {''smtp_password'', auditDEKSetting}" "distinct (map fst ds)"
proof -
  let ?s = "istore db"
  obtain smtp sentinel dek where x: "filter is_setting rekeySurfaces = [smtp, sentinel, dek]"
    "ks_SettingKey smtp = ''smtp_password''" "ks_Field smtp = vaultFieldSMTPPassword"
    "ks_SettingKey sentinel = vaultKeyCheckSetting" "ks_Field sentinel = vaultFieldKeySentinel"
    "ks_SettingKey dek = auditDEKSetting" "ks_Field dek = vaultFieldAuditDEK" by (rule settings_surfaces)
  have "\<forall>y \<in> set [smtp, sentinel, dek]. is_setting y" unfolding x(1) [symmetric] by simp
  then have isset: "is_setting smtp" "is_setting sentinel" "is_setting dek" by simp_all
  have f: "ks_Field smtp \<noteq> None" "ks_Field sentinel \<noteq> None" "ks_Field dek \<noteq> None" using x by (simp_all add: rekey_fields)
  have "attempt_fold (scan_setting e rnd ?s) [smtp, sentinel, dek] (rep, []) = Inr (rep', ds)"
    using assms(1) attempt_fold_skip [of is_setting "scan_setting e rnd ?s" rekeySurfaces "(rep, [])"] x(1)
    by (auto simp: scanSettings_def scan_setting_def is_setting_def)
  then obtain rep1 ds1 rep2 ds2 where
      s1: "scan_setting e rnd ?s smtp (rep, []) = Inr (rep1, ds1)" and s2: "scan_setting e rnd ?s sentinel (rep1, ds1) = Inr (rep2, ds2)"
      and s3: "scan_setting e rnd ?s dek (rep2, ds2) = Inr (rep', ds)"
    by (auto simp: attempt_Inr)
  note k3 = scan_setting_kept [OF s3 assms(2) isset(3) f(3)]
  note k2 = scan_setting_kept [OF s2 conjunct1 [OF k3] isset(2) f(2)]
  note k1 = scan_setting_kept [OF s1 conjunct1 [OF k2] isset(1) f(1)]
  obtain es where es: "ds = ds1 @ es" "distinct (map fst es)" "fst ` set es \<subseteq> {auditDEKSetting}"
      "setting_kept e vaultFieldAuditDEK (map_of (settings ?s) auditDEKSetting) (put_all es auditDEKSetting (map_of (settings ?s) auditDEKSetting))"
    using k3 k2 x by auto
  have d1: "distinct (map fst ds1)" "fst ` set ds1 \<subseteq> {''smtp_password''}"
      "setting_kept e vaultFieldSMTPPassword (map_of (settings ?s) ''smtp_password'') (put_all ds1 ''smtp_password'' (map_of (settings ?s) ''smtp_password''))"
    using k1 x by auto
  show "rp_ValuesUnreadable rep = 0" using k1 by simp
  show "fst ` set ds \<subseteq> {''smtp_password'', auditDEKSetting}" using es d1 by auto
  have "fst ` set ds1 \<inter> fst ` set es = {}" using es(3) d1(2) setting_keys_differ(2) by fastforce
  then show "distinct (map fst ds)" using es(1,2) d1(1) by simp
  have "''smtp_password'' \<notin> fst ` set es" "auditDEKSetting \<notin> fst ` set ds1" using es(3) d1(2) setting_keys_differ by auto
  then have "put_all ds ''smtp_password'' old = put_all ds1 ''smtp_password'' old" "put_all ds auditDEKSetting old = put_all es auditDEKSetting old" for old
    by (simp_all add: es(1) put_all_append put_all_absent)
  then show "setting_kept e vaultFieldSMTPPassword (map_of (settings ?s) ''smtp_password'') (put_all ds ''smtp_password'' (map_of (settings ?s) ''smtp_password''))"
      "setting_kept e vaultFieldAuditDEK (map_of (settings ?s) auditDEKSetting) (put_all ds auditDEKSetting (map_of (settings ?s) auditDEKSetting))"
    using es(4) d1(3) by simp_all
qed

section \<open>The whole sweep\<close>

lemma attempt_fold_writes:
  assumes "attempt_fold f xs d = Inr d'" "\<And>x d d'. f x d = Inr d' \<Longrightarrow> d' = g x d"
  shows "d' = fold g xs d"
  using assms(1)
proof (induction xs arbitrary: d)
  case (Cons x xs)
  then obtain d1 where "f x d = Inr d1" "attempt_fold f xs d1 = Inr d'" by (auto simp: attempt_Inr)
  then show ?case using Cons.IH assms(2) by auto
qed simp

lemma invites_written:
  assumes "attempt_fold (\<lambda>(i, code) d. present (RekeyInvitationCode code i d) (err i)) ws db = Inr db'"
  shows "db' = db\<lparr>id_admin := (id_admin db)\<lparr>invites := fold (\<lambda>(k, w). sql_update k (inv_code_update (\<lambda>_. w))) ws (invites (id_admin db))\<rparr>\<rparr>"
proof -
  have "db' = fold (\<lambda>(k, w) d. d\<lparr>id_admin := (id_admin d)\<lparr>invites := sql_update k (inv_code_update (\<lambda>_. w)) (invites (id_admin d))\<rparr>\<rparr>) ws db"
    using assms by (rule attempt_fold_writes) (auto simp: present_Inr RekeyInvitationCode_def split: if_splits prod.splits)
  also have "\<dots> = db\<lparr>id_admin := (id_admin db)\<lparr>invites := fold (\<lambda>(k, w). sql_update k (inv_code_update (\<lambda>_. w))) ws (invites (id_admin db))\<rparr>\<rparr>"
    by (induction ws arbitrary: db) auto
  finally show ?thesis .
qed

lemma channels_written:
  assumes "attempt_fold (\<lambda>(i, config, nonce, version) d. present (RekeyNotificationChannelConfig config nonce version i d) (err i)) ws db = Inr db'"
  shows "db' = db\<lparr>id_channels := fold (\<lambda>(k, w). sql_update k (put_config w)) ws (id_channels db)\<rparr>"
proof -
  have "db' = fold (\<lambda>(k, w) d. d\<lparr>id_channels := sql_update k (put_config w) (id_channels d)\<rparr>) ws db"
    using assms by (rule attempt_fold_writes)
      (auto simp: present_Inr RekeyNotificationChannelConfig_def put_config_def [abs_def] split: if_splits prod.splits)
  also have "\<dots> = db\<lparr>id_channels := fold (\<lambda>(k, w). sql_update k (put_config w)) ws (id_channels db)\<rparr>"
    by (induction ws arbitrary: db) auto
  finally show ?thesis .
qed

lemma sql_update_absent: "map_of t k = None \<Longrightarrow> sql_update k f t = t"
  by (induction t) (auto simp: sql_update_def split: if_splits)

lemma seeds_written:
  assumes "attempt_fold apply_totp ws db = Inr db'"
  shows "db' = db\<lparr>accounts := fold (\<lambda>(k, w). sql_update k (totp_secret_update (\<lambda>_. Some w))) ws (accounts db)\<rparr>"
proof -
  have "db' = fold (\<lambda>(k, w) d. d\<lparr>accounts := sql_update k (totp_secret_update (\<lambda>_. Some w)) (accounts d)\<rparr>) ws db"
    using assms by (rule attempt_fold_writes)
      (auto simp: apply_totp_def present_Inr StoreTOTPSecret_def update_account_def sql_update_absent split: if_splits prod.splits option.splits)
  also have "\<dots> = db\<lparr>accounts := fold (\<lambda>(k, w). sql_update k (totp_secret_update (\<lambda>_. Some w))) ws (accounts db)\<rparr>"
    by (induction ws arbitrary: db) auto
  finally show ?thesis .
qed

lemma settings_written:
  assumes "attempt_fold (\<lambda>(k, v) s. present (UpsertSetting s k v) (err k)) ws s = Inr s'" "distinct (map fst ws)"
  shows "\<exists>t. s' = s\<lparr>settings := t\<rparr> \<and> (\<forall>k. map_of t k = put_all ws k (map_of (settings s) k))"
  using assms
proof (induction ws arbitrary: s)
  case Nil
  then show ?case by (auto simp: put_all_def intro: exI [of _ "settings s"])
next
  case (Cons x ws)
  obtain k v where x: "x = (k, v)" by force
  obtain s1 where s1: "UpsertSetting s k v = Some s1" "attempt_fold (\<lambda>(k, v) s. present (UpsertSetting s k v) (err k)) ws s1 = Inr s'"
    using Cons.prems(1) x by (auto simp: attempt_Inr present_Inr)
  obtain t where t: "s' = s1\<lparr>settings := t\<rparr>" "\<forall>j. map_of t j = put_all ws j (map_of (settings s1) j)"
    using Cons.IH [OF s1(2)] Cons.prems(2) by auto
  have "map_of ws k = None" using Cons.prems(2) x by (simp add: map_of_eq_None_iff)
  moreover have "s1\<lparr>settings := t\<rparr> = s\<lparr>settings := t\<rparr>" using s1(1) by (auto simp: UpsertSetting_def split: if_splits)
  moreover have "map_of t j = put_all (x # ws) j (map_of (settings s) j)" for j
    using t(2) [rule_format, of j] x UpsertSetting_value [OF s1(1), of j] \<open>map_of ws k = None\<close> by (cases "j = k") (auto simp: put_all_def)
  ultimately show ?case using t(1) by auto
qed

text \<open>A table whose scan looks at one projection of its rows, and only where that is not empty.\<close>

lemma swept_projection:
  assumes "distinct (map fst t)" "distinct (map fst ws)"
    and rows: "fst ` set ws \<subseteq> fst ` set (filter (\<lambda>(k, x). P x) (map (\<lambda>(k, v). (k, pr v)) t))"
    and kept: "\<forall>(k, x) \<in> set (filter (\<lambda>(k, x). P x) (map (\<lambda>(k, v). (k, pr v)) t)). kept x (swept_row (\<lambda>w _. w) ws k x)"
    and upd: "\<And>w v. pr (upd w v) = w" "\<And>w v. same v (upd w v)" "\<And>v. same v v"
  shows "table_kept (\<lambda>v v'. same v v' \<and> (if P (pr v) then kept (pr v) (pr v') else v' = v)) t (fold (\<lambda>(k, w). sql_update k (upd w)) ws t)"
  unfolding fold_updates [OF assms(2)]
proof (rule table_kept_map)
  fix k v assume kv: "(k, v) \<in> set t"
  have proj: "pr (swept_row upd ws k v) = swept_row (\<lambda>w _. w) ws k (pr v)" "same v (swept_row upd ws k v)"
    using upd by (auto simp: swept_row_def split: option.splits)
  show "same v (swept_row upd ws k v) \<and> (if P (pr v) then kept (pr v) (pr (swept_row upd ws k v)) else swept_row upd ws k v = v)"
  proof (cases "P (pr v)")
    case True
    then show ?thesis using kept kv proj by force
  next
    case False
    have "v' = v" if "(k, v') \<in> set t" for v' using that kv assms(1) by (meson eq_key_imp_eq_value)
    then have "k \<notin> fst ` set ws" using rows False by auto
    then have "map_of ws k = None" by (simp add: map_of_eq_None_iff)
    then show ?thesis using False upd(3) by (simp add: swept_row_def)
  qed
qed

text \<open>The primary keys of the scanned tables.\<close>

definition primary_keys :: "instance_db \<Rightarrow> bool" where
  "primary_keys db \<longleftrightarrow> distinct (map fst (entries (istore db))) \<and> distinct (map fst (invites (id_admin db))) \<and>
     distinct (map fst (accounts (iacc db))) \<and> distinct (map fst (id_channels db))"

text \<open>
  Everything that depends on the master key reads, with the previous key gone, as it read before: entries, invitation codes,
  authenticator seeds, the mail password, the audit key and notification channels; nothing else changed.
\<close>

definition code_kept :: "vault_env \<Rightarrow> account_invitation \<Rightarrow> account_invitation \<Rightarrow> bool" where
  "code_kept e i i' \<longleftrightarrow> i' = i\<lparr>inv_code := inv_code i'\<rparr> \<and>
     (if inv_code i \<noteq> [] then \<exists>p. column_kept e vaultFieldRekeyInvitationCode p (inv_code i) (inv_code i') else i' = i)"

definition seed_kept :: "vault_env \<Rightarrow> account \<Rightarrow> account \<Rightarrow> bool" where
  "seed_kept e a a' \<longleftrightarrow> a' = a\<lparr>totp_secret := totp_secret a'\<rparr> \<and>
     (if null_text (totp_secret a) \<noteq> [] then string_kept e vaultFieldTOTPSecret (null_text (totp_secret a)) (null_text (totp_secret a')) else a' = a)"

definition settings_kept :: "vault_env \<Rightarrow> (string \<times> string) list \<Rightarrow> (string \<times> string) list \<Rightarrow> bool" where
  "settings_kept e t t' \<longleftrightarrow>
     setting_kept e vaultFieldSMTPPassword (map_of t ''smtp_password'') (map_of t' ''smtp_password'') \<and>
     setting_kept e vaultFieldAuditDEK (map_of t auditDEKSetting) (map_of t' auditDEKSetting) \<and>
     (\<forall>k. k \<notin> {''smtp_password'', auditDEKSetting, vaultKeyCheckSetting} \<longrightarrow> map_of t' k = map_of t k)"

definition vault_kept :: "vault_env \<Rightarrow> instance_db \<Rightarrow> instance_db \<Rightarrow> bool" where
  "vault_kept e db db' \<longleftrightarrow>
     (\<exists>es codes as ss cs. db' =
        db\<lparr>id_admin := (id_admin db)\<lparr>acc := (iacc db)\<lparr>base := (istore db)\<lparr>entries := es, settings := ss\<rparr>, accounts := as\<rparr>, invites := codes\<rparr>, id_channels := cs\<rparr> \<and>
        table_kept (row_kept e) (entries (istore db)) es \<and> table_kept (code_kept e) (invites (id_admin db)) codes \<and>
        table_kept (seed_kept e) (accounts (iacc db)) as \<and> settings_kept e (settings (istore db)) ss \<and>
        table_kept (config_kept e) (id_channels db) cs)"

lemma codes_swept:
  assumes "scanInvitations e rnd db rep = Inr (rep', ws)" "rp_ValuesUnreadable rep' = 0" "distinct (map fst (invites (id_admin db)))"
  shows "rp_ValuesUnreadable rep = 0"
    "table_kept (code_kept e) (invites (id_admin db)) (fold (\<lambda>(k, w). sql_update k (inv_code_update (\<lambda>_. w))) ws (invites (id_admin db)))"
proof -
  let ?t = "invites (id_admin db)"
  let ?rows = "filter (\<lambda>(i, c). c \<noteq> []) (map (\<lambda>(i, inv). (i, inv_code inv)) ?t)"
  have fold: "attempt_fold (scan_invitation e rnd) (sort_key fst ?rows) (rep, []) = Inr (rep', ws)"
    using assms(1) by (auto simp: scanInvitations_def ListInvitationCodesForRekey_def attempt_rules split: if_splits)
  have "distinct (map fst ?rows)"
    by (rule distinct_map_filter) (use assms(3) in \<open>simp add: comp_def case_prod_unfold\<close>)
  then have "distinct (map fst (sort_key fst ?rows))" by (simp add: distinct_keys_sort)
  note sw = code_sweep.swept [OF fold _ this]
  show "rp_ValuesUnreadable rep = 0" using sw assms(2) by simp
  have "distinct (map fst ws)" "fst ` set ws \<subseteq> fst ` set ?rows"
    "\<forall>(k, x) \<in> set ?rows. \<exists>p. column_kept e vaultFieldRekeyInvitationCode p x (swept_row (\<lambda>w _. w) ws k x)"
    using sw assms(2) by auto
  from swept_projection [OF assms(3) this, where same = "\<lambda>i i'. i' = i\<lparr>inv_code := inv_code i'\<rparr>" and upd = "\<lambda>w. inv_code_update (\<lambda>_. w)"]
  show "table_kept (code_kept e) ?t (fold (\<lambda>(k, w). sql_update k (inv_code_update (\<lambda>_. w))) ws ?t)"
    by (simp add: code_kept_def [abs_def])
qed

lemma seeds_swept:
  assumes "scanTOTPSecrets e rnd db rep = Inr (rep', ws)" "rp_ValuesUnreadable rep' = 0" "distinct (map fst (accounts (iacc db)))" "keys_derived e"
  shows "rp_ValuesUnreadable rep = 0"
    "table_kept (seed_kept e) (accounts (iacc db)) (fold (\<lambda>(k, w). sql_update k (totp_secret_update (\<lambda>_. Some w))) ws (accounts (iacc db)))"
proof -
  let ?t = "accounts (iacc db)"
  let ?rows = "filter (\<lambda>(i, c). c \<noteq> []) (map (\<lambda>(i, a). (i, null_text (totp_secret a))) ?t)"
  have "map (\<lambda>(uid, a). (uid, null_text (totp_secret a))) (filter (\<lambda>(uid, a). null_text (totp_secret a) \<noteq> []) t) =
      filter (\<lambda>(i, c). c \<noteq> []) (map (\<lambda>(i, a). (i, null_text (totp_secret a))) t)" for t :: "(string \<times> account) list"
    by (induction t) auto
  then have fold: "attempt_fold (scan_totp e rnd) ?rows (rep, []) = Inr (rep', ws)"
    using assms(1) by (auto simp: scanTOTPSecrets_def ListUsersWithTOTPSecret_def attempt_rules split: if_splits)
  have "distinct (map fst ?rows)"
    by (rule distinct_map_filter) (use assms(3) in \<open>simp add: comp_def case_prod_unfold\<close>)
  note sw = seed_sweep.swept [OF fold _ this]
  show "rp_ValuesUnreadable rep = 0" using sw assms(2) by simp
  have "distinct (map fst ws)" "fst ` set ws \<subseteq> fst ` set ?rows"
    "\<forall>(k, x) \<in> set ?rows. string_kept e vaultFieldTOTPSecret x (swept_row (\<lambda>w _. w) ws k x)"
    using sw assms(2,4) by auto
  from swept_projection [OF assms(3) this, where same = "\<lambda>a a'. a' = a\<lparr>totp_secret := totp_secret a'\<rparr>" and upd = "\<lambda>w. totp_secret_update (\<lambda>_. Some w)"]
  show "table_kept (seed_kept e) ?t (fold (\<lambda>(k, w). sql_update k (totp_secret_update (\<lambda>_. Some w))) ws ?t)"
    by (simp add: seed_kept_def [abs_def] null_text_def)
qed

lemma configs_swept:
  assumes "scanNotificationChannels e rnd db rep = Inr (rep', ws)" "rp_ValuesUnreadable rep' = 0" "distinct (map fst (id_channels db))"
  shows "rp_ValuesUnreadable rep = 0"
    "table_kept (config_kept e) (id_channels db) (fold (\<lambda>(k, w). sql_update k (put_config w)) ws (id_channels db))"
proof -
  have fold: "attempt_fold (scan_channel e rnd) (sort_key fst (id_channels db)) (rep, []) = Inr (rep', ws)"
    using assms(1) by (auto simp: scanNotificationChannels_def ListNotificationChannelConfigsForRekey_def attempt_rules split: if_splits)
  have "distinct (map fst (sort_key fst (id_channels db)))" using assms(3) by (simp add: distinct_keys_sort)
  note sw = config_sweep.swept [OF fold _ this]
  show "rp_ValuesUnreadable rep = 0" using sw assms(2) by simp
  have "distinct (map fst ws)" "\<forall>(k, c) \<in> set (id_channels db). config_kept e c (swept_row put_config ws k c)"
    using sw assms(2) by auto
  then show "table_kept (config_kept e) (id_channels db) (fold (\<lambda>(k, w). sql_update k (put_config w)) ws (id_channels db))"
    using table_kept_map [of "id_channels db" "config_kept e" "swept_row put_config ws"] by (auto simp: fold_updates)
qed

lemma plan_applied:
  assumes "scanAndPlan e rnd db = Inr (rep, plan)" "rp_ValuesUnreadable rep = 0" "primary_keys db" "keys_derived e" "applyPlan plan db = Inr db1"
  shows "vault_kept e db db1"
proof -
  obtain rep1 rep2 rep3 rep4 where
    s1: "scanVaultEntries e rnd db new_report = Inr (rep1, pl_entries plan)" and s2: "scanInvitations e rnd db rep1 = Inr (rep2, pl_invites plan)"
    and s3: "scanTOTPSecrets e rnd db rep2 = Inr (rep3, pl_totp plan)" and s4: "scanSettings e rnd db rep3 = Inr (rep4, pl_settings plan)"
    and s5: "scanNotificationChannels e rnd db rep4 = Inr (rep, pl_channels plan)"
    using assms(1) by (fastforce simp: scanAndPlan_def attempt_Inr)
  have pk: "distinct (map fst (entries (istore db)))" "distinct (map fst (invites (id_admin db)))"
      "distinct (map fst (accounts (iacc db)))" "distinct (map fst (id_channels db))"
    using assms(3) by (simp_all add: primary_keys_def)
  note c5 = configs_swept [OF s5 assms(2) pk(4)]
  note c4 = settings_swept [OF s4 c5(1)]
  note c3 = seeds_swept [OF s3 c4(1) pk(3) assms(4)]
  note c2 = codes_swept [OF s2 c3(1) pk(2)]
  obtain s d2 ac s2 where
    a1: "attempt_fold apply_entry (pl_entries plan) (istore db) = Inr s"
    and a2: "attempt_fold (\<lambda>(i, code) d. present (RekeyInvitationCode code i d) (RekeyFailed (''rekey invitation '' @ i))) (pl_invites plan) (put_istore db s) = Inr d2"
    and a3: "attempt_fold apply_totp (pl_totp plan) (iacc d2) = Inr ac"
    and a4: "attempt_fold (\<lambda>(k, v) s. present (UpsertSetting s k v) (RekeyFailed (''rekey setting '' @ k))) (pl_settings plan) (base ac) = Inr s2"
    and a5: "attempt_fold (\<lambda>(i, config, nonce, version) d. present (RekeyNotificationChannelConfig config nonce version i d) (RekeyFailed (''rekey notification channel '' @ i)))
       (pl_channels plan) (d2\<lparr>id_admin := (id_admin d2)\<lparr>acc := ac\<lparr>base := s2\<rparr>\<rparr>\<rparr>) = Inr db1"
    using assms(5) by (auto simp: applyPlan_def attempt_Inr)
  obtain es where es: "s = (istore db)\<lparr>entries := es\<rparr>" "table_kept (row_kept e) (entries (istore db)) es"
    using entries_swept(2) [OF s1 c2(1) pk(1) a1] by auto
  obtain ss where ss: "s2 = (base ac)\<lparr>settings := ss\<rparr>" "\<forall>k. map_of ss k = put_all (pl_settings plan) k (map_of (settings (base ac)) k)"
    using settings_written [OF a4 c4(5)] by blast
  note w2 = invites_written [OF a2] and w3 = seeds_written [OF a3] and w5 = channels_written [OF a5]
  have ac: "base ac = s" by (simp add: w3 w2 put_istore_def with_store_def)
  have st: "settings_kept e (settings (istore db)) ss"
    unfolding settings_kept_def
  proof (intro conjI allI impI)
    fix k assume "k \<notin> {''smtp_password'', auditDEKSetting, vaultKeyCheckSetting}"
    then have "k \<notin> fst ` set (pl_settings plan)" using c4(4) by blast
    then show "map_of ss k = map_of (settings (istore db)) k" using ss(2) es(1) ac by (simp add: put_all_absent)
  qed (use c4(2,3) ss(2) es(1) ac in simp_all)
  have "db1 = db\<lparr>id_admin := (id_admin db)\<lparr>acc := (iacc db)\<lparr>base := (istore db)\<lparr>entries := es, settings := ss\<rparr>, accounts := accounts ac\<rparr>,
      invites := invites (id_admin d2)\<rparr>, id_channels := id_channels db1\<rparr>"
    by (simp add: w5 w3 w2 ss(1) es(1) put_istore_def with_store_def)
  moreover have "table_kept (code_kept e) (invites (id_admin db)) (invites (id_admin d2))" using c2(2) by (simp add: w2 put_istore_def with_store_def)
  moreover have "table_kept (seed_kept e) (accounts (iacc db)) (accounts ac)" using c3(2) by (simp add: w3 w2 put_istore_def with_store_def)
  moreover have "table_kept (config_kept e) (id_channels db) (id_channels db1)" using c5(2) by (simp add: w5 w2 put_istore_def with_store_def)
  ultimately show ?thesis using es(2) st unfolding vault_kept_def by blast
qed

lemma vault_kept_sentinel:
  assumes "vault_kept e db db1" "UpsertSetting (istore db1) vaultKeyCheckSetting c = Some s"
  shows "vault_kept e db (put_istore db1 s)"
proof -
  obtain es codes as ss cs where k: "db1 =
        db\<lparr>id_admin := (id_admin db)\<lparr>acc := (iacc db)\<lparr>base := (istore db)\<lparr>entries := es, settings := ss\<rparr>, accounts := as\<rparr>, invites := codes\<rparr>, id_channels := cs\<rparr>"
      "table_kept (row_kept e) (entries (istore db)) es" "table_kept (code_kept e) (invites (id_admin db)) codes"
      "table_kept (seed_kept e) (accounts (iacc db)) as" "settings_kept e (settings (istore db)) ss" "table_kept (config_kept e) (id_channels db) cs"
    using assms(1) unfolding vault_kept_def by blast
  have "s = (istore db1)\<lparr>settings := settings s\<rparr>" using assms(2) by (auto simp: UpsertSetting_def split: if_splits)
  then have eq: "put_istore db1 s = db\<lparr>id_admin := (id_admin db)\<lparr>acc := (iacc db)\<lparr>base := (istore db)\<lparr>entries := es, settings := settings s\<rparr>, accounts := as\<rparr>, invites := codes\<rparr>, id_channels := cs\<rparr>"
    by (subst \<open>s = _\<close>) (simp add: k(1) put_istore_def with_store_def)
  have "settings_kept e (settings (istore db)) (settings s)"
    using k(5) UpsertSetting_value [OF assms(2)] by (simp add: k(1) settings_kept_def)
  with k eq show ?thesis unfolding vault_kept_def by blast
qed

text \<open>
  A rotation of the master key loses nothing: a sweep that does not succeed leaves the database as it was, and after one
  that succeeds everything sealed reads under the current key alone as it read before, the sentinel opens
  under it, and nothing else changed.
\<close>

theorem rekey_keeps_vault:
  assumes "rekeyVault e running enforceIngress onPrivate db = (res, db')" "primary_keys db" "keys_derived e"
  shows "case res of Inl err \<Rightarrow> db' = db
    | Inr rep \<Rightarrow> vault_kept e db db' \<and> sentinel_opens e (sentinel_of db') (key_source (current (ve_keys e)))"
  using assms(1) unfolding rekeyVault_def
proof (cases rule: settle_cases)
  case refused
  then show ?thesis by simp
next
  case ran
  then obtain rep plan db1 s where run: "scanAndPlan e (\<lambda>l. ve_rnd e (''scan:'' @ l)) db = Inr (rep, plan)" "rp_ValuesUnreadable rep = 0"
      "applyPlan plan db = Inr db1" "ResealVaultKeycheck e (istore db1) (key_source (current (ve_keys e))) = Some s" "db' = put_istore db1 s" "isl res = False"
    by (auto simp: attempt_rules)
  obtain c where c: "seal_sentinel e (key_source (current (ve_keys e))) = Some c" "UpsertSetting (istore db1) vaultKeyCheckSetting c = Some s"
    using run(4) by (auto simp: ResealVaultKeycheck_def split: option.splits)
  then have "sentinel_opens e (sentinel_of db') (key_source (current (ve_keys e)))"
    using sentinel_stored [OF c(2)] sentinel_sealed(1) [OF c(1)] run(5) by simp
  moreover have "vault_kept e db db'"
    using vault_kept_sentinel [OF plan_applied [OF run(1,2) assms(2,3) run(3)] c(2)] run(5) by simp
  ultimately show ?thesis using run(6) by (cases res) simp_all
qed

end
