(* ===== verification/Spec2Isabelle.thy ===== *)
theory Spec2Isabelle
  imports Capability Destinations Rate_Limit Collections Auth Vault_Crypto Reflect_Guard Bridge_Safety Capability_Presets User_Admin_Properties Vault_Entry_Properties Rekey_Safety
begin

text \<open>
  \<^bold>\<open>A verification development for trustissues\<close>, a self-hosted password manager and API-key
  rotation service written in Go.  The server keeps encrypted secrets in one SQLite database,
  shares them through collections, hands out short-lived capability tokens with which a client
  can have a secret used without seeing it, and delivers rotated secrets to configured targets.
  What has to hold is about authority: who gets in, who may use or change an entry, who may
  decide where a secret is sent, and that no sequence of requests takes that apart.

  \<^bold>\<open>Parts of the program and the theories that model them\<close> (paths under \<^verbatim>\<open>src/internal\<close>).

  \<^item> \<open>Prelude\<close> and \<open>Encoding\<close>, \<open>Netip\<close>: what the source uses of Go's standard library.  Strings and
    byte slices are byte sequences (\<^verbatim>\<open>strings\<close>, \<^verbatim>\<open>path\<close>, ASCII case folding), \<^verbatim>\<open>encoding/base64\<close> and
    \<^verbatim>\<open>encoding/hex\<close> with a \<open>codec\<close> locale for round trips, and address literals, prefixes and
    \<^verbatim>\<open>SplitHostPort\<close> of \<^verbatim>\<open>net\<close> and \<^verbatim>\<open>net/netip\<close>.  \<open>Prelude\<close> also has the two locales by which the
    stateful components argue about sequences of requests: \<open>invariant_steps\<close> and \<open>stable_steps\<close>.
  \<^item> \<open>Capability\<close>: \<^verbatim>\<open>capability/token.go\<close>, signing and verification of tokens and the matching of
    destinations against a token's patterns.
  \<^item> \<open>Destinations\<close>: the destination policy of the capability layer, \<^verbatim>\<open>handlers/secret_egress.go\<close>,
    \<^verbatim>\<open>provider_routes.go\<close>, \<^verbatim>\<open>capability_patterns.go\<close>, the matcher and path check of
    \<^verbatim>\<open>capability.go\<close>, and the dial guard of \<^verbatim>\<open>alerts/channels.go\<close>.
  \<^item> \<open>Rate_Limit\<close>: \<^verbatim>\<open>middleware/rate_limit.go\<close>, the limiter as functions on its state, and as an
    \<open>inductive\<close> step relation for an admission that runs beside the clean-up goroutine.
  \<^item> \<open>Web\<close>: requests, responses, principals, the ingress zone, the forwarding chain and the
    response headers of \<^verbatim>\<open>middleware\<close>.
  \<^item> \<open>Store\<close>: the tables and queries of \<^verbatim>\<open>db\<close> the modelled handlers use.  A table is an association
    list; every statement can fail, and \<open>fails\<close> of the store says which ones do, by name.
  \<^item> \<open>Auth\<close>: \<^verbatim>\<open>middleware/auth.go\<close> and \<^verbatim>\<open>totp_enrollment.go\<close>.
  \<^item> \<open>Private_Access\<close>: \<^verbatim>\<open>privateaccess/policy.go\<close> and \<^verbatim>\<open>handlers/private_access.go\<close>.
  \<^item> \<open>Vault_Egress\<close>: \<^verbatim>\<open>egressgate/egressgate.go\<close> and the writers of \<^verbatim>\<open>vaultegress\<close>, the only code
    that can change the columns which choose the host a secret is sent to, or its owner.
  \<^item> \<open>Access\<close>: \<^verbatim>\<open>handlers/vault_grant.go\<close> and the checks of \<^verbatim>\<open>vault.go\<close> built on it.
  \<^item> \<open>Targets\<close>: delivery targets and their purge, \<^verbatim>\<open>handlers/vault_targets.go\<close>,
    \<^verbatim>\<open>vault_egress_writes.go\<close>, \<^verbatim>\<open>collection_target_purge.go\<close>, \<^verbatim>\<open>vault_target_purge.go\<close>.
  \<^item> \<open>Email_Identity\<close>: \<^verbatim>\<open>emailidentity/emailidentity.go\<close>.
  \<^item> \<open>Collections\<close>: the handlers of \<^verbatim>\<open>handlers/collections.go\<close> that change membership.
  \<^item> \<open>Vault_Crypto\<close>: \<^verbatim>\<open>vaultfield/vaultfield.go\<close>, \<^verbatim>\<open>columncrypto/columncrypto.go\<close> and
    \<^verbatim>\<open>handlers/vault_column_crypto.go\<close>, over Galois counter mode.
  \<^item> \<open>Reflect_Guard\<close>: \<^verbatim>\<open>reflectguard\<close>, the scan of an upstream's answer for the secret that was put into
    the request, in every encoding the code covers, over a connection that can break anywhere.
  \<^item> \<open>Secret_Exit\<close>: \<^verbatim>\<open>secretexit/secretexit.go\<close>, the one way by which a decrypted value leaves, and
    \<open>Egress_Authority\<close>: \<^verbatim>\<open>handlers/egress_authority.go\<close> and \<^verbatim>\<open>secret_exit_authority.go\<close>, who decides where it may go.
  \<^item> \<open>Audit_Names\<close>: \<^verbatim>\<open>handlers/audit_name_crypto.go\<close>, names in the audit trail under a wrapped data key.
  \<^item> \<open>Clock_Text\<close>: instants as the texts that the Go code writes and SQLite compares.
  \<^item> \<open>Capability_Bridge\<close>: \<^verbatim>\<open>handlers/capability.go\<close>, minting and the signing proxy, composed of the parts above;
    \<open>Bridge_Safety\<close> has its theorems, \<open>Capability_Presets\<close> the presets of \<^verbatim>\<open>capability_providers.go\<close>.
  \<^item> \<open>Totp\<close>: \<^verbatim>\<open>totp/totp.go\<close> with base 32, SHA-1 and HMAC written out; \<open>Password_Hash\<close>:
    \<^verbatim>\<open>passwordhash/passwordhash.go\<close>, over \<open>Scan_Text\<close>, what it uses of \<^verbatim>\<open>fmt\<close>.
  \<^item> \<open>Accounts\<close>: the account tables and their statements; \<open>Second_Factor\<close>:
    \<^verbatim>\<open>handlers/auth_totp_recovery.go\<close> as a protocol of concurrent requests, with the authority it
    refines and the locale \<open>simulation\<close>; \<open>Sign_In\<close>: the handlers of \<^verbatim>\<open>handlers/auth.go\<close> and
    \<^verbatim>\<open>invalidateCredentials\<close> of \<^verbatim>\<open>user_offboard.go\<close>, with their theorems in \<open>Sign_In_Safety\<close>.
  \<^item> \<open>Blind_Index\<close>: the keyed tokens of \<^verbatim>\<open>handlers/vault.go\<close> by which hosts and names are looked up.
  \<^item> \<open>Admin_Tables\<close>: the statements on users, invitations and API keys; \<open>User_Admin\<close>: the handlers of
    \<^verbatim>\<open>handlers/users.go\<close> and \<^verbatim>\<open>apikeys.go\<close>, the hard delete of \<^verbatim>\<open>user_offboard.go\<close> and
    \<^verbatim>\<open>invitation_code.go\<close>; \<open>User_Admin_Safety\<close> and \<open>User_Admin_Properties\<close>: their invariants and theorems.
  \<^item> \<open>Attempt\<close>: bodies that end at their first failure; \<open>Entry_Fields\<close>: the limits of
    \<^verbatim>\<open>handlers/vault_field_limits.go\<close> and the custom fields of \<^verbatim>\<open>vault.go\<close>; \<open>Entry_View\<close>: what callers see
    of entries, with the queries and the reveal of \<^verbatim>\<open>vault_export.go\<close>; \<open>Vault_Entries\<close>: the handlers of \<^verbatim>\<open>vault.go\<close>
    that list, match, create, move, delete, schedule and unlock; \<open>Entry_Targets\<close>: \<^verbatim>\<open>vault_reference.go\<close>,
    \<^verbatim>\<open>vault_auth_token_authority.go\<close> and the handlers of delivery targets; \<open>Entry_Names\<close>, with the locale
    \<open>name_register\<close>, and \<open>Vault_Entry_Properties\<close>: their theorems.

  \<^bold>\<open>How the code is modelled.\<close>  A Go struct is a \<open>record\<close>, an enumeration a \<open>datatype\<close>, an error a
  value of a sum or option type, a handler a function from the request, the response headers set
  so far and the store to the response and the new store.  A transaction that is rolled back
  returns the store it started from.  Clocks and random bytes are arguments.  Loops are
  structural recursion, or a \<open>function\<close> with a measure where they are not (\<open>make_room\<close>); no fuel
  is used except for splitting a byte string into blocks, where its length is enough.
  Counters of the limiter are unbounded integers: Go's are 64 bits wide and are bounded by the
  visitor cap.

  \<^bold>\<open>Parameters.\<close>  Code that is not in the repository is an argument of the definitions that use
  it: HMAC, HKDF and JSON in \<open>Capability\<close>, the JWT library and SHA-256 in \<open>Auth\<close>, the AES block
  function, PBKDF2 and SHA-256 in \<open>Vault_Crypto\<close>, Unicode normalisation, IDNA and \<^verbatim>\<open>net/mail\<close> in
  \<open>Email_Identity\<close>, the sealing of the target column in \<open>Targets\<close> and \<open>Collections\<close>, \<^verbatim>\<open>encoding/json\<close> and
  \<^verbatim>\<open>net/url\<close> in \<open>Egress_Authority\<close>, \<^verbatim>\<open>net/http\<close> in \<open>Capability_Bridge\<close>, bcrypt and argon2 in \<open>Totp\<close> and \<open>Password_Hash\<close>, the signing of
  tokens and what concurrent requests do between two statements in \<open>Second_Factor\<close> and \<open>Sign_In\<close>.  What a
  theorem needs of them (for instance that unmarshalling undoes marshalling) is a hypothesis of
  that theorem, and its witness gives a function that has it.

  \<^bold>\<open>What is shown.\<close>

  \<^item> Authority over egress (\<open>Vault_Egress\<close>, \<open>Access\<close>, \<open>Targets\<close>): over every sequence of writes a
    host-choosing column of an entry changes only with a ticket issued for that entry and column;
    a decision lists exactly what is new; ownership moves only to the acting instance admin or
    back to the recorded owner; adoption of an entry gives no say over its secret; a purge
    removes exactly the departing account's targets.
  \<^item> Authentication (\<open>Auth\<close>): whoever gets in holds a live credential of an enabled account, and
    a dead session lets nobody in again.
  \<^item> Sign-in (\<open>Sign_In_Safety\<close>): a token is handed out only for a verified password and a spent
    second factor, and is handed out when they are given; setup happens once; a changed password ends
    what came before; the recovery codes of an enrolment work.  Second factor: every interleaving of
    the statements refines an authority that spends one code at a time, so that none is spent twice,
    and a valid recovery code gets through interference.  Codes and password hashes round-trip.
  \<^item> User administration (\<open>User_Admin_Properties\<close>): over any sequence of calls, redemptions interleaved
    with others included, an enabled administrator remains; a deletion is complete or does nothing;
    an invitation is redeemed once; an API key works until it expires or is revoked; the retention
    of login attempts unlocks nobody.
  \<^item> Vault entries (\<open>Vault_Entry_Properties\<close>): names stay unique in a vault although only ciphertexts are stored; an
    unlock shows readable values to a verified caller and locks after five failures; what is created opens
    to what was sent; a match is exact; delivery targets and references need the authority over the secret.
    \<open>Entry_Fields\<close>: withheld values survive an edit, and the two validators agree.
  \<^item> Collections: no sequence of requests takes the last manager, and a removed member can
    neither use nor change the entries until they accept a new invitation.
  \<^item> Capability bridge: a token is spent at most once over any sequence of calls and sweeps, a request leaves only
    under all guards at once, a minted token stays inside its entry's allow-list and expires within ten minutes.
  \<^item> Exits: a released secret reaches only hosts that its entry's record allows at that moment, server-owned
    metadata cannot be seen, forged or lost, and an upstream cannot echo the secret back.
  \<^item> Capability tokens: round trip, soundness of verification, expiry for good, and confinement
    of a destination to the host of a pattern.
  \<^item> Destinations: a list judged not to widen a ceiling grants nothing more (except for the
    ceiling \<^verbatim>\<open>host/\<close>, which is a proved exception), validated patterns can all be enforced, accepted
    paths have no traversal, provider routes are confined.
  \<^item> Rate limiter: the cap, the budget of an address, the choice of the victim, and for the
    interleaving with the clean-up both the bound without a recount and a schedule that breaks it.
  \<^item> Private access: every door agrees and every failure closes it.  Web: the client address
    and the ingress zone cannot be forged by headers.
  \<^item> Encryption: whatever is sealed opens to itself, also text that looks sealed, and a key
    rotation loses nothing; names in the audit trail stay readable.

  \<^bold>\<open>What is not modelled.\<close>  Provider clients, the
  rotation engine, Shield, import, export and rekey, mail, configuration,
  migrations, the frontend and the process start-up.  Logging and metrics are left out of the
  modelled functions.

  \<^bold>\<open>Plan.\<close>  Next are the vault's own handlers, the rotation compare-and-swap and pending revocations.
\<close>

end
